(* ===== verification/Prelude.thy ===== *)
theory Prelude
  imports Main "HOL-Library.Word" "HOL-Library.Monad_Syntax"
begin

text \<open>
  Shared vocabulary of the development: the fixed-width integer types of
  \<^verbatim>\<open>include/types.h\<close>, the physical/virtual address conversion of
  \<^verbatim>\<open>include/kernel.h\<close>, the collections of facts the components add to, and the
  generic lemmas on words, lists and function updates that they share.
\<close>

unbundle bit_operations_syntax

section \<open>Types\<close>

type_synonym u8 = "8 word"
type_synonym u16 = "16 word"
type_synonym u32 = "32 word"
type_synonym u64 = "64 word"

named_theorems heap_simps "reading a heap or a memory after a write"
named_theorems step_defs "definitions of operations that proofs unfold"

section \<open>Physical and virtual addresses\<close>

text \<open>
  \<^verbatim>\<open>&KERNEL_SPACE\<close> is a symbol of the linker script; it is the base of the kernel half
  of the address space. Both macros are wrapping 64-bit arithmetic.
\<close>

definition KERNEL_SPACE :: u64 where
  "KERNEL_SPACE = 0xffff800000000000"

definition PHYS2VIRT :: "u64 \<Rightarrow> u64" where
  "PHYS2VIRT x = x + KERNEL_SPACE"

definition VIRT2PHYS :: "u64 \<Rightarrow> u64" where
  "VIRT2PHYS x = x - KERNEL_SPACE"

lemma VIRT2PHYS_PHYS2VIRT [simp]: "VIRT2PHYS (PHYS2VIRT x) = x"
  by (simp add: PHYS2VIRT_def VIRT2PHYS_def)

lemma PHYS2VIRT_VIRT2PHYS [simp]: "PHYS2VIRT (VIRT2PHYS x) = x"
  by (simp add: PHYS2VIRT_def VIRT2PHYS_def)

lemma PHYS2VIRT_inject [simp]: "PHYS2VIRT x = PHYS2VIRT y \<longleftrightarrow> x = y"
  by (simp add: PHYS2VIRT_def)

section \<open>Words\<close>

lemma word_eq_bits: "(x :: 'a::len word) = y \<longleftrightarrow> (\<forall>n < LENGTH('a). bit x n \<longleftrightarrow> bit y n)"
  by (auto intro: bit_word_eqI)

lemma and_flag_eq_0:
  "n < LENGTH('a) \<Longrightarrow> (x :: 'a::len word) AND push_bit n 1 = 0 \<longleftrightarrow> \<not> bit x n"
  unfolding word_eq_bits bit_and_iff bit_push_bit_iff bit_1_iff by auto

lemma or_and_neq_0:
  fixes a b m :: "'a::len word"
  shows "b AND m \<noteq> 0 \<Longrightarrow> (a OR b) AND m \<noteq> 0" "a AND m \<noteq> 0 \<Longrightarrow> (a OR b) AND m \<noteq> 0"
  unfolding word_eq_bits bit_and_iff bit_or_iff by auto

lemma unat_drop_bit: "unat (drop_bit n (w :: 'a::len word)) = unat w div 2 ^ n"
  by (simp add: unsigned_drop_bit_eq take_bit_nat_eq_self flip: drop_bit_eq_div [where 'a = nat])

lemma unat_and_mask: "unat (w AND mask n :: 'a::len word) = unat w mod 2 ^ n"
  by (simp add: unsigned_take_bit_eq flip: take_bit_eq_mask take_bit_eq_mod [where 'a = nat])

lemma numeral_mask:
  "(0x7 :: 'a::len word) = mask 3" "(0xff :: 'a::len word) = mask 8"
  "(0xfff :: 'a::len word) = mask 12" "(0xffff :: 'a::len word) = mask 16"
  "(0xffffffff :: 'a::len word) = mask 32"
  by (simp_all add: mask_eq_exp_minus_1)

lemma unat_plus_no_wrap:
  "unat a + unat b < 2 ^ LENGTH('a) \<Longrightarrow> unat (a + b :: 'a::len word) = unat a + unat b"
  by (simp add: unat_word_ariths)

section \<open>Bytes of memory\<close>

type_synonym bmem = "u64 \<Rightarrow> u8"

text \<open>Little-endian loads and stores of \<^verbatim>\<open>n\<close> bytes through a pointer.\<close>

fun load_le :: "nat \<Rightarrow> bmem \<Rightarrow> u64 \<Rightarrow> u64" where
  "load_le 0 m a = 0"
| "load_le (Suc n) m a = ucast (m a) OR push_bit 8 (load_le n m (a + 1))"

fun store_le :: "nat \<Rightarrow> u64 \<Rightarrow> bmem \<Rightarrow> u64 \<Rightarrow> bmem" where
  "store_le 0 v m a = m"
| "store_le (Suc n) v m a = (store_le n (drop_bit 8 v) m (a + 1))(a := ucast v)"

section \<open>Loads after stores\<close>

lemma store_le_other:
  "\<forall>k<n. b \<noteq> a + of_nat k \<Longrightarrow> store_le n v m a b = m b"
proof (induction n arbitrary: v a)
  case (Suc n)
  have "\<forall>k<n. b \<noteq> a + 1 + of_nat k"
  proof (intro allI impI)
    fix k assume "k < n"
    with Suc.prems have "b \<noteq> a + of_nat (Suc k)" by blast
    then show "b \<noteq> a + 1 + of_nat k" by (simp add: add.assoc)
  qed
  moreover have "b \<noteq> a" using Suc.prems by (drule_tac spec [of _ 0]) simp
  ultimately show ?case using Suc.IH by simp
qed simp

lemma load_le_cong:
  "\<forall>k<n. m (a + of_nat k) = m' (a + of_nat k) \<Longrightarrow> load_le n m a = load_le n m' a"
proof (induction n arbitrary: a)
  case (Suc n)
  have "\<forall>k<n. m (a + 1 + of_nat k) = m' (a + 1 + of_nat k)"
  proof (intro allI impI)
    fix k assume "k < n"
    with Suc.prems have "m (a + of_nat (Suc k)) = m' (a + of_nat (Suc k))" by blast
    then show "m (a + 1 + of_nat k) = m' (a + 1 + of_nat k)" by (simp add: add.assoc)
  qed
  moreover have "m a = m' a" using Suc.prems by (drule_tac spec [of _ 0]) simp
  ultimately show ?case using Suc.IH by simp
qed simp

lemma small_offset_inject:
  "i < 2 ^ 32 \<Longrightarrow> j < 2 ^ 32 \<Longrightarrow> p + of_nat i = p + of_nat j \<longleftrightarrow> i = j" for p :: u64
  by (auto dest!: arg_cong [where f = unat] simp: unsigned_of_nat take_bit_nat_eq_self)

text \<open>A load of some of the stored bytes gives the corresponding bits.\<close>

lemma load_store_prefix: "n \<le> k \<Longrightarrow> k \<le> 8 \<Longrightarrow> load_le n (store_le k v m a) a = take_bit (8 * n) v"
proof (induction n arbitrary: v a k)
  case (Suc n v a k)
  then obtain k' where k: "k = Suc k'" by (cases k) auto
  have other: "load_le n ((store_le k' (drop_bit 8 v) m (a + 1))(a := ucast v)) (a + 1)
      = load_le n (store_le k' (drop_bit 8 v) m (a + 1)) (a + 1)"
  proof (rule load_le_cong, intro allI impI)
    fix j assume "j < n"
    with Suc.prems k have "a + of_nat (Suc j) \<noteq> a + of_nat 0"
      by (subst small_offset_inject) auto
    then have "a + 1 + of_nat j \<noteq> a" by (simp add: add.assoc)
    then show "((store_le k' (drop_bit 8 v) m (a + 1))(a := ucast v)) (a + 1 + of_nat j)
      = store_le k' (drop_bit 8 v) m (a + 1) (a + 1 + of_nat j)" by simp
  qed
  have parts: "ucast (ucast v :: u8) OR push_bit 8 (take_bit (8 * n) (drop_bit 8 v)) = take_bit (8 + 8 * n) v"
    by (rule bit_word_eqI)
      (auto simp: bit_or_iff bit_push_bit_iff bit_take_bit_iff bit_drop_bit_eq bit_ucast_iff)
  from Suc k show ?case by (simp add: other del: fun_upd_apply) (simp add: parts)
qed simp

lemma load_store_part:
  "i + n \<le> k \<Longrightarrow> k \<le> 8 \<Longrightarrow>
   load_le n (store_le k v m a) (a + of_nat i) = take_bit (8 * n) (drop_bit (8 * i) v)"
proof (induction i arbitrary: v a k)
  case 0
  then show ?case by (simp add: load_store_prefix)
next
  case (Suc i v a k)
  then obtain k' where k: "k = Suc k'" by (cases k) auto
  have "load_le n (store_le k v m a) (a + of_nat (Suc i))
      = load_le n (store_le k' (drop_bit 8 v) m (a + 1)) (a + of_nat (Suc i))"
    unfolding k store_le.simps
  proof (rule load_le_cong, intro allI impI)
    fix j assume "j < n"
    with Suc.prems k have "a + of_nat (Suc i + j) \<noteq> a + of_nat 0"
      by (subst small_offset_inject) auto
    then have "a + of_nat (Suc i) + of_nat j \<noteq> a" by (simp add: add.assoc)
    then show "((store_le k' (drop_bit 8 v) m (a + 1))(a := ucast v)) (a + of_nat (Suc i) + of_nat j)
      = store_le k' (drop_bit 8 v) m (a + 1) (a + of_nat (Suc i) + of_nat j)" by simp
  qed
  also have "\<dots> = take_bit (8 * n) (drop_bit (8 * i) (drop_bit 8 v))"
    using Suc.IH [of k' "drop_bit 8 v" "a + 1"] Suc.prems k by (simp add: add.assoc)
  finally show ?case by (simp add: add.commute)
qed

lemma load_store_same: "n \<le> 8 \<Longrightarrow> load_le n (store_le n v m a) a = take_bit (8 * n) v"
  by (rule load_store_prefix) simp_all

lemma load_store_disjoint:
  assumes "i + n \<le> j \<or> j + k \<le> i" "i + n < 2 ^ 32" "j + k < 2 ^ 32"
  shows "load_le n (store_le k v m (p + of_nat j)) (p + of_nat i) = load_le n m (p + of_nat i)"
proof (rule load_le_cong, intro allI impI, rule store_le_other, intro allI impI)
  fix x y assume xy: "x < n" "y < k"
  with assms have "p + of_nat (i + x) \<noteq> p + of_nat (j + y)" by (subst small_offset_inject) auto
  then show "p + of_nat i + of_nat x \<noteq> p + of_nat j + of_nat y" by (simp add: add.assoc)
qed

lemma store_le_take: "8 * n \<le> k \<Longrightarrow> store_le n (take_bit k v) m a = store_le n v m a"
proof (induction n arbitrary: v a k)
  case (Suc n)
  have "drop_bit 8 (take_bit k v) = take_bit (k - 8) (drop_bit 8 v)"
    by (rule bit_word_eqI) (auto simp: bit_simps)
  moreover have "(ucast (take_bit k v) :: u8) = ucast v"
    using Suc.prems by (intro bit_word_eqI) (auto simp: bit_simps)
  ultimately show ?case using Suc by simp
qed simp

section \<open>Error numbers\<close>

text \<open>The error numbers of \<^verbatim>\<open>include/types.h\<close> that the modelled code returns, negated.\<close>

definition ENOENT :: int where "ENOENT = 2"
definition EFAULT :: int where "EFAULT = 14"
definition ENODEV :: int where "ENODEV = 19"
definition EINVAL :: int where "EINVAL = 22"
definition ENOSPC :: int where "ENOSPC = 28"
definition ERANGE :: int where "ERANGE = 34"

lemmas errno_defs = ENOENT_def EFAULT_def ENODEV_def EINVAL_def ENOSPC_def ERANGE_def

section \<open>First-fit searches\<close>

text \<open>The step of a search that has found nothing at \<^verbatim>\<open>i\<close> and goes on behind it.\<close>

lemma first_fit_step:
  fixes i :: nat
  assumes "\<not> P i"
    and "(\<exists>k\<ge>i + 1. r = g k \<and> P k \<and> (\<forall>j\<in>{i + 1..<k}. \<not> P j)) \<or> r = e \<and> (\<forall>j\<ge>i + 1. \<not> P j)"
  shows "(\<exists>k\<ge>i. r = g k \<and> P k \<and> (\<forall>j\<in>{i..<k}. \<not> P j)) \<or> r = e \<and> (\<forall>j\<ge>i. \<not> P j)"
proof -
  have A: "\<not> P j" if "\<forall>j\<in>{i + 1..<k}. \<not> P j" "j \<in> {i..<k}" for j k
    using that assms(1) by (cases "j = i") auto
  have B: "\<not> P j" if "\<forall>j\<ge>i + 1. \<not> P j" "i \<le> j" for j
    using that assms(1) by (cases "j = i") auto
  from assms(2) show ?thesis
  proof (elim disjE exE conjE)
    fix k assume "i + 1 \<le> k" "r = g k" "P k" "\<forall>j\<in>{i + 1..<k}. \<not> P j"
    then show ?thesis using A by (intro disjI1 exI [of _ k]) auto
  next
    assume "r = e" "\<forall>j\<ge>i + 1. \<not> P j"
    then show ?thesis using B by auto
  qed
qed

end
