(* ===== verification/Kernel_List.thy ===== *)
theory Kernel_List
  imports Prelude
begin

text \<open>
  \<^verbatim>\<open>include/list.h\<close>: the circular doubly linked list every kernel object is linked with.
  The heap maps the address of a \<^verbatim>\<open>struct list_head\<close> to its two pointers; each function
  of the header is one definition that performs the same writes in the same order, so that
  aliasing between the arguments has the effect it has in C.
\<close>

section \<open>The heap of list nodes\<close>

record list_head =
  lh_next :: u64
  lh_prev :: u64

type_synonym lheap = "u64 \<Rightarrow> list_head"

definition LIST_POISON1 :: u64 where "LIST_POISON1 = 0x100"
definition LIST_POISON2 :: u64 where "LIST_POISON2 = 0x200"

definition nxt :: "lheap \<Rightarrow> u64 \<Rightarrow> u64" where
  "nxt h p = lh_next (h p)"

definition prv :: "lheap \<Rightarrow> u64 \<Rightarrow> u64" where
  "prv h p = lh_prev (h p)"

definition set_nxt :: "u64 \<Rightarrow> u64 \<Rightarrow> lheap \<Rightarrow> lheap" where
  "set_nxt p v h = h(p := (h p)\<lparr>lh_next := v\<rparr>)"

definition set_prv :: "u64 \<Rightarrow> u64 \<Rightarrow> lheap \<Rightarrow> lheap" where
  "set_prv p v h = h(p := (h p)\<lparr>lh_prev := v\<rparr>)"

lemma nxt_set_nxt [heap_simps]: "nxt (set_nxt p v h) q = (if q = p then v else nxt h q)"
  by (simp add: nxt_def set_nxt_def)

lemma prv_set_nxt [heap_simps]: "prv (set_nxt p v h) q = prv h q"
  by (simp add: prv_def set_nxt_def)

lemma nxt_set_prv [heap_simps]: "nxt (set_prv p v h) q = nxt h q"
  by (simp add: nxt_def set_prv_def)

lemma prv_set_prv [heap_simps]: "prv (set_prv p v h) q = (if q = p then v else prv h q)"
  by (simp add: prv_def set_prv_def)

section \<open>The operations\<close>

definition INIT_LIST_HEAD :: "u64 \<Rightarrow> lheap \<Rightarrow> lheap" where
  "INIT_LIST_HEAD list h = set_prv list list (set_nxt list list h)"

text \<open>\<^verbatim>\<open>__list_add\<close>; \<^verbatim>\<open>__list_add_valid\<close> is constantly true without
  \<^verbatim>\<open>CONFIG_DEBUG_LIST\<close>, which nothing in the repository defines.\<close>

definition list_add_raw :: "u64 \<Rightarrow> u64 \<Rightarrow> u64 \<Rightarrow> lheap \<Rightarrow> lheap" where
  "list_add_raw new prev next h =
     (let h = set_prv next new h;
          h = set_nxt new next h;
          h = set_prv new prev h
      in set_nxt prev new h)"

definition list_add :: "u64 \<Rightarrow> u64 \<Rightarrow> lheap \<Rightarrow> lheap" where
  "list_add new head h = list_add_raw new head (nxt h head) h"

definition list_add_tail :: "u64 \<Rightarrow> u64 \<Rightarrow> lheap \<Rightarrow> lheap" where
  "list_add_tail new head h = list_add_raw new (prv h head) head h"

definition list_del_raw :: "u64 \<Rightarrow> u64 \<Rightarrow> lheap \<Rightarrow> lheap" where
  "list_del_raw prev next h = set_nxt prev next (set_prv next prev h)"

definition list_del_entry :: "u64 \<Rightarrow> lheap \<Rightarrow> lheap" where
  "list_del_entry entry h = list_del_raw (prv h entry) (nxt h entry) h"

definition list_del :: "u64 \<Rightarrow> lheap \<Rightarrow> lheap" where
  "list_del entry h =
     (let h = list_del_entry entry h;
          h = set_nxt entry LIST_POISON1 h
      in set_prv entry LIST_POISON2 h)"

definition list_replace :: "u64 \<Rightarrow> u64 \<Rightarrow> lheap \<Rightarrow> lheap" where
  "list_replace old new h =
     (let h = set_nxt new (nxt h old) h;
          h = set_prv (nxt h new) new h;
          h = set_prv new (prv h old) h
      in set_nxt (prv h new) new h)"

definition list_replace_init :: "u64 \<Rightarrow> u64 \<Rightarrow> lheap \<Rightarrow> lheap" where
  "list_replace_init old new h = INIT_LIST_HEAD old (list_replace old new h)"

definition list_del_init :: "u64 \<Rightarrow> lheap \<Rightarrow> lheap" where
  "list_del_init entry h = INIT_LIST_HEAD entry (list_del_entry entry h)"

definition list_move :: "u64 \<Rightarrow> u64 \<Rightarrow> lheap \<Rightarrow> lheap" where
  "list_move list head h = list_add list head (list_del_entry list h)"

definition list_move_tail :: "u64 \<Rightarrow> u64 \<Rightarrow> lheap \<Rightarrow> lheap" where
  "list_move_tail list head h = list_add_tail list head (list_del_entry list h)"

definition list_is_last :: "u64 \<Rightarrow> u64 \<Rightarrow> lheap \<Rightarrow> bool" where
  "list_is_last list head h \<longleftrightarrow> nxt h list = head"

definition list_empty :: "u64 \<Rightarrow> lheap \<Rightarrow> bool" where
  "list_empty head h \<longleftrightarrow> nxt h head = head"

definition list_empty_careful :: "u64 \<Rightarrow> lheap \<Rightarrow> bool" where
  "list_empty_careful head h \<longleftrightarrow> (let next = nxt h head in next = head \<and> next = prv h head)"

definition list_rotate_left :: "u64 \<Rightarrow> lheap \<Rightarrow> lheap" where
  "list_rotate_left head h =
     (if \<not> list_empty head h then list_move_tail (nxt h head) head h else h)"

definition list_is_singular :: "u64 \<Rightarrow> lheap \<Rightarrow> bool" where
  "list_is_singular head h \<longleftrightarrow> \<not> list_empty head h \<and> nxt h head = prv h head"

definition list_cut_position_raw :: "u64 \<Rightarrow> u64 \<Rightarrow> u64 \<Rightarrow> lheap \<Rightarrow> lheap" where
  "list_cut_position_raw list head entry h =
     (let new_first = nxt h entry;
          h = set_nxt list (nxt h head) h;
          h = set_prv (nxt h list) list h;
          h = set_prv list entry h;
          h = set_nxt entry list h;
          h = set_nxt head new_first h
      in set_prv new_first head h)"

definition list_cut_position :: "u64 \<Rightarrow> u64 \<Rightarrow> u64 \<Rightarrow> lheap \<Rightarrow> lheap" where
  "list_cut_position list head entry h =
     (if list_empty head h then h
      else if list_is_singular head h \<and> nxt h head \<noteq> entry \<and> head \<noteq> entry then h
      else if entry = head then INIT_LIST_HEAD list h
      else list_cut_position_raw list head entry h)"

definition list_splice_raw :: "u64 \<Rightarrow> u64 \<Rightarrow> u64 \<Rightarrow> lheap \<Rightarrow> lheap" where
  "list_splice_raw list prev next h =
     (let first = nxt h list;
          last = prv h list;
          h = set_prv first prev h;
          h = set_nxt prev first h;
          h = set_nxt last next h
      in set_prv next last h)"

definition list_splice :: "u64 \<Rightarrow> u64 \<Rightarrow> lheap \<Rightarrow> lheap" where
  "list_splice list head h =
     (if \<not> list_empty list h then list_splice_raw list head (nxt h head) h else h)"

definition list_splice_tail :: "u64 \<Rightarrow> u64 \<Rightarrow> lheap \<Rightarrow> lheap" where
  "list_splice_tail list head h =
     (if \<not> list_empty list h then list_splice_raw list (prv h head) head h else h)"

definition list_splice_init :: "u64 \<Rightarrow> u64 \<Rightarrow> lheap \<Rightarrow> lheap" where
  "list_splice_init list head h =
     (if \<not> list_empty list h
      then INIT_LIST_HEAD list (list_splice_raw list head (nxt h head) h) else h)"

definition list_splice_tail_init :: "u64 \<Rightarrow> u64 \<Rightarrow> lheap \<Rightarrow> lheap" where
  "list_splice_tail_init list head h =
     (if \<not> list_empty list h
      then INIT_LIST_HEAD list (list_splice_raw list (prv h head) head h) else h)"

section \<open>Iteration\<close>

text \<open>
  \<^verbatim>\<open>list_for_each\<close> (and \<^verbatim>\<open>list_for_each_entry\<close>, whose cursor is the
  containing struct) as the list of cursors the body sees; the loop need not end on a heap that
  is not a proper list, so it is a partial function.
\<close>

partial_function (option) list_for_each_from :: "lheap \<Rightarrow> u64 \<Rightarrow> u64 \<Rightarrow> u64 list option" where
  "list_for_each_from h head pos =
     (if pos = head then Some []
      else do { rest \<leftarrow> list_for_each_from h head (nxt h pos); Some (pos # rest) })"

definition list_for_each :: "u64 \<Rightarrow> lheap \<Rightarrow> u64 list option" where
  "list_for_each head h = list_for_each_from h head (nxt h head)"

partial_function (option) list_for_each_prev_from :: "lheap \<Rightarrow> u64 \<Rightarrow> u64 \<Rightarrow> u64 list option" where
  "list_for_each_prev_from h head pos =
     (if pos = head then Some []
      else do { rest \<leftarrow> list_for_each_prev_from h head (prv h pos); Some (pos # rest) })"

definition list_for_each_prev :: "u64 \<Rightarrow> lheap \<Rightarrow> u64 list option" where
  "list_for_each_prev head h = list_for_each_prev_from h head (prv h head)"

text \<open>
  \<^verbatim>\<open>list_for_each_safe\<close> (and \<^verbatim>\<open>list_for_each_entry_safe\<close>): the next cursor
  is read before the body runs, and the cursor after it is read from the heap the body left.
\<close>

partial_function (option) list_for_each_safe_from ::
    "(u64 \<Rightarrow> lheap \<Rightarrow> lheap) \<Rightarrow> u64 \<Rightarrow> u64 \<Rightarrow> u64 \<Rightarrow> lheap \<Rightarrow> lheap option" where
  "list_for_each_safe_from body head pos n h =
     (if pos = head then Some h
      else (let h' = body pos h in list_for_each_safe_from body head n (nxt h' n) h'))"

definition list_for_each_safe :: "(u64 \<Rightarrow> lheap \<Rightarrow> lheap) \<Rightarrow> u64 \<Rightarrow> lheap \<Rightarrow> lheap option" where
  "list_for_each_safe body head h =
     (let pos = nxt h head in list_for_each_safe_from body head pos (nxt h pos) h)"

section \<open>The abstraction to lists\<close>

fun seg :: "lheap \<Rightarrow> u64 \<Rightarrow> u64 list \<Rightarrow> u64 \<Rightarrow> bool" where
  "seg h p [] q \<longleftrightarrow> nxt h p = q \<and> prv h q = p"
| "seg h p (x # xs) q \<longleftrightarrow> nxt h p = x \<and> prv h x = p \<and> seg h x xs q"

definition clist :: "lheap \<Rightarrow> u64 \<Rightarrow> u64 list \<Rightarrow> bool" where
  "clist h hp xs \<longleftrightarrow> distinct (hp # xs) \<and> seg h hp xs hp"

lemma seg_append: "seg h p (xs @ x # ys) q \<longleftrightarrow> seg h p xs x \<and> seg h x ys q"
  by (induction xs arbitrary: p) auto

lemma seg_snoc: "seg h p (xs @ [x]) q \<longleftrightarrow> seg h p xs x \<and> nxt h x = q \<and> prv h q = x"
  by (simp add: seg_append)

lemma seg_last: "seg h p xs q \<Longrightarrow> nxt h (last (p # xs)) = q \<and> prv h q = last (p # xs)"
  by (induction xs arbitrary: p) auto

lemma seg_hd: "seg h p xs q \<Longrightarrow> nxt h p = hd (xs @ [q]) \<and> prv h (hd (xs @ [q])) = p"
  by (cases xs) auto

lemma seg_cong:
  assumes "\<And>a. a = p \<or> a \<in> set xs \<Longrightarrow> nxt h' a = nxt h a"
    and "\<And>a. a = q \<or> a \<in> set xs \<Longrightarrow> prv h' a = prv h a"
  shows "seg h' p xs q \<longleftrightarrow> seg h p xs q"
  using assms by (induction xs arbitrary: p) auto

lemma seg_unique: "seg h p xs q \<Longrightarrow> seg h p ys q \<Longrightarrow> q \<notin> set xs \<Longrightarrow> q \<notin> set ys \<Longrightarrow> xs = ys"
  by (induction xs arbitrary: p ys) (case_tac ys; auto)+

lemma clist_unique: "clist h hp xs \<Longrightarrow> clist h hp ys \<Longrightarrow> xs = ys"
  by (auto simp: clist_def intro: seg_unique)

lemma clist_frame:
  assumes "clist h hp xs"
    and "\<And>a. a = hp \<or> a \<in> set xs \<Longrightarrow> nxt h' a = nxt h a \<and> prv h' a = prv h a"
  shows "clist h' hp xs"
  using assms seg_cong [of hp xs h' h hp] by (auto simp: clist_def)

section \<open>Adding and removing\<close>

lemma nxt_list_add_raw:
  "nxt (list_add_raw new p q h) a = (if a = p then new else if a = new then q else nxt h a)"
  by (simp add: list_add_raw_def Let_def heap_simps)

lemma prv_list_add_raw:
  "prv (list_add_raw new p q h) a = (if a = new then p else if a = q then new else prv h a)"
  by (simp add: list_add_raw_def Let_def heap_simps)

lemma nxt_list_del_raw: "nxt (list_del_raw p q h) a = (if a = p then q else nxt h a)"
  by (simp add: list_del_raw_def heap_simps)

lemma prv_list_del_raw: "prv (list_del_raw p q h) a = (if a = q then p else prv h a)"
  by (simp add: list_del_raw_def heap_simps)

lemmas link_simps = nxt_list_add_raw prv_list_add_raw nxt_list_del_raw prv_list_del_raw

lemma seg_insert:
  assumes "seg h p xs q" "new \<noteq> p" "new \<noteq> q" "new \<notin> set xs" "distinct (p # xs)" "q \<notin> set xs"
  shows "seg (list_add_raw new (last (p # xs)) q h) p (xs @ [new]) q"
proof (cases xs rule: rev_cases)
  case Nil
  with assms show ?thesis by (simp add: list_add_raw_def Let_def heap_simps)
next
  case (snoc ys y)
  let ?h = "list_add_raw new y q h"
  from assms snoc have old: "seg h p ys y" by (simp add: seg_append)
  from assms snoc have "seg ?h p ys y \<longleftrightarrow> seg h p ys y"
    by (intro seg_cong) (auto simp: link_simps)
  with old have "seg ?h p ys y" by simp
  moreover have "nxt ?h y = new" "prv ?h new = y" "nxt ?h new = q" "prv ?h q = new"
    using assms snoc by (auto simp: list_add_raw_def Let_def heap_simps)
  ultimately have "seg ?h p ((ys @ [y]) @ [new]) q" by (simp add: seg_append del: append_assoc)
  with snoc show ?thesis by simp
qed

lemma clist_insert:
  assumes c: "clist h hp (xs @ ys)" and new: "new \<noteq> hp" "new \<notin> set xs" "new \<notin> set ys"
  shows "clist (list_add_raw new (last (hp # xs)) (hd (ys @ [hp])) h) hp (xs @ new # ys)"
proof (cases ys)
  case Nil
  with assms seg_insert [of h hp xs hp new] show ?thesis by (auto simp: clist_def)
next
  case (Cons y zs)
  let ?h = "list_add_raw new (last (hp # xs)) y h"
  from c Cons have d: "distinct (hp # xs @ y # zs)" and s: "seg h hp xs y" "seg h y zs hp"
    by (auto simp: clist_def seg_append)
  have "seg ?h hp (xs @ [new]) y" using s(1) new d Cons by (intro seg_insert) auto
  moreover have "seg ?h y zs hp \<longleftrightarrow> seg h y zs hp"
  proof (intro seg_cong)
    fix a assume "a = y \<or> a \<in> set zs"
    with d new Cons show "nxt ?h a = nxt h a"
      using last_in_set [of "hp # xs"] by (auto simp: nxt_list_add_raw)
  next
    fix a assume "a = hp \<or> a \<in> set zs"
    with d new Cons show "prv ?h a = prv h a" by (auto simp: prv_list_add_raw)
  qed
  ultimately have "seg ?h hp (xs @ new # y # zs) hp" using s by (simp add: seg_append)
  with d new Cons show ?thesis by (auto simp: clist_def)
qed

lemma seg_unlink:
  assumes "seg h p (xs @ [e]) q" "distinct (p # xs @ [e])" "q \<noteq> e" "q \<notin> set xs"
  shows "seg (list_del_raw (last (p # xs)) q h) p xs q"
proof (cases xs rule: rev_cases)
  case Nil
  with assms show ?thesis by (simp add: list_del_raw_def heap_simps)
next
  case (snoc ys y)
  let ?h = "list_del_raw y q h"
  from assms snoc have old: "seg h p ys y" by (simp add: seg_append)
  from assms snoc have "seg ?h p ys y \<longleftrightarrow> seg h p ys y"
    by (intro seg_cong) (auto simp: link_simps)
  with old have "seg ?h p ys y" by simp
  moreover have "nxt ?h y = q" "prv ?h q = y" by (simp_all add: list_del_raw_def heap_simps)
  ultimately show ?thesis using snoc by (simp add: seg_append)
qed

lemma clist_neighbours:
  assumes "clist h hp (xs @ e # ys)"
  shows "prv h e = last (hp # xs)" "nxt h e = hd (ys @ [hp])"
  using assms seg_last [of h hp xs e] seg_hd [of h e ys hp] by (auto simp: clist_def seg_append)

lemma clist_unlink:
  assumes c: "clist h hp (xs @ e # ys)"
  shows "clist (list_del_entry e h) hp (xs @ ys)"
proof -
  have n: "list_del_entry e h = list_del_raw (last (hp # xs)) (hd (ys @ [hp])) h"
    using clist_neighbours [OF c] by (simp add: list_del_entry_def)
  show ?thesis
  proof (cases ys)
    case Nil
    with c n seg_unlink [of h hp xs e hp] show ?thesis by (auto simp: clist_def)
  next
    case (Cons y zs)
    let ?h = "list_del_raw (last (hp # xs)) y h"
    from c Cons have d: "distinct (hp # xs @ e # y # zs)"
      and s: "seg h hp (xs @ [e]) y" "seg h y zs hp"
      by (auto simp: clist_def seg_append)
    have "seg ?h hp xs y" using s(1) d by (intro seg_unlink) auto
    moreover have "seg ?h y zs hp \<longleftrightarrow> seg h y zs hp"
      using d last_in_set [of "hp # xs"]
      by (intro seg_cong) (auto simp: link_simps)
    ultimately show ?thesis using s d n Cons by (auto simp: clist_def seg_append)
  qed
qed

section \<open>The functional behaviour of each operation\<close>

lemma clist_INIT: "clist (INIT_LIST_HEAD hp h) hp []"
  by (simp add: clist_def INIT_LIST_HEAD_def heap_simps)

lemma clist_INIT_frame:
  "clist h hp xs \<Longrightarrow> a \<notin> set (hp # xs) \<Longrightarrow> clist (INIT_LIST_HEAD a h) hp xs"
  by (erule clist_frame) (auto simp: INIT_LIST_HEAD_def heap_simps)

lemma clist_head: "clist h hp xs \<Longrightarrow> nxt h hp = hd (xs @ [hp]) \<and> prv h hp = last (hp # xs)"
  using seg_hd [of h hp xs hp] seg_last [of h hp xs hp] by (simp add: clist_def)

lemma clist_list_add:
  "clist h hp xs \<Longrightarrow> new \<notin> set (hp # xs) \<Longrightarrow> clist (list_add new hp h) hp (new # xs)"
  using clist_insert [of h hp "[]" xs new] clist_head [of h hp xs] by (simp add: list_add_def)

lemma clist_list_add_tail:
  "clist h hp xs \<Longrightarrow> new \<notin> set (hp # xs) \<Longrightarrow> clist (list_add_tail new hp h) hp (xs @ [new])"
  using clist_insert [of h hp xs "[]" new] clist_head [of h hp xs] by (simp add: list_add_tail_def)

lemma in_last [simp]: "last (x # xs) \<in> insert x (set xs)"
  using last_in_set [of "x # xs"] by simp

lemma in_hd [simp]: "hd (xs @ [x]) \<in> insert x (set xs)"
  using hd_in_set [of "xs @ [x]"] by auto

text \<open>Operations on one list leave every list on other nodes alone.\<close>

lemma clist_list_add_raw_frame:
  "clist h hp xs \<Longrightarrow> new \<notin> set (hp # xs) \<Longrightarrow> p \<notin> set (hp # xs) \<Longrightarrow> q \<notin> set (hp # xs) \<Longrightarrow>
   clist (list_add_raw new p q h) hp xs"
  by (erule clist_frame) (auto simp: link_simps)

lemma clist_list_del_raw_frame:
  "clist h hp xs \<Longrightarrow> p \<notin> set (hp # xs) \<Longrightarrow> q \<notin> set (hp # xs) \<Longrightarrow> clist (list_del_raw p q h) hp xs"
  by (erule clist_frame) (auto simp: link_simps)

lemma clist_list_add_frame:
  assumes "clist h hp xs" "clist h hq ys" "new \<notin> set (hq # ys)" "set (hp # xs) \<inter> set (hq # ys) = {}"
  shows "clist (list_add new hp h) hq ys" "clist (list_add_tail new hp h) hq ys"
proof -
  have out: "a \<notin> set (hq # ys)" if "a \<in> insert hp (set xs)" for a
    using assms(4) that by (metis disjoint_iff list.set(2))
  note hp = out [OF insertI1] and l = out [OF in_last] and n = out [OF in_hd]
  have e: "nxt h hp = hd (xs @ [hp])" "prv h hp = last (hp # xs)"
    using clist_head [OF assms(1)] by simp_all
  show "clist (list_add new hp h) hq ys"
    unfolding list_add_def e(1) by (rule clist_list_add_raw_frame [OF assms(2,3) hp n])
  show "clist (list_add_tail new hp h) hq ys"
    unfolding list_add_tail_def e(2) by (rule clist_list_add_raw_frame [OF assms(2,3) l hp])
qed

lemma clist_list_del_entry_frame:
  assumes c: "clist h hp (xs @ e # ys)" "clist h hq zs"
    and d: "set (hp # xs @ e # ys) \<inter> set (hq # zs) = {}"
  shows "clist (list_del_entry e h) hq zs"
  unfolding list_del_entry_def clist_neighbours [OF c(1)]
  using c(2)
proof (rule clist_list_del_raw_frame)
  show "last (hp # xs) \<notin> set (hq # zs)" using d in_last [of hp xs] by auto
  show "hd (ys @ [hp]) \<notin> set (hq # zs)" using d in_hd [of ys hp] by auto
qed

lemma clist_poke:
  "clist h hp xs \<Longrightarrow> a \<notin> set (hp # xs) \<Longrightarrow> clist (set_nxt a v h) hp xs"
  "clist h hp xs \<Longrightarrow> a \<notin> set (hp # xs) \<Longrightarrow> clist (set_prv a v h) hp xs"
  by (erule clist_frame, auto simp: heap_simps)+

lemma clist_distinct: "clist h hp xs \<Longrightarrow> distinct (hp # xs)"
  by (simp add: clist_def)

lemma clist_list_del:
  assumes c: "clist h hp (xs @ e # ys)"
  shows "clist (list_del e h) hp (xs @ ys)"
    and "nxt (list_del e h) e = LIST_POISON1" "prv (list_del e h) e = LIST_POISON2"
proof -
  have "e \<notin> set (hp # xs @ ys)" using clist_distinct [OF c] by auto
  with clist_unlink [OF c] show "clist (list_del e h) hp (xs @ ys)"
    by (simp add: list_del_def Let_def clist_poke)
qed (simp_all add: list_del_def Let_def heap_simps)

lemma clist_list_del_init:
  assumes c: "clist h hp (xs @ e # ys)"
  shows "clist (list_del_init e h) hp (xs @ ys) \<and> clist (list_del_init e h) e []"
  using clist_unlink [OF c] clist_distinct [OF c]
  by (auto simp: list_del_init_def clist_INIT intro!: clist_INIT_frame)

lemma clist_list_replace:
  assumes c: "clist h hp (xs @ old # ys)" and new: "new \<notin> set (hp # xs @ old # ys)"
  shows "clist (list_replace old new h) hp (xs @ new # ys)"
proof -
  let ?p = "last (hp # xs)" and ?q = "hd (ys @ [hp])"
  let ?h = "list_add_raw new ?p ?q (list_del_entry old h)"
  have d: "distinct (hp # xs @ old # ys)" using c by (rule clist_distinct)
  have "clist ?h hp (xs @ new # ys)" using clist_unlink [OF c] new by (intro clist_insert) auto
  moreover have "?p \<noteq> new" "?q \<noteq> new" "?p \<noteq> old" "?q \<noteq> old"
    using new d in_last [of hp xs] in_hd [of ys hp] by auto
  ultimately show ?thesis
    using new d clist_neighbours [OF c]
    by (elim clist_frame)
      (auto simp: list_replace_def Let_def heap_simps link_simps list_del_entry_def)
qed

lemma clist_list_replace_init:
  assumes c: "clist h hp (xs @ old # ys)" and new: "new \<notin> set (hp # xs @ old # ys)"
  shows "clist (list_replace_init old new h) hp (xs @ new # ys) \<and>
         clist (list_replace_init old new h) old []"
  using clist_list_replace [OF assms] clist_distinct [OF c] new
  by (auto simp: list_replace_init_def clist_INIT intro!: clist_INIT_frame)

lemma clist_list_move:
  assumes c: "clist h hp (xs @ e # ys)"
  shows "clist (list_move e hp h) hp (e # xs @ ys)"
    and "clist (list_move_tail e hp h) hp (xs @ ys @ [e])"
  using clist_unlink [OF c] clist_distinct [OF c]
    clist_list_add [of "list_del_entry e h" hp "xs @ ys" e]
    clist_list_add_tail [of "list_del_entry e h" hp "xs @ ys" e]
  by (auto simp: list_move_def list_move_tail_def)

lemma clist_list_move_tail_other:
  assumes c: "clist h hp (xs @ e # ys)" "clist h hq zs"
    and d: "set (hp # xs @ e # ys) \<inter> set (hq # zs) = {}"
  shows "clist (list_move_tail e hq h) hp (xs @ ys) \<and> clist (list_move_tail e hq h) hq (zs @ [e])"
proof -
  let ?h = "list_del_entry e h"
  have p: "clist ?h hp (xs @ ys)" using c(1) by (rule clist_unlink)
  have q: "clist ?h hq zs" using c d by (rule clist_list_del_entry_frame)
  have e: "e \<notin> set (hp # xs @ ys)" using clist_distinct [OF c(1)] by auto
  show ?thesis
    using clist_list_add_tail [OF q] clist_list_add_frame(2) [OF q p] d e
    by (auto simp: list_move_tail_def)
qed

lemma list_empty_iff: "clist h hp xs \<Longrightarrow> list_empty hp h \<longleftrightarrow> xs = []"
  by (cases xs) (auto simp: list_empty_def clist_def)

lemma list_empty_careful_iff: "clist h hp xs \<Longrightarrow> list_empty_careful hp h \<longleftrightarrow> xs = []"
  by (cases xs) (auto simp: list_empty_careful_def clist_def Let_def)

lemma list_is_singular_iff: "clist h hp xs \<Longrightarrow> list_is_singular hp h \<longleftrightarrow> (\<exists>x. xs = [x])"
proof (cases xs)
  case (Cons x ys)
  assume c: "clist h hp xs"
  have "last (x # ys) = x \<longleftrightarrow> ys = []"
    using clist_distinct [OF c] Cons by (cases ys rule: rev_cases) auto
  with clist_head [OF c] list_empty_iff [OF c] Cons show ?thesis
    by (auto simp: list_is_singular_def)
qed (auto simp: list_is_singular_def list_empty_iff)

lemma list_is_last_iff:
  assumes c: "clist h hp (xs @ e # ys)" shows "list_is_last e hp h \<longleftrightarrow> ys = []"
  using clist_neighbours(2) [OF c] clist_distinct [OF c]
  by (cases ys) (auto simp: list_is_last_def)

lemma clist_list_rotate_left:
  assumes c: "clist h hp (x # xs)" shows "clist (list_rotate_left hp h) hp (xs @ [x])"
  using clist_list_move(2) [of h hp "[]" x xs] list_empty_iff [OF c] clist_head [OF c] c
  by (simp add: list_rotate_left_def)

section \<open>Cutting and splicing\<close>

lemma seg_redirect:
  assumes "seg h p xs q"
    and "\<And>a. a \<in> set (butlast (p # xs)) \<Longrightarrow> nxt h' a = nxt h a"
    and "\<And>a. a \<in> set xs \<Longrightarrow> prv h' a = prv h a"
    and "nxt h' (last (p # xs)) = r" "prv h' r = last (p # xs)"
  shows "seg h' p xs r"
  using assms by (induction xs arbitrary: p) auto

lemma butlast_not_last: "distinct (x # xs) \<Longrightarrow> a \<in> set (butlast (x # xs)) \<Longrightarrow> a \<noteq> last (x # xs)"
  by (induction xs arbitrary: x) (auto dest: in_set_butlastD split: if_splits)

lemma butlast_in: "a \<in> set (butlast (x # xs)) \<Longrightarrow> a \<in> insert x (set xs)"
  using in_set_butlastD [of a "x # xs"] by simp

lemma splice_links:
  assumes "clist h l (y # ys)" "p \<notin> set (l # y # ys)" "q \<notin> set (l # y # ys)"
  shows "nxt (list_splice_raw l p q h) a =
           (if a = last (y # ys) then q else if a = p then y else nxt h a)"
    and "prv (list_splice_raw l p q h) a =
           (if a = q then last (y # ys) else if a = y then p else prv h a)"
proof -
  have e: "nxt h l = y" "prv h l = last (y # ys)" using clist_head [OF assms(1)] by simp_all
  show "nxt (list_splice_raw l p q h) a =
           (if a = last (y # ys) then q else if a = p then y else nxt h a)"
    and "prv (list_splice_raw l p q h) a =
           (if a = q then last (y # ys) else if a = y then p else prv h a)"
    using e by (simp_all add: list_splice_raw_def Let_def heap_simps del: last.simps)
qed

lemma seg_prefix: "seg h p (xs @ zs) q \<Longrightarrow> seg h p xs (hd (zs @ [q]))"
  by (cases zs) (auto simp: seg_append)

lemma clist_splice_raw:
  assumes c: "clist h hp (xs @ zs)" "clist h l (y # ys)"
    and d: "set (hp # xs @ zs) \<inter> set (l # y # ys) = {}"
  shows "clist (list_splice_raw l (last (hp # xs)) (hd (zs @ [hp])) h) hp (xs @ (y # ys) @ zs)"
proof -
  let ?p = "last (hp # xs)" and ?q = "hd (zs @ [hp])"
  define h' where "h' = list_splice_raw l ?p ?q h"
  have dx: "distinct (hp # xs @ zs)" and dy: "distinct (l # y # ys)"
    using clist_distinct [OF c(1)] clist_distinct [OF c(2)] by auto
  have p: "?p \<in> insert hp (set xs)" and q: "?q \<in> insert hp (set zs)"
    and e: "last (y # ys) \<in> insert y (set ys)" by (rule in_last in_hd)+
  have pn: "?p \<notin> set (l # y # ys)" using p d by (auto simp del: last.simps)
  have qn: "?q \<notin> set (l # y # ys)" using q d by (auto simp del: last.simps)
  have s0: "seg h hp xs ?q" using c(1) seg_prefix [of h hp xs zs hp] by (simp add: clist_def)
  have sy: "seg h y ys l" using c(2) by (simp add: clist_def)
  note links = splice_links [OF c(2) pn qn, folded h'_def]
  have "seg h' hp xs y"
  proof (rule seg_redirect [OF s0])
    fix a assume "a \<in> set (butlast (hp # xs))"
    then show "nxt h' a = nxt h a"
      using butlast_not_last [of hp xs a] butlast_in [of a hp xs] dx d e
      by (auto simp: links simp del: last.simps butlast.simps)
  next
    fix a assume "a \<in> set xs"
    then show "prv h' a = prv h a"
      using q dx d by (auto simp: links simp del: last.simps)
  qed (use pn qn e in \<open>auto simp: links simp del: last.simps\<close>)
  moreover have "seg h' y ys ?q"
  proof (rule seg_redirect [OF sy])
    fix a assume "a \<in> set (butlast (y # ys))"
    then show "nxt h' a = nxt h a"
      using butlast_not_last [of y ys a] butlast_in [of a y ys] dy pn
      by (auto simp: links simp del: last.simps butlast.simps)
  next
    fix a assume "a \<in> set ys"
    then show "prv h' a = prv h a"
      using qn dy by (auto simp: links simp del: last.simps)
  qed (auto simp: links simp del: last.simps)
  ultimately have s1: "seg h' hp (xs @ y # ys) ?q" by (simp add: seg_append)
  have "clist h' hp (xs @ (y # ys) @ zs)"
  proof (cases zs)
    case Nil
    with s1 dx dy d show ?thesis by (auto simp: clist_def simp del: last.simps)
  next
    case (Cons z zs')
    have "seg h' z zs' hp \<longleftrightarrow> seg h z zs' hp"
    proof (intro seg_cong)
      fix a assume "a = z \<or> a \<in> set zs'"
      then show "nxt h' a = nxt h a" using Cons p e dx d by (auto simp: links simp del: last.simps)
    next
      fix a assume "a = hp \<or> a \<in> set zs'"
      then show "prv h' a = prv h a" using Cons dx d by (auto simp: links simp del: last.simps)
    qed
    moreover have "seg h z zs' hp" using c(1) Cons by (simp add: clist_def seg_append)
    ultimately have "seg h' hp ((xs @ y # ys) @ z # zs') hp"
      using s1 Cons by (simp add: seg_append del: append_assoc)
    with dx dy d Cons show ?thesis by (auto simp: clist_def simp del: last.simps)
  qed
  then show ?thesis by (simp add: h'_def)
qed

lemma clist_list_splice:
  assumes c: "clist h hp xs" "clist h l ys" and d: "set (hp # xs) \<inter> set (l # ys) = {}"
  shows "clist (list_splice l hp h) hp (ys @ xs)" "clist (list_splice_tail l hp h) hp (xs @ ys)"
    "clist (list_splice_init l hp h) hp (ys @ xs) \<and> clist (list_splice_init l hp h) l []"
    "clist (list_splice_tail_init l hp h) hp (xs @ ys) \<and>
     clist (list_splice_tail_init l hp h) l []"
proof -
  have e: "nxt h hp = hd (xs @ [hp])" "prv h hp = last (hp # xs)" "list_empty l h \<longleftrightarrow> ys = []"
    using clist_head [OF c(1)] list_empty_iff [OF c(2)] by simp_all
  have f: "clist (list_splice_raw l hp (nxt h hp) h) hp (ys @ xs)"
    "clist (list_splice_raw l (prv h hp) hp h) hp (xs @ ys)" if "ys \<noteq> []"
    using that c d clist_splice_raw [of h hp "[]" xs l "hd ys" "tl ys"]
      clist_splice_raw [of h hp xs "[]" l "hd ys" "tl ys"] e by simp_all
  have l: "l \<notin> set (hp # ys @ xs)" using d clist_distinct [OF c(2)] by auto
  show "clist (list_splice l hp h) hp (ys @ xs)" "clist (list_splice_tail l hp h) hp (xs @ ys)"
    "clist (list_splice_init l hp h) hp (ys @ xs) \<and> clist (list_splice_init l hp h) l []"
    "clist (list_splice_tail_init l hp h) hp (xs @ ys) \<and>
     clist (list_splice_tail_init l hp h) l []"
    using e(3) f c l
    by (auto simp: list_splice_def list_splice_tail_def list_splice_init_def
        list_splice_tail_init_def clist_INIT intro: clist_INIT_frame)
qed

lemma cut_links:
  assumes "clist h hp (x # xs)" "l \<notin> set (hp # x # xs)" "e \<in> set (x # xs)"
  shows "nxt (list_cut_position_raw l hp e h) a =
           (if a = hp then nxt h e else if a = e then l else if a = l then x else nxt h a)"
    and "prv (list_cut_position_raw l hp e h) a =
           (if a = nxt h e then hp else if a = l then e else if a = x then l else prv h a)"
  using clist_head [OF assms(1)] clist_distinct [OF assms(1)] assms(2,3)
  by (auto simp: list_cut_position_raw_def Let_def heap_simps)

lemma clist_list_cut_position:
  assumes c: "clist h hp (xs @ e # ys)" and l: "l \<notin> set (hp # xs @ e # ys)"
  shows "clist (list_cut_position l hp e h) l (xs @ [e]) \<and>
         clist (list_cut_position l hp e h) hp ys"
proof -
  obtain x zs where x: "xs @ [e] = x # zs" by (cases "xs @ [e]") auto
  then have x': "xs @ e # ys = x # zs @ ys" by (metis append.assoc append_Cons append_Nil)
  have d: "distinct (hp # x # zs @ ys)" using clist_distinct [OF c] x' by simp
  have e: "e = last (x # zs)" "e \<in> set (x # zs @ ys)" using x by (metis last_snoc, auto simp flip: x')
  define h' where "h' = list_cut_position_raw l hp e h"
  have E: "list_cut_position l hp e h = h'" unfolding h'_def
    using list_empty_iff [OF c] list_is_singular_iff [OF c] clist_head [OF c] e(2) d
    by (auto simp: list_cut_position_def append_eq_Cons_conv)
  have cx: "clist h hp (x # zs @ ys)" using c x' by simp
  have n: "nxt h e = hd (ys @ [hp])" using clist_neighbours(2) [OF c] .
  have l': "l \<notin> set (hp # x # zs @ ys)" using l x' by simp
  have links: "nxt h' a = (if a = hp then hd (ys @ [hp]) else if a = e then l else if a = l then x else nxt h a)"
    "prv h' a = (if a = hd (ys @ [hp]) then hp else if a = l then e else if a = x then l else prv h a)" for a
    using cut_links [OF cx l' e(2), folded h'_def] n by simp_all
  have q: "hd (ys @ [hp]) \<in> insert hp (set ys)" by (rule in_hd)
  have s: "seg h x zs (hd (ys @ [hp]))"
    using cx seg_prefix [of h x zs ys hp] by (simp add: clist_def)
  have "seg h' x zs l"
  proof (rule seg_redirect [OF s])
    fix a assume a: "a \<in> set (butlast (x # zs))"
    show "nxt h' a = nxt h a"
      using butlast_not_last [OF _ a] butlast_in [OF a] d l' e(1) by (auto simp: links simp del: last.simps)
  next
    fix a assume "a \<in> set zs"
    then show "prv h' a = prv h a" using d l' q by (auto simp: links)
  qed (use d l' q e in \<open>auto simp: links simp flip: e(1)\<close>)
  moreover have "e \<noteq> l" using e(2) l' by auto
  ultimately have 1: "clist h' l (x # zs)" using d l' q by (auto simp: clist_def links)
  have "clist h' hp ys"
  proof (cases ys)
    case Nil then show ?thesis by (simp add: clist_def links)
  next
    case (Cons z ys')
    have "e \<in> set (x # zs)" using e(1) by (metis last_in_set list.distinct(1))
    then have "seg h' z ys' hp \<longleftrightarrow> seg h z ys' hp"
      using Cons d l' by (intro seg_cong) (auto simp: links)
    moreover have "seg h z ys' hp" using cx Cons by (simp add: clist_def seg_append)
    ultimately show ?thesis using Cons d by (simp add: clist_def links)
  qed
  with 1 E x show ?thesis by simp
qed

section \<open>Iteration\<close>

lemma list_for_each_from_seg:
  "seg h p xs q \<Longrightarrow> q \<notin> set xs \<Longrightarrow> list_for_each_from h q (nxt h p) = Some xs"
proof (induction xs arbitrary: p)
  case Nil
  then show ?case by (simp add: list_for_each_from.simps [of h q q])
next
  case (Cons x xs)
  then show ?case by (auto simp: list_for_each_from.simps [of h q x])
qed

lemma list_for_each_prev_from_seg:
  "seg h p xs q \<Longrightarrow> p \<notin> set xs \<Longrightarrow> list_for_each_prev_from h p (prv h q) = Some (rev xs)"
proof (induction xs arbitrary: q rule: rev_induct)
  case Nil
  then show ?case by (simp add: list_for_each_prev_from.simps [of h p p])
next
  case (snoc x xs)
  then show ?case by (auto simp: list_for_each_prev_from.simps [of h p x] seg_append)
qed

lemma list_for_each_safe_from_filter:
  assumes del: "\<And>h us e vs. clist h hp (us @ e # vs) \<Longrightarrow> clist (del e h) hp (us @ vs)"
    and "clist h hp (xs @ ys)"
  shows "\<exists>h'. list_for_each_safe_from (\<lambda>e h. if P e then del e h else h) hp
                (hd (ys @ [hp])) (nxt h (hd (ys @ [hp]))) h = Some h' \<and>
             clist h' hp (xs @ filter (\<lambda>e. \<not> P e) ys)"
  using assms(2)
proof (induction ys arbitrary: xs h)
  case Nil
  then show ?case by (simp add: list_for_each_safe_from.simps [of _ hp hp])
next
  case (Cons y ys)
  let ?h = "if P y then del y h else h" and ?xs = "if P y then xs else xs @ [y]"
  have "clist ?h hp (?xs @ ys)" using Cons.prems del by simp
  from Cons.IH [OF this] show ?case
    using clist_neighbours(2) [OF Cons.prems] clist_distinct [OF Cons.prems]
    by (auto simp: list_for_each_safe_from.simps [of _ hp y] split: if_splits)
qed

section \<open>The contract of an intrusive queue\<close>

text \<open>
  What the users of \<^verbatim>\<open>list.h\<close> rely on: a representation relation, the empty queue, a
  push at the tail and the removal of a node wherever it stands.
\<close>

locale intrusive_queue =
  fixes repr :: "'heap \<Rightarrow> 'node \<Rightarrow> 'node list \<Rightarrow> bool"
    and init :: "'node \<Rightarrow> 'heap \<Rightarrow> 'heap"
    and push :: "'node \<Rightarrow> 'node \<Rightarrow> 'heap \<Rightarrow> 'heap"
    and remove :: "'node \<Rightarrow> 'heap \<Rightarrow> 'heap"
  assumes repr_init: "repr (init q h) q []"
    and repr_push: "repr h q xs \<Longrightarrow> n \<notin> set (q # xs) \<Longrightarrow> repr (push n q h) q (xs @ [n])"
    and repr_remove: "repr h q (xs @ n # ys) \<Longrightarrow> repr (remove n h) q (xs @ ys)"
    and repr_distinct: "repr h q xs \<Longrightarrow> distinct (q # xs)"
begin

lemma push_all:
  "repr h q xs \<Longrightarrow> distinct (q # xs @ ns) \<Longrightarrow> repr (fold (\<lambda>n. push n q) ns h) q (xs @ ns)"
proof (induction ns arbitrary: h xs)
  case (Cons n ns)
  then have "repr (push n q h) q (xs @ [n])" by (auto intro: repr_push)
  from Cons.IH [OF this] Cons.prems show ?case by simp
qed simp

lemma remove_set: "repr h q xs \<Longrightarrow> n \<in> set xs \<Longrightarrow> repr (remove n h) q (remove1 n xs)"
proof -
  assume r: "repr h q xs" and "n \<in> set xs"
  then obtain us vs where xs: "xs = us @ n # vs" "n \<notin> set us" by (metis split_list_first)
  with repr_remove [of h q us n vs] r show ?thesis by (simp add: remove1_append)
qed

lemma requeue:
  assumes "repr h q (n # xs)" shows "repr (push n q (remove n h)) q (xs @ [n])"
  using repr_remove [of h q "[]" n xs] repr_push [of "remove n h" q xs n] repr_distinct [OF assms]
    assms by auto

end

interpretation deleting: intrusive_queue clist INIT_LIST_HEAD list_add_tail list_del
  by unfold_locales (fact clist_INIT clist_list_add_tail clist_list_del(1) clist_distinct)+

interpretation reinit: intrusive_queue clist INIT_LIST_HEAD list_add_tail list_del_init
  by unfold_locales
    (fact clist_INIT clist_list_add_tail clist_distinct conjunct1 [OF clist_list_del_init])+

section \<open>Properties\<close>

text \<open>C8. Every editing operation of \<^verbatim>\<open>list.h\<close> refines the list operation it stands for:
  on a heap in which the head \<^verbatim>\<open>hp\<close> carries a well-formed circular list and
  \<^verbatim>\<open>new\<close> is not on it, insertion at either end, deletion, re-initialising deletion,
  replacement, the two moves and the rotation leave a well-formed list with the expected
  contents, and the deleted node is poisoned or self-linked.\<close>

theorem list_edit_refines:
  assumes "clist h hp (xs @ e # ys)" and "new \<notin> set (hp # xs @ e # ys)"
  shows "clist (list_add new hp h) hp (new # xs @ e # ys) \<and>
    clist (list_add_tail new hp h) hp (xs @ e # ys @ [new]) \<and>
    clist (list_del e h) hp (xs @ ys) \<and>
    nxt (list_del e h) e = LIST_POISON1 \<and> prv (list_del e h) e = LIST_POISON2 \<and>
    clist (list_del_init e h) hp (xs @ ys) \<and> clist (list_del_init e h) e [] \<and>
    clist (list_replace_init e new h) hp (xs @ new # ys) \<and>
    clist (list_replace_init e new h) e [] \<and>
    clist (list_move e hp h) hp (e # xs @ ys) \<and>
    clist (list_move_tail e hp h) hp (xs @ ys @ [e]) \<and>
    clist (list_rotate_left hp h) hp (tl (xs @ e # ys) @ [hd (xs @ e # ys)])"
  using assms clist_list_add [OF assms] clist_list_add_tail [OF assms] clist_list_del [OF assms(1)]
    clist_list_del_init [OF assms(1)] clist_list_replace_init [OF assms]
    clist_list_move [OF assms(1)]
    clist_list_rotate_left [of h hp "hd (xs @ e # ys)" "tl (xs @ e # ys)"]
  by (cases xs) auto

text \<open>Cutting a list after a node and splicing the cut-off part back at the front restores
  the list: \<^verbatim>\<open>list_splice_init\<close> inverts \<^verbatim>\<open>list_cut_position\<close>, and the
  temporary head is empty again.\<close>

theorem list_cut_splice_roundtrip:
  assumes "clist h hp (xs @ e # ys)" and "l \<notin> set (hp # xs @ e # ys)"
  shows "clist (list_splice_init l hp (list_cut_position l hp e h)) hp (xs @ e # ys) \<and>
         clist (list_splice_init l hp (list_cut_position l hp e h)) l []"
  using clist_list_cut_position [OF assms] clist_distinct [OF assms(1)] assms(2)
    clist_list_splice(3) [of "list_cut_position l hp e h" hp ys l "xs @ [e]"]
  by auto

text \<open>The \<^verbatim>\<open>_safe\<close> iteration ends on every well-formed list although its body
  deletes nodes while it walks, and leaves exactly the nodes the body kept, in order; a plain
  \<^verbatim>\<open>list_for_each\<close> (and the backward one) over the result visits exactly those.\<close>

theorem list_for_each_safe_deletes:
  assumes "clist h hp xs"
  shows "\<exists>h'. list_for_each_safe (\<lambda>e h. if P e then list_del e h else h) hp h = Some h' \<and>
              clist h' hp (filter (\<lambda>e. \<not> P e) xs) \<and>
              list_for_each hp h' = Some (filter (\<lambda>e. \<not> P e) xs) \<and>
              list_for_each_prev hp h' = Some (rev (filter (\<lambda>e. \<not> P e) xs))"
proof -
  from list_for_each_safe_from_filter [of hp list_del h "[]" xs P] assms clist_list_del(1)
  obtain h' where h': "list_for_each_safe (\<lambda>e h. if P e then list_del e h else h) hp h = Some h'"
      "clist h' hp (filter (\<lambda>e. \<not> P e) xs)"
    using clist_head [OF assms] by (auto simp: list_for_each_safe_def)
  then show ?thesis
    using list_for_each_from_seg [of h' hp _ hp] list_for_each_prev_from_seg [of h' hp _ hp]
    by (auto simp: list_for_each_def list_for_each_prev_def clist_def)
qed

section \<open>Witnesses\<close>

definition demo_heap :: lheap where
  "demo_heap = fold (\<lambda>n. list_add_tail n 0x10) [0x20, 0x30, 0x40]
     (INIT_LIST_HEAD 0x10 (\<lambda>_. \<lparr>lh_next = 0, lh_prev = 0\<rparr>))"

lemma demo_heap: "clist demo_heap 0x10 [0x20, 0x30, 0x40]"
  using deleting.push_all [OF clist_INIT, where q = "0x10" and ns = "[0x20, 0x30, 0x40]"]
  by (simp add: demo_heap_def)

lemma list_edit_refines_witness: "clist (list_del 0x30 demo_heap) 0x10 [0x20, 0x40]"
  using list_edit_refines
    [where h = demo_heap and hp = "0x10" and xs = "[0x20]" and e = "0x30" and ys = "[0x40]" and
      new = "0x50"] demo_heap by simp

lemma list_cut_splice_roundtrip_witness:
  "clist (list_splice_init 0x50 0x10 (list_cut_position 0x50 0x10 0x30 demo_heap)) 0x10
     [0x20, 0x30, 0x40]"
  using list_cut_splice_roundtrip
    [where h = demo_heap and hp = "0x10" and xs = "[0x20]" and e = "0x30" and ys = "[0x40]" and
      l = "0x50"] demo_heap by simp

lemma list_for_each_safe_deletes_witness:
  "\<exists>h'. list_for_each_safe (\<lambda>e h. if e = 0x30 then list_del e h else h) 0x10 demo_heap = Some h' \<and>
        list_for_each 0x10 h' = Some [0x20, 0x40]"
  using list_for_each_safe_deletes [OF demo_heap, where P = "\<lambda>e. e = 0x30"] by auto

end
