(* ===== verification/Math_Util.thy ===== *)
theory Math_Util
  imports Prelude
begin

text \<open>
  \<^verbatim>\<open>include/math.h\<close>: rounding macros and bit counting on machine integers. Signed
  arguments are words read through \<^verbatim>\<open>sint\<close> where the code's meaning depends on the sign.
\<close>

definition roundup :: "u64 \<Rightarrow> u64 \<Rightarrow> u64" where
  "roundup x y = ((x + (y - 1)) div y) * y"

definition rounddown :: "u64 \<Rightarrow> u64 \<Rightarrow> u64" where
  "rounddown x y = (x div y) * y"

definition div_round_up :: "u64 \<Rightarrow> u64 \<Rightarrow> u64" where
  "div_round_up n d = (n + d - 1) div d"

text \<open>The statement \<^verbatim>\<open>r << 1;\<close> of the loop has no effect.\<close>

function order2_to_int_loop :: "u32 \<Rightarrow> u32 \<Rightarrow> u32" where
  "order2_to_int_loop order r = (if order = 0 then r else order2_to_int_loop (order - 1) r)"
  by auto
termination
  by (relation "measure (\<lambda>(n, _). unat n)") (auto simp: unat_minus_one unat_gt_0)

declare order2_to_int_loop.simps [simp del]

definition order2_to_int :: "u32 \<Rightarrow> u32" where
  "order2_to_int order = order2_to_int_loop order 1"

definition weight32 :: "u32 \<Rightarrow> u32" where
  "weight32 num =
     (let res = (num AND 0x55555555) + (signed_drop_bit 1 num AND 0x55555555);
          res = (res AND 0x33333333) + (signed_drop_bit 2 res AND 0x33333333);
          res = (res AND 0x0f0f0f0f) + (signed_drop_bit 4 res AND 0x0f0f0f0f);
          res = (res AND 0x00ff00ff) + (signed_drop_bit 8 res AND 0x00ff00ff)
      in (res AND 0x0000ffff) + (signed_drop_bit 16 res AND 0x0000ffff))"

function order_base_2 :: "u64 \<Rightarrow> u64" where
  "order_base_2 num = (if num div 2 \<noteq> 0 then order_base_2 (num div 2) + 1 else 0)"
  by auto
termination
proof (relation "measure unat")
  fix num :: u64
  assume "num div 2 \<noteq> 0"
  then have "num \<noteq> 0" by auto
  then show "(num div 2, num) \<in> measure unat" by (simp add: unat_div_distrib unat_gt_0)
qed simp

declare order_base_2.simps [simp del]

text \<open>\<^verbatim>\<open>(value >> i) & 0x1 == 1\<close> parses as \<^verbatim>\<open>(value >> i) & (0x1 == 1)\<close>.\<close>

definition count_bits :: "u64 \<Rightarrow> u64" where
  "count_bits value =
     fold (\<lambda>i bits. if drop_bit i value AND (if (0x1 :: u64) = 1 then 1 else 0) \<noteq> 0 then bits + 1 else bits)
       [0..<8 * 8] 0"

text \<open>The loop of \<^verbatim>\<open>ffs\<close> with \<^verbatim>\<open>(int)num > 0\<close> as its condition; 32 shifts
  empty the low half, which bounds it.\<close>

fun ffs_loop :: "nat \<Rightarrow> u64 \<Rightarrow> u64 \<Rightarrow> u64 option" where
  "ffs_loop 0 num bit_index = None"
| "ffs_loop (Suc fuel) num bit_index =
     (if 0 < sint (ucast num :: u32) then ffs_loop fuel (push_bit 1 num) (bit_index - 1)
      else Some bit_index)"

definition ffs :: "u64 \<Rightarrow> u64 option" where
  "ffs num = (if num = 0 then Some (- 1) else ffs_loop 33 num 31)"

definition sign_extend64 :: "u64 \<Rightarrow> u8 \<Rightarrow> u64" where
  "sign_extend64 value index =
     (let shift = 63 - index in signed_drop_bit (unat shift) (push_bit (unat shift) value))"

section \<open>What they compute\<close>

lemma order2_to_int_is_1: "order2_to_int order = 1"
proof -
  have "order2_to_int_loop n r = r" for n r
    by (induction n r rule: order2_to_int_loop.induct) (simp add: order2_to_int_loop.simps)
  then show ?thesis by (simp add: order2_to_int_def)
qed

lemma order_base_2_bounds:
  "num \<noteq> 0 \<Longrightarrow> 2 ^ unat (order_base_2 num) \<le> unat num \<and> unat num < 2 ^ (unat (order_base_2 num) + 1)"
proof (induction num rule: order_base_2.induct)
  case (1 num)
  have half: "unat (num div 2) = unat num div 2" by (simp add: unat_div_distrib)
  show ?case
  proof (cases "num div 2 = 0")
    case True
    then have "unat num div 2 = 0" using half by simp
    moreover have "unat num \<noteq> 0" using 1(2) by (simp add: unat_eq_0)
    ultimately show ?thesis using True by (simp add: order_base_2.simps [of num])
  next
    case False
    define k where "k = unat (order_base_2 (num div 2))"
    have k: "2 ^ k \<le> unat num div 2" "unat num div 2 < 2 ^ (k + 1)"
      using 1(1) [OF False False] half by (simp_all add: k_def)
    have "unat num < 2 ^ 64" using unsigned_less [of num, where ?'a = nat] by simp
    with k(1) have "(2 :: nat) ^ k < 2 ^ 64" by linarith
    then have "k < 64" by (rule power_less_imp_less_exp [rotated]) simp
    then have "unat (order_base_2 num) = k + 1"
      using False by (subst order_base_2.simps) (simp add: unat_plus_no_wrap k_def [symmetric])
    moreover have "2 * 2 ^ k \<le> unat num" "unat num < 2 * (2 * 2 ^ k)"
      using k by (simp_all add: less_eq_div_iff_mult_less_eq div_less_iff_less_mult mult.commute)
    ultimately show ?thesis by simp
  qed
qed

lemma count_bits_popcount: "unat (count_bits value) = card {i. i < 64 \<and> bit value i}"
proof -
  have odd: "(drop_bit i value AND 1 \<noteq> 0) \<longleftrightarrow> bit value i" for i
    by (simp add: and_one_eq bit_iff_odd_drop_bit odd_iff_mod_2_eq_one)
  have "unat (fold (\<lambda>i bits. if bit value i then bits + 1 else bits) [0..<n] (0 :: u64)) =
      card {i. i < n \<and> bit value i}" if "n \<le> 64" for n
    using that
  proof (induction n)
    case (Suc n)
    have "{i. i < Suc n \<and> bit value i} = {i. i < n \<and> bit value i} \<union> (if bit value n then {n} else {})"
      by (auto simp: less_Suc_eq)
    moreover have "card {i. i < n \<and> bit value i} \<le> n"
      using card_mono [of "{..<n}" "{i. i < n \<and> bit value i}"] by auto
    ultimately show ?case
      using Suc by (auto simp: unat_plus_no_wrap)
  qed simp
  then show ?thesis by (simp add: count_bits_def odd)
qed

lemma sint_pos_iff: "0 < sint (w :: u32) \<longleftrightarrow> \<not> bit w 31 \<and> w \<noteq> 0"
proof -
  have "bit w 31 \<longleftrightarrow> sint w < 0" using bit_last_iff [of w] by simp
  moreover have "sint w = 0 \<longleftrightarrow> w = 0" by (rule signed_eq_0_iff)
  ultimately show ?thesis by linarith
qed

text \<open>The position of the highest set bit of the low half, which is what
  \<^verbatim>\<open>ffs\<close> looks for.\<close>

definition top_bit :: "u64 \<Rightarrow> nat \<Rightarrow> bool" where
  "top_bit num h \<longleftrightarrow> h < 32 \<and> bit num h \<and> (\<forall>k. h < k \<and> k < 32 \<longrightarrow> \<not> bit num k)"

lemma ffs_loop_top:
  "top_bit num h \<Longrightarrow> 31 - h < fuel \<Longrightarrow> ffs_loop fuel num idx = Some (idx - of_nat (31 - h))"
proof (induction fuel arbitrary: num h idx)
  case (Suc fuel)
  have low: "bit (ucast num :: u32) k \<longleftrightarrow> k < 32 \<and> bit num k" for k by (auto simp: bit_simps)
  show ?case
  proof (cases "h = 31")
    case True
    then have "\<not> 0 < sint (ucast num :: u32)" using Suc.prems by (simp add: sint_pos_iff low top_bit_def)
    then show ?thesis using True by simp
  next
    case False
    then have h: "h < 31" and b: "bit num h" "\<not> bit num 31" using Suc.prems(1) by (auto simp: top_bit_def)
    have "(ucast num :: u32) \<noteq> 0" using h b(1) low [of h] by auto
    then have pos: "0 < sint (ucast num :: u32)" using b(2) by (simp add: sint_pos_iff low)
    have "top_bit (push_bit 1 num) (h + 1)"
      using Suc.prems(1) h unfolding top_bit_def bit_push_bit_iff
      by (auto simp: possible_bit_def not_less less_Suc_eq_le elim!: allE [where x = "_ - Suc 0"])
    from Suc.IH [OF this, of "idx - 1"] Suc.prems(2) h pos show ?thesis
      by (simp add: of_nat_diff)
  qed
qed simp

lemma ffs_top:
  assumes "top_bit num h" shows "ffs num = Some (of_nat h)"
proof -
  have "num \<noteq> 0" using assms by (auto simp: top_bit_def)
  moreover have "h < 32" using assms by (simp add: top_bit_def)
  ultimately show ?thesis using ffs_loop_top [OF assms, of 33 31] by (simp add: ffs_def of_nat_diff)
qed

lemma ffs_high_only: "num \<noteq> 0 \<Longrightarrow> \<forall>k < 32. \<not> bit num k \<Longrightarrow> ffs num = Some 31"
proof -
  assume a: "num \<noteq> 0" "\<forall>k < 32. \<not> bit num k"
  then have "(ucast num :: u32) = 0" by (simp add: word_eq_bits bit_simps)
  then show ?thesis using a(1) by (simp add: ffs_def numeral_eq_Suc)
qed

text \<open>Sign extension from bit \<^verbatim>\<open>index\<close>, the one the nested VMX code relies on.\<close>

lemma sign_extend64_bits:
  assumes "index < 64"
  shows "bit (sign_extend64 value index) n \<longleftrightarrow> n < 64 \<and> bit value (min n (unat index))"
proof -
  have i: "unat index < 64" using assms by (simp add: word_less_nat_alt)
  then have "unat (63 - index) = 63 - unat index"
    by (subst unat_sub) (simp_all add: word_le_nat_alt)
  with i show ?thesis
    by (auto simp: sign_extend64_def bit_simps min_def)
qed

end
