(* ===== verification/Bitmap.thy ===== *)
theory Bitmap
  imports Math_Util
begin

text \<open>
  \<^verbatim>\<open>include/bitmap.h\<close>: the bit allocator behind interrupt vectors and GPU memory. The data
  array is a function from the byte index, the \<^verbatim>\<open>int\<close> counters are naturals (the
  properties assume sizes below \<^verbatim>\<open>2 ^ 31\<close>, where they cannot wrap) and comparisons
  with the 64-bit arguments are made at 64 bits, as the usual conversions do.
\<close>

record bitmap =
  bitmap_data :: "u64 \<Rightarrow> u8"
  bitmap_size :: u64

definition bitmap_get :: "bitmap \<Rightarrow> u64 \<Rightarrow> bool" where
  "bitmap_get bm b \<longleftrightarrow> bitmap_data bm (drop_bit 3 b) AND push_bit (unat (b AND 0x7)) 1 \<noteq> 0"

definition bitmap_set :: "u64 \<Rightarrow> bitmap \<Rightarrow> bitmap" where
  "bitmap_set b bm = bm\<lparr>bitmap_data := (bitmap_data bm)(drop_bit 3 b :=
     bitmap_data bm (drop_bit 3 b) OR push_bit (unat (b AND 0x7)) 1)\<rparr>"

definition bitmap_clear :: "u64 \<Rightarrow> bitmap \<Rightarrow> bitmap" where
  "bitmap_clear b bm = bm\<lparr>bitmap_data := (bitmap_data bm)(drop_bit 3 b :=
     bitmap_data bm (drop_bit 3 b) AND NOT (push_bit (unat (b AND 0x7)) 1))\<rparr>"

definition bitmap_init :: "bitmap \<Rightarrow> u64 \<Rightarrow> bitmap" where
  "bitmap_init bm sz =
     fold (\<lambda>i bm. bm\<lparr>bitmap_data := (bitmap_data bm)(of_nat i := 0)\<rparr>)
       [0..<unat (sz div 8)] (bm\<lparr>bitmap_size := sz\<rparr>)"

text \<open>The inner loop of \<^verbatim>\<open>bitmap_find_free\<close>: \<^verbatim>\<open>x & (1 << j) == 0\<close>
  parses as \<^verbatim>\<open>x & ((1 << j) == 0)\<close>.\<close>

definition bitmap_find_free_byte :: "u8 \<Rightarrow> nat \<Rightarrow> nat option" where
  "bitmap_find_free_byte x i =
     fold (\<lambda>j r. case r of Some v \<Rightarrow> Some v
        | None \<Rightarrow> if (ucast x :: u32) AND (if push_bit j (1 :: u32) = 0 then 1 else 0) \<noteq> 0
                  then Some (i * 8 + j) else None) [0..<8] None"

definition bitmap_find_free :: "bitmap \<Rightarrow> int" where
  "bitmap_find_free bm =
     (case fold (\<lambda>i r. case r of Some v \<Rightarrow> Some v
        | None \<Rightarrow> if bitmap_data bm (of_nat i) = 0 then None
                  else bitmap_find_free_byte (bitmap_data bm (of_nat i)) i)
        [0..<unat (bitmap_size bm div 8)] None
      of Some v \<Rightarrow> int v | None \<Rightarrow> - 1)"

text \<open>The inner loop of \<^verbatim>\<open>bitmap_find_free_region\<close>: true when it returns
  \<^verbatim>\<open>i\<close>.\<close>

function bitmap_region_inner :: "bitmap \<Rightarrow> u64 \<Rightarrow> nat \<Rightarrow> nat \<Rightarrow> bool" where
  "bitmap_region_inner bm bits i j =
     (if j < unat (of_nat i + bits) then
        if bitmap_get bm (of_nat j) then False
        else if bits - 1 \<le> of_nat j - of_nat i then True
        else bitmap_region_inner bm bits i (j + 1)
      else False)"
  by auto
termination
  by (relation "measure (\<lambda>(_, bits, i, j). unat (of_nat i + bits) - j)") auto

declare bitmap_region_inner.simps [simp del]

function bitmap_region_from :: "bitmap \<Rightarrow> u64 \<Rightarrow> nat \<Rightarrow> int" where
  "bitmap_region_from bm bits i =
     (if i < unat (bitmap_size bm) then
        if bitmap_get bm (of_nat i) then bitmap_region_from bm bits (i + 1)
        else if bitmap_size bm < of_nat i + bits then - 1
        else if bitmap_region_inner bm bits i i then int i
        else bitmap_region_from bm bits (i + 1)
      else - 1)"
  by auto
termination
  by (relation "measure (\<lambda>(bm, _, i). unat (bitmap_size bm) - i)") auto

declare bitmap_region_from.simps [simp del]

definition bitmap_find_free_region :: "bitmap \<Rightarrow> u64 \<Rightarrow> int" where
  "bitmap_find_free_region bm bits = bitmap_region_from bm bits 0"

definition bitmap_allocate_bits :: "bitmap \<Rightarrow> u64 \<Rightarrow> int \<times> bitmap" where
  "bitmap_allocate_bits bm bits =
     (let bit_f = bitmap_find_free_region bm bits
      in if bit_f \<noteq> - 1
         then (bit_f, fold (\<lambda>i. bitmap_set (of_nat i))
                        [nat bit_f..<unat (of_int bit_f + bits)] bm)
         else (- 1, bm))"

text \<open>\<^verbatim>\<open>round_up\<close> and \<^verbatim>\<open>div_round_up\<close> are used once at 64 bits and
  otherwise on \<^verbatim>\<open>int\<close>.\<close>

definition round_up_int :: "int \<Rightarrow> int \<Rightarrow> int" where
  "round_up_int x y = ((x + (y - 1)) div y) * y"

definition div_round_up_int :: "int \<Rightarrow> int \<Rightarrow> int" where
  "div_round_up_int n d = (n + d - 1) div d"

definition bitmap_allocate_bits_aligned :: "bitmap \<Rightarrow> u64 \<Rightarrow> int \<Rightarrow> int \<times> bitmap" where
  "bitmap_allocate_bits_aligned bm bits align =
     (let bit_f = bitmap_find_free_region bm (roundup bits (of_int align))
      in if bit_f \<noteq> - 1 then
           (let bm = fold (\<lambda>i. bitmap_clear (of_nat i))
                       [nat bit_f..<nat (round_up_int bit_f align)] bm;
                bm = fold (\<lambda>i. bitmap_set (of_nat i))
                       [nat (div_round_up_int bit_f align)
                          ..<unat (of_int (round_up_int bit_f align) + bits)] bm
            in (round_up_int bit_f align, bm))
         else (- 1, bm))"

section \<open>Bits\<close>

definition bit_at :: "bitmap \<Rightarrow> nat \<Rightarrow> bool" where
  "bit_at bm n \<longleftrightarrow> bitmap_get bm (of_nat n)"

lemma unat_and_7: "unat (b AND 0x7 :: u64) = unat b mod 8"
  by (simp only: numeral_mask(1) unat_and_mask) simp

lemma bitmap_get_bit: "bitmap_get bm b \<longleftrightarrow> bit (bitmap_data bm (drop_bit 3 b)) (unat b mod 8)"
proof -
  have "x AND push_bit n 1 \<noteq> 0 \<longleftrightarrow> bit x n" if "n < 8" for x :: u8 and n
    using that by (auto simp: word_eq_bits bit_simps)
  then show ?thesis by (simp add: bitmap_get_def unat_and_7)
qed

lemma same_bit: "drop_bit 3 a = drop_bit 3 b \<Longrightarrow> unat a mod 8 = unat b mod 8 \<Longrightarrow> a = (b :: u64)"
proof -
  assume a: "drop_bit 3 a = drop_bit 3 b" "unat a mod 8 = unat b mod 8"
  then have "unat a div 8 = unat b div 8" using unat_drop_bit [of 3 a] unat_drop_bit [of 3 b] by simp
  with a(2) have "unat a = unat b" by (metis div_mult_mod_eq)
  then show "a = b" by (simp add: word_unat_eq_iff)
qed

lemma bitmap_get_set: "bitmap_get (bitmap_set a bm) b \<longleftrightarrow> b = a \<or> bitmap_get bm b"
proof (cases "drop_bit 3 b = drop_bit 3 a")
  case True
  then have "unat b mod 8 = unat a mod 8 \<longleftrightarrow> b = a" using same_bit [of b a] by auto
  moreover have "unat b mod 8 < 8" by simp
  ultimately show ?thesis
    using True by (simp add: bitmap_get_bit bitmap_set_def unat_and_7 bit_simps) auto
next
  case False
  then show ?thesis by (auto simp: bitmap_get_bit bitmap_set_def)
qed

lemma bitmap_get_clear: "bitmap_get (bitmap_clear a bm) b \<longleftrightarrow> b \<noteq> a \<and> bitmap_get bm b"
proof (cases "drop_bit 3 b = drop_bit 3 a")
  case True
  then have "unat b mod 8 = unat a mod 8 \<longleftrightarrow> b = a" using same_bit [of b a] by auto
  moreover have "unat b mod 8 < 8" by simp
  ultimately show ?thesis
    using True by (simp add: bitmap_get_bit bitmap_clear_def unat_and_7 bit_simps) auto
next
  case False
  then show ?thesis by (auto simp: bitmap_get_bit bitmap_clear_def)
qed

lemma size_set [simp]: "bitmap_size (bitmap_set a bm) = bitmap_size bm"
  "bitmap_size (bitmap_clear a bm) = bitmap_size bm"
  by (simp_all add: bitmap_set_def bitmap_clear_def)

lemma of_nat_eq_small: "a < 2 ^ 64 \<Longrightarrow> b < 2 ^ 64 \<Longrightarrow> (of_nat a :: u64) = of_nat b \<longleftrightarrow> a = b"
  by (simp add: word_of_nat_eq_iff take_bit_nat_eq_self)

lemma fold_set:
  "n < 2 ^ 64 \<Longrightarrow> b < 2 ^ 64 \<Longrightarrow>
   bit_at (fold (\<lambda>i. bitmap_set (of_nat i)) [a..<b] bm) n \<longleftrightarrow> a \<le> n \<and> n < b \<or> bit_at bm n"
proof (induction b)
  case (Suc b)
  then show ?case
    by (cases "a \<le> b") (auto simp: bit_at_def bitmap_get_set of_nat_eq_small less_Suc_eq)
qed simp

lemma fold_clear:
  "n < 2 ^ 64 \<Longrightarrow> b < 2 ^ 64 \<Longrightarrow>
   bit_at (fold (\<lambda>i. bitmap_clear (of_nat i)) [a..<b] bm) n \<longleftrightarrow> \<not> (a \<le> n \<and> n < b) \<and> bit_at bm n"
proof (induction b)
  case (Suc b)
  then show ?case
    by (cases "a \<le> b") (auto simp: bit_at_def bitmap_get_clear of_nat_eq_small less_Suc_eq)
qed simp

section \<open>First fit\<close>

definition free_region :: "bitmap \<Rightarrow> nat \<Rightarrow> nat \<Rightarrow> bool" where
  "free_region bm n i \<longleftrightarrow> i + n \<le> unat (bitmap_size bm) \<and> (\<forall>j\<in>{i..<i + n}. \<not> bit_at bm j)"

lemma region_inner_iff:
  assumes "unat bits = n" "0 < n" "i + n < 2 ^ 63" "i \<le> j" "j < i + n"
  shows "bitmap_region_inner bm bits i j \<longleftrightarrow> (\<forall>k\<in>{j..<i + n}. \<not> bit_at bm k)"
  using assms(4,5)
proof (induction "i + n - j" arbitrary: j)
  case 0
  then show ?case by simp
next
  case (Suc m)
  have i: "unat (of_nat i :: u64) = i" "unat (of_nat j :: u64) = j"
    using assms(3) Suc.prems by (simp_all add: unat_of_nat take_bit_nat_eq_self)
  have sum: "unat (of_nat i + bits) = i + n"
    using assms i by (subst unat_plus_no_wrap) simp_all
  have "unat (bits - 1) = n - 1"
    using assms(1,2) by (subst unat_sub) (auto simp: word_le_nat_alt)
  moreover have "unat (of_nat j - of_nat i :: u64) = j - i"
    using i Suc.prems by (subst unat_sub) (simp_all add: word_le_nat_alt)
  ultimately have fits: "bits - 1 \<le> of_nat j - of_nat i \<longleftrightarrow> j + 1 = i + n"
    using Suc.prems assms(2) by (auto simp: word_le_nat_alt)
  show ?case
  proof (cases "j + 1 = i + n")
    case True
    then have "{j..<i + n} = {j}" by auto
    with True show ?thesis
      by (subst bitmap_region_inner.simps) (simp add: sum fits bit_at_def)
  next
    case False
    then have lt: "j + 1 < i + n" using Suc.prems by simp
    then have "bitmap_region_inner bm bits i (j + 1) \<longleftrightarrow> (\<forall>k\<in>{j + 1..<i + n}. \<not> bit_at bm k)"
      using Suc by (intro Suc.hyps(1)) auto
    moreover have "{j..<i + n} = insert j {j + 1..<i + n}" using lt by auto
    ultimately show ?thesis
      using False Suc.prems by (subst bitmap_region_inner.simps) (simp add: sum fits bit_at_def)
  qed
qed

lemma region_from_cases:
  assumes "unat bits = n" "0 < n" "unat (bitmap_size bm) < 2 ^ 31" "n < 2 ^ 62"
  shows "(\<exists>k\<ge>i. bitmap_region_from bm bits i = int k \<and> free_region bm n k \<and>
             (\<forall>r\<in>{i..<k}. \<not> free_region bm n r)) \<or>
         bitmap_region_from bm bits i = - 1 \<and> (\<forall>r\<ge>i. \<not> free_region bm n r)"
proof (induction "unat (bitmap_size bm) - i" arbitrary: i)
  case 0
  then show ?case using assms(2) by (auto simp: bitmap_region_from.simps [of _ _ i] free_region_def)
next
  case (Suc m)
  then have i: "i < unat (bitmap_size bm)" by simp
  then have "i + n < 2 ^ 63" using assms(3,4) by simp
  note inner = region_inner_iff [OF assms(1,2) this, of i bm]
  have "unat (of_nat i :: u64) = i" using i assms(3) by (simp add: unat_of_nat take_bit_nat_eq_self)
  then have sum: "unat (of_nat i + bits) = i + n"
    using assms i by (subst unat_plus_no_wrap) simp_all
  have over: "bitmap_size bm < of_nat i + bits \<longleftrightarrow> unat (bitmap_size bm) < i + n"
    by (simp add: word_less_nat_alt sum)
  have IH: "(\<exists>k\<ge>i + 1. bitmap_region_from bm bits (i + 1) = int k \<and> free_region bm n k \<and>
             (\<forall>r\<in>{i + 1..<k}. \<not> free_region bm n r)) \<or>
         bitmap_region_from bm bits (i + 1) = - 1 \<and> (\<forall>r\<ge>i + 1. \<not> free_region bm n r)"
    using Suc by (intro Suc.hyps(1)) simp
  consider (here) "free_region bm n i"
    | (over) "unat (bitmap_size bm) < i + n" "\<not> free_region bm n i"
    | (later) "\<not> unat (bitmap_size bm) < i + n" "\<not> free_region bm n i" by blast
  then show ?case
  proof cases
    case here
    then have "bitmap_region_from bm bits i = int i"
      using i assms(2) inner
      by (subst bitmap_region_from.simps) (simp add: over free_region_def bit_at_def)
    then show ?thesis using here by auto
  next
    case over': over
    then have none: "\<forall>r\<ge>i. \<not> free_region bm n r" by (auto simp: free_region_def)
    show ?thesis
    proof (cases "bit_at bm i")
      case True
      then have "bitmap_region_from bm bits i = bitmap_region_from bm bits (i + 1)"
        using i by (subst bitmap_region_from.simps) (simp add: bit_at_def)
      then show ?thesis using IH none by auto
    next
      case False
      then show ?thesis
        using i over' none by (subst bitmap_region_from.simps) (simp add: over bit_at_def)
    qed
  next
    case later
    then have "bitmap_region_from bm bits i = bitmap_region_from bm bits (i + 1)"
      using i assms(2) inner
      by (subst bitmap_region_from.simps) (auto simp: over free_region_def bit_at_def)
    then show ?thesis using first_fit_step [OF later(2) IH] by simp
  qed
qed

section \<open>Properties\<close>

lemma allocate_bits_cases:
  assumes "unat bits = n" "0 < n" "n < 2 ^ 62" "unat (bitmap_size bm) < 2 ^ 31"
  shows "(\<exists>k bm'. bitmap_allocate_bits bm bits = (int k, bm') \<and>
            free_region bm n k \<and> (\<forall>r < k. \<not> free_region bm n r) \<and>
            bitmap_size bm' = bitmap_size bm \<and>
            (\<forall>m < 2 ^ 64. bit_at bm' m \<longleftrightarrow> bit_at bm m \<or> k \<le> m \<and> m < k + n)) \<or>
         bitmap_allocate_bits bm bits = (- 1, bm) \<and> (\<forall>r. \<not> free_region bm n r)"
  using region_from_cases [OF assms(1,2,4,3), of 0]
proof (elim disjE exE conjE)
  fix k
  assume k: "bitmap_region_from bm bits 0 = int k" "free_region bm n k"
    "\<forall>r\<in>{0..<k}. \<not> free_region bm n r"
  then have b: "k + n < 2 ^ 32" using assms(4) by (simp add: free_region_def)
  then have "unat (of_nat k + bits) = k + n"
    using assms(1) by (simp add: unat_plus_no_wrap unat_of_nat take_bit_nat_eq_self)
  then have "bitmap_allocate_bits bm bits = (int k, fold (\<lambda>i. bitmap_set (of_nat i)) [k..<k + n] bm)"
    using k(1) by (simp add: bitmap_allocate_bits_def bitmap_find_free_region_def)
  moreover have "bitmap_size (fold (\<lambda>i. bitmap_set (of_nat i)) xs bm) = bitmap_size bm" for xs bm
    by (induction xs arbitrary: bm) simp_all
  ultimately show ?thesis using k fold_set [of _ "k + n" k bm] b by fastforce
qed (simp add: bitmap_allocate_bits_def bitmap_find_free_region_def)

text \<open>C18. \<^verbatim>\<open>bitmap_allocate_bits\<close> is a first-fit allocator: on success it returns the
  lowest start of \<^verbatim>\<open>n\<close> consecutive clear bits, which it sets and nothing else; it fails with
  \<^verbatim>\<open>-1\<close>, leaving the bitmap alone, only when there is no such run.\<close>

theorem bitmap_allocate_bits_first_fit:
  assumes "unat bits = n" "0 < n" "n < 2 ^ 62" "unat (bitmap_size bm) < 2 ^ 31"
  shows "(\<exists>k bm'. bitmap_allocate_bits bm bits = (int k, bm') \<and>
            free_region bm n k \<and> (\<forall>r < k. \<not> free_region bm n r) \<and>
            bitmap_size bm' = bitmap_size bm \<and>
            (\<forall>m < 2 ^ 64. bit_at bm' m \<longleftrightarrow> bit_at bm m \<or> k \<le> m \<and> m < k + n)) \<or>
         bitmap_allocate_bits bm bits = (- 1, bm) \<and> (\<forall>r. \<not> free_region bm n r)"
  using assms by (rule allocate_bits_cases)

text \<open>\<^verbatim>\<open>bitmap_find_free\<close> never finds anything: it skips every byte that is all
  clear, and its bit test \<^verbatim>\<open>x & (1 << j) == 0\<close> compares before it masks, so it is zero for
  every bit.\<close>

theorem bitmap_find_free_fails: "bitmap_find_free bm = - 1"
proof -
  have nz: "push_bit j (1 :: u32) \<noteq> 0" if "j < 32" for j
    using that by (auto simp: word_eq_bits bit_simps intro!: exI [of _ j])
  have "fold (\<lambda>j r. case r of Some v \<Rightarrow> Some v
        | None \<Rightarrow> if y AND (if push_bit j (1 :: u32) = 0 then 1 else 0) \<noteq> 0
                  then Some (i * 8 + j) else None) xs None = None"
    if "\<forall>j\<in>set xs. j < 32" for xs i and y :: u32
    using that by (induction xs) (simp_all add: nz)
  then have byte: "bitmap_find_free_byte x i = None" for x i
    by (simp add: bitmap_find_free_byte_def)
  have "fold (\<lambda>i r. case r of Some v \<Rightarrow> Some v
        | None \<Rightarrow> if bitmap_data bm (of_nat i) = 0 then None
                  else bitmap_find_free_byte (bitmap_data bm (of_nat i)) i) xs None = None" for xs
    by (induction xs) (simp_all add: byte)
  then show ?thesis by (simp add: bitmap_find_free_def)
qed

text \<open>The effect of the aligned allocation once the region search has found \<^verbatim>\<open>k\<close>: the
  result is the next multiple of \<^verbatim>\<open>align\<close>, and bits from \<^verbatim>\<open>k div align\<close> rounded up
  (not from the result) to the end of the block are set.\<close>

lemma aligned_found:
  assumes "bitmap_find_free_region bm (roundup bits (of_nat al)) = int k" "0 < al" "al < 2 ^ 31"
    "k < 2 ^ 31" "unat bits = n" "n < 2 ^ 31"
  defines "r \<equiv> (k + (al - 1)) div al * al"
  shows "\<exists>bm'. bitmap_allocate_bits_aligned bm bits (int al) = (int r, bm') \<and>
     (\<forall>m < 2 ^ 64. bit_at bm' m \<longleftrightarrow> (k + al - 1) div al \<le> m \<and> m < r + n \<or>
        \<not> (k \<le> m \<and> m < r) \<and> bit_at bm m)"
proof -
  have i: "round_up_int (int k) (int al) = int r" "div_round_up_int (int k) (int al) = int ((k + al - 1) div al)"
    using assms(2) by (simp_all add: round_up_int_def div_round_up_int_def r_def zdiv_int of_nat_diff algebra_simps)
  have "r \<le> k + (al - 1)" unfolding r_def by (rule div_times_less_eq_dividend)
  then have r: "r < 2 ^ 32" using assms(3,4) by simp
  then have "unat (of_nat r + bits) = r + n"
    using assms(5,6) by (simp add: unat_plus_no_wrap unat_of_nat take_bit_nat_eq_self)
  then show ?thesis
    using assms(1,6) i r
    by (auto simp: bitmap_allocate_bits_aligned_def Let_def fold_set fold_clear)
qed

definition demo_bitmap :: bitmap where
  "demo_bitmap = \<lparr>bitmap_data = \<lambda>i. if i = 0 then 0x21 else 0, bitmap_size = 64\<rparr>"

lemma demo_bitmap_bits: "m < 64 \<Longrightarrow> bit_at demo_bitmap m \<longleftrightarrow> m = 0 \<or> m = 5"
proof -
  assume m: "m < 64"
  then have "(of_nat m :: u64) = of_nat m \<and> m \<in> set [0..<64]" by simp
  moreover have "\<forall>m\<in>set [0..<64]. bit_at demo_bitmap m \<longleftrightarrow> m = 0 \<or> m = 5" by code_simp
  ultimately show ?thesis by blast
qed

text \<open>The aligned allocation can hand out bits that are already in use: with bits 0 and 5
  taken it finds the region 1..4 for a request of 4 aligned to 4, rounds the start up to 4 without
  looking at the bits behind the region, and returns the block 4..7.\<close>

theorem bitmap_allocate_bits_aligned_overlaps:
  "\<exists>bm'. bitmap_allocate_bits_aligned demo_bitmap 4 4 = (4, bm') \<and>
     bit_at demo_bitmap 5 \<and> {4..<8} \<subseteq> {m. bit_at bm' m}"
proof -
  have r: "free_region demo_bitmap 4 1" "\<not> free_region demo_bitmap 4 0"
    by (auto simp: free_region_def demo_bitmap_bits) (simp_all add: demo_bitmap_def)
  have "bitmap_size demo_bitmap = 64" by (simp add: demo_bitmap_def)
  then obtain k where k: "bitmap_region_from demo_bitmap 4 0 = int k"
    "\<forall>r\<in>{0..<k}. \<not> free_region demo_bitmap 4 r" "free_region demo_bitmap 4 k"
    using region_from_cases [of 4 4 demo_bitmap 0] r(1) by auto
  have "k = 1" using k(2,3) r by (cases "k = 0") (auto dest: bspec [of _ _ 1])
  moreover have "roundup 4 (of_nat 4) = 4" by (simp add: roundup_def)
  ultimately have "bitmap_find_free_region demo_bitmap (roundup 4 (of_nat 4)) = int 1"
    using k(1) by (simp add: bitmap_find_free_region_def)
  from aligned_found [OF this, of 4] show ?thesis by (auto simp: demo_bitmap_bits)
qed

section \<open>Witnesses\<close>

lemma bitmap_allocate_bits_first_fit_witness:
  "\<exists>bm'. bitmap_allocate_bits demo_bitmap 4 = (1, bm') \<and> bit_at bm' 4 \<and> \<not> bit_at bm' 6"
proof -
  have r: "free_region demo_bitmap 4 1" "\<not> free_region demo_bitmap 4 0"
    by (auto simp: free_region_def demo_bitmap_bits) (simp_all add: demo_bitmap_def)
  from bitmap_allocate_bits_first_fit [of 4 4 demo_bitmap] r obtain k bm' where
    k: "bitmap_allocate_bits demo_bitmap 4 = (int k, bm')" "free_region demo_bitmap 4 k"
      "\<forall>r < k. \<not> free_region demo_bitmap 4 r"
      "\<forall>m < 2 ^ 64. bit_at bm' m \<longleftrightarrow> bit_at demo_bitmap m \<or> k \<le> m \<and> m < k + 4"
    by (auto simp: demo_bitmap_def)
  have "k = 1" using k(2,3) r by (cases "k = 0") (auto dest: spec [of _ 1])
  with k(1) k(4) [rule_format, of 4] k(4) [rule_format, of 6] show ?thesis
    by (simp add: demo_bitmap_bits)
qed

end
