(* ===== verification/Bootmem.thy ===== *)
theory Bootmem
  imports Math_Util
begin

text \<open>
  \<^verbatim>\<open>mm/bootmem.c\<close>: the first-fit page allocator with a sub-page bump region that backs
  every \<^verbatim>\<open>kmalloc\<close> of the kernel. The bitmap is a function from the byte index, because
  the C helpers index it without a check; the entries from 0x200000 on lie behind the array
  \<^verbatim>\<open>bootmem_bitmap\<close>. The lock taken by \<^verbatim>\<open>bootmem_alloc\<close> is released on
  the same path, so one call is one step here.
\<close>

section \<open>State\<close>

record bootmem =
  bitmap :: "u64 \<Rightarrow> u8"
  last_alloc_offset :: u64
  last_alloc_pfn :: u64

record ards =
  ards_base :: u64
  ards_length :: u64
  ards_type :: u64

record bootloader_parm_block =
  ardc_cnt :: u64
  ardc_array :: "ards list"

definition BOOTMEM_LIMIT :: u64 where "BOOTMEM_LIMIT = 64 * 0x40000000"

section \<open>The bitmap\<close>

definition set_bootmem_bitmap :: "u64 \<Rightarrow> bootmem \<Rightarrow> bootmem" where
  "set_bootmem_bitmap paddr bm =
     (let index = drop_bit (12 + 3) paddr;
          bit = drop_bit 12 paddr AND 0x7
      in bm\<lparr>bitmap := (bitmap bm)(index := bitmap bm index OR push_bit (unat bit) 1)\<rparr>)"

definition clear_bootmem_bitmap :: "u64 \<Rightarrow> bootmem \<Rightarrow> bootmem" where
  "clear_bootmem_bitmap paddr bm =
     (let index = drop_bit (12 + 3) paddr;
          bit = drop_bit 12 paddr AND 0x7
      in bm\<lparr>bitmap := (bitmap bm)(index := bitmap bm index AND NOT (push_bit (unat bit) 1))\<rparr>)"

definition get_bootmem_bitmap :: "u64 \<Rightarrow> bootmem \<Rightarrow> u64" where
  "get_bootmem_bitmap paddr bm =
     (let index = drop_bit (12 + 3) paddr;
          bit = drop_bit 12 paddr AND 0x7
      in ucast (bitmap bm index AND push_bit (unat bit) 1))"

text \<open>
  The two area loops compare 64-bit addresses that may wrap, so they need not end;
\<^verbatim>\<open>None\<close> is a loop that runs for ever.
\<close>

partial_function (option) set_bootmem_bitmap_area_loop ::
    "u64 \<Rightarrow> u64 \<Rightarrow> bootmem \<Rightarrow> bootmem option" where
  "set_bootmem_bitmap_area_loop addr limit bm =
     (if addr < limit
      then set_bootmem_bitmap_area_loop (addr + 0x1000) limit (set_bootmem_bitmap addr bm)
      else Some bm)"

definition set_bootmem_bitmap_area :: "u64 \<Rightarrow> u64 \<Rightarrow> bootmem \<Rightarrow> bootmem option" where
  "set_bootmem_bitmap_area paddr sz bm = set_bootmem_bitmap_area_loop paddr (paddr + sz) bm"

partial_function (option) clear_bootmem_bitmap_area_loop ::
    "u64 \<Rightarrow> u64 \<Rightarrow> bootmem \<Rightarrow> bootmem option" where
  "clear_bootmem_bitmap_area_loop addr limit bm =
     (if addr < limit
      then clear_bootmem_bitmap_area_loop (addr + 0x1000) limit (clear_bootmem_bitmap addr bm)
      else Some bm)"

definition clear_bootmem_bitmap_area :: "u64 \<Rightarrow> u64 \<Rightarrow> bootmem \<Rightarrow> bootmem option" where
  "clear_bootmem_bitmap_area paddr sz bm = clear_bootmem_bitmap_area_loop paddr (paddr + sz) bm"

section \<open>First fit\<close>

lemma limit_step: "a < BOOTMEM_LIMIT \<Longrightarrow> unat (a + 0x1000 :: u64) = unat a + 0x1000"
  unfolding BOOTMEM_LIMIT_def
  by (subst unat_plus_simple [THEN iffD1]) (auto simp: no_olen_add_nat word_less_nat_alt)

text \<open>The inner loop: true when it returns \<^verbatim>\<open>addr1\<close>, false when it breaks or ends.\<close>

function find_free_inner :: "bootmem \<Rightarrow> u64 \<Rightarrow> u64 \<Rightarrow> u64 \<Rightarrow> bool" where
  "find_free_inner bm sz addr1 addr2 =
     (if addr2 < BOOTMEM_LIMIT then
        if get_bootmem_bitmap addr2 bm \<noteq> 0 then False
        else if sz \<le> addr2 - addr1 then True
        else find_free_inner bm sz addr1 (addr2 + 0x1000)
      else False)"
  by auto
termination
  by (relation "measure (\<lambda>(_, _, _, a). unat BOOTMEM_LIMIT - unat a)")
    (auto simp: limit_step word_less_nat_alt)

function find_free_outer :: "bootmem \<Rightarrow> u64 \<Rightarrow> u64 \<Rightarrow> u64" where
  "find_free_outer bm sz addr1 =
     (if addr1 < BOOTMEM_LIMIT then
        if get_bootmem_bitmap addr1 bm \<noteq> 0 then find_free_outer bm sz (addr1 + 0x1000)
        else if find_free_inner bm sz addr1 addr1 then addr1
        else find_free_outer bm sz (addr1 + 0x1000)
      else - 1)"
  by auto
termination
  by (relation "measure (\<lambda>(_, _, a). unat BOOTMEM_LIMIT - unat a)")
    (auto simp: limit_step word_less_nat_alt)

definition find_free_bitmap :: "u64 \<Rightarrow> bootmem \<Rightarrow> u64" where
  "find_free_bitmap sz bm = find_free_outer bm sz 0"

declare find_free_inner.simps [simp del] find_free_outer.simps [simp del]

section \<open>Allocation\<close>

definition bootmem_alloc :: "u64 \<Rightarrow> bootmem \<Rightarrow> (u64 \<times> bootmem) option" where
  "bootmem_alloc sz bm = do {
     (paddr, bm) \<leftarrow>
       (if 0x1000 \<le> sz then do {
          let bm = bm\<lparr>last_alloc_offset := 0\<rparr>;
          let paddr = find_free_bitmap sz bm;
          if paddr \<noteq> - 1 then do {
            bm \<leftarrow> set_bootmem_bitmap_area paddr sz bm;
            Some (paddr, bm)
          } else Some (paddr, bm)
        } else if 0x1000 < last_alloc_offset bm + sz then
          if get_bootmem_bitmap (last_alloc_pfn bm * 0x1000 + sz) bm = 0 then do {
            let bm = set_bootmem_bitmap (last_alloc_pfn bm * 0x1000 + sz) bm;
            let paddr = last_alloc_pfn bm * 0x1000 + last_alloc_offset bm;
            let bm = bm\<lparr>last_alloc_offset := roundup ((last_alloc_offset bm + sz) mod 0x1000) 64\<rparr>;
            let bm = bm\<lparr>last_alloc_pfn := last_alloc_pfn bm + 1\<rparr>;
            Some (paddr, bm)
          } else do {
            let paddr = find_free_bitmap 0x1000 bm;
            if paddr \<noteq> - 1 then do {
              let bm = bm\<lparr>last_alloc_offset := 0\<rparr>;
              let bm = bm\<lparr>last_alloc_pfn := paddr div 0x1000\<rparr>;
              bm \<leftarrow> set_bootmem_bitmap_area paddr sz bm;
              Some (paddr, bm)
            } else Some (paddr, bm)
          }
        else if last_alloc_offset bm \<noteq> 0 then do {
          let paddr = last_alloc_pfn bm * 0x1000 + last_alloc_offset bm;
          let bm = bm\<lparr>last_alloc_offset := roundup ((last_alloc_offset bm + sz) mod 0x1000) 64\<rparr>;
          Some (paddr, bm)
        } else do {
          let paddr = find_free_bitmap 0x1000 bm;
          if paddr \<noteq> - 1 then do {
            let bm = bm\<lparr>last_alloc_offset := roundup ((last_alloc_offset bm + sz) mod 0x1000) 64\<rparr>;
            let bm = bm\<lparr>last_alloc_pfn := paddr div 0x1000\<rparr>;
            bm \<leftarrow> set_bootmem_bitmap_area paddr sz bm;
            Some (paddr, bm)
          } else Some (paddr, bm)
        });
     if paddr = - 1 then Some (0, bm) else Some (PHYS2VIRT paddr, bm)
   }"

definition bootmem_free :: "u64 \<Rightarrow> bootmem \<Rightarrow> bootmem" where
  "bootmem_free vaddr bm = clear_bootmem_bitmap (VIRT2PHYS vaddr) bm"

text \<open>\<^verbatim>\<open>kmalloc\<close> of \<^verbatim>\<open>mm/mm.c\<close> falls off its end without a \<^verbatim>\<open>return\<close>;
  its callers read the value \<^verbatim>\<open>bootmem_alloc\<close> left in the result register.
  \<^verbatim>\<open>kfree\<close> does nothing.\<close>

definition kmalloc :: "u64 \<Rightarrow> int \<Rightarrow> bootmem \<Rightarrow> (u64 \<times> bootmem) option" where
  "kmalloc sz flags bm = bootmem_alloc sz bm"

definition kfree :: "u64 \<Rightarrow> bootmem \<Rightarrow> bootmem" where
  "kfree addr bm = bm"

section \<open>Initialisation\<close>

fun bootmem_init_areas :: "ards list \<Rightarrow> bootmem \<Rightarrow> bootmem option" where
  "bootmem_init_areas [] bm = Some bm"
| "bootmem_init_areas (a # as) bm =
     (if ards_type a = 1 then
        if 0x1000000000 < ards_base a + ards_length a then bootmem_init_areas as bm
        else do {
          bm \<leftarrow> clear_bootmem_bitmap_area (ards_base a) (ards_length a) bm;
          bootmem_init_areas as bm
        }
      else bootmem_init_areas as bm)"

text \<open>\<^verbatim>\<open>bootmem_bitmap\<close> is filled with 0xff; what lies behind it is not touched. An
  \<^verbatim>\<open>ardc_cnt\<close> above the array length reads behind the table and is \<^verbatim>\<open>None\<close>.\<close>

definition bootmem_init :: "bootloader_parm_block \<Rightarrow> bootmem \<Rightarrow> bootmem option" where
  "bootmem_init parm bm =
     (if length (ardc_array parm) < unat (ardc_cnt parm) then None
      else do {
        let bm = bm\<lparr>last_alloc_pfn := 1, last_alloc_offset := 0\<rparr>;
        let bm = bm\<lparr>bitmap := (\<lambda>i. if i < 0x200000 then 0xff else bitmap bm i)\<rparr>;
        bm \<leftarrow> bootmem_init_areas (take (unat (ardc_cnt parm)) (ardc_array parm)) bm;
        bm \<leftarrow> (if ardc_cnt parm = 0 then clear_bootmem_bitmap_area 0 0x100000000 bm else Some bm);
        set_bootmem_bitmap_area 0 0x1000000 bm
      })"

section \<open>Pages and their bits\<close>

definition page_of :: "u64 \<Rightarrow> nat" where
  "page_of a = unat a div 0x1000"

definition page_used :: "bootmem \<Rightarrow> nat \<Rightarrow> bool" where
  "page_used bm p \<longleftrightarrow> bit (bitmap bm (of_nat (p div 8))) (p mod 8)"

definition LIMIT_PAGES :: nat where "LIMIT_PAGES = 0x1000000"

lemma page_index:
  "drop_bit 15 (a :: u64) = of_nat (page_of a div 8)"
  "unat (drop_bit 12 (a :: u64) AND 0x7) = page_of a mod 8"
proof -
  have "unat (drop_bit 15 a) = unat a div 2 ^ 15"
    by (rule unat_drop_bit)
  also have "\<dots> = page_of a div 8" by (simp add: page_of_def flip: div_mult2_eq)
  finally show "drop_bit 15 a = of_nat (page_of a div 8)" by (metis of_nat_unat ucast_id)
  show "unat (drop_bit 12 a AND 0x7) = page_of a mod 8"
    by (simp only: numeral_mask(1) unat_and_mask unat_drop_bit) (simp add: page_of_def)
qed

lemma page_bound: "page_of a < 2 ^ 52"
  using unsigned_less [of a, where ?'a = nat] by (simp add: page_of_def less_mult_imp_div_less)

lemma get_bootmem_bitmap_iff: "get_bootmem_bitmap a bm \<noteq> 0 \<longleftrightarrow> page_used bm (page_of a)"
proof -
  have "ucast (x AND push_bit n 1 :: u8) \<noteq> (0 :: u64) \<longleftrightarrow> bit x n" if "n < 8" for x n
    using that by (auto simp: word_eq_bits bit_simps)
  then show ?thesis
    by (simp add: get_bootmem_bitmap_def Let_def page_index page_used_def)
qed

lemma of_nat_div8_eq: "p < 2 ^ 52 \<Longrightarrow> q < 2 ^ 52 \<Longrightarrow>
    (of_nat (p div 8) :: u64) = of_nat (q div 8) \<longleftrightarrow> p div 8 = q div 8"
  by (auto simp: of_nat_eq_iff word_of_nat_eq_iff take_bit_nat_eq_self)

lemma page_used_set:
  assumes "p < 2 ^ 52"
  shows "page_used (set_bootmem_bitmap a bm) p \<longleftrightarrow> p = page_of a \<or> page_used bm p"
proof -
  have "p div 8 = q div 8 \<Longrightarrow> p mod 8 = q mod 8 \<longleftrightarrow> p = q" for q :: nat by (metis div_mult_mod_eq)
  moreover have "p mod 8 < 8" by simp
  ultimately show ?thesis
    using assms of_nat_div8_eq [OF assms page_bound [of a]]
    by (auto simp: set_bootmem_bitmap_def Let_def page_index page_used_def bit_simps)
qed

lemma page_used_clear:
  assumes "p < 2 ^ 52"
  shows "page_used (clear_bootmem_bitmap a bm) p \<longleftrightarrow> p \<noteq> page_of a \<and> page_used bm p"
proof -
  have "p div 8 = q div 8 \<Longrightarrow> p mod 8 = q mod 8 \<longleftrightarrow> p = q" for q :: nat by (metis div_mult_mod_eq)
  moreover have "p mod 8 < 8" by simp
  ultimately show ?thesis
    using assms of_nat_div8_eq [OF assms page_bound [of a]]
    by (auto simp: clear_bootmem_bitmap_def Let_def page_index page_used_def bit_simps)
qed

lemma offset_pfn_set [simp]:
  "last_alloc_offset (set_bootmem_bitmap a bm) = last_alloc_offset bm"
  "last_alloc_pfn (set_bootmem_bitmap a bm) = last_alloc_pfn bm"
  "last_alloc_offset (clear_bootmem_bitmap a bm) = last_alloc_offset bm"
  "last_alloc_pfn (clear_bootmem_bitmap a bm) = last_alloc_pfn bm"
  by (simp_all add: set_bootmem_bitmap_def clear_bootmem_bitmap_def Let_def)

lemma page_used_update [simp]:
  "page_used (bm\<lparr>last_alloc_offset := x\<rparr>) = page_used bm"
  "page_used (bm\<lparr>last_alloc_pfn := y\<rparr>) = page_used bm"
  by (simp_all add: page_used_def fun_eq_iff)


section \<open>The area loops\<close>

definition area_page :: "nat \<Rightarrow> nat \<Rightarrow> nat \<Rightarrow> bool" where
  "area_page a l p \<longleftrightarrow> a div 0x1000 \<le> p \<and> p * 0x1000 + a mod 0x1000 < l"

lemma area_page_done: "l \<le> a \<Longrightarrow> \<not> area_page a l p"
proof -
  have "p * 0x1000 + a mod 0x1000 \<ge> a" if "a div 0x1000 \<le> p"
    using that div_mult_mod_eq [of a "0x1000"] mult_le_mono1 [OF that, where k = "0x1000"] by linarith
  then show "l \<le> a \<Longrightarrow> \<not> area_page a l p" by (auto simp: area_page_def)
qed

lemma area_page_step:
  assumes "a < l" shows "area_page a l p \<longleftrightarrow> p = a div 0x1000 \<or> area_page (a + 0x1000) l p"
proof -
  have "(a + 0x1000) div 0x1000 = a div 0x1000 + 1" "(a + 0x1000) mod 0x1000 = a mod 0x1000" by simp_all
  moreover have "a div 0x1000 * 0x1000 + a mod 0x1000 < l" using assms by simp
  ultimately show ?thesis unfolding area_page_def by auto
qed

lemma set_area_loop:
  assumes "unat l \<le> 2 ^ 64 - 0x1000"
  shows "\<exists>bm'. set_bootmem_bitmap_area_loop a l bm = Some bm' \<and>
           last_alloc_offset bm' = last_alloc_offset bm \<and> last_alloc_pfn bm' = last_alloc_pfn bm \<and>
           (\<forall>p < 2 ^ 52. page_used bm' p \<longleftrightarrow> page_used bm p \<or> area_page (unat a) (unat l) p)"
proof (induction "unat l - unat a" arbitrary: a bm rule: less_induct)
  case less
  show ?case
  proof (cases "a < l")
    case True
    then have lt: "unat a < unat l" by (simp add: word_less_nat_alt)
    then have step: "unat (a + 0x1000) = unat a + 0x1000"
      using assms by (subst unat_plus_no_wrap) auto
    have dec: "unat l - unat (a + 0x1000) < unat l - unat a" using lt step by linarith
    obtain bm' where "set_bootmem_bitmap_area_loop (a + 0x1000) l (set_bootmem_bitmap a bm) = Some bm'"
      "last_alloc_offset bm' = last_alloc_offset bm" "last_alloc_pfn bm' = last_alloc_pfn bm"
      "\<forall>p < 2 ^ 52. page_used bm' p \<longleftrightarrow>
         page_used (set_bootmem_bitmap a bm) p \<or> area_page (unat a + 0x1000) (unat l) p"
      using less [OF dec, of "set_bootmem_bitmap a bm"] unfolding step by auto
    then show ?thesis
      using True area_page_step [OF lt]
      by (auto simp: set_bootmem_bitmap_area_loop.simps [of a] page_used_set page_of_def)
  next
    case False
    then show ?thesis
      using area_page_done [of "unat l" "unat a"]
      by (auto simp: set_bootmem_bitmap_area_loop.simps [of a] word_less_nat_alt)
  qed
qed

lemma clear_area_loop:
  assumes "unat l \<le> 2 ^ 64 - 0x1000"
  shows "\<exists>bm'. clear_bootmem_bitmap_area_loop a l bm = Some bm' \<and>
           last_alloc_offset bm' = last_alloc_offset bm \<and> last_alloc_pfn bm' = last_alloc_pfn bm \<and>
           (\<forall>p < 2 ^ 52. page_used bm' p \<longleftrightarrow> page_used bm p \<and> \<not> area_page (unat a) (unat l) p)"
proof (induction "unat l - unat a" arbitrary: a bm rule: less_induct)
  case less
  show ?case
  proof (cases "a < l")
    case True
    then have lt: "unat a < unat l" by (simp add: word_less_nat_alt)
    then have step: "unat (a + 0x1000) = unat a + 0x1000"
      using assms by (subst unat_plus_no_wrap) auto
    have dec: "unat l - unat (a + 0x1000) < unat l - unat a" using lt step by linarith
    obtain bm' where "clear_bootmem_bitmap_area_loop (a + 0x1000) l (clear_bootmem_bitmap a bm) = Some bm'"
      "last_alloc_offset bm' = last_alloc_offset bm" "last_alloc_pfn bm' = last_alloc_pfn bm"
      "\<forall>p < 2 ^ 52. page_used bm' p \<longleftrightarrow>
         page_used (clear_bootmem_bitmap a bm) p \<and> \<not> area_page (unat a + 0x1000) (unat l) p"
      using less [OF dec, of "clear_bootmem_bitmap a bm"] unfolding step by auto
    then show ?thesis
      using True area_page_step [OF lt]
      by (auto simp: clear_bootmem_bitmap_area_loop.simps [of a] page_used_clear page_of_def)
  next
    case False
    then show ?thesis
      using area_page_done [of "unat l" "unat a"]
      by (auto simp: clear_bootmem_bitmap_area_loop.simps [of a] word_less_nat_alt)
  qed
qed

section \<open>First fit finds the first hole\<close>

definition page_addr :: "nat \<Rightarrow> u64" where
  "page_addr p = of_nat (p * 0x1000)"

definition pages_for :: "u64 \<Rightarrow> nat" where
  "pages_for sz = (unat sz + 0xfff) div 0x1000"

text \<open>The inner loop wants the page behind the block to be free as well.\<close>

definition hole :: "bootmem \<Rightarrow> u64 \<Rightarrow> nat \<Rightarrow> bool" where
  "hole bm sz p \<longleftrightarrow> p + pages_for sz < LIMIT_PAGES \<and> (\<forall>q\<in>{p..p + pages_for sz}. \<not> page_used bm q)"

lemma unat_page_addr: "p \<le> LIMIT_PAGES \<Longrightarrow> unat (page_addr p) = p * 0x1000"
  unfolding page_addr_def LIMIT_PAGES_def
  by (simp add: unat_of_nat take_bit_nat_eq_self del: of_nat_mult)

lemma page_addr_facts:
  assumes "p \<le> LIMIT_PAGES"
  shows "page_addr p < BOOTMEM_LIMIT \<longleftrightarrow> p < LIMIT_PAGES" "page_of (page_addr p) = p"
    "page_addr p + 0x1000 = page_addr (p + 1)"
  using assms
  by (simp_all add: word_less_nat_alt unat_page_addr BOOTMEM_LIMIT_def page_of_def)
    (simp_all add: LIMIT_PAGES_def page_addr_def)

lemma page_addr_diff:
  "p \<le> q \<Longrightarrow> q \<le> LIMIT_PAGES \<Longrightarrow> sz \<le> page_addr q - page_addr p \<longleftrightarrow> p + pages_for sz \<le> q"
proof -
  assume a: "p \<le> q" "q \<le> LIMIT_PAGES"
  then have "unat (page_addr q - page_addr p) = q * 0x1000 - p * 0x1000"
    by (subst unat_sub) (simp_all add: word_le_nat_alt unat_page_addr)
  with a show ?thesis by (auto simp: word_le_nat_alt pages_for_def)
qed

lemma find_free_inner_iff:
  assumes "p \<le> q" "q \<le> LIMIT_PAGES"
  shows "find_free_inner bm sz (page_addr p) (page_addr q) \<longleftrightarrow>
           max q (p + pages_for sz) < LIMIT_PAGES \<and>
           (\<forall>r\<in>{q..max q (p + pages_for sz)}. \<not> page_used bm r)"
  using assms
proof (induction "LIMIT_PAGES - q" arbitrary: q)
  case 0
  then have "q = LIMIT_PAGES" by simp
  then show ?case by (simp add: find_free_inner.simps [of _ _ _ "page_addr LIMIT_PAGES"] page_addr_facts)
next
  case (Suc n)
  let ?m = "p + pages_for sz"
  from Suc have q: "q < LIMIT_PAGES" by simp
  have IH: "find_free_inner bm sz (page_addr p) (page_addr (q + 1)) \<longleftrightarrow>
           max (q + 1) ?m < LIMIT_PAGES \<and> (\<forall>r\<in>{q + 1..max (q + 1) ?m}. \<not> page_used bm r)"
    using Suc by (intro Suc.hyps(1)) auto
  have split: "(\<forall>r\<in>{q..?m}. \<not> page_used bm r) \<longleftrightarrow>
      \<not> page_used bm q \<and> (\<forall>r\<in>{q + 1..?m}. \<not> page_used bm r)" if "q < ?m"
    using that by (auto simp: le_less Suc_le_eq)
  show ?case
    using q Suc.prems IH split
    by (subst find_free_inner.simps)
      (auto simp: page_addr_facts get_bootmem_bitmap_iff page_addr_diff max_def split: if_splits)
qed

lemma find_free_outer_cases:
  assumes "p \<le> LIMIT_PAGES"
  shows "(\<exists>q\<ge>p. find_free_outer bm sz (page_addr p) = page_addr q \<and> hole bm sz q \<and>
             (\<forall>r\<in>{p..<q}. \<not> hole bm sz r)) \<or>
         find_free_outer bm sz (page_addr p) = - 1 \<and> (\<forall>r\<ge>p. \<not> hole bm sz r)"
  using assms
proof (induction "LIMIT_PAGES - p" arbitrary: p)
  case 0
  then have "p = LIMIT_PAGES" by simp
  then show ?case
    by (simp add: find_free_outer.simps [of _ _ "page_addr LIMIT_PAGES"] page_addr_facts hole_def)
next
  case (Suc n)
  then have p: "p < LIMIT_PAGES" by simp
  have unfold: "find_free_outer bm sz (page_addr p) =
      (if hole bm sz p then page_addr p else find_free_outer bm sz (page_addr (p + 1)))"
    using p find_free_inner_iff [of p p bm sz]
    by (subst find_free_outer.simps)
      (auto simp: page_addr_facts get_bootmem_bitmap_iff hole_def)
  have "(\<exists>q\<ge>p + 1. find_free_outer bm sz (page_addr (p + 1)) = page_addr q \<and> hole bm sz q \<and>
             (\<forall>r\<in>{p + 1..<q}. \<not> hole bm sz r)) \<or>
         find_free_outer bm sz (page_addr (p + 1)) = - 1 \<and> (\<forall>r\<ge>p + 1. \<not> hole bm sz r)"
    using Suc p by (intro Suc.hyps(1)) auto
  note IH = this
  show ?case
  proof (cases "hole bm sz p")
    case True
    then show ?thesis unfolding unfold by auto
  next
    case False
    with first_fit_step [OF False IH] show ?thesis unfolding unfold by simp
  qed
qed

lemma find_free_bitmap_cases:
  obtains (found) q where "find_free_bitmap sz bm = page_addr q" "hole bm sz q"
      "\<forall>r<q. \<not> hole bm sz r" "page_addr q \<noteq> - 1"
  | (full) "find_free_bitmap sz bm = - 1" "\<forall>r. \<not> hole bm sz r"
proof -
  have 0: "page_addr 0 = 0" by (simp add: page_addr_def)
  have "page_addr q \<noteq> - 1" if "hole bm sz q" for q
  proof -
    have "page_addr q < BOOTMEM_LIMIT" using that page_addr_facts(1) [of q] by (simp add: hole_def)
    moreover have "\<not> (- 1 :: u64) < BOOTMEM_LIMIT" by (simp add: BOOTMEM_LIMIT_def)
    ultimately show ?thesis by metis
  qed
  with find_free_outer_cases [of 0 bm sz] show thesis
    using that by (auto simp: find_free_bitmap_def 0)
qed


lemma set_area_at:
  assumes "q + pages_for sz \<le> LIMIT_PAGES"
  obtains bm' where "set_bootmem_bitmap_area (page_addr q) sz bm = Some bm'"
    "last_alloc_offset bm' = last_alloc_offset bm" "last_alloc_pfn bm' = last_alloc_pfn bm"
    "\<And>p. p < 2 ^ 52 \<Longrightarrow> page_used bm' p \<longleftrightarrow> page_used bm p \<or> q \<le> p \<and> p < q + pages_for sz"
proof -
  have sz: "q * 0x1000 + unat sz \<le> (q + pages_for sz) * 0x1000"
    by (simp add: pages_for_def algebra_simps)
  also have "\<dots> \<le> LIMIT_PAGES * 0x1000" using assms by simp
  finally have le: "q * 0x1000 + unat sz \<le> LIMIT_PAGES * 0x1000" .
  have q: "unat (page_addr q) = q * 0x1000" using assms by (simp add: unat_page_addr)
  have e: "unat (page_addr q + sz) = q * 0x1000 + unat sz"
    using le q by (subst unat_plus_no_wrap) (auto simp: LIMIT_PAGES_def)
  have "area_page (q * 0x1000) (q * 0x1000 + unat sz) p \<longleftrightarrow> q \<le> p \<and> p < q + pages_for sz" for p
    by (auto simp: area_page_def pages_for_def)
  with set_area_loop [of "page_addr q + sz" "page_addr q" bm] le q e that show thesis
    by (auto simp: set_bootmem_bitmap_area_def LIMIT_PAGES_def)
qed

section \<open>The invariant of a run of allocations\<close>

text \<open>Blocks are pairs of a physical address and a length in bytes, newest first.\<close>

fun blocks_disjoint :: "(nat \<times> nat) list \<Rightarrow> bool" where
  "blocks_disjoint [] \<longleftrightarrow> True"
| "blocks_disjoint ((a, s) # bs) \<longleftrightarrow>
     (\<forall>(b, t)\<in>set bs. {a..<a + s} \<inter> {b..<b + t} = {}) \<and> blocks_disjoint bs"

text \<open>\<^verbatim>\<open>U\<close> is the set of pages that were in use before the first allocation.\<close>

definition page_ok :: "nat set \<Rightarrow> bootmem \<Rightarrow> nat \<Rightarrow> bool" where
  "page_ok U bm p \<longleftrightarrow> page_used bm p \<and> p \<notin> U \<and> p < LIMIT_PAGES"

definition alloc_inv :: "nat set \<Rightarrow> bootmem \<Rightarrow> (nat \<times> nat) list \<Rightarrow> bool" where
  "alloc_inv U bm bs \<longleftrightarrow>
     (\<forall>p\<in>U. p < LIMIT_PAGES \<longrightarrow> page_used bm p) \<and> blocks_disjoint bs \<and>
     (\<forall>(a, s)\<in>set bs. \<forall>x\<in>{a..<a + s}. page_ok U bm (x div 0x1000)) \<and>
     (last_alloc_offset bm \<noteq> 0 \<longrightarrow>
        unat (last_alloc_offset bm) \<le> 0x1000 \<and> page_ok U bm (unat (last_alloc_pfn bm)) \<and>
        (\<forall>(a, s)\<in>set bs. {a..<a + s} \<inter>
           {unat (last_alloc_pfn bm) * 0x1000 + unat (last_alloc_offset bm)
              ..<unat (last_alloc_pfn bm) * 0x1000 + 0x1000} = {}))"

lemma alloc_inv_fresh:
  assumes inv: "alloc_inv U bm bs" and q: "q + pages_for sz \<le> LIMIT_PAGES"
    and free: "\<And>r. q \<le> r \<Longrightarrow> r < q + pages_for sz \<Longrightarrow> \<not> page_used bm r"
    and used: "\<And>p. p < 2 ^ 52 \<Longrightarrow>
      page_used bm' p \<longleftrightarrow> page_used bm p \<or> q \<le> p \<and> p < q + pages_for sz"
    and off: "last_alloc_offset bm' \<noteq> 0 \<Longrightarrow>
      unat (last_alloc_offset bm') \<le> 0x1000 \<and> unat (last_alloc_pfn bm') = q \<and>
      pages_for sz = 1 \<and> unat sz \<le> unat (last_alloc_offset bm')"
  shows "alloc_inv U bm' ((q * 0x1000, unat sz) # bs)"
proof -
  have big: "p < LIMIT_PAGES \<Longrightarrow> p < 2 ^ 52" for p by (simp add: LIMIT_PAGES_def)
  have keep: "page_ok U bm p \<Longrightarrow> page_ok U bm' p" for p
    using used [of p] big [of p] by (auto simp: page_ok_def)
  have inside: "q \<le> x div 0x1000 \<and> x div 0x1000 < q + pages_for sz"
    if "x \<in> {q * 0x1000..<q * 0x1000 + unat sz}" for x
    using that by (auto simp: pages_for_def)
  have new: "page_ok U bm' r \<and> r < LIMIT_PAGES" if "q \<le> r" "r < q + pages_for sz" for r
    using that free [of r] used [of r] q big [of r] inv by (auto simp: page_ok_def alloc_inv_def)
  have old: "page_ok U bm (x div 0x1000)" if "(a, s) \<in> set bs" "x \<in> {a..<a + s}" for a s x
    using inv that by (fastforce simp: alloc_inv_def)
  have apart: "\<not> (q \<le> x div 0x1000 \<and> x div 0x1000 < q + pages_for sz)"
    if "(a, s) \<in> set bs" "x \<in> {a..<a + s}" for a s x
    using old [OF that] free [of "x div 0x1000"] by (auto simp: page_ok_def)
  have disj: "{q * 0x1000..<q * 0x1000 + unat sz} \<inter> {a..<a + s} = {}" if "(a, s) \<in> set bs" for a s
    using inside apart [OF that] by blast
  have front: "{a..<a + s} \<inter> {q * 0x1000 + off..<q * 0x1000 + 0x1000} = {}"
    if "(a, s) \<in> set bs" "pages_for sz = 1" for a s off
  proof -
    have "x div 0x1000 = q" if "x \<in> {q * 0x1000 + off..<q * 0x1000 + 0x1000}" for x
      using that by auto
    with apart [OF that(1)] that(2) show ?thesis by fastforce
  qed
  show ?thesis
    unfolding alloc_inv_def
  proof (intro conjI impI)
    show "\<forall>p\<in>U. p < LIMIT_PAGES \<longrightarrow> page_used bm' p"
      using inv used big by (auto simp: alloc_inv_def)
    show "blocks_disjoint ((q * 0x1000, unat sz) # bs)"
      using inv disj unfolding alloc_inv_def blocks_disjoint.simps by blast
    show "\<forall>(a, s)\<in>set ((q * 0x1000, unat sz) # bs). \<forall>x\<in>{a..<a + s}. page_ok U bm' (x div 0x1000)"
      using inside new old keep by auto
    assume nz: "last_alloc_offset bm' \<noteq> 0"
    show "unat (last_alloc_offset bm') \<le> 0x1000" using off [OF nz] by simp
    show "page_ok U bm' (unat (last_alloc_pfn bm'))" using off [OF nz] new [of q] by simp
    show "\<forall>(a, s)\<in>set ((q * 0x1000, unat sz) # bs). {a..<a + s} \<inter>
           {unat (last_alloc_pfn bm') * 0x1000 + unat (last_alloc_offset bm')
              ..<unat (last_alloc_pfn bm') * 0x1000 + 0x1000} = {}"
      using off [OF nz] front by auto
  qed
qed


lemma unat_roundup_64:
  assumes "unat x < 0x1000" shows "unat (roundup x 64) = (unat x + 63) div 64 * 64"
proof -
  have a: "unat (x + 63) = unat x + 63" using assms by (subst unat_plus_no_wrap) auto
  have "unat ((x + 63) div 64) = (unat x + 63) div 64" using a by (simp add: unat_div_distrib)
  moreover have "(unat x + 63) div 64 * 64 \<le> unat x + 63" by (rule div_times_less_eq_dividend)
  ultimately show ?thesis using assms by (simp add: roundup_def unat_word_ariths)
qed

lemma alloc_inv_bump:
  assumes inv: "alloc_inv U bm bs" and off: "last_alloc_offset bm \<noteq> 0"
    and fit: "unat (last_alloc_offset bm) + unat sz \<le> 0x1000"
    and new: "new = 0 \<or> unat (last_alloc_offset bm) + unat sz \<le> unat new \<and> unat new \<le> 0x1000"
  shows "alloc_inv U (bm\<lparr>last_alloc_offset := new\<rparr>)
     ((unat (last_alloc_pfn bm) * 0x1000 + unat (last_alloc_offset bm), unat sz) # bs)"
proof -
  let ?p = "unat (last_alloc_pfn bm)" and ?o = "unat (last_alloc_offset bm)"
  have ok: "page_ok U bm ?p" and front: "\<And>a s. (a, s) \<in> set bs \<Longrightarrow>
      {a..<a + s} \<inter> {?p * 0x1000 + ?o..<?p * 0x1000 + 0x1000} = {}"
    using inv off by (auto simp: alloc_inv_def)
  have sub: "{?p * 0x1000 + ?o..<?p * 0x1000 + ?o + unat sz} \<subseteq> {?p * 0x1000 + ?o..<?p * 0x1000 + 0x1000}"
    "new \<noteq> 0 \<Longrightarrow> {?p * 0x1000 + unat new..<?p * 0x1000 + 0x1000} \<subseteq> {?p * 0x1000 + ?o..<?p * 0x1000 + 0x1000}"
    using fit new by auto
  have page: "x div 0x1000 = ?p" if "x \<in> {?p * 0x1000 + ?o..<?p * 0x1000 + ?o + unat sz}" for x
    using that fit by auto
  have same: "page_ok U (bm\<lparr>last_alloc_offset := new\<rparr>) = page_ok U bm" by (simp add: page_ok_def fun_eq_iff)
  show ?thesis
    unfolding alloc_inv_def same
  proof (intro conjI impI)
    show "blocks_disjoint ((?p * 0x1000 + ?o, unat sz) # bs)"
      using inv front sub(1) unfolding alloc_inv_def blocks_disjoint.simps by blast
    show "\<forall>p\<in>U. p < LIMIT_PAGES \<longrightarrow> page_used (bm\<lparr>last_alloc_offset := new\<rparr>) p"
      using inv by (simp add: alloc_inv_def)
    show "\<forall>(a, s)\<in>set ((?p * 0x1000 + ?o, unat sz) # bs). \<forall>x\<in>{a..<a + s}. page_ok U bm (x div 0x1000)"
      using inv ok page by (auto simp: alloc_inv_def)
    assume "last_alloc_offset (bm\<lparr>last_alloc_offset := new\<rparr>) \<noteq> 0"
    then have nz: "new \<noteq> 0" by simp
    show "unat (last_alloc_offset (bm\<lparr>last_alloc_offset := new\<rparr>)) \<le> 0x1000" using new nz by simp
    show "page_ok U bm (unat (last_alloc_pfn (bm\<lparr>last_alloc_offset := new\<rparr>)))" using ok by simp
    have "{?p * 0x1000 + ?o..<?p * 0x1000 + ?o + unat sz} \<inter> {?p * 0x1000 + unat new..<?p * 0x1000 + 0x1000} = {}"
      using new nz by auto
    then show "\<forall>(a, s)\<in>set ((?p * 0x1000 + ?o, unat sz) # bs). {a..<a + s} \<inter>
           {unat (last_alloc_pfn (bm\<lparr>last_alloc_offset := new\<rparr>)) * 0x1000
              + unat (last_alloc_offset (bm\<lparr>last_alloc_offset := new\<rparr>))
              ..<unat (last_alloc_pfn (bm\<lparr>last_alloc_offset := new\<rparr>)) * 0x1000 + 0x1000} = {}"
      using front sub(2) [OF nz] by fastforce
  qed
qed


lemma page_addr_unat: "page_addr (unat x) = x * 0x1000"
  by (simp add: page_addr_def)

lemma pages_for_small: "sz < 0x1000 \<Longrightarrow> pages_for sz = (if sz = 0 then 0 else 1)"
proof -
  assume "sz < 0x1000"
  then have "unat sz < 0x1000" by (simp add: word_less_nat_alt)
  then show ?thesis by (auto simp: pages_for_def unat_eq_0 div_if)
qed

lemma unat_paddr: "p \<le> LIMIT_PAGES \<Longrightarrow> unat x \<le> 0x1000 \<Longrightarrow> unat (page_addr p + x) = p * 0x1000 + unat x"
  by (subst unat_plus_no_wrap) (auto simp: unat_page_addr LIMIT_PAGES_def)

lemma paddr_valid:
  assumes "p \<le> LIMIT_PAGES" "unat x \<le> 0x1000"
  shows "PHYS2VIRT (page_addr p + x) \<noteq> 0" "page_addr p + x \<noteq> - 1"
proof -
  have u: "unat (page_addr p + x) = p * 0x1000 + unat x" using assms by (rule unat_paddr)
  have le: "p * 0x1000 + unat x \<le> 0x1000001000" using assms by (simp add: LIMIT_PAGES_def)
  then have "unat (PHYS2VIRT (page_addr p + x)) = unat (page_addr p + x) + unat KERNEL_SPACE"
    unfolding PHYS2VIRT_def using u by (subst unat_plus_no_wrap) (simp_all add: KERNEL_SPACE_def)
  then show "PHYS2VIRT (page_addr p + x) \<noteq> 0" by (auto simp: KERNEL_SPACE_def)
  have "page_addr p + x < 0x1000001001" using u le by (simp add: word_less_nat_alt)
  then show "page_addr p + x \<noteq> - 1" by auto
qed

definition alloc_post :: "nat set \<Rightarrow> bootmem \<Rightarrow> (nat \<times> nat) list \<Rightarrow> u64 \<Rightarrow> bool" where
  "alloc_post U bm bs sz \<longleftrightarrow>
     (\<exists>v bm'. bootmem_alloc sz bm = Some (v, bm') \<and>
        (v = 0 \<and> alloc_inv U bm' bs \<or>
         v \<noteq> 0 \<and> alloc_inv U bm' ((unat (VIRT2PHYS v), unat sz) # bs)))"

lemma alloc_post_large:
  assumes inv: "alloc_inv U bm bs" and sz: "0x1000 \<le> sz"
  shows "alloc_post U bm bs sz"
proof -
  define b0 where "b0 = bm\<lparr>last_alloc_offset := 0\<rparr>"
  have used: "page_used b0 = page_used bm" and off: "last_alloc_offset b0 = 0" by (simp_all add: b0_def)
  have inv0: "alloc_inv U b0 bs"
    using inv by (simp add: alloc_inv_def used off) (auto simp: page_ok_def used)
  show ?thesis
  proof (cases rule: find_free_bitmap_cases [of sz b0])
    case (found q)
    then have q: "q + pages_for sz \<le> LIMIT_PAGES" by (simp add: hole_def)
    obtain b1 where b1: "set_bootmem_bitmap_area (page_addr q) sz b0 = Some b1"
      "last_alloc_offset b1 = last_alloc_offset b0"
      "\<And>p. p < 2 ^ 52 \<Longrightarrow> page_used b1 p \<longleftrightarrow> page_used b0 p \<or> q \<le> p \<and> p < q + pages_for sz"
      using set_area_at [OF q, of b0] by metis
    have "alloc_inv U b1 ((q * 0x1000, unat sz) # bs)"
      using found(2) b1(2) off by (intro alloc_inv_fresh [OF inv0 q _ b1(3)]) (auto simp: hole_def)
    moreover have "bootmem_alloc sz bm = Some (PHYS2VIRT (page_addr q), b1)"
      using found b1(1) sz by (simp add: bootmem_alloc_def Let_def b0_def)
    ultimately show ?thesis
      using paddr_valid [of q 0] q by (simp add: alloc_post_def unat_page_addr)
  next
    case full
    then show ?thesis using inv0 sz by (simp add: alloc_post_def bootmem_alloc_def Let_def b0_def)
  qed
qed

text \<open>The branch that takes a fresh page: the offset written is \<^verbatim>\<open>new\<close>.\<close>

lemma fresh_page:
  assumes inv: "alloc_inv U bm bs" and sz: "sz < 0x1000"
    and off: "new \<noteq> 0 \<Longrightarrow> sz \<noteq> 0 \<and> unat sz \<le> unat new \<and> unat new \<le> 0x1000"
    and hole: "hole bm 0x1000 q"
  shows "\<exists>b1. set_bootmem_bitmap_area (page_addr q) sz
            (bm\<lparr>last_alloc_offset := new, last_alloc_pfn := page_addr q div 0x1000\<rparr>) = Some b1 \<and>
          alloc_inv U b1 ((q * 0x1000, unat sz) # bs)"
proof -
  define b0 where "b0 = bm\<lparr>last_alloc_offset := new, last_alloc_pfn := page_addr q div 0x1000\<rparr>"
  have one: "pages_for 0x1000 = 1" by (simp add: pages_for_def)
  with hole have free: "\<not> page_used bm q" and q1: "q + 1 < LIMIT_PAGES" by (auto simp: hole_def)
  then have q: "q + pages_for sz \<le> LIMIT_PAGES" using pages_for_small [OF sz] by auto
  have pfn: "unat (page_addr q div 0x1000) = q"
    using q1 by (simp add: unat_div_distrib unat_page_addr)
  have used: "page_used b0 = page_used bm" by (simp add: b0_def page_used_def fun_eq_iff)
  have b0: "last_alloc_offset b0 = new" "last_alloc_pfn b0 = page_addr q div 0x1000"
    by (simp_all add: b0_def)
  obtain b1 where b1: "set_bootmem_bitmap_area (page_addr q) sz b0 = Some b1"
    "last_alloc_offset b1 = new" "last_alloc_pfn b1 = page_addr q div 0x1000"
    "\<And>p. p < 2 ^ 52 \<Longrightarrow> page_used b1 p \<longleftrightarrow> page_used b0 p \<or> q \<le> p \<and> p < q + pages_for sz"
    using set_area_at [OF q, of b0] unfolding b0 by blast
  have "alloc_inv U b1 ((q * 0x1000, unat sz) # bs)"
  proof (rule alloc_inv_fresh [OF inv q _ b1(4) [unfolded used]])
    fix r assume "q \<le> r" "r < q + pages_for sz"
    then have "r = q" using pages_for_small [OF sz] by (simp split: if_splits)
    with free show "\<not> page_used bm r" by simp
  next
    assume "last_alloc_offset b1 \<noteq> 0"
    then show "unat (last_alloc_offset b1) \<le> 0x1000 \<and> unat (last_alloc_pfn b1) = q \<and>
        pages_for sz = 1 \<and> unat sz \<le> unat (last_alloc_offset b1)"
      using off pfn pages_for_small [OF sz] by (simp add: b1)
  qed
  with b1(1) show ?thesis unfolding b0_def by blast
qed


lemma round_up_64:
  assumes "(m :: nat) < 0x1000" shows "m \<le> (m + 63) div 64 * 64 \<and> (m + 63) div 64 * 64 \<le> 0x1000"
proof -
  have "(m + 63) div 64 \<le> 64" using assms div_le_mono [of "m + 63" 4158 64] by simp
  moreover have "(m + 63) mod 64 < 64" by simp
  ultimately show ?thesis using div_mult_mod_eq [of "m + 63" 64]
    by (intro conjI; linarith)
qed

lemma alloc_post_small:
  assumes inv: "alloc_inv U bm bs" and sz: "sz < 0x1000"
  shows "alloc_post U bm bs sz"
proof -
  let ?o = "last_alloc_offset bm" and ?p = "last_alloc_pfn bm"
  have szn: "unat sz < 0x1000" using sz by (simp add: word_less_nat_alt)
  have big: "\<not> 0x1000 \<le> sz" using sz by (simp add: not_le)
  have o: "unat ?o \<le> 0x1000" using inv by (cases "?o = 0") (auto simp: alloc_inv_def)
  have sum: "unat (?o + sz) = unat ?o + unat sz" using o szn by (subst unat_plus_no_wrap) auto
  have fresh: "alloc_post U bm bs sz"
    if r: "bootmem_alloc sz bm = do {
        let paddr = find_free_bitmap 0x1000 bm;
        (paddr, bm) \<leftarrow> (if paddr \<noteq> - 1 then do {
           bm \<leftarrow> set_bootmem_bitmap_area paddr sz
                 (bm\<lparr>last_alloc_offset := new, last_alloc_pfn := paddr div 0x1000\<rparr>);
           Some (paddr, bm) } else Some (paddr, bm));
        if paddr = - 1 then Some (0, bm) else Some (PHYS2VIRT paddr, bm) }"
      and new: "new \<noteq> 0 \<Longrightarrow> sz \<noteq> 0 \<and> unat sz \<le> unat new \<and> unat new \<le> 0x1000" for new
  proof (cases rule: find_free_bitmap_cases [of "0x1000" bm])
    case (found q)
    then have q: "q \<le> LIMIT_PAGES" by (simp add: hole_def)
    from fresh_page [OF inv sz new found(2)] found(1,4) paddr_valid [OF q, of 0] show ?thesis
      by (auto simp: alloc_post_def r unat_page_addr q)
  next
    case full
    then show ?thesis using inv by (simp add: alloc_post_def r)
  qed
  consider (over) "0x1000 < ?o + sz" | (bump) "\<not> 0x1000 < ?o + sz" "?o \<noteq> 0" | (page) "?o = 0" by auto
  then show ?thesis
  proof cases
    case over
    then have nz: "?o \<noteq> 0" using sz by auto
    then have ok: "page_ok U bm (unat ?p)" using inv by (simp add: alloc_inv_def)
    have "page_of (?p * 0x1000 + sz) = unat ?p"
      using ok szn unat_paddr [of "unat ?p" sz]
      by (simp add: page_addr_unat page_of_def page_ok_def)
    then have "get_bootmem_bitmap (?p * 0x1000 + sz) bm \<noteq> 0"
      using ok by (simp add: get_bootmem_bitmap_iff page_ok_def)
    then show ?thesis
      using over big by (intro fresh [of 0]) (simp_all add: bootmem_alloc_def Let_def)
  next
    case bump
    define new where "new = roundup ((?o + sz) mod 0x1000) 64"
    have fit: "unat ?o + unat sz \<le> 0x1000"
      using bump(1) sum by (simp add: word_less_nat_alt)
    have n: "unat new = ((unat ?o + unat sz) mod 0x1000 + 63) div 64 * 64"
      unfolding new_def using sum by (subst unat_roundup_64) (simp_all add: unat_mod_distrib)
    have "new = 0 \<or> unat ?o + unat sz \<le> unat new \<and> unat new \<le> 0x1000"
    proof (cases "unat ?o + unat sz = 0x1000")
      case True
      then have "unat new = 0" unfolding n by simp
      then show ?thesis by (simp add: unat_eq_0)
    next
      case False
      then have "unat ?o + unat sz < 0x1000" using fit by simp
      with round_up_64 show ?thesis unfolding n by simp
    qed
    from alloc_inv_bump [OF inv bump(2) fit this]
    have inv': "alloc_inv U (bm\<lparr>last_alloc_offset := new\<rparr>)
        ((unat (?p * 0x1000 + ?o), unat sz) # bs)"
      using unat_paddr [of "unat ?p" ?o] inv bump(2) by (simp add: page_addr_unat alloc_inv_def page_ok_def)
    have p: "unat ?p < LIMIT_PAGES" using inv bump(2) by (simp add: alloc_inv_def page_ok_def)
    have "bootmem_alloc sz bm = Some (PHYS2VIRT (?p * 0x1000 + ?o), bm\<lparr>last_alloc_offset := new\<rparr>)"
      using bump big paddr_valid(2) [of "unat ?p" ?o] p o
      by (simp add: bootmem_alloc_def Let_def new_def page_addr_unat)
    then show ?thesis
      using inv' paddr_valid(1) [of "unat ?p" ?o] p o by (simp add: alloc_post_def page_addr_unat)
  next
    case page
    define new where "new = roundup (sz mod 0x1000) 64"
    have "unat new = (unat sz + 63) div 64 * 64"
      unfolding new_def using szn by (subst unat_roundup_64) (simp_all add: unat_mod_distrib)
    then have "new \<noteq> 0 \<Longrightarrow> sz \<noteq> 0 \<and> unat sz \<le> unat new \<and> unat new \<le> 0x1000"
      using szn by (auto simp: new_def roundup_def)
    moreover have "(0x1000 < sz) = False" "(0x1000 \<le> sz) = False" using sz by (auto simp: not_le)
    ultimately show ?thesis
      using page(1) by (intro fresh [of new]) (simp_all only: bootmem_alloc_def Let_def new_def add_0 if_False if_True simp_thms not_False_eq_True)
  qed
qed


lemma alloc_post_any: "alloc_inv U bm bs \<Longrightarrow> alloc_post U bm bs sz"
  using alloc_post_large alloc_post_small by (metis not_le)

section \<open>Initialisation\<close>

text \<open>The pages a region of the memory map clears: usable memory that ends at 64GB or below. The loop
  clears the page of the base and goes on in steps of 4096 from the base itself, not from the start of its page, as
  long as it is below the end: of a region that does not begin at a page, the last page is left
  out when the region ends in it before the base's offset.\<close>

definition region_clears :: "ards \<Rightarrow> nat \<Rightarrow> bool" where
  "region_clears a p \<longleftrightarrow> ards_type a = 1 \<and> ards_base a + ards_length a \<le> 0x1000000000 \<and>
     area_page (unat (ards_base a)) (unat (ards_base a + ards_length a)) p"

lemma bootmem_init_areas_spec:
  "\<exists>bm'. bootmem_init_areas as bm = Some bm' \<and> last_alloc_offset bm' = last_alloc_offset bm \<and>
     (\<forall>p < 2 ^ 52. page_used bm' p \<longleftrightarrow> page_used bm p \<and> \<not> (\<exists>a\<in>set as. region_clears a p))"
proof (induction as arbitrary: bm)
  case Nil
  then show ?case by simp
next
  case (Cons a as)
  show ?case
  proof (cases "ards_type a = 1 \<and> ards_base a + ards_length a \<le> 0x1000000000")
    case True
    then have "unat (ards_base a + ards_length a) \<le> 2 ^ 64 - 0x1000" by (simp add: word_le_nat_alt)
    from clear_area_loop [OF this, of "ards_base a" bm]
    obtain b1 where b1: "clear_bootmem_bitmap_area (ards_base a) (ards_length a) bm = Some b1"
      "last_alloc_offset b1 = last_alloc_offset bm"
      "\<forall>p < 2 ^ 52. page_used b1 p \<longleftrightarrow> page_used bm p \<and> \<not> region_clears a p"
      unfolding clear_bootmem_bitmap_area_def region_clears_def using True by blast
    from Cons.IH [of b1] b1 True show ?thesis by (auto simp: not_less)
  next
    case False
    then show ?thesis using Cons.IH [of bm] by (auto simp: region_clears_def not_less)
  qed
qed

lemma memset_page_used:
  "p < LIMIT_PAGES \<Longrightarrow> page_used (bm\<lparr>bitmap := \<lambda>i. if i < 0x200000 then 0xff else f i\<rparr>) p"
proof -
  assume p: "p < LIMIT_PAGES"
  then have "(of_nat (p div 8) :: u64) < 0x200000"
    by (simp add: word_less_nat_alt unat_of_nat take_bit_nat_eq_self LIMIT_PAGES_def less_mult_imp_div_less)
  moreover have "bit (0xff :: u8) (p mod 8)"
    by (simp add: numeral_mask(2) bit_mask_iff)
  ultimately show ?thesis by (simp add: page_used_def)
qed

lemma bootmem_init_spec:
  assumes "unat (ardc_cnt parm) \<le> length (ardc_array parm)"
  shows "\<exists>bm. bootmem_init parm bm0 = Some bm \<and> last_alloc_offset bm = 0 \<and>
     (\<forall>p < LIMIT_PAGES. \<not> page_used bm p \<longleftrightarrow> 0x1000 \<le> p \<and>
        ((\<exists>a\<in>set (take (unat (ardc_cnt parm)) (ardc_array parm)). region_clears a p) \<or>
         ardc_cnt parm = 0 \<and> p < 0x100000))"
proof -
  let ?as = "take (unat (ardc_cnt parm)) (ardc_array parm)"
  define b0 where "b0 = bm0\<lparr>last_alloc_pfn := 1, last_alloc_offset := 0,
     bitmap := \<lambda>i. if i < 0x200000 then 0xff else bitmap bm0 i\<rparr>"
  have big: "p < LIMIT_PAGES \<Longrightarrow> p < 2 ^ 52" for p by (simp add: LIMIT_PAGES_def)
  have b0: "last_alloc_offset b0 = 0" "\<And>p. p < LIMIT_PAGES \<Longrightarrow> page_used b0 p"
    unfolding b0_def by (simp, rule memset_page_used)
  obtain b1 where b1: "bootmem_init_areas ?as b0 = Some b1" "last_alloc_offset b1 = 0"
    "\<forall>p < 2 ^ 52. page_used b1 p \<longleftrightarrow> page_used b0 p \<and> \<not> (\<exists>a\<in>set ?as. region_clears a p)"
    using bootmem_init_areas_spec [of ?as b0] unfolding b0(1) by blast
  have areas: "area_page 0 0x100000000 p \<longleftrightarrow> p < 0x100000" "area_page 0 0x1000000 p \<longleftrightarrow> p < 0x1000" for p
    by (auto simp: area_page_def)
  obtain b2 where b2: "(if ardc_cnt parm = 0 then clear_bootmem_bitmap_area 0 0x100000000 b1 else Some b1) = Some b2"
    "last_alloc_offset b2 = 0"
    "\<forall>p < 2 ^ 52. page_used b2 p \<longleftrightarrow> page_used b1 p \<and> \<not> (ardc_cnt parm = 0 \<and> p < 0x100000)"
    using clear_area_loop [of "0x100000000" 0 b1] b1(2) areas(1)
    by (cases "ardc_cnt parm = 0") (auto simp: clear_bootmem_bitmap_area_def)
  obtain b3 where b3: "set_bootmem_bitmap_area 0 0x1000000 b2 = Some b3"
    "last_alloc_offset b3 = 0" "\<forall>p < 2 ^ 52. page_used b3 p \<longleftrightarrow> page_used b2 p \<or> p < 0x1000"
    using set_area_loop [of "0x1000000" 0 b2] b2(2) areas(2) by (auto simp: set_bootmem_bitmap_area_def)
  have "bootmem_init parm bm0 = Some b3"
    using assms b1(1) b2(1) b3(1)
    by (simp add: bootmem_init_def Let_def b0_def not_less cong: if_cong)
  moreover have "\<not> page_used b3 p \<longleftrightarrow> 0x1000 \<le> p \<and>
        ((\<exists>a\<in>set ?as. region_clears a p) \<or> ardc_cnt parm = 0 \<and> p < 0x100000)"
    if "p < LIMIT_PAGES" for p
    using b0(2) [OF that] big [OF that] b1(3) b2(3) b3(3) by (auto simp: not_le)
  ultimately show ?thesis using b3(2) by blast
qed

section \<open>Properties\<close>

text \<open>A run of allocations; the blocks that were handed out, newest first.\<close>

fun alloc_all :: "u64 list \<Rightarrow> bootmem \<Rightarrow> (nat \<times> nat) list \<Rightarrow> (bootmem \<times> (nat \<times> nat) list) option" where
  "alloc_all [] bm bs = Some (bm, bs)"
| "alloc_all (sz # szs) bm bs = do {
     (v, bm) \<leftarrow> bootmem_alloc sz bm;
     alloc_all szs bm (if v = 0 then bs else (unat (VIRT2PHYS v), unat sz) # bs)
   }"

lemma alloc_all_inv:
  "alloc_inv U bm bs \<Longrightarrow> \<exists>bm' bs'. alloc_all szs bm bs = Some (bm', bs') \<and> alloc_inv U bm' bs'"
proof (induction szs arbitrary: bm bs)
  case (Cons sz szs)
  from alloc_post_any [OF Cons.prems, of sz] obtain v bm' where
    r: "bootmem_alloc sz bm = Some (v, bm')" and
    d: "v = 0 \<and> alloc_inv U bm' bs \<or> v \<noteq> 0 \<and> alloc_inv U bm' ((unat (VIRT2PHYS v), unat sz) # bs)"
    unfolding alloc_post_def by blast
  then have i: "alloc_inv U bm' (if v = 0 then bs else (unat (VIRT2PHYS v), unat sz) # bs)" by auto
  from Cons.IH [OF i] r show ?case by simp
qed simp

text \<open>C2. After \<^verbatim>\<open>bootmem_init\<close> every sequence of \<^verbatim>\<open>bootmem_alloc\<close> calls, of any
  sizes and whatever branch each takes, returns, and the blocks handed out are pairwise disjoint
  and lie in pages below 64GB that were free when the allocator came up.\<close>

theorem bootmem_alloc_disjoint:
  assumes "bootmem_init parm bm0 = Some bm"
  shows "\<exists>bm' bs. alloc_all szs bm [] = Some (bm', bs) \<and> blocks_disjoint bs \<and>
     (\<forall>(a, s)\<in>set bs. \<forall>x\<in>{a..<a + s}. x div 0x1000 < LIMIT_PAGES \<and> \<not> page_used bm (x div 0x1000))"
proof -
  let ?U = "{p. page_used bm p}"
  have "unat (ardc_cnt parm) \<le> length (ardc_array parm)"
    using assms by (auto simp: bootmem_init_def split: if_splits)
  with bootmem_init_spec [of parm bm0] assms have "last_alloc_offset bm = 0" by auto
  then have "alloc_inv ?U bm []" by (simp add: alloc_inv_def)
  from alloc_all_inv [OF this, of szs] obtain bm' bs where
    "alloc_all szs bm [] = Some (bm', bs)" "alloc_inv ?U bm' bs" by blast
  then show ?thesis unfolding alloc_inv_def page_ok_def by (intro exI [of _ bm'] exI [of _ bs]) fastforce
qed

lemma alloc_large_cases:
  assumes "0x1000 \<le> sz"
  shows "(\<exists>q bm'. bootmem_alloc sz bm = Some (PHYS2VIRT (page_addr q), bm') \<and>
            hole bm sz q \<and> (\<forall>r < q. \<not> hole bm sz r) \<and>
            (\<forall>p < 2 ^ 52. page_used bm' p \<longleftrightarrow> page_used bm p \<or> q \<le> p \<and> p < q + pages_for sz)) \<or>
         bootmem_alloc sz bm = Some (0, bm\<lparr>last_alloc_offset := 0\<rparr>) \<and> (\<forall>q. \<not> hole bm sz q)"
proof -
  define b0 where "b0 = bm\<lparr>last_alloc_offset := 0\<rparr>"
  have used: "page_used b0 = page_used bm" and hole: "hole b0 sz = hole bm sz"
    by (simp_all add: b0_def hole_def fun_eq_iff)
  show ?thesis
  proof (cases rule: find_free_bitmap_cases [of sz b0])
    case (found q)
    then have q: "q + pages_for sz \<le> LIMIT_PAGES" by (simp add: hole_def)
    obtain b1 where b1: "set_bootmem_bitmap_area (page_addr q) sz b0 = Some b1"
      "\<And>p. p < 2 ^ 52 \<Longrightarrow> page_used b1 p \<longleftrightarrow> page_used b0 p \<or> q \<le> p \<and> p < q + pages_for sz"
      using set_area_at [OF q, of b0] by metis
    have "bootmem_alloc sz bm = Some (PHYS2VIRT (page_addr q), b1)"
      using found b1(1) assms by (simp add: bootmem_alloc_def Let_def b0_def)
    then show ?thesis using found b1(2) unfolding used hole by blast
  next
    case full
    then show ?thesis using assms hole by (simp add: bootmem_alloc_def Let_def b0_def)
  qed
qed

text \<open>A page that a usable region has bytes of, and one that lies in it as a whole.\<close>

definition region_touches :: "ards \<Rightarrow> nat \<Rightarrow> bool" where
  "region_touches a p \<longleftrightarrow> ards_type a = 1 \<and> ards_base a + ards_length a \<le> 0x1000000000 \<and>
     unat (ards_base a) div 0x1000 \<le> p \<and> p * 0x1000 < unat (ards_base a + ards_length a)"

definition region_contains :: "ards \<Rightarrow> nat \<Rightarrow> bool" where
  "region_contains a p \<longleftrightarrow> ards_type a = 1 \<and> ards_base a + ards_length a \<le> 0x1000000000 \<and>
     unat (ards_base a) \<le> p * 0x1000 \<and> p * 0x1000 + 0x1000 \<le> unat (ards_base a + ards_length a)"

lemma region_bounds: "region_contains a p \<Longrightarrow> region_clears a p" "region_clears a p \<Longrightarrow> region_touches a p"
proof -
  assume c: "region_contains a p"
  let ?b = "unat (ards_base a)"
  have "?b div 0x1000 \<le> p * 0x1000 div 0x1000" using c unfolding region_contains_def by (intro div_le_mono) blast
  moreover have "p * 0x1000 + ?b mod 0x1000 < unat (ards_base a + ards_length a)"
  proof -
    have "?b mod 0x1000 < 0x1000" by simp
    moreover have "p * 0x1000 + 0x1000 \<le> unat (ards_base a + ards_length a)" using c by (simp add: region_contains_def)
    ultimately show ?thesis by linarith
  qed
  ultimately show "region_clears a p"
    using c by (simp add: region_contains_def region_clears_def area_page_def)
next
  assume "region_clears a p"
  then show "region_touches a p" by (simp add: region_clears_def region_touches_def area_page_def)
qed

text \<open>C28. \<^verbatim>\<open>bootmem_init\<close> returns for every memory map whose count fits its table, and
  afterwards a page below the limit is free exactly when it is at 16MB or above and one of the
  map's type-1 regions that end at 64GB or below clears it: its number is at least that of the base's page and the address
  of the page plus the base's offset in its page is below the region's end (or the map is empty and the page is below 4GB). So no page is
  free that no such region touches, and every page from 16MB on that lies in such a region as a whole is free; of a region
  that does not begin at a page, the last page it touches may stay used.\<close>

theorem bootmem_init_free_pages:
  assumes "unat (ardc_cnt parm) \<le> length (ardc_array parm)"
  shows "\<exists>bm. bootmem_init parm bm0 = Some bm \<and>
     (\<forall>p < LIMIT_PAGES. \<not> page_used bm p \<longleftrightarrow> 0x1000 \<le> p \<and>
        ((\<exists>a\<in>set (take (unat (ardc_cnt parm)) (ardc_array parm)). region_clears a p) \<or>
         ardc_cnt parm = 0 \<and> p < 0x100000)) \<and>
     (\<forall>p < LIMIT_PAGES. ardc_cnt parm \<noteq> 0 \<and> \<not> page_used bm p \<longrightarrow>
        (\<exists>a\<in>set (take (unat (ardc_cnt parm)) (ardc_array parm)). region_touches a p)) \<and>
     (\<forall>p < LIMIT_PAGES. 0x1000 \<le> p \<and>
        (\<exists>a\<in>set (take (unat (ardc_cnt parm)) (ardc_array parm)). region_contains a p) \<longrightarrow> \<not> page_used bm p)"
proof -
  from bootmem_init_spec [OF assms, of bm0] obtain bm where bm: "bootmem_init parm bm0 = Some bm"
    "\<forall>p < LIMIT_PAGES. \<not> page_used bm p \<longleftrightarrow> 0x1000 \<le> p \<and>
        ((\<exists>a\<in>set (take (unat (ardc_cnt parm)) (ardc_array parm)). region_clears a p) \<or>
         ardc_cnt parm = 0 \<and> p < 0x100000)" by blast
  then show ?thesis using region_bounds by blast
qed

text \<open>C10. A request of a page or more is first fit: it takes the lowest run of free pages that
  is one page longer than the block, marks exactly the pages of the block, and returns 0 with the
  bitmap untouched when there is no such run.\<close>

theorem bootmem_alloc_first_fit:
  assumes "0x1000 \<le> sz"
  shows "(\<exists>q bm'. bootmem_alloc sz bm = Some (PHYS2VIRT (page_addr q), bm') \<and>
            hole bm sz q \<and> (\<forall>r < q. \<not> hole bm sz r) \<and>
            (\<forall>p < 2 ^ 52. page_used bm' p \<longleftrightarrow> page_used bm p \<or> q \<le> p \<and> p < q + pages_for sz)) \<or>
         bootmem_alloc sz bm = Some (0, bm\<lparr>last_alloc_offset := 0\<rparr>) \<and> (\<forall>q. \<not> hole bm sz q)"
  using assms by (rule alloc_large_cases)

section \<open>Witnesses\<close>

definition demo_parm :: bootloader_parm_block where
  "demo_parm = \<lparr>ardc_cnt = 1, ardc_array = [\<lparr>ards_base = 0x1000000, ards_length = 0xf100000, ards_type = 1\<rparr>]\<rparr>"

definition empty_bootmem :: bootmem where
  "empty_bootmem = \<lparr>bitmap = \<lambda>_. 0, last_alloc_offset = 0, last_alloc_pfn = 1\<rparr>"

lemma bootmem_init_free_pages_witness:
  "\<exists>bm. bootmem_init demo_parm empty_bootmem = Some bm \<and> \<not> page_used bm 0x1000 \<and> page_used bm 0x200000"
proof -
  obtain bm where bm: "bootmem_init demo_parm empty_bootmem = Some bm"
    "\<And>p. p < LIMIT_PAGES \<Longrightarrow> \<not> page_used bm p \<longleftrightarrow> 0x1000 \<le> p \<and> p < 0x10100"
    using bootmem_init_free_pages [of demo_parm empty_bootmem]
    by (auto simp: demo_parm_def region_clears_def area_page_def)
  have "\<not> page_used bm 0x1000" "page_used bm 0x200000"
    using bm(2) [of "0x1000"] bm(2) [of "0x200000"] by (simp_all add: LIMIT_PAGES_def)
  with bm(1) show ?thesis by blast
qed

lemma bootmem_alloc_disjoint_witness:
  "\<exists>bm bm' bs. bootmem_init demo_parm empty_bootmem = Some bm \<and>
     alloc_all [0x1800, 0x40, 0x1000, 0x100] bm [] = Some (bm', bs) \<and> blocks_disjoint bs"
proof -
  obtain bm where "bootmem_init demo_parm empty_bootmem = Some bm"
    using bootmem_init_spec [of demo_parm empty_bootmem] by (auto simp: demo_parm_def)
  with bootmem_alloc_disjoint [OF this, of "[0x1800, 0x40, 0x1000, 0x100]"] show ?thesis by blast
qed

lemma bootmem_alloc_first_fit_witness:
  "\<exists>bm'. bootmem_alloc 0x1800 empty_bootmem = Some (PHYS2VIRT 0, bm') \<and> page_used bm' 1 \<and> \<not> page_used bm' 2"
proof -
  have hole: "hole empty_bootmem 0x1800 0" and n: "pages_for 0x1800 = 2"
    by (simp_all add: hole_def empty_bootmem_def page_used_def pages_for_def LIMIT_PAGES_def)
  from bootmem_alloc_first_fit [of "0x1800" empty_bootmem] hole obtain q bm' where
    r: "bootmem_alloc 0x1800 empty_bootmem = Some (PHYS2VIRT (page_addr q), bm')"
      "\<And>r. r < q \<Longrightarrow> \<not> hole empty_bootmem 0x1800 r"
      "\<And>p. p < 2 ^ 52 \<Longrightarrow> page_used bm' p \<longleftrightarrow> page_used empty_bootmem p \<or> q \<le> p \<and> p < q + pages_for 0x1800"
    by auto
  have "q = 0" using r(2) [of 0] hole by auto
  moreover have "\<not> page_used empty_bootmem p" for p by (simp add: page_used_def empty_bootmem_def)
  ultimately show ?thesis using r(1) r(3) [of 1] r(3) [of 2] n by (simp add: page_addr_def)
qed

end
