(* ===== verification/Paging.thy ===== *)
theory Paging
  imports Bootmem
begin

text \<open>
  The page-table vocabulary of \<^verbatim>\<open>arch/x86_64/include/paging.h\<close> and the kernel memory
  the table walks read and write: 8-byte cells by virtual address, together with the boot
  allocator new tables come from and the log of \<^verbatim>\<open>invept\<close> instructions.
\<close>

section \<open>Kernel memory\<close>

record kmem =
  km_boot :: bootmem
  km_mem :: "u64 \<Rightarrow> u64"
  km_invept :: "u64 list"

text \<open>\<^verbatim>\<open>table[index]\<close> of a table of 64-bit entries.\<close>

definition read_pg :: "u64 \<Rightarrow> u64 \<Rightarrow> kmem \<Rightarrow> u64" where
  "read_pg table index s = km_mem s (table + 8 * index)"

definition write_pg :: "u64 \<Rightarrow> u64 \<Rightarrow> u64 \<Rightarrow> kmem \<Rightarrow> kmem" where
  "write_pg table index value s = s\<lparr>km_mem := (km_mem s)(table + 8 * index := value)\<rparr>"

text \<open>\<^verbatim>\<open>virt = kmalloc(0x1000, GFP_KERNEL); memset(virt, 0, 0x1000)\<close>. Nobody tests the
  pointer: clearing the page at address 0 faults, which is \<^verbatim>\<open>None\<close>.\<close>

definition alloc_zeroed_page :: "kmem \<Rightarrow> (u64 \<times> kmem) option" where
  "alloc_zeroed_page s = do {
     (virt, b) \<leftarrow> kmalloc 0x1000 0 (km_boot s);
     if virt = 0 then None
     else Some (virt, fold (\<lambda>i. write_pg virt (of_nat i) 0) [0..<512] (s\<lparr>km_boot := b\<rparr>))
   }"

section \<open>Address arithmetic\<close>

definition PML4T_INDEX :: "u64 \<Rightarrow> u64" where "PML4T_INDEX x = drop_bit (12 + 9 + 9 + 9) x AND 0x1ff"
definition PDPT_INDEX :: "u64 \<Rightarrow> u64" where "PDPT_INDEX x = drop_bit (12 + 9 + 9) x AND 0x1ff"
definition PD_INDEX :: "u64 \<Rightarrow> u64" where "PD_INDEX x = drop_bit (12 + 9) x AND 0x1ff"
definition PT_INDEX :: "u64 \<Rightarrow> u64" where "PT_INDEX x = drop_bit 12 x AND 0x1ff"
definition PT_ENTRY_ADDR :: "u64 \<Rightarrow> u64" where "PT_ENTRY_ADDR x = x AND NOT 0xfff"

definition PG_PRESENT :: u64 where "PG_PRESENT = push_bit 0 1"
definition PG_READ_WRITE :: u64 where "PG_READ_WRITE = push_bit 1 1"
definition PG_READ_ONLY :: u64 where "PG_READ_ONLY = push_bit 1 0"
definition PG_USER :: u64 where "PG_USER = push_bit 2 1"
definition PG_SUPERVISOR :: u64 where "PG_SUPERVISOR = push_bit 2 0"
definition PG_LARGE_PAGE :: u64 where "PG_LARGE_PAGE = push_bit 7 1"
definition PG_PT_EXECUTE_DISABLE :: u64 where "PG_PT_EXECUTE_DISABLE = push_bit 63 1"

definition PG_1GB_PFN :: "u64 \<Rightarrow> u64" where "PG_1GB_PFN x = x AND 0xffffffffc0000000"
definition PG_1GB_OFFSET :: "u64 \<Rightarrow> u64" where "PG_1GB_OFFSET x = x AND NOT 0xffffffffc0000000"
definition PG_2MB_PFN :: "u64 \<Rightarrow> u64" where "PG_2MB_PFN x = x AND 0xffffffffffe00000"
definition PG_2MB_OFFSET :: "u64 \<Rightarrow> u64" where "PG_2MB_OFFSET x = x AND NOT 0xffffffffffe00000"
definition PG_4KB_PFN :: "u64 \<Rightarrow> u64" where "PG_4KB_PFN x = x AND 0xfffffffffffff000"
definition PG_4KB_OFFSET :: "u64 \<Rightarrow> u64" where "PG_4KB_OFFSET x = x AND NOT 0xfffffffffffff000"

text \<open>The EPT attributes: the same three access bits at every level, the access flag, the
  large-page flag and the write-back memory type of a leaf.\<close>

definition EPT_READ :: u64 where "EPT_READ = push_bit 0 1"
definition EPT_WRITE :: u64 where "EPT_WRITE = push_bit 1 1"
definition EPT_EXECUTE :: u64 where "EPT_EXECUTE = push_bit 2 1"
definition EPT_CACHE_WB :: u64 where "EPT_CACHE_WB = push_bit 3 6"
definition EPT_LARGE_PAGE :: u64 where "EPT_LARGE_PAGE = push_bit 7 1"
definition EPT_ACCESS_FLAG :: u64 where "EPT_ACCESS_FLAG = push_bit 8 1"
definition EPT_RWX :: u64 where "EPT_RWX = EPT_READ OR EPT_WRITE OR EPT_EXECUTE"

lemmas ept_bits = EPT_READ_def EPT_WRITE_def EPT_EXECUTE_def EPT_LARGE_PAGE_def EPT_ACCESS_FLAG_def
  EPT_RWX_def EPT_CACHE_WB_def

section \<open>Reading after writing\<close>

lemma read_write_pg [heap_simps]:
  "read_pg t i (write_pg t' i' v s) = (if t + 8 * i = t' + 8 * i' then v else read_pg t i s)"
  by (simp add: read_pg_def write_pg_def)

lemma boot_write_pg [simp]:
  "km_boot (write_pg t i v s) = km_boot s" "km_invept (write_pg t i v s) = km_invept s"
  by (simp_all add: write_pg_def)

lemma read_pg_boot [simp]: "read_pg t i (s\<lparr>km_boot := b\<rparr>) = read_pg t i s"
  "read_pg t i (s\<lparr>km_invept := l\<rparr>) = read_pg t i s"
  by (simp_all add: read_pg_def)

lemma fold_write_boot [simp]:
  "km_boot (fold (\<lambda>i. write_pg v (of_nat i) 0) xs s) = km_boot s"
  "km_invept (fold (\<lambda>i. write_pg v (of_nat i) 0) xs s) = km_invept s"
  by (induction xs arbitrary: s) simp_all

lemma read_fold_write:
  "read_pg t i (fold (\<lambda>k. write_pg v (of_nat k) 0) xs s) =
     (if \<exists>k\<in>set xs. t + 8 * i = v + 8 * of_nat k then 0 else read_pg t i s)"
  by (induction xs arbitrary: s) (auto simp: read_write_pg)

section \<open>Table pages\<close>

text \<open>A page frame's virtual base address; the cells of different frames are different.\<close>

definition frame :: "nat \<Rightarrow> u64" where
  "frame q = PHYS2VIRT (page_addr q)"

lemma cell_inject:
  assumes "q < LIMIT_PAGES" "q' < LIMIT_PAGES" "i < 512" "i' < 512"
  shows "frame q + 8 * i = frame q' + 8 * i' \<longleftrightarrow> q = q' \<and> i = i'"
proof
  assume "frame q + 8 * i = frame q' + 8 * i'"
  then have "page_addr q + 8 * i = page_addr q' + 8 * i'"
    by (simp add: frame_def PHYS2VIRT_def)
  then have e: "unat (page_addr q + 8 * i) = unat (page_addr q' + 8 * i')" by simp
  have u: "unat (page_addr r + 8 * j) = r * 0x1000 + 8 * unat j" "unat j < 512"
    if "r < LIMIT_PAGES" "j < 512" for r j
  proof -
    show j: "unat j < 512" using that(2) by (simp add: word_less_nat_alt)
    then have "unat (8 * j) = 8 * unat j" by (simp add: unat_word_ariths)
    with j that(1) show "unat (page_addr r + 8 * j) = r * 0x1000 + 8 * unat j"
      by (subst unat_plus_no_wrap) (simp_all add: unat_page_addr LIMIT_PAGES_def)
  qed
  have "q * 0x1000 + 8 * unat i = q' * 0x1000 + 8 * unat i'"
    using e u(1) [OF assms(1,3)] u(1) [OF assms(2,4)] by simp
  moreover have "(r * 0x1000 + 8 * j) div 0x1000 = r" if "j < 512" for r j :: nat using that by simp
  ultimately have "q = q'"
    using u(2) [OF assms(1,3)] u(2) [OF assms(2,4)] by metis
  with \<open>q * 0x1000 + 8 * unat i = _\<close> have "q = q'" "unat i = unat i'" by simp_all
  then show "q = q' \<and> i = i'" by (simp add: word_unat_eq_iff)
qed simp

lemma frame_inject: "q < LIMIT_PAGES \<Longrightarrow> q' < LIMIT_PAGES \<Longrightarrow> frame q = frame q' \<longleftrightarrow> q = q'"
  using cell_inject [of q q' 0 0] by simp

lemma index_bound: "PML4T_INDEX x < 512" "PDPT_INDEX x < 512" "PD_INDEX x < 512" "PT_INDEX x < 512"
proof -
  have m: "(0x1ff :: u64) = mask 9" by (simp add: mask_eq_exp_minus_1)
  have "drop_bit n x AND 0x1ff < 512" for n :: nat
    unfolding m by (simp add: word_less_nat_alt unat_and_mask)
  then show "PML4T_INDEX x < 512" "PDPT_INDEX x < 512" "PD_INDEX x < 512" "PT_INDEX x < 512"
    unfolding PML4T_INDEX_def PDPT_INDEX_def PD_INDEX_def PT_INDEX_def by blast+
qed

lemma page_addr_low: "n < 12 \<Longrightarrow> \<not> bit (page_addr q) n"
proof -
  assume "n < 12"
  moreover have "page_addr q = push_bit 12 (of_nat q)" by (simp add: page_addr_def push_bit_eq_mult)
  ultimately show ?thesis by (simp add: bit_push_bit_iff)
qed

lemma aligned_bits: "(x :: u64) AND 0xfff = 0 \<Longrightarrow> n < 12 \<Longrightarrow> \<not> bit x n"
proof -
  assume a: "x AND 0xfff = 0" and n: "n < 12"
  have "\<not> bit (x AND 0xfff) n" by (simp add: a)
  then show ?thesis using n by (simp add: numeral_mask(3) bit_simps)
qed

lemma small_bits: "(x :: u64) < 0x1000 \<Longrightarrow> 12 \<le> n \<Longrightarrow> \<not> bit x n"
proof -
  assume a: "x < 0x1000" and n: "12 \<le> n"
  have "unat x < 2 ^ 12" using a by (simp add: word_less_nat_alt)
  then have "x AND mask 12 = x" by (simp add: word_unat_eq_iff unat_and_mask)
  then show ?thesis using n by (metis bit_and_iff bit_mask_iff not_le)
qed

section \<open>Where table pages come from\<close>

text \<open>What the page-table code relies on when it asks for a page: as long as there is room
  it gets a frame that nobody uses, and nothing else becomes used.\<close>

locale page_source =
  fixes alloc :: "'st \<Rightarrow> (u64 \<times> 'st) option"
    and used :: "'st \<Rightarrow> nat \<Rightarrow> bool"
    and room :: "'st \<Rightarrow> nat \<Rightarrow> bool"
  assumes alloc_room: "room st (Suc n) \<Longrightarrow>
      \<exists>f st'. alloc st = Some (frame f, st') \<and> f < LIMIT_PAGES \<and> \<not> used st f \<and> frame f \<noteq> 0 \<and>
        (\<forall>p < LIMIT_PAGES. used st' p \<longleftrightarrow> used st p \<or> p = f) \<and> room st' n"
begin

fun alloc_n :: "nat \<Rightarrow> 'st \<Rightarrow> (u64 list \<times> 'st) option" where
  "alloc_n 0 st = Some ([], st)"
| "alloc_n (Suc n) st = do { (v, st) \<leftarrow> alloc st; (vs, st) \<leftarrow> alloc_n n st; Some (v # vs, st) }"

lemma alloc_n_distinct:
  "room st n \<Longrightarrow> \<exists>fs st'. alloc_n n st = Some (map frame fs, st') \<and> length fs = n \<and> distinct fs \<and>
     (\<forall>f\<in>set fs. f < LIMIT_PAGES \<and> \<not> used st f \<and> used st' f) \<and>
     (\<forall>p < LIMIT_PAGES. used st p \<longrightarrow> used st' p)"
proof (induction n arbitrary: st)
  case 0
  then show ?case by auto
next
  case (Suc n)
  from alloc_room [OF Suc.prems] obtain f s1 where f: "alloc st = Some (frame f, s1)"
    "f < LIMIT_PAGES" "\<not> used st f" "\<forall>p < LIMIT_PAGES. used s1 p \<longleftrightarrow> used st p \<or> p = f" "room s1 n"
    by blast
  from Suc.IH [OF f(5)] obtain fs s2 where fs: "alloc_n n s1 = Some (map frame fs, s2)"
    "length fs = n" "distinct fs" "\<forall>f\<in>set fs. f < LIMIT_PAGES \<and> \<not> used s1 f \<and> used s2 f"
    "\<forall>p < LIMIT_PAGES. used s1 p \<longrightarrow> used s2 p"
    by blast
  show ?case
    using f fs by (intro exI [of _ "f # fs"] exI [of _ s2]) auto
qed

end

definition free_run :: "bootmem \<Rightarrow> nat \<Rightarrow> nat \<Rightarrow> bool" where
  "free_run b q n \<longleftrightarrow> q + n \<le> LIMIT_PAGES \<and> (\<forall>r\<in>{q..<q + n}. \<not> page_used b r)"

definition room :: "bootmem \<Rightarrow> nat \<Rightarrow> bool" where
  "room b n \<longleftrightarrow> (\<exists>q. free_run b q (n + 1))"

lemma kmalloc_page:
  assumes "room b (Suc n)"
  shows "\<exists>f b'. kmalloc 0x1000 0 b = Some (frame f, b') \<and> f < LIMIT_PAGES \<and> \<not> page_used b f \<and>
     frame f \<noteq> 0 \<and> (\<forall>p < LIMIT_PAGES. page_used b' p \<longleftrightarrow> page_used b p \<or> p = f) \<and> room b' n"
proof -
  have n1: "pages_for 0x1000 = 1" by (simp add: pages_for_def)
  from assms obtain q where q: "free_run b q (n + 2)" by (auto simp: room_def)
  then have hole: "hole b 0x1000 q" by (auto simp: free_run_def hole_def n1)
  with alloc_large_cases [of "0x1000" b] obtain f b' where
    f: "bootmem_alloc 0x1000 b = Some (frame f, b')" "hole b 0x1000 f"
      "\<forall>r < f. \<not> hole b 0x1000 r"
      "\<forall>p < 2 ^ 52. page_used b' p \<longleftrightarrow> page_used b p \<or> f \<le> p \<and> p < f + pages_for 0x1000"
    by (auto simp: frame_def)
  have used: "page_used b' p \<longleftrightarrow> page_used b p \<or> p = f" if "p < LIMIT_PAGES" for p
    using f(4) [rule_format, of p] that by (auto simp: n1 LIMIT_PAGES_def)
  have "f \<le> q" using f(3) hole by (meson not_le)
  then have "free_run b' (q + 1) (n + 1)"
    using q used unfolding free_run_def by auto
  then have "room b' n" by (auto simp: room_def)
  moreover have "f < LIMIT_PAGES" "\<not> page_used b f" using f(2) by (auto simp: hole_def n1)
  moreover from this have "frame f \<noteq> 0" using paddr_valid(1) [of f 0] by (simp add: frame_def)
  ultimately show ?thesis using f(1) used by (auto simp: kmalloc_def)
qed

interpretation kmalloc_pages: page_source "kmalloc 0x1000 0" page_used room
  by unfold_locales (rule kmalloc_page)

lemma alloc_zeroed_page:
  assumes "room (km_boot s) (Suc n)"
  obtains f s' where "alloc_zeroed_page s = Some (frame f, s')" "f < LIMIT_PAGES"
    "\<not> page_used (km_boot s) f"
    "\<And>p. p < LIMIT_PAGES \<Longrightarrow> page_used (km_boot s') p \<longleftrightarrow> page_used (km_boot s) p \<or> p = f"
    "room (km_boot s') n" "km_invept s' = km_invept s"
    "\<And>q i. q < LIMIT_PAGES \<Longrightarrow> i < 512 \<Longrightarrow>
       read_pg (frame q) i s' = (if q = f then 0 else read_pg (frame q) i s)"
proof -
  from kmalloc_pages.alloc_room [OF assms] obtain f b' where
    f: "kmalloc 0x1000 0 (km_boot s) = Some (frame f, b')" "f < LIMIT_PAGES" "\<not> page_used (km_boot s) f"
      "frame f \<noteq> 0" "\<forall>p < LIMIT_PAGES. page_used b' p \<longleftrightarrow> page_used (km_boot s) p \<or> p = f" "room b' n"
    by blast
  define s' where "s' = fold (\<lambda>i. write_pg (frame f) (of_nat i) 0) [0..<512] (s\<lparr>km_boot := b'\<rparr>)"
  have "read_pg (frame q) i s' = (if q = f then 0 else read_pg (frame q) i s)"
    if "q < LIMIT_PAGES" "i < 512" for q i
  proof -
    have "(\<exists>k\<in>set [0..<512]. frame q + 8 * i = frame f + 8 * of_nat k) \<longleftrightarrow> q = f"
    proof
      assume "\<exists>k\<in>set [0..<512]. frame q + 8 * i = frame f + 8 * of_nat k"
      then obtain k :: nat where k: "k < 512" "frame q + 8 * i = frame f + 8 * of_nat k" by auto
      then have "(of_nat k :: u64) < 512"
        by (simp add: word_less_nat_alt unat_of_nat take_bit_nat_eq_self)
      with k(2) cell_inject [OF that(1) f(2) that(2)] show "q = f" by simp
    next
      assume "q = f"
      moreover have "unat i < 512" using that(2) by (simp add: word_less_nat_alt)
      ultimately show "\<exists>k\<in>set [0..<512]. frame q + 8 * i = frame f + 8 * of_nat k"
        by (intro bexI [of _ "unat i"]) auto
    qed
    then show ?thesis by (simp only: s'_def read_fold_write) simp
  qed
  with f show thesis by (intro that [of f s']) (simp_all add: alloc_zeroed_page_def s'_def)
qed

section \<open>A concrete memory\<close>

text \<open>All pages free but page 5, all cells zero: the memory the witnesses run on.\<close>

definition demo_kmem :: kmem where
  "demo_kmem = \<lparr>km_boot = \<lparr>bitmap = (\<lambda>_. 0)(0 := 0x20), last_alloc_offset = 0, last_alloc_pfn = 1\<rparr>,
     km_mem = \<lambda>_. 0, km_invept = []\<rparr>"

lemma demo_used: "p < LIMIT_PAGES \<Longrightarrow> page_used (km_boot demo_kmem) p \<longleftrightarrow> p = 5"
proof -
  assume p: "p < LIMIT_PAGES"
  have "(of_nat (p div 8) :: u64) = 0 \<longleftrightarrow> p div 8 = 0"
    using of_nat_div8_eq [of p 0] p by (simp add: LIMIT_PAGES_def)
  moreover have "bit (0x20 :: u8) n \<longleftrightarrow> n = 5" for n
    using bit_push_bit_iff [of 5 "1 :: u8" n] bit_1_iff [of "n - 5", where ?'a = u8] by auto
  moreover have "p div 8 = 0 \<Longrightarrow> p mod 8 = p" by (metis div_mult_mod_eq add_0 mult_0)
  moreover have "p div 8 \<noteq> 0 \<Longrightarrow> p \<noteq> 5" by auto
  ultimately show ?thesis
    by (cases "p div 8 = 0") (simp_all add: page_used_def demo_kmem_def)
qed

lemma demo_room: "n \<le> 0x1000 \<Longrightarrow> room (km_boot demo_kmem) n"
  unfolding room_def free_run_def
  by (intro exI [of _ 6]) (auto simp: demo_used LIMIT_PAGES_def)

end
