(* ===== verification/Ept.thy ===== *)
theory Ept
  imports Paging
begin

text \<open>
  Extended page tables: \<^verbatim>\<open>ept_map_page\<close> and \<^verbatim>\<open>map_guest_memory\<close> of
  \<^verbatim>\<open>arch/x86_64/kvm/vmx/vmx.c\<close> and the walks of \<^verbatim>\<open>mmu.c\<close>. A walk returns
  \<^verbatim>\<open>Inl (- EINVAL)\<close> where the code returns \<^verbatim>\<open>-EINVAL\<close>, and \<^verbatim>\<open>Inr\<close> of the
  address it stores through its pointer argument otherwise.
\<close>

section \<open>Walks\<close>

definition ept_gpa_to_hpa_any :: "u64 \<Rightarrow> u64 \<Rightarrow> kmem \<Rightarrow> int + u64" where
  "ept_gpa_to_hpa_any eptp_base gpa s =
     (let pml4t = eptp_base;
          index1 = PML4T_INDEX gpa; index2 = PDPT_INDEX gpa;
          index3 = PD_INDEX gpa; index4 = PT_INDEX gpa;
          pml4e = read_pg pml4t index1 s
      in if pml4e AND EPT_RWX = 0 then Inl (- EINVAL)
      else let pdpt = PHYS2VIRT (PT_ENTRY_ADDR pml4e);
               pdpte = read_pg pdpt index2 s
      in if pdpte AND EPT_RWX = 0 then Inl (- EINVAL)
      else if pdpte AND EPT_LARGE_PAGE \<noteq> 0 then Inr (PG_1GB_PFN pdpte + PG_1GB_OFFSET gpa)
      else let pdt = PHYS2VIRT (PT_ENTRY_ADDR pdpte);
               pde = read_pg pdt index3 s
      in if pde AND EPT_RWX = 0 then Inl (- EINVAL)
      else if pde AND EPT_LARGE_PAGE \<noteq> 0 then Inr (PG_2MB_PFN pdpte + PG_2MB_OFFSET gpa)
      else let pt = PHYS2VIRT (PT_ENTRY_ADDR pde);
               pte = read_pg pt index4 s
      in if pte AND EPT_RWX = 0 then Inl (- EINVAL)
      else Inr (PG_4KB_PFN pte + PG_4KB_OFFSET gpa))"

text \<open>The same walk from \<^verbatim>\<open>vcpu->eptp_base\<close>; the second argument stands for that field.\<close>

definition ept_gpa_to_hpa :: "u64 \<Rightarrow> u64 \<Rightarrow> kmem \<Rightarrow> int + u64" where
  "ept_gpa_to_hpa vcpu_eptp_base gpa s =
     (let pml4t = vcpu_eptp_base;
          index1 = PML4T_INDEX gpa; index2 = PDPT_INDEX gpa;
          index3 = PD_INDEX gpa; index4 = PT_INDEX gpa;
          pml4e = read_pg pml4t index1 s
      in if pml4e AND EPT_RWX = 0 then Inl (- EINVAL)
      else let pdpt = PHYS2VIRT (PT_ENTRY_ADDR pml4e);
               pdpte = read_pg pdpt index2 s
      in if pdpte AND EPT_RWX = 0 then Inl (- EINVAL)
      else if pdpte AND EPT_LARGE_PAGE \<noteq> 0 then Inr (PG_1GB_PFN pdpte + PG_1GB_OFFSET gpa)
      else let pdt = PHYS2VIRT (PT_ENTRY_ADDR pdpte);
               pde = read_pg pdt index3 s
      in if pde AND EPT_RWX = 0 then Inl (- EINVAL)
      else if pde AND EPT_LARGE_PAGE \<noteq> 0 then Inr (PG_2MB_PFN pdpte + PG_2MB_OFFSET gpa)
      else let pt = PHYS2VIRT (PT_ENTRY_ADDR pde);
               pte = read_pg pt index4 s
      in if pte AND EPT_RWX = 0 then Inl (- EINVAL)
      else Inr (PG_4KB_PFN pte + PG_4KB_OFFSET gpa))"

text \<open>The guest's own 4-level walk: every table address is a guest-physical one that goes
  through the EPT first. \<^verbatim>\<open>cr3\<close> is \<^verbatim>\<open>vcpu->guest_state.ctrl_regs.cr3\<close>.\<close>

definition paging64_gva_to_gpa :: "u64 \<Rightarrow> u64 \<Rightarrow> u64 \<Rightarrow> kmem \<Rightarrow> int + u64" where
  "paging64_gva_to_gpa vcpu_eptp_base cr3 gva s =
     (let index1 = PML4T_INDEX gva; index2 = PDPT_INDEX gva;
          index3 = PD_INDEX gva; index4 = PT_INDEX gva
      in case ept_gpa_to_hpa vcpu_eptp_base (PT_ENTRY_ADDR cr3) s of Inl _ \<Rightarrow> Inl (- EINVAL)
      | Inr hpa \<Rightarrow>
        let pml4t = PHYS2VIRT hpa; pml4e = read_pg pml4t index1 s
        in if pml4e AND PG_PRESENT = 0 then Inl (- EINVAL)
        else case ept_gpa_to_hpa vcpu_eptp_base (PT_ENTRY_ADDR pml4e) s of Inl _ \<Rightarrow> Inl (- EINVAL)
      | Inr hpa \<Rightarrow>
        let pdpt = PHYS2VIRT hpa; pdpte = read_pg pdpt index2 s
        in if pdpte AND PG_PRESENT = 0 then Inl (- EINVAL)
        else if pdpte AND PG_LARGE_PAGE \<noteq> 0 then Inr (PG_1GB_PFN pdpte + PG_1GB_OFFSET gva)
        else case ept_gpa_to_hpa vcpu_eptp_base (PT_ENTRY_ADDR pdpte) s of Inl _ \<Rightarrow> Inl (- EINVAL)
      | Inr hpa \<Rightarrow>
        let pdt = PHYS2VIRT hpa; pde = read_pg pdt index3 s
        in if pde AND PG_PRESENT = 0 then Inl (- EINVAL)
        else if pde AND PG_LARGE_PAGE \<noteq> 0 then Inr (PG_2MB_PFN pdpte + PG_2MB_OFFSET gva)
        else case ept_gpa_to_hpa vcpu_eptp_base (PT_ENTRY_ADDR pde) s of Inl _ \<Rightarrow> Inl (- EINVAL)
      | Inr hpa \<Rightarrow>
        let pt = PHYS2VIRT hpa; pte = read_pg pt index4 s
        in if pte AND PG_PRESENT = 0 then Inl (- EINVAL)
        else Inr (PG_4KB_PFN pte + PG_4KB_OFFSET gva))"

text \<open>The walk of the L1 hypervisor's EPT for an L2 address; \<^verbatim>\<open>ept_pointer\<close> is
  \<^verbatim>\<open>vmcs12->ept_pointer\<close>.\<close>

definition nested_ept_l2gpa_to_l1gpa :: "u64 \<Rightarrow> u64 \<Rightarrow> u64 \<Rightarrow> kmem \<Rightarrow> int + u64" where
  "nested_ept_l2gpa_to_l1gpa vcpu_eptp_base ept_pointer l2gpa s =
     (case ept_gpa_to_hpa vcpu_eptp_base (PT_ENTRY_ADDR ept_pointer) s of Inl _ \<Rightarrow> Inl (- EINVAL)
      | Inr hpa \<Rightarrow>
        let pml4t = PHYS2VIRT hpa;
            index1 = PML4T_INDEX l2gpa; index2 = PDPT_INDEX l2gpa;
            index3 = PD_INDEX l2gpa; index4 = PT_INDEX l2gpa;
            pml4e = read_pg pml4t index1 s
        in if pml4e AND EPT_RWX = 0 then Inl (- EINVAL)
        else case ept_gpa_to_hpa vcpu_eptp_base (PT_ENTRY_ADDR pml4e) s of Inl _ \<Rightarrow> Inl (- EINVAL)
      | Inr hpa \<Rightarrow>
        let pdpt = PHYS2VIRT hpa; pdpte = read_pg pdpt index2 s
        in if pdpte AND EPT_RWX = 0 then Inl (- EINVAL)
        else if pdpte AND EPT_LARGE_PAGE \<noteq> 0 then Inr (PG_1GB_PFN pdpte + PG_1GB_OFFSET l2gpa)
        else case ept_gpa_to_hpa vcpu_eptp_base (PT_ENTRY_ADDR pdpte) s of Inl _ \<Rightarrow> Inl (- EINVAL)
      | Inr hpa \<Rightarrow>
        let pdt = PHYS2VIRT hpa; pde = read_pg pdt index3 s
        in if pde AND EPT_RWX = 0 then Inl (- EINVAL)
        else if pde AND EPT_LARGE_PAGE \<noteq> 0 then Inr (PG_2MB_PFN pdpte + PG_2MB_OFFSET l2gpa)
        else case ept_gpa_to_hpa vcpu_eptp_base (PT_ENTRY_ADDR pde) s of Inl _ \<Rightarrow> Inl (- EINVAL)
      | Inr hpa \<Rightarrow>
        let pt = PHYS2VIRT hpa; pte = read_pg pt index4 s
        in if pte AND EPT_RWX = 0 then Inl (- EINVAL)
        else Inr (PG_4KB_PFN pte + PG_4KB_OFFSET l2gpa))"

section \<open>Mapping\<close>

text \<open>One level of \<^verbatim>\<open>ept_map_page\<close>: a zero entry gets a fresh zeroed table, then the
  entry is read again for the address of the next one.\<close>

definition ept_next_table :: "u64 \<Rightarrow> u64 \<Rightarrow> u64 \<Rightarrow> kmem \<Rightarrow> (u64 \<times> kmem) option" where
  "ept_next_table table index attr s = do {
     s \<leftarrow> (if read_pg table index s = 0 then do {
             (virt, s) \<leftarrow> alloc_zeroed_page s;
             Some (write_pg table index (VIRT2PHYS virt OR attr) s)
           } else Some s);
     Some (PHYS2VIRT (read_pg table index s AND NOT 0xfff), s)
   }"

definition invept_context :: "u64 \<Rightarrow> kmem \<Rightarrow> kmem" where
  "invept_context eptp s = s\<lparr>km_invept := eptp # km_invept s\<rparr>"

definition ept_map_page :: "u64 \<Rightarrow> u64 \<Rightarrow> u64 \<Rightarrow> u64 \<Rightarrow> u64 \<Rightarrow> kmem \<Rightarrow> kmem option" where
  "ept_map_page eptp_base gpa hpa page_size attribute s = do {
     let pml4e_attr = EPT_READ OR EPT_WRITE OR EPT_EXECUTE OR EPT_ACCESS_FLAG;
     let pdpte_attr = EPT_READ OR EPT_WRITE OR EPT_EXECUTE OR EPT_ACCESS_FLAG;
     let pde_attr = EPT_READ OR EPT_WRITE OR EPT_EXECUTE OR EPT_ACCESS_FLAG;
     let pml4t = eptp_base;
     let index1 = drop_bit 39 gpa AND 0x1ff;
     let index2 = drop_bit 30 gpa AND 0x1ff;
     let index3 = drop_bit 21 gpa AND 0x1ff;
     let index4 = drop_bit 12 gpa AND 0x1ff;
     (pdpt, s) \<leftarrow> ept_next_table pml4t index1 pml4e_attr s;
     if page_size = 0x40000000 then
       Some (invept_context (VIRT2PHYS eptp_base)
               (write_pg pdpt index2 (hpa OR attribute OR EPT_LARGE_PAGE) s))
     else do {
       (pdt, s) \<leftarrow> ept_next_table pdpt index2 pdpte_attr s;
       if page_size = 0x200000 then
         Some (invept_context (VIRT2PHYS eptp_base)
                 (write_pg pdt index3 (hpa OR attribute OR EPT_LARGE_PAGE) s))
       else do {
         (pt, s) \<leftarrow> ept_next_table pdt index3 pde_attr s;
         if page_size = 0x1000 then
           Some (invept_context (VIRT2PHYS eptp_base) (write_pg pt index4 (hpa OR attribute) s))
         else Some s
       }
     }
   }"

text \<open>The loop of \<^verbatim>\<open>map_guest_memory\<close>; \<^verbatim>\<open>remain_len\<close> is signed, and each turn
  takes a page off it.\<close>

function map_guest_memory_loop :: "u64 \<Rightarrow> u64 \<Rightarrow> u64 \<Rightarrow> int \<Rightarrow> u64 \<Rightarrow> kmem \<Rightarrow> kmem option" where
  "map_guest_memory_loop eptp_base gpa hpa remain_len attr s =
     (if 0 < remain_len then do {
        s \<leftarrow> ept_map_page eptp_base gpa hpa 0x1000 attr s;
        map_guest_memory_loop eptp_base (gpa + 0x1000) (hpa + 0x1000) (remain_len - 0x1000) attr s
      } else Some s)"
  by auto
termination by (relation "measure (\<lambda>(_, _, _, n, _). nat n)") auto

declare map_guest_memory_loop.simps [simp del]

definition map_guest_memory :: "u64 \<Rightarrow> u64 \<Rightarrow> u64 \<Rightarrow> u64 \<Rightarrow> u64 \<Rightarrow> kmem \<Rightarrow> kmem option" where
  "map_guest_memory eptp_base gpa hpa len attr s =
     map_guest_memory_loop eptp_base gpa hpa (sint len) attr s"

section \<open>Page numbers and indices\<close>

text \<open>The 36-bit guest page number; the walk sees nothing else of an address but its page
  offset. At level \<^verbatim>\<open>l\<close> (3 is the PML4) the index is a base-512 digit of it.\<close>

definition page_number :: "u64 \<Rightarrow> nat" where
  "page_number g = unat g div 0x1000 mod 2 ^ 36"

definition prefix :: "nat \<Rightarrow> u64 \<Rightarrow> nat" where
  "prefix l g = page_number g div 512 ^ l"

definition level_index :: "nat \<Rightarrow> u64 \<Rightarrow> u64" where
  "level_index l g = drop_bit (12 + 9 * l) g AND 0x1ff"

lemma level_indices:
  "PML4T_INDEX g = level_index 3 g" "PDPT_INDEX g = level_index 2 g"
  "PD_INDEX g = level_index 1 g" "PT_INDEX g = level_index 0 g"
  by (simp_all add: level_index_def PML4T_INDEX_def PDPT_INDEX_def PD_INDEX_def PT_INDEX_def)

lemma level_index_bound [simp]: "level_index l g < 512"
proof -
  have m: "(0x1ff :: u64) = mask 9" by (simp add: mask_eq_exp_minus_1)
  show ?thesis unfolding level_index_def m by (simp add: word_less_nat_alt unat_and_mask)
qed

lemma unat_level_index: "l < 4 \<Longrightarrow> unat (level_index l g) = prefix l g mod 512"
proof -
  assume l: "l < 4"
  have m: "(0x1ff :: u64) = mask 9" by (simp add: mask_eq_exp_minus_1)
  have p: "(2 :: nat) ^ 36 = 512 ^ l * (512 * 512 ^ (3 - l))"
  proof -
    have "l = 0 \<or> l = 1 \<or> l = 2 \<or> l = 3" using l by linarith
    then show ?thesis by (elim disjE) simp_all
  qed
  have "(2 :: nat) ^ (12 + 9 * l) = 0x1000 * 512 ^ l"
    by (simp add: power_add power_mult)
  then have "unat (level_index l g) = unat g div (0x1000 * 512 ^ l) mod 512"
    by (simp add: level_index_def m unat_and_mask unat_drop_bit)
  also have "\<dots> = unat g div 0x1000 div 512 ^ l mod 512" by (simp add: div_mult2_eq)
  also have "\<dots> = unat g div 0x1000 mod 2 ^ 36 div 512 ^ l mod 512"
    by (simp only: p mod_mult2_eq) (simp add: mod_mult2_eq)
  finally show ?thesis by (simp add: prefix_def page_number_def)
qed

lemma level_index_of_nat: "l < 4 \<Longrightarrow> of_nat (prefix l g mod 512) = level_index l g"
proof -
  assume "l < 4"
  moreover have "of_nat (unat (level_index l g)) = level_index l g" by simp
  ultimately show ?thesis by (simp add: unat_level_index)
qed

lemma prefix_Suc: "prefix (Suc l) g = prefix l g div 512"
  by (simp add: prefix_def mult.commute flip: div_mult2_eq)

lemma prefix_0: "prefix 0 g = page_number g"
  by (simp add: prefix_def)

lemma prefix_4 [simp]: "prefix 4 g = 0"
  by (simp add: prefix_def page_number_def)

section \<open>Table entries\<close>

definition entry_of :: "u64 \<Rightarrow> u64" where
  "entry_of c = VIRT2PHYS c OR (EPT_READ OR EPT_WRITE OR EPT_EXECUTE OR EPT_ACCESS_FLAG)"

lemma entry_of_frame:
  "entry_of (frame q) AND EPT_RWX \<noteq> 0" "entry_of (frame q) AND EPT_LARGE_PAGE = 0"
  "PHYS2VIRT (entry_of (frame q) AND NOT 0xfff) = frame q" "entry_of (frame q) \<noteq> 0"
proof -
  have b: "bit (entry_of (frame q)) n \<longleftrightarrow> bit (page_addr q) n \<or> n \<in> {0, 1, 2, 8}" if "n < 64" for n
    using that unfolding entry_of_def frame_def VIRT2PHYS_PHYS2VIRT ept_bits bit_or_iff
      bit_push_bit_iff bit_1_iff by (auto simp: possible_bit_def)
  have "bit (entry_of (frame q) AND EPT_RWX) 0" using b [of 0] by (simp add: ept_bits bit_simps)
  then show 1: "entry_of (frame q) AND EPT_RWX \<noteq> 0" by auto
  then show "entry_of (frame q) \<noteq> 0" by auto
  show "entry_of (frame q) AND EPT_LARGE_PAGE = 0"
    using b [of 7] page_addr_low [of 7 q] unfolding EPT_LARGE_PAGE_def by (subst and_flag_eq_0) auto
  have "entry_of (frame q) AND NOT 0xfff = page_addr q"
  proof (rule bit_word_eqI)
    fix n assume "n < LENGTH(64)"
    then show "bit (entry_of (frame q) AND NOT 0xfff) n \<longleftrightarrow> bit (page_addr q) n"
      using b [of n] page_addr_low [of n q]
      by (cases "n < 12") (auto simp: numeral_mask bit_simps)
  qed
  then show "PHYS2VIRT (entry_of (frame q) AND NOT 0xfff) = frame q" by (simp add: frame_def)
qed


section \<open>The tree of tables\<close>

text \<open>
  \<^verbatim>\<open>own\<close> records what each table is for: \<^verbatim>\<open>own t = Some (l, p)\<close> is a table of
  level \<^verbatim>\<open>l\<close> that maps the addresses whose page number has the prefix \<^verbatim>\<open>p\<close>. Every
  non-zero entry above the last level points to the table of its own prefix, and every table but
  the root is pointed to by the entry its prefix names.
\<close>

type_synonym owner = "u64 \<Rightarrow> (nat \<times> nat) option"

definition ept_tree :: "owner \<Rightarrow> u64 \<Rightarrow> kmem \<Rightarrow> bool" where
  "ept_tree own root s \<longleftrightarrow> own root = Some (3, 0) \<and>
     (\<forall>t l p. own t = Some (l, p) \<longrightarrow>
        l \<le> 3 \<and> (\<exists>q < LIMIT_PAGES. t = frame q \<and> page_used (km_boot s) q) \<and>
        (\<forall>i < 512. 0 < l \<longrightarrow> read_pg t i s = 0 \<or>
           (\<exists>c. read_pg t i s = entry_of c \<and> own c = Some (l - 1, p * 512 + unat i))) \<and>
        (t = root \<or> (\<exists>u. own u = Some (l + 1, p div 512) \<and>
           read_pg u (of_nat (p mod 512)) s = entry_of t)))"

lemma ept_treeD:
  assumes "ept_tree own root s" "own t = Some (l, p)"
  shows "l \<le> 3" "\<exists>q < LIMIT_PAGES. t = frame q \<and> page_used (km_boot s) q"
    "0 < l \<Longrightarrow> i < 512 \<Longrightarrow> read_pg t i s = 0 \<or>
       (\<exists>c. read_pg t i s = entry_of c \<and> own c = Some (l - 1, p * 512 + unat i))"
    "t = root \<or> (\<exists>u. own u = Some (l + 1, p div 512) \<and>
           read_pg u (of_nat (p mod 512)) s = entry_of t)"
  using assms unfolding ept_tree_def by blast+

lemma ept_tree_root: "ept_tree own root s \<Longrightarrow> own root = Some (3, 0)"
  by (simp add: ept_tree_def)

text \<open>The walk of a tree without large pages, one level at a time.\<close>

fun walk :: "nat \<Rightarrow> u64 \<Rightarrow> u64 \<Rightarrow> kmem \<Rightarrow> int + u64" where
  "walk 0 t g s = (let e = read_pg t (level_index 0 g) s in
     if e AND EPT_RWX = 0 then Inl (- EINVAL) else Inr (PG_4KB_PFN e + PG_4KB_OFFSET g))"
| "walk (Suc l) t g s = (let e = read_pg t (level_index (Suc l) g) s in
     if e AND EPT_RWX = 0 then Inl (- EINVAL) else walk l (PHYS2VIRT (PT_ENTRY_ADDR e)) g s)"

lemma entry_owned:
  assumes "ept_tree own root s" "own c = Some (l, p)"
  shows "entry_of c AND EPT_RWX \<noteq> 0" "entry_of c AND EPT_LARGE_PAGE = 0" "entry_of c \<noteq> 0"
    "PHYS2VIRT (PT_ENTRY_ADDR (entry_of c)) = c" "PHYS2VIRT (entry_of c AND NOT 0xfff) = c"
  using ept_treeD(2) [OF assms] entry_of_frame by (auto simp: PT_ENTRY_ADDR_def)

text \<open>What the entry an address selects in an owned table looks like.\<close>

lemma step_cases:
  assumes "ept_tree own root s" "own t = Some (Suc l, prefix (Suc (Suc l)) g)"
  obtains (empty) "read_pg t (level_index (Suc l) g) s = 0"
  | (table) c where "read_pg t (level_index (Suc l) g) s = entry_of c"
      "own c = Some (l, prefix (Suc l) g)"
proof -
  have "Suc l < 4" using ept_treeD(1) [OF assms] by simp
  then have "prefix (Suc (Suc l)) g * 512 + unat (level_index (Suc l) g) = prefix (Suc l) g"
    by (simp add: unat_level_index prefix_Suc [of "Suc l"])
  with ept_treeD(3) [OF assms, of "level_index (Suc l) g"] show thesis
    using empty table by auto
qed

lemma walk_table:
  assumes "ept_tree own root s" "own t = Some (Suc l, prefix (Suc (Suc l)) g)"
    "read_pg t (level_index (Suc l) g) s = entry_of c" "own c = Some (l, prefix (Suc l) g)"
  shows "walk (Suc l) t g s = walk l c g s"
  using assms(3) entry_owned [OF assms(1,4)] by (simp add: Let_def)

lemma ept_gpa_to_hpa_walk:
  assumes tree: "ept_tree own root s"
  shows "ept_gpa_to_hpa root g s = walk 3 root g s"
proof -
  have 3: "own root = Some (Suc 2, prefix (Suc (Suc 2)) g)"
    using ept_tree_root [OF tree] prefix_4 [of g] by (simp add: eval_nat_numeral)
  from tree 3 show ?thesis
  proof (cases rule: step_cases)
    case empty
    then show ?thesis by (simp add: ept_gpa_to_hpa_def level_indices numeral_eq_Suc Let_def)
  next
    case (table c2)
    note e3 = table entry_owned [OF tree table(2)]
    have 2: "own c2 = Some (Suc 1, prefix (Suc (Suc 1)) g)" using table(2) by (simp add: numeral_eq_Suc)
    from tree 2 show ?thesis
    proof (cases rule: step_cases)
      case empty
      with e3 show ?thesis by (simp add: ept_gpa_to_hpa_def level_indices numeral_eq_Suc Let_def)
    next
      case (table c1)
      note e2 = table entry_owned [OF tree table(2)]
      have 1: "own c1 = Some (Suc 0, prefix (Suc (Suc 0)) g)" using table(2) by simp
      from tree 1 show ?thesis
      proof (cases rule: step_cases)
        case empty
        with e3 e2 show ?thesis by (simp add: ept_gpa_to_hpa_def level_indices numeral_eq_Suc Let_def)
      next
        case (table c0)
        with e3 e2 entry_owned [OF tree table(2)] show ?thesis
          by (simp add: ept_gpa_to_hpa_def level_indices numeral_eq_Suc Let_def)
      qed
    qed
  qed
qed

text \<open>The table above an owned one, for an address that goes through it.\<close>

lemma owned_parent:
  assumes tree: "ept_tree own root s" and t: "own t = Some (l, prefix (Suc l) g)" and l: "l < 3"
  obtains u where "own u = Some (Suc l, prefix (Suc (Suc l)) g)"
    "read_pg u (level_index (Suc l) g) s = entry_of t"
proof -
  have "t \<noteq> root" using ept_tree_root [OF tree] t l by auto
  moreover have "of_nat (prefix (Suc l) g mod 512) = level_index (Suc l) g"
    using l by (intro level_index_of_nat) simp
  ultimately show thesis
    using ept_treeD(4) [OF tree t] that by (auto simp: prefix_Suc [of "Suc l"])
qed

lemma level_3_root:
  assumes tree: "ept_tree own root s" and t: "own t = Some (3, p)" shows "t = root"
proof (rule ccontr)
  assume "t \<noteq> root"
  with ept_treeD(4) [OF tree t] obtain u where "own u = Some (Suc 3, p div 512)" by auto
  from ept_treeD(1) [OF tree this] show False by simp
qed

lemma walk_to_owned:
  assumes tree: "ept_tree own root s"
  shows "own t = Some (l, prefix (Suc l) g) \<Longrightarrow> walk 3 root g s = walk l t g s"
proof (induction "3 - l" arbitrary: l t)
  case 0
  then have l: "l = 3" using ept_treeD(1) [OF tree 0(2)] by simp
  with level_3_root [OF tree] 0(2) show ?case by blast
next
  case (Suc n)
  then have "l < 3" by simp
  from owned_parent [OF tree Suc.prems this] obtain u where u:
    "own u = Some (Suc l, prefix (Suc (Suc l)) g)" "read_pg u (level_index (Suc l) g) s = entry_of t" .
  have "walk 3 root g s = walk (Suc l) u g s" using Suc(2) u(1) by (intro Suc.hyps(1)) auto
  also have "\<dots> = walk l t g s" by (rule walk_table [OF tree u Suc.prems])
  finally show ?case .
qed


section \<open>Adding a table\<close>

lemma room_mono: "room b (Suc n) \<Longrightarrow> room b n"
proof -
  assume "room b (Suc n)"
  then obtain q where "free_run b q (Suc n + 1)" by (auto simp: room_def)
  then have "free_run b q (n + 1)" by (auto simp: free_run_def)
  then show "room b n" by (auto simp: room_def)
qed

lemma owned_frame:
  assumes "ept_tree own root s" "own t = Some (l, p)"
  obtains q where "t = frame q" "q < LIMIT_PAGES" "page_used (km_boot s) q"
  using ept_treeD(2) [OF assms] by blast

text \<open>The state after a fresh zeroed table \<^verbatim>\<open>frame f\<close> has been hung into a zero entry.\<close>

definition hung_table :: "owner \<Rightarrow> u64 \<Rightarrow> kmem \<Rightarrow> kmem \<Rightarrow> u64 \<Rightarrow> u64 \<Rightarrow> nat \<Rightarrow> nat \<Rightarrow> nat \<Rightarrow> bool" where
  "hung_table own root s s' t i l p f \<longleftrightarrow>
     ept_tree own root s \<and> own t = Some (Suc l, p) \<and> i < 512 \<and> read_pg t i s = 0 \<and>
     f < LIMIT_PAGES \<and> \<not> page_used (km_boot s) f \<and>
     (\<forall>q < LIMIT_PAGES. page_used (km_boot s') q \<longleftrightarrow> page_used (km_boot s) q \<or> q = f) \<and>
     (\<forall>u m j. own u = Some m \<longrightarrow> j < 512 \<longrightarrow>
        read_pg u j s' = (if u = t \<and> j = i then entry_of (frame f) else read_pg u j s)) \<and>
     (\<forall>j < 512. read_pg (frame f) j s' = 0)"

lemma hung_tableD:
  assumes "hung_table own root s s' t i l p f"
  shows "ept_tree own root s" "own t = Some (Suc l, p)" "i < 512" "read_pg t i s = 0"
    "f < LIMIT_PAGES" "\<not> page_used (km_boot s) f"
    "q < LIMIT_PAGES \<Longrightarrow> page_used (km_boot s') q \<longleftrightarrow> page_used (km_boot s) q \<or> q = f"
    "own u = Some m \<Longrightarrow> j < 512 \<Longrightarrow>
       read_pg u j s' = (if u = t \<and> j = i then entry_of (frame f) else read_pg u j s)"
    "j < 512 \<Longrightarrow> read_pg (frame f) j s' = 0"
  using assms unfolding hung_table_def by blast+

lemma hung_fresh:
  assumes "hung_table own root s s' t i l p f" shows "own (frame f) = None"
proof (rule ccontr)
  assume "own (frame f) \<noteq> None"
  then obtain k m where "own (frame f) = Some (k, m)" by auto
  from owned_frame [OF hung_tableD(1) [OF assms] this] obtain q where
    "frame f = frame q" "q < LIMIT_PAGES" "page_used (km_boot s) q" .
  with hung_tableD(5,6) [OF assms] show False by (simp add: frame_inject)
qed

lemma hung_tree:
  assumes h: "hung_table own root s s' t i l p f"
  shows "ept_tree (own(frame f \<mapsto> (l, p * 512 + unat i))) root s'" (is "ept_tree ?own root s'")
proof -
  note tree = hung_tableD(1) [OF h] and t = hung_tableD(2) [OF h] and i = hung_tableD(3) [OF h]
    and empty = hung_tableD(4) [OF h] and f = hung_tableD(5,6) [OF h] and used = hung_tableD(7) [OF h]
    and read_old = hung_tableD(8) [OF h] and read_new = hung_tableD(9) [OF h]
  define own' where "own' = ?own"
  have new: "own' (frame f) = Some (l, p * 512 + unat i)"
    and other: "\<And>u. u \<noteq> frame f \<Longrightarrow> own' u = own u" by (simp_all add: own'_def)
  have own'_old: "own' u = Some m" if "own u = Some m" for u m
    using that hung_fresh [OF h] by (auto simp: own'_def)
  have prefix_digits: "(p * 512 + unat i) div 512 = p" "of_nat (unat i mod 512) = i"
    using i by (simp_all add: word_less_nat_alt)
  show ?thesis unfolding own'_def [symmetric]
    unfolding ept_tree_def
  proof (intro conjI allI impI)
    show "own' root = Some (3, 0)" using own'_old ept_tree_root [OF tree] by blast
    fix u k m assume u: "own' u = Some (k, m)"
    show "k \<le> 3"
    proof (cases "u = frame f")
      case True then show ?thesis using u new ept_treeD(1) [OF tree t] by auto
    next
      case False
      then have "own u = Some (k, m)" using u other by simp
      from ept_treeD(1) [OF tree this] show ?thesis .
    qed
    show "\<exists>q < LIMIT_PAGES. u = frame q \<and> page_used (km_boot s') q"
    proof (cases "u = frame f")
      case True then show ?thesis using used f(1) by auto
    next
      case False
      then have "own u = Some (k, m)" using u other by simp
      from owned_frame [OF tree this] used show ?thesis by metis
    qed
    show "u = root \<or> (\<exists>v. own' v = Some (k + 1, m div 512) \<and> read_pg v (of_nat (m mod 512)) s' = entry_of u)"
    proof (cases "u = frame f")
      case True
      then have "k = l" "m = p * 512 + unat i" using u new by auto
      then show ?thesis
        using True own'_old [OF t] read_old [OF t i]
        by (intro disjI2 exI [of _ t]) (simp add: prefix_digits)
    next
      case False
      then have old: "own u = Some (k, m)" using u other by simp
      show ?thesis
      proof (cases "u = root")
        case False
        with ept_treeD(4) [OF tree old] obtain v where
          v: "own v = Some (k + 1, m div 512)" "read_pg v (of_nat (m mod 512)) s = entry_of u" by auto
        have j: "(of_nat (m mod 512) :: u64) < 512"
          by (simp add: word_less_nat_alt unat_of_nat take_bit_nat_eq_self)
        have "\<not> (v = t \<and> of_nat (m mod 512) = i)" using v(2) empty entry_owned(3) [OF tree old] by auto
        then show ?thesis using v own'_old [OF v(1)] read_old [OF v(1) j] by auto
      qed simp
    qed
    fix j :: u64 assume j: "j < 512" and k: "0 < k"
    show "read_pg u j s' = 0 \<or> (\<exists>c. read_pg u j s' = entry_of c \<and> own' c = Some (k - 1, m * 512 + unat j))"
    proof (cases "u = frame f")
      case True then show ?thesis using read_new [OF j] by simp
    next
      case False
      then have old: "own u = Some (k, m)" using u other by simp
      show ?thesis
      proof (cases "u = t \<and> j = i")
        case True
        then show ?thesis using read_old [OF t i] old t new by auto
      next
        case False
        then have "read_pg u j s' = read_pg u j s" using read_old [OF old j] by auto
        then show ?thesis using ept_treeD(3) [OF tree old k j] own'_old by auto
      qed
    qed
  qed
qed

lemma hung_walk_new:
  assumes "hung_table own root s s' t i l p f" shows "walk l (frame f) g s' = Inl (- EINVAL)"
  using hung_tableD(9) [OF assms] by (cases l) simp_all

lemma hung_walk_old:
  assumes h: "hung_table own root s s' t i l p f"
  shows "own u = Some (k, prefix (Suc k) g) \<Longrightarrow> walk k u g s' = walk k u g s"
proof (induction k arbitrary: u)
  case 0
  then have "u \<noteq> t" using hung_tableD(2) [OF h] by auto
  then show ?case using hung_tableD(8) [OF h 0 level_index_bound [of 0 g]] by simp
next
  case (Suc k)
  note r = hung_tableD(8) [OF h Suc.prems level_index_bound [of "Suc k" g]]
  show ?case
  proof (cases "u = t \<and> level_index (Suc k) g = i")
    case True
    then have k: "k = l" using hung_tableD(2) [OF h] Suc.prems by auto
    have e: "read_pg u (level_index (Suc k) g) s' = entry_of (frame f)" using r True by simp
    have "(own(frame f \<mapsto> (l, p * 512 + unat i))) (frame f) = Some (l, p * 512 + unat i)" by simp
    from entry_owned [OF hung_tree [OF h] this] e k hung_walk_new [OF h, of g] True
      hung_tableD(4) [OF h] show ?thesis
      by (simp add: Let_def)
  next
    case False
    then have same: "read_pg u (level_index (Suc k) g) s' = read_pg u (level_index (Suc k) g) s"
      using r by auto
    from hung_tableD(1) [OF h] Suc.prems show ?thesis
    proof (cases rule: step_cases)
      case empty then show ?thesis using same by simp
    next
      case (table c)
      then show ?thesis
        using same Suc.IH [OF table(2)] entry_owned [OF hung_tableD(1) [OF h] table(2)] by (simp add: Let_def)
    qed
  qed
qed

lemma next_table:
  assumes tree: "ept_tree own root s" and t: "own t = Some (Suc l, p)" and i: "i < 512"
    and room: "room (km_boot s) (Suc n)"
    and attr: "attr = EPT_READ OR EPT_WRITE OR EPT_EXECUTE OR EPT_ACCESS_FLAG"
  obtains c s' own2 where "ept_next_table t i attr s = Some (c, s')" "ept_tree own2 root s'"
    "own2 c = Some (l, p * 512 + unat i)" "own \<subseteq>\<^sub>m own2"
    "\<And>k u g. own u = Some (k, prefix (Suc k) g) \<Longrightarrow> walk k u g s' = walk k u g s"
    "room (km_boot s') n" "km_invept s' = km_invept s"
proof (cases "read_pg t i s = 0")
  case False
  with ept_treeD(3) [OF tree t _ i] obtain c where c: "read_pg t i s = entry_of c"
    "own c = Some (l, p * 512 + unat i)" by auto
  show thesis
  proof (rule that [of c s own])
    show "ept_next_table t i attr s = Some (c, s)"
      using False c(1) entry_owned(5) [OF tree c(2)] by (simp add: ept_next_table_def)
  qed (use tree c room room_mono in auto)
next
  case True
  from alloc_zeroed_page [OF room] obtain f s1 where
    f: "alloc_zeroed_page s = Some (frame f, s1)" "f < LIMIT_PAGES" "\<not> page_used (km_boot s) f"
      "\<And>p. p < LIMIT_PAGES \<Longrightarrow> page_used (km_boot s1) p \<longleftrightarrow> page_used (km_boot s) p \<or> p = f"
      "room (km_boot s1) n" "km_invept s1 = km_invept s"
      "\<And>q i. q < LIMIT_PAGES \<Longrightarrow> i < 512 \<Longrightarrow>
         read_pg (frame q) i s1 = (if q = f then 0 else read_pg (frame q) i s)" by blast
  define s' where "s' = write_pg t i (entry_of (frame f)) s1"
  obtain qt where qt: "t = frame qt" "qt < LIMIT_PAGES" "page_used (km_boot s) qt"
    using owned_frame [OF tree t] .
  have frames: "u = frame q \<Longrightarrow> q < LIMIT_PAGES \<Longrightarrow> page_used (km_boot s) q \<Longrightarrow> j < 512 \<Longrightarrow>
      read_pg u j s' = (if u = t \<and> j = i then entry_of (frame f) else read_pg u j s)" for u q j
    using f(2,3) qt i by (auto simp: s'_def read_write_pg f(7) cell_inject frame_inject)
  have new: "read_pg (frame f) j s' = 0" if "j < 512" for j
    using f(2,3) qt i that by (auto simp: s'_def read_write_pg f(7) cell_inject)
  have h: "hung_table own root s s' t i l p f"
    unfolding hung_table_def
  proof (intro conjI allI impI)
    fix u m and j :: u64 assume "own u = Some m" "j < 512"
    then obtain k r where "own u = Some (k, r)" by (cases m) auto
    from owned_frame [OF tree this] frames \<open>j < 512\<close>
    show "read_pg u j s' = (if u = t \<and> j = i then entry_of (frame f) else read_pg u j s)" by metis
  qed (use tree t i True f(2,3,4) new in \<open>auto simp: s'_def\<close>)
  show thesis
  proof (rule that [of "frame f" s' "own(frame f \<mapsto> (l, p * 512 + unat i))"])
    have "read_pg t i s' = entry_of (frame f)" by (simp add: s'_def read_write_pg)
    moreover have "write_pg t i (VIRT2PHYS (frame f) OR attr) s1 = s'"
      by (simp add: s'_def entry_of_def attr)
    ultimately show "ept_next_table t i attr s = Some (frame f, s')"
      using True f(1) entry_of_frame(3) [of f] by (simp add: ept_next_table_def)
    show "own \<subseteq>\<^sub>m own(frame f \<mapsto> (l, p * 512 + unat i))"
      using hung_fresh [OF h] by (auto simp: map_le_def)
    show "ept_tree (own(frame f \<mapsto> (l, p * 512 + unat i))) root s'" by (rule hung_tree [OF h])
    show "walk k u g s' = walk k u g s" if "own u = Some (k, prefix (Suc k) g)" for k u g
      using that by (rule hung_walk_old [OF h])
  qed (use f in \<open>simp_all add: s'_def\<close>)
qed


section \<open>Writing a leaf\<close>

definition leaf_result :: "u64 \<Rightarrow> u64 \<Rightarrow> int + u64" where
  "leaf_result e g = (if e AND EPT_RWX = 0 then Inl (- EINVAL) else Inr (PG_4KB_PFN e + PG_4KB_OFFSET g))"

lemma read_owned_write:
  assumes "ept_tree own root s" "own u = Some m" "own t = Some m'" "i < 512" "j < 512"
  shows "read_pg u j (write_pg t i v s) = (if u = t \<and> j = i then v else read_pg u j s)"
proof -
  obtain k p k' p' where m: "m = (k, p)" "m' = (k', p')" by (metis surj_pair)
  from assms(2,3) m obtain q r where "u = frame q" "q < LIMIT_PAGES" "t = frame r" "r < LIMIT_PAGES"
    using owned_frame [OF assms(1)] by metis
  then show ?thesis using assms(4,5) by (auto simp: read_write_pg cell_inject frame_inject)
qed

lemma leaf_tree:
  assumes tree: "ept_tree own root s" and t: "own t = Some (0, p)" and i: "i < 512"
  shows "ept_tree own root (write_pg t i v s)"
  unfolding ept_tree_def
proof (intro conjI allI impI)
  note rd = read_owned_write [OF tree _ t i]
  show "own root = Some (3, 0)" by (rule ept_tree_root [OF tree])
  fix u k m assume u: "own u = Some (k, m)"
  show "k \<le> 3" by (rule ept_treeD(1) [OF tree u])
  show "\<exists>q < LIMIT_PAGES. u = frame q \<and> page_used (km_boot (write_pg t i v s)) q"
    using ept_treeD(2) [OF tree u] by simp
  show "u = root \<or> (\<exists>w. own w = Some (k + 1, m div 512) \<and>
      read_pg w (of_nat (m mod 512)) (write_pg t i v s) = entry_of u)"
  proof (cases "u = root")
    case False
    with ept_treeD(4) [OF tree u] obtain w where
      w: "own w = Some (k + 1, m div 512)" "read_pg w (of_nat (m mod 512)) s = entry_of u" by auto
    have "(of_nat (m mod 512) :: u64) < 512"
      by (simp add: word_less_nat_alt unat_of_nat take_bit_nat_eq_self)
    moreover have "w \<noteq> t" using w(1) t by auto
    ultimately show ?thesis using w rd [OF w(1)] by auto
  qed simp
  fix j :: u64 assume j: "j < 512" and k: "0 < k"
  then have "u \<noteq> t" using u t by auto
  then show "read_pg u j (write_pg t i v s) = 0 \<or>
      (\<exists>c. read_pg u j (write_pg t i v s) = entry_of c \<and> own c = Some (k - 1, m * 512 + unat j))"
    using rd [OF u j] ept_treeD(3) [OF tree u k j] by simp
qed

lemma page_number_digits: "prefix 1 g * 512 + unat (level_index 0 g) = page_number g"
  using prefix_Suc [of 0 g] by (simp add: unat_level_index prefix_0)

lemma leaf_walk_same:
  assumes tree: "ept_tree own root s" and t: "own t = Some (0, p)" and i: "i < 512"
    and g: "page_number g = p * 512 + unat i"
  shows "walk 3 root g (write_pg t i v s) = leaf_result v g"
proof -
  have "unat i < 512" using i by (simp add: word_less_nat_alt)
  with g have "prefix (Suc 0) g = p" "unat (level_index 0 g) = unat i"
    by (simp_all add: prefix_Suc prefix_0 unat_level_index)
  then have "level_index 0 g = i" "own t = Some (0, prefix (Suc 0) g)"
    using t by (simp_all add: word_unat_eq_iff)
  with walk_to_owned [OF leaf_tree [OF tree t i], of t 0 g v] show ?thesis
    by (simp add: leaf_result_def read_write_pg)
qed

lemma leaf_walk_other:
  assumes tree: "ept_tree own root s" and t: "own t = Some (0, p)" and i: "i < 512"
    and g: "page_number g \<noteq> p * 512 + unat i"
  shows "own u = Some (k, prefix (Suc k) g) \<Longrightarrow> walk k u g (write_pg t i v s) = walk k u g s"
proof (induction k arbitrary: u)
  case 0
  have "\<not> (u = t \<and> level_index 0 g = i)" using 0 t g page_number_digits [of g] by auto
  then have "read_pg u (level_index 0 g) (write_pg t i v s) = read_pg u (level_index 0 g) s"
    using read_owned_write [OF tree 0 t i level_index_bound [of 0 g], of v] by metis
  then show ?case by simp
next
  case (Suc k)
  have "u \<noteq> t" using Suc.prems t by auto
  then have same: "read_pg u (level_index (Suc k) g) (write_pg t i v s) = read_pg u (level_index (Suc k) g) s"
    using read_owned_write [OF tree Suc.prems t i level_index_bound [of "Suc k" g]] by simp
  from tree Suc.prems show ?case
  proof (cases rule: step_cases)
    case empty then show ?thesis using same by simp
  next
    case (table c)
    then show ?thesis
      using same Suc.IH [OF table(2)] entry_owned [OF tree table(2)] by (simp add: Let_def)
  qed
qed

section \<open>Mapping a page\<close>

lemma ept_gpa_to_hpa_invept [simp]: "read_pg t i (invept_context e s) = read_pg t i s"
  "km_boot (invept_context e s) = km_boot s"
  by (simp_all add: invept_context_def)

lemma invept_tree: "ept_tree own root (invept_context e s) = ept_tree own root s"
  by (simp add: ept_tree_def)

lemma invept_walk: "walk l t g (invept_context e s) = walk l t g s"
  by (induction l arbitrary: t) (simp_all add: Let_def)

lemma next_table_path:
  assumes tree: "ept_tree own root s" and t: "own t = Some (Suc l, prefix (Suc (Suc l)) gpa)"
    and room: "room (km_boot s) (Suc n)"
  obtains c s' own2 where
    "ept_next_table t (level_index (Suc l) gpa) (EPT_READ OR EPT_WRITE OR EPT_EXECUTE OR EPT_ACCESS_FLAG) s
       = Some (c, s')"
    "ept_tree own2 root s'" "own2 c = Some (l, prefix (Suc l) gpa)" "own \<subseteq>\<^sub>m own2"
    "\<And>k u g. own u = Some (k, prefix (Suc k) g) \<Longrightarrow> walk k u g s' = walk k u g s"
    "room (km_boot s') n" "km_invept s' = km_invept s"
proof -
  have "l < 3" using ept_treeD(1) [OF tree t] by simp
  then have "prefix (Suc (Suc l)) gpa * 512 + unat (level_index (Suc l) gpa) = prefix (Suc l) gpa"
    using unat_level_index [of "Suc l" gpa] by (simp add: prefix_Suc [of "Suc l"])
  with next_table [OF tree t level_index_bound room refl, of "Suc l" gpa] that show thesis by metis
qed

lemma map_index:
  "drop_bit 39 g AND 0x1ff = level_index (Suc (Suc (Suc 0))) g"
  "drop_bit 30 g AND 0x1ff = level_index (Suc (Suc 0)) g"
  "drop_bit 21 g AND 0x1ff = level_index (Suc 0) g" "drop_bit 12 g AND 0x1ff = level_index 0 g"
  by (simp_all add: level_index_def)

lemma root_level:
  "ept_tree own root s \<Longrightarrow>
   own root = Some (Suc (Suc (Suc 0)), prefix (Suc (Suc (Suc (Suc 0)))) g)"
  using ept_tree_root [of own root s] prefix_4 [of g] by (simp add: eval_nat_numeral)

lemma ept_map_page_4k:
  assumes tree: "ept_tree own root s" and room: "room (km_boot s) (Suc (Suc (Suc n)))"
  obtains s' own' where "ept_map_page root gpa hpa 0x1000 attr s = Some s'" "ept_tree own' root s'"
    "room (km_boot s') n" "km_invept s' = VIRT2PHYS root # km_invept s"
    "\<And>g. ept_gpa_to_hpa root g s' =
       (if page_number g = page_number gpa then leaf_result (hpa OR attr) g else ept_gpa_to_hpa root g s)"
proof -
  let ?a = "EPT_READ OR EPT_WRITE OR EPT_EXECUTE OR EPT_ACCESS_FLAG"
  obtain c2 s2 own2 where
    2: "ept_next_table root (level_index (Suc (Suc (Suc 0))) gpa) ?a s = Some (c2, s2)"
      "ept_tree own2 root s2" "own2 c2 = Some (Suc (Suc 0), prefix (Suc (Suc (Suc 0))) gpa)"
      "\<And>k u g. own u = Some (k, prefix (Suc k) g) \<Longrightarrow> walk k u g s2 = walk k u g s"
      "room (km_boot s2) (Suc (Suc n))" "km_invept s2 = km_invept s"
    using next_table_path [OF tree root_level [OF tree] room] by metis
  obtain c1 s1 own1 where
    1: "ept_next_table c2 (level_index (Suc (Suc 0)) gpa) ?a s2 = Some (c1, s1)"
      "ept_tree own1 root s1" "own1 c1 = Some (Suc 0, prefix (Suc (Suc 0)) gpa)"
      "\<And>k u g. own2 u = Some (k, prefix (Suc k) g) \<Longrightarrow> walk k u g s1 = walk k u g s2"
      "room (km_boot s1) (Suc n)" "km_invept s1 = km_invept s2"
    using next_table_path [OF 2(2,3,5)] by metis
  obtain c0 s0 own0 where
    0: "ept_next_table c1 (level_index (Suc 0) gpa) ?a s1 = Some (c0, s0)"
      "ept_tree own0 root s0" "own0 c0 = Some (0, prefix (Suc 0) gpa)"
      "\<And>k u g. own1 u = Some (k, prefix (Suc k) g) \<Longrightarrow> walk k u g s0 = walk k u g s1"
      "room (km_boot s0) n" "km_invept s0 = km_invept s1"
    using next_table_path [OF 1(2,3,5)] by metis
  define s' where "s' = invept_context (VIRT2PHYS root) (write_pg c0 (level_index 0 gpa) (hpa OR attr) s0)"
  note leaf = leaf_tree [OF 0(2,3) level_index_bound]
  have "ept_tree own0 root s'" by (simp add: s'_def invept_tree leaf)
  moreover have "ept_gpa_to_hpa root g s' =
      (if page_number g = page_number gpa then leaf_result (hpa OR attr) g else ept_gpa_to_hpa root g s)" for g
  proof -
    have r: "own' root = Some (3, prefix (Suc 3) g)" if "ept_tree own' root st" for own' st
      using root_level [OF that, of g] by (simp add: eval_nat_numeral)
    have old: "walk 3 root g s0 = walk 3 root g s"
      using 0(4) [OF r [OF 1(2)]] 1(4) [OF r [OF 2(2)]] 2(4) [OF r [OF tree]] by simp
    have pn: "page_number gpa = prefix (Suc 0) gpa * 512 + unat (level_index 0 gpa)"
      using page_number_digits [of gpa] by simp
    have "ept_gpa_to_hpa root g s' = walk 3 root g (write_pg c0 (level_index 0 gpa) (hpa OR attr) s0)"
      using ept_gpa_to_hpa_walk [OF \<open>ept_tree own0 root s'\<close>, of g] by (simp add: s'_def invept_walk)
    also have "\<dots> = (if page_number g = page_number gpa then leaf_result (hpa OR attr) g
        else walk 3 root g s0)"
      using leaf_walk_same [OF 0(2,3) level_index_bound, of g 0 gpa "hpa OR attr"]
        leaf_walk_other [OF 0(2,3) level_index_bound _ r [OF 0(2)], of 0 gpa "hpa OR attr"] pn
      by simp
    finally show ?thesis using old ept_gpa_to_hpa_walk [OF tree, of g] by simp
  qed
  moreover have "ept_map_page root gpa hpa 0x1000 attr s = Some s'"
    using 2(1) 1(1) 0(1) by (simp add: ept_map_page_def Let_def map_index s'_def)
  moreover have "room (km_boot s') n" "km_invept s' = VIRT2PHYS root # km_invept s"
    using 0(5,6) 1(6) 2(6) by (simp_all add: s'_def) (simp add: invept_context_def)
  ultimately show thesis using that by blast
qed


section \<open>Mapping a range\<close>

lemma leaf_result_aligned:
  assumes "hpa AND 0xfff = 0" "attr < 0x1000" "attr AND EPT_RWX \<noteq> 0"
  shows "leaf_result (hpa OR attr) g = Inr (hpa + PG_4KB_OFFSET g)"
proof -
  have n: "(0xfffffffffffff000 :: u64) = NOT (mask 12)" by (simp add: mask_eq_exp_minus_1 not_eq_complement)
  have "PG_4KB_PFN (hpa OR attr) = hpa"
  proof (rule bit_word_eqI)
    fix k assume "k < LENGTH(64)"
    then show "bit (PG_4KB_PFN (hpa OR attr)) k \<longleftrightarrow> bit hpa k"
      unfolding PG_4KB_PFN_def n
      using aligned_bits [OF assms(1), of k] small_bits [OF assms(2), of k]
      by (cases "k < 12") (auto simp: bit_simps)
  qed
  moreover have "(hpa OR attr) AND EPT_RWX \<noteq> 0"
    by (rule or_and_neq_0(1) [OF assms(3)])
  ultimately show ?thesis by (simp add: leaf_result_def)
qed

lemma page_number_take: "page_number g = take_bit 36 (drop_bit 12 (unat g))"
  by (simp add: page_number_def take_bit_eq_mod drop_bit_eq_div)

lemma page_number_step: "page_number (g + 0x1000) = (page_number g + 1) mod 2 ^ 36"
proof -
  have dm: "x mod (0x1000 * m) div 0x1000 = x div 0x1000 mod m" for x m :: nat
    unfolding mod_mult2_eq by simp
  have "unat (g + 0x1000) = (unat g + 0x1000) mod (0x1000 * 2 ^ 52)" by (simp add: unat_word_ariths)
  then have "unat (g + 0x1000) div 0x1000 = (unat g + 0x1000) div 0x1000 mod 2 ^ 52"
    by (simp only: dm)
  also have "(unat g + 0x1000) div 0x1000 = unat g div 0x1000 + 1" by simp
  finally have "page_number (g + 0x1000) = (unat g div 0x1000 + 1) mod (2 ^ 52) mod 2 ^ 36"
    by (simp add: page_number_def)
  also have "\<dots> = (unat g div 0x1000 + 1) mod 2 ^ 36" by (rule mod_mod_cancel) (simp add: dvd_power_le)
  finally show ?thesis by (simp add: page_number_def mod_simps)
qed

lemma aligned_step: "(x :: u64) AND 0xfff = 0 \<Longrightarrow> (x + 0x1000) AND 0xfff = 0"
proof -
  have a: "(y :: u64) AND 0xfff = 0 \<longleftrightarrow> unat y mod 2 ^ 12 = 0" for y
    by (simp only: numeral_mask(3) word_unat_eq_iff unat_and_mask unsigned_0)
  have "(unat x + 0x1000) mod 2 ^ 64 mod 2 ^ 12 = (unat x + 0x1000) mod 2 ^ 12"
    by (rule mod_mod_cancel) (simp add: le_imp_power_dvd)
  then show "x AND 0xfff = 0 \<Longrightarrow> (x + 0x1000) AND 0xfff = 0"
    unfolding a by (simp add: unat_word_ariths)
qed

lemma map_guest_memory_loop_spec:
  assumes "ept_tree own root s" "room (km_boot s) (3 * n)" "hpa AND 0xfff = 0"
    "attr < 0x1000" "attr AND EPT_RWX \<noteq> 0" "page_number gpa + n \<le> 2 ^ 36"
  shows "\<exists>s' own'. map_guest_memory_loop root gpa hpa (int n * 0x1000) attr s = Some s' \<and>
     ept_tree own' root s' \<and>
     (\<forall>g. ept_gpa_to_hpa root g s' =
        (if page_number gpa \<le> page_number g \<and> page_number g < page_number gpa + n
         then Inr (hpa + of_nat ((page_number g - page_number gpa) * 0x1000) + PG_4KB_OFFSET g)
         else ept_gpa_to_hpa root g s))"
  using assms
proof (induction n arbitrary: gpa hpa s own)
  case 0
  then show ?case by (auto simp: map_guest_memory_loop.simps [of _ _ _ 0])
next
  case (Suc n)
  have r: "room (km_boot s) (Suc (Suc (Suc (3 * n))))" using Suc.prems(2) by (simp add: eval_nat_numeral)
  from ept_map_page_4k [OF Suc.prems(1) r] obtain s1 own1 where
    1: "ept_map_page root gpa hpa 0x1000 attr s = Some s1" "ept_tree own1 root s1"
      "room (km_boot s1) (3 * n)"
      "\<And>g. ept_gpa_to_hpa root g s1 =
         (if page_number g = page_number gpa then leaf_result (hpa OR attr) g else ept_gpa_to_hpa root g s)"
    by metis
  show ?case
  proof (cases "n = 0")
    case True
    have "map_guest_memory_loop root gpa hpa 0x1000 attr s = Some s1"
      using 1(1) by (simp add: map_guest_memory_loop.simps)
    then show ?thesis
      using 1(2,4) True leaf_result_aligned [OF Suc.prems(3-5)]
      by (intro exI [of _ s1] exI [of _ own1]) auto
  next
    case False
    then have pn: "page_number (gpa + 0x1000) = page_number gpa + 1"
      using Suc.prems(6) by (simp add: page_number_step)
    from Suc.IH [OF 1(2,3) aligned_step [OF Suc.prems(3)] Suc.prems(4,5), of "gpa + 0x1000"]
    obtain s2 own2 where
      2: "map_guest_memory_loop root (gpa + 0x1000) (hpa + 0x1000) (int n * 0x1000) attr s1 = Some s2"
        "ept_tree own2 root s2"
        "\<And>g. ept_gpa_to_hpa root g s2 =
          (if page_number gpa + 1 \<le> page_number g \<and> page_number g < page_number gpa + 1 + n
           then Inr (hpa + 0x1000 + of_nat ((page_number g - (page_number gpa + 1)) * 0x1000) + PG_4KB_OFFSET g)
           else ept_gpa_to_hpa root g s1)"
      using Suc.prems(6) unfolding pn by auto
    have "map_guest_memory_loop root gpa hpa (int (Suc n) * 0x1000) attr s = Some s2"
      using 1(1) 2(1) by (subst map_guest_memory_loop.simps) (simp add: algebra_simps)
    moreover have "ept_gpa_to_hpa root g s2 =
        (if page_number gpa \<le> page_number g \<and> page_number g < page_number gpa + Suc n
         then Inr (hpa + of_nat ((page_number g - page_number gpa) * 0x1000) + PG_4KB_OFFSET g)
         else ept_gpa_to_hpa root g s)" for g
    proof (cases "page_number g = page_number gpa")
      case True
      then show ?thesis using 1(4) 2(3) leaf_result_aligned [OF Suc.prems(3-5)] by simp
    next
      case False
      have "0x1000 + of_nat ((page_number g - (page_number gpa + 1)) * 0x1000) =
          (of_nat ((page_number g - page_number gpa) * 0x1000) :: u64)" if "page_number gpa < page_number g"
      proof -
        have "page_number g - page_number gpa = Suc (page_number g - (page_number gpa + 1))" using that by simp
        then show ?thesis by (simp add: algebra_simps)
      qed
      with False 1(4) [of g] 2(3) [of g] show ?thesis by (auto simp: add.assoc)
    qed
    ultimately show ?thesis using 2(2) by blast
  qed
qed


section \<open>Properties\<close>

text \<open>C3. Mapping one 4KB page: on a well-formed tree of tables with three free pages in reach,
  \<^verbatim>\<open>ept_map_page\<close> succeeds, keeps the tree well formed, flushes the context of this EPT, and
  afterwards \<^verbatim>\<open>ept_gpa_to_hpa\<close> sends the mapped page to the given frame at every offset while
  every other guest page translates exactly as before.\<close>

theorem ept_map_page_translates:
  assumes "ept_tree own root s" and "room (km_boot s) 3"
    and "hpa AND 0xfff = 0" "attr < 0x1000" "attr AND EPT_RWX \<noteq> 0"
  shows "\<exists>s' own'. ept_map_page root gpa hpa 0x1000 attr s = Some s' \<and> ept_tree own' root s' \<and>
     km_invept s' = VIRT2PHYS root # km_invept s \<and>
     (\<forall>g. ept_gpa_to_hpa root g s' =
        (if page_number g = page_number gpa then Inr (hpa + PG_4KB_OFFSET g)
         else ept_gpa_to_hpa root g s))"
proof -
  have "room (km_boot s) (Suc (Suc (Suc 0)))" using assms(2) by (simp add: eval_nat_numeral)
  from ept_map_page_4k [OF assms(1) this] leaf_result_aligned [OF assms(3-5)] show ?thesis by metis
qed

text \<open>C27. \<^verbatim>\<open>map_guest_memory\<close> of \<^verbatim>\<open>n\<close> pages returns and maps the range
  linearly: guest page \<^verbatim>\<open>k\<close> of the range goes to \<^verbatim>\<open>hpa + k * 4096\<close>, pages outside it
  translate as before, and the tree stays well formed.\<close>

theorem map_guest_memory_linear:
  assumes "ept_tree own root s" and "room (km_boot s) (3 * n)"
    and "hpa AND 0xfff = 0" "attr < 0x1000" "attr AND EPT_RWX \<noteq> 0"
    and "page_number gpa + n \<le> 2 ^ 36"
  shows "\<exists>s' own'. map_guest_memory root gpa hpa (of_nat (n * 0x1000)) attr s = Some s' \<and>
     ept_tree own' root s' \<and>
     (\<forall>g. ept_gpa_to_hpa root g s' =
        (if page_number gpa \<le> page_number g \<and> page_number g < page_number gpa + n
         then Inr (hpa + of_nat ((page_number g - page_number gpa) * 0x1000) + PG_4KB_OFFSET g)
         else ept_gpa_to_hpa root g s))"
proof -
  have "n * 0x1000 < 2 ^ 63" using assms(6) by simp
  then have "sint (of_nat (n * 0x1000) :: u64) = int n * 0x1000"
    by (simp add: signed_of_nat signed_take_bit_int_eq_self del: of_nat_mult)
  with map_guest_memory_loop_spec [OF assms] show ?thesis by (simp add: map_guest_memory_def)
qed

text \<open>A 2MB mapping is not what \<^verbatim>\<open>ept_gpa_to_hpa\<close> reads back: its large-page branch
  takes the frame from the page-directory-pointer entry, so the translation after
  \<^verbatim>\<open>ept_map_page\<close> with a 2MB page does not depend on the host address it was given.\<close>

theorem ept_2mb_ignores_hpa:
  assumes "ept_tree own root s" and "room (km_boot s) 2" and "attr AND EPT_RWX \<noteq> 0"
  shows "\<exists>r. \<forall>hpa. \<exists>s'. ept_map_page root gpa hpa 0x200000 attr s = Some s' \<and>
     ept_gpa_to_hpa root gpa s' = Inr r"
proof -
  let ?a = "EPT_READ OR EPT_WRITE OR EPT_EXECUTE OR EPT_ACCESS_FLAG"
  have room: "room (km_boot s) (Suc (Suc 0))" using assms(2) by (simp add: eval_nat_numeral)
  obtain c2 s2 own2 where
    2: "ept_next_table root (level_index (Suc (Suc (Suc 0))) gpa) ?a s = Some (c2, s2)"
      "ept_tree own2 root s2" "own2 c2 = Some (Suc (Suc 0), prefix (Suc (Suc (Suc 0))) gpa)"
      "room (km_boot s2) (Suc 0)"
    using next_table_path [OF assms(1) root_level [OF assms(1)] room] by metis
  obtain c1 s1 own1 where
    1: "ept_next_table c2 (level_index (Suc (Suc 0)) gpa) ?a s2 = Some (c1, s1)"
      "ept_tree own1 root s1" "own1 c1 = Some (Suc 0, prefix (Suc (Suc 0)) gpa)"
    using next_table_path [OF 2(2,3,4)] by metis
  obtain u where u: "own1 u = Some (Suc (Suc 0), prefix (Suc (Suc (Suc 0))) gpa)"
    "read_pg u (level_index (Suc (Suc 0)) gpa) s1 = entry_of c1"
    using owned_parent [OF 1(2,3)] by auto
  obtain v where v: "own1 v = Some (Suc (Suc (Suc 0)), prefix (Suc (Suc (Suc (Suc 0)))) gpa)"
    "read_pg v (level_index (Suc (Suc (Suc 0))) gpa) s1 = entry_of u"
    using owned_parent [OF 1(2) u(1)] by auto
  have root: "v = root" using level_3_root [OF 1(2)] v(1) by (simp add: eval_nat_numeral)
  note owned = entry_owned [OF 1(2) u(1)] entry_owned [OF 1(2,3)]
  show ?thesis
  proof (intro exI allI conjI)
    fix hpa
    let ?e = "hpa OR attr OR EPT_LARGE_PAGE"
    let ?s = "write_pg c1 (level_index (Suc 0) gpa) ?e s1"
    show "ept_map_page root gpa hpa 0x200000 attr s = Some (invept_context (VIRT2PHYS root) ?s)"
      using 2(1) 1(1) by (simp add: ept_map_page_def Let_def map_index)
    note rd = read_owned_write [OF 1(2) _ 1(3) level_index_bound level_index_bound]
    have "read_pg root (level_index (Suc (Suc (Suc 0))) gpa) ?s = entry_of u"
      "read_pg u (level_index (Suc (Suc 0)) gpa) ?s = entry_of c1"
      "read_pg c1 (level_index (Suc 0) gpa) ?s = ?e"
      using rd [OF u(1)] rd [OF v(1)] rd [OF 1(3)] u v root 1(3) by (force, force, force)
    moreover have "?e AND EPT_RWX \<noteq> 0" "?e AND EPT_LARGE_PAGE \<noteq> 0"
      using or_and_neq_0 [OF or_and_neq_0(2) [OF assms(3)]] or_and_neq_0
      by (simp_all add: or.assoc [symmetric] or_and_neq_0 assms(3) EPT_LARGE_PAGE_def)
    ultimately show "ept_gpa_to_hpa root gpa (invept_context (VIRT2PHYS root) ?s) =
        Inr (PG_2MB_PFN (entry_of c1) + PG_2MB_OFFSET gpa)"
      using owned by (simp add: ept_gpa_to_hpa_def level_indices Let_def eval_nat_numeral)
  qed
qed


section \<open>Witnesses\<close>

definition demo_root :: u64 where "demo_root = frame 5"

definition demo_owner :: owner where "demo_owner = [demo_root \<mapsto> (3, 0)]"

lemma demo_tree: "ept_tree demo_owner demo_root demo_kmem"
proof -
  have "read_pg t i demo_kmem = 0" for t i by (simp add: demo_kmem_def read_pg_def)
  moreover have "5 < LIMIT_PAGES \<and> page_used (km_boot demo_kmem) 5"
    using demo_used [of 5] by (simp add: LIMIT_PAGES_def)
  ultimately show ?thesis
    unfolding ept_tree_def demo_owner_def demo_root_def by (auto split: if_splits)
qed

lemma ept_map_page_translates_witness:
  "\<exists>s. ept_map_page demo_root 0x7000 0x1234000 0x1000 0x37 demo_kmem = Some s \<and>
     ept_gpa_to_hpa demo_root 0x7010 s = Inr 0x1234010"
proof -
  have "(0x37 :: u64) AND EPT_RWX \<noteq> 0" by (simp add: ept_bits)
  with ept_map_page_translates [OF demo_tree demo_room, where hpa = "0x1234000" and attr = "0x37" and gpa = "0x7000"]
  obtain s where "ept_map_page demo_root 0x7000 0x1234000 0x1000 0x37 demo_kmem = Some s"
    "\<forall>g. ept_gpa_to_hpa demo_root g s =
        (if page_number g = page_number 0x7000 then Inr (0x1234000 + PG_4KB_OFFSET g)
         else ept_gpa_to_hpa demo_root g demo_kmem)" by auto
  then show ?thesis by (simp add: page_number_def PG_4KB_OFFSET_def)
qed

lemma map_guest_memory_linear_witness:
  "\<exists>s. map_guest_memory demo_root 0x0 0x1234000 0x8000 0x37 demo_kmem = Some s \<and>
     ept_gpa_to_hpa demo_root 0x3010 s = Inr 0x1237010"
proof -
  have "(0x37 :: u64) AND EPT_RWX \<noteq> 0" by (simp add: ept_bits)
  with map_guest_memory_linear [OF demo_tree demo_room, where n = 8 and hpa = "0x1234000" and attr = "0x37" and gpa = 0]
  obtain s where "map_guest_memory demo_root 0x0 0x1234000 0x8000 0x37 demo_kmem = Some s"
    "\<forall>g. ept_gpa_to_hpa demo_root g s =
        (if page_number g < 8
         then Inr (0x1234000 + of_nat (page_number g * 0x1000) + PG_4KB_OFFSET g)
         else ept_gpa_to_hpa demo_root g demo_kmem)" by (auto simp: page_number_def)
  then show ?thesis by (simp add: page_number_def PG_4KB_OFFSET_def)
qed

lemma ept_2mb_ignores_hpa_witness:
  "\<exists>s s' r. ept_map_page demo_root 0 0x40000000 0x200000 0x37 demo_kmem = Some s \<and>
     ept_map_page demo_root 0 0x80000000 0x200000 0x37 demo_kmem = Some s' \<and>
     ept_gpa_to_hpa demo_root 0 s = Inr r \<and> ept_gpa_to_hpa demo_root 0 s' = Inr r"
proof -
  have "(0x37 :: u64) AND EPT_RWX \<noteq> 0" by (simp add: ept_bits)
  from ept_2mb_ignores_hpa [OF demo_tree demo_room this, of 0] show ?thesis by simp blast
qed

end
