(* ===== verification/Kernel_Map.thy ===== *)
theory Kernel_Map
  imports Paging
begin

text \<open>
  The kernel's own page tables: \<^verbatim>\<open>map_kernel_memory\<close> of \<^verbatim>\<open>entry.c\<close> and the
  page-fault path of \<^verbatim>\<open>arch/x86_64/mm/fault.c\<close>, with the processor's 4-level walk
  (Intel SDM volume 3, 4.5) as the specification they are held against.
\<close>

section \<open>Code\<close>

definition PG_CACHE_WT :: u64 where "PG_CACHE_WT = push_bit 3 1"
definition PG_CACHE_DISABLE :: u64 where "PG_CACHE_DISABLE = push_bit 4 1"
definition PG_PDPTE_1GB_GLOBAL :: u64 where "PG_PDPTE_1GB_GLOBAL = push_bit 8 1"
definition PG_PDPTE_1GB_PAT :: u64 where "PG_PDPTE_1GB_PAT = push_bit 12 1"
definition SIZE_1GB :: u64 where "SIZE_1GB = 0x40000000"

text \<open>The boot processor's branch of \<^verbatim>\<open>map_kernel_memory\<close>: the value of
  \<^verbatim>\<open>kernel_pt_phys\<close> it leaves, and the memory. Neither pointer is tested, so a failed
  allocation writes at address 0, which is \<^verbatim>\<open>None\<close>.\<close>

definition map_kernel_memory :: "kmem \<Rightarrow> (u64 \<times> kmem) option" where
  "map_kernel_memory s = do {
     (pml4t, s) \<leftarrow> alloc_zeroed_page s;
     let pml4t_phys = VIRT2PHYS pml4t;
     let kernel_pt_phys = pml4t_phys;
     (pdpt, b) \<leftarrow> kmalloc 0x1000 0 (km_boot s);
     let s = s\<lparr>km_boot := b\<rparr>;
     if pdpt = 0 then None else do {
       let pdpt_phys = VIRT2PHYS pdpt;
       let page_attr = PG_PRESENT OR PG_READ_WRITE OR PG_SUPERVISOR OR PG_CACHE_WT;
       let s = write_pg pml4t 0 0 s;
       let s = write_pg pml4t 0x100 (pdpt_phys OR page_attr) s;
       let page_attr = PG_PRESENT OR PG_READ_WRITE OR PG_SUPERVISOR OR PG_LARGE_PAGE OR
             PG_PDPTE_1GB_PAT OR PG_PDPTE_1GB_GLOBAL;
       let s = fold (\<lambda>i s. if i = 3
             then write_pg pdpt (of_nat i) (of_nat i * SIZE_1GB OR (page_attr OR PG_CACHE_DISABLE)) s
             else write_pg pdpt (of_nat i) (of_nat i * SIZE_1GB OR page_attr) s) [0..<512] s;
       Some (kernel_pt_phys, s)
     }
   }"

text \<open>One level of \<^verbatim>\<open>alloc_new_page\<close>: an entry without an address gets a fresh zeroed
  table; the result is the entry as it is read afterwards.\<close>

definition fault_next_entry :: "u64 \<Rightarrow> u64 \<Rightarrow> kmem \<Rightarrow> (u64 \<times> kmem) option" where
  "fault_next_entry table index s =
     (let e = read_pg table index s
      in if PT_ENTRY_ADDR e = 0 then do {
           (ptr, s) \<leftarrow> alloc_zeroed_page s;
           let s = write_pg table index (VIRT2PHYS ptr OR PG_PRESENT OR PG_READ_WRITE OR PG_USER) s;
           Some (read_pg table index s, s)
         } else Some (e, s))"

definition alloc_new_page :: "u64 \<Rightarrow> u64 \<Rightarrow> int \<Rightarrow> int \<Rightarrow> bool \<Rightarrow> bool \<Rightarrow> kmem \<Rightarrow> (int \<times> kmem) option" where
  "alloc_new_page cr3 addr page_size cpl rd_only xd s = do {
     let attr = (if cpl = 0 then PG_SUPERVISOR else PG_USER) OR
                (if \<not> rd_only then PG_READ_WRITE else PG_READ_ONLY) OR
                (if xd then PG_PT_EXECUTE_DISABLE else 0);
     let index1 = PML4T_INDEX addr;
     let index2 = PDPT_INDEX addr;
     let index3 = PD_INDEX addr;
     let index4 = PT_INDEX addr;
     let pml4t = PHYS2VIRT (PT_ENTRY_ADDR cr3);
     (pml4e, s) \<leftarrow> fault_next_entry pml4t index1 s;
     let pdpt = PHYS2VIRT (PT_ENTRY_ADDR pml4e);
     if PT_ENTRY_ADDR (read_pg pdpt index2 s) = 0 \<and> page_size = 0x40000000 then do {
       (ptr, b) \<leftarrow> kmalloc 0x40000000 0 (km_boot s);
       let s = s\<lparr>km_boot := b\<rparr>;
       Some (0, write_pg pdpt index2 (VIRT2PHYS ptr OR PG_PRESENT OR PG_LARGE_PAGE OR attr) s)
     } else do {
       (pdpte, s) \<leftarrow> fault_next_entry pdpt index2 s;
       let pdt = PHYS2VIRT (PT_ENTRY_ADDR pdpte);
       if PT_ENTRY_ADDR (read_pg pdt index3 s) = 0 \<and> page_size = 0x200000 then do {
         (ptr, b) \<leftarrow> kmalloc 0x200000 0 (km_boot s);
         let s = s\<lparr>km_boot := b\<rparr>;
         Some (0, write_pg pdt index3 (VIRT2PHYS ptr OR PG_PRESENT OR PG_LARGE_PAGE OR attr) s)
       } else do {
         (pde, s) \<leftarrow> fault_next_entry pdt index3 s;
         let pt = PHYS2VIRT (PT_ENTRY_ADDR pde);
         let pte = read_pg pt index4 s;
         if PT_ENTRY_ADDR pte = 0 then do {
           (ptr, s) \<leftarrow> alloc_zeroed_page s;
           Some (0, write_pg pt index4 (VIRT2PHYS ptr OR PG_PRESENT OR attr) s)
         } else Some (0, s)
       }
     }
   }"

definition address_check :: "u64 \<Rightarrow> int \<Rightarrow> int" where
  "address_check addr cpl =
     (if cpl \<noteq> 0 \<and> addr < VIRT2PHYS addr then - EINVAL
      else if addr = 0xffffffff00000000 then - EINVAL
      else 0)"

section \<open>The processor's walk\<close>

text \<open>Cells are indexed by virtual address, so the cell of a physical address is at
  \<^verbatim>\<open>PHYS2VIRT\<close> of it.\<close>

definition hw_walk :: "u64 \<Rightarrow> u64 \<Rightarrow> kmem \<Rightarrow> u64 option" where
  "hw_walk cr3 va s =
     (let e4 = read_pg (PHYS2VIRT (PT_ENTRY_ADDR cr3)) (PML4T_INDEX va) s
      in if \<not> bit e4 0 then None
      else let e3 = read_pg (PHYS2VIRT (PT_ENTRY_ADDR e4)) (PDPT_INDEX va) s
      in if \<not> bit e3 0 then None
      else if bit e3 7 then Some ((e3 AND 0x000fffffc0000000) OR (va AND mask 30))
      else let e2 = read_pg (PHYS2VIRT (PT_ENTRY_ADDR e3)) (PD_INDEX va) s
      in if \<not> bit e2 0 then None
      else if bit e2 7 then Some ((e2 AND 0x000fffffffe00000) OR (va AND mask 21))
      else let e1 = read_pg (PHYS2VIRT (PT_ENTRY_ADDR e2)) (PT_INDEX va) s
      in if \<not> bit e1 0 then None
      else Some ((e1 AND 0x000ffffffffff000) OR (va AND mask 12)))"

lemma fold_pdpt_read:
  assumes "f < LIMIT_PAGES" "i < 512" "n \<le> 512"
  shows "read_pg (frame f) i (fold (\<lambda>k. write_pg (frame f) (of_nat k) (v k)) [0..<n] s) =
     (if unat i < n then v (unat i) else read_pg (frame f) i s)"
  using assms
proof (induction n)
  case (Suc n)
  then have "(of_nat n :: u64) < 512" "(of_nat n :: u64) = i \<longleftrightarrow> unat i = n"
    by (auto simp: word_less_nat_alt unat_of_nat take_bit_nat_eq_self word_unat_eq_iff)
  then have "frame f + 8 * i = frame f + 8 * of_nat n \<longleftrightarrow> unat i = n"
    using Suc.prems cell_inject [of f f i "of_nat n"] by metis
  then show ?case
    using Suc by (simp only: fold_append upt_Suc_append fold.simps o_def id_def read_write_pg zero_le) auto
qed simp

lemma fold_read_other:
  assumes "g < LIMIT_PAGES" "f < LIMIT_PAGES" "g \<noteq> f" "i < 512" "n \<le> 512"
  shows "read_pg (frame g) i (fold (\<lambda>k. write_pg (frame f) (of_nat k) (v k)) [0..<n] s) = read_pg (frame g) i s"
  using assms
proof (induction n)
  case (Suc n)
  then have "(of_nat n :: u64) < 512"
    by (auto simp: word_less_nat_alt unat_of_nat take_bit_nat_eq_self)
  then have "frame g + 8 * i \<noteq> frame f + 8 * of_nat n"
    using Suc.prems cell_inject [of g f i "of_nat n"] by metis
  then show ?case
    using Suc by (simp only: fold_append upt_Suc_append fold.simps o_def id_def read_write_pg zero_le) auto
qed simp

section \<open>The linear map\<close>

lemma bit_KERNEL_SPACE: "bit KERNEL_SPACE n \<longleftrightarrow> 47 \<le> n \<and> n < 64"
proof -
  have "KERNEL_SPACE = push_bit 47 (mask 17)"
    by (simp add: KERNEL_SPACE_def mask_eq_exp_minus_1 push_bit_eq_mult)
  show ?thesis
    unfolding \<open>KERNEL_SPACE = _\<close> bit_push_bit_iff bit_mask_iff by (auto simp: possible_bit_def)
qed

lemma low_bits: "p < 2 ^ 39 \<Longrightarrow> bit (p :: u64) n \<Longrightarrow> n < 39"
proof (rule ccontr)
  assume a: "p < 2 ^ 39" "bit p n" "\<not> n < 39"
  have "unat p < 2 ^ 39" using a(1) by (simp add: word_less_nat_alt)
  then have "p AND mask 39 = p" by (simp add: word_unat_eq_iff unat_and_mask)
  then show False using a(2,3) by (metis bit_and_iff bit_mask_iff)
qed

lemma bit_PHYS2VIRT:
  assumes "p < 2 ^ 39" shows "bit (PHYS2VIRT p) n \<longleftrightarrow> bit p n \<or> 47 \<le> n \<and> n < 64"
proof -
  have "PHYS2VIRT p = p OR KERNEL_SPACE"
    unfolding PHYS2VIRT_def
    by (rule disjunctive_add) (use low_bits [OF assms] in \<open>fastforce simp: bit_KERNEL_SPACE\<close>)
  then show ?thesis by (simp add: bit_or_iff bit_KERNEL_SPACE)
qed

lemma linear_indices:
  assumes "p < 2 ^ 39"
  shows "PML4T_INDEX (PHYS2VIRT p) = 0x100" "PDPT_INDEX (PHYS2VIRT p) = drop_bit 30 p"
    "PHYS2VIRT p AND mask 30 = p AND mask 30"
proof -
  have m: "(0x1ff :: u64) = mask 9" by (simp add: mask_eq_exp_minus_1)
  have h: "bit (0x100 :: u64) n \<longleftrightarrow> n = 8" for n
  proof -
    have "(0x100 :: u64) = push_bit 8 1" by simp
    show ?thesis
      unfolding \<open>0x100 = push_bit 8 1\<close> bit_push_bit_iff bit_1_iff by (auto simp: possible_bit_def)
  qed
  have low30: "n < 9" if "bit p (30 + n)" for n using low_bits [OF assms that] by simp
  have low: "\<not> bit p (39 + n)" for n using low_bits [OF assms, of "39 + n"] by auto
  show "PML4T_INDEX (PHYS2VIRT p) = 0x100"
    unfolding PML4T_INDEX_def m
    by (rule bit_word_eqI)
      (auto simp: h low bit_PHYS2VIRT [OF assms] bit_and_iff bit_drop_bit_eq bit_mask_iff
          simp del: bit_numeral_word_iff)
  show "PDPT_INDEX (PHYS2VIRT p) = drop_bit 30 p"
    unfolding PDPT_INDEX_def m
    by (rule bit_word_eqI)
      (auto simp: low30 bit_PHYS2VIRT [OF assms] bit_and_iff bit_drop_bit_eq bit_mask_iff)
  show "PHYS2VIRT p AND mask 30 = p AND mask 30"
    by (rule bit_word_eqI) (auto simp: bit_PHYS2VIRT [OF assms] bit_and_iff bit_mask_iff)
qed

text \<open>The state \<^verbatim>\<open>map_kernel_memory\<close> leaves, when it can allocate its two tables.\<close>

lemma map_kernel_memory_tables:
  assumes "room (km_boot s) 2"
  obtains f g s' where "map_kernel_memory s = Some (page_addr f, s')" "f < LIMIT_PAGES" "g < LIMIT_PAGES"
    "\<And>i. i < 512 \<Longrightarrow> read_pg (frame f) i s' = (if i = 0x100 then page_addr g OR 0xb else 0)"
    "\<And>i. i < 512 \<Longrightarrow> read_pg (frame g) i s' = i * SIZE_1GB OR (if i = 3 then 0x1193 else 0x1183)"
proof -
  have "room (km_boot s) (Suc 1)" using assms by (simp add: eval_nat_numeral)
  from alloc_zeroed_page [OF this] obtain f s1 where
    f: "alloc_zeroed_page s = Some (frame f, s1)" "f < LIMIT_PAGES" "\<not> page_used (km_boot s) f"
      "\<And>p. p < LIMIT_PAGES \<Longrightarrow> page_used (km_boot s1) p \<longleftrightarrow> page_used (km_boot s) p \<or> p = f"
      "room (km_boot s1) 1" "km_invept s1 = km_invept s"
      "\<And>q i. q < LIMIT_PAGES \<Longrightarrow> i < 512 \<Longrightarrow>
         read_pg (frame q) i s1 = (if q = f then 0 else read_pg (frame q) i s)" by blast
  have "room (km_boot s1) (Suc 0)" using f(5) by simp
  from kmalloc_page [OF this] obtain g b where
    g: "kmalloc 0x1000 0 (km_boot s1) = Some (frame g, b)" "g < LIMIT_PAGES" "\<not> page_used (km_boot s1) g"
      "frame g \<noteq> 0" by blast
  have "page_used (km_boot s1) f" using f(4) [OF f(2)] by blast
  with g(3) have ne: "g \<noteq> f" by blast
  define v where "v = (\<lambda>i. if i = 3 then of_nat i * SIZE_1GB OR (0x1183 OR PG_CACHE_DISABLE) else of_nat i * SIZE_1GB OR 0x1183)"
  define s2 where "s2 = write_pg (frame f) 0x100 (page_addr g OR 0xb) (write_pg (frame f) 0 0 (s1\<lparr>km_boot := b\<rparr>))"
  define s' where "s' = fold (\<lambda>k. write_pg (frame g) (of_nat k) (v k)) [0..<512] s2"
  have s2: "read_pg (frame f) i s2 = (if i = 0x100 then page_addr g OR 0xb else 0)" if "i < 512" for i
    using cell_inject [OF f(2) f(2) that, of "0x100"] cell_inject [OF f(2) f(2) that, of 0] f(7) [OF f(2) that]
    unfolding s2_def read_write_pg by auto
  have "(\<lambda>i s. if i = 3 then write_pg (frame g) (of_nat i) (of_nat i * SIZE_1GB OR (0x1183 OR PG_CACHE_DISABLE)) s
             else write_pg (frame g) (of_nat i) (of_nat i * SIZE_1GB OR 0x1183) s) =
        (\<lambda>k. write_pg (frame g) (of_nat k) (v k))"
    by (auto simp: fun_eq_iff v_def)
  moreover have "VIRT2PHYS (frame q) = page_addr q" for q by (simp add: frame_def)
  moreover have "PG_PRESENT OR PG_READ_WRITE OR PG_SUPERVISOR OR PG_CACHE_WT = 0xb"
    "PG_PRESENT OR PG_READ_WRITE OR PG_SUPERVISOR OR PG_LARGE_PAGE OR PG_PDPTE_1GB_PAT OR
       PG_PDPTE_1GB_GLOBAL = 0x1183"
    by (simp_all add: PG_PRESENT_def PG_READ_WRITE_def PG_SUPERVISOR_def PG_CACHE_WT_def
        PG_LARGE_PAGE_def PG_PDPTE_1GB_PAT_def PG_PDPTE_1GB_GLOBAL_def)
  ultimately have run: "map_kernel_memory s = Some (page_addr f, s')"
    using f(1) g(1,4) by (simp add: map_kernel_memory_def Let_def s'_def s2_def)
  show thesis
  proof (rule that [OF run f(2) g(2)])
    fix i :: u64 assume i: "i < 512"
    show "read_pg (frame f) i s' = (if i = 0x100 then page_addr g OR 0xb else 0)"
      using fold_read_other [OF f(2) g(2) ne [symmetric] i, of 512 v s2] s2 [OF i] by (simp add: s'_def)
    have "unat i < 512" using i by (simp add: word_less_nat_alt)
    moreover have "unat i = 3 \<longleftrightarrow> i = 3" by (simp add: word_unat_eq_iff)
    ultimately show "read_pg (frame g) i s' = i * SIZE_1GB OR (if i = 3 then 0x1193 else 0x1183)"
      using fold_pdpt_read [OF g(2) i, of 512 v s2] by (simp add: s'_def v_def PG_CACHE_DISABLE_def)
  qed
qed

lemma linear_entry:
  assumes "p < 2 ^ 39" "m < 0x2000" "bit m 0" "bit m 7"
  defines "e \<equiv> drop_bit 30 p * SIZE_1GB OR m"
  shows "bit e 0" "bit e 7" "(e AND 0x000fffffc0000000) OR (p AND mask 30) = p"
proof -
  have "drop_bit 30 p * SIZE_1GB = push_bit 30 (drop_bit 30 p)"
    by (simp add: SIZE_1GB_def push_bit_eq_mult)
  then have e: "e = push_bit 30 (drop_bit 30 p) OR m" by (simp add: e_def)
  show "bit e 0" "bit e 7" using assms(3,4) by (simp_all add: e bit_or_iff)
  have m: "n < 13" if "bit m n" for n
  proof (rule ccontr)
    assume "\<not> n < 13"
    have "unat m < 2 ^ 13" using assms(2) by (simp add: word_less_nat_alt)
    then have "m AND mask 13 = m" by (simp add: word_unat_eq_iff unat_and_mask)
    then show False using that \<open>\<not> n < 13\<close> by (metis bit_and_iff bit_mask_iff)
  qed
  have k: "(0x000fffffc0000000 :: u64) = push_bit 30 (mask 22)"
    by (simp add: mask_eq_exp_minus_1 push_bit_eq_mult)
  show "(e AND 0x000fffffc0000000) OR (p AND mask 30) = p"
    unfolding e k
  proof (rule bit_word_eqI)
    fix n assume "n < LENGTH(64)"
    then show "bit (((push_bit 30 (drop_bit 30 p) OR m) AND push_bit 30 (mask 22)) OR (p AND mask 30)) n
        \<longleftrightarrow> bit p n"
      using m [of n] low_bits [OF assms(1), of n]
      by (auto simp: bit_or_iff bit_and_iff bit_push_bit_iff bit_drop_bit_eq bit_mask_iff possible_bit_def)
  qed
qed

section \<open>Properties\<close>

text \<open>C17. The kernel's linear map: with two free pages \<^verbatim>\<open>map_kernel_memory\<close> succeeds, and
  under the root it leaves the processor translates \<^verbatim>\<open>PHYS2VIRT p\<close> to \<^verbatim>\<open>p\<close> for every
  physical address below 512GB, while every address outside that 512GB window is unmapped.\<close>

theorem map_kernel_memory_linear:
  assumes "room (km_boot s) 2"
  shows "\<exists>cr3 s'. map_kernel_memory s = Some (cr3, s') \<and>
     (\<forall>p < 2 ^ 39. hw_walk cr3 (PHYS2VIRT p) s' = Some p) \<and>
     (\<forall>va. PML4T_INDEX va \<noteq> 0x100 \<longrightarrow> hw_walk cr3 va s' = None)"
proof (rule map_kernel_memory_tables [OF assms])
  fix f g s'
  assume t: "map_kernel_memory s = Some (page_addr f, s')" "f < LIMIT_PAGES" "g < LIMIT_PAGES"
      "\<And>i. i < 512 \<Longrightarrow> read_pg (frame f) i s' = (if i = 0x100 then page_addr g OR 0xb else 0)"
      "\<And>i. i < 512 \<Longrightarrow> read_pg (frame g) i s' = i * SIZE_1GB OR (if i = 3 then 0x1193 else 0x1183)"
  have root: "PHYS2VIRT (PT_ENTRY_ADDR (page_addr f)) = frame f"
    and dir: "PHYS2VIRT (PT_ENTRY_ADDR (page_addr g OR 0xb)) = frame g" "bit (page_addr g OR 0xb) 0"
  proof -
    have clear: "PT_ENTRY_ADDR (page_addr q OR m) = page_addr q" if "m < 0x1000" for q m
    proof (rule bit_word_eqI)
      fix n assume "n < LENGTH(64)"
      then show "bit (PT_ENTRY_ADDR (page_addr q OR m)) n \<longleftrightarrow> bit (page_addr q) n"
        unfolding PT_ENTRY_ADDR_def numeral_mask
        using page_addr_low [of n q] small_bits [OF that, of n] by (cases "n < 12") (auto simp: bit_simps)
    qed
    from clear [of 0 f] show "PHYS2VIRT (PT_ENTRY_ADDR (page_addr f)) = frame f" by (simp add: frame_def)
    from clear [of "0xb" g] show "PHYS2VIRT (PT_ENTRY_ADDR (page_addr g OR 0xb)) = frame g" by (simp add: frame_def)
    show "bit (page_addr g OR 0xb) 0" by (simp add: bit_or_iff)
  qed
  have "hw_walk (page_addr f) (PHYS2VIRT p) s' = Some p" if "p < 2 ^ 39" for p
  proof -
    let ?e = "drop_bit 30 p * SIZE_1GB OR (if drop_bit 30 p = 3 then 0x1193 else 0x1183)"
    have lt: "drop_bit 30 p < 512"
      using that by (simp add: word_less_nat_alt unat_drop_bit less_mult_imp_div_less)
    then have "read_pg (frame g) (drop_bit 30 p) s' = ?e" by (rule t(5))
    moreover have "bit ?e 0" "bit ?e 7" "(?e AND 0x000fffffc0000000) OR (p AND mask 30) = p"
      using linear_entry [OF that] by (simp_all split: if_splits)
    ultimately show ?thesis
      using root dir t(4) [of "0x100"] linear_indices [OF that] by (simp add: hw_walk_def Let_def)
  qed
  moreover have "hw_walk (page_addr f) va s' = None" if "PML4T_INDEX va \<noteq> 0x100" for va
    using that root t(4) [OF index_bound(1) [of va]] by (simp add: hw_walk_def Let_def)
  ultimately show ?thesis using t(1) by blast
qed

text \<open>\<^verbatim>\<open>address_check\<close> is the wrong way round for user code: outside ring 0 it
  accepts exactly the addresses of the kernel half (but one) and rejects the whole user half,
  which is what makes a user page fault below \<^verbatim>\<open>KERNEL_SPACE\<close> kill the task.\<close>

theorem address_check_user:
  assumes "cpl \<noteq> 0"
  shows "address_check addr cpl = 0 \<longleftrightarrow> KERNEL_SPACE \<le> addr \<and> addr \<noteq> 0xffffffff00000000"
proof -
  have "unat (KERNEL_SPACE) \<noteq> 0" by (simp add: KERNEL_SPACE_def)
  then have "addr < VIRT2PHYS addr \<longleftrightarrow> \<not> KERNEL_SPACE \<le> addr"
    using unsigned_less [of KERNEL_SPACE, where ?'a = nat]
    by (auto simp: VIRT2PHYS_def word_less_nat_alt word_le_nat_alt unat_sub_if')
  then show ?thesis using assms by (simp add: address_check_def errno_defs)
qed

section \<open>Witnesses\<close>

lemma map_kernel_memory_linear_witness:
  "\<exists>cr3 s. map_kernel_memory demo_kmem = Some (cr3, s) \<and>
     hw_walk cr3 0xffff8000fee00000 s = Some 0xfee00000 \<and> hw_walk cr3 0x400000 s = None"
proof -
  obtain cr3 s where s: "map_kernel_memory demo_kmem = Some (cr3, s)"
    "\<forall>p < 2 ^ 39. hw_walk cr3 (PHYS2VIRT p) s = Some p"
    "\<forall>va. PML4T_INDEX va \<noteq> 0x100 \<longrightarrow> hw_walk cr3 va s = None"
    using map_kernel_memory_linear [OF demo_room] by auto
  have "PHYS2VIRT 0xfee00000 = 0xffff8000fee00000" by (simp add: PHYS2VIRT_def KERNEL_SPACE_def)
  then have "hw_walk cr3 0xffff8000fee00000 s = Some 0xfee00000"
    using s(2) [rule_format, of "0xfee00000"] by simp
  moreover have "PML4T_INDEX 0x400000 \<noteq> 0x100" by (simp add: PML4T_INDEX_def)
  ultimately show ?thesis using s(1,3) by blast
qed

lemma address_check_user_witness:
  "address_check 0x400000 3 \<noteq> 0 \<and> address_check 0xffff800000400000 3 = 0"
  using address_check_user [of 3 "0x400000"] address_check_user [of 3 "0xffff800000400000"]
  by (simp add: KERNEL_SPACE_def)

end
