(* ===== verification/Nodes.thy ===== *)
theory Nodes
  imports Bitmap Bootmem Kernel_List
begin

text \<open>
  NUMA nodes, their processors and their memory zones: \<^verbatim>\<open>mm/mm.c\<close>,
  \<^verbatim>\<open>kernel/cpu.c\<close> and \<^verbatim>\<open>arch/x86_64/mm/numa.c\<close>. Objects live in heaps
  indexed by their address; a \<^verbatim>\<open>list_head\<close> that is only walked and appended to is the list
  of its members (the refinement of \<^verbatim>\<open>Kernel_List\<close>), so
  \<^verbatim>\<open>INIT_LIST_HEAD\<close> is the empty list.
\<close>

section \<open>State\<close>

record zone =
  z_page_size :: u64
  z_start_pfn :: u64
  z_pfn_cnt :: u64

record irq_action =
  act_handler :: u64
  act_data :: u64

record irq_desc =
  desc_count :: u32
  irq_action_list :: "irq_action list"

record cpu =
  cpu_index :: u64
  cpu_id :: u64
  cpu_status :: u64
  cpu_irq_stack :: u64
  cpu_tmp_stack :: u64
  irq_nr :: u32
  irq_bitmap :: bitmap
  irq_descs :: "nat \<Rightarrow> irq_desc"

record node =
  socket_id :: u64
  zone_list :: "u64 list"
  cpu_list :: "u64 list"

record kstate =
  ks_boot :: bootmem
  nodes :: "u64 \<Rightarrow> node"
  zones :: "u64 \<Rightarrow> zone"
  cpus :: "u64 \<Rightarrow> cpu"
  node_list :: "u64 list"
  nr_cpus :: u64

definition CPU_STATUS_OFFLINE :: u64 where "CPU_STATUS_OFFLINE = 0"
definition CPU_STATUS_IDLE :: u64 where "CPU_STATUS_IDLE = 1"
definition CPU_STATUS_IRQ_CONTEXT :: u64 where "CPU_STATUS_IRQ_CONTEXT = 3"

section \<open>Nodes\<close>

definition upd_node :: "u64 \<Rightarrow> (node \<Rightarrow> node) \<Rightarrow> kstate \<Rightarrow> kstate" where
  "upd_node n f s = s\<lparr>nodes := (nodes s)(n := f (nodes s n))\<rparr>"

definition upd_cpu :: "u64 \<Rightarrow> (cpu \<Rightarrow> cpu) \<Rightarrow> kstate \<Rightarrow> kstate" where
  "upd_cpu c f s = s\<lparr>cpus := (cpus s)(c := f (cpus s c))\<rparr>"

definition upd_zone :: "u64 \<Rightarrow> (zone \<Rightarrow> zone) \<Rightarrow> kstate \<Rightarrow> kstate" where
  "upd_zone z f s = s\<lparr>zones := (zones s)(z := f (zones s z))\<rparr>"

definition mm_node_init :: "u64 \<Rightarrow> kstate \<Rightarrow> kstate" where
  "mm_node_init node s =
     (let s = s\<lparr>node_list := []\<rparr>;
          s = upd_node node (cpu_list_update (\<lambda>_. [])) s
      in upd_node node (zone_list_update (\<lambda>_. [])) s)"

definition mm_node_register :: "u64 \<Rightarrow> kstate \<Rightarrow> kstate" where
  "mm_node_register node s = s\<lparr>node_list := node_list s @ [node]\<rparr>"

text \<open>\<^verbatim>\<open>None\<close> is the NULL pointer.\<close>

definition mm_get_node_by_id :: "u64 \<Rightarrow> kstate \<Rightarrow> u64 option" where
  "mm_get_node_by_id nid s = find (\<lambda>n. socket_id (nodes s n) = nid) (node_list s)"

section \<open>Zones\<close>

text \<open>The loop over the zones of a node: \<^verbatim>\<open>Some\<close> when a zone was extended.\<close>

fun mm_zone_merge :: "zone \<Rightarrow> u64 list \<Rightarrow> kstate \<Rightarrow> kstate option" where
  "mm_zone_merge z [] s = None"
| "mm_zone_merge z (p # ps) s =
     (let zp = zones s p in
      if z_start_pfn zp + z_pfn_cnt zp = z_start_pfn z
      then Some (upd_zone p (z_pfn_cnt_update (\<lambda>c. c + z_pfn_cnt z)) s)
      else if z_start_pfn z + z_pfn_cnt z = z_start_pfn zp
      then Some (upd_zone p (z_pfn_cnt_update (\<lambda>c. c + z_pfn_cnt z))
                  (upd_zone p (z_start_pfn_update (\<lambda>_. z_start_pfn z)) s))
      else mm_zone_merge z ps s)"

definition mm_zone_register :: "u64 \<Rightarrow> u64 \<Rightarrow> kstate \<Rightarrow> kstate" where
  "mm_zone_register node zone s =
     (case mm_zone_merge (zones s zone) (zone_list (nodes s node)) s of
        Some s' \<Rightarrow> s'
      | None \<Rightarrow> upd_node node (zone_list_update (\<lambda>l. l @ [zone])) s)"

section \<open>Processors\<close>

text \<open>The allocations; \<^verbatim>\<open>struct cpu\<close>, \<^verbatim>\<open>struct node\<close> and
  \<^verbatim>\<open>struct zone\<close> have the sizes the compiler gives them on x86-64.\<close>

definition SIZEOF_CPU :: u64 where "SIZEOF_CPU = 152"
definition SIZEOF_NODE :: u64 where "SIZEOF_NODE = 56"
definition SIZEOF_ZONE :: u64 where "SIZEOF_ZONE = 1624"

definition ks_kmalloc :: "u64 \<Rightarrow> kstate \<Rightarrow> (u64 \<times> kstate) option" where
  "ks_kmalloc sz s = do { (v, b) \<leftarrow> kmalloc sz 0 (ks_boot s); Some (v, s\<lparr>ks_boot := b\<rparr>) }"

definition register_cpu_local :: "u64 \<Rightarrow> u64 \<Rightarrow> kstate \<Rightarrow> (int \<times> kstate) option" where
  "register_cpu_local arch_cpuid node s = do {
     (cpu, s) \<leftarrow> ks_kmalloc SIZEOF_CPU s;
     if cpu = 0 then Some (- 2, s)
     else do {
       let s = upd_cpu cpu (cpu_index_update (\<lambda>_. nr_cpus s)) (s\<lparr>nr_cpus := nr_cpus s + 1\<rparr>);
       let s = upd_cpu cpu (cpu_id_update (\<lambda>_. arch_cpuid)) s;
       Some (0, upd_node node (cpu_list_update (\<lambda>l. l @ [cpu])) s)
     }
   }"

definition register_cpu_remote :: "u64 \<Rightarrow> u64 \<Rightarrow> kstate \<Rightarrow> (int \<times> kstate) option" where
  "register_cpu_remote apic node s = do {
     (cpu, s) \<leftarrow> ks_kmalloc SIZEOF_CPU s;
     if cpu = 0 then Some (- 2, s)
     else do {
       let s = upd_cpu cpu (cpu_index_update (\<lambda>_. nr_cpus s)) (s\<lparr>nr_cpus := nr_cpus s + 1\<rparr>);
       let s = upd_cpu cpu (cpu_id_update (\<lambda>_. apic)) s;
       let s = upd_cpu cpu (cpu_status_update (\<lambda>_. 0)) s;
       Some (0, upd_node node (cpu_list_update (\<lambda>l. l @ [cpu])) s)
     }
   }"

text \<open>The processors in the order the nested loops of the kernel visit them.\<close>

definition all_cpus :: "kstate \<Rightarrow> u64 list" where
  "all_cpus s = concat (map (\<lambda>n. cpu_list (nodes s n)) (node_list s))"

definition get_cpu :: "u64 \<Rightarrow> kstate \<Rightarrow> u64 option" where
  "get_cpu arch_cpuid s = find (\<lambda>c. cpu_id (cpus s c) = arch_cpuid) (all_cpus s)"

text \<open>\<^verbatim>\<open>index\<close> is an \<^verbatim>\<open>int\<close>, sign-extended for the comparison.\<close>

definition get_cpu_by_index :: "u32 \<Rightarrow> kstate \<Rightarrow> u64 option" where
  "get_cpu_by_index index s = find (\<lambda>c. cpu_index (cpus s c) = scast index) (all_cpus s)"

definition get_irq_stack :: "u64 \<Rightarrow> kstate \<Rightarrow> u64 option" where
  "get_irq_stack arch_cpuid s = map_option (\<lambda>c. cpu_irq_stack (cpus s c)) (get_cpu arch_cpuid s)"

definition save_tmp_stack :: "u64 \<Rightarrow> u64 \<Rightarrow> kstate \<Rightarrow> kstate option" where
  "save_tmp_stack arch_cpuid sp s =
     map_option (\<lambda>c. upd_cpu c (cpu_tmp_stack_update (\<lambda>_. sp)) s) (get_cpu arch_cpuid s)"

definition get_tmp_stack :: "u64 \<Rightarrow> kstate \<Rightarrow> u64 option" where
  "get_tmp_stack arch_cpuid s = map_option (\<lambda>c. cpu_tmp_stack (cpus s c)) (get_cpu arch_cpuid s)"

section \<open>Topology tables\<close>

text \<open>
  The SRAT and MADT are walked in memory; \<^verbatim>\<open>entry_at\<close> gives the subtable at an address.
  A length of zero makes the walk stay where it is, so the loops are partial.
\<close>

datatype srat_entry =
    Srat_cpu (srat_len: u8) (srat_flags: u32) (srat_domain_lo: u8) (srat_apic_id: u8)
  | Srat_mem (srat_len: u8) (srat_domain: u32) (srat_base: u64) (srat_mem_length: u64)
  | Srat_other (srat_len: u8)

datatype madt_entry =
    Madt_lapic (madt_len: u8) (madt_flags: u32) (madt_apic_id: u8)
  | Madt_other (madt_len: u8)

text \<open>\<^verbatim>\<open>node = kmalloc(...); mm_node_init(node); node->socket_id = id;
  mm_node_register(node)\<close>; a NULL node is written through, which faults.\<close>

definition numa_new_node :: "u64 \<Rightarrow> kstate \<Rightarrow> (u64 \<times> kstate) option" where
  "numa_new_node dmn s = do {
     (node, s) \<leftarrow> ks_kmalloc SIZEOF_NODE s;
     if node = 0 then None
     else do {
       let s = mm_node_init node s;
       let s = upd_node node (socket_id_update (\<lambda>_. dmn)) s;
       Some (node, mm_node_register node s)
     }
   }"

definition numa_new_zone :: "u64 \<Rightarrow> u64 \<Rightarrow> u64 \<Rightarrow> kstate \<Rightarrow> kstate option" where
  "numa_new_zone node base len s = do {
     (zone, s) \<leftarrow> ks_kmalloc SIZEOF_ZONE s;
     if zone = 0 then None
     else do {
       let s = upd_zone zone (z_start_pfn_update (\<lambda>_. base)) s;
       let s = upd_zone zone (z_pfn_cnt_update (\<lambda>_. len)) s;
       Some (mm_zone_register node zone s)
     }
   }"

text \<open>The body of the switch for one subtable. \<^verbatim>\<open>node_bitmap\<close> has 64 elements; a larger
  domain number indexes behind it and is \<^verbatim>\<open>None\<close>.\<close>

definition numa_srat_entry ::
    "srat_entry \<Rightarrow> (nat \<Rightarrow> bool) \<Rightarrow> kstate \<Rightarrow> ((nat \<Rightarrow> bool) \<times> kstate) option" where
  "numa_srat_entry e node_bitmap s =
     (case e of
        Srat_cpu len flags dmn apic \<Rightarrow>
          if flags AND 1 \<noteq> 0 then
            if 64 \<le> unat dmn then None
            else if \<not> node_bitmap (unat dmn) then do {
              (node, s) \<leftarrow> numa_new_node (ucast dmn) s;
              (_, s) \<leftarrow> register_cpu_remote (ucast apic) node s;
              Some (node_bitmap(unat dmn := True), s)
            } else (case mm_get_node_by_id (ucast dmn) s of
                None \<Rightarrow> Some (node_bitmap, s)
              | Some node \<Rightarrow> do {
                  (_, s) \<leftarrow> register_cpu_remote (ucast apic) node s;
                  Some (node_bitmap, s)
                })
          else Some (node_bitmap, s)
      | Srat_mem len dmn base mlen \<Rightarrow>
          if mlen \<noteq> 0 then
            if 64 \<le> unat dmn then None
            else if \<not> node_bitmap (unat dmn) then do {
              (node, s) \<leftarrow> numa_new_node (ucast dmn) s;
              s \<leftarrow> numa_new_zone node base mlen s;
              Some (node_bitmap(unat dmn := True), s)
            } else (case mm_get_node_by_id (ucast dmn) s of
                None \<Rightarrow> Some (node_bitmap, s)
              | Some node \<Rightarrow> do {
                  s \<leftarrow> numa_new_zone node base mlen s;
                  Some (node_bitmap, s)
                })
          else Some (node_bitmap, s)
      | Srat_other len \<Rightarrow> Some (node_bitmap, s))"

partial_function (option) numa_srat_loop ::
    "(u64 \<Rightarrow> srat_entry) \<Rightarrow> int \<Rightarrow> u64 \<Rightarrow> (nat \<Rightarrow> bool) \<Rightarrow> kstate \<Rightarrow> kstate option" where
  "numa_srat_loop entry_at table_len table_ptr node_bitmap s =
     (if 0 < table_len then do {
        (node_bitmap, s) \<leftarrow> numa_srat_entry (entry_at table_ptr) node_bitmap s;
        numa_srat_loop entry_at (table_len - uint (srat_len (entry_at table_ptr)))
          (table_ptr + ucast (srat_len (entry_at table_ptr))) node_bitmap s
      } else Some s)"

partial_function (option) numa_madt_loop ::
    "(u64 \<Rightarrow> madt_entry) \<Rightarrow> u64 \<Rightarrow> u64 \<Rightarrow> u64 \<Rightarrow> kstate \<Rightarrow> kstate option" where
  "numa_madt_loop entry_at limit ptr node s =
     (if ptr < limit then do {
        s \<leftarrow> (case entry_at ptr of
            Madt_lapic len flags apic \<Rightarrow>
              if flags AND 1 \<noteq> 0 then do {
                (_, s) \<leftarrow> register_cpu_remote (ucast apic) node s; Some s }
              else Some s
          | Madt_other len \<Rightarrow> Some s);
        numa_madt_loop entry_at limit (ptr + ucast (madt_len (entry_at ptr))) node s
      } else Some s)"

fun numa_ards_loop :: "ards list \<Rightarrow> u64 \<Rightarrow> kstate \<Rightarrow> kstate option" where
  "numa_ards_loop [] node s = Some s"
| "numa_ards_loop (a # as) node s =
     (if ards_type a = 1 \<or> ards_type a = 2 then do {
        (zone, s) \<leftarrow> ks_kmalloc SIZEOF_ZONE s;
        if zone = 0 then None
        else do {
          let s = upd_zone zone (z_page_size_update (\<lambda>_. 0x1000)) s;
          let s = upd_zone zone (z_start_pfn_update (\<lambda>_. ards_base a)) s;
          let s = upd_zone zone (z_pfn_cnt_update (\<lambda>_. ards_length a)) s;
          numa_ards_loop as node (mm_zone_register node zone s)
        }
      } else numa_ards_loop as node s)"

text \<open>The tables as \<^verbatim>\<open>acpi_get_desc\<close> returned them: the header's address and length, and
  what lies behind it. The headers of SRAT and MADT take 48 and 44 bytes.\<close>

definition arch_numa_init ::
    "(u64 \<times> u32) option \<Rightarrow> (u64 \<Rightarrow> srat_entry) \<Rightarrow> (u64 \<times> u32) option \<Rightarrow> (u64 \<Rightarrow> madt_entry) \<Rightarrow>
     bootloader_parm_block \<Rightarrow> kstate \<Rightarrow> kstate option" where
  "arch_numa_init srat srat_at madt madt_at parm s =
     (case srat of
        None \<Rightarrow> do {
          (node, s) \<leftarrow> ks_kmalloc SIZEOF_NODE s;
          if node = 0 then None else do {
            let s = mm_node_init node s;
            (node, s) \<leftarrow> ks_kmalloc SIZEOF_NODE s;
            if node = 0 then None else do {
            let s = upd_node node (cpu_list_update (\<lambda>_. [])) s;
            let s = upd_node node (zone_list_update (\<lambda>_. [])) s;
            let s = upd_node node (socket_id_update (\<lambda>_. 0)) s;
            let s = mm_node_register node s;
            s \<leftarrow> (case madt of
                None \<Rightarrow> do { (_, s) \<leftarrow> register_cpu_remote 0 node s; Some s }
              | Some (madt_ptr, len) \<Rightarrow>
                  numa_madt_loop madt_at (madt_ptr + ucast len - 44) (madt_ptr + 44) node s);
            if length (ardc_array parm) < unat (ardc_cnt parm) then None
            else numa_ards_loop (take (unat (ardc_cnt parm)) (ardc_array parm)) node s
          } }
        }
      | Some (srat_ptr, len) \<Rightarrow>
          numa_srat_loop srat_at (sint (len - 48)) (srat_ptr + 48) (\<lambda>_. False) s)"

section \<open>Properties\<close>

subsection \<open>Zones cover what was registered\<close>

definition zone_pages :: "zone \<Rightarrow> nat set" where
  "zone_pages z = {unat (z_start_pfn z) ..< unat (z_start_pfn z) + unat (z_pfn_cnt z)}"

definition zone_ok :: "zone \<Rightarrow> bool" where
  "zone_ok z = (unat (z_start_pfn z) + unat (z_pfn_cnt z) < 2 ^ 64)"

definition node_pages :: "u64 \<Rightarrow> kstate \<Rightarrow> nat set" where
  "node_pages n s = (\<Union>p \<in> set (zone_list (nodes s n)). zone_pages (zones s p))"

text \<open>The zones of a node do not wrap and are pairwise disjoint.\<close>

definition node_zones_ok :: "u64 \<Rightarrow> kstate \<Rightarrow> bool" where
  "node_zones_ok n s =
     (distinct (zone_list (nodes s n)) \<and>
      (\<forall>p \<in> set (zone_list (nodes s n)). zone_ok (zones s p)) \<and>
      (\<forall>p \<in> set (zone_list (nodes s n)). \<forall>q \<in> set (zone_list (nodes s n)).
         p \<noteq> q \<longrightarrow> zone_pages (zones s p) \<inter> zone_pages (zones s q) = {}))"

lemma zone_end_eq:
  assumes "zone_ok y" "z_start_pfn y + z_pfn_cnt y = z_start_pfn z"
  shows "unat (z_start_pfn z) = unat (z_start_pfn y) + unat (z_pfn_cnt y)"
  using assms(1) unfolding assms(2) [symmetric] by (intro unat_plus_no_wrap) (simp add: zone_ok_def)

lemma zone_join:
  assumes y: "zone_ok y" and z: "zone_ok z"
    and e: "z_start_pfn y + z_pfn_cnt y = z_start_pfn z"
    and s: "z_start_pfn w = z_start_pfn y" and c: "z_pfn_cnt w = z_pfn_cnt y + z_pfn_cnt z"
  shows "zone_ok w" "zone_pages w = zone_pages y \<union> zone_pages z"
proof -
  have 1: "unat (z_start_pfn z) = unat (z_start_pfn y) + unat (z_pfn_cnt y)"
    using zone_end_eq [OF y e] .
  have 2: "unat (z_pfn_cnt w) = unat (z_pfn_cnt y) + unat (z_pfn_cnt z)"
    unfolding c using 1 z by (intro unat_plus_no_wrap) (simp add: zone_ok_def)
  show "zone_ok w" using 1 2 z by (simp add: zone_ok_def s)
  show "zone_pages w = zone_pages y \<union> zone_pages z"
    using 1 2 by (auto simp add: zone_pages_def s)
qed

text \<open>What one merge does: one zone of the list grows to the union, the others stay.\<close>

lemma mm_zone_merge_some:
  "mm_zone_merge z ps s = Some s' \<Longrightarrow> zone_ok z \<Longrightarrow> \<forall>p \<in> set ps. zone_ok (zones s p) \<Longrightarrow>
   \<exists>p w. p \<in> set ps \<and> s' = s\<lparr>zones := (zones s)(p := w)\<rparr> \<and> zone_ok w \<and>
         zone_pages w = zone_pages (zones s p) \<union> zone_pages z"
proof (induction ps)
  case (Cons p ps)
  show ?case
  proof (cases "z_start_pfn (zones s p) + z_pfn_cnt (zones s p) = z_start_pfn z")
    case True
    let ?w = "z_pfn_cnt_update (\<lambda>c. c + z_pfn_cnt z) (zones s p)"
    have "zone_ok ?w" "zone_pages ?w = zone_pages (zones s p) \<union> zone_pages z"
      using zone_join [of "zones s p" z ?w] Cons.prems True by simp_all
    then show ?thesis
      using Cons.prems(1) True by (intro exI [of _ p] exI [of _ ?w]) (auto simp: upd_zone_def fun_upd_def)
  next
    case F: False
    show ?thesis
    proof (cases "z_start_pfn z + z_pfn_cnt z = z_start_pfn (zones s p)")
      case True
      let ?w = "z_pfn_cnt_update (\<lambda>c. c + z_pfn_cnt z)
                  ((zones s p)\<lparr>z_start_pfn := z_start_pfn z\<rparr>)"
      have "zone_ok ?w" "zone_pages ?w = zone_pages z \<union> zone_pages (zones s p)"
        using zone_join [of z "zones s p" ?w] Cons.prems True by (simp_all add: add.commute)
      then show ?thesis
        using Cons.prems(1) True F
        by (intro exI [of _ p] exI [of _ ?w]) (auto simp: upd_zone_def fun_upd_def Let_def cong: if_cong)
    next
      case False
      then have "mm_zone_merge z ps s = Some s'" using Cons.prems(1) F by simp
      then show ?thesis using Cons.IH Cons.prems(2,3) by fastforce
    qed
  qed
qed simp

lemma node_zones_ok_merge:
  assumes ok: "node_zones_ok n s" and p: "p \<in> set (zone_list (nodes s n))"
    and w: "zone_ok w" "zone_pages w = zone_pages (zones s p) \<union> Z"
    and fresh: "Z \<inter> node_pages n s = {}"
  shows "node_zones_ok n (s\<lparr>zones := (zones s)(p := w)\<rparr>) \<and>
         node_pages n (s\<lparr>zones := (zones s)(p := w)\<rparr>) = node_pages n s \<union> Z"
proof -
  have d: "zone_pages w \<inter> zone_pages (zones s q) = {}"
    if "q \<in> set (zone_list (nodes s n))" "q \<noteq> p" for q
    using that ok p w fresh by (fastforce simp: node_zones_ok_def node_pages_def)
  have "node_zones_ok n (s\<lparr>zones := (zones s)(p := w)\<rparr>)"
    using ok w(1) d by (auto simp: node_zones_ok_def Int_commute)
  moreover have "node_pages n (s\<lparr>zones := (zones s)(p := w)\<rparr>) = node_pages n s \<union> Z"
    using p w(2) by (auto simp: node_pages_def split: if_splits)
  ultimately show ?thesis by simp
qed

text \<open>Registering a zone that overlaps none of the node's zones, and whose end does not wrap,
  keeps the zones of the node disjoint, whichever neighbour it is merged into, and the pages the
  node covers are then exactly the old ones and those of the new zone.\<close>

theorem mm_zone_register_covers:
  assumes "node_zones_ok n s" and "zone_ok (zones s z)"
    and "z \<notin> set (zone_list (nodes s n))"
    and "zone_pages (zones s z) \<inter> node_pages n s = {}"
  shows "node_zones_ok n (mm_zone_register n z s) \<and>
         node_pages n (mm_zone_register n z s) = node_pages n s \<union> zone_pages (zones s z) \<and>
         length (zone_list (nodes (mm_zone_register n z s) n)) \<le>
           length (zone_list (nodes s n)) + 1"
proof (cases "mm_zone_merge (zones s z) (zone_list (nodes s n)) s")
  case None
  then show ?thesis
    using assms
    by (fastforce simp: mm_zone_register_def upd_node_def node_zones_ok_def node_pages_def)
next
  case (Some s')
  then obtain p w where p: "p \<in> set (zone_list (nodes s n))"
    "s' = s\<lparr>zones := (zones s)(p := w)\<rparr>" "zone_ok w"
    "zone_pages w = zone_pages (zones s p) \<union> zone_pages (zones s z)"
    using mm_zone_merge_some [OF Some assms(2)] assms(1) by (auto simp: node_zones_ok_def)
  show ?thesis
    using node_zones_ok_merge [OF assms(1) p(1,3,4) assms(4)] Some p(2)
    by (simp add: mm_zone_register_def)
qed

definition demo_kstate :: kstate where
  "demo_kstate =
     \<lparr>ks_boot = empty_bootmem\<lparr>last_alloc_offset := 64\<rparr>, nodes = (\<lambda>_. \<lparr>socket_id = 0, zone_list = [], cpu_list = []\<rparr>),
      zones = (\<lambda>_. \<lparr>z_page_size = 0, z_start_pfn = 0, z_pfn_cnt = 0\<rparr>),
      cpus = (\<lambda>_. \<lparr>cpu_index = 0, cpu_id = 0, cpu_status = 0, cpu_irq_stack = 0,
                    cpu_tmp_stack = 0, irq_nr = 0, irq_bitmap = \<lparr>bitmap_data = (\<lambda>_. 0), bitmap_size = 0\<rparr>,
                    irq_descs = (\<lambda>_. \<lparr>desc_count = 0, irq_action_list = []\<rparr>)\<rparr>),
      node_list = [1], nr_cpus = 0\<rparr>"

definition demo_zones :: kstate where
  "demo_zones = upd_node 1 (zone_list_update (\<lambda>_. [1]))
     (upd_zone 1 (\<lambda>z. z\<lparr>z_start_pfn := 0x10, z_pfn_cnt := 0x10\<rparr>)
       (upd_zone 2 (\<lambda>z. z\<lparr>z_start_pfn := 0, z_pfn_cnt := 0x10\<rparr>) demo_kstate))"

lemmas demo_kstate_defs = demo_zones_def demo_kstate_def upd_zone_def upd_node_def upd_cpu_def

lemma mm_zone_register_covers_witness:
  "node_pages 1 (mm_zone_register 1 2 demo_zones) = {0x10..<0x20} \<union> {0..<0x10}"
proof -
  have "node_zones_ok 1 demo_zones" "zone_ok (zones demo_zones 2)"
    "2 \<notin> set (zone_list (nodes demo_zones 1))"
    "zone_pages (zones demo_zones 2) \<inter> node_pages 1 demo_zones = {}"
    by (simp_all add: node_zones_ok_def zone_ok_def zone_pages_def node_pages_def demo_kstate_defs)
  then have "node_pages 1 (mm_zone_register 1 2 demo_zones) =
      node_pages 1 demo_zones \<union> zone_pages (zones demo_zones 2)"
    using mm_zone_register_covers [of 1 demo_zones 2] by blast
  then show ?thesis
    by (simp add: node_pages_def zone_pages_def demo_kstate_defs)
qed

subsection \<open>Processors are numbered apart\<close>

definition cpus_numbered :: "kstate \<Rightarrow> bool" where
  "cpus_numbered s =
     ((\<forall>c \<in> set (all_cpus s). cpu_index (cpus s c) < nr_cpus s) \<and>
      inj_on (\<lambda>c. cpu_index (cpus s c)) (set (all_cpus s)))"

lemma find_inj_on:
  "inj_on f (set xs) \<Longrightarrow> c \<in> set xs \<Longrightarrow> find (\<lambda>x. f x = f c) xs = Some c"
  by (induction xs) (auto simp: inj_on_def)

lemma scast_ucast_index:
  fixes i :: u64
  assumes "unat i < 2 ^ 31"
  shows "scast (ucast i :: u32) = i"
proof -
  have "uint i < 2 ^ 31" using assms by (metis of_nat_less_iff of_nat_numeral of_nat_power uint_nat)
  then have "sint (ucast i :: u32) = uint i"
    by (subst sint_uint, subst signed_take_bit_int_eq_self)
      (simp_all add: unsigned_ucast_eq take_bit_int_eq_self order_trans [OF _ uint_ge_0])
  then show ?thesis by (simp add: word_uint_eq_iff [symmetric] scast_eq)
qed

lemma all_cpus_add:
  assumes "node \<in> set (node_list s)"
  shows "set (all_cpus (upd_node node (cpu_list_update (\<lambda>l. l @ [c])) s)) =
         insert c (set (all_cpus s))"
  using assms by (auto simp: all_cpus_def upd_node_def split: if_splits)

lemma all_cpus_simps [simp]:
  "all_cpus (upd_cpu c f s) = all_cpus s"
  "all_cpus (s\<lparr>nr_cpus := k\<rparr>) = all_cpus s"
  "all_cpus (s\<lparr>ks_boot := b\<rparr>) = all_cpus s"
  by (simp_all add: all_cpus_def upd_cpu_def)

lemma register_cpu_remote_result:
  assumes "kmalloc SIZEOF_CPU 0 (ks_boot s) = Some (c, b)" "c \<noteq> 0"
  shows "register_cpu_remote apic node s =
    Some (0, upd_node node (cpu_list_update (\<lambda>l. l @ [c]))
      (s\<lparr>ks_boot := b, nr_cpus := nr_cpus s + 1,
         cpus := (cpus s)(c := (cpus s c)\<lparr>cpu_index := nr_cpus s, cpu_id := apic, cpu_status := 0\<rparr>)\<rparr>))"
  using assms by (simp add: register_cpu_remote_def ks_kmalloc_def upd_cpu_def)

lemma get_cpu_by_index_hit:
  assumes "cpus_numbered s" "c \<in> set (all_cpus s)" "scast i = cpu_index (cpus s c)"
  shows "get_cpu_by_index i s = Some c"
  using find_inj_on [of "\<lambda>c. cpu_index (cpus s c)" "all_cpus s" c] assms
  by (simp add: get_cpu_by_index_def cpus_numbered_def)

text \<open>Registering a processor on a listed node, with memory that is not in use for another
  one, gives it the next index: the indices stay distinct and below the count, the lookup by the
  new index finds it, and the lookup by the index of any older processor still finds that one.\<close>

theorem register_cpu_remote_numbers:
  assumes num: "cpus_numbered s" and n: "node \<in> set (node_list s)" and k: "nr_cpus s < 0x7fffffff"
    and c: "kmalloc SIZEOF_CPU 0 (ks_boot s) = Some (c, b)" "c \<noteq> 0" "c \<notin> set (all_cpus s)"
  shows "\<exists>s'. register_cpu_remote apic node s = Some (0, s') \<and> cpus_numbered s' \<and>
           get_cpu_by_index (ucast (nr_cpus s)) s' = Some c \<and>
           cpu_id (cpus s' c) = apic \<and> nr_cpus s' = nr_cpus s + 1 \<and>
           (\<forall>d \<in> set (all_cpus s). get_cpu_by_index (ucast (cpu_index (cpus s d))) s' = Some d)"
proof -
  let ?s = "upd_node node (cpu_list_update (\<lambda>l. l @ [c]))
      (s\<lparr>ks_boot := b, nr_cpus := nr_cpus s + 1,
         cpus := (cpus s)(c := (cpus s c)\<lparr>cpu_index := nr_cpus s, cpu_id := apic, cpu_status := 0\<rparr>)\<rparr>)"
  have all: "set (all_cpus ?s) = insert c (set (all_cpus s))"
    using all_cpus_add [of node "s\<lparr>ks_boot := b, nr_cpus := nr_cpus s + 1,
         cpus := (cpus s)(c := (cpus s c)\<lparr>cpu_index := nr_cpus s, cpu_id := apic, cpu_status := 0\<rparr>)\<rparr>" c] n
    by (simp add: all_cpus_def)
  have cp: "cpus ?s = (cpus s)(c := (cpus s c)\<lparr>cpu_index := nr_cpus s, cpu_id := apic, cpu_status := 0\<rparr>)"
    "nr_cpus ?s = nr_cpus s + 1"
    by (simp_all add: upd_node_def)
  have lt: "x < nr_cpus s + 1" if "x < nr_cpus s \<or> x = nr_cpus s" for x
    using that k by (auto simp: word_less_nat_alt unat_word_ariths)
  have inj: "inj_on (\<lambda>c. cpu_index (cpus s c)) (set (all_cpus s))"
    and below: "\<And>d. d \<in> set (all_cpus s) \<Longrightarrow> cpu_index (cpus s d) < nr_cpus s"
    using num by (auto simp: cpus_numbered_def)
  have num': "cpus_numbered ?s"
    unfolding cpus_numbered_def all cp
    using c(3) inj lt below by (fastforce simp: inj_on_def)
  have idx: "scast (ucast x :: u32) = x" if "x \<le> nr_cpus s" for x :: u64
    using that k by (intro scast_ucast_index) (simp add: word_less_nat_alt word_le_nat_alt)
  have "get_cpu_by_index (ucast (nr_cpus s)) ?s = Some c"
    using num' by (rule get_cpu_by_index_hit) (simp_all add: all cp idx)
  moreover have "get_cpu_by_index (ucast (cpu_index (cpus s d))) ?s = Some d"
    if "d \<in> set (all_cpus s)" for d
    using that c(3) below [OF that] num'
    by (intro get_cpu_by_index_hit) (auto simp: all cp idx order_less_imp_le)
  ultimately show ?thesis
    using num' cp register_cpu_remote_result [OF c(1,2)] by (intro exI [of _ ?s]) simp
qed

text \<open>The demonstration memory hands out its first page run for the structure.\<close>

lemma register_cpu_remote_numbers_witness:
  "\<exists>s' c. register_cpu_remote 7 1 demo_kstate = Some (0, s') \<and>
     get_cpu_by_index 0 s' = Some c \<and> cpu_id (cpus s' c) = 7"
proof -
  obtain c b where kb: "kmalloc SIZEOF_CPU 0 (ks_boot demo_kstate) = Some (c, b)" "c \<noteq> 0"
    by (simp add: kmalloc_def bootmem_alloc_def demo_kstate_def empty_bootmem_def SIZEOF_CPU_def
        PHYS2VIRT_def KERNEL_SPACE_def)
  show ?thesis
    using register_cpu_remote_numbers [of demo_kstate 1 c b 7] kb
    by (auto simp: cpus_numbered_def demo_kstate_def all_cpus_def)
qed

subsection \<open>The SRAT leaves one node\<close>

lemma node_list_upd [simp]:
  "node_list (upd_node n f s) = node_list s" "node_list (upd_cpu c g s) = node_list s"
  "node_list (upd_zone z h s) = node_list s"
  by (simp_all add: upd_node_def upd_cpu_def upd_zone_def)

lemma register_cpu_remote_node_list:
  "register_cpu_remote apic n s = Some (r, s') \<Longrightarrow> node_list s' = node_list s"
  by (auto simp: register_cpu_remote_def ks_kmalloc_def Let_def bind_eq_Some_conv split: if_splits)

lemma mm_zone_merge_node_list:
  "mm_zone_merge z ps s = Some s' \<Longrightarrow> node_list s' = node_list s"
  by (induction ps) (auto simp: Let_def split: if_splits)

lemma numa_new_zone_node_list:
  "numa_new_zone n b l s = Some s' \<Longrightarrow> node_list s' = node_list s"
  by (auto simp: numa_new_zone_def ks_kmalloc_def mm_zone_register_def Let_def bind_eq_Some_conv
      dest: mm_zone_merge_node_list split: if_splits option.splits)

text \<open>A new node is alone: \<^verbatim>\<open>mm_node_init\<close> empties the list of all nodes.\<close>

lemma numa_new_node_node_list:
  "numa_new_node d s = Some (n, s') \<Longrightarrow> node_list s' = [n]"
  by (auto simp: numa_new_node_def ks_kmalloc_def mm_node_init_def mm_node_register_def Let_def
      bind_eq_Some_conv split: if_splits)

lemmas numa_node_list = register_cpu_remote_node_list numa_new_zone_node_list numa_new_node_node_list

lemma numa_srat_entry_node_list:
  assumes "numa_srat_entry e nb s = Some (nb', s')" "length (node_list s) \<le> 1"
  shows "length (node_list s') \<le> 1"
  using assms
  by (cases e) (auto simp: numa_srat_entry_def bind_eq_Some_conv split: if_splits option.splits
      dest!: numa_node_list)

lemma numa_srat_loop_node_list:
  assumes "numa_srat_loop e len p nb s = Some s'"
  shows "length (node_list s) \<le> 1 \<longrightarrow> length (node_list s') \<le> 1"
  using assms
proof (rule numa_srat_loop.raw_induct [where P = "\<lambda>e len p nb s s'.
    length (node_list s) \<le> 1 \<longrightarrow> length (node_list s') \<le> 1", rotated])
  fix loop e len p nb s r
  assume IH: "\<And>e len p nb s r. loop e len p nb s = Some r \<Longrightarrow>
      length (node_list s) \<le> 1 \<longrightarrow> length (node_list r) \<le> 1"
    and r: "(if 0 < len then do {
        (nb, s) \<leftarrow> numa_srat_entry (e p) nb s;
        loop e (len - uint (srat_len (e p))) (p + ucast (srat_len (e p))) nb s
      } else Some s) = Some r"
  show "length (node_list s) \<le> 1 \<longrightarrow> length (node_list r) \<le> 1"
  proof (cases "0 < len")
    case True
    then obtain nb' t where t: "numa_srat_entry (e p) nb s = Some (nb', t)"
      "loop e (len - uint (srat_len (e p))) (p + ucast (srat_len (e p))) nb' t = Some r"
      using r by (auto simp: bind_eq_Some_conv split: prod.splits)
    show ?thesis using IH [OF t(2)] numa_srat_entry_node_list [OF t(1)] by blast
  qed (use r in simp)
qed

text \<open>Whatever the SRAT lists, the walk ends with at most one node on the list: every node
  found is initialised by a function that also empties the global list, so on a machine with
  several proximity domains the nodes found before the last new one, and their processors, are
  out of reach of \<^verbatim>\<open>get_cpu\<close>.\<close>

theorem arch_numa_init_srat_one_node:
  assumes "arch_numa_init (Some (srat_ptr, len)) srat_at madt madt_at parm s = Some s'"
    and "node_list s = []"
  shows "length (node_list s') \<le> 1 \<and>
         (\<forall>i c. get_cpu i s' = Some c \<longrightarrow>
            (\<exists>n. node_list s' = [n] \<and> c \<in> set (cpu_list (nodes s' n))))"
proof -
  have le: "length (node_list s') \<le> 1"
    using assms numa_srat_loop_node_list by (simp add: arch_numa_init_def)
  then consider "node_list s' = []" | n where "node_list s' = [n]"
    by (cases "node_list s'") auto
  then show ?thesis
  proof cases
    case 1 then show ?thesis by (simp add: get_cpu_def all_cpus_def)
  next
    case (2 n) then show ?thesis
      by (auto simp: get_cpu_def all_cpus_def find_Some_iff)
  qed
qed

definition demo_srat :: "u64 \<Rightarrow> srat_entry" where
  "demo_srat a = Srat_cpu 16 1 (if a = 48 then 0 else 1) (if a = 48 then 3 else 4)"

lemma arch_numa_init_srat_one_node_witness:
  "\<exists>s' n. arch_numa_init (Some (0, 80)) demo_srat None (\<lambda>_. Madt_other 0) demo_parm
      (demo_kstate\<lparr>node_list := []\<rparr>) = Some s' \<and> get_cpu 3 s' = None \<and> get_cpu 4 s' \<noteq> None \<and>
      length (node_list s') \<le> 1"
proof -
  let ?r = "arch_numa_init (Some (0, 80)) demo_srat None (\<lambda>_. Madt_other 0) demo_parm
      (demo_kstate\<lparr>node_list := []\<rparr>)"
  have "\<exists>s'. ?r = Some s' \<and> get_cpu 3 s' = None \<and> get_cpu 4 s' \<noteq> None"
    by (simp add: arch_numa_init_def numa_srat_loop.simps demo_srat_def numa_srat_entry_def
      numa_new_node_def ks_kmalloc_def kmalloc_def bootmem_alloc_def demo_kstate_def
      empty_bootmem_def SIZEOF_NODE_def SIZEOF_CPU_def PHYS2VIRT_def KERNEL_SPACE_def Let_def
      roundup_def mm_node_init_def mm_node_register_def upd_node_def upd_cpu_def
      register_cpu_remote_def get_cpu_def all_cpus_def)
  then show ?thesis
    using arch_numa_init_srat_one_node [of 0 80 demo_srat None "\<lambda>_. Madt_other 0" demo_parm
      "demo_kstate\<lparr>node_list := []\<rparr>"]
    by (auto simp: demo_kstate_def)
qed

end
