(* ===== verification/C_String.thy ===== *)
theory C_String
  imports Prelude
begin

text \<open>
  \<^verbatim>\<open>lib/string.c\<close> and \<^verbatim>\<open>include/string.h\<close>: the kernel's own memory and string routines and its
  formatted printing. Memory is a function from addresses to bytes; \<^verbatim>\<open>int\<close> results and sizes
  are integers. A loop that scans for a terminator is \<^verbatim>\<open>None\<close> when it never ends.
\<close>

type_synonym mem = "u64 \<Rightarrow> u8"

section \<open>Memory\<close>

fun memcpy_down :: "u64 \<Rightarrow> u64 \<Rightarrow> nat \<Rightarrow> mem \<Rightarrow> mem" where
  "memcpy_down dst src 0 m = m"
| "memcpy_down dst src (Suc n) m =
     memcpy_down dst src n (m(dst + of_nat n := m (src + of_nat n)))"

function memcpy_up :: "u64 \<Rightarrow> u64 \<Rightarrow> nat \<Rightarrow> nat \<Rightarrow> mem \<Rightarrow> mem" where
  "memcpy_up dst src i sz m =
     (if i < sz then memcpy_up dst src (i + 1) sz (m(dst + of_nat i := m (src + of_nat i)))
      else m)"
  by pat_completeness auto
termination by (relation "measure (\<lambda>(_, _, i, sz, _). sz - i)") auto

declare memcpy_up.simps [simp del]

definition memcpy :: "u64 \<Rightarrow> u64 \<Rightarrow> int \<Rightarrow> mem \<Rightarrow> mem" where
  "memcpy dst src sz m =
     (if dst = 0 \<or> src = 0 then m
      else if src < dst then memcpy_down dst src (nat sz) m
      else memcpy_up dst src 0 (nat sz) m)"

function memset_loop :: "u64 \<Rightarrow> u8 \<Rightarrow> nat \<Rightarrow> nat \<Rightarrow> mem \<Rightarrow> mem" where
  "memset_loop dst v i sz m =
     (if i < sz then memset_loop dst v (i + 1) sz (m(dst + of_nat i := v)) else m)"
  by pat_completeness auto
termination by (relation "measure (\<lambda>(_, _, i, sz, _). sz - i)") auto

declare memset_loop.simps [simp del]

definition memset :: "u64 \<Rightarrow> u8 \<Rightarrow> int \<Rightarrow> mem \<Rightarrow> mem" where
  "memset dst v sz m = (if dst = 0 then m else memset_loop dst v 0 (nat sz) m)"

text \<open>The difference of two \<^verbatim>\<open>char\<close> values, which are signed.\<close>

function memcmp_loop :: "u64 \<Rightarrow> u64 \<Rightarrow> nat \<Rightarrow> nat \<Rightarrow> mem \<Rightarrow> int" where
  "memcmp_loop s1 s2 i sz m =
     (if i < sz then
        if m (s1 + of_nat i) \<noteq> m (s2 + of_nat i)
        then sint (m (s1 + of_nat i)) - sint (m (s2 + of_nat i))
        else memcmp_loop s1 s2 (i + 1) sz m
      else 0)"
  by pat_completeness auto
termination by (relation "measure (\<lambda>(_, _, i, sz, _). sz - i)") auto

declare memcmp_loop.simps [simp del]

definition memcmp :: "u64 \<Rightarrow> u64 \<Rightarrow> int \<Rightarrow> mem \<Rightarrow> int" where
  "memcmp s1 s2 sz m = memcmp_loop s1 s2 0 (nat sz) m"

section \<open>Strings\<close>

partial_function (option) strlen_from :: "mem \<Rightarrow> u64 \<Rightarrow> u64 \<Rightarrow> u64 option" where
  "strlen_from m s sc = (if m sc \<noteq> 0 then strlen_from m s (sc + 1) else Some (sc - s))"

definition strlen :: "u64 \<Rightarrow> mem \<Rightarrow> u64 option" where
  "strlen s m = strlen_from m s s"

partial_function (option) strcpy_loop :: "u64 \<Rightarrow> u64 \<Rightarrow> mem \<Rightarrow> mem option" where
  "strcpy_loop dest src m =
     (let c = m src; m = m(dest := c) in
      if c \<noteq> 0 then strcpy_loop (dest + 1) (src + 1) m else Some m)"

definition strcpy :: "u64 \<Rightarrow> u64 \<Rightarrow> mem \<Rightarrow> (u64 \<times> mem) option" where
  "strcpy dest src m = do { m \<leftarrow> strcpy_loop dest src m; Some (dest, m) }"

text \<open>The two one-character helpers of \<^verbatim>\<open>string.h\<close> shift every character.\<close>

definition tolower :: "u8 \<Rightarrow> u8" where "tolower c = c - 0x20"
definition toupper :: "u8 \<Rightarrow> u8" where "toupper c = c + 0x20"
definition isspace :: "u8 \<Rightarrow> bool" where "isspace c = (c = 0x20)"

partial_function (option) strncasecmp_loop :: "mem \<Rightarrow> u64 \<Rightarrow> u64 \<Rightarrow> u64 \<Rightarrow> int option" where
  "strncasecmp_loop m s1 s2 len =
     (let c1 = m s1; c2 = m s2 in
      if c1 = 0 \<or> c2 = 0 then Some (uint c1 - uint c2)
      else if c1 = c2 then
        (if len - 1 \<noteq> 0 then strncasecmp_loop m (s1 + 1) (s2 + 1) (len - 1)
         else Some (uint c1 - uint c2))
      else let c1 = tolower c1; c2 = tolower c2 in
        if c1 \<noteq> c2 then Some (uint c1 - uint c2)
        else if len - 1 \<noteq> 0 then strncasecmp_loop m (s1 + 1) (s2 + 1) (len - 1)
        else Some (uint c1 - uint c2))"

definition strncasecmp :: "u64 \<Rightarrow> u64 \<Rightarrow> u64 \<Rightarrow> mem \<Rightarrow> int option" where
  "strncasecmp s1 s2 len m = (if len = 0 then Some 0 else strncasecmp_loop m s1 s2 len)"

partial_function (option) strcasecmp_loop :: "mem \<Rightarrow> u64 \<Rightarrow> u64 \<Rightarrow> int option" where
  "strcasecmp_loop m s1 s2 =
     (let c1 = sint (tolower (m s1)); c2 = sint (tolower (m s2)) in
      if c1 = c2 \<and> c1 \<noteq> 0 then strcasecmp_loop m (s1 + 1) (s2 + 1) else Some (c1 - c2))"

definition strcasecmp :: "u64 \<Rightarrow> u64 \<Rightarrow> mem \<Rightarrow> int option" where
  "strcasecmp s1 s2 m = strcasecmp_loop m s1 s2"

fun strncpy_loop :: "u64 \<Rightarrow> u64 \<Rightarrow> nat \<Rightarrow> mem \<Rightarrow> mem" where
  "strncpy_loop tmp src 0 m = m"
| "strncpy_loop tmp src (Suc count) m =
     (let c = m src; m = m(tmp := c) in
      strncpy_loop (tmp + 1) (if c \<noteq> 0 then src + 1 else src) count m)"

definition strncpy :: "u64 \<Rightarrow> u64 \<Rightarrow> u32 \<Rightarrow> mem \<Rightarrow> u64 \<times> mem" where
  "strncpy dest src count m = (dest, strncpy_loop dest src (unat count) m)"

text \<open>0 is the NULL pointer.\<close>

partial_function (option) strchr_loop :: "mem \<Rightarrow> u64 \<Rightarrow> u8 \<Rightarrow> u64 option" where
  "strchr_loop m s c =
     (if m s \<noteq> c then if m s = 0 then Some 0 else strchr_loop m (s + 1) c else Some s)"

definition strchr :: "u64 \<Rightarrow> u32 \<Rightarrow> mem \<Rightarrow> u64 option" where
  "strchr s c m = strchr_loop m s (ucast c)"

partial_function (option) strrchr_loop :: "mem \<Rightarrow> u64 \<Rightarrow> u8 \<Rightarrow> u64 \<Rightarrow> u64 option" where
  "strrchr_loop m s c l =
     (let l = (if m s = c then s else l) in
      if m s \<noteq> 0 then strrchr_loop m (s + 1) c l else Some l)"

definition strrchr :: "u64 \<Rightarrow> u32 \<Rightarrow> mem \<Rightarrow> u64 option" where
  "strrchr s c m = strrchr_loop m s (ucast c) 0"

partial_function (option) skip_to_end :: "mem \<Rightarrow> u64 \<Rightarrow> u64 option" where
  "skip_to_end m p = (if m p \<noteq> 0 then skip_to_end m (p + 1) else Some p)"

definition strcat :: "u64 \<Rightarrow> u64 \<Rightarrow> mem \<Rightarrow> (u64 \<times> mem) option" where
  "strcat dest src m = do {
     p \<leftarrow> skip_to_end m dest;
     m \<leftarrow> strcpy_loop p src m;
     Some (dest, m)
   }"

partial_function (option) strncat_loop :: "u64 \<Rightarrow> u64 \<Rightarrow> u64 \<Rightarrow> mem \<Rightarrow> mem option" where
  "strncat_loop dest src count m =
     (let c = m src; m = m(dest := c) in
      if c \<noteq> 0 then
        let count = count - 1 in
        if count = 0 then Some (m(dest + 1 := 0))
        else strncat_loop (dest + 1) (src + 1) count m
      else Some m)"

definition strncat :: "u64 \<Rightarrow> u64 \<Rightarrow> u64 \<Rightarrow> mem \<Rightarrow> (u64 \<times> mem) option" where
  "strncat dest src count m =
     (if count \<noteq> 0 then do {
        p \<leftarrow> skip_to_end m dest;
        m \<leftarrow> strncat_loop p src count m;
        Some (dest, m)
      } else Some (dest, m))"

partial_function (option) strcmp_loop :: "mem \<Rightarrow> u64 \<Rightarrow> u64 \<Rightarrow> int option" where
  "strcmp_loop m cs ct =
     (let c1 = m cs; c2 = m ct in
      if c1 \<noteq> c2 then Some (if c1 < c2 then - 1 else 1)
      else if c1 = 0 then Some 0
      else strcmp_loop m (cs + 1) (ct + 1))"

definition strcmp :: "u64 \<Rightarrow> u64 \<Rightarrow> mem \<Rightarrow> int option" where
  "strcmp cs ct m = strcmp_loop m cs ct"

fun strncmp_loop :: "mem \<Rightarrow> u64 \<Rightarrow> u64 \<Rightarrow> nat \<Rightarrow> int" where
  "strncmp_loop m cs ct 0 = 0"
| "strncmp_loop m cs ct (Suc count) =
     (let c1 = m cs; c2 = m ct in
      if c1 \<noteq> c2 then (if c1 < c2 then - 1 else 1)
      else if c1 = 0 then 0
      else strncmp_loop m (cs + 1) (ct + 1) count)"

definition strncmp :: "u64 \<Rightarrow> u64 \<Rightarrow> u64 \<Rightarrow> mem \<Rightarrow> int" where
  "strncmp cs ct count m = strncmp_loop m cs ct (unat count)"

partial_function (option) skip_spaces :: "mem \<Rightarrow> u64 \<Rightarrow> u64 option" where
  "skip_spaces m str = (if isspace (m str) then skip_spaces m (str + 1) else Some str)"

fun strnlen_loop :: "mem \<Rightarrow> u64 \<Rightarrow> nat \<Rightarrow> u64 \<Rightarrow> u64" where
  "strnlen_loop m s 0 sc = sc - s"
| "strnlen_loop m s (Suc count) sc =
     (if m sc \<noteq> 0 then strnlen_loop m s count (sc + 1) else sc - s)"

definition strnlen :: "u64 \<Rightarrow> u64 \<Rightarrow> mem \<Rightarrow> u64" where
  "strnlen s count m = strnlen_loop m s (unat count) s"

text \<open>\<^verbatim>\<open>l2\<close> is converted to the \<^verbatim>\<open>int\<close> size of \<^verbatim>\<open>memcmp\<close>.\<close>

partial_function (option) strstr_loop :: "mem \<Rightarrow> u64 \<Rightarrow> u64 \<Rightarrow> u64 \<Rightarrow> u64 \<Rightarrow> u64 option" where
  "strstr_loop m s1 s2 l1 l2 =
     (if l2 \<le> l1 then
        let l1 = l1 - 1 in
        if memcmp s1 s2 (sint (ucast l2 :: u32)) m = 0 then Some s1
        else strstr_loop m (s1 + 1) s2 l1 l2
      else Some 0)"

definition strstr :: "u64 \<Rightarrow> u64 \<Rightarrow> mem \<Rightarrow> u64 option" where
  "strstr s1 s2 m = do {
     l2 \<leftarrow> strlen s2 m;
     if l2 = 0 then Some s1
     else do { l1 \<leftarrow> strlen s1 m; strstr_loop m s1 s2 l1 l2 }
   }"

function findstr_inner :: "mem \<Rightarrow> u64 \<Rightarrow> nat \<Rightarrow> u64 \<Rightarrow> nat \<Rightarrow> nat \<Rightarrow> nat" where
  "findstr_inner m data i str j len =
     (if j < len \<and> m (data + of_nat (i + j)) = m (str + of_nat j)
      then findstr_inner m data i str (j + 1) len else j)"
  by pat_completeness auto
termination by (relation "measure (\<lambda>(_, _, _, _, j, len). len - j)") auto

declare findstr_inner.simps [simp del]

function findstr_loop :: "mem \<Rightarrow> u64 \<Rightarrow> int \<Rightarrow> u64 \<Rightarrow> nat \<Rightarrow> nat \<Rightarrow> int" where
  "findstr_loop m data sz str len i =
     (if int i \<le> sz - int len then
        if findstr_inner m data i str 0 len = len then int i
        else findstr_loop m data sz str len (i + 1)
      else 0)"
  by pat_completeness auto
termination by (relation "measure (\<lambda>(_, _, sz, _, len, i). nat (sz - int len + 1 - int i))") auto

declare findstr_loop.simps [simp del]

definition findstr :: "u64 \<Rightarrow> int \<Rightarrow> u64 \<Rightarrow> nat \<Rightarrow> mem \<Rightarrow> int" where
  "findstr data sz str len m = findstr_loop m data sz str len 0"

partial_function (option) unicode_to_ascii_loop :: "(nat \<Rightarrow> u16) \<Rightarrow> u64 \<Rightarrow> nat \<Rightarrow> mem \<Rightarrow> mem option" where
  "unicode_to_ascii_loop us ascii i m =
     (let m' = m(ascii + of_nat i := ucast (us i)) in
      if us i \<noteq> 0 then unicode_to_ascii_loop us ascii (i + 1) m' else Some m')"

section \<open>Formatted output\<close>

definition digit :: "u64 \<Rightarrow> u8" where
  "digit v = (if v < 10 then ucast (v + 0x30) else ucast (v - 10 + 0x61))"

text \<open>The characters \<^verbatim>\<open>i2a\<close> stores through its pointer. A zero base divides by zero; base
  one recurses for ever.\<close>

partial_function (option) i2a :: "u64 \<Rightarrow> u64 \<Rightarrow> u8 list option" where
  "i2a val base =
     (if base = 0 then None
      else let mm = val mod base; q = val div base in do {
        pre \<leftarrow> (if q \<noteq> 0 then i2a q base else Some []);
        Some (pre @ [digit mm])
      })"

text \<open>The width: decimal digits are read into an \<^verbatim>\<open>int\<close>.\<close>

partial_function (option) read_width :: "mem \<Rightarrow> u64 \<Rightarrow> u32 \<Rightarrow> (u32 \<times> u64) option" where
  "read_width m fmt n =
     (if 0x30 \<le> m fmt \<and> m fmt \<le> 0x39
      then read_width m (fmt + 1) (n * 10 + ucast (m fmt - 0x30)) else Some (n, fmt))"

partial_function (option) read_cstr :: "mem \<Rightarrow> u64 \<Rightarrow> u8 list option" where
  "read_cstr m p =
     (if m p = 0 then Some [] else do { r \<leftarrow> read_cstr m (p + 1); Some (m p # r) })"

text \<open>
  One conversion: what is left in \<^verbatim>\<open>inner_buf\<close>, and the arguments that remain. Text that
  does not fit its 256 bytes overruns the stack, and an argument that was not passed is not there
  to be read; both are \<^verbatim>\<open>None\<close>. \<^verbatim>\<open>strlen\<close> ends at the first zero byte.
\<close>

definition convert :: "mem \<Rightarrow> u8 \<Rightarrow> u64 list \<Rightarrow> (u8 list \<times> u64 list) option" where
  "convert m c args =
     (if c = 0x63 then
        (case args of [] \<Rightarrow> None
         | a # as \<Rightarrow> Some (if (ucast a :: u8) = 0 then [] else [ucast a], as))
      else if c = 0x78 then
        (case args of [] \<Rightarrow> None
         | a # as \<Rightarrow> do { ds \<leftarrow> i2a a 16; Some (ds, as) })
      else if c = 0x64 then
        (case args of [] \<Rightarrow> None
         | a # as \<Rightarrow>
             if sint a < 0 then do { ds \<leftarrow> i2a (a * (- 1)) 10; Some (0x2d # ds, as) }
             else do { ds \<leftarrow> i2a a 10; Some (ds, as) })
      else if c = 0x73 then
        (case args of [] \<Rightarrow> None
         | a # as \<Rightarrow> do { s \<leftarrow> read_cstr m a; if 255 < length s then None else Some (s, as) })
      else Some ([], args))"

text \<open>The padding; the loop counter is an \<^verbatim>\<open>int\<close>, so a count of \<open>2\<^sup>31\<close> is never reached.\<close>

definition pad :: "u32 \<Rightarrow> u8 \<Rightarrow> u8 list \<Rightarrow> u8 list option" where
  "pad align_nr cs inner =
     (let l = of_nat (length inner) :: u64;
          k = (if l < scast align_nr then scast align_nr - l else 0)
      in if 2 ^ 31 \<le> unat k then None else Some (replicate (unat k) cs))"

text \<open>The characters stored in \<^verbatim>\<open>buf\<close>, before the final zero.\<close>

partial_function (option) vsprintf :: "mem \<Rightarrow> u64 \<Rightarrow> u64 list \<Rightarrow> u8 list option" where
  "vsprintf m fmt args =
     (if m fmt = 0 then Some []
      else if m fmt \<noteq> 0x25 then do { r \<leftarrow> vsprintf m (fmt + 1) args; Some (m fmt # r) }
      else if m (fmt + 1) = 0x25 then do { r \<leftarrow> vsprintf m (fmt + 2) args; Some (0x25 # r) }
      else do {
        (align_nr, fmt') \<leftarrow> (if m (fmt + 1) = 0x30 then read_width m (fmt + 2) 0
                              else read_width m (fmt + 1) 0);
        (inner, args') \<leftarrow> convert m (m fmt') args;
        ps \<leftarrow> pad align_nr (if m (fmt + 1) = 0x30 then 0x30 else 0x20) inner;
        r \<leftarrow> vsprintf m (fmt' + 1) args';
        Some (ps @ inner @ r)
      })"

definition sprintf :: "mem \<Rightarrow> u64 \<Rightarrow> u64 list \<Rightarrow> (int \<times> u8 list) option" where
  "sprintf m fmt args = do { s \<leftarrow> vsprintf m fmt args; Some (int (length s), s @ [0]) }"

text \<open>\<^verbatim>\<open>printk\<close> formats into 256 bytes of stack and sends the text up to its first zero byte
  to the console and the serial port, in that order character by character.\<close>

datatype outev = To_console u8 | To_port u16 u8

definition printk :: "mem \<Rightarrow> u64 \<Rightarrow> u64 list \<Rightarrow> outev list \<Rightarrow> (int \<times> outev list) option" where
  "printk m fmt args ev = do {
     s \<leftarrow> vsprintf m fmt args;
     if 255 < length s then None
     else Some (int (length s),
       ev @ concat (map (\<lambda>c. [To_console c, To_port 0x3f8 c]) (takeWhile (\<lambda>c. c \<noteq> 0) s)))
   }"

section \<open>Copying and comparing memory\<close>

text \<open>Offsets below a length inside the address space do not wrap.\<close>

lemma unat_small_nat: "i < 2 ^ 64 \<Longrightarrow> unat (of_nat i :: u64) = i"
  by (simp add: unsigned_of_nat take_bit_nat_eq_self)

lemma off_less:
  assumes "unat p + n \<le> 2 ^ 64" "i < n"
  shows "unat (p + of_nat i :: u64) = unat p + i"
  using assms by (subst unat_plus_no_wrap) (simp_all add: unat_small_nat)

lemma off_diff:
  assumes "i < 2 ^ 64"
  shows "a = (p :: u64) + of_nat i \<longleftrightarrow> unat (a - p) = i"
proof
  assume "unat (a - p) = i"
  then have "a - p = of_nat i" by auto
  then show "a = p + of_nat i" by (simp add: algebra_simps)
qed (use assms in \<open>simp add: unat_small_nat\<close>)

text \<open>Bytes at different offsets of two areas, and one that a copy has already passed.\<close>

lemma off_neq:
  fixes p q d :: u64
  assumes "unat p + n \<le> 2 ^ 64" "unat q + n \<le> 2 ^ 64" "unat d < n" "i < n"
    and "unat q + unat d \<noteq> unat p + i"
  shows "q + d \<noteq> p + of_nat i"
  using off_less [of p n i] off_less [of q n "unat d"] assms by auto

lemma memcpy_down_eq:
  assumes "src < dst" "unat dst + n \<le> 2 ^ 64"
  shows "memcpy_down dst src n m = (\<lambda>a. if unat (a - dst) < n then m (src + (a - dst)) else m a)"
  using assms(2)
proof (induction n arbitrary: m)
  case (Suc n)
  define m' where "m' = m(dst + of_nat n := m (src + of_nat n))"
  have n: "n < 2 ^ 64" using Suc.prems by simp
  have rd: "m' (src + (a - dst)) = m (src + (a - dst))" if "unat (a - dst) < n" for a
    using off_neq [of dst "Suc n" src "a - dst" n] that assms(1) Suc.prems
    by (simp add: word_less_nat_alt m'_def)
  have same: "m' a = (if unat (a - dst) = n then m (src + (a - dst)) else m a)" for a
    using off_diff [OF n, of a dst] by (auto simp: m'_def)
  have "memcpy_down dst src (Suc n) m = memcpy_down dst src n m'" by (simp add: m'_def)
  then have e: "memcpy_down dst src (Suc n) m a =
      (if unat (a - dst) < n then m' (src + (a - dst)) else m' a)" for a
    using Suc.IH [of m'] Suc.prems by simp
  show ?case
  proof (rule ext)
    fix a
    show "memcpy_down dst src (Suc n) m a =
        (if unat (a - dst) < Suc n then m (src + (a - dst)) else m a)"
      using e [of a] rd [of a] same [of a] by (simp add: less_Suc_eq)
  qed
qed simp

lemma memcpy_up_eq:
  assumes "dst \<le> src" "unat src + n \<le> 2 ^ 64" "i \<le> n"
  shows "memcpy_up dst src i n m =
    (\<lambda>a. if i \<le> unat (a - dst) \<and> unat (a - dst) < n then m (src + (a - dst)) else m a)"
  using assms(3)
proof (induction i arbitrary: m rule: inc_induct)
  case base
  show ?case by (auto simp: memcpy_up.simps fun_eq_iff)
next
  case (step i)
  define m' where "m' = m(dst + of_nat i := m (src + of_nat i))"
  have i: "i < 2 ^ 64" using step.hyps assms(2) by simp
  have rd: "m' (src + (a - dst)) = m (src + (a - dst))" if "Suc i \<le> unat (a - dst)" "unat (a - dst) < n" for a
    using off_neq [of dst n src "a - dst" i] that assms(1,2) step.hyps
    by (simp add: word_le_nat_alt m'_def)
  have same: "m' a = (if unat (a - dst) = i then m (src + (a - dst)) else m a)" for a
    using off_diff [OF i, of a dst] by (auto simp: m'_def)
  have e: "memcpy_up dst src i n m = memcpy_up dst src (Suc i) n m'"
    using step.hyps by (simp add: memcpy_up.simps [of dst src i] m'_def)
  show ?case
  proof (rule ext)
    fix a
    show "memcpy_up dst src i n m a =
        (if i \<le> unat (a - dst) \<and> unat (a - dst) < n then m (src + (a - dst)) else m a)"
      using step.hyps fun_cong [OF step.IH [of m'], of a] rd [of a] same [of a]
      by (simp add: e Suc_le_eq split: if_splits)
  qed
qed

lemma memcpy_moves_lemma:
  assumes "dst \<noteq> 0" "src \<noteq> 0" "0 \<le> sz"
    and "unat dst + nat sz \<le> 2 ^ 64" "unat src + nat sz \<le> 2 ^ 64"
  shows "memcpy dst src sz m =
    (\<lambda>a. if int (unat (a - dst)) < sz then m (src + (a - dst)) else m a)"
  using assms memcpy_down_eq [of src dst "nat sz" m] memcpy_up_eq [of dst src "nat sz" 0 m]
  by (auto simp: memcpy_def fun_eq_iff zless_nat_eq_int_zless not_less)

text \<open>C21. \<^verbatim>\<open>memcpy\<close> copies every byte of the source as it was before the call, wherever the
  two areas overlap, and changes no byte outside the destination.\<close>

theorem memcpy_moves:
  assumes "dst \<noteq> 0" "src \<noteq> 0" "0 \<le> sz"
    and "unat dst + nat sz \<le> 2 ^ 64" "unat src + nat sz \<le> 2 ^ 64"
  shows "memcpy dst src sz m =
    (\<lambda>a. if int (unat (a - dst)) < sz then m (src + (a - dst)) else m a)"
  using assms by (rule memcpy_moves_lemma)

lemma memcpy_moves_witness:
  "memcpy 0x101 0x100 3 (\<lambda>a. ucast a) 0x103 = 2"
  using memcpy_moves [of "0x101" "0x100" 3 "\<lambda>a. ucast a"] by simp

lemma memset_loop_eq:
  assumes "n < 2 ^ 64" "i \<le> n"
  shows "memset_loop dst v i n m = (\<lambda>a. if i \<le> unat (a - dst) \<and> unat (a - dst) < n then v else m a)"
  using assms(2)
proof (induction i arbitrary: m rule: inc_induct)
  case base
  show ?case by (auto simp: memset_loop.simps fun_eq_iff)
next
  case (step i)
  define m' where "m' = m(dst + of_nat i := v)"
  have same: "m' a = (if unat (a - dst) = i then v else m a)" for a
    using off_diff [of i a dst] step.hyps assms(1) by (auto simp: m'_def)
  have e: "memset_loop dst v i n m = memset_loop dst v (Suc i) n m'"
    using step.hyps by (simp add: memset_loop.simps [of dst v i] m'_def)
  show ?case
    by (rule ext, use step.hyps in \<open>auto simp: e step.IH same Suc_le_eq le_less\<close>)
qed

lemma memset_fills:
  assumes "dst \<noteq> 0" "0 \<le> sz" "sz < 2 ^ 64"
  shows "memset dst v sz m = (\<lambda>a. if int (unat (a - dst)) < sz then v else m a)"
  using assms memset_loop_eq [of "nat sz" 0 dst v m]
  by (auto simp: memset_def fun_eq_iff zless_nat_eq_int_zless nat_less_iff)

lemma sint_inject: "sint (x :: 'a::len word) = sint y \<longleftrightarrow> x = y"
  using word_eq_iff_signed [of x y] by blast

lemma memcmp_loop_zero:
  assumes "i \<le> n"
  shows "memcmp_loop s1 s2 i n m = 0 \<longleftrightarrow> (\<forall>j. i \<le> j \<and> j < n \<longrightarrow> m (s1 + of_nat j) = m (s2 + of_nat j))"
  using assms
proof (induction i rule: inc_induct)
  case (step i)
  have "(\<forall>j. i \<le> j \<and> j < n \<longrightarrow> P j) \<longleftrightarrow> P i \<and> (\<forall>j. Suc i \<le> j \<and> j < n \<longrightarrow> P j)" for P
    using step.hyps by (metis Suc_leD Suc_leI le_neq_implies_less order_refl)
  then show ?case
    using step by (simp add: memcmp_loop.simps [of s1 s2 i] sint_inject)
qed (auto simp: memcmp_loop.simps)

lemma memcmp_zero:
  "memcmp s1 s2 sz m = 0 \<longleftrightarrow> (\<forall>j < nat sz. m (s1 + of_nat j) = m (s2 + of_nat j))"
  by (simp add: memcmp_def memcmp_loop_zero)


section \<open>Strings in memory\<close>

text \<open>The text \<^verbatim>\<open>s\<close>, without a zero byte, stands at \<^verbatim>\<open>p\<close> and is terminated.\<close>

fun cstr :: "mem \<Rightarrow> u64 \<Rightarrow> u8 list \<Rightarrow> bool" where
  "cstr m p [] = (m p = 0)"
| "cstr m p (c # s) = (c \<noteq> 0 \<and> m p = c \<and> cstr m (p + 1) s)"

lemma strlen_from_cstr: "cstr m p s \<Longrightarrow> strlen_from m q p = Some (p + of_nat (length s) - q)"
  by (induction s arbitrary: p) (simp_all add: strlen_from.simps algebra_simps)

lemma strlen_cstr: "cstr m p s \<Longrightarrow> strlen p m = Some (of_nat (length s))"
  by (simp add: strlen_def strlen_from_cstr)

lemma cstr_nth:
  "cstr m p s \<Longrightarrow> i < length s \<Longrightarrow> m (p + of_nat i) = s ! i"
proof (induction s arbitrary: p i)
  case (Cons c s)
  then show ?case by (cases i) (auto simp: add.assoc [symmetric])
qed simp

lemma read_cstr_cstr: "cstr m p s \<Longrightarrow> read_cstr m p = Some s"
  by (induction s arbitrary: p) (simp_all add: read_cstr.simps)

text \<open>\<^verbatim>\<open>strcmp\<close> of two terminated strings returns, and its sign is the lexicographic order
  of their bytes: 0 exactly for equal strings.\<close>

theorem strcmp_lex:
  assumes "cstr m p s" "cstr m q t"
  shows "strcmp p q m =
    Some (if s = t then 0 else if ord_class.lexordp s t then - 1 else 1)"
  using assms unfolding strcmp_def
proof (induction s arbitrary: p q t)
  case Nil
  then show ?case
    by (cases t) (auto simp: strcmp_loop.simps word_neq_0_conv Let_def)
next
  case (Cons c s)
  show ?case
  proof (cases t)
    case Nil
    then show ?thesis
      using Cons.prems by (auto simp: strcmp_loop.simps Let_def)
  next
    case (Cons d t')
    then show ?thesis
      using Cons.prems Cons.IH [of "p + 1" "q + 1" t'] by (auto simp: strcmp_loop.simps [of m p] Let_def)
  qed
qed

definition mem_of :: "u8 list \<Rightarrow> mem" where
  "mem_of bs = (\<lambda>a. if unat a < length bs then bs ! unat a else 0)"

lemma strcmp_lex_witness:
  "strcmp 0 3 (mem_of [0x61, 0x62, 0, 0x61, 0x63, 0]) = Some (- 1)"
  using strcmp_lex [of "mem_of [0x61, 0x62, 0, 0x61, 0x63, 0]" 0 "[0x61, 0x62]" 3 "[0x61, 0x63]"]
  by (simp add: mem_of_def)

section \<open>The case-blind comparisons\<close>

lemma sint_tolower_zero: "sint (tolower c) = 0 \<longleftrightarrow> c = 0x20"
  by (simp add: tolower_def signed_eq_0_iff)

lemma tolower_inject: "tolower c = tolower d \<longleftrightarrow> c = d"
  by (simp add: tolower_def)

lemma strcasecmp_loop_zero:
  assumes "strcasecmp_loop m p q = Some r"
  shows "r = 0 \<longrightarrow>
    (\<exists>n. m (p + of_nat n) = 0x20 \<and> (\<forall>i \<le> n. m (p + of_nat i) = m (q + of_nat i)))"
  using assms
proof (rule strcasecmp_loop.raw_induct [where P = "\<lambda>m p q r. r = 0 \<longrightarrow>
    (\<exists>n. m (p + of_nat n) = 0x20 \<and> (\<forall>i \<le> n. m (p + of_nat i) = m (q + of_nat i)))", rotated])
  fix loop and m :: mem and p q r
  assume IH: "\<And>m p q r. loop m p q = Some r \<Longrightarrow> r = 0 \<longrightarrow>
      (\<exists>n. m (p + of_nat n) = 0x20 \<and> (\<forall>i \<le> n. m (p + of_nat i) = m (q + of_nat i)))"
    and r: "(let c1 = sint (tolower (m p)); c2 = sint (tolower (m q)) in
      if c1 = c2 \<and> c1 \<noteq> 0 then loop m (p + 1) (q + 1) else Some (c1 - c2)) = Some r"
  show "r = 0 \<longrightarrow>
      (\<exists>n. m (p + of_nat n) = 0x20 \<and> (\<forall>i \<le> n. m (p + of_nat i) = m (q + of_nat i)))"
  proof (cases "sint (tolower (m p)) = sint (tolower (m q)) \<and> sint (tolower (m p)) \<noteq> 0")
    case True
    then have eq: "m p = m q" by (simp add: sint_inject tolower_inject)
    show ?thesis
    proof
      assume "r = 0"
      then obtain n where n: "m (p + 1 + of_nat n) = 0x20"
        "\<forall>i \<le> n. m (p + 1 + of_nat i) = m (q + 1 + of_nat i)"
        using r True IH [of m "p + 1" "q + 1" r] by (auto simp: Let_def)
      have "m (p + of_nat i) = m (q + of_nat i)" if "i \<le> Suc n" for i
        using that eq n(2) by (cases i) (auto simp: add.assoc [symmetric])
      then show "\<exists>n. m (p + of_nat n) = 0x20 \<and> (\<forall>i \<le> n. m (p + of_nat i) = m (q + of_nat i))"
        using n(1) by (intro exI [of _ "Suc n"]) (simp add: algebra_simps)
    qed
  next
    case False
    then have "r = sint (tolower (m p)) - sint (tolower (m q))"
      using r by (simp only: Let_def if_False option.inject)
    then have "m p = 0x20 \<and> m p = m q" if "r = 0"
      using that False sint_tolower_zero sint_inject tolower_inject by (metis right_minus_eq)
    then show ?thesis by (auto intro!: exI [of _ 0])
  qed
qed

lemma strcasecmp_loop_equal:
  "m (p + of_nat n) = 0x20 \<Longrightarrow> \<forall>i \<le> n. m (p + of_nat i) = m (q + of_nat i) \<Longrightarrow>
   strcasecmp_loop m p q = Some 0"
proof (induction n arbitrary: p q)
  case 0
  then show ?case by (simp add: strcasecmp_loop.simps Let_def tolower_def)
next
  case (Suc n)
  have "m p = m q" using spec [OF Suc.prems(2), of 0] by simp
  moreover have "\<forall>i \<le> n. m (p + 1 + of_nat i) = m (q + 1 + of_nat i)"
    using Suc.prems(2) [rule_format, of "Suc _"] by (simp add: add.assoc)
  ultimately show ?case
    using Suc.IH [of "p + 1" "q + 1"] Suc.prems(1)
    by (cases "m p = 0x20") (simp_all add: strcasecmp_loop.simps [of m p] Let_def sint_tolower_zero
        algebra_simps tolower_def)
qed

text \<open>\<^verbatim>\<open>strcasecmp\<close> returns 0 exactly when the two strings agree byte by byte up to and
  including a space. So it distinguishes letters of different case, it ignores everything
  behind the first space, and it runs past the terminators of two equal strings without one:
  \<^verbatim>\<open>tolower\<close> subtracts 0x20 from every character.\<close>

theorem strcasecmp_stops_at_space:
  "strcasecmp p q m = Some 0 \<longleftrightarrow>
   (\<exists>n. m (p + of_nat n) = 0x20 \<and> (\<forall>i \<le> n. m (p + of_nat i) = m (q + of_nat i)))"
  using strcasecmp_loop_zero [of m p q 0] strcasecmp_loop_equal [of m p _ q]
  by (auto simp: strcasecmp_def)


section \<open>Substring search\<close>

definition occurs :: "u8 list \<Rightarrow> u8 list \<Rightarrow> nat \<Rightarrow> bool" where
  "occurs b a k = (k + length b \<le> length a \<and> take (length b) (drop k a) = b)"

lemma memcmp_prefix:
  assumes "cstr m p a" "cstr m q b" "length b \<le> length a"
  shows "memcmp p q (int (length b)) m = 0 \<longleftrightarrow> take (length b) a = b"
proof -
  have "(\<forall>j < length b. a ! j = b ! j) \<longleftrightarrow> take (length b) a = b"
    using assms(3) by (auto simp: list_eq_iff_nth_eq)
  then show ?thesis
    using assms by (simp add: memcmp_zero cstr_nth)
qed

lemma occurs_Suc: "occurs b (c # a) (Suc k) \<longleftrightarrow> occurs b a k"
  by (simp add: occurs_def)

lemma strstr_loop_first:
  assumes "cstr m p a" "cstr m q b" "b \<noteq> []" "length b < 2 ^ 31" "length a < 2 ^ 63"
  shows "(\<exists>k. strstr_loop m p q (of_nat (length a)) (of_nat (length b)) = Some (p + of_nat k) \<and>
            occurs b a k \<and> (\<forall>j < k. \<not> occurs b a j)) \<or>
         strstr_loop m p q (of_nat (length a)) (of_nat (length b)) = Some 0 \<and> (\<forall>k. \<not> occurs b a k)"
  using assms(1,5)
proof (induction a arbitrary: p)
  case Nil
  have "\<not> (of_nat (length b) :: u64) \<le> 0"
    using assms(3,4) by (simp add: word_le_nat_alt unat_small_nat)
  then show ?case using assms(3) by (auto simp: strstr_loop.simps [of m p] occurs_def)
next
  case (Cons c a)
  let ?l2 = "of_nat (length b) :: u64"
  have le: "?l2 \<le> of_nat (length (c # a)) \<longleftrightarrow> length b \<le> length (c # a)"
    using assms(4) Cons.prems(2) by (simp add: word_le_nat_alt unat_small_nat del: of_nat_Suc)
  have sz: "sint (ucast ?l2 :: u32) = int (length b)"
  proof -
    have "ucast ?l2 = (of_nat (length b) :: u32)"
      using assms(4) by (simp add: unsigned_of_nat take_bit_nat_eq_self)
    then show ?thesis using assms(4) by (simp add: signed_of_nat signed_take_bit_int_eq_self)
  qed
  show ?case
  proof (cases "length b \<le> length (c # a)")
    case False
    then have "strstr_loop m p q (of_nat (length (c # a))) ?l2 = Some 0"
      using le by (simp only: strstr_loop.simps [of m p] if_False)
    then show ?thesis using False by (auto simp: occurs_def)
  next
    case True
    have eq: "memcmp p q (int (length b)) m = 0 \<longleftrightarrow> occurs b (c # a) 0"
      using memcmp_prefix [OF Cons.prems(1) assms(2) True] True by (simp add: occurs_def)
    have step: "strstr_loop m p q (of_nat (length (c # a))) ?l2 =
        (if occurs b (c # a) 0 then Some p else strstr_loop m (p + 1) q (of_nat (length a)) ?l2)"
      using True le by (subst strstr_loop.simps) (simp add: Let_def sz eq)
    show ?thesis
    proof (cases "occurs b (c # a) 0")
      case True
      then show ?thesis using step by (intro disjI1 exI [of _ 0]) simp
    next
      case False
      have tail: "strstr_loop m p q (of_nat (length (c # a))) ?l2 =
          strstr_loop m (p + 1) q (of_nat (length a)) ?l2" using step False by simp
      have none: "\<not> occurs b (c # a) j" if "\<And>i. j = Suc i \<Longrightarrow> \<not> occurs b a i" for j
        using that False by (cases j) (auto simp: occurs_Suc)
      have "cstr m (p + 1) a" "length a < 2 ^ 63" using Cons.prems by auto
      from Cons.IH [OF this] show ?thesis
      proof (elim disjE exE conjE)
        fix k assume k: "strstr_loop m (p + 1) q (of_nat (length a)) ?l2 = Some (p + 1 + of_nat k)"
          "occurs b a k" "\<forall>j < k. \<not> occurs b a j"
        have "\<forall>j < Suc k. \<not> occurs b (c # a) j"
          by (intro allI impI, rule none) (use k(3) in auto)
        moreover have "p + 1 + of_nat k = p + of_nat (Suc k)" by simp
        then have "strstr_loop m p q (of_nat (length (c # a))) ?l2 = Some (p + of_nat (Suc k))"
          using k(1) unfolding tail by metis
        moreover have "occurs b (c # a) (Suc k)" using k(2) by (simp only: occurs_Suc)
        ultimately show ?thesis by blast
      next
        assume "strstr_loop m (p + 1) q (of_nat (length a)) ?l2 = Some 0" "\<forall>k. \<not> occurs b a k"
        moreover from this have "\<not> occurs b (c # a) j" for j by (intro none) simp
        ultimately show ?thesis unfolding tail by blast
      qed
    qed
  qed
qed

text \<open>For terminated strings shorter than \<open>2\<^sup>31\<close> and \<open>2\<^sup>63\<close> bytes \<^verbatim>\<open>strstr\<close> returns the address
  of the first occurrence, or NULL when there is none.\<close>

theorem strstr_first:
  assumes "cstr m p a" "cstr m q b" "length b < 2 ^ 31" "length a < 2 ^ 63"
  shows "(\<exists>k. strstr p q m = Some (p + of_nat k) \<and> occurs b a k \<and> (\<forall>j < k. \<not> occurs b a j)) \<or>
         strstr p q m = Some 0 \<and> (\<forall>k. \<not> occurs b a k)"
proof (cases "b = []")
  case True
  then show ?thesis
    using assms by (intro disjI1 exI [of _ 0]) (simp add: strstr_def strlen_cstr [OF assms(2)] occurs_def)
next
  case False
  then have "(of_nat (length b) :: u64) \<noteq> 0"
    using assms(3) unat_small_nat [of "length b"] by fastforce
  then have "strstr p q m = strstr_loop m p q (of_nat (length a)) (of_nat (length b))"
    by (simp add: strstr_def strlen_cstr [OF assms(2)] strlen_cstr [OF assms(1)])
  then show ?thesis using strstr_loop_first [OF assms(1,2) False assms(3,4)] by simp
qed

lemma strstr_first_witness:
  "strstr 0 5 (mem_of [0x61, 0x61, 0x62, 0x61, 0, 0x61, 0x62, 0]) = Some 1"
proof -
  let ?m = "mem_of [0x61, 0x61, 0x62, 0x61, 0, 0x61, 0x62, 0]"
  have o: "occurs [0x61, 0x62] [0x61, 0x61, 0x62, 0x61] k \<longleftrightarrow> k = 1" for k
    by (cases k rule: nat.exhaust; cases "k - 1"; cases "k - 2") (auto simp: occurs_def)
  show ?thesis
    using strstr_first [of ?m 0 "[0x61, 0x61, 0x62, 0x61]" 5 "[0x61, 0x62]"] unfolding o
    by (simp add: mem_of_def)
qed

section \<open>Numbers in print\<close>

definition digit_val :: "u8 \<Rightarrow> nat" where
  "digit_val c = (if c < 0x3a then unat c - 0x30 else unat c - 0x57)"

definition digits_val :: "nat \<Rightarrow> u8 list \<Rightarrow> nat" where
  "digits_val b ds = foldl (\<lambda>v c. v * b + digit_val c) 0 ds"

lemma digit_table:
  "\<forall>n \<in> set [0..<36]. digit_val (digit (of_nat n)) = n \<and> digit (of_nat n) \<noteq> 0 \<and> digit (of_nat n) \<noteq> 0x2d"
  by code_simp

lemma digit_facts:
  assumes "unat d < 36"
  shows "digit_val (digit d) = unat d" "digit d \<noteq> 0" "digit d \<noteq> 0x2d"
proof -
  have "unat d \<in> set [0..<36]" using assms by simp
  from digit_table [rule_format, OF this]
  show "digit_val (digit d) = unat d" "digit d \<noteq> 0" "digit d \<noteq> 0x2d" by simp_all
qed

text \<open>\<^verbatim>\<open>i2a\<close> returns for every base from 2 to 36, and the digits, without a leading zero, read
  back as the number.\<close>

lemma i2a_digits:
  assumes "2 \<le> unat b" "unat b \<le> 36"
  shows "\<exists>ds. i2a v b = Some ds \<and> digits_val (unat b) ds = unat v \<and> ds \<noteq> [] \<and>
           0 \<notin> set ds \<and> 0x2d \<notin> set ds \<and> (1 < length ds \<longrightarrow> unat b ^ (length ds - 1) \<le> unat v)"
proof (induction "unat v" arbitrary: v rule: less_induct)
  case less
  have b0: "b \<noteq> 0" using assms by auto
  have m: "unat (v mod b) < unat b" using assms by (simp add: unat_mod)
  note d = digit_facts [of "v mod b", OF order_less_le_trans [OF m assms(2)]]
  show ?case
  proof (cases "v div b = 0")
    case True
    then have "unat v div unat b = 0" by (metis unat_0 unat_div)
    then have "unat (v mod b) = unat v" using assms(1) by (simp add: unat_mod div_eq_0_iff)
    then show ?thesis
      using True b0 d by (subst i2a.simps) (simp add: digits_val_def Let_def)
  next
    case False
    have "unat (v div b) < unat v"
      using False assms(1) by (cases "v = 0") (simp_all add: unat_div div_less_dividend unat_gt_0)
    from less [OF this] obtain ds where ds: "i2a (v div b) b = Some ds"
      "digits_val (unat b) ds = unat (v div b)" "ds \<noteq> []" "0 \<notin> set ds" "0x2d \<notin> set ds"
      "1 < length ds \<longrightarrow> unat b ^ (length ds - 1) \<le> unat (v div b)" by blast
    have v: "unat v = unat (v div b) * unat b + unat (v mod b)"
      by (simp add: unat_div unat_mod)
    have "unat b ^ length ds \<le> unat v"
    proof (cases "1 < length ds")
      case True
      then have "unat b ^ length ds = unat b ^ (length ds - 1) * unat b"
        by (cases "length ds") simp_all
      also have "\<dots> \<le> unat (v div b) * unat b" using ds(6) True by simp
      finally show ?thesis using v by simp
    next
      case F: False
      then have "length ds = 1" using ds(3) by (cases ds) auto
      moreover have "1 \<le> unat (v div b)" using False by (simp add: unat_eq_0 Suc_le_eq unat_gt_0)
      then have "1 * unat b \<le> unat (v div b) * unat b" by (rule mult_le_mono1)
      ultimately show ?thesis unfolding v by (metis mult_1 power_one_right trans_le_add1)
    qed
    then show ?thesis
      using False b0 d ds v by (subst i2a.simps) (simp add: digits_val_def Let_def)
  qed
qed

lemma i2a_16:
  obtains ds where "i2a v 16 = Some ds" "digits_val 16 ds = unat v" "0 \<notin> set ds"
    "ds \<noteq> []" "length ds \<le> 16"
proof -
  obtain ds where ds: "i2a v 16 = Some ds" "digits_val 16 ds = unat v" "ds \<noteq> []" "0 \<notin> set ds"
    "1 < length ds \<longrightarrow> 16 ^ (length ds - 1) \<le> unat v"
    using i2a_digits [of 16 v] by auto
  have "length ds \<le> 16"
  proof (rule ccontr)
    assume "\<not> length ds \<le> 16"
    then have "(16::nat) ^ 16 \<le> 16 ^ (length ds - 1)" by (intro power_increasing) auto
    also have "\<dots> \<le> unat v" using ds(5) \<open>\<not> length ds \<le> 16\<close> by simp
    also have "\<dots> < 2 ^ 64" using unsigned_less [of v, where ?'a = nat] by simp
    finally show False by simp
  qed
  then show ?thesis using that ds by blast
qed

lemma digits_val_zeros: "digits_val b (replicate n 0x30 @ ds) = digits_val b ds"
proof -
  have "foldl (\<lambda>v c. v * b + digit_val c) 0 (replicate n 0x30) = 0"
    by (induction n) (simp_all add: digit_val_def)
  then show ?thesis by (simp add: digits_val_def)
qed

lemma pad_16:
  assumes "length ds \<le> 16"
  shows "pad 16 cs ds = Some (replicate (16 - length ds) cs)"
proof -
  have l: "unat (of_nat (length ds) :: u64) = length ds" using assms by (intro unat_small_nat) simp
  show ?thesis
  proof (cases "length ds = 16")
    case True
    then show ?thesis by (simp add: pad_def Let_def)
  next
    case False
    then have "(of_nat (length ds) :: u64) < 16" using assms l by (simp add: word_less_nat_alt)
    then show ?thesis
      using assms l by (simp add: pad_def Let_def unat_sub word_less_nat_alt word_le_nat_alt)
  qed
qed

text \<open>The kernel's usual address format \<^verbatim>\<open>%016x\<close> prints exactly sixteen characters, which read
  as hexadecimal digits give back the argument.\<close>

theorem vsprintf_hex16:
  assumes "cstr m p [0x25, 0x30, 0x31, 0x36, 0x78]"
  shows "\<exists>s. vsprintf m p [v] = Some s \<and> length s = 16 \<and> digits_val 16 s = unat v"
proof -
  obtain ds where ds: "i2a v 16 = Some ds" "digits_val 16 ds = unat v" "length ds \<le> 16"
    using i2a_16 [of v] by metis
  have mem: "m p = 0x25" "m (p + 1) = 0x30" "m (p + 2) = 0x31" "m (p + 3) = 0x36" "m (p + 4) = 0x78"
    "m (p + 5) = 0"
    using assms by (simp_all add: add.assoc)
  have w: "read_width m (p + 2) 0 = Some (16, p + 4)"
    using mem by (simp add: read_width.simps [of m "2 + p"] read_width.simps [of m "3 + p"]
      read_width.simps [of m "4 + p"] add.commute [of p])
  have c: "convert m 0x78 [v] = Some (ds, [])" using ds by (simp add: convert_def)
  have "vsprintf m p [v] = Some (replicate (16 - length ds) 0x30 @ ds)"
    using mem w c pad_16 [OF ds(3), of "0x30"]
    by (subst vsprintf.simps) (simp add: vsprintf.simps [of m "5 + p"] add.commute [of p])
  then show ?thesis using ds by (simp add: digits_val_zeros)
qed

lemma vsprintf_hex16_witness:
  "\<exists>s. vsprintf (mem_of [0x25, 0x30, 0x31, 0x36, 0x78]) 0 [0xfee00000] = Some s \<and> length s = 16"
  using vsprintf_hex16 [of "mem_of [0x25, 0x30, 0x31, 0x36, 0x78]" 0 "0xfee00000"]
  by (auto simp: mem_of_def)

text \<open>What a decimal text denotes.\<close>

definition decimal_val :: "u8 list \<Rightarrow> int" where
  "decimal_val s =
     (if s \<noteq> [] \<and> List.hd s = 0x2d then - int (digits_val 10 (tl s)) else int (digits_val 10 s))"

lemma i2a_10:
  obtains ds where "i2a v 10 = Some ds" "digits_val 10 ds = unat v" "ds \<noteq> []" "List.hd ds \<noteq> 0x2d"
    "0 \<notin> set ds"
proof -
  obtain ds where ds: "i2a v 10 = Some ds" "digits_val 10 ds = unat v" "ds \<noteq> []"
    "0x2d \<notin> set ds" "0 \<notin> set ds"
    using i2a_digits [of 10 v] by auto
  then have "List.hd ds \<noteq> 0x2d" by (cases ds) auto
  with ds show ?thesis using that by blast
qed

lemma pad_0: "length ds < 2 ^ 64 \<Longrightarrow> pad 0 cs ds = Some []"
  by (simp add: pad_def Let_def)

lemma sint_uint_64:
  fixes v :: u64
  shows "sint v < 0 \<Longrightarrow> sint v = uint v - 2 ^ 64" and "\<not> sint v < 0 \<Longrightarrow> sint v = uint v"
proof -
  have "sint v = uint v - 2 ^ 64 * of_bool (bit (uint v) 63)"
    by (subst sint_uint) (simp add: signed_take_bit_eq_take_bit_minus take_bit_int_eq_self
        unsigned_less [of v, where ?'a = int, simplified])
  moreover have "uint v < 2 ^ 64" using unsigned_less [of v, where ?'a = int] by simp
  ultimately show "sint v < 0 \<Longrightarrow> sint v = uint v - 2 ^ 64" "\<not> sint v < 0 \<Longrightarrow> sint v = uint v"
    by (cases "bit (uint v) 63"; simp)+
qed

text \<open>\<^verbatim>\<open>%d\<close> prints every 64-bit argument, the most negative one included, so that the text
  read as a decimal number is the argument.\<close>

theorem vsprintf_decimal:
  assumes "cstr m p [0x25, 0x64]"
  shows "\<exists>s. vsprintf m p [v] = Some s \<and> decimal_val s = sint v"
proof -
  have mem: "m p = 0x25" "m (p + 1) = 0x64" "m (p + 2) = 0"
    using assms by (simp_all add: add.assoc)
  have w: "read_width m (p + 1) 0 = Some (0, p + 1)"
    using mem by (simp add: read_width.simps [of m "p + 1"])
  have run: "vsprintf m p [v] = Some ds" if "convert m 0x64 [v] = Some (ds, [])" for ds
    using mem w that by (subst vsprintf.simps) (simp add: vsprintf.simps [of m "2 + p"] add.commute [of p] pad_def)
  show ?thesis
  proof (cases "sint v < 0")
    case True
    obtain ds where ds: "i2a (- v) 10 = Some ds" "digits_val 10 ds = unat (- v)"
      using i2a_10 [of "- v"] by metis
    have "vsprintf m p [v] = Some (0x2d # ds)"
      using True ds by (intro run) (simp add: convert_def)
    moreover have "v \<noteq> 0" using True by auto
    then have "int (unat (- v)) = - sint v"
      using True sint_uint_64(1) [OF True]
      by (simp add: uint_word_ariths zmod_zminus1_eq_if unsigned_eq_0_iff)
    ultimately show ?thesis using ds by (simp add: decimal_val_def)
  next
    case False
    obtain ds where ds: "i2a v 10 = Some ds" "digits_val 10 ds = unat v" "ds \<noteq> []" "List.hd ds \<noteq> 0x2d"
      using i2a_10 [of v] by metis
    have "vsprintf m p [v] = Some ds"
      using False ds by (intro run) (simp add: convert_def)
    moreover have "int (unat v) = sint v" using sint_uint_64(2) [OF False] by simp
    ultimately show ?thesis using ds by (simp add: decimal_val_def)
  qed
qed

lemma vsprintf_decimal_witness:
  "\<exists>s. vsprintf (mem_of [0x25, 0x64]) 0 [- 2] = Some s \<and> decimal_val s = - 2"
  using vsprintf_decimal [of "mem_of [0x25, 0x64]" 0 "- 2"] by (simp add: mem_of_def)

end
