(* ===== verification/Sched.thy ===== *)
theory Sched
  imports Nodes C_String "HOL-Library.Multiset"
begin

text \<open>
  The scheduler: \<^verbatim>\<open>kernel/task.c\<close>, \<^verbatim>\<open>include/task.h\<close>, and the task part of the architecture,
  \<^verbatim>\<open>arch/x86_64/kernel/task.c\<close> and \<^verbatim>\<open>arch/x86_64/mm/tlb.c\<close>. Tasks live in a heap by address,
  a run queue holds the list of its tasks, \<^verbatim>\<open>NULL\<close> is 0. The executing processor is the
  argument \<^verbatim>\<open>cpuid\<close>, the value of \<^verbatim>\<open>arch_cpuid()\<close>. Writing through NULL is
  \<^verbatim>\<open>None\<close>. Each critical section is one step; their locking is the subject of
  \<^verbatim>\<open>Spinlock\<close>.
\<close>

section \<open>State\<close>

record task =
  t_stack :: u64
  t_sp :: u64
  t_state :: u32
  t_id :: u32
  t_cpu :: u32
  t_prio :: u32
  t_counter :: u32
  t_pgd :: u64

definition TASK_STATE_RUNNING :: u32 where "TASK_STATE_RUNNING = 0"
definition TASK_STATE_SLEEPING :: u32 where "TASK_STATE_SLEEPING = 1"
definition TASK_STATE_KILLED :: u32 where "TASK_STATE_KILLED = 2"

record irq_stack_frame =
  g_regs :: "u64 list"
  f_rip :: u64
  f_cs :: u64
  f_rflags :: u64
  f_rsp :: u64
  f_ss :: u64

record rq =
  rq_length :: u64
  rq_current :: u64
  rq_idle :: u64
  rq_tasks :: "u64 list"

text \<open>\<^verbatim>\<open>rqs\<close> is the array \<^verbatim>\<open>rq_list\<close>, \<^verbatim>\<open>rq_list_set\<close> whether the pointer to it is
  set. \<^verbatim>\<open>frames\<close> is the kernel stacks' register frames by address, \<^verbatim>\<open>switches\<close> the
  calls of \<^verbatim>\<open>__switch_to\<close>, oldest first.\<close>

record sched =
  ks :: kstate
  tasks :: "u64 \<Rightarrow> task"
  rq_list_set :: bool
  rqs :: "u64 \<Rightarrow> rq option"
  pid :: u64
  frames :: "u64 \<Rightarrow> irq_stack_frame"
  bytes :: mem
  cr3 :: u64
  tss_rsp0 :: "u64 \<Rightarrow> u64"
  switches :: "(u64 \<times> u64) list"

definition upd_task :: "u64 \<Rightarrow> (task \<Rightarrow> task) \<Rightarrow> sched \<Rightarrow> sched" where
  "upd_task t f s = s\<lparr>tasks := (tasks s)(t := f (tasks s t))\<rparr>"

definition upd_rq :: "u64 \<Rightarrow> (rq \<Rightarrow> rq) \<Rightarrow> sched \<Rightarrow> sched" where
  "upd_rq i f s = s\<lparr>rqs := (rqs s)(i := map_option f (rqs s i))\<rparr>"

definition sc_kmalloc :: "u64 \<Rightarrow> sched \<Rightarrow> (u64 \<times> sched) option" where
  "sc_kmalloc sz s = do { (v, k) \<leftarrow> ks_kmalloc sz (ks s); Some (v, s\<lparr>ks := k\<rparr>) }"

section \<open>Creating tasks\<close>

definition SELECTOR_KERNEL_CODE :: u64 where "SELECTOR_KERNEL_CODE = 16"
definition SELECTOR_KERNEL_DATA :: u64 where "SELECTOR_KERNEL_DATA = 32"
definition SELECTOR_USER_CODE :: u64 where "SELECTOR_USER_CODE = 48"
definition SELECTOR_USER_DATA :: u64 where "SELECTOR_USER_DATA = 64"

definition SIZEOF_TASK :: u64 where "SIZEOF_TASK = 96"
definition SIZEOF_RQ :: u64 where "SIZEOF_RQ = 48"

definition arch_init_kstack :: "u64 \<Rightarrow> u64 \<Rightarrow> u64 \<Rightarrow> bool \<Rightarrow> sched \<Rightarrow> sched" where
  "arch_init_kstack task fptr stack kern s =
     s\<lparr>frames := (frames s)(t_sp (tasks s task) :=
        \<lparr>g_regs = replicate 16 0, f_rip = fptr,
         f_cs = (if kern then SELECTOR_KERNEL_CODE else SELECTOR_USER_CODE),
         f_rflags = 0x286, f_rsp = stack,
         f_ss = (if kern then SELECTOR_KERNEL_DATA else SELECTOR_USER_DATA)\<rparr>)\<rparr>"

definition arch_init_mm :: "u64 \<Rightarrow> sched \<Rightarrow> sched option" where
  "arch_init_mm task s = do {
     (pgd, s) \<leftarrow> sc_kmalloc 0x1000 s;
     let s = upd_task task (t_pgd_update (\<lambda>_. pgd)) s;
     if pgd = 0 then None
     else Some (s\<lparr>bytes := memcpy pgd (PHYS2VIRT (cr3 s)) 0x1000 (bytes s)\<rparr>)
   }"

definition zero_task :: task where
  "zero_task = \<lparr>t_stack = 0, t_sp = 0, t_state = 0, t_id = 0, t_cpu = 0, t_prio = 0,
     t_counter = 0, t_pgd = 0\<rparr>"

text \<open>\<^verbatim>\<open>__create_task\<close>. The name of the C function begins with two underscores. Nothing
  checks the three allocations: the frame is written at the end of a stack at 0 and the page table is
  copied to 0 when there is no memory, which is \<open>None\<close> like every access through a null
  pointer.\<close>

definition create_task_struct ::
    "u64 \<Rightarrow> u32 \<Rightarrow> u32 \<Rightarrow> bool \<Rightarrow> u32 \<Rightarrow> sched \<Rightarrow> (u64 \<times> sched) option" where
  "create_task_struct fptr prio kstack_size kern cpu s = do {
     (task, s) \<leftarrow> sc_kmalloc SIZEOF_TASK s;
     if task = 0 then None
     else do {
       let s = upd_task task (\<lambda>_. zero_task) s;
       (stack, s) \<leftarrow> sc_kmalloc (scast kstack_size) s;
       let s = upd_task task (t_stack_update (\<lambda>_. stack)) s;
       let s = upd_task task (t_sp_update (\<lambda>_. stack + scast kstack_size - 0x200)) s;
       let s = upd_task task (t_prio_update (\<lambda>_. prio)) s;
       let s = upd_task task (t_id_update (\<lambda>_. ucast (pid s))) (s\<lparr>pid := pid s + 1\<rparr>);
       let s = upd_task task (t_counter_update (\<lambda>_. prio)) s;
       let s = upd_task task (t_cpu_update (\<lambda>_. cpu)) s;
       let s = upd_task task (t_state_update (\<lambda>_. TASK_STATE_RUNNING)) s;
       if stack = 0 then None
       else do {
         let s = arch_init_kstack task fptr (t_sp (tasks s task) + 0xa8) kern s;
         s \<leftarrow> arch_init_mm task s;
         Some (task, s)
       }
     }
   }"

text \<open>\<^verbatim>\<open>min_len\<close> is an \<^verbatim>\<open>int\<close>: it starts as -1, which compares as the largest unsigned
  number, and keeps the low 32 bits of a length.\<close>

function cpu_min_load_loop :: "sched \<Rightarrow> nat \<Rightarrow> u32 \<Rightarrow> u32 \<Rightarrow> u32 option" where
  "cpu_min_load_loop s i min_len min_cpu_idx =
     (if i < unat (nr_cpus (ks s)) then
        (case get_cpu_by_index (of_nat i) (ks s) of
           None \<Rightarrow> None
         | Some c \<Rightarrow>
             if cpu_status (cpus (ks s) c) \<noteq> CPU_STATUS_OFFLINE then
               (case rqs s (of_nat i) of
                  None \<Rightarrow> None
                | Some r \<Rightarrow>
                    if rq_length r < scast min_len
                    then cpu_min_load_loop s (i + 1) (ucast (rq_length r)) (of_nat i)
                    else cpu_min_load_loop s (i + 1) min_len min_cpu_idx)
             else cpu_min_load_loop s (i + 1) min_len min_cpu_idx)
      else Some min_cpu_idx)"
  by pat_completeness auto
termination by (relation "measure (\<lambda>(s, i, _, _). unat (nr_cpus (ks s)) - i)") auto

declare cpu_min_load_loop.simps [simp del]

definition cpu_min_load :: "sched \<Rightarrow> u32 option" where
  "cpu_min_load s = cpu_min_load_loop s 0 0xffffffff 0"

definition rq_enqueue :: "u64 \<Rightarrow> u64 \<Rightarrow> sched \<Rightarrow> sched option" where
  "rq_enqueue i task s =
     (case rqs s i of
        None \<Rightarrow> None
      | Some r \<Rightarrow> Some (upd_rq i (rq_length_update (\<lambda>l. l + 1))
                        (upd_rq i (rq_tasks_update (\<lambda>ts. ts @ [task])) s)))"

text \<open>\<^verbatim>\<open>create_task\<close> declares a result and returns none; the task comes with the state.\<close>

definition create_task :: "u64 \<Rightarrow> u32 \<Rightarrow> u32 \<Rightarrow> bool \<Rightarrow> u32 \<Rightarrow> sched \<Rightarrow> (u64 \<times> sched) option" where
  "create_task fptr prio kstack_size kern cpu s = do {
     (task, s) \<leftarrow> create_task_struct fptr prio kstack_size kern cpu s;
     if cpu = - 1 then do {
       m \<leftarrow> cpu_min_load s;
       let s = upd_task task (t_cpu_update (\<lambda>_. m)) s;
       s \<leftarrow> rq_enqueue (scast m) task s;
       Some (task, s)
     } else do {
       s \<leftarrow> rq_enqueue (scast cpu) task s;
       Some (task, s)
     }
   }"

text \<open>Initialisation; \<^verbatim>\<open>idle_fun\<close> is the address of \<^verbatim>\<open>idle_task\<close>.\<close>

definition rq_init :: "u64 \<Rightarrow> u64 \<Rightarrow> sched \<Rightarrow> sched option" where
  "rq_init idle_fun i s = do {
     let s = upd_rq i (rq_length_update (\<lambda>_. 0)) s;
     let s = upd_rq i (rq_tasks_update (\<lambda>_. [])) s;
     (idle, s) \<leftarrow> create_task_struct idle_fun (- 1) 0x1000 True 0 s;
     let s = upd_rq i (rq_idle_update (\<lambda>_. idle)) s;
     Some (upd_rq i (rq_current_update (\<lambda>_. 0)) s)
   }"

function task_init_loop :: "u64 \<Rightarrow> nat \<Rightarrow> nat \<Rightarrow> sched \<Rightarrow> sched option" where
  "task_init_loop idle_fun i n s =
     (if i < n then do {
        (p, s) \<leftarrow> sc_kmalloc SIZEOF_RQ s;
        if p = 0 then None
        else do {
          let s = s\<lparr>rqs := (rqs s)(of_nat i :=
                    Some \<lparr>rq_length = 0, rq_current = 0, rq_idle = 0, rq_tasks = []\<rparr>)\<rparr>;
          s \<leftarrow> rq_init idle_fun (of_nat i) s;
          task_init_loop idle_fun (i + 1) n s
        }
      } else Some s)"
  by pat_completeness auto
termination by (relation "measure (\<lambda>(_, i, n, _). n - i)") auto

declare task_init_loop.simps [simp del]

definition task_init :: "u64 \<Rightarrow> sched \<Rightarrow> sched option" where
  "task_init idle_fun s = do {
     (p, s) \<leftarrow> sc_kmalloc (nr_cpus (ks s) * 8) s;
     let s = s\<lparr>rq_list_set := (p \<noteq> 0)\<rparr>;
     if p = 0 then (if nr_cpus (ks s) = 0 then Some s else None)
     else task_init_loop idle_fun 0 (unat (nr_cpus (ks s))) s
   }"

section \<open>Moving a task\<close>

text \<open>\<^verbatim>\<open>list_del\<close> takes the task off whatever queue it is on.\<close>

definition list_del_task :: "u64 \<Rightarrow> sched \<Rightarrow> sched" where
  "list_del_task task s =
     s\<lparr>rqs := (\<lambda>i. map_option (rq_tasks_update (remove1 task)) (rqs s i))\<rparr>"

definition migrate_task :: "u64 \<Rightarrow> u32 \<Rightarrow> sched \<Rightarrow> sched option" where
  "migrate_task task cpu s =
     (if t_cpu (tasks s task) = cpu then Some s
      else if rqs s (scast (t_cpu (tasks s task))) = None \<or> rqs s (scast cpu) = None then None
      else let s = list_del_task task s;
               s = upd_rq (scast cpu) (rq_tasks_update (\<lambda>ts. ts @ [task])) s
           in Some (upd_task task (t_cpu_update (\<lambda>_. cpu)) s))"

section \<open>Choosing the next task\<close>

definition running :: "sched \<Rightarrow> u64 \<Rightarrow> bool" where
  "running s t = (t_state (tasks s t) = TASK_STATE_RUNNING)"

text \<open>\<^verbatim>\<open>counter\<close> is an \<^verbatim>\<open>int\<close> compared with an unsigned 64-bit maximum.\<close>

definition key :: "sched \<Rightarrow> u64 \<Rightarrow> u64" where
  "key s t = scast (t_counter (tasks s t))"

fun pick_scan :: "sched \<Rightarrow> u64 list \<Rightarrow> u64 \<Rightarrow> u64 \<Rightarrow> u64" where
  "pick_scan s [] max_counter cand = cand"
| "pick_scan s (t # ts) max_counter cand =
     (if running s t \<and> max_counter \<le> key s t then pick_scan s ts (key s t) t
      else pick_scan s ts max_counter cand)"

fun pick_refill :: "u64 list \<Rightarrow> sched \<Rightarrow> sched" where
  "pick_refill [] s = s"
| "pick_refill (t # ts) s =
     pick_refill ts (if running s t then upd_task t (\<lambda>k. k\<lparr>t_counter := t_prio k\<rparr>) s else s)"

partial_function (option) pick_next_task :: "u64 list \<Rightarrow> u64 \<Rightarrow> sched \<Rightarrow> (u64 \<times> sched) option" where
  "pick_next_task ts cand s =
     (let cand = pick_scan s ts 0 cand in
      if ts \<noteq> [] \<and> cand \<noteq> 0 \<and> t_counter (tasks s cand) = 0
      then pick_next_task ts cand (pick_refill ts s)
      else Some (cand, s))"

section \<open>Switching\<close>

definition CR3_PCID_MASK :: u64 where "CR3_PCID_MASK = 0xfff"

definition switch_mm :: "u64 \<Rightarrow> sched \<Rightarrow> sched" where
  "switch_mm tsk s =
     s\<lparr>cr3 := VIRT2PHYS (t_pgd (tasks s tsk)) OR (scast (t_id (tasks s tsk)) AND CR3_PCID_MASK)\<rparr>"

definition switch_irq_stack :: "u64 \<Rightarrow> u64 \<Rightarrow> sched \<Rightarrow> sched option" where
  "switch_irq_stack cpuid stack s =
     (case get_cpu cpuid (ks s) of
        None \<Rightarrow> None
      | Some c \<Rightarrow> Some (s\<lparr>tss_rsp0 := (tss_rsp0 s)(c := stack)\<rparr>))"

definition switch_to :: "u64 \<Rightarrow> u64 \<Rightarrow> u64 \<Rightarrow> sched \<Rightarrow> sched option" where
  "switch_to cpuid prev nx s =
     (case get_cpu cpuid (ks s) of
        None \<Rightarrow> None
      | Some c \<Rightarrow> do {
          s \<leftarrow> switch_irq_stack cpuid (t_sp (tasks s nx)) s;
          Some (if cpu_status (cpus (ks s) c) \<noteq> CPU_STATUS_IRQ_CONTEXT
                then s\<lparr>switches := switches s @ [(prev, nx)]\<rparr> else s)
        })"

definition context_switch :: "u64 \<Rightarrow> u64 \<Rightarrow> u64 \<Rightarrow> u64 \<Rightarrow> sched \<Rightarrow> sched option" where
  "context_switch cpuid i prev nx s =
     (if nx = prev then Some s
      else switch_to cpuid prev nx (upd_rq i (rq_current_update (\<lambda>_. nx)) (switch_mm nx s)))"

definition schedule :: "u64 \<Rightarrow> sched \<Rightarrow> sched option" where
  "schedule cpuid s = do {
     c \<leftarrow> get_cpu cpuid (ks s);
     let i = cpu_index (cpus (ks s) c);
     r \<leftarrow> rqs s i;
     (nx, s) \<leftarrow> pick_next_task (rq_tasks r) 0 s;
     context_switch cpuid i (rq_current r) (if nx = 0 then rq_idle r else nx) s
   }"

definition task_exit :: "u64 \<Rightarrow> u64 \<Rightarrow> sched \<Rightarrow> sched option" where
  "task_exit cpuid task s = schedule cpuid (upd_task task (t_state_update (\<lambda>_. TASK_STATE_KILLED)) s)"

definition get_current_task :: "u64 \<Rightarrow> sched \<Rightarrow> u64 option" where
  "get_current_task cpuid s =
     (if \<not> rq_list_set s then Some 0
      else do {
        c \<leftarrow> get_cpu cpuid (ks s);
        Some (case rqs s (cpu_index (cpus (ks s) c)) of None \<Rightarrow> 0 | Some r \<Rightarrow> rq_current r)
      })"

definition get_current_task_stack :: "u64 \<Rightarrow> sched \<Rightarrow> u64 option" where
  "get_current_task_stack cpuid s =
     map_option (\<lambda>t. if t = 0 then 0 else t_sp (tasks s t)) (get_current_task cpuid s)"

definition set_current_task_stack :: "u64 \<Rightarrow> u64 \<Rightarrow> sched \<Rightarrow> sched option" where
  "set_current_task_stack cpuid sp s =
     map_option (\<lambda>t. if t = 0 then s else upd_task t (t_sp_update (\<lambda>_. sp)) s)
       (get_current_task cpuid s)"

definition task_timer_tick :: "u64 \<Rightarrow> sched \<Rightarrow> sched option" where
  "task_timer_tick cpuid s = do {
     c \<leftarrow> get_cpu cpuid (ks s);
     r \<leftarrow> rqs s (cpu_index (cpus (ks s) c));
     let current = rq_current r;
     if current \<noteq> 0 \<and> current \<noteq> rq_idle r \<and> t_counter (tasks s current) \<noteq> 0
     then Some (upd_task current (t_counter_update (\<lambda>k. k - 1)) s)
     else schedule cpuid s
   }"

text \<open>One round of the idle loop, up to the \<^verbatim>\<open>hlt\<close>.\<close>

definition idle_task_round :: "u64 \<Rightarrow> sched \<Rightarrow> sched option" where
  "idle_task_round cpuid s = do {
     c \<leftarrow> get_cpu cpuid (ks s);
     Some (s\<lparr>ks := upd_cpu c (cpu_status_update (\<lambda>_. CPU_STATUS_IDLE)) (ks s)\<rparr>)
   }"

section \<open>What \<open>pick_next_task\<close> chooses\<close>

text \<open>\<open>t\<close> is the last of the tasks with the greatest counter.\<close>

definition last_max :: "sched \<Rightarrow> u64 list \<Rightarrow> u64 \<Rightarrow> bool" where
  "last_max s rs t =
     (\<exists>xs ys. rs = xs @ t # ys \<and> (\<forall>x \<in> set xs. key s x \<le> key s t) \<and> (\<forall>y \<in> set ys. key s y < key s t))"

lemma last_max_in: "last_max s rs t \<Longrightarrow> t \<in> set rs"
  by (auto simp: last_max_def)

lemma last_max_ge: "last_max s rs t \<Longrightarrow> x \<in> set rs \<Longrightarrow> key s x \<le> key s t"
  by (auto simp: last_max_def less_imp_le)

lemma last_max_Cons:
  "last_max s rs t \<Longrightarrow> key s u \<le> key s t \<Longrightarrow> last_max s (u # rs) t"
  by (auto simp: last_max_def) (metis append_Cons set_ConsD)

lemma last_max_hd:
  "\<forall>y \<in> set rs. key s y < key s t \<Longrightarrow> last_max s (t # rs) t"
  unfolding last_max_def by (intro exI [of _ "[]"] exI [of _ rs]) simp

lemma pick_scan_low:
  "\<forall>x \<in> set (filter (running s) ts). key s x < mx \<Longrightarrow> pick_scan s ts mx cand = cand"
  by (induction ts) (auto simp: not_less[symmetric])

lemma pick_scan_last_max:
  "\<exists>x \<in> set (filter (running s) ts). mx \<le> key s x \<Longrightarrow>
   last_max s (filter (running s) ts) (pick_scan s ts mx cand)"
proof (induction ts arbitrary: mx cand)
  case (Cons t ts)
  show ?case
  proof (cases "running s t \<and> mx \<le> key s t")
    case True
    show ?thesis
    proof (cases "\<exists>x \<in> set (filter (running s) ts). key s t \<le> key s x")
      case t: True
      then obtain x where x: "x \<in> set (filter (running s) ts)" "key s t \<le> key s x" by blast
      have lm: "last_max s (filter (running s) ts) (pick_scan s ts (key s t) t)"
        using Cons.IH [OF t] .
      have "key s t \<le> key s (pick_scan s ts (key s t) t)"
        using order_trans [OF x(2) last_max_ge [OF lm x(1)]] .
      from last_max_Cons [OF lm this] show ?thesis using True by simp
    next
      case False
      then have "pick_scan s ts (key s t) t = t" "\<forall>y \<in> set (filter (running s) ts). key s y < key s t"
        using pick_scan_low [of s ts "key s t" t] by (auto simp: not_le)
      then show ?thesis using True last_max_hd by simp
    qed
  next
    case False
    then have e: "\<exists>x \<in> set (filter (running s) ts). mx \<le> key s x"
      using Cons.prems by (auto split: if_splits)
    then obtain x where x: "x \<in> set (filter (running s) ts)" "mx \<le> key s x" by blast
    have lm: "last_max s (filter (running s) ts) (pick_scan s ts mx cand)"
      using Cons.IH [OF e] .
    have m: "mx \<le> key s (pick_scan s ts mx cand)"
      using order_trans [OF x(2) last_max_ge [OF lm x(1)]] .
    show ?thesis
    proof (cases "running s t")
      case True
      then have "key s t \<le> key s (pick_scan s ts mx cand)" using False m by auto
      from last_max_Cons [OF lm this] show ?thesis using True False by simp
    qed (use lm in simp)
  qed
qed simp

lemma ucast_scast_32: "ucast (scast x :: u64) = (x :: u32)"
proof (rule bit_word_eqI)
  fix n assume "n < LENGTH(32)"
  then have "n = 31 \<or> n < 31" by auto
  then show "bit (ucast (scast x :: u64) :: u32) n = bit x n"
    by (auto simp: bit_signed_iff bit_unsigned_iff min_def)
qed

lemma scast_zero: "(scast (x :: u32) :: u64) = 0 \<longleftrightarrow> x = 0"
  by (metis ucast_scast_32 unsigned_0 signed_0)

lemma key_zero: "key s t = 0 \<longleftrightarrow> t_counter (tasks s t) = 0"
  by (simp add: key_def scast_zero)

text \<open>The state after the refill.\<close>

lemma pick_refill_tasks:
  "tasks (pick_refill ts s) t =
     (if t \<in> set ts \<and> running s t then (tasks s t)\<lparr>t_counter := t_prio (tasks s t)\<rparr> else tasks s t)"
proof (induction ts arbitrary: s)
  case (Cons u ts)
  show ?case
    by (cases "running s u") (auto simp: Cons.IH running_def upd_task_def)
qed simp

lemma running_refill [simp]: "running (pick_refill ts s) t = running s t"
  by (simp add: running_def pick_refill_tasks)

lemma pick_scan_none: "filter (running s) ts = [] \<Longrightarrow> pick_scan s ts mx cand = cand"
  using pick_scan_low [of s ts mx cand] by simp

lemma pick_some:
  assumes "0 \<notin> set ts" "t \<in> set ts" "running s t" "t_counter (tasks s t) \<noteq> 0"
  shows "\<exists>p. pick_next_task ts cand s = Some (p, s) \<and> last_max s (filter (running s) ts) p"
proof -
  let ?p = "pick_scan s ts 0 cand"
  have lm: "last_max s (filter (running s) ts) ?p"
    using assms by (intro pick_scan_last_max) auto
  have "key s t \<le> key s ?p" using last_max_ge [OF lm, of t] assms by simp
  then have "key s ?p \<noteq> 0" using assms(4) key_zero by (metis word_le_0_iff)
  then show ?thesis
    using lm by (intro exI [of _ ?p]) (simp add: pick_next_task.simps [of ts cand s] Let_def key_zero)
qed

definition stuck :: "u64 list \<Rightarrow> sched \<Rightarrow> bool" where
  "stuck ts s \<longleftrightarrow> 0 \<notin> set ts \<and> (\<exists>t \<in> set ts. running s t) \<and>
     (\<forall>t \<in> set ts. running s t \<longrightarrow> t_counter (tasks s t) = 0 \<and> t_prio (tasks s t) = 0)"

lemma stuck_cand:
  assumes "stuck ts s"
  shows "pick_scan s ts 0 cand \<in> set ts \<and> running s (pick_scan s ts 0 cand)"
proof -
  have "last_max s (filter (running s) ts) (pick_scan s ts 0 cand)"
    using assms by (intro pick_scan_last_max) (auto simp: stuck_def)
  from last_max_in [OF this] show ?thesis by simp
qed

lemma pick_stuck:
  assumes "pick_next_task ts cand s = Some r"
  shows "\<not> stuck ts s"
  using assms
proof (rule pick_next_task.raw_induct [where P = "\<lambda>ts cand s r. \<not> stuck ts s", rotated])
  fix pick and ts cand s and r :: "u64 \<times> sched"
  assume IH: "\<And>ts cand s r. pick ts cand s = Some r \<Longrightarrow> \<not> stuck ts s"
    and r: "(let cand = pick_scan s ts 0 cand in
      if ts \<noteq> [] \<and> cand \<noteq> 0 \<and> t_counter (tasks s cand) = 0
      then pick ts cand (pick_refill ts s) else Some (cand, s)) = Some r"
  show "\<not> stuck ts s"
  proof
    assume st: "stuck ts s"
    have c: "pick_scan s ts 0 cand \<in> set ts" "running s (pick_scan s ts 0 cand)"
      using stuck_cand [OF st] by auto
    then have "pick ts (pick_scan s ts 0 cand) (pick_refill ts s) = Some r"
      using r st by (auto simp: Let_def stuck_def split: if_splits)
    then have "\<not> stuck ts (pick_refill ts s)" by (rule IH)
    then show False using st by (auto simp: stuck_def pick_refill_tasks)
  qed
qed

text \<open>C1. The choice. With no runnable task it is NULL; with a runnable task that has budget left it is
  the last one with the largest counter, and nothing changes; when every runnable task has used
  up its budget, all of them are refilled to their priority first and the choice is made among
  those; and if all their priorities are 0 too the function never returns.\<close>

theorem pick_next_task_spec:
  fixes s :: sched
  assumes "0 \<notin> set ts"
  defines "R \<equiv> filter (running s) ts"
  shows "(R = [] \<longrightarrow> pick_next_task ts 0 s = Some (0, s)) \<and>
    ((\<exists>t \<in> set R. t_counter (tasks s t) \<noteq> 0) \<longrightarrow>
       (\<exists>p. pick_next_task ts 0 s = Some (p, s) \<and> last_max s R p)) \<and>
    (R \<noteq> [] \<and> (\<forall>t \<in> set R. t_counter (tasks s t) = 0) \<and> (\<exists>t \<in> set R. t_prio (tasks s t) \<noteq> 0) \<longrightarrow>
       (\<exists>p. pick_next_task ts 0 s = Some (p, pick_refill ts s) \<and> last_max (pick_refill ts s) R p)) \<and>
    (R \<noteq> [] \<and> (\<forall>t \<in> set R. t_counter (tasks s t) = 0 \<and> t_prio (tasks s t) = 0) \<longrightarrow>
       pick_next_task ts 0 s = None)"
proof (intro conjI impI)
  assume "R = []"
  then show "pick_next_task ts 0 s = Some (0, s)"
    by (simp add: pick_next_task.simps [of ts 0 s] Let_def pick_scan_none R_def)
next
  assume "\<exists>t \<in> set R. t_counter (tasks s t) \<noteq> 0"
  then show "\<exists>p. pick_next_task ts 0 s = Some (p, s) \<and> last_max s R p"
    using pick_some [OF assms(1)] by (auto simp: R_def)
next
  assume z: "R \<noteq> [] \<and> (\<forall>t \<in> set R. t_counter (tasks s t) = 0) \<and> (\<exists>t \<in> set R. t_prio (tasks s t) \<noteq> 0)"
  let ?c = "pick_scan s ts 0 0"
  have lm: "last_max s (filter (running s) ts) ?c"
    using z by (intro pick_scan_last_max) (auto simp: R_def filter_empty_conv)
  have c: "?c \<in> set R" using last_max_in [OF lm] by (simp add: R_def)
  then have e: "pick_next_task ts 0 s = pick_next_task ts ?c (pick_refill ts s)"
    using z assms(1) by (subst pick_next_task.simps) (auto simp: Let_def R_def)
  obtain t where "t \<in> set ts" "running s t" "t_prio (tasks s t) \<noteq> 0" using z by (auto simp: R_def)
  then have "\<exists>p. pick_next_task ts ?c (pick_refill ts s) = Some (p, pick_refill ts s) \<and>
      last_max (pick_refill ts s) (filter (running (pick_refill ts s)) ts) p"
    using assms(1) by (intro pick_some) (auto simp: pick_refill_tasks)
  then show "\<exists>p. pick_next_task ts 0 s = Some (p, pick_refill ts s) \<and> last_max (pick_refill ts s) R p"
    unfolding e R_def by (simp cong: filter_cong)
next
  assume "R \<noteq> [] \<and> (\<forall>t \<in> set R. t_counter (tasks s t) = 0 \<and> t_prio (tasks s t) = 0)"
  then have "stuck ts s" using assms(1) by (auto simp: stuck_def R_def filter_empty_conv)
  then show "pick_next_task ts 0 s = None"
    by (cases "pick_next_task ts 0 s") (auto dest: pick_stuck)
qed

section \<open>Everyone gets a turn\<close>

text \<open>A task that ran until its counter was used up.\<close>

definition run_out :: "u64 \<Rightarrow> sched \<Rightarrow> sched" where
  "run_out t s = upd_task t (t_counter_update (\<lambda>_. 0)) s"

text \<open>\<open>n\<close> choices in a row, each task running its budget down.\<close>

fun picks :: "u64 list \<Rightarrow> nat \<Rightarrow> sched \<Rightarrow> (u64 list \<times> sched) option" where
  "picks ts 0 s = Some ([], s)"
| "picks ts (Suc n) s = do {
     (p, s) \<leftarrow> pick_next_task ts 0 s;
     (ps, s) \<leftarrow> picks ts n (run_out p s);
     Some (p # ps, s)
   }"

definition eligible :: "sched \<Rightarrow> u64 list \<Rightarrow> u64 list" where
  "eligible s ts = filter (\<lambda>t. running s t \<and> t_counter (tasks s t) \<noteq> 0) ts"

lemma run_out_simps [simp]:
  "running (run_out p s) t = running s t"
  "t_counter (tasks (run_out p s) t) = (if t = p then 0 else t_counter (tasks s t))"
  "t_prio (tasks (run_out p s) t) = t_prio (tasks s t)"
  by (simp_all add: running_def run_out_def upd_task_def)

lemma key_run_out: "t \<noteq> p \<Longrightarrow> key (run_out p s) t = key s t"
  by (simp add: key_def)

lemma eligible_run_out:
  "distinct ts \<Longrightarrow> eligible (run_out p s) ts = remove1 p (eligible s ts)"
  by (induction ts) (auto simp: eligible_def remove1_idem)

lemma picks_epoch:
  assumes "distinct ts" "0 \<notin> set ts"
  shows "\<exists>ps s'. picks ts (length (eligible s ts)) s = Some (ps, s') \<and>
     mset ps = mset (eligible s ts) \<and> sorted_wrt (\<lambda>t u. key s u \<le> key s t) ps \<and>
     (\<forall>t. running s' t = running s t \<and> t_prio (tasks s' t) = t_prio (tasks s t) \<and>
          t_counter (tasks s' t) = (if t \<in> set (eligible s ts) then 0 else t_counter (tasks s t)))"
proof (induction "length (eligible s ts)" arbitrary: s)
  case 0
  then show ?case by simp
next
  case (Suc n)
  then obtain t where t: "t \<in> set (eligible s ts)" by (metis length_Suc_conv list.set_intros(1))
  then obtain p where p: "pick_next_task ts 0 s = Some (p, s)" "last_max s (filter (running s) ts) p"
    using pick_some [OF assms(2), of t s 0] by (auto simp: eligible_def)
  have "key s t \<le> key s p" "key s t \<noteq> 0"
    using t last_max_ge [OF p(2), of t] by (auto simp: eligible_def key_zero)
  then have pe: "p \<in> set (eligible s ts)"
    using last_max_in [OF p(2)] key_zero [of s p] by (auto simp: eligible_def)
  let ?s = "run_out p s"
  have el: "eligible ?s ts = remove1 p (eligible s ts)" using assms(1) by (rule eligible_run_out)
  then have "n = length (eligible ?s ts)" using Suc.hyps(2) pe by (simp add: length_remove1)
  from Suc.hyps(1) [OF this] obtain ps s' where ps: "picks ts n ?s = Some (ps, s')"
    "mset ps = mset (eligible ?s ts)" "sorted_wrt (\<lambda>t u. key ?s u \<le> key ?s t) ps"
    "\<forall>t. running s' t = running ?s t \<and> t_prio (tasks s' t) = t_prio (tasks ?s t) \<and>
       t_counter (tasks s' t) = (if t \<in> set (eligible ?s ts) then 0 else t_counter (tasks ?s t))"
    using \<open>n = length (eligible ?s ts)\<close> by auto
  have de: "distinct (eligible s ts)" using assms(1) by (simp add: eligible_def)
  have set_ps: "set ps = set (eligible s ts) - {p}"
    using ps(2) el de by (metis mset_eq_setD set_remove1_eq)
  have "sorted_wrt (\<lambda>t u. key s u \<le> key s t) ps"
    using ps(3) by (rule sorted_wrt_mono_rel [rotated]) (use set_ps in \<open>auto simp: key_run_out\<close>)
  moreover have "key s u \<le> key s p" if "u \<in> set ps" for u
    using that set_ps last_max_ge [OF p(2), of u] by (auto simp: eligible_def)
  moreover have "mset (p # ps) = mset (eligible s ts)"
    using ps(2) el pe by simp
  moreover have "t_counter (tasks s' t) = (if t \<in> set (eligible s ts) then 0 else t_counter (tasks s t))" for t
    using ps(4) el de pe by (auto simp: set_remove1_eq)
  ultimately show ?case
    using Suc.hyps(2) [symmetric] p(1) ps(1,4) by auto
qed

text \<open>C13. In an epoch every runnable task with budget is chosen exactly once, in the order of the counters,
  and after these choices all runnable tasks have used up their budget; if the priorities are
  not 0 the next choice refills them all, so that all runnable tasks are in the next epoch.\<close>

theorem pick_next_task_fair:
  assumes "distinct ts" "0 \<notin> set ts"
  shows "\<exists>ps s'. picks ts (length (eligible s ts)) s = Some (ps, s') \<and>
     mset ps = mset (eligible s ts) \<and> sorted_wrt (\<lambda>t u. key s u \<le> key s t) ps \<and>
     (\<forall>t \<in> set ts. running s' t \<longrightarrow> t_counter (tasks s' t) = 0) \<and>
     ((\<exists>t \<in> set ts. running s t) \<and> (\<forall>t \<in> set ts. running s t \<longrightarrow> t_prio (tasks s t) \<noteq> 0) \<longrightarrow>
        (\<exists>p s''. pick_next_task ts 0 s' = Some (p, s'') \<and>
           set (eligible s'' ts) = {t \<in> set ts. running s t}))"
proof -
  obtain ps s' where ps: "picks ts (length (eligible s ts)) s = Some (ps, s')"
    "mset ps = mset (eligible s ts)" "sorted_wrt (\<lambda>t u. key s u \<le> key s t) ps"
    and s': "\<And>t. running s' t = running s t" "\<And>t. t_prio (tasks s' t) = t_prio (tasks s t)"
      "\<And>t. t_counter (tasks s' t) = (if t \<in> set (eligible s ts) then 0 else t_counter (tasks s t))"
    using picks_epoch [OF assms, of s] by blast
  have zero: "\<forall>t \<in> set ts. running s' t \<longrightarrow> t_counter (tasks s' t) = 0"
    using s' by (auto simp: eligible_def)
  have "\<exists>p s''. pick_next_task ts 0 s' = Some (p, s'') \<and> set (eligible s'' ts) = {t \<in> set ts. running s t}"
    if "(\<exists>t \<in> set ts. running s t) \<and> (\<forall>t \<in> set ts. running s t \<longrightarrow> t_prio (tasks s t) \<noteq> 0)"
  proof -
    let ?c = "pick_scan s' ts 0 0"
    have lm: "last_max s' (filter (running s') ts) ?c"
      using that s'(1) by (intro pick_scan_last_max) auto
    have c: "?c \<in> set ts" "running s' ?c" using last_max_in [OF lm] by auto
    then have "pick_next_task ts 0 s' = pick_next_task ts ?c (pick_refill ts s')"
      using zero assms(2) by (subst pick_next_task.simps) (auto simp: Let_def)
    moreover have "\<exists>p. pick_next_task ts ?c (pick_refill ts s') = Some (p, pick_refill ts s') \<and>
        last_max (pick_refill ts s') (filter (running (pick_refill ts s')) ts) p"
      using c that s' by (intro pick_some [OF assms(2) c(1)]) (simp_all add: pick_refill_tasks)
    moreover have "set (eligible (pick_refill ts s') ts) = {t \<in> set ts. running s t}"
      using that s' by (auto simp: eligible_def pick_refill_tasks)
    ultimately show ?thesis by auto
  qed
  with ps zero show ?thesis by blast
qed

section \<open>The clock\<close>

fun ticks :: "u64 \<Rightarrow> nat \<Rightarrow> sched \<Rightarrow> sched option" where
  "ticks cpuid 0 s = Some s"
| "ticks cpuid (Suc n) s = do { s \<leftarrow> task_timer_tick cpuid s; ticks cpuid n s }"

text \<open>\<open>t\<close> runs on the processor \<open>cpuid\<close>, whose queue is not NULL, and is not its idle task.\<close>

definition on_cpu :: "u64 \<Rightarrow> u64 \<Rightarrow> sched \<Rightarrow> bool" where
  "on_cpu cpuid t s =
     (case get_cpu cpuid (ks s) of
        None \<Rightarrow> False
      | Some c \<Rightarrow> (case rqs s (cpu_index (cpus (ks s) c)) of
          None \<Rightarrow> False
        | Some r \<Rightarrow> rq_current r = t \<and> t \<noteq> 0 \<and> t \<noteq> rq_idle r))"

lemma tick_running:
  assumes "on_cpu cpuid t s" "t_counter (tasks s t) \<noteq> 0"
  shows "task_timer_tick cpuid s = Some (upd_task t (t_counter_update (\<lambda>k. k - 1)) s)"
  using assms by (auto simp: on_cpu_def task_timer_tick_def Let_def split: option.splits)

lemma tick_last:
  assumes "on_cpu cpuid t s" "t_counter (tasks s t) = 0"
  shows "task_timer_tick cpuid s = schedule cpuid s"
  using assms by (auto simp: on_cpu_def task_timer_tick_def Let_def split: option.splits)

lemma on_cpu_upd_task [simp]: "on_cpu cpuid t (upd_task u f s) = on_cpu cpuid t s"
  by (simp add: on_cpu_def upd_task_def split: option.split)

text \<open>A task that runs keeps its processor for exactly as many clock interrupts as its counter says,
  nothing but the counter changing; the next interrupt calls \<^verbatim>\<open>schedule\<close>.\<close>

theorem task_timer_tick_budget:
  assumes "on_cpu cpuid t s"
  shows "ticks cpuid (unat (t_counter (tasks s t))) s = Some (run_out t s) \<and>
         task_timer_tick cpuid (run_out t s) = schedule cpuid (run_out t s)"
proof
  show "ticks cpuid (unat (t_counter (tasks s t))) s = Some (run_out t s)"
    using assms
  proof (induction "unat (t_counter (tasks s t))" arbitrary: s)
    case 0
    then have "t_counter (tasks s t) = 0" by (simp add: word_unat_eq_iff)
    then have "(tasks s t)\<lparr>t_counter := 0\<rparr> = tasks s t" by (cases "tasks s t") simp
    then have "run_out t s = s" by (simp add: run_out_def upd_task_def)
    then show ?case using 0 by simp
  next
    case (Suc n)
    let ?s = "upd_task t (t_counter_update (\<lambda>k. k - 1)) s"
    have nz: "t_counter (tasks s t) \<noteq> 0" using Suc.hyps(2) by auto
    have "unat (t_counter (tasks ?s t)) = n"
      using Suc.hyps(2) nz by (simp add: upd_task_def unat_minus_one)
    moreover have "run_out t ?s = run_out t s"
      by (simp add: run_out_def upd_task_def)
    ultimately show ?case
      using Suc.hyps(1) [of ?s] Suc.prems tick_running [OF Suc.prems nz] Suc.hyps(2) [symmetric] by simp
  qed
  show "task_timer_tick cpuid (run_out t s) = schedule cpuid (run_out t s)"
  proof (rule tick_last)
    show "on_cpu cpuid t (run_out t s)" using assms by (simp add: run_out_def)
  qed simp
qed

section \<open>Queues\<close>

text \<open>The length of every queue counts its tasks; the tasks are in exactly one queue, that of the
  processor they name.\<close>

definition lengths_ok :: "sched \<Rightarrow> bool" where
  "lengths_ok s = (\<forall>i r. rqs s i = Some r \<longrightarrow> rq_length r = of_nat (length (rq_tasks r)))"

definition placed :: "sched \<Rightarrow> bool" where
  "placed s = (\<forall>i r. rqs s i = Some r \<longrightarrow> distinct (rq_tasks r) \<and>
     (\<forall>t \<in> set (rq_tasks r). scast (t_cpu (tasks s t)) = i))"

definition queued :: "sched \<Rightarrow> u64 set" where
  "queued s = {t. \<exists>i r. rqs s i = Some r \<and> t \<in> set (rq_tasks r)}"

lemma migrate_task_rqs:
  assumes "migrate_task t c s = Some s'" "t_cpu (tasks s t) \<noteq> c"
  shows "rqs s' i = map_option (\<lambda>r. rq_tasks_update
           (\<lambda>ts. if i = scast c then remove1 t ts @ [t] else remove1 t ts) r) (rqs s i)"
    and "tasks s' = (tasks s)(t := (tasks s t)\<lparr>t_cpu := c\<rparr>)"
  using assms
  by (auto simp: migrate_task_def list_del_task_def upd_rq_def upd_task_def Let_def
      option.map_comp comp_def split: if_splits)

text \<open>Migrating a queued task to another processor's queue keeps every task in exactly one queue,
  that of its processor, and the set of queued tasks. But the two lengths, on which
  \<^verbatim>\<open>cpu_min_load\<close> relies, are not adjusted: afterwards they never match the queues.\<close>

theorem migrate_task_lengths:
  assumes "placed s" "lengths_ok s" "t_cpu (tasks s t) \<noteq> c"
    and "rqs s (scast (t_cpu (tasks s t))) = Some r" "t \<in> set (rq_tasks r)" "rqs s (scast c) = Some r'"
  shows "\<exists>s'. migrate_task t c s = Some s' \<and> placed s' \<and> queued s' = queued s \<and> \<not> lengths_ok s'"
proof -
  obtain s' where s': "migrate_task t c s = Some s'"
    using assms by (simp add: migrate_task_def Let_def)
  note m = migrate_task_rqs [OF s' assms(3)]
  have ne: "(scast (t_cpu (tasks s t)) :: u64) \<noteq> scast c"
    using assms(3) ucast_scast_32 by metis
  have rem: "remove1 t (rq_tasks q) = rq_tasks q"
    if "rqs s i = Some q" "i \<noteq> scast (t_cpu (tasks s t))" for i q
    using that assms(1) by (intro remove1_idem) (auto simp: placed_def)
  have pl: "placed s'"
    using assms(1) ne by (auto simp: placed_def m split: if_splits)
  have q: "queued s' = queued s"
  proof (intro set_eqI iffI)
    fix x assume "x \<in> queued s'"
    then have "x = t \<or> (\<exists>i q. rqs s i = Some q \<and> x \<in> set (remove1 t (rq_tasks q)))"
      by (auto simp: queued_def m split: if_splits)
    then show "x \<in> queued s"
      using assms(4,5) set_remove1_subset unfolding queued_def by fastforce
  next
    fix x assume "x \<in> queued s"
    then obtain i q where i: "rqs s i = Some q" "x \<in> set (rq_tasks q)" by (auto simp: queued_def)
    show "x \<in> queued s'"
    proof (cases "x = t")
      case True
      then show ?thesis using assms(6) by (auto simp: queued_def m intro!: exI [of _ "scast c"])
    next
      case False
      then have "x \<in> set (remove1 t (rq_tasks q))" using i(2) by simp
      then show ?thesis using i(1) by (auto simp: queued_def m intro!: exI [of _ i])
    qed
  qed
  have "\<not> lengths_ok s'"
  proof
    assume ok: "lengths_ok s'"
    let ?q = "rq_tasks_update (\<lambda>ts. remove1 t ts @ [t]) r'"
    have "rqs s' (scast c) = Some ?q" using assms(6) by (simp add: m)
    then have "rq_length ?q = of_nat (length (rq_tasks ?q))"
      using ok unfolding lengths_ok_def by blast
    then have "rq_length r' = of_nat (length (rq_tasks r') + 1)"
      using rem [OF assms(6)] ne by simp
    moreover have "rq_length r' = of_nat (length (rq_tasks r'))"
      using assms(2,6) by (auto simp: lengths_ok_def)
    ultimately show False by simp
  qed
  with s' pl q show ?thesis by blast
qed

section \<open>Balancing\<close>

definition online :: "sched \<Rightarrow> nat \<Rightarrow> bool" where
  "online s i = (case get_cpu_by_index (of_nat i) (ks s) of
     None \<Rightarrow> False | Some c \<Rightarrow> cpu_status (cpus (ks s) c) \<noteq> CPU_STATUS_OFFLINE)"

definition qlen :: "sched \<Rightarrow> nat \<Rightarrow> u64" where
  "qlen s i = rq_length (the (rqs s (of_nat i)))"

text \<open>Every processor up to the count can be looked up and has a queue of sensible length.\<close>

definition cpus_ready :: "sched \<Rightarrow> bool" where
  "cpus_ready s = (unat (nr_cpus (ks s)) < 2 ^ 31 \<and>
     (\<forall>i < unat (nr_cpus (ks s)). get_cpu_by_index (of_nat i) (ks s) \<noteq> None \<and>
        rqs s (of_nat i) \<noteq> None \<and> unat (qlen s i) < 2 ^ 31))"

text \<open>\<open>m\<close> is the first of the least loaded processors among the first \<open>i\<close> ones.\<close>

definition least_loaded :: "sched \<Rightarrow> nat \<Rightarrow> nat \<Rightarrow> bool" where
  "least_loaded s i m = (m < i \<and> online s m \<and> (\<forall>j < i. online s j \<longrightarrow> qlen s m \<le> qlen s j) \<and>
     (\<forall>j < m. online s j \<longrightarrow> qlen s m < qlen s j))"

definition min_inv :: "sched \<Rightarrow> nat \<Rightarrow> u32 \<Rightarrow> u32 \<Rightarrow> bool" where
  "min_inv s i len idx = ((len = - 1 \<and> (\<forall>j < i. \<not> online s j)) \<or>
     (\<exists>m. idx = of_nat m \<and> len = ucast (qlen s m) \<and> least_loaded s i m))"

lemma min_inv_skip: "min_inv s i len idx \<Longrightarrow> \<not> online s i \<Longrightarrow> min_inv s (Suc i) len idx"
  by (auto simp: min_inv_def least_loaded_def less_Suc_eq)

lemma min_inv_take:
  assumes "min_inv s i len idx" "online s i" "qlen s i < scast len" "cpus_ready s"
    "i < unat (nr_cpus (ks s))"
  shows "min_inv s (Suc i) (ucast (qlen s i)) (of_nat i)"
proof -
  have "qlen s i < qlen s m" if "len = ucast (qlen s m)" "m < i" for m
    using that assms by (auto simp: cpus_ready_def scast_ucast_index)
  then have "least_loaded s (Suc i) i"
    using assms by (auto simp: min_inv_def least_loaded_def less_Suc_eq intro: less_imp_le order.strict_trans2)
  then show ?thesis by (auto simp: min_inv_def)
qed

lemma min_inv_keep:
  assumes "min_inv s i len idx" "online s i" "\<not> qlen s i < scast len" "cpus_ready s"
    "i < unat (nr_cpus (ks s))"
  shows "min_inv s (Suc i) len idx"
proof -
  have "qlen s m \<le> qlen s i" if "len = ucast (qlen s m)" "m < i" for m
    using that assms by (auto simp: cpus_ready_def scast_ucast_index not_less)
  moreover have "len \<noteq> - 1"
  proof
    assume "len = - 1"
    then have "qlen s i = - 1" using assms(3) by (simp add: not_less word_order.extremum_unique)
    moreover have "unat (qlen s i) < 2 ^ 31" using assms(4,5) by (simp add: cpus_ready_def)
    ultimately show False by (simp add: unsigned_minus_1_eq_mask mask_eq_exp_minus_1)
  qed
  ultimately show ?thesis
    using assms(1) by (auto simp: min_inv_def least_loaded_def less_Suc_eq)
qed

lemma cpu_min_load_loop_inv:
  assumes "cpus_ready s" "i \<le> unat (nr_cpus (ks s))"
  shows "min_inv s i len idx \<Longrightarrow> \<exists>len' idx'. cpu_min_load_loop s i len idx = Some idx' \<and>
    min_inv s (unat (nr_cpus (ks s))) len' idx'"
  using assms(2)
proof (induction i arbitrary: len idx rule: inc_induct)
  case base
  then show ?case by (auto simp: cpu_min_load_loop.simps)
next
  case (step i)
  obtain c r where c: "get_cpu_by_index (of_nat i) (ks s) = Some c" "rqs s (of_nat i) = Some r"
    using assms(1) step.hyps by (fastforce simp: cpus_ready_def)
  note simps = cpu_min_load_loop.simps [of s i] c step.hyps
  consider "\<not> online s i" | "online s i" "qlen s i < scast len" | "online s i" "\<not> qlen s i < scast len"
    by blast
  then show ?case
  proof cases
    case 1
    then have "cpu_min_load_loop s i len idx = cpu_min_load_loop s (Suc i) len idx"
      by (simp add: simps online_def)
    then show ?thesis using step.IH [OF min_inv_skip [OF step.prems 1]] by simp
  next
    case 2
    then have "cpu_min_load_loop s i len idx = cpu_min_load_loop s (Suc i) (ucast (qlen s i)) (of_nat i)"
      by (simp add: simps online_def qlen_def)
    then show ?thesis using step.IH [OF min_inv_take [OF step.prems 2 assms(1) step.hyps(2)]] by simp
  next
    case 3
    then have "cpu_min_load_loop s i len idx = cpu_min_load_loop s (Suc i) len idx"
      by (simp add: simps online_def qlen_def)
    then show ?thesis using step.IH [OF min_inv_keep [OF step.prems 3 assms(1) step.hyps(2)]] by simp
  qed
qed

lemma cpu_min_load_least:
  assumes "cpus_ready s" "\<exists>i < unat (nr_cpus (ks s)). online s i"
  shows "\<exists>m. cpu_min_load s = Some (of_nat m) \<and> least_loaded s (unat (nr_cpus (ks s))) m"
proof -
  have "min_inv s 0 0xffffffff 0" by (simp add: min_inv_def)
  then obtain len idx where r: "cpu_min_load s = Some idx" "min_inv s (unat (nr_cpus (ks s))) len idx"
    using cpu_min_load_loop_inv [OF assms(1), of 0 "0xffffffff" 0] unfolding cpu_min_load_def by blast
  then show ?thesis using assms(2) by (auto simp: min_inv_def)
qed

text \<open>What creating a task leaves alone.\<close>

lemma sc_kmalloc_frame:
  "sc_kmalloc n s = Some (v, s') \<Longrightarrow> \<exists>b. s' = s\<lparr>ks := (ks s)\<lparr>ks_boot := b\<rparr>\<rparr>"
  by (auto simp: sc_kmalloc_def ks_kmalloc_def bind_eq_Some_conv)

lemma create_task_struct_frame:
  assumes "create_task_struct f prio sz k cpu s = Some (t, s')"
  shows "rqs s' = rqs s" "\<exists>b. ks s' = (ks s)\<lparr>ks_boot := b\<rparr>"
    "u \<noteq> t \<Longrightarrow> tasks s' u = tasks s u" "t_cpu (tasks s' t) = cpu" "t_prio (tasks s' t) = prio"
    "t_counter (tasks s' t) = prio" "running s' t"
  using assms
  by (auto simp: create_task_struct_def Let_def bind_eq_Some_conv arch_init_mm_def arch_init_kstack_def
      upd_task_def running_def split: if_splits dest!: sc_kmalloc_frame)

lemma create_task_struct_same:
  assumes "create_task_struct f prio sz k cpu s = Some (t, s')"
  shows "cpus_ready s' = cpus_ready s" "online s' i = online s i" "qlen s' i = qlen s i"
    "nr_cpus (ks s') = nr_cpus (ks s)"
proof -
  obtain b where "ks s' = (ks s)\<lparr>ks_boot := b\<rparr>" using create_task_struct_frame(2) [OF assms] by blast
  then show "cpus_ready s' = cpus_ready s" "online s' i = online s i" "qlen s' i = qlen s i"
    "nr_cpus (ks s') = nr_cpus (ks s)"
    using create_task_struct_frame(1) [OF assms]
    by (simp_all add: cpus_ready_def online_def qlen_def get_cpu_by_index_def split: option.split)
qed

text \<open>C29. A task created for any processor goes to the first of the least loaded processors that are
  up; queue lengths stay right, every task stays in the one queue of its processor, and the new
  task starts runnable with its priority as budget.\<close>

theorem create_task_balances:
  assumes "create_task f prio sz k (- 1) s = Some (t, s')"
    and "placed s" "lengths_ok s" "t \<notin> queued s"
    and "cpus_ready s" "\<exists>i < unat (nr_cpus (ks s)). online s i"
  shows "placed s' \<and> lengths_ok s' \<and> queued s' = insert t (queued s) \<and> running s' t \<and>
    t_counter (tasks s' t) = prio \<and>
    (\<exists>m r. least_loaded s (unat (nr_cpus (ks s))) m \<and> t_cpu (tasks s' t) = of_nat m \<and>
       rqs s' (of_nat m) = Some r \<and> last (rq_tasks r) = t)"
proof -
  obtain s1 where s1: "create_task_struct f prio sz k (- 1) s = Some (t, s1)"
    using assms(1) by (auto simp: create_task_def bind_eq_Some_conv)
  note fr = create_task_struct_frame [OF s1] and same = create_task_struct_same [OF s1]
  obtain m where m: "cpu_min_load s1 = Some (of_nat m)" "least_loaded s1 (unat (nr_cpus (ks s))) m"
    using cpu_min_load_least [of s1] assms(5,6) by (auto simp: same)
  have ll: "least_loaded s (unat (nr_cpus (ks s))) m" using m(2) by (simp add: least_loaded_def same)
  then have "m < 2 ^ 31" using assms(5) by (auto simp: least_loaded_def cpus_ready_def)
  then have sm: "(scast (of_nat m :: u32) :: u64) = of_nat m"
    by (simp add: scast_eq signed_of_nat signed_take_bit_int_eq_self)
  obtain r where r: "rqs s (of_nat m) = Some r"
    using ll assms(5) by (auto simp: least_loaded_def cpus_ready_def)
  have s': "tasks s' = (tasks s1)(t := (tasks s1 t)\<lparr>t_cpu := of_nat m\<rparr>)"
    "rqs s' = (rqs s)(of_nat m := Some (r\<lparr>rq_tasks := rq_tasks r @ [t], rq_length := rq_length r + 1\<rparr>))"
    using assms(1) s1 m(1) r
    by (auto simp: create_task_def rq_enqueue_def sm upd_rq_def upd_task_def fr(1))
  have tn: "t \<notin> set (rq_tasks q)" if "rqs s i = Some q" for i q
    using assms(4) that by (auto simp: queued_def)
  have "placed s'"
    using assms(2) tn r sm by (auto simp: placed_def s' fr(3) split: if_splits)
  moreover have "lengths_ok s'"
    using assms(3) r by (auto simp: lengths_ok_def s' split: if_splits)
  moreover have "queued s' = insert t (queued s)"
  proof (intro set_eqI iffI)
    fix x assume "x \<in> insert t (queued s)"
    then consider "x = t" | i q where "rqs s i = Some q" "x \<in> set (rq_tasks q)"
      by (auto simp: queued_def)
    then show "x \<in> queued s'"
    proof cases
      case 1
      then show ?thesis by (auto simp: queued_def s' intro!: exI [of _ "of_nat m"])
    next
      case (2 i q)
      then show ?thesis
        using r by (cases "i = of_nat m") (auto simp: queued_def s' intro!: exI [of _ i])
    qed
  qed (use r in \<open>auto simp: queued_def s' split: if_splits\<close>)
  ultimately show ?thesis
    using ll fr(6,7) by (auto simp: s' running_def intro!: exI [of _ m])
qed

section \<open>Leaving the processor\<close>

lemma context_switch_installs:
  assumes "context_switch cpuid i prev nx s = Some s'" "nx \<noteq> prev" "rqs s i = Some r"
    "get_cpu cpuid (ks s) = Some c"
  shows "rqs s' i = Some (r\<lparr>rq_current := nx\<rparr>)" "tasks s' = tasks s"
    "cr3 s' = VIRT2PHYS (t_pgd (tasks s nx)) OR (scast (t_id (tasks s nx)) AND CR3_PCID_MASK)"
    "tss_rsp0 s' c = t_sp (tasks s nx)"
    "switches s' = switches s @
      (if cpu_status (cpus (ks s) c) = CPU_STATUS_IRQ_CONTEXT then [] else [(prev, nx)])"
  using assms
  by (auto simp: context_switch_def switch_to_def switch_irq_stack_def switch_mm_def upd_rq_def)

lemma pick_next_task_frame:
  assumes "0 \<notin> set ts" "pick_next_task ts 0 s = Some (p, s')"
  shows "s' = s \<or> s' = pick_refill ts s" "p = 0 \<or> p \<in> set ts \<and> running s p"
proof -
  have "(s' = s \<or> s' = pick_refill ts s) \<and> (p = 0 \<or> p \<in> set (filter (running s) ts))"
  proof (cases "\<exists>t \<in> set (filter (running s) ts). t_counter (tasks s t) \<noteq> 0")
    case True
    then obtain t where t: "t \<in> set ts" "running s t" "t_counter (tasks s t) \<noteq> 0" by auto
    obtain q where "pick_next_task ts 0 s = Some (q, s)" "last_max s (filter (running s) ts) q"
      using pick_some [OF assms(1) t, of 0] by blast
    with assms(2) last_max_in show ?thesis by fastforce
  next
    case False
    let ?c = "pick_scan s ts 0 0"
    show ?thesis
    proof (cases "filter (running s) ts = []")
      case True
      then have "pick_next_task ts 0 s = Some (0, s)"
        by (simp add: pick_next_task.simps [of ts 0 s] Let_def pick_scan_none)
      with assms(2) show ?thesis by simp
    next
      case ne: False
      have "last_max s (filter (running s) ts) ?c"
        using ne by (intro pick_scan_last_max) (auto simp: filter_empty_conv)
      from last_max_in [OF this] have c: "?c \<in> set ts" "running s ?c" by auto
      then have e: "pick_next_task ts 0 s = pick_next_task ts ?c (pick_refill ts s)"
        using False assms(1) by (subst pick_next_task.simps) (auto simp: Let_def)
      have "\<not> stuck ts (pick_refill ts s)" using assms(2) e pick_stuck by metis
      then obtain t where "t \<in> set ts" "running (pick_refill ts s) t"
        "t_counter (tasks (pick_refill ts s) t) \<noteq> 0"
        using c assms(1) by (auto simp: stuck_def pick_refill_tasks split: if_splits)
      from pick_some [OF assms(1) this, of ?c] obtain q where
        "pick_next_task ts ?c (pick_refill ts s) = Some (q, pick_refill ts s)"
        "last_max (pick_refill ts s) (filter (running (pick_refill ts s)) ts) q" by blast
      with assms(2) e last_max_in show ?thesis by fastforce
    qed
  qed
  then show "s' = s \<or> s' = pick_refill ts s" "p = 0 \<or> p \<in> set ts \<and> running s p" by auto
qed

lemma pick_refill_frame [simp]:
  "rqs (pick_refill ts s) = rqs s" "ks (pick_refill ts s) = ks s" "switches (pick_refill ts s) = switches s"
  "t_pgd (tasks (pick_refill ts s) t) = t_pgd (tasks s t)"
  "t_id (tasks (pick_refill ts s) t) = t_id (tasks s t)"
  "t_sp (tasks (pick_refill ts s) t) = t_sp (tasks s t)"
  by (induction ts arbitrary: s) (simp_all add: upd_task_def)

text \<open>A task that exits while it runs is off its processor when \<^verbatim>\<open>task_exit\<close> comes back: the
  current task is another one that is runnable and queued here, or the idle task; its page
  table with its id as process-context number is loaded and the interrupt stack is its stack;
  and the register switch happens at once unless the processor is in an interrupt handler.\<close>

theorem task_exit_switches:
  assumes "task_exit cpuid t s = Some s'" and "get_cpu cpuid (ks s) = Some c"
    and "rqs s (cpu_index (cpus (ks s) c)) = Some r" and "rq_current r = t"
    and "t \<noteq> rq_idle r" and "0 \<notin> set (rq_tasks r)"
  shows "\<exists>nx. rqs s' (cpu_index (cpus (ks s) c)) = Some (r\<lparr>rq_current := nx\<rparr>) \<and> nx \<noteq> t \<and>
     (nx = rq_idle r \<or> nx \<in> set (rq_tasks r) \<and> running s' nx) \<and> \<not> running s' t \<and>
     cr3 s' = VIRT2PHYS (t_pgd (tasks s nx)) OR (scast (t_id (tasks s nx)) AND CR3_PCID_MASK) \<and>
     tss_rsp0 s' c = t_sp (tasks s nx) \<and>
     switches s' = switches s @
       (if cpu_status (cpus (ks s) c) = CPU_STATUS_IRQ_CONTEXT then [] else [(t, nx)])"
proof -
  let ?i = "cpu_index (cpus (ks s) c)"
  let ?k = "upd_task t (t_state_update (\<lambda>_. TASK_STATE_KILLED)) s"
  have k: "ks ?k = ks s" "rqs ?k = rqs s" "switches ?k = switches s"
    "t_pgd (tasks ?k u) = t_pgd (tasks s u)" "t_id (tasks ?k u) = t_id (tasks s u)"
    "t_sp (tasks ?k u) = t_sp (tasks s u)" "\<not> running ?k t" for u
    by (simp_all add: upd_task_def running_def TASK_STATE_KILLED_def TASK_STATE_RUNNING_def)
  obtain p s1 where p: "pick_next_task (rq_tasks r) 0 ?k = Some (p, s1)"
    and sw: "context_switch cpuid ?i t (if p = 0 then rq_idle r else p) s1 = Some s'"
    using assms(1-4) k(1,2) by (auto simp: task_exit_def schedule_def Let_def bind_eq_Some_conv)
  let ?n = "if p = 0 then rq_idle r else p"
  note fr = pick_next_task_frame [OF assms(6) p]
  have s1: "ks s1 = ks s" "rqs s1 = rqs s" "switches s1 = switches s"
    "t_pgd (tasks s1 u) = t_pgd (tasks s u)" "t_id (tasks s1 u) = t_id (tasks s u)"
    "t_sp (tasks s1 u) = t_sp (tasks s u)" "running s1 u = running ?k u" for u
    using fr(1) k by auto
  have n: "?n \<noteq> t" using fr(2) k(7) assms(5) by auto
  have r1: "rqs s1 ?i = Some r" "get_cpu cpuid (ks s1) = Some c" using s1 assms(2,3) by simp_all
  note inst = context_switch_installs [OF sw n r1]
  have run: "running s' u = running ?k u" for u using inst(2) s1(7) by (simp add: running_def)
  show ?thesis
    by (rule exI [of _ ?n]) (use n inst s1 run k(7) fr(2) in auto)
qed

section \<open>The new address space\<close>

text \<open>When the current task's id is not a multiple of 4096, the page table a new task gets is not the
  current one: \<^verbatim>\<open>arch_init_mm\<close> copies from the value of CR3, whose low bits hold the id as
  process-context number, so every byte of the copy comes from that many bytes further on.\<close>

theorem arch_init_mm_shifted:
  fixes s :: sched and cur :: u64
  defines "k \<equiv> scast (t_id (tasks s cur)) AND (0xfff :: u64)"
    and "root \<equiv> t_pgd (tasks s cur)"
  assumes "VIRT2PHYS root AND 0xfff = 0"
    and "arch_init_mm t (switch_mm cur s) = Some s'"
    and "t_pgd (tasks s' t) \<noteq> 0" and "unat (t_pgd (tasks s' t)) + 0x1000 \<le> 2 ^ 64"
    and "root + k \<noteq> 0" and "unat (root + k) + 0x1000 \<le> 2 ^ 64"
  shows "\<forall>i < 0x1000. bytes s' (t_pgd (tasks s' t) + of_nat i) = bytes s (root + k + of_nat i)"
proof -
  have "VIRT2PHYS root OR k = VIRT2PHYS root + k"
  proof (rule disjunctive_add [symmetric])
    fix n
    have "bit (VIRT2PHYS root AND 0xfff) n = False" using assms(3) by simp
    then show "\<not> bit (VIRT2PHYS root) n \<or> \<not> bit k n"
      unfolding k_def by (simp only: bit_and_iff) blast
  qed
  then have src: "PHYS2VIRT (cr3 (switch_mm cur s)) = root + k"
    by (simp add: switch_mm_def CR3_PCID_MASK_def k_def root_def PHYS2VIRT_def VIRT2PHYS_def)
  let ?p = "t_pgd (tasks s' t)"
  have "bytes s' = memcpy ?p (root + k) 0x1000 (bytes s)"
    using assms(4) src
    by (auto simp: arch_init_mm_def bind_eq_Some_conv upd_task_def switch_mm_def Let_def
        split: if_splits dest!: sc_kmalloc_frame)
  then have "bytes s' a = (if uint (a - ?p) < 0x1000 then bytes s (root + k + (a - ?p)) else bytes s a)" for a
    using memcpy_moves_lemma [of ?p "root + k" "0x1000" "bytes s"] assms(5-8) by simp
  then show ?thesis by (simp add: unsigned_of_nat take_bit_nat_eq_self)
qed

section \<open>Witnesses\<close>

definition demo_sched :: sched where
  "demo_sched =
     \<lparr>ks = upd_cpu 5 (cpu_status_update (\<lambda>_. CPU_STATUS_IRQ_CONTEXT))
        (upd_node 1 (cpu_list_update (\<lambda>_. [5])) (demo_kstate\<lparr>nr_cpus := 1\<rparr>)),
      tasks = (\<lambda>t. \<lparr>t_stack = 0, t_sp = t, t_state = 0, t_id = 1, t_cpu = 0,
                     t_prio = (if t = 0x10 then 3 else 1), t_counter = (if t = 0x10 then 3 else 1),
                     t_pgd = PHYS2VIRT 0x5000\<rparr>),
      rq_list_set = True,
      rqs = [0 \<mapsto> \<lparr>rq_length = 2, rq_current = 0x10, rq_idle = 0x90, rq_tasks = [0x10, 0x20]\<rparr>,
             1 \<mapsto> \<lparr>rq_length = 0, rq_current = 0, rq_idle = 0x98, rq_tasks = []\<rparr>],
      pid = 2, frames = (\<lambda>_. \<lparr>g_regs = [], f_rip = 0, f_cs = 0, f_rflags = 0, f_rsp = 0, f_ss = 0\<rparr>),
      bytes = (\<lambda>a. ucast a), cr3 = 0x5000, tss_rsp0 = (\<lambda>_. 0), switches = []\<rparr>"

lemmas demo_sched_defs = demo_sched_def demo_kstate_defs

lemma demo_sched_cpu: "get_cpu 0 (ks demo_sched) = Some 5" "cpu_index (cpus (ks demo_sched) 5) = 0"
  by (simp_all add: demo_sched_defs get_cpu_def all_cpus_def)

lemma demo_sched_running: "running demo_sched t"
  by (simp add: running_def TASK_STATE_RUNNING_def demo_sched_def)

lemma demo_sched_ready: "cpus_ready demo_sched" "online demo_sched 0"
  by (simp_all add: cpus_ready_def online_def demo_sched_defs get_cpu_by_index_def all_cpus_def
      qlen_def CPU_STATUS_OFFLINE_def CPU_STATUS_IRQ_CONTEXT_def)

lemma demo_sched_queues: "placed demo_sched" "lengths_ok demo_sched" "queued demo_sched = {0x10, 0x20}"
  by (auto simp: placed_def lengths_ok_def queued_def demo_sched_def split: if_splits)

lemma pick_next_task_spec_witness:
  "\<exists>p. pick_next_task [0x10, 0x20] 0 demo_sched = Some (p, demo_sched) \<and> key demo_sched 0x10 \<le> key demo_sched p"
proof -
  have "\<exists>t \<in> set (filter (running demo_sched) [0x10, 0x20]). t_counter (tasks demo_sched t) \<noteq> 0"
    by (simp add: demo_sched_running) (simp add: demo_sched_def)
  then obtain p where "pick_next_task [0x10, 0x20] 0 demo_sched = Some (p, demo_sched)"
    "last_max demo_sched (filter (running demo_sched) [0x10, 0x20]) p"
    using pick_next_task_spec [of "[0x10, 0x20]" demo_sched] by auto
  then show ?thesis using last_max_ge [of demo_sched _ p "0x10"] by (auto simp: demo_sched_running)
qed

lemma pick_next_task_fair_witness:
  "\<exists>ps s'. picks [0x10, 0x20] 2 demo_sched = Some (ps, s') \<and> mset ps = {#0x10, 0x20#}"
proof -
  have "eligible demo_sched [0x10, 0x20] = [0x10, 0x20]"
    by (simp add: eligible_def demo_sched_running) (simp add: demo_sched_def)
  then have e: "length (eligible demo_sched [0x10, 0x20]) = 2"
    "mset (eligible demo_sched [0x10, 0x20]) = {#0x10, 0x20#}" by simp_all
  have "distinct [0x10, 0x20 :: u64]" "0 \<notin> set [0x10, 0x20 :: u64]" by simp_all
  from pick_next_task_fair [OF this, of demo_sched, unfolded e] show ?thesis by blast
qed

lemma task_timer_tick_budget_witness:
  "ticks 0 3 demo_sched = Some (run_out 0x10 demo_sched)"
proof -
  have "on_cpu 0 0x10 demo_sched" by (simp add: on_cpu_def demo_sched_cpu) (simp add: demo_sched_def)
  then show ?thesis using task_timer_tick_budget [of 0 "0x10" demo_sched] by (simp add: demo_sched_def)
qed

lemma migrate_task_lengths_witness:
  "\<exists>s'. migrate_task 0x10 1 demo_sched = Some s' \<and> \<not> lengths_ok s'"
proof -
  have "t_cpu (tasks demo_sched 0x10) \<noteq> 1"
    "rqs demo_sched (scast (t_cpu (tasks demo_sched 0x10))) = Some \<lparr>rq_length = 2, rq_current = 0x10, rq_idle = 0x90, rq_tasks = [0x10, 0x20]\<rparr>"
    "rqs demo_sched (scast (1 :: u32)) = Some \<lparr>rq_length = 0, rq_current = 0, rq_idle = 0x98, rq_tasks = []\<rparr>"
    by (simp_all add: demo_sched_def)
  from migrate_task_lengths [OF demo_sched_queues(1,2) this(1,2) _ this(3)] show ?thesis by auto
qed

lemma task_exit_switches_witness:
  "\<exists>s' nx. task_exit 0 0x10 demo_sched = Some s' \<and> switches s' = [] \<and> nx \<noteq> 0x10 \<and> tss_rsp0 s' 5 = nx"
proof -
  let ?k = "upd_task 0x10 (t_state_update (\<lambda>_. TASK_STATE_KILLED)) demo_sched"
  let ?r = "\<lparr>rq_length = 2, rq_current = 0x10, rq_idle = 0x90, rq_tasks = [0x10, 0x20]\<rparr>"
  have r: "rqs demo_sched (cpu_index (cpus (ks demo_sched) 5)) = Some ?r"
    by (simp add: demo_sched_cpu) (simp add: demo_sched_def)
  have "running ?k 0x20" "t_counter (tasks ?k 0x20) \<noteq> 0"
    by (simp_all add: running_def upd_task_def demo_sched_def TASK_STATE_RUNNING_def)
  then obtain p where p: "pick_next_task [0x10, 0x20] 0 ?k = Some (p, ?k)"
    "last_max ?k (filter (running ?k) [0x10, 0x20]) p"
    using pick_some [of "[0x10, 0x20]" "0x20" ?k 0] by auto
  have "\<not> running ?k 0x10"
    by (simp add: running_def upd_task_def TASK_STATE_RUNNING_def TASK_STATE_KILLED_def)
  then have "p = 0x20" using last_max_in [OF p(2)] by (auto split: if_splits)
  with p have "pick_next_task [0x10, 0x20] 0 ?k = Some (0x20, ?k)" by simp
  moreover have "get_cpu 0 (ks ?k) = Some 5" "ks ?k = ks demo_sched" "rqs ?k 0 = Some ?r"
    using demo_sched_cpu by (simp_all add: upd_task_def) (simp add: demo_sched_def)
  ultimately obtain s' where s': "task_exit 0 0x10 demo_sched = Some s'"
    using demo_sched_cpu
    by (auto simp: task_exit_def schedule_def Let_def context_switch_def switch_to_def switch_irq_stack_def
        switch_mm_def upd_rq_def)
  have "cpu_status (cpus (ks demo_sched) 5) = CPU_STATUS_IRQ_CONTEXT" "switches demo_sched = []"
    "t_sp (tasks demo_sched nx) = nx" for nx
    by (simp_all add: demo_sched_defs)
  with task_exit_switches [OF s' demo_sched_cpu(1) r] s' show ?thesis by auto
qed

lemma create_task_struct_returns:
  assumes "ks_kmalloc SIZEOF_TASK (ks s) = Some (t, k1)" "ks_kmalloc (scast sz) k1 = Some (v, k2)"
    and "ks_kmalloc 0x1000 k2 = Some (w, k3)" "t \<noteq> 0" "v \<noteq> 0" "w \<noteq> 0"
  shows "\<exists>s'. create_task_struct f prio sz kern cpu s = Some (t, s')"
  using assms
  by (simp add: create_task_struct_def Let_def sc_kmalloc_def arch_init_mm_def arch_init_kstack_def upd_task_def)

lemma empty_page:
  assumes "bitmap b = bitmap empty_bootmem"
  shows "\<exists>b'. kmalloc 0x1000 0 b = Some (PHYS2VIRT 0, b')"
proof -
  have "hole b 0x1000 0"
    using assms by (simp add: hole_def empty_bootmem_def page_used_def pages_for_def LIMIT_PAGES_def)
  then have "\<exists>b'. bootmem_alloc 0x1000 b = Some (PHYS2VIRT (page_addr 0), b')"
    using alloc_large_cases [of "0x1000" b] by (metis not_gr_zero order_refl)
  then show ?thesis by (simp add: kmalloc_def page_addr_def)
qed

lemma create_task_balances_witness:
  "\<exists>t s'. create_task 0 2 0x200 True (- 1) demo_sched = Some (t, s') \<and> placed s' \<and> lengths_ok s'"
proof -
  let ?r = "create_task 0 2 0x200 True (- 1) demo_sched"
  have kt: "ks_kmalloc SIZEOF_TASK (ks demo_sched) = Some (PHYS2VIRT 0x1040, (ks demo_sched)\<lparr>ks_boot :=
      empty_bootmem\<lparr>last_alloc_offset := 192\<rparr>\<rparr>)"
    by (simp add: ks_kmalloc_def kmalloc_def bootmem_alloc_def demo_sched_defs empty_bootmem_def
        SIZEOF_TASK_def roundup_def Let_def)
  obtain v b2 where kst: "ks_kmalloc (scast (0x200 :: u32)) ((ks demo_sched)\<lparr>ks_boot :=
      empty_bootmem\<lparr>last_alloc_offset := 192\<rparr>\<rparr>) = Some (v, (ks demo_sched)\<lparr>ks_boot := b2\<rparr>)"
    "v \<noteq> 0" "bitmap b2 = bitmap empty_bootmem"
    by (simp add: ks_kmalloc_def kmalloc_def bootmem_alloc_def empty_bootmem_def PHYS2VIRT_def
        KERNEL_SPACE_def Let_def)
  obtain b3 where kp: "ks_kmalloc 0x1000 ((ks demo_sched)\<lparr>ks_boot := b2\<rparr>) =
      Some (PHYS2VIRT 0, (ks demo_sched)\<lparr>ks_boot := b3\<rparr>)"
    using empty_page [OF kst(3)] by (auto simp: ks_kmalloc_def)
  have nz: "PHYS2VIRT 0x1040 \<noteq> 0" "PHYS2VIRT 0 \<noteq> 0" by (simp_all add: PHYS2VIRT_def KERNEL_SPACE_def)
  obtain s1 where s1: "create_task_struct 0 2 0x200 True (- 1) demo_sched = Some (PHYS2VIRT 0x1040, s1)"
    using create_task_struct_returns [OF kt kst(1) kp nz(1) kst(2) nz(2)] by blast
  note same = create_task_struct_same [OF s1]
  have "nr_cpus (ks demo_sched) = 1" by (simp add: demo_sched_defs)
  then have "cpu_min_load s1 = Some 0"
    using cpu_min_load_least [of s1] demo_sched_ready by (auto simp: same least_loaded_def)
  moreover have "rqs s1 0 \<noteq> None" using create_task_struct_frame(1) [OF s1] by (simp add: demo_sched_def)
  ultimately have "\<exists>t s'. ?r = Some (t, s') \<and> t \<notin> {0x10, 0x20}"
    using s1 by (auto simp: create_task_def rq_enqueue_def upd_task_def PHYS2VIRT_def KERNEL_SPACE_def)
  then obtain t s' where r: "?r = Some (t, s')" "t \<notin> queued demo_sched"
    using demo_sched_queues(3) by auto
  have "\<exists>i < unat (nr_cpus (ks demo_sched)). online demo_sched i"
    using demo_sched_ready(2) by (auto simp: demo_sched_defs intro!: exI [of _ 0])
  from create_task_balances [OF r(1) demo_sched_queues(1,2) r(2) demo_sched_ready(1) this] r(1)
  show ?thesis by blast
qed

lemma arch_init_mm_shifted_witness:
  "\<exists>s'. arch_init_mm 0x20 (switch_mm 0x10 demo_sched) = Some s' \<and> bytes s' (PHYS2VIRT 0) = 1"
proof -
  obtain b where "kmalloc 0x1000 0 (ks_boot (ks demo_sched)) = Some (PHYS2VIRT 0, b)"
    using empty_page [of "ks_boot (ks demo_sched)"] by (auto simp: demo_sched_defs)
  then obtain s' where s': "arch_init_mm 0x20 (switch_mm 0x10 demo_sched) = Some s'"
    "t_pgd (tasks s' 0x20) = PHYS2VIRT 0"
    by (simp add: arch_init_mm_def sc_kmalloc_def ks_kmalloc_def switch_mm_def Let_def upd_task_def
        PHYS2VIRT_def KERNEL_SPACE_def)
  have "t_pgd (tasks demo_sched 0x10) = PHYS2VIRT 0x5000" "t_id (tasks demo_sched 0x10) = 1"
    "bytes demo_sched a = ucast a" for a
    by (simp_all add: demo_sched_def)
  then have "bytes s' (PHYS2VIRT 0) = 1"
    using arch_init_mm_shifted [OF _ s'(1)] s'(2)
    by (auto simp: PHYS2VIRT_def KERNEL_SPACE_def VIRT2PHYS_def dest: spec [of _ 0])
  with s' show ?thesis by blast
qed

end
