(* ===== verification/Spinlock.thy ===== *)
theory Spinlock
  imports Prelude
begin

text \<open>
  The spin lock of \<^verbatim>\<open>arch/x86_64/include/arch_spinlock.h\<close> and \<^verbatim>\<open>include/spinlock.h\<close>, as a step
  relation over processors that interleave: \<^verbatim>\<open>lock btsq\<close> is one atomic step that reads and sets
  bit 0, and jumps back while it was set; the lock is taken with interrupts off. A
  processor's program is the list of the lock operations it still has to do.
\<close>

section \<open>The operations\<close>

definition spin_try :: "u64 \<Rightarrow> bool \<times> u64" where
  "spin_try v = (bit v 0, v OR 1)"

definition spin_unlock :: "u64 \<Rightarrow> u64" where
  "spin_unlock v = v AND NOT 1"

text \<open>\<^verbatim>\<open>arch_local_irq_save\<close> gives the interrupt flag and clears it; \<^verbatim>\<open>arch_local_irq_restore\<close>
  ORs the saved flag back in.\<close>

definition arch_local_irq_save :: "u64 \<Rightarrow> u64 \<times> u64" where
  "arch_local_irq_save flags = (flags AND 0x200, flags AND NOT 0x200)"

definition arch_local_irq_restore :: "u64 \<Rightarrow> u64 \<Rightarrow> u64" where
  "arch_local_irq_restore irq_state flags = flags OR irq_state"

section \<open>Interleaving processors\<close>

datatype op = Save nat | Lock nat | Crit nat | Unlock nat | Restore nat

text \<open>\<open>Save k\<close> and \<open>Restore k\<close> use the flag variable of lock \<open>k\<close>;
  \<open>Crit k\<close> stands for the work done under lock \<open>k\<close>.\<close>

record smp =
  locks :: "nat \<Rightarrow> u64"
  prog :: "nat \<Rightarrow> op list"
  rflags :: "nat \<Rightarrow> u64"
  saved :: "nat \<Rightarrow> nat \<Rightarrow> u64"

definition pop :: "nat \<Rightarrow> smp \<Rightarrow> smp" where
  "pop i s = s\<lparr>prog := (prog s)(i := tl (prog s i))\<rparr>"

inductive smp_step :: "nat \<Rightarrow> smp \<Rightarrow> smp \<Rightarrow> bool" where
  save: "prog s i = Save k # ops \<Longrightarrow> arch_local_irq_save (rflags s i) = (st, fl) \<Longrightarrow>
    smp_step i s ((pop i s)\<lparr>rflags := (rflags s)(i := fl), saved := (saved s)(i := (saved s i)(k := st))\<rparr>)"
| acquire: "prog s i = Lock k # ops \<Longrightarrow> spin_try (locks s k) = (False, v) \<Longrightarrow>
    smp_step i s ((pop i s)\<lparr>locks := (locks s)(k := v)\<rparr>)"
| spin: "prog s i = Lock k # ops \<Longrightarrow> spin_try (locks s k) = (True, v) \<Longrightarrow>
    smp_step i s (s\<lparr>locks := (locks s)(k := v)\<rparr>)"
| crit: "prog s i = Crit k # ops \<Longrightarrow> smp_step i s (pop i s)"
| unlock: "prog s i = Unlock k # ops \<Longrightarrow>
    smp_step i s ((pop i s)\<lparr>locks := (locks s)(k := spin_unlock (locks s k))\<rparr>)"
| restore: "prog s i = Restore k # ops \<Longrightarrow>
    smp_step i s ((pop i s)\<lparr>rflags := (rflags s)(i := arch_local_irq_restore (saved s i k) (rflags s i))\<rparr>)"

inductive reaches :: "smp \<Rightarrow> smp \<Rightarrow> bool" where
  refl: "reaches s s"
| step: "reaches s t \<Longrightarrow> smp_step i t u \<Longrightarrow> reaches s u"

inductive_cases smp_stepE: "smp_step i s t"

text \<open>\<^verbatim>\<open>spin_lock_irqsave\<close> and \<^verbatim>\<open>spin_unlock_irqrestore\<close> on lock \<open>k\<close>.\<close>

definition spin_lock_irqsave :: "nat \<Rightarrow> op list" where
  "spin_lock_irqsave k = [Save k, Lock k]"

definition spin_unlock_irqrestore :: "nat \<Rightarrow> op list" where
  "spin_unlock_irqrestore k = [Unlock k, Restore k]"

text \<open>\<^verbatim>\<open>create_task\<close> under the queue lock, and \<^verbatim>\<open>migrate_task\<close>, which takes the lock of the
  task's queue, of the task, and of the target queue.\<close>

definition create_task_locking :: "nat \<Rightarrow> op list" where
  "create_task_locking q = spin_lock_irqsave q @ [Crit q] @ spin_unlock_irqrestore q"

definition migrate_task_locking :: "nat \<Rightarrow> nat \<Rightarrow> nat \<Rightarrow> op list" where
  "migrate_task_locking ori task dest =
     spin_lock_irqsave ori @ spin_lock_irqsave task @ spin_lock_irqsave dest @
     [Crit ori, Crit dest] @
     spin_unlock_irqrestore dest @ spin_unlock_irqrestore task @ spin_unlock_irqrestore ori"

section \<open>Mutual exclusion\<close>

text \<open>The locks a processor with this program left to do holds: it will release them without
  taking them first.\<close>

fun holds :: "nat \<Rightarrow> op list \<Rightarrow> bool" where
  "holds k [] = False"
| "holds k (Lock j # ops) = (j \<noteq> k \<and> holds k ops)"
| "holds k (Unlock j # ops) = (j = k \<or> holds k ops)"
| "holds k (_ # ops) = holds k ops"

text \<open>A program is balanced: locks are released only when held, taken only when not held, and
  work under a lock is done while it is held.\<close>

fun balanced :: "op list \<Rightarrow> bool" where
  "balanced [] = True"
| "balanced (Lock j # ops) = (balanced ops \<and> holds j ops)"
| "balanced (Unlock j # ops) = (balanced ops \<and> \<not> holds j ops)"
| "balanced (Crit j # ops) = (balanced ops \<and> holds j ops)"
| "balanced (_ # ops) = balanced ops"

definition lock_inv :: "smp \<Rightarrow> bool" where
  "lock_inv s = ((\<forall>i. balanced (prog s i)) \<and>
     (\<forall>k. (bit (locks s k) 0 \<longleftrightarrow> (\<exists>i. holds k (prog s i))) \<and>
          (\<forall>i j. holds k (prog s i) \<and> holds k (prog s j) \<longrightarrow> i = j)))"

lemma bit0_spin [simp]: "bit (v OR 1 :: u64) 0"
  by (simp add: bit_or_iff)

lemma spin_unlock_free: "\<not> bit (spin_unlock v) 0"
  unfolding spin_unlock_def bit_and_iff bit_not_iff by simp

lemma lock_inv_same:
  assumes "lock_inv s" "\<And>i. balanced (prog t i)" "\<And>i k. holds k (prog t i) = holds k (prog s i)"
    "\<And>k. bit (locks t k) 0 = bit (locks s k) 0"
  shows "lock_inv t"
  using assms by (simp add: lock_inv_def)

lemma lock_inv_pop:
  assumes "lock_inv s" "prog s i = x # ops" "\<And>k. x \<noteq> Lock k" "\<And>k. x \<noteq> Unlock k"
    "prog t = (prog s)(i := ops)" "locks t = locks s"
  shows "lock_inv t"
proof -
  have "balanced (x # ops)" using assms(1,2) by (metis lock_inv_def)
  then have "holds k (x # ops) = holds k ops" "balanced ops" for k
    using assms(3,4) by (cases x; simp)+
  then show ?thesis
    using assms by (intro lock_inv_same [OF assms(1)]) (auto simp: lock_inv_def)
qed

lemma lock_inv_step: "smp_step i s t \<Longrightarrow> lock_inv s \<Longrightarrow> lock_inv t"
proof (induction rule: smp_step.induct)
  case (save s i k ops st fl)
  from lock_inv_pop [OF save.prems save.hyps(1)] show ?case by (simp add: pop_def save.hyps(1))
next
  case (acquire s i k ops v)
  then have free: "\<not> bit (locks s k) 0" "bit v 0" by (auto simp: spin_try_def)
  have bal: "balanced ops" "holds k ops"
    using acquire by (auto simp: lock_inv_def dest: spec [of _ i])
  have none: "\<not> holds k (prog s j)" for j using acquire.prems free(1) by (auto simp: lock_inv_def)
  have h: "holds m (if j = i then ops else prog s j) \<longleftrightarrow> holds m (prog s j) \<or> (m = k \<and> j = i)" for m j
    using acquire.hyps(1) bal none by auto
  have "balanced (if j = i then ops else prog s j)" for j
    using acquire.prems bal by (simp add: lock_inv_def)
  then show ?case
    using acquire.prems acquire.hyps(1) free none
    unfolding lock_inv_def pop_def by (auto simp: fun_upd_def h)
next
  case (spin s i k ops v)
  then have "bit v 0 = bit (locks s k) 0" by (auto simp: spin_try_def)
  then show ?case using spin.prems by (auto simp: lock_inv_def)
next
  case (crit s i k ops)
  from lock_inv_pop [OF crit.prems crit.hyps(1)] show ?case by (simp add: pop_def crit.hyps(1))
next
  case (unlock s i k ops)
  have own: "holds k (prog s i)" using unlock by simp
  have only: "j = i" if "holds k (prog s j)" for j
    using that own unlock.prems by (auto simp: lock_inv_def)
  have bal: "balanced ops" "\<not> holds k ops"
    using unlock by (auto simp: lock_inv_def dest: spec [of _ i])
  have h: "holds m (if j = i then ops else prog s j) \<longleftrightarrow> holds m (prog s j) \<and> \<not> (m = k \<and> j = i)" for m j
    using unlock.hyps(1) bal by auto
  have "balanced (if j = i then ops else prog s j)" for j
    using unlock.prems bal by (simp add: lock_inv_def)
  then show ?case
    using unlock.prems unlock.hyps(1) only
    unfolding lock_inv_def pop_def by (auto simp: fun_upd_def h spin_unlock_free)
next
  case (restore s i k ops)
  from lock_inv_pop [OF restore.prems restore.hyps(1)] show ?case by (simp add: pop_def restore.hyps(1))
qed

lemma reaches_lock_inv: "reaches s t \<Longrightarrow> lock_inv s \<Longrightarrow> lock_inv t"
  by (induction rule: reaches.induct) (auto dest: lock_inv_step)

text \<open>C11. Whatever processors run balanced programs, in whatever interleaving, two of them never work
  under the same lock at the same time, and a lock that is free is held by nobody.\<close>

theorem spin_lock_exclusion:
  assumes "reaches s t" "\<forall>k. \<not> bit (locks s k) 0" "\<forall>i. balanced (prog s i) \<and> (\<forall>k. \<not> holds k (prog s i))"
    and "prog t i = Crit k # ops" "prog t j = Crit k # ops'"
  shows "i = j \<and> bit (locks t k) 0"
proof -
  have "lock_inv s" using assms(2,3) by (simp add: lock_inv_def)
  then have inv: "lock_inv t" using reaches_lock_inv assms(1) by blast
  then have "balanced (Crit k # ops)" "balanced (Crit k # ops')"
    using assms(4,5) unfolding lock_inv_def by metis+
  then have "holds k (prog t i)" "holds k (prog t j)" using assms(4,5) by simp_all
  with inv show ?thesis unfolding lock_inv_def by blast
qed

lemma kernel_programs_balanced:
  "balanced (create_task_locking q)" "\<not> holds k (create_task_locking q)"
  "distinct [ori, task, dest] \<Longrightarrow> balanced (migrate_task_locking ori task dest)"
  "distinct [ori, task, dest] \<Longrightarrow> \<not> holds k (migrate_task_locking ori task dest)"
  by (auto simp: create_task_locking_def migrate_task_locking_def spin_lock_irqsave_def
      spin_unlock_irqrestore_def)

section \<open>Two migrations in opposite directions\<close>

text \<open>Processor \<open>i\<close> holds \<open>k\<close> and spins on \<open>l\<close>, processor \<open>j\<close> the other way round.\<close>

definition deadlocked :: "smp \<Rightarrow> nat \<Rightarrow> nat \<Rightarrow> nat \<Rightarrow> nat \<Rightarrow> bool" where
  "deadlocked s i j k l = (\<exists>p q. prog s i = Lock l # p \<and> prog s j = Lock k # q \<and>
     bit (locks s k) 0 \<and> bit (locks s l) 0)"

text \<open>Only the two hold the locks, so nobody else can release them.\<close>

definition stuck_pair :: "smp \<Rightarrow> nat \<Rightarrow> nat \<Rightarrow> nat \<Rightarrow> nat \<Rightarrow> bool" where
  "stuck_pair s i j k l = (lock_inv s \<and> deadlocked s i j k l \<and> holds k (prog s i) \<and> holds l (prog s j) \<and> i \<noteq> j)"

lemma stuck_pair_step:
  assumes "smp_step n s t" "stuck_pair s i j k l"
  shows "stuck_pair t i j k l"
proof -
  have inv: "lock_inv s" "lock_inv t" using assms lock_inv_step by (auto simp: stuck_pair_def)
  obtain p q where pq: "prog s i = Lock l # p" "prog s j = Lock k # q" "bit (locks s k) 0" "bit (locks s l) 0"
    and hold: "holds k (prog s i)" "holds l (prog s j)" and ij: "i \<noteq> j"
    using assms(2) by (auto simp: stuck_pair_def deadlocked_def)
  have own: "m = i" if "holds k (prog s m)" for m
    using that hold inv(1) by (auto simp: lock_inv_def)
  have own': "m = j" if "holds l (prog s m)" for m
    using that hold inv(1) by (auto simp: lock_inv_def)
  have "prog t i = prog s i \<and> prog t j = prog s j"
    using assms(1) pq by (cases rule: smp_step.cases) (auto simp: pop_def spin_try_def)
  moreover from this have "bit (locks t k) 0 \<and> bit (locks t l) 0"
    using inv(2) hold unfolding lock_inv_def by metis
  ultimately show ?thesis using inv(2) pq hold ij by (simp add: stuck_pair_def deadlocked_def)
qed

lemma stuck_pair_reaches: "reaches s t \<Longrightarrow> stuck_pair s i j k l \<Longrightarrow> stuck_pair t i j k l"
  by (induction rule: reaches.induct) (auto dest: stuck_pair_step)

lemma reaches_trans: "reaches t u \<Longrightarrow> reaches s t \<Longrightarrow> reaches s u"
  by (induction rule: reaches.induct) (auto intro: reaches.step)

lemma reaches_save:
  assumes "prog s i = Save k # ops"
  shows "\<exists>t. reaches s t \<and> prog t = (prog s)(i := ops) \<and> locks t = locks s"
proof -
  obtain st fl where "arch_local_irq_save (rflags s i) = (st, fl)" by fastforce
  from reaches.step [OF reaches.refl smp_step.save [OF assms this]] show ?thesis
    by (intro exI conjI) (assumption, simp_all add: pop_def assms)
qed

lemma reaches_take:
  assumes "prog s i = Save k # Lock k # ops" "\<not> bit (locks s k) 0"
  shows "\<exists>t. reaches s t \<and> prog t = (prog s)(i := ops) \<and> locks t = (locks s)(k := locks s k OR 1)"
proof -
  obtain s1 where s1: "reaches s s1" "prog s1 = (prog s)(i := Lock k # ops)" "locks s1 = locks s"
    using reaches_save [OF assms(1)] by blast
  have "prog s1 i = Lock k # ops" "spin_try (locks s1 k) = (False, locks s k OR 1)"
    using s1 assms(2) by (simp_all add: spin_try_def)
  from reaches.step [OF s1(1) smp_step.acquire [OF this]] show ?thesis
    by (intro exI conjI) (assumption, simp_all add: pop_def s1)
qed

text \<open>One processor of a migration takes the first two locks and is about to take the third.\<close>

lemma reaches_half_migration:
  assumes "prog s i = migrate_task_locking q t q'" "distinct [q, t, q']"
    "\<not> bit (locks s q) 0" "\<not> bit (locks s t) 0"
  shows "\<exists>u p. reaches s u \<and> prog u = (prog s)(i := Lock q' # p) \<and>
     locks u = (locks s)(q := locks s q OR 1, t := locks s t OR 1)"
proof -
  let ?rest = "[Crit q, Crit q'] @ spin_unlock_irqrestore q' @ spin_unlock_irqrestore t @ spin_unlock_irqrestore q"
  have p: "prog s i = Save q # Lock q # Save t # Lock t # Save q' # Lock q' # ?rest"
    using assms(1) by (simp add: migrate_task_locking_def spin_lock_irqsave_def)
  obtain s1 where s1: "reaches s s1"
    "prog s1 = (prog s)(i := Save t # Lock t # Save q' # Lock q' # ?rest)"
    "locks s1 = (locks s)(q := locks s q OR 1)"
    using reaches_take [OF p assms(3)] by blast
  then obtain s2 where s2: "reaches s1 s2" "prog s2 = (prog s)(i := Save q' # Lock q' # ?rest)"
    "locks s2 = (locks s)(q := locks s q OR 1, t := locks s t OR 1)"
    using reaches_take [of s1 i t] assms(2,4) by (auto simp: fun_upd_twist)
  then obtain s3 where "reaches s2 s3" "prog s3 = (prog s)(i := Lock q' # ?rest)" "locks s3 = locks s2"
    using reaches_save [of s2 i q'] by auto
  with s1(1) s2 show ?thesis by (metis reaches_trans)
qed

text \<open>Two processors that migrate tasks between the same two queues in opposite directions can
  deadlock: from the start with all locks free they reach a state after which neither of them ever gets
  any further, whatever is scheduled, because each holds the queue lock the other spins on.\<close>

theorem migrate_task_deadlock:
  assumes "distinct [q, q', t, t']" "i \<noteq> j"
    and "prog s i = migrate_task_locking q t q'" "prog s j = migrate_task_locking q' t' q"
    and "\<forall>k. \<not> bit (locks s k) 0" "\<forall>n. balanced (prog s n) \<and> (\<forall>k. \<not> holds k (prog s n))"
  shows "\<exists>u. reaches s u \<and> (\<forall>v. reaches u v \<longrightarrow>
           (\<exists>p p'. prog v i = Lock q' # p \<and> prog v j = Lock q # p'))"
proof -
  obtain s1 p1 where s1: "reaches s s1" "prog s1 = (prog s)(i := Lock q' # p1)"
    "locks s1 = (locks s)(q := locks s q OR 1, t := locks s t OR 1)"
    using reaches_half_migration [OF assms(3)] assms(1,5) by auto
  have "prog s1 j = migrate_task_locking q' t' q" "\<not> bit (locks s1 q') 0" "\<not> bit (locks s1 t') 0"
    using s1 assms(1,2,4,5) by auto
  then obtain u p2 where u: "reaches s1 u" "prog u = (prog s1)(j := Lock q # p2)"
    "locks u = (locks s1)(q' := locks s1 q' OR 1, t' := locks s1 t' OR 1)"
    using reaches_half_migration [of s1 j q' t' q] assms(1) by auto
  have su: "reaches s u" using u(1) s1(1) by (rule reaches_trans)
  have inv: "lock_inv u"
    using reaches_lock_inv [OF su] assms(5,6) by (simp add: lock_inv_def)
  have pr: "prog u i = Lock q' # p1" "prog u j = Lock q # p2" using u(2) s1(2) assms(2) by auto
  have b: "bit (locks u q) 0" "bit (locks u q') 0" using u(3) s1(3) assms(1) by auto
  have hq: "holds q (prog u i)" "holds q' (prog u j)"
  proof -
    have no: "\<not> holds k (prog u n)" if "n \<noteq> i" "n \<noteq> j" for n k
      using that u(2) s1(2) assms(6) by auto
    have bal: "balanced (Lock q' # p1)" "balanced (Lock q # p2)" using inv pr unfolding lock_inv_def by metis+
    obtain n m where "holds q (prog u n)" "holds q' (prog u m)" using inv b unfolding lock_inv_def by blast
    with no pr bal show "holds q (prog u i)" "holds q' (prog u j)" by (metis holds.simps(2))+
  qed
  have sp: "stuck_pair u i j q q'"
    using inv pr b hq assms(2) by (simp add: stuck_pair_def deadlocked_def)
  then have "\<exists>p p'. prog v i = Lock q' # p \<and> prog v j = Lock q # p'" if "reaches u v" for v
    using stuck_pair_reaches [OF that sp] by (auto simp: stuck_pair_def deadlocked_def)
  with su show ?thesis by blast
qed

definition demo_smp :: smp where
  "demo_smp = \<lparr>locks = (\<lambda>_. 0),
     prog = (\<lambda>n. if n = 0 then migrate_task_locking 1 3 2 else if n = 1 then migrate_task_locking 2 4 1 else []),
     rflags = (\<lambda>_. 0x202), saved = (\<lambda>_ _. 0)\<rparr>"

lemma demo_smp_ok: "\<forall>k. \<not> bit (locks demo_smp k) 0"
  "\<forall>n. balanced (prog demo_smp n) \<and> (\<forall>k. \<not> holds k (prog demo_smp n))"
  by (auto simp: demo_smp_def kernel_programs_balanced)

lemma migrate_task_deadlock_witness:
  "\<exists>u. reaches demo_smp u \<and> prog u 0 \<noteq> [] \<and> (\<forall>v. reaches u v \<longrightarrow> prog v 0 \<noteq> [] \<and> prog v 1 \<noteq> [])"
proof -
  have "prog demo_smp 0 = migrate_task_locking 1 3 2" "prog demo_smp 1 = migrate_task_locking 2 4 1"
    by (simp_all add: demo_smp_def)
  from migrate_task_deadlock [OF _ _ this demo_smp_ok] obtain u where
    u: "reaches demo_smp u" "\<forall>v. reaches u v \<longrightarrow> (\<exists>p p'. prog v 0 = Lock 2 # p \<and> prog v 1 = Lock 1 # p')"
    by auto
  then have "\<forall>v. reaches u v \<longrightarrow> prog v 0 \<noteq> [] \<and> prog v 1 \<noteq> []" by fastforce
  with u(1) reaches.refl [of u] show ?thesis by blast
qed

lemma spin_lock_exclusion_witness:
  "\<exists>t. reaches (demo_smp\<lparr>prog := (\<lambda>_. create_task_locking 0)\<rparr>) t \<and> List.hd (prog t 5) = Crit 0 \<and> bit (locks t 0) 0"
proof -
  let ?s = "demo_smp\<lparr>prog := (\<lambda>_. create_task_locking 0)\<rparr>"
  have p: "prog ?s 5 = Save 0 # Lock 0 # Crit 0 # spin_unlock_irqrestore 0"
    by (simp add: create_task_locking_def spin_lock_irqsave_def)
  obtain t where t: "reaches ?s t" "prog t 5 = Crit 0 # spin_unlock_irqrestore 0"
    using reaches_take [OF p] by (auto simp: demo_smp_def)
  have "\<forall>k. \<not> bit (locks ?s k) 0" using demo_smp_ok(1) by simp
  from spin_lock_exclusion [OF t(1) this _ t(2) t(2)] have "bit (locks t 0) 0"
    by (simp add: kernel_programs_balanced)
  with t show ?thesis by auto
qed

text \<open>Interrupts are enabled after the nested release exactly when they were before.\<close>

lemma irq_flag_roundtrip:
  "arch_local_irq_save f = (st, f') \<Longrightarrow> arch_local_irq_restore st f' = f"
  by (auto simp: arch_local_irq_save_def arch_local_irq_restore_def bit_eq_iff bit_simps)


end
