(* ===== verification/Irq.thy ===== *)
theory Irq
  imports Nodes
begin

text \<open>
  Interrupt vectors and handlers: \<^verbatim>\<open>kernel/irq.c\<close> and the dispatcher and set-up of
  \<^verbatim>\<open>arch/x86_64/entry.c\<close>. The descriptors, the vector bitmap and the counter
  \<^verbatim>\<open>irq_nr\<close> are fields of \<^verbatim>\<open>cpu\<close> in \<^verbatim>\<open>Nodes\<close>; the code of the handlers is
  the argument \<open>run\<close>. The 224 descriptors of a processor are an array: an index outside it is
  \<^verbatim>\<open>None\<close>. The dispatcher walks the list of actions as it is when the walk starts.
\<close>

section \<open>Vectors\<close>

fun alloc_irqs_cpu_loop :: "u32 \<Rightarrow> u32 \<Rightarrow> u64 list \<Rightarrow> kstate \<Rightarrow> int \<times> kstate" where
  "alloc_irqs_cpu_loop cpu nr_irq [] s = (- 1, s)"
| "alloc_irqs_cpu_loop cpu nr_irq (c # cs) s =
     (if cpu_id (cpus s c) = scast cpu then
        let (ret, bm) = bitmap_allocate_bits (irq_bitmap (cpus s c)) (scast nr_irq) in
        if ret \<noteq> - 1
        then (ret, upd_cpu c (\<lambda>x. x\<lparr>irq_bitmap := bm, irq_nr := irq_nr x + nr_irq\<rparr>) s)
        else alloc_irqs_cpu_loop cpu nr_irq cs s
      else alloc_irqs_cpu_loop cpu nr_irq cs s)"

definition alloc_irqs_cpu :: "u32 \<Rightarrow> u32 \<Rightarrow> kstate \<Rightarrow> int \<times> kstate" where
  "alloc_irqs_cpu cpu nr_irq s = alloc_irqs_cpu_loop cpu nr_irq (all_cpus s) s"

text \<open>The result also carries the value stored through \<^verbatim>\<open>cpu\<close>, when one is.\<close>

fun alloc_irqs_loop :: "u32 \<Rightarrow> u32 \<Rightarrow> u64 list \<Rightarrow> kstate \<Rightarrow> int \<times> u32 option \<times> kstate" where
  "alloc_irqs_loop nr_irq align [] s = (- 1, None, s)"
| "alloc_irqs_loop nr_irq align (c # cs) s =
     (let (ret, bm) = bitmap_allocate_bits_aligned (irq_bitmap (cpus s c)) (scast nr_irq) (sint align) in
      if ret \<noteq> - 1
      then (ret, Some (ucast (cpu_id (cpus s c))),
            upd_cpu c (\<lambda>x. x\<lparr>irq_bitmap := bm, irq_nr := irq_nr x + nr_irq\<rparr>) s)
      else alloc_irqs_loop nr_irq align cs s)"

definition alloc_irqs :: "u32 \<Rightarrow> u32 \<Rightarrow> kstate \<Rightarrow> int \<times> u32 option \<times> kstate" where
  "alloc_irqs nr_irq align s = alloc_irqs_loop nr_irq align (all_cpus s) s"

definition free_irq :: "u32 \<Rightarrow> u32 \<Rightarrow> kstate \<Rightarrow> int \<times> kstate" where
  "free_irq cpu irq s =
     (case find (\<lambda>c. cpu_id (cpus s c) = scast cpu) (all_cpus s) of
        None \<Rightarrow> (- 1, s)
      | Some c \<Rightarrow> (0, upd_cpu c (\<lambda>x. x\<lparr>irq_nr := irq_nr x - 1,
                        irq_bitmap := bitmap_clear (scast irq) (irq_bitmap x)\<rparr>) s))"

text \<open>The processor with the smallest \<^verbatim>\<open>irq_nr\<close>, an \<^verbatim>\<open>int\<close>: the first one below the
  bound, or the last one not above it. The pointer stays uninitialised when there is none.\<close>

fun min_irq_first :: "kstate \<Rightarrow> u64 list \<Rightarrow> int \<Rightarrow> u64 option \<Rightarrow> u64 option" where
  "min_irq_first s [] m r = r"
| "min_irq_first s (c # cs) m r =
     (if sint (irq_nr (cpus s c)) < m then min_irq_first s cs (sint (irq_nr (cpus s c))) (Some c)
      else min_irq_first s cs m r)"

fun min_irq_last :: "kstate \<Rightarrow> u64 list \<Rightarrow> int \<Rightarrow> u64 option \<Rightarrow> u64 option" where
  "min_irq_last s [] m r = r"
| "min_irq_last s (c # cs) m r =
     (if sint (irq_nr (cpus s c)) \<le> m then min_irq_last s cs (sint (irq_nr (cpus s c))) (Some c)
      else min_irq_last s cs m r)"

definition alloc_irq_from_smp :: "kstate \<Rightarrow> (int \<times> u32 \<times> kstate) option" where
  "alloc_irq_from_smp s = do {
     c \<leftarrow> min_irq_first s (all_cpus s) 0xffff None;
     let (ret, s') = alloc_irqs_cpu (ucast (cpu_id (cpus s c))) 1 s;
     Some (ret, ucast (cpu_id (cpus s c)), s')
   }"

section \<open>Handlers\<close>

definition NR_IRQ_DESC :: nat where "NR_IRQ_DESC = 224"
definition SIZEOF_IRQ_ACTION :: u64 where "SIZEOF_IRQ_ACTION = 40"
definition SIZEOF_IRQ_DESC :: u64 where "SIZEOF_IRQ_DESC = 40"

text \<open>A handler at the end of a descriptor's list.\<close>

definition add_action :: "nat \<Rightarrow> irq_action \<Rightarrow> cpu \<Rightarrow> cpu" where
  "add_action irq a x = x\<lparr>irq_descs := (irq_descs x)(irq := (irq_descs x irq)\<lparr>
     desc_count := desc_count (irq_descs x irq) + 1,
     irq_action_list := irq_action_list (irq_descs x irq) @ [a]\<rparr>)\<rparr>"

definition request_irq_smp :: "u64 \<Rightarrow> u32 \<Rightarrow> u64 \<Rightarrow> u64 \<Rightarrow> kstate \<Rightarrow> (int \<times> kstate) option" where
  "request_irq_smp cpu_ptr irq handler dev s = do {
     (action, s) \<leftarrow> ks_kmalloc SIZEOF_IRQ_ACTION s;
     if action = 0 then Some (- 1, s)
     else if NR_IRQ_DESC \<le> unat irq then None
     else Some (0, upd_cpu cpu_ptr (add_action (unat irq) \<lparr>act_handler = handler, act_data = dev\<rparr>) s)
   }"

definition request_irq :: "u32 \<Rightarrow> u64 \<Rightarrow> u64 \<Rightarrow> kstate \<Rightarrow> (int \<times> kstate) option" where
  "request_irq irq handler dev s = do {
     let m = min_irq_last s (all_cpus s) 0x1000 None;
     (action, s) \<leftarrow> ks_kmalloc SIZEOF_IRQ_ACTION s;
     if action = 0 then Some (- 1, s)
     else do {
       c \<leftarrow> m;
       if NR_IRQ_DESC \<le> unat irq then None
       else Some (0, upd_cpu c (add_action (unat irq) \<lparr>act_handler = handler, act_data = dev\<rparr>) s)
     }
   }"

text \<open>\<^verbatim>\<open>bitmap_alloc\<close> for the vectors and \<^verbatim>\<open>setup_irq\<close>. Writing the members of a
  header at 0 is \<open>None\<close>; without memory for the data the result is \<^verbatim>\<open>NULL\<close>, here the
  inner \<open>None\<close>. \<open>old\<close> is what the memory of the data held. \<^verbatim>\<open>setup_irq\<close> does not look at
  the result: the bitmap of the processor is then what lies at address 0, the argument
  \<open>at_zero\<close>.\<close>

definition bitmap_alloc :: "u64 \<Rightarrow> (u64 \<Rightarrow> u8) \<Rightarrow> kstate \<Rightarrow> (bitmap option \<times> kstate) option" where
  "bitmap_alloc sz old s = do {
     (p, s) \<leftarrow> ks_kmalloc 16 s;
     if p = 0 then None
     else do {
       (d, s) \<leftarrow> ks_kmalloc (sz div 8) s;
       if d = 0 then Some (None, s)
       else Some (Some (bitmap_init \<lparr>bitmap_data = old, bitmap_size = sz\<rparr> sz), s)
     }
   }"

definition setup_irq :: "u64 \<Rightarrow> (u64 \<Rightarrow> u8) \<Rightarrow> bitmap \<Rightarrow> kstate \<Rightarrow> kstate option" where
  "setup_irq cpuid old at_zero s = do {
     c \<leftarrow> get_cpu cpuid s;
     let s = upd_cpu c (irq_nr_update (\<lambda>_. 256 - 32)) s;
     (p, s) \<leftarrow> ks_kmalloc (SIZEOF_IRQ_DESC * 224) s;
     (bm, s) \<leftarrow> bitmap_alloc 224 old s;
     let s = upd_cpu c (irq_bitmap_update (\<lambda>_. case bm of None \<Rightarrow> at_zero | Some b \<Rightarrow> b)) s;
     if p = 0 then None
     else Some (upd_cpu c (irq_descs_update (\<lambda>ds i.
            if i < NR_IRQ_DESC then (ds i)\<lparr>irq_action_list := []\<rparr> else ds i)) s)
   }"

section \<open>Dispatch\<close>

text \<open>What happens during an interrupt: handlers are called, and the local APIC is told.\<close>

datatype irq_event = Handler u64 u64 u64 | Eoi

fun run_actions ::
    "(irq_action \<Rightarrow> u64 \<Rightarrow> kstate \<Rightarrow> kstate option) \<Rightarrow> u64 \<Rightarrow> irq_action list \<Rightarrow>
     kstate \<Rightarrow> (kstate \<times> irq_event list) option" where
  "run_actions run vector [] s = Some (s, [])"
| "run_actions run vector (a # as) s = do {
     s \<leftarrow> run a vector s;
     (s, ev) \<leftarrow> run_actions run vector as s;
     Some (s, Handler (act_handler a) vector (act_data a) # ev)
   }"

definition intr_handler_common ::
    "(irq_action \<Rightarrow> u64 \<Rightarrow> kstate \<Rightarrow> kstate option) \<Rightarrow> u64 \<Rightarrow> u64 \<Rightarrow> kstate \<Rightarrow>
     (kstate \<times> irq_event list) option" where
  "intr_handler_common run cpuid vector s = do {
     c \<leftarrow> get_cpu cpuid s;
     let saved = cpu_status (cpus s c);
     let s = upd_cpu c (cpu_status_update (\<lambda>_. CPU_STATUS_IRQ_CONTEXT)) s;
     (s, ev) \<leftarrow>
       (if 32 \<le> vector then
          if NR_IRQ_DESC \<le> unat (vector - 32) then None
          else do {
            (s, ev) \<leftarrow> run_actions run vector
                        (irq_action_list (irq_descs (cpus s c) (unat (vector - 32)))) s;
            Some (s, ev @ [Eoi])
          }
        else Some (s, []));
     Some (upd_cpu c (cpu_status_update (\<lambda>_. saved)) s, ev)
   }"

section \<open>Vectors are handed out once\<close>

lemma all_cpus_upd_cpu: "all_cpus (upd_cpu c f s) = all_cpus s"
  by simp

text \<open>\<open>c\<close> is the one processor with the id \<open>cpu\<close>.\<close>

definition the_cpu :: "kstate \<Rightarrow> u32 \<Rightarrow> u64 \<Rightarrow> bool" where
  "the_cpu s cpu c = (c \<in> set (all_cpus s) \<and>
     (\<forall>d \<in> set (all_cpus s). cpu_id (cpus s d) = scast cpu \<longleftrightarrow> d = c))"

lemma alloc_loop_miss:
  "\<forall>d \<in> set cs. cpu_id (cpus s d) \<noteq> scast cpu \<or> fst (bitmap_allocate_bits (irq_bitmap (cpus s d)) (scast n)) = - 1 \<Longrightarrow>
   alloc_irqs_cpu_loop cpu n cs s = (- 1, s)"
  by (induction cs) (auto simp: Let_def split: prod.splits)

lemma alloc_loop_hit:
  assumes "c \<in> set cs" "\<forall>d \<in> set cs. cpu_id (cpus s d) = scast cpu \<longleftrightarrow> d = c"
    "bitmap_allocate_bits (irq_bitmap (cpus s c)) (scast n) = (k, bm)" "k \<noteq> - 1"
  shows "alloc_irqs_cpu_loop cpu n cs s = (k, upd_cpu c (\<lambda>x. x\<lparr>irq_bitmap := bm, irq_nr := irq_nr x + n\<rparr>) s)"
  using assms(1,2)
proof (induction cs)
  case (Cons d cs)
  then show ?case using assms(3,4) by (cases "d = c") auto
qed simp

lemma alloc_irqs_cpu_cases:
  assumes "the_cpu s cpu c" "unat (bitmap_size (irq_bitmap (cpus s c))) < 2 ^ 31"
  shows "(\<exists>k bm. alloc_irqs_cpu cpu 1 s = (int k, upd_cpu c (\<lambda>x. x\<lparr>irq_bitmap := bm, irq_nr := irq_nr x + 1\<rparr>) s) \<and>
            k < unat (bitmap_size (irq_bitmap (cpus s c))) \<and> \<not> bit_at (irq_bitmap (cpus s c)) k \<and>
            (\<forall>r < k. bit_at (irq_bitmap (cpus s c)) r) \<and>
            bitmap_size bm = bitmap_size (irq_bitmap (cpus s c)) \<and>
            (\<forall>m < 2 ^ 64. bit_at bm m \<longleftrightarrow> bit_at (irq_bitmap (cpus s c)) m \<or> m = k)) \<or>
         alloc_irqs_cpu cpu 1 s = (- 1, s) \<and>
           (\<forall>r < unat (bitmap_size (irq_bitmap (cpus s c))). bit_at (irq_bitmap (cpus s c)) r)"
proof -
  let ?b = "irq_bitmap (cpus s c)"
  have one: "(scast (1 :: u32) :: u64) = 1" by simp
  have fr: "free_region ?b 1 r \<longleftrightarrow> r < unat (bitmap_size ?b) \<and> \<not> bit_at ?b r" for r
    by (auto simp: free_region_def)
  have tc: "c \<in> set (all_cpus s)" "\<forall>d \<in> set (all_cpus s). cpu_id (cpus s d) = scast cpu \<longleftrightarrow> d = c"
    using assms(1) by (auto simp: the_cpu_def)
  have "unat (1 :: u64) = 1" "0 < (1 :: nat)" "1 < (2 :: nat) ^ 62" by simp_all
  from allocate_bits_cases [OF this assms(2)] show ?thesis
  proof (elim disjE exE conjE)
    fix k bm assume k: "bitmap_allocate_bits ?b 1 = (int k, bm)" "free_region ?b 1 k"
      "\<forall>r < k. \<not> free_region ?b 1 r" "bitmap_size bm = bitmap_size ?b"
      "\<forall>m < 2 ^ 64. bit_at bm m \<longleftrightarrow> bit_at ?b m \<or> k \<le> m \<and> m < k + 1"
    have "alloc_irqs_cpu cpu 1 s = (int k, upd_cpu c (\<lambda>x. x\<lparr>irq_bitmap := bm, irq_nr := irq_nr x + 1\<rparr>) s)"
      unfolding alloc_irqs_cpu_def using k(1) by (intro alloc_loop_hit [OF tc]) (simp_all add: one)
    moreover have "\<forall>r < k. bit_at ?b r" using k(2,3) unfolding fr by auto
    moreover have "\<forall>m < 2 ^ 64. bit_at bm m \<longleftrightarrow> bit_at ?b m \<or> m = k" using k(5) by auto
    ultimately show ?thesis using k(2,4) unfolding fr by blast
  next
    assume k: "bitmap_allocate_bits ?b 1 = (- 1, ?b)" "\<forall>r. \<not> free_region ?b 1 r"
    have "alloc_irqs_cpu cpu 1 s = (- 1, s)"
      unfolding alloc_irqs_cpu_def using tc k(1) by (intro alloc_loop_miss) (auto simp: one)
    then show ?thesis using k(2) unfolding fr by blast
  qed
qed

lemma free_irq_hit:
  assumes "the_cpu s cpu c"
  shows "free_irq cpu irq s = (0, upd_cpu c (\<lambda>x. x\<lparr>irq_nr := irq_nr x - 1,
           irq_bitmap := bitmap_clear (scast irq) (irq_bitmap x)\<rparr>) s)"
proof -
  have "find (\<lambda>c. cpu_id (cpus s c) = scast cpu) cs = Some c"
    if "c \<in> set cs" "\<forall>d \<in> set cs. cpu_id (cpus s d) = scast cpu \<longleftrightarrow> d = c" for cs
    using that by (induction cs) auto
  then show ?thesis using assms by (simp add: free_irq_def the_cpu_def)
qed

lemma the_cpu_upd:
  "(\<And>x. cpu_id (f x) = cpu_id x) \<Longrightarrow> the_cpu (upd_cpu c f s) cpu d = the_cpu s cpu d"
  by (simp add: the_cpu_def) (auto simp: upd_cpu_def)

text \<open>C20. A vector is handed out only when it was free, and then it is the lowest free one and taken; freeing it
  gives back the processor's counter and exactly that vector, so that the next request
  gets it again.\<close>

theorem alloc_free_irq_roundtrip:
  assumes "the_cpu s cpu c" "unat (bitmap_size (irq_bitmap (cpus s c))) < 2 ^ 31"
    and "alloc_irqs_cpu cpu 1 s = (ret, s1)" "ret \<noteq> - 1"
  shows "\<exists>k s2. ret = int k \<and> \<not> bit_at (irq_bitmap (cpus s c)) k \<and> bit_at (irq_bitmap (cpus s1 c)) k \<and>
     (\<forall>r < k. bit_at (irq_bitmap (cpus s c)) r) \<and>
     free_irq cpu (of_nat k) s1 = (0, s2) \<and> irq_nr (cpus s2 c) = irq_nr (cpus s c) \<and>
     (\<forall>m < 2 ^ 64. bit_at (irq_bitmap (cpus s2 c)) m \<longleftrightarrow> bit_at (irq_bitmap (cpus s c)) m) \<and>
     fst (alloc_irqs_cpu cpu 1 s2) = ret"
proof -
  let ?b = "irq_bitmap (cpus s c)"
  obtain k bm where k: "ret = int k" "k < unat (bitmap_size ?b)" "\<not> bit_at ?b k" "\<forall>r < k. bit_at ?b r"
    "bitmap_size bm = bitmap_size ?b" "\<forall>m < 2 ^ 64. bit_at bm m \<longleftrightarrow> bit_at ?b m \<or> m = k"
    and s1: "s1 = upd_cpu c (\<lambda>x. x\<lparr>irq_bitmap := bm, irq_nr := irq_nr x + 1\<rparr>) s"
    using alloc_irqs_cpu_cases [OF assms(1,2)] assms(3,4) by auto
  have k31: "k < 2 ^ 31" using k(2) assms(2) by linarith
  have sk: "(scast (of_nat k :: u32) :: u64) = of_nat k"
    using k31 by (simp add: scast_eq signed_of_nat signed_take_bit_int_eq_self)
  have tc1: "the_cpu s1 cpu c" using assms(1) by (simp add: s1 the_cpu_upd)
  let ?s2 = "upd_cpu c (\<lambda>x. x\<lparr>irq_nr := irq_nr x - 1,
           irq_bitmap := bitmap_clear (of_nat k) (irq_bitmap x)\<rparr>) s1"
  have f: "free_irq cpu (of_nat k) s1 = (0, ?s2)" using free_irq_hit [OF tc1] by (simp add: sk)
  have b2: "irq_bitmap (cpus ?s2 c) = bitmap_clear (of_nat k) bm" "irq_nr (cpus ?s2 c) = irq_nr (cpus s c)"
    by (simp_all add: s1 upd_cpu_def)
  have same: "bit_at (irq_bitmap (cpus ?s2 c)) m \<longleftrightarrow> bit_at ?b m" if "m < 2 ^ 64" for m
    using that k k31 by (auto simp: b2 bit_at_def bitmap_get_clear of_nat_eq_small)
  have tc2: "the_cpu ?s2 cpu c" using tc1 by (simp add: the_cpu_upd)
  have sz2: "bitmap_size (irq_bitmap (cpus ?s2 c)) = bitmap_size ?b" by (simp add: b2 k)
  have again: "fst (alloc_irqs_cpu cpu 1 ?s2) = int k"
    using alloc_irqs_cpu_cases [OF tc2, unfolded sz2, OF assms(2)]
  proof (elim disjE exE conjE)
    fix k' bm'
    assume a: "alloc_irqs_cpu cpu 1 ?s2 = (int k', upd_cpu c (\<lambda>x. x\<lparr>irq_bitmap := bm', irq_nr := irq_nr x + 1\<rparr>) ?s2)"
      "k' < unat (bitmap_size ?b)" "\<not> bit_at (irq_bitmap (cpus ?s2 c)) k'"
      "\<forall>r < k'. bit_at (irq_bitmap (cpus ?s2 c)) r"
    have "k' < 2 ^ 64" using a(2) assms(2) by simp
    then have "\<not> k' < k" "\<not> k < k'" using a(3,4) k(3,4) same k31 by auto
    then show ?thesis using a(1) by simp
  next
    assume "\<forall>r < unat (bitmap_size ?b). bit_at (irq_bitmap (cpus ?s2 c)) r"
    then show ?thesis using k(2,3) same k31 by auto
  qed
  have "bit_at (irq_bitmap (cpus s1 c)) k" using k(6) k31 by (simp add: s1 upd_cpu_def)
  then show ?thesis using k f b2 same again by blast
qed

section \<open>Handlers run in order\<close>

fun request_all :: "u64 \<Rightarrow> u32 \<Rightarrow> (u64 \<times> u64) list \<Rightarrow> kstate \<Rightarrow> kstate option" where
  "request_all c irq [] s = Some s"
| "request_all c irq ((h, d) # hs) s = do {
     (r, s) \<leftarrow> request_irq_smp c irq h d s;
     if r = 0 then request_all c irq hs s else None
   }"

lemma request_irq_smp_result:
  assumes "request_irq_smp c irq h d s = Some (0, s')"
  shows "unat irq < NR_IRQ_DESC"
    "irq_action_list (irq_descs (cpus s' c) (unat irq)) =
       irq_action_list (irq_descs (cpus s c) (unat irq)) @ [\<lparr>act_handler = h, act_data = d\<rparr>]"
    "get_cpu n s' = get_cpu n s" "cpu_status (cpus s' c) = cpu_status (cpus s c)"
proof -
  obtain b where b: "unat irq < NR_IRQ_DESC"
    "s' = upd_cpu c (add_action (unat irq) \<lparr>act_handler = h, act_data = d\<rparr>) (s\<lparr>ks_boot := b\<rparr>)"
    using assms by (auto simp: request_irq_smp_def ks_kmalloc_def bind_eq_Some_conv split: if_splits)
  show "unat irq < NR_IRQ_DESC"
    "irq_action_list (irq_descs (cpus s' c) (unat irq)) =
       irq_action_list (irq_descs (cpus s c) (unat irq)) @ [\<lparr>act_handler = h, act_data = d\<rparr>]"
    "cpu_status (cpus s' c) = cpu_status (cpus s c)"
    using b by (simp_all add: upd_cpu_def add_action_def)
  have "cpu_id (cpus s' e) = cpu_id (cpus s e)" for e by (simp add: b upd_cpu_def add_action_def)
  then show "get_cpu n s' = get_cpu n s" by (simp add: get_cpu_def) (simp add: b)
qed

lemma request_all_result:
  "request_all c irq hs s = Some s' \<Longrightarrow> hs \<noteq> [] \<Longrightarrow>
     unat irq < NR_IRQ_DESC \<and>
     irq_action_list (irq_descs (cpus s' c) (unat irq)) =
       irq_action_list (irq_descs (cpus s c) (unat irq)) @ map (\<lambda>(h, d). \<lparr>act_handler = h, act_data = d\<rparr>) hs \<and>
     get_cpu n s' = get_cpu n s \<and> cpu_status (cpus s' c) = cpu_status (cpus s c)"
proof (induction hs arbitrary: s)
  case (Cons x hs)
  obtain h d where x: "x = (h, d)" by fastforce
  then obtain t where t: "request_irq_smp c irq h d s = Some (0, t)" "request_all c irq hs t = Some s'"
    using Cons.prems by (auto simp: bind_eq_Some_conv split: if_splits)
  note r = request_irq_smp_result [OF t(1)]
  show ?case
  proof (cases "hs = []")
    case True
    then show ?thesis using t r x by simp
  next
    case False
    then show ?thesis using Cons.IH [OF t(2)] r x by simp
  qed
qed simp

lemma run_actions_quiet:
  assumes "\<And>a v s. run a v s = Some s"
  shows "run_actions run v as s = Some (s, map (\<lambda>a. Handler (act_handler a) v (act_data a)) as)"
  using assms by (induction as) simp_all

lemma get_cpu_status: "get_cpu n (upd_cpu c (cpu_status_update f) s) = get_cpu n s"
proof -
  have "cpu_id (cpus (upd_cpu c (cpu_status_update f) s) x) = cpu_id (cpus s x)" for x
    by (simp add: upd_cpu_def)
  then show ?thesis by (simp add: get_cpu_def)
qed

lemma intr_handler_actions:
  assumes "get_cpu cpuid s = Some c" "32 \<le> v" "unat (v - 32) < NR_IRQ_DESC" and "\<And>a v t. run a v t = Some t"
  shows "\<exists>s2. intr_handler_common run cpuid v s = Some (s2,
            map (\<lambda>a. Handler (act_handler a) v (act_data a)) (irq_action_list (irq_descs (cpus s c) (unat (v - 32)))) @ [Eoi]) \<and>
          cpu_status (cpus s2 c) = cpu_status (cpus s c)"
proof -
  let ?s = "upd_cpu c (cpu_status_update (\<lambda>_. CPU_STATUS_IRQ_CONTEXT)) s"
  let ?as = "irq_action_list (irq_descs (cpus s c) (unat (v - 32)))"
  have "irq_action_list (irq_descs (cpus ?s c) (unat (v - 32))) = ?as" by (simp add: upd_cpu_def)
  then have "intr_handler_common run cpuid v s = Some (upd_cpu c (cpu_status_update (\<lambda>_. cpu_status (cpus s c))) ?s,
      map (\<lambda>a. Handler (act_handler a) v (act_data a)) ?as @ [Eoi])"
    using assms by (simp add: intr_handler_common_def Let_def run_actions_quiet)
  then show ?thesis by (simp add: upd_cpu_def)
qed

text \<open>After handlers were requested for an interrupt on a processor that had none for it, an interrupt with
  its vector calls each of them once, in the order of the requests, with the vector and its own
  data, and then signals the end of interrupt once; the processor's status is the one from before.
  (For handlers that leave the interrupt state alone.)\<close>

theorem intr_handler_dispatch:
  assumes "request_all c irq hs s = Some s1" "hs \<noteq> []"
    and "irq_action_list (irq_descs (cpus s c) (unat irq)) = []" "get_cpu cpuid s = Some c"
    and "\<And>a v t. run a v t = Some t"
  shows "\<exists>s2. intr_handler_common run cpuid (ucast irq + 32) s1 =
            Some (s2, map (\<lambda>(h, d). Handler h (ucast irq + 32) d) hs @ [Eoi]) \<and>
          cpu_status (cpus s2 c) = cpu_status (cpus s c)"
proof -
  have r: "unat irq < NR_IRQ_DESC" "get_cpu cpuid s1 = Some c" "cpu_status (cpus s1 c) = cpu_status (cpus s c)"
    "irq_action_list (irq_descs (cpus s1 c) (unat irq)) = map (\<lambda>(h, d). \<lparr>act_handler = h, act_data = d\<rparr>) hs"
    using request_all_result [OF assms(1,2), of cpuid] assms(3,4) by simp_all
  have u: "unat (ucast irq + 32 - 32 :: u64) = unat irq"
    using unsigned_less [of irq, where ?'a = nat] by (simp add: unsigned_ucast_eq take_bit_nat_eq_self)
  have ge: "(32 :: u64) \<le> ucast irq + 32"
  proof -
    have "unat (ucast irq + 32 :: u64) = unat irq + 32"
      using r(1) u by (subst unat_plus_no_wrap) (simp_all add: NR_IRQ_DESC_def)
    then show ?thesis by (simp add: word_le_nat_alt)
  qed
  show ?thesis
    using intr_handler_actions [OF r(2) ge, of run] assms(5) r(1,3,4) by (simp add: u [simplified] comp_def split_def)
qed

section \<open>Witnesses\<close>

definition demo_irq :: kstate where
  "demo_irq = upd_node 1 (cpu_list_update (\<lambda>_. [5]))
     (upd_cpu 5 (irq_bitmap_update (\<lambda>_. \<lparr>bitmap_data = (\<lambda>_. 0), bitmap_size = 224\<rparr>)) demo_kstate)"

lemma demo_irq_facts: "the_cpu demo_irq 0 5" "get_cpu 0 demo_irq = Some 5"
  "irq_bitmap (cpus demo_irq 5) = \<lparr>bitmap_data = (\<lambda>_. 0), bitmap_size = 224\<rparr>"
  "irq_action_list (irq_descs (cpus demo_irq 5) 3) = []"
  by (simp_all add: the_cpu_def get_cpu_def all_cpus_def demo_irq_def demo_kstate_defs)

lemma alloc_free_irq_roundtrip_witness:
  "\<exists>s1. alloc_irqs_cpu 0 1 demo_irq = (0, s1) \<and> bit_at (irq_bitmap (cpus s1 5)) 0"
proof -
  have b: "\<not> bit_at (irq_bitmap (cpus demo_irq 5)) k" for k
    by (simp add: demo_irq_facts bit_at_def bitmap_get_def)
  have sz: "unat (bitmap_size (irq_bitmap (cpus demo_irq 5))) = 224" by (simp add: demo_irq_facts)
  obtain ret s1 where a: "alloc_irqs_cpu 0 1 demo_irq = (ret, s1)" "ret \<noteq> - 1"
    using alloc_irqs_cpu_cases [OF demo_irq_facts(1)] b unfolding sz by fastforce
  have "unat (bitmap_size (irq_bitmap (cpus demo_irq 5))) < 2 ^ 31" unfolding sz by simp
  from alloc_free_irq_roundtrip [OF demo_irq_facts(1) this a] obtain k where
    "ret = int k" "bit_at (irq_bitmap (cpus s1 5)) k" "\<forall>r < k. bit_at (irq_bitmap (cpus demo_irq 5)) r"
    by blast
  moreover from this have "k = 0" using b [of 0] by (cases k) auto
  ultimately show ?thesis using a by simp
qed

lemma intr_handler_dispatch_witness:
  "\<exists>s1 s2. request_all 5 3 [(0x100, 1), (0x200, 2)] demo_irq = Some s1 \<and>
     intr_handler_common (\<lambda>_ _. Some) 0 35 s1 = Some (s2, [Handler 0x100 35 1, Handler 0x200 35 2, Eoi])"
proof -
  obtain s1 where s1: "request_all 5 3 [(0x100, 1), (0x200, 2)] demo_irq = Some s1"
    by (simp add: request_irq_smp_def ks_kmalloc_def kmalloc_def bootmem_alloc_def demo_irq_def demo_kstate_defs
        empty_bootmem_def SIZEOF_IRQ_ACTION_def NR_IRQ_DESC_def PHYS2VIRT_def KERNEL_SPACE_def roundup_def Let_def)
  have "irq_action_list (irq_descs (cpus demo_irq 5) (unat (3 :: u32))) = []"
    using demo_irq_facts(4) by simp
  from intr_handler_dispatch [OF s1 _ this demo_irq_facts(2), of "\<lambda>_ _. Some"] s1 show ?thesis by auto
qed

end
