(* ===== verification/Vmcs_Field.thy ===== *)
theory Vmcs_Field
  imports Prelude
begin

text \<open>
  The encodings of the VMCS fields, \<^verbatim>\<open>enum vmcs_field\<close> of
  \<^verbatim>\<open>arch/x86_64/include/vmx.h\<close>, one constant each under the enumerator's name.
\<close>

named_theorems vmcs_fields "encodings of the VMCS fields"

definition VIRTUAL_PROCESSOR_ID :: u64 where [vmcs_fields]: "VIRTUAL_PROCESSOR_ID = 0x0000"
definition POSTED_INTR_NV :: u64 where [vmcs_fields]: "POSTED_INTR_NV = 0x0002"
definition EPTP_INDEX :: u64 where [vmcs_fields]: "EPTP_INDEX = 0x0004"
definition GUEST_ES_SELECTOR :: u64 where [vmcs_fields]: "GUEST_ES_SELECTOR = 0x0800"
definition GUEST_CS_SELECTOR :: u64 where [vmcs_fields]: "GUEST_CS_SELECTOR = 0x0802"
definition GUEST_SS_SELECTOR :: u64 where [vmcs_fields]: "GUEST_SS_SELECTOR = 0x0804"
definition GUEST_DS_SELECTOR :: u64 where [vmcs_fields]: "GUEST_DS_SELECTOR = 0x0806"
definition GUEST_FS_SELECTOR :: u64 where [vmcs_fields]: "GUEST_FS_SELECTOR = 0x0808"
definition GUEST_GS_SELECTOR :: u64 where [vmcs_fields]: "GUEST_GS_SELECTOR = 0x080a"
definition GUEST_LDTR_SELECTOR :: u64 where [vmcs_fields]: "GUEST_LDTR_SELECTOR = 0x080c"
definition GUEST_TR_SELECTOR :: u64 where [vmcs_fields]: "GUEST_TR_SELECTOR = 0x080e"
definition GUEST_INTR_STATUS :: u64 where [vmcs_fields]: "GUEST_INTR_STATUS = 0x0810"
definition GUEST_PML_INDEX :: u64 where [vmcs_fields]: "GUEST_PML_INDEX = 0x0812"
definition HOST_ES_SELECTOR :: u64 where [vmcs_fields]: "HOST_ES_SELECTOR = 0x0c00"
definition HOST_CS_SELECTOR :: u64 where [vmcs_fields]: "HOST_CS_SELECTOR = 0x0c02"
definition HOST_SS_SELECTOR :: u64 where [vmcs_fields]: "HOST_SS_SELECTOR = 0x0c04"
definition HOST_DS_SELECTOR :: u64 where [vmcs_fields]: "HOST_DS_SELECTOR = 0x0c06"
definition HOST_FS_SELECTOR :: u64 where [vmcs_fields]: "HOST_FS_SELECTOR = 0x0c08"
definition HOST_GS_SELECTOR :: u64 where [vmcs_fields]: "HOST_GS_SELECTOR = 0x0c0a"
definition HOST_TR_SELECTOR :: u64 where [vmcs_fields]: "HOST_TR_SELECTOR = 0x0c0c"
definition IO_BITMAP_A :: u64 where [vmcs_fields]: "IO_BITMAP_A = 0x2000"
definition IO_BITMAP_A_HIGH :: u64 where [vmcs_fields]: "IO_BITMAP_A_HIGH = 0x2001"
definition IO_BITMAP_B :: u64 where [vmcs_fields]: "IO_BITMAP_B = 0x2002"
definition IO_BITMAP_B_HIGH :: u64 where [vmcs_fields]: "IO_BITMAP_B_HIGH = 0x2003"
definition MSR_BITMAP :: u64 where [vmcs_fields]: "MSR_BITMAP = 0x2004"
definition MSR_BITMAP_HIGH :: u64 where [vmcs_fields]: "MSR_BITMAP_HIGH = 0x2005"
definition VM_EXIT_MSR_STORE_ADDR :: u64 where [vmcs_fields]: "VM_EXIT_MSR_STORE_ADDR = 0x2006"
definition VM_EXIT_MSR_STORE_ADDR_HIGH :: u64 where [vmcs_fields]: "VM_EXIT_MSR_STORE_ADDR_HIGH = 0x2007"
definition VM_EXIT_MSR_LOAD_ADDR :: u64 where [vmcs_fields]: "VM_EXIT_MSR_LOAD_ADDR = 0x2008"
definition VM_EXIT_MSR_LOAD_ADDR_HIGH :: u64 where [vmcs_fields]: "VM_EXIT_MSR_LOAD_ADDR_HIGH = 0x2009"
definition VM_ENTRY_MSR_LOAD_ADDR :: u64 where [vmcs_fields]: "VM_ENTRY_MSR_LOAD_ADDR = 0x200a"
definition VM_ENTRY_MSR_LOAD_ADDR_HIGH :: u64 where [vmcs_fields]: "VM_ENTRY_MSR_LOAD_ADDR_HIGH = 0x200b"
definition PML_ADDRESS :: u64 where [vmcs_fields]: "PML_ADDRESS = 0x200e"
definition PML_ADDRESS_HIGH :: u64 where [vmcs_fields]: "PML_ADDRESS_HIGH = 0x200f"
definition TSC_OFFSET :: u64 where [vmcs_fields]: "TSC_OFFSET = 0x2010"
definition TSC_OFFSET_HIGH :: u64 where [vmcs_fields]: "TSC_OFFSET_HIGH = 0x2011"
definition VIRTUAL_APIC_PAGE_ADDR :: u64 where [vmcs_fields]: "VIRTUAL_APIC_PAGE_ADDR = 0x2012"
definition VIRTUAL_APIC_PAGE_ADDR_HIGH :: u64 where [vmcs_fields]: "VIRTUAL_APIC_PAGE_ADDR_HIGH = 0x2013"
definition APIC_ACCESS_ADDR :: u64 where [vmcs_fields]: "APIC_ACCESS_ADDR = 0x2014"
definition APIC_ACCESS_ADDR_HIGH :: u64 where [vmcs_fields]: "APIC_ACCESS_ADDR_HIGH = 0x2015"
definition POSTED_INTR_DESC_ADDR :: u64 where [vmcs_fields]: "POSTED_INTR_DESC_ADDR = 0x2016"
definition POSTED_INTR_DESC_ADDR_HIGH :: u64 where [vmcs_fields]: "POSTED_INTR_DESC_ADDR_HIGH = 0x2017"
definition VM_FUNCTION_CONTROL :: u64 where [vmcs_fields]: "VM_FUNCTION_CONTROL = 0x2018"
definition VM_FUNCTION_CONTROL_HIGH :: u64 where [vmcs_fields]: "VM_FUNCTION_CONTROL_HIGH = 0x2019"
definition EPT_POINTER :: u64 where [vmcs_fields]: "EPT_POINTER = 0x201a"
definition EPT_POINTER_HIGH :: u64 where [vmcs_fields]: "EPT_POINTER_HIGH = 0x201b"
definition EOI_EXIT_BITMAP0 :: u64 where [vmcs_fields]: "EOI_EXIT_BITMAP0 = 0x201c"
definition EOI_EXIT_BITMAP0_HIGH :: u64 where [vmcs_fields]: "EOI_EXIT_BITMAP0_HIGH = 0x201d"
definition EOI_EXIT_BITMAP1 :: u64 where [vmcs_fields]: "EOI_EXIT_BITMAP1 = 0x201e"
definition EOI_EXIT_BITMAP1_HIGH :: u64 where [vmcs_fields]: "EOI_EXIT_BITMAP1_HIGH = 0x201f"
definition EOI_EXIT_BITMAP2 :: u64 where [vmcs_fields]: "EOI_EXIT_BITMAP2 = 0x2020"
definition EOI_EXIT_BITMAP2_HIGH :: u64 where [vmcs_fields]: "EOI_EXIT_BITMAP2_HIGH = 0x2021"
definition EOI_EXIT_BITMAP3 :: u64 where [vmcs_fields]: "EOI_EXIT_BITMAP3 = 0x2022"
definition EOI_EXIT_BITMAP3_HIGH :: u64 where [vmcs_fields]: "EOI_EXIT_BITMAP3_HIGH = 0x2023"
definition EPTP_LIST_ADDRESS :: u64 where [vmcs_fields]: "EPTP_LIST_ADDRESS = 0x2024"
definition EPTP_LIST_ADDRESS_HIGH :: u64 where [vmcs_fields]: "EPTP_LIST_ADDRESS_HIGH = 0x2025"
definition VMREAD_BITMAP :: u64 where [vmcs_fields]: "VMREAD_BITMAP = 0x2026"
definition VMREAD_BITMAP_HIGH :: u64 where [vmcs_fields]: "VMREAD_BITMAP_HIGH = 0x2027"
definition VMWRITE_BITMAP :: u64 where [vmcs_fields]: "VMWRITE_BITMAP = 0x2028"
definition VMWRITE_BITMAP_HIGH :: u64 where [vmcs_fields]: "VMWRITE_BITMAP_HIGH = 0x2029"
definition XSS_EXIT_BITMAP :: u64 where [vmcs_fields]: "XSS_EXIT_BITMAP = 0x202c"
definition XSS_EXIT_BITMAP_HIGH :: u64 where [vmcs_fields]: "XSS_EXIT_BITMAP_HIGH = 0x202d"
definition ENCLS_EXITING_BITMAP :: u64 where [vmcs_fields]: "ENCLS_EXITING_BITMAP = 0x202e"
definition TSC_MULTIPLIER :: u64 where [vmcs_fields]: "TSC_MULTIPLIER = 0x2032"
definition TSC_MULTIPLIER_HIGH :: u64 where [vmcs_fields]: "TSC_MULTIPLIER_HIGH = 0x2033"
definition GUEST_PHYSICAL_ADDRESS :: u64 where [vmcs_fields]: "GUEST_PHYSICAL_ADDRESS = 0x2400"
definition GUEST_PHYSICAL_ADDRESS_HIGH :: u64 where [vmcs_fields]: "GUEST_PHYSICAL_ADDRESS_HIGH = 0x2401"
definition VMCS_LINK_POINTER :: u64 where [vmcs_fields]: "VMCS_LINK_POINTER = 0x2800"
definition VMCS_LINK_POINTER_HIGH :: u64 where [vmcs_fields]: "VMCS_LINK_POINTER_HIGH = 0x2801"
definition GUEST_IA32_DEBUGCTL :: u64 where [vmcs_fields]: "GUEST_IA32_DEBUGCTL = 0x2802"
definition GUEST_IA32_DEBUGCTL_HIGH :: u64 where [vmcs_fields]: "GUEST_IA32_DEBUGCTL_HIGH = 0x2803"
definition GUEST_IA32_PAT :: u64 where [vmcs_fields]: "GUEST_IA32_PAT = 0x2804"
definition GUEST_IA32_PAT_HIGH :: u64 where [vmcs_fields]: "GUEST_IA32_PAT_HIGH = 0x2805"
definition GUEST_IA32_EFER :: u64 where [vmcs_fields]: "GUEST_IA32_EFER = 0x2806"
definition GUEST_IA32_EFER_HIGH :: u64 where [vmcs_fields]: "GUEST_IA32_EFER_HIGH = 0x2807"
definition GUEST_IA32_PERF_GLOBAL_CTRL :: u64 where [vmcs_fields]: "GUEST_IA32_PERF_GLOBAL_CTRL = 0x2808"
definition GUEST_IA32_PERF_GLOBAL_CTRL_HIGH :: u64 where [vmcs_fields]: "GUEST_IA32_PERF_GLOBAL_CTRL_HIGH = 0x2809"
definition GUEST_PDPTR0 :: u64 where [vmcs_fields]: "GUEST_PDPTR0 = 0x280a"
definition GUEST_PDPTR0_HIGH :: u64 where [vmcs_fields]: "GUEST_PDPTR0_HIGH = 0x280b"
definition GUEST_PDPTR1 :: u64 where [vmcs_fields]: "GUEST_PDPTR1 = 0x280c"
definition GUEST_PDPTR1_HIGH :: u64 where [vmcs_fields]: "GUEST_PDPTR1_HIGH = 0x280d"
definition GUEST_PDPTR2 :: u64 where [vmcs_fields]: "GUEST_PDPTR2 = 0x280e"
definition GUEST_PDPTR2_HIGH :: u64 where [vmcs_fields]: "GUEST_PDPTR2_HIGH = 0x280f"
definition GUEST_PDPTR3 :: u64 where [vmcs_fields]: "GUEST_PDPTR3 = 0x2810"
definition GUEST_PDPTR3_HIGH :: u64 where [vmcs_fields]: "GUEST_PDPTR3_HIGH = 0x2811"
definition GUEST_BNDCFGS :: u64 where [vmcs_fields]: "GUEST_BNDCFGS = 0x2812"
definition GUEST_BNDCFGS_HIGH :: u64 where [vmcs_fields]: "GUEST_BNDCFGS_HIGH = 0x2813"
definition GUEST_IA32_RTIT_CTL :: u64 where [vmcs_fields]: "GUEST_IA32_RTIT_CTL = 0x2814"
definition HOST_IA32_PAT :: u64 where [vmcs_fields]: "HOST_IA32_PAT = 0x2c00"
definition HOST_IA32_PAT_HIGH :: u64 where [vmcs_fields]: "HOST_IA32_PAT_HIGH = 0x2c01"
definition HOST_IA32_EFER :: u64 where [vmcs_fields]: "HOST_IA32_EFER = 0x2c02"
definition HOST_IA32_EFER_HIGH :: u64 where [vmcs_fields]: "HOST_IA32_EFER_HIGH = 0x2c03"
definition HOST_IA32_PERF_GLOBAL_CTRL :: u64 where [vmcs_fields]: "HOST_IA32_PERF_GLOBAL_CTRL = 0x2c04"
definition HOST_IA32_PERF_GLOBAL_CTRL_HIGH :: u64 where [vmcs_fields]: "HOST_IA32_PERF_GLOBAL_CTRL_HIGH = 0x2c05"
definition PIN_BASED_VM_EXEC_CONTROL :: u64 where [vmcs_fields]: "PIN_BASED_VM_EXEC_CONTROL = 0x4000"
definition CPU_BASED_VM_EXEC_CONTROL :: u64 where [vmcs_fields]: "CPU_BASED_VM_EXEC_CONTROL = 0x4002"
definition EXCEPTION_BITMAP :: u64 where [vmcs_fields]: "EXCEPTION_BITMAP = 0x4004"
definition PAGE_FAULT_ERROR_CODE_MASK :: u64 where [vmcs_fields]: "PAGE_FAULT_ERROR_CODE_MASK = 0x4006"
definition PAGE_FAULT_ERROR_CODE_MATCH :: u64 where [vmcs_fields]: "PAGE_FAULT_ERROR_CODE_MATCH = 0x4008"
definition CR3_TARGET_COUNT :: u64 where [vmcs_fields]: "CR3_TARGET_COUNT = 0x400a"
definition VM_EXIT_CONTROLS :: u64 where [vmcs_fields]: "VM_EXIT_CONTROLS = 0x400c"
definition VM_EXIT_MSR_STORE_COUNT :: u64 where [vmcs_fields]: "VM_EXIT_MSR_STORE_COUNT = 0x400e"
definition VM_EXIT_MSR_LOAD_COUNT :: u64 where [vmcs_fields]: "VM_EXIT_MSR_LOAD_COUNT = 0x4010"
definition VM_ENTRY_CONTROLS :: u64 where [vmcs_fields]: "VM_ENTRY_CONTROLS = 0x4012"
definition VM_ENTRY_MSR_LOAD_COUNT :: u64 where [vmcs_fields]: "VM_ENTRY_MSR_LOAD_COUNT = 0x4014"
definition VM_ENTRY_INTR_INFO_FIELD :: u64 where [vmcs_fields]: "VM_ENTRY_INTR_INFO_FIELD = 0x4016"
definition VM_ENTRY_EXCEPTION_ERROR_CODE :: u64 where [vmcs_fields]: "VM_ENTRY_EXCEPTION_ERROR_CODE = 0x4018"
definition VM_ENTRY_INSTRUCTION_LEN :: u64 where [vmcs_fields]: "VM_ENTRY_INSTRUCTION_LEN = 0x401a"
definition TPR_THRESHOLD :: u64 where [vmcs_fields]: "TPR_THRESHOLD = 0x401c"
definition SECONDARY_VM_EXEC_CONTROL :: u64 where [vmcs_fields]: "SECONDARY_VM_EXEC_CONTROL = 0x401e"
definition PLE_GAP :: u64 where [vmcs_fields]: "PLE_GAP = 0x4020"
definition PLE_WINDOW :: u64 where [vmcs_fields]: "PLE_WINDOW = 0x4022"
definition VM_INSTRUCTION_ERROR :: u64 where [vmcs_fields]: "VM_INSTRUCTION_ERROR = 0x4400"
definition VM_EXIT_REASON :: u64 where [vmcs_fields]: "VM_EXIT_REASON = 0x4402"
definition VM_EXIT_INTR_INFO :: u64 where [vmcs_fields]: "VM_EXIT_INTR_INFO = 0x4404"
definition VM_EXIT_INTR_ERROR_CODE :: u64 where [vmcs_fields]: "VM_EXIT_INTR_ERROR_CODE = 0x4406"
definition IDT_VECTORING_INFO_FIELD :: u64 where [vmcs_fields]: "IDT_VECTORING_INFO_FIELD = 0x4408"
definition IDT_VECTORING_ERROR_CODE :: u64 where [vmcs_fields]: "IDT_VECTORING_ERROR_CODE = 0x440a"
definition VM_EXIT_INSTRUCTION_LEN :: u64 where [vmcs_fields]: "VM_EXIT_INSTRUCTION_LEN = 0x440c"
definition VMX_INSTRUCTION_INFO :: u64 where [vmcs_fields]: "VMX_INSTRUCTION_INFO = 0x440e"
definition GUEST_ES_LIMIT :: u64 where [vmcs_fields]: "GUEST_ES_LIMIT = 0x4800"
definition GUEST_CS_LIMIT :: u64 where [vmcs_fields]: "GUEST_CS_LIMIT = 0x4802"
definition GUEST_SS_LIMIT :: u64 where [vmcs_fields]: "GUEST_SS_LIMIT = 0x4804"
definition GUEST_DS_LIMIT :: u64 where [vmcs_fields]: "GUEST_DS_LIMIT = 0x4806"
definition GUEST_FS_LIMIT :: u64 where [vmcs_fields]: "GUEST_FS_LIMIT = 0x4808"
definition GUEST_GS_LIMIT :: u64 where [vmcs_fields]: "GUEST_GS_LIMIT = 0x480a"
definition GUEST_LDTR_LIMIT :: u64 where [vmcs_fields]: "GUEST_LDTR_LIMIT = 0x480c"
definition GUEST_TR_LIMIT :: u64 where [vmcs_fields]: "GUEST_TR_LIMIT = 0x480e"
definition GUEST_GDTR_LIMIT :: u64 where [vmcs_fields]: "GUEST_GDTR_LIMIT = 0x4810"
definition GUEST_IDTR_LIMIT :: u64 where [vmcs_fields]: "GUEST_IDTR_LIMIT = 0x4812"
definition GUEST_ES_AR_BYTES :: u64 where [vmcs_fields]: "GUEST_ES_AR_BYTES = 0x4814"
definition GUEST_CS_AR_BYTES :: u64 where [vmcs_fields]: "GUEST_CS_AR_BYTES = 0x4816"
definition GUEST_SS_AR_BYTES :: u64 where [vmcs_fields]: "GUEST_SS_AR_BYTES = 0x4818"
definition GUEST_DS_AR_BYTES :: u64 where [vmcs_fields]: "GUEST_DS_AR_BYTES = 0x481a"
definition GUEST_FS_AR_BYTES :: u64 where [vmcs_fields]: "GUEST_FS_AR_BYTES = 0x481c"
definition GUEST_GS_AR_BYTES :: u64 where [vmcs_fields]: "GUEST_GS_AR_BYTES = 0x481e"
definition GUEST_LDTR_AR_BYTES :: u64 where [vmcs_fields]: "GUEST_LDTR_AR_BYTES = 0x4820"
definition GUEST_TR_AR_BYTES :: u64 where [vmcs_fields]: "GUEST_TR_AR_BYTES = 0x4822"
definition GUEST_INTERRUPTIBILITY_INFO :: u64 where [vmcs_fields]: "GUEST_INTERRUPTIBILITY_INFO = 0x4824"
definition GUEST_ACTIVITY_STATE :: u64 where [vmcs_fields]: "GUEST_ACTIVITY_STATE = 0x4826"
definition GUEST_SYSENTER_CS :: u64 where [vmcs_fields]: "GUEST_SYSENTER_CS = 0x482a"
definition VMX_PREEMPTION_TIMER_VALUE :: u64 where [vmcs_fields]: "VMX_PREEMPTION_TIMER_VALUE = 0x482e"
definition HOST_IA32_SYSENTER_CS :: u64 where [vmcs_fields]: "HOST_IA32_SYSENTER_CS = 0x4c00"
definition CR0_GUEST_HOST_MASK :: u64 where [vmcs_fields]: "CR0_GUEST_HOST_MASK = 0x6000"
definition CR4_GUEST_HOST_MASK :: u64 where [vmcs_fields]: "CR4_GUEST_HOST_MASK = 0x6002"
definition CR0_READ_SHADOW :: u64 where [vmcs_fields]: "CR0_READ_SHADOW = 0x6004"
definition CR4_READ_SHADOW :: u64 where [vmcs_fields]: "CR4_READ_SHADOW = 0x6006"
definition CR3_TARGET_VALUE0 :: u64 where [vmcs_fields]: "CR3_TARGET_VALUE0 = 0x6008"
definition CR3_TARGET_VALUE1 :: u64 where [vmcs_fields]: "CR3_TARGET_VALUE1 = 0x600a"
definition CR3_TARGET_VALUE2 :: u64 where [vmcs_fields]: "CR3_TARGET_VALUE2 = 0x600c"
definition CR3_TARGET_VALUE3 :: u64 where [vmcs_fields]: "CR3_TARGET_VALUE3 = 0x600e"
definition EXIT_QUALIFICATION :: u64 where [vmcs_fields]: "EXIT_QUALIFICATION = 0x6400"
definition IO_RCX :: u64 where [vmcs_fields]: "IO_RCX = 0x6402"
definition IO_RSI :: u64 where [vmcs_fields]: "IO_RSI = 0x6404"
definition IO_RDI :: u64 where [vmcs_fields]: "IO_RDI = 0x6406"
definition IO_RIP :: u64 where [vmcs_fields]: "IO_RIP = 0x6408"
definition GUEST_LINEAR_ADDRESS :: u64 where [vmcs_fields]: "GUEST_LINEAR_ADDRESS = 0x640a"
definition GUEST_CR0 :: u64 where [vmcs_fields]: "GUEST_CR0 = 0x6800"
definition GUEST_CR3 :: u64 where [vmcs_fields]: "GUEST_CR3 = 0x6802"
definition GUEST_CR4 :: u64 where [vmcs_fields]: "GUEST_CR4 = 0x6804"
definition GUEST_ES_BASE :: u64 where [vmcs_fields]: "GUEST_ES_BASE = 0x6806"
definition GUEST_CS_BASE :: u64 where [vmcs_fields]: "GUEST_CS_BASE = 0x6808"
definition GUEST_SS_BASE :: u64 where [vmcs_fields]: "GUEST_SS_BASE = 0x680a"
definition GUEST_DS_BASE :: u64 where [vmcs_fields]: "GUEST_DS_BASE = 0x680c"
definition GUEST_FS_BASE :: u64 where [vmcs_fields]: "GUEST_FS_BASE = 0x680e"
definition GUEST_GS_BASE :: u64 where [vmcs_fields]: "GUEST_GS_BASE = 0x6810"
definition GUEST_LDTR_BASE :: u64 where [vmcs_fields]: "GUEST_LDTR_BASE = 0x6812"
definition GUEST_TR_BASE :: u64 where [vmcs_fields]: "GUEST_TR_BASE = 0x6814"
definition GUEST_GDTR_BASE :: u64 where [vmcs_fields]: "GUEST_GDTR_BASE = 0x6816"
definition GUEST_IDTR_BASE :: u64 where [vmcs_fields]: "GUEST_IDTR_BASE = 0x6818"
definition GUEST_DR7 :: u64 where [vmcs_fields]: "GUEST_DR7 = 0x681a"
definition GUEST_RSP :: u64 where [vmcs_fields]: "GUEST_RSP = 0x681c"
definition GUEST_RIP :: u64 where [vmcs_fields]: "GUEST_RIP = 0x681e"
definition GUEST_RFLAGS :: u64 where [vmcs_fields]: "GUEST_RFLAGS = 0x6820"
definition GUEST_PENDING_DBG_EXCEPTIONS :: u64 where [vmcs_fields]: "GUEST_PENDING_DBG_EXCEPTIONS = 0x6822"
definition GUEST_SYSENTER_ESP :: u64 where [vmcs_fields]: "GUEST_SYSENTER_ESP = 0x6824"
definition GUEST_SYSENTER_EIP :: u64 where [vmcs_fields]: "GUEST_SYSENTER_EIP = 0x6826"
definition HOST_CR0 :: u64 where [vmcs_fields]: "HOST_CR0 = 0x6c00"
definition HOST_CR3 :: u64 where [vmcs_fields]: "HOST_CR3 = 0x6c02"
definition HOST_CR4 :: u64 where [vmcs_fields]: "HOST_CR4 = 0x6c04"
definition HOST_FS_BASE :: u64 where [vmcs_fields]: "HOST_FS_BASE = 0x6c06"
definition HOST_GS_BASE :: u64 where [vmcs_fields]: "HOST_GS_BASE = 0x6c08"
definition HOST_TR_BASE :: u64 where [vmcs_fields]: "HOST_TR_BASE = 0x6c0a"
definition HOST_GDTR_BASE :: u64 where [vmcs_fields]: "HOST_GDTR_BASE = 0x6c0c"
definition HOST_IDTR_BASE :: u64 where [vmcs_fields]: "HOST_IDTR_BASE = 0x6c0e"
definition HOST_IA32_SYSENTER_ESP :: u64 where [vmcs_fields]: "HOST_IA32_SYSENTER_ESP = 0x6c10"
definition HOST_IA32_SYSENTER_EIP :: u64 where [vmcs_fields]: "HOST_IA32_SYSENTER_EIP = 0x6c12"
definition HOST_RSP :: u64 where [vmcs_fields]: "HOST_RSP = 0x6c14"
definition HOST_RIP :: u64 where [vmcs_fields]: "HOST_RIP = 0x6c16"

end
