(* ===== verification/Vmcs12.thy ===== *)
theory Vmcs12
  imports Vmcs_Field
begin

text \<open>
  The software VMCS of a nested guest: \<^verbatim>\<open>struct vmcs12\<close> and its accessors,
  \<^verbatim>\<open>kvm/vmx/vmcs12.h\<close>, with the table of \<^verbatim>\<open>kvm/vmx/vmcs12.c\<close> that takes a
  field encoding to the offset of a member. The struct lies in byte memory; a member is its
  alignment and size, known by its position in the struct, and the offsets follow from the order
  of the members as the compiler lays them out.
\<close>

section \<open>The struct\<close>

type_synonym member = "nat \<times> nat"

definition align_up :: "nat \<Rightarrow> nat \<Rightarrow> nat" where
  "align_up a n = (n + a - 1) div a * a"

fun layout :: "nat \<Rightarrow> member list \<Rightarrow> nat list" where
  "layout pos [] = []"
| "layout pos ((a, sz) # ms) = align_up a pos # layout (align_up a pos + sz) ms"

text \<open>The size without the padding after the last member, which no modelled code uses.\<close>

fun sizeof_from :: "nat \<Rightarrow> member list \<Rightarrow> nat" where
  "sizeof_from pos [] = pos"
| "sizeof_from pos ((a, sz) # ms) = sizeof_from (align_up a pos + sz) ms"

definition sizeof :: "member list \<Rightarrow> nat" where
  "sizeof ms = sizeof_from 0 ms"

text \<open>\<^verbatim>\<open>struct vmcs_hdr\<close>: \<^verbatim>\<open>revision_id\<close>, \<^verbatim>\<open>abort\<close> and the
  flexible \<^verbatim>\<open>data\<close>.\<close>

definition vmcs_hdr_members :: "member list" where
  "vmcs_hdr_members = [(4, 4), (4, 4), (1, 0)]"

text \<open>The members of \<^verbatim>\<open>struct vmcs12\<close>, numbered in the order of their declarations,
  and their alignments and sizes in that order.\<close>

named_theorems v12_members "positions of the members of struct vmcs12"

definition v12_hdr :: nat where [v12_members]: "v12_hdr = 0"
definition v12_abort :: nat where [v12_members]: "v12_abort = 1"
definition v12_launch_state :: nat where [v12_members]: "v12_launch_state = 2"
definition v12_padding :: nat where [v12_members]: "v12_padding = 3"
definition v12_io_bitmap_a :: nat where [v12_members]: "v12_io_bitmap_a = 4"
definition v12_io_bitmap_b :: nat where [v12_members]: "v12_io_bitmap_b = 5"
definition v12_msr_bitmap :: nat where [v12_members]: "v12_msr_bitmap = 6"
definition v12_vm_exit_msr_store_addr :: nat where [v12_members]: "v12_vm_exit_msr_store_addr = 7"
definition v12_vm_exit_msr_load_addr :: nat where [v12_members]: "v12_vm_exit_msr_load_addr = 8"
definition v12_vm_entry_msr_load_addr :: nat where [v12_members]: "v12_vm_entry_msr_load_addr = 9"
definition v12_tsc_offset :: nat where [v12_members]: "v12_tsc_offset = 10"
definition v12_virtual_apic_page_addr :: nat where [v12_members]: "v12_virtual_apic_page_addr = 11"
definition v12_apic_access_addr :: nat where [v12_members]: "v12_apic_access_addr = 12"
definition v12_posted_intr_desc_addr :: nat where [v12_members]: "v12_posted_intr_desc_addr = 13"
definition v12_ept_pointer :: nat where [v12_members]: "v12_ept_pointer = 14"
definition v12_eoi_exit_bitmap0 :: nat where [v12_members]: "v12_eoi_exit_bitmap0 = 15"
definition v12_eoi_exit_bitmap1 :: nat where [v12_members]: "v12_eoi_exit_bitmap1 = 16"
definition v12_eoi_exit_bitmap2 :: nat where [v12_members]: "v12_eoi_exit_bitmap2 = 17"
definition v12_eoi_exit_bitmap3 :: nat where [v12_members]: "v12_eoi_exit_bitmap3 = 18"
definition v12_xss_exit_bitmap :: nat where [v12_members]: "v12_xss_exit_bitmap = 19"
definition v12_guest_physical_address :: nat where [v12_members]: "v12_guest_physical_address = 20"
definition v12_vmcs_link_pointer :: nat where [v12_members]: "v12_vmcs_link_pointer = 21"
definition v12_guest_ia32_debugctl :: nat where [v12_members]: "v12_guest_ia32_debugctl = 22"
definition v12_guest_ia32_pat :: nat where [v12_members]: "v12_guest_ia32_pat = 23"
definition v12_guest_ia32_efer :: nat where [v12_members]: "v12_guest_ia32_efer = 24"
definition v12_guest_ia32_perf_global_ctrl :: nat where [v12_members]: "v12_guest_ia32_perf_global_ctrl = 25"
definition v12_guest_pdptr0 :: nat where [v12_members]: "v12_guest_pdptr0 = 26"
definition v12_guest_pdptr1 :: nat where [v12_members]: "v12_guest_pdptr1 = 27"
definition v12_guest_pdptr2 :: nat where [v12_members]: "v12_guest_pdptr2 = 28"
definition v12_guest_pdptr3 :: nat where [v12_members]: "v12_guest_pdptr3 = 29"
definition v12_guest_bndcfgs :: nat where [v12_members]: "v12_guest_bndcfgs = 30"
definition v12_host_ia32_pat :: nat where [v12_members]: "v12_host_ia32_pat = 31"
definition v12_host_ia32_efer :: nat where [v12_members]: "v12_host_ia32_efer = 32"
definition v12_host_ia32_perf_global_ctrl :: nat where [v12_members]: "v12_host_ia32_perf_global_ctrl = 33"
definition v12_vmread_bitmap :: nat where [v12_members]: "v12_vmread_bitmap = 34"
definition v12_vmwrite_bitmap :: nat where [v12_members]: "v12_vmwrite_bitmap = 35"
definition v12_vm_function_control :: nat where [v12_members]: "v12_vm_function_control = 36"
definition v12_eptp_list_address :: nat where [v12_members]: "v12_eptp_list_address = 37"
definition v12_pml_address :: nat where [v12_members]: "v12_pml_address = 38"
definition v12_padding64 :: nat where [v12_members]: "v12_padding64 = 39"
definition v12_cr0_guest_host_mask :: nat where [v12_members]: "v12_cr0_guest_host_mask = 40"
definition v12_cr4_guest_host_mask :: nat where [v12_members]: "v12_cr4_guest_host_mask = 41"
definition v12_cr0_read_shadow :: nat where [v12_members]: "v12_cr0_read_shadow = 42"
definition v12_cr4_read_shadow :: nat where [v12_members]: "v12_cr4_read_shadow = 43"
definition v12_cr3_target_value0 :: nat where [v12_members]: "v12_cr3_target_value0 = 44"
definition v12_cr3_target_value1 :: nat where [v12_members]: "v12_cr3_target_value1 = 45"
definition v12_cr3_target_value2 :: nat where [v12_members]: "v12_cr3_target_value2 = 46"
definition v12_cr3_target_value3 :: nat where [v12_members]: "v12_cr3_target_value3 = 47"
definition v12_exit_qualification :: nat where [v12_members]: "v12_exit_qualification = 48"
definition v12_guest_linear_address :: nat where [v12_members]: "v12_guest_linear_address = 49"
definition v12_guest_cr0 :: nat where [v12_members]: "v12_guest_cr0 = 50"
definition v12_guest_cr3 :: nat where [v12_members]: "v12_guest_cr3 = 51"
definition v12_guest_cr4 :: nat where [v12_members]: "v12_guest_cr4 = 52"
definition v12_guest_es_base :: nat where [v12_members]: "v12_guest_es_base = 53"
definition v12_guest_cs_base :: nat where [v12_members]: "v12_guest_cs_base = 54"
definition v12_guest_ss_base :: nat where [v12_members]: "v12_guest_ss_base = 55"
definition v12_guest_ds_base :: nat where [v12_members]: "v12_guest_ds_base = 56"
definition v12_guest_fs_base :: nat where [v12_members]: "v12_guest_fs_base = 57"
definition v12_guest_gs_base :: nat where [v12_members]: "v12_guest_gs_base = 58"
definition v12_guest_ldtr_base :: nat where [v12_members]: "v12_guest_ldtr_base = 59"
definition v12_guest_tr_base :: nat where [v12_members]: "v12_guest_tr_base = 60"
definition v12_guest_gdtr_base :: nat where [v12_members]: "v12_guest_gdtr_base = 61"
definition v12_guest_idtr_base :: nat where [v12_members]: "v12_guest_idtr_base = 62"
definition v12_guest_dr7 :: nat where [v12_members]: "v12_guest_dr7 = 63"
definition v12_guest_rsp :: nat where [v12_members]: "v12_guest_rsp = 64"
definition v12_guest_rip :: nat where [v12_members]: "v12_guest_rip = 65"
definition v12_guest_rflags :: nat where [v12_members]: "v12_guest_rflags = 66"
definition v12_guest_pending_dbg_exceptions :: nat where [v12_members]: "v12_guest_pending_dbg_exceptions = 67"
definition v12_guest_sysenter_esp :: nat where [v12_members]: "v12_guest_sysenter_esp = 68"
definition v12_guest_sysenter_eip :: nat where [v12_members]: "v12_guest_sysenter_eip = 69"
definition v12_host_cr0 :: nat where [v12_members]: "v12_host_cr0 = 70"
definition v12_host_cr3 :: nat where [v12_members]: "v12_host_cr3 = 71"
definition v12_host_cr4 :: nat where [v12_members]: "v12_host_cr4 = 72"
definition v12_host_fs_base :: nat where [v12_members]: "v12_host_fs_base = 73"
definition v12_host_gs_base :: nat where [v12_members]: "v12_host_gs_base = 74"
definition v12_host_tr_base :: nat where [v12_members]: "v12_host_tr_base = 75"
definition v12_host_gdtr_base :: nat where [v12_members]: "v12_host_gdtr_base = 76"
definition v12_host_idtr_base :: nat where [v12_members]: "v12_host_idtr_base = 77"
definition v12_host_ia32_sysenter_esp :: nat where [v12_members]: "v12_host_ia32_sysenter_esp = 78"
definition v12_host_ia32_sysenter_eip :: nat where [v12_members]: "v12_host_ia32_sysenter_eip = 79"
definition v12_host_rsp :: nat where [v12_members]: "v12_host_rsp = 80"
definition v12_host_rip :: nat where [v12_members]: "v12_host_rip = 81"
definition v12_paddingl :: nat where [v12_members]: "v12_paddingl = 82"
definition v12_pin_based_vm_exec_control :: nat where [v12_members]: "v12_pin_based_vm_exec_control = 83"
definition v12_cpu_based_vm_exec_control :: nat where [v12_members]: "v12_cpu_based_vm_exec_control = 84"
definition v12_exception_bitmap :: nat where [v12_members]: "v12_exception_bitmap = 85"
definition v12_page_fault_error_code_mask :: nat where [v12_members]: "v12_page_fault_error_code_mask = 86"
definition v12_page_fault_error_code_match :: nat where [v12_members]: "v12_page_fault_error_code_match = 87"
definition v12_cr3_target_count :: nat where [v12_members]: "v12_cr3_target_count = 88"
definition v12_vm_exit_controls :: nat where [v12_members]: "v12_vm_exit_controls = 89"
definition v12_vm_exit_msr_store_count :: nat where [v12_members]: "v12_vm_exit_msr_store_count = 90"
definition v12_vm_exit_msr_load_count :: nat where [v12_members]: "v12_vm_exit_msr_load_count = 91"
definition v12_vm_entry_controls :: nat where [v12_members]: "v12_vm_entry_controls = 92"
definition v12_vm_entry_msr_load_count :: nat where [v12_members]: "v12_vm_entry_msr_load_count = 93"
definition v12_vm_entry_intr_info_field :: nat where [v12_members]: "v12_vm_entry_intr_info_field = 94"
definition v12_vm_entry_exception_error_code :: nat where [v12_members]: "v12_vm_entry_exception_error_code = 95"
definition v12_vm_entry_instruction_len :: nat where [v12_members]: "v12_vm_entry_instruction_len = 96"
definition v12_tpr_threshold :: nat where [v12_members]: "v12_tpr_threshold = 97"
definition v12_secondary_vm_exec_control :: nat where [v12_members]: "v12_secondary_vm_exec_control = 98"
definition v12_vm_instruction_error :: nat where [v12_members]: "v12_vm_instruction_error = 99"
definition v12_vm_exit_reason :: nat where [v12_members]: "v12_vm_exit_reason = 100"
definition v12_vm_exit_intr_info :: nat where [v12_members]: "v12_vm_exit_intr_info = 101"
definition v12_vm_exit_intr_error_code :: nat where [v12_members]: "v12_vm_exit_intr_error_code = 102"
definition v12_idt_vectoring_info_field :: nat where [v12_members]: "v12_idt_vectoring_info_field = 103"
definition v12_idt_vectoring_error_code :: nat where [v12_members]: "v12_idt_vectoring_error_code = 104"
definition v12_vm_exit_instruction_len :: nat where [v12_members]: "v12_vm_exit_instruction_len = 105"
definition v12_vmx_instruction_info :: nat where [v12_members]: "v12_vmx_instruction_info = 106"
definition v12_guest_es_limit :: nat where [v12_members]: "v12_guest_es_limit = 107"
definition v12_guest_cs_limit :: nat where [v12_members]: "v12_guest_cs_limit = 108"
definition v12_guest_ss_limit :: nat where [v12_members]: "v12_guest_ss_limit = 109"
definition v12_guest_ds_limit :: nat where [v12_members]: "v12_guest_ds_limit = 110"
definition v12_guest_fs_limit :: nat where [v12_members]: "v12_guest_fs_limit = 111"
definition v12_guest_gs_limit :: nat where [v12_members]: "v12_guest_gs_limit = 112"
definition v12_guest_ldtr_limit :: nat where [v12_members]: "v12_guest_ldtr_limit = 113"
definition v12_guest_tr_limit :: nat where [v12_members]: "v12_guest_tr_limit = 114"
definition v12_guest_gdtr_limit :: nat where [v12_members]: "v12_guest_gdtr_limit = 115"
definition v12_guest_idtr_limit :: nat where [v12_members]: "v12_guest_idtr_limit = 116"
definition v12_guest_es_ar_bytes :: nat where [v12_members]: "v12_guest_es_ar_bytes = 117"
definition v12_guest_cs_ar_bytes :: nat where [v12_members]: "v12_guest_cs_ar_bytes = 118"
definition v12_guest_ss_ar_bytes :: nat where [v12_members]: "v12_guest_ss_ar_bytes = 119"
definition v12_guest_ds_ar_bytes :: nat where [v12_members]: "v12_guest_ds_ar_bytes = 120"
definition v12_guest_fs_ar_bytes :: nat where [v12_members]: "v12_guest_fs_ar_bytes = 121"
definition v12_guest_gs_ar_bytes :: nat where [v12_members]: "v12_guest_gs_ar_bytes = 122"
definition v12_guest_ldtr_ar_bytes :: nat where [v12_members]: "v12_guest_ldtr_ar_bytes = 123"
definition v12_guest_tr_ar_bytes :: nat where [v12_members]: "v12_guest_tr_ar_bytes = 124"
definition v12_guest_interruptibility_info :: nat where [v12_members]: "v12_guest_interruptibility_info = 125"
definition v12_guest_activity_state :: nat where [v12_members]: "v12_guest_activity_state = 126"
definition v12_guest_sysenter_cs :: nat where [v12_members]: "v12_guest_sysenter_cs = 127"
definition v12_host_ia32_sysenter_cs :: nat where [v12_members]: "v12_host_ia32_sysenter_cs = 128"
definition v12_vmx_preemption_timer_value :: nat where [v12_members]: "v12_vmx_preemption_timer_value = 129"
definition v12_padding32 :: nat where [v12_members]: "v12_padding32 = 130"
definition v12_virtual_processor_id :: nat where [v12_members]: "v12_virtual_processor_id = 131"
definition v12_posted_intr_nv :: nat where [v12_members]: "v12_posted_intr_nv = 132"
definition v12_guest_es_selector :: nat where [v12_members]: "v12_guest_es_selector = 133"
definition v12_guest_cs_selector :: nat where [v12_members]: "v12_guest_cs_selector = 134"
definition v12_guest_ss_selector :: nat where [v12_members]: "v12_guest_ss_selector = 135"
definition v12_guest_ds_selector :: nat where [v12_members]: "v12_guest_ds_selector = 136"
definition v12_guest_fs_selector :: nat where [v12_members]: "v12_guest_fs_selector = 137"
definition v12_guest_gs_selector :: nat where [v12_members]: "v12_guest_gs_selector = 138"
definition v12_guest_ldtr_selector :: nat where [v12_members]: "v12_guest_ldtr_selector = 139"
definition v12_guest_tr_selector :: nat where [v12_members]: "v12_guest_tr_selector = 140"
definition v12_guest_intr_status :: nat where [v12_members]: "v12_guest_intr_status = 141"
definition v12_host_es_selector :: nat where [v12_members]: "v12_host_es_selector = 142"
definition v12_host_cs_selector :: nat where [v12_members]: "v12_host_cs_selector = 143"
definition v12_host_ss_selector :: nat where [v12_members]: "v12_host_ss_selector = 144"
definition v12_host_ds_selector :: nat where [v12_members]: "v12_host_ds_selector = 145"
definition v12_host_fs_selector :: nat where [v12_members]: "v12_host_fs_selector = 146"
definition v12_host_gs_selector :: nat where [v12_members]: "v12_host_gs_selector = 147"
definition v12_host_tr_selector :: nat where [v12_members]: "v12_host_tr_selector = 148"
definition v12_guest_pml_index :: nat where [v12_members]: "v12_guest_pml_index = 149"

definition vmcs12_members :: "member list" where
  "vmcs12_members =
    [(4, sizeof vmcs_hdr_members), (4, 4), (4, 4), (4, 28), (8, 8), (8, 8), (8, 8), (8, 8),
     (8, 8), (8, 8), (8, 8), (8, 8), (8, 8), (8, 8), (8, 8), (8, 8), (8, 8), (8, 8), (8, 8),
     (8, 8), (8, 8), (8, 8), (8, 8), (8, 8), (8, 8), (8, 8), (8, 8), (8, 8), (8, 8), (8, 8),
     (8, 8), (8, 8), (8, 8), (8, 8), (8, 8), (8, 8), (8, 8), (8, 8), (8, 8), (8, 24), (8, 8),
     (8, 8), (8, 8), (8, 8), (8, 8), (8, 8), (8, 8), (8, 8), (8, 8), (8, 8), (8, 8), (8, 8),
     (8, 8), (8, 8), (8, 8), (8, 8), (8, 8), (8, 8), (8, 8), (8, 8), (8, 8), (8, 8), (8, 8),
     (8, 8), (8, 8), (8, 8), (8, 8), (8, 8), (8, 8), (8, 8), (8, 8), (8, 8), (8, 8), (8, 8),
     (8, 8), (8, 8), (8, 8), (8, 8), (8, 8), (8, 8), (8, 8), (8, 8), (8, 64), (4, 4), (4, 4),
     (4, 4), (4, 4), (4, 4), (4, 4), (4, 4), (4, 4), (4, 4), (4, 4), (4, 4), (4, 4), (4, 4),
     (4, 4), (4, 4), (4, 4), (4, 4), (4, 4), (4, 4), (4, 4), (4, 4), (4, 4), (4, 4), (4, 4),
     (4, 4), (4, 4), (4, 4), (4, 4), (4, 4), (4, 4), (4, 4), (4, 4), (4, 4), (4, 4), (4, 4),
     (4, 4), (4, 4), (4, 4), (4, 4), (4, 4), (4, 4), (4, 4), (4, 4), (4, 4), (4, 4), (4, 4),
     (4, 4), (4, 28), (2, 2), (2, 2), (2, 2), (2, 2), (2, 2), (2, 2), (2, 2), (2, 2), (2, 2),
     (2, 2), (2, 2), (2, 2), (2, 2), (2, 2), (2, 2), (2, 2), (2, 2), (2, 2), (2, 2)]"

definition VMCS12_OFFSET :: "nat \<Rightarrow> nat" where
  "VMCS12_OFFSET k = layout 0 vmcs12_members ! k"

definition member_size :: "nat \<Rightarrow> nat" where
  "member_size k = snd (vmcs12_members ! k)"

text \<open>\<^verbatim>\<open>vmcs12->name\<close> as a value and as the left side of an assignment.\<close>

definition get_member :: "nat \<Rightarrow> u64 \<Rightarrow> bmem \<Rightarrow> u64" where
  "get_member k p m = load_le (member_size k) m (p + of_nat (VMCS12_OFFSET k))"

definition set_member :: "nat \<Rightarrow> u64 \<Rightarrow> u64 \<Rightarrow> bmem \<Rightarrow> bmem" where
  "set_member k v p m = store_le (member_size k) v m (p + of_nat (VMCS12_OFFSET k))"

section \<open>The field table\<close>

definition ROL16 :: "u64 \<Rightarrow> nat \<Rightarrow> u16" where
  "ROL16 val n = push_bit n (ucast val) OR drop_bit (16 - n) (ucast val)"

text \<open>The designated initialisers, as pairs of an index and the value stored there.\<close>

definition FIELD :: "u64 \<Rightarrow> nat \<Rightarrow> (nat \<times> nat) list" where
  "FIELD number name = [(unat (ROL16 number 6), VMCS12_OFFSET name)]"

definition FIELD64 :: "u64 \<Rightarrow> u64 \<Rightarrow> nat \<Rightarrow> (nat \<times> nat) list" where
  "FIELD64 number number_HIGH name =
     FIELD number name @ [(unat (ROL16 number_HIGH 6), VMCS12_OFFSET name + 4)]"

definition vmcs_field_to_offset_table :: "(nat \<times> nat) list" where
  "vmcs_field_to_offset_table = concat
    [FIELD VIRTUAL_PROCESSOR_ID v12_virtual_processor_id, FIELD POSTED_INTR_NV v12_posted_intr_nv,
     FIELD GUEST_ES_SELECTOR v12_guest_es_selector, FIELD GUEST_CS_SELECTOR v12_guest_cs_selector,
     FIELD GUEST_SS_SELECTOR v12_guest_ss_selector, FIELD GUEST_DS_SELECTOR v12_guest_ds_selector,
     FIELD GUEST_FS_SELECTOR v12_guest_fs_selector, FIELD GUEST_GS_SELECTOR v12_guest_gs_selector,
     FIELD GUEST_LDTR_SELECTOR v12_guest_ldtr_selector,
     FIELD GUEST_TR_SELECTOR v12_guest_tr_selector, FIELD GUEST_INTR_STATUS v12_guest_intr_status,
     FIELD GUEST_PML_INDEX v12_guest_pml_index, FIELD HOST_ES_SELECTOR v12_host_es_selector,
     FIELD HOST_CS_SELECTOR v12_host_cs_selector, FIELD HOST_SS_SELECTOR v12_host_ss_selector,
     FIELD HOST_DS_SELECTOR v12_host_ds_selector, FIELD HOST_FS_SELECTOR v12_host_fs_selector,
     FIELD HOST_GS_SELECTOR v12_host_gs_selector, FIELD HOST_TR_SELECTOR v12_host_tr_selector,
     FIELD64 IO_BITMAP_A IO_BITMAP_A_HIGH v12_io_bitmap_a,
     FIELD64 IO_BITMAP_B IO_BITMAP_B_HIGH v12_io_bitmap_b,
     FIELD64 MSR_BITMAP MSR_BITMAP_HIGH v12_msr_bitmap,
     FIELD64 VM_EXIT_MSR_STORE_ADDR VM_EXIT_MSR_STORE_ADDR_HIGH v12_vm_exit_msr_store_addr,
     FIELD64 VM_EXIT_MSR_LOAD_ADDR VM_EXIT_MSR_LOAD_ADDR_HIGH v12_vm_exit_msr_load_addr,
     FIELD64 VM_ENTRY_MSR_LOAD_ADDR VM_ENTRY_MSR_LOAD_ADDR_HIGH v12_vm_entry_msr_load_addr,
     FIELD64 PML_ADDRESS PML_ADDRESS_HIGH v12_pml_address,
     FIELD64 TSC_OFFSET TSC_OFFSET_HIGH v12_tsc_offset,
     FIELD64 VIRTUAL_APIC_PAGE_ADDR VIRTUAL_APIC_PAGE_ADDR_HIGH v12_virtual_apic_page_addr,
     FIELD64 APIC_ACCESS_ADDR APIC_ACCESS_ADDR_HIGH v12_apic_access_addr,
     FIELD64 POSTED_INTR_DESC_ADDR POSTED_INTR_DESC_ADDR_HIGH v12_posted_intr_desc_addr,
     FIELD64 VM_FUNCTION_CONTROL VM_FUNCTION_CONTROL_HIGH v12_vm_function_control,
     FIELD64 EPT_POINTER EPT_POINTER_HIGH v12_ept_pointer,
     FIELD64 EOI_EXIT_BITMAP0 EOI_EXIT_BITMAP0_HIGH v12_eoi_exit_bitmap0,
     FIELD64 EOI_EXIT_BITMAP1 EOI_EXIT_BITMAP1_HIGH v12_eoi_exit_bitmap1,
     FIELD64 EOI_EXIT_BITMAP2 EOI_EXIT_BITMAP2_HIGH v12_eoi_exit_bitmap2,
     FIELD64 EOI_EXIT_BITMAP3 EOI_EXIT_BITMAP3_HIGH v12_eoi_exit_bitmap3,
     FIELD64 EPTP_LIST_ADDRESS EPTP_LIST_ADDRESS_HIGH v12_eptp_list_address,
     FIELD64 VMREAD_BITMAP VMREAD_BITMAP_HIGH v12_vmread_bitmap,
     FIELD64 VMWRITE_BITMAP VMWRITE_BITMAP_HIGH v12_vmwrite_bitmap,
     FIELD64 XSS_EXIT_BITMAP XSS_EXIT_BITMAP_HIGH v12_xss_exit_bitmap,
     FIELD64 GUEST_PHYSICAL_ADDRESS GUEST_PHYSICAL_ADDRESS_HIGH v12_guest_physical_address,
     FIELD64 VMCS_LINK_POINTER VMCS_LINK_POINTER_HIGH v12_vmcs_link_pointer,
     FIELD64 GUEST_IA32_DEBUGCTL GUEST_IA32_DEBUGCTL_HIGH v12_guest_ia32_debugctl,
     FIELD64 GUEST_IA32_PAT GUEST_IA32_PAT_HIGH v12_guest_ia32_pat,
     FIELD64 GUEST_IA32_EFER GUEST_IA32_EFER_HIGH v12_guest_ia32_efer,
     FIELD64 GUEST_IA32_PERF_GLOBAL_CTRL GUEST_IA32_PERF_GLOBAL_CTRL_HIGH v12_guest_ia32_perf_global_ctrl,
     FIELD64 GUEST_PDPTR0 GUEST_PDPTR0_HIGH v12_guest_pdptr0,
     FIELD64 GUEST_PDPTR1 GUEST_PDPTR1_HIGH v12_guest_pdptr1,
     FIELD64 GUEST_PDPTR2 GUEST_PDPTR2_HIGH v12_guest_pdptr2,
     FIELD64 GUEST_PDPTR3 GUEST_PDPTR3_HIGH v12_guest_pdptr3,
     FIELD64 GUEST_BNDCFGS GUEST_BNDCFGS_HIGH v12_guest_bndcfgs,
     FIELD64 HOST_IA32_PAT HOST_IA32_PAT_HIGH v12_host_ia32_pat,
     FIELD64 HOST_IA32_EFER HOST_IA32_EFER_HIGH v12_host_ia32_efer,
     FIELD64 HOST_IA32_PERF_GLOBAL_CTRL HOST_IA32_PERF_GLOBAL_CTRL_HIGH v12_host_ia32_perf_global_ctrl,
     FIELD PIN_BASED_VM_EXEC_CONTROL v12_pin_based_vm_exec_control,
     FIELD CPU_BASED_VM_EXEC_CONTROL v12_cpu_based_vm_exec_control,
     FIELD EXCEPTION_BITMAP v12_exception_bitmap,
     FIELD PAGE_FAULT_ERROR_CODE_MASK v12_page_fault_error_code_mask,
     FIELD PAGE_FAULT_ERROR_CODE_MATCH v12_page_fault_error_code_match,
     FIELD CR3_TARGET_COUNT v12_cr3_target_count, FIELD VM_EXIT_CONTROLS v12_vm_exit_controls,
     FIELD VM_EXIT_MSR_STORE_COUNT v12_vm_exit_msr_store_count,
     FIELD VM_EXIT_MSR_LOAD_COUNT v12_vm_exit_msr_load_count,
     FIELD VM_ENTRY_CONTROLS v12_vm_entry_controls,
     FIELD VM_ENTRY_MSR_LOAD_COUNT v12_vm_entry_msr_load_count,
     FIELD VM_ENTRY_INTR_INFO_FIELD v12_vm_entry_intr_info_field,
     FIELD VM_ENTRY_EXCEPTION_ERROR_CODE v12_vm_entry_exception_error_code,
     FIELD VM_ENTRY_INSTRUCTION_LEN v12_vm_entry_instruction_len,
     FIELD TPR_THRESHOLD v12_tpr_threshold,
     FIELD SECONDARY_VM_EXEC_CONTROL v12_secondary_vm_exec_control,
     FIELD VM_INSTRUCTION_ERROR v12_vm_instruction_error, FIELD VM_EXIT_REASON v12_vm_exit_reason,
     FIELD VM_EXIT_INTR_INFO v12_vm_exit_intr_info,
     FIELD VM_EXIT_INTR_ERROR_CODE v12_vm_exit_intr_error_code,
     FIELD IDT_VECTORING_INFO_FIELD v12_idt_vectoring_info_field,
     FIELD IDT_VECTORING_ERROR_CODE v12_idt_vectoring_error_code,
     FIELD VM_EXIT_INSTRUCTION_LEN v12_vm_exit_instruction_len,
     FIELD VMX_INSTRUCTION_INFO v12_vmx_instruction_info, FIELD GUEST_ES_LIMIT v12_guest_es_limit,
     FIELD GUEST_CS_LIMIT v12_guest_cs_limit, FIELD GUEST_SS_LIMIT v12_guest_ss_limit,
     FIELD GUEST_DS_LIMIT v12_guest_ds_limit, FIELD GUEST_FS_LIMIT v12_guest_fs_limit,
     FIELD GUEST_GS_LIMIT v12_guest_gs_limit, FIELD GUEST_LDTR_LIMIT v12_guest_ldtr_limit,
     FIELD GUEST_TR_LIMIT v12_guest_tr_limit, FIELD GUEST_GDTR_LIMIT v12_guest_gdtr_limit,
     FIELD GUEST_IDTR_LIMIT v12_guest_idtr_limit, FIELD GUEST_ES_AR_BYTES v12_guest_es_ar_bytes,
     FIELD GUEST_CS_AR_BYTES v12_guest_cs_ar_bytes, FIELD GUEST_SS_AR_BYTES v12_guest_ss_ar_bytes,
     FIELD GUEST_DS_AR_BYTES v12_guest_ds_ar_bytes, FIELD GUEST_FS_AR_BYTES v12_guest_fs_ar_bytes,
     FIELD GUEST_GS_AR_BYTES v12_guest_gs_ar_bytes,
     FIELD GUEST_LDTR_AR_BYTES v12_guest_ldtr_ar_bytes,
     FIELD GUEST_TR_AR_BYTES v12_guest_tr_ar_bytes,
     FIELD GUEST_INTERRUPTIBILITY_INFO v12_guest_interruptibility_info,
     FIELD GUEST_ACTIVITY_STATE v12_guest_activity_state,
     FIELD GUEST_SYSENTER_CS v12_guest_sysenter_cs,
     FIELD HOST_IA32_SYSENTER_CS v12_host_ia32_sysenter_cs,
     FIELD VMX_PREEMPTION_TIMER_VALUE v12_vmx_preemption_timer_value,
     FIELD CR0_GUEST_HOST_MASK v12_cr0_guest_host_mask,
     FIELD CR4_GUEST_HOST_MASK v12_cr4_guest_host_mask, FIELD CR0_READ_SHADOW v12_cr0_read_shadow,
     FIELD CR4_READ_SHADOW v12_cr4_read_shadow, FIELD CR3_TARGET_VALUE0 v12_cr3_target_value0,
     FIELD CR3_TARGET_VALUE1 v12_cr3_target_value1, FIELD CR3_TARGET_VALUE2 v12_cr3_target_value2,
     FIELD CR3_TARGET_VALUE3 v12_cr3_target_value3,
     FIELD EXIT_QUALIFICATION v12_exit_qualification,
     FIELD GUEST_LINEAR_ADDRESS v12_guest_linear_address, FIELD GUEST_CR0 v12_guest_cr0,
     FIELD GUEST_CR3 v12_guest_cr3, FIELD GUEST_CR4 v12_guest_cr4,
     FIELD GUEST_ES_BASE v12_guest_es_base, FIELD GUEST_CS_BASE v12_guest_cs_base,
     FIELD GUEST_SS_BASE v12_guest_ss_base, FIELD GUEST_DS_BASE v12_guest_ds_base,
     FIELD GUEST_FS_BASE v12_guest_fs_base, FIELD GUEST_GS_BASE v12_guest_gs_base,
     FIELD GUEST_LDTR_BASE v12_guest_ldtr_base, FIELD GUEST_TR_BASE v12_guest_tr_base,
     FIELD GUEST_GDTR_BASE v12_guest_gdtr_base, FIELD GUEST_IDTR_BASE v12_guest_idtr_base,
     FIELD GUEST_DR7 v12_guest_dr7, FIELD GUEST_RSP v12_guest_rsp, FIELD GUEST_RIP v12_guest_rip,
     FIELD GUEST_RFLAGS v12_guest_rflags,
     FIELD GUEST_PENDING_DBG_EXCEPTIONS v12_guest_pending_dbg_exceptions,
     FIELD GUEST_SYSENTER_ESP v12_guest_sysenter_esp,
     FIELD GUEST_SYSENTER_EIP v12_guest_sysenter_eip, FIELD HOST_CR0 v12_host_cr0,
     FIELD HOST_CR3 v12_host_cr3, FIELD HOST_CR4 v12_host_cr4,
     FIELD HOST_FS_BASE v12_host_fs_base, FIELD HOST_GS_BASE v12_host_gs_base,
     FIELD HOST_TR_BASE v12_host_tr_base, FIELD HOST_GDTR_BASE v12_host_gdtr_base,
     FIELD HOST_IDTR_BASE v12_host_idtr_base,
     FIELD HOST_IA32_SYSENTER_ESP v12_host_ia32_sysenter_esp,
     FIELD HOST_IA32_SYSENTER_EIP v12_host_ia32_sysenter_eip, FIELD HOST_RSP v12_host_rsp,
     FIELD HOST_RIP v12_host_rip]"

definition nr_vmcs12_fields :: nat where
  "nr_vmcs12_fields = Suc (Max (set (List.map fst vmcs_field_to_offset_table)))"

text \<open>An element of the table without an initialiser is 0.\<close>

definition vmcs_field_to_offset :: "u64 \<Rightarrow> int" where
  "vmcs_field_to_offset field =
     (if drop_bit 15 field \<noteq> 0 then - ENOENT
      else let index = unat (ROL16 field 6) in
        if nr_vmcs12_fields \<le> index then - ENOENT
        else let offset = (case map_of vmcs_field_to_offset_table index of Some off \<Rightarrow> off | None \<Rightarrow> 0) in
          if offset = 0 then - ENOENT else int offset)"

section \<open>Access by field encoding\<close>

datatype vmcs_field_width =
  VMCS_FIELD_WIDTH_U16 | VMCS_FIELD_WIDTH_U64 | VMCS_FIELD_WIDTH_U32 | VMCS_FIELD_WIDTH_NATURAL_WIDTH

definition field_width :: "u64 \<Rightarrow> vmcs_field_width" where
  "field_width field =
     (if 1 AND field \<noteq> 0 then VMCS_FIELD_WIDTH_U32
      else if drop_bit 13 field AND 3 = 0 then VMCS_FIELD_WIDTH_U16
      else if drop_bit 13 field AND 3 = 1 then VMCS_FIELD_WIDTH_U64
      else if drop_bit 13 field AND 3 = 2 then VMCS_FIELD_WIDTH_U32
      else VMCS_FIELD_WIDTH_NATURAL_WIDTH)"

fun width_bytes :: "vmcs_field_width \<Rightarrow> nat" where
  "width_bytes VMCS_FIELD_WIDTH_U16 = 2"
| "width_bytes VMCS_FIELD_WIDTH_U32 = 4"
| "width_bytes VMCS_FIELD_WIDTH_U64 = 8"
| "width_bytes VMCS_FIELD_WIDTH_NATURAL_WIDTH = 8"

definition vmcs12_read_any :: "u64 \<Rightarrow> u64 \<Rightarrow> bmem \<Rightarrow> int + u64" where
  "vmcs12_read_any vmcs12 field m =
     (let offset = vmcs_field_to_offset field in
      if offset < 0 then Inl offset
      else Inr (load_le (width_bytes (field_width field)) m (vmcs12 + of_int offset)))"

definition vmcs12_write_any :: "u64 \<Rightarrow> u64 \<Rightarrow> u64 \<Rightarrow> bmem \<Rightarrow> int \<times> bmem" where
  "vmcs12_write_any vmcs12 field field_value m =
     (let offset = vmcs_field_to_offset field in
      if offset < 0 then (offset, m)
      else (0, store_le (width_bytes (field_width field)) field_value m (vmcs12 + of_int offset)))"

section \<open>The layout\<close>

text \<open>Members of a struct do not overlap.\<close>

lemma align_up_ge: "0 < a \<Longrightarrow> n \<le> align_up a n"
proof -
  assume a: "0 < a"
  have "n + a - 1 = (n + a - 1) div a * a + (n + a - 1) mod a" by simp
  moreover have "(n + a - 1) mod a < a" using a by simp
  ultimately show ?thesis using a unfolding align_up_def by linarith
qed

lemma layout_length [simp]: "length (layout pos ms) = length ms"
  by (induction pos ms rule: layout.induct) auto

lemma sizeof_from_ge: "\<forall>(a, sz)\<in>set ms. 0 < a \<Longrightarrow> pos \<le> sizeof_from pos ms"
proof (induction pos ms rule: sizeof_from.induct)
  case (2 pos a sz ms)
  then show ?case using align_up_ge [of a pos] by fastforce
qed simp

lemma layout_bounds:
  assumes "\<forall>(a, sz)\<in>set ms. 0 < a" "i < length ms"
  shows "pos \<le> layout pos ms ! i \<and> layout pos ms ! i + snd (ms ! i) \<le> sizeof_from pos ms"
  using assms
proof (induction pos ms arbitrary: i rule: layout.induct)
  case (2 pos a sz ms)
  have a: "pos \<le> align_up a pos" using "2.prems"(1) by (intro align_up_ge) auto
  have e: "align_up a pos + sz \<le> sizeof_from (align_up a pos + sz) ms"
    using "2.prems"(1) by (intro sizeof_from_ge) auto
  show ?case
  proof (cases i)
    case 0
    with a e show ?thesis by simp
  next
    case (Suc j)
    with 2 have "align_up a pos + sz \<le> layout (align_up a pos + sz) ms ! j \<and>
      layout (align_up a pos + sz) ms ! j + snd (ms ! j) \<le> sizeof_from (align_up a pos + sz) ms"
      by simp
    with Suc a show ?thesis by simp
  qed
qed simp

lemma layout_disjoint:
  assumes "\<forall>(a, sz)\<in>set ms. 0 < a" "i < j" "j < length ms"
  shows "layout pos ms ! i + snd (ms ! i) \<le> layout pos ms ! j"
  using assms
proof (induction pos ms arbitrary: i j rule: layout.induct)
  case (2 pos a sz ms)
  then obtain j' where j: "j = Suc j'" by (cases j) auto
  show ?case
  proof (cases i)
    case 0
    with 2 j show ?thesis using layout_bounds [of ms j' "align_up a pos + sz"] by auto
  next
    case (Suc i')
    with 2 j show ?thesis by auto
  qed
qed simp

lemma members_facts:
  "\<forall>(a, sz)\<in>set vmcs12_members. 0 < a" "sizeof vmcs12_members = 1006" "length vmcs12_members = 150"
proof -
  have "list_all (\<lambda>(a, sz). 0 < a) vmcs12_members" by (simp add: vmcs12_members_def)
  then show "\<forall>(a, sz)\<in>set vmcs12_members. 0 < a" by (simp add: list_all_iff)
  show "sizeof vmcs12_members = 1006"
    by (simp add: sizeof_def vmcs12_members_def vmcs_hdr_members_def align_up_def)
  show "length vmcs12_members = 150" by (simp add: vmcs12_members_def)
qed

lemma vmcs12_layout:
  "layout 0 vmcs12_members =
    [0, 8, 12, 16, 48, 56, 64, 72, 80, 88, 96, 104, 112, 120, 128, 136, 144, 152, 160, 168, 176,
     184, 192, 200, 208, 216, 224, 232, 240, 248, 256, 264, 272, 280, 288, 296, 304, 312, 320,
     328, 352, 360, 368, 376, 384, 392, 400, 408, 416, 424, 432, 440, 448, 456, 464, 472, 480,
     488, 496, 504, 512, 520, 528, 536, 544, 552, 560, 568, 576, 584, 592, 600, 608, 616, 624,
     632, 640, 648, 656, 664, 672, 680, 688, 752, 756, 760, 764, 768, 772, 776, 780, 784, 788,
     792, 796, 800, 804, 808, 812, 816, 820, 824, 828, 832, 836, 840, 844, 848, 852, 856, 860,
     864, 868, 872, 876, 880, 884, 888, 892, 896, 900, 904, 908, 912, 916, 920, 924, 928, 932,
     936, 940, 968, 970, 972, 974, 976, 978, 980, 982, 984, 986, 988, 990, 992, 994, 996, 998,
     1000, 1002, 1004]"
  by (simp add: sizeof_def vmcs12_members_def vmcs_hdr_members_def align_up_def)

lemma member_end: "k < 150 \<Longrightarrow> VMCS12_OFFSET k + member_size k \<le> 1006"
  using layout_bounds [OF members_facts(1), of k 0] members_facts(2,3)
  by (simp add: VMCS12_OFFSET_def member_size_def sizeof_def)

lemma members_disjoint: "i < j \<Longrightarrow> j < 150 \<Longrightarrow> VMCS12_OFFSET i + member_size i \<le> VMCS12_OFFSET j"
  using layout_disjoint [OF members_facts(1), of i j 0] members_facts(3)
  by (simp add: VMCS12_OFFSET_def member_size_def)

lemma member_after_hdr: "0 < k \<Longrightarrow> k < 150 \<Longrightarrow> 8 \<le> VMCS12_OFFSET k"
  using members_disjoint [of 0 k]
  by (simp add: VMCS12_OFFSET_def member_size_def vmcs12_members_def sizeof_def vmcs_hdr_members_def
      align_up_def)

text \<open>A member read back after it, or another one, was assigned.\<close>

lemma get_set_other:
  assumes "n < 150" "k < 150" "n \<noteq> k"
  shows "get_member n p (set_member k v p m) = get_member n p m"
proof -
  have "VMCS12_OFFSET n + member_size n \<le> VMCS12_OFFSET k \<or> VMCS12_OFFSET k + member_size k \<le> VMCS12_OFFSET n"
    using members_disjoint [of n k] members_disjoint [of k n] assms by linarith
  with member_end [of n] member_end [of k] assms show ?thesis
    by (simp add: get_member_def set_member_def load_store_disjoint)
qed

lemma get_set_same: "member_size n \<le> 8 \<Longrightarrow> get_member n p (set_member n v p m) = take_bit (8 * member_size n) v"
  by (simp add: get_member_def set_member_def load_store_same)

text \<open>The sizes of the members behind the header: 8 bytes up to the natural-width ones, then 4
  and 2; the paddings are longer.\<close>

fun member_class :: "nat \<Rightarrow> nat" where
  "member_class k = (if k < 83 then 8 else if k < 131 then 4 else 2)"

lemma member_size_cases:
  "4 \<le> k \<Longrightarrow> k < 150 \<Longrightarrow> member_class k \<le> member_size k \<and> (k \<in> {39, 82, 130} \<or> member_size k = member_class k)"
proof -
  assume k: "4 \<le> k" "k < 150"
  define ok where "ok k sz \<longleftrightarrow> member_class k \<le> sz \<and> (k \<in> {39, 82, 130} \<or> sz = member_class k)" for k sz
  define ks where "ks = [4..<150]"
  have ks: "length ks = 146" "ks ! (k - 4) = k" using k nth_upt [of 4 "k - 4" 150] by (simp_all add: ks_def del: upt_rec_numeral)
  define es where "es = zip ks (drop 4 vmcs12_members)"
  have "list_all (\<lambda>(k, a, sz). ok k sz) es"
    by (simp add: es_def ks_def ok_def vmcs12_members_def upt_rec_numeral)
  then have "\<forall>e\<in>set es. ok (fst e) (snd (snd e))"
    by (auto simp: list_all_iff)
  moreover have "es ! (k - 4) = (k, vmcs12_members ! k)"
    using k unfolding es_def by (subst nth_zip) (simp_all add: members_facts(3) ks)
  moreover have "es ! (k - 4) \<in> set es"
    using k by (intro nth_mem) (simp add: es_def ks members_facts(3))
  ultimately have "ok k (member_size k)" by (fastforce simp: member_size_def)
  then show ?thesis by (simp only: ok_def)
qed

lemma member_class_le: "4 \<le> k \<Longrightarrow> k < 150 \<Longrightarrow> member_class k \<le> member_size k"
  using member_size_cases by blast

lemma member_size_eq: "4 \<le> k \<Longrightarrow> k < 150 \<Longrightarrow> k \<notin> {39, 82, 130} \<Longrightarrow> member_size k = member_class k"
  using member_size_cases by blast

section \<open>Fields\<close>

text \<open>The fields by their encodings: the member and the byte inside it that an access starts
  at. The second half of a 64-bit member has an encoding of its own.\<close>

definition vmcs12_encodings :: "(u64 \<times> nat \<times> nat) list" where
  "vmcs12_encodings =
    [(VIRTUAL_PROCESSOR_ID, v12_virtual_processor_id, 0), (POSTED_INTR_NV, v12_posted_intr_nv, 0),
     (GUEST_ES_SELECTOR, v12_guest_es_selector, 0), (GUEST_CS_SELECTOR, v12_guest_cs_selector, 0),
     (GUEST_SS_SELECTOR, v12_guest_ss_selector, 0), (GUEST_DS_SELECTOR, v12_guest_ds_selector, 0),
     (GUEST_FS_SELECTOR, v12_guest_fs_selector, 0), (GUEST_GS_SELECTOR, v12_guest_gs_selector, 0),
     (GUEST_LDTR_SELECTOR, v12_guest_ldtr_selector, 0),
     (GUEST_TR_SELECTOR, v12_guest_tr_selector, 0), (GUEST_INTR_STATUS, v12_guest_intr_status, 0),
     (GUEST_PML_INDEX, v12_guest_pml_index, 0), (HOST_ES_SELECTOR, v12_host_es_selector, 0),
     (HOST_CS_SELECTOR, v12_host_cs_selector, 0), (HOST_SS_SELECTOR, v12_host_ss_selector, 0),
     (HOST_DS_SELECTOR, v12_host_ds_selector, 0), (HOST_FS_SELECTOR, v12_host_fs_selector, 0),
     (HOST_GS_SELECTOR, v12_host_gs_selector, 0), (HOST_TR_SELECTOR, v12_host_tr_selector, 0),
     (IO_BITMAP_A, v12_io_bitmap_a, 0), (IO_BITMAP_A_HIGH, v12_io_bitmap_a, 4),
     (IO_BITMAP_B, v12_io_bitmap_b, 0), (IO_BITMAP_B_HIGH, v12_io_bitmap_b, 4),
     (MSR_BITMAP, v12_msr_bitmap, 0), (MSR_BITMAP_HIGH, v12_msr_bitmap, 4),
     (VM_EXIT_MSR_STORE_ADDR, v12_vm_exit_msr_store_addr, 0),
     (VM_EXIT_MSR_STORE_ADDR_HIGH, v12_vm_exit_msr_store_addr, 4),
     (VM_EXIT_MSR_LOAD_ADDR, v12_vm_exit_msr_load_addr, 0),
     (VM_EXIT_MSR_LOAD_ADDR_HIGH, v12_vm_exit_msr_load_addr, 4),
     (VM_ENTRY_MSR_LOAD_ADDR, v12_vm_entry_msr_load_addr, 0),
     (VM_ENTRY_MSR_LOAD_ADDR_HIGH, v12_vm_entry_msr_load_addr, 4),
     (PML_ADDRESS, v12_pml_address, 0), (PML_ADDRESS_HIGH, v12_pml_address, 4),
     (TSC_OFFSET, v12_tsc_offset, 0), (TSC_OFFSET_HIGH, v12_tsc_offset, 4),
     (VIRTUAL_APIC_PAGE_ADDR, v12_virtual_apic_page_addr, 0),
     (VIRTUAL_APIC_PAGE_ADDR_HIGH, v12_virtual_apic_page_addr, 4),
     (APIC_ACCESS_ADDR, v12_apic_access_addr, 0),
     (APIC_ACCESS_ADDR_HIGH, v12_apic_access_addr, 4),
     (POSTED_INTR_DESC_ADDR, v12_posted_intr_desc_addr, 0),
     (POSTED_INTR_DESC_ADDR_HIGH, v12_posted_intr_desc_addr, 4),
     (VM_FUNCTION_CONTROL, v12_vm_function_control, 0),
     (VM_FUNCTION_CONTROL_HIGH, v12_vm_function_control, 4), (EPT_POINTER, v12_ept_pointer, 0),
     (EPT_POINTER_HIGH, v12_ept_pointer, 4), (EOI_EXIT_BITMAP0, v12_eoi_exit_bitmap0, 0),
     (EOI_EXIT_BITMAP0_HIGH, v12_eoi_exit_bitmap0, 4),
     (EOI_EXIT_BITMAP1, v12_eoi_exit_bitmap1, 0),
     (EOI_EXIT_BITMAP1_HIGH, v12_eoi_exit_bitmap1, 4),
     (EOI_EXIT_BITMAP2, v12_eoi_exit_bitmap2, 0),
     (EOI_EXIT_BITMAP2_HIGH, v12_eoi_exit_bitmap2, 4),
     (EOI_EXIT_BITMAP3, v12_eoi_exit_bitmap3, 0),
     (EOI_EXIT_BITMAP3_HIGH, v12_eoi_exit_bitmap3, 4),
     (EPTP_LIST_ADDRESS, v12_eptp_list_address, 0),
     (EPTP_LIST_ADDRESS_HIGH, v12_eptp_list_address, 4), (VMREAD_BITMAP, v12_vmread_bitmap, 0),
     (VMREAD_BITMAP_HIGH, v12_vmread_bitmap, 4), (VMWRITE_BITMAP, v12_vmwrite_bitmap, 0),
     (VMWRITE_BITMAP_HIGH, v12_vmwrite_bitmap, 4), (XSS_EXIT_BITMAP, v12_xss_exit_bitmap, 0),
     (XSS_EXIT_BITMAP_HIGH, v12_xss_exit_bitmap, 4),
     (GUEST_PHYSICAL_ADDRESS, v12_guest_physical_address, 0),
     (GUEST_PHYSICAL_ADDRESS_HIGH, v12_guest_physical_address, 4),
     (VMCS_LINK_POINTER, v12_vmcs_link_pointer, 0),
     (VMCS_LINK_POINTER_HIGH, v12_vmcs_link_pointer, 4),
     (GUEST_IA32_DEBUGCTL, v12_guest_ia32_debugctl, 0),
     (GUEST_IA32_DEBUGCTL_HIGH, v12_guest_ia32_debugctl, 4),
     (GUEST_IA32_PAT, v12_guest_ia32_pat, 0), (GUEST_IA32_PAT_HIGH, v12_guest_ia32_pat, 4),
     (GUEST_IA32_EFER, v12_guest_ia32_efer, 0), (GUEST_IA32_EFER_HIGH, v12_guest_ia32_efer, 4),
     (GUEST_IA32_PERF_GLOBAL_CTRL, v12_guest_ia32_perf_global_ctrl, 0),
     (GUEST_IA32_PERF_GLOBAL_CTRL_HIGH, v12_guest_ia32_perf_global_ctrl, 4),
     (GUEST_PDPTR0, v12_guest_pdptr0, 0), (GUEST_PDPTR0_HIGH, v12_guest_pdptr0, 4),
     (GUEST_PDPTR1, v12_guest_pdptr1, 0), (GUEST_PDPTR1_HIGH, v12_guest_pdptr1, 4),
     (GUEST_PDPTR2, v12_guest_pdptr2, 0), (GUEST_PDPTR2_HIGH, v12_guest_pdptr2, 4),
     (GUEST_PDPTR3, v12_guest_pdptr3, 0), (GUEST_PDPTR3_HIGH, v12_guest_pdptr3, 4),
     (GUEST_BNDCFGS, v12_guest_bndcfgs, 0), (GUEST_BNDCFGS_HIGH, v12_guest_bndcfgs, 4),
     (HOST_IA32_PAT, v12_host_ia32_pat, 0), (HOST_IA32_PAT_HIGH, v12_host_ia32_pat, 4),
     (HOST_IA32_EFER, v12_host_ia32_efer, 0), (HOST_IA32_EFER_HIGH, v12_host_ia32_efer, 4),
     (HOST_IA32_PERF_GLOBAL_CTRL, v12_host_ia32_perf_global_ctrl, 0),
     (HOST_IA32_PERF_GLOBAL_CTRL_HIGH, v12_host_ia32_perf_global_ctrl, 4),
     (PIN_BASED_VM_EXEC_CONTROL, v12_pin_based_vm_exec_control, 0),
     (CPU_BASED_VM_EXEC_CONTROL, v12_cpu_based_vm_exec_control, 0),
     (EXCEPTION_BITMAP, v12_exception_bitmap, 0),
     (PAGE_FAULT_ERROR_CODE_MASK, v12_page_fault_error_code_mask, 0),
     (PAGE_FAULT_ERROR_CODE_MATCH, v12_page_fault_error_code_match, 0),
     (CR3_TARGET_COUNT, v12_cr3_target_count, 0), (VM_EXIT_CONTROLS, v12_vm_exit_controls, 0),
     (VM_EXIT_MSR_STORE_COUNT, v12_vm_exit_msr_store_count, 0),
     (VM_EXIT_MSR_LOAD_COUNT, v12_vm_exit_msr_load_count, 0),
     (VM_ENTRY_CONTROLS, v12_vm_entry_controls, 0),
     (VM_ENTRY_MSR_LOAD_COUNT, v12_vm_entry_msr_load_count, 0),
     (VM_ENTRY_INTR_INFO_FIELD, v12_vm_entry_intr_info_field, 0),
     (VM_ENTRY_EXCEPTION_ERROR_CODE, v12_vm_entry_exception_error_code, 0),
     (VM_ENTRY_INSTRUCTION_LEN, v12_vm_entry_instruction_len, 0),
     (TPR_THRESHOLD, v12_tpr_threshold, 0),
     (SECONDARY_VM_EXEC_CONTROL, v12_secondary_vm_exec_control, 0),
     (VM_INSTRUCTION_ERROR, v12_vm_instruction_error, 0), (VM_EXIT_REASON, v12_vm_exit_reason, 0),
     (VM_EXIT_INTR_INFO, v12_vm_exit_intr_info, 0),
     (VM_EXIT_INTR_ERROR_CODE, v12_vm_exit_intr_error_code, 0),
     (IDT_VECTORING_INFO_FIELD, v12_idt_vectoring_info_field, 0),
     (IDT_VECTORING_ERROR_CODE, v12_idt_vectoring_error_code, 0),
     (VM_EXIT_INSTRUCTION_LEN, v12_vm_exit_instruction_len, 0),
     (VMX_INSTRUCTION_INFO, v12_vmx_instruction_info, 0), (GUEST_ES_LIMIT, v12_guest_es_limit, 0),
     (GUEST_CS_LIMIT, v12_guest_cs_limit, 0), (GUEST_SS_LIMIT, v12_guest_ss_limit, 0),
     (GUEST_DS_LIMIT, v12_guest_ds_limit, 0), (GUEST_FS_LIMIT, v12_guest_fs_limit, 0),
     (GUEST_GS_LIMIT, v12_guest_gs_limit, 0), (GUEST_LDTR_LIMIT, v12_guest_ldtr_limit, 0),
     (GUEST_TR_LIMIT, v12_guest_tr_limit, 0), (GUEST_GDTR_LIMIT, v12_guest_gdtr_limit, 0),
     (GUEST_IDTR_LIMIT, v12_guest_idtr_limit, 0), (GUEST_ES_AR_BYTES, v12_guest_es_ar_bytes, 0),
     (GUEST_CS_AR_BYTES, v12_guest_cs_ar_bytes, 0), (GUEST_SS_AR_BYTES, v12_guest_ss_ar_bytes, 0),
     (GUEST_DS_AR_BYTES, v12_guest_ds_ar_bytes, 0), (GUEST_FS_AR_BYTES, v12_guest_fs_ar_bytes, 0),
     (GUEST_GS_AR_BYTES, v12_guest_gs_ar_bytes, 0),
     (GUEST_LDTR_AR_BYTES, v12_guest_ldtr_ar_bytes, 0),
     (GUEST_TR_AR_BYTES, v12_guest_tr_ar_bytes, 0),
     (GUEST_INTERRUPTIBILITY_INFO, v12_guest_interruptibility_info, 0),
     (GUEST_ACTIVITY_STATE, v12_guest_activity_state, 0),
     (GUEST_SYSENTER_CS, v12_guest_sysenter_cs, 0),
     (HOST_IA32_SYSENTER_CS, v12_host_ia32_sysenter_cs, 0),
     (VMX_PREEMPTION_TIMER_VALUE, v12_vmx_preemption_timer_value, 0),
     (CR0_GUEST_HOST_MASK, v12_cr0_guest_host_mask, 0),
     (CR4_GUEST_HOST_MASK, v12_cr4_guest_host_mask, 0), (CR0_READ_SHADOW, v12_cr0_read_shadow, 0),
     (CR4_READ_SHADOW, v12_cr4_read_shadow, 0), (CR3_TARGET_VALUE0, v12_cr3_target_value0, 0),
     (CR3_TARGET_VALUE1, v12_cr3_target_value1, 0), (CR3_TARGET_VALUE2, v12_cr3_target_value2, 0),
     (CR3_TARGET_VALUE3, v12_cr3_target_value3, 0),
     (EXIT_QUALIFICATION, v12_exit_qualification, 0),
     (GUEST_LINEAR_ADDRESS, v12_guest_linear_address, 0), (GUEST_CR0, v12_guest_cr0, 0),
     (GUEST_CR3, v12_guest_cr3, 0), (GUEST_CR4, v12_guest_cr4, 0),
     (GUEST_ES_BASE, v12_guest_es_base, 0), (GUEST_CS_BASE, v12_guest_cs_base, 0),
     (GUEST_SS_BASE, v12_guest_ss_base, 0), (GUEST_DS_BASE, v12_guest_ds_base, 0),
     (GUEST_FS_BASE, v12_guest_fs_base, 0), (GUEST_GS_BASE, v12_guest_gs_base, 0),
     (GUEST_LDTR_BASE, v12_guest_ldtr_base, 0), (GUEST_TR_BASE, v12_guest_tr_base, 0),
     (GUEST_GDTR_BASE, v12_guest_gdtr_base, 0), (GUEST_IDTR_BASE, v12_guest_idtr_base, 0),
     (GUEST_DR7, v12_guest_dr7, 0), (GUEST_RSP, v12_guest_rsp, 0), (GUEST_RIP, v12_guest_rip, 0),
     (GUEST_RFLAGS, v12_guest_rflags, 0),
     (GUEST_PENDING_DBG_EXCEPTIONS, v12_guest_pending_dbg_exceptions, 0),
     (GUEST_SYSENTER_ESP, v12_guest_sysenter_esp, 0),
     (GUEST_SYSENTER_EIP, v12_guest_sysenter_eip, 0), (HOST_CR0, v12_host_cr0, 0),
     (HOST_CR3, v12_host_cr3, 0), (HOST_CR4, v12_host_cr4, 0),
     (HOST_FS_BASE, v12_host_fs_base, 0), (HOST_GS_BASE, v12_host_gs_base, 0),
     (HOST_TR_BASE, v12_host_tr_base, 0), (HOST_GDTR_BASE, v12_host_gdtr_base, 0),
     (HOST_IDTR_BASE, v12_host_idtr_base, 0),
     (HOST_IA32_SYSENTER_ESP, v12_host_ia32_sysenter_esp, 0),
     (HOST_IA32_SYSENTER_EIP, v12_host_ia32_sysenter_eip, 0), (HOST_RSP, v12_host_rsp, 0),
     (HOST_RIP, v12_host_rip, 0)]"

definition field_ok :: "u64 \<times> nat \<times> nat \<Rightarrow> bool" where
  "field_ok e \<longleftrightarrow> (case e of (f, k, d) \<Rightarrow> f < 0x8000 \<and> 4 \<le> k \<and> k < 150 \<and>
     d + width_bytes (field_width f) \<le> member_class k)"

lemma encodings_ok: "list_all field_ok vmcs12_encodings"
  by (simp add: vmcs12_encodings_def field_ok_def field_width_def vmcs_fields v12_members)

text \<open>The table lists the fields in the order of their encodings, but for one.\<close>

lemma distinct_but_one:
  assumes "successively (<) (take n xs @ drop (Suc n) xs)" "xs ! n \<notin> set (take n xs @ drop (Suc n) xs)"
    "n < length xs"
  shows "distinct (xs :: u64 list)"
proof -
  have "sorted_wrt (<) (take n xs @ drop (Suc n) xs)"
    using assms(1) by (subst (asm) successively_conv_sorted_wrt) (auto intro: transpI)
  then have "distinct (take n xs @ drop (Suc n) xs)" by (simp add: strict_sorted_iff)
  with assms(2) have "distinct (take n xs @ xs ! n # drop (Suc n) xs)" by auto
  then show ?thesis using id_take_nth_drop [OF assms(3)] by simp
qed

lemma encodings_distinct: "distinct (List.map fst vmcs12_encodings)"
proof (rule distinct_but_one [where n = 135])
  show "successively (<) (take 135 (List.map fst vmcs12_encodings) @ drop (Suc 135) (List.map fst vmcs12_encodings))"
    by (simp add: vmcs12_encodings_def vmcs_fields)
  show "List.map fst vmcs12_encodings ! 135 \<notin>
      set (take 135 (List.map fst vmcs12_encodings) @ drop (Suc 135) (List.map fst vmcs12_encodings))"
    by (simp add: vmcs12_encodings_def vmcs_fields)
  show "135 < length (List.map fst vmcs12_encodings)" by (simp add: vmcs12_encodings_def)
qed

lemma table_encodings:
  "vmcs_field_to_offset_table =
     List.map (\<lambda>(f, k, d). (unat (ROL16 f 6), VMCS12_OFFSET k + d)) vmcs12_encodings"
  by (simp add: vmcs_field_to_offset_table_def vmcs12_encodings_def FIELD_def FIELD64_def)

lemma encodingsD:
  assumes "(f, k, d) \<in> set vmcs12_encodings"
  shows "f < 0x8000" "4 \<le> k" "k < 150" "d + width_bytes (field_width f) \<le> member_size k"
    "VMCS12_OFFSET k + d + width_bytes (field_width f) \<le> 1006" "8 \<le> VMCS12_OFFSET k"
    "map_of vmcs12_encodings f = Some (k, d)"
proof -
  have "field_ok (f, k, d)" using assms encodings_ok by (simp add: list_all_iff)
  then show k: "f < 0x8000" "4 \<le> k" "k < 150" and
    w: "d + width_bytes (field_width f) \<le> member_size k"
    using member_class_le [of k] by (auto simp: field_ok_def)
  show "VMCS12_OFFSET k + d + width_bytes (field_width f) \<le> 1006" using member_end [OF k(3)] w by simp
  show "8 \<le> VMCS12_OFFSET k" using member_after_hdr [of k] k by simp
  show "map_of vmcs12_encodings f = Some (k, d)" using assms encodings_distinct by simp
qed

text \<open>The rotation loses nothing of a 16-bit encoding.\<close>

lemma bit_ROL16: "n < 16 \<Longrightarrow> bit (ROL16 f 6) n \<longleftrightarrow> (if n < 6 then bit f (n + 10) else bit f (n - 6))"
  by (auto simp: ROL16_def bit_or_iff bit_push_bit_iff bit_drop_bit_eq bit_ucast_iff add.commute)

lemma field_bits:
  assumes "drop_bit 15 f = (0 :: u64)" "15 \<le> n" shows "\<not> bit f n"
  using arg_cong [OF assms(1), of "\<lambda>w. bit w (n - 15)"] assms(2) by (simp add: bit_drop_bit_eq)

lemma ROL16_inject:
  assumes "drop_bit 15 f = 0" "drop_bit 15 g = 0" "ROL16 f 6 = ROL16 g 6" shows "f = g"
proof (rule bit_word_eqI)
  fix n assume "n < LENGTH(64)"
  have e: "bit (ROL16 f 6) i = bit (ROL16 g 6) i" for i by (simp add: assms(3))
  consider "n < 10" | "10 \<le> n" "n < 15" | "15 \<le> n" by linarith
  then show "bit f n = bit g n"
  proof cases
    case 1
    with e [of "n + 6"] show ?thesis by (simp add: bit_ROL16)
  next
    case 2
    then have "n - 10 < 6" "n - 10 < 16" "n - 10 + 10 = n" by simp_all
    with e [of "n - 10"] show ?thesis by (simp add: bit_ROL16)
  next
    case 3
    with assms(1,2) show ?thesis by (simp add: field_bits)
  qed
qed

lemma drop_15_less: "drop_bit 15 f = 0 \<longleftrightarrow> f < 0x8000" for f :: u64
proof -
  have "drop_bit 15 f = 0 \<longleftrightarrow> unat f div 2 ^ 15 = 0"
    by (simp add: unat_eq_0 [symmetric] unat_drop_bit)
  then show ?thesis by (simp add: word_less_nat_alt div_eq_0_iff)
qed

lemma map_of_map_key:
  assumes "\<forall>e\<in>set es. P (fst e)" "P f" "\<forall>x y. P x \<longrightarrow> P y \<longrightarrow> g x = g y \<longrightarrow> x = y"
  shows "map_of (List.map (\<lambda>(f, k, d). (g f, h k d)) es) (g f)
    = map_option (\<lambda>(k, d). h k d) (map_of es f)"
  using assms by (induction es) auto

lemma table_lookup:
  assumes "drop_bit 15 f = 0"
  shows "map_of vmcs_field_to_offset_table (unat (ROL16 f 6))
    = map_option (\<lambda>(k, d). VMCS12_OFFSET k + d) (map_of vmcs12_encodings f)"
  unfolding table_encodings
proof (rule map_of_map_key [where P = "\<lambda>f. drop_bit 15 f = 0"])
  show "\<forall>e\<in>set vmcs12_encodings. drop_bit 15 (fst e) = 0"
    using encodingsD(1) by (auto simp: drop_15_less)
  show "\<forall>x y. drop_bit 15 x = 0 \<longrightarrow> drop_bit 15 y = 0 \<longrightarrow>
      unat (ROL16 x 6) = unat (ROL16 y 6) \<longrightarrow> x = y"
    using ROL16_inject by (auto simp: word_unat_eq_iff [symmetric])
qed (rule assms)

lemma below_nr: "map_of vmcs_field_to_offset_table i = Some p \<Longrightarrow> i < nr_vmcs12_fields"
proof -
  assume "map_of vmcs_field_to_offset_table i = Some p"
  then have "(i, p) \<in> set vmcs_field_to_offset_table" by (rule map_of_SomeD)
  then have "i \<in> fst ` set vmcs_field_to_offset_table" by (rule rev_image_eqI) (rule fst_conv [symmetric])
  then have "i \<le> Max (set (List.map fst vmcs_field_to_offset_table))"
    unfolding set_map by (intro Max_ge finite_imageI finite_set)
  then show ?thesis unfolding nr_vmcs12_fields_def by (rule le_imp_less_Suc)
qed

lemma offset_spec:
  "vmcs_field_to_offset f =
     (case map_of vmcs12_encodings f of Some (k, d) \<Rightarrow> int (VMCS12_OFFSET k + d) | None \<Rightarrow> - ENOENT)"
proof (cases "map_of vmcs12_encodings f")
  case None
  then show ?thesis
    by (cases "drop_bit 15 f = 0") (simp_all add: vmcs_field_to_offset_def Let_def table_lookup)
next
  case (Some e)
  obtain k d where e: "e = (k, d)" by fastforce
  then have m: "(f, k, d) \<in> set vmcs12_encodings" using Some map_of_SomeD by fastforce
  have f: "drop_bit 15 f = 0" using encodingsD(1) [OF m] by (simp add: drop_15_less)
  have t: "map_of vmcs_field_to_offset_table (unat (ROL16 f 6)) = Some (VMCS12_OFFSET k + d)"
    using table_lookup [OF f] by (simp add: Some e)
  show ?thesis
    using f t below_nr [OF t] encodingsD(6) [OF m]
    by (simp add: vmcs_field_to_offset_def Let_def Some e)
qed

lemma access_listed:
  assumes "(f, k, d) \<in> set vmcs12_encodings"
  shows "vmcs12_read_any p f m = Inr (load_le (width_bytes (field_width f)) m (p + of_nat (VMCS12_OFFSET k + d)))"
    "vmcs12_write_any p f v m = (0, store_le (width_bytes (field_width f)) v m (p + of_nat (VMCS12_OFFSET k + d)))"
  using encodingsD(7) [OF assms]
  by (simp_all add: vmcs12_read_any_def vmcs12_write_any_def offset_spec Let_def)

lemma width_le_8 [simp]: "width_bytes w \<le> 8"
  by (cases w) simp_all

lemma access_other_member:
  assumes f: "(f, k, d) \<in> set vmcs12_encodings" and g: "(g, j, e) \<in> set vmcs12_encodings"
    and "j \<noteq> k"
  shows "vmcs12_read_any p g (snd (vmcs12_write_any p f v m)) = vmcs12_read_any p g m"
proof -
  have "VMCS12_OFFSET k + member_size k \<le> VMCS12_OFFSET j \<or> VMCS12_OFFSET j + member_size j \<le> VMCS12_OFFSET k"
    using members_disjoint [of j k] members_disjoint [of k j] encodingsD(3) [OF f] encodingsD(3) [OF g]
      assms(3) by linarith
  with encodingsD(4) [OF f] encodingsD(4) [OF g]
  have d: "VMCS12_OFFSET j + e + width_bytes (field_width g) \<le> VMCS12_OFFSET k + d \<or>
      VMCS12_OFFSET k + d + width_bytes (field_width f) \<le> VMCS12_OFFSET j + e" by linarith
  show ?thesis
    unfolding access_listed [OF f] access_listed [OF g] snd_conv
    using encodingsD(5) [OF f] encodingsD(5) [OF g] by (subst load_store_disjoint [OF d]) simp_all
qed

lemma access_same_member:
  assumes f: "(f, k, d) \<in> set vmcs12_encodings" and g: "(g, k, e) \<in> set vmcs12_encodings"
    and "d \<le> e" "e + width_bytes (field_width g) \<le> d + width_bytes (field_width f)"
  shows "vmcs12_read_any p g (snd (vmcs12_write_any p f v m)) =
    Inr (take_bit (8 * width_bytes (field_width g)) (drop_bit (8 * (e - d)) v))"
proof -
  have e: "p + of_nat (VMCS12_OFFSET k + e) = p + of_nat (VMCS12_OFFSET k + d) + of_nat (e - d)"
    using assms(3) by (simp add: of_nat_diff)
  show ?thesis
    unfolding access_listed [OF f] access_listed [OF g] snd_conv e
    using assms(3,4) by (subst load_store_part) simp_all
qed

text \<open>The sparse table indexed by the rotated encoding answers like the plain association of
  encodings with members: for every 64-bit value the offset of the member the encoding stands for,
  the upper half for a HIGH encoding, and -ENOENT for everything else.\<close>

theorem vmcs_field_to_offset_listed:
  "vmcs_field_to_offset f =
     (case map_of vmcs12_encodings f of Some (k, d) \<Rightarrow> int (VMCS12_OFFSET k + d) | None \<Rightarrow> - ENOENT)"
  by (rule offset_spec)

lemma vmcs12_write_read_parts:
  assumes f: "(f, k, d) \<in> set vmcs12_encodings" and g: "(g, j, e) \<in> set vmcs12_encodings"
  shows "fst (vmcs12_write_any p f v m) = 0"
    and "j \<noteq> k \<Longrightarrow> vmcs12_read_any p g (snd (vmcs12_write_any p f v m)) = vmcs12_read_any p g m"
    and "\<lbrakk>j = k; d \<le> e; e + width_bytes (field_width g) \<le> d + width_bytes (field_width f)\<rbrakk> \<Longrightarrow>
      vmcs12_read_any p g (snd (vmcs12_write_any p f v m)) =
        Inr (take_bit (8 * width_bytes (field_width g)) (drop_bit (8 * (e - d)) v))"
  using access_listed(2) [OF f] access_other_member [OF f g] access_same_member [OF f] g by auto

text \<open>C12. What is written to a listed field is read back cut to the field's width, by the
  field's own encoding and by the encoding of a part of it, and every field that is another
  member keeps its value.\<close>

theorem vmcs12_write_read:
  assumes f: "(f, k, d) \<in> set vmcs12_encodings" and g: "(g, j, e) \<in> set vmcs12_encodings"
  shows "fst (vmcs12_write_any p f v m) = 0 \<and>
    (j \<noteq> k \<longrightarrow> vmcs12_read_any p g (snd (vmcs12_write_any p f v m)) = vmcs12_read_any p g m) \<and>
    (j = k \<and> d \<le> e \<and> e + width_bytes (field_width g) \<le> d + width_bytes (field_width f) \<longrightarrow>
      vmcs12_read_any p g (snd (vmcs12_write_any p f v m)) =
        Inr (take_bit (8 * width_bytes (field_width g)) (drop_bit (8 * (e - d)) v)))"
  using vmcs12_write_read_parts [OF f g] by blast

lemma vmcs12_write_read_witness:
  "let m = snd (vmcs12_write_any 0x1000 GUEST_IA32_PAT 0x0007040600070406 (\<lambda>_. 0)) in
     vmcs12_read_any 0x1000 GUEST_IA32_PAT m = Inr 0x0007040600070406 \<and>
     vmcs12_read_any 0x1000 GUEST_IA32_PAT_HIGH m = Inr 0x00070406 \<and>
     vmcs12_read_any 0x1000 GUEST_RIP m = vmcs12_read_any 0x1000 GUEST_RIP (\<lambda>_. 0)"
proof -
  have f: "(GUEST_IA32_PAT, v12_guest_ia32_pat, 0) \<in> set vmcs12_encodings"
    and h: "(GUEST_IA32_PAT_HIGH, v12_guest_ia32_pat, 4) \<in> set vmcs12_encodings"
    and r: "(GUEST_RIP, v12_guest_rip, 0) \<in> set vmcs12_encodings"
    by (simp_all add: vmcs12_encodings_def)
  have w: "field_width GUEST_IA32_PAT = VMCS_FIELD_WIDTH_U64"
    "field_width GUEST_IA32_PAT_HIGH = VMCS_FIELD_WIDTH_U32"
    by (simp_all add: field_width_def vmcs_fields)
  show ?thesis
    using vmcs12_write_read [OF f f, of "0x1000"] vmcs12_write_read [OF f h, of "0x1000"]
      vmcs12_write_read [OF f r, of "0x1000"]
    by (simp add: Let_def w v12_members take_bit_eq_mask mask_eq_exp_minus_1)
qed

text \<open>A field encoding that is not listed is refused by both accessors with -ENOENT and
  without any change of the struct; a listed one is never refused.\<close>

theorem vmcs12_unlisted_refused:
  "(vmcs12_read_any p f m = Inl (- ENOENT) \<longleftrightarrow> f \<notin> fst ` set vmcs12_encodings) \<and>
   (vmcs12_write_any p f v m = (- ENOENT, m) \<longleftrightarrow> f \<notin> fst ` set vmcs12_encodings)"
proof -
  have "f \<notin> fst ` set vmcs12_encodings \<longleftrightarrow> map_of vmcs12_encodings f = None"
    by (simp add: map_of_eq_None_iff)
  then show ?thesis
    by (auto simp: vmcs12_read_any_def vmcs12_write_any_def offset_spec Let_def errno_defs
        split: option.splits)
qed

section \<open>The documented offsets\<close>

text \<open>The offsets that the comment \<^verbatim>\<open>vmx_check_vmcs12_offsets\<close> fixes for
  save/restore compatibility, in its order.\<close>

definition documented_offsets :: "(nat \<times> nat) list" where
  "documented_offsets =
    [(v12_hdr, 0), (v12_abort, 4), (v12_launch_state, 8), (v12_io_bitmap_a, 40),
     (v12_io_bitmap_b, 48), (v12_msr_bitmap, 56), (v12_vm_exit_msr_store_addr, 64),
     (v12_vm_exit_msr_load_addr, 72), (v12_vm_entry_msr_load_addr, 80), (v12_tsc_offset, 88),
     (v12_virtual_apic_page_addr, 96), (v12_apic_access_addr, 104),
     (v12_posted_intr_desc_addr, 112), (v12_ept_pointer, 120), (v12_eoi_exit_bitmap0, 128),
     (v12_eoi_exit_bitmap1, 136), (v12_eoi_exit_bitmap2, 144), (v12_eoi_exit_bitmap3, 152),
     (v12_xss_exit_bitmap, 160), (v12_guest_physical_address, 168), (v12_vmcs_link_pointer, 176),
     (v12_guest_ia32_debugctl, 184), (v12_guest_ia32_pat, 192), (v12_guest_ia32_efer, 200),
     (v12_guest_ia32_perf_global_ctrl, 208), (v12_guest_pdptr0, 216), (v12_guest_pdptr1, 224),
     (v12_guest_pdptr2, 232), (v12_guest_pdptr3, 240), (v12_guest_bndcfgs, 248),
     (v12_host_ia32_pat, 256), (v12_host_ia32_efer, 264), (v12_host_ia32_perf_global_ctrl, 272),
     (v12_vmread_bitmap, 280), (v12_vmwrite_bitmap, 288), (v12_vm_function_control, 296),
     (v12_eptp_list_address, 304), (v12_pml_address, 312), (v12_cr0_guest_host_mask, 344),
     (v12_cr4_guest_host_mask, 352), (v12_cr0_read_shadow, 360), (v12_cr4_read_shadow, 368),
     (v12_cr3_target_value0, 376), (v12_cr3_target_value1, 384), (v12_cr3_target_value2, 392),
     (v12_cr3_target_value3, 400), (v12_exit_qualification, 408), (v12_guest_linear_address, 416),
     (v12_guest_cr0, 424), (v12_guest_cr3, 432), (v12_guest_cr4, 440), (v12_guest_es_base, 448),
     (v12_guest_cs_base, 456), (v12_guest_ss_base, 464), (v12_guest_ds_base, 472),
     (v12_guest_fs_base, 480), (v12_guest_gs_base, 488), (v12_guest_ldtr_base, 496),
     (v12_guest_tr_base, 504), (v12_guest_gdtr_base, 512), (v12_guest_idtr_base, 520),
     (v12_guest_dr7, 528), (v12_guest_rsp, 536), (v12_guest_rip, 544), (v12_guest_rflags, 552),
     (v12_guest_pending_dbg_exceptions, 560), (v12_guest_sysenter_esp, 568),
     (v12_guest_sysenter_eip, 576), (v12_host_cr0, 584), (v12_host_cr3, 592), (v12_host_cr4, 600),
     (v12_host_fs_base, 608), (v12_host_gs_base, 616), (v12_host_tr_base, 624),
     (v12_host_gdtr_base, 632), (v12_host_idtr_base, 640), (v12_host_ia32_sysenter_esp, 648),
     (v12_host_ia32_sysenter_eip, 656), (v12_host_rsp, 664), (v12_host_rip, 672),
     (v12_pin_based_vm_exec_control, 744), (v12_cpu_based_vm_exec_control, 748),
     (v12_exception_bitmap, 752), (v12_page_fault_error_code_mask, 756),
     (v12_page_fault_error_code_match, 760), (v12_cr3_target_count, 764),
     (v12_vm_exit_controls, 768), (v12_vm_exit_msr_store_count, 772),
     (v12_vm_exit_msr_load_count, 776), (v12_vm_entry_controls, 780),
     (v12_vm_entry_msr_load_count, 784), (v12_vm_entry_intr_info_field, 788),
     (v12_vm_entry_exception_error_code, 792), (v12_vm_entry_instruction_len, 796),
     (v12_tpr_threshold, 800), (v12_secondary_vm_exec_control, 804),
     (v12_vm_instruction_error, 808), (v12_vm_exit_reason, 812), (v12_vm_exit_intr_info, 816),
     (v12_vm_exit_intr_error_code, 820), (v12_idt_vectoring_info_field, 824),
     (v12_idt_vectoring_error_code, 828), (v12_vm_exit_instruction_len, 832),
     (v12_vmx_instruction_info, 836), (v12_guest_es_limit, 840), (v12_guest_cs_limit, 844),
     (v12_guest_ss_limit, 848), (v12_guest_ds_limit, 852), (v12_guest_fs_limit, 856),
     (v12_guest_gs_limit, 860), (v12_guest_ldtr_limit, 864), (v12_guest_tr_limit, 868),
     (v12_guest_gdtr_limit, 872), (v12_guest_idtr_limit, 876), (v12_guest_es_ar_bytes, 880),
     (v12_guest_cs_ar_bytes, 884), (v12_guest_ss_ar_bytes, 888), (v12_guest_ds_ar_bytes, 892),
     (v12_guest_fs_ar_bytes, 896), (v12_guest_gs_ar_bytes, 900), (v12_guest_ldtr_ar_bytes, 904),
     (v12_guest_tr_ar_bytes, 908), (v12_guest_interruptibility_info, 912),
     (v12_guest_activity_state, 916), (v12_guest_sysenter_cs, 920),
     (v12_host_ia32_sysenter_cs, 924), (v12_vmx_preemption_timer_value, 928),
     (v12_virtual_processor_id, 960), (v12_posted_intr_nv, 962), (v12_guest_es_selector, 964),
     (v12_guest_cs_selector, 966), (v12_guest_ss_selector, 968), (v12_guest_ds_selector, 970),
     (v12_guest_fs_selector, 972), (v12_guest_gs_selector, 974), (v12_guest_ldtr_selector, 976),
     (v12_guest_tr_selector, 978), (v12_guest_intr_status, 980), (v12_host_es_selector, 982),
     (v12_host_cs_selector, 984), (v12_host_ss_selector, 986), (v12_host_ds_selector, 988),
     (v12_host_fs_selector, 990), (v12_host_gs_selector, 992), (v12_host_tr_selector, 994),
     (v12_guest_pml_index, 996)]"

lemma map_nth_filter:
  assumes "length xs = n"
  shows "List.map (\<lambda>k. xs ! k) (filter P [0..<n]) = List.map snd (filter (\<lambda>(k, x). P k) (zip [0..<n] xs))"
proof -
  have "zip [0..<n] xs = List.map (\<lambda>k. (k, xs ! k)) [0..<n]"
    using assms by (intro nth_equalityI) simp_all
  then show ?thesis by (simp add: filter_map comp_def)
qed

text \<open>No member but the header lies at its documented offset: abort and launch_state
  are 4 bytes behind it and all others 8, because vmcs_hdr already holds an abort word.\<close>

theorem vmcs12_offsets_drifted:
  "List.map (\<lambda>(k, doc). VMCS12_OFFSET k) documented_offsets =
   List.map (\<lambda>(k, doc). if k = v12_hdr then doc
      else if k = v12_abort \<or> k = v12_launch_state then doc + 4 else doc + 8) documented_offsets"
proof -
  define P where "P k \<longleftrightarrow> k \<notin> {3, 39, 82, 130 :: nat}" for k
  have ks: "List.map fst documented_offsets = filter P [0..<150]"
    by (simp add: documented_offsets_def v12_members P_def upt_rec_numeral upt_rec [of 0] upt_rec [of "Suc 0"] numeral_2_eq_2 [symmetric])
  have "List.map (\<lambda>(k, doc). VMCS12_OFFSET k) documented_offsets
      = List.map (\<lambda>k. layout 0 vmcs12_members ! k) (List.map fst documented_offsets)"
    by (simp add: VMCS12_OFFSET_def split_def comp_def)
  also have "\<dots> = List.map snd (filter (\<lambda>(k, off). P k) (zip [0..<150] (layout 0 vmcs12_members)))"
    unfolding ks by (rule map_nth_filter) (simp add: members_facts(3))
  also have "\<dots> = List.map (\<lambda>(k, doc). if k = v12_hdr then doc
      else if k = v12_abort \<or> k = v12_launch_state then doc + 4 else doc + 8) documented_offsets"
    by (simp add: documented_offsets_def vmcs12_layout v12_members P_def upt_rec_numeral upt_rec [of 0]
        upt_rec [of "Suc 0"] numeral_2_eq_2 [symmetric])
  finally show ?thesis .
qed

end
