(* ===== verification/Vcpu.thy ===== *)
theory Vcpu
  imports Ept Vmcs12 Math_Util
begin

text \<open>
  The virtual processor of the hypervisor: \<^verbatim>\<open>struct vmx_vcpu\<close> of
  \<^verbatim>\<open>arch/x86_64/include/vmx.h\<close> with the guest's registers, the physical processor as far as
  \<^verbatim>\<open>kvm/vmx\<close> drives it (control registers, model-specific registers, the VMX instructions and
  the VMCS regions they work on), and the register accessors of \<^verbatim>\<open>kvm/vmx/vmx.c\<close>.

  A VMCS region is known by its physical address and holds one value per field encoding. The
  current VMCS is an address, all ones while there is none, as \<^verbatim>\<open>vmptrst\<close> reports it. Pages
  that hold a software VMCS live in the byte memory of theory \<^verbatim>\<open>Vmcs12\<close>, since the code only
  reaches them through that struct; page tables and all other guest memory are the kernel memory of
  theory \<^verbatim>\<open>Paging\<close>. Instructions without an effect on this state are recorded in the order they are
  executed.
\<close>

named_theorems vmx_consts "constants of the VMX code"

section \<open>Constants\<close>

definition CPU_BASED_TPR_SHADOW :: u64 where [vmx_consts]: "CPU_BASED_TPR_SHADOW = 0x200000"
definition CPU_BASED_UNCOND_IO_EXITING :: u64 where [vmx_consts]: "CPU_BASED_UNCOND_IO_EXITING = 0x1000000"
definition CPU_BASED_USE_IO_BITMAPS :: u64 where [vmx_consts]: "CPU_BASED_USE_IO_BITMAPS = 0x2000000"
definition CPU_BASED_USE_MSR_BITMAPS :: u64 where [vmx_consts]: "CPU_BASED_USE_MSR_BITMAPS = 0x10000000"
definition CPU_BASED_ACTIVATE_SECONDARY_CONTROLS :: u64 where [vmx_consts]: "CPU_BASED_ACTIVATE_SECONDARY_CONTROLS = 0x80000000"
definition CPU_BASED_FIXED_ONES :: u64 where [vmx_consts]: "CPU_BASED_FIXED_ONES = 0x4006172"
definition SECONDARY_EXEC_VIRTUALIZE_APIC_ACCESSES :: u64 where [vmx_consts]: "SECONDARY_EXEC_VIRTUALIZE_APIC_ACCESSES = 0x1"
definition SECONDARY_EXEC_ENABLE_EPT :: u64 where [vmx_consts]: "SECONDARY_EXEC_ENABLE_EPT = 0x2"
definition SECONDARY_EXEC_ENABLE_VPID :: u64 where [vmx_consts]: "SECONDARY_EXEC_ENABLE_VPID = 0x20"
definition SECONDARY_EXEC_UNRESTRICTED_GUEST :: u64 where [vmx_consts]: "SECONDARY_EXEC_UNRESTRICTED_GUEST = 0x80"
definition SECONDARY_EXEC_APIC_REGISTER_VIRT :: u64 where [vmx_consts]: "SECONDARY_EXEC_APIC_REGISTER_VIRT = 0x100"
definition SECONDARY_EXEC_VIRTUAL_INTR_DELIVERY :: u64 where [vmx_consts]: "SECONDARY_EXEC_VIRTUAL_INTR_DELIVERY = 0x200"
definition SECONDARY_EXEC_SHADOW_VMCS :: u64 where [vmx_consts]: "SECONDARY_EXEC_SHADOW_VMCS = 0x4000"
definition PIN_BASED_EXT_INTR_MASK :: u64 where [vmx_consts]: "PIN_BASED_EXT_INTR_MASK = 0x1"
definition PIN_BASED_POSTED_INTR :: u64 where [vmx_consts]: "PIN_BASED_POSTED_INTR = 0x80"
definition PIN_BASED_ALWAYSON_WITHOUT_TRUE_MSR :: u64 where [vmx_consts]: "PIN_BASED_ALWAYSON_WITHOUT_TRUE_MSR = 0x16"
definition VM_EXIT_HOST_ADDR_SPACE_SIZE :: u64 where [vmx_consts]: "VM_EXIT_HOST_ADDR_SPACE_SIZE = 0x200"
definition VM_EXIT_ACK_INTR_ON_EXIT :: u64 where [vmx_consts]: "VM_EXIT_ACK_INTR_ON_EXIT = 0x8000"
definition VM_EXIT_SAVE_IA32_EFER :: u64 where [vmx_consts]: "VM_EXIT_SAVE_IA32_EFER = 0x100000"
definition VM_EXIT_LOAD_IA32_EFER :: u64 where [vmx_consts]: "VM_EXIT_LOAD_IA32_EFER = 0x200000"
definition VM_EXIT_ALWAYSON_WITHOUT_TRUE_MSR :: u64 where [vmx_consts]: "VM_EXIT_ALWAYSON_WITHOUT_TRUE_MSR = 0x36dff"
definition VM_ENTRY_IA32E_MODE :: u64 where [vmx_consts]: "VM_ENTRY_IA32E_MODE = 0x200"
definition VM_ENTRY_LOAD_IA32_EFER :: u64 where [vmx_consts]: "VM_ENTRY_LOAD_IA32_EFER = 0x8000"
definition VM_ENTRY_ALWAYSON_WITHOUT_TRUE_MSR :: u64 where [vmx_consts]: "VM_ENTRY_ALWAYSON_WITHOUT_TRUE_MSR = 0x11ff"
definition VMX_AR_TYPE_ACCESSES_MASK :: u64 where [vmx_consts]: "VMX_AR_TYPE_ACCESSES_MASK = 1"
definition VMX_AR_TYPE_READABLE_CODE_MASK :: u64 where [vmx_consts]: "VMX_AR_TYPE_READABLE_CODE_MASK = push_bit 1 1"
definition VMX_AR_TYPE_WRITABLE_DATA_MASK :: u64 where [vmx_consts]: "VMX_AR_TYPE_WRITABLE_DATA_MASK = push_bit 1 1"
definition VMX_AR_TYPE_CODE_MASK :: u64 where [vmx_consts]: "VMX_AR_TYPE_CODE_MASK = push_bit 3 1"
definition VMX_AR_TYPE_BUSY_64_TSS :: u64 where [vmx_consts]: "VMX_AR_TYPE_BUSY_64_TSS = 11"
definition VMX_AR_TYPE_BUSY_16_TSS :: u64 where [vmx_consts]: "VMX_AR_TYPE_BUSY_16_TSS = 3"
definition VMX_AR_UNUSABLE_MASK :: u64 where [vmx_consts]: "VMX_AR_UNUSABLE_MASK = push_bit 16 1"
definition VMX_AR_S_MASK :: u64 where [vmx_consts]: "VMX_AR_S_MASK = push_bit 4 1"
definition VMX_AR_P_MASK :: u64 where [vmx_consts]: "VMX_AR_P_MASK = push_bit 7 1"
definition EXIT_REASON_EXCEPTION_NMI :: u64 where [vmx_consts]: "EXIT_REASON_EXCEPTION_NMI = 0"
definition EXIT_REASON_EXTERNAL_INTERRUPT :: u64 where [vmx_consts]: "EXIT_REASON_EXTERNAL_INTERRUPT = 1"
definition EXIT_REASON_TRIPLE_FAULT :: u64 where [vmx_consts]: "EXIT_REASON_TRIPLE_FAULT = 2"
definition EXIT_REASON_PENDING_INTERRUPT :: u64 where [vmx_consts]: "EXIT_REASON_PENDING_INTERRUPT = 7"
definition EXIT_REASON_NMI_WINDOW :: u64 where [vmx_consts]: "EXIT_REASON_NMI_WINDOW = 8"
definition EXIT_REASON_TASK_SWITCH :: u64 where [vmx_consts]: "EXIT_REASON_TASK_SWITCH = 9"
definition EXIT_REASON_CPUID :: u64 where [vmx_consts]: "EXIT_REASON_CPUID = 10"
definition EXIT_REASON_HLT :: u64 where [vmx_consts]: "EXIT_REASON_HLT = 12"
definition EXIT_REASON_INVD :: u64 where [vmx_consts]: "EXIT_REASON_INVD = 13"
definition EXIT_REASON_INVLPG :: u64 where [vmx_consts]: "EXIT_REASON_INVLPG = 14"
definition EXIT_REASON_RDPMC :: u64 where [vmx_consts]: "EXIT_REASON_RDPMC = 15"
definition EXIT_REASON_RDTSC :: u64 where [vmx_consts]: "EXIT_REASON_RDTSC = 16"
definition EXIT_REASON_VMCALL :: u64 where [vmx_consts]: "EXIT_REASON_VMCALL = 18"
definition EXIT_REASON_VMCLEAR :: u64 where [vmx_consts]: "EXIT_REASON_VMCLEAR = 19"
definition EXIT_REASON_VMLAUNCH :: u64 where [vmx_consts]: "EXIT_REASON_VMLAUNCH = 20"
definition EXIT_REASON_VMPTRLD :: u64 where [vmx_consts]: "EXIT_REASON_VMPTRLD = 21"
definition EXIT_REASON_VMPTRST :: u64 where [vmx_consts]: "EXIT_REASON_VMPTRST = 22"
definition EXIT_REASON_VMREAD :: u64 where [vmx_consts]: "EXIT_REASON_VMREAD = 23"
definition EXIT_REASON_VMRESUME :: u64 where [vmx_consts]: "EXIT_REASON_VMRESUME = 24"
definition EXIT_REASON_VMWRITE :: u64 where [vmx_consts]: "EXIT_REASON_VMWRITE = 25"
definition EXIT_REASON_VMOFF :: u64 where [vmx_consts]: "EXIT_REASON_VMOFF = 26"
definition EXIT_REASON_VMON :: u64 where [vmx_consts]: "EXIT_REASON_VMON = 27"
definition EXIT_REASON_CR_ACCESS :: u64 where [vmx_consts]: "EXIT_REASON_CR_ACCESS = 28"
definition EXIT_REASON_DR_ACCESS :: u64 where [vmx_consts]: "EXIT_REASON_DR_ACCESS = 29"
definition EXIT_REASON_IO_INSTRUCTION :: u64 where [vmx_consts]: "EXIT_REASON_IO_INSTRUCTION = 30"
definition EXIT_REASON_MSR_READ :: u64 where [vmx_consts]: "EXIT_REASON_MSR_READ = 31"
definition EXIT_REASON_MSR_WRITE :: u64 where [vmx_consts]: "EXIT_REASON_MSR_WRITE = 32"
definition EXIT_REASON_INVALID_STATE :: u64 where [vmx_consts]: "EXIT_REASON_INVALID_STATE = 33"
definition EXIT_REASON_MSR_LOAD_FAIL :: u64 where [vmx_consts]: "EXIT_REASON_MSR_LOAD_FAIL = 34"
definition EXIT_REASON_MWAIT_INSTRUCTION :: u64 where [vmx_consts]: "EXIT_REASON_MWAIT_INSTRUCTION = 36"
definition EXIT_REASON_MONITOR_TRAP_FLAG :: u64 where [vmx_consts]: "EXIT_REASON_MONITOR_TRAP_FLAG = 37"
definition EXIT_REASON_MONITOR_INSTRUCTION :: u64 where [vmx_consts]: "EXIT_REASON_MONITOR_INSTRUCTION = 39"
definition EXIT_REASON_PAUSE_INSTRUCTION :: u64 where [vmx_consts]: "EXIT_REASON_PAUSE_INSTRUCTION = 40"
definition EXIT_REASON_MCE_DURING_VMENTRY :: u64 where [vmx_consts]: "EXIT_REASON_MCE_DURING_VMENTRY = 41"
definition EXIT_REASON_TPR_BELOW_THRESHOLD :: u64 where [vmx_consts]: "EXIT_REASON_TPR_BELOW_THRESHOLD = 43"
definition EXIT_REASON_APIC_ACCESS :: u64 where [vmx_consts]: "EXIT_REASON_APIC_ACCESS = 44"
definition EXIT_REASON_EOI_INDUCED :: u64 where [vmx_consts]: "EXIT_REASON_EOI_INDUCED = 45"
definition EXIT_REASON_GDTR_IDTR :: u64 where [vmx_consts]: "EXIT_REASON_GDTR_IDTR = 46"
definition EXIT_REASON_LDTR_TR :: u64 where [vmx_consts]: "EXIT_REASON_LDTR_TR = 47"
definition EXIT_REASON_EPT_VIOLATION :: u64 where [vmx_consts]: "EXIT_REASON_EPT_VIOLATION = 48"
definition EXIT_REASON_EPT_MISCONFIG :: u64 where [vmx_consts]: "EXIT_REASON_EPT_MISCONFIG = 49"
definition EXIT_REASON_INVEPT :: u64 where [vmx_consts]: "EXIT_REASON_INVEPT = 50"
definition EXIT_REASON_RDTSCP :: u64 where [vmx_consts]: "EXIT_REASON_RDTSCP = 51"
definition EXIT_REASON_PREEMPTION_TIMER :: u64 where [vmx_consts]: "EXIT_REASON_PREEMPTION_TIMER = 52"
definition EXIT_REASON_INVVPID :: u64 where [vmx_consts]: "EXIT_REASON_INVVPID = 53"
definition EXIT_REASON_WBINVD :: u64 where [vmx_consts]: "EXIT_REASON_WBINVD = 54"
definition EXIT_REASON_XSETBV :: u64 where [vmx_consts]: "EXIT_REASON_XSETBV = 55"
definition EXIT_REASON_APIC_WRITE :: u64 where [vmx_consts]: "EXIT_REASON_APIC_WRITE = 56"
definition EXIT_REASON_RDRAND :: u64 where [vmx_consts]: "EXIT_REASON_RDRAND = 57"
definition EXIT_REASON_INVPCID :: u64 where [vmx_consts]: "EXIT_REASON_INVPCID = 58"
definition EXIT_REASON_VMFUNC :: u64 where [vmx_consts]: "EXIT_REASON_VMFUNC = 59"
definition EXIT_REASON_ENCLS :: u64 where [vmx_consts]: "EXIT_REASON_ENCLS = 60"
definition EXIT_REASON_RDSEED :: u64 where [vmx_consts]: "EXIT_REASON_RDSEED = 61"
definition EXIT_REASON_PML_FULL :: u64 where [vmx_consts]: "EXIT_REASON_PML_FULL = 62"
definition EXIT_REASON_XSAVES :: u64 where [vmx_consts]: "EXIT_REASON_XSAVES = 63"
definition EXIT_REASON_XRSTORS :: u64 where [vmx_consts]: "EXIT_REASON_XRSTORS = 64"
definition CR0_PE :: u64 where [vmx_consts]: "CR0_PE = push_bit 0 1"
definition CR0_MP :: u64 where [vmx_consts]: "CR0_MP = push_bit 1 1"
definition CR0_EM :: u64 where [vmx_consts]: "CR0_EM = push_bit 2 1"
definition CR0_NE :: u64 where [vmx_consts]: "CR0_NE = push_bit 5 1"
definition CR0_PG :: u64 where [vmx_consts]: "CR0_PG = push_bit 31 1"
definition CR4_PAE :: u64 where [vmx_consts]: "CR4_PAE = push_bit 5 1"
definition CR4_VMXE :: u64 where [vmx_consts]: "CR4_VMXE = push_bit 13 1"
definition CR4_OSXSAVE :: u64 where [vmx_consts]: "CR4_OSXSAVE = push_bit 18 1"
definition MSR_EFER :: u64 where [vmx_consts]: "MSR_EFER = 0xc0000080"
definition MSR_FS_BASE :: u64 where [vmx_consts]: "MSR_FS_BASE = 0xc0000100"
definition MSR_GS_BASE :: u64 where [vmx_consts]: "MSR_GS_BASE = 0xc0000101"
definition MSR_IA32_SYSENTER_CS :: u64 where [vmx_consts]: "MSR_IA32_SYSENTER_CS = 0x174"
definition MSR_IA32_SYSENTER_ESP :: u64 where [vmx_consts]: "MSR_IA32_SYSENTER_ESP = 0x175"
definition MSR_IA32_SYSENTER_EIP :: u64 where [vmx_consts]: "MSR_IA32_SYSENTER_EIP = 0x176"
definition MSR_IA32_CR_PAT :: u64 where [vmx_consts]: "MSR_IA32_CR_PAT = 0x277"
definition MSR_IA32_FEATURE_CONTROL :: u64 where [vmx_consts]: "MSR_IA32_FEATURE_CONTROL = 0x3a"
definition FEATURE_CONTROL_LOCKED :: u64 where [vmx_consts]: "FEATURE_CONTROL_LOCKED = push_bit 0 1"
definition FEATURE_CONTROL_VMXON_ENABLED_INSIDE_SMX :: u64 where [vmx_consts]: "FEATURE_CONTROL_VMXON_ENABLED_INSIDE_SMX = push_bit 1 1"
definition FEATURE_CONTROL_VMXON_ENABLED_OUTSIDE_SMX :: u64 where [vmx_consts]: "FEATURE_CONTROL_VMXON_ENABLED_OUTSIDE_SMX = push_bit 2 1"
definition MSR_IA32_PERF_CTL :: u64 where [vmx_consts]: "MSR_IA32_PERF_CTL = 0x199"
definition MSR_IA32_VMX_BASIC :: u64 where [vmx_consts]: "MSR_IA32_VMX_BASIC = 0x480"
definition MSR_IA32_VMX_PINBASED_CTLS :: u64 where [vmx_consts]: "MSR_IA32_VMX_PINBASED_CTLS = 0x481"
definition MSR_IA32_VMX_PROCBASED_CTLS :: u64 where [vmx_consts]: "MSR_IA32_VMX_PROCBASED_CTLS = 0x482"
definition MSR_IA32_VMX_EXIT_CTLS :: u64 where [vmx_consts]: "MSR_IA32_VMX_EXIT_CTLS = 0x483"
definition MSR_IA32_VMX_ENTRY_CTLS :: u64 where [vmx_consts]: "MSR_IA32_VMX_ENTRY_CTLS = 0x484"
definition MSR_IA32_VMX_CR0_FIXED0 :: u64 where [vmx_consts]: "MSR_IA32_VMX_CR0_FIXED0 = 0x486"
definition MSR_IA32_VMX_CR0_FIXED1 :: u64 where [vmx_consts]: "MSR_IA32_VMX_CR0_FIXED1 = 0x487"
definition MSR_IA32_VMX_CR4_FIXED0 :: u64 where [vmx_consts]: "MSR_IA32_VMX_CR4_FIXED0 = 0x488"
definition MSR_IA32_VMX_CR4_FIXED1 :: u64 where [vmx_consts]: "MSR_IA32_VMX_CR4_FIXED1 = 0x489"
definition MSR_IA32_VMX_PROCBASED_CTLS2 :: u64 where [vmx_consts]: "MSR_IA32_VMX_PROCBASED_CTLS2 = 0x48b"
definition CPUID_FEATURES_ECX_VMX :: u64 where [vmx_consts]: "CPUID_FEATURES_ECX_VMX = push_bit 5 1"
definition XCR0_X87 :: u64 where [vmx_consts]: "XCR0_X87 = push_bit 0 1"

section \<open>The processor\<close>

record general_regs =
  r_rax :: u64
  r_rbx :: u64
  r_rcx :: u64
  r_rdx :: u64
  r_rsi :: u64
  r_rdi :: u64
  r_rsp :: u64
  r_rbp :: u64
  r_r8 :: u64
  r_r9 :: u64
  r_r10 :: u64
  r_r11 :: u64
  r_r12 :: u64
  r_r13 :: u64
  r_r14 :: u64
  r_r15 :: u64

text \<open>\<^verbatim>\<open>c_vmwrite_ok\<close> and \<^verbatim>\<open>c_cpuid\<close> say which fields this processor's
  \<^verbatim>\<open>vmwrite\<close> accepts and what \<^verbatim>\<open>cpuid\<close> answers.\<close>

record cpu =
  c_cr0 :: u64
  c_cr2 :: u64
  c_cr3 :: u64
  c_cr4 :: u64
  c_cr8 :: u64
  c_xcr0 :: u64
  c_msr :: "u64 \<Rightarrow> u64"
  c_gdtr_base :: u64
  c_idtr_base :: u64
  c_cs :: u64
  c_ds :: u64
  c_es :: u64
  c_fs :: u64
  c_gs :: u64
  c_ss :: u64
  c_tr :: u64
  c_rsp :: u64
  c_vm_exit :: u64
  c_cpuid :: "u32 \<Rightarrow> u32 \<Rightarrow> u32 \<times> u32 \<times> u32 \<times> u32"
  c_vmwrite_ok :: "u64 \<Rightarrow> bool"

datatype vmx_event =
    VmxOn u64 | XSave u64 u64 | XRstor u64 u64 | SoftIrq u8 | Sti

section \<open>The virtual processor\<close>

record segment =
  s_selector :: u64
  s_base :: u64
  s_limit :: u64
  s_ar_bytes :: u64

record guest_memory_zone =
  z_gpa :: u64
  z_hpa :: u64
  z_page_nr :: u64

record guest_state =
  g_rip :: u64
  g_rflags :: u64
  g_regs :: general_regs
  g_fp_regs :: u64
  g_cs :: segment
  g_ds :: segment
  g_es :: segment
  g_fs :: segment
  g_gs :: segment
  g_ss :: segment
  g_tr :: segment
  g_ldtr :: segment
  g_cr0 :: u64
  g_cr2 :: u64
  g_cr3 :: u64
  g_cr4 :: u64
  g_cr8 :: u64
  g_xcr0 :: u64
  g_cr0_read_shadow :: u64
  g_cr4_read_shadow :: u64
  g_gdtr_base :: u64
  g_gdtr_limit :: u16
  g_idtr_base :: u64
  g_idtr_limit :: u16
  g_msr :: u64
  g_pdpte0 :: u64
  g_pdpte1 :: u64
  g_pdpte2 :: u64
  g_pdpte3 :: u64

text \<open>The members of \<^verbatim>\<open>struct vmx_vcpu\<close>, pointers as addresses, and behind them the
  processor: the VMCS regions, their launch states, the current VMCS pointer and the memories.\<close>

record vmx =
  v_state :: u64
  v_guest_mode :: u64
  v_virtual_processor_id :: u64
  v_vmxon_region :: u64
  v_vmcs01 :: u64
  v_vmcs12 :: u64
  v_vmcs02 :: u64
  v_shadow_vmcs :: u64
  v_shadow_vmcs_enabled :: bool
  v_vmread_bitmap :: u64
  v_vmwrite_bitmap :: u64
  v_io_bitmap_a :: u64
  v_io_bitmap_b :: u64
  v_vapic_page :: u64
  v_msr_bitmap :: u64
  v_eptp_base :: u64
  v_posted_intr_addr :: u64
  v_host_fp_regs :: u64
  v_host_xcr0 :: u64
  v_host_msr :: u64
  v_guest :: guest_state
  v_guest_memory :: "guest_memory_zone list"
  v_cpu :: cpu
  v_vmcs :: "u64 \<Rightarrow> u64 \<Rightarrow> u64"
  v_launched :: "u64 \<Rightarrow> bool"
  v_cur :: u64
  v_km :: kmem
  v_bytes :: bmem
  v_events :: "vmx_event list"
  v_junk :: u64
  v_beyond :: "nat \<Rightarrow> u64"

text \<open>\<^verbatim>\<open>v_junk\<close> is what an uninitialised local variable holds and \<^verbatim>\<open>v_beyond\<close> what
  lies behind the end of an array that the code indexes out of bounds.\<close>

abbreviation set_g :: "(guest_state \<Rightarrow> guest_state) \<Rightarrow> vmx \<Rightarrow> vmx" where
  "set_g \<equiv> v_guest_update"

abbreviation set_regs :: "(general_regs \<Rightarrow> general_regs) \<Rightarrow> vmx \<Rightarrow> vmx" where
  "set_regs f \<equiv> v_guest_update (g_regs_update f)"

definition emit :: "vmx_event \<Rightarrow> vmx \<Rightarrow> vmx" where
  "emit e s = s\<lparr>v_events := v_events s @ [e]\<rparr>"

definition rdmsr :: "u64 \<Rightarrow> vmx \<Rightarrow> u64" where
  "rdmsr i s = c_msr (v_cpu s) i"

definition wrmsr :: "u64 \<Rightarrow> u64 \<Rightarrow> vmx \<Rightarrow> vmx" where
  "wrmsr i v s = v_cpu_update (c_msr_update (\<lambda>m. m(i := v))) s"

section \<open>VMX instructions\<close>

text \<open>An address that is not page aligned makes \<^verbatim>\<open>vmptrld\<close> and \<^verbatim>\<open>vmclear\<close> fail
  without an effect; nothing reads the flags afterwards. So does a \<^verbatim>\<open>vmwrite\<close> without a current
  VMCS or of a field the processor does not let it write. A value is cut to the field's width.\<close>

definition NO_VMCS :: u64 where "NO_VMCS = 0xffffffffffffffff"

definition vmptr_load :: "u64 \<Rightarrow> vmx \<Rightarrow> vmx" where
  "vmptr_load paddr s = (if paddr AND 0xfff \<noteq> 0 then s else s\<lparr>v_cur := paddr\<rparr>)"

definition vmptr_store :: "vmx \<Rightarrow> u64" where
  "vmptr_store s = v_cur s"

definition vmclear :: "u64 \<Rightarrow> vmx \<Rightarrow> vmx" where
  "vmclear paddr s =
     (if paddr AND 0xfff \<noteq> 0 then s
      else s\<lparr>v_launched := (v_launched s)(paddr := False),
             v_cur := if v_cur s = paddr then NO_VMCS else v_cur s\<rparr>)"

definition vmcs_read :: "u64 \<Rightarrow> vmx \<Rightarrow> u64" where
  "vmcs_read field s = v_vmcs s (v_cur s) field"

definition cut :: "u64 \<Rightarrow> u64 \<Rightarrow> u64" where
  "cut field v = take_bit (8 * width_bytes (field_width field)) v"

definition vmcs_write :: "u64 \<Rightarrow> u64 \<Rightarrow> vmx \<Rightarrow> vmx" where
  "vmcs_write field v s =
     (if v_cur s = NO_VMCS \<or> \<not> c_vmwrite_ok (v_cpu s) field then s
      else s\<lparr>v_vmcs := (v_vmcs s)(v_cur s := (v_vmcs s (v_cur s))(field := cut field v))\<rparr>)"

text \<open>A sequence of writes whose values do not depend on each other.\<close>

definition vmcs_writes :: "(u64 \<times> u64) list \<Rightarrow> vmx \<Rightarrow> vmx" where
  "vmcs_writes ws = fold (\<lambda>(field, v). vmcs_write field v) ws"

section \<open>Registers by number\<close>

text \<open>Callers mask the number to four bits; for other numbers the C function has no return
  value and neither has the list access.\<close>

definition kvm_reg_read :: "nat \<Rightarrow> vmx \<Rightarrow> u64" where
  "kvm_reg_read index s = (let r = g_regs (v_guest s) in
     [r_rax r, r_rcx r, r_rdx r, r_rbx r, r_rsp r, r_rbp r, r_rsi r, r_rdi r,
      r_r8 r, r_r9 r, r_r10 r, r_r11 r, r_r12 r, r_r13 r, r_r14 r, r_r15 r] ! index)"

definition kvm_reg_write :: "nat \<Rightarrow> u64 \<Rightarrow> vmx \<Rightarrow> vmx" where
  "kvm_reg_write index v =
     (if index = 0 then set_regs (r_rax_update (\<lambda>_. v))
      else if index = 1 then set_regs (r_rcx_update (\<lambda>_. v))
      else if index = 2 then set_regs (r_rdx_update (\<lambda>_. v))
      else if index = 3 then set_regs (r_rbx_update (\<lambda>_. v))
      else if index = 4 then set_regs (r_rsp_update (\<lambda>_. v))
      else if index = 5 then set_regs (r_rbp_update (\<lambda>_. v))
      else if index = 6 then set_regs (r_rsi_update (\<lambda>_. v))
      else if index = 7 then set_regs (r_rdi_update (\<lambda>_. v))
      else if index = 8 then set_regs (r_r8_update (\<lambda>_. v))
      else if index = 9 then set_regs (r_r9_update (\<lambda>_. v))
      else if index = 10 then set_regs (r_r10_update (\<lambda>_. v))
      else if index = 11 then set_regs (r_r11_update (\<lambda>_. v))
      else if index = 12 then set_regs (r_r12_update (\<lambda>_. v))
      else if index = 13 then set_regs (r_r13_update (\<lambda>_. v))
      else if index = 14 then set_regs (r_r14_update (\<lambda>_. v))
      else if index = 15 then set_regs (r_r15_update (\<lambda>_. v))
      else (\<lambda>s. s))"

section \<open>Memory\<close>

text \<open>\<^verbatim>\<open>kmalloc\<close> of a page, with and without the \<^verbatim>\<open>memset\<close> that follows it in most
  places.\<close>

definition vm_kmalloc_page :: "vmx \<Rightarrow> (u64 \<times> vmx) option" where
  "vm_kmalloc_page s = do {
     (virt, b) \<leftarrow> kmalloc 0x1000 0 (km_boot (v_km s));
     Some (virt, v_km_update (km_boot_update (\<lambda>_. b)) s)
   }"

definition vm_zalloc_page :: "vmx \<Rightarrow> (u64 \<times> vmx) option" where
  "vm_zalloc_page s = do {
     (virt, km) \<leftarrow> alloc_zeroed_page (v_km s);
     Some (virt, s\<lparr>v_km := km\<rparr>)
   }"

text \<open>The page of a software VMCS: \<^verbatim>\<open>kmalloc\<close>, then \<^verbatim>\<open>memset\<close> of the bytes.\<close>

definition vm_zalloc_bytes :: "vmx \<Rightarrow> (u64 \<times> vmx) option" where
  "vm_zalloc_bytes s = do {
     (virt, s) \<leftarrow> vm_kmalloc_page s;
     if virt = 0 then None
     else Some (virt, s\<lparr>v_bytes := (\<lambda>a. if a - virt < 0x1000 then 0 else v_bytes s a)\<rparr>)
   }"

text \<open>A 64-bit word through a pointer into guest memory.\<close>

definition read_u64 :: "u64 \<Rightarrow> vmx \<Rightarrow> u64" where
  "read_u64 p s = read_pg p 0 (v_km s)"

definition write_u64 :: "u64 \<Rightarrow> u64 \<Rightarrow> vmx \<Rightarrow> vmx" where
  "write_u64 p v s = s\<lparr>v_km := write_pg p 0 v (v_km s)\<rparr>"

text \<open>Translation with the virtual processor's own tables.\<close>

abbreviation gpa_to_hpa :: "u64 \<Rightarrow> vmx \<Rightarrow> int + u64" where
  "gpa_to_hpa gpa s \<equiv> ept_gpa_to_hpa (v_eptp_base s) gpa (v_km s)"

abbreviation gva_to_gpa :: "u64 \<Rightarrow> vmx \<Rightarrow> int + u64" where
  "gva_to_gpa gva s \<equiv> paging64_gva_to_gpa (v_eptp_base s) (g_cr3 (v_guest s)) gva (v_km s)"

end
