(* ===== verification/Nested.thy ===== *)
theory Nested
  imports Vcpu
begin

text \<open>
  Nested virtualisation, \<^verbatim>\<open>kvm/vmx/nested.c\<close>: the exits of a guest hypervisor (L1) for its
  VMX instructions, the construction of the VMCS its own guest (L2) runs on, the return to L1, and
  the copies between the software VMCS and the shadow VMCS. A handler gives the C function's
  result and the state; \<^verbatim>\<open>None\<close> is a run that does not return (\<^verbatim>\<open>kmalloc\<close> hangs when memory is
  used up) or faults.
\<close>

section \<open>Operands\<close>

definition decode_mem_address :: "u64 \<Rightarrow> u32 \<Rightarrow> vmx \<Rightarrow> u64" where
  "decode_mem_address exit_qualification info s =
     (let scaling = unat (info AND 3);
          addr_size = drop_bit 7 info AND 7;
          index_reg = unat (drop_bit 18 info AND 0xf);
          index_is_valid = (info AND push_bit 22 1 = 0);
          base_reg = unat (drop_bit 23 info AND 0xf);
          base_is_valid = (info AND push_bit 27 1 = 0);
          off = exit_qualification;
          off = (if addr_size = 1 then sign_extend64 off 31
                 else if addr_size = 0 then sign_extend64 off 15 else off);
          off = (if base_is_valid then off + kvm_reg_read base_reg s else off);
          off = (if index_is_valid then off + push_bit scaling (kvm_reg_read index_reg s) else off)
      in off)"

text \<open>The beginning of the handlers with a memory operand: the host-physical address of the
  operand, or the error of one of the two translations.\<close>

definition mem_operand :: "vmx \<Rightarrow> int + u64" where
  "mem_operand s =
     (let instruction_info = ucast (vmcs_read VMX_INSTRUCTION_INFO s);
          exit_qualification = vmcs_read EXIT_QUALIFICATION s;
          gva = decode_mem_address exit_qualification instruction_info s
      in case gva_to_gpa gva s of Inl e \<Rightarrow> Inl e | Inr gpa \<Rightarrow> gpa_to_hpa gpa s)"

definition advance_rip :: "vmx \<Rightarrow> vmx" where
  "advance_rip s = set_g (g_rip_update (\<lambda>r. r + vmcs_read VM_EXIT_INSTRUCTION_LEN s)) s"

section \<open>Fields\<close>

definition vmcs_16bit_ctrl_fields :: "u64 list" where
  "vmcs_16bit_ctrl_fields =
    [VIRTUAL_PROCESSOR_ID, POSTED_INTR_NV, EPTP_INDEX]"

definition vmcs_16bit_guest_state_fields :: "u64 list" where
  "vmcs_16bit_guest_state_fields =
    [GUEST_ES_SELECTOR, GUEST_CS_SELECTOR, GUEST_SS_SELECTOR, GUEST_DS_SELECTOR,
     GUEST_FS_SELECTOR, GUEST_GS_SELECTOR, GUEST_LDTR_SELECTOR, GUEST_TR_SELECTOR,
     GUEST_INTR_STATUS, GUEST_PML_INDEX]"

definition vmcs_16bit_host_state_fields :: "u64 list" where
  "vmcs_16bit_host_state_fields =
    [HOST_ES_SELECTOR, HOST_CS_SELECTOR, HOST_SS_SELECTOR, HOST_DS_SELECTOR, HOST_FS_SELECTOR,
     HOST_GS_SELECTOR, HOST_TR_SELECTOR]"

definition vmcs_64bit_ctrl_fields :: "u64 list" where
  "vmcs_64bit_ctrl_fields =
    [IO_BITMAP_A, IO_BITMAP_B, MSR_BITMAP, VM_EXIT_MSR_STORE_ADDR, VM_EXIT_MSR_LOAD_ADDR,
     VM_ENTRY_MSR_LOAD_ADDR, PML_ADDRESS, TSC_OFFSET, VIRTUAL_APIC_PAGE_ADDR, APIC_ACCESS_ADDR,
     POSTED_INTR_DESC_ADDR, VM_FUNCTION_CONTROL, EPT_POINTER, EOI_EXIT_BITMAP0,
     EOI_EXIT_BITMAP1, EOI_EXIT_BITMAP2, EOI_EXIT_BITMAP3, EPTP_LIST_ADDRESS, VMREAD_BITMAP,
     VMWRITE_BITMAP, XSS_EXIT_BITMAP, ENCLS_EXITING_BITMAP, TSC_MULTIPLIER]"

definition vmcs_64bit_readonly_fields :: "u64 list" where
  "vmcs_64bit_readonly_fields =
    [GUEST_PHYSICAL_ADDRESS]"

definition vmcs_64bit_guest_state_fields :: "u64 list" where
  "vmcs_64bit_guest_state_fields =
    [VMCS_LINK_POINTER, GUEST_IA32_DEBUGCTL, GUEST_IA32_PAT, GUEST_IA32_EFER,
     GUEST_IA32_PERF_GLOBAL_CTRL, GUEST_PDPTR0, GUEST_PDPTR1, GUEST_PDPTR2, GUEST_PDPTR3,
     GUEST_BNDCFGS]"

definition vmcs_64bit_host_state_fields :: "u64 list" where
  "vmcs_64bit_host_state_fields =
    [HOST_IA32_PAT, HOST_IA32_PAT_HIGH, HOST_IA32_EFER, HOST_IA32_EFER_HIGH,
     HOST_IA32_PERF_GLOBAL_CTRL, HOST_IA32_PERF_GLOBAL_CTRL_HIGH]"

definition vmcs_32bit_ctrl_fields :: "u64 list" where
  "vmcs_32bit_ctrl_fields =
    [PIN_BASED_VM_EXEC_CONTROL, CPU_BASED_VM_EXEC_CONTROL, EXCEPTION_BITMAP,
     PAGE_FAULT_ERROR_CODE_MASK, PAGE_FAULT_ERROR_CODE_MATCH, CR3_TARGET_COUNT,
     VM_EXIT_CONTROLS, VM_EXIT_MSR_STORE_COUNT, VM_EXIT_MSR_LOAD_COUNT, VM_ENTRY_CONTROLS,
     VM_ENTRY_MSR_LOAD_COUNT, VM_ENTRY_INTR_INFO_FIELD, VM_ENTRY_EXCEPTION_ERROR_CODE,
     VM_ENTRY_INSTRUCTION_LEN, TPR_THRESHOLD, SECONDARY_VM_EXEC_CONTROL, PLE_GAP, PLE_WINDOW]"

definition vmcs_32bit_readonly_fields :: "u64 list" where
  "vmcs_32bit_readonly_fields =
    [VM_INSTRUCTION_ERROR, VM_EXIT_REASON, VM_EXIT_INTR_INFO, VM_EXIT_INTR_ERROR_CODE,
     IDT_VECTORING_INFO_FIELD, IDT_VECTORING_ERROR_CODE, VM_EXIT_INSTRUCTION_LEN,
     VMX_INSTRUCTION_INFO]"

definition vmcs_32bit_guest_state_fields :: "u64 list" where
  "vmcs_32bit_guest_state_fields =
    [GUEST_ES_LIMIT, GUEST_CS_LIMIT, GUEST_SS_LIMIT, GUEST_DS_LIMIT, GUEST_FS_LIMIT,
     GUEST_GS_LIMIT, GUEST_LDTR_LIMIT, GUEST_TR_LIMIT, GUEST_GDTR_LIMIT, GUEST_IDTR_LIMIT,
     GUEST_ES_AR_BYTES, GUEST_CS_AR_BYTES, GUEST_SS_AR_BYTES, GUEST_DS_AR_BYTES,
     GUEST_FS_AR_BYTES, GUEST_GS_AR_BYTES, GUEST_LDTR_AR_BYTES, GUEST_TR_AR_BYTES,
     GUEST_INTERRUPTIBILITY_INFO, GUEST_ACTIVITY_STATE, GUEST_SYSENTER_CS,
     VMX_PREEMPTION_TIMER_VALUE]"

definition vmcs_32bit_host_state_field :: "u64 list" where
  "vmcs_32bit_host_state_field =
    [HOST_IA32_SYSENTER_CS]"

definition vmcs_natural_width_ctrl_fields :: "u64 list" where
  "vmcs_natural_width_ctrl_fields =
    [CR0_GUEST_HOST_MASK, CR4_GUEST_HOST_MASK, CR0_READ_SHADOW, CR4_READ_SHADOW,
     CR3_TARGET_VALUE0, CR3_TARGET_VALUE1, CR3_TARGET_VALUE2, CR3_TARGET_VALUE3]"

definition vmcs_natural_width_readonly_fields :: "u64 list" where
  "vmcs_natural_width_readonly_fields =
    [EXIT_QUALIFICATION, IO_RCX, IO_RSI, IO_RDI, IO_RIP, GUEST_LINEAR_ADDRESS]"

definition vmcs_natural_width_guest_state_fields :: "u64 list" where
  "vmcs_natural_width_guest_state_fields =
    [GUEST_CR0, GUEST_CR3, GUEST_CR4, GUEST_ES_BASE, GUEST_CS_BASE, GUEST_SS_BASE, GUEST_DS_BASE,
     GUEST_FS_BASE, GUEST_GS_BASE, GUEST_LDTR_BASE, GUEST_TR_BASE, GUEST_GDTR_BASE,
     GUEST_IDTR_BASE, GUEST_DR7, GUEST_RSP, GUEST_RIP, GUEST_RFLAGS,
     GUEST_PENDING_DBG_EXCEPTIONS, GUEST_SYSENTER_ESP, GUEST_SYSENTER_EIP]"

definition vmcs_natural_width_host_state_fields :: "u64 list" where
  "vmcs_natural_width_host_state_fields =
    [HOST_CR0, HOST_CR3, HOST_CR4, HOST_FS_BASE, HOST_GS_BASE, HOST_TR_BASE, HOST_GDTR_BASE,
     HOST_IDTR_BASE, HOST_IA32_SYSENTER_ESP, HOST_IA32_SYSENTER_EIP, HOST_RSP, HOST_RIP]"

section \<open>Copies between VMCS and struct vmcs12\<close>

text \<open>A member of the current \<^verbatim>\<open>vcpu->vmcs12\<close>.\<close>

definition vmcs12 :: "nat \<Rightarrow> vmx \<Rightarrow> u64" where
  "vmcs12 k s = get_member k (v_vmcs12 s) (v_bytes s)"

definition set_vmcs12 :: "nat \<Rightarrow> u64 \<Rightarrow> vmx \<Rightarrow> vmx" where
  "set_vmcs12 k v s = s\<lparr>v_bytes := set_member k v (v_vmcs12 s) (v_bytes s)\<rparr>"

text \<open>A loop over an array of fields, from the struct into the current VMCS. The local
  \<^verbatim>\<open>value\<close> is carried along: a field the struct does not have leaves it as it was, and what
  is written then is the value before.\<close>

fun copy_in :: "u64 list \<Rightarrow> u64 \<Rightarrow> vmx \<Rightarrow> u64 \<times> vmx" where
  "copy_in [] value s = (value, s)"
| "copy_in (field # fs) value s =
     (let value = (case vmcs12_read_any (v_vmcs12 s) field (v_bytes s) of Inr v \<Rightarrow> v | Inl _ \<Rightarrow> value)
      in copy_in fs value (vmcs_write field value s))"

text \<open>The other direction.\<close>

definition copy_out :: "u64 list \<Rightarrow> vmx \<Rightarrow> vmx" where
  "copy_out fs s = fold (\<lambda>field s.
     s\<lparr>v_bytes := snd (vmcs12_write_any (v_vmcs12 s) field (vmcs_read field s) (v_bytes s))\<rparr>) fs s"

text \<open>A list of assignments \<^verbatim>\<open>vmcs12->member = vmcs_read(FIELD)\<close>.\<close>

definition assign_members :: "(nat \<times> u64) list \<Rightarrow> vmx \<Rightarrow> vmx" where
  "assign_members xs s = fold (\<lambda>(k, field) s. set_vmcs12 k (vmcs_read field s) s) xs s"

definition copy_vmcs12_to_shadow :: "vmx \<Rightarrow> vmx" where
  "copy_vmcs12_to_shadow s =
     (let vmptr_phys = vmptr_store s;
          s = vmclear vmptr_phys s;
          s = vmptr_load (VIRT2PHYS (v_shadow_vmcs s)) s;
          (value, s) = copy_in vmcs_16bit_guest_state_fields (v_junk s) s;
          (value, s) = copy_in vmcs_32bit_guest_state_fields value s;
          (value, s) = copy_in vmcs_64bit_guest_state_fields value s;
          (value, s) = copy_in vmcs_natural_width_guest_state_fields value s;
          (value, s) = copy_in vmcs_16bit_ctrl_fields value s;
          (value, s) = copy_in vmcs_32bit_ctrl_fields value s;
          (value, s) = copy_in vmcs_64bit_ctrl_fields value s;
          (value, s) = copy_in vmcs_natural_width_ctrl_fields value s;
          (value, s) = copy_in vmcs_32bit_readonly_fields value s;
          (value, s) = copy_in vmcs_64bit_readonly_fields value s;
          (value, s) = copy_in vmcs_natural_width_readonly_fields value s
      in vmptr_load vmptr_phys s)"

text \<open>The last loop runs over the indices of the natural-width array but reads the one-element
  64-bit array.\<close>

definition last_loop_fields :: "vmx \<Rightarrow> u64 list" where
  "last_loop_fields s =
     List.map (\<lambda>i. if i < length vmcs_64bit_readonly_fields then vmcs_64bit_readonly_fields ! i
          else v_beyond s i) [0..<length vmcs_natural_width_readonly_fields]"

definition copy_shadow_to_vmcs12 :: "vmx \<Rightarrow> vmx" where
  "copy_shadow_to_vmcs12 s =
     (let vmptr_phys = vmptr_store s;
          s = vmclear vmptr_phys s;
          s = vmclear (VIRT2PHYS (v_shadow_vmcs s)) s;
          s = vmptr_load (VIRT2PHYS (v_shadow_vmcs s)) s;
          s = copy_out vmcs_16bit_guest_state_fields s;
          s = copy_out vmcs_32bit_guest_state_fields s;
          s = copy_out vmcs_64bit_guest_state_fields s;
          s = copy_out vmcs_natural_width_guest_state_fields s;
          s = copy_out vmcs_16bit_ctrl_fields s;
          s = copy_out vmcs_32bit_ctrl_fields s;
          s = copy_out vmcs_64bit_ctrl_fields s;
          s = copy_out vmcs_natural_width_ctrl_fields s;
          s = copy_out vmcs_32bit_readonly_fields s;
          s = copy_out vmcs_64bit_readonly_fields s;
          s = copy_out (last_loop_fields s) s
      in vmptr_load vmptr_phys s)"

definition shadow_host_members :: "(nat \<times> u64) list" where
  "shadow_host_members =
     [(v12_host_rip, HOST_RIP), (v12_host_rsp, HOST_RSP), (v12_host_cr0, HOST_CR0),
      (v12_host_cr3, HOST_CR3), (v12_host_cr4, HOST_CR4), (v12_host_gdtr_base, HOST_GDTR_BASE),
      (v12_host_idtr_base, HOST_IDTR_BASE)]"

definition copy_shadow_to_vmcs12_host :: "vmx \<Rightarrow> vmx" where
  "copy_shadow_to_vmcs12_host s =
     (let vmptr_phys = vmptr_store s;
          s = vmclear vmptr_phys s;
          s = vmclear (VIRT2PHYS (v_shadow_vmcs s)) s;
          s = vmptr_load (VIRT2PHYS (v_shadow_vmcs s)) s;
          s = assign_members shadow_host_members s
      in vmptr_load vmptr_phys s)"

definition sync_members :: "(nat \<times> u64) list" where
  "sync_members =
     [(v12_guest_rflags, GUEST_RFLAGS), (v12_guest_rip, GUEST_RIP), (v12_guest_rsp, GUEST_RSP),
      (v12_guest_es_selector, GUEST_ES_SELECTOR), (v12_guest_cs_selector, GUEST_CS_SELECTOR),
      (v12_guest_ss_selector, GUEST_SS_SELECTOR), (v12_guest_ds_selector, GUEST_DS_SELECTOR),
      (v12_guest_fs_selector, GUEST_FS_SELECTOR), (v12_guest_gs_selector, GUEST_GS_SELECTOR),
      (v12_guest_ldtr_selector, GUEST_LDTR_SELECTOR), (v12_guest_tr_selector, GUEST_TR_SELECTOR),
      (v12_guest_es_limit, GUEST_ES_LIMIT), (v12_guest_cs_limit, GUEST_CS_LIMIT),
      (v12_guest_ss_limit, GUEST_SS_LIMIT), (v12_guest_ds_limit, GUEST_DS_LIMIT),
      (v12_guest_fs_limit, GUEST_FS_LIMIT), (v12_guest_gs_limit, GUEST_GS_LIMIT),
      (v12_guest_ldtr_limit, GUEST_LDTR_LIMIT), (v12_guest_tr_limit, GUEST_TR_LIMIT),
      (v12_guest_gdtr_limit, GUEST_GDTR_LIMIT), (v12_guest_idtr_limit, GUEST_IDTR_LIMIT),
      (v12_guest_es_ar_bytes, GUEST_ES_AR_BYTES), (v12_guest_cs_ar_bytes, GUEST_CS_AR_BYTES),
      (v12_guest_ss_ar_bytes, GUEST_SS_AR_BYTES), (v12_guest_ds_ar_bytes, GUEST_DS_AR_BYTES),
      (v12_guest_fs_ar_bytes, GUEST_FS_AR_BYTES), (v12_guest_gs_ar_bytes, GUEST_GS_AR_BYTES),
      (v12_guest_ldtr_ar_bytes, GUEST_LDTR_AR_BYTES), (v12_guest_tr_ar_bytes, GUEST_TR_AR_BYTES),
      (v12_guest_es_base, GUEST_ES_BASE), (v12_guest_cs_base, GUEST_CS_BASE),
      (v12_guest_ss_base, GUEST_SS_BASE), (v12_guest_ds_base, GUEST_DS_BASE),
      (v12_guest_fs_base, GUEST_FS_BASE), (v12_guest_gs_base, GUEST_GS_BASE),
      (v12_guest_ldtr_base, GUEST_LDTR_BASE), (v12_guest_tr_base, GUEST_TR_BASE),
      (v12_guest_gdtr_base, GUEST_GDTR_BASE), (v12_guest_idtr_base, GUEST_IDTR_BASE),
      (v12_guest_interruptibility_info, GUEST_INTERRUPTIBILITY_INFO),
      (v12_guest_pending_dbg_exceptions, GUEST_PENDING_DBG_EXCEPTIONS),
      (v12_guest_cr0, GUEST_CR0), (v12_guest_cr3, GUEST_CR3), (v12_guest_cr4, GUEST_CR4),
      (v12_cr0_read_shadow, CR0_READ_SHADOW), (v12_cr4_read_shadow, CR4_READ_SHADOW),
      (v12_vm_exit_reason, VM_EXIT_REASON), (v12_exit_qualification, EXIT_QUALIFICATION),
      (v12_vm_exit_intr_info, VM_EXIT_INTR_INFO), (v12_guest_ia32_efer, GUEST_IA32_EFER),
      (v12_vm_exit_instruction_len, VM_EXIT_INSTRUCTION_LEN),
      (v12_vm_exit_intr_error_code, VM_EXIT_INTR_ERROR_CODE),
      (v12_guest_physical_address, GUEST_PHYSICAL_ADDRESS),
      (v12_guest_linear_address, GUEST_LINEAR_ADDRESS),
      (v12_vmx_instruction_info, VMX_INSTRUCTION_INFO)]"

definition sync_vmcs12 :: "vmx \<Rightarrow> vmx" where
  "sync_vmcs12 s = assign_members sync_members s"

section \<open>Entering L2\<close>

text \<open>Steps that may return early: \<^verbatim>\<open>False\<close> is the early return, with the state at that
  point.\<close>

fun run_steps :: "(vmx \<Rightarrow> (bool \<times> vmx) option) list \<Rightarrow> vmx \<Rightarrow> (bool \<times> vmx) option" where
  "run_steps [] s = Some (True, s)"
| "run_steps (f # fs) s = (case f s of None \<Rightarrow> None
     | Some (ok, s) \<Rightarrow> if ok then run_steps fs s else Some (False, s))"

text \<open>Translate an address held by the struct and write the result to a field.\<close>

definition xlate_member :: "nat \<Rightarrow> u64 \<Rightarrow> vmx \<Rightarrow> (bool \<times> vmx) option" where
  "xlate_member k field s = (case gpa_to_hpa (vmcs12 k s) s of
     Inl _ \<Rightarrow> Some (False, s) | Inr hpa \<Rightarrow> Some (True, vmcs_write field hpa s))"

definition ensure_shadow_ept :: "vmx \<Rightarrow> (bool \<times> vmx) option" where
  "ensure_shadow_ept s =
     (if PT_ENTRY_ADDR (vmcs_read EPT_POINTER s) = 0 then do {
        (ept_pointer, s) \<leftarrow> vm_zalloc_page s;
        Some (True, vmcs_write EPT_POINTER (VIRT2PHYS ept_pointer OR 0x5e) s)
      } else Some (True, s))"

definition posted_intr_step :: "vmx \<Rightarrow> (bool \<times> vmx) option" where
  "posted_intr_step s =
     (if vmcs12 v12_pin_based_vm_exec_control s AND PIN_BASED_POSTED_INTR \<noteq> 0
      then xlate_member v12_posted_intr_desc_addr POSTED_INTR_DESC_ADDR s
      else Some (True, s))"

definition set_revision_id :: "u64 \<Rightarrow> u64 \<Rightarrow> vmx \<Rightarrow> vmx" where
  "set_revision_id p v s = s\<lparr>v_bytes := store_le 4 v (v_bytes s) p\<rparr>"

definition link_pointer_step :: "vmx \<Rightarrow> (bool \<times> vmx) option" where
  "link_pointer_step s =
     (let s = vmcs_write VMCS_LINK_POINTER (- 1) s in
      if vmcs12 v12_secondary_vm_exec_control s AND SECONDARY_EXEC_SHADOW_VMCS = 0 then Some (True, s)
      else run_steps
        [\<lambda>s. if vmcs12 v12_vmcs_link_pointer s = 0xffffffffffffffff then Some (True, s)
             else (case gpa_to_hpa (vmcs12 v12_vmcs_link_pointer s) s of
               Inl _ \<Rightarrow> Some (False, s)
             | Inr hpa \<Rightarrow> Some (True, vmcs_write VMCS_LINK_POINTER hpa
                 (set_revision_id (PHYS2VIRT hpa) (0x80000000 OR rdmsr MSR_IA32_VMX_BASIC s) s))),
         xlate_member v12_vmread_bitmap VMREAD_BITMAP,
         xlate_member v12_vmwrite_bitmap VMWRITE_BITMAP] s)"

definition final_ctrl_writes :: "vmx \<Rightarrow> (bool \<times> vmx) option" where
  "final_ctrl_writes s = Some (True, vmcs_writes
     [(VMX_PREEMPTION_TIMER_VALUE, vmcs12 v12_vmx_preemption_timer_value s),
      (PIN_BASED_VM_EXEC_CONTROL, vmcs12 v12_pin_based_vm_exec_control s),
      (CPU_BASED_VM_EXEC_CONTROL, vmcs12 v12_cpu_based_vm_exec_control s),
      (SECONDARY_VM_EXEC_CONTROL, vmcs12 v12_secondary_vm_exec_control s),
      (VM_ENTRY_CONTROLS, vmcs12 v12_vm_entry_controls s),
      (VM_EXIT_CONTROLS, vmcs12 v12_vm_exit_controls s),
      (CR3_TARGET_COUNT, vmcs12 v12_cr3_target_count s),
      (CR0_GUEST_HOST_MASK, vmcs12 v12_cr0_guest_host_mask s),
      (CR4_GUEST_HOST_MASK, vmcs12 v12_cr4_guest_host_mask s),
      (EXCEPTION_BITMAP, vmcs12 v12_exception_bitmap s)] s)"

definition nested_vmx_set_ctrl_state :: "vmx \<Rightarrow> (int \<times> vmx) option" where
  "nested_vmx_set_ctrl_state s = do {
     (ok, s) \<leftarrow> run_steps
       [xlate_member v12_io_bitmap_a IO_BITMAP_A,
        xlate_member v12_io_bitmap_b IO_BITMAP_B,
        xlate_member v12_msr_bitmap MSR_BITMAP,
        xlate_member v12_vm_entry_msr_load_addr VM_ENTRY_MSR_LOAD_ADDR,
        xlate_member v12_vm_exit_msr_store_addr VM_EXIT_MSR_STORE_ADDR,
        xlate_member v12_vm_exit_msr_load_addr VM_EXIT_MSR_LOAD_ADDR,
        xlate_member v12_virtual_apic_page_addr VIRTUAL_APIC_PAGE_ADDR,
        ensure_shadow_ept, posted_intr_step, link_pointer_step, final_ctrl_writes]
       (vmcs_write VIRTUAL_PROCESSOR_ID (vmcs12 v12_virtual_processor_id s) s);
     Some (if ok then 0 else - 1, s)
   }"

definition nested_vmx_save_host_state :: "vmx \<Rightarrow> vmx" where
  "nested_vmx_save_host_state s =
     (let c = v_cpu s;
          s = vmcs_writes
     [(HOST_CR0, c_cr0 c), (HOST_CR3, c_cr3 c), (HOST_CR4, c_cr4 c),
      (HOST_GDTR_BASE, c_gdtr_base c), (HOST_IDTR_BASE, c_idtr_base c),
      (HOST_CS_SELECTOR, c_cs c), (HOST_DS_SELECTOR, c_ds c), (HOST_ES_SELECTOR, c_es c),
      (HOST_FS_SELECTOR, c_fs c), (HOST_GS_SELECTOR, c_gs c), (HOST_SS_SELECTOR, c_ss c),
      (HOST_TR_SELECTOR, c_tr c), (HOST_GS_BASE, c_msr c MSR_GS_BASE),
      (HOST_FS_BASE, c_msr c MSR_FS_BASE), (HOST_IA32_SYSENTER_CS, c_msr c MSR_IA32_SYSENTER_CS),
      (HOST_IA32_SYSENTER_ESP, c_msr c MSR_IA32_SYSENTER_ESP),
      (HOST_IA32_SYSENTER_EIP, c_msr c MSR_IA32_SYSENTER_EIP), (HOST_IA32_EFER, c_msr c MSR_EFER),
      (HOST_IA32_PAT, c_msr c MSR_IA32_CR_PAT),
      (HOST_IA32_PERF_GLOBAL_CTRL, c_msr c MSR_IA32_PERF_CTL), (HOST_RSP, c_rsp c + 8),
      (HOST_RIP, c_vm_exit c)] s;
          s = s\<lparr>v_host_xcr0 := c_xcr0 c\<rparr>
      in emit (XSave (v_host_fp_regs s) (v_host_xcr0 s)) s)"

definition nested_vmx_set_guest_state :: "vmx \<Rightarrow> vmx" where
  "nested_vmx_set_guest_state s =
     (let (value, s) = copy_in vmcs_16bit_guest_state_fields (v_junk s) s;
          (value, s) = copy_in vmcs_32bit_guest_state_fields value s;
          (value, s) = copy_in vmcs_64bit_guest_state_fields value s;
          (value, s) = copy_in vmcs_natural_width_guest_state_fields value s
      in vmcs_writes [(CR0_READ_SHADOW, vmcs12 v12_cr0_read_shadow s),
           (CR4_READ_SHADOW, vmcs12 v12_cr4_read_shadow s),
           (APIC_ACCESS_ADDR, vmcs12 v12_apic_access_addr s)] s)"

text \<open>The result of \<^verbatim>\<open>nested_vmx_set_ctrl_state\<close> is not looked at.\<close>

definition prepare_vmcs02 :: "vmx \<Rightarrow> vmx option" where
  "prepare_vmcs02 s = do {
     let s = vmclear (VIRT2PHYS (v_vmcs01 s)) s;
     let s = s\<lparr>v_state := 0\<rparr>;
     let s = vmptr_load (VIRT2PHYS (v_vmcs02 s)) s;
     (ret, s) \<leftarrow> nested_vmx_set_ctrl_state s;
     Some (nested_vmx_set_guest_state (nested_vmx_save_host_state s))
   }"

definition nested_vmx_run :: "vmx \<Rightarrow> (int \<times> vmx) option" where
  "nested_vmx_run s = do {
     let s = (if v_shadow_vmcs_enabled s then copy_shadow_to_vmcs12 s else s);
     s \<leftarrow> prepare_vmcs02 s;
     let s = set_g (g_rip_update (\<lambda>_. vmcs12 v12_guest_rip s)) s;
     let s = set_regs (r_rsp_update (\<lambda>_. vmcs12 v12_guest_rsp s)) s;
     Some (0, s\<lparr>v_guest_mode := 1\<rparr>)
   }"

section \<open>Returning to L1\<close>

definition nested_vmx_vmexit :: "u32 \<Rightarrow> u32 \<Rightarrow> u32 \<Rightarrow> vmx \<Rightarrow> int \<times> vmx" where
  "nested_vmx_vmexit exit_reason exit_intr_info exit_qualification s =
     (let s = (if v_shadow_vmcs_enabled s then copy_shadow_to_vmcs12_host s else s);
          s = sync_vmcs12 s;
          s = set_vmcs12 v12_vm_exit_reason (ucast exit_reason) s;
          s = set_vmcs12 v12_vm_exit_intr_info (ucast exit_intr_info) s;
          s = set_vmcs12 v12_exit_qualification (ucast exit_qualification) s;
          s = vmclear (VIRT2PHYS (v_vmcs02 s)) s;
          s = (if v_shadow_vmcs_enabled s then copy_vmcs12_to_shadow s else s);
          s = s\<lparr>v_state := 0, v_guest_mode := 0\<rparr>;
          s = set_g (g_rip_update (\<lambda>_. vmcs12 v12_host_rip s)) s;
          s = vmptr_load (VIRT2PHYS (v_vmcs01 s)) s;
          s = set_regs (r_rsp_update (\<lambda>_. vmcs12 v12_host_rsp s)) s;
          s = vmcs_write GUEST_RIP (g_rip (v_guest s)) s;
          s = vmcs_write GUEST_RSP (r_rsp (g_regs (v_guest s))) s
      in (0, s))"

text \<open>The arguments are 32 bits wide, so the exit qualification is cut.\<close>

definition nested_vmx_reflect_vmexit :: "u32 \<Rightarrow> vmx \<Rightarrow> int \<times> vmx" where
  "nested_vmx_reflect_vmexit exit_reason s =
     nested_vmx_vmexit exit_reason (ucast (vmcs_read VM_EXIT_INTR_INFO s))
       (ucast (vmcs_read EXIT_QUALIFICATION s)) s"

definition nested_vm_exit_reflected :: "u32 \<Rightarrow> vmx \<Rightarrow> bool" where
  "nested_vm_exit_reflected exit_reason s =
     (let r = ucast exit_reason in
      if r = EXIT_REASON_EXTERNAL_INTERRUPT then False
      else if r = EXIT_REASON_EPT_VIOLATION then False
      else if r \<in> {EXIT_REASON_VMCALL, EXIT_REASON_VMCLEAR, EXIT_REASON_VMLAUNCH, EXIT_REASON_VMPTRLD,
          EXIT_REASON_VMPTRST, EXIT_REASON_VMREAD, EXIT_REASON_VMRESUME, EXIT_REASON_VMWRITE,
          EXIT_REASON_VMOFF, EXIT_REASON_VMON, EXIT_REASON_INVEPT, EXIT_REASON_INVVPID}
      then v_guest_mode s \<noteq> 0
      else True)"

definition nested_vmx_handle_cpuid :: "vmx \<Rightarrow> int \<times> vmx" where
  "nested_vmx_handle_cpuid s =
     (let r = g_regs (v_guest s);
          eax = (ucast (r_rax r) :: u32); ecx = (ucast (r_rcx r) :: u32)
      in if eax = 1 \<and> ecx = 0 then
        (let (a, b, c, d) = c_cpuid (v_cpu s) eax ecx;
             s = set_regs (\<lambda>r. r\<lparr>r_rax := ucast a, r_rbx := ucast b, r_rcx := 0, r_rdx := ucast d\<rparr>) s;
             s = set_vmcs12 v12_guest_rip
                   (vmcs12 v12_guest_rip s + vmcs_read VM_EXIT_INSTRUCTION_LEN s) s
         in (0, s))
      else (1, s))"

definition nested_vmx_handle_ept_volation :: "vmx \<Rightarrow> (int \<times> vmx) option" where
  "nested_vmx_handle_ept_volation s =
     (let l2gpa = vmcs_read GUEST_PHYSICAL_ADDRESS s;
          ept_pointer = PHYS2VIRT (PT_ENTRY_ADDR (vmcs_read EPT_POINTER s))
      in case nested_ept_l2gpa_to_l1gpa (v_eptp_base s) (vmcs12 v12_ept_pointer s) l2gpa (v_km s) of
        Inl _ \<Rightarrow> Some (1, s)
      | Inr l1gpa \<Rightarrow> (case gpa_to_hpa l1gpa s of
          Inl _ \<Rightarrow> Some (1, s)
        | Inr hpa \<Rightarrow> do {
            km \<leftarrow> ept_map_page ept_pointer l2gpa (PT_ENTRY_ADDR hpa) 0x1000
                     (EPT_READ OR EPT_WRITE OR EPT_EXECUTE OR EPT_CACHE_WB) (v_km s);
            Some (0, s\<lparr>v_km := km\<rparr>)
          }))"

section \<open>The instructions of L1\<close>

definition vmx_handle_vmxon :: "vmx \<Rightarrow> (int \<times> vmx) option" where
  "vmx_handle_vmxon s = (case mem_operand s of Inl _ \<Rightarrow> Some (0, s) | Inr hpa \<Rightarrow> Some (0, advance_rip s))"

definition vmx_handle_vmxoff :: "vmx \<Rightarrow> (int \<times> vmx) option" where
  "vmx_handle_vmxoff s = Some (0, advance_rip s)"

text \<open>The region's address is read and not used: nothing is cleared.\<close>

definition vmx_handle_vmclear :: "vmx \<Rightarrow> (int \<times> vmx) option" where
  "vmx_handle_vmclear s = (case mem_operand s of Inl _ \<Rightarrow> Some (0, s) | Inr hpa \<Rightarrow> Some (0, advance_rip s))"

definition vmx_handle_vmlaunch :: "vmx \<Rightarrow> (int \<times> vmx) option" where
  "vmx_handle_vmlaunch s = do {
     (ret, s) \<leftarrow> nested_vmx_run (advance_rip s);
     Some (0, s)
   }"

definition vmx_handle_vmresume :: "vmx \<Rightarrow> (int \<times> vmx) option" where
  "vmx_handle_vmresume s = do {
     (ret, s) \<leftarrow> nested_vmx_run (advance_rip (s\<lparr>v_state := 1\<rparr>));
     Some (0, s)
   }"

definition vmx_handle_vmptrld :: "vmx \<Rightarrow> (int \<times> vmx) option" where
  "vmx_handle_vmptrld s =
     (case mem_operand s of Inl _ \<Rightarrow> Some (0, s)
      | Inr hpa \<Rightarrow> (case gpa_to_hpa (read_u64 (PHYS2VIRT hpa) s) s of Inl _ \<Rightarrow> Some (0, s)
      | Inr hpa \<Rightarrow>
        if v_shadow_vmcs_enabled s then do {
          let s = s\<lparr>v_shadow_vmcs := PHYS2VIRT hpa\<rparr>;
          let s = set_revision_id (v_shadow_vmcs s) (rdmsr MSR_IA32_VMX_BASIC s OR 0x80000000) s;
          s \<leftarrow> (if v_vmcs12 s = 0 then do {
                  (virt, s) \<leftarrow> vm_zalloc_bytes s;
                  Some (s\<lparr>v_vmcs12 := virt\<rparr>)
                } else Some s);
          Some (0, advance_rip (vmcs_write VMCS_LINK_POINTER hpa s))
        }
        else Some (0, advance_rip (s\<lparr>v_vmcs12 := PHYS2VIRT hpa\<rparr>))))"

definition vmx_handle_vmptrst :: "vmx \<Rightarrow> (int \<times> vmx) option" where
  "vmx_handle_vmptrst s =
     (case mem_operand s of Inl _ \<Rightarrow> Some (0, s)
      | Inr hpa \<Rightarrow> Some (0, advance_rip (write_u64 (PHYS2VIRT hpa) (VIRT2PHYS (v_vmcs12 s)) s)))"

text \<open>The register that held the field's encoding receives the value.\<close>

definition vmx_handle_vmread :: "vmx \<Rightarrow> (int \<times> vmx) option" where
  "vmx_handle_vmread s =
     (let instruction_info = (ucast (vmcs_read VMX_INSTRUCTION_INFO s) :: u32);
          base_reg = unat (drop_bit 23 instruction_info AND 0xf);
          field = kvm_reg_read base_reg s;
          value = (case vmcs12_read_any (v_vmcs12 s) field (v_bytes s) of Inr v \<Rightarrow> v | Inl _ \<Rightarrow> v_junk s)
      in Some (0, advance_rip (kvm_reg_write base_reg value s)))"

definition vmx_handle_vmwrite :: "vmx \<Rightarrow> (int \<times> vmx) option" where
  "vmx_handle_vmwrite s =
     (let instruction_info = (ucast (vmcs_read VMX_INSTRUCTION_INFO s) :: u32);
          base_reg = unat (drop_bit 23 instruction_info AND 0xf);
          reg2 = unat (drop_bit 28 instruction_info AND 0xf);
          field = kvm_reg_read reg2 s;
          value = kvm_reg_read base_reg s
      in Some (0, advance_rip
           (s\<lparr>v_bytes := snd (vmcs12_write_any (v_vmcs12 s) field value (v_bytes s))\<rparr>)))"

text \<open>Everything behind the first \<^verbatim>\<open>return\<close> is dead code.\<close>

definition vmx_handle_invept :: "vmx \<Rightarrow> (int \<times> vmx) option" where
  "vmx_handle_invept s = Some (0, advance_rip s)"

lemma take_bit_64 [simp]: "take_bit 64 x = (x :: u64)"
  by (rule bit_word_eqI) (simp add: bit_take_bit_iff)

section \<open>What the copies leave alone\<close>

lemma vmcs_write_frame:
  "\<exists>R. vmcs_write field v s = s\<lparr>v_vmcs := R\<rparr> \<and> (\<forall>p. p \<noteq> v_cur s \<longrightarrow> R p = v_vmcs s p)"
proof (cases "v_cur s = NO_VMCS \<or> \<not> c_vmwrite_ok (v_cpu s) field")
  case True
  then show ?thesis by (intro exI [of _ "v_vmcs s"]) (simp add: vmcs_write_def)
next
  case False
  then show ?thesis unfolding vmcs_write_def by (auto intro: exI)
qed

lemma vmcs_writes_frame:
  "\<exists>R. vmcs_writes ws s = s\<lparr>v_vmcs := R\<rparr> \<and> (\<forall>p. p \<noteq> v_cur s \<longrightarrow> R p = v_vmcs s p)"
proof (induction ws arbitrary: s)
  case Nil
  show ?case by (intro exI [of _ "v_vmcs s"]) (simp add: vmcs_writes_def)
next
  case (Cons w ws)
  obtain f v where w: "w = (f, v)" by fastforce
  obtain R where R: "vmcs_write f v s = s\<lparr>v_vmcs := R\<rparr>" "\<forall>p. p \<noteq> v_cur s \<longrightarrow> R p = v_vmcs s p"
    using vmcs_write_frame by blast
  obtain R' where R': "vmcs_writes ws (s\<lparr>v_vmcs := R\<rparr>) = s\<lparr>v_vmcs := R\<rparr>\<lparr>v_vmcs := R'\<rparr>"
    "\<forall>p. p \<noteq> v_cur (s\<lparr>v_vmcs := R\<rparr>) \<longrightarrow> R' p = v_vmcs (s\<lparr>v_vmcs := R\<rparr>) p"
    using Cons.IH [of "s\<lparr>v_vmcs := R\<rparr>"] by blast
  show ?case
    by (intro exI [of _ R']) (use R R' in \<open>simp add: vmcs_writes_def w\<close>)
qed

lemma copy_in_frame:
  "\<exists>R. snd (copy_in fs y s) = s\<lparr>v_vmcs := R\<rparr> \<and> (\<forall>p. p \<noteq> v_cur s \<longrightarrow> R p = v_vmcs s p)"
proof (induction fs y s rule: copy_in.induct)
  case (1 x s)
  show ?case by (intro exI [of _ "v_vmcs s"]) simp
next
  case (2 f fs y s)
  define x where "x = (case vmcs12_read_any (v_vmcs12 s) f (v_bytes s) of Inr v \<Rightarrow> v | Inl _ \<Rightarrow> y)"
  obtain R where R: "vmcs_write f x s = s\<lparr>v_vmcs := R\<rparr>" "\<forall>p. p \<noteq> v_cur s \<longrightarrow> R p = v_vmcs s p"
    using vmcs_write_frame by blast
  obtain R' where R': "snd (copy_in fs x (vmcs_write f x s)) = (vmcs_write f x s)\<lparr>v_vmcs := R'\<rparr>"
    "\<forall>p. p \<noteq> v_cur (vmcs_write f x s) \<longrightarrow> R' p = v_vmcs (vmcs_write f x s) p"
    using "2.IH" [OF x_def] by blast
  have "snd (copy_in (f # fs) y s) = snd (copy_in fs x (vmcs_write f x s))"
    by (simp add: x_def [symmetric] Let_def)
  then show ?case
    by (intro exI [of _ R']) (use R R' in \<open>simp\<close>)
qed

text \<open>The frame as equations for the parts of the state the later proofs read.\<close>

lemma vmcs_write_simps [simp]:
  "v_cur (vmcs_write f v s) = v_cur s" "v_bytes (vmcs_write f v s) = v_bytes s"
  "v_vmcs12 (vmcs_write f v s) = v_vmcs12 s" "v_guest (vmcs_write f v s) = v_guest s"
  "v_state (vmcs_write f v s) = v_state s" "v_guest_mode (vmcs_write f v s) = v_guest_mode s"
  "v_vmcs01 (vmcs_write f v s) = v_vmcs01 s" "v_vmcs02 (vmcs_write f v s) = v_vmcs02 s"
  "v_shadow_vmcs (vmcs_write f v s) = v_shadow_vmcs s"
  "v_shadow_vmcs_enabled (vmcs_write f v s) = v_shadow_vmcs_enabled s"
  "v_launched (vmcs_write f v s) = v_launched s" "v_cpu (vmcs_write f v s) = v_cpu s"
  "v_km (vmcs_write f v s) = v_km s" "v_eptp_base (vmcs_write f v s) = v_eptp_base s"
  "v_junk (vmcs_write f v s) = v_junk s"
  by (simp_all add: vmcs_write_def)

lemma vmcs_writes_simps [simp]:
  "v_cur (vmcs_writes ws s) = v_cur s" "v_bytes (vmcs_writes ws s) = v_bytes s"
  "v_vmcs12 (vmcs_writes ws s) = v_vmcs12 s" "v_guest (vmcs_writes ws s) = v_guest s"
  "v_state (vmcs_writes ws s) = v_state s" "v_guest_mode (vmcs_writes ws s) = v_guest_mode s"
  "v_vmcs01 (vmcs_writes ws s) = v_vmcs01 s" "v_vmcs02 (vmcs_writes ws s) = v_vmcs02 s"
  "v_shadow_vmcs (vmcs_writes ws s) = v_shadow_vmcs s"
  "v_shadow_vmcs_enabled (vmcs_writes ws s) = v_shadow_vmcs_enabled s"
  "v_launched (vmcs_writes ws s) = v_launched s" "v_cpu (vmcs_writes ws s) = v_cpu s"
  "v_km (vmcs_writes ws s) = v_km s" "v_eptp_base (vmcs_writes ws s) = v_eptp_base s"
  "v_junk (vmcs_writes ws s) = v_junk s"
  using vmcs_writes_frame [of ws s] by auto

lemma copy_in_simps [simp]:
  "v_cur (snd (copy_in fs v s)) = v_cur s" "v_bytes (snd (copy_in fs v s)) = v_bytes s"
  "v_vmcs12 (snd (copy_in fs v s)) = v_vmcs12 s" "v_guest (snd (copy_in fs v s)) = v_guest s"
  "v_state (snd (copy_in fs v s)) = v_state s" "v_guest_mode (snd (copy_in fs v s)) = v_guest_mode s"
  "v_vmcs01 (snd (copy_in fs v s)) = v_vmcs01 s" "v_vmcs02 (snd (copy_in fs v s)) = v_vmcs02 s"
  "v_shadow_vmcs (snd (copy_in fs v s)) = v_shadow_vmcs s"
  "v_shadow_vmcs_enabled (snd (copy_in fs v s)) = v_shadow_vmcs_enabled s"
  "v_launched (snd (copy_in fs v s)) = v_launched s" "v_cpu (snd (copy_in fs v s)) = v_cpu s"
  "v_km (snd (copy_in fs v s)) = v_km s" "v_eptp_base (snd (copy_in fs v s)) = v_eptp_base s"
  using copy_in_frame [of fs v s] by auto

lemma copy_in_other: "p \<noteq> v_cur s \<Longrightarrow> v_vmcs (snd (copy_in fs v s)) p = v_vmcs s p"
  using copy_in_frame [of fs v s] by auto

lemma vmcs_writes_other: "p \<noteq> v_cur s \<Longrightarrow> v_vmcs (vmcs_writes ws s) p = v_vmcs s p"
  using vmcs_writes_frame [of ws s] by auto

lemma vmcs_write_other: "p \<noteq> v_cur s \<Longrightarrow> v_vmcs (vmcs_write f v s) p = v_vmcs s p"
  using vmcs_write_frame [of f v s] by auto

text \<open>The other direction changes the bytes only.\<close>

lemma copy_out_frame: "\<exists>B. copy_out fs s = s\<lparr>v_bytes := B\<rparr>"
proof (induction fs arbitrary: s)
  case Nil
  show ?case by (intro exI [of _ "v_bytes s"]) (simp add: copy_out_def)
next
  case (Cons f fs)
  define t where "t = s\<lparr>v_bytes := snd (vmcs12_write_any (v_vmcs12 s) f (vmcs_read f s) (v_bytes s))\<rparr>"
  have "copy_out (f # fs) s = copy_out fs t" by (simp add: copy_out_def t_def)
  moreover obtain B where "copy_out fs t = t\<lparr>v_bytes := B\<rparr>" using Cons by blast
  ultimately show ?case by (intro exI [of _ B]) (simp add: t_def)
qed

lemma assign_members_frame: "\<exists>B. assign_members xs s = s\<lparr>v_bytes := B\<rparr>"
proof (induction xs arbitrary: s)
  case Nil
  show ?case by (intro exI [of _ "v_bytes s"]) (simp add: assign_members_def)
next
  case (Cons x xs)
  obtain k f where x: "x = (k, f)" by fastforce
  define t where "t = set_vmcs12 k (vmcs_read f s) s"
  have "assign_members (x # xs) s = assign_members xs t" by (simp add: assign_members_def t_def x)
  moreover obtain B where "assign_members xs t = t\<lparr>v_bytes := B\<rparr>" using Cons by blast
  ultimately show ?case by (intro exI [of _ B]) (simp add: t_def set_vmcs12_def)
qed

section \<open>Values after a list of assignments\<close>

lemma vmcs12_set [simp]:
  "k < 150 \<Longrightarrow> j < 150 \<Longrightarrow> j \<noteq> k \<Longrightarrow> vmcs12 j (set_vmcs12 k v s) = vmcs12 j s"
  by (simp add: vmcs12_def set_vmcs12_def get_set_other)

lemma vmcs12_set_same: "member_size k \<le> 8 \<Longrightarrow> vmcs12 k (set_vmcs12 k v s) = take_bit (8 * member_size k) v"
  by (simp add: vmcs12_def set_vmcs12_def get_set_same)

lemma vmcs_read_set_vmcs12 [simp]: "vmcs_read f (set_vmcs12 k v s) = vmcs_read f s"
  by (simp add: vmcs_read_def set_vmcs12_def)

lemma vmcs_read_assign [simp]: "vmcs_read f (assign_members xs s) = vmcs_read f s"
  using assign_members_frame [of xs s] by (auto simp: vmcs_read_def)

lemma assign_members_Cons: "assign_members ((k, f) # xs) s = assign_members xs (set_vmcs12 k (vmcs_read f s) s)"
  by (simp add: assign_members_def)

lemma assign_members_other:
  "\<forall>(k, f)\<in>set xs. k < 150 \<Longrightarrow> j < 150 \<Longrightarrow> j \<notin> fst ` set xs \<Longrightarrow> vmcs12 j (assign_members xs s) = vmcs12 j s"
proof (induction xs arbitrary: s)
  case (Cons x xs)
  obtain k f where x: "x = (k, f)" by fastforce
  with Cons show ?case by (simp add: assign_members_Cons)
qed (simp add: assign_members_def)

lemma assign_members_value:
  "\<forall>(k, f)\<in>set xs. k < 150 \<and> member_size k \<le> 8 \<Longrightarrow> distinct (List.map fst xs) \<Longrightarrow> (j, g) \<in> set xs \<Longrightarrow>
   vmcs12 j (assign_members xs s) = take_bit (8 * member_size j) (vmcs_read g s)"
proof (induction xs arbitrary: s)
  case (Cons x xs)
  obtain k f where x: "x = (k, f)" by fastforce
  show ?case
  proof (cases "(j, g) = (k, f)")
    case True
    have "vmcs12 j (assign_members xs (set_vmcs12 k (vmcs_read f s) s)) = vmcs12 j (set_vmcs12 k (vmcs_read f s) s)"
      using Cons.prems True x by (intro assign_members_other) auto
    then show ?thesis using True Cons.prems x by (simp add: assign_members_Cons vmcs12_set_same)
  next
    case False
    with Cons.prems x have "(j, g) \<in> set xs" by auto
    with Cons show ?thesis by (simp add: x assign_members_Cons)
  qed
qed simp


lemma member_lists:
  "\<forall>(k, f)\<in>set sync_members. k < 150 \<and> member_size k \<le> 8"
  "\<forall>(k, f)\<in>set shadow_host_members. k < 150 \<and> member_size k \<le> 8"
proof -
  have *: "\<forall>(k, f)\<in>set xs. k < 150 \<and> member_size k \<le> 8"
    if "list_all (\<lambda>(k, f). 4 \<le> k \<and> k < 150 \<and> k \<notin> {39, 82, 130}) xs" for xs :: "(nat \<times> u64) list"
    using that by (auto simp: list_all_iff member_size_eq)
  show "\<forall>(k, f)\<in>set sync_members. k < 150 \<and> member_size k \<le> 8"
    by (rule *) (simp add: sync_members_def v12_members)
  show "\<forall>(k, f)\<in>set shadow_host_members. k < 150 \<and> member_size k \<le> 8"
    by (rule *) (simp add: shadow_host_members_def v12_members)
qed

lemma member_lists_distinct:
  "distinct (List.map fst sync_members)" "distinct (List.map fst shadow_host_members)"
  by (simp_all add: sync_members_def shadow_host_members_def v12_members)

lemma assign_below: "\<forall>(k, f)\<in>set xs. k < 150 \<and> member_size k \<le> 8 \<Longrightarrow> j < 150 \<Longrightarrow>
    j \<notin> fst ` set xs \<Longrightarrow> vmcs12 j (assign_members xs s) = vmcs12 j s"
  by (intro assign_members_other) auto

section \<open>Switching to the shadow VMCS and back\<close>

lemma NO_VMCS_unaligned: "NO_VMCS AND 0xfff \<noteq> 0"
  by (simp add: NO_VMCS_def)

lemma aligned_not_NO_VMCS: "p AND 0xfff = 0 \<Longrightarrow> p \<noteq> NO_VMCS"
  using NO_VMCS_unaligned by auto

lemma copy_in_append:
  "copy_in (xs @ ys) v s = copy_in ys (fst (copy_in xs v s)) (snd (copy_in xs v s))"
  by (induction xs v s rule: copy_in.induct) (simp_all add: Let_def)

text \<open>The arrays in the order in which the shadow VMCS is filled.\<close>

definition shadow_fields :: "u64 list" where
  "shadow_fields = vmcs_16bit_guest_state_fields @ vmcs_32bit_guest_state_fields @
     vmcs_64bit_guest_state_fields @ vmcs_natural_width_guest_state_fields @ vmcs_16bit_ctrl_fields @
     vmcs_32bit_ctrl_fields @ vmcs_64bit_ctrl_fields @ vmcs_natural_width_ctrl_fields @
     vmcs_32bit_readonly_fields @ vmcs_64bit_readonly_fields @ vmcs_natural_width_readonly_fields"

lemma copy_vmcs12_to_shadow_alt:
  "copy_vmcs12_to_shadow s = vmptr_load (v_cur s) (snd (copy_in shadow_fields (v_junk s)
     (vmptr_load (VIRT2PHYS (v_shadow_vmcs s)) (vmclear (v_cur s) s))))"
proof -
  have j: "v_junk (vmptr_load q (vmclear p s)) = v_junk s"
    "v_shadow_vmcs (vmclear p s) = v_shadow_vmcs s" for p q
    by (simp_all add: vmptr_load_def vmclear_def)
  show ?thesis
    by (simp only: copy_vmcs12_to_shadow_def shadow_fields_def vmptr_store_def Let_def split_def
        copy_in_append append_assoc j)
qed

lemma vmptr_load_no: "vmptr_load NO_VMCS s = s"
  using NO_VMCS_unaligned by (simp add: vmptr_load_def)

lemma vmclear_no: "vmclear NO_VMCS s = s"
  using NO_VMCS_unaligned by (simp add: vmclear_def)

text \<open>A field of the struct arrives in the VMCS, however often it is copied.\<close>

lemma vmcs_write_value:
  "v_cur s \<noteq> NO_VMCS \<Longrightarrow> v_vmcs (vmcs_write f v s) (v_cur s) g =
     (if g = f \<and> c_vmwrite_ok (v_cpu s) f then cut f v else v_vmcs s (v_cur s) g)"
  by (simp add: vmcs_write_def)

lemma copy_in_value:
  assumes "v_cur s \<noteq> NO_VMCS" "c_vmwrite_ok (v_cpu s) f"
    and "vmcs12_read_any (v_vmcs12 s) f (v_bytes s) = Inr x"
    and "f \<in> set fs \<or> v_vmcs s (v_cur s) f = cut f x"
  shows "v_vmcs (snd (copy_in fs y s)) (v_cur s) f = cut f x"
  using assms
proof (induction fs y s rule: copy_in.induct)
  case (1 y s)
  then show ?case by simp
next
  case (2 g fs y s)
  define z where "z = (case vmcs12_read_any (v_vmcs12 s) g (v_bytes s) of Inr v \<Rightarrow> v | Inl _ \<Rightarrow> y)"
  have "f \<in> set fs \<or> v_vmcs (vmcs_write g z s) (v_cur (vmcs_write g z s)) f = cut f x"
    using "2.prems" by (auto simp: vmcs_write_value z_def)
  with 2 have "v_vmcs (snd (copy_in fs z (vmcs_write g z s))) (v_cur (vmcs_write g z s)) f = cut f x"
    by (simp add: z_def)
  then show ?case by (simp add: z_def Let_def)
qed

lemma copy_host_spec:
  assumes "v_cur s AND 0xfff = 0" "VIRT2PHYS (v_shadow_vmcs s) AND 0xfff = 0"
  obtains B where
    "copy_shadow_to_vmcs12_host s = s\<lparr>v_bytes := B,
       v_launched := (v_launched s)(v_cur s := False, VIRT2PHYS (v_shadow_vmcs s) := False)\<rparr>"
    "\<And>k f. (k, f) \<in> set shadow_host_members \<Longrightarrow> get_member k (v_vmcs12 s) B =
       take_bit (8 * member_size k) (v_vmcs s (VIRT2PHYS (v_shadow_vmcs s)) f)"
    "\<And>j. j < 150 \<Longrightarrow> j \<notin> fst ` set shadow_host_members \<Longrightarrow> get_member j (v_vmcs12 s) B = vmcs12 j s"
proof -
  define sh where "sh = VIRT2PHYS (v_shadow_vmcs s)"
  define L where "L = (v_launched s)(v_cur s := False, sh := False)"
  define t where "t = s\<lparr>v_launched := L, v_cur := sh\<rparr>"
  have ne: "sh \<noteq> NO_VMCS" using aligned_not_NO_VMCS assms(2) by (simp add: sh_def)
  have "copy_shadow_to_vmcs12_host s = vmptr_load (v_cur s) (assign_members shadow_host_members t)"
    using assms ne unfolding copy_shadow_to_vmcs12_host_def
    by (simp add: Let_def vmptr_store_def vmclear_def vmptr_load_def sh_def [symmetric] t_def L_def)
  moreover obtain B where B: "assign_members shadow_host_members t = t\<lparr>v_bytes := B\<rparr>"
    using assign_members_frame by blast
  ultimately have 1: "copy_shadow_to_vmcs12_host s = s\<lparr>v_bytes := B, v_launched := L\<rparr>"
    using assms by (simp add: vmptr_load_def t_def)
  have g: "get_member k (v_vmcs12 s) B = vmcs12 k (assign_members shadow_host_members t)" for k
    unfolding vmcs12_def B by (simp add: t_def)
  have 2: "get_member k (v_vmcs12 s) B = take_bit (8 * member_size k) (v_vmcs s sh f)"
    if "(k, f) \<in> set shadow_host_members" for k f
    using assign_members_value [OF member_lists(2) member_lists_distinct(2) that, of t]
    by (simp add: g vmcs_read_def t_def)
  have 3: "get_member j (v_vmcs12 s) B = vmcs12 j s" if "j < 150" "j \<notin> fst ` set shadow_host_members" for j
    using assign_below [OF member_lists(2) that, of t] by (simp add: g) (simp add: vmcs12_def t_def)
  show thesis using that [OF 1 [unfolded L_def sh_def]] 2 3 by (simp add: sh_def)
qed


lemma vmptr_simps [simp]:
  "v_bytes (vmptr_load p s) = v_bytes s" "v_vmcs12 (vmptr_load p s) = v_vmcs12 s"
  "v_vmcs (vmptr_load p s) = v_vmcs s" "v_launched (vmptr_load p s) = v_launched s"
  "v_guest (vmptr_load p s) = v_guest s" "v_state (vmptr_load p s) = v_state s"
  "v_guest_mode (vmptr_load p s) = v_guest_mode s" "v_vmcs01 (vmptr_load p s) = v_vmcs01 s"
  "v_vmcs02 (vmptr_load p s) = v_vmcs02 s" "v_shadow_vmcs (vmptr_load p s) = v_shadow_vmcs s"
  "v_shadow_vmcs_enabled (vmptr_load p s) = v_shadow_vmcs_enabled s" "v_cpu (vmptr_load p s) = v_cpu s"
  "v_km (vmptr_load p s) = v_km s" "v_eptp_base (vmptr_load p s) = v_eptp_base s"
  "v_junk (vmptr_load p s) = v_junk s"
  "v_bytes (vmclear p s) = v_bytes s" "v_vmcs12 (vmclear p s) = v_vmcs12 s"
  "v_vmcs (vmclear p s) = v_vmcs s" "v_junk (vmclear p s) = v_junk s"
  "v_guest (vmclear p s) = v_guest s" "v_state (vmclear p s) = v_state s"
  "v_guest_mode (vmclear p s) = v_guest_mode s" "v_vmcs01 (vmclear p s) = v_vmcs01 s"
  "v_vmcs02 (vmclear p s) = v_vmcs02 s" "v_shadow_vmcs (vmclear p s) = v_shadow_vmcs s"
  "v_shadow_vmcs_enabled (vmclear p s) = v_shadow_vmcs_enabled s" "v_cpu (vmclear p s) = v_cpu s"
  "v_km (vmclear p s) = v_km s" "v_eptp_base (vmclear p s) = v_eptp_base s"
  by (simp_all add: vmptr_load_def vmclear_def)

lemma set_vmcs12_simps [simp]:
  "v_vmcs12 (set_vmcs12 k v s) = v_vmcs12 s" "v_cur (set_vmcs12 k v s) = v_cur s"
  "v_vmcs (set_vmcs12 k v s) = v_vmcs s" "v_launched (set_vmcs12 k v s) = v_launched s"
  "v_guest (set_vmcs12 k v s) = v_guest s" "v_state (set_vmcs12 k v s) = v_state s"
  "v_guest_mode (set_vmcs12 k v s) = v_guest_mode s" "v_vmcs01 (set_vmcs12 k v s) = v_vmcs01 s"
  "v_vmcs02 (set_vmcs12 k v s) = v_vmcs02 s" "v_shadow_vmcs (set_vmcs12 k v s) = v_shadow_vmcs s"
  "v_shadow_vmcs_enabled (set_vmcs12 k v s) = v_shadow_vmcs_enabled s" "v_cpu (set_vmcs12 k v s) = v_cpu s"
  "v_km (set_vmcs12 k v s) = v_km s" "v_eptp_base (set_vmcs12 k v s) = v_eptp_base s"
  by (simp_all add: set_vmcs12_def)

lemma assign_members_simps [simp]:
  "v_vmcs12 (assign_members xs s) = v_vmcs12 s" "v_cur (assign_members xs s) = v_cur s"
  "v_vmcs (assign_members xs s) = v_vmcs s" "v_launched (assign_members xs s) = v_launched s"
  "v_guest (assign_members xs s) = v_guest s" "v_state (assign_members xs s) = v_state s"
  "v_guest_mode (assign_members xs s) = v_guest_mode s" "v_vmcs01 (assign_members xs s) = v_vmcs01 s"
  "v_vmcs02 (assign_members xs s) = v_vmcs02 s" "v_shadow_vmcs (assign_members xs s) = v_shadow_vmcs s"
  "v_shadow_vmcs_enabled (assign_members xs s) = v_shadow_vmcs_enabled s"
  "v_cpu (assign_members xs s) = v_cpu s" "v_km (assign_members xs s) = v_km s"
  "v_eptp_base (assign_members xs s) = v_eptp_base s"
  using assign_members_frame [of xs s] by auto

lemma copy_to_shadow_simps [simp]:
  "v_bytes (copy_vmcs12_to_shadow s) = v_bytes s" "v_vmcs12 (copy_vmcs12_to_shadow s) = v_vmcs12 s"
  "v_guest (copy_vmcs12_to_shadow s) = v_guest s" "v_state (copy_vmcs12_to_shadow s) = v_state s"
  "v_guest_mode (copy_vmcs12_to_shadow s) = v_guest_mode s" "v_vmcs01 (copy_vmcs12_to_shadow s) = v_vmcs01 s"
  "v_vmcs02 (copy_vmcs12_to_shadow s) = v_vmcs02 s" "v_cpu (copy_vmcs12_to_shadow s) = v_cpu s"
  "v_shadow_vmcs (copy_vmcs12_to_shadow s) = v_shadow_vmcs s"
  "v_shadow_vmcs_enabled (copy_vmcs12_to_shadow s) = v_shadow_vmcs_enabled s"
  by (simp_all add: copy_vmcs12_to_shadow_alt)

text \<open>Copying to the shadow VMCS while there is no current VMCS, as on the way back to L1:
  afterwards the shadow VMCS is the current one.\<close>

lemma copy_to_shadow_spec:
  assumes "v_cur s = NO_VMCS" "VIRT2PHYS (v_shadow_vmcs s) AND 0xfff = 0"
  shows "v_cur (copy_vmcs12_to_shadow s) = VIRT2PHYS (v_shadow_vmcs s)"
    and "v_launched (copy_vmcs12_to_shadow s) = v_launched s"
    and "p \<noteq> VIRT2PHYS (v_shadow_vmcs s) \<Longrightarrow> v_vmcs (copy_vmcs12_to_shadow s) p = v_vmcs s p"
    and "\<lbrakk>f \<in> set shadow_fields; c_vmwrite_ok (v_cpu s) f;
        vmcs12_read_any (v_vmcs12 s) f (v_bytes s) = Inr x\<rbrakk> \<Longrightarrow>
      v_vmcs (copy_vmcs12_to_shadow s) (VIRT2PHYS (v_shadow_vmcs s)) f = cut f x"
proof -
  define t where "t = s\<lparr>v_cur := VIRT2PHYS (v_shadow_vmcs s)\<rparr>"
  have e: "copy_vmcs12_to_shadow s = snd (copy_in shadow_fields (v_junk s) t)"
    unfolding copy_vmcs12_to_shadow_alt assms(1) vmptr_load_no vmclear_no
    using assms(2) by (simp add: vmptr_load_def t_def)
  show "v_cur (copy_vmcs12_to_shadow s) = VIRT2PHYS (v_shadow_vmcs s)"
    "v_launched (copy_vmcs12_to_shadow s) = v_launched s" by (simp_all add: e t_def)
  show "v_vmcs (copy_vmcs12_to_shadow s) p = v_vmcs s p" if "p \<noteq> VIRT2PHYS (v_shadow_vmcs s)"
    using that copy_in_other [of p t] by (simp add: e) (simp add: t_def)
  show "v_vmcs (copy_vmcs12_to_shadow s) (VIRT2PHYS (v_shadow_vmcs s)) f = cut f x"
    if "f \<in> set shadow_fields" "c_vmwrite_ok (v_cpu s) f"
      "vmcs12_read_any (v_vmcs12 s) f (v_bytes s) = Inr x"
    using copy_in_value [of t f x shadow_fields "v_junk s"] that aligned_not_NO_VMCS [OF assms(2)]
    by (simp add: e) (simp add: t_def)
qed

section \<open>The way back to L1\<close>

text \<open>The state between the copies of \<^verbatim>\<open>nested_vmx_vmexit\<close>: the struct is complete and no
  VMCS is current.\<close>

definition vmexit_synced :: "u32 \<Rightarrow> u32 \<Rightarrow> u32 \<Rightarrow> vmx \<Rightarrow> vmx" where
  "vmexit_synced r i q s =
     vmclear (VIRT2PHYS (v_vmcs02 s)) (set_vmcs12 v12_exit_qualification (ucast q)
       (set_vmcs12 v12_vm_exit_intr_info (ucast i) (set_vmcs12 v12_vm_exit_reason (ucast r)
         (sync_vmcs12 (if v_shadow_vmcs_enabled s then copy_shadow_to_vmcs12_host s else s)))))"

lemma host_sync_disjoint: "fst ` set shadow_host_members \<inter> fst ` set sync_members = {}"
proof -
  have "distinct (List.map fst (shadow_host_members @ sync_members))"
    by (simp add: sync_members_def shadow_host_members_def v12_members)
  then show ?thesis by (simp only: map_append distinct_append set_map)
qed

lemma vmexit_synced_spec:
  assumes cur: "v_cur s = VIRT2PHYS (v_vmcs02 s)" "v_cur s AND 0xfff = 0"
    and sh: "v_shadow_vmcs_enabled s \<Longrightarrow> VIRT2PHYS (v_shadow_vmcs s) AND 0xfff = 0"
  obtains B L where "vmexit_synced r i q s = s\<lparr>v_bytes := B, v_launched := L, v_cur := NO_VMCS\<rparr>"
    "\<And>p. L p = (if p = v_cur s \<or> v_shadow_vmcs_enabled s \<and> p = VIRT2PHYS (v_shadow_vmcs s)
               then False else v_launched s p)"
    "\<And>k f. \<lbrakk>(k, f) \<in> set sync_members; k \<noteq> v12_vm_exit_reason; k \<noteq> v12_vm_exit_intr_info;
        k \<noteq> v12_exit_qualification\<rbrakk> \<Longrightarrow>
      get_member k (v_vmcs12 s) B = take_bit (8 * member_size k) (v_vmcs s (v_cur s) f)"
    "get_member v12_vm_exit_reason (v_vmcs12 s) B = ucast r"
    "get_member v12_vm_exit_intr_info (v_vmcs12 s) B = ucast i"
    "get_member v12_exit_qualification (v_vmcs12 s) B = ucast q"
    "\<And>k f. (k, f) \<in> set shadow_host_members \<Longrightarrow> get_member k (v_vmcs12 s) B =
       (if v_shadow_vmcs_enabled s
        then take_bit (8 * member_size k) (v_vmcs s (VIRT2PHYS (v_shadow_vmcs s)) f) else vmcs12 k s)"
proof -
  obtain B0 L0 where 0: "(if v_shadow_vmcs_enabled s then copy_shadow_to_vmcs12_host s else s)
      = s\<lparr>v_bytes := B0, v_launched := L0\<rparr>"
    "\<And>p. p \<noteq> v_cur s \<Longrightarrow> L0 p = (if v_shadow_vmcs_enabled s \<and> p = VIRT2PHYS (v_shadow_vmcs s) then False
        else v_launched s p)"
    "\<And>k f. (k, f) \<in> set shadow_host_members \<Longrightarrow> get_member k (v_vmcs12 s) B0 =
       (if v_shadow_vmcs_enabled s
        then take_bit (8 * member_size k) (v_vmcs s (VIRT2PHYS (v_shadow_vmcs s)) f) else vmcs12 k s)"
  proof (cases "v_shadow_vmcs_enabled s")
    case True
    obtain B where B: "copy_shadow_to_vmcs12_host s = s\<lparr>v_bytes := B,
         v_launched := (v_launched s)(v_cur s := False, VIRT2PHYS (v_shadow_vmcs s) := False)\<rparr>"
      "\<And>k f. (k, f) \<in> set shadow_host_members \<Longrightarrow> get_member k (v_vmcs12 s) B =
         take_bit (8 * member_size k) (v_vmcs s (VIRT2PHYS (v_shadow_vmcs s)) f)"
      "\<And>j. j < 150 \<Longrightarrow> j \<notin> fst ` set shadow_host_members \<Longrightarrow> get_member j (v_vmcs12 s) B = vmcs12 j s"
      by (fact copy_host_spec [OF cur(2) sh [OF True]])
    show thesis
      by (rule that [of "(v_launched s)(v_cur s := False, VIRT2PHYS (v_shadow_vmcs s) := False)" B])
        (simp_all add: True B)
  next
    case False
    then show thesis by (intro that [of "v_launched s" "v_bytes s"]) (simp_all add: vmcs12_def)
  qed
  define s1 where "s1 = s\<lparr>v_bytes := B0, v_launched := L0\<rparr>"
  define s2 where "s2 = set_vmcs12 v12_exit_qualification (ucast q)
       (set_vmcs12 v12_vm_exit_intr_info (ucast i) (set_vmcs12 v12_vm_exit_reason (ucast r) (sync_vmcs12 s1)))"
  obtain B where B: "s2 = s1\<lparr>v_bytes := B\<rparr>"
    using assign_members_frame [of sync_members s1]
    by (auto simp: s2_def sync_vmcs12_def set_vmcs12_def)
  define L where "L = L0(v_cur s := False)"
  have e: "vmexit_synced r i q s = s\<lparr>v_bytes := B, v_launched := L, v_cur := NO_VMCS\<rparr>"
    unfolding vmexit_synced_def 0(1) s1_def [symmetric] s2_def [symmetric] B
    using cur by (simp add: vmclear_def s1_def L_def)
  have g: "get_member k (v_vmcs12 s) B = vmcs12 k s2" for k
    unfolding vmcs12_def B by (simp add: s1_def)
  have k3: "v12_vm_exit_reason < 150" "v12_vm_exit_intr_info < 150" "v12_exit_qualification < 150"
    "v12_vm_exit_reason \<noteq> v12_vm_exit_intr_info" "v12_vm_exit_reason \<noteq> v12_exit_qualification"
    "v12_vm_exit_intr_info \<noteq> v12_exit_qualification"
    by (simp_all add: v12_members)
  have sz: "member_size v12_vm_exit_reason = 4" "member_size v12_vm_exit_intr_info = 4"
    "member_size v12_exit_qualification = 8"
    by (simp_all add: member_size_eq v12_members)
  have u: "take_bit 32 (ucast (x :: u32)) = (ucast x :: u64)" "take_bit 64 (ucast x :: u64) = ucast x" for x
    by (rule bit_word_eqI; auto simp: bit_take_bit_iff bit_ucast_iff dest: bit_imp_le_length)+
  show thesis
  proof (rule that [OF e])
    show "L p = (if p = v_cur s \<or> v_shadow_vmcs_enabled s \<and> p = VIRT2PHYS (v_shadow_vmcs s)
               then False else v_launched s p)" for p
      using 0(2) by (simp add: L_def)
    show "get_member k (v_vmcs12 s) B = take_bit (8 * member_size k) (v_vmcs s (v_cur s) f)"
      if "(k, f) \<in> set sync_members" "k \<noteq> v12_vm_exit_reason" "k \<noteq> v12_vm_exit_intr_info"
        "k \<noteq> v12_exit_qualification" for k f
    proof -
      have "k < 150" using member_lists(1) that(1) by auto
      then have "vmcs12 k s2 = vmcs12 k (sync_vmcs12 s1)" using that k3 by (simp add: s2_def)
      then show ?thesis
        using assign_members_value [OF member_lists(1) member_lists_distinct(1) that(1), of s1]
        by (simp add: g sync_vmcs12_def vmcs_read_def s1_def)
    qed
    show "get_member v12_vm_exit_reason (v_vmcs12 s) B = ucast r"
      "get_member v12_vm_exit_intr_info (v_vmcs12 s) B = ucast i"
      "get_member v12_exit_qualification (v_vmcs12 s) B = ucast q"
      using k3 by (simp_all add: g s2_def vmcs12_set_same sz u)
    show "get_member k (v_vmcs12 s) B = (if v_shadow_vmcs_enabled s
        then take_bit (8 * member_size k) (v_vmcs s (VIRT2PHYS (v_shadow_vmcs s)) f) else vmcs12 k s)"
      if "(k, f) \<in> set shadow_host_members" for k f
    proof -
      have k: "k < 150" using member_lists(2) that by auto
      have "k \<in> fst ` set shadow_host_members" using that by force
      then have n: "k \<notin> fst ` set sync_members" using host_sync_disjoint by blast
      moreover have "v12_vm_exit_reason \<in> fst ` set sync_members"
        "v12_vm_exit_intr_info \<in> fst ` set sync_members"
        "v12_exit_qualification \<in> fst ` set sync_members"
        by (simp_all add: sync_members_def)
      ultimately have "k \<noteq> v12_vm_exit_reason" "k \<noteq> v12_vm_exit_intr_info"
        "k \<noteq> v12_exit_qualification" by auto
      then have "vmcs12 k s2 = vmcs12 k (assign_members sync_members s1)"
        using k k3 by (simp add: s2_def sync_vmcs12_def)
      also have "\<dots> = vmcs12 k s1" using assign_below [OF member_lists(1) k n] .
      also have "\<dots> = get_member k (v_vmcs12 s) B0" by (simp add: vmcs12_def s1_def)
      finally show ?thesis using 0(3) [OF that] by (simp add: g)
    qed
  qed
qed


lemma copy_host_simps [simp]:
  "v_vmcs02 (copy_shadow_to_vmcs12_host s) = v_vmcs02 s"
  "v_shadow_vmcs_enabled (copy_shadow_to_vmcs12_host s) = v_shadow_vmcs_enabled s"
  by (simp_all add: copy_shadow_to_vmcs12_host_def Let_def)

definition back_to_l1 :: "vmx \<Rightarrow> vmx" where
  "back_to_l1 s =
     (let s = s\<lparr>v_state := 0, v_guest_mode := 0\<rparr>;
          s = set_g (g_rip_update (\<lambda>_. vmcs12 v12_host_rip s)) s;
          s = vmptr_load (VIRT2PHYS (v_vmcs01 s)) s;
          s = set_regs (r_rsp_update (\<lambda>_. vmcs12 v12_host_rsp s)) s;
          s = vmcs_write GUEST_RIP (g_rip (v_guest s)) s
      in vmcs_write GUEST_RSP (r_rsp (g_regs (v_guest s))) s)"

lemma vmexit_alt:
  "nested_vmx_vmexit r i q s = (0, back_to_l1
     (if v_shadow_vmcs_enabled s then copy_vmcs12_to_shadow (vmexit_synced r i q s) else vmexit_synced r i q s))"
  by (cases "v_shadow_vmcs_enabled s")
    (simp_all add: nested_vmx_vmexit_def vmexit_synced_def back_to_l1_def Let_def sync_vmcs12_def)

lemma full_width: "cut GUEST_RIP v = v" "cut GUEST_RSP v = v"
  by (simp_all add: cut_def field_width_def vmcs_fields)

lemma back_to_l1_spec:
  assumes "VIRT2PHYS (v_vmcs01 s) AND 0xfff = 0"
  shows "v_state (back_to_l1 s) = 0" "v_guest_mode (back_to_l1 s) = 0"
    "v_cur (back_to_l1 s) = VIRT2PHYS (v_vmcs01 s)" "v_bytes (back_to_l1 s) = v_bytes s"
    "v_vmcs12 (back_to_l1 s) = v_vmcs12 s" "v_launched (back_to_l1 s) = v_launched s"
    "v_vmcs01 (back_to_l1 s) = v_vmcs01 s" "v_vmcs02 (back_to_l1 s) = v_vmcs02 s"
    "g_rip (v_guest (back_to_l1 s)) = vmcs12 v12_host_rip s"
    "r_rsp (g_regs (v_guest (back_to_l1 s))) = vmcs12 v12_host_rsp s"
    "p \<noteq> VIRT2PHYS (v_vmcs01 s) \<Longrightarrow> v_vmcs (back_to_l1 s) p = v_vmcs s p"
    "c_vmwrite_ok (v_cpu s) GUEST_RIP \<Longrightarrow>
      v_vmcs (back_to_l1 s) (VIRT2PHYS (v_vmcs01 s)) GUEST_RIP = vmcs12 v12_host_rip s"
proof -
  have d: "GUEST_RIP \<noteq> GUEST_RSP" by (simp add: vmcs_fields)
  note ne = aligned_not_NO_VMCS [OF assms]
  show "v_state (back_to_l1 s) = 0" "v_guest_mode (back_to_l1 s) = 0"
    "v_cur (back_to_l1 s) = VIRT2PHYS (v_vmcs01 s)" "v_bytes (back_to_l1 s) = v_bytes s"
    "v_vmcs12 (back_to_l1 s) = v_vmcs12 s" "v_launched (back_to_l1 s) = v_launched s"
    "v_vmcs01 (back_to_l1 s) = v_vmcs01 s" "v_vmcs02 (back_to_l1 s) = v_vmcs02 s"
    "g_rip (v_guest (back_to_l1 s)) = vmcs12 v12_host_rip s"
    "r_rsp (g_regs (v_guest (back_to_l1 s))) = vmcs12 v12_host_rsp s"
    using assms by (simp_all add: back_to_l1_def Let_def vmptr_load_def vmcs12_def)
  show "v_vmcs (back_to_l1 s) p = v_vmcs s p" if "p \<noteq> VIRT2PHYS (v_vmcs01 s)"
    using assms that by (simp add: back_to_l1_def Let_def vmptr_load_def vmcs_write_other)
  show "v_vmcs (back_to_l1 s) (VIRT2PHYS (v_vmcs01 s)) GUEST_RIP = vmcs12 v12_host_rip s"
    if "c_vmwrite_ok (v_cpu s) GUEST_RIP"
    using assms that ne d
    by (simp add: back_to_l1_def Let_def vmptr_load_def vmcs_write_def full_width vmcs12_def)
qed

text \<open>The requirements of a switch: the VMCS regions are pages, and L2's is the current one.\<close>

definition in_l2 :: "vmx \<Rightarrow> bool" where
  "in_l2 s \<longleftrightarrow> v_cur s = VIRT2PHYS (v_vmcs02 s) \<and> v_cur s AND 0xfff = 0 \<and>
     VIRT2PHYS (v_vmcs01 s) AND 0xfff = 0 \<and>
     (v_shadow_vmcs_enabled s \<longrightarrow> VIRT2PHYS (v_shadow_vmcs s) AND 0xfff = 0 \<and>
        VIRT2PHYS (v_shadow_vmcs s) \<noteq> VIRT2PHYS (v_vmcs01 s))"

lemma host_members_8: "member_size v12_host_rip = 8" "member_size v12_host_rsp = 8"
  by (simp_all add: member_size_eq v12_members)

lemma vmexit_spec:
  fixes s r i q
  defines "s' \<equiv> snd (nested_vmx_vmexit r i q s)"
  assumes "in_l2 s"
  shows "v_guest_mode s' = 0" "v_state s' = 0" "v_cur s' = VIRT2PHYS (v_vmcs01 s)"
    and "g_rip (v_guest s') = (if v_shadow_vmcs_enabled s
      then v_vmcs s (VIRT2PHYS (v_shadow_vmcs s)) HOST_RIP else vmcs12 v12_host_rip s)"
    and "r_rsp (g_regs (v_guest s')) = (if v_shadow_vmcs_enabled s
      then v_vmcs s (VIRT2PHYS (v_shadow_vmcs s)) HOST_RSP else vmcs12 v12_host_rsp s)"
    and "c_vmwrite_ok (v_cpu s) GUEST_RIP \<Longrightarrow>
      v_vmcs s' (VIRT2PHYS (v_vmcs01 s)) GUEST_RIP = g_rip (v_guest s')"
    and "\<lbrakk>(k, f) \<in> set sync_members; k \<noteq> v12_vm_exit_reason; k \<noteq> v12_vm_exit_intr_info;
        k \<noteq> v12_exit_qualification\<rbrakk> \<Longrightarrow>
      vmcs12 k s' = take_bit (8 * member_size k) (v_vmcs s (v_cur s) f)"
    and "vmcs12 v12_vm_exit_reason s' = ucast r" "vmcs12 v12_vm_exit_intr_info s' = ucast i"
    and "vmcs12 v12_exit_qualification s' = ucast q"
    and "\<lbrakk>v_shadow_vmcs_enabled s; f \<in> set shadow_fields; c_vmwrite_ok (v_cpu s) f;
        vmcs12_read_any (v_vmcs12 s') f (v_bytes s') = Inr x\<rbrakk> \<Longrightarrow>
      v_vmcs s' (VIRT2PHYS (v_shadow_vmcs s)) f = cut f x"
    and "v_vmcs01 s' = v_vmcs01 s" "v_vmcs02 s' = v_vmcs02 s"
    and "v_launched s' p = (if p = v_cur s \<or> v_shadow_vmcs_enabled s \<and> p = VIRT2PHYS (v_shadow_vmcs s)
      then False else v_launched s p)"
proof -
  have al: "v_cur s = VIRT2PHYS (v_vmcs02 s)" "v_cur s AND 0xfff = 0"
    "VIRT2PHYS (v_vmcs01 s) AND 0xfff = 0"
    "v_shadow_vmcs_enabled s \<Longrightarrow> VIRT2PHYS (v_shadow_vmcs s) AND 0xfff = 0"
    "v_shadow_vmcs_enabled s \<Longrightarrow> VIRT2PHYS (v_shadow_vmcs s) \<noteq> VIRT2PHYS (v_vmcs01 s)"
    using assms(2) unfolding in_l2_def by blast+
  obtain L B where e: "vmexit_synced r i q s = s\<lparr>v_bytes := B, v_launched := L, v_cur := NO_VMCS\<rparr>"
    and L: "\<And>p. L p = (if p = v_cur s \<or> v_shadow_vmcs_enabled s \<and> p = VIRT2PHYS (v_shadow_vmcs s)
               then False else v_launched s p)"
    and sync: "\<And>k f. \<lbrakk>(k, f) \<in> set sync_members; k \<noteq> v12_vm_exit_reason; k \<noteq> v12_vm_exit_intr_info;
        k \<noteq> v12_exit_qualification\<rbrakk> \<Longrightarrow>
      get_member k (v_vmcs12 s) B = take_bit (8 * member_size k) (v_vmcs s (v_cur s) f)"
    and three: "get_member v12_vm_exit_reason (v_vmcs12 s) B = ucast r"
    "get_member v12_vm_exit_intr_info (v_vmcs12 s) B = ucast i"
    "get_member v12_exit_qualification (v_vmcs12 s) B = ucast q"
    and host: "\<And>k f. (k, f) \<in> set shadow_host_members \<Longrightarrow> get_member k (v_vmcs12 s) B =
       (if v_shadow_vmcs_enabled s
        then take_bit (8 * member_size k) (v_vmcs s (VIRT2PHYS (v_shadow_vmcs s)) f) else vmcs12 k s)"
    by (rule vmexit_synced_spec [OF al(1,2,4), of r i q], assumption, rule that, assumption+)
  define t where "t = (if v_shadow_vmcs_enabled s then copy_vmcs12_to_shadow (vmexit_synced r i q s)
    else vmexit_synced r i q s)"
  have s': "s' = back_to_l1 t" by (simp add: s'_def vmexit_alt t_def)
  have t: "v_bytes t = B" "v_vmcs12 t = v_vmcs12 s" "v_vmcs01 t = v_vmcs01 s" "v_vmcs02 t = v_vmcs02 s"
    "v_cpu t = v_cpu s" by (simp_all add: t_def e)
  have Lt: "v_launched t = L"
    using copy_to_shadow_spec(2) [of "vmexit_synced r i q s"] al(4) by (simp add: t_def e)
  note bk = back_to_l1_spec [of t, unfolded t(3), OF al(3), folded s']
  have m: "vmcs12 k s' = get_member k (v_vmcs12 s) B" "vmcs12 k t = get_member k (v_vmcs12 s) B" for k
    by (simp_all add: vmcs12_def bk t)
  have hm: "(v12_host_rip, HOST_RIP) \<in> set shadow_host_members" "(v12_host_rsp, HOST_RSP) \<in> set shadow_host_members"
    by (simp_all add: shadow_host_members_def)
  show "v_guest_mode s' = 0" "v_state s' = 0" "v_cur s' = VIRT2PHYS (v_vmcs01 s)"
    by (simp_all add: bk)
  show "g_rip (v_guest s') = (if v_shadow_vmcs_enabled s
      then v_vmcs s (VIRT2PHYS (v_shadow_vmcs s)) HOST_RIP else vmcs12 v12_host_rip s)"
    "r_rsp (g_regs (v_guest s')) = (if v_shadow_vmcs_enabled s
      then v_vmcs s (VIRT2PHYS (v_shadow_vmcs s)) HOST_RSP else vmcs12 v12_host_rsp s)"
    using host [OF hm(1)] host [OF hm(2)] by (simp_all add: bk m host_members_8)
  show "v_vmcs s' (VIRT2PHYS (v_vmcs01 s)) GUEST_RIP = g_rip (v_guest s')"
    if "c_vmwrite_ok (v_cpu s) GUEST_RIP" using that by (simp add: bk t)
  show "vmcs12 k s' = take_bit (8 * member_size k) (v_vmcs s (v_cur s) f)"
    if "(k, f) \<in> set sync_members" "k \<noteq> v12_vm_exit_reason" "k \<noteq> v12_vm_exit_intr_info"
      "k \<noteq> v12_exit_qualification" using sync [OF that] by (simp add: m)
  show "vmcs12 v12_vm_exit_reason s' = ucast r" "vmcs12 v12_vm_exit_intr_info s' = ucast i"
    "vmcs12 v12_exit_qualification s' = ucast q" by (simp_all add: m three)
  show "v_vmcs s' (VIRT2PHYS (v_shadow_vmcs s)) f = cut f x"
    if "v_shadow_vmcs_enabled s" "f \<in> set shadow_fields" "c_vmwrite_ok (v_cpu s) f"
      "vmcs12_read_any (v_vmcs12 s') f (v_bytes s') = Inr x"
    using copy_to_shadow_spec(4) [of "vmexit_synced r i q s" f x] that al
    by (simp add: bk(4,5) t bk(11)) (simp add: t_def e)
  show "v_vmcs01 s' = v_vmcs01 s" "v_vmcs02 s' = v_vmcs02 s" by (simp_all add: bk t)
  show "v_launched s' p = (if p = v_cur s \<or> v_shadow_vmcs_enabled s \<and> p = VIRT2PHYS (v_shadow_vmcs s)
      then False else v_launched s p)" by (simp add: bk Lt L)
qed


section \<open>The way into L2\<close>

text \<open>What preparing the control fields leaves alone: everything but the current VMCS, the page
  tables and the bytes of the software VMCSs.\<close>

definition ctrl_frame :: "vmx \<Rightarrow> vmx \<Rightarrow> bool" where
  "ctrl_frame s s' \<longleftrightarrow> v_cur s' = v_cur s \<and> v_launched s' = v_launched s \<and> v_state s' = v_state s \<and>
     v_guest_mode s' = v_guest_mode s \<and> v_vmcs01 s' = v_vmcs01 s \<and> v_vmcs02 s' = v_vmcs02 s \<and>
     v_vmcs12 s' = v_vmcs12 s \<and> v_shadow_vmcs s' = v_shadow_vmcs s \<and>
     v_shadow_vmcs_enabled s' = v_shadow_vmcs_enabled s \<and> v_cpu s' = v_cpu s \<and>
     v_guest s' = v_guest s \<and> (\<forall>p. p \<noteq> v_cur s \<longrightarrow> v_vmcs s' p = v_vmcs s p)"

lemma ctrl_frame_refl: "ctrl_frame s s"
  by (simp add: ctrl_frame_def)

lemma ctrl_frame_trans: "ctrl_frame s t \<Longrightarrow> ctrl_frame t u \<Longrightarrow> ctrl_frame s u"
  by (simp add: ctrl_frame_def)

lemma ctrl_frame_write: "ctrl_frame s (vmcs_write f v s)" "ctrl_frame s (vmcs_writes ws s)"
  by (simp_all add: ctrl_frame_def vmcs_write_other vmcs_writes_other)

lemma ctrl_frame_parts: "ctrl_frame s (s\<lparr>v_km := m\<rparr>)" "ctrl_frame s (set_revision_id p v s)"
  by (simp_all add: ctrl_frame_def set_revision_id_def)

lemma run_steps_frame:
  assumes "\<forall>f\<in>set fs. \<forall>s ok s'. f s = Some (ok, s') \<longrightarrow> ctrl_frame s s'"
  shows "run_steps fs s = Some (ok, s') \<Longrightarrow> ctrl_frame s s'"
  using assms
proof (induction fs s rule: run_steps.induct)
  case (1 s)
  then show ?case by (simp add: ctrl_frame_refl)
next
  case (2 f fs s)
  from "2.prems"(1) obtain b t where f: "f s = Some (b, t)" by (auto split: option.splits)
  with "2.prems"(2) have t: "ctrl_frame s t" by simp
  show ?case
  proof (cases b)
    case True
    with f "2.prems" have "run_steps fs t = Some (ok, s')" by simp
    then have "ctrl_frame t s'" using "2.IH" [OF f refl] True "2.prems"(2) by simp
    with t show ?thesis by (rule ctrl_frame_trans)
  next
    case False
    with f "2.prems"(1) t show ?thesis by simp
  qed
qed

lemma xlate_frame: "xlate_member k f s = Some (ok, s') \<Longrightarrow> ctrl_frame s s'"
  by (auto simp: xlate_member_def ctrl_frame_refl ctrl_frame_write split: sum.splits)

lemma ensure_frame: "ensure_shadow_ept s = Some (ok, s') \<Longrightarrow> ctrl_frame s s'"
  by (auto simp: ensure_shadow_ept_def vm_zalloc_page_def ctrl_frame_refl split: if_splits bind_splits
      intro: ctrl_frame_trans [OF ctrl_frame_parts(1) ctrl_frame_write(1)])

lemma link_frame: "link_pointer_step s = Some (ok, s') \<Longrightarrow> ctrl_frame s s'"
proof -
  assume a: "link_pointer_step s = Some (ok, s')"
  define t where "t = vmcs_write VMCS_LINK_POINTER (- 1) s"
  define first where "first s = (if vmcs12 v12_vmcs_link_pointer s = 0xffffffffffffffff then Some (True, s)
             else (case gpa_to_hpa (vmcs12 v12_vmcs_link_pointer s) s of
               Inl _ \<Rightarrow> Some (False, s)
             | Inr hpa \<Rightarrow> Some (True, vmcs_write VMCS_LINK_POINTER hpa
                 (set_revision_id (PHYS2VIRT hpa) (0x80000000 OR rdmsr MSR_IA32_VMX_BASIC s) s))))" for s
  have 1: "ctrl_frame s s'" if "first s = Some (ok, s')" for s ok s'
    using that
    by (auto simp: first_def ctrl_frame_refl split: if_splits sum.splits
        intro: ctrl_frame_trans [OF ctrl_frame_parts(2) ctrl_frame_write(1)])
  have "link_pointer_step s = (if vmcs12 v12_secondary_vm_exec_control t AND SECONDARY_EXEC_SHADOW_VMCS = 0
      then Some (True, t)
      else run_steps [first, xlate_member v12_vmread_bitmap VMREAD_BITMAP,
        xlate_member v12_vmwrite_bitmap VMWRITE_BITMAP] t)"
    unfolding link_pointer_step_def Let_def t_def first_def ..
  then have "ctrl_frame t s'"
    using a run_steps_frame [of "[first, xlate_member v12_vmread_bitmap VMREAD_BITMAP,
        xlate_member v12_vmwrite_bitmap VMWRITE_BITMAP]" t ok s'] 1 xlate_frame
    by (auto simp: ctrl_frame_refl split: if_splits)
  then show ?thesis using ctrl_frame_trans [OF ctrl_frame_write(1)] t_def by blast
qed

lemma set_ctrl_frame: "nested_vmx_set_ctrl_state s = Some (r, s') \<Longrightarrow> ctrl_frame s s'"
proof -
  assume a: "nested_vmx_set_ctrl_state s = Some (r, s')"
  let ?fs = "[xlate_member v12_io_bitmap_a IO_BITMAP_A,
        xlate_member v12_io_bitmap_b IO_BITMAP_B,
        xlate_member v12_msr_bitmap MSR_BITMAP,
        xlate_member v12_vm_entry_msr_load_addr VM_ENTRY_MSR_LOAD_ADDR,
        xlate_member v12_vm_exit_msr_store_addr VM_EXIT_MSR_STORE_ADDR,
        xlate_member v12_vm_exit_msr_load_addr VM_EXIT_MSR_LOAD_ADDR,
        xlate_member v12_virtual_apic_page_addr VIRTUAL_APIC_PAGE_ADDR,
        ensure_shadow_ept, posted_intr_step, link_pointer_step, final_ctrl_writes]"
  let ?t = "vmcs_write VIRTUAL_PROCESSOR_ID (vmcs12 v12_virtual_processor_id s) s"
  from a obtain ok where "run_steps ?fs ?t = Some (ok, s')"
    unfolding nested_vmx_set_ctrl_state_def by (auto split: bind_splits)
  moreover have "\<forall>f\<in>set ?fs. \<forall>s ok s'. f s = Some (ok, s') \<longrightarrow> ctrl_frame s s'"
    using xlate_frame ensure_frame link_frame
    by (auto simp: posted_intr_step_def final_ctrl_writes_def ctrl_frame_refl ctrl_frame_write
        split: if_splits)
  ultimately have "ctrl_frame ?t s'" by (rule run_steps_frame [rotated])
  then show ?thesis by (rule ctrl_frame_trans [OF ctrl_frame_write(1)])
qed

text \<open>The guest-state fields L2 starts with are the members of the struct, cut to their widths.\<close>

definition guest_state_fields :: "u64 list" where
  "guest_state_fields = vmcs_16bit_guest_state_fields @ vmcs_32bit_guest_state_fields @
     vmcs_64bit_guest_state_fields @ vmcs_natural_width_guest_state_fields"

lemma set_guest_state_alt:
  "nested_vmx_set_guest_state s = (let t = snd (copy_in guest_state_fields (v_junk s) s) in
     vmcs_writes [(CR0_READ_SHADOW, vmcs12 v12_cr0_read_shadow t),
           (CR4_READ_SHADOW, vmcs12 v12_cr4_read_shadow t),
           (APIC_ACCESS_ADDR, vmcs12 v12_apic_access_addr t)] t)"
  by (simp only: nested_vmx_set_guest_state_def guest_state_fields_def Let_def split_def
      copy_in_append append_assoc)

lemma vmcs_writes_unlisted:
  "f \<notin> fst ` set ws \<Longrightarrow> v_vmcs (vmcs_writes ws s) p f = v_vmcs s p f"
proof (induction ws arbitrary: s)
  case (Cons w ws)
  have "v_vmcs (vmcs_write (fst w) (snd w) s) p f = v_vmcs s p f"
    using Cons.prems by (auto simp: vmcs_write_def)
  then show ?case using Cons by (simp add: vmcs_writes_def split_def)
qed (simp add: vmcs_writes_def)

lemma read_any_member:
  assumes "(f, k, 0) \<in> set vmcs12_encodings" "k \<notin> {39, 82, 130}" "member_class k = width_bytes (field_width f)"
  shows "vmcs12_read_any (v_vmcs12 s) f (v_bytes s) = Inr (vmcs12 k s)"
  using access_listed(1) [OF assms(1)] member_size_eq [of k] encodingsD(2,3) [OF assms(1)] assms(2,3)
  by (simp add: vmcs12_def get_member_def)

lemma set_guest_state_frame: "ctrl_frame s (nested_vmx_set_guest_state s)"
  by (simp add: set_guest_state_alt Let_def ctrl_frame_def vmcs_writes_other copy_in_other)

lemma set_guest_state_value:
  assumes "v_cur s \<noteq> NO_VMCS" "c_vmwrite_ok (v_cpu s) f" "f \<in> set guest_state_fields"
    and "vmcs12_read_any (v_vmcs12 s) f (v_bytes s) = Inr x"
    and "f \<notin> {CR0_READ_SHADOW, CR4_READ_SHADOW, APIC_ACCESS_ADDR}"
  shows "v_vmcs (nested_vmx_set_guest_state s) (v_cur s) f = cut f x"
  using copy_in_value [OF assms(1,2,4), of guest_state_fields "v_junk s"] assms(3,5)
  by (simp add: set_guest_state_alt Let_def vmcs_writes_unlisted)


lemma copy_out_simps [simp]:
  "v_vmcs12 (copy_out fs s) = v_vmcs12 s" "v_cur (copy_out fs s) = v_cur s"
  "v_vmcs (copy_out fs s) = v_vmcs s" "v_launched (copy_out fs s) = v_launched s"
  "v_guest (copy_out fs s) = v_guest s" "v_state (copy_out fs s) = v_state s"
  "v_guest_mode (copy_out fs s) = v_guest_mode s" "v_vmcs01 (copy_out fs s) = v_vmcs01 s"
  "v_vmcs02 (copy_out fs s) = v_vmcs02 s" "v_shadow_vmcs (copy_out fs s) = v_shadow_vmcs s"
  "v_shadow_vmcs_enabled (copy_out fs s) = v_shadow_vmcs_enabled s"
  "v_cpu (copy_out fs s) = v_cpu s"
  using copy_out_frame [of fs s] by auto

lemma copy_shadow_simps [simp]:
  "v_vmcs12 (copy_shadow_to_vmcs12 s) = v_vmcs12 s" "v_vmcs (copy_shadow_to_vmcs12 s) = v_vmcs s"
  "v_guest (copy_shadow_to_vmcs12 s) = v_guest s" "v_guest_mode (copy_shadow_to_vmcs12 s) = v_guest_mode s"
  "v_vmcs01 (copy_shadow_to_vmcs12 s) = v_vmcs01 s" "v_vmcs02 (copy_shadow_to_vmcs12 s) = v_vmcs02 s"
  "v_shadow_vmcs (copy_shadow_to_vmcs12 s) = v_shadow_vmcs s"
  "v_shadow_vmcs_enabled (copy_shadow_to_vmcs12 s) = v_shadow_vmcs_enabled s"
  "v_cpu (copy_shadow_to_vmcs12 s) = v_cpu s"
  by (simp_all add: copy_shadow_to_vmcs12_def Let_def)

lemma copy_shadow_launched:
  assumes "v_cur s AND 0xfff = 0" "VIRT2PHYS (v_shadow_vmcs s) AND 0xfff = 0"
  shows "v_cur (copy_shadow_to_vmcs12 s) = v_cur s"
    and "v_launched (copy_shadow_to_vmcs12 s) =
      (v_launched s)(v_cur s := False, VIRT2PHYS (v_shadow_vmcs s) := False)"
  using assms
  by (simp_all add: copy_shadow_to_vmcs12_def Let_def vmptr_load_def vmptr_store_def vmclear_def)

definition in_l1 :: "vmx \<Rightarrow> bool" where
  "in_l1 s \<longleftrightarrow> v_cur s = VIRT2PHYS (v_vmcs01 s) \<and> v_cur s AND 0xfff = 0 \<and>
     VIRT2PHYS (v_vmcs02 s) AND 0xfff = 0 \<and> VIRT2PHYS (v_vmcs02 s) \<noteq> VIRT2PHYS (v_vmcs01 s) \<and>
     (v_shadow_vmcs_enabled s \<longrightarrow> VIRT2PHYS (v_shadow_vmcs s) AND 0xfff = 0)"

lemma save_host_frame: "ctrl_frame s (nested_vmx_save_host_state s)"
  by (simp add: nested_vmx_save_host_state_def Let_def emit_def ctrl_frame_def vmcs_writes_other)

lemma run_spec:
  assumes "in_l1 s" "nested_vmx_run s = Some (r, s')"
  shows "r = 0" "v_guest_mode s' = 1" "v_state s' = 0" "v_cur s' = VIRT2PHYS (v_vmcs02 s)"
    and "g_rip (v_guest s') = vmcs12 v12_guest_rip s'"
    and "r_rsp (g_regs (v_guest s')) = vmcs12 v12_guest_rsp s'"
    and "v_launched s' p = (if p = v_cur s \<or> v_shadow_vmcs_enabled s \<and> p = VIRT2PHYS (v_shadow_vmcs s)
      then False else v_launched s p)"
    and "v_vmcs01 s' = v_vmcs01 s" "v_vmcs02 s' = v_vmcs02 s" "v_shadow_vmcs s' = v_shadow_vmcs s"
    and "v_shadow_vmcs_enabled s' = v_shadow_vmcs_enabled s" "v_cpu s' = v_cpu s"
    and "\<lbrakk>c_vmwrite_ok (v_cpu s) f; f \<in> set guest_state_fields;
        f \<notin> {CR0_READ_SHADOW, CR4_READ_SHADOW, APIC_ACCESS_ADDR};
        vmcs12_read_any (v_vmcs12 s') f (v_bytes s') = Inr x\<rbrakk> \<Longrightarrow>
      v_vmcs s' (VIRT2PHYS (v_vmcs02 s)) f = cut f x"
proof -
  define s0 where "s0 = (if v_shadow_vmcs_enabled s then copy_shadow_to_vmcs12 s else s)"
  define s1 where "s1 = vmptr_load (VIRT2PHYS (v_vmcs02 s0)) ((vmclear (VIRT2PHYS (v_vmcs01 s0)) s0)\<lparr>v_state := 0\<rparr>)"
  obtain ret s2 where c: "nested_vmx_set_ctrl_state s1 = Some (ret, s2)"
    and s': "s' = (let t = nested_vmx_set_guest_state (nested_vmx_save_host_state s2);
       t = set_g (g_rip_update (\<lambda>_. vmcs12 v12_guest_rip t)) t;
       t = set_regs (r_rsp_update (\<lambda>_. vmcs12 v12_guest_rsp t)) t in t\<lparr>v_guest_mode := 1\<rparr>)"
    and r: "r = 0"
    using assms(2) unfolding nested_vmx_run_def prepare_vmcs02_def Let_def s0_def [symmetric]
    by (auto simp: s1_def split: bind_splits)
  define t where "t = nested_vmx_save_host_state s2"
  define u where "u = nested_vmx_set_guest_state t"
  have fr: "ctrl_frame s1 t" "ctrl_frame t u"
    using ctrl_frame_trans [OF set_ctrl_frame [OF c] save_host_frame] set_guest_state_frame
    by (simp_all add: t_def u_def)
  have fr1: "ctrl_frame s1 u" using fr by (rule ctrl_frame_trans)
  have su: "s' = (let t = set_g (g_rip_update (\<lambda>_. vmcs12 v12_guest_rip u)) u;
       t = set_regs (r_rsp_update (\<lambda>_. vmcs12 v12_guest_rsp t)) t in t\<lparr>v_guest_mode := 1\<rparr>)"
    using s' by (simp add: u_def t_def Let_def)
  have l1: "v_cur s = VIRT2PHYS (v_vmcs01 s)" "v_cur s AND 0xfff = 0" "VIRT2PHYS (v_vmcs02 s) AND 0xfff = 0"
    "VIRT2PHYS (v_vmcs02 s) \<noteq> VIRT2PHYS (v_vmcs01 s)"
    "v_shadow_vmcs_enabled s \<Longrightarrow> VIRT2PHYS (v_shadow_vmcs s) AND 0xfff = 0"
    using assms(1) unfolding in_l1_def by blast+
  have 0: "v_vmcs01 s0 = v_vmcs01 s" "v_vmcs02 s0 = v_vmcs02 s" "v_cur s0 = v_cur s"
    "v_shadow_vmcs s0 = v_shadow_vmcs s" "v_shadow_vmcs_enabled s0 = v_shadow_vmcs_enabled s"
    "v_cpu s0 = v_cpu s" "v_vmcs12 s0 = v_vmcs12 s"
    "v_launched s0 = (if v_shadow_vmcs_enabled s then (v_launched s)(v_cur s := False,
       VIRT2PHYS (v_shadow_vmcs s) := False) else v_launched s)"
    using copy_shadow_launched [OF l1(2,5)] by (simp_all add: s0_def)
  have 1: "v_cur s1 = VIRT2PHYS (v_vmcs02 s)" "v_state s1 = 0"
    "v_launched s1 = (v_launched s0)(v_cur s := False)"
    using l1 0 by (simp_all add: s1_def vmptr_load_def vmclear_def)
  have s1: "v_vmcs01 s1 = v_vmcs01 s" "v_vmcs02 s1 = v_vmcs02 s" "v_shadow_vmcs s1 = v_shadow_vmcs s"
    "v_shadow_vmcs_enabled s1 = v_shadow_vmcs_enabled s" "v_cpu s1 = v_cpu s"
    by (simp_all add: s1_def 0)
  note u = fr1 [unfolded ctrl_frame_def]
  show "r = 0" by (rule r)
  show "v_guest_mode s' = 1" "v_state s' = 0" "v_cur s' = VIRT2PHYS (v_vmcs02 s)"
    "v_vmcs01 s' = v_vmcs01 s" "v_vmcs02 s' = v_vmcs02 s" "v_shadow_vmcs s' = v_shadow_vmcs s"
    "v_shadow_vmcs_enabled s' = v_shadow_vmcs_enabled s" "v_cpu s' = v_cpu s"
    using u s1 by (simp_all add: su Let_def 1)
  show "g_rip (v_guest s') = vmcs12 v12_guest_rip s'" "r_rsp (g_regs (v_guest s')) = vmcs12 v12_guest_rsp s'"
    by (simp_all add: su Let_def vmcs12_def)
  show "v_launched s' p = (if p = v_cur s \<or> v_shadow_vmcs_enabled s \<and> p = VIRT2PHYS (v_shadow_vmcs s)
      then False else v_launched s p)"
    using u by (simp add: su Let_def 1 0)
  show "v_vmcs s' (VIRT2PHYS (v_vmcs02 s)) f = cut f x"
    if "c_vmwrite_ok (v_cpu s) f" "f \<in> set guest_state_fields"
      "f \<notin> {CR0_READ_SHADOW, CR4_READ_SHADOW, APIC_ACCESS_ADDR}"
      "vmcs12_read_any (v_vmcs12 s') f (v_bytes s') = Inr x"
  proof -
    have t: "v_cur t = VIRT2PHYS (v_vmcs02 s)" "v_cpu t = v_cpu s"
      using fr(1) s1 by (simp_all add: ctrl_frame_def 1)
    have "v_bytes u = v_bytes t" "v_vmcs12 u = v_vmcs12 t"
      by (simp_all add: u_def set_guest_state_alt Let_def)
    then have "vmcs12_read_any (v_vmcs12 t) f (v_bytes t) = Inr x"
      using that(4) by (simp add: su Let_def)
    then have "v_vmcs u (VIRT2PHYS (v_vmcs02 s)) f = cut f x"
      using set_guest_state_value [of t f x] that(1-3) aligned_not_NO_VMCS [OF l1(3)]
      by (simp add: u_def t)
    then show ?thesis by (simp add: su Let_def)
  qed
qed

lemma nested_enter_l2_parts:
  assumes "in_l1 s" and "nested_vmx_run s = Some (r, s')"
  shows "r = 0 \<and> v_guest_mode s' = 1 \<and> v_state s' = 0 \<and> v_cur s' = VIRT2PHYS (v_vmcs02 s) \<and>
      \<not> v_launched s' (VIRT2PHYS (v_vmcs01 s))"
    and "g_rip (v_guest s') = vmcs12 v12_guest_rip s' \<and> r_rsp (g_regs (v_guest s')) = vmcs12 v12_guest_rsp s'"
    and "\<lbrakk>c_vmwrite_ok (v_cpu s) f; f \<in> set guest_state_fields;
        f \<notin> {CR0_READ_SHADOW, CR4_READ_SHADOW, APIC_ACCESS_ADDR};
        vmcs12_read_any (v_vmcs12 s') f (v_bytes s') = Inr x\<rbrakk> \<Longrightarrow>
      v_vmcs s' (VIRT2PHYS (v_vmcs02 s)) f = cut f x"
    and "c_vmwrite_ok (v_cpu s) VMCS_LINK_POINTER \<Longrightarrow>
      v_vmcs s' (VIRT2PHYS (v_vmcs02 s)) VMCS_LINK_POINTER = vmcs12 v12_vmcs_link_pointer s'"
proof -
  note run = run_spec [OF assms]
  have "v_cur s = VIRT2PHYS (v_vmcs01 s)" using assms(1) by (simp add: in_l1_def)
  then show "r = 0 \<and> v_guest_mode s' = 1 \<and> v_state s' = 0 \<and> v_cur s' = VIRT2PHYS (v_vmcs02 s) \<and>
      \<not> v_launched s' (VIRT2PHYS (v_vmcs01 s))" using run(1-4) run(7) by simp
  show "g_rip (v_guest s') = vmcs12 v12_guest_rip s' \<and> r_rsp (g_regs (v_guest s')) = vmcs12 v12_guest_rsp s'"
    using run(5,6) by simp
  show "\<lbrakk>c_vmwrite_ok (v_cpu s) f; f \<in> set guest_state_fields;
        f \<notin> {CR0_READ_SHADOW, CR4_READ_SHADOW, APIC_ACCESS_ADDR};
        vmcs12_read_any (v_vmcs12 s') f (v_bytes s') = Inr x\<rbrakk> \<Longrightarrow>
      v_vmcs s' (VIRT2PHYS (v_vmcs02 s)) f = cut f x" by (rule run(13))
  assume w: "c_vmwrite_ok (v_cpu s) VMCS_LINK_POINTER"
  have "(VMCS_LINK_POINTER, v12_vmcs_link_pointer, 0) \<in> set vmcs12_encodings"
    by (simp add: vmcs12_encodings_def)
  then have "vmcs12_read_any (v_vmcs12 s') VMCS_LINK_POINTER (v_bytes s') = Inr (vmcs12 v12_vmcs_link_pointer s')"
    by (rule read_any_member) (simp_all add: v12_members field_width_def vmcs_fields)
  moreover have "VMCS_LINK_POINTER \<in> set guest_state_fields"
    by (simp add: guest_state_fields_def vmcs_64bit_guest_state_fields_def)
  moreover have "VMCS_LINK_POINTER \<notin> {CR0_READ_SHADOW, CR4_READ_SHADOW, APIC_ACCESS_ADDR}"
    "cut VMCS_LINK_POINTER x = x" for x
    by (simp_all add: vmcs_fields cut_def field_width_def)
  ultimately show "v_vmcs s' (VIRT2PHYS (v_vmcs02 s)) VMCS_LINK_POINTER = vmcs12 v12_vmcs_link_pointer s'"
    using run(13) [OF w] by simp
qed

text \<open>C5. Entering L2: when the switch returns, L2's VMCS is the current one and to be
  launched, L1's has been cleared, the registers are the ones the struct holds, and every
  guest-state field the processor lets be written has the struct's value. That includes the VMCS
  link pointer, which is left as the guest-physical address L1 wrote there: the host address
  \<^verbatim>\<open>nested_vmx_set_ctrl_state\<close> translated it to is overwritten.\<close>

theorem nested_enter_l2:
  assumes "in_l1 s" and "nested_vmx_run s = Some (r, s')"
  shows "r = 0 \<and> v_guest_mode s' = 1 \<and> v_state s' = 0 \<and> v_cur s' = VIRT2PHYS (v_vmcs02 s) \<and>
    \<not> v_launched s' (VIRT2PHYS (v_vmcs01 s)) \<and>
    g_rip (v_guest s') = vmcs12 v12_guest_rip s' \<and> r_rsp (g_regs (v_guest s')) = vmcs12 v12_guest_rsp s' \<and>
    (\<forall>f x. c_vmwrite_ok (v_cpu s) f \<longrightarrow> f \<in> set guest_state_fields \<longrightarrow>
      f \<notin> {CR0_READ_SHADOW, CR4_READ_SHADOW, APIC_ACCESS_ADDR} \<longrightarrow>
      vmcs12_read_any (v_vmcs12 s') f (v_bytes s') = Inr x \<longrightarrow>
      v_vmcs s' (VIRT2PHYS (v_vmcs02 s)) f = cut f x) \<and>
    (c_vmwrite_ok (v_cpu s) VMCS_LINK_POINTER \<longrightarrow>
      v_vmcs s' (VIRT2PHYS (v_vmcs02 s)) VMCS_LINK_POINTER = vmcs12 v12_vmcs_link_pointer s')"
  using nested_enter_l2_parts [OF assms] by (intro conjI allI impI) (assumption | rule refl | simp)+

lemma nested_exit_to_l1_parts:
  fixes s r
  defines "s' \<equiv> snd (nested_vmx_reflect_vmexit r s)"
  assumes "in_l2 s"
  shows "v_guest_mode s' = 0 \<and> v_state s' = 0 \<and> v_cur s' = VIRT2PHYS (v_vmcs01 s) \<and>
      \<not> v_launched s' (VIRT2PHYS (v_vmcs02 s))"
    and "g_rip (v_guest s') = (if v_shadow_vmcs_enabled s
      then v_vmcs s (VIRT2PHYS (v_shadow_vmcs s)) HOST_RIP else vmcs12 v12_host_rip s)"
    and "r_rsp (g_regs (v_guest s')) = (if v_shadow_vmcs_enabled s
      then v_vmcs s (VIRT2PHYS (v_shadow_vmcs s)) HOST_RSP else vmcs12 v12_host_rsp s)"
    and "c_vmwrite_ok (v_cpu s) GUEST_RIP \<Longrightarrow>
      v_vmcs s' (VIRT2PHYS (v_vmcs01 s)) GUEST_RIP = g_rip (v_guest s')"
    and "\<lbrakk>(k, f) \<in> set sync_members; k \<noteq> v12_vm_exit_reason; k \<noteq> v12_vm_exit_intr_info;
        k \<noteq> v12_exit_qualification\<rbrakk> \<Longrightarrow>
      vmcs12 k s' = take_bit (8 * member_size k) (v_vmcs s (v_cur s) f)"
    and "vmcs12 v12_vm_exit_reason s' = ucast r"
    and "vmcs12 v12_exit_qualification s' = take_bit 32 (v_vmcs s (v_cur s) EXIT_QUALIFICATION)"
    and "\<lbrakk>v_shadow_vmcs_enabled s; f \<in> set shadow_fields; c_vmwrite_ok (v_cpu s) f;
        vmcs12_read_any (v_vmcs12 s') f (v_bytes s') = Inr x\<rbrakk> \<Longrightarrow>
      v_vmcs s' (VIRT2PHYS (v_shadow_vmcs s)) f = cut f x"
proof -
  have u: "ucast (ucast v :: u32) = (take_bit 32 v :: u64)" for v :: u64
    by (rule bit_word_eqI) (auto simp: bit_take_bit_iff bit_ucast_iff)
  note spec = vmexit_spec [OF assms(2), where r = r and
      i = "ucast (vmcs_read VM_EXIT_INTR_INFO s)" and q = "ucast (vmcs_read EXIT_QUALIFICATION s)", folded nested_vmx_reflect_vmexit_def, folded s'_def]
  have "v_cur s = VIRT2PHYS (v_vmcs02 s)" using assms(2) by (simp add: in_l2_def)
  then show "v_guest_mode s' = 0 \<and> v_state s' = 0 \<and> v_cur s' = VIRT2PHYS (v_vmcs01 s) \<and>
      \<not> v_launched s' (VIRT2PHYS (v_vmcs02 s))" using spec(1-3) spec(14) by simp
  show "vmcs12 v12_exit_qualification s' = take_bit 32 (v_vmcs s (v_cur s) EXIT_QUALIFICATION)"
    using spec(10) by (simp add: u vmcs_read_def)
qed (use vmexit_spec [OF assms(2), where r = r and
      i = "ucast (vmcs_read VM_EXIT_INTR_INFO s)" and q = "ucast (vmcs_read EXIT_QUALIFICATION s)", folded nested_vmx_reflect_vmexit_def, folded s'_def] in \<open>blast+\<close>)

text \<open>C35. An exit that is reflected brings back L1 as its host state says: L1's VMCS is
  current and to be launched, instruction and stack pointer are the host fields L1 set (in the
  shadow VMCS when there is one), the struct describes the state L2 was left in and the exit, and
  L1 finds the same in the shadow VMCS. The exit qualification arrives cut to 32 bits.\<close>

theorem nested_exit_to_l1:
  fixes s r
  defines "s' \<equiv> snd (nested_vmx_reflect_vmexit r s)"
  assumes "in_l2 s"
  shows "v_guest_mode s' = 0 \<and> v_state s' = 0 \<and> v_cur s' = VIRT2PHYS (v_vmcs01 s) \<and>
    \<not> v_launched s' (VIRT2PHYS (v_vmcs02 s)) \<and>
    g_rip (v_guest s') = (if v_shadow_vmcs_enabled s
      then v_vmcs s (VIRT2PHYS (v_shadow_vmcs s)) HOST_RIP else vmcs12 v12_host_rip s) \<and>
    r_rsp (g_regs (v_guest s')) = (if v_shadow_vmcs_enabled s
      then v_vmcs s (VIRT2PHYS (v_shadow_vmcs s)) HOST_RSP else vmcs12 v12_host_rsp s) \<and>
    (c_vmwrite_ok (v_cpu s) GUEST_RIP \<longrightarrow>
      v_vmcs s' (VIRT2PHYS (v_vmcs01 s)) GUEST_RIP = g_rip (v_guest s')) \<and>
    (\<forall>k f. (k, f) \<in> set sync_members \<longrightarrow> k \<noteq> v12_vm_exit_reason \<longrightarrow> k \<noteq> v12_vm_exit_intr_info \<longrightarrow>
      k \<noteq> v12_exit_qualification \<longrightarrow>
      vmcs12 k s' = take_bit (8 * member_size k) (v_vmcs s (v_cur s) f)) \<and>
    vmcs12 v12_vm_exit_reason s' = ucast r \<and>
    vmcs12 v12_exit_qualification s' = take_bit 32 (v_vmcs s (v_cur s) EXIT_QUALIFICATION) \<and>
    (\<forall>f x. v_shadow_vmcs_enabled s \<longrightarrow> f \<in> set shadow_fields \<longrightarrow> c_vmwrite_ok (v_cpu s) f \<longrightarrow>
      vmcs12_read_any (v_vmcs12 s') f (v_bytes s') = Inr x \<longrightarrow>
      v_vmcs s' (VIRT2PHYS (v_shadow_vmcs s)) f = cut f x)"
  unfolding s'_def
  by (intro conjI allI impI) (use nested_exit_to_l1_parts [OF assms(2), where r = r] in \<open>blast+\<close>)

lemma nested_ept_violation_composes_parts:
  fixes s
  defines "l2gpa \<equiv> vmcs_read GUEST_PHYSICAL_ADDRESS s"
    and "root \<equiv> PHYS2VIRT (PT_ENTRY_ADDR (vmcs_read EPT_POINTER s))"
    and "l1 \<equiv> nested_ept_l2gpa_to_l1gpa (v_eptp_base s) (vmcs12 v12_ept_pointer s)
      (vmcs_read GUEST_PHYSICAL_ADDRESS s) (v_km s)"
  shows "\<lbrakk>l1 = Inr l1gpa; gpa_to_hpa l1gpa s = Inr hpa; ept_tree own root (v_km s);
      room (km_boot (v_km s)) 3\<rbrakk> \<Longrightarrow>
    \<exists>s'. nested_vmx_handle_ept_volation s = Some (0, s') \<and>
      (\<forall>g. ept_gpa_to_hpa root g (v_km s') =
        (if page_number g = page_number l2gpa then Inr (PT_ENTRY_ADDR hpa + PG_4KB_OFFSET g)
         else ept_gpa_to_hpa root g (v_km s)))"
    and "l1 = Inl e \<or> l1 = Inr l1gpa \<and> gpa_to_hpa l1gpa s = Inl e \<Longrightarrow>
      nested_vmx_handle_ept_volation s = Some (1, s)"
proof -
  let ?attr = "EPT_READ OR EPT_WRITE OR EPT_EXECUTE OR EPT_CACHE_WB"
  have attr: "?attr < 0x1000" "?attr AND EPT_RWX \<noteq> 0" by (simp_all add: ept_bits)
  assume a: "l1 = Inr l1gpa" "gpa_to_hpa l1gpa s = Inr hpa" "ept_tree own root (v_km s)"
    "room (km_boot (v_km s)) 3"
  have r3: "room (km_boot (v_km s)) (Suc (Suc (Suc 0)))" using a(4) by (simp add: eval_nat_numeral)
  obtain km own' where km: "ept_map_page root l2gpa (PT_ENTRY_ADDR hpa) 0x1000 ?attr (v_km s) = Some km"
    "ept_tree own' root km" "room (km_boot km) 0" "km_invept km = VIRT2PHYS root # km_invept (v_km s)"
    "\<And>g. ept_gpa_to_hpa root g km = (if page_number g = page_number l2gpa
       then leaf_result (PT_ENTRY_ADDR hpa OR ?attr) g else ept_gpa_to_hpa root g (v_km s))"
    by (rule ept_map_page_4k [OF a(3) r3, where gpa = l2gpa and hpa = "PT_ENTRY_ADDR hpa" and attr = ?attr],
        rule that, assumption+)
  have al: "PT_ENTRY_ADDR hpa AND 0xfff = 0"
    unfolding PT_ENTRY_ADDR_def by (simp add: and.assoc)
  show "\<exists>s'. nested_vmx_handle_ept_volation s = Some (0, s') \<and>
      (\<forall>g. ept_gpa_to_hpa root g (v_km s') =
        (if page_number g = page_number l2gpa then Inr (PT_ENTRY_ADDR hpa + PG_4KB_OFFSET g)
         else ept_gpa_to_hpa root g (v_km s)))"
  proof (intro exI conjI allI)
    show "nested_vmx_handle_ept_volation s = Some (0, s\<lparr>v_km := km\<rparr>)"
      using a(1,2) km(1) unfolding l1_def l2gpa_def root_def
      by (simp add: nested_vmx_handle_ept_volation_def Let_def)
    show "ept_gpa_to_hpa root g (v_km (s\<lparr>v_km := km\<rparr>)) =
        (if page_number g = page_number l2gpa then Inr (PT_ENTRY_ADDR hpa + PG_4KB_OFFSET g)
         else ept_gpa_to_hpa root g (v_km s))" for g
      using km(5) [of g] leaf_result_aligned [OF al attr] by simp
  qed
next
  assume "l1 = Inl e \<or> l1 = Inr l1gpa \<and> gpa_to_hpa l1gpa s = Inl e"
  then show "nested_vmx_handle_ept_volation s = Some (1, s)"
    unfolding l1_def by (auto simp: nested_vmx_handle_ept_volation_def Let_def)
qed

text \<open>C14. An EPT violation of L2 that both L1's tables and the host's resolve is handled by one
  entry of the shadow table: afterwards it sends the page of the faulting L2 address where the two
  translations in a row send it, and all other pages where they went before. If either walk fails
  nothing changes and the handler returns 1.\<close>

theorem nested_ept_violation_composes:
  fixes s
  defines "l2gpa \<equiv> vmcs_read GUEST_PHYSICAL_ADDRESS s"
    and "root \<equiv> PHYS2VIRT (PT_ENTRY_ADDR (vmcs_read EPT_POINTER s))"
    and "l1 \<equiv> nested_ept_l2gpa_to_l1gpa (v_eptp_base s) (vmcs12 v12_ept_pointer s)
      (vmcs_read GUEST_PHYSICAL_ADDRESS s) (v_km s)"
  assumes "ept_tree own root (v_km s)" "room (km_boot (v_km s)) 3"
  shows "(l1 = Inr l1gpa \<and> gpa_to_hpa l1gpa s = Inr hpa \<longrightarrow>
    (\<exists>s'. nested_vmx_handle_ept_volation s = Some (0, s') \<and>
      (\<forall>g. ept_gpa_to_hpa root g (v_km s') =
        (if page_number g = page_number l2gpa then Inr (PT_ENTRY_ADDR hpa + PG_4KB_OFFSET g)
         else ept_gpa_to_hpa root g (v_km s))))) \<and>
    (l1 = Inl e \<or> l1 = Inr l1gpa \<and> gpa_to_hpa l1gpa s = Inl e \<longrightarrow>
      nested_vmx_handle_ept_volation s = Some (1, s))"
  using nested_ept_violation_composes_parts(1) [where s = s and l1gpa = l1gpa and hpa = hpa and own = own]
    nested_ept_violation_composes_parts(2) [where s = s and l1gpa = l1gpa and e = e] assms(4,5)
  unfolding l2gpa_def root_def l1_def by blast

section \<open>Witnesses\<close>

text \<open>A processor without a guest: all registers 0, every field may be written; the host's page
  tables map the first gigabyte onto itself and L1's do the same.\<close>

definition demo_regs :: general_regs where
  "demo_regs = \<lparr>r_rax = 0, r_rbx = 0, r_rcx = 0, r_rdx = 0, r_rsi = 0, r_rdi = 0, r_rsp = 0, r_rbp = 0,
     r_r8 = 0, r_r9 = 0, r_r10 = 0, r_r11 = 0, r_r12 = 0, r_r13 = 0, r_r14 = 0, r_r15 = 0\<rparr>"

definition demo_cpu :: cpu where
  "demo_cpu = \<lparr>c_cr0 = 0, c_cr2 = 0, c_cr3 = 0, c_cr4 = 0, c_cr8 = 0, c_xcr0 = 1, c_msr = (\<lambda>_. 0),
     c_gdtr_base = 0, c_idtr_base = 0, c_cs = 8, c_ds = 16, c_es = 16, c_fs = 16, c_gs = 16, c_ss = 16,
     c_tr = 24, c_rsp = 0, c_vm_exit = 0, c_cpuid = (\<lambda>_ _. (1, 2, 3, 4)), c_vmwrite_ok = (\<lambda>_. True)\<rparr>"

definition demo_segment :: segment where
  "demo_segment = \<lparr>s_selector = 0, s_base = 0, s_limit = 0, s_ar_bytes = 0\<rparr>"

definition demo_guest :: guest_state where
  "demo_guest = \<lparr>g_rip = 0, g_rflags = 0, g_regs = demo_regs, g_fp_regs = 0, g_cs = demo_segment,
     g_ds = demo_segment, g_es = demo_segment, g_fs = demo_segment, g_gs = demo_segment,
     g_ss = demo_segment, g_tr = demo_segment, g_ldtr = demo_segment, g_cr0 = 0, g_cr2 = 0, g_cr3 = 0,
     g_cr4 = 0, g_cr8 = 0, g_xcr0 = 0, g_cr0_read_shadow = 0, g_cr4_read_shadow = 0, g_gdtr_base = 0,
     g_gdtr_limit = 0, g_idtr_base = 0, g_idtr_limit = 0, g_msr = 0, g_pdpte0 = 0, g_pdpte1 = 0,
     g_pdpte2 = 0, g_pdpte3 = 0\<rparr>"

definition demo_tables :: kmem where
  "demo_tables = write_pg (frame 0x11) 0 0x87 (write_pg (frame 0x10) 0 0x11007
     (write_pg (frame 0x21) 0 0x87 (write_pg (frame 0x20) 0 0x21007 demo_kmem)))"

definition demo_vmx :: vmx where
  "demo_vmx = \<lparr>v_state = 1, v_guest_mode = 0, v_virtual_processor_id = 1, v_vmxon_region = 0,
     v_vmcs01 = PHYS2VIRT 0x30000, v_vmcs12 = PHYS2VIRT 0x33000, v_vmcs02 = PHYS2VIRT 0x31000,
     v_shadow_vmcs = PHYS2VIRT 0x32000, v_shadow_vmcs_enabled = False, v_vmread_bitmap = 0,
     v_vmwrite_bitmap = 0, v_io_bitmap_a = 0, v_io_bitmap_b = 0, v_vapic_page = 0, v_msr_bitmap = 0,
     v_eptp_base = frame 0x20, v_posted_intr_addr = 0, v_host_fp_regs = 0, v_host_xcr0 = 0,
     v_host_msr = 0, v_guest = demo_guest, v_guest_memory = [], v_cpu = demo_cpu,
     v_vmcs = (\<lambda>p. \<lambda>f. if f = EPT_POINTER then 0x505e else if f = GUEST_PHYSICAL_ADDRESS then 0x7010
       else if f = EXIT_QUALIFICATION then 0x100000002 else if f = HOST_RIP then 0x4000 else 0),
     v_launched = (\<lambda>p. p = 0x30000), v_cur = 0x30000, v_km = demo_tables,
     v_bytes = set_member v12_ept_pointer 0x1001e (PHYS2VIRT 0x33000) (\<lambda>_. 0), v_events = [], v_junk = 7,
     v_beyond = (\<lambda>_. 0)\<rparr>"

definition demo_l2 :: vmx where
  "demo_l2 = demo_vmx\<lparr>v_cur := 0x31000, v_guest_mode := 1, v_shadow_vmcs_enabled := True\<rparr>"

lemma demo_read:
  "q < LIMIT_PAGES \<Longrightarrow> i < 512 \<Longrightarrow> read_pg (frame q) i demo_tables =
     (if q = 0x11 \<and> i = 0 \<or> q = 0x21 \<and> i = 0 then 0x87 else if q = 0x10 \<and> i = 0 then 0x11007
      else if q = 0x20 \<and> i = 0 then 0x21007 else 0)"
proof -
  assume a: "q < LIMIT_PAGES" "i < 512"
  have l: "0x10 < LIMIT_PAGES" "0x11 < LIMIT_PAGES" "0x20 < LIMIT_PAGES" "0x21 < LIMIT_PAGES"
    by (simp_all add: LIMIT_PAGES_def)
  have z: "read_pg t j demo_kmem = 0" for t j by (simp add: demo_kmem_def read_pg_def)
  show ?thesis
    using cell_inject [OF a(1) l(1) a(2), of 0] cell_inject [OF a(1) l(2) a(2), of 0]
      cell_inject [OF a(1) l(3) a(2), of 0] cell_inject [OF a(1) l(4) a(2), of 0]
    by (auto simp: demo_tables_def read_write_pg z frame_inject l)
qed

lemma demo_tables_tree: "ept_tree demo_owner demo_root demo_tables"
proof -
  have f: "5 < LIMIT_PAGES" by (simp add: LIMIT_PAGES_def)
  have "read_pg demo_root i demo_tables = 0" if "i < 512" for i
    using demo_read [OF f that] by (simp add: demo_root_def)
  moreover have "page_used (km_boot demo_tables) 5"
    using demo_used [OF f] by (simp add: demo_tables_def)
  ultimately show ?thesis
    using f unfolding ept_tree_def demo_owner_def
    by (auto simp: demo_root_def split: if_splits)
qed


lemma demo_indices:
  "PML4T_INDEX 0 = 0" "PDPT_INDEX 0 = 0" "PML4T_INDEX 0x7010 = 0" "PDPT_INDEX 0x7010 = 0"
  "PML4T_INDEX 0x10000 = 0" "PDPT_INDEX 0x10000 = 0" "PML4T_INDEX 0x11000 = 0" "PDPT_INDEX 0x11000 = 0"
  by (simp_all add: PML4T_INDEX_def PDPT_INDEX_def)

lemma demo_frames: "PHYS2VIRT 0x10000 = frame 0x10" "PHYS2VIRT 0x11000 = frame 0x11"
  "PHYS2VIRT 0x21000 = frame 0x21" "frame 5 = PHYS2VIRT 0x5000"
  by (simp_all add: frame_def page_addr_def)

lemma demo_cells:
  "read_pg (frame 0x10) 0 demo_tables = 0x11007" "read_pg (frame 0x11) 0 demo_tables = 0x87"
  "read_pg (frame 0x20) 0 demo_tables = 0x21007" "read_pg (frame 0x21) 0 demo_tables = 0x87"
  using demo_read [of "0x10" 0] demo_read [of "0x11" 0] demo_read [of "0x20" 0] demo_read [of "0x21" 0]
  by (simp_all add: LIMIT_PAGES_def)

lemma demo_identity:
  assumes "g \<in> {0, 0x7010, 0x10000, 0x11000}"
  shows "ept_gpa_to_hpa (frame 0x20) g demo_tables = Inr g"
proof -
  have i: "PML4T_INDEX g = 0" "PDPT_INDEX g = 0" "PG_1GB_OFFSET g = g"
    using assms demo_indices by (auto simp: PG_1GB_OFFSET_def)
  show ?thesis
    by (simp add: ept_gpa_to_hpa_def Let_def i demo_cells PT_ENTRY_ADDR_def demo_frames ept_bits PG_1GB_PFN_def)
qed

lemma demo_l1_walk: "nested_ept_l2gpa_to_l1gpa (frame 0x20) 0x1001e 0x7010 demo_tables = Inr 0x7010"
  using demo_identity [of "0x10000"] demo_identity [of "0x11000"]
  by (simp add: nested_ept_l2gpa_to_l1gpa_def Let_def demo_indices demo_cells PT_ENTRY_ADDR_def demo_frames
      ept_bits PG_1GB_PFN_def PG_1GB_OFFSET_def)

lemma demo_members: "vmcs12 v12_ept_pointer demo_vmx = 0x1001e"
  "k < 150 \<Longrightarrow> k \<noteq> v12_ept_pointer \<Longrightarrow> vmcs12 k demo_vmx = 0"
proof -
  have z: "load_le n (\<lambda>_. 0) a = 0" for n a by (induction n arbitrary: a) simp_all
  have p: "v12_ept_pointer < 150" "member_size v12_ept_pointer = 8"
    by (simp_all add: member_size_eq v12_members)
  show "vmcs12 v12_ept_pointer demo_vmx = 0x1001e"
    by (simp add: vmcs12_def demo_vmx_def get_set_same p)
  show "vmcs12 k demo_vmx = 0" if "k < 150" "k \<noteq> v12_ept_pointer"
    using that p(1) by (simp add: vmcs12_def demo_vmx_def get_set_other) (simp add: get_member_def z)
qed

lemma nested_ept_violation_composes_witness:
  "\<exists>s'. nested_vmx_handle_ept_volation demo_vmx = Some (0, s') \<and>
     ept_gpa_to_hpa demo_root 0x7020 (v_km s') = Inr 0x7020"
proof -
  have r: "vmcs_read GUEST_PHYSICAL_ADDRESS demo_vmx = 0x7010"
    "PHYS2VIRT (PT_ENTRY_ADDR (vmcs_read EPT_POINTER demo_vmx)) = demo_root"
    by (simp_all add: vmcs_read_def demo_vmx_def vmcs_fields PT_ENTRY_ADDR_def demo_root_def demo_frames)
  have f: "v_eptp_base demo_vmx = frame 0x20" "v_km demo_vmx = demo_tables" by (simp_all add: demo_vmx_def)
  have "room (km_boot demo_tables) 3" using demo_room [of 3] by (simp add: demo_tables_def)
  then obtain s' where s': "nested_vmx_handle_ept_volation demo_vmx = Some (0, s')"
    "\<forall>g. ept_gpa_to_hpa demo_root g (v_km s') =
      (if page_number g = page_number 0x7010 then Inr (PT_ENTRY_ADDR 0x7010 + PG_4KB_OFFSET g)
       else ept_gpa_to_hpa demo_root g demo_tables)"
    using nested_ept_violation_composes [of demo_owner demo_vmx "0x7010" "0x7010", unfolded r f demo_members(1),
        OF demo_tables_tree] demo_l1_walk demo_identity [of "0x7010"] by auto
  have "ept_gpa_to_hpa demo_root 0x7020 (v_km s') = Inr 0x7020"
    using s'(2) by (simp add: page_number_def PT_ENTRY_ADDR_def PG_4KB_OFFSET_def)
  with s'(1) show ?thesis by blast
qed

lemma demo_in_l1: "in_l1 demo_vmx"
  by (simp add: in_l1_def demo_vmx_def)

lemma demo_in_l2: "in_l2 demo_l2"
  by (simp add: in_l2_def demo_l2_def demo_vmx_def)

lemma nested_exit_to_l1_witness:
  "g_rip (v_guest (snd (nested_vmx_reflect_vmexit 10 demo_l2))) = 0x4000 \<and>
   vmcs12 v12_exit_qualification (snd (nested_vmx_reflect_vmexit 10 demo_l2)) = 2"
  using nested_exit_to_l1 [OF demo_in_l2, of 10]
  by (simp add: demo_l2_def demo_vmx_def vmcs_fields take_bit_eq_mask mask_eq_exp_minus_1)

lemma xlate_zero:
  assumes "vmcs12 k s = 0" "v_eptp_base s = frame 0x20" "v_km s = demo_tables"
  shows "xlate_member k f s = Some (True, vmcs_write f 0 s)"
  using demo_identity [of 0] assms by (simp add: xlate_member_def)

lemma vmcs12_write [simp]: "vmcs12 k (vmcs_write f v s) = vmcs12 k s"
  by (simp add: vmcs12_def)

lemma demo_run: "\<exists>s'. nested_vmx_run demo_vmx = Some (0, s')"
proof -
  define t where "t = vmptr_load 0x31000 ((vmclear 0x30000 demo_vmx)\<lparr>v_state := 0\<rparr>)"
  have t: "v_eptp_base t = frame 0x20" "v_km t = demo_tables" "v_vmcs12 t = v_vmcs12 demo_vmx"
    "v_bytes t = v_bytes demo_vmx" "v_cur t = 0x31000" "v_cpu t = demo_cpu"
    by (simp_all add: t_def demo_vmx_def vmptr_load_def)
  then have m: "k < 150 \<Longrightarrow> k \<noteq> v12_ept_pointer \<Longrightarrow> vmcs12 k t = 0" for k
    using demo_members(2) [of k] by (simp add: vmcs12_def)
  have e: "vmcs_read EPT_POINTER t = 0x505e"
    by (simp add: t_def vmcs_read_def demo_vmx_def vmptr_load_def vmcs_fields)
  have w: "vmcs_read EPT_POINTER (vmcs_write f v s) = vmcs_read EPT_POINTER s" if "f \<noteq> EPT_POINTER" for f v s
    using that by (simp add: vmcs_read_def vmcs_write_def)
  have z: "vmcs12 v12_io_bitmap_a t = 0" "vmcs12 v12_io_bitmap_b t = 0" "vmcs12 v12_msr_bitmap t = 0"
    "vmcs12 v12_vm_entry_msr_load_addr t = 0" "vmcs12 v12_vm_exit_msr_store_addr t = 0"
    "vmcs12 v12_vm_exit_msr_load_addr t = 0" "vmcs12 v12_virtual_apic_page_addr t = 0"
    "vmcs12 v12_pin_based_vm_exec_control t = 0" "vmcs12 v12_secondary_vm_exec_control t = 0"
    by (simp_all add: m v12_members)
  have ne: "VIRTUAL_PROCESSOR_ID \<noteq> EPT_POINTER" "IO_BITMAP_A \<noteq> EPT_POINTER" "IO_BITMAP_B \<noteq> EPT_POINTER"
    "MSR_BITMAP \<noteq> EPT_POINTER" "VM_ENTRY_MSR_LOAD_ADDR \<noteq> EPT_POINTER" "VM_EXIT_MSR_STORE_ADDR \<noteq> EPT_POINTER"
    "VM_EXIT_MSR_LOAD_ADDR \<noteq> EPT_POINTER" "VIRTUAL_APIC_PAGE_ADDR \<noteq> EPT_POINTER"
    by (simp_all add: vmcs_fields)
  have p: "PT_ENTRY_ADDR 0x505e \<noteq> 0" by (simp add: PT_ENTRY_ADDR_def)
  have "\<exists>s'. nested_vmx_set_ctrl_state t = Some (0, s')"
    by (simp add: nested_vmx_set_ctrl_state_def xlate_zero z t ensure_shadow_ept_def w ne e p
        posted_intr_step_def link_pointer_step_def final_ctrl_writes_def Let_def)
  then obtain s' where s': "nested_vmx_set_ctrl_state t = Some (0, s')" by blast
  have "prepare_vmcs02 demo_vmx = Some (nested_vmx_set_guest_state (nested_vmx_save_host_state s'))"
    using s' by (simp add: prepare_vmcs02_def t_def) (simp add: demo_vmx_def)
  then show ?thesis by (simp add: nested_vmx_run_def demo_vmx_def Let_def)
qed

lemma nested_enter_l2_witness:
  "\<exists>s'. nested_vmx_run demo_vmx = Some (0, s') \<and> v_cur s' = 0x31000 \<and> \<not> v_launched s' 0x30000"
proof -
  obtain s' where "nested_vmx_run demo_vmx = Some (0, s')" using demo_run by blast
  with nested_enter_l2 [OF demo_in_l1 this] show ?thesis by (simp add: demo_vmx_def)
qed


end
