(* ===== verification/Vmx.thy ===== *)
theory Vmx
  imports Nested C_String
begin

text \<open>
  The virtual machine monitor, \<^verbatim>\<open>kvm/vmx/vmx.c\<close>: switching VMX on, the set-up of the
  VMCS, guest memory, the exit handlers, the dispatcher and the run loop. As in theory
  \<^verbatim>\<open>Nested\<close> a handler gives the C function's result and the state, and
  \<^verbatim>\<open>None\<close> is a call that does not come back: \<^verbatim>\<open>kmalloc\<close> hangs or its null pointer is
  written to, or one of the \<^verbatim>\<open>while (1);\<close> of the source is reached. Console output is left
  out. What the processor does between an entry and the next exit is the argument \<open>enter\<close> of the
  run loop.
\<close>

section \<open>Switching VMX on\<close>

definition cr0_set_bits :: "u64 \<Rightarrow> vmx \<Rightarrow> vmx" where
  "cr0_set_bits bits s = v_cpu_update (c_cr0_update (\<lambda>cr0. cr0 OR bits)) s"

definition cr4_set_bits :: "u64 \<Rightarrow> vmx \<Rightarrow> vmx" where
  "cr4_set_bits bits s = v_cpu_update (c_cr4_update (\<lambda>cr4. cr4 OR bits)) s"

definition cr4_clear_bits :: "u64 \<Rightarrow> vmx \<Rightarrow> vmx" where
  "cr4_clear_bits bits s = v_cpu_update (c_cr4_update (\<lambda>cr4. cr4 AND NOT bits)) s"

definition vmx_enable :: "vmx \<Rightarrow> int \<times> vmx" where
  "vmx_enable s =
     (let (eax, ebx, ecx, edx) = c_cpuid (v_cpu s) 1 0 in
      if ucast ecx AND CPUID_FEATURES_ECX_VMX = 0 then (- 1, s)
      else let msr = rdmsr MSR_IA32_FEATURE_CONTROL s;
               vmx_msr = FEATURE_CONTROL_VMXON_ENABLED_OUTSIDE_SMX OR
                 FEATURE_CONTROL_VMXON_ENABLED_INSIDE_SMX in
      if msr AND FEATURE_CONTROL_LOCKED = FEATURE_CONTROL_LOCKED \<and> msr AND vmx_msr = 0 then (- 2, s)
      else let s = (if msr AND FEATURE_CONTROL_LOCKED = FEATURE_CONTROL_LOCKED then s
                    else wrmsr MSR_IA32_FEATURE_CONTROL
                      (msr OR (FEATURE_CONTROL_VMXON_ENABLED_OUTSIDE_SMX OR FEATURE_CONTROL_LOCKED)) s)
      in (0, cr4_set_bits CR4_VMXE (cr0_set_bits (CR0_NE OR CR0_MP) s)))"

definition vmx_disable :: "vmx \<Rightarrow> int \<times> vmx" where
  "vmx_disable s = (0, cr4_clear_bits CR4_VMXE s)"

text \<open>\<^verbatim>\<open>vmxon\<close> leaves the processor without a current VMCS.\<close>

definition vmx_on :: "u64 \<Rightarrow> vmx \<Rightarrow> vmx" where
  "vmx_on paddr s = emit (VmxOn paddr) (s\<lparr>v_cur := NO_VMCS\<rparr>)"

text \<open>\<^verbatim>\<open>sizeof(struct vmx_vcpu)\<close>, and the structure after the first \<^verbatim>\<open>memset\<close>.\<close>

definition SIZEOF_VMX_VCPU :: u64 where "SIZEOF_VMX_VCPU = 1024"

definition zero_regs :: general_regs where
  "zero_regs = \<lparr>r_rax = 0, r_rbx = 0, r_rcx = 0, r_rdx = 0, r_rsi = 0, r_rdi = 0, r_rsp = 0, r_rbp = 0,
     r_r8 = 0, r_r9 = 0, r_r10 = 0, r_r11 = 0, r_r12 = 0, r_r13 = 0, r_r14 = 0, r_r15 = 0\<rparr>"

definition zero_segment :: segment where
  "zero_segment = \<lparr>s_selector = 0, s_base = 0, s_limit = 0, s_ar_bytes = 0\<rparr>"

definition zero_guest :: guest_state where
  "zero_guest = \<lparr>g_rip = 0, g_rflags = 0, g_regs = zero_regs, g_fp_regs = 0, g_cs = zero_segment,
     g_ds = zero_segment, g_es = zero_segment, g_fs = zero_segment, g_gs = zero_segment,
     g_ss = zero_segment, g_tr = zero_segment, g_ldtr = zero_segment, g_cr0 = 0, g_cr2 = 0, g_cr3 = 0,
     g_cr4 = 0, g_cr8 = 0, g_xcr0 = 0, g_cr0_read_shadow = 0, g_cr4_read_shadow = 0, g_gdtr_base = 0,
     g_gdtr_limit = 0, g_idtr_base = 0, g_idtr_limit = 0, g_msr = 0, g_pdpte0 = 0, g_pdpte1 = 0,
     g_pdpte2 = 0, g_pdpte3 = 0\<rparr>"

definition zero_vcpu :: "vmx \<Rightarrow> vmx" where
  "zero_vcpu s = s\<lparr>v_state := 0, v_guest_mode := 0, v_virtual_processor_id := 0, v_vmxon_region := 0,
     v_vmcs01 := 0, v_vmcs12 := 0, v_vmcs02 := 0, v_shadow_vmcs := 0, v_shadow_vmcs_enabled := False,
     v_vmread_bitmap := 0, v_vmwrite_bitmap := 0, v_io_bitmap_a := 0, v_io_bitmap_b := 0,
     v_vapic_page := 0, v_msr_bitmap := 0, v_eptp_base := 0, v_posted_intr_addr := 0,
     v_host_fp_regs := 0, v_host_xcr0 := 0, v_host_msr := 0, v_guest := zero_guest, v_guest_memory := []\<rparr>"

definition vm_kmalloc :: "u64 \<Rightarrow> vmx \<Rightarrow> (u64 \<times> vmx) option" where
  "vm_kmalloc sz s = do {
     (virt, b) \<leftarrow> kmalloc sz 0 (km_boot (v_km s));
     Some (virt, v_km_update (km_boot_update (\<lambda>_. b)) s)
   }"

text \<open>The result is whether the function returns a virtual processor (or \<^verbatim>\<open>NULL\<close>), and
  the new value of the global counter.\<close>

definition vmx_init :: "u64 \<Rightarrow> vmx \<Rightarrow> (bool \<times> u64 \<times> vmx) option" where
  "vmx_init vcpu_cnt s = do {
     (vcpu_ptr, s) \<leftarrow> vm_kmalloc SIZEOF_VMX_VCPU s;
     s \<leftarrow> (if vcpu_ptr = 0 then None else Some (zero_vcpu s));
     (virt, s) \<leftarrow> vm_zalloc_bytes s;
     let s = s\<lparr>v_vmxon_region := virt\<rparr>;
     (virt, s) \<leftarrow> vm_zalloc_bytes s;
     let s = s\<lparr>v_vmcs01 := virt\<rparr>;
     (virt, s) \<leftarrow> vm_zalloc_bytes s;
     let s = s\<lparr>v_vmcs02 := virt\<rparr>;
     let vcpu_cnt = vcpu_cnt + 1;
     let s = s\<lparr>v_virtual_processor_id := vcpu_cnt\<rparr>;
     let (ret, s) = vmx_enable s;
     if ret \<noteq> 0 then Some (False, vcpu_cnt, s)
     else do {
       let s = set_revision_id (v_vmxon_region s) (rdmsr MSR_IA32_VMX_BASIC s) s;
       let s = set_revision_id (v_vmcs01 s) (rdmsr MSR_IA32_VMX_BASIC s) s;
       let s = set_revision_id (v_vmcs02 s) (rdmsr MSR_IA32_VMX_BASIC s) s;
       let s = vmx_on (VIRT2PHYS (v_vmxon_region s)) s;
       let s = vmclear (VIRT2PHYS (v_vmcs01 s)) s;
       let s = vmclear (VIRT2PHYS (v_vmcs02 s)) s;
       let s = vmptr_load (VIRT2PHYS (v_vmcs01 s)) s;
       (virt, s) \<leftarrow> vm_zalloc_page s;
       let s = s\<lparr>v_host_fp_regs := virt\<rparr>;
       (virt, s) \<leftarrow> vm_zalloc_page s;
       let s = set_g (g_fp_regs_update (\<lambda>_. virt)) s;
       Some (True, vcpu_cnt, s)
     }
   }"

section \<open>The controls\<close>

text \<open>The pattern of the five control fields: the capability register \<open>msr\<close> holds the bits that
  must be set in its lower and those that may be set in its upper half, both read into
  \<^verbatim>\<open>u32\<close> variables.\<close>

definition adjust_ctrl :: "u64 \<Rightarrow> u64 \<Rightarrow> u64" where
  "adjust_ctrl ctrl msr =
     (let allow1_mask = ucast (ucast (drop_bit 32 msr) :: u32);
          allow0_mask = ucast (ucast msr :: u32)
      in if ctrl OR allow1_mask \<noteq> allow1_mask then (ctrl OR allow0_mask) AND allow1_mask else ctrl)"

text \<open>The bits the monitor asks for in the five control fields.\<close>

definition pin_based_request :: u64 where
  "pin_based_request =
     PIN_BASED_ALWAYSON_WITHOUT_TRUE_MSR OR PIN_BASED_EXT_INTR_MASK OR
     PIN_BASED_POSTED_INTR"

definition cpu_based_request :: u64 where
  "cpu_based_request =
     CPU_BASED_FIXED_ONES OR CPU_BASED_ACTIVATE_SECONDARY_CONTROLS OR
     CPU_BASED_USE_MSR_BITMAPS OR CPU_BASED_TPR_SHADOW OR CPU_BASED_UNCOND_IO_EXITING"

definition cpu_based_request2 :: u64 where
  "cpu_based_request2 =
     SECONDARY_EXEC_UNRESTRICTED_GUEST OR SECONDARY_EXEC_ENABLE_EPT OR
     SECONDARY_EXEC_ENABLE_VPID OR SECONDARY_EXEC_VIRTUALIZE_APIC_ACCESSES OR
     SECONDARY_EXEC_VIRTUAL_INTR_DELIVERY OR SECONDARY_EXEC_APIC_REGISTER_VIRT OR
     SECONDARY_EXEC_SHADOW_VMCS"

definition vm_entry_request :: u64 where
  "vm_entry_request =
     VM_ENTRY_ALWAYSON_WITHOUT_TRUE_MSR OR VM_ENTRY_LOAD_IA32_EFER"

definition vm_exit_request :: u64 where
  "vm_exit_request =
     VM_EXIT_ALWAYSON_WITHOUT_TRUE_MSR OR VM_EXIT_SAVE_IA32_EFER OR
     VM_EXIT_LOAD_IA32_EFER OR VM_EXIT_ACK_INTR_ON_EXIT OR VM_EXIT_HOST_ADDR_SPACE_SIZE"

text \<open>A cleared page whose physical address goes to a field of the VMCS.\<close>

definition alloc_field :: "(u64 \<Rightarrow> vmx \<Rightarrow> vmx) \<Rightarrow> u64 \<Rightarrow> vmx \<Rightarrow> vmx option" where
  "alloc_field put field s = do {
     (virt, s) \<leftarrow> vm_zalloc_page s;
     Some (vmcs_write field (VIRT2PHYS virt) (put virt s))
   }"

definition vmx_set_ctrl_state :: "vmx \<Rightarrow> (int \<times> vmx) option" where
  "vmx_set_ctrl_state s = do {
     let s = vmcs_write VIRTUAL_PROCESSOR_ID (v_virtual_processor_id s) s;
     let pin_msr = rdmsr MSR_IA32_VMX_PINBASED_CTLS s;
     let cpu_msr = rdmsr MSR_IA32_VMX_PROCBASED_CTLS s;
     let cpu2_msr = rdmsr MSR_IA32_VMX_PROCBASED_CTLS2 s;
     let entry_msr = rdmsr MSR_IA32_VMX_ENTRY_CTLS s;
     let exit_msr = rdmsr MSR_IA32_VMX_EXIT_CTLS s;
     let s = vmcs_write VMX_PREEMPTION_TIMER_VALUE (2100000000 div 128) s;
     let pin = adjust_ctrl pin_based_request pin_msr;
     s \<leftarrow> (if pin AND PIN_BASED_POSTED_INTR \<noteq> 0
          then alloc_field (\<lambda>virt. v_posted_intr_addr_update (\<lambda>_. virt)) POSTED_INTR_DESC_ADDR s
          else Some s);
     let s = vmcs_write PIN_BASED_VM_EXEC_CONTROL pin s;
     let cpu = adjust_ctrl cpu_based_request cpu_msr;
     s \<leftarrow> (if cpu AND CPU_BASED_USE_IO_BITMAPS \<noteq> 0 then do {
            s \<leftarrow> alloc_field (\<lambda>virt. v_io_bitmap_a_update (\<lambda>_. virt)) IO_BITMAP_A s;
            alloc_field (\<lambda>virt. v_io_bitmap_b_update (\<lambda>_. virt)) IO_BITMAP_B s
          } else Some s);
     s \<leftarrow> (if cpu AND CPU_BASED_USE_MSR_BITMAPS \<noteq> 0 then do {
            s \<leftarrow> alloc_field (\<lambda>virt. v_msr_bitmap_update (\<lambda>_. virt)) MSR_BITMAP s;
            s \<leftarrow> alloc_field (\<lambda>virt. v_host_msr_update (\<lambda>_. virt)) VM_EXIT_MSR_LOAD_ADDR s;
            s \<leftarrow> alloc_field (\<lambda>virt. set_g (g_msr_update (\<lambda>_. virt))) VM_ENTRY_MSR_LOAD_ADDR s;
            Some (vmcs_write VM_EXIT_MSR_STORE_ADDR (VIRT2PHYS (g_msr (v_guest s))) s)
          } else Some s);
     let s = vmcs_write CPU_BASED_VM_EXEC_CONTROL cpu s;
     let cpu2 = adjust_ctrl cpu_based_request2 cpu2_msr;
     let s = vmcs_write SECONDARY_VM_EXEC_CONTROL cpu2 s;
     s \<leftarrow> (if cpu2 AND SECONDARY_EXEC_ENABLE_EPT \<noteq> 0 then do {
            (virt, s) \<leftarrow> vm_zalloc_page s;
            Some (vmcs_write EPT_POINTER (VIRT2PHYS virt OR 0x5e) (s\<lparr>v_eptp_base := virt\<rparr>))
          } else Some s);
     s \<leftarrow> (if cpu2 AND SECONDARY_EXEC_APIC_REGISTER_VIRT \<noteq> 0
          then alloc_field (\<lambda>virt. v_vapic_page_update (\<lambda>_. virt)) VIRTUAL_APIC_PAGE_ADDR s
          else Some s);
     s \<leftarrow> (if cpu2 AND SECONDARY_EXEC_SHADOW_VMCS \<noteq> 0 then do {
            s \<leftarrow> alloc_field (\<lambda>virt. v_vmread_bitmap_update (\<lambda>_. virt)) VMREAD_BITMAP
                  (s\<lparr>v_shadow_vmcs_enabled := True\<rparr>);
            alloc_field (\<lambda>virt. v_vmwrite_bitmap_update (\<lambda>_. virt)) VMWRITE_BITMAP s
          } else Some s);
     let entry = adjust_ctrl vm_entry_request entry_msr;
     let s = vmcs_write VM_ENTRY_CONTROLS entry s;
     let ex = adjust_ctrl vm_exit_request exit_msr;
     Some (0, vmcs_writes
       [(VM_EXIT_CONTROLS, ex), (CR3_TARGET_COUNT, 0),
        (CR0_GUEST_HOST_MASK, rdmsr MSR_IA32_VMX_CR0_FIXED0 s AND rdmsr MSR_IA32_VMX_CR0_FIXED1 s AND 0xfffffffe),
        (CR4_GUEST_HOST_MASK, rdmsr MSR_IA32_VMX_CR4_FIXED0 s AND rdmsr MSR_IA32_VMX_CR4_FIXED1 s),
        (EXCEPTION_BITMAP, 0xffffffff)] s)
   }"

section \<open>Host and guest state\<close>

definition vmx_save_host_state :: "vmx \<Rightarrow> vmx" where
  "vmx_save_host_state s =
     (let c = v_cpu s;
          s = vmcs_writes
     [(HOST_CR0, c_cr0 c), (HOST_CR3, c_cr3 c), (HOST_CR4, c_cr4 c),
      (HOST_GDTR_BASE, c_gdtr_base c), (HOST_IDTR_BASE, c_idtr_base c),
      (HOST_CS_SELECTOR, c_cs c), (HOST_DS_SELECTOR, c_ds c), (HOST_ES_SELECTOR, c_es c),
      (HOST_FS_SELECTOR, c_fs c), (HOST_GS_SELECTOR, c_gs c), (HOST_SS_SELECTOR, c_ss c),
      (HOST_TR_SELECTOR, c_tr c), (HOST_GS_BASE, c_msr c MSR_GS_BASE),
      (HOST_FS_BASE, c_msr c MSR_FS_BASE), (HOST_IA32_SYSENTER_CS, c_msr c MSR_IA32_SYSENTER_CS),
      (HOST_IA32_SYSENTER_ESP, c_msr c MSR_IA32_SYSENTER_ESP),
      (HOST_IA32_SYSENTER_EIP, c_msr c MSR_IA32_SYSENTER_EIP), (HOST_IA32_EFER, c_msr c MSR_EFER),
      (HOST_IA32_PAT, c_msr c MSR_IA32_CR_PAT),
      (HOST_IA32_PERF_GLOBAL_CTRL, c_msr c MSR_IA32_PERF_CTL), (HOST_RSP, c_rsp c + 8),
      (HOST_RIP, c_vm_exit c)] s;
          s = s\<lparr>v_host_xcr0 := c_xcr0 c\<rparr>
      in emit (XSave (v_host_fp_regs s) (v_host_xcr0 s)) s)"

definition vmx_save_guest_state :: "vmx \<Rightarrow> vmx" where
  "vmx_save_guest_state s =
     (let c = v_cpu s;
          s = set_g (\<lambda>g. g\<lparr>g_rip := vmcs_read GUEST_RIP s, g_cr0 := vmcs_read GUEST_CR0 s, g_cr2 := c_cr2 c,
                g_cr3 := vmcs_read GUEST_CR3 s, g_cr4 := vmcs_read GUEST_CR4 s, g_cr8 := c_cr8 c,
                g_xcr0 := c_xcr0 c\<rparr>) s
      in emit (XSave (g_fp_regs (v_guest s)) (g_xcr0 (v_guest s))) s)"

definition xsetbv :: "u64 \<Rightarrow> vmx \<Rightarrow> vmx" where
  "xsetbv v s = v_cpu_update (c_xcr0_update (\<lambda>_. v)) s"

definition vmx_set_guest_state :: "vmx \<Rightarrow> vmx" where
  "vmx_set_guest_state s =
     (let g = v_guest s;
          cr0 = g_cr0 g OR (rdmsr MSR_IA32_VMX_CR0_FIXED0 s AND rdmsr MSR_IA32_VMX_CR0_FIXED1 s);
          cr0 = (if vmcs_read SECONDARY_VM_EXEC_CONTROL s AND SECONDARY_EXEC_UNRESTRICTED_GUEST \<noteq> 0
                 then cr0 AND 0x7ffffffe else cr0);
          cr4 = rdmsr MSR_IA32_VMX_CR4_FIXED0 s AND rdmsr MSR_IA32_VMX_CR4_FIXED1 s;
          s = vmcs_writes
     [(GUEST_CR0, cr0), (CR0_READ_SHADOW, g_cr0_read_shadow g), (GUEST_CR3, g_cr3 g),
      (GUEST_CR4, cr4), (CR4_READ_SHADOW, g_cr4_read_shadow g), (GUEST_RIP, g_rip g),
      (GUEST_RFLAGS, g_rflags g), (GUEST_RSP, r_rsp (g_regs g)), (GUEST_DR7, 0),
      (GUEST_IA32_DEBUGCTL, 0), (GUEST_CS_SELECTOR, s_selector (g_cs g)),
      (GUEST_CS_BASE, s_base (g_cs g)), (GUEST_CS_LIMIT, s_limit (g_cs g)),
      (GUEST_CS_AR_BYTES, s_ar_bytes (g_cs g)), (GUEST_DS_SELECTOR, s_selector (g_ds g)),
      (GUEST_DS_BASE, s_base (g_ds g)), (GUEST_DS_LIMIT, s_limit (g_ds g)),
      (GUEST_DS_AR_BYTES, s_ar_bytes (g_ds g)), (GUEST_ES_SELECTOR, s_selector (g_es g)),
      (GUEST_ES_BASE, s_base (g_es g)), (GUEST_ES_LIMIT, s_limit (g_es g)),
      (GUEST_ES_AR_BYTES, s_ar_bytes (g_es g)), (GUEST_FS_SELECTOR, s_selector (g_fs g)),
      (GUEST_FS_BASE, s_base (g_fs g)), (GUEST_FS_LIMIT, s_limit (g_fs g)),
      (GUEST_FS_AR_BYTES, s_ar_bytes (g_fs g)), (GUEST_GS_SELECTOR, s_selector (g_gs g)),
      (GUEST_GS_BASE, s_base (g_gs g)), (GUEST_GS_LIMIT, s_limit (g_gs g)),
      (GUEST_GS_AR_BYTES, s_ar_bytes (g_gs g)), (GUEST_SS_SELECTOR, s_selector (g_ss g)),
      (GUEST_SS_BASE, s_base (g_ss g)), (GUEST_SS_LIMIT, s_limit (g_ss g)),
      (GUEST_SS_AR_BYTES, s_ar_bytes (g_ss g)), (GUEST_TR_SELECTOR, s_selector (g_tr g)),
      (GUEST_TR_BASE, s_base (g_tr g)), (GUEST_TR_LIMIT, s_limit (g_tr g)),
      (GUEST_TR_AR_BYTES, s_ar_bytes (g_tr g)), (GUEST_LDTR_SELECTOR, s_selector (g_ldtr g)),
      (GUEST_LDTR_BASE, s_base (g_ldtr g)), (GUEST_LDTR_LIMIT, s_limit (g_ldtr g)),
      (GUEST_LDTR_AR_BYTES, s_ar_bytes (g_ldtr g)), (GUEST_GDTR_BASE, g_gdtr_base g),
      (GUEST_GDTR_LIMIT, ucast (g_gdtr_limit g)), (GUEST_IDTR_BASE, g_idtr_base g),
      (GUEST_IDTR_LIMIT, ucast (g_idtr_limit g)), (GUEST_SYSENTER_ESP, 0),
      (GUEST_SYSENTER_EIP, 0), (GUEST_SYSENTER_CS, 0), (GUEST_IA32_DEBUGCTL, 0),
      (GUEST_IA32_PERF_GLOBAL_CTRL, 0), (GUEST_IA32_EFER, 0), (GUEST_IA32_PAT, 0),
      (GUEST_ACTIVITY_STATE, 0), (GUEST_PDPTR0, g_pdpte0 g), (GUEST_PDPTR1, g_pdpte1 g),
      (GUEST_PDPTR2, g_pdpte2 g), (GUEST_PDPTR3, g_pdpte3 g), (GUEST_INTERRUPTIBILITY_INFO, 0),
      (VM_ENTRY_INTR_INFO_FIELD, 0), (GUEST_PENDING_DBG_EXCEPTIONS, 0), (GUEST_BNDCFGS, 0),
      (VMCS_LINK_POINTER, 0xffffffffffffffff), (APIC_ACCESS_ADDR, 0xfee00000)] s;
          s = xsetbv (g_xcr0 g) s
      in emit (XRstor (g_fp_regs g) (v_host_xcr0 s)) s)"

definition vmx_resume_host_state :: "vmx \<Rightarrow> vmx" where
  "vmx_resume_host_state s = emit (XRstor (v_host_fp_regs s) (v_host_xcr0 s)) (xsetbv (v_host_xcr0 s) s)"

section \<open>Guest memory\<close>

definition SIZEOF_GUEST_MEMORY_ZONE :: u64 where "SIZEOF_GUEST_MEMORY_ZONE = 48"

definition clear_cells :: "u64 \<Rightarrow> u64 \<Rightarrow> kmem \<Rightarrow> kmem" where
  "clear_cells virt sz km = km\<lparr>km_mem := (\<lambda>a. if a - virt < sz then 0 else km_mem km a)\<rparr>"

text \<open>The list of zones holds the zones in order; what \<^verbatim>\<open>map_guest_memory\<close> returns is not
  looked at.\<close>

definition alloc_guest_memory :: "u64 \<Rightarrow> u64 \<Rightarrow> vmx \<Rightarrow> (int \<times> vmx) option" where
  "alloc_guest_memory gpa sz s = do {
     (zone, s) \<leftarrow> vm_kmalloc SIZEOF_GUEST_MEMORY_ZONE s;
     if zone = 0 then Some (- 1, s)
     else do {
       let sz = roundup sz 0x1000;
       (virt, s) \<leftarrow> vm_kmalloc sz s;
       if virt = 0 then Some (- 1, s)
       else do {
         let s = v_km_update (clear_cells virt sz) s;
         let hpa = VIRT2PHYS virt;
         km \<leftarrow> map_guest_memory (v_eptp_base s) gpa hpa sz
                 (EPT_READ OR EPT_WRITE OR EPT_EXECUTE OR EPT_CACHE_WB) (v_km s);
         Some (0, s\<lparr>v_km := km, v_guest_memory := v_guest_memory s @
                 [\<lparr>z_gpa = gpa, z_hpa = hpa, z_page_nr = sz div 0x1000\<rparr>]\<rparr>)
       }
     }
   }"

text \<open>The bytes of the 64-bit cells, and the cells of bytes, little endian.\<close>

definition get_bytes :: "kmem \<Rightarrow> mem" where
  "get_bytes km = (\<lambda>a. ucast (drop_bit (8 * unat (a AND 7)) (km_mem km (a AND NOT 7))))"

definition put_bytes :: "mem \<Rightarrow> kmem \<Rightarrow> kmem" where
  "put_bytes m km = km\<lparr>km_mem := (\<lambda>a. if a AND 7 = 0 then load_le 8 m a else km_mem km a)\<rparr>"

text \<open>\<^verbatim>\<open>memcpy\<close> takes an \<^verbatim>\<open>int\<close>. On success both functions end without a
  \<^verbatim>\<open>return\<close>. The address is translated once: the copy runs on in host memory.\<close>

definition no_return :: "vmx \<Rightarrow> int" where
  "no_return s = sint (ucast (v_junk s) :: 32 word)"

definition read_guest_memory_gpa :: "u64 \<Rightarrow> u64 \<Rightarrow> u64 \<Rightarrow> vmx \<Rightarrow> int \<times> vmx" where
  "read_guest_memory_gpa gpa sz buffer s = (case gpa_to_hpa gpa s of
     Inl e \<Rightarrow> (e, s)
   | Inr hpa \<Rightarrow> (no_return s,
       v_km_update (\<lambda>km. put_bytes (memcpy buffer (PHYS2VIRT hpa) (sint (ucast sz :: 32 word)) (get_bytes km)) km) s))"

definition write_guest_memory_gpa :: "u64 \<Rightarrow> u64 \<Rightarrow> u64 \<Rightarrow> vmx \<Rightarrow> int \<times> vmx" where
  "write_guest_memory_gpa gpa sz buffer s = (case gpa_to_hpa gpa s of
     Inl e \<Rightarrow> (e, s)
   | Inr hpa \<Rightarrow> (no_return s,
       v_km_update (\<lambda>km. put_bytes (memcpy (PHYS2VIRT hpa) buffer (sint (ucast sz :: 32 word)) (get_bytes km)) km) s))"

section \<open>Exit handlers\<close>

definition vmx_handle_vm_entry_failed :: "vmx \<Rightarrow> (int \<times> vmx) option" where
  "vmx_handle_vm_entry_failed s = Some (0, s)"

text \<open>Both end in \<^verbatim>\<open>while (1);\<close>.\<close>

definition vmx_handle_exception :: "vmx \<Rightarrow> (int \<times> vmx) option" where
  "vmx_handle_exception s = None"

definition vmx_handle_triple_fault :: "vmx \<Rightarrow> (int \<times> vmx) option" where
  "vmx_handle_triple_fault s = None"

definition vmx_handle_external_interrupt :: "vmx \<Rightarrow> (int \<times> vmx) option" where
  "vmx_handle_external_interrupt s =
     (let vector = (ucast (vmcs_read VM_EXIT_INTR_INFO s AND 0xff) :: u8)
      in Some (0, emit Sti (emit (SoftIrq vector) s)))"

text \<open>The handlers that only print a line.\<close>

definition vmx_handle_pending_interrupt :: "vmx \<Rightarrow> (int \<times> vmx) option" where
  "vmx_handle_pending_interrupt s = Some (0, s)"

definition vmx_handle_rdpmc :: "vmx \<Rightarrow> (int \<times> vmx) option" where
  "vmx_handle_rdpmc s = Some (0, s)"

definition vmx_handle_rdtsc :: "vmx \<Rightarrow> (int \<times> vmx) option" where
  "vmx_handle_rdtsc s = Some (0, s)"

definition vmx_handle_rdtscp :: "vmx \<Rightarrow> (int \<times> vmx) option" where
  "vmx_handle_rdtscp s = Some (0, s)"

definition vmx_handle_rdmsr :: "vmx \<Rightarrow> (int \<times> vmx) option" where
  "vmx_handle_rdmsr s = Some (0, s)"

definition vmx_handle_mtf :: "vmx \<Rightarrow> (int \<times> vmx) option" where
  "vmx_handle_mtf s = Some (0, s)"

definition vmx_handle_apic_access :: "vmx \<Rightarrow> (int \<times> vmx) option" where
  "vmx_handle_apic_access s = Some (0, s)"

definition vmx_handle_eoi :: "vmx \<Rightarrow> (int \<times> vmx) option" where
  "vmx_handle_eoi s = Some (0, s)"

text \<open>The handlers that print and skip the instruction.\<close>

definition vmx_handle_vmcall :: "vmx \<Rightarrow> (int \<times> vmx) option" where
  "vmx_handle_vmcall s = Some (0, advance_rip s)"

definition vmx_handle_wrmsr :: "vmx \<Rightarrow> (int \<times> vmx) option" where
  "vmx_handle_wrmsr s = Some (0, advance_rip s)"

definition vmx_handle_xsaves :: "vmx \<Rightarrow> (int \<times> vmx) option" where
  "vmx_handle_xsaves s = Some (0, advance_rip s)"

definition vmx_handle_xrstors :: "vmx \<Rightarrow> (int \<times> vmx) option" where
  "vmx_handle_xrstors s = Some (0, advance_rip s)"

definition vmx_handle_preemption_timer :: "vmx \<Rightarrow> (int \<times> vmx) option" where
  "vmx_handle_preemption_timer s = Some (0, vmcs_write VMX_PREEMPTION_TIMER_VALUE (2100000000 div 128) s)"

definition vmx_handle_cpuid :: "vmx \<Rightarrow> (int \<times> vmx) option" where
  "vmx_handle_cpuid s =
     (let r = g_regs (v_guest s);
          (eax, ebx, ecx, edx) = c_cpuid (v_cpu s) (ucast (r_rax r)) (ucast (r_rcx r));
          s = set_regs (\<lambda>r. r\<lparr>r_rax := ucast eax, r_rbx := ucast ebx, r_rcx := ucast ecx,
                r_rdx := ucast edx\<rparr>) s
      in Some (0, advance_rip s))"

definition vmx_enter_longmode :: "vmx \<Rightarrow> vmx" where
  "vmx_enter_longmode s =
     (let efer = vmcs_read GUEST_IA32_EFER s;
          cr0 = vmcs_read GUEST_CR0 s;
          cr4 = vmcs_read GUEST_CR4 s;
          s = vmcs_write GUEST_CR0 (cr0 OR CR0_PE OR CR0_PG) s;
          s = vmcs_write GUEST_CR4 (cr4 OR CR4_PAE) s;
          s = vmcs_write GUEST_TR_AR_BYTES (VMX_AR_P_MASK OR VMX_AR_TYPE_BUSY_64_TSS) s;
          s = vmcs_write VM_ENTRY_CONTROLS (vmcs_read VM_ENTRY_CONTROLS s OR VM_ENTRY_IA32E_MODE) s
      in vmcs_write GUEST_IA32_EFER (efer OR 0x500) s)"

text \<open>The switch over the register number is the one of \<^verbatim>\<open>kvm_reg_read\<close>. The access type
  is printed only, so a move from a control register is handled like one to it.\<close>

definition vmx_handle_cr_access :: "vmx \<Rightarrow> (int \<times> vmx) option" where
  "vmx_handle_cr_access s =
     (let exit_qualification = vmcs_read EXIT_QUALIFICATION s;
          cr = exit_qualification AND 0xf;
          reg = drop_bit 8 exit_qualification AND 0xf;
          val = kvm_reg_read (unat reg) s;
          s = (if cr = 0 then
                 let s = set_g (g_cr0_read_shadow_update (\<lambda>_. val)) s;
                     s = vmcs_write CR0_READ_SHADOW (g_cr0_read_shadow (v_guest s)) s
                 in if val AND CR0_PG \<noteq> 0 \<and> vmcs_read GUEST_IA32_EFER s AND push_bit 8 1 \<noteq> 0
                    then vmx_enter_longmode s else s
               else s);
          s = (if cr = 3 then vmcs_write GUEST_CR3 val s else s);
          s = (if cr = 4 then
                 let s = set_g (g_cr4_read_shadow_update (\<lambda>_. val)) s
                 in vmcs_write CR4_READ_SHADOW (g_cr0_read_shadow (v_guest s)) s
               else s)
      in Some (0, advance_rip s))"

text \<open>The page is not cleared. Every guest-physical address is accepted.\<close>

definition vmx_handle_ept_volation :: "vmx \<Rightarrow> (int \<times> vmx) option" where
  "vmx_handle_ept_volation s =
     (let gpa = vmcs_read GUEST_PHYSICAL_ADDRESS s in
      if v_guest_mode s \<noteq> 0 then nested_vmx_handle_ept_volation s
      else do {
        (page, s) \<leftarrow> vm_kmalloc_page s;
        km \<leftarrow> ept_map_page (v_eptp_base s) gpa (VIRT2PHYS page) 0x1000
                (EPT_READ OR EPT_WRITE OR EPT_EXECUTE OR EPT_CACHE_WB) (v_km s);
        Some (0, s\<lparr>v_km := km\<rparr>)
      })"

definition vmx_handle_io :: "vmx \<Rightarrow> (int \<times> vmx) option" where
  "vmx_handle_io s =
     (let exit_qualification = vmcs_read EXIT_QUALIFICATION s;
          port = drop_bit 16 exit_qualification AND 0xffff;
          is_rep = (exit_qualification AND push_bit 5 1 \<noteq> 0);
          s = (if \<not> is_rep then advance_rip s
               else let s = set_regs (r_rcx_update (\<lambda>rcx. rcx - 1)) s
                    in if r_rcx (g_regs (v_guest s)) = 0 then advance_rip s else s);
          s = (if port = 0xcfc then set_regs (r_rax_update (\<lambda>_. 0xffffffff)) s else s)
      in Some (0, s))"

text \<open>The shadows are combined with themselves where the code means the masks.\<close>

definition vmx_handle_xsetbv :: "vmx \<Rightarrow> (int \<times> vmx) option" where
  "vmx_handle_xsetbv s =
     (let cr0_read_shadow = vmcs_read CR0_READ_SHADOW s;
          cr0 = (vmcs_read GUEST_CR0 s AND NOT (vmcs_read CR0_GUEST_HOST_MASK s)) OR
                (cr0_read_shadow AND cr0_read_shadow);
          cr4_read_shadow = vmcs_read CR4_READ_SHADOW s;
          cr4 = (vmcs_read GUEST_CR4 s AND NOT (vmcs_read CR4_GUEST_HOST_MASK s)) OR
                (cr4_read_shadow AND cr4_read_shadow);
          r = g_regs (v_guest s);
          index = r_rcx r;
          xcr0 = r_rax r OR push_bit 32 (r_rdx r);
          (eax, ebx, ecx, edx) = c_cpuid (v_cpu s) 0xd 0;
          xcr0_mask = ucast eax;
          s = (if index \<noteq> 0 \<or> xcr0 OR xcr0_mask \<noteq> xcr0_mask \<or> xcr0 AND 1 = 0 \<or> xcr0 AND 6 = 4 \<or>
                  cr0 AND CR0_MP = 0 \<or> cr0 AND CR0_NE = 0 \<or> cr0 AND CR0_EM \<noteq> 0 \<or> cr4 AND CR4_OSXSAVE = 0
               then s
               else set_g (g_xcr0_update (\<lambda>_. xcr0)) (xsetbv xcr0 s))
      in Some (0, advance_rip s))"

section \<open>The dispatcher\<close>

text \<open>The reasons that are not listed have an empty case or only the default's message.\<close>

definition exit_dispatch :: "u64 \<Rightarrow> vmx \<Rightarrow> (int \<times> vmx) option" where
  "exit_dispatch r =
     (if r = EXIT_REASON_EXCEPTION_NMI then vmx_handle_exception
      else if r = EXIT_REASON_EXTERNAL_INTERRUPT then vmx_handle_external_interrupt
      else if r = EXIT_REASON_TRIPLE_FAULT then vmx_handle_triple_fault
      else if r = EXIT_REASON_PENDING_INTERRUPT then vmx_handle_pending_interrupt
      else if r = EXIT_REASON_CPUID then vmx_handle_cpuid
      else if r = EXIT_REASON_RDPMC then vmx_handle_rdpmc
      else if r = EXIT_REASON_RDTSC then vmx_handle_rdtsc
      else if r = EXIT_REASON_VMCALL then vmx_handle_vmcall
      else if r = EXIT_REASON_VMCLEAR then vmx_handle_vmclear
      else if r = EXIT_REASON_VMLAUNCH then vmx_handle_vmlaunch
      else if r = EXIT_REASON_VMPTRLD then vmx_handle_vmptrld
      else if r = EXIT_REASON_VMPTRST then vmx_handle_vmptrst
      else if r = EXIT_REASON_VMREAD then vmx_handle_vmread
      else if r = EXIT_REASON_VMRESUME then vmx_handle_vmresume
      else if r = EXIT_REASON_VMWRITE then vmx_handle_vmwrite
      else if r = EXIT_REASON_VMOFF then vmx_handle_vmxoff
      else if r = EXIT_REASON_VMON then vmx_handle_vmxon
      else if r = EXIT_REASON_CR_ACCESS then vmx_handle_cr_access
      else if r = EXIT_REASON_IO_INSTRUCTION then vmx_handle_io
      else if r = EXIT_REASON_MSR_READ then vmx_handle_rdmsr
      else if r = EXIT_REASON_MSR_WRITE then vmx_handle_wrmsr
      else if r = EXIT_REASON_MONITOR_TRAP_FLAG then vmx_handle_mtf
      else if r = EXIT_REASON_APIC_ACCESS then vmx_handle_apic_access
      else if r = EXIT_REASON_EOI_INDUCED then vmx_handle_eoi
      else if r = EXIT_REASON_EPT_VIOLATION then vmx_handle_ept_volation
      else if r = EXIT_REASON_INVEPT then vmx_handle_invept
      else if r = EXIT_REASON_RDTSCP then vmx_handle_rdtscp
      else if r = EXIT_REASON_PREEMPTION_TIMER then vmx_handle_preemption_timer
      else if r = EXIT_REASON_XSETBV then vmx_handle_xsetbv
      else if r = EXIT_REASON_XSAVES then vmx_handle_xsaves
      else if r = EXIT_REASON_XRSTORS then vmx_handle_xrstors
      else (\<lambda>s. Some (0, s)))"

text \<open>The result of a reflected exit is that of \<^verbatim>\<open>nested_vmx_reflect_vmexit\<close>, which has no
  \<^verbatim>\<open>return\<close> and leaves the 0 of \<^verbatim>\<open>nested_vmx_vmexit\<close> in the result register.\<close>

definition vm_exit_handler :: "vmx \<Rightarrow> (int \<times> vmx) option" where
  "vm_exit_handler s =
     (let exit_reason = (ucast (vmcs_read VM_EXIT_REASON s) :: u32);
          s = set_g (g_rip_update (\<lambda>_. vmcs_read GUEST_RIP s)) s;
          s = set_regs (r_rsp_update (\<lambda>_. vmcs_read GUEST_RSP s)) s
      in if v_guest_mode s \<noteq> 0 \<and> nested_vm_exit_reflected exit_reason s
         then Some (nested_vmx_reflect_vmexit exit_reason s)
         else do {
           (ret, s) \<leftarrow> (if exit_reason AND 0x80000000 \<noteq> 0 then vmx_handle_vm_entry_failed s
                        else exit_dispatch (ucast (exit_reason AND 0xff)) s);
           Some (ret, vmcs_write GUEST_RIP (g_rip (v_guest s)) s)
         })"

section \<open>Reset state and the run loop\<close>

definition vmx_set_bist_state :: "vmx \<Rightarrow> vmx" where
  "vmx_set_bist_state s =
     (let datas = \<lparr>s_selector = 0, s_base = 0, s_limit = 0xffff,
                 s_ar_bytes = VMX_AR_P_MASK OR VMX_AR_TYPE_WRITABLE_DATA_MASK OR
                   VMX_AR_TYPE_ACCESSES_MASK OR VMX_AR_S_MASK\<rparr>
      in set_g (\<lambda>g. g\<lparr>
        g_cs := \<lparr>s_selector = 0, s_base = 0, s_limit = 0xffff,
          s_ar_bytes = VMX_AR_P_MASK OR VMX_AR_TYPE_READABLE_CODE_MASK OR VMX_AR_TYPE_CODE_MASK OR
            VMX_AR_TYPE_ACCESSES_MASK OR VMX_AR_S_MASK\<rparr>,
        g_ds := datas, g_es := datas, g_fs := datas, g_gs := datas, g_ss := datas,
        g_tr := \<lparr>s_selector = 0, s_base = 0, s_limit = 0xffff,
          s_ar_bytes = VMX_AR_P_MASK OR VMX_AR_TYPE_BUSY_16_TSS\<rparr>,
        g_ldtr := \<lparr>s_selector = 0, s_base = 0, s_limit = 0xffff, s_ar_bytes = VMX_AR_UNUSABLE_MASK\<rparr>,
        g_gdtr_base := 0, g_gdtr_limit := 0xffff, g_idtr_base := 0, g_idtr_limit := 0xffff,
        g_cr0 := 0, g_cr2 := 0, g_cr3 := 0, g_cr4 := 0, g_cr0_read_shadow := 0, g_cr4_read_shadow := 0,
        g_pdpte0 := 0, g_pdpte1 := 0, g_pdpte2 := 0, g_pdpte3 := 0,
        g_rip := 0x7c00, g_rflags := push_bit 1 1, g_regs := zero_regs, g_xcr0 := XCR0_X87\<rparr>) s)"

text \<open>One turn of the loop, and whether there is another one. \<open>enter True\<close> stands for
  \<^verbatim>\<open>vm_launch\<close> and \<open>enter False\<close> for \<^verbatim>\<open>vm_resume\<close>: the guest runs until its next exit.
  The result is 0 then, and -1 when the instruction fails.\<close>

definition vmx_round :: "(bool \<Rightarrow> vmx \<Rightarrow> int \<times> vmx) \<Rightarrow> vmx \<Rightarrow> (bool \<times> vmx) option" where
  "vmx_round enter s =
     (let (ret0, s) =
        (if v_state s = 0 then
           let (ret0, s) = enter True s in (ret0, if ret0 = 0 then s\<lparr>v_state := 1\<rparr> else s)
         else enter False s)
      in if ret0 = 0 then do {
           (ret1, s) \<leftarrow> vm_exit_handler (vmx_save_guest_state s);
           Some (ret1 = 0, s)
         } else Some (False, s))"

partial_function (option) vmx_run :: "(bool \<Rightarrow> vmx \<Rightarrow> int \<times> vmx) \<Rightarrow> vmx \<Rightarrow> (int \<times> vmx) option" where
  "vmx_run enter s = do {
     (more, s) \<leftarrow> vmx_round enter s;
     if more then vmx_run enter s else Some (- 1, s)
   }"

text \<open>The three attempts of \<^verbatim>\<open>vm_init_test\<close>, each with half the size of the one before. The
  parameter block is written through a pointer to a page although its memory map begins behind the
  page's end.\<close>

definition vm_init_memory :: "vmx \<Rightarrow> (u64 \<times> vmx) option" where
  "vm_init_memory s = do {
     let sz = 0x10000000;
     (ret, s) \<leftarrow> alloc_guest_memory 0 sz s;
     if ret \<noteq> - 1 then Some (sz, s)
     else do {
       let sz = drop_bit 1 sz;
       (ret, s) \<leftarrow> alloc_guest_memory 0 sz s;
       if ret \<noteq> - 1 then Some (sz, s)
       else do {
         let sz = drop_bit 1 sz;
         (ret, s) \<leftarrow> alloc_guest_memory 0 sz s;
         Some (sz, s)
       }
     }
   }"

definition vm_prepare :: "u64 \<Rightarrow> u64 \<Rightarrow> u64 \<Rightarrow> vmx \<Rightarrow> (bool \<times> vmx) option" where
  "vm_prepare test_guest test_guest_end vcpu_cnt s = do {
     (vcpu, vcpu_cnt, s) \<leftarrow> vmx_init vcpu_cnt s;
     if \<not> vcpu then Some (False, s)
     else do {
       (ret, s) \<leftarrow> vmx_set_ctrl_state s;
       let s = vmx_set_bist_state (vmx_save_host_state s);
       (vm_mem_size, s) \<leftarrow> vm_init_memory s;
       (ret, s) \<leftarrow> alloc_guest_memory 0xfee00000 0x1000 s;
       let (ret, s) = write_guest_memory_gpa 0x200000 0x100000 (PHYS2VIRT 0x200000) s;
       let (ret, s) = write_guest_memory_gpa 0x7c00 (test_guest_end - test_guest) test_guest s;
       (buf, s) \<leftarrow> vm_zalloc_page s;
       let s = v_km_update (write_pg buf 518 1) s;
       let s = v_km_update (write_pg buf 519 0x100000) s;
       let s = v_km_update (write_pg buf 520 vm_mem_size) s;
       let s = v_km_update (write_pg buf 521 1) s;
       let (ret, s) = write_guest_memory_gpa 0x10000 0x4000 buf s;
       Some (True, vmx_set_guest_state s)
     }
   }"

definition vm_init_test :: "(bool \<Rightarrow> vmx \<Rightarrow> int \<times> vmx) \<Rightarrow> u64 \<Rightarrow> u64 \<Rightarrow> u64 \<Rightarrow> vmx \<Rightarrow> vmx option" where
  "vm_init_test enter test_guest test_guest_end vcpu_cnt s = do {
     (vcpu, s) \<leftarrow> vm_prepare test_guest test_guest_end vcpu_cnt s;
     if vcpu then do {
       (ret, s) \<leftarrow> vmx_run enter s;
       Some s
     } else Some s
   }"

section \<open>What the handlers leave alone\<close>

text \<open>A VMCS region is well typed when every field holds a value of its width. Most handlers
  neither change that nor the launch state, the current VMCS or the mode.\<close>

definition vmcs_typed :: "vmx \<Rightarrow> bool" where
  "vmcs_typed s \<longleftrightarrow> (\<forall>p f. cut f (v_vmcs s p f) = v_vmcs s p f)"

definition quiet :: "vmx \<Rightarrow> vmx \<Rightarrow> bool" where
  "quiet s s' \<longleftrightarrow> v_state s' = v_state s \<and> v_guest_mode s' = v_guest_mode s \<and>
     v_vmcs01 s' = v_vmcs01 s \<and> v_vmcs02 s' = v_vmcs02 s \<and> v_cur s' = v_cur s \<and>
     v_launched s' = v_launched s \<and> (vmcs_typed s \<longrightarrow> vmcs_typed s')"

named_theorems typed "operations keep the VMCS regions well typed"

lemma cut_cut [simp]: "cut f (cut f v) = cut f v"
  by (simp add: cut_def)

lemma typed_write [typed]: "vmcs_typed s \<Longrightarrow> vmcs_typed (vmcs_write f v s)"
  by (simp add: vmcs_typed_def vmcs_write_def)

lemma typed_writes [typed]: "vmcs_typed s \<Longrightarrow> vmcs_typed (vmcs_writes ws s)"
  unfolding vmcs_writes_def
  by (induction ws arbitrary: s) (simp_all add: split_def typed_write)

lemma typed_copy_in [typed]: "vmcs_typed s \<Longrightarrow> vmcs_typed (snd (copy_in fs v s))"
  by (induction fs v s rule: copy_in.induct) (simp_all add: typed_write Let_def)

lemma typed_same [typed]: "vmcs_typed s \<Longrightarrow> v_vmcs s' = v_vmcs s \<Longrightarrow> vmcs_typed s'"
  by (simp add: vmcs_typed_def)

lemma typed_simps [simp]:
  "vmcs_typed (v_guest_update u s) = vmcs_typed s" "vmcs_typed (v_km_update m s) = vmcs_typed s"
  "vmcs_typed (v_bytes_update b s) = vmcs_typed s" "vmcs_typed (v_cpu_update c s) = vmcs_typed s"
  "vmcs_typed (v_events_update e s) = vmcs_typed s" "vmcs_typed (v_state_update x s) = vmcs_typed s"
  "vmcs_typed (v_guest_mode_update x s) = vmcs_typed s" "vmcs_typed (emit e' s) = vmcs_typed s"
  "vmcs_typed (vmptr_load p s) = vmcs_typed s" "vmcs_typed (vmclear p s) = vmcs_typed s"
  "vmcs_typed (advance_rip s) = vmcs_typed s" "vmcs_typed (v_host_xcr0_update y s) = vmcs_typed s"
  "vmcs_typed (set_revision_id p v s) = vmcs_typed s"
  by (simp_all add: vmcs_typed_def emit_def advance_rip_def set_revision_id_def)

lemma quiet_refl: "quiet s s"
  by (simp add: quiet_def)

lemma quiet_trans: "quiet s t \<Longrightarrow> quiet t u \<Longrightarrow> quiet s u"
  by (simp add: quiet_def)

lemma quiet_simps [simp]:
  "quiet s (v_guest_update u t) = quiet s t" "quiet s (v_km_update m t) = quiet s t"
  "quiet s (v_bytes_update b t) = quiet s t" "quiet s (v_cpu_update c t) = quiet s t"
  "quiet s (v_events_update e t) = quiet s t" "quiet s (emit e' t) = quiet s t"
  "quiet s (advance_rip t) = quiet s t" "quiet s (v_vmcs12_update x t) = quiet s t"
  "quiet s (v_shadow_vmcs_update x t) = quiet s t" "quiet s (v_host_xcr0_update y t) = quiet s t"
  "quiet s (set_revision_id p v t) = quiet s t"
  by (simp_all add: quiet_def emit_def advance_rip_def set_revision_id_def vmcs_typed_def)

lemma quiet_write [simp]: "quiet s t \<Longrightarrow> quiet s (vmcs_write f v t)"
  by (auto simp: quiet_def typed)

lemma quiet_writes [simp]: "quiet s t \<Longrightarrow> quiet s (vmcs_writes ws t)"
  by (auto simp: quiet_def typed)

lemma quiet_start [simp]:
  "quiet (v_guest_update u s) t = quiet s t" "quiet (set_revision_id p v s) t = quiet s t"
  "quiet (v_shadow_vmcs_update x s) t = quiet s t"
  by (simp_all add: quiet_def set_revision_id_def vmcs_typed_def)

lemma quiet_reg_write [simp]: "quiet s (kvm_reg_write i v t) = quiet s t"
  by (simp add: kvm_reg_write_def)

lemma quiet_page: "vm_kmalloc_page s = Some (p, t) \<Longrightarrow> quiet s t"
  "vm_zalloc_page s = Some (p, t) \<Longrightarrow> quiet s t" "vm_zalloc_bytes s = Some (p, t) \<Longrightarrow> quiet s t"
  by (auto simp: vm_kmalloc_page_def vm_zalloc_page_def vm_zalloc_bytes_def quiet_refl
      split: bind_splits if_splits)

lemma quiet_longmode [simp]: "quiet s t \<Longrightarrow> quiet s (vmx_enter_longmode t)"
  by (simp add: vmx_enter_longmode_def Let_def)

lemma quiet_nested_ept: "nested_vmx_handle_ept_volation s = Some (r, t) \<Longrightarrow> quiet s t"
  by (auto simp: nested_vmx_handle_ept_volation_def Let_def quiet_refl split: sum.splits bind_splits)

lemma quiet_vmptrld: "vmx_handle_vmptrld s = Some (r, t) \<Longrightarrow> quiet s t"
  by (auto simp: vmx_handle_vmptrld_def Let_def quiet_refl
      split: sum.splits if_splits bind_splits dest!: quiet_page(3))

lemma quiet_ept: "vmx_handle_ept_volation s = Some (r, t) \<Longrightarrow> quiet s t"
  by (auto simp: vmx_handle_ept_volation_def Let_def quiet_page(1)
      split: if_splits bind_splits intro: quiet_nested_ept)

lemma quiet_cr: "vmx_handle_cr_access s = Some (r, t) \<Longrightarrow> quiet s t"
  by (auto simp: vmx_handle_cr_access_def Let_def quiet_refl split: if_splits)

lemma quiet_xsetbv: "vmx_handle_xsetbv s = Some (r, t) \<Longrightarrow> quiet s t"
  by (auto simp: vmx_handle_xsetbv_def Let_def quiet_refl split_def xsetbv_def)

lemma quiet_cpuid: "vmx_handle_cpuid s = Some (r, t) \<Longrightarrow> quiet s t"
  by (auto simp: vmx_handle_cpuid_def Let_def quiet_refl split_def)

lemma quiet_io: "vmx_handle_io s = Some (r, t) \<Longrightarrow> quiet s t"
  by (auto simp: vmx_handle_io_def Let_def quiet_refl split: if_splits)

lemma quiet_instructions:
  "vmx_handle_vmxon s = Some (r, t) \<Longrightarrow> quiet s t" "vmx_handle_vmxoff s = Some (r, t) \<Longrightarrow> quiet s t"
  "vmx_handle_vmclear s = Some (r, t) \<Longrightarrow> quiet s t" "vmx_handle_vmptrst s = Some (r, t) \<Longrightarrow> quiet s t"
  "vmx_handle_vmread s = Some (r, t) \<Longrightarrow> quiet s t" "vmx_handle_vmwrite s = Some (r, t) \<Longrightarrow> quiet s t"
  "vmx_handle_invept s = Some (r, t) \<Longrightarrow> quiet s t"
  by (auto simp: vmx_handle_vmxon_def vmx_handle_vmxoff_def vmx_handle_vmclear_def
      vmx_handle_vmptrst_def vmx_handle_vmread_def vmx_handle_vmwrite_def vmx_handle_invept_def
      write_u64_def Let_def quiet_refl split: sum.splits)

lemma quiet_small:
  "vmx_handle_exception s = Some (r, t) \<Longrightarrow> quiet s t" "vmx_handle_triple_fault s = Some (r, t) \<Longrightarrow> quiet s t"
  "vmx_handle_external_interrupt s = Some (r, t) \<Longrightarrow> quiet s t"
  "vmx_handle_pending_interrupt s = Some (r, t) \<Longrightarrow> quiet s t"
  "vmx_handle_rdpmc s = Some (r, t) \<Longrightarrow> quiet s t" "vmx_handle_rdtsc s = Some (r, t) \<Longrightarrow> quiet s t"
  "vmx_handle_rdtscp s = Some (r, t) \<Longrightarrow> quiet s t" "vmx_handle_rdmsr s = Some (r, t) \<Longrightarrow> quiet s t"
  "vmx_handle_mtf s = Some (r, t) \<Longrightarrow> quiet s t" "vmx_handle_apic_access s = Some (r, t) \<Longrightarrow> quiet s t"
  "vmx_handle_eoi s = Some (r, t) \<Longrightarrow> quiet s t" "vmx_handle_vmcall s = Some (r, t) \<Longrightarrow> quiet s t"
  "vmx_handle_wrmsr s = Some (r, t) \<Longrightarrow> quiet s t" "vmx_handle_xsaves s = Some (r, t) \<Longrightarrow> quiet s t"
  "vmx_handle_xrstors s = Some (r, t) \<Longrightarrow> quiet s t"
  "vmx_handle_preemption_timer s = Some (r, t) \<Longrightarrow> quiet s t"
  "vmx_handle_vm_entry_failed s = Some (r, t) \<Longrightarrow> quiet s t"
  by (auto simp: vmx_handle_exception_def vmx_handle_triple_fault_def vmx_handle_external_interrupt_def
      vmx_handle_pending_interrupt_def vmx_handle_rdpmc_def vmx_handle_rdtsc_def vmx_handle_rdtscp_def
      vmx_handle_rdmsr_def vmx_handle_mtf_def vmx_handle_apic_access_def vmx_handle_eoi_def
      vmx_handle_vmcall_def vmx_handle_wrmsr_def vmx_handle_xsaves_def vmx_handle_xrstors_def
      vmx_handle_preemption_timer_def vmx_handle_vm_entry_failed_def Let_def quiet_refl)

lemmas quiet_handlers = quiet_small quiet_instructions quiet_io quiet_cpuid quiet_xsetbv quiet_cr
  quiet_ept quiet_vmptrld

lemma dispatch_quiet:
  assumes "exit_dispatch r s = Some (x, t)" "r \<noteq> EXIT_REASON_VMLAUNCH" "r \<noteq> EXIT_REASON_VMRESUME"
  shows "quiet s t"
  using assms unfolding exit_dispatch_def
  by (auto split: if_splits simp: quiet_refl elim: quiet_handlers)

section \<open>Launch states across entries and exits\<close>

text \<open>The two mode switches never launch a VMCS, and each ends on a cleared one.\<close>

lemma vmclear_launched: "v_launched (vmclear p s) q \<Longrightarrow> v_launched s q"
  by (auto simp: vmclear_def split: if_splits)

lemma vmclear_done: "p AND 0xfff = 0 \<Longrightarrow> \<not> v_launched (vmclear p s) p"
  by (simp add: vmclear_def)

lemma copy_shadow_launched_mono: "v_launched (copy_shadow_to_vmcs12 s) q \<Longrightarrow> v_launched s q"
  by (auto simp: copy_shadow_to_vmcs12_def Let_def dest!: vmclear_launched)

lemma copy_host_launched_mono: "v_launched (copy_shadow_to_vmcs12_host s) q \<Longrightarrow> v_launched s q"
  by (auto simp: copy_shadow_to_vmcs12_host_def Let_def dest!: vmclear_launched)

lemma copy_to_shadow_launched_mono: "v_launched (copy_vmcs12_to_shadow s) q \<Longrightarrow> v_launched s q"
  by (auto simp: copy_vmcs12_to_shadow_alt Let_def dest!: vmclear_launched)

lemma typed_shadow [simp]:
  "vmcs_typed (copy_shadow_to_vmcs12 s) = vmcs_typed s"
  "vmcs_typed (copy_shadow_to_vmcs12_host s) = vmcs_typed s"
  by (simp_all add: vmcs_typed_def copy_shadow_to_vmcs12_host_def Let_def)

lemma typed_to_shadow [typed]: "vmcs_typed s \<Longrightarrow> vmcs_typed (copy_vmcs12_to_shadow s)"
  by (simp add: copy_vmcs12_to_shadow_def Let_def split_def typed)

lemma typed_run_steps:
  assumes "\<forall>f\<in>set fs. \<forall>s ok s'. f s = Some (ok, s') \<longrightarrow> vmcs_typed s \<longrightarrow> vmcs_typed s'"
  shows "run_steps fs s = Some (ok, s') \<Longrightarrow> vmcs_typed s \<Longrightarrow> vmcs_typed s'"
  using assms
proof (induction fs s rule: run_steps.induct)
  case (2 f fs s)
  from "2.prems"(1) obtain b t where f: "f s = Some (b, t)" by (auto split: option.splits)
  with "2.prems"(2,3) have t: "vmcs_typed t" by simp
  show ?case
  proof (cases b)
    case True
    with f "2.prems" have "run_steps fs t = Some (ok, s')" by simp
    then show ?thesis using "2.IH" [OF f refl] True t "2.prems"(3) by simp
  next
    case False
    with f "2.prems"(1) t show ?thesis by simp
  qed
qed simp

lemma typed_xlate: "xlate_member k f s = Some (ok, s') \<Longrightarrow> vmcs_typed s \<Longrightarrow> vmcs_typed s'"
  by (auto simp: xlate_member_def typed split: sum.splits)

lemma typed_ensure: "ensure_shadow_ept s = Some (ok, s') \<Longrightarrow> vmcs_typed s \<Longrightarrow> vmcs_typed s'"
  by (auto simp: ensure_shadow_ept_def vm_zalloc_page_def typed split: if_splits bind_splits)

lemma typed_link: "link_pointer_step s = Some (ok, s') \<Longrightarrow> vmcs_typed s \<Longrightarrow> vmcs_typed s'"
proof -
  assume a: "link_pointer_step s = Some (ok, s')" "vmcs_typed s"
  define t where "t = vmcs_write VMCS_LINK_POINTER (- 1) s"
  define first where "first s = (if vmcs12 v12_vmcs_link_pointer s = 0xffffffffffffffff then Some (True, s)
             else (case gpa_to_hpa (vmcs12 v12_vmcs_link_pointer s) s of
               Inl _ \<Rightarrow> Some (False, s)
             | Inr hpa \<Rightarrow> Some (True, vmcs_write VMCS_LINK_POINTER hpa
                 (set_revision_id (PHYS2VIRT hpa) (0x80000000 OR rdmsr MSR_IA32_VMX_BASIC s) s))))" for s
  have 1: "vmcs_typed s'" if "first s = Some (ok, s')" "vmcs_typed s" for s ok s'
    using that by (auto simp: first_def typed split: if_splits sum.splits)
  have "link_pointer_step s = (if vmcs12 v12_secondary_vm_exec_control t AND SECONDARY_EXEC_SHADOW_VMCS = 0
      then Some (True, t)
      else run_steps [first, xlate_member v12_vmread_bitmap VMREAD_BITMAP,
        xlate_member v12_vmwrite_bitmap VMWRITE_BITMAP] t)"
    unfolding link_pointer_step_def Let_def t_def first_def ..
  moreover have "vmcs_typed t" using a(2) by (simp add: t_def typed)
  ultimately show "vmcs_typed s'"
    using a(1) typed_run_steps [of "[first, xlate_member v12_vmread_bitmap VMREAD_BITMAP,
        xlate_member v12_vmwrite_bitmap VMWRITE_BITMAP]" t ok s'] 1 typed_xlate
    by (auto split: if_splits)
qed

lemma typed_set_ctrl:
  assumes "nested_vmx_set_ctrl_state s = Some (r, s')" "vmcs_typed s"
  shows "vmcs_typed s'"
proof -
  let ?fs = "[xlate_member v12_io_bitmap_a IO_BITMAP_A,
        xlate_member v12_io_bitmap_b IO_BITMAP_B,
        xlate_member v12_msr_bitmap MSR_BITMAP,
        xlate_member v12_vm_entry_msr_load_addr VM_ENTRY_MSR_LOAD_ADDR,
        xlate_member v12_vm_exit_msr_store_addr VM_EXIT_MSR_STORE_ADDR,
        xlate_member v12_vm_exit_msr_load_addr VM_EXIT_MSR_LOAD_ADDR,
        xlate_member v12_virtual_apic_page_addr VIRTUAL_APIC_PAGE_ADDR,
        ensure_shadow_ept, posted_intr_step, link_pointer_step, final_ctrl_writes]"
  from assms(1) obtain ok where
    ok: "run_steps ?fs (vmcs_write VIRTUAL_PROCESSOR_ID (vmcs12 v12_virtual_processor_id s) s) = Some (ok, s')"
    unfolding nested_vmx_set_ctrl_state_def by (auto split: bind_splits)
  have steps: "posted_intr_step t = Some (b, t') \<Longrightarrow> vmcs_typed t \<Longrightarrow> vmcs_typed t'"
    "final_ctrl_writes t = Some (b, t') \<Longrightarrow> vmcs_typed t \<Longrightarrow> vmcs_typed t'" for t b t'
    by (auto simp: posted_intr_step_def final_ctrl_writes_def typed split: if_splits elim: typed_xlate)
  have "\<forall>f\<in>set ?fs. \<forall>s ok s'. f s = Some (ok, s') \<longrightarrow> vmcs_typed s \<longrightarrow> vmcs_typed s'"
  proof (intro ballI allI impI)
    fix f t b t'
    assume "f \<in> set ?fs" "f t = Some (b, t')" "vmcs_typed t"
    then show "vmcs_typed t'"
      unfolding list.set
      by (elim insertE emptyE; hypsubst) (erule (1) typed_xlate typed_ensure typed_link steps)+
  qed
  then show ?thesis using ok typed_write [OF assms(2)] by (rule typed_run_steps)
qed

lemma run_launch:
  assumes "nested_vmx_run s = Some (r, s')"
    and a: "VIRT2PHYS (v_vmcs01 s) AND 0xfff = 0" "VIRT2PHYS (v_vmcs02 s) AND 0xfff = 0"
  shows "r = 0" "v_guest_mode s' = 1" "v_state s' = 0" "v_cur s' = VIRT2PHYS (v_vmcs02 s)"
    "v_vmcs01 s' = v_vmcs01 s" "v_vmcs02 s' = v_vmcs02 s"
    "v_launched s' q \<Longrightarrow> v_launched s q" "\<not> v_launched s' (VIRT2PHYS (v_vmcs01 s))"
    "vmcs_typed s \<Longrightarrow> vmcs_typed s'"
proof -
  define s0 where "s0 = (if v_shadow_vmcs_enabled s then copy_shadow_to_vmcs12 s else s)"
  define s1 where "s1 = vmptr_load (VIRT2PHYS (v_vmcs02 s)) ((vmclear (VIRT2PHYS (v_vmcs01 s)) s0)\<lparr>v_state := 0\<rparr>)"
  have s0: "v_vmcs01 s0 = v_vmcs01 s" "v_vmcs02 s0 = v_vmcs02 s" "vmcs_typed s0 = vmcs_typed s"
    "\<And>q. v_launched s0 q \<Longrightarrow> v_launched s q"
    using copy_shadow_launched_mono [of s] by (simp_all add: s0_def split: if_splits)
  obtain ret s2 where c: "nested_vmx_set_ctrl_state s1 = Some (ret, s2)"
    and s': "s' = (let t = nested_vmx_set_guest_state (nested_vmx_save_host_state s2);
       t = set_g (g_rip_update (\<lambda>_. vmcs12 v12_guest_rip t)) t;
       t = set_regs (r_rsp_update (\<lambda>_. vmcs12 v12_guest_rsp t)) t in t\<lparr>v_guest_mode := 1\<rparr>)"
    and r: "r = 0"
    using assms(1) s0(1,2) unfolding nested_vmx_run_def prepare_vmcs02_def Let_def s0_def [symmetric]
    by (auto simp: s1_def split: bind_splits)
  have fr: "ctrl_frame s1 (nested_vmx_set_guest_state (nested_vmx_save_host_state s2))"
    using ctrl_frame_trans [OF ctrl_frame_trans [OF set_ctrl_frame [OF c] save_host_frame] set_guest_state_frame] .
  have s1: "v_cur s1 = VIRT2PHYS (v_vmcs02 s)" "v_state s1 = 0" "v_vmcs01 s1 = v_vmcs01 s"
    "v_vmcs02 s1 = v_vmcs02 s" "vmcs_typed s1 = vmcs_typed s"
    "v_launched s1 = v_launched (vmclear (VIRT2PHYS (v_vmcs01 s)) s0)"
    using s0 a by (simp_all add: s1_def) (simp add: vmptr_load_def)
  show "r = 0" by (rule r)
  show "v_guest_mode s' = 1" "v_state s' = 0" "v_cur s' = VIRT2PHYS (v_vmcs02 s)"
    "v_vmcs01 s' = v_vmcs01 s" "v_vmcs02 s' = v_vmcs02 s"
    using fr s1 by (simp_all add: s' Let_def ctrl_frame_def)
  have l: "v_launched s' = v_launched (vmclear (VIRT2PHYS (v_vmcs01 s)) s0)"
    using fr s1 by (simp add: s' Let_def ctrl_frame_def)
  show "v_launched s q" if "v_launched s' q"
    using that s0(4) vmclear_launched unfolding l by blast
  show "\<not> v_launched s' (VIRT2PHYS (v_vmcs01 s))"
    using vmclear_done [OF a(1)] unfolding l .
  show "vmcs_typed s'" if "vmcs_typed s"
    using typed_set_ctrl [OF c] that
    by (simp add: s1 s' Let_def set_guest_state_alt nested_vmx_save_host_state_def typed)
qed

lemma exit_launch:
  fixes s i
  defines "s' \<equiv> snd (nested_vmx_reflect_vmexit i s)"
  assumes a: "VIRT2PHYS (v_vmcs01 s) AND 0xfff = 0" "VIRT2PHYS (v_vmcs02 s) AND 0xfff = 0"
  shows "v_guest_mode s' = 0" "v_state s' = 0" "v_cur s' = VIRT2PHYS (v_vmcs01 s)"
    "v_vmcs01 s' = v_vmcs01 s" "v_vmcs02 s' = v_vmcs02 s"
    "v_launched s' q \<Longrightarrow> v_launched s q" "\<not> v_launched s' (VIRT2PHYS (v_vmcs02 s))"
    "vmcs_typed s \<Longrightarrow> vmcs_typed s'"
proof -
  define t where "t = vmexit_synced i (ucast (vmcs_read VM_EXIT_INTR_INFO s)) (ucast (vmcs_read EXIT_QUALIFICATION s)) s"
  define u where "u = (if v_shadow_vmcs_enabled s then copy_vmcs12_to_shadow t else t)"
  have s': "s' = back_to_l1 u"
    by (simp add: s'_def nested_vmx_reflect_vmexit_def vmexit_alt u_def t_def)
  define h where "h = (if v_shadow_vmcs_enabled s then copy_shadow_to_vmcs12_host s else s)"
  have h: "v_vmcs01 h = v_vmcs01 s" "v_vmcs02 h = v_vmcs02 s" "v_vmcs h = v_vmcs s"
    "\<And>q. v_launched h q \<Longrightarrow> v_launched s q"
    using copy_host_launched_mono [of s]
    by (simp_all add: h_def copy_shadow_to_vmcs12_host_def Let_def split: if_splits)
  have td: "t = vmclear (VIRT2PHYS (v_vmcs02 s)) (set_vmcs12 v12_exit_qualification (ucast (ucast (vmcs_read EXIT_QUALIFICATION s) :: u32))
       (set_vmcs12 v12_vm_exit_intr_info (ucast (ucast (vmcs_read VM_EXIT_INTR_INFO s) :: u32)) (set_vmcs12 v12_vm_exit_reason (ucast i)
         (sync_vmcs12 h))))"
    by (simp add: t_def vmexit_synced_def h_def)
  have t: "v_vmcs01 t = v_vmcs01 s" "v_vmcs02 t = v_vmcs02 s" "v_vmcs t = v_vmcs s"
    by (simp_all add: td sync_vmcs12_def h)
  have tl: "\<not> v_launched t (VIRT2PHYS (v_vmcs02 s))"
    unfolding td by (rule vmclear_done [OF a(2)])
  have tm: "v_launched s q" if "v_launched t q" for q
    using h(4) [of q] vmclear_launched [OF that [unfolded td]] by (simp add: sync_vmcs12_def)
  have u: "v_vmcs01 u = v_vmcs01 s" "v_vmcs02 u = v_vmcs02 s" "vmcs_typed s \<Longrightarrow> vmcs_typed u"
    "\<And>q. v_launched u q \<Longrightarrow> v_launched t q"
    using t copy_to_shadow_launched_mono [of t] typed_same [of s t]
    by (simp_all add: u_def typed split: if_splits)
  have l: "v_launched s' = v_launched u"
    by (simp add: s' back_to_l1_def Let_def)
  show "v_guest_mode s' = 0" "v_state s' = 0" "v_vmcs01 s' = v_vmcs01 s" "v_vmcs02 s' = v_vmcs02 s"
    by (simp_all add: s' back_to_l1_def Let_def u)
  show "v_cur s' = VIRT2PHYS (v_vmcs01 s)"
    using a(1) by (simp add: s' back_to_l1_def Let_def u) (simp add: vmptr_load_def)
  show "v_launched s' q \<Longrightarrow> v_launched s q" "\<not> v_launched s' (VIRT2PHYS (v_vmcs02 s))"
    using tm tl u(4) unfolding l by blast+
  show "vmcs_typed s'" if "vmcs_typed s"
    using u(3) [OF that] by (simp add: s' back_to_l1_def Let_def typed)
qed

section \<open>The launch discipline\<close>

text \<open>The processor accepts \<^verbatim>\<open>vmlaunch\<close> only on a VMCS that is clear and \<^verbatim>\<open>vmresume\<close> only
  on one that has been launched. The monitor chooses by \<^verbatim>\<open>vcpu->state\<close>; \<open>launch_inv\<close> says that
  this is the right choice, and \<open>vmcs_inv\<close> what makes it stay right across mode switches: L1 runs
  on the first VMCS and L2 on the second, and the one not in use is clear.\<close>

definition vmcs_inv :: "vmx \<Rightarrow> bool" where
  "vmcs_inv s \<longleftrightarrow>
     (let l1 = VIRT2PHYS (v_vmcs01 s); l2 = VIRT2PHYS (v_vmcs02 s) in
      l1 AND 0xfff = 0 \<and> l2 AND 0xfff = 0 \<and> l1 \<noteq> l2 \<and>
      v_cur s = (if v_guest_mode s = 0 then l1 else l2) \<and>
      \<not> v_launched s (if v_guest_mode s = 0 then l2 else l1))"

definition launch_inv :: "vmx \<Rightarrow> bool" where
  "launch_inv s \<longleftrightarrow> vmcs_inv s \<and> (v_state s = 0 \<longleftrightarrow> \<not> v_launched s (v_cur s))"

lemma vmcs_inv_quiet: "vmcs_inv s \<Longrightarrow> quiet s t \<Longrightarrow> vmcs_inv t"
  by (simp add: vmcs_inv_def quiet_def)

lemma launch_inv_quiet: "launch_inv s \<Longrightarrow> quiet s t \<Longrightarrow> launch_inv t"
  by (auto simp: launch_inv_def quiet_def intro: vmcs_inv_quiet [unfolded quiet_def])

lemma vmcs_inv_simps [simp]:
  "vmcs_inv (v_guest_update u s) = vmcs_inv s" "vmcs_inv (emit e s) = vmcs_inv s"
  "vmcs_inv (v_state_update x s) = vmcs_inv s"
  by (simp_all add: vmcs_inv_def emit_def)

lemma launch_inv_simps [simp]:
  "launch_inv (v_guest_update u s) = launch_inv s" "launch_inv (emit e s) = launch_inv s"
  by (simp_all add: launch_inv_def) (simp add: emit_def)

lemma launch_inv_run:
  assumes "launch_inv s" "v_guest_mode s = 0" "nested_vmx_run (advance_rip (s\<lparr>v_state := x\<rparr>)) = Some (r, t)"
  shows "launch_inv t" "vmcs_typed s \<Longrightarrow> vmcs_typed t"
proof -
  define u where "u = advance_rip (s\<lparr>v_state := x\<rparr>)"
  have u: "v_vmcs01 u = v_vmcs01 s" "v_vmcs02 u = v_vmcs02 s" "v_launched u = v_launched s"
    "vmcs_typed u = vmcs_typed s"
    by (simp_all add: u_def) (simp_all add: advance_rip_def)
  note run = run_launch [OF assms(3) [folded u_def], unfolded u]
  have a: "VIRT2PHYS (v_vmcs01 s) AND 0xfff = 0" "VIRT2PHYS (v_vmcs02 s) AND 0xfff = 0"
    "VIRT2PHYS (v_vmcs01 s) \<noteq> VIRT2PHYS (v_vmcs02 s)" "\<not> v_launched s (VIRT2PHYS (v_vmcs02 s))"
    using assms(1,2) by (simp_all add: launch_inv_def vmcs_inv_def Let_def)
  show "vmcs_typed s \<Longrightarrow> vmcs_typed t" by (rule run(9) [OF a(1,2)])
  show "launch_inv t"
    using run(2-6,8) [OF a(1,2)] run(7) [OF a(1,2), of "VIRT2PHYS (v_vmcs02 s)"] a
    by (auto simp: launch_inv_def vmcs_inv_def Let_def)
qed

lemma launch_handlers:
  assumes "launch_inv s" "v_guest_mode s = 0"
  shows "vmx_handle_vmlaunch s = Some (r, t) \<Longrightarrow> launch_inv t \<and> (vmcs_typed s \<longrightarrow> vmcs_typed t)"
    and "vmx_handle_vmresume s = Some (r, t) \<Longrightarrow> launch_inv t \<and> (vmcs_typed s \<longrightarrow> vmcs_typed t)"
proof -
  have "s = s\<lparr>v_state := v_state s\<rparr>" by simp
  then show "vmx_handle_vmlaunch s = Some (r, t) \<Longrightarrow> launch_inv t \<and> (vmcs_typed s \<longrightarrow> vmcs_typed t)"
    using launch_inv_run [OF assms, of "v_state s"]
    by (auto simp: vmx_handle_vmlaunch_def split: bind_splits)
  show "vmx_handle_vmresume s = Some (r, t) \<Longrightarrow> launch_inv t \<and> (vmcs_typed s \<longrightarrow> vmcs_typed t)"
    using launch_inv_run [OF assms, of 1]
    by (auto simp: vmx_handle_vmresume_def split: bind_splits)
qed

text \<open>In L2 the exits for VMX instructions are always reflected.\<close>

lemma l2_no_launch:
  assumes "v_guest_mode s \<noteq> 0" "\<not> nested_vm_exit_reflected e s"
  shows "ucast (e AND 0xff) \<noteq> EXIT_REASON_VMLAUNCH" "ucast (e AND 0xff) \<noteq> EXIT_REASON_VMRESUME"
proof -
  have "ucast e = EXIT_REASON_EXTERNAL_INTERRUPT \<or> ucast e = EXIT_REASON_EPT_VIOLATION"
    using assms by (auto simp: nested_vm_exit_reflected_def Let_def split: if_splits)
  then have "ucast e = (1 :: u64) \<or> ucast e = (48 :: u64)" by (simp add: vmx_consts)
  moreover have "e = ucast (ucast e :: u64)"
    by (rule bit_word_eqI) (simp add: bit_ucast_iff)
  ultimately have "e = ucast (1 :: u64) \<or> e = ucast (48 :: u64)" by metis
  then have "e = 1 \<or> e = 48" by simp
  then show "ucast (e AND 0xff) \<noteq> EXIT_REASON_VMLAUNCH" "ucast (e AND 0xff) \<noteq> EXIT_REASON_VMRESUME"
    by (auto simp: vmx_consts)
qed

lemma vm_exit_handler_alt:
  fixes s
  defines "e \<equiv> (ucast (vmcs_read VM_EXIT_REASON s) :: u32)"
    and "u \<equiv> set_regs (r_rsp_update (\<lambda>_. vmcs_read GUEST_RSP s))
      (set_g (g_rip_update (\<lambda>_. vmcs_read GUEST_RIP s)) s)"
  shows "vm_exit_handler s =
    (if v_guest_mode u \<noteq> 0 \<and> nested_vm_exit_reflected e u then Some (nested_vmx_reflect_vmexit e u)
     else do {
       (ret, v) \<leftarrow> (if e AND 0x80000000 \<noteq> 0 then vmx_handle_vm_entry_failed u
                    else exit_dispatch (ucast (e AND 0xff)) u);
       Some (ret, vmcs_write GUEST_RIP (g_rip (v_guest v)) v)
     })"
proof -
  have "vmcs_read GUEST_RSP (set_g f s) = vmcs_read GUEST_RSP s" for f
    by (simp add: vmcs_read_def)
  then show ?thesis unfolding vm_exit_handler_def Let_def e_def u_def by presburger
qed

text \<open>An exit that is not a failed entry keeps the whole invariant. After a failed entry the
  handler changes nothing the discipline is about when L1 was entered, and takes L1's part again
  when L2 was.\<close>

lemma reflect_inv:
  assumes "vmcs_inv s" "v_guest_mode s \<noteq> 0"
  shows "launch_inv (snd (nested_vmx_reflect_vmexit e s)) \<and>
    (vmcs_typed s \<longrightarrow> vmcs_typed (snd (nested_vmx_reflect_vmexit e s)))"
proof -
  have a: "VIRT2PHYS (v_vmcs01 s) AND 0xfff = 0" "VIRT2PHYS (v_vmcs02 s) AND 0xfff = 0"
    "VIRT2PHYS (v_vmcs01 s) \<noteq> VIRT2PHYS (v_vmcs02 s)" "\<not> v_launched s (VIRT2PHYS (v_vmcs01 s))"
    using assms by (simp_all add: vmcs_inv_def Let_def)
  note ex = exit_launch [OF a(1,2), where i = e]
  show ?thesis
    using ex(1-5,7,8) ex(6) [of "VIRT2PHYS (v_vmcs01 s)"] a
    by (auto simp: launch_inv_def vmcs_inv_def Let_def)
qed

lemma reflects_failed_entry:
  assumes "e AND 0x80000000 \<noteq> (0 :: u32)"
  shows "nested_vm_exit_reflected e s"
proof -
  have low: "ucast e = (n :: u64) \<Longrightarrow> e = ucast n" for n
    by (auto intro: bit_word_eqI simp: bit_ucast_iff)
  have "ucast e \<noteq> EXIT_REASON_EXTERNAL_INTERRUPT" "ucast e \<noteq> EXIT_REASON_EPT_VIOLATION"
    "ucast e \<notin> {EXIT_REASON_VMCALL, EXIT_REASON_VMCLEAR, EXIT_REASON_VMLAUNCH, EXIT_REASON_VMPTRLD,
          EXIT_REASON_VMPTRST, EXIT_REASON_VMREAD, EXIT_REASON_VMRESUME, EXIT_REASON_VMWRITE,
          EXIT_REASON_VMOFF, EXIT_REASON_VMON, EXIT_REASON_INVEPT, EXIT_REASON_INVVPID}"
    using assms by (auto simp: vmx_consts dest!: low)
  then show ?thesis by (simp only: nested_vm_exit_reflected_def Let_def if_False)
qed

lemma dispatch_inv:
  assumes "launch_inv u" "exit_dispatch (ucast (e AND 0xff)) u = Some (x, v)"
    and "v_guest_mode u = 0 \<or> \<not> nested_vm_exit_reflected e u"
  shows "launch_inv v \<and> (vmcs_typed u \<longrightarrow> vmcs_typed v)"
proof -
  define r where "r = (ucast (e AND 0xff) :: u64)"
  have d: "exit_dispatch r u = Some (x, v)" using assms(2) by (simp add: r_def)
  consider "r = EXIT_REASON_VMLAUNCH" | "r = EXIT_REASON_VMRESUME"
    | "r \<noteq> EXIT_REASON_VMLAUNCH" "r \<noteq> EXIT_REASON_VMRESUME" by blast
  then show ?thesis
  proof cases
    case 3
    then have "quiet u v" by (rule dispatch_quiet [OF d])
    then show ?thesis using launch_inv_quiet [OF assms(1)] by (simp add: quiet_def)
  next
    case 1
    then have "v_guest_mode u = 0" using assms(3) l2_no_launch(1) [of u e] by (auto simp: r_def)
    moreover have "vmx_handle_vmlaunch u = Some (x, v)"
      using d 1 by (simp add: exit_dispatch_def vmx_consts)
    ultimately show ?thesis using launch_handlers(1) [OF assms(1)] by blast
  next
    case 2
    then have "v_guest_mode u = 0" using assms(3) l2_no_launch(2) [of u e] by (auto simp: r_def)
    moreover have "vmx_handle_vmresume u = Some (x, v)"
      using d 2 by (simp add: exit_dispatch_def vmx_consts)
    ultimately show ?thesis using launch_handlers(2) [OF assms(1)] by blast
  qed
qed

lemma exit_handler_inv:
  assumes "launch_inv s" "vm_exit_handler s = Some (r, t)"
  shows "launch_inv t \<and> (vmcs_typed s \<longrightarrow> vmcs_typed t)"
proof -
  define e where "e = (ucast (vmcs_read VM_EXIT_REASON s) :: u32)"
  define u where "u = set_regs (r_rsp_update (\<lambda>_. vmcs_read GUEST_RSP s))
     (set_g (g_rip_update (\<lambda>_. vmcs_read GUEST_RIP s)) s)"
  note handler = vm_exit_handler_alt [of s, folded e_def u_def]
  have u: "launch_inv u" "vmcs_typed u = vmcs_typed s"
    using assms(1) by (simp_all add: u_def)
  show ?thesis
  proof (cases "v_guest_mode u \<noteq> 0 \<and> nested_vm_exit_reflected e u")
    case True
    then have t: "t = snd (nested_vmx_reflect_vmexit e u)"
      using assms(2) unfolding handler by simp
    have "vmcs_inv u" using u(1) by (simp add: launch_inv_def)
    then show ?thesis using reflect_inv [of u e] True u(2) by (simp add: t)
  next
    case False
    then obtain x v where v: "(if e AND 0x80000000 \<noteq> 0 then vmx_handle_vm_entry_failed u
                        else exit_dispatch (ucast (e AND 0xff)) u) = Some (x, v)"
      and t: "t = vmcs_write GUEST_RIP (g_rip (v_guest v)) v"
      using assms(2) unfolding handler by (auto split: bind_splits)
    have "launch_inv v \<and> (vmcs_typed u \<longrightarrow> vmcs_typed v)"
      using v u(1) False dispatch_inv [of u e x v]
      by (auto simp: vmx_handle_vm_entry_failed_def split: if_splits)
    then show ?thesis using u(2) launch_inv_quiet [of v t] quiet_write [OF quiet_refl]
      by (auto simp: t typed)
  qed
qed

section \<open>The run loop\<close>

text \<open>The states in which the loop begins a turn.\<close>

inductive rounds :: "(bool \<Rightarrow> vmx \<Rightarrow> int \<times> vmx) \<Rightarrow> vmx \<Rightarrow> vmx \<Rightarrow> bool" for enter where
  start: "rounds enter s s"
| turn: "vmx_round enter s = Some (True, t) \<Longrightarrow> rounds enter t u \<Longrightarrow> rounds enter s u"

text \<open>The checks and loads of guest state have failed: bit 31 of the exit reason.\<close>

definition failed_entry :: "vmx \<Rightarrow> bool" where
  "failed_entry s \<longleftrightarrow> (ucast (vmcs_read VM_EXIT_REASON s) :: u32) AND 0x80000000 \<noteq> 0"

text \<open>What the processor documents of an entry whose result is 0. The instruction was the one
  the launch state of the current VMCS asks for: otherwise it fails with the error flags, and the
  result is -1. Either the guest has run until an exit, and the VMCS is launched from now on, or the
  checks of the guest state have failed: the host continues at the same place with bit 31 of the
  exit reason set, and no launch state has changed. Fields hold values of their widths.\<close>

definition enter_contract :: "(bool \<Rightarrow> vmx \<Rightarrow> int \<times> vmx) \<Rightarrow> bool" where
  "enter_contract enter \<longleftrightarrow> (\<forall>launch s s'. enter launch s = (0, s') \<longrightarrow>
     launch = (\<not> v_launched s (v_cur s)) \<and>
     v_state s' = v_state s \<and> v_guest_mode s' = v_guest_mode s \<and> v_vmcs01 s' = v_vmcs01 s \<and>
     v_vmcs02 s' = v_vmcs02 s \<and> v_cur s' = v_cur s \<and>
     v_launched s' = (if failed_entry s' then v_launched s else (v_launched s)(v_cur s := True)) \<and>
     (vmcs_typed s \<longrightarrow> vmcs_typed s'))"

text \<open>The state after a launch of L1 that failed in its checks: it counts as launched and is
  not.\<close>

definition launch_lost :: "vmx \<Rightarrow> bool" where
  "launch_lost s \<longleftrightarrow> vmcs_inv s \<and> v_guest_mode s = 0 \<and> v_state s = 1 \<and> \<not> v_launched s (v_cur s) \<and>
     failed_entry s"

lemma save_guest_simps [simp]: "vmcs_typed (vmx_save_guest_state s) = vmcs_typed s"
  "launch_inv (vmx_save_guest_state s) = launch_inv s" "vmcs_inv (vmx_save_guest_state s) = vmcs_inv s"
  "v_guest_mode (vmx_save_guest_state s) = v_guest_mode s" "v_state (vmx_save_guest_state s) = v_state s"
  "v_launched (vmx_save_guest_state s) = v_launched s" "v_cur (vmx_save_guest_state s) = v_cur s"
  "vmcs_read f (vmx_save_guest_state s) = vmcs_read f s"
  by (simp_all add: vmx_save_guest_state_def Let_def vmcs_read_def) (simp_all add: emit_def)

lemma failed_entry_write [simp]: "failed_entry (vmcs_write GUEST_RIP v s) = failed_entry s"
  by (auto simp: failed_entry_def vmcs_write_def vmcs_read_def vmcs_fields)

lemma failed_entry_simps [simp]:
  "failed_entry (v_guest_update u s) = failed_entry s" "failed_entry (vmx_save_guest_state s) = failed_entry s"
  "failed_entry (v_state_update x s) = failed_entry s"
  by (simp_all add: failed_entry_def) (simp_all add: vmcs_read_def)

text \<open>The handler after a failed entry.\<close>

lemma failed_entry_handler:
  assumes "failed_entry s" "vmcs_inv s" "vm_exit_handler s = Some (r, t)"
  shows "if v_guest_mode s = 0
    then r = 0 \<and> vmcs_inv t \<and> v_guest_mode t = 0 \<and> v_state t = v_state s \<and> v_launched t = v_launched s \<and>
      v_cur t = v_cur s \<and> failed_entry t \<and> (vmcs_typed s \<longrightarrow> vmcs_typed t)
    else launch_inv t \<and> (vmcs_typed s \<longrightarrow> vmcs_typed t)"
proof -
  define e where "e = (ucast (vmcs_read VM_EXIT_REASON s) :: u32)"
  define u where "u = set_regs (r_rsp_update (\<lambda>_. vmcs_read GUEST_RSP s))
     (set_g (g_rip_update (\<lambda>_. vmcs_read GUEST_RIP s)) s)"
  note handler = vm_exit_handler_alt [of s, folded e_def u_def]
  have e: "e AND 0x80000000 \<noteq> 0" using assms(1) by (simp add: failed_entry_def e_def)
  have q: "quiet s u" "failed_entry u" "v_guest_mode u = v_guest_mode s"
    using assms(1) by (simp_all add: u_def quiet_refl)
  show ?thesis
  proof (cases "v_guest_mode s = 0")
    case True
    then have t: "r = 0" "t = vmcs_write GUEST_RIP (g_rip (v_guest u)) u"
      using assms(3) e q(3) unfolding handler by (simp_all add: vmx_handle_vm_entry_failed_def)
    have "quiet s t" using q(1) by (simp add: t)
    moreover have "failed_entry t" using q(2) by (simp add: t)
    ultimately show ?thesis
      using True t(1) vmcs_inv_quiet [OF assms(2)] by (simp add: quiet_def)
  next
    case False
    then have t: "t = snd (nested_vmx_reflect_vmexit e u)"
      using assms(3) q(3) reflects_failed_entry [OF e, of u] unfolding handler by simp
    have "vmcs_inv u" "vmcs_typed s \<longrightarrow> vmcs_typed u"
      using q(1) vmcs_inv_quiet [OF assms(2)] by (simp_all add: quiet_def)
    then show ?thesis using reflect_inv [of u e] False q(3) by (auto simp: t)
  qed
qed

lemma round_inv:
  assumes c: "enter_contract enter" and inv: "launch_inv s \<or> launch_lost s"
    and r: "vmx_round enter s = Some (True, t)"
  shows "launch_inv s" "launch_inv t \<or> launch_lost t" "vmcs_typed s \<longrightarrow> vmcs_typed t"
proof -
  define launch where "launch = (v_state s = 0)"
  obtain ret0 s1 where e: "enter launch s = (ret0, s1)" by (cases "enter launch s")
  have ret0: "ret0 = 0" using r e by (auto simp: vmx_round_def launch_def split: if_splits)
  define s2 where "s2 = (if launch then s1\<lparr>v_state := 1\<rparr> else s1)"
  from r e ret0 have h: "vm_exit_handler (vmx_save_guest_state s2) = Some (0, t)"
    by (auto simp: vmx_round_def launch_def s2_def split: if_splits bind_splits)
  note k = c [unfolded enter_contract_def, rule_format, OF e [unfolded ret0]]
  show inv_s: "launch_inv s" using inv k by (auto simp: launch_lost_def launch_def)
  have t2: "vmcs_typed s \<longrightarrow> vmcs_typed s2" using k by (simp add: s2_def)
  show "launch_inv t \<or> launch_lost t" "vmcs_typed s \<longrightarrow> vmcs_typed t"
  proof -
    show "launch_inv t \<or> launch_lost t"
    proof (cases "failed_entry s1")
      case False
      then have "launch_inv s2"
        using k inv_s by (auto simp: s2_def launch_def launch_inv_def vmcs_inv_def Let_def split: if_splits)
      then show ?thesis using exit_handler_inv [OF _ h] by simp
    next
      case True
      then have f: "failed_entry s2" "vmcs_inv s2" "v_launched s2 = v_launched s" "v_cur s2 = v_cur s"
        "v_guest_mode s2 = v_guest_mode s" "v_state s2 = (if launch then 1 else v_state s)"
        using k inv_s by (auto simp: s2_def launch_inv_def vmcs_inv_def Let_def)
      then show ?thesis
        using failed_entry_handler [OF _ _ h] inv_s
        by (auto simp: launch_inv_def launch_lost_def launch_def split: if_splits)
    qed
    show "vmcs_typed s \<longrightarrow> vmcs_typed t"
    proof (cases "failed_entry s1")
      case False
      then have "launch_inv s2"
        using k inv_s by (auto simp: s2_def launch_def launch_inv_def vmcs_inv_def Let_def split: if_splits)
      then show ?thesis using exit_handler_inv [OF _ h] t2 by simp
    next
      case True
      then have "failed_entry s2" "vmcs_inv s2"
        using k inv_s by (auto simp: s2_def launch_inv_def vmcs_inv_def Let_def)
      then show ?thesis using failed_entry_handler [OF _ _ h] t2 by (auto split: if_splits)
    qed
  qed
qed

lemma rounds_inv:
  assumes "rounds enter s t" "enter_contract enter" "launch_inv s \<or> launch_lost s"
  shows "(launch_inv t \<or> launch_lost t) \<and> (vmcs_typed s \<longrightarrow> vmcs_typed t)"
  using assms
proof (induction rule: rounds.induct)
  case (turn s t u)
  then show ?case using round_inv [OF turn.prems(1,2) turn.hyps(1)] by blast
qed blast

text \<open>A launch that was lost ends the loop in the next turn: \<^verbatim>\<open>vmresume\<close> is refused.\<close>

lemma launch_lost_run:
  assumes "enter_contract enter" "launch_lost t"
  shows "fst (enter False t) \<noteq> 0 \<and> vmx_run enter t = Some (- 1, snd (enter False t))"
proof -
  obtain r u where e: "enter False t = (r, u)" by (cases "enter False t")
  have "r \<noteq> 0"
    using assms e by (auto simp: enter_contract_def launch_lost_def)
  then show ?thesis
    using e assms(2) by (simp add: vmx_run.simps [of enter t] vmx_round_def launch_lost_def)
qed

text \<open>C4. However often the guest exits and whatever it does there, entering and leaving its
  own guest included: in every state in which the loop begins a turn, the current VMCS is the first
  one in L1 mode and the second one in L2 mode, and \<^verbatim>\<open>vcpu->state\<close> is 0, so that \<^verbatim>\<open>vmlaunch\<close> is
  executed, exactly when the current VMCS is clear. There is one exception: after a \<^verbatim>\<open>vmlaunch\<close> of
  L1 that failed in the checks of the guest state (bit 31 of the exit reason, which is reported with
  result 0 like any exit) the state is 1 although the VMCS is clear; the next turn's
  \<^verbatim>\<open>vmresume\<close> is then refused and the loop returns -1. The processor is assumed to accept only the
  instruction the launch state asks for, to mark the VMCS it enters as launched, and to leave the
  launch state alone when the entry fails.\<close>

theorem vmx_launch_discipline:
  assumes "enter_contract enter" "launch_inv s" "rounds enter s t"
  shows "v_cur t = VIRT2PHYS (if v_guest_mode t = 0 then v_vmcs01 t else v_vmcs02 t) \<and>
    (v_state t = 0 \<longrightarrow> \<not> v_launched t (v_cur t)) \<and>
    ((v_state t = 0 \<longleftrightarrow> \<not> v_launched t (v_cur t)) \<or>
     v_guest_mode t = 0 \<and> v_state t = 1 \<and> \<not> v_launched t (v_cur t) \<and>
     (ucast (vmcs_read VM_EXIT_REASON t) :: u32) AND 0x80000000 \<noteq> 0 \<and>
     fst (enter False t) \<noteq> 0 \<and> vmx_run enter t = Some (- 1, snd (enter False t)))"
proof -
  from rounds_inv [OF assms(3,1)] assms(2) consider "launch_inv t" | "launch_lost t" by blast
  then show ?thesis
  proof cases
    case 1
    then show ?thesis by (simp add: launch_inv_def vmcs_inv_def Let_def split: if_splits)
  next
    case 2
    then show ?thesis using launch_lost_run [OF assms(1) 2]
      by (simp add: launch_lost_def vmcs_inv_def failed_entry_def Let_def)
  qed
qed

text \<open>Every field of every VMCS region holds a value of the field's width for as long as
  the loop runs: the monitor writes regions with \<^verbatim>\<open>vmwrite\<close> only, which cuts what it is given.\<close>

theorem vmcs_fields_in_width:
  assumes "enter_contract enter" "launch_inv s" "rounds enter s t"
    and "\<forall>p f. unat (v_vmcs s p f) < 2 ^ (8 * width_bytes (field_width f))"
  shows "unat (v_vmcs t p f) < 2 ^ (8 * width_bytes (field_width f))"
proof -
  have width: "unat v < 2 ^ n \<longleftrightarrow> take_bit n v = v" for v :: u64 and n
    by (metis (no_types) nat_take_bit_eq take_bit_nat_eq_self_iff unsigned_take_bit_eq word_unat_eq_iff)
  have "vmcs_typed s" using assms(4) by (simp add: vmcs_typed_def cut_def width)
  then have "vmcs_typed t" using rounds_inv [OF assms(3,1)] assms(2) by blast
  then show ?thesis by (simp add: vmcs_typed_def cut_def width)
qed

section \<open>When the loop comes back\<close>

text \<open>The one exit whose handler reports an error: L2 touches a page for which L1's own EPT has
  no entry, or that L1's entry sends to an address the first EPT does not map.\<close>

definition l2_unbacked :: "vmx \<Rightarrow> bool" where
  "l2_unbacked s \<longleftrightarrow> v_guest_mode s \<noteq> 0 \<and>
     (ucast (vmcs_read VM_EXIT_REASON s) :: u32) = 48 \<and>
     (case nested_ept_l2gpa_to_l1gpa (v_eptp_base s) (vmcs12 v12_ept_pointer s)
         (vmcs_read GUEST_PHYSICAL_ADDRESS s) (v_km s) of
        Inl _ \<Rightarrow> True
      | Inr l1gpa \<Rightarrow> (case gpa_to_hpa l1gpa s of Inl _ \<Rightarrow> True | Inr _ \<Rightarrow> False))"

text \<open>The state the exit handler gets: after an entry by \<^verbatim>\<open>vmlaunch\<close> the virtual processor counts
  as launched, and CR2 is saved.\<close>

definition entered :: "bool \<Rightarrow> vmx \<Rightarrow> vmx" where
  "entered launch s = vmx_save_guest_state (if launch then s\<lparr>v_state := 1\<rparr> else s)"

text \<open>A run of handled exits: each entry succeeds and each handler returns 0.\<close>

inductive handled_exits :: "(bool \<Rightarrow> vmx \<Rightarrow> int \<times> vmx) \<Rightarrow> vmx \<Rightarrow> vmx \<Rightarrow> bool" for enter where
  begins: "handled_exits enter s s"
| handled: "enter (v_state s = 0) s = (0, s1) \<Longrightarrow> vm_exit_handler (entered (v_state s = 0) s1) = Some (0, t) \<Longrightarrow>
    handled_exits enter t u \<Longrightarrow> handled_exits enter s u"

lemma zero_small:
  "vmx_handle_vm_entry_failed s = Some (r, t) \<Longrightarrow> r = 0" "vmx_handle_exception s = Some (r, t) \<Longrightarrow> r = 0"
  "vmx_handle_triple_fault s = Some (r, t) \<Longrightarrow> r = 0" "vmx_handle_external_interrupt s = Some (r, t) \<Longrightarrow> r = 0"
  "vmx_handle_pending_interrupt s = Some (r, t) \<Longrightarrow> r = 0"
  "vmx_handle_rdpmc s = Some (r, t) \<Longrightarrow> r = 0" "vmx_handle_rdtsc s = Some (r, t) \<Longrightarrow> r = 0"
  "vmx_handle_rdtscp s = Some (r, t) \<Longrightarrow> r = 0" "vmx_handle_rdmsr s = Some (r, t) \<Longrightarrow> r = 0"
  "vmx_handle_mtf s = Some (r, t) \<Longrightarrow> r = 0" "vmx_handle_apic_access s = Some (r, t) \<Longrightarrow> r = 0"
  "vmx_handle_eoi s = Some (r, t) \<Longrightarrow> r = 0" "vmx_handle_vmcall s = Some (r, t) \<Longrightarrow> r = 0"
  "vmx_handle_wrmsr s = Some (r, t) \<Longrightarrow> r = 0" "vmx_handle_xsaves s = Some (r, t) \<Longrightarrow> r = 0"
  "vmx_handle_xrstors s = Some (r, t) \<Longrightarrow> r = 0" "vmx_handle_preemption_timer s = Some (r, t) \<Longrightarrow> r = 0"
  "vmx_handle_cpuid s = Some (r, t) \<Longrightarrow> r = 0" "vmx_handle_io s = Some (r, t) \<Longrightarrow> r = 0"
  "vmx_handle_cr_access s = Some (r, t) \<Longrightarrow> r = 0" "vmx_handle_xsetbv s = Some (r, t) \<Longrightarrow> r = 0"
  by (auto simp: vmx_handle_vm_entry_failed_def vmx_handle_exception_def vmx_handle_triple_fault_def
      vmx_handle_external_interrupt_def
      vmx_handle_pending_interrupt_def vmx_handle_rdpmc_def vmx_handle_rdtsc_def vmx_handle_rdtscp_def
      vmx_handle_rdmsr_def vmx_handle_mtf_def vmx_handle_apic_access_def vmx_handle_eoi_def
      vmx_handle_vmcall_def vmx_handle_wrmsr_def vmx_handle_xsaves_def vmx_handle_xrstors_def
      vmx_handle_preemption_timer_def vmx_handle_cpuid_def vmx_handle_io_def vmx_handle_cr_access_def
      vmx_handle_xsetbv_def Let_def split_def)

lemma zero_instructions:
  "vmx_handle_vmxon s = Some (r, t) \<Longrightarrow> r = 0" "vmx_handle_vmxoff s = Some (r, t) \<Longrightarrow> r = 0"
  "vmx_handle_vmclear s = Some (r, t) \<Longrightarrow> r = 0" "vmx_handle_vmptrst s = Some (r, t) \<Longrightarrow> r = 0"
  "vmx_handle_vmread s = Some (r, t) \<Longrightarrow> r = 0" "vmx_handle_vmwrite s = Some (r, t) \<Longrightarrow> r = 0"
  "vmx_handle_invept s = Some (r, t) \<Longrightarrow> r = 0" "vmx_handle_vmlaunch s = Some (r, t) \<Longrightarrow> r = 0"
  "vmx_handle_vmresume s = Some (r, t) \<Longrightarrow> r = 0" "vmx_handle_vmptrld s = Some (r, t) \<Longrightarrow> r = 0"
  by (auto simp: vmx_handle_vmxon_def vmx_handle_vmxoff_def vmx_handle_vmclear_def
      vmx_handle_vmptrst_def vmx_handle_vmread_def vmx_handle_vmwrite_def vmx_handle_invept_def
      vmx_handle_vmlaunch_def vmx_handle_vmresume_def vmx_handle_vmptrld_def Let_def
      split: sum.splits bind_splits if_splits)

lemma dispatch_result:
  assumes "exit_dispatch q s = Some (r, t)" "q \<noteq> EXIT_REASON_EPT_VIOLATION"
  shows "r = 0"
  using assms unfolding exit_dispatch_def
  by (auto split: if_splits elim: zero_small zero_instructions)

lemma ept_result:
  assumes "vmx_handle_ept_volation s = Some (r, t)"
  shows "r = (if v_guest_mode s \<noteq> 0 \<and>
     (case nested_ept_l2gpa_to_l1gpa (v_eptp_base s) (vmcs12 v12_ept_pointer s)
         (vmcs_read GUEST_PHYSICAL_ADDRESS s) (v_km s) of
        Inl _ \<Rightarrow> True
      | Inr l1gpa \<Rightarrow> (case gpa_to_hpa l1gpa s of Inl _ \<Rightarrow> True | Inr _ \<Rightarrow> False)) then 1 else 0)"
  using assms
  by (auto simp: vmx_handle_ept_volation_def nested_vmx_handle_ept_volation_def Let_def
      split: if_splits bind_splits sum.splits)

text \<open>The results of the exit handler.\<close>

lemma exit_handler_result:
  assumes "vm_exit_handler s = Some (r, t)"
  shows "r = (if l2_unbacked s then 1 else 0)"
proof -
  define e where "e = (ucast (vmcs_read VM_EXIT_REASON s) :: u32)"
  define u where "u = set_regs (r_rsp_update (\<lambda>_. vmcs_read GUEST_RSP s))
     (set_g (g_rip_update (\<lambda>_. vmcs_read GUEST_RIP s)) s)"
  note handler = vm_exit_handler_alt [of s, folded e_def u_def]
  have u: "v_guest_mode u = v_guest_mode s" "v_eptp_base u = v_eptp_base s" "v_km u = v_km s"
    "v_vmcs12 u = v_vmcs12 s" "v_bytes u = v_bytes s" "\<And>f. vmcs_read f u = vmcs_read f s"
    by (simp_all add: u_def vmcs_read_def)
  have fail: "(case nested_ept_l2gpa_to_l1gpa (v_eptp_base u) (vmcs12 v12_ept_pointer u)
         (vmcs_read GUEST_PHYSICAL_ADDRESS u) (v_km u) of
        Inl _ \<Rightarrow> True
      | Inr l1gpa \<Rightarrow> (case gpa_to_hpa l1gpa u of Inl _ \<Rightarrow> True | Inr _ \<Rightarrow> False)) =
    (case nested_ept_l2gpa_to_l1gpa (v_eptp_base s) (vmcs12 v12_ept_pointer s)
         (vmcs_read GUEST_PHYSICAL_ADDRESS s) (v_km s) of
        Inl _ \<Rightarrow> True
      | Inr l1gpa \<Rightarrow> (case gpa_to_hpa l1gpa s of Inl _ \<Rightarrow> True | Inr _ \<Rightarrow> False))"
    unfolding vmcs12_def u ..
  have reflected: "e = 48 \<Longrightarrow> \<not> nested_vm_exit_reflected e u"
    by (simp add: nested_vm_exit_reflected_def vmx_consts)
  have low: "e = 48" if "ucast (e AND 0xff) = EXIT_REASON_EPT_VIOLATION" "v_guest_mode u \<noteq> 0"
    "\<not> nested_vm_exit_reflected e u"
  proof -
    have "ucast e = EXIT_REASON_EXTERNAL_INTERRUPT \<or> ucast e = EXIT_REASON_EPT_VIOLATION"
      using that(2,3) by (auto simp: nested_vm_exit_reflected_def Let_def split: if_splits)
    moreover have "ucast e = (n :: u64) \<Longrightarrow> e = ucast n" for n
      by (auto intro: bit_word_eqI simp: bit_ucast_iff)
    ultimately show ?thesis using that(1) by (auto simp: vmx_consts)
  qed
  show ?thesis
  proof (cases "v_guest_mode u \<noteq> 0 \<and> nested_vm_exit_reflected e u")
    case True
    then have "r = fst (nested_vmx_reflect_vmexit e u)" using assms unfolding handler by simp
    then have "r = 0" by (simp add: nested_vmx_reflect_vmexit_def nested_vmx_vmexit_def Let_def)
    then show ?thesis using True reflected by (auto simp: l2_unbacked_def e_def [symmetric])
  next
    case False
    then obtain x v where v: "(if e AND 0x80000000 \<noteq> 0 then vmx_handle_vm_entry_failed u
                        else exit_dispatch (ucast (e AND 0xff)) u) = Some (r, v)"
      using assms unfolding handler by (auto split: bind_splits)
    show ?thesis
    proof (cases "e AND 0x80000000 \<noteq> 0 \<or> ucast (e AND 0xff) \<noteq> EXIT_REASON_EPT_VIOLATION")
      case True
      then have "r = 0" "e \<noteq> 48"
        using v dispatch_result zero_small(1) by (auto simp: vmx_consts split: if_splits)
      then show ?thesis by (simp add: l2_unbacked_def e_def [symmetric])
    next
      case ept: False
      then have "vmx_handle_ept_volation u = Some (r, v)"
        using v by (simp add: exit_dispatch_def vmx_consts)
      note res = ept_result [OF this, unfolded fail u(1)]
      have "v_guest_mode s \<noteq> 0 \<Longrightarrow> e = 48" using low ept False u(1) by simp
      then show ?thesis unfolding res l2_unbacked_def e_def [symmetric] by auto
    qed
  qed
qed

text \<open>One turn, with its end.\<close>

lemma round_cases:
  "vmx_round enter s = Some (True, t) \<longleftrightarrow>
     (\<exists>s1. enter (v_state s = 0) s = (0, s1) \<and> vm_exit_handler (entered (v_state s = 0) s1) = Some (0, t))"
  "vmx_round enter s = Some (False, u) \<longleftrightarrow>
     (\<exists>r s1. enter (v_state s = 0) s = (r, s1) \<and>
       (r \<noteq> 0 \<and> u = s1 \<or>
        r = 0 \<and> (\<exists>r. r \<noteq> 0 \<and> vm_exit_handler (entered (v_state s = 0) s1) = Some (r, u))))"
  by (cases "enter (v_state s = 0) s"; auto simp: vmx_round_def entered_def split: bind_splits if_splits)+

lemma rounds_handled: "rounds enter s t \<longleftrightarrow> handled_exits enter s t"
proof
  show "rounds enter s t \<Longrightarrow> handled_exits enter s t"
    by (induction rule: rounds.induct) (auto simp: round_cases(1) intro: handled_exits.intros)
  show "handled_exits enter s t \<Longrightarrow> rounds enter s t"
    by (induction rule: handled_exits.induct) (blast intro: rounds.intros round_cases(1) [THEN iffD2])+
qed

lemma run_returns_rounds:
  assumes "vmx_run enter s = Some (r, u)"
  shows "r = - 1 \<and> (\<exists>t. rounds enter s t \<and> vmx_round enter t = Some (False, u))"
proof (rule vmx_run.raw_induct [where P = "\<lambda>enter s x. case x of (r, u) \<Rightarrow> r = - 1 \<and> (\<exists>t. rounds enter s t \<and> vmx_round enter t = Some (False, u))", OF _ assms, unfolded prod.case])
  fix run enter s x
  assume IH: "\<And>enter s x. run enter s = Some x \<Longrightarrow>
      case x of (r, u) \<Rightarrow> r = - 1 \<and> (\<exists>t. rounds enter s t \<and> vmx_round enter t = Some (False, u))"
    and step: "vmx_round enter s \<bind> (\<lambda>(more, s). if more then run enter s else Some (- 1, s)) = Some x"
  from step obtain more s1 where 1: "vmx_round enter s = Some (more, s1)"
    "(if more then run enter s1 else Some (- 1, s1)) = Some x"
    by (auto split: bind_splits)
  show "case x of (r, u) \<Rightarrow> r = - 1 \<and> (\<exists>t. rounds enter s t \<and> vmx_round enter t = Some (False, u))"
  proof (cases more)
    case True
    with 1 IH [of enter s1 x] show ?thesis by (auto intro: rounds.turn)
  next
    case False
    with 1 show ?thesis by (auto intro: rounds.start)
  qed
qed

lemma rounds_run:
  assumes "rounds enter s t" "vmx_round enter t = Some (False, u)"
  shows "vmx_run enter s = Some (- 1, u)"
  using assms
  by (induction rule: rounds.induct) (simp_all add: vmx_run.simps)

lemma unbacked_result:
  "(\<exists>r. r \<noteq> 0 \<and> vm_exit_handler s = Some (r, u)) \<longleftrightarrow> l2_unbacked s \<and> vm_exit_handler s = Some (1, u)"
  using exit_handler_result [of s] by (auto split: if_splits)

text \<open>C30. The run loop comes back exactly when, after some number of entries that succeeded
  and exits whose handler returned 0, either \<^verbatim>\<open>vm_launch\<close> or \<^verbatim>\<open>vm_resume\<close> fails, or L2 touches
  a page that L1's EPT does not map or maps to an address the first EPT does not back: this is the
  only exit of all whose handler reports an error. The result is -1 in both cases, never
  success, and the state is that of the failed instruction or of the handler. With any other exits
  the loop runs for ever.\<close>

theorem vmx_run_returns:
  "vmx_run enter s = Some (r, u) \<longleftrightarrow>
     r = - 1 \<and> (\<exists>t ret s1. handled_exits enter s t \<and> enter (v_state t = 0) t = (ret, s1) \<and>
       (ret \<noteq> 0 \<and> u = s1 \<or>
        ret = 0 \<and> l2_unbacked (entered (v_state t = 0) s1) \<and>
          vm_exit_handler (entered (v_state t = 0) s1) = Some (1, u)))"
proof -
  have "vmx_run enter s = Some (r, u) \<longleftrightarrow>
      r = - 1 \<and> (\<exists>t. rounds enter s t \<and> vmx_round enter t = Some (False, u))"
    using run_returns_rounds rounds_run by blast
  then show ?thesis by (simp only: rounds_handled round_cases(2) unbacked_result) blast
qed

text \<open>A processor that refuses every entry ends the loop in the first turn.\<close>

lemma vmx_run_returns_witness: "\<forall>s. vmx_run (\<lambda>_ s. (- 1, s)) s = Some (- 1, s)"
  unfolding vmx_run_returns by (auto intro: handled_exits.begins)

section \<open>The way to the loop\<close>

lemma kmalloc_page_cases:
  assumes "kmalloc 0x1000 0 b = Some (v, b')" "v \<noteq> 0"
  obtains f where "v = frame f" "f < LIMIT_PAGES" "\<not> page_used b f" "page_used b' f"
    "\<And>p. p < LIMIT_PAGES \<Longrightarrow> page_used b p \<Longrightarrow> page_used b' p"
proof -
  have n1: "pages_for 0x1000 = 1" by (simp add: pages_for_def)
  obtain q where q: "v = frame q" "hole b 0x1000 q"
    "\<forall>p < 2 ^ 52. page_used b' p \<longleftrightarrow> page_used b p \<or> q \<le> p \<and> p < q + 1"
    using alloc_large_cases [of "0x1000" b] assms by (auto simp: kmalloc_def frame_def n1)
  then show thesis
    using that [of q] by (auto simp: hole_def n1 LIMIT_PAGES_def)
qed

lemma zalloc_bytes_cases:
  assumes "vm_zalloc_bytes s = Some (v, t)"
  obtains f where "v = frame f" "f < LIMIT_PAGES" "\<not> page_used (km_boot (v_km s)) f"
    "page_used (km_boot (v_km t)) f"
    "\<And>p. p < LIMIT_PAGES \<Longrightarrow> page_used (km_boot (v_km s)) p \<Longrightarrow> page_used (km_boot (v_km t)) p"
    "quiet s t"
proof -
  from assms obtain b where b: "kmalloc 0x1000 0 (km_boot (v_km s)) = Some (v, b)" "v \<noteq> 0"
    "km_boot (v_km t) = b"
    by (auto simp: vm_zalloc_bytes_def vm_kmalloc_page_def split: bind_splits if_splits)
  show thesis
    using that quiet_page(3) [OF assms] kmalloc_page_cases [OF b(1,2)] b(3) by metis
qed

lemma frame_phys: "VIRT2PHYS (frame q) = page_addr q" "page_addr q AND 0xfff = 0"
proof -
  show "VIRT2PHYS (frame q) = page_addr q" by (simp add: frame_def)
  have m: "(0xfff :: u64) = mask 12" by (simp add: mask_eq_exp_minus_1)
  show "page_addr q AND 0xfff = 0"
    unfolding m by (rule bit_word_eqI) (auto simp: bit_and_iff bit_mask_iff page_addr_low)
qed

lemma page_addr_inject: "p < LIMIT_PAGES \<Longrightarrow> q < LIMIT_PAGES \<Longrightarrow> page_addr p = page_addr q \<longleftrightarrow> p = q"
  using page_addr_facts(2) [of p] page_addr_facts(2) [of q] by (metis less_imp_le)

lemma quiet_enable: "quiet s (snd (vmx_enable s))"
  by (simp add: vmx_enable_def Let_def split_def cr4_set_bits_def cr0_set_bits_def wrmsr_def quiet_refl)

lemma vmx_init_inv:
  assumes "vmx_init c s = Some (True, c', s')"
  shows "launch_inv s'"
proof -
  from assms obtain p t0 where t0: "vm_kmalloc SIZEOF_VMX_VCPU s = Some (p, t0)"
    and p: "p \<noteq> 0" by (auto simp: vmx_init_def split: bind_splits if_splits)
  define z where "z = zero_vcpu t0"
  from assms t0 p obtain v1 t1 where t1: "vm_zalloc_bytes z = Some (v1, t1)"
    by (auto simp: vmx_init_def z_def split: bind_splits if_splits)
  define u1 where "u1 = t1\<lparr>v_vmxon_region := v1\<rparr>"
  from assms t0 p t1 obtain v2 t2 where t2: "vm_zalloc_bytes u1 = Some (v2, t2)"
    by (auto simp: vmx_init_def z_def u1_def split: bind_splits if_splits)
  define u2 where "u2 = t2\<lparr>v_vmcs01 := v2\<rparr>"
  from assms t0 p t1 t2 obtain v3 t3 where t3: "vm_zalloc_bytes u2 = Some (v3, t3)"
    by (auto simp: vmx_init_def z_def u1_def u2_def split: bind_splits if_splits)
  define u3 where "u3 = t3\<lparr>v_vmcs02 := v3, v_virtual_processor_id := c + 1\<rparr>"
  obtain ret e where e: "vmx_enable u3 = (ret, e)" by (cases "vmx_enable u3")
  define r where "r = (let s = set_revision_id (v_vmxon_region e) (rdmsr MSR_IA32_VMX_BASIC e) e;
       s = set_revision_id (v_vmcs01 s) (rdmsr MSR_IA32_VMX_BASIC s) s;
       s = set_revision_id (v_vmcs02 s) (rdmsr MSR_IA32_VMX_BASIC s) s
     in vmx_on (VIRT2PHYS (v_vmxon_region s)) s)"
  define w where "w = vmptr_load (VIRT2PHYS (v_vmcs01 r)) (vmclear (VIRT2PHYS (v_vmcs02 r))
     (vmclear (VIRT2PHYS (v_vmcs01 r)) r))"
  from assms t0 p t1 t2 t3 e obtain h w1 g w2 where
    w1: "vm_zalloc_page w = Some (h, w1)" and w2: "vm_zalloc_page (w1\<lparr>v_host_fp_regs := h\<rparr>) = Some (g, w2)"
    and s': "s' = set_g (g_fp_regs_update (\<lambda>_. g)) w2"
    by (auto simp: vmx_init_def z_def u1_def u2_def u3_def r_def w_def Let_def split: bind_splits if_splits)
  obtain f1 where f1: "v2 = frame f1" "f1 < LIMIT_PAGES" "page_used (km_boot (v_km t2)) f1"
    using zalloc_bytes_cases [OF t2] by metis
  obtain f2 where f2: "v3 = frame f2" "f2 < LIMIT_PAGES" "\<not> page_used (km_boot (v_km u2)) f2"
    using zalloc_bytes_cases [OF t3] by metis
  have ne: "page_addr f1 \<noteq> page_addr f2"
    using f1 f2 page_addr_inject [of f1 f2] by (auto simp: u2_def)
  have q: "quiet z t1" "quiet u1 t2" "quiet u2 t3"
    using zalloc_bytes_cases [OF t1] zalloc_bytes_cases [OF t2] zalloc_bytes_cases [OF t3] by metis+
  have u3: "v_state u3 = 0" "v_guest_mode u3 = 0" "v_vmcs01 u3 = v2" "v_vmcs02 u3 = v3"
    using q by (simp_all add: quiet_def u3_def u2_def u1_def z_def zero_vcpu_def)
  have e3: "quiet u3 e" using quiet_enable [of u3] by (simp add: e)
  have r: "v_state r = 0" "v_guest_mode r = 0" "v_vmcs01 r = frame f1" "v_vmcs02 r = frame f2"
    using e3 u3 f1(1) f2(1) by (simp_all add: r_def Let_def vmx_on_def emit_def set_revision_id_def quiet_def)
  have w: "v_state w = 0" "v_guest_mode w = 0" "v_vmcs01 w = frame f1" "v_vmcs02 w = frame f2"
    "v_cur w = page_addr f1" "\<not> v_launched w (page_addr f1)" "\<not> v_launched w (page_addr f2)"
    using r frame_phys by (simp_all add: w_def) (simp_all add: vmptr_load_def vmclear_def frame_phys)
  have "launch_inv w"
    using w ne by (simp add: launch_inv_def vmcs_inv_def Let_def frame_phys)
  moreover have "quiet w w1" "quiet (w1\<lparr>v_host_fp_regs := h\<rparr>) w2"
    using quiet_page(2) [OF w1] quiet_page(2) [OF w2] by simp_all
  ultimately show ?thesis
    by (simp add: s' launch_inv_def vmcs_inv_def quiet_def)
qed

lemma quiet_kmalloc: "vm_kmalloc n s = Some (p, t) \<Longrightarrow> quiet s t"
  by (auto simp: vm_kmalloc_def quiet_refl split: bind_splits)

lemma quiet_members [simp]:
  "quiet s (v_posted_intr_addr_update x t) = quiet s t" "quiet s (v_io_bitmap_a_update x t) = quiet s t"
  "quiet s (v_io_bitmap_b_update x t) = quiet s t" "quiet s (v_msr_bitmap_update x t) = quiet s t"
  "quiet s (v_host_msr_update x t) = quiet s t" "quiet s (v_eptp_base_update x t) = quiet s t"
  "quiet s (v_vapic_page_update x t) = quiet s t" "quiet s (v_vmread_bitmap_update x t) = quiet s t"
  "quiet s (v_vmwrite_bitmap_update x t) = quiet s t" "quiet s (v_guest_memory_update z t) = quiet s t"
  "quiet s (v_shadow_vmcs_enabled_update y t) = quiet s t"
  by (simp_all add: quiet_def vmcs_typed_def)

lemma quiet_alloc_field:
  assumes "alloc_field put f s = Some t" "\<And>v u. quiet s u \<Longrightarrow> quiet s (put v u)"
  shows "quiet s t"
  using assms quiet_page(2) by (fastforce simp: alloc_field_def split: bind_splits)

section \<open>Setting up the controls\<close>

text \<open>\<open>t\<close> differs from \<open>s\<close> by writes to the fields \<open>F\<close> of the current VMCS, as far as
  VMCS regions go.\<close>

definition writes_only :: "u64 set \<Rightarrow> vmx \<Rightarrow> vmx \<Rightarrow> bool" where
  "writes_only F s t \<longleftrightarrow> quiet s t \<and> v_cpu t = v_cpu s \<and> (\<forall>p f. f \<notin> F \<longrightarrow> v_vmcs t p f = v_vmcs s p f)"

lemma writes_refl: "writes_only {} s s"
  by (simp add: writes_only_def quiet_refl)

lemma writes_trans: "writes_only F s t \<Longrightarrow> writes_only G t u \<Longrightarrow> writes_only (F \<union> G) s u"
  by (auto simp: writes_only_def intro: quiet_trans)

lemma writes_mono: "writes_only F s t \<Longrightarrow> F \<subseteq> G \<Longrightarrow> writes_only G s t"
  by (auto simp: writes_only_def)

lemma writes_write: "writes_only {f} s (vmcs_write f v s)"
  by (simp add: writes_only_def quiet_refl) (simp add: vmcs_write_def)

lemma writes_writes: "writes_only (fst ` set ws) s (vmcs_writes ws s)"
  by (simp add: writes_only_def quiet_refl vmcs_writes_unlisted)

lemma zalloc_frame: "vm_zalloc_page s = Some (p, t) \<Longrightarrow> \<exists>m. t = s\<lparr>v_km := m\<rparr>"
  by (auto simp: vm_zalloc_page_def split: bind_splits)

lemma writes_alloc_field:
  assumes "alloc_field put f s = Some t"
    and "\<And>v u. quiet s u \<Longrightarrow> quiet s (put v u)" "\<And>v u. v_cpu (put v u) = v_cpu u" "\<And>v u. v_vmcs (put v u) = v_vmcs u"
    and "\<And>v u. v_cur (put v u) = v_cur u"
  shows "writes_only {f} s t"
proof -
  from assms(1) obtain p m where t: "t = vmcs_write f (VIRT2PHYS p) (put p (s\<lparr>v_km := m\<rparr>))"
    using zalloc_frame by (fastforce simp: alloc_field_def split: bind_splits)
  have "quiet s (put p (s\<lparr>v_km := m\<rparr>))" by (rule assms(2)) (simp add: quiet_refl)
  then show ?thesis
    by (simp add: t writes_only_def assms(3)) (simp add: vmcs_write_def assms(3-5))
qed

lemma writes_alloc:
  "alloc_field (\<lambda>virt. v_posted_intr_addr_update (\<lambda>_. virt)) f s = Some t \<Longrightarrow> writes_only {f} s t"
  "alloc_field (\<lambda>virt. v_io_bitmap_a_update (\<lambda>_. virt)) f s = Some t \<Longrightarrow> writes_only {f} s t"
  "alloc_field (\<lambda>virt. v_io_bitmap_b_update (\<lambda>_. virt)) f s = Some t \<Longrightarrow> writes_only {f} s t"
  "alloc_field (\<lambda>virt. v_msr_bitmap_update (\<lambda>_. virt)) f s = Some t \<Longrightarrow> writes_only {f} s t"
  "alloc_field (\<lambda>virt. v_host_msr_update (\<lambda>_. virt)) f s = Some t \<Longrightarrow> writes_only {f} s t"
  "alloc_field (\<lambda>virt. v_vapic_page_update (\<lambda>_. virt)) f s = Some t \<Longrightarrow> writes_only {f} s t"
  "alloc_field (\<lambda>virt. v_vmread_bitmap_update (\<lambda>_. virt)) f s = Some t \<Longrightarrow> writes_only {f} s t"
  "alloc_field (\<lambda>virt. v_vmwrite_bitmap_update (\<lambda>_. virt)) f s = Some t \<Longrightarrow> writes_only {f} s t"
  "alloc_field (\<lambda>virt. set_g (g_msr_update (\<lambda>_. virt))) f s = Some t \<Longrightarrow> writes_only {f} s t"
  by (erule writes_alloc_field; simp)+

lemma writes_start [simp]: "writes_only F (v_shadow_vmcs_enabled_update x s) t = writes_only F s t"
  by (simp add: writes_only_def quiet_def vmcs_typed_def)

lemma writes_skip: "writes_only F s s"
  by (simp add: writes_only_def quiet_refl)

text \<open>What the step before may write can be anything but the field in question.\<close>

lemma writes_read:
  assumes "writes_only F s t" "f \<notin> F"
  shows "vmcs_read f t = vmcs_read f s"
  using assms by (simp add: writes_only_def quiet_def vmcs_read_def)

lemma read_write_same:
  assumes "v_cur s \<noteq> NO_VMCS" "c_vmwrite_ok (v_cpu s) f"
  shows "vmcs_read f (vmcs_write f v s) = cut f v"
  using assms by (simp add: vmcs_read_def vmcs_write_def)

lemma set_ctrl_steps:
  assumes "vmx_set_ctrl_state s = Some (r, s')"
  obtains t1 t2 t3 t4 where "r = 0"
    "writes_only {VIRTUAL_PROCESSOR_ID, VMX_PREEMPTION_TIMER_VALUE, POSTED_INTR_DESC_ADDR} s t1"
    "writes_only {IO_BITMAP_A, IO_BITMAP_B, MSR_BITMAP, VM_EXIT_MSR_LOAD_ADDR, VM_ENTRY_MSR_LOAD_ADDR,
       VM_EXIT_MSR_STORE_ADDR}
      (vmcs_write PIN_BASED_VM_EXEC_CONTROL (adjust_ctrl pin_based_request (rdmsr MSR_IA32_VMX_PINBASED_CTLS s)) t1) t2"
    "writes_only {EPT_POINTER, VIRTUAL_APIC_PAGE_ADDR, VMREAD_BITMAP, VMWRITE_BITMAP}
      (vmcs_write SECONDARY_VM_EXEC_CONTROL (adjust_ctrl cpu_based_request2 (rdmsr MSR_IA32_VMX_PROCBASED_CTLS2 s))
        (vmcs_write CPU_BASED_VM_EXEC_CONTROL (adjust_ctrl cpu_based_request (rdmsr MSR_IA32_VMX_PROCBASED_CTLS s)) t2)) t3"
    "t4 = vmcs_write VM_EXIT_CONTROLS (adjust_ctrl vm_exit_request (rdmsr MSR_IA32_VMX_EXIT_CTLS s))
      (vmcs_write VM_ENTRY_CONTROLS (adjust_ctrl vm_entry_request (rdmsr MSR_IA32_VMX_ENTRY_CTLS s)) t3)"
    "writes_only {CR3_TARGET_COUNT, CR0_GUEST_HOST_MASK, CR4_GUEST_HOST_MASK, EXCEPTION_BITMAP} t4 s'"
proof -
  have msr: "rdmsr i (vmcs_write f v u) = rdmsr i u" for i f v u by (simp add: rdmsr_def)
  define s1 where "s1 = vmcs_write VMX_PREEMPTION_TIMER_VALUE (2100000000 div 128)
    (vmcs_write VIRTUAL_PROCESSOR_ID (v_virtual_processor_id s) s)"
  define pin where "pin = adjust_ctrl pin_based_request (rdmsr MSR_IA32_VMX_PINBASED_CTLS s)"
  define cpu where "cpu = adjust_ctrl cpu_based_request (rdmsr MSR_IA32_VMX_PROCBASED_CTLS s)"
  define cpu2 where "cpu2 = adjust_ctrl cpu_based_request2 (rdmsr MSR_IA32_VMX_PROCBASED_CTLS2 s)"
  define ent where "ent = adjust_ctrl vm_entry_request (rdmsr MSR_IA32_VMX_ENTRY_CTLS s)"
  define ext where "ext = adjust_ctrl vm_exit_request (rdmsr MSR_IA32_VMX_EXIT_CTLS s)"
  note d = assms [unfolded vmx_set_ctrl_state_def Let_def msr, folded s1_def pin_def cpu_def cpu2_def ent_def ext_def]
  from d obtain t1 where t1: "(if pin AND PIN_BASED_POSTED_INTR \<noteq> 0
          then alloc_field (\<lambda>virt. v_posted_intr_addr_update (\<lambda>_. virt)) POSTED_INTR_DESC_ADDR s1
          else Some s1) = Some t1" (is "?A = _") by (cases ?A) simp_all
  define u1 where "u1 = vmcs_write PIN_BASED_VM_EXEC_CONTROL pin t1"
  note d = d [unfolded t1 bind.bind_lunit, folded u1_def]
  from d obtain a where a: "(if cpu AND CPU_BASED_USE_IO_BITMAPS \<noteq> 0 then do {
            s \<leftarrow> alloc_field (\<lambda>virt. v_io_bitmap_a_update (\<lambda>_. virt)) IO_BITMAP_A u1;
            alloc_field (\<lambda>virt. v_io_bitmap_b_update (\<lambda>_. virt)) IO_BITMAP_B s
          } else Some u1) = Some a" (is "?A = _") by (cases ?A) simp_all
  note d = d [unfolded a bind.bind_lunit]
  from d obtain t2 where t2: "(if cpu AND CPU_BASED_USE_MSR_BITMAPS \<noteq> 0 then do {
            s \<leftarrow> alloc_field (\<lambda>virt. v_msr_bitmap_update (\<lambda>_. virt)) MSR_BITMAP a;
            s \<leftarrow> alloc_field (\<lambda>virt. v_host_msr_update (\<lambda>_. virt)) VM_EXIT_MSR_LOAD_ADDR s;
            s \<leftarrow> alloc_field (\<lambda>virt. set_g (g_msr_update (\<lambda>_. virt))) VM_ENTRY_MSR_LOAD_ADDR s;
            Some (vmcs_write VM_EXIT_MSR_STORE_ADDR (VIRT2PHYS (g_msr (v_guest s))) s)
          } else Some a) = Some t2" (is "?A = _") by (cases ?A) simp_all
  define u2 where "u2 = vmcs_write SECONDARY_VM_EXEC_CONTROL cpu2 (vmcs_write CPU_BASED_VM_EXEC_CONTROL cpu t2)"
  note d = d [unfolded t2 bind.bind_lunit, folded u2_def]
  from d obtain b where b: "(if cpu2 AND SECONDARY_EXEC_ENABLE_EPT \<noteq> 0 then do {
            (virt, s) \<leftarrow> vm_zalloc_page u2;
            Some (vmcs_write EPT_POINTER (VIRT2PHYS virt OR 0x5e) (s\<lparr>v_eptp_base := virt\<rparr>))
          } else Some u2) = Some b" (is "?A = _") by (cases ?A) simp_all
  note d = d [unfolded b bind.bind_lunit]
  from d obtain c where c: "(if cpu2 AND SECONDARY_EXEC_APIC_REGISTER_VIRT \<noteq> 0
          then alloc_field (\<lambda>virt. v_vapic_page_update (\<lambda>_. virt)) VIRTUAL_APIC_PAGE_ADDR b
          else Some b) = Some c" (is "?A = _") by (cases ?A) simp_all
  note d = d [unfolded c bind.bind_lunit]
  from d obtain t3 where t3: "(if cpu2 AND SECONDARY_EXEC_SHADOW_VMCS \<noteq> 0 then do {
            s \<leftarrow> alloc_field (\<lambda>virt. v_vmread_bitmap_update (\<lambda>_. virt)) VMREAD_BITMAP
                  (c\<lparr>v_shadow_vmcs_enabled := True\<rparr>);
            alloc_field (\<lambda>virt. v_vmwrite_bitmap_update (\<lambda>_. virt)) VMWRITE_BITMAP s
          } else Some c) = Some t3" (is "?A = _") by (cases ?A) simp_all
  note d = d [unfolded t3 bind.bind_lunit]
  have 1: "writes_only {VIRTUAL_PROCESSOR_ID, VMX_PREEMPTION_TIMER_VALUE, POSTED_INTR_DESC_ADDR} s t1"
  proof -
    have s1: "writes_only {VIRTUAL_PROCESSOR_ID, VMX_PREEMPTION_TIMER_VALUE} s s1"
      using writes_trans [OF writes_write writes_write] by (simp add: s1_def insert_commute)
    have "writes_only {POSTED_INTR_DESC_ADDR} s1 t1"
      using t1 by (auto simp: writes_skip writes_alloc split: if_splits)
    from writes_trans [OF s1 this] show ?thesis by (rule writes_mono) auto
  qed
  have 2: "writes_only {IO_BITMAP_A, IO_BITMAP_B, MSR_BITMAP, VM_EXIT_MSR_LOAD_ADDR, VM_ENTRY_MSR_LOAD_ADDR,
       VM_EXIT_MSR_STORE_ADDR} u1 t2"
  proof -
    have "writes_only {IO_BITMAP_A, IO_BITMAP_B} u1 a"
      using a by (cases "cpu AND CPU_BASED_USE_IO_BITMAPS = 0")
        (auto simp: writes_skip split: bind_splits
          dest!: writes_alloc intro: writes_mono [OF writes_trans])
    moreover have "writes_only {MSR_BITMAP, VM_EXIT_MSR_LOAD_ADDR, VM_ENTRY_MSR_LOAD_ADDR, VM_EXIT_MSR_STORE_ADDR} a t2"
    proof (cases "cpu AND CPU_BASED_USE_MSR_BITMAPS = 0")
      case False
      with t2 obtain x y z where
        x: "alloc_field (\<lambda>virt. v_msr_bitmap_update (\<lambda>_. virt)) MSR_BITMAP a = Some x"
        and y: "alloc_field (\<lambda>virt. v_host_msr_update (\<lambda>_. virt)) VM_EXIT_MSR_LOAD_ADDR x = Some y"
        and z: "alloc_field (\<lambda>virt. set_g (g_msr_update (\<lambda>_. virt))) VM_ENTRY_MSR_LOAD_ADDR y = Some z"
        and z2: "t2 = vmcs_write VM_EXIT_MSR_STORE_ADDR (VIRT2PHYS (g_msr (v_guest z))) z"
        by (auto split: bind_splits)
      from writes_trans [OF writes_trans [OF writes_trans [OF writes_alloc(4) [OF x] writes_alloc(5) [OF y]]
          writes_alloc(9) [OF z]] writes_write]
      show ?thesis unfolding z2 by (rule writes_mono) auto
    qed (use t2 in \<open>simp add: writes_skip\<close>)
    ultimately show ?thesis by (rule writes_mono [OF writes_trans]) auto
  qed
  have 3: "writes_only {EPT_POINTER, VIRTUAL_APIC_PAGE_ADDR, VMREAD_BITMAP, VMWRITE_BITMAP} u2 t3"
  proof -
    have "writes_only {EPT_POINTER} u2 b"
    proof (cases "cpu2 AND SECONDARY_EXEC_ENABLE_EPT = 0")
      case False
      with b obtain p x where x: "vm_zalloc_page u2 = Some (p, x)"
        "b = vmcs_write EPT_POINTER (VIRT2PHYS p OR 0x5e) (x\<lparr>v_eptp_base := p\<rparr>)"
        by (auto split: bind_splits)
      then obtain m where m: "x = u2\<lparr>v_km := m\<rparr>" using zalloc_frame by blast
      have "writes_only {} u2 (x\<lparr>v_eptp_base := p\<rparr>)"
        by (simp add: m writes_only_def quiet_refl)
      from writes_trans [OF this writes_write] show ?thesis by (simp add: x(2))
    qed (use b in \<open>simp add: writes_skip\<close>)
    moreover have "writes_only {VIRTUAL_APIC_PAGE_ADDR} b c"
      using c by (auto simp: writes_skip writes_alloc split: if_splits)
    moreover have "writes_only {VMREAD_BITMAP, VMWRITE_BITMAP} c t3"
      using t3 by (cases "cpu2 AND SECONDARY_EXEC_SHADOW_VMCS = 0")
        (auto simp: writes_skip split: bind_splits
          dest!: writes_alloc intro: writes_mono [OF writes_trans])
    ultimately show ?thesis by (rule writes_mono [OF writes_trans [OF writes_trans]]) auto
  qed
  define t4 where "t4 = vmcs_write VM_EXIT_CONTROLS ext (vmcs_write VM_ENTRY_CONTROLS ent t3)"
  define ws where "ws = [(CR3_TARGET_COUNT, 0),
    (CR0_GUEST_HOST_MASK, rdmsr MSR_IA32_VMX_CR0_FIXED0 t3 AND rdmsr MSR_IA32_VMX_CR0_FIXED1 t3 AND 0xfffffffe),
    (CR4_GUEST_HOST_MASK, rdmsr MSR_IA32_VMX_CR4_FIXED0 t3 AND rdmsr MSR_IA32_VMX_CR4_FIXED1 t3),
    (EXCEPTION_BITMAP, 0xffffffff)]"
  have "s' = vmcs_writes ws t4" and r: "r = 0"
    using d by (simp_all add: vmcs_writes_def t4_def ws_def msr)
  then have "writes_only (fst ` set ws) t4 s'" by (simp add: writes_writes)
  then have 4: "writes_only {CR3_TARGET_COUNT, CR0_GUEST_HOST_MASK, CR4_GUEST_HOST_MASK, EXCEPTION_BITMAP} t4 s'"
    by (simp add: ws_def)
  show thesis
    by (rule that [OF r 1 2 [unfolded u1_def pin_def] 3 [unfolded u2_def cpu2_def cpu_def]
          t4_def [unfolded ext_def ent_def] 4])
qed

lemma quiet_after: "writes_only F t u \<Longrightarrow> quiet s t \<Longrightarrow> quiet s u"
  unfolding writes_only_def using quiet_trans by blast

lemma set_ctrl_quiet: "vmx_set_ctrl_state s = Some (r, s') \<Longrightarrow> quiet s s'"
proof -
  assume "vmx_set_ctrl_state s = Some (r, s')"
  then show ?thesis
  proof (rule set_ctrl_steps)
    fix t1 t2 t3 t4
    assume w: "writes_only {VIRTUAL_PROCESSOR_ID, VMX_PREEMPTION_TIMER_VALUE, POSTED_INTR_DESC_ADDR} s t1"
    "writes_only {IO_BITMAP_A, IO_BITMAP_B, MSR_BITMAP, VM_EXIT_MSR_LOAD_ADDR, VM_ENTRY_MSR_LOAD_ADDR,
       VM_EXIT_MSR_STORE_ADDR}
      (vmcs_write PIN_BASED_VM_EXEC_CONTROL (adjust_ctrl pin_based_request (rdmsr MSR_IA32_VMX_PINBASED_CTLS s)) t1) t2"
    "writes_only {EPT_POINTER, VIRTUAL_APIC_PAGE_ADDR, VMREAD_BITMAP, VMWRITE_BITMAP}
      (vmcs_write SECONDARY_VM_EXEC_CONTROL (adjust_ctrl cpu_based_request2 (rdmsr MSR_IA32_VMX_PROCBASED_CTLS2 s))
        (vmcs_write CPU_BASED_VM_EXEC_CONTROL (adjust_ctrl cpu_based_request (rdmsr MSR_IA32_VMX_PROCBASED_CTLS s)) t2)) t3"
    "t4 = vmcs_write VM_EXIT_CONTROLS (adjust_ctrl vm_exit_request (rdmsr MSR_IA32_VMX_EXIT_CTLS s))
      (vmcs_write VM_ENTRY_CONTROLS (adjust_ctrl vm_entry_request (rdmsr MSR_IA32_VMX_ENTRY_CTLS s)) t3)"
    "writes_only {CR3_TARGET_COUNT, CR0_GUEST_HOST_MASK, CR4_GUEST_HOST_MASK, EXCEPTION_BITMAP} t4 s'"
    have "quiet s t1" using w(1) by (simp add: writes_only_def)
    then have "quiet s t2" by (intro quiet_after [OF w(2)] quiet_write)
    then have "quiet s t3" by (intro quiet_after [OF w(3)] quiet_write)
    then have "quiet s t4" unfolding w(4) by (intro quiet_write)
    then show ?thesis by (rule quiet_after [OF w(5)])
  qed
qed

text \<open>A control word is legal when it has every bit the capability register demands and none it
  does not allow.\<close>

definition legal_ctrl :: "u64 \<Rightarrow> u64 \<Rightarrow> bool" where
  "legal_ctrl msr v \<longleftrightarrow> (\<forall>n < 32. (bit msr n \<longrightarrow> bit v n) \<and> (bit v n \<longrightarrow> bit msr (n + 32)))"

lemma below_32: "(c :: u64) < 2 ^ 32 \<Longrightarrow> bit c n \<Longrightarrow> n < 32"
  using less_mask_eq [of c 32] by (metis bit_and_iff bit_mask_iff)

lemma or_same_iff: "x OR y = y \<longleftrightarrow> (\<forall>n. bit x n \<longrightarrow> bit y n)" for x y :: u64
proof
  assume "x OR y = y"
  then have "bit y n \<longleftrightarrow> bit x n \<or> bit y n" for n using bit_or_iff [of x y n] by simp
  then show "\<forall>n. bit x n \<longrightarrow> bit y n" by blast
next
  assume "\<forall>n. bit x n \<longrightarrow> bit y n"
  then show "x OR y = y" by (intro bit_word_eqI) (auto simp: bit_or_iff)
qed

lemma adjust_ctrl_bits:
  assumes "c < 2 ^ 32"
  shows "adjust_ctrl c msr = (if \<exists>n < 32. bit c n \<and> \<not> bit msr (n + 32)
    then (c OR take_bit 32 msr) AND drop_bit 32 msr else c)"
proof -
  have c: "bit c n \<Longrightarrow> n < 32" for n by (rule below_32 [OF assms])
  have m: "ucast (ucast (drop_bit 32 msr) :: u32) = drop_bit 32 msr"
    by (rule bit_word_eqI) (auto simp: bit_ucast_iff bit_drop_bit_eq dest: bit_imp_le_length)
  have l: "ucast (ucast msr :: u32) = take_bit 32 msr"
    by (rule bit_word_eqI) (auto simp: bit_ucast_iff bit_take_bit_iff)
  have "c OR drop_bit 32 msr \<noteq> drop_bit 32 msr \<longleftrightarrow> (\<exists>n < 32. bit c n \<and> \<not> bit msr (n + 32))"
  proof -
    show ?thesis using c unfolding or_same_iff by (auto simp: bit_drop_bit_eq add.commute)
  qed
  then show ?thesis by (simp add: adjust_ctrl_def Let_def m l)
qed

text \<open>The five control fields with the words asked for and the capability registers.\<close>

definition control_table :: "(u64 \<times> u64 \<times> u64) list" where
  "control_table =
     [(PIN_BASED_VM_EXEC_CONTROL, pin_based_request, MSR_IA32_VMX_PINBASED_CTLS),
      (CPU_BASED_VM_EXEC_CONTROL, cpu_based_request, MSR_IA32_VMX_PROCBASED_CTLS),
      (SECONDARY_VM_EXEC_CONTROL, cpu_based_request2, MSR_IA32_VMX_PROCBASED_CTLS2),
      (VM_ENTRY_CONTROLS, vm_entry_request, MSR_IA32_VMX_ENTRY_CTLS),
      (VM_EXIT_CONTROLS, vm_exit_request, MSR_IA32_VMX_EXIT_CTLS)]"

lemma requests_small: "pin_based_request < 2 ^ 32" "cpu_based_request < 2 ^ 32"
  "cpu_based_request2 < 2 ^ 32" "vm_entry_request < 2 ^ 32" "vm_exit_request < 2 ^ 32"
  by (simp_all add: pin_based_request_def cpu_based_request_def cpu_based_request2_def
      vm_entry_request_def vm_exit_request_def vmx_consts)

lemma adjust_small:
  assumes "c < 2 ^ 32"
  shows "take_bit 32 (adjust_ctrl c msr) = adjust_ctrl c msr"
proof -
  have "bit (drop_bit 32 msr) n \<Longrightarrow> n < 32" for n
    using bit_imp_le_length [of msr "32 + n"] by (simp add: bit_drop_bit_eq)
  then have "bit (adjust_ctrl c msr) n \<Longrightarrow> n < 32" for n
    using below_32 [OF assms] unfolding adjust_ctrl_bits [OF assms] by (auto simp: bit_and_iff split: if_splits)
  then show ?thesis by (intro bit_word_eqI) (auto simp: bit_take_bit_iff)
qed

lemma set_ctrl_written:
  assumes "vmx_set_ctrl_state s = Some (r, s')" "v_cur s \<noteq> NO_VMCS" "\<forall>f. c_vmwrite_ok (v_cpu s) f"
    and "(f, c, m) \<in> set control_table"
  shows "vmcs_read f s' = adjust_ctrl c (rdmsr m s)"
  using assms(1)
proof (rule set_ctrl_steps)
  fix t1 t2 t3 t4
  assume w: "writes_only {VIRTUAL_PROCESSOR_ID, VMX_PREEMPTION_TIMER_VALUE, POSTED_INTR_DESC_ADDR} s t1"
    "writes_only {IO_BITMAP_A, IO_BITMAP_B, MSR_BITMAP, VM_EXIT_MSR_LOAD_ADDR, VM_ENTRY_MSR_LOAD_ADDR,
       VM_EXIT_MSR_STORE_ADDR}
      (vmcs_write PIN_BASED_VM_EXEC_CONTROL (adjust_ctrl pin_based_request (rdmsr MSR_IA32_VMX_PINBASED_CTLS s)) t1) t2"
    "writes_only {EPT_POINTER, VIRTUAL_APIC_PAGE_ADDR, VMREAD_BITMAP, VMWRITE_BITMAP}
      (vmcs_write SECONDARY_VM_EXEC_CONTROL (adjust_ctrl cpu_based_request2 (rdmsr MSR_IA32_VMX_PROCBASED_CTLS2 s))
        (vmcs_write CPU_BASED_VM_EXEC_CONTROL (adjust_ctrl cpu_based_request (rdmsr MSR_IA32_VMX_PROCBASED_CTLS s)) t2)) t3"
    "t4 = vmcs_write VM_EXIT_CONTROLS (adjust_ctrl vm_exit_request (rdmsr MSR_IA32_VMX_EXIT_CTLS s))
      (vmcs_write VM_ENTRY_CONTROLS (adjust_ctrl vm_entry_request (rdmsr MSR_IA32_VMX_ENTRY_CTLS s)) t3)"
    "writes_only {CR3_TARGET_COUNT, CR0_GUEST_HOST_MASK, CR4_GUEST_HOST_MASK, EXCEPTION_BITMAP} t4 s'"
  have 1: "v_cur t1 = v_cur s" "v_cpu t1 = v_cpu s" using w(1) by (simp_all add: writes_only_def quiet_def)
  have 2: "v_cur t2 = v_cur s" "v_cpu t2 = v_cpu s" using w(2) 1 by (simp_all add: writes_only_def quiet_def)
  have 3: "v_cur t3 = v_cur s" "v_cpu t3 = v_cpu s" using w(3) 2 by (simp_all add: writes_only_def quiet_def)
  have cut: "cut f (adjust_ctrl c x) = adjust_ctrl c x" for x
    using assms(4) requests_small adjust_small
    by (auto simp: control_table_def cut_def field_width_def vmcs_fields)
  have ok: "vmcs_read g (vmcs_write g v t) = cut g v" if "v_cur t = v_cur s" "v_cpu t = v_cpu s" for g v t
    using that assms(2,3) by (simp add: read_write_same)
  have skip: "vmcs_read g (vmcs_write h v t) = vmcs_read g t" if "g \<noteq> h" for g h v t
    using that by (simp add: vmcs_read_def vmcs_write_def)
  note r = writes_read [OF w(2)] writes_read [OF w(3)] writes_read [OF w(5)]
  consider "f = PIN_BASED_VM_EXEC_CONTROL" "c = pin_based_request" "m = MSR_IA32_VMX_PINBASED_CTLS"
    | "f = CPU_BASED_VM_EXEC_CONTROL" "c = cpu_based_request" "m = MSR_IA32_VMX_PROCBASED_CTLS"
    | "f = SECONDARY_VM_EXEC_CONTROL" "c = cpu_based_request2" "m = MSR_IA32_VMX_PROCBASED_CTLS2"
    | "f = VM_ENTRY_CONTROLS" "c = vm_entry_request" "m = MSR_IA32_VMX_ENTRY_CTLS"
    | "f = VM_EXIT_CONTROLS" "c = vm_exit_request" "m = MSR_IA32_VMX_EXIT_CTLS"
    using assms(4) by (auto simp: control_table_def)
  then have "vmcs_read f s' = cut f (adjust_ctrl c (rdmsr m s))"
    by cases (simp_all add: r w(4) ok skip 1 2 3 vmcs_fields)
  then show ?thesis by (simp add: cut)
qed

text \<open>C31. What the set-up leaves in a control field is legal for the processor exactly when the
  word asked for has all the bits the processor demands or also has one it does not allow: the
  demanded bits are only added where the code takes the way that prints a warning. The capability
  registers are assumed to allow what they demand.\<close>

theorem vmx_controls_legal:
  assumes "vmx_set_ctrl_state s = Some (r, s')" "v_cur s \<noteq> NO_VMCS" "\<forall>f. c_vmwrite_ok (v_cpu s) f"
    and "(f, c, m) \<in> set control_table" "\<forall>n < 32. bit (rdmsr m s) n \<longrightarrow> bit (rdmsr m s) (n + 32)"
  shows "legal_ctrl (rdmsr m s) (vmcs_read f s') \<longleftrightarrow>
    (\<forall>n < 32. bit (rdmsr m s) n \<longrightarrow> bit c n) \<or> (\<exists>n < 32. bit c n \<and> \<not> bit (rdmsr m s) (n + 32))"
proof -
  have c: "c < 2 ^ 32" using assms(4) requests_small by (auto simp: control_table_def)
  show ?thesis
    unfolding set_ctrl_written [OF assms(1-4)] adjust_ctrl_bits [OF c] legal_ctrl_def
    using assms(5) by (auto simp: bit_and_iff bit_or_iff bit_drop_bit_eq bit_take_bit_iff add.commute)
qed

section \<open>From power-on to the loop\<close>

lemma quiet_alloc_guest:
  assumes "alloc_guest_memory gpa sz s = Some (r, t)"
  shows "quiet s t"
proof -
  note d = assms [unfolded alloc_guest_memory_def Let_def]
  from d obtain z u where u: "vm_kmalloc SIZEOF_GUEST_MEMORY_ZONE s = Some (z, u)"
    by (auto split: bind_splits)
  note qu = quiet_kmalloc [OF u]
  show ?thesis
  proof (cases "z = 0")
    case False
    with d u obtain v w where w: "vm_kmalloc (roundup sz 0x1000) u = Some (v, w)"
      by (auto split: bind_splits)
    have qw: "quiet s w" by (rule quiet_trans [OF qu quiet_kmalloc [OF w]])
    show ?thesis
    proof (cases "v = 0")
      case True
      with d u w False qw show ?thesis by simp
    next
      case v: False
      with d u w False obtain km f where "t = w\<lparr>v_km := km, v_guest_memory := f\<rparr>"
        by (auto split: bind_splits)
      with qw show ?thesis by simp
    qed
  qed (use d u qu in \<open>simp\<close>)
qed

lemma quiet_write_guest: "quiet s (snd (write_guest_memory_gpa gpa sz buf s))"
  by (simp add: write_guest_memory_gpa_def quiet_refl split: sum.split)

lemma quiet_host_guest:
  "quiet s (vmx_save_host_state s)" "quiet s (vmx_set_bist_state s)" "quiet s (vmx_set_guest_state s)"
  by (simp_all add: vmx_save_host_state_def vmx_set_bist_state_def vmx_set_guest_state_def Let_def
      xsetbv_def quiet_refl)

lemma quiet_init_memory: "vm_init_memory s = Some (n, t) \<Longrightarrow> quiet s t"
  unfolding vm_init_memory_def Let_def
  by (auto split: bind_splits if_splits dest!: quiet_alloc_guest)
    (blast intro: quiet_trans)+

text \<open>Whatever the set-up does after \<^verbatim>\<open>vmx_init\<close>, the loop begins in the invariant.\<close>

lemma vm_prepare_inv:
  assumes "vm_prepare test_guest test_guest_end n s = Some (True, t)"
  shows "launch_inv t"
proof -
  from assms obtain n' a r b m c k d where
    a: "vmx_init n s = Some (True, n', a)" and b: "vmx_set_ctrl_state a = Some (r, b)"
    and c: "vm_init_memory (vmx_set_bist_state (vmx_save_host_state b)) = Some (m, c)"
    and d: "alloc_guest_memory 0xfee00000 0x1000 c = Some (k, d)"
    and t: "(let (ret, s) = write_guest_memory_gpa 0x200000 0x100000 (PHYS2VIRT 0x200000) d;
         (ret, s) = write_guest_memory_gpa 0x7c00 (test_guest_end - test_guest) test_guest s in do {
       (buf, s) \<leftarrow> vm_zalloc_page s;
       let s = v_km_update (write_pg buf 518 1) s;
       let s = v_km_update (write_pg buf 519 0x100000) s;
       let s = v_km_update (write_pg buf 520 m) s;
       let s = v_km_update (write_pg buf 521 1) s;
       let (ret, s) = write_guest_memory_gpa 0x10000 0x4000 buf s;
       Some (True, vmx_set_guest_state s) }) = Some (True, t)"
    by (auto simp: vm_prepare_def Let_def split: bind_splits if_splits)
  define x where "x = snd (write_guest_memory_gpa 0x7c00 (test_guest_end - test_guest) test_guest
    (snd (write_guest_memory_gpa 0x200000 0x100000 (PHYS2VIRT 0x200000) d)))"
  from t obtain buf y h where y: "vm_zalloc_page x = Some (buf, y)"
    and t: "t = vmx_set_guest_state (snd (write_guest_memory_gpa 0x10000 0x4000 buf (v_km_update h y)))"
    unfolding x_def Let_def split_def by (auto split: bind_splits)
  have "quiet a b" by (rule set_ctrl_quiet [OF b])
  then have "quiet a (vmx_set_bist_state (vmx_save_host_state b))"
    by (rule quiet_trans [OF quiet_trans [OF _ quiet_host_guest(1)] quiet_host_guest(2)])
  then have "quiet a c" by (rule quiet_trans [OF _ quiet_init_memory [OF c]])
  then have "quiet a d" by (rule quiet_trans [OF _ quiet_alloc_guest [OF d]])
  then have "quiet a x"
    unfolding x_def by (rule quiet_trans [OF quiet_trans [OF _ quiet_write_guest] quiet_write_guest])
  then have "quiet a y" by (rule quiet_trans [OF _ quiet_page(2) [OF y]])
  then have "quiet a (v_km_update h y)" by simp
  then have "quiet a t"
    unfolding t by (rule quiet_trans [OF quiet_trans [OF _ quiet_write_guest] quiet_host_guest(3)])
  then show ?thesis by (rule launch_inv_quiet [OF vmx_init_inv [OF a]])
qed

section \<open>Single exits\<close>


section \<open>Single exits\<close>

lemma ept_tree_boot:
  assumes "ept_tree own root km" "\<And>p. p < LIMIT_PAGES \<Longrightarrow> page_used (km_boot km) p \<Longrightarrow> page_used b p"
  shows "ept_tree own root (km\<lparr>km_boot := b\<rparr>)"
  using assms unfolding ept_tree_def by (simp add: read_pg_boot) metis

text \<open>C26. An EPT violation of the guest itself: with room for a page and the three tables, the
  handler returns 0 and exactly the page of the faulting address is mapped, to a frame nobody used
  before; every other guest page translates as before and the tree stays well formed. Any
  guest-physical address is served, also one no zone of the guest covers.\<close>

theorem ept_violation_maps_fresh_page:
  assumes "v_guest_mode s = 0" "ept_tree own (v_eptp_base s) (v_km s)" "room (km_boot (v_km s)) 4"
  shows "\<exists>t f own'. vmx_handle_ept_volation s = Some (0, t) \<and> \<not> page_used (km_boot (v_km s)) f \<and>
    ept_tree own' (v_eptp_base s) (v_km t) \<and>
    (\<forall>g. ept_gpa_to_hpa (v_eptp_base s) g (v_km t) =
      (if page_number g = page_number (vmcs_read GUEST_PHYSICAL_ADDRESS s)
       then Inr (page_addr f + PG_4KB_OFFSET g) else ept_gpa_to_hpa (v_eptp_base s) g (v_km s)))"
proof -
  let ?root = "v_eptp_base s" and ?gpa = "vmcs_read GUEST_PHYSICAL_ADDRESS s"
  let ?attr = "EPT_READ OR EPT_WRITE OR EPT_EXECUTE OR EPT_CACHE_WB"
  have attr: "?attr < 0x1000" "?attr AND EPT_RWX \<noteq> 0" by (simp_all add: ept_bits)
  have "room (km_boot (v_km s)) (Suc (Suc (Suc (Suc 0))))" using assms(3) by (simp add: eval_nat_numeral)
  from kmalloc_page [OF this] obtain f b where f: "kmalloc 0x1000 0 (km_boot (v_km s)) = Some (frame f, b)"
    "f < LIMIT_PAGES" "\<not> page_used (km_boot (v_km s)) f"
    "\<forall>p < LIMIT_PAGES. page_used b p \<longleftrightarrow> page_used (km_boot (v_km s)) p \<or> p = f"
    "room b (Suc (Suc (Suc 0)))" by blast
  define km where "km = (v_km s)\<lparr>km_boot := b\<rparr>"
  have tree: "ept_tree own ?root km"
    unfolding km_def by (rule ept_tree_boot [OF assms(2)]) (use f(4) in simp)
  have room: "room (km_boot km) (Suc (Suc (Suc 0)))" using f(5) by (simp add: km_def)
  obtain km' own' where m: "ept_map_page ?root ?gpa (page_addr f) 0x1000 ?attr km = Some km'"
    "ept_tree own' ?root km'" "room (km_boot km') 0" "km_invept km' = VIRT2PHYS ?root # km_invept km"
    "\<And>g. ept_gpa_to_hpa ?root g km' = (if page_number g = page_number ?gpa
       then leaf_result (page_addr f OR ?attr) g else ept_gpa_to_hpa ?root g km)"
    by (rule ept_map_page_4k [OF tree room, where gpa = ?gpa and hpa = "page_addr f" and attr = ?attr],
        rule that, assumption+)
  have same: "ept_gpa_to_hpa ?root g km = ept_gpa_to_hpa ?root g (v_km s)" for g
    by (simp add: ept_gpa_to_hpa_def km_def Let_def)
  have p: "vm_kmalloc_page s = Some (frame f, s\<lparr>v_km := km\<rparr>)"
    using f(1) by (simp add: vm_kmalloc_page_def km_def)
  have "vmx_handle_ept_volation s = Some (0, s\<lparr>v_km := km'\<rparr>)"
    using assms(1) m(1) by (simp add: vmx_handle_ept_volation_def p frame_phys)
  then show ?thesis
    using f(3) m(2,5) leaf_result_aligned [OF frame_phys(2) attr] same
    by (intro exI [of _ "s\<lparr>v_km := km'\<rparr>"] exI [of _ f] exI [of _ own']) simp
qed

lemma read_write_other: "g \<noteq> h \<Longrightarrow> vmcs_read g (vmcs_write h v t) = vmcs_read g t"
  by (simp add: vmcs_read_def vmcs_write_def)

lemma read_set_g [simp]: "vmcs_read f (set_g u s) = vmcs_read f s"
  by (simp add: vmcs_read_def)

lemma natural_width: "field_width f = VMCS_FIELD_WIDTH_NATURAL_WIDTH \<Longrightarrow> cut f v = v"
  by (simp add: cut_def)

lemma longmode_simps:
  "v_guest (vmx_enter_longmode s) = v_guest s" "v_cur (vmx_enter_longmode s) = v_cur s"
  "v_cpu (vmx_enter_longmode s) = v_cpu s"
  "f \<notin> {GUEST_CR0, GUEST_CR4, GUEST_TR_AR_BYTES, VM_ENTRY_CONTROLS, GUEST_IA32_EFER} \<Longrightarrow>
    vmcs_read f (vmx_enter_longmode s) = vmcs_read f s"
  by (simp_all add: vmx_enter_longmode_def Let_def read_write_other)

text \<open>Moves to control registers. The guest's CR3 follows, the read shadow of CR0
  follows, but a move to CR4 stores the guest's value only in the virtual processor: the read
  shadow of CR4 in the VMCS receives the read shadow of CR0.\<close>

theorem cr_access_shadows:
  assumes "vmx_handle_cr_access s = Some (r, t)" "v_cur s \<noteq> NO_VMCS" "\<forall>f. c_vmwrite_ok (v_cpu s) f"
  defines "val \<equiv> kvm_reg_read (unat (drop_bit 8 (vmcs_read EXIT_QUALIFICATION s) AND 0xf)) s"
    and "cr \<equiv> vmcs_read EXIT_QUALIFICATION s AND 0xf"
  shows "r = 0 \<and> g_rip (v_guest t) = g_rip (v_guest s) + vmcs_read VM_EXIT_INSTRUCTION_LEN s \<and>
    vmcs_read GUEST_CR3 t = (if cr = 3 then val else vmcs_read GUEST_CR3 s) \<and>
    vmcs_read CR0_READ_SHADOW t = (if cr = 0 then val else vmcs_read CR0_READ_SHADOW s) \<and>
    g_cr4_read_shadow (v_guest t) = (if cr = 4 then val else g_cr4_read_shadow (v_guest s)) \<and>
    vmcs_read CR4_READ_SHADOW t =
      (if cr = 4 then g_cr0_read_shadow (v_guest s) else vmcs_read CR4_READ_SHADOW s)"
proof -
  have w: "field_width CR0_READ_SHADOW = VMCS_FIELD_WIDTH_NATURAL_WIDTH"
    "field_width CR4_READ_SHADOW = VMCS_FIELD_WIDTH_NATURAL_WIDTH"
    "field_width GUEST_CR3 = VMCS_FIELD_WIDTH_NATURAL_WIDTH"
    by (simp_all add: field_width_def vmcs_fields)
  have ne: "CR0_READ_SHADOW \<noteq> CR4_READ_SHADOW" "CR0_READ_SHADOW \<noteq> GUEST_CR3" "CR4_READ_SHADOW \<noteq> GUEST_CR3"
    "VM_EXIT_INSTRUCTION_LEN \<noteq> CR0_READ_SHADOW" "VM_EXIT_INSTRUCTION_LEN \<noteq> CR4_READ_SHADOW"
    "VM_EXIT_INSTRUCTION_LEN \<noteq> GUEST_CR3" "GUEST_IA32_EFER \<noteq> CR0_READ_SHADOW"
    by (simp_all add: vmcs_fields)
  have l: "{CR0_READ_SHADOW, CR4_READ_SHADOW, GUEST_CR3, VM_EXIT_INSTRUCTION_LEN} \<inter>
      {GUEST_CR0, GUEST_CR4, GUEST_TR_AR_BYTES, VM_ENTRY_CONTROLS, GUEST_IA32_EFER} = {}"
    by (simp add: vmcs_fields)
  then have lm: "vmcs_read f (vmx_enter_longmode u) = vmcs_read f u"
    if "f \<in> {CR0_READ_SHADOW, CR4_READ_SHADOW, GUEST_CR3, VM_EXIT_INSTRUCTION_LEN}" for f u
    using that by (intro longmode_simps(4)) blast
  note d = assms(1) [unfolded vmx_handle_cr_access_def Let_def, folded val_def cr_def]
  show ?thesis
    using d assms(2,3) ne
    by (cases "cr = 0"; cases "cr = 3"; cases "cr = 4")
      (auto simp: advance_rip_def read_write_same read_write_other natural_width w longmode_simps(1-3) lm)
qed

definition xcr0_ok :: "u64 \<Rightarrow> u64 \<Rightarrow> bool" where
  "xcr0_ok m v \<longleftrightarrow> v OR m = m \<and> bit v 0 \<and> (bit v 2 \<longrightarrow> bit v 1)"

text \<open>\<^verbatim>\<open>xsetbv\<close> of the guest never brings an unsupported value into XCR0: the handler
  loads a value only if it lies in the mask \<^verbatim>\<open>cpuid\<close> reports, has the x87 bit, and has the AVX
  bit only together with the SSE bit; otherwise XCR0 keeps its value, and in both cases the
  instruction is skipped.\<close>

theorem xsetbv_keeps_xcr0_ok:
  assumes "vmx_handle_xsetbv s = Some (r, t)"
    and "xcr0_ok (ucast (fst (c_cpuid (v_cpu s) 0xd 0))) (c_xcr0 (v_cpu s))"
  shows "r = 0 \<and> xcr0_ok (ucast (fst (c_cpuid (v_cpu s) 0xd 0))) (c_xcr0 (v_cpu t)) \<and>
    (c_xcr0 (v_cpu t) \<noteq> c_xcr0 (v_cpu s) \<longrightarrow> g_xcr0 (v_guest t) = c_xcr0 (v_cpu t)) \<and>
    g_rip (v_guest t) = g_rip (v_guest s) + vmcs_read VM_EXIT_INSTRUCTION_LEN s"
proof -
  define m where "m = (ucast (fst (c_cpuid (v_cpu s) 0xd 0)) :: u64)"
  define v where "v = r_rax (g_regs (v_guest s)) OR push_bit 32 (r_rdx (g_regs (v_guest s)))"
  have ok: "xcr0_ok m v" if "v OR m = m" "v AND 1 \<noteq> 0" "v AND 6 \<noteq> 4"
  proof -
    have "bit v 0" using that(2) by (simp add: and_one_eq bit_0 odd_iff_mod_2_eq_one)
    moreover have "bit v 1" if b: "bit v 2"
    proof (rule ccontr)
      assume "\<not> bit v 1"
      have "bit (push_bit 1 1 OR push_bit 2 1 :: u64) n \<longleftrightarrow> n = 1 \<or> n = 2"
        "bit (push_bit 2 1 :: u64) n \<longleftrightarrow> n = 2" for n
        by (auto simp only: bit_or_iff bit_push_bit_iff bit_1_iff possible_bit_word) simp_all
      then have "bit (6 :: u64) n \<longleftrightarrow> n = 1 \<or> n = 2" "bit (4 :: u64) n \<longleftrightarrow> n = 2" for n by simp_all
      then have "v AND 6 = 4"
        by (intro bit_word_eqI) (use b \<open>\<not> bit v 1\<close> in \<open>auto simp only: bit_and_iff\<close>)
      then show False using \<open>v AND 6 \<noteq> 4\<close> by simp
    qed
    ultimately show ?thesis using that(1) by (simp add: xcr0_ok_def)
  qed
  note d = assms(1) [unfolded vmx_handle_xsetbv_def Let_def split_def, folded m_def v_def]
  from d obtain u where u: "r = 0" "t = advance_rip u"
    "u = s \<or> v OR m = m \<and> v AND 1 \<noteq> 0 \<and> v AND 6 \<noteq> 4 \<and> u = set_g (g_xcr0_update (\<lambda>_. v)) (xsetbv v s)"
    by (auto split: if_splits)
  have x: "c_xcr0 (v_cpu (xsetbv v s)) = v" by (simp add: xsetbv_def)
  have l: "vmcs_read f (xsetbv v s) = vmcs_read f s" "v_guest (xsetbv v s) = v_guest s" for f
    by (simp_all add: xsetbv_def vmcs_read_def)
  show ?thesis
    using u ok assms(2) unfolding m_def [symmetric]
    by (auto simp: advance_rip_def x l)
qed

section \<open>Concrete runs\<close>

text \<open>A processor that checks the launch state, and a guest whose only exit is a
  \<^verbatim>\<open>vmcall\<close>.\<close>

definition demo_enter :: "bool \<Rightarrow> vmx \<Rightarrow> int \<times> vmx" where
  "demo_enter launch s = (if launch = (\<not> v_launched s (v_cur s))
     then (0, s\<lparr>v_launched := (v_launched s)(v_cur s := True),
       v_vmcs := (v_vmcs s)(v_cur s := (v_vmcs s (v_cur s))(VM_EXIT_REASON := 18))\<rparr>)
     else (- 1, s))"

definition demo_start :: vmx where
  "demo_start = demo_vmx\<lparr>v_state := 0, v_launched := (\<lambda>_. False), v_vmcs := (\<lambda>_ _. 0)\<rparr>"

lemma demo_enter_contract: "enter_contract demo_enter"
proof -
  have c: "cut VM_EXIT_REASON 18 = 18"
    by (simp add: cut_def field_width_def vmcs_fields take_bit_eq_mod)
  show ?thesis
    by (auto simp: enter_contract_def demo_enter_def vmcs_typed_def failed_entry_def vmcs_read_def c)
qed

lemma demo_start_inv: "launch_inv demo_start"
  by (simp add: launch_inv_def vmcs_inv_def demo_start_def demo_vmx_def)

lemma demo_round: "\<exists>t. vmx_round demo_enter demo_start = Some (True, t) \<and> v_state t = 1 \<and>
    v_launched t (v_cur t)"
proof -
  have v: "v_state demo_start = 0" "v_guest_mode demo_start = 0" "v_launched demo_start = (\<lambda>_. False)"
    by (simp_all add: demo_start_def demo_vmx_def)
  define w where "w = snd (demo_enter True demo_start)"
  have e: "demo_enter True demo_start = (0, w)"
    by (simp add: demo_enter_def v w_def)
  have w: "vmcs_read VM_EXIT_REASON w = 18" "v_guest_mode w = 0" "v_launched w (v_cur w)"
    by (simp_all add: w_def demo_enter_def v vmcs_read_def)
  define u where "u = vmx_save_guest_state (w\<lparr>v_state := 1\<rparr>)"
  have u: "vmcs_read VM_EXIT_REASON u = 18" "v_state u = 1" "v_guest_mode u = 0" "v_launched u (v_cur u)"
    using w by (simp_all add: u_def) (simp add: vmcs_read_def)
  have adv: "v_state (advance_rip s) = v_state s" "v_cur (advance_rip s) = v_cur s"
    "v_launched (advance_rip s) = v_launched s" for s by (simp_all add: advance_rip_def)
  have h: "\<exists>t. vm_exit_handler u = Some (0, t) \<and> v_state t = 1 \<and> v_launched t (v_cur t)"
    unfolding vm_exit_handler_alt using u
    by (simp add: exit_dispatch_def vmx_consts vmx_handle_vmcall_def adv)
  have "vmx_round demo_enter demo_start = do {
      (ret1, s) \<leftarrow> vm_exit_handler u; Some (ret1 = 0, s) }"
    unfolding vmx_round_def v(1) Let_def by (simp add: e u_def)
  with h show ?thesis by auto
qed

lemma vmx_launch_discipline_witness:
  "\<exists>t. rounds demo_enter demo_start t \<and> v_state t = 1 \<and> v_launched t (v_cur t)"
proof -
  obtain t where t: "vmx_round demo_enter demo_start = Some (True, t)" "v_state t = 1" "v_launched t (v_cur t)"
    using demo_round by blast
  then have "rounds demo_enter demo_start t" by (auto intro: rounds.intros)
  with vmx_launch_discipline [OF demo_enter_contract demo_start_inv this] t(2,3) show ?thesis by auto
qed

lemma vmcs_fields_in_width_witness:
  "\<exists>t. rounds demo_enter demo_start t \<and> v_state t = 1 \<and> unat (v_vmcs t 0x30000 GUEST_CS_SELECTOR) < 2 ^ 16"
proof -
  obtain t where t: "vmx_round demo_enter demo_start = Some (True, t)" "v_state t = 1"
    using demo_round by blast
  then have r: "rounds demo_enter demo_start t" by (auto intro: rounds.intros)
  have "unat (v_vmcs demo_start p f) < 2 ^ (8 * width_bytes (field_width f))" for p f
    by (cases "field_width f") (simp_all add: demo_start_def field_width_def vmcs_fields)
  then have "unat (v_vmcs t 0x30000 GUEST_CS_SELECTOR) < 2 ^ (8 * width_bytes (field_width GUEST_CS_SELECTOR))"
    using vmcs_fields_in_width [OF demo_enter_contract demo_start_inv r] by blast
  then have "unat (v_vmcs t 0x30000 GUEST_CS_SELECTOR) < 2 ^ 16"
    by (simp add: field_width_def vmcs_fields)
  with r t(2) show ?thesis by blast
qed

definition demo_caps :: vmx where
  "demo_caps = demo_vmx\<lparr>v_cpu := demo_cpu\<lparr>c_msr := (\<lambda>i. if i = MSR_IA32_VMX_PINBASED_CTLS then 0x7f00000000 else 0)\<rparr>\<rparr>"

lemma vmx_controls_legal_witness:
  "\<exists>s'. vmx_set_ctrl_state demo_caps = Some (0, s') \<and> legal_ctrl 0x7f00000000 (vmcs_read PIN_BASED_VM_EXEC_CONTROL s')"
proof -
  have m: "rdmsr MSR_IA32_VMX_PINBASED_CTLS demo_caps = 0x7f00000000"
    "rdmsr MSR_IA32_VMX_PROCBASED_CTLS demo_caps = 0" "rdmsr MSR_IA32_VMX_PROCBASED_CTLS2 demo_caps = 0"
    by (simp_all add: rdmsr_def demo_caps_def demo_cpu_def vmx_consts)
  have w: "rdmsr i (vmcs_write f v s) = rdmsr i s" for i f v s by (simp add: rdmsr_def)
  have a: "adjust_ctrl pin_based_request 0x7f00000000 = 0x17" "adjust_ctrl cpu_based_request 0 = 0"
    "adjust_ctrl cpu_based_request2 0 = 0"
    by (simp_all add: adjust_ctrl_def pin_based_request_def cpu_based_request_def cpu_based_request2_def vmx_consts)
  have f: "0x17 AND PIN_BASED_POSTED_INTR = 0" by (simp add: vmx_consts)
  have e: "(0x7f00000000 :: u64) = push_bit 32 (mask 7)"
    by (simp add: mask_eq_exp_minus_1)
  have b: "bit (0x7f00000000 :: u64) n \<longleftrightarrow> 32 \<le> n \<and> n < 39" for n
    unfolding e by (simp only: bit_push_bit_iff bit_mask_iff possible_bit_word) auto
  have p: "pin_based_request = push_bit 7 1 OR 0x17" by (simp add: pin_based_request_def vmx_consts)
  have "bit pin_based_request 7" unfolding p by (simp only: bit_or_iff bit_push_bit_iff bit_1_iff possible_bit_word) simp
  then have x: "\<exists>n < 32. bit pin_based_request n \<and> \<not> bit (0x7f00000000 :: u64) (n + 32)"
    by (intro exI [of _ 7]) (simp add: b)
  obtain s' where s': "vmx_set_ctrl_state demo_caps = Some (0, s')"
    by (simp add: vmx_set_ctrl_state_def Let_def m w a f)
  have n: "v_cur demo_caps \<noteq> NO_VMCS" and c: "\<forall>f. c_vmwrite_ok (v_cpu demo_caps) f"
    by (simp_all add: demo_caps_def demo_vmx_def demo_cpu_def NO_VMCS_def)
  have tab: "(PIN_BASED_VM_EXEC_CONTROL, pin_based_request, MSR_IA32_VMX_PINBASED_CTLS) \<in> set control_table"
    by (simp add: control_table_def)
  have d: "\<forall>n<32. bit (0x7f00000000 :: u64) n \<longrightarrow> bit (0x7f00000000 :: u64) (n + 32)"
    by (auto simp only: b)
  have "legal_ctrl 0x7f00000000 (vmcs_read PIN_BASED_VM_EXEC_CONTROL s')"
    by (rule iffD2 [OF vmx_controls_legal [OF s' n c tab, unfolded m(1), OF d]], rule disjI2, rule x)
  with s' show ?thesis by (intro exI conjI)
qed

lemma ept_violation_maps_fresh_page_witness:
  "\<exists>t f. vmx_handle_ept_volation (demo_vmx\<lparr>v_eptp_base := demo_root\<rparr>) = Some (0, t) \<and>
     ept_gpa_to_hpa demo_root 0x7020 (v_km t) = Inr (page_addr f + 0x20)"
proof -
  let ?s = "demo_vmx\<lparr>v_eptp_base := demo_root\<rparr>"
  have s: "v_guest_mode ?s = 0" "v_eptp_base ?s = demo_root" "v_km ?s = demo_tables"
    "vmcs_read GUEST_PHYSICAL_ADDRESS ?s = 0x7010"
    by (simp_all add: demo_vmx_def vmcs_read_def vmcs_fields)
  have "room (km_boot demo_tables) 4" using demo_room [of 4] by (simp add: demo_tables_def)
  then obtain t f where t: "vmx_handle_ept_volation ?s = Some (0, t)"
    "\<forall>g. ept_gpa_to_hpa demo_root g (v_km t) = (if page_number g = page_number 0x7010
       then Inr (page_addr f + PG_4KB_OFFSET g) else ept_gpa_to_hpa demo_root g demo_tables)"
    using ept_violation_maps_fresh_page [of ?s demo_owner, unfolded s] demo_tables_tree by auto
  have "ept_gpa_to_hpa demo_root 0x7020 (v_km t) = Inr (page_addr f + 0x20)"
    using t(2) by (simp add: page_number_def PG_4KB_OFFSET_def)
  with t(1) show ?thesis by blast
qed

definition demo_exit :: "u64 \<Rightarrow> general_regs \<Rightarrow> vmx" where
  "demo_exit q r = demo_vmx\<lparr>v_guest := demo_guest\<lparr>g_regs := r, g_cr0_read_shadow := 0x11\<rparr>,
     v_vmcs := (\<lambda>_ f. if f = EXIT_QUALIFICATION then q else if f = CR0_READ_SHADOW then 0x22
       else if f = CR4_READ_SHADOW then 0x40000 else 0)\<rparr>"

lemma cr_access_shadows_witness:
  "\<exists>t. vmx_handle_cr_access (demo_exit 4 (demo_regs\<lparr>r_rax := 0x20\<rparr>)) = Some (0, t) \<and>
     g_cr4_read_shadow (v_guest t) = 0x20 \<and> vmcs_read CR4_READ_SHADOW t = 0x11"
proof -
  let ?s = "demo_exit 4 (demo_regs\<lparr>r_rax := 0x20\<rparr>)"
  obtain r t where t: "vmx_handle_cr_access ?s = Some (r, t)"
    by (simp add: vmx_handle_cr_access_def Let_def)
  have "v_cur ?s \<noteq> NO_VMCS" "\<forall>f. c_vmwrite_ok (v_cpu ?s) f"
    and q: "vmcs_read EXIT_QUALIFICATION ?s = 4" "g_cr0_read_shadow (v_guest ?s) = 0x11"
      "kvm_reg_read 0 ?s = 0x20"
    by (simp_all add: demo_exit_def demo_vmx_def demo_cpu_def NO_VMCS_def vmcs_read_def kvm_reg_read_def Let_def)
  with cr_access_shadows [OF t] t show ?thesis by simp
qed

lemma xsetbv_keeps_xcr0_ok_witness:
  "\<exists>t. vmx_handle_xsetbv ((demo_exit 0 (demo_regs\<lparr>r_rax := 3\<rparr>))\<lparr>v_cpu := demo_cpu\<lparr>c_cpuid := \<lambda>_ _. (7, 0, 0, 0)\<rparr>\<rparr>) = Some (0, t) \<and>
     c_xcr0 (v_cpu t) = 3 \<and> g_xcr0 (v_guest t) = 3"
proof -
  let ?s = "(demo_exit 0 (demo_regs\<lparr>r_rax := 3\<rparr>))\<lparr>v_cpu := demo_cpu\<lparr>c_cpuid := \<lambda>_ _. (7, 0, 0, 0)\<rparr>\<rparr>"
  have "\<exists>t. vmx_handle_xsetbv ?s = Some (0, t) \<and> c_xcr0 (v_cpu t) = 3"
    by (simp add: vmx_handle_xsetbv_def Let_def demo_exit_def demo_vmx_def demo_regs_def demo_guest_def
        vmcs_read_def vmcs_fields vmx_consts xsetbv_def advance_rip_def)
  then obtain t where t: "vmx_handle_xsetbv ?s = Some (0, t)" "c_xcr0 (v_cpu t) = 3" by blast
  have "c_xcr0 (v_cpu ?s) = 1" by (simp add: demo_cpu_def)
  moreover have "xcr0_ok 7 1" by (simp add: xcr0_ok_def bit_1_iff)
  ultimately show ?thesis using xsetbv_keeps_xcr0_ok [OF t(1)] t by simp
qed

end
