(* ===== verification/Usb.thy ===== *)
theory Usb
  imports Prelude
begin

text \<open>
  The structures the xHCI driver shares with the controller and with USB devices
  (\<^verbatim>\<open>drivers/usb/xhci.h\<close>, \<^verbatim>\<open>drivers/usb/usb.h\<close>). All of them are packed structures of integers and
  bit fields, so each is a list of its members with their widths, in the order of the source; the
  position of a member is the sum of the widths before it. A TRB is a 128-bit word: a cast from
  one TRB structure to another is then the identity.
\<close>

named_theorems usb_consts "register offsets and codes"
named_theorems usb_members "positions of members"

section \<open>Packed layouts\<close>

type_synonym packed = "(string \<times> nat) list"
type_synonym trb = "128 word"

fun member_from :: "nat \<Rightarrow> string \<Rightarrow> packed \<Rightarrow> nat \<times> nat" where
  "member_from p f [] = (p, 0)"
| "member_from p f ((g, w) # l) = (if f = g then (p, w) else member_from (p + w) f l)"

definition member_of :: "packed \<Rightarrow> string \<Rightarrow> nat \<times> nat" where
  "member_of l f = member_from 0 f l"

definition packed_bits :: "packed \<Rightarrow> nat" where
  "packed_bits l = sum_list (map snd l)"

text \<open>A member of a TRB in a variable: \<^verbatim>\<open>t.f\<close>, and \<^verbatim>\<open>t.f = v\<close>.\<close>

definition trb_get :: "nat \<times> nat \<Rightarrow> trb \<Rightarrow> u64" where
  "trb_get f t = (case f of (p, w) \<Rightarrow> ucast (take_bit w (drop_bit p t)))"

definition trb_set :: "nat \<times> nat \<Rightarrow> u64 \<Rightarrow> trb \<Rightarrow> trb" where
  "trb_set f v t = (case f of (p, w) \<Rightarrow>
     (t AND NOT (push_bit p (mask w))) OR push_bit p (take_bit w (ucast v)))"

text \<open>A TRB in memory, and a member of a structure in memory at the address \<open>a\<close>: the bytes the
  member lies in are read, and changed.\<close>

definition trb_load :: "bmem \<Rightarrow> u64 \<Rightarrow> trb" where
  "trb_load m a = ucast (load_le 8 m a) OR push_bit 64 (ucast (load_le 8 m (a + 8)))"

definition trb_store :: "trb \<Rightarrow> bmem \<Rightarrow> u64 \<Rightarrow> bmem" where
  "trb_store t m a = store_le 8 (ucast (drop_bit 64 t)) (store_le 8 (ucast t) m a) (a + 8)"

definition member_bytes :: "nat \<times> nat \<Rightarrow> nat" where
  "member_bytes f = (case f of (p, w) \<Rightarrow> (p mod 8 + w + 7) div 8)"

definition mem_get :: "nat \<times> nat \<Rightarrow> bmem \<Rightarrow> u64 \<Rightarrow> u64" where
  "mem_get f m a = take_bit (snd f) (drop_bit (fst f mod 8) (load_le (member_bytes f) m (a + of_nat (fst f div 8))))"

definition mem_set :: "nat \<times> nat \<Rightarrow> u64 \<Rightarrow> u64 \<Rightarrow> bmem \<Rightarrow> bmem" where
  "mem_set f v a m =
     (let b = a + of_nat (fst f div 8);
          old = load_le (member_bytes f) m b
      in store_le (member_bytes f)
           ((old AND NOT (push_bit (fst f mod 8) (mask (snd f)))) OR push_bit (fst f mod 8) (take_bit (snd f) v)) m b)"

text \<open>\<^verbatim>\<open>memset(p, 0, n)\<close> and \<^verbatim>\<open>memcpy\<close> of a structure.\<close>

definition mem_zero :: "u64 \<Rightarrow> u64 \<Rightarrow> bmem \<Rightarrow> bmem" where
  "mem_zero a n m = (\<lambda>b. if b - a < n then 0 else m b)"

section \<open>Ring structures\<close>

definition event_ring_segment_table_entry :: packed where
  "event_ring_segment_table_entry =
    [(''ring_segment_base_addr'', 64), (''ring_segment_size'', 16), (''reserved0'', 16), (''reserved1'', 32)]"

definition trb_template :: packed where
  "trb_template =
    [(''parameter'', 64), (''status'', 32), (''c'', 1), (''ent'', 1), (''reserved1'', 8),
     (''trb_type'', 6), (''control'', 16)]"

definition transfer_trb :: packed where
  "transfer_trb =
    [(''addr'', 64), (''trb_transfer_len'', 17), (''td_size'', 5), (''int_tar'', 10), (''c'', 1),
     (''ent'', 1), (''isp'', 1), (''ns'', 1), (''ch'', 1), (''ioc'', 1), (''idt'', 1), (''resvd'', 2),
     (''bei'', 1), (''trb_type'', 6), (''reserved1'', 16)]"

definition setup_stage_trb :: packed where
  "setup_stage_trb =
    [(''bm_request_type'', 8), (''b_request'', 8), (''w_value'', 16), (''w_index'', 16),
     (''w_length'', 16), (''trb_transfer_len'', 17), (''rsvd0'', 5), (''int_tar'', 10), (''c'', 1),
     (''rsvd1'', 4), (''ioc'', 1), (''idt'', 1), (''rsvd2'', 3), (''trb_type'', 6), (''trt'', 2),
     (''rsvd3'', 14)]"

definition data_stage_trb :: packed where
  "data_stage_trb =
    [(''data_buffer_addr'', 64), (''trb_transfer_len'', 17), (''td_size'', 5), (''int_tar'', 10),
     (''c'', 1), (''ent'', 1), (''isp'', 1), (''ns'', 1), (''ch'', 1), (''ioc'', 1), (''idt'', 1),
     (''resvd'', 3), (''trb_type'', 6), (''dir'', 1), (''rsvd1'', 15)]"

definition status_stage_trb :: packed where
  "status_stage_trb =
    [(''rsvd0'', 64), (''rsvd1'', 24), (''int_tar'', 8), (''c'', 1), (''ent'', 1), (''rsvd2'', 2),
     (''ch'', 1), (''ioc'', 1), (''resvd'', 4), (''trb_type'', 6), (''dir'', 1), (''rsvd3'', 15)]"

definition isoch_trb :: packed where
  "isoch_trb =
    [(''data_buffer_addr'', 64), (''trb_transfer_len'', 17), (''td_size'', 5), (''int_tar'', 10),
     (''c'', 1), (''ent'', 1), (''isp'', 1), (''ns'', 1), (''ch'', 1), (''ioc'', 1), (''idt'', 1),
     (''tbc'', 2), (''bei'', 1), (''trb_type'', 6), (''tlbpc'', 4), (''rsvd1'', 11), (''sia'', 1)]"

definition no_op_trb :: packed where
  "no_op_trb =
    [(''rsvd0'', 64), (''rsvd1'', 24), (''int_tar'', 8), (''c'', 1), (''ent'', 1), (''rsvd2'', 2),
     (''ch'', 1), (''ioc'', 1), (''resvd'', 4), (''trb_type'', 6), (''rsvd3'', 16)]"

definition link_trb :: packed where
  "link_trb =
    [(''ring_seg_pointer'', 64), (''rsvd1'', 24), (''int_tar'', 8), (''c'', 1), (''tc'', 1),
     (''rsvd2'', 2), (''ch'', 1), (''ioc'', 1), (''resvd'', 4), (''trb_type'', 6), (''rsvd3'', 16)]"

definition port_status_change_event_trb :: packed where
  "port_status_change_event_trb =
    [(''rsvd0'', 24), (''port_id'', 8), (''rsvd1'', 32), (''rsvd2'', 24), (''completion_code'', 8),
     (''c'', 1), (''rsvd3'', 9), (''trb_type'', 6), (''rsvd4'', 16)]"

definition command_completion_event_trb :: packed where
  "command_completion_event_trb =
    [(''command_trb_ptr_lo'', 32), (''command_trb_ptr_hi'', 32),
     (''command_completion_parameter'', 24), (''completion_code'', 8), (''c'', 1), (''rsvd3'', 9),
     (''trb_type'', 6), (''vf_id'', 8), (''slot_id'', 8)]"

definition transfer_event_trb :: packed where
  "transfer_event_trb =
    [(''trb_pointer'', 64), (''trb_transfer_len'', 24), (''completion_code'', 8), (''c'', 1),
     (''rsvd1'', 1), (''ed'', 1), (''rsvd2'', 7), (''trb_type'', 6), (''endpoint_id'', 5),
     (''rsvd3'', 3), (''slot_id'', 8)]"

definition host_controller_event_trb :: packed where
  "host_controller_event_trb =
    [(''rsvd1'', 64), (''rsvd2'', 24), (''completion_code'', 8), (''c'', 1), (''rsvd3'', 9),
     (''trb_type'', 6), (''rsvd4'', 16)]"

definition address_device_trb :: packed where
  "address_device_trb =
    [(''input_context_ptr_lo'', 32), (''input_context_ptr_hi'', 32), (''rsvd'', 32), (''c'', 1),
     (''rsvd1'', 8), (''bsr'', 1), (''trb_type'', 6), (''rsvd2'', 8), (''slot_id'', 8)]"

definition evaluate_context_trb :: packed where
  "evaluate_context_trb =
    [(''input_context_ptr_lo'', 32), (''input_context_ptr_hi'', 32), (''rsvd'', 32), (''c'', 1),
     (''rsvd1'', 8), (''bsr'', 1), (''trb_type'', 6), (''rsvd2'', 8), (''slot_id'', 8)]"

definition configure_endpoint_trb :: packed where
  "configure_endpoint_trb =
    [(''input_context_ptr_lo'', 32), (''input_context_ptr_hi'', 32), (''rsvd'', 32), (''c'', 1),
     (''rsvd1'', 8), (''dc'', 1), (''trb_type'', 6), (''rsvd2'', 8), (''slot_id'', 8)]"

section \<open>Contexts\<close>

definition slot_context :: packed where
  "slot_context =
    [(''route_string'', 20), (''speed'', 4), (''rsvdz'', 1), (''mtt'', 1), (''hub'', 1),
     (''context_entries'', 5), (''max_exit_latency'', 16), (''root_hub_port_number'', 8),
     (''number_of_ports'', 8), (''tt_hub_slot_id'', 8), (''tt_port_number'', 8), (''ttt'', 2),
     (''rsvdz1'', 4), (''interrupt_target'', 10), (''usb_dev_addr'', 8), (''rsvdz2'', 19),
     (''slot_state'', 5), (''rsvd1'', 32), (''rsvd2'', 32), (''rsvd3'', 32), (''rsvd4'', 32)]"

definition endpoint_context :: packed where
  "endpoint_context =
    [(''ep_state'', 3), (''rsvdz1'', 5), (''mult'', 2), (''max_pstreams'', 5), (''lsa'', 1),
     (''interval'', 8), (''max_esit_payload_hi'', 8), (''rsvdz2'', 1), (''cerr'', 2),
     (''ep_type'', 3), (''rsvdz3'', 1), (''hid'', 1), (''max_burst_size'', 8),
     (''max_packet_size'', 16), (''dcs'', 1), (''rsvdz4'', 3), (''tr_dequeue_pointer_lo'', 28),
     (''tr_dequeue_pointer_hi'', 32), (''average_trb_length'', 16), (''max_esit_payload_lo'', 16),
     (''rsvd2'', 32), (''rsvd3'', 32), (''rsvd4'', 32)]"

definition input_control_context :: packed where
  "input_control_context =
    [(''drop_context_flags'', 32), (''add_context_flags'', 32), (''rsvd1'', 32), (''rsvd2'', 32),
     (''rsvd3'', 32), (''rsvd4'', 32), (''rsvd5'', 32), (''configuration_value'', 8),
     (''interface_number'', 8), (''alternate_setting'', 8), (''rsvdz'', 8)]"

section \<open>Descriptors and mass-storage packets\<close>

definition usb_device_descriptor :: packed where
  "usb_device_descriptor =
    [(''b_length'', 8), (''b_descriptor_type'', 8), (''bcd_usb'', 16), (''class'', 8),
     (''subclass'', 8), (''b_device_protocol'', 8), (''b_max_packet_size0'', 8), (''id_vender'', 16),
     (''id_product'', 16), (''bcd_device'', 16), (''i_manufacturer'', 8), (''i_product'', 8),
     (''i_serial_number'', 8), (''b_num_configurations'', 8)]"

definition usb_configuration_descriptor :: packed where
  "usb_configuration_descriptor =
    [(''b_length'', 8), (''b_descriptor_type'', 8), (''w_total_lenth'', 16),
     (''b_num_interfaces'', 8), (''b_configuration_value'', 8), (''i_configuration'', 8),
     (''bm_attributes'', 8), (''b_max_power'', 8)]"

definition usb_interface_descriptor :: packed where
  "usb_interface_descriptor =
    [(''b_length'', 8), (''b_descriptor_type'', 8), (''b_interface_number'', 8),
     (''b_alternate_setting'', 8), (''b_num_endpoints'', 8), (''b_interface_class'', 8),
     (''b_interface_subclass'', 8), (''b_interface_protocol'', 8), (''i_interface'', 8)]"

definition usb_endpoint_descriptor :: packed where
  "usb_endpoint_descriptor =
    [(''b_length'', 8), (''b_descriptor_type'', 8), (''b_endpoint_addr'', 8), (''bm_attributes'', 8),
     (''w_max_packet_size'', 16), (''b_interval'', 8)]"

definition usb_ctrlrequest :: packed where
  "usb_ctrlrequest =
    [(''bRequestType'', 8), (''bRequest'', 8), (''wValue'', 16), (''wIndex'', 16), (''wLength'', 16)]"

definition usbmassbulk_cbw :: packed where
  "usbmassbulk_cbw =
    [(''sig'', 32), (''tag'', 32), (''data_transfer_len'', 32), (''flags'', 8), (''lun'', 8),
     (''length'', 8), (''cb'', 128)]"

definition usbmassbulk_csw :: packed where
  "usbmassbulk_csw =
    [(''sig'', 32), (''tag'', 32), (''data_residue'', 32), (''status'', 8)]"

definition ufi_cmd :: packed where
  "ufi_cmd =
    [(''op_code'', 8), (''rsvd0'', 5), (''logical_unit_number'', 3), (''logical_block_addr'', 32),
     (''parameter'', 32), (''rsvd2'', 8), (''rsvd3'', 8)]"

section \<open>Register offsets and codes\<close>

definition XHCI_CAPLENGTH :: u64 where [usb_consts]: "XHCI_CAPLENGTH = 0x0"
definition XHCI_HCIVERSION :: u64 where [usb_consts]: "XHCI_HCIVERSION = 0x2"
definition XHCI_HCSPARAMS1 :: u64 where [usb_consts]: "XHCI_HCSPARAMS1 = 0x4"
definition XHCI_HCSPARAMS2 :: u64 where [usb_consts]: "XHCI_HCSPARAMS2 = 0x8"
definition XHCI_HCSPARAMS3 :: u64 where [usb_consts]: "XHCI_HCSPARAMS3 = 0xc"
definition XHCI_HCCPARAMS1 :: u64 where [usb_consts]: "XHCI_HCCPARAMS1 = 0x10"
definition XHCI_DBOFF :: u64 where [usb_consts]: "XHCI_DBOFF = 0x14"
definition XHCI_RTSOFF :: u64 where [usb_consts]: "XHCI_RTSOFF = 0x18"
definition XHCI_HCCPARAMS2 :: u64 where [usb_consts]: "XHCI_HCCPARAMS2 = 0x1c"
definition XHCI_HC_USBCMD :: u64 where [usb_consts]: "XHCI_HC_USBCMD = 0x0"
definition XHCI_HC_USBCMD_RUN :: u64 where [usb_consts]: "XHCI_HC_USBCMD_RUN = 0x1"
definition XHCI_HC_USBCMD_RESET :: u64 where [usb_consts]: "XHCI_HC_USBCMD_RESET = 0x2"
definition XHCI_HC_USBCMD_INTE :: u64 where [usb_consts]: "XHCI_HC_USBCMD_INTE = 0x4"
definition XHCI_HC_USBCMD_HSEE :: u64 where [usb_consts]: "XHCI_HC_USBCMD_HSEE = 0x8"
definition XHCI_HC_USBSTS :: u64 where [usb_consts]: "XHCI_HC_USBSTS = 0x4"
definition XHCI_HC_PAGESIZE :: u64 where [usb_consts]: "XHCI_HC_PAGESIZE = 0x8"
definition XHCI_HC_DNCTRL :: u64 where [usb_consts]: "XHCI_HC_DNCTRL = 0x14"
definition XHCI_HC_CRCR :: u64 where [usb_consts]: "XHCI_HC_CRCR = 0x18"
definition XHCI_HC_DCBAAP :: u64 where [usb_consts]: "XHCI_HC_DCBAAP = 0x30"
definition XHCI_HC_CONFIG :: u64 where [usb_consts]: "XHCI_HC_CONFIG = 0x38"
definition XHCI_HC_PORT_REG :: u64 where [usb_consts]: "XHCI_HC_PORT_REG = 0x400"
definition XHCI_PORTSC_CCS :: u64 where [usb_consts]: "XHCI_PORTSC_CCS = 0x1"
definition XHCI_PORTSC_PED :: u64 where [usb_consts]: "XHCI_PORTSC_PED = 0x2"
definition XHCI_PORTSC_OCA :: u64 where [usb_consts]: "XHCI_PORTSC_OCA = 0x8"
definition XHCI_PORTSC_PR :: u64 where [usb_consts]: "XHCI_PORTSC_PR = 0x10"
definition XHCI_PORTSC_PP :: u64 where [usb_consts]: "XHCI_PORTSC_PP = 0x200"
definition XHCI_PORTSC_LWS :: u64 where [usb_consts]: "XHCI_PORTSC_LWS = 0x10000"
definition XHCI_PORTSC_CSC :: u64 where [usb_consts]: "XHCI_PORTSC_CSC = 0x20000"
definition XHCI_PORTSC_PEC :: u64 where [usb_consts]: "XHCI_PORTSC_PEC = 0x40000"
definition XHCI_PORTSC_WRC :: u64 where [usb_consts]: "XHCI_PORTSC_WRC = 0x80000"
definition XHCI_PORTSC_OCC :: u64 where [usb_consts]: "XHCI_PORTSC_OCC = 0x100000"
definition XHCI_PORTSC_PRC :: u64 where [usb_consts]: "XHCI_PORTSC_PRC = 0x200000"
definition XHCI_PORTSC_CEC :: u64 where [usb_consts]: "XHCI_PORTSC_CEC = 0x800000"
definition XHCI_PORTSC_CAS :: u64 where [usb_consts]: "XHCI_PORTSC_CAS = 0x1000000"
definition XHCI_PORTSC_WCE :: u64 where [usb_consts]: "XHCI_PORTSC_WCE = 0x2000000"
definition XHCI_PORTSC_WDE :: u64 where [usb_consts]: "XHCI_PORTSC_WDE = 0x4000000"
definition XHCI_PORTSC_WOE :: u64 where [usb_consts]: "XHCI_PORTSC_WOE = 0x8000000"
definition XHCI_PORTSC_DR :: u64 where [usb_consts]: "XHCI_PORTSC_DR = 0x40000000"
definition XHCI_PORTSC_WPR :: u64 where [usb_consts]: "XHCI_PORTSC_WPR = 0x80000000"
definition XHCI_HC_MFINDEX :: u64 where [usb_consts]: "XHCI_HC_MFINDEX = 0x0"
definition XHCI_HC_IR_IMAN :: u64 where [usb_consts]: "XHCI_HC_IR_IMAN = 0x0"
definition XHCI_HC_IR_IMAN_IE :: u64 where [usb_consts]: "XHCI_HC_IR_IMAN_IE = 0x2"
definition XHCI_HC_IR_IMAN_IP :: u64 where [usb_consts]: "XHCI_HC_IR_IMAN_IP = 0x1"
definition XHCI_HC_IR_IMOD :: u64 where [usb_consts]: "XHCI_HC_IR_IMOD = 0x4"
definition XHCI_HC_IR_ERSTSZ :: u64 where [usb_consts]: "XHCI_HC_IR_ERSTSZ = 0x8"
definition XHCI_HC_IR_ERSTBA :: u64 where [usb_consts]: "XHCI_HC_IR_ERSTBA = 0x10"
definition XHCI_HC_IR_ERDP :: u64 where [usb_consts]: "XHCI_HC_IR_ERDP = 0x18"
definition TRB_NORMAL :: u64 where [usb_consts]: "TRB_NORMAL = 1"
definition TRB_SETUP_STAGE :: u64 where [usb_consts]: "TRB_SETUP_STAGE = 2"
definition TRB_DATA_STAGE :: u64 where [usb_consts]: "TRB_DATA_STAGE = 3"
definition TRB_STATUS_STAGE :: u64 where [usb_consts]: "TRB_STATUS_STAGE = 4"
definition TRB_ISOCH :: u64 where [usb_consts]: "TRB_ISOCH = 5"
definition TRB_LINK :: u64 where [usb_consts]: "TRB_LINK = 6"
definition TRB_EVENT_DATA :: u64 where [usb_consts]: "TRB_EVENT_DATA = 7"
definition TRB_NO_OP :: u64 where [usb_consts]: "TRB_NO_OP = 8"
definition TRB_ENABLE_SLOT_CMD :: u64 where [usb_consts]: "TRB_ENABLE_SLOT_CMD = 9"
definition TRB_DISABLE_SLOT_CMD :: u64 where [usb_consts]: "TRB_DISABLE_SLOT_CMD = 10"
definition TRB_ADDRESS_DEVICE_CMD :: u64 where [usb_consts]: "TRB_ADDRESS_DEVICE_CMD = 11"
definition TRB_CONFIG_ENDPOINT_CMD :: u64 where [usb_consts]: "TRB_CONFIG_ENDPOINT_CMD = 12"
definition TRB_EVALUATE_CONTEXT_CMD :: u64 where [usb_consts]: "TRB_EVALUATE_CONTEXT_CMD = 13"
definition TRB_RESET_ENDPOINT_CMD :: u64 where [usb_consts]: "TRB_RESET_ENDPOINT_CMD = 14"
definition TRB_STOP_ENDPOINT_CMD :: u64 where [usb_consts]: "TRB_STOP_ENDPOINT_CMD = 15"
definition TRB_NO_OP_CMD :: u64 where [usb_consts]: "TRB_NO_OP_CMD = 23"
definition TRB_TRANSFER_EVENT :: u64 where [usb_consts]: "TRB_TRANSFER_EVENT = 32"
definition TRB_COMMAND_COMPLETION_EVENT :: u64 where [usb_consts]: "TRB_COMMAND_COMPLETION_EVENT = 33"
definition TRB_PORT_STATUS_CHANGE_EVENT :: u64 where [usb_consts]: "TRB_PORT_STATUS_CHANGE_EVENT = 34"
definition TRB_BANDWIDTH_REQUEST_EVENT :: u64 where [usb_consts]: "TRB_BANDWIDTH_REQUEST_EVENT = 35"
definition TRB_BOORBELL_EVENT :: u64 where [usb_consts]: "TRB_BOORBELL_EVENT = 36"
definition TRB_HOST_CONTROLLER_EVENT :: u64 where [usb_consts]: "TRB_HOST_CONTROLLER_EVENT = 37"
definition TRB_MFINDEX_WRAP_EVENT :: u64 where [usb_consts]: "TRB_MFINDEX_WRAP_EVENT = 35"
definition TRB_COMPLETION_INVALID :: u64 where [usb_consts]: "TRB_COMPLETION_INVALID = 0"
definition TRB_COMPLETION_SUCCESS :: u64 where [usb_consts]: "TRB_COMPLETION_SUCCESS = 1"
definition TRB_COMPLETION_DATA_BUFFER_ERROR :: u64 where [usb_consts]: "TRB_COMPLETION_DATA_BUFFER_ERROR = 2"
definition TRB_COMPLETION_BABBLE_DETECTED_ERROR :: u64 where [usb_consts]: "TRB_COMPLETION_BABBLE_DETECTED_ERROR = 3"
definition TRB_COMPLETION_USB_TRANSACTION_ERROR :: u64 where [usb_consts]: "TRB_COMPLETION_USB_TRANSACTION_ERROR = 4"
definition TRB_COMPLETION_TRB_ERROR :: u64 where [usb_consts]: "TRB_COMPLETION_TRB_ERROR = 5"
definition TRB_COMPLETION_STALL_ERROR :: u64 where [usb_consts]: "TRB_COMPLETION_STALL_ERROR = 6"
definition TRB_COMPLETION_RESOURCE_ERROR :: u64 where [usb_consts]: "TRB_COMPLETION_RESOURCE_ERROR = 7"
definition TRB_COMPLETION_BANDWIDTH_ERROR :: u64 where [usb_consts]: "TRB_COMPLETION_BANDWIDTH_ERROR = 8"
definition TRB_COMPLETION_NO_SLOTS_AVAILABLE_ERROR :: u64 where [usb_consts]: "TRB_COMPLETION_NO_SLOTS_AVAILABLE_ERROR = 9"
definition TRB_COMPLETION_INVALID_STEAM_TYPE_ERROR :: u64 where [usb_consts]: "TRB_COMPLETION_INVALID_STEAM_TYPE_ERROR = 10"
definition TRB_COMPLETION_SLOT_NOT_ENABLED_ERROR :: u64 where [usb_consts]: "TRB_COMPLETION_SLOT_NOT_ENABLED_ERROR = 11"
definition TRB_COMPLETION_ENDPOINT_NOT_ENABLED_ERROR :: u64 where [usb_consts]: "TRB_COMPLETION_ENDPOINT_NOT_ENABLED_ERROR = 12"
definition TRB_COMPLETION_SHORT_PACKET :: u64 where [usb_consts]: "TRB_COMPLETION_SHORT_PACKET = 13"
definition TRB_COMPLETION_RING_UNDERRUN :: u64 where [usb_consts]: "TRB_COMPLETION_RING_UNDERRUN = 14"
definition TRB_COMPLETION_RING_OVERRUN :: u64 where [usb_consts]: "TRB_COMPLETION_RING_OVERRUN = 15"
definition TRB_COMPLETION_VF_EVENT_RING_FULL_ERROR :: u64 where [usb_consts]: "TRB_COMPLETION_VF_EVENT_RING_FULL_ERROR = 16"
definition TRB_COMPLETION_PARAMETER_ERROR :: u64 where [usb_consts]: "TRB_COMPLETION_PARAMETER_ERROR = 17"
definition TRB_COMPLETION_BANDWIDTH_OVERRUN_ERROR :: u64 where [usb_consts]: "TRB_COMPLETION_BANDWIDTH_OVERRUN_ERROR = 18"
definition TRB_COMPLETION_CONTEXT_STATE_ERROR :: u64 where [usb_consts]: "TRB_COMPLETION_CONTEXT_STATE_ERROR = 19"
definition TRB_COMPLETION_NO_PING_RESPONSE_ERROR :: u64 where [usb_consts]: "TRB_COMPLETION_NO_PING_RESPONSE_ERROR = 20"
definition TRB_COMPLETION_EVENT_RING_FULL_ERROR :: u64 where [usb_consts]: "TRB_COMPLETION_EVENT_RING_FULL_ERROR = 21"
definition TRB_COMPLETION_INCOMPATIBLE_DEVICE_ERROR :: u64 where [usb_consts]: "TRB_COMPLETION_INCOMPATIBLE_DEVICE_ERROR = 22"
definition USB_DESCRIPTOR_TYPE_DEVICE :: u64 where [usb_consts]: "USB_DESCRIPTOR_TYPE_DEVICE = 1"
definition USB_DESCRIPTOR_TYPE_CONFIGURATION :: u64 where [usb_consts]: "USB_DESCRIPTOR_TYPE_CONFIGURATION = 2"
definition USB_DESCRIPTOR_TYPE_STRING :: u64 where [usb_consts]: "USB_DESCRIPTOR_TYPE_STRING = 3"
definition USB_DESCRIPTOR_TYPE_INTERFACE :: u64 where [usb_consts]: "USB_DESCRIPTOR_TYPE_INTERFACE = 4"
definition USB_DESCRIPTOR_TYPE_ENDPOINT :: u64 where [usb_consts]: "USB_DESCRIPTOR_TYPE_ENDPOINT = 5"
definition USB_DESCRIPTOR_TYPE_DEVICE_QUALIFIER :: u64 where [usb_consts]: "USB_DESCRIPTOR_TYPE_DEVICE_QUALIFIER = 6"
definition USB_DESCRIPTOR_TYPE_OTHER_SPEED_CONF :: u64 where [usb_consts]: "USB_DESCRIPTOR_TYPE_OTHER_SPEED_CONF = 7"
definition USB_DESCRIPTOR_TYPE_INTERFACE_POWER :: u64 where [usb_consts]: "USB_DESCRIPTOR_TYPE_INTERFACE_POWER = 8"
definition SCSI_READ :: u64 where [usb_consts]: "SCSI_READ = 0xa8"
definition SCSI_READ_CAPACITY :: u64 where [usb_consts]: "SCSI_READ_CAPACITY = 0x25"
definition SCSI_INNQUIRY :: u64 where [usb_consts]: "SCSI_INNQUIRY = 0x12"
definition USB_REQ_GET_DESCRIPTOR :: u64 where [usb_consts]: "USB_REQ_GET_DESCRIPTOR = 0x06"
definition USB_REQ_SET_CONFIGURATION :: u64 where [usb_consts]: "USB_REQ_SET_CONFIGURATION = 0x09"
definition USB_REQ_SET_INTERFACE :: u64 where [usb_consts]: "USB_REQ_SET_INTERFACE = 0x0B"
definition XHCI_HC_IR :: "u64 \<Rightarrow> u64" where [usb_consts]: "XHCI_HC_IR x = 0x20 + x * 0x20"

section \<open>Where the members lie\<close>

lemma trb_template_members [usb_members]:
  "member_of trb_template ''parameter'' = (0, 64)" "member_of trb_template ''status'' = (64, 32)"
  "member_of trb_template ''c'' = (96, 1)" "member_of trb_template ''ent'' = (97, 1)"
  "member_of trb_template ''trb_type'' = (106, 6)"
  "member_of trb_template ''control'' = (112, 16)"
  by (simp_all add: member_of_def trb_template_def)

lemma transfer_trb_members [usb_members]:
  "member_of transfer_trb ''addr'' = (0, 64)"
  "member_of transfer_trb ''trb_transfer_len'' = (64, 17)"
  "member_of transfer_trb ''td_size'' = (81, 5)" "member_of transfer_trb ''int_tar'' = (86, 10)"
  "member_of transfer_trb ''c'' = (96, 1)" "member_of transfer_trb ''ent'' = (97, 1)"
  "member_of transfer_trb ''isp'' = (98, 1)" "member_of transfer_trb ''ns'' = (99, 1)"
  "member_of transfer_trb ''ch'' = (100, 1)" "member_of transfer_trb ''ioc'' = (101, 1)"
  "member_of transfer_trb ''idt'' = (102, 1)" "member_of transfer_trb ''bei'' = (105, 1)"
  "member_of transfer_trb ''trb_type'' = (106, 6)"
  by (simp_all add: member_of_def transfer_trb_def)

lemma setup_stage_trb_members [usb_members]:
  "member_of setup_stage_trb ''bm_request_type'' = (0, 8)"
  "member_of setup_stage_trb ''b_request'' = (8, 8)"
  "member_of setup_stage_trb ''w_value'' = (16, 16)"
  "member_of setup_stage_trb ''w_index'' = (32, 16)"
  "member_of setup_stage_trb ''w_length'' = (48, 16)"
  "member_of setup_stage_trb ''trb_transfer_len'' = (64, 17)"
  "member_of setup_stage_trb ''int_tar'' = (86, 10)" "member_of setup_stage_trb ''c'' = (96, 1)"
  "member_of setup_stage_trb ''ioc'' = (101, 1)" "member_of setup_stage_trb ''idt'' = (102, 1)"
  "member_of setup_stage_trb ''trb_type'' = (106, 6)"
  "member_of setup_stage_trb ''trt'' = (112, 2)"
  by (simp_all add: member_of_def setup_stage_trb_def)

lemma data_stage_trb_members [usb_members]:
  "member_of data_stage_trb ''data_buffer_addr'' = (0, 64)"
  "member_of data_stage_trb ''trb_transfer_len'' = (64, 17)"
  "member_of data_stage_trb ''td_size'' = (81, 5)"
  "member_of data_stage_trb ''int_tar'' = (86, 10)" "member_of data_stage_trb ''c'' = (96, 1)"
  "member_of data_stage_trb ''ent'' = (97, 1)" "member_of data_stage_trb ''isp'' = (98, 1)"
  "member_of data_stage_trb ''ns'' = (99, 1)" "member_of data_stage_trb ''ch'' = (100, 1)"
  "member_of data_stage_trb ''ioc'' = (101, 1)" "member_of data_stage_trb ''idt'' = (102, 1)"
  "member_of data_stage_trb ''trb_type'' = (106, 6)"
  "member_of data_stage_trb ''dir'' = (112, 1)"
  by (simp_all add: member_of_def data_stage_trb_def)

lemma status_stage_trb_members [usb_members]:
  "member_of status_stage_trb ''int_tar'' = (88, 8)" "member_of status_stage_trb ''c'' = (96, 1)"
  "member_of status_stage_trb ''ent'' = (97, 1)" "member_of status_stage_trb ''ch'' = (100, 1)"
  "member_of status_stage_trb ''ioc'' = (101, 1)"
  "member_of status_stage_trb ''trb_type'' = (106, 6)"
  "member_of status_stage_trb ''dir'' = (112, 1)"
  by (simp_all add: member_of_def status_stage_trb_def)

lemma isoch_trb_members [usb_members]:
  "member_of isoch_trb ''data_buffer_addr'' = (0, 64)"
  "member_of isoch_trb ''trb_transfer_len'' = (64, 17)"
  "member_of isoch_trb ''td_size'' = (81, 5)" "member_of isoch_trb ''int_tar'' = (86, 10)"
  "member_of isoch_trb ''c'' = (96, 1)" "member_of isoch_trb ''ent'' = (97, 1)"
  "member_of isoch_trb ''isp'' = (98, 1)" "member_of isoch_trb ''ns'' = (99, 1)"
  "member_of isoch_trb ''ch'' = (100, 1)" "member_of isoch_trb ''ioc'' = (101, 1)"
  "member_of isoch_trb ''idt'' = (102, 1)" "member_of isoch_trb ''tbc'' = (103, 2)"
  "member_of isoch_trb ''bei'' = (105, 1)" "member_of isoch_trb ''trb_type'' = (106, 6)"
  "member_of isoch_trb ''tlbpc'' = (112, 4)" "member_of isoch_trb ''sia'' = (127, 1)"
  by (simp_all add: member_of_def isoch_trb_def)

lemma no_op_trb_members [usb_members]:
  "member_of no_op_trb ''int_tar'' = (88, 8)" "member_of no_op_trb ''c'' = (96, 1)"
  "member_of no_op_trb ''ent'' = (97, 1)" "member_of no_op_trb ''ch'' = (100, 1)"
  "member_of no_op_trb ''ioc'' = (101, 1)" "member_of no_op_trb ''trb_type'' = (106, 6)"
  by (simp_all add: member_of_def no_op_trb_def)

lemma link_trb_members [usb_members]:
  "member_of link_trb ''ring_seg_pointer'' = (0, 64)" "member_of link_trb ''int_tar'' = (88, 8)"
  "member_of link_trb ''c'' = (96, 1)" "member_of link_trb ''tc'' = (97, 1)"
  "member_of link_trb ''ch'' = (100, 1)" "member_of link_trb ''ioc'' = (101, 1)"
  "member_of link_trb ''trb_type'' = (106, 6)"
  by (simp_all add: member_of_def link_trb_def)

lemma port_status_change_event_trb_members [usb_members]:
  "member_of port_status_change_event_trb ''port_id'' = (24, 8)"
  "member_of port_status_change_event_trb ''completion_code'' = (88, 8)"
  "member_of port_status_change_event_trb ''c'' = (96, 1)"
  "member_of port_status_change_event_trb ''trb_type'' = (106, 6)"
  by (simp_all add: member_of_def port_status_change_event_trb_def)

lemma command_completion_event_trb_members [usb_members]:
  "member_of command_completion_event_trb ''command_trb_ptr_lo'' = (0, 32)"
  "member_of command_completion_event_trb ''command_trb_ptr_hi'' = (32, 32)"
  "member_of command_completion_event_trb ''command_completion_parameter'' = (64, 24)"
  "member_of command_completion_event_trb ''completion_code'' = (88, 8)"
  "member_of command_completion_event_trb ''c'' = (96, 1)"
  "member_of command_completion_event_trb ''trb_type'' = (106, 6)"
  "member_of command_completion_event_trb ''vf_id'' = (112, 8)"
  "member_of command_completion_event_trb ''slot_id'' = (120, 8)"
  by (simp_all add: member_of_def command_completion_event_trb_def)

lemma transfer_event_trb_members [usb_members]:
  "member_of transfer_event_trb ''trb_pointer'' = (0, 64)"
  "member_of transfer_event_trb ''trb_transfer_len'' = (64, 24)"
  "member_of transfer_event_trb ''completion_code'' = (88, 8)"
  "member_of transfer_event_trb ''c'' = (96, 1)" "member_of transfer_event_trb ''ed'' = (98, 1)"
  "member_of transfer_event_trb ''trb_type'' = (106, 6)"
  "member_of transfer_event_trb ''endpoint_id'' = (112, 5)"
  "member_of transfer_event_trb ''slot_id'' = (120, 8)"
  by (simp_all add: member_of_def transfer_event_trb_def)

lemma host_controller_event_trb_members [usb_members]:
  "member_of host_controller_event_trb ''completion_code'' = (88, 8)"
  "member_of host_controller_event_trb ''c'' = (96, 1)"
  "member_of host_controller_event_trb ''trb_type'' = (106, 6)"
  by (simp_all add: member_of_def host_controller_event_trb_def)

lemma address_device_trb_members [usb_members]:
  "member_of address_device_trb ''input_context_ptr_lo'' = (0, 32)"
  "member_of address_device_trb ''input_context_ptr_hi'' = (32, 32)"
  "member_of address_device_trb ''c'' = (96, 1)"
  "member_of address_device_trb ''bsr'' = (105, 1)"
  "member_of address_device_trb ''trb_type'' = (106, 6)"
  "member_of address_device_trb ''slot_id'' = (120, 8)"
  by (simp_all add: member_of_def address_device_trb_def)

lemma evaluate_context_trb_members [usb_members]:
  "member_of evaluate_context_trb ''input_context_ptr_lo'' = (0, 32)"
  "member_of evaluate_context_trb ''input_context_ptr_hi'' = (32, 32)"
  "member_of evaluate_context_trb ''c'' = (96, 1)"
  "member_of evaluate_context_trb ''bsr'' = (105, 1)"
  "member_of evaluate_context_trb ''trb_type'' = (106, 6)"
  "member_of evaluate_context_trb ''slot_id'' = (120, 8)"
  by (simp_all add: member_of_def evaluate_context_trb_def)

lemma configure_endpoint_trb_members [usb_members]:
  "member_of configure_endpoint_trb ''input_context_ptr_lo'' = (0, 32)"
  "member_of configure_endpoint_trb ''input_context_ptr_hi'' = (32, 32)"
  "member_of configure_endpoint_trb ''c'' = (96, 1)"
  "member_of configure_endpoint_trb ''dc'' = (105, 1)"
  "member_of configure_endpoint_trb ''trb_type'' = (106, 6)"
  "member_of configure_endpoint_trb ''slot_id'' = (120, 8)"
  by (simp_all add: member_of_def configure_endpoint_trb_def)

lemma slot_context_members [usb_members]:
  "member_of slot_context ''route_string'' = (0, 20)"
  "member_of slot_context ''speed'' = (20, 4)" "member_of slot_context ''mtt'' = (25, 1)"
  "member_of slot_context ''hub'' = (26, 1)"
  "member_of slot_context ''context_entries'' = (27, 5)"
  "member_of slot_context ''max_exit_latency'' = (32, 16)"
  "member_of slot_context ''root_hub_port_number'' = (48, 8)"
  "member_of slot_context ''number_of_ports'' = (56, 8)"
  "member_of slot_context ''tt_hub_slot_id'' = (64, 8)"
  "member_of slot_context ''tt_port_number'' = (72, 8)"
  "member_of slot_context ''ttt'' = (80, 2)"
  "member_of slot_context ''interrupt_target'' = (86, 10)"
  "member_of slot_context ''usb_dev_addr'' = (96, 8)"
  "member_of slot_context ''slot_state'' = (123, 5)"
  by (simp_all add: member_of_def slot_context_def)

lemma endpoint_context_members [usb_members]:
  "member_of endpoint_context ''ep_state'' = (0, 3)"
  "member_of endpoint_context ''mult'' = (8, 2)"
  "member_of endpoint_context ''max_pstreams'' = (10, 5)"
  "member_of endpoint_context ''lsa'' = (15, 1)"
  "member_of endpoint_context ''interval'' = (16, 8)"
  "member_of endpoint_context ''max_esit_payload_hi'' = (24, 8)"
  "member_of endpoint_context ''cerr'' = (33, 2)"
  "member_of endpoint_context ''ep_type'' = (35, 3)"
  "member_of endpoint_context ''hid'' = (39, 1)"
  "member_of endpoint_context ''max_burst_size'' = (40, 8)"
  "member_of endpoint_context ''max_packet_size'' = (48, 16)"
  "member_of endpoint_context ''dcs'' = (64, 1)"
  "member_of endpoint_context ''tr_dequeue_pointer_lo'' = (68, 28)"
  "member_of endpoint_context ''tr_dequeue_pointer_hi'' = (96, 32)"
  "member_of endpoint_context ''average_trb_length'' = (128, 16)"
  "member_of endpoint_context ''max_esit_payload_lo'' = (144, 16)"
  by (simp_all add: member_of_def endpoint_context_def)

lemma input_control_context_members [usb_members]:
  "member_of input_control_context ''drop_context_flags'' = (0, 32)"
  "member_of input_control_context ''add_context_flags'' = (32, 32)"
  "member_of input_control_context ''configuration_value'' = (224, 8)"
  "member_of input_control_context ''interface_number'' = (232, 8)"
  "member_of input_control_context ''alternate_setting'' = (240, 8)"
  by (simp_all add: member_of_def input_control_context_def)

lemma usb_device_descriptor_members [usb_members]:
  "member_of usb_device_descriptor ''b_length'' = (0, 8)"
  "member_of usb_device_descriptor ''b_descriptor_type'' = (8, 8)"
  "member_of usb_device_descriptor ''bcd_usb'' = (16, 16)"
  "member_of usb_device_descriptor ''class'' = (32, 8)"
  "member_of usb_device_descriptor ''subclass'' = (40, 8)"
  "member_of usb_device_descriptor ''b_device_protocol'' = (48, 8)"
  "member_of usb_device_descriptor ''b_max_packet_size0'' = (56, 8)"
  "member_of usb_device_descriptor ''id_vender'' = (64, 16)"
  "member_of usb_device_descriptor ''id_product'' = (80, 16)"
  "member_of usb_device_descriptor ''bcd_device'' = (96, 16)"
  "member_of usb_device_descriptor ''i_manufacturer'' = (112, 8)"
  "member_of usb_device_descriptor ''i_product'' = (120, 8)"
  "member_of usb_device_descriptor ''i_serial_number'' = (128, 8)"
  "member_of usb_device_descriptor ''b_num_configurations'' = (136, 8)"
  by (simp_all add: member_of_def usb_device_descriptor_def)

lemma usb_configuration_descriptor_members [usb_members]:
  "member_of usb_configuration_descriptor ''b_length'' = (0, 8)"
  "member_of usb_configuration_descriptor ''b_descriptor_type'' = (8, 8)"
  "member_of usb_configuration_descriptor ''w_total_lenth'' = (16, 16)"
  "member_of usb_configuration_descriptor ''b_num_interfaces'' = (32, 8)"
  "member_of usb_configuration_descriptor ''b_configuration_value'' = (40, 8)"
  "member_of usb_configuration_descriptor ''i_configuration'' = (48, 8)"
  "member_of usb_configuration_descriptor ''bm_attributes'' = (56, 8)"
  "member_of usb_configuration_descriptor ''b_max_power'' = (64, 8)"
  by (simp_all add: member_of_def usb_configuration_descriptor_def)

lemma usb_interface_descriptor_members [usb_members]:
  "member_of usb_interface_descriptor ''b_length'' = (0, 8)"
  "member_of usb_interface_descriptor ''b_descriptor_type'' = (8, 8)"
  "member_of usb_interface_descriptor ''b_interface_number'' = (16, 8)"
  "member_of usb_interface_descriptor ''b_alternate_setting'' = (24, 8)"
  "member_of usb_interface_descriptor ''b_num_endpoints'' = (32, 8)"
  "member_of usb_interface_descriptor ''b_interface_class'' = (40, 8)"
  "member_of usb_interface_descriptor ''b_interface_subclass'' = (48, 8)"
  "member_of usb_interface_descriptor ''b_interface_protocol'' = (56, 8)"
  "member_of usb_interface_descriptor ''i_interface'' = (64, 8)"
  by (simp_all add: member_of_def usb_interface_descriptor_def)

lemma usb_endpoint_descriptor_members [usb_members]:
  "member_of usb_endpoint_descriptor ''b_length'' = (0, 8)"
  "member_of usb_endpoint_descriptor ''b_descriptor_type'' = (8, 8)"
  "member_of usb_endpoint_descriptor ''b_endpoint_addr'' = (16, 8)"
  "member_of usb_endpoint_descriptor ''bm_attributes'' = (24, 8)"
  "member_of usb_endpoint_descriptor ''w_max_packet_size'' = (32, 16)"
  "member_of usb_endpoint_descriptor ''b_interval'' = (48, 8)"
  by (simp_all add: member_of_def usb_endpoint_descriptor_def)

lemma usb_ctrlrequest_members [usb_members]:
  "member_of usb_ctrlrequest ''bRequestType'' = (0, 8)"
  "member_of usb_ctrlrequest ''bRequest'' = (8, 8)"
  "member_of usb_ctrlrequest ''wValue'' = (16, 16)"
  "member_of usb_ctrlrequest ''wIndex'' = (32, 16)"
  "member_of usb_ctrlrequest ''wLength'' = (48, 16)"
  by (simp_all add: member_of_def usb_ctrlrequest_def)

lemma usbmassbulk_cbw_members [usb_members]:
  "member_of usbmassbulk_cbw ''sig'' = (0, 32)" "member_of usbmassbulk_cbw ''tag'' = (32, 32)"
  "member_of usbmassbulk_cbw ''data_transfer_len'' = (64, 32)"
  "member_of usbmassbulk_cbw ''flags'' = (96, 8)" "member_of usbmassbulk_cbw ''lun'' = (104, 8)"
  "member_of usbmassbulk_cbw ''length'' = (112, 8)"
  "member_of usbmassbulk_cbw ''cb'' = (120, 128)"
  by (simp_all add: member_of_def usbmassbulk_cbw_def)

lemma usbmassbulk_csw_members [usb_members]:
  "member_of usbmassbulk_csw ''sig'' = (0, 32)" "member_of usbmassbulk_csw ''tag'' = (32, 32)"
  "member_of usbmassbulk_csw ''data_residue'' = (64, 32)"
  "member_of usbmassbulk_csw ''status'' = (96, 8)"
  by (simp_all add: member_of_def usbmassbulk_csw_def)

lemma ufi_cmd_members [usb_members]:
  "member_of ufi_cmd ''op_code'' = (0, 8)" "member_of ufi_cmd ''logical_unit_number'' = (13, 3)"
  "member_of ufi_cmd ''logical_block_addr'' = (16, 32)"
  "member_of ufi_cmd ''parameter'' = (48, 32)"
  by (simp_all add: member_of_def ufi_cmd_def)

lemma event_ring_segment_table_entry_members [usb_members]:
  "member_of event_ring_segment_table_entry ''ring_segment_base_addr'' = (0, 64)"
  "member_of event_ring_segment_table_entry ''ring_segment_size'' = (64, 16)"
  by (simp_all add: member_of_def event_ring_segment_table_entry_def)

section \<open>Reading after writing\<close>

lemma trb_get_set_same [simp]:
  "w \<le> 64 \<Longrightarrow> p + w \<le> 128 \<Longrightarrow> trb_get (p, w) (trb_set (p, w) v t) = take_bit w v"
  unfolding trb_get_def trb_set_def prod.case
  by (rule bit_word_eqI) (auto simp: bit_simps)

lemma trb_get_set_other [simp]:
  "q + x \<le> p \<or> p + w \<le> q \<Longrightarrow> q + x \<le> 128 \<Longrightarrow> trb_get (q, x) (trb_set (p, w) v t) = trb_get (q, x) t"
  unfolding trb_get_def trb_set_def prod.case
  by (rule bit_word_eqI) (auto simp: bit_simps)

lemma trb_get_0 [simp]: "trb_get f 0 = 0"
  by (cases f) (simp add: trb_get_def)

lemma trb_set_twice [simp]: "trb_set f v (trb_set f w t) = trb_set f v t"
  unfolding trb_set_def by (cases f) (auto intro!: bit_word_eqI simp: bit_simps)

lemma ucast_take_64 [simp]: "take_bit 64 (x :: u64) = x"
  by (rule bit_word_eqI) (simp add: bit_simps)

lemma load_le_8_store [simp]: "load_le 8 (store_le 8 v m a) a = v"
  using load_store_same [of 8 v m a] by simp

lemma load_store_apart:
  assumes "\<forall>x<n. \<forall>y<k. b + of_nat x \<noteq> a + of_nat y"
  shows "load_le n (store_le k v m a) b = load_le n m b"
  using assms by (intro load_le_cong allI impI store_le_other) auto

text \<open>Two stretches of memory, none of which reaches into the other.\<close>

definition apart :: "u64 \<Rightarrow> nat \<Rightarrow> u64 \<Rightarrow> nat \<Rightarrow> bool" where
  "apart a n b k \<longleftrightarrow> (\<forall>x<n. \<forall>y<k. a + of_nat x \<noteq> b + of_nat y)"

lemma apart_sym: "apart a n b k \<Longrightarrow> apart b k a n"
  unfolding apart_def by (metis (no_types))

lemma apart_sub: "apart a n b k \<Longrightarrow> i + n' \<le> n \<Longrightarrow> apart (a + of_nat i) n' b k"
  unfolding apart_def
proof (intro allI impI)
  fix x y assume A: "\<forall>x<n. \<forall>y<k. a + of_nat x \<noteq> b + of_nat y" "i + n' \<le> n" "x < n'" "y < k"
  then have "a + of_nat (i + x) \<noteq> b + of_nat y" by (metis add_strict_left_mono order.strict_trans2)
  then show "a + of_nat i + of_nat x \<noteq> b + of_nat y" by (simp add: add.assoc)
qed

lemma load_store_apart' [heap_simps]:
  "apart a n b k \<Longrightarrow> load_le n (store_le k v m b) a = load_le n m a"
  unfolding apart_def by (rule load_store_apart)

lemma apart_blocks:
  assumes "i + n \<le> j \<or> j + k \<le> i" "i + n < 2 ^ 32" "j + k < 2 ^ 32"
  shows "apart (p + of_nat i) n (p + of_nat j) k"
  unfolding apart_def
proof (intro allI impI)
  fix x y assume "x < n" "y < k"
  with assms have "p + of_nat (i + x) \<noteq> p + of_nat (j + y)" by (subst small_offset_inject) auto
  then show "p + of_nat i + of_nat x \<noteq> p + of_nat j + of_nat y" by (simp add: add.assoc)
qed

lemma apart_8 [simp]: "apart a 8 (a + 8) 8" "apart (a + 8) 8 a 8"
  using apart_blocks [of 0 8 8 8 a] apart_blocks [of 8 8 0 8 a] by simp_all

lemma trb_halves: "ucast (ucast t :: u64) OR push_bit 64 (ucast (ucast (drop_bit 64 t) :: u64)) = (t :: trb)"
  by (rule bit_word_eqI) (auto simp: bit_simps)

lemma trb_load_store_same [simp]: "trb_load (trb_store t m a) a = t"
  by (simp add: trb_load_def trb_store_def heap_simps trb_halves)

lemma trb_load_store_apart [heap_simps]:
  assumes "apart a 16 b 16"
  shows "trb_load (trb_store t m b) a = trb_load m a"
proof -
  have s: "apart a 8 b 8" "apart (a + 8) 8 b 8" "apart a 8 (b + 8) 8" "apart (a + 8) 8 (b + 8) 8"
    using apart_sub [OF assms, of 0 8, THEN apart_sym, THEN apart_sub, of 0 8]
      apart_sub [OF assms, of 8 8, THEN apart_sym, THEN apart_sub, of 0 8]
      apart_sub [OF assms, of 0 8, THEN apart_sym, THEN apart_sub, of 8 8]
      apart_sub [OF assms, of 8 8, THEN apart_sym, THEN apart_sub, of 8 8]
    by (simp_all add: apart_sym)
  show ?thesis by (simp add: trb_load_def trb_store_def heap_simps s)
qed

lemma mem_zero_trb: "trb_load (mem_zero a 16 m) a = 0"
proof -
  have z: "load_le n m' b = 0" if "\<forall>x<n. m' (b + of_nat x) = 0" for n m' b
    using that
  proof (induction n arbitrary: b)
    case (Suc n)
    have "\<forall>x<n. m' (b + 1 + of_nat x) = 0"
    proof (intro allI impI)
      fix x assume "x < n"
      then have "m' (b + of_nat (Suc x)) = 0" using Suc.prems by blast
      then show "m' (b + 1 + of_nat x) = 0" by (simp add: add.assoc)
    qed
    moreover have "m' b = 0" using Suc.prems [THEN spec, of 0] by simp
    ultimately show ?case using Suc.IH by simp
  qed simp
  have lt: "(of_nat x :: u64) < 16" if "x < 16" for x
    using that by (simp add: word_less_nat_alt unsigned_of_nat take_bit_nat_eq_self)
  have "load_le 8 (mem_zero a 16 m) a = 0"
    by (rule z) (simp add: mem_zero_def lt)
  moreover have "load_le 8 (mem_zero a 16 m) (a + 8) = 0"
  proof (rule z, intro allI impI)
    fix x :: nat assume "x < 8"
    then have "(of_nat (8 + x) :: u64) < 16" by (intro lt) simp
    then show "mem_zero a 16 m (a + 8 + of_nat x) = 0" by (simp add: mem_zero_def)
  qed
  ultimately show ?thesis by (simp add: trb_load_def)
qed

lemma mem_zero_trb_apart:
  assumes "apart a 16 b 16"
  shows "trb_load (mem_zero b 16 m) a = trb_load m a"
proof -
  have keep: "mem_zero b 16 m (a + of_nat x) = m (a + of_nat x)" if "x < 16" for x
  proof -
    have "\<not> a + of_nat x - b < 16"
    proof
      assume "a + of_nat x - b < 16"
      then have "unat (a + of_nat x - b) < 16" by (simp add: word_less_nat_alt)
      moreover have "a + of_nat x = b + of_nat (unat (a + of_nat x - b))" by simp
      ultimately show False using assms that unfolding apart_def by blast
    qed
    then show ?thesis by (simp add: mem_zero_def)
  qed
  have "load_le 8 (mem_zero b 16 m) a = load_le 8 m a"
    by (rule load_le_cong) (simp add: keep)
  moreover have "load_le 8 (mem_zero b 16 m) (a + 8) = load_le 8 m (a + 8)"
  proof (rule load_le_cong, intro allI impI)
    fix x :: nat assume "x < 8"
    then show "mem_zero b 16 m (a + 8 + of_nat x) = m (a + 8 + of_nat x)"
      using keep [of "8 + x"] by (simp add: add.assoc)
  qed
  ultimately show ?thesis by (simp add: trb_load_def)
qed

lemmas trb_structs = trb_template_def transfer_trb_def setup_stage_trb_def data_stage_trb_def
  status_stage_trb_def isoch_trb_def no_op_trb_def link_trb_def port_status_change_event_trb_def
  command_completion_event_trb_def transfer_event_trb_def host_controller_event_trb_def
  address_device_trb_def evaluate_context_trb_def configure_endpoint_trb_def

text \<open>Every TRB structure of the driver is 128 bits long, and in each the cycle bit and the
  type are where \<^verbatim>\<open>struct trb_template\<close> has them, so that the casts between them are right; a
  TRB that is stored is read back as it was, and no TRB that does not overlap it changes.\<close>

theorem trb_layouts_agree:
  "(\<forall>l \<in> {trb_template, transfer_trb, setup_stage_trb, data_stage_trb, status_stage_trb, isoch_trb,
          no_op_trb, link_trb, port_status_change_event_trb, command_completion_event_trb,
          transfer_event_trb, host_controller_event_trb, address_device_trb, evaluate_context_trb,
          configure_endpoint_trb}.
      packed_bits l = 128 \<and> member_of l ''c'' = (96, 1) \<and> member_of l ''trb_type'' = (106, 6)) \<and>
   trb_load (trb_store t m a) a = t \<and>
   (apart b 16 a 16 \<longrightarrow> trb_load (trb_store t m a) b = trb_load m b)"
proof (intro conjI impI ballI)
  fix l assume l: "l \<in> {trb_template, transfer_trb, setup_stage_trb, data_stage_trb, status_stage_trb, isoch_trb,
          no_op_trb, link_trb, port_status_change_event_trb, command_completion_event_trb,
          transfer_event_trb, host_controller_event_trb, address_device_trb, evaluate_context_trb,
          configure_endpoint_trb}"
  then show "packed_bits l = 128" by (auto simp: packed_bits_def trb_structs)
  from l show "member_of l ''c'' = (96, 1)" "member_of l ''trb_type'' = (106, 6)"
    by (auto simp: usb_members)
qed (simp_all add: heap_simps)

lemma trb_layouts_agree_witness:
  "packed_bits configure_endpoint_trb = 128 \<and> trb_load (trb_store 5 (\<lambda>_. 7) 64) 80 = trb_load (\<lambda>_. 7) 80"
proof -
  have "apart 80 16 (64 :: u64) 16" using apart_blocks [of 80 16 64 16 0] by simp
  then show ?thesis
    using trb_layouts_agree [of 5 "\<lambda>_. 7" 64 80] by simp
qed

end
