(* ===== verification/Acpi.thy ===== *)
theory Acpi
  imports C_String
begin

text \<open>
  Looking up a table of the firmware, \<^verbatim>\<open>arch/x86_64/acpi.c\<close>: the root pointer leads to the
  extended table of 8-byte addresses when its revision is 2 and to the table of 4-byte addresses
  otherwise, and the first table that carries the signature is returned. The structs of
  \<^verbatim>\<open>include/acpi.h\<close> are packed, so their members are read at the offsets the sizes give.
  The address of the literal \<^verbatim>\<open>"RSD PTR "\<close> and that of the signature are arguments.
\<close>

section \<open>The lookup\<close>

definition SIZEOF_ACPI_SDT_HEADER :: u64 where "SIZEOF_ACPI_SDT_HEADER = 36"

definition sdt_length :: "u64 \<Rightarrow> mem \<Rightarrow> u64" where
  "sdt_length t m = load_le 4 m (t + 4)"

text \<open>The loop over the entries; \<open>w\<close> is the size of an entry and the last argument the number of
  entries that are left.\<close>

fun acpi_scan :: "nat \<Rightarrow> u64 \<Rightarrow> u64 \<Rightarrow> mem \<Rightarrow> u64 \<Rightarrow> nat \<Rightarrow> u64" where
  "acpi_scan w table name m index 0 = 0"
| "acpi_scan w table name m index (Suc left) =
     (let header_ptr = PHYS2VIRT (load_le w m (table + SIZEOF_ACPI_SDT_HEADER + of_nat w * index))
      in if strncmp header_ptr name 4 m = 0 then header_ptr
         else acpi_scan w table name m (index + 1) left)"

definition acpi_get_desc :: "u64 \<Rightarrow> u64 \<Rightarrow> u64 \<Rightarrow> mem \<Rightarrow> u64" where
  "acpi_get_desc rsd_ptr name acpi_rsdp m =
     (let acpi_addr = PHYS2VIRT acpi_rsdp in
      if memcmp acpi_addr rsd_ptr 8 m \<noteq> 0 then 0
      else if m (acpi_addr + 15) = 2 then
        let xsdt_ptr = PHYS2VIRT (load_le 8 m (acpi_addr + 24))
        in acpi_scan 8 xsdt_ptr name m 0 (unat ((sdt_length xsdt_ptr m - SIZEOF_ACPI_SDT_HEADER) div 8))
      else
        let rsdt_ptr = PHYS2VIRT (load_le 4 m (acpi_addr + 16))
        in acpi_scan 4 rsdt_ptr name m 0 (unat ((sdt_length rsdt_ptr m - SIZEOF_ACPI_SDT_HEADER) div 4)))"

section \<open>What it finds\<close>

lemma all_less_small:
  fixes P :: "nat \<Rightarrow> bool"
  shows "(\<forall>i < 2. P i) \<longleftrightarrow> P 0 \<and> P 1"
    and "(\<forall>i < 4. P i) \<longleftrightarrow> P 0 \<and> P 1 \<and> P 2 \<and> P 3"
    and "(\<forall>i < 8. P i) \<longleftrightarrow> P 0 \<and> P 1 \<and> P 2 \<and> P 3 \<and> P 4 \<and> P 5 \<and> P 6 \<and> P 7"
proof -
  have all: "(\<forall>i < n. P i) \<longleftrightarrow> list_all P [0..<n]" for n by (auto simp: list_all_iff)
  show "(\<forall>i < 2. P i) \<longleftrightarrow> P 0 \<and> P 1"
    and "(\<forall>i < 4. P i) \<longleftrightarrow> P 0 \<and> P 1 \<and> P 2 \<and> P 3"
    and "(\<forall>i < 8. P i) \<longleftrightarrow> P 0 \<and> P 1 \<and> P 2 \<and> P 3 \<and> P 4 \<and> P 5 \<and> P 6 \<and> P 7"
    unfolding all by (simp_all add: upt_rec eval_nat_numeral)
qed

lemma load_le_numeral:
  "load_le (numeral k) m a = ucast (m a) OR push_bit 8 (load_le (pred_numeral k) m (a + 1))"
  by (simp add: numeral_eq_Suc)

definition sdt_signature :: "u64 \<Rightarrow> mem \<Rightarrow> u8 list" where
  "sdt_signature t m = map (\<lambda>i. m (t + of_nat i)) [0..<4]"

text \<open>The root table at \<open>p\<close> lists the physical addresses \<open>ts\<close> in entries of \<open>w\<close> bytes.\<close>

definition sdt_lists :: "nat \<Rightarrow> u64 \<Rightarrow> u64 list \<Rightarrow> mem \<Rightarrow> bool" where
  "sdt_lists w p ts m \<longleftrightarrow> sdt_length p m = SIZEOF_ACPI_SDT_HEADER + of_nat (w * length ts) \<and>
     w * length ts < 2 ^ 32 \<and>
     (\<forall>i < length ts. load_le w m (p + SIZEOF_ACPI_SDT_HEADER + of_nat w * of_nat i) = ts ! i)"

lemma strncmp_signature:
  assumes "\<forall>i < 4. m (name + of_nat i) = nm ! i" "length nm = 4" "0 \<notin> set nm"
  shows "strncmp p name 4 m = 0 \<longleftrightarrow> sdt_signature p m = nm"
proof -
  obtain a b c d where nm: "nm = [a, b, c, d]"
    using assms(2) by (auto simp: length_Suc_conv eval_nat_numeral)
  have "m name = a" "m (name + 1) = b" "m (name + 2) = c" "m (name + 3) = d"
    using assms(1) [rule_format, of 0] assms(1) [rule_format, of 1]
      assms(1) [rule_format, of 2] assms(1) [rule_format, of 3] by (simp_all add: nm)
  moreover have "a \<noteq> 0" "b \<noteq> 0" "c \<noteq> 0" "d \<noteq> 0" using assms(3) by (auto simp: nm)
  moreover have "[0..<4] = [0, 1, 2, 3 :: nat]" by (simp add: upt_rec)
  moreover have "unat (4 :: u64) = Suc (Suc (Suc (Suc 0)))" by simp
  ultimately show ?thesis
    by (simp only: strncmp_def sdt_signature_def nm strncmp_loop.simps Let_def list.map add.assoc
        one_add_one of_nat_0 of_nat_1 of_nat_numeral add_0_right list.inject) simp
qed

lemma acpi_scan_finds:
  assumes "\<forall>i < 4. m (name + of_nat i) = nm ! i" "length nm = 4" "0 \<notin> set nm"
    and "\<forall>i < length ts. load_le w m (p + SIZEOF_ACPI_SDT_HEADER + of_nat w * (j + of_nat i)) = ts ! i"
  shows "acpi_scan w p name m j (length ts) =
    (case find (\<lambda>t. sdt_signature (PHYS2VIRT t) m = nm) ts of None \<Rightarrow> 0 | Some t \<Rightarrow> PHYS2VIRT t)"
  using assms(4)
proof (induction ts arbitrary: j)
  case (Cons t ts)
  have t: "load_le w m (p + SIZEOF_ACPI_SDT_HEADER + of_nat w * j) = t"
    using Cons.prems [rule_format, of 0] by simp
  have "\<forall>i < length ts. load_le w m (p + SIZEOF_ACPI_SDT_HEADER + of_nat w * (j + 1 + of_nat i)) = ts ! i"
  proof (intro allI impI)
    fix i assume "i < length ts"
    then show "load_le w m (p + SIZEOF_ACPI_SDT_HEADER + of_nat w * (j + 1 + of_nat i)) = ts ! i"
      using Cons.prems [rule_format, of "Suc i"] by (simp add: add.assoc)
  qed
  from Cons.IH [OF this] show ?case
    by (simp add: t Let_def strncmp_signature [OF assms(1-3)])
qed simp

text \<open>\<^verbatim>\<open>acpi_get_desc\<close> returns the first table that the root table lists and that has
  the signature asked for, or \<^verbatim>\<open>NULL\<close> when there is none; the extended root table is used for
  revision 2 only, the one with 32-bit addresses for every other revision.\<close>

theorem acpi_get_desc_first:
  assumes "\<forall>i < 4. m (name + of_nat i) = nm ! i" "length nm = 4" "0 \<notin> set nm"
    and "\<forall>i < 8. m (PHYS2VIRT rsdp + of_nat i) = m (rsd_ptr + of_nat i)"
    and "if m (PHYS2VIRT rsdp + 15) = 2
         then sdt_lists 8 (PHYS2VIRT (load_le 8 m (PHYS2VIRT rsdp + 24))) ts m
         else sdt_lists 4 (PHYS2VIRT (load_le 4 m (PHYS2VIRT rsdp + 16))) ts m"
  shows "acpi_get_desc rsd_ptr name rsdp m =
    (case find (\<lambda>t. sdt_signature (PHYS2VIRT t) m = nm) ts of None \<Rightarrow> 0 | Some t \<Rightarrow> PHYS2VIRT t)"
proof -
  have n: "unat ((sdt_length p m - SIZEOF_ACPI_SDT_HEADER) div of_nat w) = length ts"
    if "sdt_lists w p ts m" "w \<noteq> 0" "w < 9" for w p
  proof -
    have "w * length ts < 2 ^ LENGTH(64)" "w < 2 ^ LENGTH(64)" "w * length ts div w = length ts"
      using that by (simp_all add: sdt_lists_def)
    then have "unat (of_nat (w * length ts) :: u64) = w * length ts" "unat (of_nat w :: u64) = w"
      by (simp_all only: unat_of_nat mod_less)
    then show ?thesis using that by (simp add: sdt_lists_def unat_div del: of_nat_mult)
  qed
  have "memcmp (PHYS2VIRT rsdp) rsd_ptr 8 m = 0" using assms(4) by (simp add: memcmp_zero)
  moreover have "acpi_scan w p name m 0 (length ts) =
      (case find (\<lambda>t. sdt_signature (PHYS2VIRT t) m = nm) ts of None \<Rightarrow> 0 | Some t \<Rightarrow> PHYS2VIRT t)"
    if "sdt_lists w p ts m" for w p
    by (rule acpi_scan_finds [OF assms(1-3)]) (use that in \<open>simp add: sdt_lists_def\<close>)
  ultimately show ?thesis
    using assms(5) n [of 8] n [of 4] by (simp add: acpi_get_desc_def Let_def split: if_splits)
qed

text \<open>A root pointer of revision 2 at 0x100, an extended root table at 0x200 with the tables
  \<^verbatim>\<open>"APIC"\<close> at 0x300 and \<^verbatim>\<open>"MCFG"\<close> at 0x400, the literal at 0x10 and the name \<^verbatim>\<open>"MCFG"\<close> at 0x20.\<close>

definition demo_tables :: mem where
  "demo_tables a = (case map_of
    [(0x10, 82), (0x11, 83), (0x12, 68), (0x13, 32), (0x14, 80), (0x15, 84), (0x16, 82), (0x17,
     32), (0x20, 77), (0x21, 67), (0x22, 70), (0x23, 71), (0xffff800000000100, 82),
     (0xffff800000000101, 83), (0xffff800000000102, 68), (0xffff800000000103, 32),
     (0xffff800000000104, 80), (0xffff800000000105, 84), (0xffff800000000106, 82),
     (0xffff800000000107, 32), (0xffff80000000010f, 2), (0xffff800000000119, 2),
     (0xffff800000000204, 52), (0xffff800000000225, 3), (0xffff80000000022d, 4),
     (0xffff800000000300, 65), (0xffff800000000301, 80), (0xffff800000000302, 73),
     (0xffff800000000303, 67), (0xffff800000000400, 77), (0xffff800000000401, 67),
     (0xffff800000000402, 70), (0xffff800000000403, 71)] a
   of None \<Rightarrow> 0 | Some v \<Rightarrow> v)"

lemma demo_tables_lists:
  "sdt_lists 8 (PHYS2VIRT (load_le 8 demo_tables (PHYS2VIRT 0x100 + 24))) [0x300, 0x400] demo_tables"
proof -
  have x: "load_le 8 demo_tables (PHYS2VIRT 0x100 + 24) = 0x200"
    by (simp add: load_le_numeral demo_tables_def PHYS2VIRT_def KERNEL_SPACE_def)
  have "load_le 8 demo_tables (PHYS2VIRT 0x200 + 36) = 0x300"
    "load_le 8 demo_tables (PHYS2VIRT 0x200 + 36 + 8) = 0x400"
    "load_le 4 demo_tables (PHYS2VIRT 0x200 + 4) = 52"
    by (simp_all add: load_le_numeral demo_tables_def PHYS2VIRT_def KERNEL_SPACE_def)
  then show ?thesis
    unfolding sdt_lists_def x sdt_length_def SIZEOF_ACPI_SDT_HEADER_def length_Cons list.size(3)
      numeral_2_eq_2 [symmetric] One_nat_def [symmetric]
    by (simp add: all_less_small [unfolded numeral_2_eq_2] less_Suc_eq)
qed

lemma acpi_get_desc_first_witness:
  "acpi_get_desc 0x10 0x20 0x100 demo_tables = PHYS2VIRT 0x400"
proof -
  have "\<forall>i < 4. demo_tables (0x20 + of_nat i) = [0x4d, 0x43, 0x46, 0x47] ! i"
    unfolding all_less_small by (simp add: demo_tables_def)
  moreover have "\<forall>i < 8. demo_tables (PHYS2VIRT 0x100 + of_nat i) = demo_tables (0x10 + of_nat i)"
    unfolding all_less_small by (simp add: demo_tables_def PHYS2VIRT_def KERNEL_SPACE_def)
  moreover have "demo_tables (PHYS2VIRT 0x100 + 15) = 2"
    by (simp add: demo_tables_def PHYS2VIRT_def KERNEL_SPACE_def)
  moreover have "sdt_signature (PHYS2VIRT 0x300) demo_tables = [0x41, 0x50, 0x49, 0x43]"
    "sdt_signature (PHYS2VIRT 0x400) demo_tables = [0x4d, 0x43, 0x46, 0x47]"
    by (simp_all add: sdt_signature_def demo_tables_def PHYS2VIRT_def KERNEL_SPACE_def upt_rec)
  ultimately show ?thesis
    using acpi_get_desc_first [of demo_tables "0x20" "[0x4d, 0x43, 0x46, 0x47]" "0x100" "0x10" "[0x300, 0x400]"]
      demo_tables_lists by simp
qed

end
