(* ===== verification/Pci.thy ===== *)
theory Pci
  imports Irq Acpi
begin

text \<open>
  The PCI core, \<^verbatim>\<open>drivers/pci/pci.c\<close> with the inline helpers of \<^verbatim>\<open>include/pci.h\<close>, and the
  two ways of reaching configuration space of \<^verbatim>\<open>arch/x86_64/pci.c\<close>. The code only sees a device
  through the two function pointers of the host bridge, so the functions here take the host
  bridge as an argument and thread the state \<open>'h\<close> of the hardware. How hardware answers is stated
  as the contract \<open>config_space\<close>: configuration space is an array of 32-bit registers per function
  of which only some bits can be written. Both access methods of the source are shown to fulfil
  the contract on hardware that decodes the configuration ports, or the configuration window.
\<close>

section \<open>Devices and the host bridge\<close>

record resource =
  r_start :: u64
  r_end :: u64
  r_flags :: u64

record pci_dev =
  d_bus :: u8
  d_device :: u8
  d_fun :: u8
  d_viddid :: u32
  d_type :: u64
  d_class :: u64
  d_irq_list :: "(u64 \<times> u64) list"
  d_resource :: "nat \<Rightarrow> resource"

text \<open>The functions behind the pointers always return 0, so only the value read and the state of
  the hardware are kept. The value is what is stored in a variable that was 0 before.\<close>

record 'h host_bridge =
  segment_number :: u32
  start_bus_number :: u32
  end_bus_number :: u32
  rc_mmio_base :: u64
  pci_read_config :: "pci_dev \<Rightarrow> u32 \<Rightarrow> nat \<Rightarrow> 'h \<Rightarrow> u32 \<times> 'h"
  pci_write_config :: "pci_dev \<Rightarrow> u32 \<Rightarrow> u32 \<Rightarrow> nat \<Rightarrow> 'h \<Rightarrow> 'h"

definition pci_read_config_byte :: "'h host_bridge \<Rightarrow> pci_dev \<Rightarrow> u32 \<Rightarrow> 'h \<Rightarrow> u32 \<times> 'h" where
  "pci_read_config_byte hb dev off h = pci_read_config hb dev off 1 h"

definition pci_read_config_word :: "'h host_bridge \<Rightarrow> pci_dev \<Rightarrow> u32 \<Rightarrow> 'h \<Rightarrow> u32 \<times> 'h" where
  "pci_read_config_word hb dev off h = pci_read_config hb dev off 2 h"

definition pci_read_config_dword :: "'h host_bridge \<Rightarrow> pci_dev \<Rightarrow> u32 \<Rightarrow> 'h \<Rightarrow> u32 \<times> 'h" where
  "pci_read_config_dword hb dev off h = pci_read_config hb dev off 4 h"

definition pci_write_config_byte :: "'h host_bridge \<Rightarrow> pci_dev \<Rightarrow> u32 \<Rightarrow> u8 \<Rightarrow> 'h \<Rightarrow> 'h" where
  "pci_write_config_byte hb dev off v h = pci_write_config hb dev off (ucast v) 1 h"

definition pci_write_config_word :: "'h host_bridge \<Rightarrow> pci_dev \<Rightarrow> u32 \<Rightarrow> u16 \<Rightarrow> 'h \<Rightarrow> 'h" where
  "pci_write_config_word hb dev off v h = pci_write_config hb dev off (ucast v) 2 h"

definition pci_write_config_dword :: "'h host_bridge \<Rightarrow> pci_dev \<Rightarrow> u32 \<Rightarrow> u32 \<Rightarrow> 'h \<Rightarrow> 'h" where
  "pci_write_config_dword hb dev off v h = pci_write_config hb dev off v 4 h"

lemmas config_access_defs = pci_read_config_byte_def pci_read_config_word_def
  pci_read_config_dword_def pci_write_config_byte_def pci_write_config_word_def
  pci_write_config_dword_def

named_theorems pci_consts "constants of the PCI code"

definition PCI_VENDOR_ID :: u32 where [pci_consts]: "PCI_VENDOR_ID = 0x00"
definition PCI_DEVICE_ID :: u32 where [pci_consts]: "PCI_DEVICE_ID = 0x02"
definition PCI_COMMAND :: u32 where [pci_consts]: "PCI_COMMAND = 0x04"
definition PCI_COMMAND_IO :: u32 where [pci_consts]: "PCI_COMMAND_IO = 0x1"
definition PCI_COMMAND_MEMORY :: u32 where [pci_consts]: "PCI_COMMAND_MEMORY = 0x2"
definition PCI_COMMAND_MASTER :: u32 where [pci_consts]: "PCI_COMMAND_MASTER = 0x4"
definition PCI_CLASS_REVISION :: u32 where [pci_consts]: "PCI_CLASS_REVISION = 0x08"
definition PCI_CLASS_PROG :: u32 where [pci_consts]: "PCI_CLASS_PROG = 0x09"
definition PCI_CLASS_DEVICE :: u32 where [pci_consts]: "PCI_CLASS_DEVICE = 0x0a"
definition PCI_HEADER_TYPE :: u32 where [pci_consts]: "PCI_HEADER_TYPE = 0x0e"
definition PCI_BASE_ADDRESS_0 :: u32 where [pci_consts]: "PCI_BASE_ADDRESS_0 = 0x10"
definition PCI_BASE_ADDRESS_SPACE_IO :: u32 where [pci_consts]: "PCI_BASE_ADDRESS_SPACE_IO = 0x01"
definition PCI_ROM_ADDRESS :: u32 where [pci_consts]: "PCI_ROM_ADDRESS = 0x30"
definition PCI_ROM_ADDRESS1 :: u32 where [pci_consts]: "PCI_ROM_ADDRESS1 = 0x38"
definition PCI_CAPABILITY_LIST :: u32 where [pci_consts]: "PCI_CAPABILITY_LIST = 0x34"
definition PCI_CAP_ID_MSI :: u8 where [pci_consts]: "PCI_CAP_ID_MSI = 0x05"
definition PCI_CAP_ID_MSIX :: u8 where [pci_consts]: "PCI_CAP_ID_MSIX = 0x11"
definition PCI_MSI_FLAGS :: u32 where [pci_consts]: "PCI_MSI_FLAGS = 2"
definition PCI_MSI_FLAGS_ENABLE :: u16 where [pci_consts]: "PCI_MSI_FLAGS_ENABLE = 0x0001"
definition PCI_MSI_FLAGS_QMASK :: u16 where [pci_consts]: "PCI_MSI_FLAGS_QMASK = 0x000e"
definition PCI_MSI_FLAGS_64BIT :: u16 where [pci_consts]: "PCI_MSI_FLAGS_64BIT = 0x0080"
definition PCI_MSI_FLAGS_MASKBIT :: u16 where [pci_consts]: "PCI_MSI_FLAGS_MASKBIT = 0x0100"
definition PCI_MSI_ADDRESS_LO :: u32 where [pci_consts]: "PCI_MSI_ADDRESS_LO = 4"
definition PCI_MSI_ADDRESS_HI :: u32 where [pci_consts]: "PCI_MSI_ADDRESS_HI = 8"
definition PCI_MSI_DATA_32 :: u32 where [pci_consts]: "PCI_MSI_DATA_32 = 8"
definition PCI_MSI_MASK_32 :: u32 where [pci_consts]: "PCI_MSI_MASK_32 = 12"
definition PCI_MSI_PENDING_32 :: u32 where [pci_consts]: "PCI_MSI_PENDING_32 = 16"
definition PCI_MSI_DATA_64 :: u32 where [pci_consts]: "PCI_MSI_DATA_64 = 12"
definition PCI_MSI_MASK_64 :: u32 where [pci_consts]: "PCI_MSI_MASK_64 = 16"
definition PCI_MSI_PENDING_64 :: u32 where [pci_consts]: "PCI_MSI_PENDING_64 = 20"
definition PCI_MSIX_FLAGS :: u32 where [pci_consts]: "PCI_MSIX_FLAGS = 2"
definition PCI_MSIX_FLAGS_QSIZE :: u16 where [pci_consts]: "PCI_MSIX_FLAGS_QSIZE = 0x07ff"
definition PCI_MSIX_FLAGS_MASKALL :: u16 where [pci_consts]: "PCI_MSIX_FLAGS_MASKALL = 0x4000"
definition PCI_MSIX_FLAGS_ENABLE :: u16 where [pci_consts]: "PCI_MSIX_FLAGS_ENABLE = 0x8000"
definition PCI_MSIX_TABLE :: u32 where [pci_consts]: "PCI_MSIX_TABLE = 4"
definition PCI_MSIX_TABLE_BIR :: u32 where [pci_consts]: "PCI_MSIX_TABLE_BIR = 0x7"
definition PCI_MSIX_TABLE_OFFSET :: u32 where [pci_consts]: "PCI_MSIX_TABLE_OFFSET = 0xfffffff8"
definition PCI_MSIX_PBA :: u32 where [pci_consts]: "PCI_MSIX_PBA = 8"
definition PCI_MSIX_PBA_BIR :: u32 where [pci_consts]: "PCI_MSIX_PBA_BIR = 0x7"
definition PCI_MSIX_PBA_OFFSET :: u32 where [pci_consts]: "PCI_MSIX_PBA_OFFSET = 0xfffffff8"
definition PCI_MSIX_ENTRY_SIZE :: u64 where [pci_consts]: "PCI_MSIX_ENTRY_SIZE = 16"
definition PCI_IRQ_LEGACY :: u32 where [pci_consts]: "PCI_IRQ_LEGACY = 1"
definition PCI_IRQ_MSI :: u32 where [pci_consts]: "PCI_IRQ_MSI = 2"
definition PCI_IRQ_MSIX :: u32 where [pci_consts]: "PCI_IRQ_MSIX = 4"
definition PCI_IRQ_AFFINITY :: u32 where [pci_consts]: "PCI_IRQ_AFFINITY = 8"

section \<open>Capabilities\<close>

text \<open>The walk along the list of capabilities ends at offset 0; on a list that comes back to an
  earlier entry it need not end.\<close>

partial_function (option) pci_cap_walk ::
    "'h host_bridge \<Rightarrow> pci_dev \<Rightarrow> u8 \<Rightarrow> u8 \<Rightarrow> 'h \<Rightarrow> (u8 \<times> 'h) option" where
  "pci_cap_walk hb dev i next_cap h =
     (if next_cap = 0 then Some (0, h)
      else let (cap_id, h) = pci_read_config_byte hb dev (ucast next_cap) h in
        if ucast cap_id = i then Some (next_cap, h)
        else let (nxt, h) = pci_read_config_byte hb dev (ucast next_cap + 1) h
             in pci_cap_walk hb dev i (ucast nxt) h)"

definition pci_find_capability :: "'h host_bridge \<Rightarrow> pci_dev \<Rightarrow> u8 \<Rightarrow> 'h \<Rightarrow> (u8 \<times> 'h) option" where
  "pci_find_capability hb dev i h =
     (let (next_cap, h) = pci_read_config_byte hb dev PCI_CAPABILITY_LIST h
      in pci_cap_walk hb dev i (ucast next_cap) h)"

definition pci_enable_device :: "'h host_bridge \<Rightarrow> pci_dev \<Rightarrow> 'h \<Rightarrow> 'h" where
  "pci_enable_device hb dev h =
     (let (cmd_reg, h) = pci_read_config_word hb dev PCI_COMMAND h;
          cmd_reg = cmd_reg OR (PCI_COMMAND_IO OR PCI_COMMAND_MEMORY)
      in pci_write_config_word hb dev PCI_COMMAND (ucast cmd_reg) h)"

definition pci_set_master :: "'h host_bridge \<Rightarrow> pci_dev \<Rightarrow> 'h \<Rightarrow> 'h" where
  "pci_set_master hb dev h =
     (let (cmd_reg, h) = pci_read_config_word hb dev PCI_COMMAND h;
          cmd_reg = cmd_reg OR PCI_COMMAND_MASTER
      in pci_write_config_word hb dev PCI_COMMAND (ucast cmd_reg) h)"

definition pci_msi_set_enable :: "'h host_bridge \<Rightarrow> pci_dev \<Rightarrow> bool \<Rightarrow> 'h \<Rightarrow> (int \<times> 'h) option" where
  "pci_msi_set_enable hb dev enable h = do {
     (msi_cap, h) \<leftarrow> pci_find_capability hb dev PCI_CAP_ID_MSI h;
     if msi_cap = 0 then Some (- ENODEV, h)
     else do {
       let (control, h) = pci_read_config_word hb dev (ucast msi_cap + PCI_MSI_FLAGS) h;
       let control = ucast control AND NOT PCI_MSI_FLAGS_ENABLE;
       let control = (if enable then control OR PCI_MSI_FLAGS_ENABLE else control);
       Some (0, pci_write_config_word hb dev (ucast msi_cap + PCI_MSI_FLAGS) control h)
     }
   }"

text \<open>The loop that takes the logarithm: how often \<^verbatim>\<open>nvec\<close> can be halved until it is 0. It
  does not end for a negative \<^verbatim>\<open>nvec\<close>, which is shifted arithmetically.\<close>

partial_function (option) order_loop :: "int \<Rightarrow> u8 \<Rightarrow> u8 option" where
  "order_loop nvec order = (if nvec = 0 then Some order else order_loop (nvec div 2) (order + 1))"

definition pci_msi_multiple_enable :: "'h host_bridge \<Rightarrow> pci_dev \<Rightarrow> int \<Rightarrow> 'h \<Rightarrow> (int \<times> 'h) option" where
  "pci_msi_multiple_enable hb dev nvec h = do {
     (msi_cap, h) \<leftarrow> pci_find_capability hb dev PCI_CAP_ID_MSI h;
     if msi_cap = 0 then Some (- ENODEV, h)
     else do {
       let (control, h) = pci_read_config_word hb dev (ucast msi_cap + PCI_MSI_FLAGS) h;
       order \<leftarrow> order_loop nvec 0;
       let order = order - 1;
       let control = ucast control OR push_bit 4 (ucast order);
       Some (0, pci_write_config_word hb dev (ucast msi_cap + PCI_MSI_FLAGS) control h)
     }
   }"

definition pci_msix_clear_and_set_ctrl ::
    "'h host_bridge \<Rightarrow> pci_dev \<Rightarrow> u16 \<Rightarrow> u16 \<Rightarrow> 'h \<Rightarrow> (int \<times> 'h) option" where
  "pci_msix_clear_and_set_ctrl hb dev cl st h = do {
     (msix_cap, h) \<leftarrow> pci_find_capability hb dev PCI_CAP_ID_MSIX h;
     if msix_cap = 0 then Some (- ENODEV, h)
     else do {
       let (ctrl, h) = pci_read_config_word hb dev (ucast msix_cap + PCI_MSIX_FLAGS) h;
       let ctrl = (ucast ctrl AND NOT cl) OR st;
       Some (0, pci_write_config_word hb dev (ucast msix_cap + PCI_MSIX_FLAGS) ctrl h)
     }
   }"


section \<open>Message-signalled interrupts\<close>

text \<open>The kernel with its devices: the hardware, the processors and their vectors, and the two
  global lists. A driver is its table of identifiers.\<close>

record 'h pci =
  p_hw :: 'h
  p_ks :: kstate
  p_dev :: "u64 \<Rightarrow> pci_dev"
  p_devices :: "u64 list"
  p_ids :: "u64 \<Rightarrow> u32 list"
  p_drivers :: "u64 list"

definition upd_dev :: "u64 \<Rightarrow> (pci_dev \<Rightarrow> pci_dev) \<Rightarrow> 'h pci \<Rightarrow> 'h pci" where
  "upd_dev a f s = s\<lparr>p_dev := (p_dev s)(a := f (p_dev s a))\<rparr>"

definition pci_kmalloc :: "u64 \<Rightarrow> 'h pci \<Rightarrow> (u64 \<times> 'h pci) option" where
  "pci_kmalloc sz s = do { (v, k) \<leftarrow> ks_kmalloc sz (p_ks s); Some (v, s\<lparr>p_ks := k\<rparr>) }"

definition SIZEOF_PCI_IRQ_DESC :: u64 where "SIZEOF_PCI_IRQ_DESC = 32"
definition SIZEOF_PCI_DEV :: u64 where "SIZEOF_PCI_DEV = 312"

definition pci_irq_register :: "u64 \<Rightarrow> u32 \<Rightarrow> u64 \<Rightarrow> 'h pci \<Rightarrow> (int \<times> 'h pci) option" where
  "pci_irq_register dev cpu vector s = do {
     (desc, s) \<leftarrow> pci_kmalloc SIZEOF_PCI_IRQ_DESC s;
     if desc = 0 then Some (- ENOSPC, s)
     else Some (0, upd_dev dev (d_irq_list_update (\<lambda>l. l @ [(scast cpu, vector)])) s)
   }"

text \<open>\<^verbatim>\<open>x86_pci_msi_entry_build\<close>: the base 0xfee00000 is an \<^verbatim>\<open>unsigned int\<close>, the data an
  \<^verbatim>\<open>int\<close>.\<close>

definition MSI_ADDR_BASE_LO :: u32 where [pci_consts]: "MSI_ADDR_BASE_LO = 0xfee00000"
definition MSI_ADDR_DEST_MODE_PHYSICAL :: u32 where [pci_consts]: "MSI_ADDR_DEST_MODE_PHYSICAL = push_bit 2 0"
definition MSI_DATA_TRIGGER_EDGE :: u32 where [pci_consts]: "MSI_DATA_TRIGGER_EDGE = push_bit 15 0"
definition MSI_DATA_LEVEL_ASSERT :: u32 where [pci_consts]: "MSI_DATA_LEVEL_ASSERT = push_bit 14 1"
definition MSI_DATA_DELIVERY_FIXED :: u32 where [pci_consts]: "MSI_DATA_DELIVERY_FIXED = push_bit 8 0"

definition x86_pci_msi_entry_build :: "u32 \<Rightarrow> u32 \<Rightarrow> u64 \<times> u64" where
  "x86_pci_msi_entry_build irq cpu =
     (ucast (cpu OR MSI_ADDR_BASE_LO OR MSI_ADDR_DEST_MODE_PHYSICAL),
      scast ((irq + 32) OR MSI_DATA_TRIGGER_EDGE OR MSI_DATA_LEVEL_ASSERT OR MSI_DATA_DELIVERY_FIXED))"

definition msi_entry_setup ::
    "'h host_bridge \<Rightarrow> pci_dev \<Rightarrow> u64 \<Rightarrow> u64 \<Rightarrow> u64 \<Rightarrow> 'h \<Rightarrow> (int \<times> 'h) option" where
  "msi_entry_setup hb dev msg_addr msg_data msk h = do {
     let addr_l = ucast (msg_addr AND 0xffffffff);
     let addr_h = ucast (drop_bit 32 msg_addr);
     let msi_data = ucast msg_data;
     let msi_mask = ucast msk;
     (msi_cap, h) \<leftarrow> pci_find_capability hb dev PCI_CAP_ID_MSI h;
     if msi_cap = 0 then Some (- ENODEV, h)
     else do {
       let cap = ucast msi_cap;
       let (control, h) = pci_read_config_word hb dev (cap + PCI_MSI_FLAGS) h;
       let control = (ucast control :: u16);
       let h = pci_write_config_dword hb dev (cap + PCI_MSI_ADDRESS_LO) addr_l h;
       Some (0,
         if control AND PCI_MSI_FLAGS_64BIT \<noteq> 0 then
           let h = pci_write_config_dword hb dev (cap + PCI_MSI_ADDRESS_HI) addr_h h;
               h = pci_write_config_word hb dev (cap + PCI_MSI_DATA_64) msi_data h
           in if control AND PCI_MSI_FLAGS_MASKBIT \<noteq> 0
              then pci_write_config_dword hb dev (cap + PCI_MSI_MASK_64) msi_mask h else h
         else
           let h = pci_write_config_word hb dev (cap + PCI_MSI_DATA_32) msi_data h
           in if control AND PCI_MSI_FLAGS_MASKBIT \<noteq> 0
              then pci_write_config_dword hb dev (cap + PCI_MSI_MASK_32) msi_mask h else h)
     }
   }"

text \<open>The mask word is computed before the register is read, which overwrites it, so what is
  written is what was read.\<close>

definition msi_irq_mask ::
    "'h host_bridge \<Rightarrow> pci_dev \<Rightarrow> int \<Rightarrow> bool \<Rightarrow> 'h \<Rightarrow> (int \<times> 'h) option" where
  "msi_irq_mask hb dev msi_irq msk h = do {
     (msi_cap, h) \<leftarrow> pci_find_capability hb dev PCI_CAP_ID_MSI h;
     if msi_cap = 0 then Some (- ENODEV, h)
     else do {
       let (control, h) = pci_read_config_word hb dev (ucast msi_cap + PCI_MSI_FLAGS) h;
       let control = (ucast control :: u16);
       let reg = (if control AND PCI_MSI_FLAGS_64BIT \<noteq> 0 then PCI_MSI_MASK_64 else PCI_MSI_MASK_32);
       if control AND PCI_MSI_FLAGS_MASKBIT \<noteq> 0 then
         let (msi_mask, h) = pci_read_config_dword hb dev (ucast msi_cap + reg) h
         in Some (0, pci_write_config_dword hb dev (ucast msi_cap + reg) msi_mask h)
       else Some (- ENODEV, h)
     }
   }"

definition msi_irq_pending :: "'h host_bridge \<Rightarrow> pci_dev \<Rightarrow> nat \<Rightarrow> 'h \<Rightarrow> (int \<times> 'h) option" where
  "msi_irq_pending hb dev msi_irq h = do {
     (msi_cap, h) \<leftarrow> pci_find_capability hb dev PCI_CAP_ID_MSI h;
     if msi_cap = 0 then Some (- ENODEV, h)
     else do {
       let (control, h) = pci_read_config_word hb dev (ucast msi_cap + PCI_MSI_FLAGS) h;
       let control = (ucast control :: u16);
       let reg = (if control AND PCI_MSI_FLAGS_64BIT \<noteq> 0 then PCI_MSI_PENDING_64 else PCI_MSI_PENDING_32);
       if control AND PCI_MSI_FLAGS_MASKBIT \<noteq> 0 then
         let (msi_pending, h) = pci_read_config_dword hb dev (ucast msi_cap + reg) h
         in Some (if msi_pending AND push_bit msi_irq 1 \<noteq> 0 then 1 else 0, h)
       else Some (- ENODEV, h)
     }
   }"

definition pci_msi_vec_count :: "'h host_bridge \<Rightarrow> pci_dev \<Rightarrow> 'h \<Rightarrow> (int \<times> 'h) option" where
  "pci_msi_vec_count hb dev h = do {
     (msi_cap, h) \<leftarrow> pci_find_capability hb dev PCI_CAP_ID_MSI h;
     if msi_cap = 0 then Some (- ENODEV, h)
     else do {
       let (msgctl, h) = pci_read_config_word hb dev (ucast msi_cap + PCI_MSI_FLAGS) h;
       Some (2 ^ unat (drop_bit 1 ((ucast msgctl :: u16) AND PCI_MSI_FLAGS_QMASK)), h)
     }
   }"

text \<open>Registering the vectors of a block, in order; the result of a registration is not looked
  at.\<close>

fun pci_irq_register_block :: "u64 \<Rightarrow> u32 \<Rightarrow> int \<Rightarrow> nat \<Rightarrow> 'h pci \<Rightarrow> 'h pci option" where
  "pci_irq_register_block dev cpu i 0 s = Some s"
| "pci_irq_register_block dev cpu i (Suc n) s = do {
     (ret, s) \<leftarrow> pci_irq_register dev cpu (word_of_int i) s;
     pci_irq_register_block dev cpu (i + 1) n s
   }"

definition hw_call :: "('h \<Rightarrow> (int \<times> 'h) option) \<Rightarrow> 'h pci \<Rightarrow> (int \<times> 'h pci) option" where
  "hw_call f s = do { (ret, h) \<leftarrow> f (p_hw s); Some (ret, s\<lparr>p_hw := h\<rparr>) }"

definition msi_capability_init :: "'h host_bridge \<Rightarrow> u64 \<Rightarrow> int \<Rightarrow> 'h pci \<Rightarrow> (int \<times> 'h pci) option" where
  "msi_capability_init hb dev nvec s = do {
     (ret, s) \<leftarrow> hw_call (pci_msi_set_enable hb (p_dev s dev) False) s;
     case alloc_irqs (word_of_int nvec) (word_of_int nvec) (p_ks s) of
       (start_irq, None, ks) \<Rightarrow> Some (- ENOSPC, s\<lparr>p_ks := ks\<rparr>)
     | (start_irq, Some cpu, ks) \<Rightarrow> do {
         s \<leftarrow> pci_irq_register_block dev cpu start_irq (nat nvec) (s\<lparr>p_ks := ks\<rparr>);
         let (addr, data) = x86_pci_msi_entry_build (word_of_int start_irq) cpu;
         (ret, s) \<leftarrow> hw_call (msi_entry_setup hb (p_dev s dev) addr data 0) s;
         (ret, s) \<leftarrow> hw_call (pci_msi_multiple_enable hb (p_dev s dev) nvec) s;
         (ret, s) \<leftarrow> hw_call (pci_msi_set_enable hb (p_dev s dev) True) s;
         Some (0, s)
       }
   }"

text \<open>The loop around \<^verbatim>\<open>msi_capability_init\<close> never comes to a second turn, since that returns 0 or
  a negative number.\<close>

definition pci_enable_msi_range ::
    "'h host_bridge \<Rightarrow> u64 \<Rightarrow> int \<Rightarrow> int \<Rightarrow> 'h pci \<Rightarrow> (int \<times> 'h pci) option" where
  "pci_enable_msi_range hb dev minvec maxvec s = do {
     (nvec, s) \<leftarrow> hw_call (pci_msi_vec_count hb (p_dev s dev)) s;
     if nvec < 0 then Some (nvec, s)
     else if nvec < minvec then Some (- ENOSPC, s)
     else do {
       let nvec = (if nvec > maxvec then maxvec else nvec);
       (rc, s) \<leftarrow> msi_capability_init hb dev nvec s;
       Some (if rc = 0 then nvec else rc, s)
     }
   }"

definition pci_enable_msi :: "'h host_bridge \<Rightarrow> u64 \<Rightarrow> 'h pci \<Rightarrow> (int \<times> 'h pci) option" where
  "pci_enable_msi hb dev s = do {
     (rc, s) \<leftarrow> pci_enable_msi_range hb dev 1 32 s;
     Some (if rc < 0 then rc else 0, s)
   }"


section \<open>MSI-X\<close>

text \<open>The table and the pending bits lie in a memory region of the device, which is reached through
  \<open>mwr\<close> and \<open>mrd\<close>, a 32-bit store and a 64-bit load at a virtual address. \<^verbatim>\<open>iounmap\<close> does
  nothing.\<close>

definition ioremap :: "u64 \<Rightarrow> u64 \<Rightarrow> u64" where
  "ioremap phys_addr sz = PHYS2VIRT phys_addr"

definition ioremap_nocache :: "u64 \<Rightarrow> u64 \<Rightarrow> u64" where
  "ioremap_nocache phys_addr sz = ioremap phys_addr sz"

definition msix_table_size :: "u16 \<Rightarrow> u32" where
  "msix_table_size flags = ucast (flags AND PCI_MSIX_FLAGS_QSIZE) + 1"

text \<open>The virtual address of the structure that the register \<open>reg\<close> of the capability points to:
  a region number in the lowest three bits and an offset.\<close>

definition msix_map :: "'h host_bridge \<Rightarrow> pci_dev \<Rightarrow> u8 \<Rightarrow> u32 \<Rightarrow> 'h \<Rightarrow> u64 \<times> 'h" where
  "msix_map hb dev msix_cap reg h =
     (let (control, h) = pci_read_config_word hb dev (ucast msix_cap + PCI_MSIX_FLAGS) h;
          nr_entries = msix_table_size (ucast control);
          (table_offset, h) = pci_read_config_dword hb dev (ucast msix_cap + reg) h;
          bir = table_offset AND PCI_MSIX_TABLE_BIR;
          table_offset = table_offset AND PCI_MSIX_TABLE_OFFSET;
          phys_addr = r_start (d_resource dev (unat bir)) + ucast table_offset
      in (ioremap_nocache phys_addr (ucast nr_entries * PCI_MSIX_ENTRY_SIZE), h))"

definition msix_entry_setup ::
    "'h host_bridge \<Rightarrow> (u64 \<Rightarrow> u32 \<Rightarrow> 'h \<Rightarrow> 'h) \<Rightarrow> pci_dev \<Rightarrow> u64 \<Rightarrow> u64 \<Rightarrow> u64 \<Rightarrow> u64 \<Rightarrow> 'h \<Rightarrow>
      (int \<times> 'h) option" where
  "msix_entry_setup hb mwr dev index msg_addr msg_data msk h = do {
     (msix_cap, h) \<leftarrow> pci_find_capability hb dev PCI_CAP_ID_MSIX h;
     if msix_cap = 0 then Some (- ENODEV, h)
     else do {
       let (table_base, h) = msix_map hb dev msix_cap PCI_MSIX_TABLE h;
       let entry = table_base + 16 * index;
       let h = mwr entry (ucast msg_addr) h;
       let h = mwr (entry + 4) (ucast (drop_bit 32 msg_addr)) h;
       let h = mwr (entry + 8) (ucast msg_data) h;
       Some (0, mwr (entry + 12) (ucast (msk AND 1)) h)
     }
   }"

definition msix_irq_mask ::
    "'h host_bridge \<Rightarrow> (u64 \<Rightarrow> u32 \<Rightarrow> 'h \<Rightarrow> 'h) \<Rightarrow> pci_dev \<Rightarrow> u32 \<Rightarrow> u32 \<Rightarrow> 'h \<Rightarrow> (int \<times> 'h) option" where
  "msix_irq_mask hb mwr dev msix_irq msk h = do {
     (msix_cap, h) \<leftarrow> pci_find_capability hb dev PCI_CAP_ID_MSIX h;
     if msix_cap = 0 then Some (- ENODEV, h)
     else do {
       let (table_base, h) = msix_map hb dev msix_cap PCI_MSIX_TABLE h;
       Some (0, mwr (table_base + 16 * scast msix_irq + 12) (msk AND 1) h)
     }
   }"

text \<open>The bit is tested with \<^verbatim>\<open>1 << (msix_irq % 64)\<close>, an \<^verbatim>\<open>int\<close> shift; the model is for
  non-negative interrupt numbers and the shift amount the processor uses, modulo 32.\<close>

definition msix_irq_pending ::
    "'h host_bridge \<Rightarrow> (u64 \<Rightarrow> 'h \<Rightarrow> u64 \<times> 'h) \<Rightarrow> pci_dev \<Rightarrow> nat \<Rightarrow> 'h \<Rightarrow> (int \<times> 'h) option" where
  "msix_irq_pending hb mrd dev msix_irq h = do {
     (msix_cap, h) \<leftarrow> pci_find_capability hb dev PCI_CAP_ID_MSIX h;
     if msix_cap = 0 then Some (- ENODEV, h)
     else do {
       let (pba_base, h) = msix_map hb dev msix_cap PCI_MSIX_PBA h;
       let (pba, h) = mrd (pba_base + 8 * of_nat (msix_irq div 64)) h;
       Some (if pba AND scast (push_bit (msix_irq mod 64 mod 32) 1 :: u32) \<noteq> 0 then 1 else 0, h)
     }
   }"

text \<open>One vector at a time. When no processor has a free vector, \<^verbatim>\<open>alloc_irqs\<close> returns -1 and
  leaves \<^verbatim>\<open>cpu\<close> as it was, not initialised in the first turn: \<open>cpu\<close> is the value it has.\<close>

fun msix_vectors ::
    "'h host_bridge \<Rightarrow> (u64 \<Rightarrow> u32 \<Rightarrow> 'h \<Rightarrow> 'h) \<Rightarrow> u64 \<Rightarrow> u32 \<Rightarrow> u64 \<Rightarrow> nat \<Rightarrow> 'h pci \<Rightarrow> 'h pci option" where
  "msix_vectors hb mwr dev cpu i 0 s = Some s"
| "msix_vectors hb mwr dev cpu i (Suc n) s = do {
     let (start_irq, cpu', ks) = alloc_irqs 1 1 (p_ks s);
     let cpu = (case cpu' of None \<Rightarrow> cpu | Some c \<Rightarrow> c);
     (ret, s) \<leftarrow> pci_irq_register dev cpu (word_of_int start_irq) (s\<lparr>p_ks := ks\<rparr>);
     let (addr, data) = x86_pci_msi_entry_build (word_of_int start_irq) cpu;
     (ret, s) \<leftarrow> hw_call (msix_entry_setup hb mwr (p_dev s dev) i addr data 0) s;
     msix_vectors hb mwr dev cpu (i + 1) n s
   }"

definition msix_capability_init ::
    "'h host_bridge \<Rightarrow> (u64 \<Rightarrow> u32 \<Rightarrow> 'h \<Rightarrow> 'h) \<Rightarrow> u32 \<Rightarrow> u64 \<Rightarrow> int \<Rightarrow> 'h pci \<Rightarrow> (int \<times> 'h pci) option" where
  "msix_capability_init hb mwr junk dev nvec s = do {
     (ret, s) \<leftarrow> hw_call (pci_msix_clear_and_set_ctrl hb (p_dev s dev) PCI_MSIX_FLAGS_ENABLE 0) s;
     s \<leftarrow> msix_vectors hb mwr dev junk 0 (nat nvec) s;
     (ret, s) \<leftarrow> hw_call (pci_msix_clear_and_set_ctrl hb (p_dev s dev) PCI_MSIX_FLAGS_MASKALL PCI_MSIX_FLAGS_ENABLE) s;
     Some (0, s)
   }"

definition pci_msix_vec_count :: "'h host_bridge \<Rightarrow> pci_dev \<Rightarrow> 'h \<Rightarrow> (int \<times> 'h) option" where
  "pci_msix_vec_count hb dev h = do {
     (msix_cap, h) \<leftarrow> pci_find_capability hb dev PCI_CAP_ID_MSIX h;
     if msix_cap = 0 then Some (- ENODEV, h)
     else do {
       let (control, h) = pci_read_config_word hb dev (ucast msix_cap + PCI_MSIX_FLAGS) h;
       Some (uint (msix_table_size (ucast control)), h)
     }
   }"

definition pci_enable_msix ::
    "'h host_bridge \<Rightarrow> (u64 \<Rightarrow> u32 \<Rightarrow> 'h \<Rightarrow> 'h) \<Rightarrow> u32 \<Rightarrow> u64 \<Rightarrow> 'h pci \<Rightarrow> (int \<times> 'h pci) option" where
  "pci_enable_msix hb mwr junk dev s = do {
     (nvec0, s) \<leftarrow> hw_call (pci_msix_vec_count hb (p_dev s dev)) s;
     if nvec0 < 0 then Some (nvec0, s)
     else msix_capability_init hb mwr junk dev nvec0 s
   }"

text \<open>The loop tests \<^verbatim>\<open>rc\<close>, which nothing initialises or changes.\<close>

partial_function (option) pci_enable_msix_range ::
    "'h host_bridge \<Rightarrow> (u64 \<Rightarrow> u32 \<Rightarrow> 'h \<Rightarrow> 'h) \<Rightarrow> u32 \<Rightarrow> int \<Rightarrow> u64 \<Rightarrow> int \<Rightarrow> int \<Rightarrow> 'h pci \<Rightarrow>
      (int \<times> 'h pci) option" where
  "pci_enable_msix_range hb mwr junk rc dev minvec maxvec s =
     (if maxvec < minvec then Some (- ERANGE, s)
      else do {
        (ret, s) \<leftarrow> msix_capability_init hb mwr junk dev maxvec s;
        if rc < 0 then Some (rc, s)
        else if rc < minvec then Some (- ENOSPC, s)
        else pci_enable_msix_range hb mwr junk rc dev minvec rc s
      })"

definition pci_alloc_irq_vectors ::
    "'h host_bridge \<Rightarrow> (u64 \<Rightarrow> u32 \<Rightarrow> 'h \<Rightarrow> 'h) \<Rightarrow> u32 \<Rightarrow> int \<Rightarrow> u64 \<Rightarrow> int \<Rightarrow> int \<Rightarrow> u32 \<Rightarrow> 'h pci \<Rightarrow>
      (int \<times> 'h pci) option" where
  "pci_alloc_irq_vectors hb mwr junk rc dev min_vecs max_vecs flags s = do {
     (vecs, s) \<leftarrow> (if flags AND PCI_IRQ_MSIX \<noteq> 0
       then pci_enable_msix_range hb mwr junk rc dev min_vecs max_vecs s else Some (- ENOSPC, s));
     if flags AND PCI_IRQ_MSIX \<noteq> 0 \<and> vecs > 0 then Some (vecs, s)
     else if flags AND PCI_IRQ_MSI \<noteq> 0 then pci_enable_msi_range hb dev min_vecs max_vecs s
     else Some (vecs, s)
   }"

section \<open>Base address registers\<close>

definition pci_get_bar_type :: "'h host_bridge \<Rightarrow> pci_dev \<Rightarrow> nat \<Rightarrow> 'h \<Rightarrow> u16 \<times> 'h" where
  "pci_get_bar_type hb pdev bar h =
     (let (bar_val, h) = pci_read_config_dword hb pdev (PCI_BASE_ADDRESS_0 + of_nat bar * 4) h
      in (if bar_val AND 2 \<noteq> 0 then 0xffff else ucast (bar_val AND 0xf), h))"

definition pci_get_bar_base :: "'h host_bridge \<Rightarrow> pci_dev \<Rightarrow> nat \<Rightarrow> 'h \<Rightarrow> u64 \<times> 'h" where
  "pci_get_bar_base hb pdev bar h =
     (let (bar_lo32, h) = pci_read_config_dword hb pdev (PCI_BASE_ADDRESS_0 + of_nat bar * 4) h
      in if bar_lo32 AND 2 \<noteq> 0 then (0, h)
         else let (bar_hi32, h) =
                (if bar_lo32 AND 4 \<noteq> 0
                 then pci_read_config_dword hb pdev (PCI_BASE_ADDRESS_0 + of_nat bar * 4 + 4) h
                 else (0, h));
              bar_lo32 = (if bar_lo32 AND 1 \<noteq> 0 then bar_lo32 AND NOT 3 else bar_lo32 AND NOT 0xf)
         in (ucast bar_lo32 OR push_bit 32 (ucast bar_hi32), h))"

text \<open>Reading a register, writing all ones, reading back and restoring it.\<close>

definition probe_register :: "'h host_bridge \<Rightarrow> pci_dev \<Rightarrow> u32 \<Rightarrow> u32 \<Rightarrow> 'h \<Rightarrow> u32 \<times> u32 \<times> 'h" where
  "probe_register hb pdev reg all_ones h =
     (let (ori, h) = pci_read_config_dword hb pdev reg h;
          h = pci_write_config_dword hb pdev reg all_ones h;
          (sz, h) = pci_read_config_dword hb pdev reg h
      in (ori, sz, pci_write_config_dword hb pdev reg ori h))"

definition pci_get_bar_size :: "'h host_bridge \<Rightarrow> pci_dev \<Rightarrow> nat \<Rightarrow> 'h \<Rightarrow> u64 \<times> 'h" where
  "pci_get_bar_size hb pdev bar h =
     (let (ori_cmd_reg, h) = pci_read_config_word hb pdev PCI_COMMAND h;
          h = pci_write_config_word hb pdev PCI_COMMAND (ucast (ori_cmd_reg AND NOT 3)) h;
          (ori_bar_lo32, size_lo32, h) =
            probe_register hb pdev (PCI_BASE_ADDRESS_0 + of_nat bar * 4) 0xffffffff h;
          (size_hi32, h) =
            (if ori_bar_lo32 AND 4 \<noteq> 0 then
               let (ori_bar_hi32, size_hi32, h) =
                 probe_register hb pdev (PCI_BASE_ADDRESS_0 + (of_nat bar + 1) * 4) 0xffffffff h
               in (size_hi32, h)
             else (0xffffffff, h));
          h = pci_write_config_word hb pdev PCI_COMMAND (ucast ori_cmd_reg) h;
          io = (ori_bar_lo32 AND PCI_BASE_ADDRESS_SPACE_IO \<noteq> 0);
          size_lo32 = (if io then (size_lo32 AND NOT 3) OR 0xffff0000 else size_lo32 AND NOT 0xf);
          sz = (ucast size_lo32 OR push_bit 32 (ucast size_hi32)) AND NOT 0xf;
          sz = NOT sz + 1
      in (if io then 0 else sz, h))"

text \<open>\<^verbatim>\<open>pdev->type & 0x1 == 0\<close> is \<^verbatim>\<open>pdev->type & 0\<close>, so the base is always read from the
  register of a bridge.\<close>

definition pci_get_oprombar_base :: "'h host_bridge \<Rightarrow> pci_dev \<Rightarrow> 'h \<Rightarrow> u64 \<times> 'h" where
  "pci_get_oprombar_base hb pdev h =
     (let (bar, h) = pci_read_config_dword hb pdev PCI_ROM_ADDRESS1 h
      in (ucast (bar AND NOT 0xf), h))"

definition pci_get_oprombar_size :: "'h host_bridge \<Rightarrow> pci_dev \<Rightarrow> 'h \<Rightarrow> u64 \<times> 'h" where
  "pci_get_oprombar_size hb pdev h =
     (let (ori_cmd_reg, h) = pci_read_config_word hb pdev PCI_COMMAND h;
          h = pci_write_config_word hb pdev PCI_COMMAND (ucast (ori_cmd_reg AND NOT 3)) h;
          (ori_bar, sz, h) = probe_register hb pdev
            (if d_type pdev AND 1 = 0 then PCI_ROM_ADDRESS else PCI_ROM_ADDRESS1) 0xfffff800 h;
          h = pci_write_config_word hb pdev PCI_COMMAND (ucast ori_cmd_reg) h;
          sz = sz AND NOT 0x8ff
      in (ucast (NOT sz + 1), h))"


section \<open>Enumeration and drivers\<close>

definition read_resource :: "'h host_bridge \<Rightarrow> nat \<Rightarrow> pci_dev \<times> 'h \<Rightarrow> pci_dev \<times> 'h" where
  "read_resource hb i = (\<lambda>(pdev, h).
     let (start, h) = pci_get_bar_base hb pdev i h;
         (sz, h) = pci_get_bar_size hb pdev i h;
         (flags, h) = pci_get_bar_type hb pdev i h
     in (pdev\<lparr>d_resource := (d_resource pdev)(i := \<lparr>r_start = start, r_end = start + sz - 1, r_flags = ucast flags\<rparr>)\<rparr>, h))"

definition read_oprom :: "'h host_bridge \<Rightarrow> nat \<Rightarrow> pci_dev \<times> 'h \<Rightarrow> pci_dev \<times> 'h" where
  "read_oprom hb i = (\<lambda>(pdev, h).
     let (start, h) = pci_get_oprombar_base hb pdev h;
         (sz, h) = pci_get_oprombar_size hb pdev h
     in (pdev\<lparr>d_resource := (d_resource pdev)(i := (d_resource pdev i)\<lparr>r_start := start, r_end := sz\<rparr>)\<rparr>, h))"

definition pci_device_init :: "'h host_bridge \<Rightarrow> pci_dev \<Rightarrow> 'h \<Rightarrow> pci_dev \<times> 'h" where
  "pci_device_init hb pdev h =
     (let pdev = pdev\<lparr>d_irq_list := []\<rparr>;
          (typ, h) = pci_read_config_byte hb pdev PCI_HEADER_TYPE h;
          (vid, h) = pci_read_config_word hb pdev PCI_VENDOR_ID h;
          (did, h) = pci_read_config_word hb pdev PCI_DEVICE_ID h;
          (class0, h) = pci_read_config_byte hb pdev PCI_CLASS_DEVICE h;
          (class1, h) = pci_read_config_byte hb pdev PCI_CLASS_PROG h;
          (class2, h) = pci_read_config_byte hb pdev PCI_CLASS_REVISION h;
          pdev = pdev\<lparr>d_class := ucast (push_bit 16 class0 OR push_bit 8 class1 OR class2),
                      d_viddid := push_bit 16 did OR vid, d_type := ucast (ucast typ :: u8)\<rparr>
      in if d_type pdev AND 1 = 0
         then read_oprom hb 6 (fold (read_resource hb) [0..<6] (pdev, h))
         else read_oprom hb 2 (fold (read_resource hb) [0..<2] (pdev, h)))"

text \<open>The device structure before it is initialised: its memory is not cleared.\<close>

definition fresh_dev :: "u8 \<Rightarrow> u8 \<Rightarrow> u8 \<Rightarrow> pci_dev \<Rightarrow> pci_dev" where
  "fresh_dev b d f old = old\<lparr>d_bus := b, d_device := d, d_fun := f, d_irq_list := []\<rparr>"

definition scan_function :: "'h host_bridge \<Rightarrow> u8 \<Rightarrow> u8 \<Rightarrow> u8 \<Rightarrow> 'h pci \<Rightarrow> 'h pci option" where
  "scan_function hb b d f s =
     (let pdev_test = fresh_dev b d f (p_dev s 0);
          (vendor_id, h) = pci_read_config_word hb pdev_test PCI_VENDOR_ID (p_hw s);
          (device_id, h) = pci_read_config_word hb pdev_test PCI_DEVICE_ID h;
          s = s\<lparr>p_hw := h\<rparr>
      in if vendor_id \<noteq> 0xffff \<and> device_id \<noteq> 0xffff then do {
           (pdev, s) \<leftarrow> pci_kmalloc SIZEOF_PCI_DEV s;
           if pdev = 0 then None
           else let (dev, h) = pci_device_init hb (fresh_dev b d f (p_dev s pdev)) (p_hw s)
                in Some (s\<lparr>p_hw := h, p_dev := (p_dev s)(pdev := dev), p_devices := p_devices s @ [pdev]\<rparr>)
         } else Some s)"

text \<open>The three loops as one over the triples in the order the loops visit them. The bus number is
  stored into eight bits.\<close>

definition scan_order :: "nat \<Rightarrow> (u8 \<times> u8 \<times> u8) list" where
  "scan_order end_bus = concat (map (\<lambda>b. concat (map (\<lambda>d. map (\<lambda>f.
     (of_nat b, of_nat d, of_nat f)) [0..<8]) [0..<32])) [0..<Suc end_bus])"

fun scan_all :: "'h host_bridge \<Rightarrow> (u8 \<times> u8 \<times> u8) list \<Rightarrow> 'h pci \<Rightarrow> 'h pci option" where
  "scan_all hb [] s = Some s"
| "scan_all hb ((b, d, f) # as) s = do { s \<leftarrow> scan_function hb b d f s; scan_all hb as s }"

definition pci_scan :: "'h host_bridge \<Rightarrow> 'h pci \<Rightarrow> 'h pci option" where
  "pci_scan hb s = scan_all hb (scan_order (unat (end_bus_number hb))) (s\<lparr>p_devices := [], p_drivers := []\<rparr>)"

definition register_pci_device :: "u64 \<Rightarrow> 'h pci \<Rightarrow> 'h pci" where
  "register_pci_device pdev s = s\<lparr>p_devices := p_devices s @ [pdev]\<rparr>"

text \<open>A driver's table has 64 entries, the unused ones 0. The callback runs once per matching entry;
  the loops go over the list of devices as it stands when they begin.\<close>

fun probe_ids ::
    "(u64 \<Rightarrow> u64 \<Rightarrow> 'h pci \<Rightarrow> (int \<times> 'h pci) option) \<Rightarrow> u64 \<Rightarrow> u64 \<Rightarrow> u32 list \<Rightarrow> int \<Rightarrow> 'h pci \<Rightarrow>
      (int \<times> 'h pci) option" where
  "probe_ids probe driver pdev [] ret s = Some (ret, s)"
| "probe_ids probe driver pdev (i # ids) ret s =
     (if d_viddid (p_dev s pdev) = i then do {
        (ret, s) \<leftarrow> probe driver pdev s;
        probe_ids probe driver pdev ids ret s
      } else probe_ids probe driver pdev ids ret s)"

fun probe_devices ::
    "(u64 \<Rightarrow> u64 \<Rightarrow> 'h pci \<Rightarrow> (int \<times> 'h pci) option) \<Rightarrow> u64 \<Rightarrow> u64 list \<Rightarrow> int \<Rightarrow> 'h pci \<Rightarrow>
      (int \<times> 'h pci) option" where
  "probe_devices probe driver [] ret s = Some (ret, s)"
| "probe_devices probe driver (pdev # ds) ret s = do {
     (ret, s) \<leftarrow> probe_ids probe driver pdev (p_ids s driver) ret s;
     probe_devices probe driver ds ret s
   }"

definition pci_register_driver ::
    "(u64 \<Rightarrow> u64 \<Rightarrow> 'h pci \<Rightarrow> (int \<times> 'h pci) option) \<Rightarrow> u64 \<Rightarrow> 'h pci \<Rightarrow> (int \<times> 'h pci) option" where
  "pci_register_driver probe driver s =
     (let s = s\<lparr>p_drivers := p_drivers s @ [driver]\<rparr>
      in probe_devices probe driver (p_devices s) (- 1) s)"

definition pci_unregister_driver ::
    "(u64 \<Rightarrow> 'h pci \<Rightarrow> 'h pci option) \<Rightarrow> u64 \<Rightarrow> 'h pci \<Rightarrow> 'h pci option" where
  "pci_unregister_driver pci_remove driver s = do {
     (ret, s) \<leftarrow> probe_devices (\<lambda>driver pdev s. map_option (Pair 0) (pci_remove pdev s)) driver (p_devices s) 0 s;
     Some (s\<lparr>p_drivers := remove1 driver (p_drivers s)\<rparr>)
   }"

section \<open>Access methods of the PC\<close>

text \<open>\<open>outp\<close> and \<open>inp\<close> are the port instructions of \<^verbatim>\<open>in_out.h\<close>, \<open>mwr\<close> and \<open>mrd\<close> stores and
  loads at a virtual address; all take the width in bytes.\<close>

definition X86_PCI_PIO_ADDR :: "u8 \<Rightarrow> u8 \<Rightarrow> u8 \<Rightarrow> u32 \<Rightarrow> u32" where
  "X86_PCI_PIO_ADDR b d f off =
     0x80000000 OR push_bit 16 (ucast b) OR push_bit 11 (ucast d) OR push_bit 8 (ucast f) OR (off AND NOT 3)"

definition x86_pci_read_config_pio ::
    "(nat \<Rightarrow> u64 \<Rightarrow> u32 \<Rightarrow> 'h \<Rightarrow> 'h) \<Rightarrow> (nat \<Rightarrow> u64 \<Rightarrow> 'h \<Rightarrow> u32 \<times> 'h) \<Rightarrow> pci_dev \<Rightarrow> u32 \<Rightarrow> nat \<Rightarrow> 'h \<Rightarrow> u32 \<times> 'h" where
  "x86_pci_read_config_pio outp inp pdev off len h =
     (let h = outp 4 0xcf8 (X86_PCI_PIO_ADDR (d_bus pdev) (d_device pdev) (d_fun pdev) off) h
      in if len = 4 then inp 4 0xcfc h
         else if len = 2 then inp 2 (0xcfc + ucast (off AND 2)) h
         else inp 1 (0xcfc + ucast (off AND 3)) h)"

definition x86_pci_write_config_pio ::
    "(nat \<Rightarrow> u64 \<Rightarrow> u32 \<Rightarrow> 'h \<Rightarrow> 'h) \<Rightarrow> pci_dev \<Rightarrow> u32 \<Rightarrow> u32 \<Rightarrow> nat \<Rightarrow> 'h \<Rightarrow> 'h" where
  "x86_pci_write_config_pio outp pdev off v len h =
     (let h = outp 4 0xcf8 (X86_PCI_PIO_ADDR (d_bus pdev) (d_device pdev) (d_fun pdev) off) h
      in if len = 4 then outp 4 0xcfc v h
         else if len = 2 then outp 2 (0xcfc + ucast (off AND 2)) v h
         else outp 1 (0xcfc + ucast (off AND 3)) v h)"

definition X86_PCI_MMIO_ADDR :: "u64 \<Rightarrow> u8 \<Rightarrow> u8 \<Rightarrow> u8 \<Rightarrow> u32 \<Rightarrow> u64" where
  "X86_PCI_MMIO_ADDR base b d f off = PHYS2VIRT base +
     scast (push_bit 20 (ucast b) OR push_bit 15 (ucast d) OR push_bit 12 (ucast f) OR off)"

definition x86_pci_read_config_mmio ::
    "u64 \<Rightarrow> (nat \<Rightarrow> u64 \<Rightarrow> 'h \<Rightarrow> u32 \<times> 'h) \<Rightarrow> pci_dev \<Rightarrow> u32 \<Rightarrow> nat \<Rightarrow> 'h \<Rightarrow> u32 \<times> 'h" where
  "x86_pci_read_config_mmio base mrd pdev off len h =
     (let addr = X86_PCI_MMIO_ADDR base (d_bus pdev) (d_device pdev) (d_fun pdev) off
      in if len = 4 then mrd 4 addr h else if len = 2 then mrd 2 addr h else mrd 1 addr h)"

definition x86_pci_write_config_mmio ::
    "u64 \<Rightarrow> (nat \<Rightarrow> u64 \<Rightarrow> u32 \<Rightarrow> 'h \<Rightarrow> 'h) \<Rightarrow> pci_dev \<Rightarrow> u32 \<Rightarrow> u32 \<Rightarrow> nat \<Rightarrow> 'h \<Rightarrow> 'h" where
  "x86_pci_write_config_mmio base mwr pdev off v len h =
     (let addr = X86_PCI_MMIO_ADDR base (d_bus pdev) (d_device pdev) (d_fun pdev) off
      in if len = 4 then mwr 4 addr v h else if len = 2 then mwr 2 addr v h else mwr 1 addr v h)"

text \<open>The table \<^verbatim>\<open>MCFG\<close> describes the configuration window; its first entry is used, 44 bytes into
  the table. Without it the ports are used, and six buses.\<close>

definition x86_pci_hostbridge_init ::
    "(nat \<Rightarrow> u64 \<Rightarrow> u32 \<Rightarrow> 'h \<Rightarrow> 'h) \<Rightarrow> (nat \<Rightarrow> u64 \<Rightarrow> 'h \<Rightarrow> u32 \<times> 'h) \<Rightarrow>
     (nat \<Rightarrow> u64 \<Rightarrow> u32 \<Rightarrow> 'h \<Rightarrow> 'h) \<Rightarrow> (nat \<Rightarrow> u64 \<Rightarrow> 'h \<Rightarrow> u32 \<times> 'h) \<Rightarrow>
     u64 \<Rightarrow> u64 \<Rightarrow> u64 \<Rightarrow> mem \<Rightarrow> 'h host_bridge" where
  "x86_pci_hostbridge_init outp inp mwr mrd rsd_ptr name acpi_rsdp m =
     (let mcfg = acpi_get_desc rsd_ptr name acpi_rsdp m in
      if mcfg = 0 then
        \<lparr>segment_number = 0, start_bus_number = 0, end_bus_number = 5, rc_mmio_base = 0,
         pci_read_config = x86_pci_read_config_pio outp inp,
         pci_write_config = x86_pci_write_config_pio outp\<rparr>
      else let base = load_le 8 m (mcfg + 44) in
        \<lparr>segment_number = ucast (load_le 2 m (mcfg + 52)), start_bus_number = ucast (m (mcfg + 54)),
         end_bus_number = ucast (m (mcfg + 55)), rc_mmio_base = base,
         pci_read_config = x86_pci_read_config_mmio base mrd,
         pci_write_config = x86_pci_write_config_mmio base mwr\<rparr>)"


section \<open>The contract of configuration space\<close>

type_synonym bdf = "u8 \<times> u8 \<times> u8"

definition bdf :: "pci_dev \<Rightarrow> bdf" where
  "bdf d = (d_bus d, d_device d, d_fun d)"

definition dev_ok :: "pci_dev \<Rightarrow> bool" where
  "dev_ok d \<longleftrightarrow> d_device d < 32 \<and> d_fun d < 8"

text \<open>An access of 1, 2 or 4 bytes to the first 256 bytes that does not cross its own width, the bits
  of the register it touches, and the register after a write: only bits of the mask \<open>w\<close> change.\<close>

definition cfg_access :: "u32 \<Rightarrow> nat \<Rightarrow> bool" where
  "cfg_access off len \<longleftrightarrow> len \<in> {1, 2, 4} \<and> unat off mod len = 0 \<and> unat off < 256"

definition lane_shift :: "u32 \<Rightarrow> nat" where "lane_shift off = 8 * (unat off mod 4)"

definition reg_merge :: "u32 \<Rightarrow> u32 \<Rightarrow> nat \<Rightarrow> u32 \<Rightarrow> u32 \<Rightarrow> u32" where
  "reg_merge w off len v old =
     (old AND NOT (push_bit (lane_shift off) (mask (8 * len)) AND w)) OR
     (push_bit (lane_shift off) v AND (push_bit (lane_shift off) (mask (8 * len)) AND w))"

text \<open>A memory region of \<^verbatim>\<open>2 ^ n\<close> bytes: what its register, or for a 64-bit region its two
  registers, hold and which bits of them can be written. Below the address only the four type bits
  read as something else than 0. A register without a writable bit, which belongs to no region, is
  the case of a 32-bit region with \<^verbatim>\<open>n = 32\<close>.\<close>

definition mem_bar :: "nat \<Rightarrow> u32 \<Rightarrow> u32 \<Rightarrow> u32 \<Rightarrow> u32 \<Rightarrow> bool" where
  "mem_bar n lo hi wlo whi \<longleftrightarrow> 4 \<le> n \<and> n < 64 \<and> lo AND 1 = 0 \<and> lo AND NOT wlo < 16 \<and>
     wlo = ucast (NOT (mask n :: u64)) \<and>
     (if lo AND 4 = 0 then n \<le> 32 else whi = ucast (drop_bit 32 (NOT (mask n :: u64))) \<and> hi AND NOT whi = 0)"

lemma bit_less_16:
  assumes "(x :: 'a::len word) < 2 ^ 4" "bit x k"
  shows "k < 4"
proof -
  have "bit (x AND mask 4) k" using assms(2) less_mask_eq [OF assms(1)] by simp
  then show ?thesis unfolding bit_and_iff bit_mask_iff by simp
qed

text \<open>The arithmetic behind the size: the bits that can be written are those of the address.\<close>

lemma bar_size_bits:
  fixes lo hi wlo whi :: u32
  assumes "mem_bar n lo hi wlo whi"
  defines "slo \<equiv> ((lo AND NOT wlo) OR (0xffffffff AND wlo)) AND NOT 0xf"
    and "shi \<equiv> (if lo AND 4 \<noteq> 0 then (hi AND NOT whi) OR (0xffffffff AND whi) else 0xffffffff)"
  shows "NOT ((ucast slo OR push_bit 32 (ucast shi)) AND NOT 0xf) + 1 = (2 ^ n :: u64)"
proof -
  note b = assms(1) [unfolded mem_bar_def]
  have if_else: "\<not> P \<Longrightarrow> (if P then A else B) \<Longrightarrow> B" for P A B by simp
  have low: "bit (lo AND NOT wlo) k \<Longrightarrow> k < 4" for k
  proof -
    have "lo AND NOT wlo < 2 ^ 4" using conjunct1 [OF conjunct2 [OF conjunct2 [OF conjunct2 [OF b]]]] by simp
    then show "bit (lo AND NOT wlo) k \<Longrightarrow> k < 4" by (rule bit_less_16)
  qed
  have ones: "(0xffffffff :: u32) = mask 32" "(0xf :: u32) = mask 4" "(0xf :: u64) = mask 4"
    by (simp_all add: mask_eq_exp_minus_1)
  have slo: "bit slo k \<longleftrightarrow> n \<le> k \<and> k < 32" for k
    using low [of k] b by (auto simp: slo_def ones bit_simps)
  have shi: "bit shi k \<longleftrightarrow> n \<le> k + 32 \<and> k < 32" for k
  proof (cases "lo AND 4 = 0")
    case False
    then have c: "whi = ucast (drop_bit 32 (NOT (mask n :: u64))) \<and> hi AND NOT whi = 0"
      by (rule if_else [OF _ conjunct2 [OF conjunct2 [OF conjunct2 [OF conjunct2 [OF conjunct2 [OF b]]]]]])
    note whi = conjunct1 [OF c]
    then have "shi = mask 32 AND whi" using False using conjunct2 [OF c] by (simp add: shi_def ones)
    then show ?thesis by (auto simp: whi bit_simps)
  qed (use b in \<open>auto simp: shi_def ones bit_simps\<close>)
  have "(ucast slo OR push_bit 32 (ucast shi)) AND NOT 0xf = (NOT (mask n) :: u64)"
  proof (rule bit_word_eqI)
    fix k assume "k < LENGTH(64)"
    then show "bit ((ucast slo OR push_bit 32 (ucast shi)) AND NOT 0xf :: u64) k \<longleftrightarrow> bit (NOT (mask n) :: u64) k"
      using b by (auto simp: ones bit_simps slo shi)
  qed
  then show ?thesis by (simp add: mask_eq_exp_minus_1)
qed

locale config_space =
  fixes hb :: "'h host_bridge"
    and reg :: "'h \<Rightarrow> bdf \<Rightarrow> nat \<Rightarrow> u32"
    and wm :: "bdf \<Rightarrow> nat \<Rightarrow> u32"
  assumes read_value: "dev_ok d \<Longrightarrow> cfg_access off len \<Longrightarrow> fst (pci_read_config hb d off len h) =
      drop_bit (lane_shift off) (reg h (bdf d) (unat off div 4)) AND mask (8 * len)"
    and read_reg: "dev_ok d \<Longrightarrow> cfg_access off len \<Longrightarrow> reg (snd (pci_read_config hb d off len h)) = reg h"
    and write_reg: "dev_ok d \<Longrightarrow> cfg_access off len \<Longrightarrow> reg (pci_write_config hb d off v len h) =
      (reg h)(bdf d := (reg h (bdf d))(unat off div 4 :=
        reg_merge (wm (bdf d) (unat off div 4)) off len v (reg h (bdf d) (unat off div 4))))"
begin

lemma dword_access: "bar \<le> 6 \<Longrightarrow> cfg_access (PCI_BASE_ADDRESS_0 + of_nat bar * 4) 4 \<and>
    unat (PCI_BASE_ADDRESS_0 + of_nat bar * 4) = 16 + 4 * bar"
proof -
  assume b: "bar \<le> 6"
  have "PCI_BASE_ADDRESS_0 + of_nat bar * 4 = (of_nat (16 + 4 * bar) :: u32)"
    by (simp add: pci_consts)
  moreover have "unat (of_nat (16 + 4 * bar) :: u32) = 16 + 4 * bar"
    unfolding unat_of_nat using b by simp
  ultimately have u: "unat (PCI_BASE_ADDRESS_0 + of_nat bar * 4) = 16 + 4 * bar" by (simp only:)
  moreover have "(16 + 4 * bar) mod 4 = 0" by presburger
  ultimately show ?thesis using b by (simp add: cfg_access_def)
qed

lemma command_access: "cfg_access PCI_COMMAND 2" "unat PCI_COMMAND div 4 = 1" "lane_shift PCI_COMMAND = 0"
  by (simp_all add: cfg_access_def pci_consts lane_shift_def)

lemma shift_dword: "cfg_access off 4 \<Longrightarrow> lane_shift off = 0"
  by (simp add: cfg_access_def lane_shift_def)

text \<open>Probing a register gives its value and the mask of its writable bits, with what the others
  read as, and leaves it as it was.\<close>

lemma probe_register_spec:
  assumes "dev_ok d" "cfg_access off 4"
  defines "k \<equiv> unat off div 4"
  shows "fst (probe_register hb d off ones h) = reg h (bdf d) k"
    and "fst (snd (probe_register hb d off ones h)) =
      (reg h (bdf d) k AND NOT (wm (bdf d) k)) OR (ones AND wm (bdf d) k)"
    and "reg (snd (snd (probe_register hb d off ones h))) = reg h"
proof -
  have m: "(x :: u32) AND mask 32 = x" for x by (rule bit_word_eqI) (simp add: bit_simps)
  note s = shift_dword [OF assms(2)]
  have merge: "reg_merge w off 4 v old = (old AND NOT w) OR (v AND w)" for w v old
    by (rule bit_word_eqI) (auto simp: reg_merge_def s bit_simps)
  have undo: "(((r AND NOT w) OR (v AND w)) AND NOT w) OR (r AND w) = (r :: u32)" for r v w
    by (rule bit_word_eqI) (auto simp: bit_simps)
  note d = probe_register_def config_access_defs Let_def split_def
    read_value [OF assms(1,2)] read_reg [OF assms(1,2)] write_reg [OF assms(1,2)] s merge m
  show "fst (probe_register hb d off ones h) = reg h (bdf d) k"
    by (simp add: d k_def)
  show "fst (snd (probe_register hb d off ones h)) =
      (reg h (bdf d) k AND NOT (wm (bdf d) k)) OR (ones AND wm (bdf d) k)"
    by (simp add: d k_def)
  show "reg (snd (snd (probe_register hb d off ones h))) = reg h"
    by (simp add: d k_def undo)
qed

text \<open>Switching decoding off and on again restores the command register and does not touch the
  status register, which shares the 32 bits.\<close>

lemma command_restore:
  assumes "dev_ok d" "reg h1 = (reg h)(bdf d := (reg h (bdf d))(1 :=
      reg_merge (wm (bdf d) 1) PCI_COMMAND 2 v (reg h (bdf d) 1)))"
  shows "reg (pci_write_config hb d PCI_COMMAND (ucast (ucast (fst (pci_read_config hb d PCI_COMMAND 2 h)) :: u16)) 2 h1) = reg h"
proof -
  let ?r = "reg h (bdf d) 1" and ?w = "wm (bdf d) 1"
  have "(((r AND NOT (m AND w)) OR (v AND (m AND w))) AND NOT (m AND w)) OR ((r AND m) AND (m AND w)) = (r :: u32)"
    for r v m w by (rule bit_word_eqI) (auto simp: bit_simps)
  moreover have "ucast (ucast (r AND mask (8 * 2) :: u32) :: u16) = r AND mask (8 * 2)" for r :: u32
    by (rule bit_word_eqI) (auto simp: bit_simps)
  ultimately show ?thesis
    by (simp add: read_value [OF assms(1) command_access(1)] write_reg [OF assms(1) command_access(1)]
        assms(2) command_access(2,3) reg_merge_def)
qed

lemma bar_size:
  assumes "dev_ok d" "bar \<le> 5"
    and "mem_bar n (reg h (bdf d) (4 + bar)) (reg h (bdf d) (5 + bar)) (wm (bdf d) (4 + bar)) (wm (bdf d) (5 + bar))"
  shows "fst (pci_get_bar_size hb d bar h) = 2 ^ n \<and> reg (snd (pci_get_bar_size hb d bar h)) = reg h"
proof -
  define h1 where "h1 = snd (pci_read_config hb d PCI_COMMAND 2 h)"
  define c where "c = fst (pci_read_config hb d PCI_COMMAND 2 h)"
  define h2 where "h2 = pci_write_config hb d PCI_COMMAND (ucast (ucast (c AND NOT 3) :: u16)) 2 h1"
  define p1 where "p1 = probe_register hb d (PCI_BASE_ADDRESS_0 + of_nat bar * 4) 0xffffffff h2"
  define h3 where "h3 = snd (snd p1)"
  define p2 where "p2 = probe_register hb d (PCI_BASE_ADDRESS_0 + (of_nat bar + 1) * 4) 0xffffffff h3"
  define h4 where "h4 = (if fst p1 AND 4 \<noteq> 0 then snd (snd p2) else h3)"
  define shi where "shi = (if fst p1 AND 4 \<noteq> 0 then fst (snd p2) else 0xffffffff)"
  let ?b = "bdf d"
  have h1: "reg h1 = reg h" by (simp add: h1_def read_reg [OF assms(1) command_access(1)])
  have h2: "reg h2 = (reg h)(?b := (reg h ?b)(1 :=
      reg_merge (wm ?b 1) PCI_COMMAND 2 (ucast (ucast (c AND NOT 3) :: u16)) (reg h ?b 1)))"
    by (simp add: h2_def write_reg [OF assms(1) command_access(1)] command_access(2) h1)
  have other: "reg h2 ?b (4 + k) = reg h ?b (4 + k)" "reg h2 ?b (5 + k) = reg h ?b (5 + k)" for k by (simp_all add: h2)
  have a1: "cfg_access (PCI_BASE_ADDRESS_0 + of_nat bar * 4) 4"
    "unat (PCI_BASE_ADDRESS_0 + of_nat bar * 4) div 4 = 4 + bar"
    using dword_access [of bar] assms(2) by simp_all
  have a2: "cfg_access (PCI_BASE_ADDRESS_0 + (of_nat bar + 1) * 4) 4"
    "unat (PCI_BASE_ADDRESS_0 + (of_nat bar + 1) * 4) div 4 = 5 + bar"
    using dword_access [of "Suc bar"] assms(2) by (simp_all add: add.commute)
  note s1 = probe_register_spec [OF assms(1) a1(1), of "0xffffffff" h2, folded p1_def, unfolded a1(2), folded h3_def, unfolded other]
  note s2 = probe_register_spec [OF assms(1) a2(1), of "0xffffffff" h3, folded p2_def, unfolded a2(2) s1(3), unfolded other]
  have h4: "reg h4 = reg h2" using s1 s2 by (simp add: h4_def)
  have io: "fst p1 AND PCI_BASE_ADDRESS_SPACE_IO = 0" using assms(3) s1(1) by (simp add: mem_bar_def pci_consts)
  have eq: "pci_get_bar_size hb d bar h =
    (NOT ((ucast (fst (snd p1) AND NOT 0xf) OR push_bit 32 (ucast shi)) AND NOT 0xf) + 1,
     pci_write_config hb d PCI_COMMAND (ucast (ucast c :: u16)) 2 h4)"
    unfolding pci_get_bar_size_def config_access_defs Let_def split_def h1_def [symmetric] c_def [symmetric]
      h2_def [symmetric] p1_def [symmetric] h3_def [symmetric] p2_def [symmetric]
    by (simp add: io shi_def h4_def)
  have "reg (pci_write_config hb d PCI_COMMAND (ucast (ucast c :: u16)) 2 h4) = reg h"
    unfolding c_def by (rule command_restore [OF assms(1)]) (use h2 h4 in simp)
  moreover have "shi = (if reg h ?b (4 + bar) AND 4 \<noteq> 0
      then (reg h ?b (5 + bar) AND NOT (wm ?b (5 + bar))) OR (0xffffffff AND wm ?b (5 + bar)) else 0xffffffff)"
    by (simp only: shi_def s1(1) s2(2))
  ultimately show ?thesis
    unfolding eq using bar_size_bits [OF assms(3)] by (simp only: fst_conv snd_conv s1(2) simp_thms)
qed

end


section \<open>The hardware of a PC\<close>

text \<open>Configuration space behind the ports 0xcf8 and 0xcfc to 0xcff, as the PCI specification
  describes the first configuration mechanism, and behind the memory window of the extended one: the
  latch keeps the last address written to 0xcf8, and an access to the data ports or the window goes
  to the register the address selects.\<close>

record pc_hw =
  latch :: u32
  creg :: "bdf \<Rightarrow> nat \<Rightarrow> u32"

definition put_reg :: "(bdf \<Rightarrow> nat \<Rightarrow> u32) \<Rightarrow> bdf \<Rightarrow> nat \<Rightarrow> u32 \<Rightarrow> nat \<Rightarrow> u32 \<Rightarrow> pc_hw \<Rightarrow> pc_hw" where
  "put_reg wm a k off len v h = h\<lparr>creg := (creg h)(a := (creg h a)(k := reg_merge (wm a k) off len v (creg h a k)))\<rparr>"

definition get_reg :: "bdf \<Rightarrow> nat \<Rightarrow> u32 \<Rightarrow> nat \<Rightarrow> pc_hw \<Rightarrow> u32" where
  "get_reg a k off len h = drop_bit (lane_shift off) (creg h a k) AND mask (8 * len)"

definition latch_bdf :: "u32 \<Rightarrow> bdf" where
  "latch_bdf a = (ucast (drop_bit 16 a), ucast (drop_bit 11 a AND 31), ucast (drop_bit 8 a AND 7))"

definition latch_reg :: "u32 \<Rightarrow> nat" where
  "latch_reg a = unat (drop_bit 2 a AND 0x3f)"

definition pc_out :: "(bdf \<Rightarrow> nat \<Rightarrow> u32) \<Rightarrow> nat \<Rightarrow> u64 \<Rightarrow> u32 \<Rightarrow> pc_hw \<Rightarrow> pc_hw" where
  "pc_out wm len port v h =
     (if port = 0xcf8 then if len = 4 then h\<lparr>latch := v\<rparr> else h
      else if port - 0xcfc < 4 \<and> bit (latch h) 31
      then put_reg wm (latch_bdf (latch h)) (latch_reg (latch h)) (ucast (port - 0xcfc)) len v h
      else h)"

definition pc_in :: "nat \<Rightarrow> u64 \<Rightarrow> pc_hw \<Rightarrow> u32 \<times> pc_hw" where
  "pc_in len port h =
     (if port - 0xcfc < 4 \<and> bit (latch h) 31
      then (get_reg (latch_bdf (latch h)) (latch_reg (latch h)) (ucast (port - 0xcfc)) len h, h)
      else (mask (8 * len), h))"

definition window_bdf :: "u64 \<Rightarrow> bdf" where
  "window_bdf a = (ucast (drop_bit 20 a), ucast (drop_bit 15 a AND 31), ucast (drop_bit 12 a AND 7))"

definition window_reg :: "u64 \<Rightarrow> nat" where
  "window_reg a = unat (drop_bit 2 a AND 0x3ff)"

definition ecam_rd :: "u64 \<Rightarrow> nat \<Rightarrow> u64 \<Rightarrow> pc_hw \<Rightarrow> u32 \<times> pc_hw" where
  "ecam_rd base len a h =
     (let rel = a - PHYS2VIRT base in (get_reg (window_bdf rel) (window_reg rel) (ucast (rel AND 3)) len h, h))"

definition ecam_wr :: "u64 \<Rightarrow> (bdf \<Rightarrow> nat \<Rightarrow> u32) \<Rightarrow> nat \<Rightarrow> u64 \<Rightarrow> u32 \<Rightarrow> pc_hw \<Rightarrow> pc_hw" where
  "ecam_wr base wm len a v h =
     (let rel = a - PHYS2VIRT base in put_reg wm (window_bdf rel) (window_reg rel) (ucast (rel AND 3)) len v h)"

lemma pio_bits:
  "bit (X86_PCI_PIO_ADDR b d f off) n \<longleftrightarrow> n < 32 \<and> (n = 31 \<or> 16 \<le> n \<and> bit b (n - 16) \<or>
     11 \<le> n \<and> bit d (n - 11) \<or> 8 \<le> n \<and> bit f (n - 8) \<or> bit off n \<and> 2 \<le> n)"
proof -
  have c: "(0x80000000 :: u32) = push_bit 31 1" "(3 :: u32) = mask 2"
    by (simp_all add: mask_eq_exp_minus_1 push_bit_eq_mult)
  show ?thesis
  proof (cases "n < 32")
    case True
    then show ?thesis
      unfolding X86_PCI_PIO_ADDR_def c
      by (simp only: bit_or_iff bit_and_iff bit_not_iff bit_push_bit_iff bit_mask_iff bit_ucast_iff bit_1_iff
          possible_bit_word len_of_numeral_defs not_less) auto
  qed (auto dest: bit_imp_le_length)
qed

lemma device_bits:
  assumes "dev_ok d"
  shows "5 \<le> n \<Longrightarrow> \<not> bit (d_device d) n" "3 \<le> n \<Longrightarrow> \<not> bit (d_fun d) n"
proof -
  have "d_device d AND mask 5 = d_device d" "d_fun d AND mask 3 = d_fun d"
    using assms by (auto simp: dev_ok_def intro!: less_mask_eq)
  then show "5 \<le> n \<Longrightarrow> \<not> bit (d_device d) n" "3 \<le> n \<Longrightarrow> \<not> bit (d_fun d) n"
    by (metis bit_and_iff bit_mask_iff not_less)+
qed

lemma offset_bits:
  assumes "cfg_access off len" "8 \<le> n"
  shows "\<not> bit off n"
proof -
  have "off AND mask 8 = off"
    using assms(1) by (auto simp: cfg_access_def word_less_nat_alt intro!: less_mask_eq)
  then show ?thesis using assms(2) by (metis bit_and_iff bit_mask_iff not_less)
qed

lemma pio_latch:
  assumes "dev_ok d" "cfg_access off len"
  shows "latch_bdf (X86_PCI_PIO_ADDR (d_bus d) (d_device d) (d_fun d) off) = bdf d"
    and "latch_reg (X86_PCI_PIO_ADDR (d_bus d) (d_device d) (d_fun d) off) = unat off div 4"
    and "bit (X86_PCI_PIO_ADDR (d_bus d) (d_device d) (d_fun d) off) 31"
proof -
  let ?a = "X86_PCI_PIO_ADDR (d_bus d) (d_device d) (d_fun d) off"
  have m: "(31 :: u32) = mask 5" "(7 :: u32) = mask 3" "(0x3f :: u32) = mask 6"
    by (simp_all add: mask_eq_exp_minus_1)
  note z = device_bits [OF assms(1)] offset_bits [OF assms(2)]
  show "bit ?a 31" by (simp add: pio_bits)
  have "bit (ucast (drop_bit 16 ?a) :: u8) n \<longleftrightarrow> bit (d_bus d) n" if "n < 8" for n
    using that by (simp add: bit_ucast_iff bit_drop_bit_eq pio_bits z)
  moreover have "bit (ucast (drop_bit 11 ?a AND mask 5) :: u8) n \<longleftrightarrow> bit (d_device d) n" if "n < 8" for n
    using that by (cases "n < 5") (simp_all add: bit_ucast_iff bit_drop_bit_eq bit_and_iff bit_mask_iff pio_bits z)
  moreover have "bit (ucast (drop_bit 8 ?a AND mask 3) :: u8) n \<longleftrightarrow> bit (d_fun d) n" if "n < 8" for n
    using that by (cases "n < 3") (simp_all add: bit_ucast_iff bit_drop_bit_eq bit_and_iff bit_mask_iff pio_bits z)
  ultimately show "latch_bdf ?a = bdf d"
    unfolding latch_bdf_def bdf_def m prod.inject by (intro conjI bit_word_eqI) simp_all
  have "bit (drop_bit 2 ?a AND mask 6) n \<longleftrightarrow> bit (drop_bit 2 off) n" if "n < 32" for n
    using that by (cases "n < 6") (simp_all add: bit_drop_bit_eq bit_and_iff bit_mask_iff pio_bits z)
  then have "drop_bit 2 ?a AND mask 6 = drop_bit 2 off" by (intro bit_word_eqI) simp
  then show "latch_reg ?a = unat off div 4" by (simp add: latch_reg_def m unat_drop_bit)
qed


lemma unat_ucast_64: "unat (ucast (w :: u32) :: u64) = unat w"
proof -
  have "unat w < 2 ^ LENGTH(32)" by (rule unsigned_less)
  then have "unat w < 2 ^ 64" by simp
  then show ?thesis by (simp add: unsigned_ucast_eq take_bit_nat_eq_self)
qed

lemma window_bits:
  assumes "dev_ok d" "cfg_access off len"
  shows "bit (X86_PCI_MMIO_ADDR base (d_bus d) (d_device d) (d_fun d) off - PHYS2VIRT base) n \<longleftrightarrow>
    20 \<le> n \<and> bit (d_bus d) (n - 20) \<or> 15 \<le> n \<and> bit (d_device d) (n - 15) \<or>
    12 \<le> n \<and> bit (d_fun d) (n - 12) \<or> bit off n"
proof -
  define w where "w = (push_bit 20 (ucast (d_bus d)) OR push_bit 15 (ucast (d_device d)) OR
    push_bit 12 (ucast (d_fun d)) OR off :: u32)"
  note z = device_bits [OF assms(1)] offset_bits [OF assms(2)]
  have bus: "8 \<le> k \<Longrightarrow> \<not> bit (d_bus d) k" for k using bit_imp_le_length [of "d_bus d" k] by auto
  have w: "bit w k \<longleftrightarrow> k < 32 \<and> (20 \<le> k \<and> bit (d_bus d) (k - 20) \<or> 15 \<le> k \<and> bit (d_device d) (k - 15) \<or>
      12 \<le> k \<and> bit (d_fun d) (k - 12) \<or> bit off k)" for k
    using bit_imp_le_length [of off k] by (auto simp: w_def bit_or_iff bit_push_bit_iff bit_ucast_iff)
  have low: "bit w k \<Longrightarrow> k < 28" for k by (rule ccontr) (simp add: w z bus)
  have "bit (scast w :: u64) n \<longleftrightarrow> bit w n"
    using low [of n] low [of 31] bit_imp_le_length [of w n]
    by (auto simp: bit_signed_iff min_def not_le)
  moreover have "(20 \<le> n \<and> bit (d_bus d) (n - 20) \<or> 15 \<le> n \<and> bit (d_device d) (n - 15) \<or>
      12 \<le> n \<and> bit (d_fun d) (n - 12) \<or> bit off n) \<Longrightarrow> n < 32"
    by (rule ccontr) (simp add: z bus)
  ultimately show ?thesis unfolding X86_PCI_MMIO_ADDR_def w_def [symmetric] by (auto simp: w)
qed

lemma window_decode:
  fixes base :: u64
  assumes "dev_ok d" "cfg_access off len"
  defines "rel \<equiv> X86_PCI_MMIO_ADDR base (d_bus d) (d_device d) (d_fun d) off - PHYS2VIRT base"
  shows "window_bdf rel = bdf d" "window_reg rel = unat off div 4" "ucast (rel AND 3) = off AND 3"
proof -
  have m: "(31 :: u64) = mask 5" "(7 :: u64) = mask 3" "(0x3ff :: u64) = mask 10" "(3 :: u64) = mask 2"
    "(3 :: u32) = mask 2" by (simp_all add: mask_eq_exp_minus_1)
  note z = device_bits [OF assms(1)] offset_bits [OF assms(2)]
  note b = window_bits [OF assms(1,2), of base, folded rel_def]
  note bs = bit_ucast_iff bit_drop_bit_eq bit_and_iff bit_mask_iff b z
  have "bit (ucast (drop_bit 20 rel) :: u8) n \<longleftrightarrow> bit (d_bus d) n" if "n < 8" for n
    using that by (simp add: bs)
  moreover have "bit (ucast (drop_bit 15 rel AND mask 5) :: u8) n \<longleftrightarrow> bit (d_device d) n" if "n < 8" for n
    using that by (cases "n < 5") (simp_all add: bs)
  moreover have "bit (ucast (drop_bit 12 rel AND mask 3) :: u8) n \<longleftrightarrow> bit (d_fun d) n" if "n < 8" for n
    using that by (cases "n < 3") (simp_all add: bs)
  ultimately show "window_bdf rel = bdf d"
    unfolding window_bdf_def bdf_def m prod.inject by (intro conjI bit_word_eqI) simp_all
  have "bit (drop_bit 2 rel AND mask 10) n \<longleftrightarrow> bit (ucast (drop_bit 2 off) :: u64) n" if "n < 64" for n
    using that by (cases "n < 6"; cases "n < 10") (simp_all add: bs)
  then have "drop_bit 2 rel AND mask 10 = ucast (drop_bit 2 off)" by (intro bit_word_eqI) simp
  then show "window_reg rel = unat off div 4" by (simp only: window_reg_def m unat_ucast_64 unat_drop_bit) simp
  have "bit (ucast (rel AND mask 2) :: u32) n \<longleftrightarrow> bit (off AND mask 2) n" if "n < 32" for n
    using that by (cases "n < 2") (simp_all add: bs)
  then show "ucast (rel AND 3) = off AND 3" unfolding m by (intro bit_word_eqI) simp
qed

lemma lane_low:
  assumes "cfg_access off len"
  shows "lane_shift (off AND 3) = lane_shift off" "len = 4 \<Longrightarrow> lane_shift off = 0"
    "len = 2 \<Longrightarrow> lane_shift (off AND 2) = lane_shift off"
proof -
  have m: "(3 :: u32) = mask 2" by (simp add: mask_eq_exp_minus_1)
  show l: "lane_shift (off AND 3) = lane_shift off" by (simp add: lane_shift_def m unat_and_mask)
  show "len = 4 \<Longrightarrow> lane_shift off = 0" using assms by (simp add: cfg_access_def lane_shift_def)
  show "lane_shift (off AND 2) = lane_shift off" if "len = 2"
  proof -
    have "even (unat off)" using assms that by (simp add: cfg_access_def even_iff_mod_2_eq_zero)
    then have "\<not> bit (unat off) 0" by (simp add: bit_0)
    then have "\<not> bit off 0" unfolding bit_unsigned_iff by simp
    have two: "(2 :: u32) = push_bit 1 1" by (simp add: push_bit_eq_mult)
    have "bit (off AND 2) n \<longleftrightarrow> bit (off AND 3) n" if "n < 32" for n
      using that \<open>\<not> bit off 0\<close> unfolding m two bit_and_iff bit_mask_iff bit_push_bit_iff bit_1_iff
      by (cases n) auto
    then have "off AND 2 = off AND 3" by (intro bit_word_eqI) simp
    then show ?thesis using l by simp
  qed
qed

lemma port_offset:
  assumes "w \<le> (3 :: u32)"
  shows "0xcfc + ucast w - 0xcfc < (4 :: u64)" "ucast (0xcfc + ucast w - 0xcfc :: u64) = w" "0xcfc + ucast w \<noteq> (0xcf8 :: u64)"
proof -
  have u: "unat (ucast w :: u64) = unat w" by (rule unat_ucast_64)
  have l: "unat w \<le> 3" using assms by (simp add: word_le_nat_alt)
  show "0xcfc + ucast w - 0xcfc < (4 :: u64)" using l u by (simp add: word_less_nat_alt)
  show "ucast (0xcfc + ucast w - 0xcfc :: u64) = w"
    by (rule bit_word_eqI) (simp add: bit_ucast_iff)
  have "(ucast w :: u64) \<noteq> - 4"
  proof
    assume "(ucast w :: u64) = - 4"
    then have "unat w = unat (- 4 :: u64)" using u by simp
    then show False using l by simp
  qed
  then show "0xcfc + ucast w \<noteq> (0xcf8 :: u64)" by (simp add: algebra_simps eq_diff_eq [symmetric])
qed

lemma and_small: "(off :: u32) AND 3 \<le> 3" "off AND 2 \<le> 3"
proof -
  have "(off AND 2) AND 3 = off AND 2" by (simp add: and.assoc)
  then show "off AND 3 \<le> 3" "off AND 2 \<le> 3" using word_and_le1 by metis+
qed


lemma merge_lane: "lane_shift o1 = lane_shift o2 \<Longrightarrow> reg_merge w o1 len v old = reg_merge w o2 len v old"
  by (simp add: reg_merge_def)

lemma pio_read:
  assumes "dev_ok d" "cfg_access off len"
  shows "fst (x86_pci_read_config_pio (pc_out wm) pc_in d off len h) =
      drop_bit (lane_shift off) (creg h (bdf d) (unat off div 4)) AND mask (8 * len)"
    and "creg (snd (x86_pci_read_config_pio (pc_out wm) pc_in d off len h)) = creg h"
proof -
  note l = pio_latch [OF assms] lane_low [OF assms(2)]
  have len: "len = 4 \<or> len = 2 \<or> len = 1" using assms(2) by (auto simp: cfg_access_def)
  show "fst (x86_pci_read_config_pio (pc_out wm) pc_in d off len h) =
      drop_bit (lane_shift off) (creg h (bdf d) (unat off div 4)) AND mask (8 * len)"
    using len port_offset [OF and_small(1) [of off]] port_offset [OF and_small(2) [of off]]
    by (auto simp: x86_pci_read_config_pio_def pc_out_def pc_in_def get_reg_def l Let_def lane_shift_def [of 0])
  show "creg (snd (x86_pci_read_config_pio (pc_out wm) pc_in d off len h)) = creg h"
    by (simp add: x86_pci_read_config_pio_def pc_out_def pc_in_def Let_def)
qed

lemma pio_write:
  assumes "dev_ok d" "cfg_access off len"
  shows "creg (x86_pci_write_config_pio (pc_out wm) d off v len h) =
    (creg h)(bdf d := (creg h (bdf d))(unat off div 4 :=
      reg_merge (wm (bdf d) (unat off div 4)) off len v (creg h (bdf d) (unat off div 4))))"
proof -
  note l = pio_latch [OF assms] lane_low [OF assms(2)]
  have len: "len = 4 \<or> len = 2 \<or> len = 1" using assms(2) by (auto simp: cfg_access_def)
  have z: "lane_shift 0 = 0" by (simp add: lane_shift_def)
  from len show ?thesis
  proof (elim disjE)
    assume "len = 4"
    then show ?thesis using merge_lane [of 0 off] l(5)
      by (simp add: x86_pci_write_config_pio_def pc_out_def put_reg_def l(1-3) Let_def z)
  next
    assume "len = 2"
    then show ?thesis using merge_lane [OF l(6)] port_offset [OF and_small(2) [of off]]
      by (simp add: x86_pci_write_config_pio_def pc_out_def put_reg_def l(1-3) Let_def)
  next
    assume "len = 1"
    then show ?thesis using merge_lane [OF l(4)] port_offset [OF and_small(1) [of off]]
      by (simp add: x86_pci_write_config_pio_def pc_out_def put_reg_def l(1-3) Let_def)
  qed
qed

lemma mmio_access:
  assumes "dev_ok d" "cfg_access off len"
  shows "x86_pci_read_config_mmio base (ecam_rd base) d off len h =
      (drop_bit (lane_shift off) (creg h (bdf d) (unat off div 4)) AND mask (8 * len), h)"
    and "creg (x86_pci_write_config_mmio base (ecam_wr base wm) d off v len h) =
      (creg h)(bdf d := (creg h (bdf d))(unat off div 4 :=
        reg_merge (wm (bdf d) (unat off div 4)) off len v (creg h (bdf d) (unat off div 4))))"
proof -
  have len: "len = 4 \<or> len = 2 \<or> len = 1" using assms(2) by (auto simp: cfg_access_def)
  note w = window_decode [OF assms] lane_low(1) [OF assms(2)] merge_lane [OF lane_low(1) [OF assms(2)]]
  show "x86_pci_read_config_mmio base (ecam_rd base) d off len h =
      (drop_bit (lane_shift off) (creg h (bdf d) (unat off div 4)) AND mask (8 * len), h)"
    using len by (auto simp: x86_pci_read_config_mmio_def ecam_rd_def get_reg_def Let_def w)
  show "creg (x86_pci_write_config_mmio base (ecam_wr base wm) d off v len h) =
      (creg h)(bdf d := (creg h (bdf d))(unat off div 4 :=
        reg_merge (wm (bdf d) (unat off div 4)) off len v (creg h (bdf d) (unat off div 4))))"
    using len by (auto simp: x86_pci_write_config_mmio_def ecam_wr_def put_reg_def Let_def w)
qed

text \<open>The host bridge that the kernel sets up on such a machine; the firmware's window is where the
  table says.\<close>

definition pc_bridge :: "(bdf \<Rightarrow> nat \<Rightarrow> u32) \<Rightarrow> u64 \<Rightarrow> u64 \<Rightarrow> u64 \<Rightarrow> mem \<Rightarrow> pc_hw host_bridge" where
  "pc_bridge wm rsd_ptr name acpi_rsdp m =
     (let base = load_le 8 m (acpi_get_desc rsd_ptr name acpi_rsdp m + 44)
      in x86_pci_hostbridge_init (pc_out wm) pc_in (ecam_wr base wm) (ecam_rd base) rsd_ptr name acpi_rsdp m)"

interpretation pc: config_space "pc_bridge wm rsd_ptr name acpi_rsdp m" creg wm
  for wm rsd_ptr name acpi_rsdp m
  by unfold_locales
    (simp_all add: pc_bridge_def x86_pci_hostbridge_init_def Let_def pio_read pio_write mmio_access)

text \<open>C15. On a PC, with or without a configuration window, \<^verbatim>\<open>pci_get_bar_size\<close> gives the size of
  every memory region of 16 bytes to \<^verbatim>\<open>2 ^ 63\<close>, 32-bit and 64-bit regions alike, and leaves all
  configuration registers as they were, the command and the status register included. For a register
  that is not implemented it reports 4GB instead of nothing.\<close>

theorem pci_bar_size_exact:
  assumes "dev_ok d" "bar \<le> 5"
    and "mem_bar n (creg h (bdf d) (4 + bar)) (creg h (bdf d) (5 + bar)) (wm (bdf d) (4 + bar)) (wm (bdf d) (5 + bar))"
  shows "fst (pci_get_bar_size (pc_bridge wm rsd_ptr name acpi_rsdp m) d bar h) = 2 ^ n \<and>
    creg (snd (pci_get_bar_size (pc_bridge wm rsd_ptr name acpi_rsdp m) d bar h)) = creg h"
  using assms by (rule pc.bar_size)

text \<open>Both access methods of the kernel reach the same registers in the first 256 bytes of every
  function: a read gives the same value, and a write leaves the same configuration space.\<close>

theorem pci_access_methods_agree:
  assumes "dev_ok d" "cfg_access off len"
  shows "fst (x86_pci_read_config_pio (pc_out wm) pc_in d off len h) =
      fst (x86_pci_read_config_mmio base (ecam_rd base) d off len h) \<and>
    creg (snd (x86_pci_read_config_pio (pc_out wm) pc_in d off len h)) = creg h \<and>
    creg (x86_pci_write_config_pio (pc_out wm) d off v len h) =
      creg (x86_pci_write_config_mmio base (ecam_wr base wm) d off v len h)"
  by (simp add: pio_read [OF assms] pio_write [OF assms] mmio_access [OF assms])


section \<open>Capabilities and enumeration on conforming hardware\<close>

definition reg_byte :: "(nat \<Rightarrow> u32) \<Rightarrow> u32 \<Rightarrow> u8" where
  "reg_byte r off = ucast (drop_bit (lane_shift off) (r (unat off div 4)))"

text \<open>The capabilities chained from offset \<open>p\<close>.\<close>

fun cap_list :: "(nat \<Rightarrow> u32) \<Rightarrow> u8 \<Rightarrow> u8 list \<Rightarrow> bool" where
  "cap_list r p [] \<longleftrightarrow> p = 0"
| "cap_list r p (q # qs) \<longleftrightarrow> p = q \<and> q \<noteq> 0 \<and> q \<noteq> 255 \<and> cap_list r (reg_byte r (ucast q + 1)) qs"

text \<open>A function answers when neither its vendor nor its device number is all ones.\<close>

definition responds :: "(bdf \<Rightarrow> nat \<Rightarrow> u32) \<Rightarrow> bdf \<Rightarrow> bool" where
  "responds r a \<longleftrightarrow> r a 0 AND 0xffff \<noteq> 0xffff \<and> drop_bit 16 (r a 0) \<noteq> 0xffff"

lemma byte_access: "unat off < 256 \<Longrightarrow> cfg_access off 1"
  by (simp add: cfg_access_def)

lemma unat_ucast_8_32: "unat (ucast (q :: u8) :: u32) = unat q" "unat q < 256"
proof -
  have "unat q < 2 ^ LENGTH(8)" by (rule unsigned_less)
  then show "unat q < 256" by simp
  then show "unat (ucast q :: u32) = unat q" by (simp add: unsigned_ucast_eq take_bit_nat_eq_self)
qed

context config_space
begin

lemma read_byte:
  assumes "dev_ok d" "unat off < 256"
  shows "ucast (fst (pci_read_config_byte hb d off h)) = reg_byte (reg h (bdf d)) off"
    and "reg (snd (pci_read_config_byte hb d off h)) = reg h"
proof -
  have "ucast (w AND mask 8 :: u32) = (ucast w :: u8)" for w
    by (rule bit_word_eqI) (auto simp: bit_simps)
  then show "ucast (fst (pci_read_config_byte hb d off h)) = reg_byte (reg h (bdf d)) off"
    by (simp add: pci_read_config_byte_def read_value [OF assms(1) byte_access [OF assms(2)], unfolded One_nat_def] reg_byte_def)
  show "reg (snd (pci_read_config_byte hb d off h)) = reg h"
    by (simp add: pci_read_config_byte_def read_reg [OF assms(1) byte_access [OF assms(2)], unfolded One_nat_def])
qed

lemma cap_walk:
  assumes "dev_ok d" "cap_list (reg h (bdf d)) p qs"
  shows "\<exists>h'. pci_cap_walk hb d i p h =
      Some (case find (\<lambda>q. reg_byte (reg h (bdf d)) (ucast q) = i) qs of None \<Rightarrow> 0 | Some q \<Rightarrow> q, h') \<and>
    reg h' = reg h"
  using assms(2)
proof (induction qs arbitrary: p h)
  case Nil
  then show ?case by (auto simp: pci_cap_walk.simps)
next
  case (Cons q qs)
  then have p: "p = q" "q \<noteq> 0" "q \<noteq> 255" and tail: "cap_list (reg h (bdf d)) (reg_byte (reg h (bdf d)) (ucast q + 1)) qs"
    by simp_all
  have "unat q \<noteq> 255"
  proof
    assume "unat q = 255"
    then have "unat q = unat (255 :: u8)" by simp
    then show False using p(3) by (simp only: word_unat_eq_iff)
  qed
  then have q: "unat (ucast q :: u32) < 256" "unat (ucast q + 1 :: u32) < 256"
    using unat_ucast_8_32 [of q] by (simp_all add: unat_word_ariths)
  note b = read_byte [OF assms(1)]
  define h1 where "h1 = snd (pci_read_config_byte hb d (ucast q) h)"
  define h2 where "h2 = snd (pci_read_config_byte hb d (ucast q + 1) h1)"
  have r: "reg h1 = reg h" "reg h2 = reg h" by (simp_all add: h1_def h2_def b q)
  have walk: "pci_cap_walk hb d i p h = (if reg_byte (reg h (bdf d)) (ucast q) = i then Some (q, h1)
      else pci_cap_walk hb d i (reg_byte (reg h (bdf d)) (ucast q + 1)) h2)"
    using p b(1) [OF q(1), of h] b(1) [OF q(2), of h1] r
    by (subst pci_cap_walk.simps) (simp add: Let_def split_def h1_def [symmetric] h2_def [symmetric])
  show ?case
  proof (cases "reg_byte (reg h (bdf d)) (ucast q) = i")
    case True
    then show ?thesis using walk r by simp
  next
    case False
    have "cap_list (reg h2 (bdf d)) (reg_byte (reg h (bdf d)) (ucast q + 1)) qs" using tail r by simp
    from Cons.IH [OF this] False walk r show ?thesis by simp
  qed
qed

lemma find_capability:
  assumes "dev_ok d" "cap_list (reg h (bdf d)) (reg_byte (reg h (bdf d)) 0x34) qs"
  shows "\<exists>h'. pci_find_capability hb d i h =
      Some (case find (\<lambda>q. reg_byte (reg h (bdf d)) (ucast q) = i) qs of None \<Rightarrow> 0 | Some q \<Rightarrow> q, h') \<and>
    reg h' = reg h"
proof -
  define h1 where "h1 = snd (pci_read_config_byte hb d PCI_CAPABILITY_LIST h)"
  have o: "unat PCI_CAPABILITY_LIST < 256" by (simp add: pci_consts)
  note b = read_byte [OF assms(1) o, of h]
  have r: "reg h1 = reg h" using b(2) by (simp add: h1_def)
  have "pci_find_capability hb d i h = pci_cap_walk hb d i (reg_byte (reg h (bdf d)) 0x34) h1"
    using b(1) by (simp add: pci_find_capability_def Let_def split_def h1_def pci_consts)
  moreover have "cap_list (reg h1 (bdf d)) (reg_byte (reg h (bdf d)) 0x34) qs" using assms(2) r by simp
  ultimately show ?thesis using cap_walk [OF assms(1), of h1] r by simp
qed

lemma pci_read_keeps:
  assumes "dev_ok d"
  shows "unat off < 256 \<Longrightarrow> reg (snd (pci_read_config_byte hb d off h)) = reg h"
    and "cfg_access off 2 \<Longrightarrow> reg (snd (pci_read_config_word hb d off h)) = reg h"
    and "cfg_access off 4 \<Longrightarrow> reg (snd (pci_read_config_dword hb d off h)) = reg h"
  using read_reg [OF assms byte_access] by (simp_all add: config_access_defs read_reg [OF assms])

lemma size_probe_keeps:
  assumes "dev_ok d"
    and "reg h1 = (reg h)(bdf d := (reg h (bdf d))(1 := reg_merge (wm (bdf d) 1) PCI_COMMAND 2
      (ucast (ucast (fst (pci_read_config_word hb d PCI_COMMAND h) AND NOT 3) :: u16)) (reg h (bdf d) 1)))"
  shows "reg (pci_write_config_word hb d PCI_COMMAND (ucast (fst (pci_read_config_word hb d PCI_COMMAND h))) h1) = reg h"
  using command_restore [OF assms] by (simp add: config_access_defs)

lemma command_off:
  assumes "dev_ok d"
  shows "reg (pci_write_config_word hb d PCI_COMMAND v (snd (pci_read_config_word hb d PCI_COMMAND h))) =
    (reg h)(bdf d := (reg h (bdf d))(1 := reg_merge (wm (bdf d) 1) PCI_COMMAND 2 (ucast v) (reg h (bdf d) 1)))"
  by (simp add: config_access_defs write_reg [OF assms command_access(1)] read_reg [OF assms command_access(1)]
      command_access(2))

lemma bar_keeps:
  assumes "dev_ok d" "bar \<le> 5"
  shows "reg (snd (pci_get_bar_base hb d bar h)) = reg h"
    and "reg (snd (pci_get_bar_type hb d bar h)) = reg h"
    and "reg (snd (pci_get_bar_size hb d bar h)) = reg h"
proof -
  have a1: "cfg_access (PCI_BASE_ADDRESS_0 + of_nat bar * 4) 4" using dword_access [of bar] assms(2) by simp
  have a2: "cfg_access (PCI_BASE_ADDRESS_0 + (of_nat bar + 1) * 4) 4"
    using dword_access [of "Suc bar"] assms(2) by (simp add: add.commute)
  define o1 where "o1 = PCI_BASE_ADDRESS_0 + of_nat bar * 4"
  define o2 where "o2 = PCI_BASE_ADDRESS_0 + (of_nat bar + 1) * 4"
  have e: "o1 + 4 = o2" by (simp add: o1_def o2_def algebra_simps)
  note f = o1_def [symmetric] o2_def [symmetric]
  note k = pci_read_keeps(3) [OF assms(1) a1] pci_read_keeps(3) [OF assms(1) a2]
    probe_register_spec(3) [OF assms(1) a1] probe_register_spec(3) [OF assms(1) a2]
  note k = k [unfolded f]
  show "reg (snd (pci_get_bar_base hb d bar h)) = reg h"
    unfolding pci_get_bar_base_def f by (simp add: Let_def split_def k e)
  show "reg (snd (pci_get_bar_type hb d bar h)) = reg h"
    unfolding pci_get_bar_type_def f by (simp add: Let_def split_def k)
  show "reg (snd (pci_get_bar_size hb d bar h)) = reg h"
    unfolding pci_get_bar_size_def f Let_def split_def snd_conv
    by (rule size_probe_keeps [OF assms(1)]) (simp add: k command_off [OF assms(1)])
qed

lemma oprom_keeps:
  assumes "dev_ok d"
  shows "reg (snd (pci_get_oprombar_base hb d h)) = reg h" "reg (snd (pci_get_oprombar_size hb d h)) = reg h"
proof -
  have a: "cfg_access PCI_ROM_ADDRESS 4" "cfg_access PCI_ROM_ADDRESS1 4" by (simp_all add: cfg_access_def pci_consts)
  show "reg (snd (pci_get_oprombar_base hb d h)) = reg h"
    by (simp add: pci_get_oprombar_base_def Let_def split_def pci_read_keeps(3) [OF assms a(2)])
  show "reg (snd (pci_get_oprombar_size hb d h)) = reg h"
    unfolding pci_get_oprombar_size_def Let_def split_def snd_conv
    by (rule size_probe_keeps [OF assms])
      (simp add: probe_register_spec(3) [OF assms a(1)] probe_register_spec(3) [OF assms a(2)] command_off [OF assms])
qed

end


text \<open>The addresses the allocator hands out for \<open>n\<close> device structures.\<close>

fun alloc_devs :: "nat \<Rightarrow> kstate \<Rightarrow> u64 list option" where
  "alloc_devs 0 k = Some []"
| "alloc_devs (Suc n) k = do {
     (v, k) \<leftarrow> ks_kmalloc SIZEOF_PCI_DEV k;
     vs \<leftarrow> alloc_devs n k;
     Some (v # vs)
   }"

lemma bdf_update [simp]:
  "bdf (d\<lparr>d_resource := r\<rparr>) = bdf d" "bdf (d\<lparr>d_irq_list := l\<rparr>) = bdf d"
  "bdf (d\<lparr>d_class := c\<rparr>) = bdf d" "bdf (d\<lparr>d_viddid := i\<rparr>) = bdf d" "bdf (d\<lparr>d_type := t\<rparr>) = bdf d"
  "bdf (fresh_dev b dv f old) = (b, dv, f)"
  by (simp_all add: bdf_def fresh_dev_def)

lemma dev_ok_bdf: "dev_ok d \<longleftrightarrow> fst (snd (bdf d)) < 32 \<and> snd (snd (bdf d)) < 8"
  by (simp add: dev_ok_def bdf_def)

context config_space
begin

lemma read_resource_keeps:
  assumes "dev_ok (fst p)" "i \<le> 5"
  shows "bdf (fst (read_resource hb i p)) = bdf (fst p) \<and> reg (snd (read_resource hb i p)) = reg (snd p)"
  using bar_keeps [OF assms] by (simp add: read_resource_def Let_def split_def)

lemma read_resources_keep:
  "dev_ok (fst p) \<Longrightarrow> \<forall>i \<in> set is. i \<le> 5 \<Longrightarrow>
    bdf (fst (fold (read_resource hb) is p)) = bdf (fst p) \<and> reg (snd (fold (read_resource hb) is p)) = reg (snd p)"
proof (induction "is" arbitrary: p)
  case (Cons i js)
  have k: "bdf (fst (read_resource hb i p)) = bdf (fst p) \<and> reg (snd (read_resource hb i p)) = reg (snd p)"
    by (rule read_resource_keeps) (use Cons.prems in simp_all)
  then have "dev_ok (fst (read_resource hb i p))" using Cons.prems(1) by (simp add: dev_ok_bdf)
  from Cons.IH [OF this] k Cons.prems(2) show ?case by simp
qed simp

lemma read_oprom_keeps:
  assumes "dev_ok (fst p)"
  shows "bdf (fst (read_oprom hb i p)) = bdf (fst p) \<and> reg (snd (read_oprom hb i p)) = reg (snd p)"
  using oprom_keeps [OF assms] by (simp add: read_oprom_def Let_def split_def)

lemma read_resources_oprom:
  assumes "dev_ok d" "\<forall>i \<in> set is. i \<le> 5"
  shows "bdf (fst (read_oprom hb k (fold (read_resource hb) is (d, h)))) = bdf d \<and>
    reg (snd (read_oprom hb k (fold (read_resource hb) is (d, h)))) = reg h"
proof -
  have "bdf (fst (fold (read_resource hb) is (d, h))) = bdf d \<and> reg (snd (fold (read_resource hb) is (d, h))) = reg h"
    using read_resources_keep [of "(d, h)" "is"] assms by simp
  moreover from this have "dev_ok (fst (fold (read_resource hb) is (d, h)))" using assms(1) by (simp add: dev_ok_bdf)
  ultimately show ?thesis using read_oprom_keeps [of "fold (read_resource hb) is (d, h)" k] by simp
qed

lemma device_init_keeps:
  assumes "dev_ok d"
  shows "bdf (fst (pci_device_init hb d h)) = bdf d \<and> reg (snd (pci_device_init hb d h)) = reg h"
proof -
  have a: "cfg_access PCI_VENDOR_ID 2" "cfg_access PCI_DEVICE_ID 2" "unat PCI_HEADER_TYPE < 256"
    "unat PCI_CLASS_DEVICE < 256" "unat PCI_CLASS_PROG < 256" "unat PCI_CLASS_REVISION < 256"
    by (simp_all add: cfg_access_def pci_consts)
  have ok: "dev_ok e" if "bdf e = bdf d" for e using assms that by (simp add: dev_ok_bdf)
  note k = pci_read_keeps(1) [OF ok a(3)] pci_read_keeps(1) [OF ok a(4)] pci_read_keeps(1) [OF ok a(5)]
    pci_read_keeps(1) [OF ok a(6)] pci_read_keeps(2) [OF ok a(1)] pci_read_keeps(2) [OF ok a(2)]
  have l: "\<forall>i \<in> set [0..<6]. i \<le> 5" "\<forall>i \<in> set [0..<2]. i \<le> (5 :: nat)" by auto
  note r = read_resources_oprom [OF ok l(1)] read_resources_oprom [OF ok l(2)]
  show ?thesis
    unfolding pci_device_init_def Let_def split_def
    by (simp only: if_split_eq1 fst_conv snd_conv r k bdf_update split: if_split) simp
qed

lemma responds_read:
  assumes "dev_ok d"
  shows "fst (pci_read_config_word hb d PCI_VENDOR_ID h) = reg h (bdf d) 0 AND 0xffff"
    and "fst (pci_read_config_word hb d PCI_DEVICE_ID h) = drop_bit 16 (reg h (bdf d) 0)"
    and "reg (snd (pci_read_config_word hb d PCI_VENDOR_ID h)) = reg h"
    and "reg (snd (pci_read_config_word hb d PCI_DEVICE_ID h)) = reg h"
proof -
  have a: "cfg_access PCI_VENDOR_ID 2" "cfg_access PCI_DEVICE_ID 2" by (simp_all add: cfg_access_def pci_consts)
  have m: "(0xffff :: u32) = mask 16" by (simp add: mask_eq_exp_minus_1)
  have "drop_bit 16 w AND mask 16 = drop_bit 16 w" for w :: u32
    by (rule bit_word_eqI) (use bit_imp_le_length [of w] in \<open>force simp: bit_simps\<close>)
  then show "fst (pci_read_config_word hb d PCI_DEVICE_ID h) = drop_bit 16 (reg h (bdf d) 0)"
    using read_value [OF assms a(2)] by (simp add: config_access_defs pci_consts lane_shift_def)
  show "fst (pci_read_config_word hb d PCI_VENDOR_ID h) = reg h (bdf d) 0 AND 0xffff"
    using read_value [OF assms a(1)] by (simp add: config_access_defs pci_consts lane_shift_def m)
qed (use pci_read_keeps(2) [OF assms] in \<open>simp_all add: cfg_access_def pci_consts\<close>)

lemma scan_function_step:
  assumes "d < 32" "f < 8"
  shows "\<exists>h. reg h = reg (p_hw s) \<and> scan_function hb b d f s =
    (if responds (reg (p_hw s)) (b, d, f) then do {
       (v, k) \<leftarrow> ks_kmalloc SIZEOF_PCI_DEV (p_ks s);
       if v = 0 then None
       else let r = pci_device_init hb (fresh_dev b d f (p_dev s v)) h
            in Some (s\<lparr>p_hw := snd r, p_ks := k, p_dev := (p_dev s)(v := fst r), p_devices := p_devices s @ [v]\<rparr>)
     } else Some (s\<lparr>p_hw := h\<rparr>))"
proof -
  have ok: "dev_ok (fresh_dev b d f old)" for old using assms by (simp add: dev_ok_bdf)
  define t where "t = fresh_dev b d f (p_dev s 0)"
  define h1 where "h1 = snd (pci_read_config_word hb t PCI_VENDOR_ID (p_hw s))"
  define h2 where "h2 = snd (pci_read_config_word hb t PCI_DEVICE_ID h1)"
  note r = responds_read [OF ok [of "p_dev s 0"], folded t_def]
  have t: "bdf t = (b, d, f)" by (simp add: t_def)
  have h: "reg h2 = reg (p_hw s)" "reg h1 = reg (p_hw s)" by (simp_all add: h2_def h1_def r)
  have "scan_function hb b d f s = (if responds (reg (p_hw s)) (b, d, f) then do {
       (v, k) \<leftarrow> ks_kmalloc SIZEOF_PCI_DEV (p_ks s);
       if v = 0 then None
       else let r = pci_device_init hb (fresh_dev b d f (p_dev s v)) h2
            in Some (s\<lparr>p_hw := snd r, p_ks := k, p_dev := (p_dev s)(v := fst r), p_devices := p_devices s @ [v]\<rparr>)
     } else Some (s\<lparr>p_hw := h2\<rparr>))"
    unfolding scan_function_def Let_def split_def t_def [symmetric] h1_def [symmetric] h2_def [symmetric]
      r(1) r(2) t h responds_def
    by (cases "ks_kmalloc SIZEOF_PCI_DEV (p_ks s)") (simp_all add: pci_kmalloc_def split_def)
  then show ?thesis using h by blast
qed

end


context config_space
begin

lemma scan_all_finds:
  assumes "\<forall>(b, d, f) \<in> set as. d < 32 \<and> f < 8"
    and "alloc_devs (length (filter (responds (reg (p_hw s))) as)) (p_ks s) = Some vs"
    and "distinct vs" "0 \<notin> set vs"
  shows "\<exists>s'. scan_all hb as s = Some s' \<and> p_devices s' = p_devices s @ vs \<and>
    map (\<lambda>v. bdf (p_dev s' v)) vs = filter (responds (reg (p_hw s))) as \<and>
    reg (p_hw s') = reg (p_hw s) \<and> (\<forall>v. v \<notin> set vs \<longrightarrow> p_dev s' v = p_dev s v)"
  using assms
proof (induction "as" arbitrary: s vs)
  case Nil
  then show ?case by simp
next
  case (Cons a as)
  obtain b d f where a: "a = (b, d, f)" by (cases a)
  have df: "d < 32" "f < 8" and as: "\<forall>(b, d, f) \<in> set as. d < 32 \<and> f < 8"
    using Cons.prems(1) by (simp_all add: a)
  let ?r = "reg (p_hw s)"
  from scan_function_step [OF df, of s b] obtain h where h: "reg h = ?r"
    and step: "scan_function hb b d f s = (if responds ?r (b, d, f) then do {
       (v, k) \<leftarrow> ks_kmalloc SIZEOF_PCI_DEV (p_ks s);
       if v = 0 then None
       else let r = pci_device_init hb (fresh_dev b d f (p_dev s v)) h
            in Some (s\<lparr>p_hw := snd r, p_ks := k, p_dev := (p_dev s)(v := fst r), p_devices := p_devices s @ [v]\<rparr>)
     } else Some (s\<lparr>p_hw := h\<rparr>))" by blast
  show ?case
  proof (cases "responds ?r a")
    case False
    then have s1: "scan_function hb b d f s = Some (s\<lparr>p_hw := h\<rparr>)" using step by (simp add: a)
    from Cons.IH [OF as, of "s\<lparr>p_hw := h\<rparr>" vs] Cons.prems(2-4) False h s1 show ?thesis by (simp add: a)
  next
    case True
    with Cons.prems(2) obtain v k vs' where v: "ks_kmalloc SIZEOF_PCI_DEV (p_ks s) = Some (v, k)" "vs = v # vs'"
      "alloc_devs (length (filter (responds ?r) as)) k = Some vs'" by (auto split: bind_splits)
    have nz: "v \<noteq> 0" "0 \<notin> set vs'" "distinct vs'" "v \<notin> set vs'" using Cons.prems(3,4) v(2) by auto
    define r where "r = pci_device_init hb (fresh_dev b d f (p_dev s v)) h"
    define s1 where "s1 = s\<lparr>p_hw := snd r, p_ks := k, p_dev := (p_dev s)(v := fst r), p_devices := p_devices s @ [v]\<rparr>"
    have ok: "dev_ok (fresh_dev b d f (p_dev s v))" using df by (simp add: dev_ok_bdf)
    have r: "bdf (fst r) = a" "reg (snd r) = ?r"
      using device_init_keeps [OF ok, of h] h by (simp_all add: r_def a)
    have s1: "scan_function hb b d f s = Some s1"
      using step True v(1) nz(1) by (simp add: a s1_def r_def Let_def)
    have reg: "reg (p_hw s1) = ?r" "p_ks s1 = k" by (simp_all add: s1_def r)
    have "alloc_devs (length (filter (responds (reg (p_hw s1))) as)) (p_ks s1) = Some vs'" using v(3) by (simp add: reg)
    from Cons.IH [OF as this nz(3,2)] obtain s' where s': "scan_all hb as s1 = Some s'"
      "p_devices s' = p_devices s1 @ vs'" "map (\<lambda>v. bdf (p_dev s' v)) vs' = filter (responds ?r) as"
      "reg (p_hw s') = ?r" "\<forall>w. w \<notin> set vs' \<longrightarrow> p_dev s' w = p_dev s1 w" by (auto simp: reg)
    have "bdf (p_dev s' v) = a" using s'(5) nz(4) r(1) by (simp add: s1_def)
    moreover have "p_dev s' w = p_dev s w" if "w \<notin> set vs" for w using s'(5) that by (simp add: v(2) s1_def)
    ultimately show ?thesis using s' s1 True by (auto simp: a v(2) s1_def)
  qed
qed

end

lemma scan_order_ok: "\<forall>(b, d, f) \<in> set (scan_order n). d < 32 \<and> f < 8"
proof -
  have "(of_nat d :: u8) < 32" if "d < 32" for d using that by (simp add: word_less_nat_alt unat_of_nat)
  moreover have "(of_nat f :: u8) < 8" if "f < 8" for f using that by (simp add: word_less_nat_alt unat_of_nat)
  ultimately show ?thesis by (auto simp: scan_order_def)
qed

text \<open>C22. With memory for the device structures, \<^verbatim>\<open>pci_scan\<close> comes back with exactly the functions
  that answer, in the order bus, device, function, and every configuration register of every
  function is as it was before, although the scan probes the size of every region.\<close>

theorem pci_scan_finds_devices:
  assumes "hb = pc_bridge wm rsd_ptr name acpi_rsdp m"
    and "found = filter (responds (creg (p_hw s))) (scan_order (unat (end_bus_number hb)))"
    and "alloc_devs (length found) (p_ks s) = Some vs" "distinct vs" "0 \<notin> set vs"
  shows "\<exists>s'. pci_scan hb s = Some s' \<and> p_devices s' = vs \<and> map (\<lambda>v. bdf (p_dev s' v)) vs = found \<and>
    creg (p_hw s') = creg (p_hw s)"
  using pc.scan_all_finds [of "scan_order (unat (end_bus_number hb))" "s\<lparr>p_devices := [], p_drivers := []\<rparr>" vs
      wm rsd_ptr name acpi_rsdp m] assms scan_order_ok
  by (auto simp: pci_scan_def)

text \<open>On a list of capabilities that ends, \<^verbatim>\<open>pci_find_capability\<close> returns the offset of the first
  one with the identifier, or 0, and does not change configuration space.\<close>

theorem pci_find_capability_first:
  assumes "dev_ok d" "cap_list (creg h (bdf d)) (reg_byte (creg h (bdf d)) 0x34) qs"
  shows "\<exists>h'. pci_find_capability (pc_bridge wm rsd_ptr name acpi_rsdp m) d i h =
      Some (case find (\<lambda>q. reg_byte (creg h (bdf d)) (ucast q) = i) qs of None \<Rightarrow> 0 | Some q \<Rightarrow> q, h') \<and>
    creg h' = creg h"
  using assms by (rule pc.find_capability)

text \<open>The message an interrupt-capable device is told to send carries the vector of the interrupt,
  edge-triggered with fixed delivery, but its destination field is 0 for every processor number below
  4096: the number is never shifted into the field.\<close>

theorem msi_message_decodes:
  assumes "irq < 224" "cpu < 4096"
  shows "snd (x86_pci_msi_entry_build irq cpu) AND 0xff = ucast irq + 32 \<and>
    drop_bit 8 (snd (x86_pci_msi_entry_build irq cpu)) = 0x40 \<and>
    drop_bit 20 (fst (x86_pci_msi_entry_build irq cpu)) = 0xfee \<and>
    drop_bit 12 (fst (x86_pci_msi_entry_build irq cpu)) AND 0xff = 0"
proof -
  have v: "(irq + 32) AND mask 8 = irq + 32"
  proof (rule less_mask_eq)
    show "irq + 32 < 2 ^ 8" using assms(1) by (simp add: word_less_nat_alt unat_word_ariths)
  qed
  have vb: "bit (irq + 32) n \<Longrightarrow> n < 8" for n using v by (metis bit_and_iff bit_mask_iff)
  have c: "cpu AND mask 12 = cpu" using assms(2) by (intro less_mask_eq) simp
  have cb: "bit cpu n \<Longrightarrow> n < 12" for n using c by (metis bit_and_iff bit_mask_iff)
  have cz: "drop_bit k (ucast cpu :: u64) = 0" if "12 \<le> k" for k
    by (rule bit_word_eqI) (use that in \<open>auto simp: bit_drop_bit_eq bit_ucast_iff dest: cb\<close>)
  have addr: "fst (x86_pci_msi_entry_build irq cpu) = ucast cpu OR 0xfee00000"
    by (simp add: x86_pci_msi_entry_build_def pci_consts unsigned_or_eq)
  have w: "(scast (irq + 32) :: u64) = ucast (irq + 32)"
    by (rule bit_word_eqI) (auto simp: bit_signed_iff bit_ucast_iff min_def not_le dest: vb)
  have data: "snd (x86_pci_msi_entry_build irq cpu) = ucast (irq + 32) OR 0x4000"
    by (simp add: x86_pci_msi_entry_build_def pci_consts signed_or_eq w push_bit_eq_mult)
  have "unat irq < 224" using assms(1) by (simp add: word_less_nat_alt)
  then have plus: "(ucast (irq + 32) :: u64) = ucast irq + 32"
    by (simp add: word_unat_eq_iff unat_ucast_64 unat_word_ariths)
  have low: "ucast (irq + 32) AND (0xff :: u64) = ucast (irq + 32)" "drop_bit 8 (ucast (irq + 32) :: u64) = 0"
    unfolding numeral_mask
    by (rule bit_word_eqI; auto simp: bit_and_iff bit_mask_iff bit_drop_bit_eq bit_ucast_iff dest: vb)+
  have "(x OR 0x4000) AND 0xff = x AND (0xff :: u64)" for x
    by (simp add: bit.conj_disj_distrib2)
  then show ?thesis using cz [of 20] cz [of 12] low by (simp add: addr data plus [symmetric] bit.conj_disj_distrib2)
qed


section \<open>Witnesses\<close>

text \<open>One device at 0:0.0 with a 1MB region in its first register, a 64-bit region of 8GB in the
  second and third, and two capabilities at 0x40 and 0x50; no other function answers.\<close>

definition demo_regs :: "bdf \<Rightarrow> nat \<Rightarrow> u32" where
  "demo_regs a k = (if a = (0, 0, 0) then
     if k = 0 then 0x9d2f8086 else if k = 4 then 0xfe000000 else if k = 5 then 4 else if k = 6 then 2
     else if k = 13 then 0x40 else if k = 16 then 0x5001 else if k = 20 then 0x5
     else 0 else 0xffffffff)"

definition demo_wm :: "bdf \<Rightarrow> nat \<Rightarrow> u32" where
  "demo_wm a k = (if k = 1 then 0x7 else if k = 4 then ucast (NOT (mask 20 :: u64))
     else if k = 5 then ucast (NOT (mask 33 :: u64)) else if k = 6 then ucast (drop_bit 32 (NOT (mask 33 :: u64))) else 0)"

definition demo_dev :: pci_dev where
  "demo_dev = \<lparr>d_bus = 0, d_device = 0, d_fun = 0, d_viddid = 0, d_type = 0, d_class = 0, d_irq_list = [],
     d_resource = (\<lambda>_. \<lparr>r_start = 0, r_end = 0, r_flags = 0\<rparr>)\<rparr>"

definition demo_hw :: pc_hw where
  "demo_hw = \<lparr>latch = 0, creg = demo_regs\<rparr>"

lemma demo_dev_ok: "dev_ok demo_dev" "bdf demo_dev = (0, 0, 0)"
  by (simp_all add: dev_ok_def bdf_def demo_dev_def)

lemma pci_bar_size_exact_witness:
  "fst (pci_get_bar_size (pc_bridge demo_wm 0 0 0 (\<lambda>_. 0)) demo_dev 1 demo_hw) = 2 ^ 33"
proof -
  have "mem_bar 33 (creg demo_hw (bdf demo_dev) (4 + 1)) (creg demo_hw (bdf demo_dev) (5 + 1))
      (demo_wm (bdf demo_dev) (4 + 1)) (demo_wm (bdf demo_dev) (5 + 1))"
    by (simp add: mem_bar_def demo_dev_ok demo_hw_def demo_regs_def demo_wm_def mask_numeral)
  with demo_dev_ok(1) show ?thesis
    using pci_bar_size_exact [of demo_dev 1 33 demo_hw demo_wm 0 0 0 "\<lambda>_. 0"] by simp
qed

lemma pci_access_methods_agree_witness:
  "fst (x86_pci_read_config_pio (pc_out demo_wm) pc_in demo_dev 2 2 demo_hw) = 0x9d2f \<and>
   fst (x86_pci_read_config_mmio 0xe0000000 (ecam_rd 0xe0000000) demo_dev 2 2 demo_hw) = 0x9d2f"
proof -
  have a: "cfg_access 2 2" by (simp add: cfg_access_def)
  have "fst (x86_pci_read_config_mmio 0xe0000000 (ecam_rd 0xe0000000) demo_dev 2 2 demo_hw) = 0x9d2f"
    by (simp add: x86_pci_read_config_mmio_def ecam_rd_def get_reg_def window_bdf_def window_reg_def Let_def
        X86_PCI_MMIO_ADDR_def demo_dev_def demo_hw_def demo_regs_def lane_shift_def mask_numeral)
  then show ?thesis
    using pci_access_methods_agree [OF demo_dev_ok(1) a, of demo_wm demo_hw "0xe0000000" 0] by simp
qed

lemma pci_find_capability_first_witness:
  "\<exists>h. pci_find_capability (pc_bridge demo_wm 0 0 0 (\<lambda>_. 0)) demo_dev PCI_CAP_ID_MSI demo_hw = Some (0x50, h)"
proof -
  have "cap_list (creg demo_hw (bdf demo_dev)) (reg_byte (creg demo_hw (bdf demo_dev)) 0x34) [0x40, 0x50]"
    by (simp add: reg_byte_def lane_shift_def demo_hw_def demo_dev_ok demo_regs_def)
  from pci_find_capability_first [OF demo_dev_ok(1) this, of demo_wm 0 0 0 "\<lambda>_. 0" PCI_CAP_ID_MSI]
  show ?thesis by (auto simp: reg_byte_def lane_shift_def demo_hw_def demo_dev_ok demo_regs_def pci_consts)
qed

lemma msi_message_decodes_witness:
  "drop_bit 12 (fst (x86_pci_msi_entry_build 3 7)) AND 0xff = 0 \<and> snd (x86_pci_msi_entry_build 3 7) AND 0xff = 35"
  using msi_message_decodes [of 3 7] by simp

lemma pci_scan_finds_devices_witness:
  "\<exists>s' v. pci_scan (pc_bridge demo_wm 0x10 0x20 0x100 (\<lambda>a. if a = 0x10 then 1 else 0))
      \<lparr>p_hw = demo_hw, p_ks = demo_kstate, p_dev = (\<lambda>_. demo_dev), p_devices = [], p_ids = (\<lambda>_. []), p_drivers = []\<rparr> = Some s' \<and>
    p_devices s' = [v] \<and> bdf (p_dev s' v) = (0, 0, 0)"
proof -
  let ?hb = "pc_bridge demo_wm 0x10 0x20 0x100 (\<lambda>a. if a = 0x10 then 1 else 0)"
  let ?s = "\<lparr>p_hw = demo_hw, p_ks = demo_kstate, p_dev = (\<lambda>_. demo_dev), p_devices = [], p_ids = (\<lambda>_. []), p_drivers = []\<rparr>"
  have "memcmp (PHYS2VIRT 0x100) 0x10 8 (\<lambda>a. if a = 0x10 then 1 else 0) \<noteq> 0"
    unfolding memcmp_zero by (simp add: PHYS2VIRT_def KERNEL_SPACE_def exI [of _ 0])
  then have e: "unat (end_bus_number ?hb) = 5"
    by (simp add: pc_bridge_def x86_pci_hostbridge_init_def acpi_get_desc_def Let_def)
  have r: "responds demo_regs a \<longleftrightarrow> a = (0, 0, 0)" for a
    by (simp add: responds_def demo_regs_def)
  have row: "filter (responds demo_regs) (map (\<lambda>f. (of_nat b, of_nat d, of_nat f)) [0..<8]) =
      (if b = 0 \<and> d = 0 then [(0, 0, 0)] else [])" if "b \<in> set [0..<Suc 5]" "d \<in> set [0..<32]" for b d :: nat
  proof -
    have "(of_nat b :: u8) = 0 \<longleftrightarrow> b = 0" "(of_nat d :: u8) = 0 \<longleftrightarrow> d = 0"
      using that by (simp_all add: word_unat_eq_iff unat_of_nat)
    then show ?thesis by (simp add: r upt_rec)
  qed
  have "filter (responds demo_regs) (scan_order 5) =
      concat (map (\<lambda>b. concat (map (\<lambda>d. if b = 0 \<and> d = 0 then [(0, 0, 0)] else []) [0..<32])) [0..<Suc 5])"
    unfolding scan_order_def filter_concat map_map comp_def
    by (intro arg_cong [where f = concat] map_cong refl) (simp add: row filter_concat comp_def)
  then have one: "filter (responds demo_regs) (scan_order 5) = [(0, 0, 0)]"
    by (simp add: upt_rec)
  obtain v k where v: "ks_kmalloc SIZEOF_PCI_DEV demo_kstate = Some (v, k)" "v \<noteq> 0"
    by (simp add: ks_kmalloc_def kmalloc_def bootmem_alloc_def demo_kstate_def empty_bootmem_def SIZEOF_PCI_DEV_def
        PHYS2VIRT_def KERNEL_SPACE_def)
  have "filter (responds (creg (p_hw ?s))) (scan_order (unat (end_bus_number ?hb))) = [(0, 0, 0)]"
    unfolding e using one by (simp add: demo_hw_def)
  with pci_scan_finds_devices [OF refl refl, of ?s demo_wm "0x10" "0x20" "0x100" "\<lambda>a. if a = 0x10 then 1 else 0" "[v]"] v
  show ?thesis by auto
qed


section \<open>Drivers\<close>

text \<open>The probe callback called for a list of devices, one after the other; the result is the last
  one's.\<close>

fun run_probes ::
    "(u64 \<Rightarrow> u64 \<Rightarrow> 'h pci \<Rightarrow> (int \<times> 'h pci) option) \<Rightarrow> u64 \<Rightarrow> u64 list \<Rightarrow> int \<Rightarrow> 'h pci \<Rightarrow> (int \<times> 'h pci) option" where
  "run_probes probe driver [] ret s = Some (ret, s)"
| "run_probes probe driver (d # ds) ret s = do { (ret, s) \<leftarrow> probe driver d s; run_probes probe driver ds ret s }"

definition probe_keeps_ids :: "(u64 \<Rightarrow> u64 \<Rightarrow> 'h pci \<Rightarrow> (int \<times> 'h pci) option) \<Rightarrow> u64 \<Rightarrow> bool" where
  "probe_keeps_ids probe driver \<longleftrightarrow> (\<forall>d s r s'. probe driver d s = Some (r, s') \<longrightarrow>
     p_ids s' driver = p_ids s driver \<and> (\<forall>e. d_viddid (p_dev s' e) = d_viddid (p_dev s e)))"

lemma run_probes_append:
  "run_probes probe driver (xs @ ys) ret s = do {
     (ret, s) \<leftarrow> run_probes probe driver xs ret s; run_probes probe driver ys ret s }"
  by (induction xs arbitrary: ret s) (simp_all add: split_def)

lemma run_probes_keeps:
  assumes "probe_keeps_ids probe driver" "run_probes probe driver ds ret s = Some (r, s')"
  shows "p_ids s' driver = p_ids s driver \<and> (\<forall>e. d_viddid (p_dev s' e) = d_viddid (p_dev s e))"
  using assms(2)
proof (induction ds arbitrary: ret s)
  case (Cons d ds)
  then obtain r1 s1 where 1: "probe driver d s = Some (r1, s1)" "run_probes probe driver ds r1 s1 = Some (r, s')"
    by (auto split: bind_splits)
  from Cons.IH [OF 1(2)] 1(1) assms(1) show ?case by (auto simp: probe_keeps_ids_def)
qed simp

lemma probe_ids_run:
  assumes "probe_keeps_ids probe driver"
  shows "probe_ids probe driver d ids ret s =
    run_probes probe driver (replicate (count_list ids (d_viddid (p_dev s d))) d) ret s"
proof (induction ids arbitrary: ret s)
  case (Cons i ids)
  have "d_viddid (p_dev s1 d) = d_viddid (p_dev s d)" if "probe driver d s = Some (r1, s1)" for r1 s1
    using assms that by (auto simp: probe_keeps_ids_def)
  then show ?case by (cases "probe driver d s") (auto simp: Cons.IH)
qed simp

text \<open>Registering a driver calls its probe function for exactly the devices whose identifier is
  in the driver's table, in the order of the device list and once per matching entry, and returns what
  the last call returned, or -1 when no device matches.\<close>

theorem pci_register_driver_probes:
  assumes "probe_keeps_ids probe driver"
  shows "pci_register_driver probe driver s = run_probes probe driver
    (concat (map (\<lambda>d. replicate (count_list (p_ids s driver) (d_viddid (p_dev s d))) d) (p_devices s))) (- 1)
    (s\<lparr>p_drivers := p_drivers s @ [driver]\<rparr>)"
proof -
  have "probe_devices probe driver ds ret t = run_probes probe driver
      (concat (map (\<lambda>d. replicate (count_list (p_ids t driver) (d_viddid (p_dev t d))) d) ds)) ret t" for ds ret t
  proof (induction ds arbitrary: ret t)
    case (Cons d ds)
    let ?l = "replicate (count_list (p_ids t driver) (d_viddid (p_dev t d))) d"
    have "p_ids t' driver = p_ids t driver \<and> (\<forall>e. d_viddid (p_dev t' e) = d_viddid (p_dev t e))"
      if "run_probes probe driver ?l ret t = Some (r, t')" for r t'
      by (rule run_probes_keeps [OF assms that])
    then show ?case
      by (cases "run_probes probe driver ?l ret t")
        (auto simp: probe_ids_run [OF assms] run_probes_append Cons.IH)
  qed simp
  then show ?thesis by (simp add: pci_register_driver_def)
qed

text \<open>A table with the device's identifier in two places: the callback, which counts its calls in the
  state of the hardware, runs twice.\<close>

lemma pci_register_driver_probes_witness:
  "\<exists>s'. pci_register_driver (\<lambda>_ _ s. Some (0, s\<lparr>p_hw := Suc (p_hw s)\<rparr>)) 9
      \<lparr>p_hw = 0 :: nat, p_ks = demo_kstate, p_dev = (\<lambda>_. demo_dev\<lparr>d_viddid := 5\<rparr>), p_devices = [1],
       p_ids = (\<lambda>_. [5, 6, 5]), p_drivers = []\<rparr> = Some (0, s') \<and> p_hw s' = 2"
proof -
  have "probe_keeps_ids (\<lambda>_ _ s. Some (0, s\<lparr>p_hw := Suc (p_hw s)\<rparr>)) 9" by (auto simp: probe_keeps_ids_def)
  from pci_register_driver_probes [OF this] show ?thesis by simp
qed

end
