(* ===== verification/Xhci_Ring.thy ===== *)
theory Xhci_Ring
  imports Usb Pci
begin

text \<open>
  The rings of the xHCI driver (\<^verbatim>\<open>drivers/usb/xhci.c\<close>): the command ring and the transfer rings
  the driver writes, and the event ring it reads. The consumer of the first two is the controller;
  what the specification says of it, following link TRBs and comparing cycle bits, is
  \<open>hc_fetch\<close>. The contract of both rings is the locale \<open>trb_ring\<close>: they are queues.
\<close>

section \<open>State\<close>

record transfer_ring_status =
  transfer_ring_base :: u64
  transfer_ring_size :: u32
  enquene_pointer :: u32
  dcs :: u32

record port_status =
  slot_id :: u64
  transfer_ring_status :: "nat \<Rightarrow> transfer_ring_status"
  input_context :: u64

record inflight_transfer =
  it_self :: u64
  it_trb_phys :: u64
  it_urb :: u64

record xhci =
  mmio_virt :: u64
  hc_op_reg_offset :: u64
  hc_rt_reg_offset :: u64
  hc_doorbell_reg_offset :: u64
  hc_vt_reg_offset :: u64
  hc_ext_reg_offset :: u64
  dcbaa :: u64
  max_scratch_buffer_cnt :: u64
  nr_slot :: u64
  nr_port :: u64
  nr_intr :: u64
  cmd_ring :: u64
  cmd_ring_size :: u64
  cmd_ring_enqueue_ptr :: u64
  cmd_ring_dcs :: u64
  event_ring :: u64
  event_ring_size :: u64
  event_ring_dequeue_ptr :: u64
  event_ring_ccs :: u64
  event_ring_seg_table :: u64
  port :: "nat \<Rightarrow> port_status"
  inflight_transfer_list :: "inflight_transfer list"

definition upd_port :: "nat \<Rightarrow> (port_status \<Rightarrow> port_status) \<Rightarrow> xhci \<Rightarrow> xhci" where
  "upd_port p f x = x\<lparr>port := (port x)(p := f (port x p))\<rparr>"

definition upd_ring ::
    "nat \<Rightarrow> nat \<Rightarrow> (transfer_ring_status \<Rightarrow> transfer_ring_status) \<Rightarrow> xhci \<Rightarrow> xhci" where
  "upd_ring p e f = upd_port p (\<lambda>s. s\<lparr>transfer_ring_status :=
     (transfer_ring_status s)(e := f (transfer_ring_status s e))\<rparr>)"

definition the_ring :: "nat \<Rightarrow> nat \<Rightarrow> xhci \<Rightarrow> transfer_ring_status" where
  "the_ring p e x = transfer_ring_status (port x p) e"

section \<open>The command ring\<close>

text \<open>\<^verbatim>\<open>&ring[i]\<close> for an \<^verbatim>\<open>int\<close> index.\<close>

definition trb_at :: "u64 \<Rightarrow> u32 \<Rightarrow> u64" where
  "trb_at ring i = ring + 16 * scast i"

definition cmd_link :: "xhci \<Rightarrow> trb" where
  "cmd_link x =
     trb_set (member_of link_trb ''ring_seg_pointer'') (VIRT2PHYS (cmd_ring x))
       (trb_set (member_of link_trb ''trb_type'') TRB_LINK
         (trb_set (member_of link_trb ''c'') (cmd_ring_dcs x) 0))"

definition xhci_cmd_ring_insert :: "trb \<Rightarrow> xhci \<times> bmem \<Rightarrow> u32 \<times> xhci \<times> bmem" where
  "xhci_cmd_ring_insert cmd s =
     (let (x, m) = s;
          index = ucast (cmd_ring_enqueue_ptr x);
          (index, x, m) =
            (if scast index = cmd_ring_size x div 16 - 1
             then (0, x\<lparr>cmd_ring_enqueue_ptr := 0\<rparr>, trb_store (cmd_link x) m (trb_at (cmd_ring x) index))
             else (index, x, m));
          m = trb_store cmd m (trb_at (cmd_ring x) index);
          m = trb_store (trb_set (member_of trb_template ''c'') (cmd_ring_dcs x)
                (trb_load m (trb_at (cmd_ring x) index))) m (trb_at (cmd_ring x) index);
          x = x\<lparr>cmd_ring_enqueue_ptr := cmd_ring_enqueue_ptr x + 1\<rparr>;
          m = mem_zero (trb_at (cmd_ring x) (index + 1)) 16 m
      in (index, x, m))"

section \<open>Transfer rings\<close>

definition transfer_link :: "transfer_ring_status \<Rightarrow> trb" where
  "transfer_link r =
     trb_set (member_of link_trb ''ring_seg_pointer'') (VIRT2PHYS (transfer_ring_base r))
       (trb_set (member_of link_trb ''trb_type'') TRB_LINK
         (trb_set (member_of link_trb ''tc'') 1
           (trb_set (member_of link_trb ''c'') (ucast (dcs r)) 0)))"

definition xhci_insert_transfer_trb :: "nat \<Rightarrow> nat \<Rightarrow> trb \<Rightarrow> xhci \<times> bmem \<Rightarrow> u64 \<times> xhci \<times> bmem" where
  "xhci_insert_transfer_trb p e trb_in s =
     (let (x, m) = s;
          index = enquene_pointer (the_ring p e x);
          (index, x, m) =
            (if scast index = (0x1000 div 16 - 1 :: u64)
             then (0, upd_ring p e (\<lambda>r. r\<lparr>enquene_pointer := 0, dcs := NOT (dcs r) AND 0x1\<rparr>) x,
                   trb_store (transfer_link (the_ring p e x)) m (trb_at (transfer_ring_base (the_ring p e x)) index))
             else (index, x, m));
          trb = trb_at (transfer_ring_base (the_ring p e x)) index;
          m = trb_store trb_in m trb;
          m = trb_store (trb_set (member_of transfer_trb ''c'') (ucast (dcs (the_ring p e x))) (trb_load m trb)) m trb;
          phys = VIRT2PHYS trb;
          x = upd_ring p e (\<lambda>r. r\<lparr>enquene_pointer := enquene_pointer r + 1\<rparr>) x
      in (phys, x, m))"

section \<open>The controller's side\<close>

text \<open>The controller keeps the physical address of the next TRB and its cycle state. It follows a
  link TRB that is valid, toggling the cycle state when the link says so, and takes a TRB whose
  cycle bit is its own.\<close>

definition trb_c :: "trb \<Rightarrow> u64" where "trb_c t = trb_get (member_of trb_template ''c'') t"
definition trb_type :: "trb \<Rightarrow> u64" where "trb_type t = trb_get (member_of trb_template ''trb_type'') t"

definition hc_follow :: "bmem \<Rightarrow> u64 \<times> u64 \<Rightarrow> u64 \<times> u64" where
  "hc_follow m s = (case s of (p, ccs) \<Rightarrow>
     let t = trb_load m (PHYS2VIRT p) in
     if trb_c t = ccs \<and> trb_type t = TRB_LINK
     then (trb_get (member_of link_trb ''ring_seg_pointer'') t,
           if trb_get (member_of link_trb ''tc'') t = 1 then 1 - ccs else ccs)
     else (p, ccs))"

definition hc_fetch :: "bmem \<Rightarrow> u64 \<times> u64 \<Rightarrow> (trb \<times> u64 \<times> u64) option" where
  "hc_fetch m s =
     (let (p, ccs) = hc_follow m s; t = trb_load m (PHYS2VIRT p)
      in if trb_c t = ccs then Some (t, p + 16, ccs) else None)"

section \<open>Slots\<close>

text \<open>A ring is 256 slots of 16 bytes. What a TRB says apart from its cycle bit is its payload.\<close>

definition slot_addr :: "u64 \<Rightarrow> nat \<Rightarrow> u64" where "slot_addr b i = b + of_nat (16 * i)"
definition slot :: "bmem \<Rightarrow> u64 \<Rightarrow> nat \<Rightarrow> trb" where "slot m b i = trb_load m (slot_addr b i)"

definition payload :: "trb \<Rightarrow> trb" where "payload t = trb_set (member_of trb_template ''c'') 0 t"

definition work_trb :: "trb \<Rightarrow> bool" where "work_trb t \<longleftrightarrow> trb_type t \<noteq> TRB_LINK"

lemma slot_apart: "i \<noteq> j \<Longrightarrow> i < 1000 \<Longrightarrow> j < 1000 \<Longrightarrow> apart (slot_addr b i) 16 (slot_addr b j) 16"
  unfolding slot_addr_def by (rule apart_blocks) (auto simp: nat_neq_iff)

lemma slot_store [heap_simps]:
  "i < 1000 \<Longrightarrow> j < 1000 \<Longrightarrow> slot (trb_store t m (slot_addr b j)) b i = (if i = j then t else slot m b i)"
  by (auto simp: slot_def trb_load_store_apart slot_apart)

lemma slot_zero [heap_simps]:
  "i < 1000 \<Longrightarrow> j < 1000 \<Longrightarrow> slot (mem_zero (slot_addr b j) 16 m) b i = (if i = j then 0 else slot m b i)"
  by (auto simp: slot_def mem_zero_trb mem_zero_trb_apart slot_apart)

lemma scast_small: "i < 2 ^ 31 \<Longrightarrow> scast (of_nat i :: u32) = (of_nat i :: u64)"
proof -
  assume "i < 2 ^ 31"
  then have "sint (of_nat i :: u32) = int i"
    by (simp add: sint_uint uint_nat unsigned_of_nat take_bit_nat_eq_self signed_take_bit_int_eq_self)
  then show ?thesis by (simp add: scast_eq)
qed

lemma trb_at_slot [heap_simps]: "i < 1000 \<Longrightarrow> trb_at b (of_nat i) = slot_addr b i"
  by (simp add: trb_at_def slot_addr_def scast_small)

lemma trb_at_0: "trb_at b 0 = slot_addr b 0"
  using trb_at_slot [of 0 b] by simp

lemma payload_set_c [simp]: "payload (trb_set (96, Suc 0) v t) = payload t"
  by (simp add: payload_def usb_members)

lemma trb_c_set_c [simp]: "trb_c (trb_set (96, Suc 0) v t) = take_bit (Suc 0) v"
  by (simp add: trb_c_def usb_members)

lemma trb_type_set_c [simp]: "trb_type (trb_set (96, Suc 0) v t) = trb_type t"
  by (simp add: trb_type_def usb_members)

lemma link_fields:
  "trb_c (cmd_link x) = take_bit (Suc 0) (cmd_ring_dcs x)" "trb_type (cmd_link x) = TRB_LINK"
  "trb_get (member_of link_trb ''ring_seg_pointer'') (cmd_link x) = VIRT2PHYS (cmd_ring x)"
  "trb_get (member_of link_trb ''tc'') (cmd_link x) = 0"
  "trb_c (transfer_link r) = take_bit (Suc 0) (ucast (dcs r))" "trb_type (transfer_link r) = TRB_LINK"
  "trb_get (member_of link_trb ''ring_seg_pointer'') (transfer_link r) = VIRT2PHYS (transfer_ring_base r)"
  "trb_get (member_of link_trb ''tc'') (transfer_link r) = 1"
  by (simp_all add: cmd_link_def transfer_link_def trb_c_def trb_type_def usb_members usb_consts)


section \<open>A ring is a queue\<close>

text \<open>\<open>holds r q\<close>: the ring with both its ends is in order and \<open>q\<close> are the payloads the
  consumer has not taken yet.\<close>

locale trb_ring =
  fixes produce :: "trb \<Rightarrow> 'r \<Rightarrow> 'r"
    and consume :: "'r \<Rightarrow> (trb \<times> 'r) option"
    and holds :: "'r \<Rightarrow> trb list \<Rightarrow> bool"
    and capacity :: nat
  assumes holds_produce:
      "holds r q \<Longrightarrow> work_trb t \<Longrightarrow> length q < capacity \<Longrightarrow> holds (produce t r) (q @ [payload t])"
    and holds_empty: "holds r [] \<Longrightarrow> consume r = None"
    and holds_consume: "holds r (t # q) \<Longrightarrow> \<exists>u r'. consume r = Some (u, r') \<and> payload u = t \<and> holds r' q"

text \<open>Steps of the two ends in any order. A consumer that finds nothing leaves the ring alone.\<close>

datatype ring_op = Produce trb | Consume

fun fifo_run :: "ring_op list \<Rightarrow> trb list \<Rightarrow> trb option list" where
  "fifo_run [] q = []"
| "fifo_run (Produce t # ops) q = fifo_run ops (q @ [payload t])"
| "fifo_run (Consume # ops) q =
     (case q of [] \<Rightarrow> None # fifo_run ops [] | t # q' \<Rightarrow> Some t # fifo_run ops q')"

fun ring_run :: "(trb \<Rightarrow> 'r \<Rightarrow> 'r) \<Rightarrow> ('r \<Rightarrow> (trb \<times> 'r) option) \<Rightarrow> ring_op list \<Rightarrow> 'r \<Rightarrow> trb option list" where
  "ring_run pr co [] r = []"
| "ring_run pr co (Produce t # ops) r = ring_run pr co ops (pr t r)"
| "ring_run pr co (Consume # ops) r =
     (case co r of None \<Rightarrow> None # ring_run pr co ops r
      | Some (u, r') \<Rightarrow> Some (payload u) # ring_run pr co ops r')"

text \<open>No link TRB is produced, and the producer is never more than \<open>n\<close> TRBs ahead.\<close>

fun within :: "nat \<Rightarrow> ring_op list \<Rightarrow> nat \<Rightarrow> bool" where
  "within n [] k = True"
| "within n (Produce t # ops) k \<longleftrightarrow> work_trb t \<and> k < n \<and> within n ops (k + 1)"
| "within n (Consume # ops) k \<longleftrightarrow> within n ops (k - 1)"

context trb_ring
begin

lemma run_fifo:
  "holds r q \<Longrightarrow> within capacity ops (length q) \<Longrightarrow> ring_run produce consume ops r = fifo_run ops q"
proof (induction ops arbitrary: r q)
  case (Cons x ops)
  show ?case
  proof (cases x)
    case (Produce t)
    then show ?thesis using Cons holds_produce [of r q t] by simp
  next
    case Consume
    show ?thesis
    proof (cases q)
      case Nil
      then show ?thesis using Cons Consume holds_empty by simp
    next
      case (Cons t q')
      then obtain u r' where "consume r = Some (u, r')" "payload u = t" "holds r' q'"
        using holds_consume Cons.prems by blast
      then show ?thesis using Cons.IH Cons.prems Cons Consume by simp
    qed
  qed
qed simp

end

section \<open>The command ring as a queue\<close>

definition in_flight :: "u64 \<Rightarrow> bmem \<Rightarrow> u64 \<Rightarrow> nat list \<Rightarrow> trb list \<Rightarrow> bool" where
  "in_flight c m b is q \<longleftrightarrow>
     q = map (\<lambda>i. payload (slot m b i)) is \<and> (\<forall>i \<in> set is. trb_c (slot m b i) = c \<and> work_trb (slot m b i))"

lemma in_flight_append [simp]:
  "in_flight c m b (xs @ ys) (q @ r) \<longleftrightarrow> in_flight c m b xs q \<and> in_flight c m b ys r"
  if "length xs = length q"
  using that by (auto simp: in_flight_def)

lemma in_flight_Nil [simp]: "in_flight c m b [] q \<longleftrightarrow> q = []" "in_flight c m b xs [] \<longleftrightarrow> xs = []"
  by (auto simp: in_flight_def)

lemma in_flight_cong:
  "\<forall>i \<in> set is. slot m' b i = slot m b i \<Longrightarrow> in_flight c m' b is q \<longleftrightarrow> in_flight c m b is q"
  by (auto simp: in_flight_def)

lemma in_flight_length: "in_flight c m b is q \<Longrightarrow> length q = length is"
  by (simp add: in_flight_def)

lemma in_flight_Cons [simp]:
  "in_flight c m b (i # is) (t # q) \<longleftrightarrow>
     payload (slot m b i) = t \<and> trb_c (slot m b i) = c \<and> work_trb (slot m b i) \<and> in_flight c m b is q"
  by (auto simp: in_flight_def)

type_synonym cmd_state = "(xhci \<times> bmem) \<times> (u64 \<times> u64)"

definition cmd_produce :: "trb \<Rightarrow> cmd_state \<Rightarrow> cmd_state" where
  "cmd_produce t r = (snd (xhci_cmd_ring_insert t (fst r)), snd r)"

definition cmd_consume :: "cmd_state \<Rightarrow> (trb \<times> cmd_state) option" where
  "cmd_consume r = (case hc_fetch (snd (fst r)) (snd r) of None \<Rightarrow> None | Some (t, c) \<Rightarrow> Some (t, (fst r, c)))"

definition cmd_holds :: "cmd_state \<Rightarrow> trb list \<Rightarrow> bool" where
  "cmd_holds r q \<longleftrightarrow> (case r of ((x, m), (p, ccs)) \<Rightarrow>
     cmd_ring_size x = 0x1000 \<and> cmd_ring_dcs x = 1 \<and> ccs = 1 \<and>
     (\<exists>k e. k \<le> 255 \<and> e \<le> 255 \<and> cmd_ring_enqueue_ptr x = of_nat e \<and>
        PHYS2VIRT p = slot_addr (cmd_ring x) k \<and> trb_c (slot m (cmd_ring x) e) = 0 \<and>
        (k \<le> e \<and> in_flight 1 m (cmd_ring x) [k..<e] q \<or>
         e < k \<and> slot m (cmd_ring x) 255 = cmd_link x \<and> in_flight 1 m (cmd_ring x) ([k..<255] @ [0..<e]) q)))"

lemma cmd_insert_slots:
  assumes x: "cmd_ring_size x = 0x1000" "cmd_ring_dcs x = 1" "cmd_ring_enqueue_ptr x = of_nat e" "e \<le> 255"
    and r: "xhci_cmd_ring_insert t (x, m) = (idx, x', m')"
  defines "e' \<equiv> if e = 255 then 0 else e"
  shows "idx = of_nat e'" "x' = x\<lparr>cmd_ring_enqueue_ptr := of_nat (e' + 1)\<rparr>"
    "i < 1000 \<Longrightarrow> slot m' (cmd_ring x) i =
       (if i = e' + 1 then 0 else if i = e' then trb_set (96, 1) 1 t
        else if e = 255 \<and> i = 255 then cmd_link x else slot m (cmd_ring x) i)"
proof -
  have sz: "cmd_ring_size x div 16 - 1 = (of_nat 255 :: u64)" by (simp add: x)
  have idx: "(ucast (cmd_ring_enqueue_ptr x) :: u32) = of_nat e"
    unfolding x by (rule word_unat_eq_iff [THEN iffD2]) (use x(4) in \<open>simp add: unsigned_ucast_eq unsigned_of_nat take_bit_nat_eq_self\<close>)
  have "(of_nat e :: u64) = of_nat 255 \<longleftrightarrow> e = 255"
    using x(4) by (auto dest!: arg_cong [where f = unat] simp: unsigned_of_nat take_bit_nat_eq_self)
  then have wrap: "scast (of_nat e :: u32) = (of_nat 255 :: u64) \<longleftrightarrow> e = 255"
    using x(4) by (subst scast_small) auto
  have next_at: "trb_at b (of_nat n + 1) = slot_addr b (n + 1)" if "n < 900" for b n
    using trb_at_slot [of "n + 1" b] that by (simp add: add.commute)
  note R = r [unfolded xhci_cmd_ring_insert_def Let_def prod.case sz idx wrap]
  show "idx = of_nat e'" "x' = x\<lparr>cmd_ring_enqueue_ptr := of_nat (e' + 1)\<rparr>"
    using R x by (auto simp: e'_def split: if_splits)
  show "slot m' (cmd_ring x) i =
       (if i = e' + 1 then 0 else if i = e' then trb_set (96, 1) 1 t
        else if e = 255 \<and> i = 255 then cmd_link x else slot m (cmd_ring x) i)" if i: "i < 1000"
  proof (cases "e = 255")
    case True
    have at: "trb_at b 255 = slot_addr b 255" "trb_at b 1 = slot_addr b 1" for b
      using trb_at_slot [of 255 b] trb_at_slot [of 1 b] by simp_all
    have m': "m' = mem_zero (slot_addr (cmd_ring x) 1) 16
        (trb_store (trb_set (96, 1) 1 t)
          (trb_store t (trb_store (cmd_link x) m (slot_addr (cmd_ring x) 255)) (slot_addr (cmd_ring x) 0))
          (slot_addr (cmd_ring x) 0))"
      using R x True by (auto simp: trb_at_0 at usb_members)
    show ?thesis using i True by (auto simp: m' e'_def heap_simps)
  next
    case False
    then have m': "m' = mem_zero (slot_addr (cmd_ring x) (e + 1)) 16
        (trb_store (trb_set (96, 1) 1 t) (trb_store t m (slot_addr (cmd_ring x) e)) (slot_addr (cmd_ring x) e))"
      using R x next_at [of e] by (auto simp: trb_at_slot usb_members)
    show ?thesis using i x(4) False by (auto simp: m' e'_def heap_simps)
  qed
qed


lemma trb_c_0 [simp]: "trb_c 0 = 0" by (simp add: trb_c_def)

lemma work_trb_set_c [simp]: "work_trb (trb_set (96, Suc 0) v t) = work_trb t"
  by (simp add: work_trb_def)

lemma cmd_holds_produce:
  assumes h: "cmd_holds r q" and t: "work_trb t" and len: "length q < 254"
  shows "cmd_holds (cmd_produce t r) (q @ [payload t])"
proof -
  obtain x m p ccs where r: "r = ((x, m), (p, ccs))" by (metis surj_pair)
  obtain x' m' idx where ins: "xhci_cmd_ring_insert t (x, m) = (idx, x', m')" by (metis surj_pair)
  let ?b = "cmd_ring x"
  from h [unfolded r cmd_holds_def] obtain k e where
    x: "cmd_ring_size x = 0x1000" "cmd_ring_dcs x = 1" "ccs = 1" "cmd_ring_enqueue_ptr x = of_nat e" and
    ke: "k \<le> 255" "e \<le> 255" "PHYS2VIRT p = slot_addr ?b k" and
    d: "k \<le> e \<and> in_flight 1 m ?b [k..<e] q \<or>
        e < k \<and> slot m ?b 255 = cmd_link x \<and> in_flight 1 m ?b ([k..<255] @ [0..<e]) q"
    by auto
  define e' where "e' = (if e = 255 then 0 else e)"
  note eff = cmd_insert_slots [OF x(1,2,4) ke(2) ins, folded e'_def]
  have new: "slot m' ?b e' = trb_set (96, 1) 1 t" "slot m' ?b (e' + 1) = 0"
    using eff(3) [of e'] eff(3) [of "e' + 1"] ke(2) by (auto simp: e'_def)
  have keep: "slot m' ?b i = slot m ?b i" if "i < 255" "i \<noteq> e'" "i \<noteq> e' + 1" for i
    using eff(3) [of i] that by auto
  have one: "in_flight 1 m' ?b [e'] [payload t]"
    by (simp add: new t)
  have x': "cmd_ring_size x' = 0x1000" "cmd_ring_dcs x' = 1" "cmd_ring x' = ?b" "cmd_link x' = cmd_link x"
    "cmd_ring_enqueue_ptr x' = of_nat (e' + 1)"
    by (simp_all add: eff(2) x cmd_link_def)
  have "k \<le> e' + 1 \<and> in_flight 1 m' ?b [k..<e' + 1] (q @ [payload t]) \<or>
        e' + 1 < k \<and> slot m' ?b 255 = cmd_link x \<and> in_flight 1 m' ?b ([k..<255] @ [0..<e' + 1]) (q @ [payload t])"
  proof (cases "e = 255")
    case True
    with d ke have q: "in_flight 1 m ?b [k..<255] q" "length q = 255 - k"
      using in_flight_length by fastforce+
    with len have k: "1 < k" by simp
    have "in_flight 1 m' ?b [k..<255] q"
      using q(1) by (subst in_flight_cong [of _ _ _ m]) (use k keep True in \<open>auto simp: e'_def\<close>)
    moreover have "slot m' ?b 255 = cmd_link x" using eff(3) [of 255] True by (simp add: e'_def)
    ultimately show ?thesis using k q(2) one True by (simp add: e'_def)
  next
    case False
    then have e': "e' = e" by (simp add: e'_def)
    from d show ?thesis
    proof
      assume A: "k \<le> e \<and> in_flight 1 m ?b [k..<e] q"
      then have "length q = e - k" using in_flight_length by fastforce
      moreover have "in_flight 1 m' ?b [k..<e] q"
        using A ke False by (subst in_flight_cong [of _ _ _ m]) (use keep e' in auto)
      ultimately show ?thesis using A e' one by simp
    next
      assume A: "e < k \<and> slot m ?b 255 = cmd_link x \<and> in_flight 1 m ?b ([k..<255] @ [0..<e]) q"
      then have l: "length q = 255 - k + e" using in_flight_length by fastforce
      with len A ke have k: "e + 1 < k" by simp
      have "in_flight 1 m' ?b ([k..<255] @ [0..<e]) q"
        using A by (subst in_flight_cong [of _ _ _ m]) (use keep k ke e' in auto)
      then have "in_flight 1 m' ?b (([k..<255] @ [0..<e]) @ [e]) (q @ [payload t])"
        by (subst in_flight_append) (use l one e' k ke in auto)
      moreover have "slot m' ?b 255 = cmd_link x" using eff(3) [of 255] A k ke e' False by simp
      ultimately show ?thesis using k e' by simp
    qed
  qed
  moreover have "e' + 1 \<le> 255" using ke by (auto simp: e'_def)
  ultimately show ?thesis
    unfolding r cmd_produce_def cmd_holds_def ins fst_conv snd_conv prod.case x'
    using ke x x' new by (intro conjI exI [of _ k] exI [of _ "e' + 1"]) simp_all
qed

lemma hc_step:
  assumes "PHYS2VIRT p = slot_addr b k" "k < 1000" "work_trb (slot m b k)" "trb_c (slot m b k) = ccs"
  shows "hc_fetch m (p, ccs) = Some (slot m b k, p + 16, ccs)" "PHYS2VIRT (p + 16) = slot_addr b (k + 1)"
proof -
  show "hc_fetch m (p, ccs) = Some (slot m b k, p + 16, ccs)"
    using assms by (simp add: hc_fetch_def hc_follow_def work_trb_def flip: slot_def)
  have "PHYS2VIRT (p + 16) = PHYS2VIRT p + 16" by (simp add: PHYS2VIRT_def)
  then show "PHYS2VIRT (p + 16) = slot_addr b (k + 1)" using assms(1) by (simp add: slot_addr_def)
qed

lemma hc_blocked:
  assumes "PHYS2VIRT p = slot_addr b k" "trb_c (slot m b k) \<noteq> ccs"
  shows "hc_fetch m (p, ccs) = None"
  using assms by (simp add: hc_fetch_def hc_follow_def flip: slot_def)

lemma hc_over_link:
  assumes "PHYS2VIRT p = slot_addr b k" "trb_c (slot m b k) = ccs" "trb_type (slot m b k) = TRB_LINK"
    and "trb_get (member_of link_trb ''ring_seg_pointer'') (slot m b k) = VIRT2PHYS b"
    and "ccs' = (if trb_get (member_of link_trb ''tc'') (slot m b k) = 1 then 1 - ccs else ccs)"
    and "trb_c (slot m b 0) = ccs' \<Longrightarrow> work_trb (slot m b 0)"
  shows "hc_fetch m (p, ccs) = hc_fetch m (VIRT2PHYS b, ccs')"
proof -
  have f: "hc_follow m (p, ccs) = (VIRT2PHYS b, ccs')"
    using assms by (simp add: hc_follow_def flip: slot_def)
  have s: "slot m b 0 = trb_load m b" by (simp add: slot_def slot_addr_def)
  have "hc_follow m (VIRT2PHYS b, ccs') = (VIRT2PHYS b, ccs')"
    using assms(6) by (auto simp: hc_follow_def s work_trb_def Let_def)
  then show ?thesis by (simp add: hc_fetch_def f)
qed

lemma cmd_holds_empty: "cmd_holds r [] \<Longrightarrow> cmd_consume r = None"
proof -
  assume h: "cmd_holds r []"
  obtain x m p ccs where r: "r = ((x, m), (p, ccs))" by (metis surj_pair)
  from h [unfolded r cmd_holds_def] obtain k e where
    ke: "cmd_ring_dcs x = 1" "ccs = 1" "k \<le> 255" "e \<le> 255" "PHYS2VIRT p = slot_addr (cmd_ring x) k"
      "trb_c (slot m (cmd_ring x) e) = 0" and
    d': "k \<le> e \<and> in_flight 1 m (cmd_ring x) [k..<e] [] \<or>
        e < k \<and> slot m (cmd_ring x) 255 = cmd_link x \<and> in_flight 1 m (cmd_ring x) ([k..<255] @ [0..<e]) []"
    by (auto simp del: in_flight_Nil)
  from d' ke have d: "k = e \<or> k = 255 \<and> e = 0 \<and> slot m (cmd_ring x) 255 = cmd_link x"
    by auto
  have "hc_fetch m (p, ccs) = None"
    using d
  proof
    assume "k = e"
    then show ?thesis using hc_blocked [OF ke(5), of m ccs] ke by simp
  next
    assume A: "k = 255 \<and> e = 0 \<and> slot m (cmd_ring x) 255 = cmd_link x"
    then have "hc_fetch m (p, ccs) = hc_fetch m (VIRT2PHYS (cmd_ring x), ccs)"
      using ke by (intro hc_over_link [where k = 255]) (auto simp: link_fields)
    also have "\<dots> = None"
      using A ke by (intro hc_blocked [where k = 0]) (auto simp: slot_addr_def)
    finally show ?thesis .
  qed
  then show ?thesis by (simp add: r cmd_consume_def)
qed

lemma cmd_holds_consume:
  assumes h: "cmd_holds r (t # q)"
  shows "\<exists>u r'. cmd_consume r = Some (u, r') \<and> payload u = t \<and> cmd_holds r' q"
proof -
  obtain x m p ccs where r: "r = ((x, m), (p, ccs))" by (metis surj_pair)
  let ?b = "cmd_ring x"
  from h [unfolded r cmd_holds_def] obtain k e where
    x: "cmd_ring_size x = 0x1000" "cmd_ring_dcs x = 1" "ccs = 1" "cmd_ring_enqueue_ptr x = of_nat e" and
    ke: "k \<le> 255" "e \<le> 255" "PHYS2VIRT p = slot_addr ?b k" "trb_c (slot m ?b e) = 0" and
    d: "k \<le> e \<and> in_flight 1 m ?b [k..<e] (t # q) \<or>
        e < k \<and> slot m ?b 255 = cmd_link x \<and> in_flight 1 m ?b ([k..<255] @ [0..<e]) (t # q)"
    by auto
  have "\<exists>k' p'. hc_fetch m (p, 1) = Some (slot m ?b k', p', 1) \<and> payload (slot m ?b k') = t \<and> k' < 255 \<and>
      PHYS2VIRT p' = slot_addr ?b (k' + 1) \<and>
      (k' + 1 \<le> e \<and> in_flight 1 m ?b [k' + 1..<e] q \<or>
       e < k' + 1 \<and> slot m ?b 255 = cmd_link x \<and> in_flight 1 m ?b ([k' + 1..<255] @ [0..<e]) q)"
    using d
  proof
    assume A: "k \<le> e \<and> in_flight 1 m ?b [k..<e] (t # q)"
    then have k: "k < e" by (cases "k = e") (auto simp: in_flight_def)
    with A have B: "payload (slot m ?b k) = t" "trb_c (slot m ?b k) = 1" "work_trb (slot m ?b k)"
      "in_flight 1 m ?b [k + 1..<e] q" by (simp_all add: upt_conv_Cons)
    show ?thesis
      using hc_step [OF ke(3) _ B(3,2)] B k ke by (intro exI [of _ k] exI [of _ "p + 16"]) simp
  next
    assume A: "e < k \<and> slot m ?b 255 = cmd_link x \<and> in_flight 1 m ?b ([k..<255] @ [0..<e]) (t # q)"
    show ?thesis
    proof (cases "k = 255")
      case True
      with A have e: "0 < e" by (cases "e = 0") (auto simp: in_flight_def)
      with A True have B: "payload (slot m ?b 0) = t" "trb_c (slot m ?b 0) = 1" "work_trb (slot m ?b 0)"
        "in_flight 1 m ?b [1..<e] q" by (simp_all add: upt_conv_Cons)
      have "hc_fetch m (p, 1) = hc_fetch m (VIRT2PHYS ?b, 1)"
        using A B ke True x by (intro hc_over_link [where k = 255]) (auto simp: link_fields)
      then show ?thesis
        using hc_step [of "VIRT2PHYS ?b" ?b 0 m 1] B e
        by (intro exI [of _ 0] exI [of _ "VIRT2PHYS ?b + 16"]) (simp add: slot_addr_def)
    next
      case False
      with A ke have k: "k < 255" by simp
      with A have B: "payload (slot m ?b k) = t" "trb_c (slot m ?b k) = 1" "work_trb (slot m ?b k)"
        "in_flight 1 m ?b ([k + 1..<255] @ [0..<e]) q" by (simp_all add: upt_conv_Cons)
      show ?thesis
        using hc_step [OF ke(3) _ B(3,2)] A B k ke by (intro exI [of _ k] exI [of _ "p + 16"]) simp
    qed
  qed
  then obtain k' p' where K: "hc_fetch m (p, 1) = Some (slot m ?b k', p', 1)" "payload (slot m ?b k') = t"
    "k' < 255" "PHYS2VIRT p' = slot_addr ?b (k' + 1)"
    "k' + 1 \<le> e \<and> in_flight 1 m ?b [k' + 1..<e] q \<or>
     e < k' + 1 \<and> slot m ?b 255 = cmd_link x \<and> in_flight 1 m ?b ([k' + 1..<255] @ [0..<e]) q"
    by blast
  have "cmd_holds ((x, m), (p', 1)) q"
    unfolding cmd_holds_def prod.case using x ke K
    by (intro conjI exI [of _ "k' + 1"] exI [of _ e]) simp_all
  then show ?thesis using K by (simp add: r x cmd_consume_def)
qed

interpretation cr: trb_ring cmd_produce cmd_consume cmd_holds 254
  by unfold_locales (rule cmd_holds_produce cmd_holds_empty cmd_holds_consume, assumption+)+


lemma cmd_holds_start:
  assumes "cmd_ring_size x = 0x1000" "cmd_ring_dcs x = 1" "cmd_ring_enqueue_ptr x = 0"
    and "trb_c (slot m (cmd_ring x) 0) = 0"
  shows "cmd_holds ((x, m), (VIRT2PHYS (cmd_ring x), 1)) []"
  unfolding cmd_holds_def prod.case using assms
  by (intro conjI exI [of _ 0]) (simp_all add: slot_addr_def)

text \<open>C19. The command ring is a queue across any number of wrap-arounds: whatever commands the
  driver inserts and whenever the controller looks, it fetches the commands in the order of
  insertion and once each, as long as it is never more than 254 commands behind, although the
  driver never toggles the ring's cycle bit.\<close>

theorem xhci_cmd_ring_fifo:
  assumes "cmd_ring_size x = 0x1000" "cmd_ring_dcs x = 1" "cmd_ring_enqueue_ptr x = 0"
    and "trb_c (trb_load m (cmd_ring x)) = 0" "within 254 ops 0"
  shows "ring_run cmd_produce cmd_consume ops ((x, m), (VIRT2PHYS (cmd_ring x), 1)) = fifo_run ops []"
  by (rule cr.run_fifo)
    (use assms in \<open>simp_all add: cmd_holds_start slot_def slot_addr_def\<close>)

definition blank_ring :: transfer_ring_status where
  "blank_ring = \<lparr>transfer_ring_base = 0, transfer_ring_size = 0, enquene_pointer = 0, dcs = 0\<rparr>"

definition blank_xhci :: xhci where
  "blank_xhci = \<lparr>mmio_virt = 0, hc_op_reg_offset = 0, hc_rt_reg_offset = 0, hc_doorbell_reg_offset = 0,
     hc_vt_reg_offset = 0, hc_ext_reg_offset = 0, dcbaa = 0, max_scratch_buffer_cnt = 0, nr_slot = 0,
     nr_port = 0, nr_intr = 0, cmd_ring = 0, cmd_ring_size = 0, cmd_ring_enqueue_ptr = 0, cmd_ring_dcs = 0,
     event_ring = 0, event_ring_size = 0, event_ring_dequeue_ptr = 0, event_ring_ccs = 0,
     event_ring_seg_table = 0,
     port = (\<lambda>_. \<lparr>slot_id = 0, transfer_ring_status = (\<lambda>_. blank_ring), input_context = 0\<rparr>),
     inflight_transfer_list = []\<rparr>"

lemma trb_load_zero: "trb_load (\<lambda>_. 0) a = 0"
proof -
  have "load_le n (\<lambda>_. 0) a = 0" for n a by (induction n arbitrary: a) simp_all
  then show ?thesis by (simp add: trb_load_def)
qed

lemma xhci_cmd_ring_fifo_witness:
  "ring_run cmd_produce cmd_consume
     [Produce (trb_set (106, 6) 9 0), Consume, Consume, Produce (trb_set (106, 6) 11 0), Produce 0, Consume]
     ((blank_xhci\<lparr>cmd_ring := 0xffff800000200000, cmd_ring_size := 0x1000, cmd_ring_dcs := 1\<rparr>, \<lambda>_. 0),
      (VIRT2PHYS 0xffff800000200000, 1)) =
   [Some (payload (trb_set (106, 6) 9 0)), None, Some (payload (trb_set (106, 6) 11 0))]"
  by (subst xhci_cmd_ring_fifo
        [of "blank_xhci\<lparr>cmd_ring := 0xffff800000200000, cmd_ring_size := 0x1000, cmd_ring_dcs := 1\<rparr>",
          simplified])
    (simp_all add: blank_xhci_def trb_load_zero work_trb_def trb_type_def usb_members usb_consts)

section \<open>Transfer rings as queues\<close>

definition tr_produce :: "nat \<Rightarrow> nat \<Rightarrow> trb \<Rightarrow> cmd_state \<Rightarrow> cmd_state" where
  "tr_produce p e t r = (snd (xhci_insert_transfer_trb p e t (fst r)), snd r)"

definition tr_holds :: "nat \<Rightarrow> nat \<Rightarrow> cmd_state \<Rightarrow> trb list \<Rightarrow> bool" where
  "tr_holds pt ep r q \<longleftrightarrow> (case r of ((x, m), (p, ccs)) \<Rightarrow>
     let t = the_ring pt ep x; b = transfer_ring_base t; d = ucast (dcs t) in
     (\<exists>k e. k \<le> 255 \<and> e \<le> 255 \<and> dcs t \<in> {0, 1} \<and> enquene_pointer t = of_nat e \<and>
        PHYS2VIRT p = slot_addr b k \<and>
        (\<forall>i<e. trb_c (slot m b i) = d) \<and> (\<forall>i\<in>{e..255}. trb_c (slot m b i) = 1 - d) \<and>
        (ccs = d \<and> k \<le> e \<and> in_flight d m b [k..<e] q \<or>
         ccs = 1 - d \<and> e \<le> k \<and> slot m b 255 = transfer_link (t\<lparr>dcs := 1 - dcs t\<rparr>) \<and>
           (\<exists>q1 q2. q = q1 @ q2 \<and> in_flight (1 - d) m b [k..<255] q1 \<and> in_flight d m b [0..<e] q2))))"

lemma the_ring_upd [simp]:
  "the_ring p e (upd_ring p e f x) = f (the_ring p e x)"
  by (simp add: the_ring_def upd_ring_def upd_port_def)

lemma tr_insert_slots:
  assumes x: "enquene_pointer (the_ring p ep x) = of_nat e" "e \<le> 255" "dcs (the_ring p ep x) \<in> {0, 1}"
    and r: "xhci_insert_transfer_trb p ep t (x, m) = (phys, x', m')"
  defines "e' \<equiv> if e = 255 then 0 else e"
    and "d' \<equiv> if e = 255 then 1 - dcs (the_ring p ep x) else dcs (the_ring p ep x)"
    and "b \<equiv> transfer_ring_base (the_ring p ep x)"
  shows "phys = VIRT2PHYS (slot_addr b e')"
    "the_ring p ep x' = (the_ring p ep x)\<lparr>enquene_pointer := of_nat (e' + 1), dcs := d'\<rparr>"
    "i < 1000 \<Longrightarrow> slot m' b i =
       (if i = e' then trb_set (96, 1) (ucast d') t
        else if e = 255 \<and> i = 255 then transfer_link (the_ring p ep x) else slot m b i)"
proof -
  have "(of_nat e :: u64) = of_nat 255 \<longleftrightarrow> e = 255"
    using x(2) by (auto dest!: arg_cong [where f = unat] simp: unsigned_of_nat take_bit_nat_eq_self)
  then have wrap: "scast (of_nat e :: u32) = (0x1000 div 16 - 1 :: u64) \<longleftrightarrow> e = 255"
    using x(2) by (subst scast_small) auto
  note R = r [unfolded xhci_insert_transfer_trb_def Let_def prod.case x(1) wrap]
  have flip: "NOT d AND 1 = 1 - d" if "d \<in> {0, 1}" for d :: u32 using that by auto
  have at: "trb_at b 255 = slot_addr b 255" for b using trb_at_slot [of 255 b] by simp
  show "phys = VIRT2PHYS (slot_addr b e')"
    "the_ring p ep x' = (the_ring p ep x)\<lparr>enquene_pointer := of_nat (e' + 1), dcs := d'\<rparr>"
    using R x(1,2) flip [OF x(3)]
    by (cases "e = 255"; auto simp: e'_def d'_def b_def trb_at_0 trb_at_slot add.commute)+
  show "slot m' b i =
       (if i = e' then trb_set (96, 1) (ucast d') t
        else if e = 255 \<and> i = 255 then transfer_link (the_ring p ep x) else slot m b i)" if i: "i < 1000"
  proof (cases "e = 255")
    case True
    have m': "m' = trb_store (trb_set (96, 1) (ucast d') t)
          (trb_store t (trb_store (transfer_link (the_ring p ep x)) m (slot_addr b 255)) (slot_addr b 0))
          (slot_addr b 0)"
      using R True flip [OF x(3)] by (auto simp: trb_at_0 at usb_members b_def d'_def)
    show ?thesis using i True by (auto simp: m' e'_def heap_simps)
  next
    case False
    then have m': "m' = trb_store (trb_set (96, 1) (ucast d') t) (trb_store t m (slot_addr b e)) (slot_addr b e)"
      using R x(2) by (auto simp: trb_at_slot usb_members b_def d'_def)
    show ?thesis using i x(2) False by (auto simp: m' e'_def heap_simps)
  qed
qed


lemma cycle_flip:
  "d \<in> {0, 1} \<Longrightarrow> 1 - d \<in> {0, 1 :: u32}" "d \<in> {0, 1} \<Longrightarrow> (ucast (1 - d) :: u64) = 1 - ucast d"
  "d \<in> {0, 1} \<Longrightarrow> 1 - (1 - d) = (d :: u32)" "d \<in> {0, 1} \<Longrightarrow> take_bit (Suc 0) (ucast d) = (ucast d :: u64)"
  "d \<in> {0, 1} \<Longrightarrow> (ucast d :: u64) \<noteq> 1 - ucast d" "d \<in> {0, 1} \<Longrightarrow> 1 - (1 - ucast d) = (ucast d :: u64)"
  "d \<in> {0, 1} \<Longrightarrow> take_bit (Suc 0) (1 - ucast d) = (1 - ucast d :: u64)"
  by auto

lemma tr_holds_produce:
  assumes h: "tr_holds pt ep r q" and t: "work_trb t" and len: "length q < 255"
  shows "tr_holds pt ep (tr_produce pt ep t r) (q @ [payload t])"
proof -
  obtain x m p ccs where r: "r = ((x, m), (p, ccs))" by (metis surj_pair)
  obtain x' m' ph where ins: "xhci_insert_transfer_trb pt ep t (x, m) = (ph, x', m')" by (metis surj_pair)
  let ?t = "the_ring pt ep x" let ?b = "transfer_ring_base ?t" let ?d = "ucast (dcs ?t) :: u64"
  from h [unfolded r tr_holds_def Let_def prod.case] obtain k e where
    x: "dcs ?t \<in> {0, 1}" "enquene_pointer ?t = of_nat e" and
    ke: "k \<le> 255" "e \<le> 255" "PHYS2VIRT p = slot_addr ?b k" and
    c: "\<forall>i<e. trb_c (slot m ?b i) = ?d" "\<forall>i\<in>{e..255}. trb_c (slot m ?b i) = 1 - ?d" and
    d: "ccs = ?d \<and> k \<le> e \<and> in_flight ?d m ?b [k..<e] q \<or>
        ccs = 1 - ?d \<and> e \<le> k \<and> slot m ?b 255 = transfer_link (?t\<lparr>dcs := 1 - dcs ?t\<rparr>) \<and>
          (\<exists>q1 q2. q = q1 @ q2 \<and> in_flight (1 - ?d) m ?b [k..<255] q1 \<and> in_flight ?d m ?b [0..<e] q2)"
    by blast
  define e' where "e' = (if e = 255 then 0 else e)"
  define d' where "d' = (if e = 255 then 1 - dcs ?t else dcs ?t)"
  note eff = tr_insert_slots [OF x(2) ke(2) x(1) ins, folded e'_def d'_def]
  have d': "d' \<in> {0, 1}" "take_bit (Suc 0) (ucast d') = (ucast d' :: u64)"
    using x(1) cycle_flip by (auto simp: d'_def)
  have new: "slot m' ?b e' = trb_set (96, 1) (ucast d') t"
    using eff(3) [of e'] ke(2) by (auto simp: e'_def)
  have keep: "slot m' ?b i = slot m ?b i" if "i < 255" "i \<noteq> e'" for i
    using eff(3) [of i] that by auto
  have one: "in_flight (ucast d') m' ?b [e'] [payload t]"
    using d'(2) by (simp add: new t)
  let ?t' = "the_ring pt ep x'"
  have t': "transfer_ring_base ?t' = ?b" "dcs ?t' = d'" "enquene_pointer ?t' = of_nat (e' + 1)"
    "transfer_link (?t'\<lparr>dcs := z\<rparr>) = transfer_link (?t\<lparr>dcs := z\<rparr>)" for z
    by (simp_all add: eff(2) transfer_link_def)
  have goal: "e' + 1 \<le> 255 \<and>
     (\<forall>i<e' + 1. trb_c (slot m' ?b i) = ucast d') \<and> (\<forall>i\<in>{e' + 1..255}. trb_c (slot m' ?b i) = 1 - ucast d') \<and>
     (ccs = ucast d' \<and> k \<le> e' + 1 \<and> in_flight (ucast d') m' ?b [k..<e' + 1] (q @ [payload t]) \<or>
      ccs = 1 - ucast d' \<and> e' + 1 \<le> k \<and> slot m' ?b 255 = transfer_link (?t\<lparr>dcs := 1 - d'\<rparr>) \<and>
        (\<exists>q1 q2. q @ [payload t] = q1 @ q2 \<and> in_flight (1 - ucast d') m' ?b [k..<255] q1 \<and>
           in_flight (ucast d') m' ?b [0..<e' + 1] q2))"
  proof (cases "e = 255")
    case True
    have d1: "ucast d' = 1 - ?d" "1 - ucast d' = ?d" "1 - d' = dcs ?t"
      using x(1) cycle_flip True by (simp_all add: d'_def)
    from d have q: "ccs = ?d \<and> in_flight ?d m ?b [k..<255] q \<and> length q = 255 - k"
    proof
      assume "ccs = ?d \<and> k \<le> e \<and> in_flight ?d m ?b [k..<e] q"
      then show ?thesis using True in_flight_length by fastforce
    next
      assume A: "ccs = 1 - ?d \<and> e \<le> k \<and> slot m ?b 255 = transfer_link (?t\<lparr>dcs := 1 - dcs ?t\<rparr>) \<and>
          (\<exists>q1 q2. q = q1 @ q2 \<and> in_flight (1 - ?d) m ?b [k..<255] q1 \<and> in_flight ?d m ?b [0..<e] q2)"
      then obtain q1 q2 where "q = q1 @ q2" "in_flight ?d m ?b [0..<e] q2" by blast
      then have "255 \<le> length q" using True in_flight_length by fastforce
      with len show ?thesis by simp
    qed
    with len have k: "1 \<le> k" by simp
    have old: "in_flight ?d m' ?b [k..<255] q"
      using q by (subst in_flight_cong [of _ _ _ m]) (use k keep True in \<open>auto simp: e'_def\<close>)
    have link: "slot m' ?b 255 = transfer_link ?t" using eff(3) [of 255] True by (simp add: e'_def)
    have same: "?t\<lparr>dcs := dcs ?t\<rparr> = ?t" by simp
    have c0: "trb_c (slot m' ?b 0) = ucast d'" using new d' True by (simp add: e'_def)
    have c1: "trb_c (slot m' ?b i) = ?d" if "1 \<le> i" "i \<le> 255" for i
    proof (cases "i = 255")
      case i: True
      then show ?thesis using x(1) cycle_flip(4) by (simp add: link link_fields)
    next
      case False
      then show ?thesis using that keep [of i] c(1) True by (simp add: e'_def)
    qed
    show ?thesis using q k old one link c0 c1 True
      by (intro conjI disjI2 exI [of _ q] exI [of _ "[payload t]"]) (auto simp: e'_def d1 same)
  next
    case False
    then have e': "e' = e" "d' = dcs ?t" by (simp_all add: e'_def d'_def)
    have link: "slot m' ?b 255 = slot m ?b 255" using eff(3) [of 255] False ke by (simp add: e'_def)
    have c0: "trb_c (slot m' ?b i) = ?d" if "i \<le> e" for i
      using that new d' e' keep [of i] c(1) ke False by (cases "i = e") auto
    have c1: "trb_c (slot m' ?b i) = 1 - ?d" if "e < i" "i \<le> 255" for i
      using that link keep [of i] c(2) e' by (cases "i = 255") auto
    from d show ?thesis
    proof
      assume A: "ccs = ?d \<and> k \<le> e \<and> in_flight ?d m ?b [k..<e] q"
      then have "length q = e - k" using in_flight_length by fastforce
      moreover have "in_flight ?d m' ?b [k..<e] q"
        using A ke False by (subst in_flight_cong [of _ _ _ m]) (use keep e' in auto)
      ultimately show ?thesis using A one c0 c1 False ke by (auto simp: e')
    next
      assume A: "ccs = 1 - ?d \<and> e \<le> k \<and> slot m ?b 255 = transfer_link (?t\<lparr>dcs := 1 - dcs ?t\<rparr>) \<and>
          (\<exists>q1 q2. q = q1 @ q2 \<and> in_flight (1 - ?d) m ?b [k..<255] q1 \<and> in_flight ?d m ?b [0..<e] q2)"
      then obtain q1 q2 where q: "q = q1 @ q2" "in_flight (1 - ?d) m ?b [k..<255] q1"
        "in_flight ?d m ?b [0..<e] q2" by blast
      then have l: "length q1 = 255 - k" "length q2 = e" using in_flight_length by fastforce+
      with q(1) len A ke have k: "e + 1 \<le> k" by simp
      have "in_flight (1 - ?d) m' ?b [k..<255] q1"
        using q(2) by (subst in_flight_cong [of _ _ _ m]) (use keep e' k in auto)
      moreover have "in_flight ?d m' ?b [0..<e] q2"
        using q(3) by (subst in_flight_cong [of _ _ _ m]) (use keep e' k ke in auto)
      then have "in_flight ?d m' ?b [0..<e + 1] (q2 @ [payload t])"
        using one l by (simp add: e')
      ultimately show ?thesis
        using A k c0 c1 False ke q(1) link
        by (intro conjI disjI2 exI [of _ q1] exI [of _ "q2 @ [payload t]"]) (auto simp: e')
    qed
  qed
  show ?thesis
    unfolding r tr_produce_def tr_holds_def ins fst_conv snd_conv prod.case Let_def t'
    by (intro exI [of _ k] exI [of _ "e' + 1"]) (use goal ke d' in \<open>simp add: t'\<close>)
qed

lemma tr_holds_start:
  assumes "dcs (the_ring pt ep x) = 1" "enquene_pointer (the_ring pt ep x) = 0"
    and "\<forall>i<256. trb_c (slot m (transfer_ring_base (the_ring pt ep x)) i) = 0"
  shows "tr_holds pt ep ((x, m), (VIRT2PHYS (transfer_ring_base (the_ring pt ep x)), 1)) []"
  unfolding tr_holds_def prod.case Let_def using assms
  by (intro exI [of _ 0]) (simp add: slot_addr_def)

lemma tr_holds_empty: "tr_holds pt ep r [] \<Longrightarrow> cmd_consume r = None"
proof -
  assume h: "tr_holds pt ep r []"
  obtain x m p ccs where r: "r = ((x, m), (p, ccs))" by (metis surj_pair)
  let ?t = "the_ring pt ep x" let ?b = "transfer_ring_base ?t" let ?d = "ucast (dcs ?t) :: u64"
  from h [unfolded r tr_holds_def Let_def prod.case] obtain k e where
    x: "dcs ?t \<in> {0, 1}" and
    ke: "k \<le> 255" "e \<le> 255" "PHYS2VIRT p = slot_addr ?b k" and
    c: "\<forall>i\<in>{e..255}. trb_c (slot m ?b i) = 1 - ?d" and
    d: "ccs = ?d \<and> k \<le> e \<and> in_flight ?d m ?b [k..<e] [] \<or>
        ccs = 1 - ?d \<and> e \<le> k \<and> slot m ?b 255 = transfer_link (?t\<lparr>dcs := 1 - dcs ?t\<rparr>) \<and>
          (\<exists>q1 q2. [] = q1 @ q2 \<and> in_flight (1 - ?d) m ?b [k..<255] q1 \<and> in_flight ?d m ?b [0..<e] q2)"
    by blast
  have "hc_fetch m (p, ccs) = None"
    using d
  proof
    assume A: "ccs = ?d \<and> k \<le> e \<and> in_flight ?d m ?b [k..<e] []"
    then have "k = e" by auto
    then show ?thesis using hc_blocked [OF ke(3), of m ccs] A c ke cycle_flip(5) [OF x] by auto
  next
    assume A: "ccs = 1 - ?d \<and> e \<le> k \<and> slot m ?b 255 = transfer_link (?t\<lparr>dcs := 1 - dcs ?t\<rparr>) \<and>
          (\<exists>q1 q2. [] = q1 @ q2 \<and> in_flight (1 - ?d) m ?b [k..<255] q1 \<and> in_flight ?d m ?b [0..<e] q2)"
    then obtain q1 q2 where "[] = q1 @ q2" "in_flight (1 - ?d) m ?b [k..<255] q1" "in_flight ?d m ?b [0..<e] q2"
      by blast
    then have "[k..<255] = []" "[0..<e] = []" by simp_all
    then have e: "e = 0" "k = 255" using ke by simp_all
    then have s0: "trb_c (slot m ?b 0) = 1 - ?d" using c by simp
    have "hc_fetch m (p, ccs) = hc_fetch m (VIRT2PHYS ?b, ?d)"
      using A e ke x s0 cycle_flip [OF x] by (intro hc_over_link [where k = 255]) (simp_all add: link_fields)
    also have "\<dots> = None"
      using s0 cycle_flip(5) [OF x] by (intro hc_blocked [where k = 0]) (auto simp: slot_addr_def)
    finally show ?thesis .
  qed
  then show ?thesis by (simp add: r cmd_consume_def)
qed

lemma tr_holds_consume:
  assumes h: "tr_holds pt ep r (t # q)"
  shows "\<exists>u r'. cmd_consume r = Some (u, r') \<and> payload u = t \<and> tr_holds pt ep r' q"
proof -
  obtain x m p ccs where r: "r = ((x, m), (p, ccs))" by (metis surj_pair)
  let ?t = "the_ring pt ep x" let ?b = "transfer_ring_base ?t" let ?d = "ucast (dcs ?t) :: u64"
  let ?L = "slot m ?b 255 = transfer_link (?t\<lparr>dcs := 1 - dcs ?t\<rparr>)"
  from h [unfolded r tr_holds_def Let_def prod.case] obtain k e where
    x: "dcs ?t \<in> {0, 1}" "enquene_pointer ?t = of_nat e" and
    ke: "k \<le> 255" "e \<le> 255" "PHYS2VIRT p = slot_addr ?b k" and
    c: "\<forall>i<e. trb_c (slot m ?b i) = ?d" "\<forall>i\<in>{e..255}. trb_c (slot m ?b i) = 1 - ?d" and
    d: "ccs = ?d \<and> k \<le> e \<and> in_flight ?d m ?b [k..<e] (t # q) \<or>
        ccs = 1 - ?d \<and> e \<le> k \<and> ?L \<and>
          (\<exists>q1 q2. t # q = q1 @ q2 \<and> in_flight (1 - ?d) m ?b [k..<255] q1 \<and> in_flight ?d m ?b [0..<e] q2)"
    by blast
  have "\<exists>k' p' c'. hc_fetch m (p, ccs) = Some (slot m ?b k', p', c') \<and> payload (slot m ?b k') = t \<and> k' < 255 \<and>
      PHYS2VIRT p' = slot_addr ?b (k' + 1) \<and>
      (c' = ?d \<and> k' + 1 \<le> e \<and> in_flight ?d m ?b [k' + 1..<e] q \<or>
       c' = 1 - ?d \<and> e \<le> k' + 1 \<and> ?L \<and>
         (\<exists>q1 q2. q = q1 @ q2 \<and> in_flight (1 - ?d) m ?b [k' + 1..<255] q1 \<and> in_flight ?d m ?b [0..<e] q2))"
    using d
  proof
    assume A: "ccs = ?d \<and> k \<le> e \<and> in_flight ?d m ?b [k..<e] (t # q)"
    then have k: "k < e" by (cases "k = e") (auto simp: in_flight_def)
    with A have B: "payload (slot m ?b k) = t" "trb_c (slot m ?b k) = ?d" "work_trb (slot m ?b k)"
      "in_flight ?d m ?b [k + 1..<e] q" by (simp_all add: upt_conv_Cons)
    show ?thesis
      using hc_step [OF ke(3) _ B(3,2)] A B k ke by (intro exI [of _ k] exI [of _ "p + 16"] exI [of _ ?d]) simp
  next
    assume A: "ccs = 1 - ?d \<and> e \<le> k \<and> ?L \<and>
          (\<exists>q1 q2. t # q = q1 @ q2 \<and> in_flight (1 - ?d) m ?b [k..<255] q1 \<and> in_flight ?d m ?b [0..<e] q2)"
    then obtain q1 q2 where q: "t # q = q1 @ q2" "in_flight (1 - ?d) m ?b [k..<255] q1"
      "in_flight ?d m ?b [0..<e] q2" by blast
    show ?thesis
    proof (cases "k = 255")
      case True
      then have q2: "q1 = []" "q2 = t # q" using q by auto
      then have e: "0 < e" using q by (cases "e = 0") (auto simp: in_flight_def)
      with q q2 have B: "payload (slot m ?b 0) = t" "trb_c (slot m ?b 0) = ?d" "work_trb (slot m ?b 0)"
        "in_flight ?d m ?b [1..<e] q" by (simp_all add: upt_conv_Cons)
      have "hc_fetch m (p, ccs) = hc_fetch m (VIRT2PHYS ?b, ?d)"
        using A B ke True x cycle_flip [OF x(1)]
        by (intro hc_over_link [where k = 255]) (simp_all add: link_fields)
      then show ?thesis
        using hc_step [of "VIRT2PHYS ?b" ?b 0 m ?d] B e
        by (intro exI [of _ 0] exI [of _ "VIRT2PHYS ?b + 16"] exI [of _ ?d]) (simp add: slot_addr_def)
    next
      case False
      with ke have k: "k < 255" by simp
      with q obtain q1' where q1: "q1 = t # q1'" "q = q1' @ q2"
        by (cases q1) (auto simp: in_flight_def)
      with k q have B: "payload (slot m ?b k) = t" "trb_c (slot m ?b k) = 1 - ?d" "work_trb (slot m ?b k)"
        "in_flight (1 - ?d) m ?b [k + 1..<255] q1'" by (simp_all add: upt_conv_Cons)
      show ?thesis
        using hc_step [OF ke(3) _ B(3,2)] A B k ke q q1
        by (intro exI [of _ k] exI [of _ "p + 16"] exI [of _ "1 - ?d"]) auto
    qed
  qed
  then obtain k' p' c' where K: "hc_fetch m (p, ccs) = Some (slot m ?b k', p', c')" "payload (slot m ?b k') = t"
    "k' < 255" "PHYS2VIRT p' = slot_addr ?b (k' + 1)"
    "c' = ?d \<and> k' + 1 \<le> e \<and> in_flight ?d m ?b [k' + 1..<e] q \<or>
       c' = 1 - ?d \<and> e \<le> k' + 1 \<and> ?L \<and>
         (\<exists>q1 q2. q = q1 @ q2 \<and> in_flight (1 - ?d) m ?b [k' + 1..<255] q1 \<and> in_flight ?d m ?b [0..<e] q2)"
    by blast
  have "tr_holds pt ep ((x, m), (p', c')) q"
    unfolding tr_holds_def prod.case Let_def using x ke c K
    by (intro exI [of _ "k' + 1"] exI [of _ e]) simp
  then show ?thesis using K by (simp add: r cmd_consume_def)
qed

interpretation tr: trb_ring "tr_produce pt ep" cmd_consume "tr_holds pt ep" 255 for pt ep
  by unfold_locales (rule tr_holds_produce tr_holds_empty tr_holds_consume, assumption+)+

text \<open>C9. A transfer ring is a queue across any number of wrap-arounds: with the link TRB that
  toggles the cycle state, the controller fetches exactly the TRBs inserted, in order and once
  each, as long as it is never more than 255 TRBs behind. \<^verbatim>\<open>xhci_insert_transfer_trb\<close> does not
  look at where the controller is.\<close>

theorem xhci_transfer_ring_fifo:
  assumes "dcs (the_ring pt ep x) = 1" "enquene_pointer (the_ring pt ep x) = 0"
    and "\<forall>i<256. trb_c (slot m (transfer_ring_base (the_ring pt ep x)) i) = 0" "within 255 ops 0"
  shows "ring_run (tr_produce pt ep) cmd_consume ops
      ((x, m), (VIRT2PHYS (transfer_ring_base (the_ring pt ep x)), 1)) = fifo_run ops []"
  by (rule tr.run_fifo) (use assms in \<open>simp_all add: tr_holds_start\<close>)

lemma xhci_transfer_ring_fifo_witness:
  "ring_run (tr_produce 3 1) cmd_consume [Consume, Produce (trb_set (106, 6) 1 7), Consume]
     ((upd_ring 3 1 (\<lambda>_. \<lparr>transfer_ring_base = 0xffff800000200000, transfer_ring_size = 0,
         enquene_pointer = 0, dcs = 1\<rparr>) blank_xhci, \<lambda>_. 0),
      (VIRT2PHYS 0xffff800000200000, 1)) =
   [None, Some (payload (trb_set (106, 6) 1 7))]"
  using xhci_transfer_ring_fifo
        [of 3 1 "upd_ring 3 1 (\<lambda>_. \<lparr>transfer_ring_base = 0xffff800000200000, transfer_ring_size = 0,
         enquene_pointer = 0, dcs = 1\<rparr>) blank_xhci" "\<lambda>_. 0" "[Consume, Produce (trb_set (106, 6) 1 7), Consume]"]
  by (simp add: trb_load_zero slot_def work_trb_def trb_type_def usb_members usb_consts)

end
