(* ===== verification/Xhci.thy ===== *)
theory Xhci
  imports Xhci_Ring Math_Util
begin

text \<open>
  The xHCI driver (\<^verbatim>\<open>drivers/usb/xhci.c\<close>) above its rings: waiting for completions, the interrupt
  handler with its events, control and bulk transfers, the set-up of devices and of the controller.
  The controller is an argument: \<open>io\<close> reads and writes its registers at virtual addresses and lets
  it act on memory, which the model does once per turn of a polling loop. \<^verbatim>\<open>None\<close> is a run that
  does not come back, an access outside an array, or one through a null pointer. \<^verbatim>\<open>kfree\<close> is empty,
  \<^verbatim>\<open>printk\<close> and \<^verbatim>\<open>udelay\<close> are left out.
\<close>

section \<open>State\<close>

datatype completion = No_completion | Usb_kbd_irq | Usb_mouse_irq | Mass_storage_data_irq | Mass_storage_status_irq

text \<open>A setup packet is kept by value, as the 64 bits of \<^verbatim>\<open>struct usb_ctrlrequest\<close>.\<close>

record urb =
  urb_pipe :: u32
  urb_setup_packet :: trb
  urb_transfer_buffer :: u64
  urb_transfer_buffer_length :: u32
  urb_dev :: u64
  urb_context :: u64
  urb_interval :: u32
  urb_start_frame :: u32
  urb_polling_wait :: bool
  urb_complete :: completion

record usb_endpoint =
  ep_desc :: "nat \<Rightarrow> u8"

record usb_interface =
  if_desc :: "nat \<Rightarrow> u8"
  if_endpoint_list :: "u64 list"

record usb_device =
  udev_port :: u32
  udev_slot :: u32
  udev_speed :: u32
  udev_interface_head :: "u64 list"

record 'd usb =
  u_pci :: "'d pci"
  u_mem :: bmem
  u_x :: xhci
  u_urb :: "u64 \<Rightarrow> urb"
  u_udev :: "u64 \<Rightarrow> usb_device"
  u_intf :: "u64 \<Rightarrow> usb_interface"
  u_endp :: "u64 \<Rightarrow> usb_endpoint"
  usb_dev_list :: "u64 list"

record 'd hc_io =
  io_rd32 :: "u64 \<Rightarrow> 'd \<Rightarrow> u32 \<times> 'd"
  io_wr32 :: "u64 \<Rightarrow> u32 \<Rightarrow> 'd \<Rightarrow> 'd"
  io_dma :: "bmem \<Rightarrow> 'd \<Rightarrow> bmem \<times> 'd"

definition u_hw :: "'d usb \<Rightarrow> 'd" where "u_hw s = p_hw (u_pci s)"

definition upd_hw :: "('d \<Rightarrow> 'd) \<Rightarrow> 'd usb \<Rightarrow> 'd usb" where
  "upd_hw f s = s\<lparr>u_pci := (u_pci s)\<lparr>p_hw := f (p_hw (u_pci s))\<rparr>\<rparr>"

definition usb_dma :: "'d hc_io \<Rightarrow> 'd usb \<Rightarrow> 'd usb" where
  "usb_dma io s = (let (m, d) = io_dma io (u_mem s) (u_hw s) in upd_hw (\<lambda>_. d) (s\<lparr>u_mem := m\<rparr>))"

definition usb_kmalloc :: "u64 \<Rightarrow> 'd usb \<Rightarrow> (u64 \<times> 'd usb) option" where
  "usb_kmalloc sz s = do { (a, p) \<leftarrow> pci_kmalloc sz (u_pci s); Some (a, s\<lparr>u_pci := p\<rparr>) }"

definition upd_mem :: "(bmem \<Rightarrow> bmem) \<Rightarrow> 'd usb \<Rightarrow> 'd usb" where
  "upd_mem f s = s\<lparr>u_mem := f (u_mem s)\<rparr>"

definition upd_x :: "(xhci \<Rightarrow> xhci) \<Rightarrow> 'd usb \<Rightarrow> 'd usb" where
  "upd_x f s = s\<lparr>u_x := f (u_x s)\<rparr>"

definition ring_op :: "(xhci \<times> bmem \<Rightarrow> 'a \<times> xhci \<times> bmem) \<Rightarrow> 'd usb \<Rightarrow> 'a \<times> 'd usb" where
  "ring_op f s = (let (r, x, m) = f (u_x s, u_mem s) in (r, s\<lparr>u_x := x, u_mem := m\<rparr>))"

section \<open>Registers\<close>

text \<open>\<^verbatim>\<open>mmio_virt[offset / 4]\<close>.\<close>

definition mmio_at :: "xhci \<Rightarrow> u64 \<Rightarrow> u64" where
  "mmio_at x offset = mmio_virt x + 4 * (offset div 4)"

definition mmio_rd :: "'d hc_io \<Rightarrow> u64 \<Rightarrow> 'd usb \<Rightarrow> u32 \<times> 'd usb" where
  "mmio_rd io offset s = (let (v, d) = io_rd32 io (mmio_at (u_x s) offset) (u_hw s) in (v, upd_hw (\<lambda>_. d) s))"

definition mmio_wr :: "'d hc_io \<Rightarrow> u64 \<Rightarrow> u32 \<Rightarrow> 'd usb \<Rightarrow> 'd usb" where
  "mmio_wr io offset v s = upd_hw (io_wr32 io (mmio_at (u_x s) offset) v) s"

definition xhci_cap_rd32 :: "'d hc_io \<Rightarrow> u64 \<Rightarrow> 'd usb \<Rightarrow> u32 \<times> 'd usb" where
  "xhci_cap_rd32 io offset = mmio_rd io offset"

definition xhci_cap_wr32 :: "'d hc_io \<Rightarrow> u64 \<Rightarrow> u32 \<Rightarrow> 'd usb \<Rightarrow> 'd usb" where
  "xhci_cap_wr32 io offset v = mmio_wr io offset v"

definition xhci_opreg_rd32 :: "'d hc_io \<Rightarrow> u64 \<Rightarrow> 'd usb \<Rightarrow> u32 \<times> 'd usb" where
  "xhci_opreg_rd32 io offset s = mmio_rd io (hc_op_reg_offset (u_x s) + offset) s"

definition xhci_opreg_wr32 :: "'d hc_io \<Rightarrow> u64 \<Rightarrow> u32 \<Rightarrow> 'd usb \<Rightarrow> 'd usb" where
  "xhci_opreg_wr32 io offset v s = mmio_wr io (hc_op_reg_offset (u_x s) + offset) v s"

definition xhci_opreg_wr64 :: "'d hc_io \<Rightarrow> u64 \<Rightarrow> u64 \<Rightarrow> 'd usb \<Rightarrow> 'd usb" where
  "xhci_opreg_wr64 io offset v s =
     xhci_opreg_wr32 io (offset + 4) (ucast (drop_bit 32 v)) (xhci_opreg_wr32 io offset (ucast v) s)"

definition xhci_rtreg_rd32 :: "'d hc_io \<Rightarrow> u64 \<Rightarrow> 'd usb \<Rightarrow> u32 \<times> 'd usb" where
  "xhci_rtreg_rd32 io offset s = mmio_rd io (hc_rt_reg_offset (u_x s) + offset) s"

definition xhci_rtreg_wr32 :: "'d hc_io \<Rightarrow> u64 \<Rightarrow> u32 \<Rightarrow> 'd usb \<Rightarrow> 'd usb" where
  "xhci_rtreg_wr32 io offset v s = mmio_wr io (hc_rt_reg_offset (u_x s) + offset) v s"

definition xhci_rtreg_rd64 :: "'d hc_io \<Rightarrow> u64 \<Rightarrow> 'd usb \<Rightarrow> u64 \<times> 'd usb" where
  "xhci_rtreg_rd64 io offset s =
     (let (lo, s) = xhci_rtreg_rd32 io offset s;
          (hi, s) = xhci_rtreg_rd32 io (offset + 4) s
      in (ucast lo OR push_bit 32 (ucast hi), s))"

definition xhci_rtreg_wr64 :: "'d hc_io \<Rightarrow> u64 \<Rightarrow> u64 \<Rightarrow> 'd usb \<Rightarrow> 'd usb" where
  "xhci_rtreg_wr64 io offset v s =
     xhci_rtreg_wr32 io (offset + 4) (ucast (drop_bit 32 v)) (xhci_rtreg_wr32 io offset (ucast v) s)"

definition xhci_doorbell_reg_wr32 :: "'d hc_io \<Rightarrow> u64 \<Rightarrow> u32 \<Rightarrow> 'd usb \<Rightarrow> 'd usb" where
  "xhci_doorbell_reg_wr32 io offset v s =
     (let s = mmio_wr io (hc_doorbell_reg_offset (u_x s) + offset) v s
      in snd (mmio_rd io (hc_doorbell_reg_offset (u_x s) + offset) s))"

section \<open>Waiting for an event\<close>

text \<open>One pass over a stretch of the event ring, from the physical address \<open>p\<close> as long as
  \<open>inside\<close> says: the address of the first entry of the type \<open>ty\<close> with the parameter \<open>key\<close>,
  or a null pointer. \<open>chk\<close> says whether the cycle bit is looked at.\<close>

partial_function (option) event_scan ::
    "(u64 \<Rightarrow> bool) \<Rightarrow> bool \<Rightarrow> u64 \<Rightarrow> u64 \<Rightarrow> u64 \<Rightarrow> u64 \<Rightarrow> u64 \<Rightarrow> bmem \<Rightarrow> u64 option" where
  "event_scan inside chk ty key ccs p i m =
     (if inside (p + i * 16) then
        let t = trb_load m (PHYS2VIRT p + 16 * i) in
        if (chk \<longrightarrow> trb_c t = ccs AND 1) \<and> trb_type t = ty \<and>
           trb_get (member_of trb_template ''parameter'') t = key
        then Some (PHYS2VIRT p + 16 * i)
        else event_scan inside chk ty key ccs p (i + 1) m
      else Some 0)"

definition segment_base :: "'d usb \<Rightarrow> u64" where
  "segment_base s = mem_get (member_of event_ring_segment_table_entry ''ring_segment_base_addr'')
     (u_mem s) (event_ring_seg_table (u_x s))"

text \<open>The two passes of one turn: from the dequeue pointer to the end of the ring, and from its
  start to the dequeue pointer with the cycle state inverted. \<open>chk2\<close> is whether the second pass
  looks at the cycle bit.\<close>

definition poll_once :: "bool \<Rightarrow> u64 \<Rightarrow> u64 \<Rightarrow> u64 \<Rightarrow> u64 \<Rightarrow> 'd usb \<Rightarrow> u64 option" where
  "poll_once chk2 ty key erdp ccs s = do {
     a \<leftarrow> event_scan (\<lambda>p. p < segment_base s + event_ring_size (u_x s)) True ty key ccs erdp 0 (u_mem s);
     if a \<noteq> 0 then Some a
     else event_scan (\<lambda>p. p \<le> erdp - 16) chk2 ty key (NOT ccs) (segment_base s) 0 (u_mem s)
   }"

text \<open>\<^verbatim>\<open>ccs\<close> is set once before the loop and inverted in every turn; \<^verbatim>\<open>j\<close> starts at the
  \<^verbatim>\<open>int\<close> 0xffffffff and is counted down to 0.\<close>

function cmd_poll :: "'d hc_io \<Rightarrow> nat \<Rightarrow> u64 \<Rightarrow> u64 \<Rightarrow> u64 \<Rightarrow> 'd usb \<Rightarrow> (u64 \<times> 'd usb) option" where
  "cmd_poll io j erdp ccs key s =
     (if j = 0 then Some (0, s)
      else do {
        let s = usb_dma io s;
        a \<leftarrow> poll_once False TRB_COMMAND_COMPLETION_EVENT key erdp ccs s;
        if a \<noteq> 0 then Some (a, s) else cmd_poll io (j - 1) erdp (NOT ccs) key s
      })"
  by auto
termination by (relation "measure (\<lambda>(io, j, _). j)") auto

definition erdp_reg :: u64 where "erdp_reg = XHCI_HC_IR 0 + XHCI_HC_IR_ERDP"

definition xhci_wait_cmd_completion :: "'d hc_io \<Rightarrow> u32 \<Rightarrow> 'd usb \<Rightarrow> (u64 \<times> 'd usb) option" where
  "xhci_wait_cmd_completion io cmd_index s =
     (let (erdp, s) = xhci_rtreg_rd64 io erdp_reg s;
          erdp = erdp AND NOT 0xf;
          cmd_trb_phys = VIRT2PHYS (trb_at (cmd_ring (u_x s)) cmd_index)
      in cmd_poll io 0xffffffff erdp (event_ring_ccs (u_x s)) cmd_trb_phys s)"

function transfer_poll :: "'d hc_io \<Rightarrow> nat \<Rightarrow> u64 \<Rightarrow> u64 \<Rightarrow> 'd usb \<Rightarrow> (u64 \<times> 'd usb) option" where
  "transfer_poll io j erdp key s =
     (if j = 0 then Some (0, s)
      else do {
        let s = usb_dma io s;
        a \<leftarrow> poll_once True TRB_TRANSFER_EVENT key erdp (event_ring_ccs (u_x s)) s;
        if a \<noteq> 0 then Some (a, s) else transfer_poll io (j - 1) erdp key s
      })"
  by auto
termination by (relation "measure (\<lambda>(io, j, _). j)") auto

declare cmd_poll.simps [simp del] transfer_poll.simps [simp del]

definition xhci_wait_transfer_completion :: "'d hc_io \<Rightarrow> u64 \<Rightarrow> 'd usb \<Rightarrow> (u64 \<times> 'd usb) option" where
  "xhci_wait_transfer_completion io trb_phys_addr s =
     (let (erdp, s) = xhci_rtreg_rd64 io erdp_reg s;
          erdp = erdp AND NOT 0xf
      in transfer_poll io 10000000 erdp trb_phys_addr s)"

section \<open>Commands\<close>

text \<open>Every command is put into the ring, the doorbell is rung, and the driver waits for the
  completion event; a null pointer is dereferenced by some of the callers.\<close>

definition run_command :: "'d hc_io \<Rightarrow> trb \<Rightarrow> 'd usb \<Rightarrow> (u64 \<times> 'd usb) option" where
  "run_command io cmd s =
     (let (index, s) = ring_op (xhci_cmd_ring_insert cmd) s;
          s = xhci_doorbell_reg_wr32 io 0 0 s
      in xhci_wait_cmd_completion io index s)"

definition completion_code :: "u64 \<Rightarrow> 'd usb \<Rightarrow> u64" where
  "completion_code a s = trb_get (member_of command_completion_event_trb ''completion_code'') (trb_load (u_mem s) a)"

definition command_result :: "'d hc_io \<Rightarrow> trb \<Rightarrow> 'd usb \<Rightarrow> (int \<times> 'd usb) option" where
  "command_result io cmd s = do {
     (a, s) \<leftarrow> run_command io cmd s;
     Some (if a = 0 \<or> completion_code a s \<noteq> 1 then - 1 else 0, s)
   }"

definition xhci_cmd_enable_slot :: "'d hc_io \<Rightarrow> 'd usb \<Rightarrow> (u32 \<times> 'd usb) option" where
  "xhci_cmd_enable_slot io s = do {
     let cmd = trb_set (member_of trb_template ''trb_type'') TRB_ENABLE_SLOT_CMD 0;
     (a, s) \<leftarrow> run_command io cmd s;
     if a = 0 then None
     else Some (ucast (trb_get (member_of command_completion_event_trb ''slot_id'') (trb_load (u_mem s) a)), s)
   }"

definition xhci_cmd_disable_slot :: "'d hc_io \<Rightarrow> u32 \<Rightarrow> 'd usb \<Rightarrow> (int \<times> 'd usb) option" where
  "xhci_cmd_disable_slot io slot_nr =
     command_result io
       (trb_set (member_of trb_template ''control'') (scast (push_bit 8 slot_nr))
         (trb_set (member_of trb_template ''trb_type'') TRB_DISABLE_SLOT_CMD 0))"

definition xhci_cmd_address_device :: "'d hc_io \<Rightarrow> u64 \<Rightarrow> u32 \<Rightarrow> 'd usb \<Rightarrow> (int \<times> 'd usb) option" where
  "xhci_cmd_address_device io input_ctx slot_nr s = do {
     let t = trb_set (member_of address_device_trb ''input_context_ptr_lo'') (VIRT2PHYS input_ctx) 0;
     let t = trb_set (member_of address_device_trb ''input_context_ptr_hi'') (drop_bit 32 (VIRT2PHYS input_ctx)) t;
     let t = trb_set (member_of address_device_trb ''trb_type'') TRB_ADDRESS_DEVICE_CMD t;
     let t = trb_set (member_of address_device_trb ''slot_id'') (scast slot_nr) t;
     let t = trb_set (member_of address_device_trb ''bsr'') 0 t;
     (a, s) \<leftarrow> run_command io t s;
     if a = 0 then None else Some (if completion_code a s \<noteq> 1 then - 1 else 0, s)
   }"

definition xhci_cmd_configure_endpoint :: "'d hc_io \<Rightarrow> u64 \<Rightarrow> u32 \<Rightarrow> 'd usb \<Rightarrow> (int \<times> 'd usb) option" where
  "xhci_cmd_configure_endpoint io input_ctx slot_nr s = do {
     let t = trb_set (member_of configure_endpoint_trb ''input_context_ptr_lo'') (VIRT2PHYS input_ctx) 0;
     let t = trb_set (member_of configure_endpoint_trb ''input_context_ptr_hi'') (drop_bit 32 (VIRT2PHYS input_ctx)) t;
     let t = trb_set (member_of configure_endpoint_trb ''trb_type'') TRB_CONFIG_ENDPOINT_CMD t;
     let t = trb_set (member_of configure_endpoint_trb ''slot_id'') (scast slot_nr) t;
     let t = trb_set (member_of configure_endpoint_trb ''dc'') 0 t;
     let t = trb_set (member_of configure_endpoint_trb ''c'') 1 t;
     command_result io t s
   }"

definition xhci_cmd_evaluate_context :: "'d hc_io \<Rightarrow> u64 \<Rightarrow> u32 \<Rightarrow> 'd usb \<Rightarrow> (int \<times> 'd usb) option" where
  "xhci_cmd_evaluate_context io input_ctx slot_nr s = do {
     let t = trb_set (member_of evaluate_context_trb ''input_context_ptr_lo'') (VIRT2PHYS input_ctx) 0;
     let t = trb_set (member_of evaluate_context_trb ''input_context_ptr_hi'') (drop_bit 32 (VIRT2PHYS input_ctx)) t;
     let t = trb_set (member_of evaluate_context_trb ''trb_type'') TRB_EVALUATE_CONTEXT_CMD t;
     let t = trb_set (member_of evaluate_context_trb ''slot_id'') (scast slot_nr) t;
     let t = trb_set (member_of evaluate_context_trb ''bsr'') 0 t;
     command_result io t s
   }"

definition xhci_stop_endpoint :: "'d hc_io \<Rightarrow> u32 \<Rightarrow> u32 \<Rightarrow> 'd usb \<Rightarrow> (int \<times> 'd usb) option" where
  "xhci_stop_endpoint io slot_nr endpoint_id =
     command_result io
       (trb_set (member_of trb_template ''control'') (scast (push_bit 8 slot_nr OR endpoint_id))
         (trb_set (member_of trb_template ''trb_type'') TRB_STOP_ENDPOINT_CMD 0))"

definition xhci_reset_endpoint :: "'d hc_io \<Rightarrow> u32 \<Rightarrow> u32 \<Rightarrow> 'd usb \<Rightarrow> (int \<times> 'd usb) option" where
  "xhci_reset_endpoint io slot_nr endpoint_id =
     command_result io
       (trb_set (member_of trb_template ''reserved1'') 0
         (trb_set (member_of trb_template ''control'') (scast (push_bit 8 slot_nr OR endpoint_id))
           (trb_set (member_of trb_template ''trb_type'') TRB_RESET_ENDPOINT_CMD 0)))"

section \<open>Transfers\<close>

definition ep_addr_to_dci :: "u32 \<Rightarrow> u32" where
  "ep_addr_to_dci ep_addr =
     (let index = (ep_addr AND 0x7f) * 2
      in if ep_addr = 0 then 0 else if ep_addr AND 0x80 \<noteq> 0 then index + 1 else index)"

text \<open>The arrays \<^verbatim>\<open>port\<close> and \<^verbatim>\<open>transfer_ring_status\<close> have 32 elements each.\<close>

definition array_index :: "u32 \<Rightarrow> nat option" where
  "array_index i = (if unat i < 32 then Some (unat i) else None)"

definition setup_trb :: "bool \<Rightarrow> trb \<Rightarrow> trb" where
  "setup_trb direction req =
     (let get = (\<lambda>f. trb_get (member_of usb_ctrlrequest f) req);
          set = (\<lambda>f. trb_set (member_of setup_stage_trb f));
          t = set ''b_request'' (get ''bRequest'') 0;
          t = set ''bm_request_type'' (get ''bRequestType'') t;
          t = set ''w_value'' (get ''wValue'') t;
          t = set ''w_index'' (get ''wIndex'') t;
          t = set ''w_length'' (get ''wLength'') t;
          t = set ''trb_type'' TRB_SETUP_STAGE t;
          t = set ''trb_transfer_len'' 8 t;
          t = set ''idt'' 1 t
      in set ''trt'' (if get ''wLength'' = 0 then 0 else if direction then 3 else 2) t)"

definition data_trb :: "bool \<Rightarrow> u64 \<Rightarrow> trb \<Rightarrow> trb" where
  "data_trb direction buf req =
     (let set = (\<lambda>f. trb_set (member_of data_stage_trb f));
          t = set ''data_buffer_addr'' (VIRT2PHYS buf) 0;
          t = set ''dir'' (if direction then 1 else 0) t;
          t = set ''trb_type'' TRB_DATA_STAGE t;
          t = set ''trb_transfer_len'' (trb_get (member_of usb_ctrlrequest ''wLength'') req) t
      in set ''ioc'' 1 t)"

definition status_trb :: "bool \<Rightarrow> trb" where
  "status_trb direction =
     (let set = (\<lambda>f. trb_set (member_of status_stage_trb f));
          t = set ''dir'' (if direction then 0 else 1) 0;
          t = set ''ch'' 0 t;
          t = set ''trb_type'' TRB_STATUS_STAGE t
      in set ''ioc'' 1 t)"

text \<open>The TRBs of a control transfer are built in memory from \<^verbatim>\<open>kmalloc\<close> and copied from there.\<close>

definition usb_control_transfer :: "'d hc_io \<Rightarrow> u64 \<Rightarrow> 'd usb \<Rightarrow> (int \<times> 'd usb) option" where
  "usb_control_transfer io urb s = do {
     let u = u_urb s urb;
     let udev = u_udev s (urb_dev u);
     (_, s) \<leftarrow> usb_kmalloc 16 s;
     (_, s) \<leftarrow> usb_kmalloc 16 s;
     let req = urb_setup_packet u;
     let direction = (urb_pipe u AND 0x80000000 \<noteq> 0);
     let endpoint = urb_pipe u AND 0xffff;
     let dci = ep_addr_to_dci endpoint - 1;
     p \<leftarrow> array_index (udev_port udev);
     e \<leftarrow> array_index dci;
     let (_, s) = ring_op (xhci_insert_transfer_trb p e (setup_trb direction req)) s;
     s \<leftarrow> (if urb_transfer_buffer u \<noteq> 0 then do {
             (_, s) \<leftarrow> usb_kmalloc 16 s;
             Some (snd (ring_op (xhci_insert_transfer_trb p e (data_trb direction (urb_transfer_buffer u) req)) s))
           } else Some s);
     let (trb_phys, s) = ring_op (xhci_insert_transfer_trb p e (status_trb direction)) s;
     let s = xhci_doorbell_reg_wr32 io (slot_id (port (u_x s) p) * 4) dci s;
     s \<leftarrow> (if urb_polling_wait u then map_option snd (xhci_wait_transfer_completion io trb_phys s) else Some s);
     Some (0, s)
   }"

definition normal_trb :: "urb \<Rightarrow> trb" where
  "normal_trb u =
     (let set = (\<lambda>f. trb_set (member_of transfer_trb f));
          t = set ''addr'' (VIRT2PHYS (urb_transfer_buffer u)) 0;
          t = set ''trb_transfer_len'' (ucast (urb_transfer_buffer_length u)) t;
          t = set ''isp'' 1 t;
          t = set ''td_size'' 0 t;
          t = set ''int_tar'' 0 t;
          t = set ''ioc'' 1 t
      in set ''trb_type'' TRB_NORMAL t)"

definition usb_bulk_transfer :: "'d hc_io \<Rightarrow> u64 \<Rightarrow> 'd usb \<Rightarrow> (int \<times> 'd usb) option" where
  "usb_bulk_transfer io urb s = do {
     let u = u_urb s urb;
     let udev = u_udev s (urb_dev u);
     (_, s) \<leftarrow> usb_kmalloc 16 s;
     let endpoint = urb_pipe u AND 0xffff;
     p \<leftarrow> array_index (udev_port udev);
     e \<leftarrow> array_index (ep_addr_to_dci endpoint - 1);
     let (trb_phys, s) = ring_op (xhci_insert_transfer_trb p e (normal_trb u)) s;
     (transfer, s) \<leftarrow> usb_kmalloc 32 s;
     let s = upd_x (inflight_transfer_list_update
               (Cons \<lparr>it_self = transfer, it_trb_phys = trb_phys, it_urb = urb\<rparr>)) s;
     let s = xhci_doorbell_reg_wr32 io (slot_id (port (u_x s) p) * 4) (ep_addr_to_dci endpoint) s;
     s \<leftarrow> (if urb_polling_wait u then map_option snd (xhci_wait_transfer_completion io trb_phys s) else Some s);
     Some (0, s)
   }"

definition usb_interrupt_transfer :: "'d hc_io \<Rightarrow> u64 \<Rightarrow> 'd usb \<Rightarrow> (int \<times> 'd usb) option" where
  "usb_interrupt_transfer io urb = usb_bulk_transfer io urb"


section \<open>Requests to a device\<close>

definition SIZEOF_URB :: u64 where "SIZEOF_URB = 65"
definition SIZEOF_USB_DEVICE :: u64 where "SIZEOF_USB_DEVICE = 74"
definition SIZEOF_USB_INTERFACE :: u64 where "SIZEOF_USB_INTERFACE = 49"
definition SIZEOF_USB_ENDPOINT :: u64 where "SIZEOF_USB_ENDPOINT = 47"
definition USB_DEVICE_DESC :: u64 where "USB_DEVICE_DESC = 16"

definition blank_urb :: urb where
  "blank_urb = \<lparr>urb_pipe = 0, urb_setup_packet = 0, urb_transfer_buffer = 0, urb_transfer_buffer_length = 0,
     urb_dev = 0, urb_context = 0, urb_interval = 0, urb_start_frame = 0, urb_polling_wait = False,
     urb_complete = No_completion\<rparr>"

definition upd_urb :: "u64 \<Rightarrow> (urb \<Rightarrow> urb) \<Rightarrow> 'd usb \<Rightarrow> 'd usb" where
  "upd_urb a f s = s\<lparr>u_urb := (u_urb s)(a := f (u_urb s a))\<rparr>"

definition upd_udev :: "u64 \<Rightarrow> (usb_device \<Rightarrow> usb_device) \<Rightarrow> 'd usb \<Rightarrow> 'd usb" where
  "upd_udev a f s = s\<lparr>u_udev := (u_udev s)(a := f (u_udev s a))\<rparr>"

definition upd_intf :: "u64 \<Rightarrow> (usb_interface \<Rightarrow> usb_interface) \<Rightarrow> 'd usb \<Rightarrow> 'd usb" where
  "upd_intf a f s = s\<lparr>u_intf := (u_intf s)(a := f (u_intf s a))\<rparr>"

definition ctrl_request :: "u64 \<Rightarrow> u64 \<Rightarrow> u64 \<Rightarrow> u64 \<Rightarrow> u64 \<Rightarrow> trb" where
  "ctrl_request rtype request val idx len =
     trb_set (member_of usb_ctrlrequest ''wLength'') len
       (trb_set (member_of usb_ctrlrequest ''wIndex'') idx
         (trb_set (member_of usb_ctrlrequest ''wValue'') val
           (trb_set (member_of usb_ctrlrequest ''bRequest'') request
             (trb_set (member_of usb_ctrlrequest ''bRequestType'') rtype 0))))"

definition usb_get_descriptor ::
    "'d hc_io \<Rightarrow> u64 \<Rightarrow> u64 \<Rightarrow> u64 \<Rightarrow> u64 \<Rightarrow> u64 \<Rightarrow> 'd usb \<Rightarrow> 'd usb option" where
  "usb_get_descriptor io udev descriptor_type descriptor_index data len s = do {
     (urb, s) \<leftarrow> usb_kmalloc SIZEOF_URB s;
     let s = upd_urb urb (\<lambda>_. blank_urb\<lparr>urb_dev := udev,
       urb_setup_packet := ctrl_request 0x80 USB_REQ_GET_DESCRIPTOR (push_bit 8 descriptor_type OR descriptor_index) 0 len,
       urb_polling_wait := True, urb_transfer_buffer := data, urb_pipe := 0x80000000 OR 1\<rparr>) s;
     map_option snd (usb_control_transfer io urb s)
   }"

definition usb_set_config :: "'d hc_io \<Rightarrow> u64 \<Rightarrow> u64 \<Rightarrow> 'd usb \<Rightarrow> 'd usb option" where
  "usb_set_config io udev configuration s = do {
     (urb, s) \<leftarrow> usb_kmalloc SIZEOF_URB s;
     let s = upd_urb urb (\<lambda>_. blank_urb\<lparr>urb_dev := udev,
       urb_setup_packet := ctrl_request 0 USB_REQ_SET_CONFIGURATION configuration 0 0,
       urb_polling_wait := True, urb_pipe := 1\<rparr>) s;
     map_option snd (usb_control_transfer io urb s)
   }"

definition usb_set_interface :: "'d hc_io \<Rightarrow> u64 \<Rightarrow> u64 \<Rightarrow> 'd usb \<Rightarrow> 'd usb option" where
  "usb_set_interface io udev interface s = do {
     (urb, s) \<leftarrow> usb_kmalloc SIZEOF_URB s;
     let s = upd_urb urb (\<lambda>_. blank_urb\<lparr>urb_dev := udev,
       urb_setup_packet := ctrl_request 0 USB_REQ_SET_INTERFACE interface 0 0,
       urb_polling_wait := True, urb_pipe := 1\<rparr>) s;
     map_option snd (usb_control_transfer io urb s)
   }"

section \<open>Contexts\<close>

text \<open>\<^verbatim>\<open>struct input_context\<close>: the control context, the slot context and 31 endpoint contexts.\<close>

definition slot_context_at :: "u64 \<Rightarrow> u64" where
  "slot_context_at ic = ic + of_nat (packed_bits input_control_context div 8)"

definition endpoint_context_at :: "u64 \<Rightarrow> nat \<Rightarrow> u64" where
  "endpoint_context_at ic n =
     slot_context_at ic + of_nat (packed_bits slot_context div 8 + n * (packed_bits endpoint_context div 8))"

definition set_ctrl_ctx :: "string \<Rightarrow> u64 \<Rightarrow> u64 \<Rightarrow> bmem \<Rightarrow> bmem" where
  "set_ctrl_ctx f v ic = mem_set (member_of input_control_context f) v ic"

definition set_slot_ctx :: "string \<Rightarrow> u64 \<Rightarrow> u64 \<Rightarrow> bmem \<Rightarrow> bmem" where
  "set_slot_ctx f v ic = mem_set (member_of slot_context f) v (slot_context_at ic)"

definition set_ep_ctx :: "nat \<Rightarrow> string \<Rightarrow> u64 \<Rightarrow> u64 \<Rightarrow> bmem \<Rightarrow> bmem" where
  "set_ep_ctx n f v ic = mem_set (member_of endpoint_context f) v (endpoint_context_at ic n)"

definition fresh_ring :: "u64 \<Rightarrow> transfer_ring_status \<Rightarrow> transfer_ring_status" where
  "fresh_ring ring r = r\<lparr>transfer_ring_base := ring, enquene_pointer := 0, dcs := 1\<rparr>"

definition ep0_max_packet :: "u32 \<Rightarrow> u64" where
  "ep0_max_packet port_speed =
     (if port_speed = 1 \<or> port_speed = 2 then 8 else if port_speed = 3 then 64 else 512)"

definition address_context :: "u64 \<Rightarrow> u64 \<Rightarrow> u32 \<Rightarrow> u32 \<Rightarrow> bmem \<Rightarrow> bmem" where
  "address_context ic ring root_hub_port_num port_speed m =
     (let m = set_ctrl_ctx ''add_context_flags'' 0x3 ic m;
          m = set_slot_ctx ''root_hub_port_number'' (scast root_hub_port_num) ic m;
          m = set_slot_ctx ''route_string'' 0 ic m;
          m = set_slot_ctx ''context_entries'' 1 ic m;
          m = set_slot_ctx ''speed'' (scast port_speed) ic m;
          m = set_ep_ctx 0 ''tr_dequeue_pointer_lo'' (drop_bit 4 (VIRT2PHYS ring)) ic m;
          m = set_ep_ctx 0 ''tr_dequeue_pointer_hi'' (drop_bit 32 (VIRT2PHYS ring)) ic m;
          m = set_ep_ctx 0 ''ep_type'' 4 ic m;
          m = set_ep_ctx 0 ''max_packet_size'' (ep0_max_packet port_speed) ic m;
          m = set_ep_ctx 0 ''max_burst_size'' 0 ic m;
          m = set_ep_ctx 0 ''average_trb_length'' 0x1000 ic m;
          m = set_ep_ctx 0 ''dcs'' 1 ic m;
          m = set_ep_ctx 0 ''interval'' 0 ic m;
          m = set_ep_ctx 0 ''max_pstreams'' 0 ic m;
          m = set_ep_ctx 0 ''mult'' 0 ic m
      in set_ep_ctx 0 ''cerr'' 3 ic m)"

definition xhci_address_device :: "'d hc_io \<Rightarrow> u32 \<Rightarrow> u32 \<Rightarrow> u32 \<Rightarrow> 'd usb \<Rightarrow> (int \<times> 'd usb) option" where
  "xhci_address_device io slot_nr root_hub_port_num port_speed s = do {
     (input_ctx, s) \<leftarrow> usb_kmalloc 0x1000 s;
     (ring, s) \<leftarrow> usb_kmalloc 0x1000 s;
     (output_ctx, s) \<leftarrow> usb_kmalloc 0x1000 s;
     let s = upd_mem (mem_zero ring 0x1000 \<circ> mem_zero output_ctx 0x1000 \<circ> mem_zero input_ctx 0x1000) s;
     let s = upd_mem (address_context input_ctx ring root_hub_port_num port_speed) s;
     let s = upd_mem (\<lambda>m. store_le 8 (VIRT2PHYS output_ctx) m (dcbaa (u_x s) + 8 * scast slot_nr)) s;
     p \<leftarrow> array_index (root_hub_port_num - 1);
     let s = upd_x (upd_ring p 1 (fresh_ring ring) \<circ>
               upd_port p (\<lambda>q. q\<lparr>input_context := input_ctx, slot_id := scast slot_nr\<rparr>)) s;
     xhci_cmd_address_device io input_ctx slot_nr s
   }"

text \<open>\<open>tmp_desc\<close> is the address of the local variable the descriptor is read into.\<close>

definition evaluate_context :: "'d hc_io \<Rightarrow> u64 \<Rightarrow> u64 \<Rightarrow> 'd usb \<Rightarrow> (int \<times> 'd usb) option" where
  "evaluate_context io tmp_desc udev s = do {
     p \<leftarrow> array_index (udev_port (u_udev s udev));
     let slot_nr = slot_id (port (u_x s) p);
     let input_ctx = input_context (port (u_x s) p);
     s \<leftarrow> usb_get_descriptor io udev USB_DESCRIPTOR_TYPE_DEVICE 0 tmp_desc 8 s;
     let s = (if drop_bit 8 (mem_get (member_of usb_device_descriptor ''bcd_usb'') (u_mem s) tmp_desc) = 0x2 \<and>
                 udev_speed (u_udev s udev) = 1
              then upd_mem (set_ep_ctx 0 ''max_packet_size''
                (mem_get (member_of usb_device_descriptor ''b_max_packet_size0'') (u_mem s) tmp_desc) input_ctx) s
              else s);
     xhci_cmd_evaluate_context io input_ctx (ucast slot_nr) s
   }"


section \<open>Configuring a device\<close>

definition dev_desc :: "string \<Rightarrow> u64 \<Rightarrow> 'd usb \<Rightarrow> u64" where
  "dev_desc f udev s = mem_get (member_of usb_device_descriptor f) (u_mem s) (udev + USB_DEVICE_DESC)"

text \<open>A string descriptor is read twice, the second time with the length the first one gave; the
  string itself is only printed.\<close>

definition fetch_string :: "'d hc_io \<Rightarrow> u64 \<Rightarrow> u64 \<Rightarrow> string \<Rightarrow> 'd usb \<Rightarrow> 'd usb option" where
  "fetch_string io udev str f s =
     (if dev_desc f udev s = 0 then Some s
      else do {
        let s = upd_mem (mem_zero str 128) s;
        s \<leftarrow> usb_get_descriptor io udev USB_DESCRIPTOR_TYPE_STRING (dev_desc f udev s) str 2 s;
        usb_get_descriptor io udev USB_DESCRIPTOR_TYPE_STRING (dev_desc f udev s) str (ucast (u_mem s str)) s
      })"

definition endpoint_context_fields :: "nat \<Rightarrow> u64 \<Rightarrow> u64 \<Rightarrow> u64 \<Rightarrow> bmem \<Rightarrow> bmem" where
  "endpoint_context_fields n ic ring endp m =
     (let get = (\<lambda>f. mem_get (member_of usb_endpoint_descriptor f) m endp);
          burst = drop_bit 11 (get ''w_max_packet_size'' AND 0x1800);
          m1 = set_ep_ctx n ''tr_dequeue_pointer_lo'' (drop_bit 4 (VIRT2PHYS ring)) ic m;
          m1 = set_ep_ctx n ''tr_dequeue_pointer_hi'' (drop_bit 32 (VIRT2PHYS ring)) ic m1;
          m1 = set_ep_ctx n ''ep_type'' (get ''bm_attributes'' OR
                 (if get ''b_endpoint_addr'' AND 0x80 \<noteq> 0 then 0x4 else 0)) ic m1;
          m1 = set_ep_ctx n ''max_packet_size'' (get ''w_max_packet_size'') ic m1;
          m1 = set_ep_ctx n ''max_burst_size'' burst ic m1;
          m1 = set_ep_ctx n ''average_trb_length'' (get ''w_max_packet_size'') ic m1;
          m1 = set_ep_ctx n ''max_esit_payload_lo'' (get ''w_max_packet_size'' * (burst + 1)) ic m1;
          m1 = set_ep_ctx n ''dcs'' 1 ic m1;
          m1 = set_ep_ctx n ''interval'' (order_base_2 (get ''b_interval'') + 3) ic m1;
          m1 = set_ep_ctx n ''max_pstreams'' 0 ic m1;
          m1 = set_ep_ctx n ''mult'' 0 ic m1
      in set_ep_ctx n ''cerr'' 3 ic m1)"

text \<open>The block for an endpoint descriptor at \<open>endp\<close>; the descriptors are not part of the input
  context. \<open>intf\<close> is the interface allocated last.\<close>

definition configure_endpoint :: "'d hc_io \<Rightarrow> u64 \<Rightarrow> u64 \<Rightarrow> u64 \<Rightarrow> 'd usb \<Rightarrow> 'd usb option" where
  "configure_endpoint io udev endp intf s = do {
     let dci = ep_addr_to_dci (ucast (mem_get (member_of usb_endpoint_descriptor ''b_endpoint_addr'') (u_mem s) endp));
     (ring, s) \<leftarrow> usb_kmalloc 0x1000 s;
     p \<leftarrow> array_index (udev_port (u_udev s udev));
     n \<leftarrow> array_index (dci - 1);
     let s = upd_mem (mem_zero ring 0x1000) s;
     let ic = input_context (port (u_x s) p);
     let s = upd_mem (mem_zero ic 0x1000) s;
     let s = upd_mem (set_ctrl_ctx ''add_context_flags'' (push_bit (unat dci) 1) ic) s;
     let s = upd_mem (set_slot_ctx ''root_hub_port_number'' (scast (udev_port (u_udev s udev))) ic) s;
     let s = upd_mem (set_slot_ctx ''route_string'' 0 ic) s;
     let s = upd_mem (set_slot_ctx ''context_entries'' 5 ic) s;
     let s = upd_mem (set_slot_ctx ''speed'' (scast (udev_speed (u_udev s udev))) ic) s;
     let s = upd_mem (set_slot_ctx ''max_exit_latency'' 0 ic) s;
     let s = upd_mem (set_ctrl_ctx ''configuration_value'' 0 ic) s;
     let s = upd_mem (endpoint_context_fields n ic ring endp) s;
     let s = upd_x (upd_ring p n (fresh_ring ring) \<circ>
               upd_port p (slot_id_update (\<lambda>_. scast (udev_slot (u_udev s udev))))) s;
     (ret, s) \<leftarrow> xhci_cmd_configure_endpoint io ic (udev_slot (u_udev s udev)) s;
     if ret = 0 then do {
       (ep, s) \<leftarrow> usb_kmalloc SIZEOF_USB_ENDPOINT s;
       let s = s\<lparr>u_endp := (u_endp s)(ep := \<lparr>ep_desc = (\<lambda>k. if k < 7 then u_mem s (endp + of_nat k) else 0)\<rparr>)\<rparr>;
       Some (upd_intf intf (if_endpoint_list_update (Cons ep)) s)
     } else Some s
   }"

definition register_interface :: "u64 \<Rightarrow> u64 \<Rightarrow> 'd usb \<Rightarrow> (u64 \<times> 'd usb) option" where
  "register_interface udev intf s = do {
     (interface, s) \<leftarrow> usb_kmalloc SIZEOF_USB_INTERFACE s;
     let s = s\<lparr>u_intf := (u_intf s)(interface :=
               \<lparr>if_desc = (\<lambda>k. if k < 9 then u_mem s (intf + of_nat k) else 0), if_endpoint_list = []\<rparr>)\<rparr>;
     Some (interface, upd_udev udev (udev_interface_head_update (Cons interface)) s)
   }"

text \<open>The walk along the descriptors, from offset \<open>i\<close>. The total length is read again in every
  turn; as it has 16 bits and every turn moves forward, 65536 turns are enough.\<close>

definition w_total_lenth :: "u64 \<Rightarrow> 'd usb \<Rightarrow> nat" where
  "w_total_lenth desc s = unat (mem_get (member_of usb_configuration_descriptor ''w_total_lenth'') (u_mem s) desc)"

definition descriptor_step ::
    "'d hc_io \<Rightarrow> u64 \<Rightarrow> u64 \<Rightarrow> nat \<Rightarrow> u64 \<Rightarrow> 'd usb \<Rightarrow> (nat \<times> u64 \<times> 'd usb) option" where
  "descriptor_step io udev desc i intf s = do {
     let len = unat (u_mem s (desc + of_nat i));
     let ty = (ucast (u_mem s (desc + of_nat i + 1)) :: u64);
     (intf, s) \<leftarrow> (if ty = USB_DESCRIPTOR_TYPE_INTERFACE then register_interface udev (desc + of_nat i) s
                   else Some (intf, s));
     s \<leftarrow> (if ty = USB_DESCRIPTOR_TYPE_ENDPOINT then configure_endpoint io udev (desc + of_nat i) intf s
           else Some s);
     Some (if len = 0 then i + 1 else i + len, intf, s)
   }"

function descriptor_loop ::
    "'d hc_io \<Rightarrow> u64 \<Rightarrow> u64 \<Rightarrow> nat \<Rightarrow> u64 \<Rightarrow> 'd usb \<Rightarrow> 'd usb option" where
  "descriptor_loop io udev desc i intf s =
     (if i < w_total_lenth desc s then
        case descriptor_step io udev desc i intf s of
          None \<Rightarrow> None
        | Some (i, intf, s) \<Rightarrow> descriptor_loop io udev desc i intf s
      else Some s)"
  by auto

lemma w_total_lenth_bound: "w_total_lenth desc s < 65536"
  using take_bit_nat_less_exp [of 16]
  by (simp add: w_total_lenth_def mem_get_def usb_members unsigned_take_bit_eq)

termination descriptor_loop
proof (relation "measure (\<lambda>(io, udev, desc, i, _). 65536 - i)", simp)
  fix io :: "'d hc_io" and udev desc intf :: u64 and i i' :: nat and s :: "'d usb" and x ba intf' s'
  assume a: "i < w_total_lenth desc s" "descriptor_step io udev desc i intf s = Some x"
    "(i', ba) = x" "(intf', s') = ba"
  then have "i < i'" by (auto simp: descriptor_step_def Let_def bind_eq_Some_conv split: if_splits)
  then show "((io, udev, desc, i', intf', s'), (io, udev, desc, i, intf, s)) \<in>
      measure (\<lambda>(io, udev, desc, i, _). 65536 - i)"
    using a(1) w_total_lenth_bound [of desc s] by simp
qed

declare descriptor_loop.simps [simp del]

text \<open>\<open>junk\<close> is the value of the uninitialised interface pointer.\<close>

definition configure_all_endpoints :: "'d hc_io \<Rightarrow> u64 \<Rightarrow> u64 \<Rightarrow> 'd usb \<Rightarrow> 'd usb option" where
  "configure_all_endpoints io junk udev s = do {
     (input_ctx, s) \<leftarrow> usb_kmalloc 0x1000 s;
     (ring, s) \<leftarrow> usb_kmalloc 0x1000 s;
     (output_ctx, s) \<leftarrow> usb_kmalloc 0x1000 s;
     (descriptor, s) \<leftarrow> usb_kmalloc 512 s;
     let s = upd_mem (mem_zero descriptor 512 \<circ> mem_zero ring 0x1000 \<circ> mem_zero output_ctx 0x1000 \<circ>
               mem_zero input_ctx 0x1000) s;
     s \<leftarrow> usb_get_descriptor io udev USB_DESCRIPTOR_TYPE_DEVICE 0 (udev + USB_DEVICE_DESC)
           (of_nat (packed_bits usb_device_descriptor div 8)) s;
     (str, s) \<leftarrow> usb_kmalloc 128 s;
     s \<leftarrow> fetch_string io udev str ''i_manufacturer'' s;
     s \<leftarrow> fetch_string io udev str ''i_product'' s;
     s \<leftarrow> fetch_string io udev str ''i_serial_number'' s;
     let s = upd_mem (mem_zero descriptor 512) s;
     s \<leftarrow> usb_get_descriptor io udev USB_DESCRIPTOR_TYPE_CONFIGURATION 0 descriptor
           (of_nat (packed_bits usb_configuration_descriptor div 8)) s;
     s \<leftarrow> usb_get_descriptor io udev USB_DESCRIPTOR_TYPE_CONFIGURATION 0 descriptor
           (of_nat (w_total_lenth descriptor s)) s;
     s \<leftarrow> usb_set_config io udev
           (mem_get (member_of usb_configuration_descriptor ''b_configuration_value'') (u_mem s) descriptor) s;
     descriptor_loop io udev descriptor
       (unat (mem_get (member_of usb_configuration_descriptor ''b_length'') (u_mem s) descriptor)) junk s
   }"


section \<open>Keyboard, mouse and disk\<close>

definition new_urb :: "'d usb \<Rightarrow> (u64 \<times> 'd usb) option" where
  "new_urb s = do {
     (urb, s) \<leftarrow> usb_kmalloc SIZEOF_URB s;
     Some (urb, upd_urb urb (\<lambda>_. blank_urb) s)
   }"

definition usb_kbd_test :: "'d hc_io \<Rightarrow> u64 \<Rightarrow> u32 \<Rightarrow> 'd usb \<Rightarrow> 'd usb option" where
  "usb_kbd_test io udev endpoint s = do {
     (data, s) \<leftarrow> usb_kmalloc 0x1000 s;
     (cr, s) \<leftarrow> new_urb s;
     (kbd, s) \<leftarrow> new_urb s;
     (_, s) \<leftarrow> usb_kmalloc 8 s;
     let s = upd_urb cr (\<lambda>u. u\<lparr>urb_dev := udev, urb_setup_packet := ctrl_request (push_bit 5 1 OR 1) 0x9 0x200 0 1,
       urb_transfer_buffer := data, urb_pipe := 1, urb_polling_wait := True\<rparr>) s;
     let s = upd_mem (\<lambda>m. m(data := 0x7)) s;
     (_, s) \<leftarrow> usb_control_transfer io cr s;
     let s = upd_urb cr (urb_setup_packet_update (\<lambda>_. ctrl_request (push_bit 5 1 OR 1) 0xa 0 0 0)) s;
     (_, s) \<leftarrow> usb_control_transfer io cr s;
     let s = upd_mem (mem_zero data 8) s;
     let s = upd_urb kbd (\<lambda>u. u\<lparr>urb_dev := udev, urb_pipe := endpoint, urb_complete := Usb_kbd_irq,
       urb_polling_wait := False, urb_transfer_buffer := data, urb_transfer_buffer_length := 8\<rparr>) s;
     map_option snd (usb_interrupt_transfer io kbd s)
   }"

definition usb_mouse_test :: "'d hc_io \<Rightarrow> u64 \<Rightarrow> u32 \<Rightarrow> 'd usb \<Rightarrow> 'd usb option" where
  "usb_mouse_test io udev endpoint s = do {
     (data, s) \<leftarrow> usb_kmalloc 0x1000 s;
     (_, s) \<leftarrow> new_urb s;
     (mouse, s) \<leftarrow> new_urb s;
     let s = upd_mem (mem_zero data 8) s;
     let s = upd_urb mouse (\<lambda>u. u\<lparr>urb_dev := udev, urb_pipe := endpoint, urb_complete := Usb_mouse_irq,
       urb_polling_wait := False, urb_transfer_buffer := data, urb_transfer_buffer_length := 8\<rparr>) s;
     map_option snd (usb_interrupt_transfer io mouse s)
   }"

text \<open>The command block wrapper with the disk command inside; the two local structures are zero
  before. The urbs are not cleared, so what they hold apart from the members set is \<open>u_urb\<close>'s.\<close>

definition command_block :: "u64 \<Rightarrow> u64 \<Rightarrow> u64 \<Rightarrow> u64 \<Rightarrow> bmem \<Rightarrow> bmem" where
  "command_block cbw data_len block op m =
     (let cset = (\<lambda>f v. mem_set (member_of usbmassbulk_cbw f) v cbw);
          uset = (\<lambda>f v. mem_set (member_of ufi_cmd f) v (cbw + of_nat (fst (member_of usbmassbulk_cbw ''cb'') div 8)));
          m = mem_zero cbw (of_nat (packed_bits usbmassbulk_cbw div 8)) m;
          m = cset ''sig'' 0x43425355 m;
          m = cset ''tag'' 0x12345678 m;
          m = cset ''flags'' (push_bit 7 1) m;
          m = cset ''length'' 0xc m;
          m = cset ''data_transfer_len'' data_len m;
          m = uset ''logical_block_addr'' block m;
          m = uset ''logical_unit_number'' 0 m;
          m = uset ''op_code'' op m
      in uset ''parameter'' 0x01000000 m)"

definition bulk_request ::
    "'d hc_io \<Rightarrow> u64 \<Rightarrow> u64 \<Rightarrow> u32 \<Rightarrow> u64 \<Rightarrow> u32 \<Rightarrow> bool \<Rightarrow> completion \<Rightarrow> 'd usb \<Rightarrow> 'd usb option" where
  "bulk_request io urb udev pipe buf len polling complete s =
     map_option snd (usb_bulk_transfer io urb
       (upd_urb urb (\<lambda>u. u\<lparr>urb_dev := udev, urb_pipe := pipe, urb_setup_packet := 0, urb_polling_wait := polling,
          urb_transfer_buffer := buf, urb_transfer_buffer_length := len, urb_complete := complete\<rparr>) s))"

definition mass_storage_request ::
    "'d hc_io \<Rightarrow> u64 \<Rightarrow> u64 \<Rightarrow> u64 \<Rightarrow> u64 \<Rightarrow> bool \<Rightarrow> completion \<Rightarrow> completion \<Rightarrow> completion \<Rightarrow>
      'd usb \<Rightarrow> 'd usb option" where
  "mass_storage_request io udev data_len block op polling c_out c_data c_status s = do {
     (blkin_data, s) \<leftarrow> usb_kmalloc SIZEOF_URB s;
     (blkin_status, s) \<leftarrow> usb_kmalloc SIZEOF_URB s;
     (blkout, s) \<leftarrow> usb_kmalloc SIZEOF_URB s;
     (cbw, s) \<leftarrow> usb_kmalloc (of_nat (packed_bits usbmassbulk_cbw div 8)) s;
     (csw, s) \<leftarrow> usb_kmalloc (of_nat (packed_bits usbmassbulk_csw div 8)) s;
     (disk_buf, s) \<leftarrow> usb_kmalloc 0x2000 s;
     let s = upd_mem (mem_zero disk_buf 0x2000 \<circ> command_block cbw data_len block op \<circ>
               mem_zero csw (of_nat (packed_bits usbmassbulk_csw div 8))) s;
     s \<leftarrow> bulk_request io blkout udev 0x2 cbw (of_nat (packed_bits usbmassbulk_cbw div 8)) polling c_out s;
     s \<leftarrow> bulk_request io blkin_data udev (0x80000000 OR 0x81) disk_buf (ucast data_len) polling c_data s;
     bulk_request io blkin_status udev (0x80000000 OR 0x81) csw (of_nat (packed_bits usbmassbulk_csw div 8)) polling c_status s
   }"

definition usb_mass_storage_read_cap :: "'d hc_io \<Rightarrow> u64 \<Rightarrow> 'd usb \<Rightarrow> 'd usb option" where
  "usb_mass_storage_read_cap io udev =
     mass_storage_request io udev 8 0 SCSI_READ_CAPACITY True No_completion No_completion No_completion"

definition usb_mass_storage_read_sector :: "'d hc_io \<Rightarrow> u64 \<Rightarrow> u32 \<Rightarrow> 'd usb \<Rightarrow> 'd usb option" where
  "usb_mass_storage_read_sector io udev sector =
     mass_storage_request io udev 0x200 (ucast sector) SCSI_READ False
       No_completion Mass_storage_data_irq Mass_storage_status_irq"

definition usb_massstorage_test :: "'d hc_io \<Rightarrow> u64 \<Rightarrow> 'd usb \<Rightarrow> 'd usb option" where
  "usb_massstorage_test io udev s = do {
     (urb, s) \<leftarrow> usb_kmalloc SIZEOF_URB s;
     (_, s) \<leftarrow> usb_kmalloc 8 s;
     let s = upd_urb urb (\<lambda>u. u\<lparr>urb_dev := udev, urb_pipe := 1,
       urb_setup_packet := ctrl_request (push_bit 5 1 OR 1) 0xff 0 0 0, urb_transfer_buffer := 0,
       urb_polling_wait := True\<rparr>) s;
     (_, s) \<leftarrow> usb_control_transfer io urb s;
     s \<leftarrow> usb_mass_storage_read_cap io udev s;
     usb_mass_storage_read_sector io udev 0 s
   }"

section \<open>Devices come and go\<close>

fun each :: "(u64 \<Rightarrow> 'd usb \<Rightarrow> 'd usb option) \<Rightarrow> u64 list \<Rightarrow> 'd usb \<Rightarrow> 'd usb option" where
  "each f [] s = Some s"
| "each f (a # as) s = do { s \<leftarrow> f a s; each f as s }"

definition intf_is :: "u64 \<Rightarrow> u8 \<Rightarrow> u8 \<Rightarrow> u8 \<Rightarrow> 'd usb \<Rightarrow> bool" where
  "intf_is intf cls sub proto s \<longleftrightarrow>
     if_desc (u_intf s intf) 5 = cls \<and> if_desc (u_intf s intf) 6 = sub \<and> if_desc (u_intf s intf) 7 = proto"

definition start_interrupt_endpoints ::
    "(u64 \<Rightarrow> u32 \<Rightarrow> 'd usb \<Rightarrow> 'd usb option) \<Rightarrow> u64 \<Rightarrow> u64 \<Rightarrow> 'd usb \<Rightarrow> 'd usb option" where
  "start_interrupt_endpoints start udev intf s =
     each (\<lambda>ep s. if ep_desc (u_endp s ep) 3 = 3 then start udev (ucast (ep_desc (u_endp s ep) 2)) s else Some s)
       (if_endpoint_list (u_intf s intf)) s"

definition start_interface :: "'d hc_io \<Rightarrow> u64 \<Rightarrow> u64 \<Rightarrow> 'd usb \<Rightarrow> 'd usb option" where
  "start_interface io udev intf s = do {
     s \<leftarrow> (if intf_is intf 3 1 1 s then start_interrupt_endpoints (usb_kbd_test io) udev intf s else Some s);
     s \<leftarrow> (if intf_is intf 3 1 2 s then start_interrupt_endpoints (usb_mouse_test io) udev intf s else Some s);
     if intf_is intf 8 6 0x50 s then usb_massstorage_test io udev s else Some s
   }"

definition usb_device_init ::
    "'d hc_io \<Rightarrow> u64 \<Rightarrow> u64 \<Rightarrow> u32 \<Rightarrow> u32 \<Rightarrow> u32 \<Rightarrow> 'd usb \<Rightarrow> (int \<times> 'd usb) option" where
  "usb_device_init io junk tmp_desc slot_nr root_hub_port_num port_speed s = do {
     (ret, s) \<leftarrow> xhci_address_device io slot_nr root_hub_port_num port_speed s;
     if ret \<noteq> 0 then Some (- EFAULT, s)
     else do {
       (udev, s) \<leftarrow> usb_kmalloc SIZEOF_USB_DEVICE s;
       let s = upd_mem (mem_zero udev SIZEOF_USB_DEVICE) s;
       let s = upd_udev udev (\<lambda>_. \<lparr>udev_port = root_hub_port_num - 1, udev_slot = slot_nr,
                 udev_speed = port_speed, udev_interface_head = []\<rparr>) s;
       let s = s\<lparr>usb_dev_list := udev # usb_dev_list s\<rparr>;
       (_, s) \<leftarrow> evaluate_context io tmp_desc udev s;
       s \<leftarrow> configure_all_endpoints io junk udev s;
       s \<leftarrow> each (start_interface io udev) (udev_interface_head (u_udev s udev)) s;
       Some (0, s)
     }
   }"

text \<open>\<open>junk\<close> is the uninitialised \<^verbatim>\<open>udev\<close>; unlinking it when no device matched has no
  meaning unless it happens to be null. The caller's slot is not initialised either: the context it
  leads to is only freed, and \<^verbatim>\<open>kfree\<close> is empty.\<close>

definition usb_kfree :: "u64 \<Rightarrow> 'd usb \<Rightarrow> 'd usb" where
  "usb_kfree addr s = s\<lparr>u_pci := (u_pci s)\<lparr>p_ks := (p_ks (u_pci s))\<lparr>ks_boot := kfree addr (ks_boot (p_ks (u_pci s)))\<rparr>\<rparr>\<rparr>"

definition usb_device_remove :: "u64 \<Rightarrow> u32 \<Rightarrow> u32 \<Rightarrow> 'd usb \<Rightarrow> 'd usb option" where
  "usb_device_remove junk slot_nr root_hub_port_num s =
     (let slot_output = PHYS2VIRT (load_le 8 (u_mem s) (dcbaa (u_x s) + 8 * scast slot_nr)) in
      case find (\<lambda>u. udev_port (u_udev s u) = root_hub_port_num - 1) (usb_dev_list s) of
        Some udev \<Rightarrow>
          if udev \<noteq> 0
          then (let s = usb_kfree slot_output s
                in Some (usb_kfree udev (s\<lparr>usb_dev_list := remove1 udev (usb_dev_list s)\<rparr>)))
          else Some s
      | None \<Rightarrow> if junk \<noteq> 0 then None else Some s)"

definition usb_device_register :: "u64 \<Rightarrow> 'd usb \<Rightarrow> 'd usb" where
  "usb_device_register dev s = s\<lparr>usb_dev_list := dev # usb_dev_list s\<rparr>"

definition usb_device_unregister :: "u64 \<Rightarrow> 'd usb \<Rightarrow> 'd usb" where
  "usb_device_unregister dev s = s\<lparr>usb_dev_list := remove1 dev (usb_dev_list s)\<rparr>"

definition usb_core_init :: "'d usb \<Rightarrow> 'd usb" where
  "usb_core_init s = s\<lparr>usb_dev_list := []\<rparr>"

section \<open>Events\<close>

definition urb_completed :: "'d hc_io \<Rightarrow> u64 \<Rightarrow> 'd usb \<Rightarrow> 'd usb option" where
  "urb_completed io urb s =
     (case urb_complete (u_urb s urb) of
        Usb_kbd_irq \<Rightarrow> map_option snd (usb_interrupt_transfer io urb s)
      | Usb_mouse_irq \<Rightarrow> map_option snd (usb_interrupt_transfer io urb s)
      | _ \<Rightarrow> Some s)"

text \<open>The list is walked as it stands at the start: the successor is read before the body, and
  the bodies only add entries at the front.\<close>

fun complete_transfers :: "'d hc_io \<Rightarrow> u64 \<Rightarrow> inflight_transfer list \<Rightarrow> 'd usb \<Rightarrow> 'd usb option" where
  "complete_transfers io key [] s = Some s"
| "complete_transfers io key (t # ts) s =
     (if it_trb_phys t = key then do {
        let s = upd_x (inflight_transfer_list_update (remove1 t)) s;
        s \<leftarrow> urb_completed io (it_urb t) s;
        complete_transfers io key ts s
      } else complete_transfers io key ts s)"

definition handle_transfer_completion :: "'d hc_io \<Rightarrow> trb \<Rightarrow> 'd usb \<Rightarrow> 'd usb option" where
  "handle_transfer_completion io event s =
     complete_transfers io (trb_get (member_of transfer_event_trb ''trb_pointer'') event)
       (inflight_transfer_list (u_x s)) s"

partial_function (option) wait_port_reset :: "'d hc_io \<Rightarrow> u64 \<Rightarrow> 'd usb \<Rightarrow> (u32 \<times> 'd usb) option" where
  "wait_port_reset io off s =
     (let (port_status, s) = xhci_opreg_rd32 io off s
      in if ucast port_status AND XHCI_PORTSC_PRC \<noteq> 0 then Some (port_status, s)
         else wait_port_reset io off s)"

definition handle_port_status_change ::
    "'d hc_io \<Rightarrow> u64 \<Rightarrow> u64 \<Rightarrow> trb \<Rightarrow> 'd usb \<Rightarrow> 'd usb option" where
  "handle_port_status_change io junk tmp_desc event s = do {
     let port_nr = (ucast (trb_get (member_of port_status_change_event_trb ''port_id'') event) :: u32) - 1;
     let off = XHCI_HC_PORT_REG + scast port_nr * 0x10;
     let (port_status, s) = xhci_opreg_rd32 io off s;
     let port_speed = drop_bit 10 port_status AND 0xf;
     if ucast port_status AND XHCI_PORTSC_CCS \<noteq> 0 then do {
       (port_status, s) \<leftarrow>
         (if port_speed < 4
          then wait_port_reset io (0x400 + scast port_nr * 0x10)
                 (xhci_opreg_wr32 io (0x400 + scast port_nr * 0x10) (ucast (XHCI_PORTSC_PR OR XHCI_PORTSC_PP)) s)
          else Some (port_status, s));
       let s = xhci_opreg_wr32 io off (ucast (XHCI_PORTSC_PRC OR XHCI_PORTSC_CSC OR XHCI_PORTSC_PP)) s;
       (slot_nr, s) \<leftarrow> xhci_cmd_enable_slot io s;
       (_, s) \<leftarrow> usb_device_init io junk tmp_desc slot_nr (port_nr + 1) (drop_bit 10 port_status AND 0xf) s;
       p \<leftarrow> array_index port_nr;
       Some (upd_x (upd_port p (slot_id_update (\<lambda>_. scast slot_nr))) s)
     } else do {
       p \<leftarrow> array_index port_nr;
       (_, s) \<leftarrow> xhci_cmd_disable_slot io (ucast (slot_id (port (u_x s) p))) s;
       s \<leftarrow> usb_device_remove junk (ucast junk) (port_nr + 1) s;
       Some (xhci_opreg_wr32 io off (port_status OR
         ucast (XHCI_PORTSC_PRC OR XHCI_PORTSC_CSC OR XHCI_PORTSC_PP)) s)
     }
   }"

definition xhci_handle_event :: "'d hc_io \<Rightarrow> u64 \<Rightarrow> u64 \<Rightarrow> trb \<Rightarrow> 'd usb \<Rightarrow> 'd usb option" where
  "xhci_handle_event io junk tmp_desc event s =
     (if trb_type event = TRB_PORT_STATUS_CHANGE_EVENT then handle_port_status_change io junk tmp_desc event s
      else if trb_type event = TRB_COMMAND_COMPLETION_EVENT then Some s
      else if trb_type event = TRB_TRANSFER_EVENT then handle_transfer_completion io event s
      else Some s)"

text \<open>The loop of the interrupt handler, with the handler of one event as an argument. The event
  is at offset \<open>i\<close> from \<open>erdp\<close>; at the end of the ring both start again and the cycle state
  is inverted.\<close>

partial_function (option) intr_loop ::
    "(trb \<Rightarrow> 'd usb \<Rightarrow> 'd usb option) \<Rightarrow> u64 \<Rightarrow> u64 \<Rightarrow> u64 \<Rightarrow> u64 \<Rightarrow> 'd usb \<Rightarrow> (u64 \<times> 'd usb) option" where
  "intr_loop h last_erdp erdp i delta s =
     (if erdp + 16 = last_erdp then Some (erdp + delta, s)
      else if erdp + i * 16 < segment_base s + event_ring_size (u_x s) then
        (let t = trb_load (u_mem s) (PHYS2VIRT erdp + 16 * i) in
         if trb_c t = event_ring_ccs (u_x s) AND 1 then do {
           s \<leftarrow> h t s;
           intr_loop h last_erdp erdp (i + 1) (delta + 16)
             (upd_x (event_ring_dequeue_ptr_update (\<lambda>p. p + 16)) s)
         }
         else Some (erdp + delta, s))
      else intr_loop h last_erdp (segment_base s) 0 0
             (upd_x (event_ring_ccs_update (\<lambda>c. NOT c) \<circ> event_ring_dequeue_ptr_update (\<lambda>_. 0)) s))"

definition intr_with :: "'d hc_io \<Rightarrow> (trb \<Rightarrow> 'd usb \<Rightarrow> 'd usb option) \<Rightarrow> 'd usb \<Rightarrow> 'd usb option" where
  "intr_with io h s = do {
     let (usb_sts, s) = xhci_opreg_rd32 io XHCI_HC_USBSTS s;
     let (erdp, s) = xhci_rtreg_rd64 io erdp_reg s;
     let erdp = erdp AND NOT 0xf;
     let (ir, s) = xhci_rtreg_rd32 io erdp_reg s;
     (erdp, s) \<leftarrow> intr_loop h erdp erdp 0 0 s;
     let s = xhci_rtreg_wr64 io erdp_reg (erdp OR 0x8) s;
     Some (xhci_opreg_wr32 io XHCI_HC_USBSTS (usb_sts OR 0x8 OR 0x10) s)
   }"

definition xhci_intr :: "'d hc_io \<Rightarrow> u64 \<Rightarrow> u64 \<Rightarrow> 'd usb \<Rightarrow> 'd usb option" where
  "xhci_intr io junk tmp_desc = intr_with io (xhci_handle_event io junk tmp_desc)"


section \<open>The controller\<close>

definition SIZEOF_XHCI :: u64 where "SIZEOF_XHCI = 25296"

definition upd_ks :: "(kstate \<Rightarrow> kstate) \<Rightarrow> 'd usb \<Rightarrow> 'd usb" where
  "upd_ks f s = s\<lparr>u_pci := (u_pci s)\<lparr>p_ks := f (p_ks (u_pci s))\<rparr>\<rparr>"

definition hw_read :: "('d \<Rightarrow> 'a \<times> 'd) \<Rightarrow> 'd usb \<Rightarrow> 'a \<times> 'd usb" where
  "hw_read f s = (let (v, d) = f (u_hw s) in (v, upd_hw (\<lambda>_. d) s))"

definition pci_op :: "('d pci \<Rightarrow> (int \<times> 'd pci) option) \<Rightarrow> 'd usb \<Rightarrow> (int \<times> 'd usb) option" where
  "pci_op f s = do { (r, p) \<leftarrow> f (u_pci s); Some (r, s\<lparr>u_pci := p\<rparr>) }"

partial_function (option) wait_reset :: "'d hc_io \<Rightarrow> 'd usb \<Rightarrow> 'd usb option" where
  "wait_reset io s =
     (let (v, s) = xhci_opreg_rd32 io XHCI_HC_USBCMD s
      in if ucast v AND XHCI_HC_USBCMD_RESET = 0 then Some s else wait_reset io s)"

text \<open>The vectors of the device are requested on the processor that probes, \<open>cpu\<close> being its
  identifier and \<open>handler\<close> the address of \<^verbatim>\<open>xhci_intr\<close>.\<close>

fun request_vectors :: "u64 \<Rightarrow> u64 \<Rightarrow> u64 \<Rightarrow> (u64 \<times> u64) list \<Rightarrow> 'd usb \<Rightarrow> 'd usb option" where
  "request_vectors cpu handler dev [] s = Some s"
| "request_vectors cpu handler dev ((_, vector) # ds) s = do {
     c \<leftarrow> get_cpu cpu (p_ks (u_pci s));
     (_, k) \<leftarrow> request_irq_smp c (ucast vector) handler dev (p_ks (u_pci s));
     request_vectors cpu handler dev ds (upd_ks (\<lambda>_. k) s)
   }"

fun scratch_buffers :: "nat \<Rightarrow> nat \<Rightarrow> u64 \<Rightarrow> 'd usb \<Rightarrow> 'd usb option" where
  "scratch_buffers 0 i arr s = Some s"
| "scratch_buffers (Suc n) i arr s = do {
     (buf, s) \<leftarrow> usb_kmalloc 0x1000 s;
     let s = upd_mem (mem_zero buf 0x1000) s;
     scratch_buffers n (i + 1) arr (upd_mem (\<lambda>m. store_le 8 (VIRT2PHYS buf) m (arr + 8 * of_nat i)) s)
   }"

definition init_interrupter :: "'d hc_io \<Rightarrow> nat \<Rightarrow> 'd usb \<Rightarrow> 'd usb" where
  "init_interrupter io i s =
     (let ir = XHCI_HC_IR (of_nat i);
          s = xhci_rtreg_wr32 io (ir + XHCI_HC_IR_ERSTSZ) 1 s;
          s = xhci_rtreg_wr64 io (ir + XHCI_HC_IR_ERDP) (segment_base s OR 0x8) s;
          s = xhci_rtreg_wr64 io (ir + XHCI_HC_IR_ERSTBA) (VIRT2PHYS (event_ring_seg_table (u_x s))) s;
          s = xhci_rtreg_wr32 io (ir + XHCI_HC_IR_IMOD) 1000 s
      in xhci_rtreg_wr32 io (ir + XHCI_HC_IR_IMAN) (ucast XHCI_HC_IR_IMAN_IE) s)"

definition read_capabilities :: "'d hc_io \<Rightarrow> 'd usb \<Rightarrow> 'd usb" where
  "read_capabilities io s =
     (let (len_version, s) = xhci_cap_rd32 io XHCI_CAPLENGTH s;
          s = upd_x (hc_op_reg_offset_update (\<lambda>_. ucast (len_version AND 0xff))) s;
          (p1, s) = xhci_cap_rd32 io XHCI_HCSPARAMS1 s;
          s = upd_x (\<lambda>x. x\<lparr>nr_slot := ucast (p1 AND 0xff), nr_intr := ucast (drop_bit 8 p1 AND 0x3ff),
                nr_port := ucast (drop_bit 24 p1)\<rparr>) s;
          (p2, s) = xhci_cap_rd32 io XHCI_HCSPARAMS2 s;
          s = upd_x (max_scratch_buffer_cnt_update
                (\<lambda>_. ucast (drop_bit 27 p2 OR push_bit 5 (drop_bit 21 p2 AND 0x1f)))) s;
          (p3, s) = xhci_cap_rd32 io XHCI_HCSPARAMS3 s;
          (c1, s) = xhci_cap_rd32 io XHCI_HCCPARAMS1 s;
          (c2, s) = xhci_cap_rd32 io XHCI_HCCPARAMS2 s;
          s = upd_x (hc_ext_reg_offset_update (\<lambda>_. ucast (drop_bit 16 c1))) s;
          (db, s) = xhci_cap_rd32 io XHCI_DBOFF s;
          s = upd_x (hc_doorbell_reg_offset_update (\<lambda>_. ucast db)) s;
          (rt, s) = xhci_cap_rd32 io XHCI_RTSOFF s;
          s = upd_x (hc_rt_reg_offset_update (\<lambda>_. ucast rt)) s;
          (vt, s) = xhci_cap_rd32 io 0x20 s
      in upd_x (hc_vt_reg_offset_update (\<lambda>_. ucast vt)) s)"

text \<open>The memory structures of the controller: the array of device contexts with the scratch
  buffers, the command ring, and the event ring with its segment table.\<close>

definition setup_structures :: "'d hc_io \<Rightarrow> 'd usb \<Rightarrow> 'd usb option" where
  "setup_structures io s = do {
     (arr, s) \<leftarrow> usb_kmalloc 0x1000 s;
     let s = upd_x (dcbaa_update (\<lambda>_. arr)) s;
     let s = upd_mem (mem_zero arr (256 * 8)) s;
     (scratch, s) \<leftarrow> usb_kmalloc 0x1000 s;
     let s = upd_mem (mem_zero scratch 0x1000) s;
     s \<leftarrow> scratch_buffers (unat (max_scratch_buffer_cnt (u_x s))) 0 scratch s;
     let s = upd_mem (\<lambda>m. store_le 8 (VIRT2PHYS scratch) m arr) s;
     let s = xhci_opreg_wr64 io XHCI_HC_DCBAAP (VIRT2PHYS arr) s;
     (ring, s) \<leftarrow> usb_kmalloc 0x1000 s;
     let s = upd_x (\<lambda>x. x\<lparr>cmd_ring_size := 0x1000, cmd_ring := ring, cmd_ring_enqueue_ptr := 0, cmd_ring_dcs := 1\<rparr>) s;
     let s = upd_mem (mem_zero ring 0x1000) s;
     let s = xhci_opreg_wr64 io XHCI_HC_CRCR (VIRT2PHYS ring OR cmd_ring_dcs (u_x s)) s;
     (tab, s) \<leftarrow> usb_kmalloc 0x1000 s;
     let s = upd_mem (mem_zero tab 0x1000) s;
     (ev, s) \<leftarrow> usb_kmalloc 0x1000 s;
     let s = upd_x (\<lambda>x. x\<lparr>event_ring_seg_table := tab, event_ring_size := 0x1000, event_ring := ev,
               event_ring_dequeue_ptr := ev\<rparr>) s;
     let s = upd_mem (mem_zero ev 0x1000) s;
     let s = upd_mem (mem_set (member_of event_ring_segment_table_entry ''ring_segment_base_addr'') (VIRT2PHYS ev) tab) s;
     let s = upd_mem (mem_set (member_of event_ring_segment_table_entry ''ring_segment_size'') (0x1000 div 16) tab) s;
     Some (upd_x (event_ring_ccs_update (\<lambda>_. 1)) s)
   }"

definition xhci_probe ::
    "'d hc_io \<Rightarrow> 'd host_bridge \<Rightarrow> u32 \<Rightarrow> u64 \<Rightarrow> u64 \<Rightarrow> u64 \<Rightarrow> 'd usb \<Rightarrow> (int \<times> 'd usb) option" where
  "xhci_probe io hb junk cpu handler pdev s = do {
     (xh, s) \<leftarrow> usb_kmalloc SIZEOF_XHCI s;
     let s = s\<lparr>u_x := blank_xhci\<rparr>;
     let dev = p_dev (u_pci s) pdev;
     let s = upd_hw (pci_set_master hb dev \<circ> pci_enable_device hb dev) s;
     let (sz, s) = hw_read (pci_get_bar_size hb dev 0) s;
     let (base, s) = hw_read (pci_get_bar_base hb dev 0) s;
     let s = upd_x (mmio_virt_update (\<lambda>_. ioremap base sz)) s;
     let (_, s) = hw_read (pci_get_bar_size hb dev 0) s;
     let (_, s) = hw_read (pci_get_bar_base hb dev 0) s;
     let s = read_capabilities io s;
     let s = xhci_opreg_wr32 io XHCI_HC_USBCMD 0 s;
     let s = xhci_opreg_wr32 io XHCI_HC_USBCMD (ucast XHCI_HC_USBCMD_RESET) s;
     s \<leftarrow> wait_reset io s;
     (ret, s) \<leftarrow> pci_op (pci_enable_msix hb (io_wr32 io) junk pdev) s;
     (ret, s) \<leftarrow> (if ret < 0 then pci_op (pci_enable_msi hb pdev) s else Some (ret, s));
     s \<leftarrow> request_vectors cpu handler xh (d_irq_list (p_dev (u_pci s) pdev)) s;
     let s = xhci_opreg_wr32 io XHCI_HC_CONFIG (ucast (nr_slot (u_x s))) s;
     s \<leftarrow> setup_structures io s;
     let s = fold (init_interrupter io) [0..<unat (nr_intr (u_x s))] s;
     let s = xhci_opreg_wr32 io XHCI_HC_DNCTRL 0x2 s;
     let s = xhci_opreg_wr32 io XHCI_HC_USBCMD
               (ucast (XHCI_HC_USBCMD_RUN OR XHCI_HC_USBCMD_INTE OR XHCI_HC_USBCMD_HSEE)) s;
     Some (0, upd_x (inflight_transfer_list_update (\<lambda>_. [])) s)
   }"

section \<open>Filling in an urb\<close>

definition usb_fill_bulk_urb :: "u64 \<Rightarrow> u32 \<Rightarrow> u64 \<Rightarrow> u32 \<Rightarrow> completion \<Rightarrow> u64 \<Rightarrow> urb \<Rightarrow> urb" where
  "usb_fill_bulk_urb dev pipe buf len complete ctx u =
     u\<lparr>urb_dev := dev, urb_pipe := pipe, urb_transfer_buffer := buf, urb_transfer_buffer_length := len,
       urb_complete := complete, urb_context := ctx\<rparr>"

definition usb_fill_control_urb :: "u64 \<Rightarrow> u32 \<Rightarrow> trb \<Rightarrow> u64 \<Rightarrow> u32 \<Rightarrow> completion \<Rightarrow> u64 \<Rightarrow> urb \<Rightarrow> urb" where
  "usb_fill_control_urb dev pipe req buf len complete ctx u =
     (usb_fill_bulk_urb dev pipe buf len complete ctx u)\<lparr>urb_setup_packet := req\<rparr>"

definition USB_SPEED_HIGH :: u32 where "USB_SPEED_HIGH = 3"
definition USB_SPEED_SUPER :: u32 where "USB_SPEED_SUPER = 5"

definition usb_fill_int_urb ::
    "u64 \<Rightarrow> u32 \<Rightarrow> u32 \<Rightarrow> u64 \<Rightarrow> u32 \<Rightarrow> completion \<Rightarrow> u64 \<Rightarrow> u32 \<Rightarrow> urb \<Rightarrow> urb" where
  "usb_fill_int_urb dev speed pipe buf len complete ctx interval u =
     (usb_fill_bulk_urb dev pipe buf len complete ctx u)
       \<lparr>urb_interval := (if speed = USB_SPEED_HIGH \<or> sint USB_SPEED_SUPER \<le> sint speed
                        then push_bit (unat (interval - 1)) 1 else interval),
        urb_start_frame := - 1\<rparr>"


section \<open>The event loop\<close>

text \<open>The event ring is 256 slots.\<close>

definition event_slot :: "'d usb \<Rightarrow> nat \<Rightarrow> trb" where
  "event_slot s i = slot (u_mem s) (PHYS2VIRT (segment_base s)) (i mod 256)"

definition event_ring_ok :: "'d usb \<Rightarrow> bool" where
  "event_ring_ok s \<longleftrightarrow> event_ring_size (u_x s) = 0x1000 \<and> unat (segment_base s) + 0x1000 < 2 ^ 64"

text \<open>The entry at position \<open>k\<close> is new when its cycle bit is the one the driver expects. Going
  past the last entry inverts that bit.\<close>

definition new_event :: "'d usb \<Rightarrow> nat \<Rightarrow> bool" where
  "new_event s k \<longleftrightarrow> trb_c (event_slot s k) = event_ring_ccs (u_x s) AND 1"

definition past_event :: "nat \<Rightarrow> 'd usb \<Rightarrow> 'd usb" where
  "past_event k = upd_x (if k = 255
     then event_ring_ccs_update (\<lambda>c. NOT c) \<circ> event_ring_dequeue_ptr_update (\<lambda>_. 0)
     else event_ring_dequeue_ptr_update (\<lambda>p. p + 16))"

definition same_event_ring :: "'d usb \<Rightarrow> 'd usb \<Rightarrow> bool" where
  "same_event_ring s t \<longleftrightarrow> segment_base t = segment_base s \<and>
     event_ring_size (u_x t) = event_ring_size (u_x s) \<and> event_ring_ccs (u_x t) = event_ring_ccs (u_x s)"

text \<open>\<open>served h k s es q t\<close>: from position \<open>k\<close> on, the entries \<open>es\<close> are served one after the
  other, each once, each by the handler \<open>h\<close> in the state the one before has left, and the position
  is \<open>q\<close> then. An entry is read when its turn comes, so those the controller adds while an earlier
  one is served count; handlers may change everything but where the ring is.\<close>

inductive served :: "(trb \<Rightarrow> 'd usb \<Rightarrow> 'd usb option) \<Rightarrow> nat \<Rightarrow> 'd usb \<Rightarrow> trb list \<Rightarrow> nat \<Rightarrow> 'd usb \<Rightarrow> bool" for h where
  no_more: "served h k s [] k s"
| serve: "new_event s k \<Longrightarrow> h (event_slot s k) s = Some s1 \<Longrightarrow> same_event_ring s s1 \<Longrightarrow>
    served h ((k + 1) mod 256) (past_event k s1) es q t \<Longrightarrow> served h k s (event_slot s k # es) q t"

definition completes :: "trb \<Rightarrow> inflight_transfer \<Rightarrow> bool" where
  "completes e t \<longleftrightarrow> trb_type e = TRB_TRANSFER_EVENT \<and>
     it_trb_phys t = trb_get (member_of transfer_event_trb ''trb_pointer'') e"

definition no_resubmission :: "'d usb \<Rightarrow> bool" where
  "no_resubmission s \<longleftrightarrow> (\<forall>t \<in> set (inflight_transfer_list (u_x s)).
     urb_complete (u_urb s (it_urb t)) \<noteq> Usb_kbd_irq \<and> urb_complete (u_urb s (it_urb t)) \<noteq> Usb_mouse_irq)"

lemma upd_x_simps [simp]:
  "u_x (upd_x f s) = f (u_x s)" "u_mem (upd_x f s) = u_mem s" "u_urb (upd_x f s) = u_urb s"
  "upd_x f (upd_x g s) = upd_x (f \<circ> g) s" "u_pci (upd_x f s) = u_pci s"
  by (simp_all add: upd_x_def)

lemma upd_hw_simps [simp]:
  "u_x (upd_hw f s) = u_x s" "u_mem (upd_hw f s) = u_mem s" "u_urb (upd_hw f s) = u_urb s"
  "p_ks (u_pci (upd_hw f s)) = p_ks (u_pci s)"
  by (simp_all add: upd_hw_def)

lemma complete_quietly:
  assumes "inflight_transfer_list (u_x s) = xs @ ts" "\<forall>t\<in>set xs. it_trb_phys t \<noteq> key"
    and "\<forall>t\<in>set ts. urb_complete (u_urb s (it_urb t)) \<noteq> Usb_kbd_irq \<and>
           urb_complete (u_urb s (it_urb t)) \<noteq> Usb_mouse_irq"
  shows "complete_transfers io key ts s =
    Some (upd_x (inflight_transfer_list_update (\<lambda>_. xs @ filter (\<lambda>t. it_trb_phys t \<noteq> key) ts)) s)"
  using assms
proof (induction ts arbitrary: s xs)
  case Nil
  then show ?case by (simp add: upd_x_def)
next
  case (Cons t ts)
  show ?case
  proof (cases "it_trb_phys t = key")
    case True
    let ?s = "upd_x (inflight_transfer_list_update (remove1 t)) s"
    have "t \<notin> set xs" using Cons.prems(2) True by auto
    then have l: "inflight_transfer_list (u_x ?s) = xs @ ts"
      using Cons.prems(1) by (simp add: remove1_append)
    have c: "urb_completed io (it_urb t) ?s = Some ?s"
      using Cons.prems(3) by (auto simp: urb_completed_def split: completion.split)
    have "complete_transfers io key ts ?s =
      Some (upd_x (inflight_transfer_list_update (\<lambda>_. xs @ filter (\<lambda>t. it_trb_phys t \<noteq> key) ts)) ?s)"
      by (rule Cons.IH [OF l]) (use Cons.prems in auto)
    then show ?thesis using True c by (simp add: Let_def comp_def)
  next
    case False
    then show ?thesis
      using Cons.IH [of s "xs @ [t]"] Cons.prems by simp
  qed
qed

lemma handle_quiet_event:
  assumes "no_resubmission s" "trb_type e \<noteq> TRB_PORT_STATUS_CHANGE_EVENT"
  shows "xhci_handle_event io junk tmp_desc e s =
    Some (upd_x (inflight_transfer_list_update (filter (\<lambda>t. \<not> completes e t))) s)"
proof (cases "trb_type e = TRB_TRANSFER_EVENT")
  case True
  have "handle_transfer_completion io e s = Some (upd_x (inflight_transfer_list_update
      (\<lambda>_. filter (\<lambda>t. it_trb_phys t \<noteq> trb_get (member_of transfer_event_trb ''trb_pointer'') e)
        (inflight_transfer_list (u_x s)))) s)"
    unfolding handle_transfer_completion_def
    using complete_quietly [of s "[]" "inflight_transfer_list (u_x s)"] assms(1)
    by (simp add: no_resubmission_def)
  then show ?thesis using True assms(2)
    by (simp add: xhci_handle_event_def completes_def usb_consts upd_x_def)
next
  case False
  then show ?thesis using assms(2)
    by (simp add: xhci_handle_event_def completes_def upd_x_def)
qed

lemma segment_base_upd_x [simp]:
  "event_ring_seg_table (f (u_x s)) = event_ring_seg_table (u_x s) \<Longrightarrow> segment_base (upd_x f s) = segment_base s"
  by (simp add: segment_base_def)

definition drop_completed :: "trb list \<Rightarrow> inflight_transfer list \<Rightarrow> inflight_transfer list" where
  "drop_completed es ts = filter (\<lambda>t. \<forall>e \<in> set es. \<not> completes e t) ts"

lemma ring_pos:
  assumes "unat b + 0x1000 < 2 ^ 64" "j \<le> 256"
  shows "unat (b + of_nat (16 * j) :: u64) = unat b + 16 * j"
proof -
  have o: "unat (of_nat (16 * j) :: u64) = 16 * j"
    using assms(2) by (simp add: unat_of_nat take_bit_nat_eq_self del: of_nat_mult)
  show ?thesis
    using unat_plus_no_wrap [of b "of_nat (16 * j)"] assms by (simp add: o del: of_nat_mult)
qed

lemma ring_less:
  fixes b :: u64
  assumes "unat b + 0x1000 < 2 ^ 64" "j \<le> 256"
  shows "b + of_nat (16 * j) < b + 0x1000 \<longleftrightarrow> j < 256"
  using ring_pos [OF assms] ring_pos [OF assms(1), of 256]
  by (simp add: word_less_nat_alt del: of_nat_mult)

text \<open>One turn: the handler's pointer is at entry \<open>k\<close>, where the lap began, and \<open>j\<close> entries further.\<close>

lemma intr_loop_turn:
  assumes "event_ring_ok s" "k + j < 256" "erdp = segment_base s + of_nat (16 * k)" "erdp + 16 \<noteq> start"
    and "new_event s (k + j)" "h (event_slot s (k + j)) s = Some s1"
  shows "intr_loop h start erdp (of_nat j) (of_nat (16 * j)) s =
    intr_loop h start erdp (of_nat (j + 1)) (of_nat (16 * (j + 1))) (upd_x (event_ring_dequeue_ptr_update (\<lambda>p. p + 16)) s1)"
proof -
  have less: "erdp + of_nat j * 16 < segment_base s + event_ring_size (u_x s)"
    using assms ring_less [of "segment_base s" "k + j"] by (simp add: event_ring_ok_def algebra_simps)
  have at: "trb_load (u_mem s) (PHYS2VIRT erdp + 16 * of_nat j) = event_slot s (k + j)"
    using assms by (simp add: event_slot_def slot_def slot_addr_def PHYS2VIRT_def algebra_simps)
  show ?thesis
    using assms(4,5,6) by (subst intr_loop.simps) (simp add: less at new_event_def Let_def add.commute)
qed

lemma intr_loop_stop:
  assumes "event_ring_ok s" "k + j < 256" "erdp = segment_base s + of_nat (16 * k)"
    and "trb_c (event_slot s (k + j)) \<noteq> event_ring_ccs (u_x s) AND 1"
  shows "intr_loop h start erdp (of_nat j) (of_nat (16 * j)) s = Some (erdp + of_nat (16 * j), s)"
proof -
  have less: "erdp + of_nat j * 16 < segment_base s + event_ring_size (u_x s)"
    using assms ring_less [of "segment_base s" "k + j"] by (simp add: event_ring_ok_def algebra_simps)
  have at: "trb_load (u_mem s) (PHYS2VIRT erdp + 16 * of_nat j) = event_slot s (k + j)"
    using assms by (simp add: event_slot_def slot_def slot_addr_def PHYS2VIRT_def algebra_simps)
  show ?thesis using assms(4) by (subst intr_loop.simps) (simp add: less at Let_def)
qed

lemma intr_loop_wrap:
  assumes "event_ring_ok s" "k + j = 256" "erdp = segment_base s + of_nat (16 * k)" "erdp + 16 \<noteq> start"
  shows "intr_loop h start erdp (of_nat j) d s = intr_loop h start (segment_base s) 0 0
    (upd_x (event_ring_ccs_update (\<lambda>c. NOT c) \<circ> event_ring_dequeue_ptr_update (\<lambda>_. 0)) s)"
proof -
  have k: "of_nat k + of_nat j = (256 :: u64)" using assms(2) by (metis of_nat_add of_nat_numeral)
  have "erdp + of_nat j * 16 = segment_base s + 16 * (of_nat k + of_nat j)"
    using assms by (simp add: algebra_simps)
  then have "\<not> erdp + of_nat j * 16 < segment_base s + event_ring_size (u_x s)"
    using assms(1) by (simp add: k event_ring_ok_def)
  then show ?thesis using assms(4) by (subst intr_loop.simps) simp
qed


lemma event_slot_upd_x [simp]:
  "event_ring_seg_table (f (u_x s)) = event_ring_seg_table (u_x s) \<Longrightarrow> event_slot (upd_x f s) i = event_slot s i"
  by (simp add: event_slot_def)

lemma past_event_simps [simp]:
  "segment_base (past_event k s) = segment_base s" "event_ring_size (u_x (past_event k s)) = event_ring_size (u_x s)"
  "event_ring_ok (past_event k s) = event_ring_ok s" "u_mem (past_event k s) = u_mem s" "u_urb (past_event k s) = u_urb s"
  "inflight_transfer_list (u_x (past_event k s)) = inflight_transfer_list (u_x s)"
  by (simp_all add: past_event_def event_ring_ok_def)

lemma same_ring_ok: "same_event_ring s t \<Longrightarrow> event_ring_ok t = event_ring_ok s"
  by (simp add: same_event_ring_def event_ring_ok_def)

lemma served_base: "served h k s es q t \<Longrightarrow> segment_base t = segment_base s"
  by (induction rule: served.induct) (simp_all add: same_event_ring_def)

text \<open>The rest of a lap that does not reach the end of the ring.\<close>

lemma served_lap:
  assumes "served h p s es q t" "event_ring_ok s" "p = k + j" "p + length es < 256"
    and "erdp = segment_base s + of_nat (16 * k)" "erdp + 16 \<noteq> start" "\<not> new_event t q"
  shows "intr_loop h start erdp (of_nat j) (of_nat (16 * j)) s = Some (segment_base s + of_nat (16 * q), t)"
  using assms
proof (induction arbitrary: j rule: served.induct)
  case (no_more p s)
  then show ?case
    using intr_loop_stop [of s k j erdp h start] by (simp add: new_event_def algebra_simps)
next
  case (serve s p s1 es q t)
  have p: "p < 255" "(p + 1) mod 256 = p + 1" using serve.prems(3) by simp_all
  have b: "segment_base s1 = segment_base s" "event_ring_ok s1"
    using serve.hyps(3) serve.prems(1) by (simp_all add: same_event_ring_def event_ring_ok_def)
  have "intr_loop h start erdp (of_nat j) (of_nat (16 * j)) s =
      intr_loop h start erdp (of_nat (j + 1)) (of_nat (16 * (j + 1))) (past_event p s1)"
    using intr_loop_turn [of s k j erdp start h s1] serve.hyps(1,2) serve.prems p
    by (simp add: past_event_def)
  also have "\<dots> = Some (segment_base (past_event p s1) + of_nat (16 * q), t)"
    by (rule serve.IH) (use serve.prems p b in simp_all)
  finally show ?case by (simp add: b)
qed

text \<open>The lap that reaches it: the cycle state is inverted and a second lap begins at entry 0. Having
  begun at entry 1, the loop stops there.\<close>

lemma served_round:
  assumes "served h p s es q t" "event_ring_ok s" "p = k + j" "p < 256" "256 \<le> p + length es" "j + length es < 256"
    and "start = segment_base s + of_nat (16 * k)" "\<not> new_event t q"
  shows "intr_loop h start start (of_nat j) (of_nat (16 * j)) s = Some (segment_base s + of_nat (16 * q), t)"
  using assms
proof (induction arbitrary: j rule: served.induct)
  case (no_more p s)
  then show ?case by simp
next
  case (serve s p s1 es q t)
  have b: "segment_base s1 = segment_base s" "event_ring_ok s1"
    using serve.hyps(3) serve.prems(1) by (simp_all add: same_event_ring_def event_ring_ok_def)
  let ?s = "upd_x (event_ring_dequeue_ptr_update (\<lambda>p. p + 16)) s1"
  have turn: "intr_loop h start start (of_nat j) (of_nat (16 * j)) s =
      intr_loop h start start (of_nat (j + 1)) (of_nat (16 * (j + 1))) ?s"
    using intr_loop_turn [of s k j start start h s1] serve.hyps(1,2) serve.prems by simp
  show ?case
  proof (cases "p = 255")
    case False
    then have p: "p < 255" "(p + 1) mod 256 = p + 1" using serve.prems(3) by simp_all
    have "?s = past_event p s1" using p by (simp add: past_event_def)
    moreover have "intr_loop h start start (of_nat (j + 1)) (of_nat (16 * (j + 1))) (past_event p s1) =
        Some (segment_base (past_event p s1) + of_nat (16 * q), t)"
      by (rule serve.IH) (use serve.prems p b in simp_all)
    ultimately show ?thesis using turn by (simp add: b)
  next
    case True
    have w: "upd_x (event_ring_ccs_update (\<lambda>c. NOT c) \<circ> event_ring_dequeue_ptr_update (\<lambda>_. 0)) ?s = past_event p s1"
      using True by (simp add: past_event_def comp_def)
    have s0: "served h 0 (past_event p s1) es q t" using serve.hyps(4) True by simp
    have wrap: "intr_loop h start start (of_nat (j + 1)) (of_nat (16 * (j + 1))) ?s =
        intr_loop h start (segment_base s) 0 0 (past_event p s1)"
      using intr_loop_wrap [of ?s k "j + 1" start start h "of_nat (16 * (j + 1))"] serve.prems True b w
      by (simp add: event_ring_ok_def)
    show ?thesis
    proof (cases "k = 1")
      case True
      then have "es = []" using serve.prems \<open>p = 255\<close> by simp
      with s0 have "q = 0" "t = past_event p s1" by (auto elim: served.cases)
      then show ?thesis
        using turn wrap True serve.prems(6) by (subst (asm) (2) intr_loop.simps) (simp add: b)
    next
      case False
      have "unat (segment_base s + of_nat (16 * k)) \<noteq> unat (segment_base s + of_nat (16 * 1))"
        using serve.prems False ring_pos [of "segment_base s" k] ring_pos [of "segment_base s" 1]
        by (simp add: event_ring_ok_def)
      then have ne: "segment_base s + 16 \<noteq> start" using serve.prems(6) by auto
      have "intr_loop h start (segment_base s) (of_nat 0) (of_nat (16 * 0)) (past_event p s1) =
          Some (segment_base (past_event p s1) + of_nat (16 * q), t)"
        by (rule served_lap [OF s0, of 0]) (use serve.prems b ne \<open>p = 255\<close> in simp_all)
      then show ?thesis using turn wrap by (simp add: b)
    qed
  qed
qed

text \<open>Events that are neither about a port nor complete a transfer that is submitted again only
  shorten the list.\<close>

lemma served_quietly:
  assumes "served h k s es q t" "h = xhci_handle_event io junk tmp_desc" "no_resubmission s"
    and "\<forall>e\<in>set es. trb_type e \<noteq> TRB_PORT_STATUS_CHANGE_EVENT"
  shows "inflight_transfer_list (u_x t) = drop_completed es (inflight_transfer_list (u_x s))"
  using assms
proof (induction rule: served.induct)
  case (no_more k s)
  then show ?case by (simp add: drop_completed_def)
next
  case (serve s k s1 es q t)
  have s1: "s1 = upd_x (inflight_transfer_list_update (filter (\<lambda>t. \<not> completes (event_slot s k) t))) s"
    using handle_quiet_event [OF serve.prems(2), of "event_slot s k" io junk tmp_desc] serve.hyps(2) serve.prems by simp
  have "no_resubmission (past_event k s1)"
    using serve.prems(2) by (auto simp: no_resubmission_def s1)
  then show ?case
    using serve.IH serve.prems by (simp add: s1 drop_completed_def conj_commute)
qed

lemma mmio_rd_state: "\<exists>d. snd (mmio_rd io off s) = upd_hw (\<lambda>_. d) s"
  by (auto simp: mmio_rd_def split: prod.split)

lemma upd_hw_hw [simp]: "upd_hw f (upd_hw g s) = upd_hw (f \<circ> g) s"
  by (simp add: upd_hw_def)

lemma upd_hw_upd_x: "upd_x f (upd_hw g s) = upd_hw g (upd_x f s)"
  by (simp add: upd_hw_def upd_x_def)

lemma segment_base_upd_hw [simp]: "segment_base (upd_hw f s) = segment_base s"
  by (simp add: segment_base_def)

lemma event_upd_hw [simp]:
  "event_slot (upd_hw f s) = event_slot s" "event_ring_ok (upd_hw f s) = event_ring_ok s"
  "no_resubmission (upd_hw f s) = no_resubmission s"
  by (simp_all add: fun_eq_iff event_slot_def event_ring_ok_def no_resubmission_def)

lemma register_reads:
  "\<exists>d. snd (xhci_opreg_rd32 io off s) = upd_hw (\<lambda>_. d) s"
  "\<exists>d. snd (xhci_rtreg_rd32 io off s) = upd_hw (\<lambda>_. d) s"
  "\<exists>d. snd (xhci_rtreg_rd64 io off s) = upd_hw (\<lambda>_. d) s"
proof -
  show op: "\<exists>d. snd (xhci_opreg_rd32 io off s) = upd_hw (\<lambda>_. d) s" for off s
    using mmio_rd_state by (simp add: xhci_opreg_rd32_def)
  show rt: "\<exists>d. snd (xhci_rtreg_rd32 io off s) = upd_hw (\<lambda>_. d) s" for off s
    using mmio_rd_state by (simp add: xhci_rtreg_rd32_def)
  obtain lo s1 where 1: "xhci_rtreg_rd32 io off s = (lo, s1)" by (metis surj_pair)
  obtain hi s2 where 2: "xhci_rtreg_rd32 io (off + 4) s1 = (hi, s2)" by (metis surj_pair)
  obtain d1 d2 where d: "s1 = upd_hw (\<lambda>_. d1) s" "s2 = upd_hw (\<lambda>_. d2) s1"
    using rt [of off s] rt [of "off + 4" s1] 1 2 by auto
  have "snd (xhci_rtreg_rd64 io off s) = s2" by (simp add: xhci_rtreg_rd64_def 1 2)
  then show "\<exists>d. snd (xhci_rtreg_rd64 io off s) = upd_hw (\<lambda>_. d) s"
    using d by (auto simp: comp_def)
qed

text \<open>The state after the three registers have been read.\<close>

definition intr_start :: "'d hc_io \<Rightarrow> 'd usb \<Rightarrow> 'd usb" where
  "intr_start io s = snd (xhci_rtreg_rd32 io erdp_reg (snd (xhci_rtreg_rd64 io erdp_reg
     (snd (xhci_opreg_rd32 io XHCI_HC_USBSTS s)))))"

lemma intr_start_state: obtains d where "intr_start io s = upd_hw (\<lambda>_. d) s"
proof -
  obtain sts s1 where 1: "xhci_opreg_rd32 io XHCI_HC_USBSTS s = (sts, s1)" by (metis surj_pair)
  obtain erdp s2 where 2: "xhci_rtreg_rd64 io erdp_reg s1 = (erdp, s2)" by (metis surj_pair)
  obtain ir s3 where 3: "xhci_rtreg_rd32 io erdp_reg s2 = (ir, s3)" by (metis surj_pair)
  obtain d1 d2 d3 where "s1 = upd_hw (\<lambda>_. d1) s" "s2 = upd_hw (\<lambda>_. d2) s1" "s3 = upd_hw (\<lambda>_. d3) s2"
    using register_reads(1) [of io XHCI_HC_USBSTS s] register_reads(3) [of io erdp_reg s1]
      register_reads(2) [of io erdp_reg s2] 1 2 3 by auto
  then have "s3 = upd_hw (\<lambda>_. d3) s" by (simp add: comp_def)
  moreover have "intr_start io s = s3" by (simp add: intr_start_def 1 2 3)
  ultimately show thesis using that [of d3] by simp
qed

text \<open>C7. An interrupt of the controller serves the new events, of every kind, one after the other
  from the dequeue register's entry on, each exactly once and in the state the handling of the one
  before has left, across the end of the event ring, until it comes to an entry that is not new;
  events the controller adds meanwhile are served too. Then the dequeue register is set to that entry, with
  the busy bit, and the status is acknowledged. The handlers must come back and leave the ring where
  it is, and fewer events than the ring has entries are served. When the events are completions of commands
  and of transfers without a resubmitting callback, exactly the transfers they complete leave the list
  of transfers in flight.\<close>

theorem xhci_intr_handles_events:
  assumes "event_ring_ok s" "k < 256"
    and "fst (xhci_rtreg_rd64 io erdp_reg (snd (xhci_opreg_rd32 io XHCI_HC_USBSTS s))) AND NOT 0xf =
      segment_base s + of_nat (16 * k)"
    and "served (xhci_handle_event io junk tmp_desc) k (intr_start io s) es q t"
    and "length es < 256" "\<not> new_event t q"
  shows "xhci_intr io junk tmp_desc s =
      Some (xhci_opreg_wr32 io XHCI_HC_USBSTS (fst (xhci_opreg_rd32 io XHCI_HC_USBSTS s) OR 0x8 OR 0x10)
        (xhci_rtreg_wr64 io erdp_reg ((segment_base s + of_nat (16 * q)) OR 0x8) t)) \<and>
    (no_resubmission s \<and> (\<forall>e\<in>set es. trb_type e \<noteq> TRB_PORT_STATUS_CHANGE_EVENT) \<longrightarrow>
      inflight_transfer_list (u_x t) = drop_completed es (inflight_transfer_list (u_x s)))"
proof
  let ?h = "xhci_handle_event io junk tmp_desc" and ?erdp = "segment_base s + of_nat (16 * k)"
  obtain d where st: "intr_start io s = upd_hw (\<lambda>_. d) s" by (rule intr_start_state)
  have ok: "event_ring_ok (intr_start io s)" "segment_base (intr_start io s) = segment_base s"
    "no_resubmission (intr_start io s) = no_resubmission s" "u_x (intr_start io s) = u_x s"
    using assms(1) by (simp_all add: st)
  have "intr_loop ?h ?erdp ?erdp (of_nat 0) (of_nat (16 * 0)) (intr_start io s) =
      Some (segment_base (intr_start io s) + of_nat (16 * q), t)"
  proof (cases "k + length es < 256")
    case True
    show ?thesis by (rule served_lap [OF assms(4) ok(1) _ True _ _ assms(6), of k 0]) (simp_all add: ok(2))
  next
    case False
    then show ?thesis
      by (intro served_round [OF assms(4) ok(1) _ assms(2) _ _ _ assms(6), where j = 0])
        (use assms(5) in \<open>simp_all add: ok(2)\<close>)
  qed
  then have "intr_loop ?h ?erdp ?erdp 0 0 (intr_start io s) = Some (segment_base s + of_nat (16 * q), t)"
    by (simp add: ok(2))
  note loop = this [folded assms(3)]
  show "xhci_intr io junk tmp_desc s =
      Some (xhci_opreg_wr32 io XHCI_HC_USBSTS (fst (xhci_opreg_rd32 io XHCI_HC_USBSTS s) OR 0x8 OR 0x10)
        (xhci_rtreg_wr64 io erdp_reg ((segment_base s + of_nat (16 * q)) OR 0x8) t))"
    using loop unfolding xhci_intr_def intr_with_def intr_start_def
    by (simp add: case_prod_beta Let_def del: of_nat_mult)
  show "no_resubmission s \<and> (\<forall>e\<in>set es. trb_type e \<noteq> TRB_PORT_STATUS_CHANGE_EVENT) \<longrightarrow>
      inflight_transfer_list (u_x t) = drop_completed es (inflight_transfer_list (u_x s))"
    using served_quietly [OF assms(4) refl] ok(3,4) by simp
qed

definition reg_io :: "(u64 \<Rightarrow> u32) hc_io" where
  "reg_io = \<lparr>io_rd32 = (\<lambda>a d. (d a, d)), io_wr32 = (\<lambda>a v d. d(a := v)), io_dma = Pair\<rparr>"

definition demo_pci :: "(u64 \<Rightarrow> u32) pci" where
  "demo_pci = \<lparr>p_hw = (\<lambda>_. 0), p_ks = demo_kstate, p_dev = (\<lambda>_. demo_dev), p_devices = [], p_ids = (\<lambda>_. []),
     p_drivers = []\<rparr>"

definition demo_usb :: "(u64 \<Rightarrow> u32) usb" where
  "demo_usb = \<lparr>u_pci = demo_pci, u_mem = (\<lambda>_. 0), u_x = blank_xhci, u_urb = (\<lambda>_. blank_urb),
     u_udev = (\<lambda>_. \<lparr>udev_port = 0, udev_slot = 0, udev_speed = 0, udev_interface_head = []\<rparr>),
     u_intf = (\<lambda>_. \<lparr>if_desc = (\<lambda>_. 0), if_endpoint_list = []\<rparr>),
     u_endp = (\<lambda>_. \<lparr>ep_desc = (\<lambda>_. 0)\<rparr>), usb_dev_list = []\<rparr>"

text \<open>An event ring at 0x2000 whose fourth entry says that the TRB at 0x5000 is done; the
  dequeue register, with its busy bit, is there. Two transfers are in flight.\<close>

definition demo_event :: trb where
  "demo_event = trb_set (96, 1) 1 (trb_set (106, 6) TRB_TRANSFER_EVENT (trb_set (0, 64) 0x5000 0))"

definition demo_ring :: "(u64 \<Rightarrow> u32) usb" where
  "demo_ring = upd_hw (\<lambda>_ a. if a = 0x38 then 0x2038 else 0)
     (demo_usb\<lparr>u_mem := trb_store demo_event (store_le 8 0x2000 (\<lambda>_. 0) 0xffff800000001000) (slot_addr (PHYS2VIRT 0x2000) 3),
        u_x := blank_xhci\<lparr>event_ring_size := 0x1000, event_ring_ccs := 1, event_ring_seg_table := 0xffff800000001000,
          inflight_transfer_list := [\<lparr>it_self = 1, it_trb_phys = 0x5000, it_urb = 7\<rparr>,
            \<lparr>it_self = 2, it_trb_phys = 0x6000, it_urb = 8\<rparr>]\<rparr>\<rparr>)"

lemma load_le_zero: "(\<forall>x<n. m (a + of_nat x) = 0) \<Longrightarrow> load_le n m a = 0"
proof -
  have "load_le n (\<lambda>_. 0) a = 0" by (induction n arbitrary: a) simp_all
  moreover assume "\<forall>x<n. m (a + of_nat x) = 0"
  ultimately show ?thesis using load_le_cong [of n m a "\<lambda>_. 0"] by simp
qed

lemma demo_ring_base: "segment_base demo_ring = 0x2000"
proof -
  have a: "apart (0xffff800000001000 + of_nat 0) 8 (0xffff800000001000 + of_nat (0x1000 + 48)) 16"
    by (rule apart_blocks) simp_all
  have "apart (0xffff800000001000 :: u64) 8 0xffff800000002030 8"
    using apart_sub [OF apart_sym [OF a], of 0 8, THEN apart_sym] by simp
  moreover have "apart (0xffff800000001000 :: u64) 8 0xffff800000002038 8"
    using apart_sub [OF apart_sym [OF a], of 8 8, THEN apart_sym] by simp
  ultimately show ?thesis
    by (simp add: segment_base_def mem_get_def member_bytes_def usb_members demo_ring_def demo_usb_def trb_store_def
        slot_addr_def PHYS2VIRT_def KERNEL_SPACE_def heap_simps)
qed


lemma demo_ring_slots:
  "event_slot demo_ring 3 = demo_event" "event_slot demo_ring 4 = 0"
proof -
  let ?m = "store_le 8 0x2000 (\<lambda>_. 0) 0xffff800000001000"
  have far: "apart (0xffff800000002000 + of_nat 64 :: u64) 16 0xffff800000001000 8"
    using apart_blocks [of "0x1000 + 64" 16 0 8 "0xffff800000001000"] by simp
  have a: "apart (0xffff800000002040 :: u64) 8 0xffff800000001000 8" "apart (0xffff800000002048 :: u64) 8 0xffff800000001000 8"
    using apart_sub [OF far, of 0 8] apart_sub [OF far, of 8 8] by simp_all
  have z: "load_le 8 (\<lambda>_. 0) b = 0" for b by (rule load_le_zero) simp
  have "slot ?m (PHYS2VIRT 0x2000) 4 = 0"
    by (simp add: slot_def slot_addr_def PHYS2VIRT_def KERNEL_SPACE_def trb_load_def heap_simps a z)
  moreover have "u_mem demo_ring = trb_store demo_event ?m (slot_addr (PHYS2VIRT 0x2000) 3)"
    by (simp add: demo_ring_def)
  ultimately show "event_slot demo_ring 3 = demo_event" "event_slot demo_ring 4 = 0"
    by (simp_all add: event_slot_def demo_ring_base heap_simps)
qed

lemma demo_event_fields:
  "trb_c demo_event = 1" "trb_type demo_event = TRB_TRANSFER_EVENT"
  "trb_get (member_of transfer_event_trb ''trb_pointer'') demo_event = 0x5000"
  by (simp_all add: demo_event_def trb_c_def trb_type_def usb_members usb_consts)

lemma xhci_intr_handles_events_witness:
  "\<exists>s. xhci_intr reg_io 0 0 demo_ring = Some s \<and>
     inflight_transfer_list (u_x s) = [\<lparr>it_self = 2, it_trb_phys = 0x6000, it_urb = 8\<rparr>]"
proof -
  have x: "event_ring_ccs (u_x demo_ring) = 1" "event_ring_size (u_x demo_ring) = 0x1000"
    "inflight_transfer_list (u_x demo_ring) = [\<lparr>it_self = 1, it_trb_phys = 0x5000, it_urb = 7\<rparr>,
            \<lparr>it_self = 2, it_trb_phys = 0x6000, it_urb = 8\<rparr>]"
    "mmio_virt (u_x demo_ring) = 0" "hc_op_reg_offset (u_x demo_ring) = 0" "hc_rt_reg_offset (u_x demo_ring) = 0"
    "u_hw demo_ring = (\<lambda>a. if a = 0x38 then 0x2038 else 0)"
    by (simp_all add: demo_ring_def blank_xhci_def u_hw_def upd_hw_def)
  have 1: "event_ring_ok demo_ring" by (simp add: event_ring_ok_def x demo_ring_base)
  have quiet: "no_resubmission demo_ring"
    by (simp add: no_resubmission_def x) (simp add: demo_ring_def demo_usb_def blank_urb_def)
  have port: "trb_type demo_event \<noteq> TRB_PORT_STATUS_CHANGE_EVENT" by (simp add: demo_event_fields usb_consts)
  have 3: "fst (xhci_rtreg_rd64 reg_io erdp_reg (snd (xhci_opreg_rd32 reg_io XHCI_HC_USBSTS demo_ring))) AND NOT 0xf =
      segment_base demo_ring + of_nat (16 * 3)"
    by (simp add: demo_ring_base xhci_rtreg_rd64_def xhci_rtreg_rd32_def xhci_opreg_rd32_def mmio_rd_def mmio_at_def
        reg_io_def erdp_reg_def usb_consts x) (simp add: u_hw_def upd_hw_def x [unfolded u_hw_def])
  obtain d where st: "intr_start reg_io demo_ring = upd_hw (\<lambda>_. d) demo_ring" by (rule intr_start_state)
  let ?s = "intr_start reg_io demo_ring"
  let ?s1 = "upd_x (inflight_transfer_list_update (filter (\<lambda>t. \<not> completes demo_event t))) ?s"
  have sl: "event_slot ?s 3 = demo_event" "event_slot (past_event 3 ?s1) 4 = 0"
    by (simp_all add: st demo_ring_slots past_event_def)
  have h: "xhci_handle_event reg_io 0 0 (event_slot ?s 3) ?s = Some ?s1"
    unfolding sl by (rule handle_quiet_event) (use quiet port in \<open>simp_all add: st\<close>)
  have new: "new_event ?s 3" "\<not> new_event (past_event 3 ?s1) 4"
    by (simp_all add: new_event_def sl demo_event_fields) (simp_all add: st x past_event_def)
  have "served (xhci_handle_event reg_io 0 0) 3 ?s [event_slot ?s 3] 4 (past_event 3 ?s1)"
    by (rule served.serve [where h = "xhci_handle_event reg_io 0 0", OF new(1) h])
      (use served.no_more [of "xhci_handle_event reg_io 0 0" 4] in \<open>simp_all add: same_event_ring_def\<close>)
  from xhci_intr_handles_events [OF 1 _ 3 this _ new(2)]
  have "xhci_intr reg_io 0 0 demo_ring =
      Some (xhci_opreg_wr32 reg_io XHCI_HC_USBSTS (fst (xhci_opreg_rd32 reg_io XHCI_HC_USBSTS demo_ring) OR 0x8 OR 0x10)
        (xhci_rtreg_wr64 reg_io erdp_reg ((segment_base demo_ring + of_nat (16 * 4)) OR 0x8) (past_event 3 ?s1)))"
    "inflight_transfer_list (u_x (past_event 3 ?s1)) = drop_completed [demo_event] (inflight_transfer_list (u_x demo_ring))"
    using quiet port by (simp_all add: sl)
  moreover have "u_x (xhci_opreg_wr32 reg_io a v (xhci_rtreg_wr64 reg_io b w s)) = u_x s" for a v b w s
    by (simp add: xhci_opreg_wr32_def xhci_rtreg_wr64_def xhci_rtreg_wr32_def mmio_wr_def)
  ultimately show ?thesis
    by (simp add: drop_completed_def x completes_def demo_event_fields)
qed

section \<open>Waiting for completions\<close>

definition event_matches :: "bool \<Rightarrow> u64 \<Rightarrow> u64 \<Rightarrow> u64 \<Rightarrow> trb \<Rightarrow> bool" where
  "event_matches chk ty key ccs t \<longleftrightarrow> (chk \<longrightarrow> trb_c t = ccs AND 1) \<and> trb_type t = ty \<and>
     trb_get (member_of trb_template ''parameter'') t = key"

lemma event_scan_find:
  assumes "\<forall>j\<le>n. inside (p + of_nat (16 * j)) \<longleftrightarrow> j < n" "i \<le> n"
  shows "event_scan inside chk ty key ccs p (of_nat i) m =
    Some (case find (\<lambda>j. event_matches chk ty key ccs (trb_load m (PHYS2VIRT p + of_nat (16 * j)))) [i..<n] of
            None \<Rightarrow> 0 | Some j \<Rightarrow> PHYS2VIRT p + of_nat (16 * j))"
  using assms(2)
proof (induction "n - i" arbitrary: i)
  case 0
  then have "i = n" by simp
  moreover have "\<not> inside (p + of_nat n * 16)" using assms(1) [rule_format, of n] by (simp add: mult.commute)
  ultimately show ?case by (subst event_scan.simps) simp
next
  case (Suc d)
  then have i: "i < n" by simp
  have inside: "inside (p + of_nat i * 16)" using assms(1) [rule_format, of i] i by (simp add: mult.commute)
  have nx: "of_nat i + 1 = (of_nat (Suc i) :: u64)" by simp
  have IH: "event_scan inside chk ty key ccs p (of_nat (Suc i)) m =
    Some (case find (\<lambda>j. event_matches chk ty key ccs (trb_load m (PHYS2VIRT p + of_nat (16 * j)))) [Suc i..<n] of
            None \<Rightarrow> 0 | Some j \<Rightarrow> PHYS2VIRT p + of_nat (16 * j))"
    using Suc by (intro Suc.hyps(1)) simp_all
  let ?t = "trb_load m (PHYS2VIRT p + of_nat (16 * i))"
  have "event_scan inside chk ty key ccs p (of_nat i) m =
      (if event_matches chk ty key ccs ?t then Some (PHYS2VIRT p + of_nat (16 * i))
       else event_scan inside chk ty key ccs p (of_nat (Suc i)) m)"
    by (subst event_scan.simps) (auto simp: inside nx Let_def event_matches_def)
  then show ?case using upt_conv_Cons [OF i] by (simp add: IH del: of_nat_Suc of_nat_mult)
qed

lemma find_none_or: "\<forall>i \<in> set is. i \<noteq> j \<longrightarrow> \<not> P i \<Longrightarrow> find P is = (if j \<in> set is \<and> P j then Some j else None)"
  by (induction "is") auto

text \<open>One turn finds a match at position \<open>j\<close> when there is no other in the ring: in the first
  pass from the dequeue position \<open>k\<close> on, in the second before it.\<close>

lemma poll_once_unique:
  assumes ok: "event_ring_ok s" "0x10 \<le> unat (segment_base s)" and k: "k < 256" "j < 256"
    and e: "erdp = segment_base s + of_nat (16 * k)"
    and o: "\<forall>i<256. i \<noteq> j \<longrightarrow> \<not> event_matches False ty key 0 (event_slot s i)"
  shows "poll_once chk2 ty key erdp ccs s = Some
    (if k \<le> j \<and> event_matches True ty key ccs (event_slot s j) \<or>
        j < k \<and> event_matches chk2 ty key (NOT ccs) (event_slot s j)
     then slot_addr (PHYS2VIRT (segment_base s)) j else 0)"
proof -
  let ?b = "segment_base s"
  have lt: "j < 256 \<Longrightarrow> event_slot s j = trb_load (u_mem s) (PHYS2VIRT ?b + of_nat (16 * j))" for j
    by (simp add: event_slot_def slot_def slot_addr_def)
  have at: "PHYS2VIRT erdp + of_nat (16 * i) = PHYS2VIRT ?b + of_nat (16 * (k + i))" for i
    using e by (simp add: PHYS2VIRT_def algebra_simps)
  have no: "\<not> event_matches c ty key d (event_slot s i)" if "i < 256" "i \<noteq> j" for c d i
    using o that by (auto simp: event_matches_def)
  have in1: "\<forall>i\<le>256 - k. erdp + of_nat (16 * i) < ?b + event_ring_size (u_x s) \<longleftrightarrow> i < 256 - k"
  proof (intro allI impI)
    fix i assume i: "i \<le> 256 - k"
    have eq: "erdp + of_nat (16 * i) = ?b + of_nat (16 * (k + i))" using e by (simp add: algebra_simps)
    have "?b + of_nat (16 * (k + i)) < ?b + 0x1000 \<longleftrightarrow> k + i < 256"
      using ok i k by (intro ring_less) (simp_all add: event_ring_ok_def)
    then show "erdp + of_nat (16 * i) < ?b + event_ring_size (u_x s) \<longleftrightarrow> i < 256 - k"
      unfolding eq using ok(1) k by (auto simp: event_ring_ok_def simp del: of_nat_mult)
  qed
  have u16: "unat (erdp - 16) = unat ?b + 16 * k - 16"
  proof -
    have "unat erdp = unat ?b + 16 * k" using ring_pos [of ?b k] ok k e by (simp add: event_ring_ok_def)
    moreover have "(16 :: u64) \<le> erdp" using ok(2) calculation by (simp add: word_le_nat_alt)
    ultimately show ?thesis by (simp add: unat_sub_if_size word_le_nat_alt)
  qed
  have in2: "\<forall>i\<le>k. ?b + of_nat (16 * i) \<le> erdp - 16 \<longleftrightarrow> i < k"
    using ring_pos [of ?b] ok k u16 by (auto simp: event_ring_ok_def word_le_nat_alt simp del: of_nat_mult)
  have first: "event_scan (\<lambda>p. p < ?b + event_ring_size (u_x s)) True ty key ccs erdp 0 (u_mem s) =
      Some (if k \<le> j \<and> event_matches True ty key ccs (event_slot s j) then PHYS2VIRT ?b + of_nat (16 * j) else 0)"
  proof -
    have "find (\<lambda>i. event_matches True ty key ccs (trb_load (u_mem s) (PHYS2VIRT erdp + of_nat (16 * i)))) [0..<256 - k] =
        find (\<lambda>i. event_matches True ty key ccs (event_slot s (k + i))) [0..<256 - k]"
    proof (rule find_cong [OF refl])
      fix i assume "i \<in> set [0..<256 - k]"
      then have "k + i < 256" by auto
      then show "event_matches True ty key ccs (trb_load (u_mem s) (PHYS2VIRT erdp + of_nat (16 * i))) =
          event_matches True ty key ccs (event_slot s (k + i))"
        by (simp only: at lt)
    qed
    also have "\<dots> = (if k \<le> j \<and> event_matches True ty key ccs (event_slot s j) then Some (j - k) else None)"
    proof (cases "k \<le> j")
      case True
      then show ?thesis using k no by (subst find_none_or [of _ "j - k"]) auto
    next
      case False
      then show ?thesis using k no by (subst find_none_or [of _ 256]) auto
    qed
    finally have "find (\<lambda>i. event_matches True ty key ccs (trb_load (u_mem s) (PHYS2VIRT erdp + of_nat (16 * i)))) [0..<256 - k] = \<dots>" .
    moreover have "PHYS2VIRT erdp + of_nat (16 * (j - k)) = PHYS2VIRT ?b + of_nat (16 * j)" if "k \<le> j"
      using that by (simp only: at le_add_diff_inverse)
    ultimately show ?thesis
      using event_scan_find [OF in1, of 0 True ty key ccs "u_mem s"]
      by (simp del: of_nat_mult split: if_splits)
  qed
  have second: "event_scan (\<lambda>p. p \<le> erdp - 16) chk2 ty key (NOT ccs) ?b 0 (u_mem s) =
      Some (if j < k \<and> event_matches chk2 ty key (NOT ccs) (event_slot s j) then PHYS2VIRT ?b + of_nat (16 * j) else 0)"
  proof -
    have "find (\<lambda>i. event_matches chk2 ty key (NOT ccs) (trb_load (u_mem s) (PHYS2VIRT ?b + of_nat (16 * i)))) [0..<k] =
        find (\<lambda>i. event_matches chk2 ty key (NOT ccs) (event_slot s i)) [0..<k]"
      by (rule find_cong [OF refl]) (use k in \<open>simp add: lt del: of_nat_mult\<close>)
    also have "\<dots> = (if j < k \<and> event_matches chk2 ty key (NOT ccs) (event_slot s j) then Some j else None)"
      using k no by (subst find_none_or [of _ j]) auto
    finally have "find (\<lambda>i. event_matches chk2 ty key (NOT ccs) (trb_load (u_mem s) (PHYS2VIRT ?b + of_nat (16 * i)))) [0..<k] = \<dots>" .
    then show ?thesis
      using event_scan_find [OF in2, of 0 chk2 ty key "NOT ccs" "u_mem s"]
      by (auto simp del: of_nat_mult split: if_splits)
  qed
  show ?thesis
    by (auto simp: poll_once_def first second slot_addr_def simp del: of_nat_mult)
qed

text \<open>When the controller has not answered yet, the wait can return an old event: the driver
  inverts the cycle state it expects in every turn and does not check it at all before the dequeue
  position. If the ring still holds the completion of an earlier command at the same place of the
  command ring, with the cycle bit of the lap before, the second turn takes it for the answer.\<close>

theorem xhci_stale_completion:
  assumes ok: "event_ring_ok s" "0x10 \<le> unat (segment_base s)" "unat (segment_base s) < 2 ^ 46"
    and k: "k < 256" "k \<le> j" "j < 256"
    and erdp: "fst (xhci_rtreg_rd64 io erdp_reg s) AND NOT 0xf = segment_base s + of_nat (16 * k)"
    and idle: "\<And>m d. fst (io_dma io m d) = m"
    and old: "trb_type (event_slot s j) = TRB_COMMAND_COMPLETION_EVENT"
      "trb_get (member_of trb_template ''parameter'') (event_slot s j) = VIRT2PHYS (trb_at (cmd_ring (u_x s)) cmd_index)"
      "trb_c (event_slot s j) = NOT (event_ring_ccs (u_x s)) AND 1"
    and others: "\<forall>i<256. i \<noteq> j \<longrightarrow> trb_type (event_slot s i) \<noteq> TRB_COMMAND_COMPLETION_EVENT"
  shows "\<exists>d. xhci_wait_cmd_completion io cmd_index s =
    Some (slot_addr (PHYS2VIRT (segment_base s)) j, upd_hw (\<lambda>_. d) s)"
proof -
  let ?key = "VIRT2PHYS (trb_at (cmd_ring (u_x s)) cmd_index)" and ?c = "event_ring_ccs (u_x s)"
  let ?a = "slot_addr (PHYS2VIRT (segment_base s)) j" and ?ty = TRB_COMMAND_COMPLETION_EVENT
  obtain e s1 where 1: "xhci_rtreg_rd64 io erdp_reg s = (e, s1)" by (metis surj_pair)
  obtain d1 where s1: "s1 = upd_hw (\<lambda>_. d1) s"
    using register_reads(3) [of io erdp_reg s] 1 by auto
  have dma: "\<exists>d. usb_dma io (upd_hw (\<lambda>_. d0) s) = upd_hw (\<lambda>_. d) s" for d0
  proof -
    obtain m d where p: "io_dma io (u_mem s) d0 = (m, d)" by (metis surj_pair)
    then have "m = u_mem s" using idle [of "u_mem s" d0] by simp
    then show ?thesis using p by (auto simp: usb_dma_def u_hw_def upd_hw_def)
  qed
  obtain d2 where d2: "usb_dma io (upd_hw (\<lambda>_. d1) s) = upd_hw (\<lambda>_. d2) s" using dma by blast
  obtain d3 where d3: "usb_dma io (upd_hw (\<lambda>_. d2) s) = upd_hw (\<lambda>_. d3) s" using dma by blast
  have no: "\<forall>i<256. i \<noteq> j \<longrightarrow> \<not> event_matches False ?ty ?key 0 (event_slot s i)"
    using others by (simp add: event_matches_def)
  have ne: "NOT c AND 1 \<noteq> c AND 1" for c :: u64
  proof
    assume "NOT c AND 1 = c AND 1"
    then have "bit (NOT c AND 1) 0 = bit (c AND 1) 0" by simp
    then show False by (simp add: bit_and_iff bit_not_iff)
  qed
  have poll: "poll_once False ?ty ?key (e AND NOT 0xf) c (upd_hw (\<lambda>_. d) s) = Some
      (if event_matches True ?ty ?key c (event_slot s j) then ?a else 0)" for c d
    using poll_once_unique [of "upd_hw (\<lambda>_. d) s" k j "e AND NOT 0xf" ?ty ?key False c] ok k erdp 1 no by simp
  have nz: "?a \<noteq> 0"
  proof -
    have "unat (segment_base s + of_nat (16 * j)) < 2 ^ 47"
      using ring_pos [of "segment_base s" j] ok k by (simp add: event_ring_ok_def del: of_nat_mult)
    then have "unat (segment_base s + of_nat (16 * j)) + unat KERNEL_SPACE < 2 ^ LENGTH(64)"
      by (simp add: KERNEL_SPACE_def)
    then have "unat (segment_base s + of_nat (16 * j) + KERNEL_SPACE) \<noteq> 0"
      by (subst unat_plus_no_wrap) (simp_all add: KERNEL_SPACE_def)
    then have "segment_base s + of_nat (16 * j) + KERNEL_SPACE \<noteq> 0" by (metis unat_0)
    then show ?thesis by (simp add: slot_addr_def PHYS2VIRT_def ac_simps del: of_nat_mult)
  qed
  have m: "\<not> event_matches True ?ty ?key ?c (event_slot s j)" "event_matches True ?ty ?key (NOT ?c) (event_slot s j)"
    using old ne by (simp_all add: event_matches_def)
  have "cmd_poll io 0xffffffff (e AND NOT 0xf) ?c ?key s1 = Some (?a, upd_hw (\<lambda>_. d3) s)"
    using poll m nz by (simp add: s1 d2 d3 cmd_poll.simps)
  then show ?thesis using 1 s1 by (auto simp: xhci_wait_cmd_completion_def)
qed

text \<open>The same ring with the completion of the first command of a lap ago, and the command ring at
  0x4000.\<close>

definition old_completion :: trb where
  "old_completion = trb_set (96, 1) 0 (trb_set (106, 6) TRB_COMMAND_COMPLETION_EVENT (trb_set (0, 64) 0x4000 0))"

definition demo_stale :: "(u64 \<Rightarrow> u32) usb" where
  "demo_stale = demo_ring\<lparr>u_mem := trb_store old_completion (u_mem demo_ring) (slot_addr (PHYS2VIRT 0x2000) 5),
     u_x := u_x demo_ring\<lparr>cmd_ring := 0xffff800000004000\<rparr>\<rparr>"

lemma demo_table_slots:
  assumes "i < 256"
  shows "slot (store_le 8 0x2000 (\<lambda>_. 0) 0xffff800000001000) (PHYS2VIRT 0x2000) i = 0"
proof -
  let ?t = "0xffff800000001000 :: u64"
  have far: "apart (?t + of_nat (0x1000 + 16 * i)) 16 ?t 8"
    using apart_blocks [of "0x1000 + 16 * i" 16 0 8 ?t] assms by (simp del: of_nat_add of_nat_mult)
  have ad: "slot_addr (PHYS2VIRT 0x2000) i = ?t + of_nat (0x1000 + 16 * i)"
    by (simp add: slot_addr_def PHYS2VIRT_def KERNEL_SPACE_def)
  have a: "apart (slot_addr (PHYS2VIRT 0x2000) i) 8 ?t 8" "apart (slot_addr (PHYS2VIRT 0x2000) i + 8) 8 ?t 8"
    unfolding ad using apart_sub [OF far, of 0 8] apart_sub [OF far, of 8 8] by (simp_all del: of_nat_add)
  have z: "load_le 8 (\<lambda>_. 0) b = 0" for b by (rule load_le_zero) simp
  show ?thesis by (simp add: slot_def trb_load_def heap_simps a z)
qed

lemma demo_stale_base: "segment_base demo_stale = 0x2000"
proof -
  have far: "apart (0xffff800000001000 + of_nat 0 :: u64) 8 (0xffff800000001000 + of_nat (0x1000 + 80)) 16"
    by (rule apart_blocks) simp_all
  have "apart (0xffff800000001000 :: u64) 8 0xffff800000002050 8" "apart (0xffff800000001000 :: u64) 8 0xffff800000002058 8"
    using apart_sub [OF apart_sym [OF far], of 0 8, THEN apart_sym] apart_sub [OF apart_sym [OF far], of 8 8, THEN apart_sym]
    by simp_all
  moreover have "event_ring_seg_table (u_x demo_ring) = 0xffff800000001000" by (simp add: demo_ring_def)
  ultimately have "segment_base demo_stale = segment_base demo_ring"
    by (simp add: demo_stale_def segment_base_def mem_get_def member_bytes_def usb_members trb_store_def
        slot_addr_def PHYS2VIRT_def KERNEL_SPACE_def heap_simps)
  then show ?thesis by (simp add: demo_ring_base)
qed

lemma demo_stale_slots:
  "i < 256 \<Longrightarrow> event_slot demo_stale i = (if i = 5 then old_completion else if i = 3 then demo_event else 0)"
  by (simp add: event_slot_def demo_stale_base) (simp add: demo_stale_def demo_ring_def heap_simps demo_table_slots)

lemma xhci_stale_completion_witness:
  "\<exists>d. xhci_wait_cmd_completion reg_io 0 demo_stale = Some (slot_addr (PHYS2VIRT 0x2000) 5, upd_hw (\<lambda>_. d) demo_stale)"
proof -
  have x: "event_ring_ccs (u_x demo_stale) = 1" "event_ring_size (u_x demo_stale) = 0x1000"
    "cmd_ring (u_x demo_stale) = 0xffff800000004000" "mmio_virt (u_x demo_stale) = 0" "hc_rt_reg_offset (u_x demo_stale) = 0"
    "u_hw demo_stale = (\<lambda>a. if a = 0x38 then 0x2038 else 0)"
    by (simp_all add: demo_stale_def demo_ring_def blank_xhci_def u_hw_def upd_hw_def)
  have old: "trb_type old_completion = TRB_COMMAND_COMPLETION_EVENT" "trb_c old_completion = 0"
    "trb_get (member_of trb_template ''parameter'') old_completion = 0x4000"
    by (simp_all add: old_completion_def trb_c_def trb_type_def usb_members usb_consts)
  have t0: "trb_type 0 = 0" by (simp add: trb_type_def)
  have "fst (xhci_rtreg_rd64 reg_io erdp_reg demo_stale) AND NOT 0xf = segment_base demo_stale + of_nat (16 * 3)"
    by (simp add: demo_stale_base xhci_rtreg_rd64_def xhci_rtreg_rd32_def mmio_rd_def mmio_at_def
        reg_io_def erdp_reg_def usb_consts x) (simp add: u_hw_def upd_hw_def x [unfolded u_hw_def])
  then show ?thesis
    using xhci_stale_completion [of demo_stale 3 5 reg_io 0]
    by (simp add: demo_stale_base demo_stale_slots event_ring_ok_def x old t0 demo_event_fields usb_consts reg_io_def
        trb_at_def VIRT2PHYS_def KERNEL_SPACE_def)
qed


section \<open>What a control transfer puts into the ring\<close>

definition ring_view :: "'d usb \<Rightarrow> u64 \<times> u64 \<Rightarrow> cmd_state" where
  "ring_view s c = ((u_x s, u_mem s), c)"

definition control_trbs :: "urb \<Rightarrow> trb list" where
  "control_trbs u =
     (let d = (urb_pipe u AND 0x80000000 \<noteq> 0)
      in [setup_trb d (urb_setup_packet u)] @
         (if urb_transfer_buffer u \<noteq> 0 then [data_trb d (urb_transfer_buffer u) (urb_setup_packet u)] else []) @
         [status_trb d])"

lemma usb_kmalloc_keeps:
  "usb_kmalloc sz s = Some (a, s') \<Longrightarrow> u_x s' = u_x s \<and> u_mem s' = u_mem s \<and> u_urb s' = u_urb s \<and> u_udev s' = u_udev s"
  by (auto simp: usb_kmalloc_def bind_eq_Some_conv)

lemma doorbell_keeps [simp]:
  "u_x (xhci_doorbell_reg_wr32 io off v s) = u_x s" "u_mem (xhci_doorbell_reg_wr32 io off v s) = u_mem s"
proof -
  obtain d where "snd (mmio_rd io (hc_doorbell_reg_offset (u_x s) + off) (mmio_wr io (hc_doorbell_reg_offset (u_x s) + off) v s)) =
      upd_hw (\<lambda>_. d) (mmio_wr io (hc_doorbell_reg_offset (u_x s) + off) v s)"
    using mmio_rd_state [of io "hc_doorbell_reg_offset (u_x s) + off" "mmio_wr io (hc_doorbell_reg_offset (u_x s) + off) v s"]
    by blast
  then show "u_x (xhci_doorbell_reg_wr32 io off v s) = u_x s" "u_mem (xhci_doorbell_reg_wr32 io off v s) = u_mem s"
    by (simp_all add: xhci_doorbell_reg_wr32_def mmio_wr_def Let_def)
qed

text \<open>While the driver waits, the controller writes to memory: its events, the data. It does not write
  the entries of the ring with the base \<open>b\<close>, which it only reads.\<close>

definition ring_untouched :: "'d hc_io \<Rightarrow> u64 \<Rightarrow> bool" where
  "ring_untouched io b \<longleftrightarrow> (\<forall>m d. \<forall>i \<le> 255. slot (fst (io_dma io m d)) b i = slot m b i)"

lemma tr_holds_cong:
  assumes "u_x s' = u_x s" "\<forall>i \<le> 255. slot (u_mem s') b i = slot (u_mem s) b i"
    and "b = transfer_ring_base (the_ring p e (u_x s))" "tr_holds p e (ring_view s c) q"
  shows "tr_holds p e (ring_view s' c) q"
proof -
  have fl: "in_flight d (u_mem s') b [k..<n] r = in_flight d (u_mem s) b [k..<n] r" if "n \<le> 256" for d k n r
    using that assms(2) by (intro in_flight_cong) auto
  obtain ph ccs where c: "c = (ph, ccs)" by (cases c)
  let ?t = "the_ring p e (u_x s)" let ?d = "ucast (dcs ?t) :: u64"
  from assms(4) obtain k n where k: "k \<le> 255" "n \<le> 255" "dcs ?t \<in> {0, 1}" "enquene_pointer ?t = of_nat n"
    "PHYS2VIRT ph = slot_addr b k" "\<forall>i<n. trb_c (slot (u_mem s) b i) = ?d"
    "\<forall>i\<in>{n..255}. trb_c (slot (u_mem s) b i) = 1 - ?d"
    and d: "ccs = ?d \<and> k \<le> n \<and> in_flight ?d (u_mem s) b [k..<n] q \<or>
         ccs = 1 - ?d \<and> n \<le> k \<and> slot (u_mem s) b 255 = transfer_link (?t\<lparr>dcs := 1 - dcs ?t\<rparr>) \<and>
           (\<exists>q1 q2. q = q1 @ q2 \<and> in_flight (1 - ?d) (u_mem s) b [k..<255] q1 \<and> in_flight ?d (u_mem s) b [0..<n] q2)"
    unfolding tr_holds_def ring_view_def c prod.case Let_def assms(3) [symmetric] by blast
  have cyc: "\<forall>i<n. trb_c (slot (u_mem s') b i) = ?d" "\<forall>i\<in>{n..255}. trb_c (slot (u_mem s') b i) = 1 - ?d"
    using k(2,6,7) assms(2) by simp_all
  have n: "n \<le> 256" "(255 :: nat) \<le> 256" using k(2) by simp_all
  have d': "ccs = ?d \<and> k \<le> n \<and> in_flight ?d (u_mem s') b [k..<n] q \<or>
         ccs = 1 - ?d \<and> n \<le> k \<and> slot (u_mem s') b 255 = transfer_link (?t\<lparr>dcs := 1 - dcs ?t\<rparr>) \<and>
           (\<exists>q1 q2. q = q1 @ q2 \<and> in_flight (1 - ?d) (u_mem s') b [k..<255] q1 \<and> in_flight ?d (u_mem s') b [0..<n] q2)"
    using d unfolding fl [OF n(1)] fl [OF n(2)] assms(2) [rule_format, OF order_refl] .
  show ?thesis
    unfolding tr_holds_def ring_view_def c prod.case Let_def assms(1) assms(3) [symmetric]
    by (intro exI [of _ k] exI [of _ n] conjI k(1-5) cyc d')
qed

lemma transfer_poll_keeps:
  assumes "ring_untouched io b" and "transfer_poll io j erdp key s = Some (a, s')"
  shows "u_x s' = u_x s \<and> (\<forall>i \<le> 255. slot (u_mem s') b i = slot (u_mem s) b i)"
  using assms(2)
proof (induction j arbitrary: s)
  case 0
  then show ?case by (simp add: transfer_poll.simps)
next
  case (Suc j)
  obtain m d where m: "io_dma io (u_mem s) (u_hw s) = (m, d)" by (metis surj_pair)
  then have "\<forall>i \<le> 255. slot m b i = slot (u_mem s) b i"
    using assms(1) unfolding ring_untouched_def by (metis fst_conv)
  then have k: "u_x (usb_dma io s) = u_x s" "\<forall>i \<le> 255. slot (u_mem (usb_dma io s)) b i = slot (u_mem s) b i"
    by (simp_all add: usb_dma_def m)
  show ?case
    using Suc.prems Suc.IH [of "usb_dma io s"] k
    by (subst (asm) transfer_poll.simps) (auto simp: Let_def bind_eq_Some_conv split: if_splits)
qed

lemma wait_transfer_keeps:
  assumes "ring_untouched io b" "xhci_wait_transfer_completion io key s = Some (a, s')"
  shows "u_x s' = u_x s \<and> (\<forall>i \<le> 255. slot (u_mem s') b i = slot (u_mem s) b i)"
proof -
  obtain e s1 where 1: "xhci_rtreg_rd64 io erdp_reg s = (e, s1)" by (metis surj_pair)
  moreover obtain d where "s1 = upd_hw (\<lambda>_. d) s" using register_reads(3) [of io erdp_reg s] 1 by auto
  ultimately show ?thesis
    using assms(2) transfer_poll_keeps [OF assms(1), of 10000000 "e AND NOT 0xf" key s1 a s']
    by (simp add: xhci_wait_transfer_completion_def)
qed

lemma ring_insert_base:
  assumes "ring_op (xhci_insert_transfer_trb p e t) s = (r, s')"
  shows "transfer_ring_base (the_ring p e (u_x s')) = transfer_ring_base (the_ring p e (u_x s))"
  using assms by (auto simp: ring_op_def xhci_insert_transfer_trb_def Let_def split: if_splits)

lemma ring_insert_view:
  assumes "tr_holds p e (ring_view s c) q" "work_trb t" "length q < 255"
    and "ring_op (xhci_insert_transfer_trb p e t) s = (r, s')"
  shows "tr_holds p e (ring_view s' c) (q @ [payload t])"
proof -
  obtain ph x m where "xhci_insert_transfer_trb p e t (u_x s, u_mem s) = (ph, x, m)" by (metis surj_pair)
  then show ?thesis
    using tr.holds_produce [OF assms(1-3)] assms(4) by (auto simp: ring_view_def ring_op_def tr_produce_def)
qed

lemma ring_op_keeps:
  "ring_op f s = (r, s') \<Longrightarrow> u_urb s' = u_urb s \<and> u_udev s' = u_udev s"
  by (auto simp: ring_op_def split: prod.splits)

lemma stage_types:
  "trb_type (setup_trb d req) = TRB_SETUP_STAGE" "trb_type (data_trb d b req) = TRB_DATA_STAGE"
  "trb_type (status_trb d) = TRB_STATUS_STAGE" "trb_type (normal_trb u) = TRB_NORMAL"
  by (simp_all add: trb_type_def setup_trb_def data_trb_def status_trb_def normal_trb_def Let_def usb_members usb_consts)

lemma stage_work [simp]:
  "work_trb (setup_trb d req)" "work_trb (data_trb d b req)" "work_trb (status_trb d)" "work_trb (normal_trb u)"
  by (simp_all add: work_trb_def stage_types usb_consts)

text \<open>C16. A control transfer that comes back has queued, behind what the endpoint's ring held, the
  setup stage, the data stage exactly when there is a buffer, and the status stage, in this order,
  across the end of the ring too; their types are 2, 3 and 4. It needs three free places, which the
  driver does not check. The controller may write anything while the driver waits, its events and the
  data among it, but not the entries of the transfer ring.\<close>

theorem usb_control_transfer_stages:
  assumes ring: "tr_holds p e (ring_view s c) q" "length q + 3 \<le> 255"
    and idx: "array_index (udev_port (u_udev s (urb_dev (u_urb s urb)))) = Some p"
      "array_index (ep_addr_to_dci (urb_pipe (u_urb s urb) AND 0xffff) - 1) = Some e"
    and dma: "ring_untouched io (transfer_ring_base (the_ring p e (u_x s)))"
    and run: "usb_control_transfer io urb s = Some (r, s')"
  shows "r = 0 \<and> tr_holds p e (ring_view s' c) (q @ map payload (control_trbs (u_urb s urb))) \<and>
    map trb_type (control_trbs (u_urb s urb)) =
      (if urb_transfer_buffer (u_urb s urb) \<noteq> 0 then [2, 3, 4] else [2, 4])"
proof -
  let ?u = "u_urb s urb" let ?d = "urb_pipe ?u AND 0x80000000 \<noteq> 0"
  let ?st = "setup_trb ?d (urb_setup_packet ?u)" and ?da = "data_trb ?d (urb_transfer_buffer ?u) (urb_setup_packet ?u)"
  obtain a1 s1 where 1: "usb_kmalloc 16 s = Some (a1, s1)"
    using run by (auto simp: usb_control_transfer_def Let_def bind_eq_Some_conv)
  obtain a2 s2 where 2: "usb_kmalloc 16 s1 = Some (a2, s2)"
    using run 1 by (auto simp: usb_control_transfer_def Let_def bind_eq_Some_conv)
  obtain r3 s3 where 3: "ring_op (xhci_insert_transfer_trb p e ?st) s2 = (r3, s3)" by (metis surj_pair)
  have k2: "u_x s2 = u_x s" "u_mem s2 = u_mem s"
    using usb_kmalloc_keeps [OF 1] usb_kmalloc_keeps [OF 2] by simp_all
  have h3: "tr_holds p e (ring_view s3 c) (q @ [payload ?st])"
    by (rule ring_insert_view [OF _ _ _ 3]) (use ring k2 in \<open>simp_all add: ring_view_def\<close>)
  let ?data = "\<lambda>t. if urb_transfer_buffer ?u \<noteq> 0 then do {
             (_, s) \<leftarrow> usb_kmalloc 16 t;
             Some (snd (ring_op (xhci_insert_transfer_trb p e ?da) s))
           } else Some t"
  obtain s4 where 4: "?data s3 = Some s4"
    using run 1 2 3 idx by (auto simp: usb_control_transfer_def Let_def bind_eq_Some_conv)
  let ?mid = "if urb_transfer_buffer ?u \<noteq> 0 then [payload ?da] else []"
  have h4: "tr_holds p e (ring_view s4 c) (q @ [payload ?st] @ ?mid)"
  proof (cases "urb_transfer_buffer ?u = 0")
    case True
    then show ?thesis using 4 h3 by simp
  next
    case False
    then obtain a b where m: "usb_kmalloc 16 s3 = Some (a, b)" "s4 = snd (ring_op (xhci_insert_transfer_trb p e ?da) b)"
      using 4 by (auto simp: bind_eq_Some_conv)
    obtain r4 where r4: "ring_op (xhci_insert_transfer_trb p e ?da) b = (r4, s4)" using m(2) by (metis prod.collapse)
    have "tr_holds p e (ring_view b c) (q @ [payload ?st])"
      using h3 usb_kmalloc_keeps [OF m(1)] by (simp add: ring_view_def)
    from ring_insert_view [OF this _ _ r4] show ?thesis using ring(2) False by simp
  qed
  obtain r5 s5 where 5: "ring_op (xhci_insert_transfer_trb p e (status_trb ?d)) s4 = (r5, s5)" by (metis surj_pair)
  have h5: "tr_holds p e (ring_view s5 c) ((q @ [payload ?st] @ ?mid) @ [payload (status_trb ?d)])"
    by (rule ring_insert_view [OF h4 _ _ 5]) (use ring(2) in simp_all)
  let ?b = "transfer_ring_base (the_ring p e (u_x s))"
  have b4: "transfer_ring_base (the_ring p e (u_x s4)) = ?b"
  proof (cases "urb_transfer_buffer ?u = 0")
    case True
    then show ?thesis using 4 ring_insert_base [OF 3] k2 by simp
  next
    case False
    then obtain a b where m: "usb_kmalloc 16 s3 = Some (a, b)" "s4 = snd (ring_op (xhci_insert_transfer_trb p e ?da) b)"
      using 4 by (auto simp: bind_eq_Some_conv)
    then show ?thesis
      using ring_insert_base [of p e ?da b "fst (ring_op (xhci_insert_transfer_trb p e ?da) b)" s4]
        usb_kmalloc_keeps [OF m(1)] ring_insert_base [OF 3] k2 by simp
  qed
  then have b5: "?b = transfer_ring_base (the_ring p e (u_x s5))" using ring_insert_base [OF 5] by simp
  have fin: "r = 0 \<and> u_x s' = u_x s5 \<and> (\<forall>i \<le> 255. slot (u_mem s') ?b i = slot (u_mem s5) ?b i)"
  proof (cases "urb_polling_wait ?u")
    case True
    let ?s6 = "xhci_doorbell_reg_wr32 io (slot_id (port (u_x s5) p) * 4)
      (ep_addr_to_dci (urb_pipe ?u AND 0xffff) - 1) s5"
    obtain a where "xhci_wait_transfer_completion io r5 ?s6 = Some (a, s')" "r = 0"
      using run 1 2 3 4 5 idx True
      by (auto simp: usb_control_transfer_def Let_def bind_eq_Some_conv split del: if_split)
    then show ?thesis using wait_transfer_keeps [OF dma] by fastforce
  next
    case False
    then show ?thesis
      using run 1 2 3 4 5 idx by (auto simp: usb_control_transfer_def Let_def split del: if_split)
  qed
  have "control_trbs ?u = [?st] @ (if urb_transfer_buffer ?u \<noteq> 0 then [?da] else []) @ [status_trb ?d]"
    by (simp add: control_trbs_def Let_def)
  moreover have "tr_holds p e (ring_view s' c) ((q @ [payload ?st] @ ?mid) @ [payload (status_trb ?d)])"
    by (rule tr_holds_cong [OF _ _ b5 h5]) (use fin in simp_all)
  ultimately show ?thesis using fin by (auto simp: stage_types usb_consts)
qed


definition demo_control :: "(u64 \<Rightarrow> u32) usb" where
  "demo_control = demo_usb\<lparr>
     u_x := upd_ring 0 1 (\<lambda>_. \<lparr>transfer_ring_base = 0xffff800000200000, transfer_ring_size = 0,
       enquene_pointer = 0, dcs = 1\<rparr>) blank_xhci,
     u_urb := (\<lambda>_. blank_urb\<lparr>urb_pipe := 0x80000001, urb_transfer_buffer := 0xffff800000300000,
       urb_setup_packet := ctrl_request 0x80 USB_REQ_GET_DESCRIPTOR 0x100 0 18\<rparr>)\<rparr>"

text \<open>A controller that answers: while the driver polls, the event that the third TRB of the ring is
  done appears in the first entry of the event ring, whose segment is at physical address 0. Its registers read as 0.\<close>

definition answer :: trb where
  "answer = trb_set (96, 1) 1 (trb_set (106, 6) TRB_TRANSFER_EVENT (trb_set (0, 64) 0x200020 0))"

definition answering_io :: "(u64 \<Rightarrow> u32) hc_io" where
  "answering_io = \<lparr>io_rd32 = (\<lambda>a d. (0, d)), io_wr32 = (\<lambda>a v d. d(a := v)),
     io_dma = (\<lambda>m d. (trb_store answer m 0xffff800000000000, d))\<rparr>"

definition demo_polling :: "(u64 \<Rightarrow> u32) usb" where
  "demo_polling = demo_control\<lparr>
     u_x := (u_x demo_control)\<lparr>event_ring_size := 0x1000, event_ring_ccs := 1, event_ring_seg_table := 0xffff800000100000\<rparr>,
     u_urb := (\<lambda>_. (u_urb demo_control 0)\<lparr>urb_polling_wait := True\<rparr>)\<rparr>"

lemma answering_untouched: "ring_untouched answering_io 0xffff800000200000"
proof -
  have "slot (trb_store answer m 0xffff800000000000) 0xffff800000200000 i = slot m 0xffff800000200000 i"
    if "i \<le> 255" for m i
  proof -
    have "apart (0xffff800000000000 + of_nat 0) 16 (0xffff800000000000 + of_nat (0x200000 + 16 * i)) 16"
      by (rule apart_blocks) (use that in simp_all)
    then show ?thesis
      by (simp add: slot_def slot_addr_def heap_simps apart_sym)
  qed
  then show ?thesis by (simp add: ring_untouched_def answering_io_def)
qed

lemma transfer_poll_hit:
  assumes "j \<noteq> 0" "erdp < segment_base (usb_dma io s) + event_ring_size (u_x s)"
    and "trb_load (u_mem (usb_dma io s)) (PHYS2VIRT erdp) = t" "trb_c t = event_ring_ccs (u_x s) AND 1"
    and "trb_type t = TRB_TRANSFER_EVENT" "trb_get (member_of trb_template ''parameter'') t = key" "PHYS2VIRT erdp \<noteq> 0"
  shows "transfer_poll io j erdp key s = Some (PHYS2VIRT erdp, usb_dma io s)"
proof -
  have x: "u_x (usb_dma io s) = u_x s" by (simp add: usb_dma_def split: prod.split)
  have "event_scan (\<lambda>p. p < segment_base (usb_dma io s) + event_ring_size (u_x (usb_dma io s))) True
      TRB_TRANSFER_EVENT key (event_ring_ccs (u_x s)) erdp 0 (u_mem (usb_dma io s)) = Some (PHYS2VIRT erdp)"
    using assms by (subst event_scan.simps) (simp add: x)
  then show ?thesis
    using assms(1,7) by (subst transfer_poll.simps) (simp add: poll_once_def x)
qed

lemma demo_kmalloc:
  assumes "ks_boot (p_ks (u_pci s)) = empty_bootmem\<lparr>last_alloc_offset := n\<rparr>" "n \<in> {64, 128, 192}"
  shows "\<exists>a s'. usb_kmalloc 16 s = Some (a, s') \<and> ks_boot (p_ks (u_pci s')) = empty_bootmem\<lparr>last_alloc_offset := n + 64\<rparr>"
  using assms
  by (auto simp: usb_kmalloc_def pci_kmalloc_def ks_kmalloc_def kmalloc_def bootmem_alloc_def empty_bootmem_def roundup_def
      PHYS2VIRT_def KERNEL_SPACE_def Let_def)

lemma demo_boot: "ks_boot (p_ks (u_pci demo_polling)) = empty_bootmem\<lparr>last_alloc_offset := 64\<rparr>"
  by (simp add: demo_polling_def demo_control_def demo_usb_def demo_pci_def demo_kstate_def)

lemma ring_insert_frame:
  assumes op: "ring_op (xhci_insert_transfer_trb p e t) s = (r, s')"
    and enq: "enquene_pointer (the_ring p e (u_x s)) = of_nat k" "k < 255"
  shows "u_pci s' = u_pci s" "event_ring_size (u_x s') = event_ring_size (u_x s)"
    "event_ring_ccs (u_x s') = event_ring_ccs (u_x s)" "event_ring_seg_table (u_x s') = event_ring_seg_table (u_x s)"
    "apart a 8 (slot_addr (transfer_ring_base (the_ring p e (u_x s))) k) 16 \<Longrightarrow> load_le 8 (u_mem s') a = load_le 8 (u_mem s) a"
proof -
  let ?A = "slot_addr (transfer_ring_base (the_ring p e (u_x s))) k"
  have k: "scast (of_nat k :: u32) \<noteq> (255 :: u64)" using scast_small [of k] enq(2) by (simp add: word_unat_eq_iff unat_of_nat take_bit_nat_eq_self)
  have at: "trb_at b (of_nat k) = slot_addr b k" for b using enq(2) by (simp add: trb_at_slot)
  have s': "\<exists>v. s' = s\<lparr>u_x := upd_ring p e (\<lambda>r. r\<lparr>enquene_pointer := enquene_pointer r + 1\<rparr>) (u_x s),
      u_mem := trb_store v (trb_store t (u_mem s) ?A) ?A\<rparr>"
    using op k by (auto simp: ring_op_def xhci_insert_transfer_trb_def enq(1) at Let_def)
  then show "u_pci s' = u_pci s" by auto
  show "event_ring_size (u_x s') = event_ring_size (u_x s)" "event_ring_ccs (u_x s') = event_ring_ccs (u_x s)"
    "event_ring_seg_table (u_x s') = event_ring_seg_table (u_x s)"
    using s' by (auto simp: upd_ring_def upd_port_def)
  show "load_le 8 (u_mem s') a = load_le 8 (u_mem s) a" if ap: "apart a 8 ?A 16"
  proof -
    have "apart a 8 (?A + of_nat 0) 8" by (rule apart_sym, rule apart_sub [OF apart_sym [OF ap]]) simp
    moreover have "apart a 8 (?A + of_nat 8) 8" by (rule apart_sym, rule apart_sub [OF apart_sym [OF ap]]) simp
    ultimately have a: "apart a 8 ?A 8" "apart a 8 (?A + 8) 8" by simp_all
    show ?thesis using s' by (auto simp: trb_store_def heap_simps a)
  qed
qed

lemma ring_insert_next:
  assumes op: "ring_op (xhci_insert_transfer_trb p e t) s = (r, s')"
    and ring: "the_ring p e (u_x s) = \<lparr>transfer_ring_base = b, transfer_ring_size = z, enquene_pointer = of_nat k, dcs = 1\<rparr>" "k < 255"
  shows "r = VIRT2PHYS (slot_addr b k)"
    "the_ring p e (u_x s') = \<lparr>transfer_ring_base = b, transfer_ring_size = z, enquene_pointer = of_nat (k + 1), dcs = 1\<rparr>"
proof -
  obtain x m where i: "xhci_insert_transfer_trb p e t (u_x s, u_mem s) = (r, x, m)" "u_x s' = x"
    using op by (auto simp: ring_op_def split: prod.splits)
  have "enquene_pointer (the_ring p e (u_x s)) = of_nat k" "k \<le> 255" "dcs (the_ring p e (u_x s)) \<in> {0, 1}"
    using ring by simp_all
  note ins = tr_insert_slots [OF this i(1)]
  show "r = VIRT2PHYS (slot_addr b k)"
    "the_ring p e (u_x s') = \<lparr>transfer_ring_base = b, transfer_ring_size = z, enquene_pointer = of_nat (k + 1), dcs = 1\<rparr>"
    using ins(1,2) ring i(2) by simp_all
qed

lemma answer_found:
  assumes "load_le 8 (u_mem s) 0xffff800000100000 = 0" "event_ring_seg_table (u_x s) = 0xffff800000100000"
    and "event_ring_size (u_x s) = 0x1000" "event_ring_ccs (u_x s) = 1" "j \<noteq> 0"
  shows "transfer_poll answering_io j 0 0x200020 s = Some (PHYS2VIRT 0, usb_dma answering_io s)"
proof (rule transfer_poll_hit [OF assms(5)])
  have m: "u_mem (usb_dma answering_io s) = trb_store answer (u_mem s) 0xffff800000000000"
    "u_x (usb_dma answering_io s) = u_x s"
    by (simp_all add: usb_dma_def answering_io_def)
  have ap: "apart (0xffff800000000000 + of_nat 0x100000 :: u64) 8 (0xffff800000000000 + of_nat 0) 8"
    "apart (0xffff800000000000 + of_nat 0x100000 :: u64) 8 (0xffff800000000000 + of_nat 8) 8"
    by (rule apart_blocks; simp)+
  have "segment_base (usb_dma answering_io s) = 0"
    using ap assms(1) by (simp add: segment_base_def mem_get_def member_bytes_def usb_members m assms(2) trb_store_def heap_simps)
  then show "0 < segment_base (usb_dma answering_io s) + event_ring_size (u_x s)" using assms(3) by simp
  show "trb_load (u_mem (usb_dma answering_io s)) (PHYS2VIRT 0) = answer"
    by (simp add: m PHYS2VIRT_def KERNEL_SPACE_def)
  show "trb_c answer = event_ring_ccs (u_x s) AND 1" "trb_type answer = TRB_TRANSFER_EVENT"
    "trb_get (member_of trb_template ''parameter'') answer = 0x200020" "PHYS2VIRT 0 \<noteq> 0"
    using assms(4) by (simp_all add: answer_def trb_c_def trb_type_def usb_members usb_consts PHYS2VIRT_def KERNEL_SPACE_def)
qed

lemma usb_control_transfer_stages_witness:
  "\<exists>s' q. usb_control_transfer answering_io 0 demo_polling = Some (0, s') \<and>
     tr_holds 0 1 (ring_view s' (0x200000, 1)) q \<and> length q = 3"
proof -
  have u: "u_urb demo_polling 0 = blank_urb\<lparr>urb_pipe := 0x80000001, urb_transfer_buffer := 0xffff800000300000,
       urb_setup_packet := ctrl_request 0x80 USB_REQ_GET_DESCRIPTOR 0x100 0 18, urb_polling_wait := True\<rparr>"
    "udev_port (u_udev demo_polling a) = 0" for a
    by (simp_all add: demo_polling_def demo_control_def demo_usb_def)
  have idx: "array_index 0 = Some 0" "array_index (ep_addr_to_dci 1 - 1) = Some 1"
    by (simp_all add: array_index_def ep_addr_to_dci_def)
  have x: "the_ring 0 1 (u_x demo_polling) = \<lparr>transfer_ring_base = 0xffff800000200000, transfer_ring_size = 0,
       enquene_pointer = of_nat 0, dcs = 1\<rparr>" "event_ring_size (u_x demo_polling) = 0x1000"
    "event_ring_ccs (u_x demo_polling) = 1" "event_ring_seg_table (u_x demo_polling) = 0xffff800000100000"
    "u_mem demo_polling = (\<lambda>_. 0)"
    by (simp_all add: demo_polling_def demo_control_def demo_usb_def the_ring_def upd_ring_def upd_port_def blank_xhci_def)
  have h: "tr_holds 0 1 (ring_view demo_polling (0x200000, 1)) []"
    using tr_holds_start [of 0 1 "u_x demo_polling" "u_mem demo_polling"]
    by (simp add: x [unfolded One_nat_def] ring_view_def slot_def trb_load_zero VIRT2PHYS_def KERNEL_SPACE_def)
  have ap: "apart (0xffff800000100000 :: u64) 8 (slot_addr 0xffff800000200000 k) 16" if "k < 255" for k
    using apart_blocks [of 0 8 "0x100000 + 16 * k" 16 "0xffff800000100000"] that by (simp add: slot_addr_def)
  obtain a1 s1 where 1: "usb_kmalloc 16 demo_polling = Some (a1, s1)"
    "ks_boot (p_ks (u_pci s1)) = empty_bootmem\<lparr>last_alloc_offset := 128\<rparr>"
    using demo_kmalloc [OF demo_boot] by auto
  obtain a2 s2 where 2: "usb_kmalloc 16 s1 = Some (a2, s2)"
    "ks_boot (p_ks (u_pci s2)) = empty_bootmem\<lparr>last_alloc_offset := 192\<rparr>"
    using demo_kmalloc [OF 1(2)] by auto
  note k2 = usb_kmalloc_keeps [OF 1(1)] usb_kmalloc_keeps [OF 2(1)]
  let ?u = "u_urb demo_polling 0"
  let ?d = "urb_pipe ?u AND 0x80000000 \<noteq> 0"
  obtain r3 s3 where 3: "ring_op (xhci_insert_transfer_trb 0 1 (setup_trb ?d (urb_setup_packet ?u))) s2 = (r3, s3)"
    by (metis surj_pair)
  have x2: "the_ring 0 1 (u_x s2) = \<lparr>transfer_ring_base = 0xffff800000200000, transfer_ring_size = 0,
       enquene_pointer = of_nat 0, dcs = 1\<rparr>" using x(1) k2 by simp
  note n3 = ring_insert_next [OF 3 x2] ring_insert_frame [OF 3, of 0]
  obtain a4 s4 where 4: "usb_kmalloc 16 s3 = Some (a4, s4)"
    using demo_kmalloc [of s3 192] 2(2) n3 x2 by auto
  obtain r5 s5 where 5: "ring_op (xhci_insert_transfer_trb 0 1 (data_trb ?d (urb_transfer_buffer ?u) (urb_setup_packet ?u))) s4 = (r5, s5)"
    by (metis surj_pair)
  have x4: "the_ring 0 1 (u_x s4) = \<lparr>transfer_ring_base = 0xffff800000200000, transfer_ring_size = 0,
       enquene_pointer = of_nat (0 + 1), dcs = 1\<rparr>" using n3(2) usb_kmalloc_keeps [OF 4] by simp
  note n5 = ring_insert_next [OF 5 x4] ring_insert_frame [OF 5, of "0 + 1"]
  obtain r6 s6 where 6: "ring_op (xhci_insert_transfer_trb 0 1 (status_trb ?d)) s5 = (r6, s6)" by (metis surj_pair)
  have x5: "the_ring 0 1 (u_x s5) = \<lparr>transfer_ring_base = 0xffff800000200000, transfer_ring_size = 0,
       enquene_pointer = of_nat (0 + 1 + 1), dcs = 1\<rparr>" using n5(2) by simp
  note n6 = ring_insert_next [OF 6 x5] ring_insert_frame [OF 6, of "0 + 1 + 1"]
  have r6: "r6 = 0x200020" using n6(1) by (simp add: slot_addr_def VIRT2PHYS_def KERNEL_SPACE_def)
  have z: "load_le 8 (\<lambda>_. 0) a = 0" for a by (rule load_le_zero) simp
  have e6: "event_ring_size (u_x s6) = 0x1000" "event_ring_ccs (u_x s6) = 1" "event_ring_seg_table (u_x s6) = 0xffff800000100000"
    "load_le 8 (u_mem s6) 0xffff800000100000 = 0"
    using n6 n5 n3 x5 x4 x2 x k2 usb_kmalloc_keeps [OF 4] ap z by simp_all
  let ?s7 = "xhci_doorbell_reg_wr32 answering_io (slot_id (port (u_x s6) 0) * 4) (ep_addr_to_dci 1 - 1) s6"
  obtain e s8 where 8: "xhci_rtreg_rd64 answering_io erdp_reg ?s7 = (e, s8)" by (metis surj_pair)
  have e: "e = 0" using 8 by (simp add: xhci_rtreg_rd64_def xhci_rtreg_rd32_def mmio_rd_def answering_io_def case_prod_beta)
  obtain d where s8: "s8 = upd_hw (\<lambda>_. d) ?s7" using register_reads(3) [of answering_io erdp_reg ?s7] 8 by auto
  have "transfer_poll answering_io 10000000 0 0x200020 s8 = Some (PHYS2VIRT 0, usb_dma answering_io s8)"
    by (rule answer_found) (use e6 s8 in simp_all)
  then have w: "xhci_wait_transfer_completion answering_io r6 ?s7 = Some (PHYS2VIRT 0, usb_dma answering_io s8)"
    by (simp add: xhci_wait_transfer_completion_def 8 e r6)
  have p: "urb_pipe ?u AND 0xffff = 1" "urb_transfer_buffer ?u \<noteq> 0" "urb_polling_wait ?u" "u_udev s1 = u_udev demo_polling"
    using k2 by (simp_all add: u blank_urb_def)
  have run: "usb_control_transfer answering_io 0 demo_polling = Some (0, usb_dma answering_io s8)"
    unfolding usb_control_transfer_def Let_def p(1) u(2) idx 1(1) 2(1) bind.bind_lunit prod.case 3
    using p(2,3) by (simp add: 4 5 [unfolded One_nat_def] 6 [unfolded One_nat_def] w)
  have "0 = (0 :: int) \<and> tr_holds 0 1 (ring_view (usb_dma answering_io s8) (0x200000, 1))
      ([] @ map payload (control_trbs ?u)) \<and> map trb_type (control_trbs ?u) = (if urb_transfer_buffer ?u \<noteq> 0 then [2, 3, 4] else [2, 4])"
    by (rule usb_control_transfer_stages [OF h _ _ _ _ run])
      (use idx answering_untouched x(1) in \<open>simp_all add: u(2) p(1)\<close>)
  moreover have "length (control_trbs ?u) = 3"
    by (simp add: control_trbs_def u(1) Let_def)
  ultimately show ?thesis
    using run by (intro exI [of _ "usb_dma answering_io s8"] exI [of _ "map payload (control_trbs ?u)"]) simp
qed

section \<open>Keyboard and mouse keep listening\<close>

lemma complete_none: "\<forall>t\<in>set ts. it_trb_phys t \<noteq> key \<Longrightarrow> complete_transfers io key ts s = Some s"
  by (induction ts) simp_all

lemma complete_one:
  assumes "\<forall>u\<in>set (xs @ ys). it_trb_phys u \<noteq> key" "it_trb_phys t = key"
  shows "complete_transfers io key (xs @ t # ys) s =
    urb_completed io (it_urb t) (upd_x (inflight_transfer_list_update (remove1 t)) s)"
  using assms
proof (induction xs)
  case Nil
  then have "complete_transfers io key ys s' = Some s'" for s' by (simp add: complete_none)
  then show ?case using Nil
    by (cases "urb_completed io (it_urb t) (upd_x (inflight_transfer_list_update (remove1 t)) s)") (simp_all add: Let_def)
qed simp

lemma tr_holds_inflight [simp]:
  "tr_holds p e (ring_view (upd_x (inflight_transfer_list_update f) s) c) q = tr_holds p e (ring_view s c) q"
  by (simp add: ring_view_def tr_holds_def the_ring_def upd_x_def)

text \<open>C25. When the transfer of a keyboard or a mouse is done, its urb is submitted again before the
  handler returns: exactly one transfer for it is in flight afterwards, every other transfer stays,
  and the ring of its endpoint has one more TRB, asking for the same buffer.\<close>

theorem hid_urb_resubmitted:
  assumes ev: "trb_type ev = TRB_TRANSFER_EVENT"
    and one: "inflight_transfer_list (u_x s) = xs @ t # ys" "completes ev t" "\<forall>u\<in>set (xs @ ys). \<not> completes ev u"
    and urb: "urb_complete (u_urb s (it_urb t)) \<in> {Usb_kbd_irq, Usb_mouse_irq}" "\<not> urb_polling_wait (u_urb s (it_urb t))"
    and idx: "array_index (udev_port (u_udev s (urb_dev (u_urb s (it_urb t))))) = Some p"
      "array_index (ep_addr_to_dci (urb_pipe (u_urb s (it_urb t)) AND 0xffff) - 1) = Some e"
    and ring: "tr_holds p e (ring_view s c) q" "length q < 255"
    and run: "xhci_handle_event io junk tmp_desc ev s = Some s'"
  shows "(\<exists>new. inflight_transfer_list (u_x s') = new # xs @ ys \<and> it_urb new = it_urb t) \<and>
    tr_holds p e (ring_view s' c) (q @ [payload (normal_trb (u_urb s (it_urb t)))])"
proof -
  let ?key = "trb_get (member_of transfer_event_trb ''trb_pointer'') ev" and ?u = "u_urb s (it_urb t)"
  let ?s = "upd_x (inflight_transfer_list_update (remove1 t)) s"
  have key: "it_trb_phys t = ?key" "\<forall>u\<in>set (xs @ ys). it_trb_phys u \<noteq> ?key"
    using one ev by (auto simp: completes_def)
  then have "t \<notin> set xs" by auto
  then have l: "inflight_transfer_list (u_x ?s) = xs @ ys" using one(1) by (simp add: remove1_append)
  have "xhci_handle_event io junk tmp_desc ev s = urb_completed io (it_urb t) ?s"
    using complete_one [OF key(2,1), of io s] ev one(1)
    by (simp add: xhci_handle_event_def handle_transfer_completion_def usb_consts)
  with run urb(1) obtain r where b: "usb_bulk_transfer io (it_urb t) ?s = Some (r, s')"
    by (auto simp: urb_completed_def usb_interrupt_transfer_def)
  have keep: "u_urb ?s = u_urb s" "u_udev ?s = u_udev s" by (simp_all add: upd_x_def)
  obtain a1 s1 where 1: "usb_kmalloc 16 ?s = Some (a1, s1)"
    using b by (auto simp: usb_bulk_transfer_def Let_def bind_eq_Some_conv)
  obtain ph s2 where 2: "ring_op (xhci_insert_transfer_trb p e (normal_trb ?u)) s1 = (ph, s2)" by (metis surj_pair)
  obtain a3 s3 where 3: "usb_kmalloc 32 s2 = Some (a3, s3)"
    using b 1 2 idx by (auto simp: usb_bulk_transfer_def Let_def keep bind_eq_Some_conv)
  let ?new = "\<lparr>it_self = a3, it_trb_phys = ph, it_urb = it_urb t\<rparr>"
  have fin: "s' = xhci_doorbell_reg_wr32 io (slot_id (port (u_x s3) p) * 4) (ep_addr_to_dci (urb_pipe ?u AND 0xffff))
      (upd_x (inflight_transfer_list_update (Cons ?new)) s3)"
    using b 1 2 3 idx urb(2) by (simp add: usb_bulk_transfer_def Let_def keep)
  have "tr_holds p e (ring_view s1 c) q"
    using usb_kmalloc_keeps [OF 1] ring(1) tr_holds_inflight [of p e _ s c q] by (simp add: ring_view_def)
  from ring_insert_view [OF this _ ring(2) 2] have h2: "tr_holds p e (ring_view s2 c) (q @ [payload (normal_trb ?u)])"
    by simp
  then have h3: "tr_holds p e (ring_view s3 c) (q @ [payload (normal_trb ?u)])"
    using usb_kmalloc_keeps [OF 3] by (simp add: ring_view_def)
  have "inflight_transfer_list (u_x s2) = inflight_transfer_list (u_x s1)"
    using 2 by (auto simp: ring_op_def xhci_insert_transfer_trb_def upd_ring_def upd_port_def Let_def split: prod.splits if_splits)
  then have "inflight_transfer_list (u_x s3) = xs @ ys"
    using usb_kmalloc_keeps [OF 3] usb_kmalloc_keeps [OF 1] l by simp
  moreover have "tr_holds p e (ring_view s' c) = tr_holds p e (ring_view s3 c)"
    using tr_holds_inflight [of p e "Cons ?new" s3 c] by (auto simp: fin ring_view_def fun_eq_iff)
  ultimately show ?thesis using h3 by (auto simp: fin)
qed

definition demo_kbd :: "(u64 \<Rightarrow> u32) usb" where
  "demo_kbd = demo_control\<lparr>
     u_x := (u_x demo_control)\<lparr>inflight_transfer_list := [\<lparr>it_self = 1, it_trb_phys = 0x5000, it_urb = 7\<rparr>]\<rparr>,
     u_urb := (\<lambda>_. blank_urb\<lparr>urb_pipe := 1, urb_transfer_buffer := 0xffff800000300000,
       urb_transfer_buffer_length := 8, urb_complete := Usb_kbd_irq\<rparr>)\<rparr>"

lemma hid_urb_resubmitted_witness:
  "\<exists>s' new. xhci_handle_event reg_io 0 0 demo_event demo_kbd = Some s' \<and>
     inflight_transfer_list (u_x s') = [new] \<and> it_urb new = 7"
proof -
  have u: "u_urb demo_kbd a = blank_urb\<lparr>urb_pipe := 1, urb_transfer_buffer := 0xffff800000300000,
       urb_transfer_buffer_length := 8, urb_complete := Usb_kbd_irq\<rparr>"
    "udev_port (u_udev demo_kbd a) = 0" "p_ks (u_pci demo_kbd) = demo_kstate"
    "inflight_transfer_list (u_x demo_kbd) = [\<lparr>it_self = 1, it_trb_phys = 0x5000, it_urb = 7\<rparr>]" for a
    by (simp_all add: demo_kbd_def demo_control_def demo_usb_def demo_pci_def)
  have idx: "array_index 0 = Some 0" "array_index (ep_addr_to_dci 1 - 1) = Some 1"
    by (simp_all add: array_index_def ep_addr_to_dci_def)
  have h: "tr_holds 0 1 (ring_view demo_kbd (0x200000, 1)) []"
    using tr_holds_start [of 0 1 "u_x demo_kbd" "u_mem demo_kbd"]
    by (simp add: demo_kbd_def demo_control_def demo_usb_def ring_view_def slot_def trb_load_zero VIRT2PHYS_def
        KERNEL_SPACE_def the_ring_def upd_ring_def upd_port_def)
  have ux: "u_udev (upd_x f s) = u_udev s" for f and s :: "(u64 \<Rightarrow> u32) usb" by (simp add: upd_x_def)
  obtain s' where run: "xhci_handle_event reg_io 0 0 demo_event demo_kbd = Some s'"
    by (simp add: xhci_handle_event_def handle_transfer_completion_def demo_event_fields usb_consts u ux urb_completed_def
        blank_urb_def usb_interrupt_transfer_def usb_bulk_transfer_def idx [unfolded One_nat_def] Let_def case_prod_beta
        usb_kmalloc_def pci_kmalloc_def ks_kmalloc_def kmalloc_def ring_op_def bootmem_alloc_def demo_kstate_def
        empty_bootmem_def PHYS2VIRT_def KERNEL_SPACE_def roundup_def)
  have "\<exists>new. inflight_transfer_list (u_x s') = new # [] @ [] \<and> it_urb new = 7"
    using hid_urb_resubmitted [OF _ _ _ _ _ _ _ _ h _ run, of "[]" "\<lparr>it_self = 1, it_trb_phys = 0x5000, it_urb = 7\<rparr>" "[]"] idx
    by (simp add: demo_event_fields u completes_def blank_urb_def)
  then show ?thesis using run by auto
qed

end
