(* ===== verification/Fault.thy ===== *)
theory Fault
  imports Sched Kernel_Map Ept
begin

text \<open>
  Exceptions: \<^verbatim>\<open>arch/x86_64/traps.c\<close>, the page-fault path of
  \<^verbatim>\<open>arch/x86_64/mm/fault.c\<close> and the frames of \<^verbatim>\<open>stack.h\<close>. The scheduler's state is
  joined with the cells of the page tables; what the handlers print is a log, one entry for each
  call. \<open>hlt\<close> is logged too: after it the processor waits for an interrupt and goes on.
\<close>

section \<open>State\<close>

record general_regs =
  rax :: u64
  rbx :: u64
  rcx :: u64
  rdx :: u64
  rsi :: u64
  rdi :: u64
  rsp :: u64
  rbp :: u64
  r8 :: u64
  r9 :: u64
  r10 :: u64
  r11 :: u64
  r12 :: u64
  r13 :: u64
  r14 :: u64
  r15 :: u64

record exception_stack =
  es_error_code :: u64
  es_rip :: u64
  es_cs :: u64
  es_rflags :: u64
  es_rsp :: u64
  es_ss :: u64

record exception_stack_frame =
  esf_regs :: general_regs
  excep_stack :: exception_stack

datatype trap_event =
    Printed string "u64 list"
  | Dumped exception_stack_frame
  | Trace_line int u64
  | Task_killed u32
  | Halted

text \<open>\<^verbatim>\<open>tm_mem\<close> is memory as 8-byte cells by virtual address, as in the page-table theories;
  the boot allocator is the one of the scheduler's state.\<close>

record trap_machine =
  tm_sched :: sched
  tm_mem :: "u64 \<Rightarrow> u64"
  tm_invept :: "u64 list"
  tm_cr2 :: u64
  tm_log :: "trap_event list"

definition log_trap :: "trap_event \<Rightarrow> trap_machine \<Rightarrow> trap_machine" where
  "log_trap e m = m\<lparr>tm_log := tm_log m @ [e]\<rparr>"

definition kmem_of :: "trap_machine \<Rightarrow> kmem" where
  "kmem_of m = \<lparr>km_boot = ks_boot (ks (tm_sched m)), km_mem = tm_mem m, km_invept = tm_invept m\<rparr>"

definition put_kmem :: "kmem \<Rightarrow> trap_machine \<Rightarrow> trap_machine" where
  "put_kmem k m = m\<lparr>tm_sched := (tm_sched m)\<lparr>ks := (ks (tm_sched m))\<lparr>ks_boot := km_boot k\<rparr>\<rparr>,
     tm_mem := km_mem k, tm_invept := km_invept k\<rparr>"

definition set_cpu_status :: "u64 \<Rightarrow> u64 \<Rightarrow> trap_machine \<Rightarrow> trap_machine" where
  "set_cpu_status c st m = m\<lparr>tm_sched := (tm_sched m)\<lparr>ks :=
     upd_cpu c (cpu_status_update (\<lambda>_. st)) (ks (tm_sched m))\<rparr>\<rparr>"

definition CPU_STATUS_EXCEPTION_CONTEXT :: u64 where "CPU_STATUS_EXCEPTION_CONTEXT = 4"

section \<open>Dumps\<close>

definition dump_regs :: "exception_stack_frame \<Rightarrow> trap_machine \<Rightarrow> trap_machine" where
  "dump_regs stack = log_trap (Dumped stack)"

text \<open>The loop of \<^verbatim>\<open>back_trace\<close> follows the saved frame pointers until it meets -1.\<close>

partial_function (option) back_trace_loop :: "int \<Rightarrow> u64 \<Rightarrow> trap_machine \<Rightarrow> trap_machine option" where
  "back_trace_loop i fp m =
     (if fp = - 1 then Some m
      else back_trace_loop (i + 1) (tm_mem m fp) (log_trap (Trace_line i (tm_mem m (fp + 8))) m))"

definition back_trace :: "exception_stack_frame \<Rightarrow> trap_machine \<Rightarrow> trap_machine option" where
  "back_trace stack m = back_trace_loop 0 (rbp (esf_regs stack)) (log_trap (Printed ''back trace:'' []) m)"

section \<open>Exceptions without a handler\<close>

text \<open>The body these entry points share: it names the exception, and it does nothing for an
  exception of user code.\<close>

definition fatal_exception ::
    "string \<Rightarrow> (u64 \<Rightarrow> u64 list) \<Rightarrow> u64 \<Rightarrow> exception_stack_frame \<Rightarrow> trap_machine \<Rightarrow> trap_machine option" where
  "fatal_exception name args cpuid stack m = do {
     c \<leftarrow> get_cpu cpuid (ks (tm_sched m));
     let saved = cpu_status (cpus (ks (tm_sched m)) c);
     let m = set_cpu_status c CPU_STATUS_EXCEPTION_CONTEXT m;
     m \<leftarrow> (if es_cs (excep_stack stack) AND 3 = 0 then do {
             let m = log_trap (Printed name (args (cpu_id (cpus (ks (tm_sched m)) c)))) m;
             let m = dump_regs stack m;
             m \<leftarrow> back_trace stack m;
             Some (log_trap Halted m)
           } else Some m);
     Some (set_cpu_status c saved m)
   }"

definition do_divide_error_exception :: "u64 \<Rightarrow> exception_stack_frame \<Rightarrow> trap_machine \<Rightarrow> trap_machine option" where
  "do_divide_error_exception = fatal_exception ''#DE'' (\<lambda>i. [i])"

definition do_debug_exception :: "u64 \<Rightarrow> exception_stack_frame \<Rightarrow> trap_machine \<Rightarrow> trap_machine option" where
  "do_debug_exception = fatal_exception ''#DB'' (\<lambda>i. [i])"

definition do_nmi_interrupt :: "u64 \<Rightarrow> exception_stack_frame \<Rightarrow> trap_machine \<Rightarrow> trap_machine option" where
  "do_nmi_interrupt = fatal_exception ''NMI'' (\<lambda>i. [i])"

definition do_breakpoint_exception :: "u64 \<Rightarrow> exception_stack_frame \<Rightarrow> trap_machine \<Rightarrow> trap_machine option" where
  "do_breakpoint_exception = fatal_exception ''#BP'' (\<lambda>i. [i])"

definition do_overflow_exception :: "u64 \<Rightarrow> exception_stack_frame \<Rightarrow> trap_machine \<Rightarrow> trap_machine option" where
  "do_overflow_exception = fatal_exception ''#OF'' (\<lambda>i. [i])"

definition do_bound_range_exceeded_exception :: "u64 \<Rightarrow> exception_stack_frame \<Rightarrow> trap_machine \<Rightarrow> trap_machine option" where
  "do_bound_range_exceeded_exception = fatal_exception ''#BR'' (\<lambda>i. [i])"

definition do_invalid_opcode_exception :: "u64 \<Rightarrow> exception_stack_frame \<Rightarrow> trap_machine \<Rightarrow> trap_machine option" where
  "do_invalid_opcode_exception = fatal_exception ''#UD'' (\<lambda>i. [i])"

definition do_device_not_available_exception :: "u64 \<Rightarrow> exception_stack_frame \<Rightarrow> trap_machine \<Rightarrow> trap_machine option" where
  "do_device_not_available_exception = fatal_exception ''#NM'' (\<lambda>i. [i])"

definition do_double_fault_exception :: "u64 \<Rightarrow> exception_stack_frame \<Rightarrow> trap_machine \<Rightarrow> trap_machine option" where
  "do_double_fault_exception = fatal_exception ''#DF'' (\<lambda>i. [i])"

definition do_coprocessor_segment_overrun :: "u64 \<Rightarrow> exception_stack_frame \<Rightarrow> trap_machine \<Rightarrow> trap_machine option" where
  "do_coprocessor_segment_overrun = fatal_exception ''Coprocessor Segment Overrun'' (\<lambda>i. [i])"

definition do_invalid_tss_exception :: "u64 \<Rightarrow> exception_stack_frame \<Rightarrow> trap_machine \<Rightarrow> trap_machine option" where
  "do_invalid_tss_exception = fatal_exception ''#TS'' (\<lambda>i. [i])"

definition do_segment_not_present :: "u64 \<Rightarrow> exception_stack_frame \<Rightarrow> trap_machine \<Rightarrow> trap_machine option" where
  "do_segment_not_present = fatal_exception ''#NP'' (\<lambda>i. [i])"

definition do_stack_fault_exception :: "u64 \<Rightarrow> exception_stack_frame \<Rightarrow> trap_machine \<Rightarrow> trap_machine option" where
  "do_stack_fault_exception = fatal_exception ''#SS'' (\<lambda>i. [i])"

definition do_general_protection_exception :: "u64 \<Rightarrow> exception_stack_frame \<Rightarrow> trap_machine \<Rightarrow> trap_machine option" where
  "do_general_protection_exception = fatal_exception ''#GP'' (\<lambda>i. [i])"

definition do_x87_fpu_floating_point_error :: "u64 \<Rightarrow> exception_stack_frame \<Rightarrow> trap_machine \<Rightarrow> trap_machine option" where
  "do_x87_fpu_floating_point_error = fatal_exception ''#MF'' (\<lambda>i. [i])"

definition do_alignment_check_exception :: "u64 \<Rightarrow> exception_stack_frame \<Rightarrow> trap_machine \<Rightarrow> trap_machine option" where
  "do_alignment_check_exception = fatal_exception ''#AC'' (\<lambda>i. [i])"

definition do_machine_check_exception :: "u64 \<Rightarrow> exception_stack_frame \<Rightarrow> trap_machine \<Rightarrow> trap_machine option" where
  "do_machine_check_exception = fatal_exception ''#MC'' (\<lambda>i. [i])"

definition do_simd_floatingn_point_exception :: "u64 \<Rightarrow> exception_stack_frame \<Rightarrow> trap_machine \<Rightarrow> trap_machine option" where
  "do_simd_floatingn_point_exception = fatal_exception ''#XM'' (\<lambda>i. [i])"

definition do_virtualization_exception :: "u64 \<Rightarrow> exception_stack_frame \<Rightarrow> trap_machine \<Rightarrow> trap_machine option" where
  "do_virtualization_exception = fatal_exception ''#VE'' (\<lambda>i. [i])"

definition do_reserved_exception :: "u64 \<Rightarrow> exception_stack_frame \<Rightarrow> trap_machine \<Rightarrow> trap_machine option" where
  "do_reserved_exception = fatal_exception ''#reserved'' (\<lambda>_. [])"

section \<open>Page faults\<close>

text \<open>The result of \<^verbatim>\<open>page_fault_mm\<close> with the machine it leaves. Outside the tables nothing is
  touched, unless the address is refused: then the current task is killed, and \<^verbatim>\<open>task_exit\<close> goes through
  the scheduler. When \<^verbatim>\<open>__switch_to\<close> is called there, the processor goes on in another task and
  the function does not come back: the inner \<open>None\<close>, with the machine as it is at the switch. It does
  come back when the scheduler picks the task that was current again, which it does only for the idle task.\<close>

definition page_fault_mm ::
    "u64 \<Rightarrow> u64 \<Rightarrow> u64 \<Rightarrow> int \<Rightarrow> u64 \<Rightarrow> trap_machine \<Rightarrow> (int option \<times> trap_machine) option" where
  "page_fault_mm cpuid addr err_code cpl ip m = do {
     task_ptr \<leftarrow> get_current_task cpuid (tm_sched m);
     let m = log_trap (Printed ''handle page fault'' [addr, err_code, of_int cpl, ip]) m;
     let ret = address_check addr cpl;
     if ret \<noteq> 0 then
       if task_ptr = 0 then None
       else do {
         let m = log_trap (Task_killed (t_id (tasks (tm_sched m) task_ptr))) m;
         s \<leftarrow> task_exit cpuid task_ptr (tm_sched m);
         Some (if switches s = switches (tm_sched m) then Some ret else None, m\<lparr>tm_sched := s\<rparr>)
       }
     else do {
       (ret, k) \<leftarrow> alloc_new_page (cr3 (tm_sched m)) addr 0x1000 cpl False False (kmem_of m);
       Some (Some ret, put_kmem k m)
     }
   }"

text \<open>When control has gone to another task, nothing of what follows is done: the machine is the one that task
  runs on.\<close>

definition do_page_fault_exception ::
    "u64 \<Rightarrow> exception_stack_frame \<Rightarrow> trap_machine \<Rightarrow> trap_machine option" where
  "do_page_fault_exception cpuid stack m = do {
     c \<leftarrow> get_cpu cpuid (ks (tm_sched m));
     let saved = cpu_status (cpus (ks (tm_sched m)) c);
     let m = set_cpu_status c CPU_STATUS_EXCEPTION_CONTEXT m;
     let es = excep_stack stack;
     let cpl = uint (es_cs es AND 3);
     (result, m) \<leftarrow> page_fault_mm cpuid (tm_cr2 m) (es_error_code es) cpl (es_rip es) m;
     case result of
       None \<Rightarrow> Some m
     | Some ret \<Rightarrow> do {
         m \<leftarrow> (if cpl = 0 \<and> ret = 0 then Some m
               else do {
                 let m = log_trap (Printed ''#PF'' [cpu_id (cpus (ks (tm_sched m)) c)]) m;
                 let m = dump_regs stack m;
                 m \<leftarrow> back_trace stack m;
                 Some (log_trap Halted m)
               });
         let m = m\<lparr>tm_cr2 := 0\<rparr>;
         Some (set_cpu_status c saved m)
       }
   }"

section \<open>Well-formed tables\<close>

text \<open>The walk again, by levels: 3 is the PML4, a directory pointer or directory entry (levels 2
  and 1) may be a large page.\<close>

definition large_page :: "nat \<Rightarrow> u64 \<Rightarrow> u64 \<Rightarrow> u64" where
  "large_page l e va = (if l = 1 then (e AND 0x000fffffc0000000) OR (va AND mask 30)
     else (e AND 0x000fffffffe00000) OR (va AND mask 21))"

primrec pt_walk :: "nat \<Rightarrow> u64 \<Rightarrow> u64 \<Rightarrow> kmem \<Rightarrow> u64 option" where
  "pt_walk 0 t va s = (let e = read_pg t (level_index 0 va) s
     in if \<not> bit e 0 then None else Some ((e AND 0x000ffffffffff000) OR (va AND mask 12)))"
| "pt_walk (Suc l) t va s = (let e = read_pg t (level_index (Suc l) va) s
     in if \<not> bit e 0 then None
        else if l < 2 \<and> bit e 7 then Some (large_page l e va)
        else pt_walk l (PHYS2VIRT (PT_ENTRY_ADDR e)) va s)"

lemma hw_walk_levels: "hw_walk c va s = pt_walk 3 (PHYS2VIRT (PT_ENTRY_ADDR c)) va s"
  by (simp add: hw_walk_def level_indices numeral_3_eq_3 numeral_2_eq_2 large_page_def Let_def)

definition table_page :: "u64 \<Rightarrow> kmem \<Rightarrow> bool" where
  "table_page t s \<longleftrightarrow> (\<exists>q < LIMIT_PAGES. t = frame q \<and> page_used (km_boot s) q)"

text \<open>Tables reached from \<open>t\<close>: each lies in a page in use, each entry is zero or present
  with an address, and what is not a large page points to a table again. Nothing is said about
  sharing: two entries may point to one table.\<close>

primrec tables_ok :: "nat \<Rightarrow> u64 \<Rightarrow> kmem \<Rightarrow> bool" where
  "tables_ok 0 t s \<longleftrightarrow> table_page t s \<and>
     (\<forall>i < 512. let e = read_pg t i s in e = 0 \<or> bit e 0 \<and> PT_ENTRY_ADDR e \<noteq> 0)"
| "tables_ok (Suc l) t s \<longleftrightarrow> table_page t s \<and>
     (\<forall>i < 512. let e = read_pg t i s in e = 0 \<or> bit e 0 \<and> PT_ENTRY_ADDR e \<noteq> 0 \<and>
        (l < 2 \<and> bit e 7 \<or> tables_ok l (PHYS2VIRT (PT_ENTRY_ADDR e)) s))"

lemma tables_page: "tables_ok l t s \<Longrightarrow> table_page t s"
  by (cases l) simp_all

lemma tables_entry:
  assumes "tables_ok l t s" "i < 512" "read_pg t i s \<noteq> 0"
  shows "bit (read_pg t i s) 0" "PT_ENTRY_ADDR (read_pg t i s) \<noteq> 0"
  using assms by (cases l; auto simp: Let_def)+

lemma tables_below:
  assumes "tables_ok (Suc l) t s" "i < 512" "read_pg t i s \<noteq> 0" "\<not> (l < 2 \<and> bit (read_pg t i s) 7)"
  shows "tables_ok l (PHYS2VIRT (PT_ENTRY_ADDR (read_pg t i s))) s"
  using assms by (auto simp: Let_def)

lemma tables_zero:
  assumes "table_page t s" "\<And>i. i < 512 \<Longrightarrow> read_pg t i s = 0" shows "tables_ok l t s"
  using assms by (cases l) simp_all

lemma walk_zero: "(\<And>i. i < 512 \<Longrightarrow> read_pg t i s = 0) \<Longrightarrow> pt_walk l t va s = None"
  by (cases l) (simp_all add: Let_def)

section \<open>Adding a page\<close>

text \<open>\<open>s'\<close> is \<open>s\<close> with the zeroed page \<open>f\<close>, free before, hung into the zero
  entry \<open>i\<close> of table \<open>t\<close> as \<open>e\<close>.\<close>

definition adds :: "kmem \<Rightarrow> kmem \<Rightarrow> u64 \<Rightarrow> u64 \<Rightarrow> nat \<Rightarrow> u64 \<Rightarrow> bool" where
  "adds s s' t i f e \<longleftrightarrow> read_pg t i s = 0 \<and> f < LIMIT_PAGES \<and> \<not> page_used (km_boot s) f \<and>
     (\<forall>q < LIMIT_PAGES. page_used (km_boot s') q \<longleftrightarrow> page_used (km_boot s) q \<or> q = f) \<and>
     (\<forall>u j. table_page u s \<longrightarrow> j < 512 \<longrightarrow>
        read_pg u j s' = (if u = t \<and> j = i then e else read_pg u j s)) \<and>
     (\<forall>j < 512. read_pg (frame f) j s' = 0) \<and>
     bit e 0 \<and> \<not> bit e 7 \<and> PT_ENTRY_ADDR e = page_addr f \<and> page_addr f \<noteq> 0"

lemma addsD:
  assumes "adds s s' t i f e"
  shows "read_pg t i s = 0" "f < LIMIT_PAGES" "\<not> page_used (km_boot s) f"
    "q < LIMIT_PAGES \<Longrightarrow> page_used (km_boot s') q \<longleftrightarrow> page_used (km_boot s) q \<or> q = f"
    "table_page u s \<Longrightarrow> j < 512 \<Longrightarrow> read_pg u j s' = (if u = t \<and> j = i then e else read_pg u j s)"
    "j < 512 \<Longrightarrow> read_pg (frame f) j s' = 0"
    "bit e 0" "\<not> bit e 7" "PT_ENTRY_ADDR e = page_addr f" "page_addr f \<noteq> 0"
    "PHYS2VIRT (PT_ENTRY_ADDR e) = frame f"
proof -
  note c = assms [unfolded adds_def]
  show "read_pg t i s = 0" "f < LIMIT_PAGES" "\<not> page_used (km_boot s) f"
    "bit e 0" "\<not> bit e 7" "PT_ENTRY_ADDR e = page_addr f" "page_addr f \<noteq> 0" using c by simp_all
  then show "PHYS2VIRT (PT_ENTRY_ADDR e) = frame f" by (simp add: frame_def)
  show "q < LIMIT_PAGES \<Longrightarrow> page_used (km_boot s') q \<longleftrightarrow> page_used (km_boot s) q \<or> q = f"
    using c by (elim conjE) simp
  show "table_page u s \<Longrightarrow> j < 512 \<Longrightarrow> read_pg u j s' = (if u = t \<and> j = i then e else read_pg u j s)"
    using c by (elim conjE) simp
  show "j < 512 \<Longrightarrow> read_pg (frame f) j s' = 0" using c by (elim conjE) simp
qed

lemma adds_page: "adds s s' t i f e \<Longrightarrow> table_page u s \<Longrightarrow> table_page u s'"
  unfolding table_page_def using addsD(4) [of s s' t i f e] by blast

lemma adds_fresh:
  assumes "adds s s' t i f e" shows "tables_ok l (frame f) s'"
proof (rule tables_zero)
  show "table_page (frame f) s'"
    using addsD(2) [OF assms] addsD(4) [OF assms, of f] unfolding table_page_def by blast
  show "read_pg (frame f) j s' = 0" if "j < 512" for j using addsD(6) [OF assms that] .
qed

lemma adds_tables:
  assumes a: "adds s s' t i f e" shows "tables_ok l u s \<Longrightarrow> tables_ok l u s'"
proof (induction l arbitrary: u)
  case 0
  note rd = addsD(5) [OF a tables_page [OF 0]]
  show ?case
    using 0 rd addsD(7,9,10) [OF a] adds_page [OF a tables_page [OF 0]] by (auto simp: Let_def)
next
  case (Suc l)
  have "e = 0 \<or> bit e 0 \<and> PT_ENTRY_ADDR e \<noteq> 0 \<and>
      (l < 2 \<and> bit e 7 \<or> tables_ok l (PHYS2VIRT (PT_ENTRY_ADDR e)) s')"
    using addsD(7,9,10,11) [OF a] adds_fresh [OF a] by simp
  then show ?case
    using Suc.prems Suc.IH addsD(5) [OF a tables_page [OF Suc.prems]]
      adds_page [OF a tables_page [OF Suc.prems]] by (auto simp: Let_def)
qed

lemma adds_keeps_entry:
  assumes "adds s s' t i f e" "table_page u s" "j < 512" "read_pg u j s \<noteq> 0"
  shows "read_pg u j s' = read_pg u j s"
  using addsD(1) [OF assms(1)] addsD(5) [OF assms(1-3)] assms(4) by auto

lemma adds_walk:
  assumes a: "adds s s' t i f e"
  shows "tables_ok l u s \<Longrightarrow> pt_walk l u va s = Some pa \<Longrightarrow> pt_walk l u va s' = Some pa"
proof (induction l arbitrary: u)
  case 0
  have "read_pg u (level_index 0 va) s \<noteq> 0" using 0(2) by (auto simp: Let_def split: if_splits)
  from adds_keeps_entry [OF a tables_page [OF 0(1)] level_index_bound this] 0(2) show ?case
    by simp
next
  case (Suc l)
  let ?e = "read_pg u (level_index (Suc l) va) s"
  have nz: "?e \<noteq> 0" using Suc.prems(2) by (auto simp: Let_def split: if_splits)
  note same = adds_keeps_entry [OF a tables_page [OF Suc.prems(1)] level_index_bound nz]
  show ?case
  proof (cases "l < 2 \<and> bit ?e 7")
    case False
    with Suc.prems(2) have "pt_walk l (PHYS2VIRT (PT_ENTRY_ADDR ?e)) va s = Some pa"
      by (auto simp: Let_def split: if_splits)
    from Suc.IH [OF tables_below [OF Suc.prems(1) level_index_bound nz False] this]
    show ?thesis using Suc.prems(2) same False by (auto simp: Let_def split: if_splits)
  qed (use Suc.prems(2) same in \<open>auto simp: Let_def split: if_splits\<close>)
qed

text \<open>What any number of such steps keeps.\<close>

definition grows :: "kmem \<Rightarrow> kmem \<Rightarrow> bool" where
  "grows s s' \<longleftrightarrow>
     (\<forall>l u. tables_ok l u s \<longrightarrow> tables_ok l u s') \<and>
     (\<forall>l u va pa. tables_ok l u s \<longrightarrow> pt_walk l u va s = Some pa \<longrightarrow> pt_walk l u va s' = Some pa) \<and>
     (\<forall>q < LIMIT_PAGES. page_used (km_boot s) q \<longrightarrow> page_used (km_boot s') q) \<and>
     (\<forall>u j. table_page u s \<longrightarrow> j < 512 \<longrightarrow> read_pg u j s \<noteq> 0 \<longrightarrow> read_pg u j s' = read_pg u j s)"

lemma growsD:
  assumes "grows s s'"
  shows "tables_ok l u s \<Longrightarrow> tables_ok l u s'"
    "tables_ok l u s \<Longrightarrow> pt_walk l u va s = Some pa \<Longrightarrow> pt_walk l u va s' = Some pa"
    "q < LIMIT_PAGES \<Longrightarrow> page_used (km_boot s) q \<Longrightarrow> page_used (km_boot s') q"
    "table_page u s \<Longrightarrow> j < 512 \<Longrightarrow> read_pg u j s \<noteq> 0 \<Longrightarrow> read_pg u j s' = read_pg u j s"
  using assms unfolding grows_def by blast+

lemma grows_page: "grows s s' \<Longrightarrow> table_page u s \<Longrightarrow> table_page u s'"
  unfolding table_page_def using growsD(3) by blast

lemma grows_refl: "grows s s" by (simp add: grows_def)

lemma grows_trans:
  assumes "grows s s1" "grows s1 s2" shows "grows s s2"
  unfolding grows_def
proof (intro conjI allI impI)
  fix u j assume "table_page u s" "j < 512" "read_pg u j s \<noteq> 0"
  then show "read_pg u j s2 = read_pg u j s"
    using growsD(4) [OF assms(1)] growsD(4) [OF assms(2)] grows_page [OF assms(1)] by simp
qed (use growsD(1-3) [OF assms(1)] growsD(1-3) [OF assms(2)] in blast)+

lemma adds_grows: "adds s s' t i f e \<Longrightarrow> grows s s'"
  unfolding grows_def
  by (intro conjI allI impI; (rule adds_tables adds_walk adds_keeps_entry | (auto simp: addsD(4))[1]); assumption)

section \<open>One level of the fault\<close>

lemma entry_flags:
  assumes "m < 0x1000" "bit m 0" "\<not> bit m 7"
  shows "PT_ENTRY_ADDR (page_addr q OR m) = page_addr q" "bit (page_addr q OR m) 0"
    "\<not> bit (page_addr q OR m) 7"
proof -
  show "PT_ENTRY_ADDR (page_addr q OR m) = page_addr q"
  proof (rule bit_word_eqI)
    fix n assume "n < LENGTH(64)"
    then show "bit (PT_ENTRY_ADDR (page_addr q OR m)) n \<longleftrightarrow> bit (page_addr q) n"
      unfolding PT_ENTRY_ADDR_def numeral_mask
      using page_addr_low [of n q] small_bits [OF assms(1), of n] by (cases "n < 12") (auto simp: bit_simps)
  qed
  show "bit (page_addr q OR m) 0" "\<not> bit (page_addr q OR m) 7"
    using assms page_addr_low [of 7 q] by (simp_all add: bit_or_iff)
qed

lemma page_addr_nonzero: "0 < f \<Longrightarrow> f < LIMIT_PAGES \<Longrightarrow> page_addr f \<noteq> 0"
  using unat_page_addr [of f] by (auto simp: LIMIT_PAGES_def)

text \<open>A zeroed page hung into a zero entry, with any small attributes that make it present.\<close>

lemma alloc_adds:
  assumes t: "table_page t s" and i: "i < 512" "read_pg t i s = 0"
    and room: "room (km_boot s) (Suc n)" and p0: "page_used (km_boot s) 0"
    and m: "m < 0x1000" "bit m 0" "\<not> bit m 7"
  obtains f s1 where "alloc_zeroed_page s = Some (frame f, s1)"
    "adds s (write_pg t i (page_addr f OR m) s1) t i f (page_addr f OR m)" "room (km_boot s1) n"
proof -
  from alloc_zeroed_page [OF room] obtain f s1 where
    f: "alloc_zeroed_page s = Some (frame f, s1)" "f < LIMIT_PAGES" "\<not> page_used (km_boot s) f"
      "\<And>p. p < LIMIT_PAGES \<Longrightarrow> page_used (km_boot s1) p \<longleftrightarrow> page_used (km_boot s) p \<or> p = f"
      "room (km_boot s1) n" "km_invept s1 = km_invept s"
      "\<And>q i. q < LIMIT_PAGES \<Longrightarrow> i < 512 \<Longrightarrow>
         read_pg (frame q) i s1 = (if q = f then 0 else read_pg (frame q) i s)" by blast
  from t obtain r where r: "r < LIMIT_PAGES" "t = frame r" "page_used (km_boot s) r"
    unfolding table_page_def by blast
  have "0 < f" using f(3) p0 by (cases f) auto
  then have nz: "page_addr f \<noteq> 0" using f(2) by (rule page_addr_nonzero)
  have "r \<noteq> f" using r(3) f(3) by blast
  let ?s' = "write_pg t i (page_addr f OR m) s1"
  have "read_pg (frame f) j ?s' = 0" if "j < 512" for j
    using cell_inject [OF f(2) r(1) that i(1)] f(7) [OF f(2) that] \<open>r \<noteq> f\<close> r(2) by (simp add: read_write_pg)
  moreover have "read_pg u j ?s' = (if u = t \<and> j = i then page_addr f OR m else read_pg u j s)"
    if u: "table_page u s" and j: "j < 512" for u j
  proof -
    from u obtain q where q: "q < LIMIT_PAGES" "u = frame q" "page_used (km_boot s) q"
      unfolding table_page_def by blast
    have "q \<noteq> f" using q(3) f(3) by blast
    then show ?thesis
      using cell_inject [OF q(1) r(1) j i(1)] f(7) [OF q(1) j] q(2) r(2) frame_inject [OF q(1) r(1)]
      by (simp add: read_write_pg)
  qed
  ultimately have "adds s ?s' t i f (page_addr f OR m)"
    unfolding adds_def using i(2) f(2-4) entry_flags [OF m] nz by simp
  from that [OF f(1) this f(5)] show thesis .
qed

lemma walk_none_entry:
  assumes "tables_ok (Suc l) t s" "pt_walk (Suc l) t va s = None"
    "read_pg t (level_index (Suc l) va) s \<noteq> 0"
  shows "\<not> (l < 2 \<and> bit (read_pg t (level_index (Suc l) va) s) 7)"
    "pt_walk l (PHYS2VIRT (PT_ENTRY_ADDR (read_pg t (level_index (Suc l) va) s))) va s = None"
  using assms(2) tables_entry(1) [OF assms(1) level_index_bound assms(3)]
  by (auto simp: Let_def split: if_splits)

lemma walk_step:
  assumes "read_pg t (level_index (Suc l) va) s = e" "bit e 0" "\<not> (l < 2 \<and> bit e 7)"
  shows "pt_walk (Suc l) t va s = pt_walk l (PHYS2VIRT (PT_ENTRY_ADDR e)) va s"
  using assms by (auto simp: Let_def)

text \<open>The state and the entry \<open>fault_next_entry\<close> returns on the way to an address that is not
  mapped: the entry leads to a table in which it is still not mapped.\<close>

definition descends :: "nat \<Rightarrow> u64 \<Rightarrow> u64 \<Rightarrow> kmem \<Rightarrow> u64 \<Rightarrow> kmem \<Rightarrow> bool" where
  "descends l t va s e s' \<longleftrightarrow> grows s s' \<and> read_pg t (level_index (Suc l) va) s' = e \<and> bit e 0 \<and>
     \<not> (l < 2 \<and> bit e 7) \<and> PT_ENTRY_ADDR e \<noteq> 0 \<and>
     tables_ok l (PHYS2VIRT (PT_ENTRY_ADDR e)) s' \<and> pt_walk l (PHYS2VIRT (PT_ENTRY_ADDR e)) va s' = None"

lemma fault_next_entry_descends:
  assumes ok: "tables_ok (Suc l) t s" and none: "pt_walk (Suc l) t va s = None"
    and room: "room (km_boot s) (Suc n)" and p0: "page_used (km_boot s) 0"
  obtains e s' where "fault_next_entry t (level_index (Suc l) va) s = Some (e, s')"
    "descends l t va s e s'" "room (km_boot s') n"
proof (cases "read_pg t (level_index (Suc l) va) s = 0")
  case False
  note w = walk_none_entry [OF ok none False]
  show thesis
  proof (rule that)
    show "fault_next_entry t (level_index (Suc l) va) s = Some (read_pg t (level_index (Suc l) va) s, s)"
      using tables_entry(2) [OF ok level_index_bound False] by (simp add: fault_next_entry_def)
    show "descends l t va s (read_pg t (level_index (Suc l) va) s) s"
      unfolding descends_def
      using w tables_entry [OF ok level_index_bound False] tables_below [OF ok level_index_bound False w(1)]
        grows_refl by blast
    show "room (km_boot s) n" using room by (rule room_mono)
  qed
next
  case True
  have m: "(7 :: u64) < 0x1000" "bit (7 :: u64) 0" "\<not> bit (7 :: u64) 7" by (simp_all add: bit_numeral_rec)
  from alloc_adds [OF tables_page [OF ok] level_index_bound True room p0 m] obtain f s1 where
    f: "alloc_zeroed_page s = Some (frame f, s1)"
      "adds s (write_pg t (level_index (Suc l) va) (page_addr f OR 7) s1) t (level_index (Suc l) va) f (page_addr f OR 7)"
      "room (km_boot s1) n" .
  define s' where "s' = write_pg t (level_index (Suc l) va) (page_addr f OR 7) s1"
  have rd: "read_pg t (level_index (Suc l) va) s' = page_addr f OR 7" by (simp add: s'_def read_write_pg)
  note a = f(2) [folded s'_def]
  have "PG_PRESENT OR PG_READ_WRITE OR PG_USER = 7"
    by (simp add: PG_PRESENT_def PG_READ_WRITE_def PG_USER_def)
  then have "VIRT2PHYS (frame f) OR PG_PRESENT OR PG_READ_WRITE OR PG_USER = page_addr f OR 7"
    by (simp add: frame_def or.assoc)
  then have run: "fault_next_entry t (level_index (Suc l) va) s = Some (page_addr f OR 7, s')"
    using True f(1) rd by (simp add: fault_next_entry_def PT_ENTRY_ADDR_def Let_def s'_def)
  show thesis
  proof (rule that [OF run])
    have "pt_walk l (frame f) va s' = None" by (rule walk_zero) (rule addsD(6) [OF a])
    then show "descends l t va s (page_addr f OR 7) s'"
      unfolding descends_def addsD(11) [OF a]
      using adds_grows [OF a] rd addsD(7,8,9,10) [OF a] adds_fresh [OF a] by simp
    show "room (km_boot s') n" using f(3) by (simp add: s'_def)
  qed
qed

lemma descendsD:
  assumes "descends l t va s e s'"
  shows "grows s s'" "read_pg t (level_index (Suc l) va) s' = e" "bit e 0" "\<not> (l < 2 \<and> bit e 7)"
    "PT_ENTRY_ADDR e \<noteq> 0" "tables_ok l (PHYS2VIRT (PT_ENTRY_ADDR e)) s'"
    "pt_walk l (PHYS2VIRT (PT_ENTRY_ADDR e)) va s' = None"
  using assms unfolding descends_def by blast+

text \<open>Later steps do not change the entry, and an address with the same index goes the same
  way.\<close>

lemma descends_walk:
  assumes d: "descends l t va s e s'" and g: "grows s' s2" and t: "table_page t s"
    and va': "level_index (Suc l) va' = level_index (Suc l) va"
  shows "pt_walk (Suc l) t va' s2 = pt_walk l (PHYS2VIRT (PT_ENTRY_ADDR e)) va' s2"
proof (rule walk_step)
  have "e \<noteq> 0" using descendsD(3) [OF d] by auto
  then show "read_pg t (level_index (Suc l) va') s2 = e"
    using growsD(4) [OF g grows_page [OF descendsD(1) [OF d] t] level_index_bound, of "Suc l" va] descendsD(2) [OF d] va'
    by simp
qed (use descendsD(3,4) [OF d] in simp_all)

declare tables_ok.simps [simp del] pt_walk.simps [simp del]

lemma same_page_indices:
  assumes "drop_bit 12 va = drop_bit 12 (addr :: u64)" shows "level_index l va = level_index l addr"
proof -
  have d: "drop_bit (12 + 9 * l) x = drop_bit (9 * l) (drop_bit 12 x)" for x :: u64
    by (simp add: add.commute)
  show ?thesis unfolding level_index_def d assms ..
qed

lemma leaf_translation:
  assumes "f < LIMIT_PAGES" "m < 0x1000"
  shows "(page_addr f OR m) AND 0x000ffffffffff000 = page_addr f"
proof -
  have k: "(0x000ffffffffff000 :: u64) = push_bit 12 (mask 40)"
    by (simp add: mask_eq_exp_minus_1 push_bit_eq_mult)
  have high: "n < 52" if "bit (page_addr f) n" for n
  proof (rule ccontr)
    assume "\<not> n < 52"
    have "unat (page_addr f) < 2 ^ 52" using assms(1) by (simp add: unat_page_addr LIMIT_PAGES_def)
    then have "page_addr f AND mask 52 = page_addr f" by (simp add: word_unat_eq_iff unat_and_mask)
    then show False using that \<open>\<not> n < 52\<close> by (metis bit_and_iff bit_mask_iff)
  qed
  show ?thesis
    unfolding k
  proof (rule bit_word_eqI)
    fix n assume "n < LENGTH(64)"
    then show "bit ((page_addr f OR m) AND push_bit 12 (mask 40)) n \<longleftrightarrow> bit (page_addr f) n"
      using page_addr_low [of n f] small_bits [OF assms(2), of n] high [of n]
      by (cases "n < 12") (auto simp: bit_or_iff bit_and_iff bit_push_bit_iff bit_mask_iff possible_bit_def)
  qed
qed

lemma leaf_attr:
  obtains m where "m < 0x1000" "bit m 0" "\<not> bit m 7"
    "PG_PRESENT OR ((if cpl = (0::int) then PG_SUPERVISOR else PG_USER) OR
       (if \<not> rd_only then PG_READ_WRITE else PG_READ_ONLY) OR 0) = m"
proof (rule that [OF _ _ _ refl])
qed (simp_all add: PG_PRESENT_def PG_SUPERVISOR_def PG_USER_def PG_READ_WRITE_def PG_READ_ONLY_def bit_numeral_rec)

text \<open>A fault on an address that is not mapped, with room for three tables and the page.\<close>

lemma alloc_new_page_fresh:
  assumes ok: "tables_ok 3 (PHYS2VIRT (PT_ENTRY_ADDR c)) s" and none: "hw_walk c addr s = None"
    and room: "room (km_boot s) 4" and p0: "page_used (km_boot s) 0"
  obtains f s' where "alloc_new_page c addr 0x1000 cpl rd_only False s = Some (0, s')" "grows s s'"
    "f < LIMIT_PAGES" "\<not> page_used (km_boot s) f" "\<And>i. i < 512 \<Longrightarrow> read_pg (frame f) i s' = 0"
    "\<And>va. drop_bit 12 va = drop_bit 12 addr \<Longrightarrow> hw_walk c va s' = Some (page_addr f OR (va AND mask 12))"
proof -
  let ?t3 = "PHYS2VIRT (PT_ENTRY_ADDR c)"
  have num: "3 = Suc 2" "4 = Suc 3" "2 = Suc 1" "1 = Suc 0" by simp_all
  have lim: "0 < LIMIT_PAGES" by (simp add: LIMIT_PAGES_def)
  have ok3: "tables_ok (Suc 2) ?t3 s" and n3: "pt_walk (Suc 2) ?t3 addr s = None"
    and r3: "room (km_boot s) (Suc 3)"
    using ok none room by (simp_all only: hw_walk_levels num)
  from fault_next_entry_descends [OF ok3 n3 r3 p0] obtain e3 s3 where
    d3: "fault_next_entry ?t3 (level_index (Suc 2) addr) s = Some (e3, s3)"
      "descends 2 ?t3 addr s e3 s3" "room (km_boot s3) 3" .
  note D3 = descendsD [OF d3(2)]
  let ?t2 = "PHYS2VIRT (PT_ENTRY_ADDR e3)"
  have ok2: "tables_ok (Suc 1) ?t2 s3" and n2: "pt_walk (Suc 1) ?t2 addr s3 = None"
    and r2: "room (km_boot s3) (Suc 2)" and p2: "page_used (km_boot s3) 0"
    using D3(6,7) d3(3) growsD(3) [OF D3(1) lim p0] by (simp_all only: num)
  from fault_next_entry_descends [OF ok2 n2 r2 p2] obtain e2 s2 where
    d2: "fault_next_entry ?t2 (level_index (Suc 1) addr) s3 = Some (e2, s2)"
      "descends 1 ?t2 addr s3 e2 s2" "room (km_boot s2) 2" .
  note D2 = descendsD [OF d2(2)]
  let ?t1 = "PHYS2VIRT (PT_ENTRY_ADDR e2)"
  have ok1: "tables_ok (Suc 0) ?t1 s2" and n1: "pt_walk (Suc 0) ?t1 addr s2 = None"
    and r1: "room (km_boot s2) (Suc 1)" and p1: "page_used (km_boot s2) 0"
    using D2(6,7) d2(3) growsD(3) [OF D2(1) lim p2] by (simp_all only: num)
  from fault_next_entry_descends [OF ok1 n1 r1 p1] obtain e1 s1 where
    d1: "fault_next_entry ?t1 (level_index (Suc 0) addr) s2 = Some (e1, s1)"
      "descends 0 ?t1 addr s2 e1 s1" "room (km_boot s1) 1" .
  note D1 = descendsD [OF d1(2)]
  let ?t0 = "PHYS2VIRT (PT_ENTRY_ADDR e1)"
  have zero: "read_pg ?t0 (level_index 0 addr) s1 = 0"
    using D1(7) tables_entry(1) [OF D1(6) level_index_bound, of 0 addr]
    by (auto simp: Let_def pt_walk.simps split: if_splits)
  have r0: "room (km_boot s1) (Suc 0)" and p1: "page_used (km_boot s1) 0"
    using d1(3) growsD(3) [OF D1(1) lim p1] by (simp_all only: num)
  obtain m where m: "m < 0x1000" "bit m 0" "\<not> bit m 7"
    "PG_PRESENT OR ((if cpl = (0::int) then PG_SUPERVISOR else PG_USER) OR
       (if \<not> rd_only then PG_READ_WRITE else PG_READ_ONLY) OR 0) = m"
    by (rule leaf_attr)
  from alloc_adds [OF tables_page [OF D1(6)] level_index_bound zero r0 p1 m(1-3)] obtain f s0 where
    f: "alloc_zeroed_page s1 = Some (frame f, s0)"
      "adds s1 (write_pg ?t0 (level_index 0 addr) (page_addr f OR m) s0) ?t0 (level_index 0 addr) f (page_addr f OR m)"
      "room (km_boot s0) 0" .
  define s' where "s' = write_pg ?t0 (level_index 0 addr) (page_addr f OR m) s0"
  note a = f(2) [folded s'_def]
  note g0 = adds_grows [OF a]
  note g1 = grows_trans [OF D1(1) g0]
  note g2 = grows_trans [OF D2(1) g1]
  note g3 = grows_trans [OF D3(1) g2]
  have wr: "VIRT2PHYS (frame f) OR PG_PRESENT OR ((if cpl = 0 then PG_SUPERVISOR else PG_USER) OR
       (if \<not> rd_only then PG_READ_WRITE else PG_READ_ONLY) OR 0) = page_addr f OR m"
    unfolding m(4) [symmetric] by (simp only: frame_def VIRT2PHYS_PHYS2VIRT or.assoc)
  have e3: "fault_next_entry ?t3 (PML4T_INDEX addr) s = Some (e3, s3)"
    and e2: "fault_next_entry ?t2 (PDPT_INDEX addr) s3 = Some (e2, s2)"
    and e1: "fault_next_entry ?t1 (PD_INDEX addr) s2 = Some (e1, s1)"
    and e0: "read_pg ?t0 (PT_INDEX addr) s1 = 0" "level_index 0 addr = PT_INDEX addr"
    using d3(1) d2(1) d1(1) zero by (simp_all only: level_indices num)
  have "alloc_new_page c addr 0x1000 cpl rd_only False s = Some (0, s')"
    using wr by (simp add: alloc_new_page_def Let_def e3 e2 e1 e0 f(1) s'_def PT_ENTRY_ADDR_def [of 0])
  moreover have "hw_walk c va s' = Some (page_addr f OR (va AND mask 12))"
    if va: "drop_bit 12 va = drop_bit 12 addr" for va
  proof -
    note ix = same_page_indices [OF va]
    have "read_pg ?t0 (level_index 0 addr) s' = page_addr f OR m" by (simp add: s'_def read_write_pg)
    then have "pt_walk 0 ?t0 va s' = Some (page_addr f OR (va AND mask 12))"
      using ix [of 0] entry_flags(2) [OF m(1-3)] leaf_translation [OF addsD(2) [OF a] m(1)]
      by (simp add: Let_def pt_walk.simps)
    moreover have "pt_walk (Suc 0) ?t1 va s' = pt_walk 0 ?t0 va s'"
      using d1(2) g0 tables_page [OF ok1] ix by (rule descends_walk)
    moreover have "pt_walk (Suc 1) ?t2 va s' = pt_walk 1 ?t1 va s'"
      using d2(2) g1 tables_page [OF ok2] ix by (rule descends_walk)
    moreover have "pt_walk (Suc 2) ?t3 va s' = pt_walk 2 ?t2 va s'"
      using d3(2) g2 tables_page [OF ok3] ix by (rule descends_walk)
    ultimately show ?thesis by (simp only: hw_walk_levels num)
  qed
  moreover have "\<not> page_used (km_boot s) f"
    using addsD(2,3) [OF a] growsD(3) [OF D3(1)] growsD(3) [OF D2(1)] growsD(3) [OF D1(1)] by blast
  ultimately show thesis using that [of s' f] g3 addsD(2,6) [OF a] by blast
qed

text \<open>A fault on an address that is mapped, one for its access rights, changes nothing: the
  instruction is executed again and faults again.\<close>

lemma alloc_new_page_mapped:
  assumes "PT_ENTRY_ADDR (read_pg (PHYS2VIRT (PT_ENTRY_ADDR c)) (PML4T_INDEX addr) s) = a3" "a3 \<noteq> 0"
    and "PT_ENTRY_ADDR (read_pg (PHYS2VIRT a3) (PDPT_INDEX addr) s) = a2" "a2 \<noteq> 0"
    and "PT_ENTRY_ADDR (read_pg (PHYS2VIRT a2) (PD_INDEX addr) s) = a1" "a1 \<noteq> 0"
    and "PT_ENTRY_ADDR (read_pg (PHYS2VIRT a1) (PT_INDEX addr) s) \<noteq> 0"
  shows "alloc_new_page c addr sz cpl rd_only xd s = Some (0, s)"
  using assms by (simp add: alloc_new_page_def fault_next_entry_def Let_def)

section \<open>Logs\<close>

lemma kmem_put [simp]: "kmem_of (put_kmem k m) = k"
  by (simp add: kmem_of_def put_kmem_def)

lemma trap_simps [simp]:
  "tm_sched (log_trap e m) = tm_sched m" "tm_mem (log_trap e m) = tm_mem m"
  "tm_log (log_trap e m) = tm_log m @ [e]" "tm_cr2 (log_trap e m) = tm_cr2 m"
  "kmem_of (log_trap e m) = kmem_of m"
  "tm_log (put_kmem k m) = tm_log m" "cr3 (tm_sched (put_kmem k m)) = cr3 (tm_sched m)"
  "tm_log (set_cpu_status c st m) = tm_log m" "tm_mem (set_cpu_status c st m) = tm_mem m"
  "kmem_of (set_cpu_status c st m) = kmem_of m" "cr3 (tm_sched (set_cpu_status c st m)) = cr3 (tm_sched m)"
  by (simp_all add: log_trap_def put_kmem_def set_cpu_status_def kmem_of_def upd_cpu_def)

text \<open>The frames \<open>back_trace\<close> meets: the return address of each is at 8 above its base, the next
  base at it, and -1 ends the chain.\<close>

primrec fp_chain :: "(u64 \<Rightarrow> u64) \<Rightarrow> u64 \<Rightarrow> u64 list \<Rightarrow> bool" where
  "fp_chain mem fp [] \<longleftrightarrow> fp = - 1"
| "fp_chain mem fp (r # rs) \<longleftrightarrow> fp \<noteq> - 1 \<and> mem (fp + 8) = r \<and> fp_chain mem (mem fp) rs"

fun trace_lines :: "int \<Rightarrow> u64 list \<Rightarrow> trap_event list" where
  "trace_lines i [] = []"
| "trace_lines i (r # rs) = Trace_line i r # trace_lines (i + 1) rs"

lemma back_trace_loop_chain:
  "fp_chain (tm_mem m) fp rs \<Longrightarrow>
   back_trace_loop i fp m = Some (m\<lparr>tm_log := tm_log m @ trace_lines i rs\<rparr>)"
proof (induction rs arbitrary: i fp m)
  case Nil
  then show ?case by (subst back_trace_loop.simps) simp
next
  case (Cons r rs)
  then have "back_trace_loop (i + 1) (tm_mem m fp) (log_trap (Trace_line i r) m) =
      Some ((log_trap (Trace_line i r) m)\<lparr>tm_log := tm_log (log_trap (Trace_line i r) m) @ trace_lines (i + 1) rs\<rparr>)"
    by (intro Cons.IH) simp
  then show ?case
    using Cons.prems by (subst back_trace_loop.simps) (simp add: log_trap_def)
qed



lemma page_fault_mm_log:
  "page_fault_mm cpuid addr err cpl ip m = Some (ret, m') \<Longrightarrow> \<exists>l. tm_log m' = tm_log m @ l"
  by (auto simp: page_fault_mm_def Let_def bind_eq_Some_conv split: if_splits)

section \<open>A machine to run on\<close>

definition demo_boot :: bootmem where
  "demo_boot = \<lparr>bitmap = (\<lambda>_. 0)(0 := 0x21), last_alloc_offset = 0, last_alloc_pfn = 1\<rparr>"

definition demo_trap :: trap_machine where
  "demo_trap = \<lparr>tm_sched = demo_sched\<lparr>ks := (ks demo_sched)\<lparr>ks_boot := demo_boot\<rparr>\<rparr>,
     tm_mem = \<lambda>_. 0, tm_invept = [], tm_cr2 = 0xffff800000402000, tm_log = []\<rparr>"

definition demo_frame :: "u64 \<Rightarrow> exception_stack_frame" where
  "demo_frame sel = \<lparr>esf_regs = \<lparr>rax = 0, rbx = 0, rcx = 0, rdx = 0, rsi = 0, rdi = 0, rsp = 0, rbp = - 1,
       r8 = 0, r9 = 0, r10 = 0, r11 = 0, r12 = 0, r13 = 0, r14 = 0, r15 = 0\<rparr>,
     excep_stack = \<lparr>es_error_code = 2, es_rip = 0x1000, es_cs = sel, es_rflags = 0x202,
       es_rsp = 0x8000, es_ss = 0\<rparr>\<rparr>"

lemma demo_boot_used: "p < LIMIT_PAGES \<Longrightarrow> page_used demo_boot p \<longleftrightarrow> p = 5 \<or> p = 0"
proof -
  assume p: "p < LIMIT_PAGES"
  have "(of_nat (p div 8) :: u64) = 0 \<longleftrightarrow> p div 8 = 0"
    using of_nat_div8_eq [of p 0] p by (simp add: LIMIT_PAGES_def)
  moreover have "bit (0x21 :: u8) n \<longleftrightarrow> n = 5 \<or> n = 0" for n
  proof -
    have "(0x21 :: u8) = push_bit 5 1 OR 1" by simp
    show ?thesis unfolding \<open>0x21 = _\<close> bit_or_iff bit_push_bit_iff bit_1_iff by (auto simp: possible_bit_def)
  qed
  moreover have "p div 8 = 0 \<Longrightarrow> p mod 8 = p" by (metis div_mult_mod_eq add_0 mult_0)
  moreover have "p div 8 \<noteq> 0 \<Longrightarrow> p \<noteq> 5 \<and> p \<noteq> 0" by auto
  ultimately show ?thesis
    by (cases "p div 8 = 0") (simp_all add: page_used_def demo_boot_def)
qed

lemma demo_boot_room: "n \<le> 0x1000 \<Longrightarrow> room demo_boot n"
  unfolding room_def free_run_def
  by (intro exI [of _ 6]) (auto simp: demo_boot_used LIMIT_PAGES_def)

lemma demo_trap_facts:
  "get_cpu 0 (ks (tm_sched demo_trap)) = Some 5" "get_current_task 0 (tm_sched demo_trap) = Some 0x10"
  "cr3 (tm_sched demo_trap) = 0x5000" "km_boot (kmem_of demo_trap) = demo_boot"
  "read_pg t i (kmem_of demo_trap) = 0"
proof -
  show "get_cpu 0 (ks (tm_sched demo_trap)) = Some 5" "cr3 (tm_sched demo_trap) = 0x5000"
    "get_current_task 0 (tm_sched demo_trap) = Some 0x10"
    by (simp_all add: demo_trap_def demo_sched_defs get_cpu_def all_cpus_def get_current_task_def)
qed (simp_all add: demo_trap_def kmem_of_def read_pg_def)

lemma demo_trap_tables:
  "tables_ok 3 (PHYS2VIRT (PT_ENTRY_ADDR 0x5000)) (kmem_of demo_trap)" "hw_walk 0x5000 va (kmem_of demo_trap) = None"
proof -
  have r: "PHYS2VIRT (PT_ENTRY_ADDR 0x5000) = frame 5" by (simp add: PT_ENTRY_ADDR_def frame_def page_addr_def)
  have "table_page (frame 5) (kmem_of demo_trap)"
    unfolding table_page_def demo_trap_facts
    by (rule exI [of _ 5]) (simp add: demo_boot_used LIMIT_PAGES_def)
  then show "tables_ok 3 (PHYS2VIRT (PT_ENTRY_ADDR 0x5000)) (kmem_of demo_trap)"
    unfolding r by (rule tables_zero) (simp add: demo_trap_facts)
  show "hw_walk 0x5000 va (kmem_of demo_trap) = None"
    by (simp add: hw_walk_levels walk_zero demo_trap_facts)
qed

section \<open>Properties\<close>

lemma get_cpu_set_status: "get_cpu i (upd_cpu c (cpu_status_update f) k) = get_cpu i k"
proof -
  have "cpu_id (cpus (upd_cpu c (cpu_status_update f) k) d) = cpu_id (cpus k d)" for d
    by (simp add: upd_cpu_def)
  moreover have "all_cpus (upd_cpu c (cpu_status_update f) k) = all_cpus k" by simp
  ultimately show ?thesis unfolding get_cpu_def by simp
qed

lemma current_task_status:
  "get_current_task i (tm_sched (set_cpu_status c st m)) = get_current_task i (tm_sched m)"
proof -
  have "cpu_index (cpus (upd_cpu c (cpu_status_update (\<lambda>_. st)) k) d) = cpu_index (cpus k d)" for k d
    by (simp add: upd_cpu_def)
  then show ?thesis
    by (simp add: get_current_task_def set_cpu_status_def get_cpu_set_status)
qed

lemma cpu_status_set [simp]:
  "cpu_status (cpus (ks (tm_sched (set_cpu_status c st m))) c) = st"
  by (simp add: set_cpu_status_def upd_cpu_def)

text \<open>C36. A page fault of kernel code on an address that is not mapped is served: the handler
  returns without a halt, with the processor's status as before and CR2 cleared. Under the same CR3
  the whole page of the address is then mapped to a zeroed page that was free before, every
  translation that existed is still there, and the tables are well formed. (The one address the
  check refuses is left out; page 0 is in use, as \<^verbatim>\<open>bootmem_init\<close> leaves it, since the code
  takes a table at address 0 for a missing one.)\<close>

theorem do_page_fault_exception_serves_kernel:
  defines "c \<equiv> \<lambda>m. cr3 (tm_sched m)"
  assumes "get_cpu cpuid (ks (tm_sched m)) = Some p" and "get_current_task cpuid (tm_sched m) = Some t"
    and "es_cs (excep_stack stack) AND 3 = 0" and "tm_cr2 m \<noteq> 0xffffffff00000000"
    and "tables_ok 3 (PHYS2VIRT (PT_ENTRY_ADDR (c m))) (kmem_of m)" and "hw_walk (c m) (tm_cr2 m) (kmem_of m) = None"
    and "room (km_boot (kmem_of m)) 4" and "page_used (km_boot (kmem_of m)) 0"
  shows "\<exists>m' f l. do_page_fault_exception cpuid stack m = Some m' \<and>
     tm_log m' = tm_log m @ [Printed ''handle page fault'' l] \<and> tm_cr2 m' = 0 \<and> c m' = c m \<and>
     cpu_status (cpus (ks (tm_sched m')) p) = cpu_status (cpus (ks (tm_sched m)) p) \<and>
     \<not> page_used (km_boot (kmem_of m)) f \<and> (\<forall>i < 512. read_pg (frame f) i (kmem_of m') = 0) \<and>
     (\<forall>va. drop_bit 12 va = drop_bit 12 (tm_cr2 m) \<longrightarrow>
        hw_walk (c m) va (kmem_of m') = Some (page_addr f OR (va AND mask 12))) \<and>
     (\<forall>va pa. hw_walk (c m) va (kmem_of m) = Some pa \<longrightarrow> hw_walk (c m) va (kmem_of m') = Some pa) \<and>
     tables_ok 3 (PHYS2VIRT (PT_ENTRY_ADDR (c m))) (kmem_of m')"
proof -
  from assms(6) have ok: "tables_ok 3 (PHYS2VIRT (PT_ENTRY_ADDR (c m))) (kmem_of m)" .
  obtain f s' where
    f: "alloc_new_page (c m) (tm_cr2 m) 0x1000 0 False False (kmem_of m) = Some (0, s')" "grows (kmem_of m) s'"
      "f < LIMIT_PAGES" "\<not> page_used (km_boot (kmem_of m)) f" "\<And>i. i < 512 \<Longrightarrow> read_pg (frame f) i s' = 0"
      "\<And>va. drop_bit 12 va = drop_bit 12 (tm_cr2 m) \<Longrightarrow> hw_walk (c m) va s' = Some (page_addr f OR (va AND mask 12))"
    by (rule alloc_new_page_fresh [OF ok assms(7-9)], rule that, assumption+)
  define es where "es = excep_stack stack"
  define st where "st = cpu_status (cpus (ks (tm_sched m)) p)"
  define m0 where "m0 = set_cpu_status p CPU_STATUS_EXCEPTION_CONTEXT m"
  define l where "l = [tm_cr2 m, es_error_code es, 0, es_rip es]"
  define m1 where "m1 = put_kmem s' (log_trap (Printed ''handle page fault'' l) m0)"
  define m' where "m' = set_cpu_status p st (m1\<lparr>tm_cr2 := 0\<rparr>)"
  have m0: "tm_cr2 m0 = tm_cr2 m" "kmem_of m0 = kmem_of m" "cr3 (tm_sched m0) = c m"
    "get_current_task cpuid (tm_sched m0) = Some t"
    using assms(3) by (simp_all add: m0_def current_task_status assms(1)) (simp add: set_cpu_status_def)
  have "page_fault_mm cpuid (tm_cr2 m0) (es_error_code es) 0 (es_rip es) m0 = Some (Some 0, m1)"
    using assms(5) f(1) m0 by (simp add: page_fault_mm_def address_check_def m1_def l_def)
  then have "do_page_fault_exception cpuid stack m = Some m'"
    using assms(2,4) unfolding do_page_fault_exception_def es_def [symmetric]
    by (simp add: Let_def flip: m0_def st_def m'_def)
  moreover have "kmem_of m' = s'" "c m' = c m" "tm_log m' = tm_log m @ [Printed ''handle page fault'' l]"
    "tm_cr2 m' = 0" "cpu_status (cpus (ks (tm_sched m')) p) = st"
    using m0 by (simp_all add: m'_def m1_def assms(1)) (simp_all add: m0_def set_cpu_status_def kmem_of_def put_kmem_def)
  moreover have "hw_walk (c m) va s' = Some pa" if "hw_walk (c m) va (kmem_of m) = Some pa" for va pa
    using growsD(2) [OF f(2) ok] that by (simp add: hw_walk_levels)
  moreover have "tables_ok 3 (PHYS2VIRT (PT_ENTRY_ADDR (c m))) s'" using growsD(1) [OF f(2) ok] .
  ultimately show ?thesis
    using f(4-6) unfolding st_def by (intro exI [of _ m'] exI [of _ f] exI [of _ l]) simp
qed




section \<open>Witnesses\<close>

lemma do_page_fault_exception_serves_kernel_witness:
  "\<exists>m' f. do_page_fault_exception 0 (demo_frame 16) demo_trap = Some m' \<and>
     hw_walk 0x5000 0xffff800000402abc (kmem_of m') = Some (page_addr f OR 0xabc) \<and> \<not> page_used demo_boot f"
proof -
  have cr2: "tm_cr2 demo_trap = 0xffff800000402000" by (simp add: demo_trap_def)
  have cs: "es_cs (excep_stack (demo_frame 16)) AND 3 = 0" by (simp add: demo_frame_def)
  have "tm_cr2 demo_trap \<noteq> 0xffffffff00000000" by (simp add: cr2)
  moreover have "room (km_boot (kmem_of demo_trap)) 4" "page_used (km_boot (kmem_of demo_trap)) 0"
    using demo_boot_room [of 4] demo_boot_used [of 0] by (simp_all add: demo_trap_facts LIMIT_PAGES_def)
  ultimately obtain m' f where m': "do_page_fault_exception 0 (demo_frame 16) demo_trap = Some m'"
    "\<not> page_used demo_boot f"
    "\<forall>va. drop_bit 12 va = drop_bit 12 (tm_cr2 demo_trap) \<longrightarrow>
        hw_walk 0x5000 va (kmem_of m') = Some (page_addr f OR (va AND mask 12))"
    using do_page_fault_exception_serves_kernel [OF demo_trap_facts(1,2) cs, unfolded demo_trap_facts(3,4)]
      demo_trap_tables demo_trap_facts(4) by metis
  have "hw_walk 0x5000 0xffff800000402abc (kmem_of m') = Some (page_addr f OR (0xffff800000402abc AND mask 12))"
    by (rule m'(3) [rule_format]) (simp add: cr2)
  then show ?thesis using m'(1,2) by (auto simp: mask_eq_exp_minus_1)
qed






end
