(* ===== verification/Console.thy ===== *)
theory Console
  imports C_String Math_Util
begin

text \<open>
  The frame buffer and the graphic console: \<^verbatim>\<open>drivers/video/fbdev/boot_fb.c\<close>,
  \<^verbatim>\<open>drivers/video/fbdev/fb.c\<close>, \<^verbatim>\<open>drivers/console/console.c\<close> and
  \<^verbatim>\<open>drivers/console/graphic_console.c\<close>, with \<^verbatim>\<open>fb.h\<close> and \<^verbatim>\<open>console.h\<close>.
  Video memory is 4-byte cells by address. The font table of \<^verbatim>\<open>font_8x16.h\<close> is data of a
  font tool; it is the parameter \<open>fontdata\<close>, a function from the byte index. Loop counters
  are \<^verbatim>\<open>int\<close>; counting up beyond \<open>2^31 - 1\<close> would overflow and is not considered.
\<close>

section \<open>Structures\<close>

record fb_var_screeninfo =
  fv_active :: u32
  xres :: u32
  yres :: u32
  xres_virtual :: u32
  yres_virtual :: u32
  bits_per_pixel :: u32
  red_bits :: u32
  green_bits :: u32
  blue_bits :: u32
  transparent_bits :: u32

text \<open>The only table of operations there is; its three operations are the ones of
  \<^verbatim>\<open>boot_fb.c\<close>.\<close>

datatype fb_ops = Bootfb_ops

record fb_info =
  fb_var :: fb_var_screeninfo
  fbops :: "fb_ops option"
  screen_base :: u64
  screen_size :: u64

record fb_copyarea =
  ca_dx :: u32
  ca_dy :: u32
  ca_width :: u32
  ca_height :: u32
  ca_sx :: u32
  ca_sy :: u32

record fb_fillrect =
  fr_dx :: u32
  fr_dy :: u32
  fr_width :: u32
  fr_height :: u32
  fr_color :: u32

text \<open>\<^verbatim>\<open>im_data\<close> is the buffer behind the image's data pointer.\<close>

record fb_image =
  im_dx :: u32
  im_dy :: u32
  im_width :: u32
  im_height :: u32
  im_data :: "u32 \<Rightarrow> u32"

datatype write_char_op = Graphic_con_write_char

record console =
  con_active :: u64
  con_width :: u64
  con_height :: u64
  font_color :: u64
  back_color :: u64
  font_width :: u64
  font_height :: u64
  cursor_x :: u64
  cursor_y :: u64
  font_data :: "u64 \<Rightarrow> u8"
  console_write_char :: "write_char_op option"

record video =
  vram :: "u64 \<Rightarrow> u32"
  fb_list :: "u64 list"
  fbs :: "u64 \<Rightarrow> fb_info"
  con_list :: "u64 list"
  cons :: "u64 \<Rightarrow> console"
  blit_buffer :: "u64 \<Rightarrow> u32"

definition upd_fb :: "u64 \<Rightarrow> (fb_info \<Rightarrow> fb_info) \<Rightarrow> video \<Rightarrow> video" where
  "upd_fb p f v = v\<lparr>fbs := (fbs v)(p := f (fbs v p))\<rparr>"

definition upd_con :: "u64 \<Rightarrow> (console \<Rightarrow> console) \<Rightarrow> video \<Rightarrow> video" where
  "upd_con p f v = v\<lparr>cons := (cons v)(p := f (cons v p))\<rparr>"

section \<open>Drawing\<close>

text \<open>\<^verbatim>\<open>framebuffer_ptr[index]\<close>: the index is a \<^verbatim>\<open>u32\<close>.\<close>

definition px_addr :: "fb_info \<Rightarrow> u32 \<Rightarrow> u64" where
  "px_addr info index = screen_base info + 4 * ucast index"

definition put_px :: "fb_info \<Rightarrow> u32 \<Rightarrow> u32 \<Rightarrow> (u64 \<Rightarrow> u32) \<Rightarrow> u64 \<Rightarrow> u32" where
  "put_px info index color m = m(px_addr info index := color)"

definition get_px :: "fb_info \<Rightarrow> u32 \<Rightarrow> (u64 \<Rightarrow> u32) \<Rightarrow> u32" where
  "get_px info index m = m (px_addr info index)"

text \<open>The values of an \<^verbatim>\<open>int\<close> counter that runs from 0 up to \<open>n - 1\<close>, and of one that
  runs from \<open>n - 1\<close> down to 0: a start of \<open>2^31\<close> or more is negative as an \<^verbatim>\<open>int\<close>.\<close>

definition counting_up :: "u32 \<Rightarrow> nat list" where
  "counting_up n = [0..<unat n]"

definition counting_down :: "u32 \<Rightarrow> nat list" where
  "counting_down n = (if 0 \<le> sint (n - 1) then rev [0..<unat n] else [])"

definition row_offset :: "fb_info \<Rightarrow> nat \<Rightarrow> u32 \<Rightarrow> u32" where
  "row_offset info j dy = (of_nat j + dy) * xres_virtual (fb_var info)"

definition boot_fb_fillrect :: "fb_info \<Rightarrow> fb_fillrect \<Rightarrow> (u64 \<Rightarrow> u32) \<Rightarrow> u64 \<Rightarrow> u32" where
  "boot_fb_fillrect info rect =
     fold (\<lambda>j. let dst_offset_y = row_offset info j (fr_dy rect)
               in fold (\<lambda>i. put_px info (dst_offset_y + fr_dx rect + of_nat i) (fr_color rect))
                    (counting_up (fr_width rect)))
       (counting_up (fr_height rect))"

definition copy_row :: "fb_info \<Rightarrow> fb_copyarea \<Rightarrow> nat list \<Rightarrow> nat \<Rightarrow> (u64 \<Rightarrow> u32) \<Rightarrow> u64 \<Rightarrow> u32" where
  "copy_row info region columns j =
     (let dst_offset_y = row_offset info j (ca_dy region);
          src_offset_y = row_offset info j (ca_sy region)
      in fold (\<lambda>i m. put_px info (dst_offset_y + of_nat i + ca_dx region)
                       (get_px info (src_offset_y + of_nat i + ca_sx region) m) m) columns)"

definition boot_fb_copyarea :: "fb_info \<Rightarrow> fb_copyarea \<Rightarrow> (u64 \<Rightarrow> u32) \<Rightarrow> u64 \<Rightarrow> u32" where
  "boot_fb_copyarea info region =
     (let h = ca_height region; w = ca_width region
      in if ca_dy region < ca_sy region \<and> ca_dx region < ca_sx region then
           fold (copy_row info region (counting_up w)) (counting_up h)
         else if ca_dy region < ca_sy region \<and> ca_sx region \<le> ca_dx region then
           fold (copy_row info region (counting_down w)) (counting_up h)
         else if ca_sy region \<le> ca_dy region \<and> ca_dx region < ca_sx region then
           fold (copy_row info region (counting_up w)) (counting_down h)
         else
           fold (copy_row info region (counting_down w)) (counting_down h))"

definition boot_fb_imageblit :: "fb_info \<Rightarrow> fb_image \<Rightarrow> (u64 \<Rightarrow> u32) \<Rightarrow> u64 \<Rightarrow> u32" where
  "boot_fb_imageblit info img =
     fold (\<lambda>j. let dst_offset_y = row_offset info j (im_dy img);
                   src_offset_y = of_nat j * im_width img
               in fold (\<lambda>i. put_px info (dst_offset_y + of_nat i + im_dx img)
                          (im_data img (src_offset_y + of_nat i)))
                    (counting_up (im_width img)))
       (counting_up (im_height img))"

section \<open>The list of frame buffers\<close>

definition fb_register :: "u64 \<Rightarrow> video \<Rightarrow> video" where
  "fb_register p v = v\<lparr>fb_list := fb_list v @ [p]\<rparr>"

definition fb_unregister :: "u64 \<Rightarrow> video \<Rightarrow> video" where
  "fb_unregister p v = v\<lparr>fb_list := remove1 p (fb_list v)\<rparr>"

definition early_fb_init :: "video \<Rightarrow> video" where
  "early_fb_init v = v\<lparr>fb_list := []\<rparr>"

definition set_fb_active :: "u32 \<Rightarrow> fb_info \<Rightarrow> fb_info" where
  "set_fb_active b i = i\<lparr>fb_var := (fb_var i)\<lparr>fv_active := b\<rparr>\<rparr>"

definition fb_active :: "u64 \<Rightarrow> video \<Rightarrow> video" where
  "fb_active p = upd_fb p (set_fb_active 1)"

definition fb_deactive :: "u64 \<Rightarrow> video \<Rightarrow> video" where
  "fb_deactive p = upd_fb p (set_fb_active 0)"

text \<open>The three dispatchers: every active frame buffer draws, in the order of the list. A table of
  operations that is not set is a null pointer.\<close>

definition on_active_fbs ::
    "(fb_info \<Rightarrow> (u64 \<Rightarrow> u32) \<Rightarrow> u64 \<Rightarrow> u32) \<Rightarrow> video \<Rightarrow> video option" where
  "on_active_fbs draw v =
     (let active = filter (\<lambda>p. fv_active (fb_var (fbs v p)) = 1) (fb_list v)
      in if \<exists>p \<in> set active. fbops (fbs v p) = None then None
         else Some (v\<lparr>vram := fold (\<lambda>p. draw (fbs v p)) active (vram v)\<rparr>))"

definition fillrect_active_fb :: "fb_fillrect \<Rightarrow> video \<Rightarrow> video option" where
  "fillrect_active_fb rect = on_active_fbs (\<lambda>i. boot_fb_fillrect i rect)"

definition copyarea_active_fb :: "fb_copyarea \<Rightarrow> video \<Rightarrow> video option" where
  "copyarea_active_fb area = on_active_fbs (\<lambda>i. boot_fb_copyarea i area)"

definition imageblit_active_fb :: "fb_image \<Rightarrow> video \<Rightarrow> video option" where
  "imageblit_active_fb img = on_active_fbs (\<lambda>i. boot_fb_imageblit i img)"

text \<open>Without an active frame buffer the function ends without a return.\<close>

definition get_current_fb :: "video \<Rightarrow> u64 option" where
  "get_current_fb v = find (\<lambda>p. fv_active (fb_var (fbs v p)) = 1) (fb_list v)"

section \<open>Consoles\<close>

definition console_init :: "video \<Rightarrow> video" where
  "console_init v = v\<lparr>con_list := []\<rparr>"

definition console_register :: "u64 \<Rightarrow> video \<Rightarrow> video" where
  "console_register p v = v\<lparr>con_list := con_list v @ [p]\<rparr>"

definition console_unregister :: "u64 \<Rightarrow> video \<Rightarrow> video" where
  "console_unregister p v = v\<lparr>con_list := remove1 p (con_list v)\<rparr>"

definition console_active :: "u64 \<Rightarrow> video \<Rightarrow> video" where
  "console_active p = upd_con p (con_active_update (\<lambda>_. 1))"

definition console_deactive :: "u64 \<Rightarrow> video \<Rightarrow> video" where
  "console_deactive p = upd_con p (con_active_update (\<lambda>_. 0))"

section \<open>The graphic console\<close>

definition fbcon_scroll :: "console \<Rightarrow> int \<Rightarrow> video \<Rightarrow> video option" where
  "fbcon_scroll con direction v =
     (if direction = 1 then do {
        let cp_area = \<lparr>ca_dx = 0, ca_dy = 0, ca_width = ucast (con_width con),
              ca_height = ucast (rounddown (con_height con - font_height con) 16),
              ca_sx = 0, ca_sy = ucast (font_height con)\<rparr>;
        v \<leftarrow> copyarea_active_fb cp_area v;
        let fi_area = \<lparr>fr_dx = 0, fr_dy = ucast (rounddown (con_height con - font_height con) 16 - 1),
              fr_width = ucast (con_width con), fr_height = ucast (font_height con), fr_color = 0\<rparr>;
        fillrect_active_fb fi_area v
      } else Some v)"

text \<open>The pixels of a character's cell, row by row. The font byte is a signed \<^verbatim>\<open>char\<close>, but only
  its eight bits meet the mask. \<open>font_data\<close> is the memory from the address of the font's table on: the first
  4,096 bytes are the table, and a character of 128 and above, which arrives sign-extended, reads
  behind it. This is the one array access outside its array that is not \<open>None\<close>: the kernel's linear map has
  what lies there.\<close>

definition glyph_px :: "console \<Rightarrow> u32 \<Rightarrow> nat \<Rightarrow> nat \<Rightarrow> u32" where
  "glyph_px con chr i j =
     (if font_data con (ucast chr * font_height con + of_nat i) AND drop_bit j 0x80 \<noteq> 0
      then ucast (font_color con) else ucast (back_color con))"

definition render_char :: "console \<Rightarrow> u32 \<Rightarrow> (u64 \<Rightarrow> u32) \<Rightarrow> u64 \<Rightarrow> u32" where
  "render_char con chr =
     fold (\<lambda>i. fold (\<lambda>j b. b(of_nat i * font_width con + of_nat j := glyph_px con chr i j))
                 [0..<unat (font_width con)])
       [0..<unat (font_height con)]"

definition graphic_con_write_char :: "u64 \<Rightarrow> u32 \<Rightarrow> video \<Rightarrow> video option" where
  "graphic_con_write_char p chr v =
     (let con = cons v p
      in if chr = 10 then
           let v = upd_con p (cursor_x_update (\<lambda>_. 0)) v; con = cons v p
           in if con_height con < cursor_y con + font_height con * 2 then do {
                v \<leftarrow> fbcon_scroll con 1 v;
                Some (upd_con p (cursor_x_update (\<lambda>_. 0)) v)
              } else Some (upd_con p (cursor_y_update (\<lambda>y. y + font_height con)) v)
         else do {
           let v = v\<lparr>blit_buffer := render_char con chr (blit_buffer v)\<rparr>;
           let buf = blit_buffer v;
           v \<leftarrow> imageblit_active_fb
                 \<lparr>im_dx = ucast (cursor_x con), im_dy = ucast (cursor_y con),
                  im_width = ucast (font_width con), im_height = ucast (font_height con),
                  im_data = (\<lambda>k. buf (ucast k))\<rparr> v;
           if con_width con < cursor_x con + font_width con * 2 then
             let v = upd_con p (cursor_x_update (\<lambda>_. 0)) v; con = cons v p
             in if con_height con \<le> cursor_y con + font_height con * 2 then do {
                  v \<leftarrow> fbcon_scroll con 1 v;
                  Some (upd_con p (cursor_x_update (\<lambda>_. 0)) v)
                } else Some (upd_con p (cursor_y_update (\<lambda>y. y + font_height con)) v)
           else Some (upd_con p (cursor_x_update (\<lambda>x. x + font_width con)) v)
         })"

text \<open>\<^verbatim>\<open>write_console\<close> hands the character to every active console.\<close>

fun write_consoles :: "u64 list \<Rightarrow> u32 \<Rightarrow> video \<Rightarrow> video option" where
  "write_consoles [] chr v = Some v"
| "write_consoles (p # ps) chr v = do {
     v \<leftarrow> (if con_active (cons v p) = 1
           then (case console_write_char (cons v p) of
                   None \<Rightarrow> None
                 | Some Graphic_con_write_char \<Rightarrow> graphic_con_write_char p chr v)
           else Some v);
     write_consoles ps chr v
   }"

definition write_console :: "u32 \<Rightarrow> video \<Rightarrow> video option" where
  "write_console chr v = write_consoles (con_list v) chr v"

text \<open>What the output loop of \<^verbatim>\<open>printk\<close> does on the screen: its \<^verbatim>\<open>char\<close> is signed and is
  extended to the \<^verbatim>\<open>u32\<close> argument. The formatting, the buffer it may overflow and the end of
  the string are in \<open>C_String.printk\<close>, whose result is the list of output events; the lock around the loop is
  that of \<open>Spinlock\<close>.\<close>

fun console_output :: "outev list \<Rightarrow> video \<Rightarrow> video option" where
  "console_output [] v = Some v"
| "console_output (To_console c # ev) v = do { v \<leftarrow> write_console (scast c) v; console_output ev v }"
| "console_output (To_port _ _ # ev) v = console_output ev v"

section \<open>Starting\<close>

record screen_parm =
  screen_width :: u64
  screen_height :: u64
  pixels_per_scanline :: u64
  frame_buffer_base :: u64

text \<open>\<open>boot_fb\<close> and \<open>graphics_con\<close> are the addresses of the two static objects.\<close>

definition boot_fb_init :: "u64 \<Rightarrow> screen_parm \<Rightarrow> video \<Rightarrow> video" where
  "boot_fb_init boot_fb parm v =
     (let info = \<lparr>fb_var = \<lparr>fv_active = (if frame_buffer_base parm = 0 then 0 else 1),
                    xres = ucast (screen_width parm), yres = ucast (screen_height parm),
                    xres_virtual = ucast (pixels_per_scanline parm),
                    yres_virtual = ucast (screen_height parm), bits_per_pixel = 32,
                    red_bits = 8, green_bits = 8, blue_bits = 8, transparent_bits = 8\<rparr>,
                  fbops = Some Bootfb_ops,
                  screen_base = PHYS2VIRT (frame_buffer_base parm), screen_size = 0x2000000\<rparr>;
          v = upd_fb boot_fb (\<lambda>_. info) v;
          v = early_fb_init v;
          v = console_init v
      in fb_register boot_fb v)"

definition graphic_con_init :: "u64 \<Rightarrow> (u64 \<Rightarrow> u8) \<Rightarrow> video \<Rightarrow> video option" where
  "graphic_con_init graphics_con fontdata v = do {
     fb \<leftarrow> get_current_fb v;
     let var = fb_var (fbs v fb);
     let v = upd_con graphics_con (\<lambda>con. con\<lparr>con_active := 1, font_height := 16, font_width := 8,
           font_data := fontdata, con_width := ucast (xres var), con_height := ucast (yres var),
           console_write_char := Some Graphic_con_write_char,
           font_color := 0x00ffffff, back_color := 0x00000000\<rparr>) v;
     Some (console_register graphics_con v)
   }"


section \<open>Pixels\<close>

text \<open>The cell of the pixel in column \<open>x\<close> of line \<open>y\<close>.\<close>

abbreviation line_len :: "fb_info \<Rightarrow> nat" where
  "line_len info \<equiv> unat (xres_virtual (fb_var info))"

definition pixel :: "fb_info \<Rightarrow> nat \<Rightarrow> nat \<Rightarrow> u64" where
  "pixel info x y = px_addr info (of_nat (y * line_len info + x))"

text \<open>A rectangle of the frame buffer whose pixel numbers fit the 32-bit index.\<close>

definition in_fb :: "fb_info \<Rightarrow> nat \<Rightarrow> nat \<Rightarrow> nat \<Rightarrow> nat \<Rightarrow> bool" where
  "in_fb info x y w h \<longleftrightarrow> x + w \<le> line_len info \<and> (y + h) * line_len info \<le> 2 ^ 32"

lemma px_addr_inject: "px_addr info i = px_addr info j \<longleftrightarrow> i = j"
proof
  assume "px_addr info i = px_addr info j"
  then have "(4 :: u64) * ucast i = 4 * ucast j" by (simp add: px_addr_def)
  moreover have "unat (4 * ucast k :: u64) = 4 * unat k" for k :: u32
    using unsigned_less [of k, where ?'a = nat]
    by (simp add: unat_word_ariths unsigned_ucast_eq take_bit_nat_eq_self)
  ultimately have "4 * unat i = 4 * unat j" by metis
  then show "i = j" by (simp add: word_unat_eq_iff)
qed simp

lemma in_fb_index:
  assumes "in_fb info x y w h" "i < w" "j < h"
  shows "(y + j) * line_len info + (x + i) < 2 ^ 32" "x + i < line_len info"
proof -
  show "x + i < line_len info" using assms by (simp add: in_fb_def)
  then have "(y + j) * line_len info + (x + i) < (y + j + 1) * line_len info" by simp
  also have "\<dots> \<le> (y + h) * line_len info" using assms(3) by (intro mult_right_mono) auto
  finally show "(y + j) * line_len info + (x + i) < 2 ^ 32" using assms(1) by (simp add: in_fb_def)
qed

lemma pixel_inject:
  assumes "y * line_len info + x < 2 ^ 32" "x < line_len info"
    and "y' * line_len info + x' < 2 ^ 32" "x' < line_len info"
  shows "pixel info x y = pixel info x' y' \<longleftrightarrow> x = x' \<and> y = y'"
proof
  assume "pixel info x y = pixel info x' y'"
  then have "(of_nat (y * line_len info + x) :: u32) = of_nat (y' * line_len info + x')"
    by (simp only: pixel_def px_addr_inject)
  moreover have "unat (of_nat k :: u32) = k" if "k < 2 ^ 32" for k
    using that by (simp add: unsigned_of_nat take_bit_nat_eq_self)
  ultimately have e: "y * line_len info + x = y' * line_len info + x'"
    using assms(1,3) by metis
  have "y = (y * line_len info + x) div line_len info" "x = (y * line_len info + x) mod line_len info"
    using assms(2) by simp_all
  moreover have "y' = (y' * line_len info + x') div line_len info" "x' = (y' * line_len info + x') mod line_len info"
    using assms(4) by simp_all
  ultimately show "x = x' \<and> y = y'" using e by metis
qed simp

lemma row_offset_pixel:
  "px_addr info (row_offset info j dy + of_nat i + dx) = pixel info (unat dx + i) (unat dy + j)"
  "px_addr info (row_offset info j dy + dx + of_nat i) = pixel info (unat dx + i) (unat dy + j)"
proof -
  have e: "row_offset info j dy + of_nat i + dx = of_nat ((unat dy + j) * line_len info + (unat dx + i))"
    by (simp add: row_offset_def algebra_simps)
  then show "px_addr info (row_offset info j dy + of_nat i + dx) = pixel info (unat dx + i) (unat dy + j)"
    unfolding pixel_def by (rule arg_cong)
  have "row_offset info j dy + dx + of_nat i = row_offset info j dy + of_nat i + dx" by simp
  with e show "px_addr info (row_offset info j dy + dx + of_nat i) = pixel info (unat dx + i) (unat dy + j)"
    unfolding pixel_def by metis
qed

section \<open>Writing many cells\<close>

lemma fold_product: "fold (\<lambda>j. fold (f j) cs) rs = fold (\<lambda>(j, i). f j i) (List.product rs cs)"
  by (induction rs) (simp_all add: fold_map comp_def)

text \<open>Cells written one after the other, no cell twice.\<close>

lemma fold_put:
  assumes "sorted_wrt (\<lambda>p q. D p \<noteq> D q) ps"
  shows "p \<in> set ps \<Longrightarrow> fold (\<lambda>p m. m(D p := v p)) ps m (D p) = v p"
    "a \<notin> D ` set ps \<Longrightarrow> fold (\<lambda>p m. m(D p := v p)) ps m a = m a"
proof -
  have o: "a \<notin> D ` set ps \<Longrightarrow> fold (\<lambda>p m. m(D p := v p)) ps m a = m a" for ps m a
    by (induction ps arbitrary: m) auto
  then show "a \<notin> D ` set ps \<Longrightarrow> fold (\<lambda>p m. m(D p := v p)) ps m a = m a" .
  from assms show "p \<in> set ps \<Longrightarrow> fold (\<lambda>p m. m(D p := v p)) ps m (D p) = v p"
  proof (induction ps arbitrary: m)
    case (Cons q ps)
    show ?case
    proof (cases "p \<in> set ps")
      case True
      then show ?thesis using Cons.IH [of "m(D q := v q)"] Cons.prems by auto
    next
      case False
      then have "p = q" "D q \<notin> D ` set ps" using Cons.prems by auto
      then have "fold (\<lambda>p m. m(D p := v p)) ps (m(D q := v q)) (D q) = v q"
        using o [of "D q" ps "m(D q := v q)"] by (metis fun_upd_same)
      then show ?thesis using \<open>p = q\<close> by (simp del: fun_upd_apply)
    qed
  qed simp
qed

text \<open>Cells copied one after the other: right if no source has been written before it is read.\<close>

lemma fold_copy:
  assumes "sorted_wrt (\<lambda>p q. D p \<noteq> D q \<and> D p \<noteq> S q) ps"
  shows "p \<in> set ps \<Longrightarrow> fold (\<lambda>p m. m(D p := m (S p))) ps m (D p) = m (S p)"
    "a \<notin> D ` set ps \<Longrightarrow> fold (\<lambda>p m. m(D p := m (S p))) ps m a = m a"
proof -
  have o: "a \<notin> D ` set ps \<Longrightarrow> fold (\<lambda>p m. m(D p := m (S p))) ps m a = m a" for ps m a
    by (induction ps arbitrary: m) auto
  then show "a \<notin> D ` set ps \<Longrightarrow> fold (\<lambda>p m. m(D p := m (S p))) ps m a = m a" .
  from assms show "p \<in> set ps \<Longrightarrow> fold (\<lambda>p m. m(D p := m (S p))) ps m (D p) = m (S p)"
  proof (induction ps arbitrary: m)
    case (Cons q ps)
    show ?case
    proof (cases "p \<in> set ps")
      case True
      then show ?thesis using Cons.IH [of "m(D q := m (S q))"] Cons.prems by auto
    next
      case False
      then have "p = q" "D q \<notin> D ` set ps" using Cons.prems by auto
      then have "fold (\<lambda>p m. m(D p := m (S p))) ps (m(D q := m (S q))) (D q) = m (S q)"
        using o [of "D q" ps "m(D q := m (S q))"] by (metis fun_upd_same)
      then show ?thesis using \<open>p = q\<close> by (simp del: fun_upd_apply)
    qed
  qed simp
qed

lemma sorted_wrt_product:
  assumes "sorted_wrt P rs" "sorted_wrt Q cs"
  shows "sorted_wrt (\<lambda>p q. P (fst p) (fst q) \<or> fst p = fst q \<and> Q (snd p) (snd q)) (List.product rs cs)"
  using assms(1)
proof (induction rs)
  case (Cons r rs)
  have "sorted_wrt (\<lambda>p q. P (fst p) (fst q) \<or> fst p = fst q \<and> Q (snd p) (snd q)) (map (Pair r) cs)"
    using assms(2) by (simp add: sorted_wrt_map) (erule sorted_wrt_mono_rel [rotated], simp)
  then show ?case using Cons by (auto simp: sorted_wrt_append)
qed simp

lemma counting_up_down:
  "unat n \<le> 2 ^ 31 \<Longrightarrow> counting_down n = rev [0..<unat n]"
  "set (counting_up n) = {..<unat n}" "unat n \<le> 2 ^ 31 \<Longrightarrow> set (counting_down n) = {..<unat n}"
  "sorted_wrt (<) (counting_up n)" "sorted_wrt (>) (counting_down n)"
proof -
  have "0 \<le> sint (n - 1)" if "unat n \<le> 2 ^ 31" "n \<noteq> 0"
  proof -
    have "unat (n - 1) = unat n - 1" using that(2) by (simp add: unat_minus_one)
    then have "unat (n - 1) < 2 ^ 31" using that by (simp add: word_unat_eq_iff)
    then have "\<not> bit (unat (n - 1)) 31" by (simp add: bit_iff_odd)
    then have "\<not> bit (uint (n - 1)) 31" by (simp add: bit_unsigned_iff)
    then show ?thesis by (simp add: sint_uint signed_take_bit_nonnegative_iff)
  qed
  then show d: "unat n \<le> 2 ^ 31 \<Longrightarrow> counting_down n = rev [0..<unat n]"
    by (cases "n = 0") (auto simp: counting_down_def)
  then show "unat n \<le> 2 ^ 31 \<Longrightarrow> set (counting_down n) = {..<unat n}" by auto
  show "set (counting_up n) = {..<unat n}" "sorted_wrt (<) (counting_up n)"
    by (auto simp: counting_up_def)
  show "sorted_wrt (>) (counting_down n)"
    by (simp add: counting_down_def sorted_wrt_rev)
qed

section \<open>Rectangles\<close>

definition area :: "fb_info \<Rightarrow> nat \<Rightarrow> nat \<Rightarrow> nat \<Rightarrow> nat \<Rightarrow> u64 set" where
  "area info x y w h = {pixel info (x + i) (y + j) | i j. i < w \<and> j < h}"

lemma areaI: "i < w \<Longrightarrow> j < h \<Longrightarrow> pixel info (x + i) (y + j) \<in> area info x y w h"
  by (auto simp: area_def)

lemma area_image: "area info x y w h = (\<lambda>p. pixel info (x + snd p) (y + fst p)) ` set (List.product [0..<h] [0..<w])"
proof (intro set_eqI iffI)
  fix a assume "a \<in> area info x y w h"
  then obtain i j where "a = pixel info (x + i) (y + j)" "(j, i) \<in> set (List.product [0..<h] [0..<w])"
    by (auto simp: area_def)
  then show "a \<in> (\<lambda>p. pixel info (x + snd p) (y + fst p)) ` set (List.product [0..<h] [0..<w])"
    by (intro image_eqI [of _ _ "(j, i)"]) simp_all
next
  fix a assume "a \<in> (\<lambda>p. pixel info (x + snd p) (y + fst p)) ` set (List.product [0..<h] [0..<w])"
  then obtain j i where "a = pixel info (x + i) (y + j)" "j < h" "i < w" by auto
  then show "a \<in> area info x y w h" by (simp add: areaI)
qed

lemma area_mono:
  assumes "x \<le> x'" "x' + w' \<le> x + w" "y \<le> y'" "y' + h' \<le> y + h"
  shows "area info x' y' w' h' \<subseteq> area info x y w h"
proof
  fix a assume "a \<in> area info x' y' w' h'"
  then obtain i j where "a = pixel info (x' + i) (y' + j)" "i < w'" "j < h'" by (auto simp: area_def)
  then have "a = pixel info (x + (x' - x + i)) (y + (y' - y + j))" "x' - x + i < w" "y' - y + j < h"
    using assms by simp_all
  then show "a \<in> area info x y w h" unfolding area_def by blast
qed

lemma in_fb_pixel:
  assumes "in_fb info x y w h" "i < w" "j < h" "i' < w" "j' < h"
  shows "pixel info (x + i) (y + j) = pixel info (x + i') (y + j') \<longleftrightarrow> i = i' \<and> j = j'"
  using pixel_inject [OF in_fb_index [OF assms(1-3)] in_fb_index [OF assms(1,4,5)]] by simp

lemma put_rect:
  assumes fb: "in_fb info x y w h"
  defines "put \<equiv> \<lambda>v. fold (\<lambda>p m. m(pixel info (x + snd p) (y + fst p) := v p)) (List.product [0..<h] [0..<w])"
  shows "i < w \<Longrightarrow> j < h \<Longrightarrow> put v m (pixel info (x + i) (y + j)) = v (j, i)"
    "a \<notin> area info x y w h \<Longrightarrow> put v m a = m a"
proof -
  have "distinct (List.product [0..<h] [0..<w])" by (simp add: distinct_product)
  then have "sorted_wrt (\<lambda>p q. p \<noteq> q) (List.product [0..<h] [0..<w])"
    by (simp add: distinct_conv_nth sorted_wrt_iff_nth_less)
  then have s: "sorted_wrt (\<lambda>p q. pixel info (x + snd p) (y + fst p) \<noteq> pixel info (x + snd q) (y + fst q))
      (List.product [0..<h] [0..<w])"
    by (rule sorted_wrt_mono_rel [rotated]) (auto simp: in_fb_pixel [OF fb] prod_eq_iff)
  show "i < w \<Longrightarrow> j < h \<Longrightarrow> put v m (pixel info (x + i) (y + j)) = v (j, i)"
    using fold_put(1) [OF s, of "(j, i)" v m] by (simp add: put_def)
  show "a \<notin> area info x y w h \<Longrightarrow> put v m a = m a"
    using fold_put(2) [OF s] by (simp only: put_def area_image)
qed

lemma put_row:
  "put_px info (row_offset info j dy + of_nat i + dx) c = (\<lambda>m. m(pixel info (unat dx + i) (unat dy + j) := c))"
  "put_px info (row_offset info j dy + dx + of_nat i) c = (\<lambda>m. m(pixel info (unat dx + i) (unat dy + j) := c))"
  by (rule ext, simp only: put_px_def row_offset_pixel)+

lemma copy_row_pixels:
  "copy_row info r cs = (\<lambda>j. fold (\<lambda>i m. m(pixel info (unat (ca_dx r) + i) (unat (ca_dy r) + j) :=
       m (pixel info (unat (ca_sx r) + i) (unat (ca_sy r) + j)))) cs)"
  by (rule ext) (simp only: copy_row_def put_row get_px_def row_offset_pixel Let_def)

lemma fillrect_fold:
  "boot_fb_fillrect info r = fold (\<lambda>p m. m(pixel info (unat (fr_dx r) + snd p) (unat (fr_dy r) + fst p) := fr_color r))
     (List.product [0..<unat (fr_height r)] [0..<unat (fr_width r)])"
  by (simp only: boot_fb_fillrect_def put_row fold_product counting_up_def Let_def case_prod_beta')

lemma fillrect_px:
  assumes "in_fb info (unat (fr_dx r)) (unat (fr_dy r)) (unat (fr_width r)) (unat (fr_height r))"
  shows "i < unat (fr_width r) \<Longrightarrow> j < unat (fr_height r) \<Longrightarrow>
       boot_fb_fillrect info r m (pixel info (unat (fr_dx r) + i) (unat (fr_dy r) + j)) = fr_color r"
    "a \<notin> area info (unat (fr_dx r)) (unat (fr_dy r)) (unat (fr_width r)) (unat (fr_height r)) \<Longrightarrow>
       boot_fb_fillrect info r m a = m a"
  using put_rect(1) [OF assms, of i j "\<lambda>_. fr_color r" m] put_rect(2) [OF assms, of a "\<lambda>_. fr_color r" m]
  unfolding fillrect_fold by blast+

lemma imageblit_fold:
  "boot_fb_imageblit info g = fold (\<lambda>p m. m(pixel info (unat (im_dx g) + snd p) (unat (im_dy g) + fst p) :=
       im_data g (of_nat (fst p) * im_width g + of_nat (snd p))))
     (List.product [0..<unat (im_height g)] [0..<unat (im_width g)])"
  by (simp only: boot_fb_imageblit_def put_row fold_product counting_up_def Let_def case_prod_beta')

lemma imageblit_px:
  assumes "in_fb info (unat (im_dx g)) (unat (im_dy g)) (unat (im_width g)) (unat (im_height g))"
  shows "i < unat (im_width g) \<Longrightarrow> j < unat (im_height g) \<Longrightarrow>
       boot_fb_imageblit info g m (pixel info (unat (im_dx g) + i) (unat (im_dy g) + j)) =
       im_data g (of_nat j * im_width g + of_nat i)"
    "a \<notin> area info (unat (im_dx g)) (unat (im_dy g)) (unat (im_width g)) (unat (im_height g)) \<Longrightarrow>
       boot_fb_imageblit info g m a = m a"
  using put_rect(1) [OF assms, of i j "\<lambda>p. im_data g (of_nat (fst p) * im_width g + of_nat (snd p))" m]
    put_rect(2) [OF assms, of a "\<lambda>p. im_data g (of_nat (fst p) * im_width g + of_nat (snd p))" m]
  unfolding imageblit_fold fst_conv snd_conv by blast+

text \<open>In all four orders no pixel of the source is overwritten before it is copied.\<close>

definition copy_pairs :: "fb_copyarea \<Rightarrow> (nat \<times> nat) list" where
  "copy_pairs r =
     List.product (if ca_dy r < ca_sy r then counting_up (ca_height r) else counting_down (ca_height r))
       (if ca_dx r < ca_sx r then counting_up (ca_width r) else counting_down (ca_width r))"

lemma copyarea_fold:
  "boot_fb_copyarea info r =
     fold (\<lambda>p m. m(pixel info (unat (ca_dx r) + snd p) (unat (ca_dy r) + fst p) :=
                  m (pixel info (unat (ca_sx r) + snd p) (unat (ca_sy r) + fst p)))) (copy_pairs r)"
  by (cases "ca_dy r < ca_sy r"; cases "ca_dx r < ca_sx r")
    (simp_all add: boot_fb_copyarea_def copy_row_pixels fold_product copy_pairs_def Let_def case_prod_beta' flip: not_less)

lemma copyarea_px:
  assumes src: "in_fb info (unat (ca_sx r)) (unat (ca_sy r)) (unat (ca_width r)) (unat (ca_height r))"
    and dst: "in_fb info (unat (ca_dx r)) (unat (ca_dy r)) (unat (ca_width r)) (unat (ca_height r))"
    and w: "unat (ca_width r) \<le> 2 ^ 31" and h: "unat (ca_height r) \<le> 2 ^ 31"
  shows "i < unat (ca_width r) \<Longrightarrow> j < unat (ca_height r) \<Longrightarrow>
       boot_fb_copyarea info r m (pixel info (unat (ca_dx r) + i) (unat (ca_dy r) + j)) =
       m (pixel info (unat (ca_sx r) + i) (unat (ca_sy r) + j))"
    "a \<notin> area info (unat (ca_dx r)) (unat (ca_dy r)) (unat (ca_width r)) (unat (ca_height r)) \<Longrightarrow>
       boot_fb_copyarea info r m a = m a"
proof -
  let ?w = "unat (ca_width r)" and ?h = "unat (ca_height r)"
  let ?D = "\<lambda>p. pixel info (unat (ca_dx r) + snd p) (unat (ca_dy r) + fst p)"
  let ?S = "\<lambda>p. pixel info (unat (ca_sx r) + snd p) (unat (ca_sy r) + fst p)"
  let ?P = "if ca_dy r < ca_sy r then (<) else (>)" and ?Q = "if ca_dx r < ca_sx r then (<) else (>)"
  have set: "set (copy_pairs r) = {..<?h} \<times> {..<?w}"
    using counting_up_down(2,3) w h by (auto simp: copy_pairs_def)
  have "sorted_wrt (\<lambda>p q. ?P (fst p) (fst q) \<or> fst p = fst q \<and> ?Q (snd p) (snd q)) (copy_pairs r)"
    unfolding copy_pairs_def
    by (rule sorted_wrt_product) (simp_all add: counting_up_down(4,5))
  then have "sorted_wrt (\<lambda>p q. ?D p \<noteq> ?D q \<and> ?D p \<noteq> ?S q) (copy_pairs r)"
  proof (rule sorted_wrt_mono_rel [rotated])
    fix p q assume pq: "p \<in> set (copy_pairs r)" "q \<in> set (copy_pairs r)"
      and o: "?P (fst p) (fst q) \<or> fst p = fst q \<and> ?Q (snd p) (snd q)"
    then have b: "snd p < ?w" "fst p < ?h" "snd q < ?w" "fst q < ?h" by (auto simp: set)
    have "p \<noteq> q" using o by (auto split: if_splits)
    then have "?D p \<noteq> ?D q" using in_fb_pixel [OF dst b] by (auto simp: prod_eq_iff)
    moreover have "?D p \<noteq> ?S q"
      using pixel_inject [OF in_fb_index [OF dst b(1,2)] in_fb_index [OF src b(3,4)]] o
      by (auto simp: word_less_nat_alt split: if_splits)
    ultimately show "?D p \<noteq> ?D q \<and> ?D p \<noteq> ?S q" ..
  qed
  note c = fold_copy [OF this]
  show "i < ?w \<Longrightarrow> j < ?h \<Longrightarrow> boot_fb_copyarea info r m (pixel info (unat (ca_dx r) + i) (unat (ca_dy r) + j)) =
      m (pixel info (unat (ca_sx r) + i) (unat (ca_sy r) + j))"
    using c(1) [of "(j, i)" m] by (simp add: copyarea_fold set)
  show "a \<notin> area info (unat (ca_dx r)) (unat (ca_dy r)) ?w ?h \<Longrightarrow> boot_fb_copyarea info r m a = m a"
    using c(2) [of a m] unfolding copyarea_fold set area_def by (fastforce simp: image_iff)
qed

section \<open>The screen\<close>

text \<open>One active frame buffer, as \<^verbatim>\<open>boot_fb_init\<close> leaves it, with the console that
  \<^verbatim>\<open>graphic_con_init\<close> sets up on it and the cursor on the screen. The screen has room for
  two rows of text.\<close>

definition screen_ok :: "u64 \<Rightarrow> u64 \<Rightarrow> video \<Rightarrow> bool" where
  "screen_ok p fb v \<longleftrightarrow> (let info = fbs v fb; con = cons v p; w = xres (fb_var info); h = yres (fb_var info)
     in fb_list v = [fb] \<and> fv_active (fb_var info) = 1 \<and> fbops info = Some Bootfb_ops \<and>
        con_width con = ucast w \<and> con_height con = ucast h \<and> font_width con = 8 \<and> font_height con = 16 \<and>
        unat w \<le> line_len info \<and> unat h * line_len info \<le> 2 ^ 32 \<and> unat w \<le> 2 ^ 31 \<and> unat h \<le> 2 ^ 31 \<and>
        32 \<le> unat h \<and> unat (cursor_x con) + 8 \<le> unat w \<and> unat (cursor_y con) + 16 \<le> unat h)"

abbreviation screen :: "fb_info \<Rightarrow> u64 set" where
  "screen info \<equiv> area info 0 0 (unat (xres (fb_var info))) (unat (yres (fb_var info)))"

lemma screen_okD:
  assumes "screen_ok p fb v"
  shows "fb_list v = [fb]" "fv_active (fb_var (fbs v fb)) = 1" "fbops (fbs v fb) = Some Bootfb_ops"
    "con_width (cons v p) = ucast (xres (fb_var (fbs v fb)))" "con_height (cons v p) = ucast (yres (fb_var (fbs v fb)))"
    "font_width (cons v p) = 8" "font_height (cons v p) = 16"
    "unat (xres (fb_var (fbs v fb))) \<le> line_len (fbs v fb)"
    "unat (yres (fb_var (fbs v fb))) * line_len (fbs v fb) \<le> 2 ^ 32"
    "unat (xres (fb_var (fbs v fb))) \<le> 2 ^ 31" "unat (yres (fb_var (fbs v fb))) \<le> 2 ^ 31"
    "32 \<le> unat (yres (fb_var (fbs v fb)))"
    "unat (cursor_x (cons v p)) + 8 \<le> unat (xres (fb_var (fbs v fb)))"
    "unat (cursor_y (cons v p)) + 16 \<le> unat (yres (fb_var (fbs v fb)))"
  using assms by (simp_all add: screen_ok_def Let_def)

lemma on_screen_fb:
  assumes "screen_ok p fb v" shows "on_active_fbs draw v = Some (v\<lparr>vram := draw (fbs v fb) (vram v)\<rparr>)"
  using screen_okD(1-3) [OF assms] by (simp add: on_active_fbs_def Let_def)

lemma screen_in_fb:
  assumes "screen_ok p fb v" "x + w \<le> unat (xres (fb_var (fbs v fb)))" "y + h \<le> unat (yres (fb_var (fbs v fb)))"
  shows "in_fb (fbs v fb) x y w h"
proof -
  have "(y + h) * line_len (fbs v fb) \<le> unat (yres (fb_var (fbs v fb))) * line_len (fbs v fb)"
    using assms(3) by (rule mult_right_mono) simp
  also note screen_okD(9) [OF assms(1)]
  finally show ?thesis unfolding in_fb_def using screen_okD(8) [OF assms(1)] assms(2) by linarith
qed

text \<open>The height the scroll copies: all rows of text but one.\<close>

abbreviation kept_lines :: "fb_info \<Rightarrow> nat" where
  "kept_lines info \<equiv> (unat (yres (fb_var info)) - 16) div 16 * 16"

lemma kept_lines_bounds:
  assumes "screen_ok p fb v"
  shows "16 \<le> kept_lines (fbs v fb)" "kept_lines (fbs v fb) + 16 \<le> unat (yres (fb_var (fbs v fb)))"
proof -
  let ?h = "unat (yres (fb_var (fbs v fb)))"
  have "1 \<le> (?h - 16) div 16" using screen_okD(12) [OF assms] by (simp add: div_greater_zero_iff)
  then show "16 \<le> kept_lines (fbs v fb)" by simp
  have "(?h - 16) div 16 * 16 \<le> ?h - 16" by (rule div_times_less_eq_dividend)
  then show "kept_lines (fbs v fb) + 16 \<le> ?h" using screen_okD(12) [OF assms] by simp
qed

lemma unat_ucast_up: "unat (ucast (w :: u32) :: u64) = unat w"
  using unsigned_less [of w, where ?'a = nat] by (simp add: unsigned_ucast_eq take_bit_nat_eq_self)

lemma unat_ucast_down: "unat (w :: u64) < 2 ^ 32 \<Longrightarrow> unat (ucast w :: u32) = unat w"
  by (simp add: unsigned_ucast_eq take_bit_nat_eq_self)

lemma scroll_numbers:
  assumes "screen_ok p fb v"
  defines "r \<equiv> rounddown (con_height (cons v p) - font_height (cons v p)) 16"
  shows "unat (ucast r :: u32) = kept_lines (fbs v fb)" "unat (ucast (r - 1) :: u32) = kept_lines (fbs v fb) - 1"
    "unat (ucast (con_width (cons v p)) :: u32) = unat (xres (fb_var (fbs v fb)))"
    "unat (ucast (font_height (cons v p)) :: u32) = 16"
proof -
  note ok = screen_okD [OF assms(1)]
  note k = kept_lines_bounds [OF assms(1)]
  have "unat (ucast (yres (fb_var (fbs v fb))) - 16 :: u64) = unat (yres (fb_var (fbs v fb))) - 16"
    using ok(12) by (subst unat_sub) (simp_all add: unat_ucast_up word_le_nat_alt)
  then have "unat r = ((unat (yres (fb_var (fbs v fb))) - 16) div 16 * 16) mod 2 ^ 64"
    unfolding r_def rounddown_def ok unat_word_ariths(2) unat_div by simp
  then have r: "unat r = kept_lines (fbs v fb)" using k(2) ok(11) by simp
  then show "unat (ucast r :: u32) = kept_lines (fbs v fb)"
    using k(2) ok(11) by (subst unat_ucast_down) simp_all
  have "r \<noteq> 0" using r k(1) by auto
  then have "unat (r - 1) = kept_lines (fbs v fb) - 1" using r by (simp add: unat_minus_one)
  then show "unat (ucast (r - 1) :: u32) = kept_lines (fbs v fb) - 1"
    using k(2) ok(11) by (subst unat_ucast_down) simp_all
  show "unat (ucast (con_width (cons v p)) :: u32) = unat (xres (fb_var (fbs v fb)))"
    using ok(10) unat_ucast_up [of "xres (fb_var (fbs v fb))"] by (simp add: ok(4) unat_ucast_down)
  show "unat (ucast (font_height (cons v p)) :: u32) = 16" by (simp add: ok(7))
qed

text \<open>What a scroll does to the screen: the kept lines move up by a row of text, then 16 lines
  are cleared, from one line above the freed row on.\<close>

lemma fbcon_scroll_px:
  assumes ok: "screen_ok p fb v"
  defines "info \<equiv> fbs v fb"
  obtains m where "fbcon_scroll (cons v p) 1 v = Some (v\<lparr>vram := m\<rparr>)"
    "\<And>x y. x < unat (xres (fb_var info)) \<Longrightarrow> y < unat (yres (fb_var info)) \<Longrightarrow> m (pixel info x y) =
       (if y + 1 < kept_lines info then vram v (pixel info x (y + 16))
        else if y < kept_lines info + 15 then 0 else vram v (pixel info x y))"
    "\<And>a. a \<notin> screen info \<Longrightarrow> m a = vram v a"
proof -
  let ?w = "unat (xres (fb_var info))" and ?h = "unat (yres (fb_var info))" and ?k = "kept_lines info"
  let ?r = "rounddown (con_height (cons v p) - font_height (cons v p)) 16"
  let ?c = "\<lparr>ca_dx = 0, ca_dy = 0, ca_width = ucast (con_width (cons v p)), ca_height = ucast ?r,
      ca_sx = 0, ca_sy = ucast (font_height (cons v p))\<rparr>"
  let ?f = "\<lparr>fr_dx = 0, fr_dy = ucast (?r - 1), fr_width = ucast (con_width (cons v p)),
      fr_height = ucast (font_height (cons v p)), fr_color = 0\<rparr>"
  note n = scroll_numbers [OF ok, folded info_def]
  note k = kept_lines_bounds [OF ok, folded info_def]
  define m1 where "m1 = boot_fb_copyarea info ?c (vram v)"
  define m where "m = boot_fb_fillrect info ?f m1"
  have "on_active_fbs draw (v\<lparr>vram := m1\<rparr>) = Some (v\<lparr>vram := draw info m1\<rparr>)" for draw
    using screen_okD(1-3) [OF ok] by (simp add: on_active_fbs_def Let_def info_def)
  then have run: "fbcon_scroll (cons v p) 1 v = Some (v\<lparr>vram := m\<rparr>)"
    by (simp add: fbcon_scroll_def Let_def copyarea_active_fb_def fillrect_active_fb_def on_screen_fb [OF ok]
        m_def m1_def flip: info_def)
  have src: "in_fb info 0 16 ?w ?k" and dst: "in_fb info 0 0 ?w ?k" and fil: "in_fb info 0 (?k - 1) ?w 16"
    using k unfolding info_def by (auto intro!: screen_in_fb [OF ok])
  have bound: "?w \<le> 2 ^ 31" "?k \<le> 2 ^ 31" using screen_okD(10,11) [OF ok] k unfolding info_def by simp_all
  have c: "x < ?w \<Longrightarrow> y < ?k \<Longrightarrow> m1 (pixel info x y) = vram v (pixel info x (y + 16))"
    "a \<notin> area info 0 0 ?w ?k \<Longrightarrow> m1 a = vram v a" for x y a
    using copyarea_px(1) [of info ?c x y "vram v"] copyarea_px(2) [of info ?c a "vram v"] src dst bound
    by (simp_all add: n m1_def add.commute)
  have f: "x < ?w \<Longrightarrow> j < 16 \<Longrightarrow> m (pixel info x (?k - 1 + j)) = 0"
    "a \<notin> area info 0 (?k - 1) ?w 16 \<Longrightarrow> m a = m1 a" for x j a
    using fillrect_px(1) [of info ?f x j m1] fillrect_px(2) [of info ?f a m1] fil
    by (simp_all add: n m_def)
  have outside: "pixel info x y \<notin> area info 0 y0 ?w l"
    if "x < ?w" "y < ?h" "y0 + l \<le> ?h" "\<not> (y0 \<le> y \<and> y < y0 + l)" for x y y0 l
  proof
    assume "pixel info x y \<in> area info 0 y0 ?w l"
    then obtain i j where ij: "pixel info (0 + x) (0 + y) = pixel info (0 + i) (0 + (y0 + j))" "i < ?w" "j < l"
      by (auto simp: area_def)
    have "in_fb info 0 0 ?w ?h" unfolding info_def by (rule screen_in_fb [OF ok]) simp_all
    from in_fb_pixel [OF this that(1,2) ij(2), of "y0 + j"] ij that(3) have "y = y0 + j" by simp
    then show False using that(4) ij(3) by simp
  qed
  show thesis
  proof (rule that [OF run])
    fix x y assume xy: "x < ?w" "y < ?h"
    show "m (pixel info x y) = (if y + 1 < ?k then vram v (pixel info x (y + 16))
        else if y < ?k + 15 then 0 else vram v (pixel info x y))"
    proof (cases "?k - 1 \<le> y \<and> y < ?k + 15")
      case True
      then have "y = ?k - 1 + (y - (?k - 1))" "y - (?k - 1) < 16" using k(1) by linarith+
      with f(1) [OF xy(1)] have "m (pixel info x y) = 0" by metis
      then show ?thesis using True by auto
    next
      case False
      then have "m (pixel info x y) = m1 (pixel info x y)"
        using k by (intro f(2) outside xy) auto
      moreover have "m1 (pixel info x y) = vram v (pixel info x y)" if "\<not> y < ?k"
        using k that by (intro c(2) outside xy) auto
      ultimately show ?thesis using False c(1) [OF xy(1), of y] k(1) by auto
    qed
  next
    fix a assume a: "a \<notin> screen info"
    have "area info 0 0 ?w ?k \<subseteq> screen info" "area info 0 (?k - 1) ?w 16 \<subseteq> screen info"
      using k by (intro area_mono; linarith)+
    then have o: "a \<notin> area info 0 0 ?w ?k" "a \<notin> area info 0 (?k - 1) ?w 16" using a by blast+
    show "m a = vram v a" using trans [OF f(2) [OF o(2)] c(2) [OF o(1)]] .
  qed
qed

section \<open>Characters\<close>

lemma render_char_px:
  assumes f: "font_width con = 8" "font_height con = 16" and ij: "i < 16" "j < 8"
  shows "render_char con chr b (of_nat (i * 8 + j)) = glyph_px con chr i j"
proof -
  obtain h w where hw: "h = unat (font_height con)" "w = unat (font_width con)" by blast
  let ?ps = "List.product [0..<h] [0..<w]"
  let ?D = "\<lambda>p :: nat \<times> nat. of_nat (fst p * 8 + snd p) :: u64"
  have unfold: "render_char con chr b = fold (\<lambda>p m. m(?D p := glyph_px con chr (fst p) (snd p))) ?ps b"
    unfolding render_char_def fold_product case_prod_beta' hw f(1)
    by (simp only: of_nat_add of_nat_mult of_nat_numeral)
  have inj: "p = q" if "p \<in> set ?ps" "q \<in> set ?ps" "?D p = ?D q" for p q
  proof -
    have b: "fst p < 16" "snd p < 8" "fst q < 16" "snd q < 8" using that(1,2) f by (auto simp: hw)
    have u: "unat (of_nat k :: u64) = k" if "k < 128" for k
      using that by (simp add: unsigned_of_nat take_bit_nat_eq_self)
    have "unat (?D p) = unat (?D q)" using that(3) by (rule arg_cong)
    then have "fst p * 8 + snd p = fst q * 8 + snd q" using b u [of "fst p * 8 + snd p"] u [of "fst q * 8 + snd q"]
      by linarith
    note e = this
    have "fst p = fst q" using e b by linarith
    moreover from this have "snd p = snd q" using e by simp
    ultimately show ?thesis by (simp add: prod_eq_iff)
  qed
  have "distinct ?ps" by (simp add: distinct_product)
  then have "sorted_wrt (\<lambda>p q. p \<noteq> q) ?ps" by (simp add: distinct_conv_nth sorted_wrt_iff_nth_less)
  then have s: "sorted_wrt (\<lambda>p q. ?D p \<noteq> ?D q) ?ps"
    by (rule sorted_wrt_mono_rel [rotated]) (use inj in blast)
  have "(i, j) \<in> set ?ps" using ij by (simp add: hw f)
  from fold_put(1) [OF s this, of "\<lambda>p. glyph_px con chr (fst p) (snd p)" b] show ?thesis
    unfolding unfold by simp
qed

text \<open>The image that \<open>graphic_con_write_char\<close> blits.\<close>

definition glyph_image :: "console \<Rightarrow> (u64 \<Rightarrow> u32) \<Rightarrow> fb_image" where
  "glyph_image con buf = \<lparr>im_dx = ucast (cursor_x con), im_dy = ucast (cursor_y con),
     im_width = ucast (font_width con), im_height = ucast (font_height con), im_data = (\<lambda>k. buf (ucast k))\<rparr>"

lemma ucast_of_nat_32: "n < 2 ^ 32 \<Longrightarrow> ucast (of_nat n :: u32) = (of_nat n :: u64)"
  by (simp add: word_unat_eq_iff unsigned_ucast_eq unsigned_of_nat take_bit_nat_eq_self)

lemma glyph_blit:
  fixes chr :: u32 and b :: "u64 \<Rightarrow> u32"
  assumes ok: "screen_ok p fb v"
  defines "info \<equiv> fbs v fb" and "con \<equiv> cons v p"
  defines "m \<equiv> boot_fb_imageblit info (glyph_image con (render_char con chr b)) (vram v)"
  shows "i < 16 \<Longrightarrow> j < 8 \<Longrightarrow>
      m (pixel info (unat (cursor_x con) + j) (unat (cursor_y con) + i)) = glyph_px con chr i j"
    "a \<notin> area info (unat (cursor_x con)) (unat (cursor_y con)) 8 16 \<Longrightarrow> m a = vram v a"
    "a \<notin> screen info \<Longrightarrow> m a = vram v a"
proof -
  note o = screen_okD [OF ok, folded info_def con_def]
  let ?g = "glyph_image con (render_char con chr b)"
  have n: "unat (im_dx ?g) = unat (cursor_x con)" "unat (im_dy ?g) = unat (cursor_y con)"
    "im_width ?g = 8" "im_height ?g = 16" "unat (im_width ?g) = 8" "unat (im_height ?g) = 16"
    using o by (simp_all add: glyph_image_def unat_ucast_down)
  have fb: "in_fb info (unat (im_dx ?g)) (unat (im_dy ?g)) (unat (im_width ?g)) (unat (im_height ?g))"
    unfolding n info_def by (rule screen_in_fb [OF ok]) (use o in \<open>simp_all add: info_def con_def\<close>)
  have "im_data ?g (of_nat i * 8 + of_nat j) = glyph_px con chr i j" if "i < 16" "j < 8"
  proof -
    have "i * 8 + j < 2 ^ 32" using that by simp
    then have "ucast (of_nat (i * 8 + j) :: u32) = (of_nat (i * 8 + j) :: u64)"
      by (rule ucast_of_nat_32)
    moreover have "(of_nat i * 8 + of_nat j :: u32) = of_nat (i * 8 + j)" by simp
    ultimately have "im_data ?g (of_nat i * 8 + of_nat j) = render_char con chr b (of_nat (i * 8 + j))"
      unfolding glyph_image_def fb_image.simps by (simp only:)
    then show ?thesis using render_char_px [OF o(6,7) that] by simp
  qed
  then show "i < 16 \<Longrightarrow> j < 8 \<Longrightarrow>
      m (pixel info (unat (cursor_x con) + j) (unat (cursor_y con) + i)) = glyph_px con chr i j"
    using imageblit_px(1) [OF fb, of j i "vram v"] by (simp add: m_def n)
  show out: "a \<notin> area info (unat (cursor_x con)) (unat (cursor_y con)) 8 16 \<Longrightarrow> m a = vram v a"
    using imageblit_px(2) [OF fb, of a "vram v"] unfolding m_def n by simp
  have "area info (unat (cursor_x con)) (unat (cursor_y con)) 8 16 \<subseteq> screen info"
    using o by (intro area_mono) simp_all
  then show "a \<notin> screen info \<Longrightarrow> m a = vram v a" using out by blast
qed

text \<open>The step in one line: the glyph, then the cursor, which wraps and may scroll.\<close>

definition new_line :: "bool \<Rightarrow> u64 \<Rightarrow> video \<Rightarrow> video option" where
  "new_line at_end p v =
     (if at_end then map_option (upd_con p (cursor_x_update (\<lambda>_. 0)))
          (fbcon_scroll (cons (upd_con p (cursor_x_update (\<lambda>_. 0)) v) p) 1 (upd_con p (cursor_x_update (\<lambda>_. 0)) v))
      else Some (upd_con p (cursor_y_update (\<lambda>y. y + font_height (cons v p)))
                  (upd_con p (cursor_x_update (\<lambda>_. 0)) v)))"

lemma write_char_unfold:
  "graphic_con_write_char p chr v =
     (let con = cons v p; bottom = cursor_y con + font_height con * 2
      in if chr = 10 then new_line (con_height con < bottom) p v
         else do {
           v \<leftarrow> imageblit_active_fb (glyph_image con (render_char con chr (blit_buffer v)))
                 (v\<lparr>blit_buffer := render_char con chr (blit_buffer v)\<rparr>);
           if con_width con < cursor_x con + font_width con * 2 then new_line (con_height con \<le> bottom) p v
           else Some (upd_con p (cursor_x_update (\<lambda>x. x + font_width con)) v)
         })"
  by (cases "imageblit_active_fb (glyph_image (cons v p) (render_char (cons v p) chr (blit_buffer v)))
        (v\<lparr>blit_buffer := render_char (cons v p) chr (blit_buffer v)\<rparr>)")
    (auto simp: graphic_con_write_char_def new_line_def glyph_image_def imageblit_active_fb_def on_active_fbs_def
       upd_con_def map_option_case Let_def bind_eq_Some_conv split: option.splits if_splits)

text \<open>What a state has in common with the one it came from, but for the pixels, the blit buffer and
  the cursor of the console.\<close>

definition same_but_text :: "u64 \<Rightarrow> u64 \<Rightarrow> video \<Rightarrow> video \<Rightarrow> bool" where
  "same_but_text p fb v v' \<longleftrightarrow> fb_list v' = fb_list v \<and> fbs v' = fbs v \<and> con_list v' = con_list v \<and>
     cons v' = (cons v)(p := (cons v p)\<lparr>cursor_x := cursor_x (cons v' p), cursor_y := cursor_y (cons v' p)\<rparr>) \<and>
     (\<forall>a. a \<notin> screen (fbs v fb) \<longrightarrow> vram v' a = vram v a)"

lemma same_but_text_refl: "same_but_text p fb v v"
  by (simp add: same_but_text_def)

lemma same_but_text_trans:
  assumes "same_but_text p fb v v1" "same_but_text p fb v1 v2" shows "same_but_text p fb v v2"
proof -
  obtain f where f: "cons v1 = (cons v)(p := (cons v p)\<lparr>cursor_x := fst f, cursor_y := snd f\<rparr>)"
    using assms(1) unfolding same_but_text_def by (metis fst_conv snd_conv)
  have "cons v2 = (cons v1)(p := (cons v1 p)\<lparr>cursor_x := cursor_x (cons v2 p), cursor_y := cursor_y (cons v2 p)\<rparr>)"
    using assms(2) by (simp only: same_but_text_def)
  also have "\<dots> = (cons v)(p := (cons v p)\<lparr>cursor_x := cursor_x (cons v2 p), cursor_y := cursor_y (cons v2 p)\<rparr>)"
    by (subst f)+ simp
  finally show ?thesis using assms unfolding same_but_text_def by simp
qed

lemma screen_ok_same:
  assumes "screen_ok p fb v" "same_but_text p fb v v'"
    and "unat (cursor_x (cons v' p)) + 8 \<le> unat (xres (fb_var (fbs v fb)))"
    and "unat (cursor_y (cons v' p)) + 16 \<le> unat (yres (fb_var (fbs v fb)))"
  shows "screen_ok p fb v'"
proof -
  have e: "cons v' = (cons v)(p := (cons v p)\<lparr>cursor_x := cursor_x (cons v' p), cursor_y := cursor_y (cons v' p)\<rparr>)"
    using assms(2) by (simp only: same_but_text_def)
  have "con_width (cons v' p) = con_width (cons v p)" "con_height (cons v' p) = con_height (cons v p)"
    "font_width (cons v' p) = font_width (cons v p)" "font_height (cons v' p) = font_height (cons v p)"
    by (subst e, simp)+
  moreover have "fb_list v' = fb_list v" "fbs v' = fbs v" using assms(2) by (simp_all add: same_but_text_def)
  ultimately show ?thesis using screen_okD [OF assms(1)] assms(3,4) by (simp add: screen_ok_def Let_def)
qed

lemma same_upd:
  "same_but_text p fb v (upd_con p (cursor_x_update f) v)" "same_but_text p fb v (upd_con p (cursor_y_update f) v)"
  by (cases "cons v p"; simp add: same_but_text_def upd_con_def)+

lemma same_vram:
  "(\<And>a. a \<notin> screen (fbs v fb) \<Longrightarrow> m a = vram v a) \<Longrightarrow> same_but_text p fb v (v\<lparr>vram := m\<rparr>)"
  "(\<And>a. a \<notin> screen (fbs v fb) \<Longrightarrow> m a = vram v a) \<Longrightarrow> same_but_text p fb v (v\<lparr>vram := m, blit_buffer := b\<rparr>)"
  using same_but_text_refl [of p fb v] unfolding same_but_text_def by auto

lemma upd_con_at [simp]: "cons (upd_con p f v) p = f (cons v p)" "fbs (upd_con p f v) = fbs v"
  by (simp_all add: upd_con_def)

lemma new_line_ok:
  assumes ok: "screen_ok p fb v"
    and row: "\<not> at_end \<Longrightarrow> unat (cursor_y (cons v p)) + 32 \<le> unat (yres (fb_var (fbs v fb)))"
  obtains v' where "new_line at_end p v = Some v'" "screen_ok p fb v'" "same_but_text p fb v v'"
proof -
  let ?v = "upd_con p (cursor_x_update (\<lambda>_. 0)) v"
  note o = screen_okD [OF ok]
  have 1: "same_but_text p fb v ?v" by (rule same_upd)
  have ok1: "screen_ok p fb ?v" by (rule screen_ok_same [OF ok 1]) (use o in simp_all)
  show thesis
  proof (cases at_end)
    case True
    obtain m where m: "fbcon_scroll (cons ?v p) 1 ?v = Some (?v\<lparr>vram := m\<rparr>)"
      "\<And>a. a \<notin> screen (fbs ?v fb) \<Longrightarrow> m a = vram ?v a"
      using fbcon_scroll_px [OF ok1] by metis
    let ?v2 = "?v\<lparr>vram := m\<rparr>"
    let ?v3 = "upd_con p (cursor_x_update (\<lambda>_. 0)) ?v2"
    have "same_but_text p fb ?v ?v2" using m(2) by (rule same_vram)
    from same_but_text_trans [OF same_but_text_trans [OF 1 this] same_upd(1)]
    have s: "same_but_text p fb v ?v3" .
    moreover have "screen_ok p fb ?v3" by (rule screen_ok_same [OF ok s]) (use o in simp_all)
    moreover have "new_line at_end p v = Some ?v3" using True m(1) by (simp add: new_line_def)
    ultimately show thesis using that by blast
  next
    case False
    let ?v3 = "upd_con p (cursor_y_update (\<lambda>y. y + font_height (cons v p))) ?v"
    from same_but_text_trans [OF 1 same_upd(2)] have s: "same_but_text p fb v ?v3" .
    have "unat (cursor_y (cons v p) + 16) = unat (cursor_y (cons v p)) + 16"
      using o(11,14) by (subst unat_plus_no_wrap) simp_all
    then have "screen_ok p fb ?v3" using row [OF False] o by (intro screen_ok_same [OF ok s]) simp_all
    moreover have "new_line at_end p v = Some ?v3" using False by (simp add: new_line_def)
    ultimately show thesis using s that by blast
  qed
qed

lemma cursor_numbers:
  assumes "screen_ok p fb v"
  shows "con_height (cons v p) < cursor_y (cons v p) + font_height (cons v p) * 2 \<longleftrightarrow>
      unat (yres (fb_var (fbs v fb))) < unat (cursor_y (cons v p)) + 32"
    "con_height (cons v p) \<le> cursor_y (cons v p) + font_height (cons v p) * 2 \<longleftrightarrow>
      unat (yres (fb_var (fbs v fb))) \<le> unat (cursor_y (cons v p)) + 32"
    "con_width (cons v p) < cursor_x (cons v p) + font_width (cons v p) * 2 \<longleftrightarrow>
      unat (xres (fb_var (fbs v fb))) < unat (cursor_x (cons v p)) + 16"
proof -
  note o = screen_okD [OF assms]
  have n: "unat (cursor_y (cons v p) + 32) = unat (cursor_y (cons v p)) + 32"
    "unat (cursor_x (cons v p) + 16) = unat (cursor_x (cons v p)) + 16"
    using o(10,11,13,14) by (subst unat_plus_no_wrap; simp)+
  have c: "unat (con_width (cons v p)) = unat (xres (fb_var (fbs v fb)))"
    "unat (con_height (cons v p)) = unat (yres (fb_var (fbs v fb)))"
    by (simp_all add: o(4,5) unat_ucast_up)
  have m: "font_height (cons v p) * 2 = 32" "font_width (cons v p) * 2 = 16" by (simp_all add: o(6,7))
  show "con_height (cons v p) < cursor_y (cons v p) + font_height (cons v p) * 2 \<longleftrightarrow>
      unat (yres (fb_var (fbs v fb))) < unat (cursor_y (cons v p)) + 32"
    "con_height (cons v p) \<le> cursor_y (cons v p) + font_height (cons v p) * 2 \<longleftrightarrow>
      unat (yres (fb_var (fbs v fb))) \<le> unat (cursor_y (cons v p)) + 32"
    "con_width (cons v p) < cursor_x (cons v p) + font_width (cons v p) * 2 \<longleftrightarrow>
      unat (xres (fb_var (fbs v fb))) < unat (cursor_x (cons v p)) + 16"
    unfolding m by (simp_all only: word_less_nat_alt word_le_nat_alt n c)
qed

text \<open>The state after the glyph is drawn.\<close>

definition drawn :: "u64 \<Rightarrow> u64 \<Rightarrow> u32 \<Rightarrow> video \<Rightarrow> video" where
  "drawn p fb chr v = v\<lparr>blit_buffer := render_char (cons v p) chr (blit_buffer v),
     vram := boot_fb_imageblit (fbs v fb) (glyph_image (cons v p) (render_char (cons v p) chr (blit_buffer v))) (vram v)\<rparr>"

lemma imageblit_drawn:
  assumes "screen_ok p fb v"
  shows "imageblit_active_fb (glyph_image (cons v p) (render_char (cons v p) chr (blit_buffer v)))
     (v\<lparr>blit_buffer := render_char (cons v p) chr (blit_buffer v)\<rparr>) = Some (drawn p fb chr v)"
  using screen_okD(1-3) [OF assms]
  by (simp add: imageblit_active_fb_def on_active_fbs_def drawn_def Let_def)

lemma drawn_ok:
  assumes ok: "screen_ok p fb v"
  shows "same_but_text p fb v (drawn p fb chr v)" "screen_ok p fb (drawn p fb chr v)" "cons (drawn p fb chr v) = cons v"
    "fbs (drawn p fb chr v) = fbs v"
proof -
  show s: "same_but_text p fb v (drawn p fb chr v)"
    using same_vram(2) [of v fb "vram (drawn p fb chr v)" p "blit_buffer (drawn p fb chr v)"] glyph_blit(3) [OF ok]
    unfolding drawn_def by (cases v) simp
  show c: "cons (drawn p fb chr v) = cons v" "fbs (drawn p fb chr v) = fbs v" by (simp_all add: drawn_def)
  show "screen_ok p fb (drawn p fb chr v)"
    by (rule screen_ok_same [OF ok s]) (use screen_okD(13,14) [OF ok] in \<open>simp_all add: c\<close>)
qed

lemma write_char_ok:
  assumes ok: "screen_ok p fb v"
  obtains v' where "graphic_con_write_char p chr v = Some v'" "screen_ok p fb v'" "same_but_text p fb v v'"
proof (cases "chr = 10")
  case True
  have row: "unat (cursor_y (cons v p)) + 32 \<le> unat (yres (fb_var (fbs v fb)))"
    if "\<not> con_height (cons v p) < cursor_y (cons v p) + font_height (cons v p) * 2"
    using that unfolding cursor_numbers [OF ok] by linarith
  obtain v' where "new_line (con_height (cons v p) < cursor_y (cons v p) + font_height (cons v p) * 2) p v = Some v'"
    "screen_ok p fb v'" "same_but_text p fb v v'"
    by (rule new_line_ok [OF ok row])
  then show thesis using that True by (simp add: write_char_unfold Let_def)
next
  case False
  let ?v = "drawn p fb chr v"
  note d = drawn_ok [OF ok, of chr]
  let ?wrap = "con_width (cons v p) < cursor_x (cons v p) + font_width (cons v p) * 2"
  have run: "graphic_con_write_char p chr v =
      (if ?wrap then new_line (con_height (cons v p) \<le> cursor_y (cons v p) + font_height (cons v p) * 2) p ?v
       else Some (upd_con p (cursor_x_update (\<lambda>x. x + font_width (cons v p))) ?v))"
    using False by (simp add: write_char_unfold Let_def imageblit_drawn [OF ok])
  show thesis
  proof (cases ?wrap)
    case True
    have row: "unat (cursor_y (cons ?v p)) + 32 \<le> unat (yres (fb_var (fbs ?v fb)))"
      if "\<not> con_height (cons v p) \<le> cursor_y (cons v p) + font_height (cons v p) * 2"
      using that unfolding d(3,4) cursor_numbers [OF ok] by linarith
    obtain v' where v': "new_line (con_height (cons v p) \<le> cursor_y (cons v p) + font_height (cons v p) * 2) p ?v = Some v'"
      "screen_ok p fb v'" "same_but_text p fb ?v v'"
      by (rule new_line_ok [OF d(2) row])
    with same_but_text_trans [OF d(1) v'(3)] run True show thesis using that by simp
  next
    case False
    let ?v' = "upd_con p (cursor_x_update (\<lambda>x. x + font_width (cons v p))) ?v"
    note o = screen_okD [OF ok]
    from same_but_text_trans [OF d(1) same_upd(1)] have s: "same_but_text p fb v ?v'" .
    have "unat (cursor_x (cons v p)) + 16 \<le> unat (xres (fb_var (fbs v fb)))"
      using False by (simp only: cursor_numbers [OF ok] not_less)
    moreover have "unat (cursor_x (cons v p) + 8) = unat (cursor_x (cons v p)) + 8"
      using o(10,13) by (subst unat_plus_no_wrap) simp_all
    ultimately have "screen_ok p fb ?v'"
      using o(6,14) by (intro screen_ok_same [OF ok s]) (simp_all add: d)
    then show thesis using that [OF _ _ s] run False by simp
  qed
qed

section \<open>Text\<close>

definition console_ok :: "u64 \<Rightarrow> u64 \<Rightarrow> video \<Rightarrow> bool" where
  "console_ok p fb v \<longleftrightarrow> screen_ok p fb v \<and> con_list v = [p] \<and> con_active (cons v p) = 1 \<and>
     console_write_char (cons v p) = Some Graphic_con_write_char"

lemma console_ok_same:
  assumes "console_ok p fb v" "same_but_text p fb v v'" "screen_ok p fb v'" shows "console_ok p fb v'"
proof -
  have e: "cons v' = (cons v)(p := (cons v p)\<lparr>cursor_x := cursor_x (cons v' p), cursor_y := cursor_y (cons v' p)\<rparr>)"
    using assms(2) by (simp only: same_but_text_def)
  have "con_active (cons v' p) = con_active (cons v p)" "console_write_char (cons v' p) = console_write_char (cons v p)"
    by (subst e, simp)+
  moreover have "con_list v' = con_list v" using assms(2) by (simp only: same_but_text_def)
  ultimately show ?thesis using assms(1,3) by (simp add: console_ok_def)
qed

lemma write_console_ok:
  assumes "console_ok p fb v"
  obtains v' where "write_console chr v = Some v'" "console_ok p fb v'" "same_but_text p fb v v'"
proof -
  have ok: "screen_ok p fb v" using assms by (simp add: console_ok_def)
  from write_char_ok [OF ok, of chr] obtain v' where
    v': "graphic_con_write_char p chr v = Some v'" "screen_ok p fb v'" "same_but_text p fb v v'" .
  have "write_console chr v = Some v'" using assms v'(1) by (simp add: write_console_def console_ok_def)
  then show thesis using that console_ok_same [OF assms v'(3,2)] v'(3) by blast
qed

lemma console_output_ok:
  assumes "console_ok p fb v"
  obtains v' where "console_output ev v = Some v'" "console_ok p fb v'" "same_but_text p fb v v'"
  using assms
proof (induction ev v arbitrary: thesis rule: console_output.induct)
  case (1 v)
  then show ?case using same_but_text_refl by auto
next
  case (2 c ev v)
  from write_console_ok [OF 2(3), of "scast c"] obtain v1 where
    v1: "write_console (scast c) v = Some v1" "console_ok p fb v1" "same_but_text p fb v v1" .
  from 2(1) [OF v1(1) _ v1(2)] obtain v2 where
    v2: "console_output ev v1 = Some v2" "console_ok p fb v2" "same_but_text p fb v1 v2" by blast
  have "console_output (To_console c # ev) v = Some v2" using v1(1) v2(1) by simp
  then show ?case using v2(2) same_but_text_trans [OF v1(3) v2(3)] by (rule 2(2))
next
  case (3 a b ev v)
  show ?case by (rule 3(1)) (use 3(2,3) in simp_all)
qed

lemma boot_console_ok:
  assumes "0 < unat (frame_buffer_base parm)" "8 \<le> unat (screen_width parm)"
    "unat (screen_width parm) \<le> unat (pixels_per_scanline parm)" "32 \<le> unat (screen_height parm)"
    "unat (screen_width parm) \<le> 2 ^ 31" "unat (screen_height parm) \<le> 2 ^ 31"
    "unat (screen_height parm) * unat (pixels_per_scanline parm) \<le> 2 ^ 32"
    and "cursor_x (cons v p) = 0" "cursor_y (cons v p) = 0"
  obtains v' where "graphic_con_init p font (boot_fb_init fb parm v) = Some v'" "console_ok p fb v'" "vram v' = vram v"
    "unat (xres (fb_var (fbs v' fb))) = unat (screen_width parm)" "unat (yres (fb_var (fbs v' fb))) = unat (screen_height parm)"
proof -
  have fbb: "frame_buffer_base parm \<noteq> 0" using assms(1) by auto
  have "unat (pixels_per_scanline parm) * 32 \<le> unat (pixels_per_scanline parm) * unat (screen_height parm)"
    using assms(4) by (rule mult_left_mono) simp
  also have "\<dots> \<le> 2 ^ 32" using assms(7) by (simp only: mult.commute)
  finally have "unat (pixels_per_scanline parm) < 2 ^ 32" by simp
  then have n: "unat (ucast (screen_width parm) :: u32) = unat (screen_width parm)"
    "unat (ucast (screen_height parm) :: u32) = unat (screen_height parm)"
    "unat (ucast (pixels_per_scanline parm) :: u32) = unat (pixels_per_scanline parm)"
    using assms(5,6) by (simp_all add: unat_ucast_down)
  let ?v = "boot_fb_init fb parm v"
  have f: "fb_list ?v = [fb]" "con_list ?v = []" "cons ?v = cons v" "vram ?v = vram v"
    "fv_active (fb_var (fbs ?v fb)) = 1" "fbops (fbs ?v fb) = Some Bootfb_ops"
    "xres (fb_var (fbs ?v fb)) = ucast (screen_width parm)" "yres (fb_var (fbs ?v fb)) = ucast (screen_height parm)"
    "xres_virtual (fb_var (fbs ?v fb)) = ucast (pixels_per_scanline parm)"
    using fbb by (simp_all add: boot_fb_init_def Let_def fb_register_def console_init_def early_fb_init_def upd_fb_def)
  define v0 where "v0 = ?v"
  note f = f [folded v0_def]
  have cur: "get_current_fb v0 = Some fb" using f(1,5) by (simp add: get_current_fb_def)
  obtain v' where v': "graphic_con_init p font v0 = Some v'" by (simp add: graphic_con_init_def cur Let_def)
  have "console_ok p fb v' \<and> vram v' = vram v \<and> unat (xres (fb_var (fbs v' fb))) = unat (screen_width parm) \<and>
      unat (yres (fb_var (fbs v' fb))) = unat (screen_height parm)"
    using v' assms(2-6,8,9) assms(7) n f
    by (auto simp: graphic_con_init_def cur Let_def console_ok_def screen_ok_def console_register_def upd_con_def)
  then show thesis using that v' by (auto simp: v0_def)
qed

section \<open>Properties\<close>

lemma ucast_scast_byte: "(ucast (scast (c :: u8) :: u32) :: u8) = c"
proof (rule bit_word_eqI)
  fix n :: nat assume n: "n < LENGTH(8)"
  then show "bit (ucast (scast c :: u32) :: u8) n = bit c n"
    by (cases "n = 7") (simp_all add: bit_unsigned_iff bit_signed_iff min_def)
qed

lemma text_cell:
  assumes ok: "console_ok p fb v" and room: "unat (cursor_x (cons v p)) + 16 \<le> unat (xres (fb_var (fbs v fb)))"
    and c: "chr \<noteq> 10"
  defines "v' \<equiv> upd_con p (cursor_x_update (\<lambda>x. x + font_width (cons v p))) (drawn p fb chr v)"
  shows "write_console chr v = Some v'" "console_ok p fb v'" "same_but_text p fb v v'"
    "unat (cursor_x (cons v' p)) = unat (cursor_x (cons v p)) + 8" "cursor_y (cons v' p) = cursor_y (cons v p)"
    "vram v' = vram (drawn p fb chr v)"
proof -
  have s: "screen_ok p fb v" using ok by (simp add: console_ok_def)
  note o = screen_okD [OF s]
  note d = drawn_ok [OF s, of chr]
  have "graphic_con_write_char p chr v = Some v'"
    using c room by (simp add: write_char_unfold Let_def imageblit_drawn [OF s] cursor_numbers [OF s] v'_def)
  then show w: "write_console chr v = Some v'" using ok by (simp add: write_console_def console_ok_def)
  show "vram v' = vram (drawn p fb chr v)" by (simp add: v'_def upd_con_def)
  have "unat (cursor_x (cons v p) + 8) = unat (cursor_x (cons v p)) + 8"
    using o(10,13) by (subst unat_plus_no_wrap) simp_all
  then show x: "unat (cursor_x (cons v' p)) = unat (cursor_x (cons v p)) + 8"
    by (simp add: v'_def d o)
  show y: "cursor_y (cons v' p) = cursor_y (cons v p)" by (simp add: v'_def d)
  from same_but_text_trans [OF d(1) same_upd(1)] show t: "same_but_text p fb v v'" by (simp add: v'_def)
  have "screen_ok p fb v'" by (rule screen_ok_same [OF s t]) (use x y o room in simp_all)
  with console_ok_same [OF ok t] show "console_ok p fb v'" .
qed

text \<open>What printing the characters of one line leaves behind.\<close>

definition text_at :: "u64 \<Rightarrow> u64 \<Rightarrow> video \<Rightarrow> u8 list \<Rightarrow> video \<Rightarrow> bool" where
  "text_at p fb v cs v' \<longleftrightarrow> same_but_text p fb v v' \<and>
     unat (cursor_x (cons v' p)) = unat (cursor_x (cons v p)) + 8 * length cs \<and> cursor_y (cons v' p) = cursor_y (cons v p) \<and>
     (\<forall>k i j. k < length cs \<and> i < 16 \<and> j < 8 \<longrightarrow>
        vram v' (pixel (fbs v fb) (unat (cursor_x (cons v p)) + 8 * k + j) (unat (cursor_y (cons v p)) + i)) =
        glyph_px (cons v p) (scast (cs ! k)) i j) \<and>
     (\<forall>a. a \<notin> area (fbs v fb) (unat (cursor_x (cons v p))) (unat (cursor_y (cons v p))) (8 * length cs) 16 \<longrightarrow>
        vram v' a = vram v a)"

lemma text_atD:
  assumes "text_at p fb v cs v'"
  shows "same_but_text p fb v v'" "unat (cursor_x (cons v' p)) = unat (cursor_x (cons v p)) + 8 * length cs"
    "cursor_y (cons v' p) = cursor_y (cons v p)"
    "\<forall>k i j. k < length cs \<and> i < 16 \<and> j < 8 \<longrightarrow>
       vram v' (pixel (fbs v fb) (unat (cursor_x (cons v p)) + 8 * k + j) (unat (cursor_y (cons v p)) + i)) =
       glyph_px (cons v p) (scast (cs ! k)) i j"
    "\<forall>a. a \<notin> area (fbs v fb) (unat (cursor_x (cons v p))) (unat (cursor_y (cons v p))) (8 * length cs) 16 \<longrightarrow>
       vram v' a = vram v a"
  using assms unfolding text_at_def by fast+

lemma text_shown:
  assumes "console_ok p fb v" "10 \<notin> set cs"
    and "unat (cursor_x (cons v p)) + 8 * length cs + 8 \<le> unat (xres (fb_var (fbs v fb)))"
  shows "\<exists>v'. console_output (map To_console cs) v = Some v' \<and> text_at p fb v cs v'"
  using assms
proof (induction cs arbitrary: v)
  case Nil
  then show ?case using same_but_text_refl by (simp add: text_at_def)
next
  case (Cons c cs)
  let ?i = "fbs v fb" and ?x = "unat (cursor_x (cons v p))" and ?y = "unat (cursor_y (cons v p))" and ?n = "length cs"
  have ok: "screen_ok p fb v" using Cons.prems(1) by (simp add: console_ok_def)
  have "c \<noteq> 10" using Cons.prems(2) by auto
  then have c10: "(scast c :: u32) \<noteq> 10"
  proof (rule contrapos_nn)
    assume "(scast c :: u32) = 10"
    then have "(ucast (scast c :: u32) :: 8 word) = ucast (10 :: u32)" by simp
    then show "c = 10" by (simp only: ucast_scast_byte) simp
  qed
  have room: "?x + 16 \<le> unat (xres (fb_var ?i))" using Cons.prems(3) by simp
  define v1 where "v1 = upd_con p (cursor_x_update (\<lambda>x. x + font_width (cons v p))) (drawn p fb (scast c) v)"
  note t = text_cell [OF Cons.prems(1) room c10, folded v1_def]
  have e: "fbs v1 = fbs v" using t(3) by (simp add: same_but_text_def)
  have g: "glyph_px (cons v1 p) = glyph_px (cons v p)"
    by (rule ext)+ (simp add: glyph_px_def v1_def drawn_ok(3) [OF ok])
  have b: "i < 16 \<Longrightarrow> j < 8 \<Longrightarrow> vram v1 (pixel ?i (?x + j) (?y + i)) = glyph_px (cons v p) (scast c) i j"
    "a \<notin> area ?i ?x ?y 8 16 \<Longrightarrow> vram v1 a = vram v a" for i j a
    using glyph_blit(1,2) [OF ok] by (simp_all add: t(6) drawn_def)
  have fb: "in_fb ?i ?x ?y (8 * Suc ?n) 16"
    by (rule screen_in_fb [OF ok]) (use Cons.prems(3) screen_okD [OF ok] in simp_all)
  have n10: "10 \<notin> set cs" using Cons.prems(2) by simp
  have room1: "unat (cursor_x (cons v1 p)) + 8 * ?n + 8 \<le> unat (xres (fb_var (fbs v1 fb)))"
    using Cons.prems(3) unfolding t(4) e by simp
  obtain v' where v': "console_output (map To_console cs) v1 = Some v'" and r: "text_at p fb v1 cs v'"
    using Cons.IH [OF t(2) n10 room1] by blast
  note cells = text_atD(4) [OF r, unfolded t(4,5) e g, rule_format]
    and rest = text_atD(5) [OF r, unfolded t(4,5) e g, rule_format]
  have "text_at p fb v (c # cs) v'" unfolding text_at_def
  proof (intro conjI allI impI)
    show "same_but_text p fb v v'" using t(3) text_atD(1) [OF r] by (rule same_but_text_trans)
    show "unat (cursor_x (cons v' p)) = ?x + 8 * length (c # cs)" "cursor_y (cons v' p) = cursor_y (cons v p)"
      using text_atD(2,3) [OF r] t(4,5) by simp_all
    fix a assume "a \<notin> area ?i ?x ?y (8 * length (c # cs)) 16"
    moreover have "8 * length (c # cs) = 8 + 8 * ?n" by simp
    ultimately have a: "a \<notin> area ?i ?x ?y (8 + 8 * ?n) 16" by simp
    have "area ?i (?x + 8) ?y (8 * ?n) 16 \<subseteq> area ?i ?x ?y (8 + 8 * ?n) 16"
      by (rule area_mono) (simp_all only: add.assoc le_add1 order_refl)
    with a have "a \<notin> area ?i (?x + 8) ?y (8 * ?n) 16" by (rule contra_subsetD [rotated])
    note rest [OF this]
    also have "area ?i ?x ?y 8 16 \<subseteq> area ?i ?x ?y (8 + 8 * ?n) 16"
      by (rule area_mono) (simp_all only: add.assoc [symmetric] le_add1 order_refl)
    with a have "a \<notin> area ?i ?x ?y 8 16" by (rule contra_subsetD [rotated])
    note b(2) [OF this]
    finally show "vram v' a = vram v a" .
  next
    fix k i j :: nat assume k: "k < length (c # cs) \<and> i < 16 \<and> j < (8 :: nat)"
    show "vram v' (pixel ?i (?x + 8 * k + j) (?y + i)) = glyph_px (cons v p) (scast ((c # cs) ! k)) i j"
    proof (cases k)
      case 0
      have "pixel ?i (?x + j) (?y + i) \<notin> area ?i (?x + 8) ?y (8 * ?n) 16"
      proof
        assume "pixel ?i (?x + j) (?y + i) \<in> area ?i (?x + 8) ?y (8 * ?n) 16"
        then obtain i' j' where "pixel ?i (?x + j) (?y + i) = pixel ?i (?x + (8 + i')) (?y + j')" "i' < 8 * ?n" "j' < 16"
          by (auto simp: area_def add.assoc)
        with in_fb_pixel [OF fb, of j i "8 + i'" j'] k show False by simp
      qed
      then show ?thesis using rest b(1) k 0 by simp
    next
      case (Suc k')
      then show ?thesis using cells [of k' i j] k by (simp add: algebra_simps)
    qed
  qed
then show ?case using t(1) v' by auto
qed

text \<open>A frame buffer for the witnesses: 48 by 64 pixels.\<close>

definition test_parm :: screen_parm where
  "test_parm = \<lparr>screen_width = 64, screen_height = 48, pixels_per_scanline = 80, frame_buffer_base = 0x1000\<rparr>"

definition blank_video :: video where
  "blank_video =
     (let info = \<lparr>fb_var = \<lparr>fv_active = 0, xres = 0, yres = 0, xres_virtual = 0, yres_virtual = 0, bits_per_pixel = 0,
            red_bits = 0, green_bits = 0, blue_bits = 0, transparent_bits = 0\<rparr>,
          fbops = None, screen_base = 0, screen_size = 0\<rparr>;
          con = \<lparr>con_active = 0, con_width = 0, con_height = 0, font_color = 0, back_color = 0, font_width = 0,
            font_height = 0, cursor_x = 0, cursor_y = 0, font_data = (\<lambda>_. 0), console_write_char = None\<rparr>
      in \<lparr>vram = (\<lambda>_. 0), fb_list = [], fbs = (\<lambda>_. info), con_list = [], cons = (\<lambda>_. con), blit_buffer = (\<lambda>_. 0)\<rparr>)"

lemma test_parm_ok:
  "0 < unat (frame_buffer_base test_parm)" "8 \<le> unat (screen_width test_parm)"
  "unat (screen_width test_parm) \<le> unat (pixels_per_scanline test_parm)" "32 \<le> unat (screen_height test_parm)"
  "unat (screen_width test_parm) \<le> 2 ^ 31" "unat (screen_height test_parm) \<le> 2 ^ 31"
  "unat (screen_height test_parm) * unat (pixels_per_scanline test_parm) \<le> 2 ^ 32"
  "cursor_x (cons blank_video 9) = 0" "cursor_y (cons blank_video 9) = 0"
  by (simp_all add: test_parm_def blank_video_def Let_def)

lemma test_parm_size: "unat (screen_width test_parm) = 64" "unat (screen_height test_parm) = 48"
  by (simp_all add: test_parm_def)

definition test_info :: fb_info where
  "test_info = \<lparr>fb_var = \<lparr>fv_active = 1, xres = 90, yres = 60, xres_virtual = 100, yres_virtual = 60,
      bits_per_pixel = 32, red_bits = 8, green_bits = 8, blue_bits = 8, transparent_bits = 8\<rparr>,
      fbops = Some Bootfb_ops, screen_base = 0x1000, screen_size = 0x2000000\<rparr>"

lemma test_info_line: "line_len test_info = 100" by (simp add: test_info_def)

text \<open>C40. However regions overlap, \<^verbatim>\<open>boot_fb_copyarea\<close> is the simultaneous copy: every pixel of
  the destination gets what the source had before the call and no other cell changes. The
  rectangles lie in the frame buffer; widths and heights from \<open>2^31 + 1\<close> on would make
  the counters that run down start negative.\<close>

theorem boot_fb_copyarea_moves:
  assumes "in_fb info (unat (ca_sx r)) (unat (ca_sy r)) (unat (ca_width r)) (unat (ca_height r))"
    and "in_fb info (unat (ca_dx r)) (unat (ca_dy r)) (unat (ca_width r)) (unat (ca_height r))"
    and "unat (ca_width r) \<le> 2 ^ 31" "unat (ca_height r) \<le> 2 ^ 31"
  shows "(\<forall>i j. i < unat (ca_width r) \<and> j < unat (ca_height r) \<longrightarrow>
       boot_fb_copyarea info r m (pixel info (unat (ca_dx r) + i) (unat (ca_dy r) + j)) =
       m (pixel info (unat (ca_sx r) + i) (unat (ca_sy r) + j))) \<and>
     (\<forall>a. a \<notin> area info (unat (ca_dx r)) (unat (ca_dy r)) (unat (ca_width r)) (unat (ca_height r)) \<longrightarrow>
       boot_fb_copyarea info r m a = m a)"
  using copyarea_px [OF assms] by blast

lemma boot_fb_copyarea_moves_witness:
  "line_len test_info = 100 \<and>
   (\<forall>m. boot_fb_copyarea test_info \<lparr>ca_dx = 5, ca_dy = 7, ca_width = 20, ca_height = 10, ca_sx = 4, ca_sy = 6\<rparr> m
      (pixel test_info 6 8) = m (pixel test_info 5 7))"
proof -
  let ?r = "\<lparr>ca_dx = 5, ca_dy = 7, ca_width = 20, ca_height = 10, ca_sx = 4, ca_sy = 6\<rparr>"
  have n: "unat (ca_dx ?r) = 5" "unat (ca_dy ?r) = 7" "unat (ca_width ?r) = 20" "unat (ca_height ?r) = 10"
    "unat (ca_sx ?r) = 4" "unat (ca_sy ?r) = 6" by simp_all
  have "in_fb test_info 4 6 20 10" "in_fb test_info 5 7 20 10" by (simp_all add: in_fb_def test_info_line)
  then have "\<forall>i j. i < 20 \<and> j < 10 \<longrightarrow>
      boot_fb_copyarea test_info ?r m (pixel test_info (5 + i) (7 + j)) = m (pixel test_info (4 + i) (6 + j))" for m
    using boot_fb_copyarea_moves [of test_info ?r m] unfolding n by simp
  from this [THEN spec, of 1, THEN spec, of 1] show ?thesis using test_info_line by simp
qed

section \<open>The font table\<close>

text \<open>\<^verbatim>\<open>fontdata\<close> has 4,096 bytes, 16 for a character. \<open>font_data\<close> is all memory from its address on,
  so it has a byte for an index outside the table too. That no such byte is used for characters below 128
  is shown by changing it: another font under the console that agrees on the table gives the
  same pixels.\<close>

definition refont :: "u64 \<Rightarrow> (u64 \<Rightarrow> u8) \<Rightarrow> video \<Rightarrow> video" where
  "refont p f = upd_con p (font_data_update (\<lambda>_. f))"

lemma cursor_font:
  "cursor_x_update g (con\<lparr>font_data := f\<rparr>) = (cursor_x_update g con)\<lparr>font_data := f\<rparr>"
  "cursor_y_update g (con\<lparr>font_data := f\<rparr>) = (cursor_y_update g con)\<lparr>font_data := f\<rparr>"
  by (cases con; simp)+

lemma refont_simps [simp]:
  "vram (refont p f v) = vram v" "con_list (refont p f v) = con_list v" "fbs (refont p f v) = fbs v"
  "fb_list (refont p f v) = fb_list v" "blit_buffer (refont p f v) = blit_buffer v"
  "cons (refont p f v) p = (cons v p)\<lparr>font_data := f\<rparr>"
  "blit_buffer_update g (refont p f v) = refont p f (blit_buffer_update g v)"
  "vram_update h (refont p f v) = refont p f (vram_update h v)"
  "upd_con p (cursor_x_update k) (refont p f v) = refont p f (upd_con p (cursor_x_update k) v)"
  "upd_con p (cursor_y_update k) (refont p f v) = refont p f (upd_con p (cursor_y_update k) v)"
  by (simp_all add: refont_def upd_con_def cursor_font)

lemma refont_fbs [simp]: "on_active_fbs draw (refont p f v) = map_option (refont p f) (on_active_fbs draw v)"
  unfolding on_active_fbs_def Let_def refont_simps by auto

lemma refont_dispatch [simp]:
  "fillrect_active_fb r (refont p f v) = map_option (refont p f) (fillrect_active_fb r v)"
  "copyarea_active_fb a (refont p f v) = map_option (refont p f) (copyarea_active_fb a v)"
  "imageblit_active_fb i (refont p f v) = map_option (refont p f) (imageblit_active_fb i v)"
  by (simp_all add: fillrect_active_fb_def copyarea_active_fb_def imageblit_active_fb_def)

lemmas option_steps = bind_map_option map_option_bind comp_def

lemma refont_scroll [simp]:
  "fbcon_scroll (con\<lparr>font_data := f\<rparr>) d v = fbcon_scroll con d v"
  "fbcon_scroll con d (refont p f v) = map_option (refont p f) (fbcon_scroll con d v)"
  by (simp_all add: fbcon_scroll_def Let_def option_steps)

lemma refont_newline:
  "graphic_con_write_char p 10 (refont p f v) = map_option (refont p f) (graphic_con_write_char p 10 v)"
  by (simp add: graphic_con_write_char_def Let_def option_steps cursor_font)

lemma refont_glyph:
  assumes "chr \<noteq> 10" "render_char ((cons v p)\<lparr>font_data := f\<rparr>) chr = render_char (cons v p) chr"
  shows "graphic_con_write_char p chr (refont p f v) = map_option (refont p f) (graphic_con_write_char p chr v)"
  using assms
  by (simp add: graphic_con_write_char_def Let_def option_steps cursor_font if_distrib [where f = "map_option (refont p f)"]
      cong: if_cong)

lemma render_font:
  assumes "font_height con = 16" "unat chr < 128" "\<forall>i < 4096. f (of_nat i) = font_data con (of_nat i)"
  shows "render_char (con\<lparr>font_data := f\<rparr>) chr = render_char con chr"
proof -
  have px: "glyph_px (con\<lparr>font_data := f\<rparr>) chr i j = glyph_px con chr i j" if "i < 16" for i j
  proof -
    have "(of_nat (unat chr * 16 + i) :: u64) = ucast chr * 16 + of_nat i" by (simp add: of_nat_unat)
    moreover have "unat chr * 16 + i < 4096" using assms(2) that by simp
    ultimately have "f (ucast chr * 16 + of_nat i) = font_data con (ucast chr * 16 + of_nat i)"
      using assms(3) by (metis (no_types))
    then show ?thesis using assms(1) by (simp add: glyph_px_def)
  qed
  have n: "unat (font_height con) = 16" using assms(1) by simp
  have "fold (\<lambda>i. fold (\<lambda>j b. b(of_nat i * font_width con + of_nat j := glyph_px (con\<lparr>font_data := f\<rparr>) chr i j)) js) [0..<16] =
      fold (\<lambda>i. fold (\<lambda>j b. b(of_nat i * font_width con + of_nat j := glyph_px con chr i j)) js) [0..<16]" for js
    by (rule ext, rule fold_cong) (auto simp: px)
  then show ?thesis by (simp add: render_char_def n)
qed

lemma scast_ascii: "(c :: u8) < 128 \<Longrightarrow> unat (scast c :: u32) < 128"
proof -
  assume c: "c < 128"
  then have "unat c < 128" by (simp add: word_less_nat_alt)
  then have "uint c < 2 ^ 7" using c by (simp add: word_less_def)
  then have "sint c = uint c" unfolding sint_uint by (intro signed_take_bit_int_eq_self) (simp_all add: order_trans [OF _ uint_ge_0])
  then have "sint c = int (unat c)" by simp
  then show ?thesis using \<open>unat c < 128\<close> by (simp add: scast_eq unsigned_ucast_eq take_bit_nat_eq_self)
qed

lemma write_console_refont:
  assumes "console_ok p fb v" "(c :: u8) < 128" "\<forall>i < 4096. f (of_nat i) = font_data (cons v p) (of_nat i)"
  shows "write_console (scast c) (refont p f v) = map_option (refont p f) (write_console (scast c) v)"
proof -
  have k: "con_list v = [p]" "con_active (cons v p) = 1" "console_write_char (cons v p) = Some Graphic_con_write_char"
    "font_height (cons v p) = 16"
    using assms(1) by (simp_all add: console_ok_def screen_ok_def Let_def)
  have "graphic_con_write_char p (scast c) (refont p f v) = map_option (refont p f) (graphic_con_write_char p (scast c) v)"
  proof (cases "scast c = (10 :: u32)")
    case True
    then show ?thesis by (simp only: refont_newline)
  next
    case False
    then show ?thesis by (rule refont_glyph) (rule render_font [OF k(4) scast_ascii [OF assms(2)] assms(3)])
  qed
  then show ?thesis by (simp add: write_console_def k option_steps)
qed

lemma console_output_refont:
  assumes "console_ok p fb v" "\<forall>c. To_console c \<in> set ev \<longrightarrow> c < 128"
    and "\<forall>i < 4096. f (of_nat i) = font_data (cons v p) (of_nat i)"
  shows "console_output ev (refont p f v) = map_option (refont p f) (console_output ev v)"
  using assms
proof (induction ev v rule: console_output.induct)
  case (1 v)
  then show ?case by simp
next
  case (2 c ev v)
  obtain v1 where v1: "write_console (scast c) v = Some v1" "console_ok p fb v1" "same_but_text p fb v v1"
    by (rule write_console_ok [OF "2.prems"(1), of "scast c"])
  have e: "cons v1 = (cons v)(p := (cons v p)\<lparr>cursor_x := cursor_x (cons v1 p), cursor_y := cursor_y (cons v1 p)\<rparr>)"
    using v1(3) by (simp only: same_but_text_def)
  have "font_data (cons v1 p) = font_data (cons v p)" by (subst e) simp
  then have "console_output ev (refont p f v1) = map_option (refont p f) (console_output ev v1)"
    using "2.IH" [OF v1(1,2)] "2.prems"(2,3) by simp
  moreover have "write_console (scast c) (refont p f v) = Some (refont p f v1)"
    using write_console_refont [OF "2.prems"(1) _ "2.prems"(3), of c] "2.prems"(2) v1(1) by simp
  ultimately show ?case using v1(1) by simp
next
  case (3 a b ev v)
  then show ?case by simp
qed

lemma init_refont: "graphic_con_init p font' v = map_option (refont p font') (graphic_con_init p font v)"
proof -
  have fields: "cons_update k (con_list_update l w) = con_list_update l (cons_update k w)"
    "font_data_update a (con_width_update b c) = con_width_update b (font_data_update a c)"
    "font_data_update a (con_height_update b' c) = con_height_update b' (font_data_update a c)"
    "font_data_update a (console_write_char_update d c) = console_write_char_update d (font_data_update a c)"
    "font_data_update a (font_color_update e c) = font_color_update e (font_data_update a c)"
    "font_data_update a (back_color_update e c) = back_color_update e (font_data_update a c)" for k l w a b b' c d e
    by (cases w; cases c; simp)+
  show ?thesis
    by (simp add: graphic_con_init_def Let_def option_steps refont_def upd_con_def console_register_def fields)
qed

text \<open>C38. On a screen as the boot loader reports it, at least one character wide and two rows
  high, the console starts, and whatever characters below 128 the output loop of \<^verbatim>\<open>printk\<close> then hands
  to it, newlines, wrapping and scrolling included, every call comes back, the cursor's cell stays on the screen, no
  memory outside the screen's pixels is written, and what is drawn depends on no byte outside the 4,096 bytes of the font's
  table.\<close>

theorem console_output_safe:
  assumes "0 < unat (frame_buffer_base parm)" "8 \<le> unat (screen_width parm)"
    "unat (screen_width parm) \<le> unat (pixels_per_scanline parm)" "32 \<le> unat (screen_height parm)"
    "unat (screen_width parm) \<le> 2 ^ 31" "unat (screen_height parm) \<le> 2 ^ 31"
    "unat (screen_height parm) * unat (pixels_per_scanline parm) \<le> 2 ^ 32"
    and "cursor_x (cons v p) = 0" "cursor_y (cons v p) = 0"
    and "\<forall>c. To_console c \<in> set ev \<longrightarrow> c < 128"
  shows "\<exists>v1 v2. graphic_con_init p font (boot_fb_init fb parm v) = Some v1 \<and> console_output ev v1 = Some v2 \<and>
     unat (cursor_x (cons v2 p)) + 8 \<le> unat (screen_width parm) \<and>
     unat (cursor_y (cons v2 p)) + 16 \<le> unat (screen_height parm) \<and>
     (\<forall>a. a \<notin> area (fbs v1 fb) 0 0 (unat (screen_width parm)) (unat (screen_height parm)) \<longrightarrow> vram v2 a = vram v a) \<and>
     (\<forall>font'. (\<forall>i < 4096. font' (of_nat i) = font (of_nat i)) \<longrightarrow>
        (\<exists>w1 w2. graphic_con_init p font' (boot_fb_init fb parm v) = Some w1 \<and> console_output ev w1 = Some w2 \<and>
           vram w2 = vram v2))"
proof -
  obtain v1 where v1: "graphic_con_init p font (boot_fb_init fb parm v) = Some v1" "console_ok p fb v1" "vram v1 = vram v"
    "unat (xres (fb_var (fbs v1 fb))) = unat (screen_width parm)" "unat (yres (fb_var (fbs v1 fb))) = unat (screen_height parm)"
    by (rule boot_console_ok [OF assms(1-9), of font fb])
  obtain v2 where v2: "console_output ev v1 = Some v2" "console_ok p fb v2" "same_but_text p fb v1 v2"
    by (rule console_output_ok [OF v1(2)])
  have "fbs v2 = fbs v1" using v2(3) by (simp add: same_but_text_def)
  then have cur: "unat (cursor_x (cons v2 p)) + 8 \<le> unat (screen_width parm)"
    "unat (cursor_y (cons v2 p)) + 16 \<le> unat (screen_height parm)"
    using v2(2) screen_okD(13,14) [of p fb v2] v1(4,5) by (simp_all add: console_ok_def)
  have fd: "font_data (cons v1 p) = font"
    using v1(1) by (auto simp: graphic_con_init_def Let_def upd_con_def console_register_def bind_eq_Some_conv)
  have "\<exists>w1 w2. graphic_con_init p font' (boot_fb_init fb parm v) = Some w1 \<and> console_output ev w1 = Some w2 \<and>
      vram w2 = vram v2" if "\<forall>i < 4096. font' (of_nat i) = font (of_nat i)" for font'
    using console_output_refont [OF v1(2) assms(10), of font'] that v1(1) v2(1)
    by (simp add: init_refont [of p font' _ font] fd)
  then show ?thesis using v1 v2 cur by (auto simp: same_but_text_def)
qed

lemma console_output_safe_witness:
  "\<exists>v1 v2. graphic_con_init 9 (\<lambda>_. 0x7e) (boot_fb_init 7 test_parm blank_video) = Some v1 \<and>
     console_output ([To_console 72, To_port 0x3f8 72, To_console 105, To_console 10, To_console 10, To_console 100]) v1 = Some v2 \<and>
     unat (cursor_x (cons v2 9)) + 8 \<le> 64 \<and> unat (cursor_y (cons v2 9)) + 16 \<le> 48"
proof -
  let ?ev = "[To_console 72, To_port 0x3f8 72, To_console 105, To_console 10, To_console 10, To_console 100]"
  have "\<forall>c. To_console c \<in> set ?ev \<longrightarrow> c < 128" by auto
  from console_output_safe [OF test_parm_ok this]
  obtain v1 v2 where "graphic_con_init 9 (\<lambda>_. 0x7e) (boot_fb_init 7 test_parm blank_video) = Some v1 \<and>
      console_output ?ev v1 = Some v2 \<and>
      unat (cursor_x (cons v2 9)) + 8 \<le> unat (screen_width test_parm) \<and>
      unat (cursor_y (cons v2 9)) + 16 \<le> unat (screen_height test_parm)"
    by blast
  then show ?thesis unfolding test_parm_size by blast
qed

lemma font_bit: "j < 8 \<Longrightarrow> (w AND drop_bit j 0x80 \<noteq> 0) = bit (w :: u8) (7 - j)"
proof -
  assume j: "j < 8"
  have "drop_bit j (0x80 :: u8) = 2 ^ (7 - j)"
  proof -
    have "j = 0 \<or> j = 1 \<or> j = 2 \<or> j = 3 \<or> j = 4 \<or> j = 5 \<or> j = 6 \<or> j = 7" using j by linarith
    then show ?thesis by (elim disjE) simp_all
  qed
  then show ?thesis by (simp add: and_exp_eq_0_iff_not_bit)
qed

text \<open>C39. A line of text that fits between the cursor and the right margin appears as the font
  draws it: character \<open>k\<close> in the cell \<open>k\<close> columns right of the cursor, each pixel in the
  foreground or background colour as the bit of the font says. The cursor moves behind the text, on
  the same row, and nothing else in memory is written. A character is the sign-extended
  \<^verbatim>\<open>char\<close>.\<close>

theorem console_text_shown:
  assumes "console_ok p fb v" "10 \<notin> set cs"
    and "unat (cursor_x (cons v p)) + 8 * length cs + 8 \<le> unat (xres (fb_var (fbs v fb)))"
  shows "\<exists>v'. console_output (map To_console cs) v = Some v' \<and>
     unat (cursor_x (cons v' p)) = unat (cursor_x (cons v p)) + 8 * length cs \<and> cursor_y (cons v' p) = cursor_y (cons v p) \<and>
     (\<forall>k i j. k < length cs \<and> i < 16 \<and> j < 8 \<longrightarrow>
        vram v' (pixel (fbs v fb) (unat (cursor_x (cons v p)) + 8 * k + j) (unat (cursor_y (cons v p)) + i)) =
        (if bit (font_data (cons v p) (ucast (scast (cs ! k) :: u32) * 16 + of_nat i)) (7 - j)
         then ucast (font_color (cons v p)) else ucast (back_color (cons v p)))) \<and>
     (\<forall>a. a \<notin> area (fbs v fb) (unat (cursor_x (cons v p))) (unat (cursor_y (cons v p))) (8 * length cs) 16 \<longrightarrow>
        vram v' a = vram v a)"
proof -
  have "font_height (cons v p) = 16" using assms(1) by (simp add: console_ok_def screen_ok_def Let_def)
  then have g: "glyph_px (cons v p) chr i j =
      (if bit (font_data (cons v p) (ucast chr * 16 + of_nat i)) (7 - j)
       then ucast (font_color (cons v p)) else ucast (back_color (cons v p)))" if "j < 8" for chr i j
    using font_bit [OF that] by (simp add: glyph_px_def)
  from text_shown [OF assms] obtain v' where v': "console_output (map To_console cs) v = Some v'" "text_at p fb v cs v'"
    by blast
  show ?thesis by (intro exI [of _ v'] conjI v'(1) text_atD(2,3,5) [OF v'(2)]) (simp add: text_atD(4) [OF v'(2)] flip: g)
qed

lemma console_text_shown_witness:
  "\<exists>v v'. console_output [To_console 72] v = Some v' \<and> unat (cursor_x (cons v' 9)) = 8 \<and>
     vram v' (pixel (fbs v 7) 1 0) = 0x00ffffff \<and> vram v' (pixel (fbs v 7) 0 0) = 0"
proof -
  obtain v where v: "graphic_con_init 9 (\<lambda>_. 0x7e) (boot_fb_init 7 test_parm blank_video) = Some v" "console_ok 9 7 v"
    "unat (xres (fb_var (fbs v 7))) = unat (screen_width test_parm)"
    by (rule boot_console_ok [OF test_parm_ok, of "\<lambda>_. 0x7e" 7])
  have c: "cursor_x (cons v 9) = 0" "cursor_y (cons v 9) = 0" "font_data (cons v 9) = (\<lambda>_. 0x7e)"
    "font_color (cons v 9) = 0x00ffffff" "back_color (cons v 9) = 0" 
    using v(1) by (auto simp: graphic_con_init_def console_register_def upd_con_def boot_fb_init_def Let_def
       fb_register_def console_init_def early_fb_init_def upd_fb_def blank_video_def bind_eq_Some_conv)
  obtain v' where v': "console_output (map To_console [72]) v = Some v'" "unat (cursor_x (cons v' 9)) = 8"
    "\<forall>k i j. k < length [72 :: u8] \<and> i < 16 \<and> j < 8 \<longrightarrow> vram v' (pixel (fbs v 7) (0 + 8 * k + j) (0 + i)) =
        (if bit (0x7e :: u8) (7 - j) then ucast (0x00ffffff :: u64) else ucast (0 :: u64))"
    using console_text_shown [OF v(2), of "[72]"] unfolding v(3) c by (auto simp: test_parm_def)
  have "vram v' (pixel (fbs v 7) 1 0) = 0x00ffffff" "vram v' (pixel (fbs v 7) 0 0) = 0"
    using v'(3) [rule_format, of 0 0 1] v'(3) [rule_format, of 0 0 0] by (simp_all add: bit_iff_odd)
  then show ?thesis using v'(1,2) by auto
qed

end
