(* ===== verification/Segment.thy ===== *)
theory Segment
  imports Sched Irq Kernel_Map
begin

text \<open>
  Segment and interrupt descriptors: \<^verbatim>\<open>segment.h\<close> and the three set-up functions of
  \<^verbatim>\<open>arch/x86_64/entry.c\<close>, on a processor that decodes the tables by the Intel SDM
  (volume 3: 3.4.5, 5.8.3, 6.14.1, 7.2.3). Table entries are cells of 16 bytes by address; the
  processor reads them as raw 8-byte halves. A failed load (\<^verbatim>\<open>#GP\<close>) and a write
  through a null pointer are \<^verbatim>\<open>None\<close>.
\<close>

section \<open>Structures\<close>

record segment_desc =
  limit_0_15 :: u16
  base_0_15 :: u16
  base16_23 :: u8
  attr1 :: u8
  limit16_19_attr2 :: u8
  base24_31 :: u8
  base32_63 :: u32
  seg_reserved :: u32

record gate_desc =
  offset0_15 :: u16
  gate_selector :: u16
  ist :: u8
  gate_attr :: u8
  offset16_31 :: u16
  offset32_63 :: u32
  gate_reserved :: u32

record tss_desc =
  rsp0 :: u64
  rsp1 :: u64
  rsp2 :: u64
  ists :: "nat \<Rightarrow> u64"
  iomap_base :: u16

record gdtr =
  dt_limit :: u16
  dt_base :: u64

definition CS_C :: u8 where "CS_C = 0x9c"
definition CS_NC :: u8 where "CS_NC = 0x98"
definition DS_S_W :: u8 where "DS_S_W = 0x92"
definition S_TSS :: u8 where "S_TSS = 0x89"
definition DPL0 :: u8 where "DPL0 = 0x0"
definition DPL3 :: u8 where "DPL3 = 0x60"
definition CS_L :: u8 where "CS_L = 0x20"
definition INTR_GATE :: u8 where "INTR_GATE = 0x8E"
definition TRAP_GATE :: u8 where "TRAP_GATE = 0x8F"

definition SELECTOR_NULL_INDEX :: u16 where "SELECTOR_NULL_INDEX = 0"
definition SELECTOR_KERNEL_CODE_INDEX :: u16 where "SELECTOR_KERNEL_CODE_INDEX = 1"
definition SELECTOR_KERNEL_DATA_INDEX :: u16 where "SELECTOR_KERNEL_DATA_INDEX = 2"
definition SELECTOR_USER_CODE_INDEX :: u16 where "SELECTOR_USER_CODE_INDEX = 3"
definition SELECTOR_USER_DATA_INDEX :: u16 where "SELECTOR_USER_DATA_INDEX = 4"
definition SELECTOR_TSS_INDEX :: u16 where "SELECTOR_TSS_INDEX = 64"

definition SELECTOR_TSS :: u16 where "SELECTOR_TSS = SELECTOR_TSS_INDEX * 16"

text \<open>\<^verbatim>\<open>struct x86_cpu\<close>, without the members nothing uses.\<close>

record x86_cpu =
  gdt_base :: u64
  idt_base :: u64
  tss_ptr :: u64
  lapic_ops :: u64

definition SIZEOF_SEGMENT_DESC :: u64 where "SIZEOF_SEGMENT_DESC = 16"
definition SIZEOF_GATE_DESC :: u64 where "SIZEOF_GATE_DESC = 16"
definition SIZEOF_TSS_DESC :: u64 where "SIZEOF_TSS_DESC = 104"

text \<open>\<^verbatim>\<open>reg_read\<close> and \<^verbatim>\<open>reg_write\<close> of \<^verbatim>\<open>struct lapic\<close>: the pair is the one by MSR or the
  one by memory.\<close>

datatype apic_access = By_msr | By_mmio

record lapic =
  lapic_mode :: u64
  reg_access :: "apic_access option"

text \<open>The registers of the processor that runs, with its stores to the local APIC in their order.\<close>

datatype apic_write = Wrmsr u32 u64 | Mmio u64 u32

record x86_hw =
  h_gdtr :: gdtr
  h_idtr :: gdtr
  h_cs :: u16
  h_ds :: u16
  h_es :: u16
  h_fs :: u16
  h_gs :: u16
  h_ss :: u16
  h_tr :: u16
  h_cr0 :: u64
  h_cr3 :: u64
  h_cr4 :: u64
  h_cr8 :: u64
  h_xcr0 :: u64
  h_if :: bool
  h_msr :: "u32 \<Rightarrow> u64"
  h_apic :: "u64 \<Rightarrow> u32"
  h_writes :: "apic_write list"

text \<open>\<open>x_mem\<close> holds page-table entries, \<open>x_bytes\<close> the memory below 1MB; \<open>x_arch_data\<close> and \<open>x_kernel_stack\<close> are members of \<^verbatim>\<open>struct cpu\<close>, by its address.\<close>

record x86 =
  x_ks :: kstate
  x_mem :: "u64 \<Rightarrow> u64"
  x_bytes :: "u64 \<Rightarrow> u8"
  x_pt_phys :: u64
  x_arch_data :: "u64 \<Rightarrow> u64"
  x_kernel_stack :: "u64 \<Rightarrow> u64"
  x_arch :: "u64 \<Rightarrow> x86_cpu"
  x_lapics :: "u64 \<Rightarrow> lapic"
  x_gdt :: "u64 \<Rightarrow> segment_desc"
  x_idt :: "u64 \<Rightarrow> gate_desc"
  x_tss :: "u64 \<Rightarrow> tss_desc"
  x_hw :: x86_hw

definition upd_regs :: "(x86_hw \<Rightarrow> x86_hw) \<Rightarrow> x86 \<Rightarrow> x86" where
  "upd_regs f s = s\<lparr>x_hw := f (x_hw s)\<rparr>"

definition upd_arch :: "u64 \<Rightarrow> (x86_cpu \<Rightarrow> x86_cpu) \<Rightarrow> x86 \<Rightarrow> x86" where
  "upd_arch p f s = s\<lparr>x_arch := (x_arch s)(p := f (x_arch s p))\<rparr>"

definition x_kmalloc :: "u64 \<Rightarrow> x86 \<Rightarrow> (u64 \<times> x86) option" where
  "x_kmalloc sz s = do { (v, k) \<leftarrow> ks_kmalloc sz (x_ks s); Some (v, s\<lparr>x_ks := k\<rparr>) }"

text \<open>What the \<^verbatim>\<open>cpuid\<close> instruction answers: \<^verbatim>\<open>eax, ebx, ecx, edx\<close> for a leaf and a
  sub-leaf.\<close>

type_synonym cpuid_leaf = "u32 \<Rightarrow> u32 \<Rightarrow> u32 \<times> u32 \<times> u32 \<times> u32"

text \<open>Byte 7 of the answer is the top byte of \<^verbatim>\<open>ebx\<close>.\<close>

definition arch_cpuid :: "cpuid_leaf \<Rightarrow> u64" where
  "arch_cpuid cpuid = (let (eax, ebx, ecx, edx) = cpuid 1 0; cpu_id = (ucast (drop_bit 24 ebx) :: u8) in ucast cpu_id)"

section \<open>Writing descriptors\<close>

definition set_gate_descriptor :: "u64 \<Rightarrow> u8 \<Rightarrow> u16 \<Rightarrow> u64 \<Rightarrow> u8 \<Rightarrow> u8 \<Rightarrow> x86 \<Rightarrow> x86" where
  "set_gate_descriptor idt vector sel offset ist0 attr s = s\<lparr>x_idt := (x_idt s)(idt + SIZEOF_GATE_DESC * ucast vector :=
     \<lparr>offset0_15 = ucast offset, gate_selector = sel, ist = ist0, gate_attr = attr,
      offset16_31 = ucast (drop_bit 16 offset), offset32_63 = ucast (drop_bit 32 offset), gate_reserved = 0\<rparr>)\<rparr>"

definition set_segment_descriptor :: "u64 \<Rightarrow> u16 \<Rightarrow> u64 \<Rightarrow> u32 \<Rightarrow> u8 \<Rightarrow> u8 \<Rightarrow> x86 \<Rightarrow> x86" where
  "set_segment_descriptor gdt index base limit at1 attr2 s = s\<lparr>x_gdt := (x_gdt s)(gdt + SIZEOF_SEGMENT_DESC * ucast index :=
     \<lparr>limit_0_15 = ucast limit, base_0_15 = ucast base, base16_23 = ucast (drop_bit 16 base), attr1 = at1,
      limit16_19_attr2 = (ucast (drop_bit 16 limit) AND 0xf) OR (attr2 AND 0xf0),
      base24_31 = ucast (drop_bit 24 base), base32_63 = ucast (drop_bit 32 base), seg_reserved = 0\<rparr>)\<rparr>"

section \<open>The processor\<close>

text \<open>The two 8-byte halves of a cell, as the packed structures lie in memory.\<close>

definition lower_half :: "segment_desc \<Rightarrow> u64" where
  "lower_half d = ucast (limit_0_15 d) OR push_bit 16 (ucast (base_0_15 d)) OR push_bit 32 (ucast (base16_23 d)) OR
     push_bit 40 (ucast (attr1 d)) OR push_bit 48 (ucast (limit16_19_attr2 d)) OR push_bit 56 (ucast (base24_31 d))"

definition upper_half :: "segment_desc \<Rightarrow> u64" where
  "upper_half d = ucast (base32_63 d) OR push_bit 32 (ucast (seg_reserved d))"

definition gate_lower :: "gate_desc \<Rightarrow> u64" where
  "gate_lower g = ucast (offset0_15 g) OR push_bit 16 (ucast (gate_selector g)) OR push_bit 32 (ucast (ist g)) OR
     push_bit 40 (ucast (gate_attr g)) OR push_bit 48 (ucast (offset16_31 g))"

definition gate_upper :: "gate_desc \<Rightarrow> u64" where
  "gate_upper g = ucast (offset32_63 g) OR push_bit 32 (ucast (gate_reserved g))"

text \<open>The fields of a raw descriptor.\<close>

definition raw_access :: "u64 \<Rightarrow> u8" where "raw_access w = ucast (drop_bit 40 w)"
definition raw_flags :: "u64 \<Rightarrow> u8" where "raw_flags w = ucast (drop_bit 52 w) AND 0xf"
definition raw_limit :: "u64 \<Rightarrow> u32" where
  "raw_limit w = ucast (w AND 0xffff) OR push_bit 16 (ucast (drop_bit 48 w) AND 0xf)"
definition raw_base :: "u64 \<Rightarrow> u64" where
  "raw_base w = (drop_bit 16 w AND 0xffffff) OR push_bit 24 (drop_bit 56 w AND 0xff)"
definition raw_offset :: "u64 \<Rightarrow> u64 \<Rightarrow> u64" where
  "raw_offset lo hi = (lo AND 0xffff) OR push_bit 16 (drop_bit 48 lo AND 0xffff) OR push_bit 32 (hi AND 0xffffffff)"

text \<open>The 8 bytes a selector names: table bit 2 must be clear (there is no LDT), the index
  must lie within the limit.\<close>

definition gdt_dword :: "x86 \<Rightarrow> u16 \<Rightarrow> u64 option" where
  "gdt_dword s sel =
     (let t = h_gdtr (x_hw s); cell = x_gdt s (dt_base t + ucast (sel AND 0xfff0))
      in if bit sel 2 \<or> unat (dt_limit t) < unat (sel AND 0xfff8) + 7 then None
         else Some (if bit sel 3 then upper_half cell else lower_half cell))"

abbreviation CPL :: "x86 \<Rightarrow> u16" where
  "CPL s \<equiv> h_cs (x_hw s) AND 3"

definition desc_dpl :: "u64 \<Rightarrow> u16" where
  "desc_dpl w = ucast (drop_bit 5 (raw_access w)) AND 3"

text \<open>A far jump within the ring: present 64-bit code; conforming code of this ring or an inner
  one, other code of this ring.\<close>

definition load_cs :: "u16 \<Rightarrow> x86 \<Rightarrow> x86 option" where
  "load_cs sel s = do {
     w \<leftarrow> (if sel AND 0xfffc = 0 then None else gdt_dword s sel);
     let a = raw_access w;
     if bit a 7 \<and> bit a 4 \<and> bit a 3 \<and> bit (raw_flags w) 1 \<and> \<not> bit (raw_flags w) 2 \<and>
        (if bit a 2 then desc_dpl w \<le> CPL s else sel AND 3 \<le> CPL s \<and> desc_dpl w = CPL s)
     then Some (upd_regs (h_cs_update (\<lambda>c. (sel AND 0xfffc) OR (c AND 3))) s) else None
   }"

text \<open>\<^verbatim>\<open>ds, es, fs, gs\<close>: null, or present data or readable code that this ring may use.\<close>

definition data_ok :: "u16 \<Rightarrow> x86 \<Rightarrow> bool" where
  "data_ok sel s \<longleftrightarrow> sel AND 0xfffc = 0 \<or>
     (case gdt_dword s sel of None \<Rightarrow> False
      | Some w \<Rightarrow> let a = raw_access w in bit a 7 \<and> bit a 4 \<and> (bit a 3 \<longrightarrow> bit a 1) \<and>
          (bit a 3 \<and> bit a 2 \<or> CPL s \<le> desc_dpl w \<and> sel AND 3 \<le> desc_dpl w))"

definition load_data :: "(u16 \<Rightarrow> x86_hw \<Rightarrow> x86_hw) \<Rightarrow> u16 \<Rightarrow> x86 \<Rightarrow> x86 option" where
  "load_data put sel s = (if data_ok sel s then Some (upd_regs (put sel) s) else None)"

definition load_ds :: "u16 \<Rightarrow> x86 \<Rightarrow> x86 option" where "load_ds = load_data (\<lambda>v. h_ds_update (\<lambda>_. v))"
definition load_es :: "u16 \<Rightarrow> x86 \<Rightarrow> x86 option" where "load_es = load_data (\<lambda>v. h_es_update (\<lambda>_. v))"
definition load_fs :: "u16 \<Rightarrow> x86 \<Rightarrow> x86 option" where "load_fs = load_data (\<lambda>v. h_fs_update (\<lambda>_. v))"
definition load_gs :: "u16 \<Rightarrow> x86 \<Rightarrow> x86 option" where "load_gs = load_data (\<lambda>v. h_gs_update (\<lambda>_. v))"

text \<open>\<^verbatim>\<open>ss\<close>: writable data of exactly this ring; null only outside ring 3.\<close>

definition load_ss :: "u16 \<Rightarrow> x86 \<Rightarrow> x86 option" where
  "load_ss sel s =
     (if sel AND 0xfffc = 0 then
        if CPL s \<noteq> 3 \<and> sel AND 3 = CPL s then Some (upd_regs (h_ss_update (\<lambda>_. sel)) s) else None
      else do {
        w \<leftarrow> gdt_dword s sel;
        let a = raw_access w;
        if bit a 7 \<and> bit a 4 \<and> \<not> bit a 3 \<and> bit a 1 \<and> sel AND 3 = CPL s \<and> desc_dpl w = CPL s
        then Some (upd_regs (h_ss_update (\<lambda>_. sel)) s) else None
      })"

definition lgdt :: "gdtr \<Rightarrow> x86 \<Rightarrow> x86" where "lgdt t = upd_regs (h_gdtr_update (\<lambda>_. t))"
definition lidt :: "gdtr \<Rightarrow> x86 \<Rightarrow> x86" where "lidt t = upd_regs (h_idtr_update (\<lambda>_. t))"

text \<open>The task register: an available 64-bit TSS, 16 bytes long, which becomes busy.\<close>

definition ltr :: "u16 \<Rightarrow> x86 \<Rightarrow> x86 option" where
  "ltr sel s = do {
     lo \<leftarrow> (if sel AND 0xfffc = 0 then None else gdt_dword s sel);
     hi \<leftarrow> gdt_dword s (sel + 8);
     let cell = dt_base (h_gdtr (x_hw s)) + ucast (sel AND 0xfff0);
     if raw_access lo AND 0x9f = 0x89 \<and> raw_access hi AND 0x1f = 0 \<and> CPL s = 0
     then Some (upd_regs (h_tr_update (\<lambda>_. sel))
                 (s\<lparr>x_gdt := (x_gdt s)(cell := (x_gdt s cell)\<lparr>attr1 := attr1 (x_gdt s cell) OR 2\<rparr>)\<rparr>)) else None
   }"

text \<open>The base and the limit of the loaded task-state segment.\<close>

definition tss_segment :: "x86 \<Rightarrow> (u64 \<times> u32) option" where
  "tss_segment s = do {
     lo \<leftarrow> gdt_dword s (h_tr (x_hw s));
     hi \<leftarrow> gdt_dword s (h_tr (x_hw s) + 8);
     Some (raw_base lo OR push_bit 32 (hi AND 0xffffffff), raw_limit lo)
   }"

text \<open>The gate an interrupt or exception goes through: offset, selector, type, privilege level and
  stack of a present gate within the limit.\<close>

definition idt_gate :: "x86 \<Rightarrow> u8 \<Rightarrow> (u64 \<times> u16 \<times> u8 \<times> u8 \<times> u8) option" where
  "idt_gate s vector =
     (let t = h_idtr (x_hw s); g = x_idt s (dt_base t + 16 * ucast vector); lo = gate_lower g; a = raw_access lo
      in if unat (dt_limit t) < unat vector * 16 + 15 \<or> \<not> bit a 7 then None
         else Some (raw_offset lo (gate_upper g), ucast (drop_bit 16 lo), a AND 0x1f, drop_bit 5 a AND 3, ucast (drop_bit 32 lo) AND 7))"

section \<open>The set-up of a processor's tables\<close>

definition set_kernel_segment :: "cpuid_leaf \<Rightarrow> x86 \<Rightarrow> x86 option" where
  "set_kernel_segment cpuid s = do {
     c \<leftarrow> get_cpu (arch_cpuid cpuid) (x_ks s);
     let p = x_arch_data s c;
     (gdt, s) \<leftarrow> x_kmalloc (SIZEOF_SEGMENT_DESC * 256) s;
     let s = upd_arch p (gdt_base_update (\<lambda>_. gdt)) s;
     if gdt = 0 then None else do {
       let s = set_segment_descriptor gdt SELECTOR_NULL_INDEX 0 0 0 0 s;
       let s = set_segment_descriptor gdt SELECTOR_KERNEL_CODE_INDEX 0 0 (CS_NC OR DPL0) CS_L s;
       let s = set_segment_descriptor gdt SELECTOR_KERNEL_DATA_INDEX 0 0 (DS_S_W OR DPL0) 0 s;
       let s = set_segment_descriptor gdt SELECTOR_USER_CODE_INDEX 0 0 (CS_NC OR DPL3) CS_L s;
       let s = set_segment_descriptor gdt SELECTOR_USER_DATA_INDEX 0 0 (DS_S_W OR DPL3) 0 s;
       let s = lgdt \<lparr>dt_limit = ucast (256 * SIZEOF_SEGMENT_DESC - 1), dt_base = gdt\<rparr> s;
       s \<leftarrow> load_cs (ucast SELECTOR_KERNEL_CODE) s;
       s \<leftarrow> load_ds (ucast SELECTOR_KERNEL_DATA) s;
       s \<leftarrow> load_es (ucast SELECTOR_KERNEL_DATA) s;
       s \<leftarrow> load_fs (ucast SELECTOR_KERNEL_DATA) s;
       s \<leftarrow> load_gs (ucast SELECTOR_KERNEL_DATA) s;
       load_ss (ucast SELECTOR_KERNEL_DATA) s
     }
   }"

text \<open>The tables of entry points are assembly; they are the arguments.\<close>

definition set_intr_desc :: "(nat \<Rightarrow> u64) \<Rightarrow> (nat \<Rightarrow> u64) \<Rightarrow> cpuid_leaf \<Rightarrow> x86 \<Rightarrow> x86 option" where
  "set_intr_desc exception_table irq_table cpuid s = do {
     c \<leftarrow> get_cpu (arch_cpuid cpuid) (x_ks s);
     let p = x_arch_data s c;
     (idt, s) \<leftarrow> x_kmalloc (SIZEOF_GATE_DESC * 256) s;
     let s = upd_arch p (idt_base_update (\<lambda>_. idt)) s;
     if idt = 0 then None else do {
       let s = fold (\<lambda>i. set_gate_descriptor idt (of_nat i) (ucast SELECTOR_KERNEL_CODE) (exception_table i) 0 (TRAP_GATE OR DPL0))
                 [0..<0x20] s;
       let s = fold (\<lambda>i s. if i = 0x80 then s
                 else set_gate_descriptor idt (of_nat i) (ucast SELECTOR_KERNEL_CODE) (irq_table (i - 0x20)) 0 (INTR_GATE OR DPL0) s)
                 [0x20..<0x100] s;
       let s = set_gate_descriptor idt 0x80 (ucast SELECTOR_KERNEL_CODE) (irq_table (0x80 - 0x20)) 0 (TRAP_GATE OR DPL3) s;
       Some (lidt \<lparr>dt_limit = ucast (256 * SIZEOF_GATE_DESC - 1), dt_base = idt\<rparr> s)
     }
   }"

definition set_tss_desc :: "cpuid_leaf \<Rightarrow> x86 \<Rightarrow> x86 option" where
  "set_tss_desc cpuid s = do {
     c \<leftarrow> get_cpu (arch_cpuid cpuid) (x_ks s);
     let p = x_arch_data s c;
     (tss, s) \<leftarrow> x_kmalloc SIZEOF_TSS_DESC s;
     let s = upd_arch p (tss_ptr_update (\<lambda>_. tss)) s;
     if tss = 0 then None else do {
       let s = s\<lparr>x_tss := (x_tss s)(tss := \<lparr>rsp0 = 0, rsp1 = 0, rsp2 = 0, ists = (\<lambda>_. 0), iomap_base = 0\<rparr>)\<rparr>;
       (stack, s) \<leftarrow> x_kmalloc 0x100000 s;
       let s = s\<lparr>x_tss := (x_tss s)(tss := (x_tss s tss)\<lparr>rsp0 := stack\<rparr>)\<rparr>;
       let s = set_segment_descriptor (gdt_base (x_arch s p)) SELECTOR_TSS_INDEX tss (ucast (SIZEOF_TSS_DESC - 1)) (S_TSS OR DPL0) 0 s;
       ltr SELECTOR_TSS s
     }
   }"

section \<open>Memory for the tables\<close>

text \<open>Within a run of free pages requests of any size succeed and leave the rest of the run free.\<close>

lemma hole_in_run:
  assumes "free_run b q n" "pages_for sz < n" shows "hole b sz q"
  using assms by (auto simp: free_run_def hole_def)

lemma free_run_rest:
  assumes "free_run b q n" "m \<le> n" "q' \<le> q"
    and "\<And>p. p < 2 ^ 52 \<Longrightarrow> page_used b' p \<longleftrightarrow> page_used b p \<or> q' \<le> p \<and> p < q' + m"
  shows "free_run b' (q + m) (n - m)"
  using assms by (auto simp: free_run_def LIMIT_PAGES_def)

lemma kmalloc_large:
  assumes run: "free_run b q n" and "pages_for sz < n" "0x1000 \<le> sz"
  obtains v b' where "kmalloc sz f b = Some (v, b')" "v \<noteq> 0" "free_run b' (q + pages_for sz) (n - pages_for sz)"
    "last_alloc_offset b' = 0"
proof (cases rule: find_free_bitmap_cases [of sz "b\<lparr>last_alloc_offset := 0\<rparr>"])
  case (found q')
  have h: "hole (b\<lparr>last_alloc_offset := 0\<rparr>) sz = hole b sz" by (simp add: hole_def fun_eq_iff)
  from found(3) have le: "q' \<le> q" using hole_in_run [OF assms(1,2)] unfolding h by (meson not_le)
  from found(2) have fit: "q' + pages_for sz \<le> LIMIT_PAGES" by (simp add: hole_def)
  obtain b' where b': "set_bootmem_bitmap_area (page_addr q') sz (b\<lparr>last_alloc_offset := 0\<rparr>) = Some b'"
    "last_alloc_offset b' = 0" "\<And>p. p < 2 ^ 52 \<Longrightarrow> page_used b' p \<longleftrightarrow> page_used b p \<or> q' \<le> p \<and> p < q' + pages_for sz"
    by (rule set_area_at [OF fit, of "b\<lparr>last_alloc_offset := 0\<rparr>"]) simp
  have "kmalloc sz f b = Some (PHYS2VIRT (page_addr q'), b')"
    using found(1,4) b'(1) assms(3) by (simp add: kmalloc_def bootmem_alloc_def Let_def)
  moreover have "q' \<le> LIMIT_PAGES" using fit by simp
  then have "PHYS2VIRT (page_addr q') \<noteq> 0" using paddr_valid [of q' 0] by simp
  moreover have "free_run b' (q + pages_for sz) (n - pages_for sz)"
    by (rule free_run_rest [OF run _ le b'(3)]) (use assms(2) in simp)
  ultimately show thesis using that b'(2) by blast
next
  case full
  have "hole (b\<lparr>last_alloc_offset := 0\<rparr>) sz q" using hole_in_run [OF assms(1,2)] by (simp add: hole_def)
  with full(2) show thesis by blast
qed

lemma kmalloc_small:
  assumes run: "free_run b q n" and "2 \<le> n" "0 < sz" "sz < 0x1000" and off: "last_alloc_offset b = 0"
  obtains v b' where "kmalloc sz f b = Some (v, b')" "v \<noteq> 0" "free_run b' (q + 1) (n - 1)"
    "last_alloc_offset b' = roundup (sz mod 0x1000) 64" "unat (last_alloc_pfn b') < LIMIT_PAGES"
proof (cases rule: find_free_bitmap_cases [of "0x1000" b])
  case (found q')
  have one: "pages_for 0x1000 = 1" "pages_for sz = 1"
    using assms(3,4) pages_for_small [of sz] by (auto simp: pages_for_def)
  have "hole b 0x1000 q" by (rule hole_in_run [OF run]) (use assms(2) one in simp)
  with found(3) have le: "q' \<le> q" by (meson not_le)
  from found(2) have fit: "q' + pages_for sz \<le> LIMIT_PAGES" by (simp add: hole_def one)
  let ?b = "b\<lparr>last_alloc_offset := roundup (sz mod 0x1000) 64, last_alloc_pfn := page_addr q' div 0x1000\<rparr>"
  obtain b' where b': "set_bootmem_bitmap_area (page_addr q') sz ?b = Some b'"
    "last_alloc_offset b' = roundup (sz mod 0x1000) 64"
    "\<And>p. p < 2 ^ 52 \<Longrightarrow> page_used b' p \<longleftrightarrow> page_used b p \<or> q' \<le> p \<and> p < q' + 1"
    "last_alloc_pfn b' = page_addr q' div 0x1000"
    by (rule set_area_at [OF fit, of ?b]) (simp add: one)
  have "unat (last_alloc_pfn b') = q'" using fit unat_page_addr [of q'] by (simp add: b'(4) unat_div)
  then have pfn: "unat (last_alloc_pfn b') < LIMIT_PAGES" using fit by (simp add: one)
  have "\<not> 0x1000 \<le> sz" "\<not> 0x1000 < sz" using assms(4) by auto
  then have "kmalloc sz f b = Some (PHYS2VIRT (page_addr q'), b')"
    using found(1,4) b'(1) off by (simp add: kmalloc_def bootmem_alloc_def Let_def)
  moreover have "q' \<le> LIMIT_PAGES" using fit by simp
  then have "PHYS2VIRT (page_addr q') \<noteq> 0" using paddr_valid [of q' 0] by simp
  moreover have "free_run b' (q + 1) (n - 1)"
    by (rule free_run_rest [OF run _ le b'(3)]) (use assms(2) in simp)
  ultimately show thesis using that b'(2) pfn by blast
next
  case full
  have "hole b 0x1000 q" by (rule hole_in_run [OF run]) (use assms(2) in \<open>simp add: pages_for_def\<close>)
  with full(2) show thesis by blast
qed

section \<open>Decoding\<close>

text \<open>The processor reads back from a descriptor what \<open>set_segment_descriptor\<close> was given.\<close>

lemma segment_fields:
  fixes base :: u64 and limit :: u32 and a1 a2 :: u8
  defines "d \<equiv> \<lparr>limit_0_15 = ucast limit, base_0_15 = ucast base, base16_23 = ucast (drop_bit 16 base), attr1 = a1,
      limit16_19_attr2 = (ucast (drop_bit 16 limit) AND 0xf) OR (a2 AND 0xf0),
      base24_31 = ucast (drop_bit 24 base), base32_63 = ucast (drop_bit 32 base), seg_reserved = 0\<rparr>"
  shows "raw_access (lower_half d) = a1" "raw_flags (lower_half d) = drop_bit 4 a2"
    "raw_limit (lower_half d) = limit AND 0xfffff"
    "raw_base (lower_half d) OR push_bit 32 (upper_half d AND 0xffffffff) = base" "raw_access (upper_half d) = 0"
proof -
  have m: "(0xf :: u8) = mask 4" "(0xf0 :: u8) = push_bit 4 (mask 4)" "(0xf :: u32) = mask 4" "(0xfffff :: u32) = mask 20"
    "(0xffffff :: u64) = mask 24" "(0xff :: u64) = mask 8" "(0xffffffff :: u64) = mask 32" "(0xffff :: u64) = mask 16"
    by (simp_all add: mask_eq_exp_minus_1)
  note defs = d_def lower_half_def upper_half_def raw_access_def raw_flags_def raw_limit_def raw_base_def m
    bit_or_iff bit_and_iff bit_push_bit_iff bit_drop_bit_eq bit_unsigned_iff bit_mask_iff
  show "raw_access (lower_half d) = a1" by (rule bit_word_eqI) (simp add: defs)
  have b: "bit a1 k \<Longrightarrow> k < 8" "bit a2 k \<Longrightarrow> k < 8" for k
    using bit_imp_le_length [of a1 k] bit_imp_le_length [of a2 k] by simp_all
  show "raw_flags (lower_half d) = drop_bit 4 a2"
  proof (rule bit_word_eqI)
    fix n :: nat assume "n < LENGTH(8)"
    moreover have "\<not> bit a1 (n + 12)" "\<not> n < 4 \<Longrightarrow> \<not> bit a2 (n + 4)" using b(1) [of "n + 12"] b(2) [of "n + 4"] by auto
    ultimately show "bit (raw_flags (lower_half d)) n = bit (drop_bit 4 a2) n"
      by (cases "n < 4") (simp_all add: defs add.commute)
  qed
  show "raw_limit (lower_half d) = limit AND 0xfffff"
  proof (rule bit_word_eqI)
    fix n :: nat assume "n < LENGTH(32)"
    then have "n < 16 \<or> (\<exists>k. n = 16 + k \<and> k < 4) \<or> (\<exists>k. n = 20 + k \<and> k < 12)" by simp presburger
    then consider "n < 16" | k where "n = 16 + k" "k < 4" | k where "n = 20 + k" "k < 12" by blast
    then show "bit (raw_limit (lower_half d)) n = bit (limit AND 0xfffff) n"
    proof cases
      case (2 k)
      then show ?thesis using b(1) [of "8 + k"] by (auto simp: defs)
    qed (simp_all add: defs)
  qed
  show "raw_base (lower_half d) OR push_bit 32 (upper_half d AND 0xffffffff) = base"
  proof (rule bit_word_eqI)
    fix n :: nat assume "n < LENGTH(64)"
    then have "n < 16 \<or> (\<exists>k. n = 16 + k \<and> k < 8) \<or> (\<exists>k. n = 24 + k \<and> k < 8) \<or> (\<exists>k. n = 32 + k \<and> k < 32)"
      by simp presburger
    then consider "n < 16" | k where "n = 16 + k" "k < 8" | k where "n = 24 + k" "k < 8" | k where "n = 32 + k" "k < 32"
      by blast
    then show "bit (raw_base (lower_half d) OR push_bit 32 (upper_half d AND 0xffffffff)) n = bit base n"
    proof cases
      case (3 k)
      then show ?thesis using b(1) [of "16 + k"] b(2) [of "8 + k"] by (auto simp: defs)
    qed (simp_all add: defs)
  qed
  show "raw_access (upper_half d) = 0" by (rule bit_word_eqI) (simp add: defs)
qed

section \<open>Segments\<close>

lemmas segment_consts =
  SELECTOR_NULL_INDEX_def SELECTOR_KERNEL_CODE_INDEX_def SELECTOR_KERNEL_DATA_INDEX_def SELECTOR_USER_CODE_INDEX_def
  SELECTOR_USER_DATA_INDEX_def SELECTOR_TSS_INDEX_def SELECTOR_TSS_def SELECTOR_KERNEL_CODE_def SELECTOR_KERNEL_DATA_def
  SELECTOR_USER_CODE_def SELECTOR_USER_DATA_def CS_NC_def CS_L_def DS_S_W_def DPL0_def DPL3_def S_TSS_def
  SIZEOF_SEGMENT_DESC_def SIZEOF_GATE_DESC_def SIZEOF_TSS_DESC_def INTR_GATE_def TRAP_GATE_def

text \<open>The raw descriptors of flat 64-bit code and data, ring 0 and ring 3.\<close>

definition kernel_gdt :: "x86 \<Rightarrow> bool" where
  "kernel_gdt s \<longleftrightarrow> dt_limit (h_gdtr (x_hw s)) = 0xfff \<and>
     gdt_dword s (ucast SELECTOR_KERNEL_CODE) = Some 0x0020980000000000 \<and>
     gdt_dword s (ucast SELECTOR_KERNEL_DATA) = Some 0x0000920000000000 \<and>
     gdt_dword s (ucast SELECTOR_USER_CODE) = Some 0x0020f80000000000 \<and>
     gdt_dword s (ucast SELECTOR_USER_DATA) = Some 0x0000f20000000000"

text \<open>The table as \<open>set_kernel_segment\<close> fills it, and loaded.\<close>

definition fill_gdt :: "u64 \<Rightarrow> x86 \<Rightarrow> x86" where
  "fill_gdt gdt s = lgdt \<lparr>dt_limit = ucast (256 * SIZEOF_SEGMENT_DESC - 1), dt_base = gdt\<rparr>
     (set_segment_descriptor gdt SELECTOR_USER_DATA_INDEX 0 0 (DS_S_W OR DPL3) 0
     (set_segment_descriptor gdt SELECTOR_USER_CODE_INDEX 0 0 (CS_NC OR DPL3) CS_L
     (set_segment_descriptor gdt SELECTOR_KERNEL_DATA_INDEX 0 0 (DS_S_W OR DPL0) 0
     (set_segment_descriptor gdt SELECTOR_KERNEL_CODE_INDEX 0 0 (CS_NC OR DPL0) CS_L
     (set_segment_descriptor gdt SELECTOR_NULL_INDEX 0 0 0 0 s)))))"

lemma fill_gdt_facts: "kernel_gdt (fill_gdt gdt s)" "h_cs (x_hw (fill_gdt gdt s)) = h_cs (x_hw s)"
  by (simp_all add: kernel_gdt_def gdt_dword_def fill_gdt_def lgdt_def upd_regs_def set_segment_descriptor_def
      segment_consts lower_half_def Let_def)

lemma load_segments:
  assumes "kernel_gdt s" "CPL s = 0"
  shows "load_cs (ucast SELECTOR_KERNEL_CODE) s = Some (upd_regs (h_cs_update (\<lambda>_. 16)) s)"
    "data_ok (ucast SELECTOR_KERNEL_DATA) s"
    "load_ss (ucast SELECTOR_KERNEL_DATA) s = Some (upd_regs (h_ss_update (\<lambda>_. 32)) s)"
proof -
  have w: "bit (raw_access 0x0020980000000000) 7" "bit (raw_access 0x0020980000000000) 4"
    "bit (raw_access 0x0020980000000000) 3" "\<not> bit (raw_access 0x0020980000000000) 2"
    "bit (raw_flags 0x0020980000000000) 1" "\<not> bit (raw_flags 0x0020980000000000) 2" "desc_dpl 0x0020980000000000 = 0"
    "bit (raw_access 0x0000920000000000) 7" "bit (raw_access 0x0000920000000000) 4"
    "\<not> bit (raw_access 0x0000920000000000) 3" "bit (raw_access 0x0000920000000000) 1" "desc_dpl 0x0000920000000000 = 0"
    by (simp_all add: raw_access_def raw_flags_def desc_dpl_def bit_iff_odd)
  have c: "gdt_dword s 16 = Some 0x0020980000000000" "gdt_dword s 32 = Some 0x0000920000000000"
    using assms(1) by (simp_all add: kernel_gdt_def SELECTOR_KERNEL_CODE_def SELECTOR_KERNEL_DATA_def)
  have e: "h_cs_update (\<lambda>c. 16 OR (c AND 3)) (x_hw s) = h_cs_update (\<lambda>_. 16) (x_hw s)"
    using assms(2) by (cases "x_hw s") simp
  show "load_cs (ucast SELECTOR_KERNEL_CODE) s = Some (upd_regs (h_cs_update (\<lambda>_. 16)) s)"
    using w assms(2) by (simp add: load_cs_def SELECTOR_KERNEL_CODE_def c Let_def upd_regs_def e)
  show "data_ok (ucast SELECTOR_KERNEL_DATA) s"
    using w assms(2) by (simp add: data_ok_def SELECTOR_KERNEL_DATA_def c Let_def)
  show "load_ss (ucast SELECTOR_KERNEL_DATA) s = Some (upd_regs (h_ss_update (\<lambda>_. 32)) s)"
    using w assms(2) by (simp add: load_ss_def SELECTOR_KERNEL_DATA_def c Let_def)
qed

lemma gdt_regs [simp]:
  assumes "h_gdtr (f (x_hw s)) = h_gdtr (x_hw s)"
  shows "gdt_dword (upd_regs f s) sel = gdt_dword s sel" "kernel_gdt (upd_regs f s) = kernel_gdt s"
proof -
  show "gdt_dword (upd_regs f s) sel = gdt_dword s sel" for sel
    by (simp add: gdt_dword_def upd_regs_def assms)
  then show "kernel_gdt (upd_regs f s) = kernel_gdt s" by (simp add: kernel_gdt_def) (simp add: upd_regs_def assms)
qed

lemma upd_regs_simps [simp]:
  "x_hw (upd_regs f s) = f (x_hw s)" "x_ks (upd_regs f s) = x_ks s" "x_arch (upd_regs f s) = x_arch s"
  "x_arch_data (upd_regs f s) = x_arch_data s" "x_gdt (upd_regs f s) = x_gdt s" "x_idt (upd_regs f s) = x_idt s"
  "x_tss (upd_regs f s) = x_tss s"
  by (simp_all add: upd_regs_def)

lemma fill_gdt_same:
  "x_ks (fill_gdt g s) = x_ks s" "x_arch (fill_gdt g s) = x_arch s" "x_arch_data (fill_gdt g s) = x_arch_data s"
  "dt_base (h_gdtr (x_hw (fill_gdt g s))) = g"
  by (simp_all add: fill_gdt_def lgdt_def set_segment_descriptor_def)

lemma set_kernel_segment_result:
  assumes "get_cpu (arch_cpuid cpuid) (x_ks s) = Some c" "ks_kmalloc 4096 (x_ks s) = Some (g, k)" "g \<noteq> 0" "CPL s = 0"
  obtains s' where "set_kernel_segment cpuid s = Some s'" "kernel_gdt s'"
    "h_cs (x_hw s') = 16" "h_ss (x_hw s') = 32" "h_ds (x_hw s') = 32" "h_es (x_hw s') = 32" "h_fs (x_hw s') = 32" "h_gs (x_hw s') = 32"
    "dt_base (h_gdtr (x_hw s')) = g" "gdt_base (x_arch s' (x_arch_data s c)) = g" "x_ks s' = k" "x_arch_data s' = x_arch_data s"
proof -
  define s1 where s1: "s1 = s\<lparr>x_ks := k\<rparr>"
  define f where "f = fill_gdt g (upd_arch (x_arch_data s c) (gdt_base_update (\<lambda>_. g)) s1)"
  have gdt: "kernel_gdt f" and cpl: "CPL f = 0" and at: "gdt_base (x_arch f (x_arch_data s c)) = g" "dt_base (h_gdtr (x_hw f)) = g"
    "x_ks f = k" "x_arch_data f = x_arch_data s"
    using assms(4) by (simp_all add: f_def fill_gdt_facts fill_gdt_same upd_arch_def s1)
  note l = load_segments(2,3)
  have run: "set_kernel_segment cpuid s = do {
       s \<leftarrow> load_cs (ucast SELECTOR_KERNEL_CODE) f;
       s \<leftarrow> load_ds (ucast SELECTOR_KERNEL_DATA) s;
       s \<leftarrow> load_es (ucast SELECTOR_KERNEL_DATA) s;
       s \<leftarrow> load_fs (ucast SELECTOR_KERNEL_DATA) s;
       s \<leftarrow> load_gs (ucast SELECTOR_KERNEL_DATA) s;
       load_ss (ucast SELECTOR_KERNEL_DATA) s }"
    using assms(1-3) by (simp add: set_kernel_segment_def x_kmalloc_def s1 SIZEOF_SEGMENT_DESC_def f_def fill_gdt_def Let_def)
  let ?d = "ucast SELECTOR_KERNEL_DATA :: u16"
  let ?cs = "upd_regs (h_cs_update (\<lambda>_. 16)) f"
  let ?ds = "upd_regs (h_ds_update (\<lambda>_. ?d)) ?cs"
  let ?es = "upd_regs (h_es_update (\<lambda>_. ?d)) ?ds"
  let ?fs = "upd_regs (h_fs_update (\<lambda>_. ?d)) ?es"
  let ?gs = "upd_regs (h_gs_update (\<lambda>_. ?d)) ?fs"
  let ?ss = "upd_regs (h_ss_update (\<lambda>_. 32)) ?gs"
  have "load_ds ?d ?cs = Some ?ds" "load_es ?d ?ds = Some ?es" "load_fs ?d ?es = Some ?fs" "load_gs ?d ?fs = Some ?gs"
    "load_ss ?d ?gs = Some ?ss"
    unfolding load_ds_def load_es_def load_fs_def load_gs_def load_data_def using gdt by (simp_all add: l)
  then have "set_kernel_segment cpuid s = Some ?ss" using run load_segments(1) [OF gdt cpl] by simp
  then show thesis by (rule that) (simp_all add: gdt at SELECTOR_KERNEL_DATA_def)
qed

section \<open>The task-state segment\<close>

lemma set_tss_desc_result:
  assumes "get_cpu (arch_cpuid cpuid) (x_ks s) = Some c"
    and k: "ks_kmalloc 104 (x_ks s) = Some (t, k1)" "t \<noteq> 0" "ks_kmalloc 0x100000 k1 = Some (st, k2)"
    and gdt: "kernel_gdt s" "dt_base (h_gdtr (x_hw s)) = gdt_base (x_arch s (x_arch_data s c))" and cpl: "CPL s = 0"
  obtains s' where "set_tss_desc cpuid s = Some s'" "h_tr (x_hw s') = SELECTOR_TSS" "tss_segment s' = Some (t, 103)"
    "rsp0 (x_tss s' t) = st" "kernel_gdt s'" "x_ks s' = k2" "x_arch_data s' = x_arch_data s"
    "h_cs (x_hw s') = h_cs (x_hw s)" "h_ss (x_hw s') = h_ss (x_hw s)"
proof -
  let ?p = "x_arch_data s c"
  define g where "g = gdt_base (x_arch s ?p)"
  define d where "d = \<lparr>limit_0_15 = ucast (103 :: u32), base_0_15 = ucast t, base16_23 = ucast (drop_bit 16 t), attr1 = (0x89 :: u8),
      limit16_19_attr2 = (ucast (drop_bit 16 (103 :: u32)) AND 0xf) OR ((0 :: u8) AND 0xf0),
      base24_31 = ucast (drop_bit 24 t), base32_63 = ucast (drop_bit 32 t), seg_reserved = 0\<rparr>"
  note lo = segment_fields [of "103" t "0x89" 0, folded d_def]
  have busy: "d\<lparr>attr1 := 0x8b\<rparr> = \<lparr>limit_0_15 = ucast (103 :: u32), base_0_15 = ucast t, base16_23 = ucast (drop_bit 16 t), attr1 = (0x8b :: u8),
      limit16_19_attr2 = (ucast (drop_bit 16 (103 :: u32)) AND 0xf) OR ((0 :: u8) AND 0xf0),
      base24_31 = ucast (drop_bit 24 t), base32_63 = ucast (drop_bit 32 t), seg_reserved = 0\<rparr>"
    by (simp add: d_def)
  note lo2 = segment_fields [of "103" t "0x8b" 0, folded busy]
  define s1 where "s1 = (upd_arch ?p (tss_ptr_update (\<lambda>_. t)) (s\<lparr>x_ks := k1\<rparr>))\<lparr>x_ks := k2,
      x_tss := (x_tss s)(t := \<lparr>rsp0 = st, rsp1 = 0, rsp2 = 0, ists = (\<lambda>_. 0), iomap_base = 0\<rparr>),
      x_gdt := (x_gdt s)(g + 1024 := d)\<rparr>"
  have base: "gdt_base (x_arch (upd_arch ?p (tss_ptr_update (\<lambda>_. t)) (s\<lparr>x_ks := k1\<rparr>)) ?p) = g"
    by (simp add: upd_arch_def g_def)
  have run: "set_tss_desc cpuid s = ltr SELECTOR_TSS s1"
    using assms(1) k(2)
    by (simp add: set_tss_desc_def x_kmalloc_def k(1,3) Let_def s1_def d_def set_segment_descriptor_def segment_consts upd_arch_def g_def)
  have hw: "x_hw s1 = x_hw s" "dt_base (h_gdtr (x_hw s)) = g" "dt_limit (h_gdtr (x_hw s)) = 0xfff" "x_gdt s1 = (x_gdt s)(g + 1024 := d)"
    using gdt by (simp_all add: s1_def upd_arch_def g_def kernel_gdt_def)
  have dw: "gdt_dword s1 1024 = Some (lower_half d)" "gdt_dword s1 1032 = Some (upper_half d)"
    by (simp_all add: gdt_dword_def hw bit_iff_odd Let_def)
  define s' where "s' = upd_regs (h_tr_update (\<lambda>_. 1024)) (s1\<lparr>x_gdt := (x_gdt s1)(g + 1024 := d\<lparr>attr1 := 0x8b\<rparr>)\<rparr>)"
  have "d\<lparr>attr1 := attr1 d OR 2\<rparr> = d\<lparr>attr1 := 0x8b\<rparr>" by (simp add: d_def)
  then have "ltr 1024 s1 = Some s'"
    using cpl by (simp add: ltr_def dw lo hw s'_def Let_def)
  then have r: "set_tss_desc cpuid s = Some s'" by (simp add: run SELECTOR_TSS_def SELECTOR_TSS_INDEX_def)
  have "gdt_dword s' 1024 = Some (lower_half (d\<lparr>attr1 := 0x8b\<rparr>))" "gdt_dword s' 1032 = Some (upper_half (d\<lparr>attr1 := 0x8b\<rparr>))"
    by (simp_all add: gdt_dword_def s'_def hw bit_iff_odd Let_def)
  then have "tss_segment s' = Some (t, 103)"
    using lo2 by (simp add: tss_segment_def s'_def)
  moreover have "kernel_gdt s'"
    using gdt(1) by (simp add: kernel_gdt_def gdt_dword_def s'_def hw segment_consts Let_def)
  ultimately show thesis using that [OF r] by (simp add: s'_def s1_def upd_arch_def SELECTOR_TSS_def SELECTOR_TSS_INDEX_def)
qed

section \<open>Gates\<close>

definition make_gate :: "u16 \<Rightarrow> u64 \<Rightarrow> u8 \<Rightarrow> u8 \<Rightarrow> gate_desc" where
  "make_gate sel offset ist0 attr = \<lparr>offset0_15 = ucast offset, gate_selector = sel, ist = ist0, gate_attr = attr,
      offset16_31 = ucast (drop_bit 16 offset), offset32_63 = ucast (drop_bit 32 offset), gate_reserved = 0\<rparr>"

lemma gate_fields:
  fixes sel :: u16 and offset :: u64 and ist0 attr :: u8
  defines "g \<equiv> make_gate sel offset ist0 attr"
  shows "raw_offset (gate_lower g) (gate_upper g) = offset" "ucast (drop_bit 16 (gate_lower g)) = sel"
    "raw_access (gate_lower g) = attr" "ucast (drop_bit 32 (gate_lower g)) = ist0"
proof -
  have m: "(0xffffffff :: u64) = mask 32" "(0xffff :: u64) = mask 16" by (simp_all add: mask_eq_exp_minus_1)
  note defs = g_def make_gate_def gate_lower_def gate_upper_def raw_offset_def raw_access_def m
    bit_or_iff bit_and_iff bit_push_bit_iff bit_drop_bit_eq bit_unsigned_iff bit_mask_iff
  have b: "bit sel k \<Longrightarrow> k < 16" "bit ist0 k \<Longrightarrow> k < 8" "bit attr k \<Longrightarrow> k < 8" for k
    using bit_imp_le_length [of sel k] bit_imp_le_length [of ist0 k] bit_imp_le_length [of attr k] by simp_all
  show "raw_offset (gate_lower g) (gate_upper g) = offset"
  proof (rule bit_word_eqI)
    fix n :: nat assume "n < LENGTH(64)"
    then have "n < 16 \<or> (\<exists>k. n = 16 + k \<and> k < 16) \<or> (\<exists>k. n = 32 + k \<and> k < 32)" by simp presburger
    then consider "n < 16" | k where "n = 16 + k" "k < 16" | k where "n = 32 + k" "k < 32" by blast
    then show "bit (raw_offset (gate_lower g) (gate_upper g)) n = bit offset n"
    proof cases
      case (2 k)
      then show ?thesis using b(2) [of "16 + k"] b(1) [of "32 + k"] b(3) [of "8 + k"] by (auto simp: defs)
    qed (simp_all add: defs)
  qed
  show "ucast (drop_bit 16 (gate_lower g)) = sel"
    by (rule bit_word_eqI) (simp add: defs)
  show "raw_access (gate_lower g) = attr"
  proof (rule bit_word_eqI)
    fix n :: nat assume "n < LENGTH(8)"
    then show "bit (raw_access (gate_lower g)) n = bit attr n"
      using b(1) [of "24 + n"] b(2) [of "8 + n"] by (auto simp: defs)
  qed
  show "ucast (drop_bit 32 (gate_lower g)) = ist0"
  proof (rule bit_word_eqI)
    fix n :: nat assume "n < LENGTH(8)"
    then show "bit (ucast (drop_bit 32 (gate_lower g)) :: u8) n = bit ist0 n"
      using b(1) [of "16 + n"] by (auto simp: defs)
  qed
qed

lemma gate_addr_inject:
  fixes idt :: u64
  assumes "i < 256" "j < 256"
  shows "idt + 16 * ucast (of_nat i :: u8) = idt + 16 * of_nat j \<longleftrightarrow> i = j"
proof -
  have u: "unat (16 * of_nat k :: u64) = 16 * k" if "k < 256" for k
    using that by (simp add: unat_word_ariths unsigned_of_nat take_bit_nat_eq_self)
  have u8: "(ucast (of_nat i :: u8) :: u64) = of_nat i"
    using assms(1) by (simp add: word_unat_eq_iff unsigned_ucast_eq unsigned_of_nat take_bit_nat_eq_self)
  have "idt + 16 * ucast (of_nat i :: u8) = idt + 16 * of_nat j \<longleftrightarrow> (16 * of_nat i :: u64) = 16 * of_nat j"
    unfolding u8 by (rule add_left_cancel)
  also have "\<dots> \<longleftrightarrow> 16 * i = 16 * j" using u assms by (metis word_unat_eq_iff)
  finally show ?thesis by simp
qed

lemma gate_step:
  assumes "i < 256" "j < 256"
  shows "x_idt (set_gate_descriptor idt (of_nat i) sel offset 0 attr s) (idt + 16 * of_nat j) =
     (if i = j then make_gate sel offset 0 attr else x_idt s (idt + 16 * of_nat j))"
proof -
  have "x_idt (set_gate_descriptor idt (of_nat i) sel offset 0 attr s) =
      (x_idt s)(idt + 16 * ucast (of_nat i :: u8) := make_gate sel offset 0 attr)"
    by (simp add: set_gate_descriptor_def SIZEOF_GATE_DESC_def make_gate_def)
  then show ?thesis using gate_addr_inject [OF assms, of idt] by (simp only: fun_upd_apply eq_commute)
qed

text \<open>The gates a loop writes.\<close>

lemma fold_gates:
  fixes idt :: u64 and sel :: u16 and attr :: u8 and f :: "nat \<Rightarrow> u64" and P :: "nat \<Rightarrow> bool" and s :: x86
  assumes "\<forall>i \<in> set ns. i < 256" "distinct ns" "j < 256"
  defines "t \<equiv> fold (\<lambda>i s. if P i then s else set_gate_descriptor idt (of_nat i) sel (f i) 0 attr s) ns s"
  shows "x_idt t (idt + 16 * of_nat j) = (if j \<in> set ns \<and> \<not> P j then make_gate sel (f j) 0 attr else x_idt s (idt + 16 * of_nat j))"
    "x_hw t = x_hw s" "x_ks t = x_ks s" "x_arch t = x_arch s" "x_arch_data t = x_arch_data s" "x_gdt t = x_gdt s" "x_tss t = x_tss s"
proof -
  let ?r = "\<lambda>ns s. fold (\<lambda>i s. if P i then s else set_gate_descriptor idt (of_nat i) sel (f i) 0 attr s) ns s"
  have "x_idt (?r ns s) (idt + 16 * of_nat j) =
      (if j \<in> set ns \<and> \<not> P j then make_gate sel (f j) 0 attr else x_idt s (idt + 16 * of_nat j))" for s
    using assms(1,2)
  proof (induction ns arbitrary: s)
    case (Cons i ns)
    then have i: "i < 256" by simp
    note step = gate_step [OF _ assms(3)]
    have h: "\<forall>i \<in> set ns. i < 256" "distinct ns" "i \<notin> set ns" using Cons.prems by auto
    show ?case using h(3) i assms(3) by (cases "P i"; cases "i = j") (simp_all add: Cons.IH [OF h(1,2)] step del: fun_upd_apply)
  qed simp
  then show "x_idt t (idt + 16 * of_nat j) =
      (if j \<in> set ns \<and> \<not> P j then make_gate sel (f j) 0 attr else x_idt s (idt + 16 * of_nat j))"
    by (simp only: t_def)
  have "x_hw (?r ns s) = x_hw s \<and> x_ks (?r ns s) = x_ks s \<and> x_arch (?r ns s) = x_arch s \<and>
      x_arch_data (?r ns s) = x_arch_data s \<and> x_gdt (?r ns s) = x_gdt s \<and> x_tss (?r ns s) = x_tss s" for s
    by (induction ns arbitrary: s) (simp_all add: set_gate_descriptor_def)
  then show "x_hw t = x_hw s" "x_ks t = x_ks s" "x_arch t = x_arch s" "x_arch_data t = x_arch_data s" "x_gdt t = x_gdt s" "x_tss t = x_tss s"
    by (simp_all add: t_def)
qed

lemma set_intr_desc_result:
  assumes "get_cpu (arch_cpuid cpuid) (x_ks s) = Some c" "ks_kmalloc 4096 (x_ks s) = Some (p, k)" "p \<noteq> 0"
  obtains s' where "set_intr_desc et it cpuid s = Some s'" "dt_base (h_idtr (x_hw s')) = p" "dt_limit (h_idtr (x_hw s')) = 0xfff"
    "\<And>j. j < 256 \<Longrightarrow> x_idt s' (p + 16 * of_nat j) =
        (if j < 32 then make_gate (ucast SELECTOR_KERNEL_CODE) (et j) 0 TRAP_GATE
         else make_gate (ucast SELECTOR_KERNEL_CODE) (it (j - 32)) 0 (if j = 0x80 then TRAP_GATE OR DPL3 else INTR_GATE))"
    "x_ks s' = k" "x_arch_data s' = x_arch_data s" "x_gdt s' = x_gdt s" "x_tss s' = x_tss s"
    "h_gdtr (x_hw s') = h_gdtr (x_hw s)" "h_cs (x_hw s') = h_cs (x_hw s)" "h_tr (x_hw s') = h_tr (x_hw s)"
    "h_ss (x_hw s') = h_ss (x_hw s)"
proof -
  let ?sel = "ucast SELECTOR_KERNEL_CODE :: u16"
  define s1 where "s1 = upd_arch (x_arch_data s c) (idt_base_update (\<lambda>_. p)) (s\<lparr>x_ks := k\<rparr>)"
  define s2 where "s2 = fold (\<lambda>i s. if False then s else set_gate_descriptor p (of_nat i) ?sel (et i) 0 TRAP_GATE s) [0..<0x20] s1"
  define s3 where "s3 = fold (\<lambda>i s. if i = 0x80 then s else set_gate_descriptor p (of_nat i) ?sel (it (i - 0x20)) 0 INTR_GATE s) [0x20..<0x100] s2"
  define s4 where "s4 = set_gate_descriptor p 0x80 ?sel (it (0x80 - 0x20)) 0 (TRAP_GATE OR DPL3) s3"
  have d: "TRAP_GATE OR DPL0 = TRAP_GATE" "INTR_GATE OR DPL0 = INTR_GATE" by (simp_all add: DPL0_def)
  have l: "ucast (256 * SIZEOF_GATE_DESC - 1) = (0xfff :: u16)" "SIZEOF_GATE_DESC * 256 = 4096"
    by (simp_all add: SIZEOF_GATE_DESC_def)
  have run: "set_intr_desc et it cpuid s = Some (lidt \<lparr>dt_limit = 0xfff, dt_base = p\<rparr> s4)"
    using assms unfolding set_intr_desc_def x_kmalloc_def d l s1_def s2_def s3_def s4_def Let_def
    by (simp del: upt_rec_numeral upt_Suc)
  have "\<forall>i \<in> set [0..<0x20]. i < (256 :: nat)" "distinct [0..<0x20]" by auto
  note r2 = fold_gates [OF this, of _ "\<lambda>_. False" p ?sel et TRAP_GATE s1, folded s2_def]
  have "\<forall>i \<in> set [0x20..<0x100]. i < (256 :: nat)" "distinct [0x20..<0x100]" by auto
  note r3 = fold_gates [OF this, of _ "\<lambda>i. i = 0x80" p ?sel "\<lambda>i. it (i - 0x20)" INTR_GATE s2, folded s3_def]
  show thesis
  proof (rule that [OF run])
    fix j :: nat assume j: "j < 256"
    have "p + 16 * ucast (0x80 :: u8) = p + 16 * of_nat j \<longleftrightarrow> 0x80 = j"
      using gate_addr_inject [of "0x80" j p] j by simp
    then have "x_idt s4 (p + 16 * of_nat j) = (if j = 0x80 then make_gate ?sel (it (0x80 - 0x20)) 0 (TRAP_GATE OR DPL3)
        else x_idt s3 (p + 16 * of_nat j))"
      by (auto simp: s4_def set_gate_descriptor_def SIZEOF_GATE_DESC_def make_gate_def)
    then show "x_idt (lidt \<lparr>dt_limit = 0xfff, dt_base = p\<rparr> s4) (p + 16 * of_nat j) =
        (if j < 32 then make_gate ?sel (et j) 0 TRAP_GATE
         else make_gate ?sel (it (j - 32)) 0 (if j = 0x80 then TRAP_GATE OR DPL3 else INTR_GATE))"
      using j r2(1) [OF j, unfolded set_upt atLeastLessThan_iff] r3(1) [OF j, unfolded set_upt atLeastLessThan_iff]
      by (simp add: lidt_def)
  qed (simp_all add: lidt_def s4_def set_gate_descriptor_def r3(2-7) [of 0] r2(2-7) [of 0], simp_all add: s1_def upd_arch_def)
qed

section \<open>A processor's tables\<close>

text \<open>The calls of \<^verbatim>\<open>x86_cpu_init\<close> that set up the tables, in their order.\<close>

definition setup_tables :: "(nat \<Rightarrow> u64) \<Rightarrow> (nat \<Rightarrow> u64) \<Rightarrow> cpuid_leaf \<Rightarrow> x86 \<Rightarrow> x86 option" where
  "setup_tables et it cpuid s = do {
     s \<leftarrow> set_kernel_segment cpuid s;
     s \<leftarrow> set_tss_desc cpuid s;
     set_intr_desc et it cpuid s
   }"

lemma ks_kmalloc_get_cpu:
  assumes "ks_kmalloc sz k = Some (v, k')" shows "get_cpu n k' = get_cpu n k"
  using assms by (auto simp: ks_kmalloc_def bind_eq_Some_conv get_cpu_def)

lemma gdt_dword_same:
  "x_gdt s' = x_gdt s \<Longrightarrow> h_gdtr (x_hw s') = h_gdtr (x_hw s) \<Longrightarrow> gdt_dword s' sel = gdt_dword s sel"
  by (simp add: gdt_dword_def)

lemma setup_tables_result:
  assumes "get_cpu (arch_cpuid cpuid) (x_ks s) = Some c" "CPL s = 0"
    and k: "ks_kmalloc 4096 (x_ks s) = Some (g, k1)" "ks_kmalloc 104 k1 = Some (t, k2)" "ks_kmalloc 0x100000 k2 = Some (st, k3)"
      "ks_kmalloc 4096 k3 = Some (p, k4)" "g \<noteq> 0" "t \<noteq> 0" "p \<noteq> 0"
  obtains s' where "setup_tables et it cpuid s = Some s'" "kernel_gdt s'" "h_cs (x_hw s') = 16" "h_ss (x_hw s') = 32"
    "tss_segment s' = Some (t, 103)" "rsp0 (x_tss s' t) = st" "x_ks s' = k4" "x_arch_data s' = x_arch_data s"
    "\<And>v :: u8. idt_gate s' v = Some (if unat v < 32 then et (unat v) else it (unat v - 32), 16,
        if unat v < 32 \<or> v = 0x80 then 15 else 14, if v = 0x80 then 3 else 0, 0)"
proof -
  obtain s1 where s1: "set_kernel_segment cpuid s = Some s1" "kernel_gdt s1" "h_cs (x_hw s1) = 16" "h_ss (x_hw s1) = 32"
    "dt_base (h_gdtr (x_hw s1)) = g" "gdt_base (x_arch s1 (x_arch_data s c)) = g" "x_ks s1 = k1" "x_arch_data s1 = x_arch_data s"
    by (rule set_kernel_segment_result [OF assms(1) k(1,5) assms(2)])
  have c1: "get_cpu (arch_cpuid cpuid) (x_ks s1) = Some c" using assms(1) ks_kmalloc_get_cpu [OF k(1)] s1(7) by simp
  have k1: "ks_kmalloc 104 (x_ks s1) = Some (t, k2)" using k(2) s1(7) by simp
  have b1: "dt_base (h_gdtr (x_hw s1)) = gdt_base (x_arch s1 (x_arch_data s1 c))" "CPL s1 = 0" using s1 by simp_all
  obtain s2 where s2: "set_tss_desc cpuid s1 = Some s2" "tss_segment s2 = Some (t, 103)" "rsp0 (x_tss s2 t) = st" "kernel_gdt s2"
    "x_ks s2 = k3" "x_arch_data s2 = x_arch_data s1" "h_cs (x_hw s2) = h_cs (x_hw s1)" "h_ss (x_hw s2) = h_ss (x_hw s1)"
    by (rule set_tss_desc_result [OF c1 k1 k(6,3) s1(2) b1])
  have c2: "get_cpu (arch_cpuid cpuid) (x_ks s2) = Some c" using assms(1) k(1-3) [THEN ks_kmalloc_get_cpu] s2(5) by simp
  have k2: "ks_kmalloc 4096 (x_ks s2) = Some (p, k4)" using k(4) s2(5) by simp
  obtain s3 where s3: "set_intr_desc et it cpuid s2 = Some s3" "dt_base (h_idtr (x_hw s3)) = p" "dt_limit (h_idtr (x_hw s3)) = 0xfff"
    "\<And>j. j < 256 \<Longrightarrow> x_idt s3 (p + 16 * of_nat j) =
        (if j < 32 then make_gate (ucast SELECTOR_KERNEL_CODE) (et j) 0 TRAP_GATE
         else make_gate (ucast SELECTOR_KERNEL_CODE) (it (j - 32)) 0 (if j = 0x80 then TRAP_GATE OR DPL3 else INTR_GATE))"
    "x_ks s3 = k4" "x_arch_data s3 = x_arch_data s2" "x_gdt s3 = x_gdt s2" "x_tss s3 = x_tss s2"
    "h_gdtr (x_hw s3) = h_gdtr (x_hw s2)" "h_cs (x_hw s3) = h_cs (x_hw s2)" "h_tr (x_hw s3) = h_tr (x_hw s2)"
    "h_ss (x_hw s3) = h_ss (x_hw s2)"
    by (rule set_intr_desc_result [OF c2 k2 k(7), of et it], rule that, assumption+)
  note d = gdt_dword_same [OF s3(7,9)]
  have gate: "idt_gate s3 v = Some (if unat v < 32 then et (unat v) else it (unat v - 32), 16,
      if unat v < 32 \<or> v = 0x80 then 15 else 14, if v = 0x80 then 3 else 0, 0)" for v :: u8
  proof -
    have v: "unat v < 256" using unsigned_less [of v, where ?'a = nat] by simp
    have i: "(ucast v :: u64) = of_nat (unat v)" by (simp add: word_unat_eq_iff unsigned_ucast_eq unsigned_of_nat)
    have e: "v = 0x80 \<longleftrightarrow> unat v = 0x80" by (simp add: word_unat_eq_iff)
    have a: "bit (0x8f :: u8) 7" "bit (0xef :: u8) 7" "bit (0x8e :: u8) 7" by (simp_all add: bit_iff_odd)
    show ?thesis unfolding idt_gate_def s3(2,3) i s3(4) [OF v] Let_def
      using v a by (cases "unat v < 32"; cases "unat v = 0x80")
        (simp_all add: gate_fields e SELECTOR_KERNEL_CODE_def TRAP_GATE_def INTR_GATE_def DPL3_def)
  qed
  have run: "setup_tables et it cpuid s = Some s3" using s1(1) s2(1) s3(1) by (simp add: setup_tables_def)
  show thesis
    by (rule that [OF run _ _ _ _ _ _ _ gate])
      (use s1 s2 s3 in \<open>simp_all add: kernel_gdt_def tss_segment_def d\<close>)
qed

lemma ks_kmalloc_large:
  assumes "free_run (ks_boot k) q n" "pages_for sz < n" "0x1000 \<le> sz"
  obtains v b' where "ks_kmalloc sz k = Some (v, k\<lparr>ks_boot := b'\<rparr>)" "v \<noteq> 0"
    "free_run b' (q + pages_for sz) (n - pages_for sz)" "last_alloc_offset b' = 0"
  by (rule kmalloc_large [OF assms, of 0]) (use that in \<open>simp add: ks_kmalloc_def\<close>)

lemma ks_kmalloc_small:
  assumes "free_run (ks_boot k) q n" "2 \<le> n" "0 < sz" "sz < 0x1000" "last_alloc_offset (ks_boot k) = 0"
  obtains v b' where "ks_kmalloc sz k = Some (v, k\<lparr>ks_boot := b'\<rparr>)" "v \<noteq> 0" "free_run b' (q + 1) (n - 1)"
    "last_alloc_offset b' = roundup (sz mod 0x1000) 64" "unat (last_alloc_pfn b') < LIMIT_PAGES"
  by (rule kmalloc_small [OF assms, of 0]) (use that in \<open>simp add: ks_kmalloc_def\<close>)

text \<open>259 pages for the two tables, the task-state segment and its stack.\<close>

lemma tables_memory:
  assumes run: "free_run (ks_boot k) q n" and n: "260 \<le> n"
  obtains g k1 t k2 st k3 p b where "ks_kmalloc 4096 k = Some (g, k1)" "ks_kmalloc 104 k1 = Some (t, k2)"
    "ks_kmalloc 0x100000 k2 = Some (st, k3)" "ks_kmalloc 4096 k3 = Some (p, k\<lparr>ks_boot := b\<rparr>)"
    "g \<noteq> 0" "t \<noteq> 0" "st \<noteq> 0" "p \<noteq> 0" "free_run b (q + 259) (n - 259)" "last_alloc_offset b = 0"
proof -
  have pf: "pages_for 4096 = 1" "pages_for 0x100000 = 256" by (simp_all add: pages_for_def)
  obtain g b1 where 1: "ks_kmalloc 4096 k = Some (g, k\<lparr>ks_boot := b1\<rparr>)" "g \<noteq> 0" "free_run b1 (q + 1) (n - 1)"
    "last_alloc_offset b1 = 0"
    by (rule ks_kmalloc_large [OF run, of 4096]) (use n in \<open>simp_all add: pf\<close>)
  have r1: "free_run (ks_boot (k\<lparr>ks_boot := b1\<rparr>)) (q + 1) (n - 1)" "last_alloc_offset (ks_boot (k\<lparr>ks_boot := b1\<rparr>)) = 0"
    using 1(3,4) by simp_all
  obtain t b2 where 2: "ks_kmalloc 104 (k\<lparr>ks_boot := b1\<rparr>) = Some (t, k\<lparr>ks_boot := b2\<rparr>)" "t \<noteq> 0" "free_run b2 (q + 1 + 1) (n - 1 - 1)"
    by (rule ks_kmalloc_small [OF r1(1) _ _ _ r1(2), of 104]) (use n in auto)
  have r2: "free_run (ks_boot (k\<lparr>ks_boot := b2\<rparr>)) (q + 2) (n - 2)" using 2(3) by (simp add: numeral_2_eq_2)
  obtain st b3 where 3: "ks_kmalloc 0x100000 (k\<lparr>ks_boot := b2\<rparr>) = Some (st, k\<lparr>ks_boot := b3\<rparr>)" "st \<noteq> 0" "free_run b3 (q + 258) (n - 258)"
    by (rule ks_kmalloc_large [OF r2, of "0x100000"]) (use n in \<open>auto simp: pf add.commute [of _ q]\<close>)
  have r3: "free_run (ks_boot (k\<lparr>ks_boot := b3\<rparr>)) (q + 258) (n - 258)" using 3(3) by simp
  obtain p b4 where 4: "ks_kmalloc 4096 (k\<lparr>ks_boot := b3\<rparr>) = Some (p, k\<lparr>ks_boot := b4\<rparr>)" "p \<noteq> 0" "free_run b4 (q + 259) (n - 259)"
    "last_alloc_offset b4 = 0"
    by (rule ks_kmalloc_large [OF r3, of 4096]) (use n in \<open>auto simp: pf add.commute [of _ q]\<close>)
  show thesis by (rule that [OF 1(1) 2(1) 3(1) 4(1) 1(2) 2(2) 3(2) 4(2-4)])
qed

lemma setup_tables_ok:
  assumes "get_cpu (arch_cpuid cpuid) (x_ks s) = Some c" "CPL s = 0" "free_run (ks_boot (x_ks s)) q n" "260 \<le> n"
  obtains s' t b where "setup_tables et it cpuid s = Some s'" "kernel_gdt s'" "h_cs (x_hw s') = 16" "h_ss (x_hw s') = 32"
    "t \<noteq> 0" "tss_segment s' = Some (t, 103)" "rsp0 (x_tss s' t) \<noteq> 0" "x_ks s' = (x_ks s)\<lparr>ks_boot := b\<rparr>" "x_arch_data s' = x_arch_data s"
    "free_run b (q + 259) (n - 259)" "last_alloc_offset b = 0"
    "\<And>v :: u8. idt_gate s' v = Some (if unat v < 32 then et (unat v) else it (unat v - 32), 16,
        if unat v < 32 \<or> v = 0x80 then 15 else 14, if v = 0x80 then 3 else 0, 0)"
proof -
  obtain g k1 t k2 st k3 p b where k: "ks_kmalloc 4096 (x_ks s) = Some (g, k1)" "ks_kmalloc 104 k1 = Some (t, k2)"
    "ks_kmalloc 0x100000 k2 = Some (st, k3)" "ks_kmalloc 4096 k3 = Some (p, (x_ks s)\<lparr>ks_boot := b\<rparr>)"
    "g \<noteq> 0" "t \<noteq> 0" "st \<noteq> 0" "p \<noteq> 0" "free_run b (q + 259) (n - 259)" "last_alloc_offset b = 0"
    by (rule tables_memory [OF assms(3,4)])
  obtain s' where s': "setup_tables et it cpuid s = Some s'" "kernel_gdt s'" "h_cs (x_hw s') = 16" "h_ss (x_hw s') = 32"
    "tss_segment s' = Some (t, 103)" "rsp0 (x_tss s' t) = st" "x_ks s' = (x_ks s)\<lparr>ks_boot := b\<rparr>" "x_arch_data s' = x_arch_data s"
    "\<And>v :: u8. idt_gate s' v = Some (if unat v < 32 then et (unat v) else it (unat v - 32), 16,
        if unat v < 32 \<or> v = 0x80 then 15 else 14, if v = 0x80 then 3 else 0, 0)"
    by (rule setup_tables_result [OF assms(1,2) k(1-6,8), of et it], rule that, assumption+)
  from s'(6) k(7) have "rsp0 (x_tss s' t) \<noteq> 0" by simp
  from that [OF s'(1-4) k(6) s'(5) this s'(7,8) k(9,10) s'(9)] show thesis .
qed

section \<open>Returning to a task\<close>

text \<open>The checks of \<^verbatim>\<open>iretq\<close> on the selectors of a frame: code of the privilege the
  selector asks for, not more than the current one, and a stack segment of the same privilege.\<close>

definition iret_ok :: "irq_stack_frame \<Rightarrow> x86 \<Rightarrow> bool" where
  "iret_ok f s =
     (let cs = ucast (f_cs f) :: u16; ss = ucast (f_ss f) :: u16; rpl = cs AND 3
      in cs AND 0xfffc \<noteq> 0 \<and> CPL s \<le> rpl \<and>
         (case gdt_dword s cs of None \<Rightarrow> False
          | Some w \<Rightarrow> let a = raw_access w in bit a 7 \<and> bit a 4 \<and> bit a 3 \<and>
              (if bit a 2 then desc_dpl w \<le> rpl else desc_dpl w = rpl)) \<and>
         (if ss AND 0xfffc = 0 then rpl \<noteq> 3 \<and> ss AND 3 = rpl
          else case gdt_dword s ss of None \<Rightarrow> False
          | Some w \<Rightarrow> let a = raw_access w in bit a 7 \<and> bit a 4 \<and> \<not> bit a 3 \<and> bit a 1 \<and>
              ss AND 3 = rpl \<and> desc_dpl w = rpl))"

lemma kernel_gdt_iret:
  assumes "kernel_gdt s" "h_cs (x_hw s) = 16"
  shows "f_cs f = SELECTOR_KERNEL_CODE \<Longrightarrow> f_ss f = SELECTOR_KERNEL_DATA \<Longrightarrow> iret_ok f s"
    "f_cs f = SELECTOR_USER_CODE \<Longrightarrow> f_ss f = SELECTOR_USER_DATA \<Longrightarrow> \<not> iret_ok f s"
    "f_cs f = SELECTOR_USER_CODE OR 3 \<Longrightarrow> f_ss f = SELECTOR_USER_DATA OR 3 \<Longrightarrow> iret_ok f s"
proof -
  have c: "gdt_dword s 16 = Some 0x0020980000000000" "gdt_dword s 32 = Some 0x0000920000000000"
    "gdt_dword s 48 = Some 0x0020f80000000000" "gdt_dword s 64 = Some 0x0000f20000000000"
    using assms(1) by (simp_all add: kernel_gdt_def segment_consts)
  have rpl: "gdt_dword s 51 = gdt_dword s 48" "gdt_dword s 67 = gdt_dword s 64"
    by (simp_all add: gdt_dword_def bit_iff_odd Let_def)
  note d = iret_ok_def c rpl raw_access_def desc_dpl_def bit_iff_odd segment_consts assms(2) Let_def
  show "f_cs f = SELECTOR_KERNEL_CODE \<Longrightarrow> f_ss f = SELECTOR_KERNEL_DATA \<Longrightarrow> iret_ok f s"
    "f_cs f = SELECTOR_USER_CODE \<Longrightarrow> f_ss f = SELECTOR_USER_DATA \<Longrightarrow> \<not> iret_ok f s"
    "f_cs f = SELECTOR_USER_CODE OR 3 \<Longrightarrow> f_ss f = SELECTOR_USER_DATA OR 3 \<Longrightarrow> iret_ok f s"
    by (simp_all add: d)
qed

section \<open>Properties\<close>

text \<open>The set-up of a processor's tables runs without a fault and leaves the tables the
  processor needs: flat 64-bit kernel code and data are loaded, the four descriptors are those of
  ring 0 and ring 3, the task register refers to the new task-state segment with its exact base and
  limit, and every one of the 256 vectors goes to its own entry point in kernel code, exceptions
  and the system call through trap gates, the others through interrupt gates, and only the
  system call open to ring 3.\<close>

theorem setup_tables_complete:
  assumes "get_cpu (arch_cpuid cpuid) (x_ks s) = Some c" "CPL s = 0" "free_run (ks_boot (x_ks s)) q n" "260 \<le> n"
  shows "\<exists>s' t. setup_tables et it cpuid s = Some s' \<and> CPL s' = 0 \<and>
     gdt_dword s' (h_cs (x_hw s')) = Some 0x0020980000000000 \<and> gdt_dword s' (h_ss (x_hw s')) = Some 0x0000920000000000 \<and>
     gdt_dword s' (ucast SELECTOR_USER_CODE) = Some 0x0020f80000000000 \<and>
     gdt_dword s' (ucast SELECTOR_USER_DATA) = Some 0x0000f20000000000 \<and>
     t \<noteq> 0 \<and> tss_segment s' = Some (t, 103) \<and> rsp0 (x_tss s' t) \<noteq> 0 \<and>
     (\<forall>v. idt_gate s' v = Some (if unat v < 32 then et (unat v) else it (unat v - 32), ucast SELECTOR_KERNEL_CODE,
        if unat v < 32 \<or> v = 0x80 then 15 else 14, if v = 0x80 then 3 else 0, 0))"
proof -
  obtain s' t b where s': "setup_tables et it cpuid s = Some s'" "kernel_gdt s'" "h_cs (x_hw s') = 16" "h_ss (x_hw s') = 32"
    "t \<noteq> 0" "tss_segment s' = Some (t, 103)" "rsp0 (x_tss s' t) \<noteq> 0"
    "\<And>v :: u8. idt_gate s' v = Some (if unat v < 32 then et (unat v) else it (unat v - 32), 16,
        if unat v < 32 \<or> v = 0x80 then 15 else 14, if v = 0x80 then 3 else 0, 0)"
    by (rule setup_tables_ok [OF assms, of et it], rule that, assumption+)
  then show ?thesis by (intro exI [of _ s'] exI [of _ t]) (simp add: kernel_gdt_def segment_consts)
qed

text \<open>C33. With these tables the frame that \<^verbatim>\<open>arch_init_kstack\<close> builds for a kernel task
  starts, but the one for a user task makes \<^verbatim>\<open>iretq\<close> fault: its selectors lack the requested
  privilege 3. With it the same frame would start.\<close>

theorem user_task_frame_faults:
  assumes "get_cpu (arch_cpuid cpuid) (x_ks s) = Some c" "CPL s = 0" "free_run (ks_boot (x_ks s)) q n" "260 \<le> n"
  shows "\<exists>s'. setup_tables et it cpuid s = Some s' \<and>
     (let frame = \<lambda>kern. frames (arch_init_kstack task fptr stack kern sc) (t_sp (tasks sc task))
      in iret_ok (frame True) s' \<and> \<not> iret_ok (frame False) s' \<and>
         iret_ok ((frame False)\<lparr>f_cs := SELECTOR_USER_CODE OR 3, f_ss := SELECTOR_USER_DATA OR 3\<rparr>) s')"
proof -
  obtain s' t b where s': "setup_tables et it cpuid s = Some s'" "kernel_gdt s'" "h_cs (x_hw s') = 16"
    by (rule setup_tables_ok [OF assms, of et it], rule that, assumption+)
  note i = kernel_gdt_iret [OF s'(2,3)]
  show ?thesis by (intro exI [of _ s']) (simp add: s'(1) i arch_init_kstack_def Let_def)
qed


section \<open>Witnesses\<close>

definition demo_leaf :: cpuid_leaf where
  "demo_leaf eax ecx = (if eax = 1 then (0, 0, 0x04000020, 0x02000000) else (0, 0, 0, 0))"

definition demo_x86 :: x86 where
  "demo_x86 = \<lparr>x_ks = demo_irq, x_mem = (\<lambda>_. 0), x_bytes = (\<lambda>_. 0), x_pt_phys = 0, x_arch_data = (\<lambda>_. 0x100), x_kernel_stack = (\<lambda>_. 0),
     x_arch = (\<lambda>_. \<lparr>gdt_base = 0, idt_base = 0, tss_ptr = 0, lapic_ops = 0\<rparr>),
     x_lapics = (\<lambda>_. \<lparr>lapic_mode = 0, reg_access = None\<rparr>),
     x_gdt = (\<lambda>_. \<lparr>limit_0_15 = 0, base_0_15 = 0, base16_23 = 0, attr1 = 0, limit16_19_attr2 = 0, base24_31 = 0,
                base32_63 = 0, seg_reserved = 0\<rparr>),
     x_idt = (\<lambda>_. make_gate 0 0 0 0),
     x_tss = (\<lambda>_. \<lparr>rsp0 = 0, rsp1 = 0, rsp2 = 0, ists = (\<lambda>_. 0), iomap_base = 0\<rparr>),
     x_hw = \<lparr>h_gdtr = \<lparr>dt_limit = 0, dt_base = 0\<rparr>, h_idtr = \<lparr>dt_limit = 0, dt_base = 0\<rparr>, h_cs = 8, h_ds = 0, h_es = 0,
       h_fs = 0, h_gs = 0, h_ss = 0, h_tr = 0, h_cr0 = 0x80000011, h_cr3 = 0, h_cr4 = 0x20, h_cr8 = 0, h_xcr0 = 1,
       h_if = False, h_msr = (\<lambda>r. if r = 0x1b then 0xfee00900 else 0), h_apic = (\<lambda>_. 0), h_writes = []\<rparr>\<rparr>"

lemma demo_x86_facts:
  "get_cpu (arch_cpuid demo_leaf) (x_ks demo_x86) = Some 5" "CPL demo_x86 = 0" "free_run (ks_boot (x_ks demo_x86)) 0 2000"
proof -
  show "get_cpu (arch_cpuid demo_leaf) (x_ks demo_x86) = Some 5"
    using demo_irq_facts(2) by (simp add: arch_cpuid_def demo_leaf_def demo_x86_def)
  show "CPL demo_x86 = 0" by (simp add: demo_x86_def)
  have "ks_boot demo_irq = empty_bootmem\<lparr>last_alloc_offset := 64\<rparr>" by (simp add: demo_irq_def demo_kstate_defs)
  then show "free_run (ks_boot (x_ks demo_x86)) 0 2000"
    by (simp add: demo_x86_def free_run_def page_used_def empty_bootmem_def LIMIT_PAGES_def)
qed

lemma setup_tables_complete_witness:
  "\<exists>s' t. setup_tables (\<lambda>i. 0x1000 + of_nat i) (\<lambda>i. 0x2000 + of_nat i) demo_leaf demo_x86 = Some s' \<and>
     t \<noteq> 0 \<and> tss_segment s' = Some (t, 103) \<and> idt_gate s' 14 = Some (0x100e, 16, 15, 0, 0) \<and>
     idt_gate s' 0x21 = Some (0x2001, 16, 14, 0, 0) \<and> idt_gate s' 0x80 = Some (0x2060, 16, 15, 3, 0)"
proof -
  obtain s' t where s': "setup_tables (\<lambda>i. 0x1000 + of_nat i) (\<lambda>i. 0x2000 + of_nat i) demo_leaf demo_x86 = Some s'"
    "t \<noteq> 0" "tss_segment s' = Some (t, 103)"
    "\<forall>v. idt_gate s' v = Some (if unat v < 32 then 0x1000 + of_nat (unat v) else 0x2000 + of_nat (unat v - 32), ucast SELECTOR_KERNEL_CODE,
        if unat v < 32 \<or> v = 0x80 then 15 else 14, if v = 0x80 then 3 else 0, 0)"
    using setup_tables_complete [OF demo_x86_facts, of "\<lambda>i. 0x1000 + of_nat i" "\<lambda>i. 0x2000 + of_nat i"] by auto
  then show ?thesis using s'(4) [rule_format, of 14] s'(4) [rule_format, of "0x21"] s'(4) [rule_format, of "0x80"]
    by (intro exI [of _ s'] exI [of _ t]) (simp add: SELECTOR_KERNEL_CODE_def)
qed

lemma user_task_frame_faults_witness:
  "\<exists>s'. setup_tables (\<lambda>_. 0x1000) (\<lambda>_. 0x2000) demo_leaf demo_x86 = Some s' \<and>
     iret_ok (frames (arch_init_kstack 0x10 0x5000 0x6000 True demo_sched) (t_sp (tasks demo_sched 0x10))) s' \<and>
     \<not> iret_ok (frames (arch_init_kstack 0x10 0x5000 0x6000 False demo_sched) (t_sp (tasks demo_sched 0x10))) s'"
  using user_task_frame_faults [OF demo_x86_facts, of "\<lambda>_. 0x1000" "\<lambda>_. 0x2000" "0x10" "0x5000" "0x6000" demo_sched]
  by (auto simp: Let_def)

end
