(* ===== verification/Lapic.thy ===== *)
theory Lapic
  imports Segment
begin

text \<open>
  The local APIC: \<^verbatim>\<open>arch/x86_64/lapic.c\<close> and the inline functions of
  \<^verbatim>\<open>lapic.h\<close>. The registers are cells; every store is logged, and what the hardware makes
  of the stores to the interrupt command register (Intel SDM volume 3, 10.6 and 10.12) is a
  function of the log. \<^verbatim>\<open>None\<close> is a fault (\<^verbatim>\<open>#GP\<close>, \<^verbatim>\<open>#DE\<close>) or
  a call through a null pointer.
\<close>

section \<open>Registers\<close>

definition APIC_REG_BASE :: u32 where "APIC_REG_BASE = 0xFEE00000"
definition APIC_REG_EOI :: u32 where "APIC_REG_EOI = 0xB0"
definition APIC_REG_SVR :: u32 where "APIC_REG_SVR = 0xF0"
definition APIC_REG_ICR0 :: u32 where "APIC_REG_ICR0 = 0x300"
definition APIC_REG_ICR1 :: u32 where "APIC_REG_ICR1 = 0x310"
definition APIC_REG_LVT_TIMER :: u32 where "APIC_REG_LVT_TIMER = 0x320"
definition APIC_REG_TIMER_ICR :: u32 where "APIC_REG_TIMER_ICR = 0x380"
definition APIC_REG_TIMER_DCR :: u32 where "APIC_REG_TIMER_DCR = 0x3E0"

definition APIC_ICR_INIT :: u32 where "APIC_ICR_INIT = 0x0500"
definition APIC_ICR_STARTUP :: u32 where "APIC_ICR_STARTUP = 0x0600"
definition APIC_ICR_ASSERT :: u32 where "APIC_ICR_ASSERT = 0x4000"
definition APIC_ICR_ALL_EX_SELF :: u32 where "APIC_ICR_ALL_EX_SELF = 0xC0000"

definition MSR_APIC_BASE :: u32 where "MSR_APIC_BASE = 0x800"
definition MSR_IA32_APICBASE :: u32 where "MSR_IA32_APICBASE = 0x1b"

lemmas apic_consts =
  APIC_REG_BASE_def APIC_REG_EOI_def APIC_REG_SVR_def APIC_REG_ICR0_def APIC_REG_ICR1_def APIC_REG_LVT_TIMER_def
  APIC_REG_TIMER_ICR_def APIC_REG_TIMER_DCR_def APIC_ICR_INIT_def APIC_ICR_STARTUP_def APIC_ICR_ASSERT_def
  APIC_ICR_ALL_EX_SELF_def MSR_APIC_BASE_def MSR_IA32_APICBASE_def

text \<open>Feature bit 21 of \<^verbatim>\<open>ecx\<close> of leaf 1 is what the processor says about x2APIC.
  Without it bit 10 of \<^verbatim>\<open>IA32_APIC_BASE\<close> is reserved; without bit 10 the registers 0x800 to
  0x8ff do not exist.\<close>

definition x2apic_present :: "cpuid_leaf \<Rightarrow> bool" where
  "x2apic_present cpuid = (let (eax, ebx, ecx, edx) = cpuid 1 0 in bit ecx 21)"

definition msr_exists :: "u32 \<Rightarrow> x86 \<Rightarrow> bool" where
  "msr_exists r s \<longleftrightarrow> (0x800 \<le> r \<and> r \<le> 0x8ff \<longrightarrow> bit (h_msr (x_hw s) MSR_IA32_APICBASE) 10)"

definition hw_rdmsr :: "u32 \<Rightarrow> x86 \<Rightarrow> u64 option" where
  "hw_rdmsr r s = (if msr_exists r s then Some (h_msr (x_hw s) r) else None)"

definition hw_wrmsr :: "cpuid_leaf \<Rightarrow> u32 \<Rightarrow> u64 \<Rightarrow> x86 \<Rightarrow> x86 option" where
  "hw_wrmsr cpuid r v s =
     (if msr_exists r s \<and> (r = MSR_IA32_APICBASE \<and> bit v 10 \<longrightarrow> x2apic_present cpuid)
      then Some (upd_regs (\<lambda>h. h\<lparr>h_msr := (h_msr h)(r := v), h_writes := h_writes h @ [Wrmsr r v]\<rparr>) s)
      else None)"

section \<open>Code\<close>

definition is_bsp :: "x86 \<Rightarrow> bool" where
  "is_bsp s \<longleftrightarrow> drop_bit 8 (h_msr (x_hw s) MSR_IA32_APICBASE) AND 0x1 \<noteq> 0"

text \<open>\<^verbatim>\<open>regs[2] & (BIT21) == BIT21\<close>: the comparison binds first, and is 1.\<close>

definition x2_apic_supported :: "cpuid_leaf \<Rightarrow> bool" where
  "x2_apic_supported cpuid =
     (let (eax, ebx, ecx, edx) = cpuid 1 0 in ecx AND (if push_bit 21 1 = (push_bit 21 1 :: u32) then 1 else 0) \<noteq> 0)"

definition apic_base_set :: "cpuid_leaf \<Rightarrow> u32 \<Rightarrow> x86 \<Rightarrow> x86 option" where
  "apic_base_set cpuid base s =
     (let v = h_msr (x_hw s) MSR_IA32_APICBASE;
          v = v AND (push_bit 8 1 OR push_bit 10 1 OR push_bit 11 1);
          v = v OR ucast (base AND 0xfff)
      in hw_wrmsr cpuid MSR_IA32_APICBASE v s)"

definition lapic_reg_read32_mmio :: "u32 \<Rightarrow> x86 \<Rightarrow> u64 option" where
  "lapic_reg_read32_mmio offset s = Some (ucast (h_apic (x_hw s) (PHYS2VIRT (ucast (APIC_REG_BASE + offset)))))"

definition lapic_reg_write32_mmio :: "u32 \<Rightarrow> u64 \<Rightarrow> x86 \<Rightarrow> x86 option" where
  "lapic_reg_write32_mmio offset v s =
     (let a = PHYS2VIRT (ucast (APIC_REG_BASE + offset))
      in Some (upd_regs (\<lambda>h. h\<lparr>h_apic := (h_apic h)(a := ucast v), h_writes := h_writes h @ [Mmio a (ucast v)]\<rparr>) s))"

definition lapic_reg_read64_msr :: "u32 \<Rightarrow> x86 \<Rightarrow> u64 option" where
  "lapic_reg_read64_msr offset s = hw_rdmsr (MSR_APIC_BASE + drop_bit 4 offset) s"

definition lapic_reg_write64_msr :: "cpuid_leaf \<Rightarrow> u32 \<Rightarrow> u64 \<Rightarrow> x86 \<Rightarrow> x86 option" where
  "lapic_reg_write64_msr cpuid offset v s = hw_wrmsr cpuid (MSR_APIC_BASE + drop_bit 4 offset) v s"

definition this_lapic :: "cpuid_leaf \<Rightarrow> x86 \<Rightarrow> u64 option" where
  "this_lapic cpuid s = do {
     c \<leftarrow> get_cpu (arch_cpuid cpuid) (x_ks s);
     Some (lapic_ops (x_arch s (x_arch_data s c)))
   }"

definition lapic_reg_read :: "cpuid_leaf \<Rightarrow> u32 \<Rightarrow> x86 \<Rightarrow> u64 option" where
  "lapic_reg_read cpuid offset s = do {
     l \<leftarrow> this_lapic cpuid s;
     a \<leftarrow> reg_access (x_lapics s l);
     (case a of By_msr \<Rightarrow> lapic_reg_read64_msr offset s | By_mmio \<Rightarrow> lapic_reg_read32_mmio offset s)
   }"

definition lapic_reg_write :: "cpuid_leaf \<Rightarrow> u32 \<Rightarrow> u64 \<Rightarrow> x86 \<Rightarrow> x86 option" where
  "lapic_reg_write cpuid offset v s = do {
     l \<leftarrow> this_lapic cpuid s;
     a \<leftarrow> reg_access (x_lapics s l);
     (case a of By_msr \<Rightarrow> lapic_reg_write64_msr cpuid offset v s | By_mmio \<Rightarrow> lapic_reg_write32_mmio offset v s)
   }"

definition upd_lapic :: "u64 \<Rightarrow> (lapic \<Rightarrow> lapic) \<Rightarrow> x86 \<Rightarrow> x86" where
  "upd_lapic p f s = s\<lparr>x_lapics := (x_lapics s)(p := f (x_lapics s p))\<rparr>"

definition lapic_enable :: "cpuid_leaf \<Rightarrow> u64 \<Rightarrow> x86 \<Rightarrow> x86 option" where
  "lapic_enable cpuid lapic s = do {
     let v = h_msr (x_hw s) MSR_IA32_APICBASE;
     let v = v OR push_bit 11 1;
     let s = upd_lapic lapic (lapic_mode_update (\<lambda>_. 1)) s;
     let (v, s) = (if x2_apic_supported cpuid
                   then (v OR push_bit 10 1, upd_lapic lapic (lapic_mode_update (\<lambda>_. 2)) s) else (v, s));
     s \<leftarrow> hw_wrmsr cpuid MSR_IA32_APICBASE v s;
     let s = (if lapic_mode (x_lapics s lapic) = 2
              then upd_lapic lapic (reg_access_update (\<lambda>_. Some By_msr)) s
              else upd_lapic lapic (reg_access_update (\<lambda>_. Some By_mmio)) s);
     v \<leftarrow> lapic_reg_read cpuid APIC_REG_SVR s;
     let v = v OR push_bit 8 1;
     lapic_reg_write cpuid APIC_REG_SVR v s
   }"

definition local_apic_eoi :: "cpuid_leaf \<Rightarrow> x86 \<Rightarrow> x86 option" where
  "local_apic_eoi cpuid s = lapic_reg_write cpuid APIC_REG_EOI 0 s"

text \<open>\<^verbatim>\<open>apic_id << 24\<close> is an \<^verbatim>\<open>int\<close> and is sign-extended to 64 bits.\<close>

definition lapic_send_ipi :: "cpuid_leaf \<Rightarrow> u8 \<Rightarrow> u8 \<Rightarrow> u32 \<Rightarrow> x86 \<Rightarrow> x86 option" where
  "lapic_send_ipi cpuid apic_id vector attr s = do {
     l \<leftarrow> this_lapic cpuid s;
     let dest = (scast (push_bit 24 (ucast apic_id :: u32)) :: u64);
     if lapic_mode (x_lapics s l) = 2 then
       lapic_reg_write cpuid APIC_REG_ICR0 (push_bit 32 (ucast apic_id) OR ucast vector OR ucast attr) s
     else do {
       s \<leftarrow> lapic_reg_write cpuid APIC_REG_ICR1 dest s;
       lapic_reg_write cpuid APIC_REG_ICR0 (ucast (ucast vector OR attr)) s
     }
   }"

definition mp_init_single :: "cpuid_leaf \<Rightarrow> u8 \<Rightarrow> u64 \<Rightarrow> x86 \<Rightarrow> x86 option" where
  "mp_init_single cpuid apic_id ap_startup_addr s = do {
     s \<leftarrow> lapic_send_ipi cpuid apic_id 0 (APIC_ICR_ASSERT OR APIC_ICR_INIT) s;
     s \<leftarrow> lapic_send_ipi cpuid apic_id (ucast (drop_bit 12 ap_startup_addr)) (APIC_ICR_ASSERT OR APIC_ICR_STARTUP) s;
     lapic_send_ipi cpuid apic_id (ucast (drop_bit 12 ap_startup_addr)) (APIC_ICR_ASSERT OR APIC_ICR_STARTUP) s
   }"

definition mp_init_all :: "cpuid_leaf \<Rightarrow> u64 \<Rightarrow> x86 \<Rightarrow> x86 option" where
  "mp_init_all cpuid ap_startup_addr s = do {
     s \<leftarrow> lapic_send_ipi cpuid 0 0 (APIC_ICR_ASSERT OR APIC_ICR_INIT OR APIC_ICR_ALL_EX_SELF) s;
     s \<leftarrow> lapic_send_ipi cpuid 0 (ucast (drop_bit 12 ap_startup_addr))
           (APIC_ICR_ASSERT OR APIC_ICR_STARTUP OR APIC_ICR_ALL_EX_SELF) s;
     lapic_send_ipi cpuid 0 (ucast (drop_bit 12 ap_startup_addr))
       (APIC_ICR_ASSERT OR APIC_ICR_STARTUP OR APIC_ICR_ALL_EX_SELF) s
   }"

text \<open>The frequency of the time-stamp counter is only printed.\<close>

definition lapic_set_timer :: "cpuid_leaf \<Rightarrow> u64 \<Rightarrow> u8 \<Rightarrow> x86 \<Rightarrow> (int \<times> x86) option" where
  "lapic_set_timer cpuid freq vector s = do {
     let s = upd_regs (h_cr8_update (\<lambda>_. 0)) s;
     let (eax, ebx, ecx, edx) = cpuid 0x15 0;
     let ecx = (if ecx = 0 then 24000000 else ecx);
     let crystal_freq = ucast ecx;
     s \<leftarrow> lapic_reg_write cpuid APIC_REG_TIMER_DCR 0xb s;
     s \<leftarrow> lapic_reg_write cpuid APIC_REG_LVT_TIMER (0x20000 OR ucast vector) s;
     if freq = 0 then None
     else do {
       s \<leftarrow> lapic_reg_write cpuid APIC_REG_TIMER_ICR (crystal_freq div freq) s;
       Some (0, s)
     }
   }"

section \<open>The hardware's view\<close>

text \<open>An inter-processor interrupt: destination, vector, delivery mode, shorthand.\<close>

datatype ipi = Ipi u32 u8 u32 u32

definition icr_ipi :: "u32 \<Rightarrow> u32 \<Rightarrow> ipi" where
  "icr_ipi dest low = Ipi dest (ucast low) (drop_bit 8 low AND 7) (drop_bit 18 low AND 3)"

text \<open>In x2APIC mode a write of register 0x830 sends, with the destination in the upper half; by memory a write
  of the low word sends, to the destination last written into the top byte of the high word.\<close>

fun ipis_sent :: "u32 \<Rightarrow> apic_write list \<Rightarrow> ipi list" where
  "ipis_sent hi [] = []"
| "ipis_sent hi (Wrmsr r v # ws) =
     (if r = 0x830 then icr_ipi (ucast (drop_bit 32 v)) (ucast v) # ipis_sent hi ws else ipis_sent hi ws)"
| "ipis_sent hi (Mmio a v # ws) =
     (if a = PHYS2VIRT 0xFEE00310 then ipis_sent v ws
      else if a = PHYS2VIRT 0xFEE00300 then icr_ipi (drop_bit 24 hi) v # ipis_sent hi ws
      else ipis_sent hi ws)"

section \<open>Stores\<close>

text \<open>The APIC is reachable: the operations fit the mode the processor is in.\<close>

definition lapic_ready :: "cpuid_leaf \<Rightarrow> x86 \<Rightarrow> u64 \<Rightarrow> apic_access \<Rightarrow> bool" where
  "lapic_ready cpuid s l a \<longleftrightarrow> this_lapic cpuid s = Some l \<and> reg_access (x_lapics s l) = Some a \<and>
     (lapic_mode (x_lapics s l) = 2 \<longleftrightarrow> a = By_msr) \<and> (a = By_msr \<longrightarrow> bit (h_msr (x_hw s) MSR_IA32_APICBASE) 10)"

definition apic_store :: "apic_access \<Rightarrow> u32 \<Rightarrow> u64 \<Rightarrow> apic_write" where
  "apic_store a offset v = (case a of By_msr \<Rightarrow> Wrmsr (0x800 + drop_bit 4 offset) v
     | By_mmio \<Rightarrow> Mmio (PHYS2VIRT (ucast (APIC_REG_BASE + offset))) (ucast v))"

text \<open>What a store to the APIC leaves as it was.\<close>

definition apic_frame :: "x86 \<Rightarrow> x86 \<Rightarrow> bool" where
  "apic_frame s s' \<longleftrightarrow> (\<exists>m w a. s' = upd_regs (\<lambda>h. h\<lparr>h_msr := m, h_writes := w, h_apic := a\<rparr>) s \<and>
     m MSR_IA32_APICBASE = h_msr (x_hw s) MSR_IA32_APICBASE)"

lemma apic_frame_trans: "apic_frame s s' \<Longrightarrow> apic_frame s' s'' \<Longrightarrow> apic_frame s s''"
proof -
  assume "apic_frame s s'" "apic_frame s' s''"
  then obtain m w a m2 w2 a2 where
    1: "s' = upd_regs (\<lambda>h. h\<lparr>h_msr := m, h_writes := w, h_apic := a\<rparr>) s" "m MSR_IA32_APICBASE = h_msr (x_hw s) MSR_IA32_APICBASE"
    and 2: "s'' = upd_regs (\<lambda>h. h\<lparr>h_msr := m2, h_writes := w2, h_apic := a2\<rparr>) s'" "m2 MSR_IA32_APICBASE = h_msr (x_hw s') MSR_IA32_APICBASE"
    unfolding apic_frame_def by blast
  have "s'' = upd_regs (\<lambda>h. h\<lparr>h_msr := m2, h_writes := w2, h_apic := a2\<rparr>) s" using 1(1) 2(1) by (simp add: upd_regs_def)
  moreover have "m2 MSR_IA32_APICBASE = h_msr (x_hw s) MSR_IA32_APICBASE" using 1 2(2) by simp
  ultimately show "apic_frame s s''" unfolding apic_frame_def by blast
qed

lemma apic_frame_ready: "apic_frame s s' \<Longrightarrow> lapic_ready cpuid s l a \<Longrightarrow> lapic_ready cpuid s' l a"
  by (auto simp: apic_frame_def lapic_ready_def this_lapic_def upd_regs_def)

lemma apic_frame_same:
  assumes "apic_frame s s'"
  shows "x_ks s' = x_ks s" "x_arch s' = x_arch s" "x_arch_data s' = x_arch_data s" "x_lapics s' = x_lapics s"
    "x_gdt s' = x_gdt s" "x_idt s' = x_idt s" "x_tss s' = x_tss s" "h_gdtr (x_hw s') = h_gdtr (x_hw s)"
    "h_idtr (x_hw s') = h_idtr (x_hw s)" "h_cs (x_hw s') = h_cs (x_hw s)" "h_tr (x_hw s') = h_tr (x_hw s)"
    "h_cr0 (x_hw s') = h_cr0 (x_hw s)" "h_cr3 (x_hw s') = h_cr3 (x_hw s)" "h_cr4 (x_hw s') = h_cr4 (x_hw s)"
    "h_xcr0 (x_hw s') = h_xcr0 (x_hw s)" "h_cr8 (x_hw s') = h_cr8 (x_hw s)" "h_ss (x_hw s') = h_ss (x_hw s)"
    "x_pt_phys s' = x_pt_phys s"
  using assms by (auto simp: apic_frame_def upd_regs_def)

lemma lapic_write:
  assumes r: "lapic_ready cpuid s l a" and off: "unat offset < 0x1000"
  obtains s' where "lapic_reg_write cpuid offset v s = Some s'" "apic_frame s s'"
    "h_writes (x_hw s') = h_writes (x_hw s) @ [apic_store a offset v]"
proof (cases a)
  case By_msr
  let ?r = "0x800 + drop_bit 4 offset"
  have u: "unat ?r = 0x800 + unat offset div 16"
    using off by (subst unat_plus_no_wrap) (simp_all add: unat_drop_bit)
  then have "unat ?r \<noteq> unat (0x1b :: u32)" by simp
  then have ne: "?r \<noteq> 0x1b" by (rule contrapos_nn) (rule arg_cong)
  let ?f = "\<lambda>h. h\<lparr>h_msr := (h_msr h)(?r := v), h_writes := h_writes h @ [Wrmsr ?r v]\<rparr>"
  have "lapic_reg_write cpuid offset v s = Some (upd_regs ?f s)"
    using r By_msr ne by (simp add: lapic_reg_write_def lapic_ready_def lapic_reg_write64_msr_def hw_wrmsr_def
        msr_exists_def apic_consts)
  moreover have "apic_frame s (upd_regs ?f s)"
    unfolding apic_frame_def
    by (rule exI [of _ "(h_msr (x_hw s))(?r := v)"], rule exI [of _ "h_writes (x_hw s) @ [Wrmsr ?r v]"],
        rule exI [of _ "h_apic (x_hw s)"]) (cases s, use ne in \<open>auto simp: upd_regs_def apic_consts\<close>)
  ultimately show thesis using that By_msr by (simp add: apic_store_def)
next
  case By_mmio
  let ?a = "PHYS2VIRT (ucast (APIC_REG_BASE + offset))"
  let ?f = "\<lambda>h. h\<lparr>h_apic := (h_apic h)(?a := ucast v), h_writes := h_writes h @ [Mmio ?a (ucast v)]\<rparr>"
  have "lapic_reg_write cpuid offset v s = Some (upd_regs ?f s)"
    using r By_mmio by (simp add: lapic_reg_write_def lapic_ready_def lapic_reg_write32_mmio_def Let_def)
  moreover have "apic_frame s (upd_regs ?f s)"
    unfolding apic_frame_def
    by (rule exI [of _ "h_msr (x_hw s)"], rule exI [of _ "h_writes (x_hw s) @ [Mmio ?a (ucast v)]"],
        rule exI [of _ "(h_apic (x_hw s))(?a := ucast v)"]) (cases s, auto simp: upd_regs_def)
  ultimately show thesis using that By_mmio by (simp add: apic_store_def)
qed

section \<open>Inter-processor interrupts\<close>

definition ipi_stores :: "apic_access \<Rightarrow> u8 \<Rightarrow> u8 \<Rightarrow> u32 \<Rightarrow> apic_write list" where
  "ipi_stores a apic_id vector attr =
     (if a = By_msr then [apic_store a APIC_REG_ICR0 (push_bit 32 (ucast apic_id) OR ucast vector OR ucast attr)]
      else [apic_store a APIC_REG_ICR1 (scast (push_bit 24 (ucast apic_id :: u32))),
            apic_store a APIC_REG_ICR0 (ucast (ucast vector OR attr))])"

lemma send_ipi:
  assumes r: "lapic_ready cpuid s l a"
  obtains s' where "lapic_send_ipi cpuid apic_id vector attr s = Some s'" "apic_frame s s'"
    "h_writes (x_hw s') = h_writes (x_hw s) @ ipi_stores a apic_id vector attr"
proof -
  have o: "unat APIC_REG_ICR0 < 0x1000" "unat APIC_REG_ICR1 < 0x1000" by (simp_all add: apic_consts)
  have l: "this_lapic cpuid s = Some l" using r by (simp add: lapic_ready_def)
  have m: "lapic_mode (x_lapics s l) = 2 \<longleftrightarrow> a = By_msr" using r by (simp add: lapic_ready_def)
  show thesis
  proof (cases "a = By_msr")
    case True
    obtain s' where "lapic_reg_write cpuid APIC_REG_ICR0 (push_bit 32 (ucast apic_id) OR ucast vector OR ucast attr) s = Some s'"
      "apic_frame s s'" "h_writes (x_hw s') = h_writes (x_hw s) @ [apic_store a APIC_REG_ICR0 (push_bit 32 (ucast apic_id) OR ucast vector OR ucast attr)]"
      by (rule lapic_write [OF r o(1)])
    then show thesis using that True m l by (simp add: lapic_send_ipi_def ipi_stores_def Let_def)
  next
    case False
    let ?d = "scast (push_bit 24 (ucast apic_id :: u32)) :: u64"
    obtain s1 where s1: "lapic_reg_write cpuid APIC_REG_ICR1 ?d s = Some s1"
      "apic_frame s s1" "h_writes (x_hw s1) = h_writes (x_hw s) @ [apic_store a APIC_REG_ICR1 ?d]"
      by (rule lapic_write [OF r o(2)])
    obtain s2 where s2: "lapic_reg_write cpuid APIC_REG_ICR0 (ucast (ucast vector OR attr)) s1 = Some s2"
      "apic_frame s1 s2" "h_writes (x_hw s2) = h_writes (x_hw s1) @ [apic_store a APIC_REG_ICR0 (ucast (ucast vector OR attr))]"
      by (rule lapic_write [OF apic_frame_ready [OF s1(2) r] o(1)])
    show thesis
      by (rule that [OF _ apic_frame_trans [OF s1(2) s2(2)]])
        (use False m l s1 s2 in \<open>simp_all add: lapic_send_ipi_def ipi_stores_def Let_def\<close>)
  qed
qed

lemma ipi_stores_sent:
  obtains hi' where "ipis_sent hi (ipi_stores a apic_id vector attr @ ws) =
      icr_ipi (ucast apic_id) (ucast vector OR attr) # ipis_sent hi' ws"
proof (cases a)
  case By_msr
  have d: "(ucast (drop_bit 32 (push_bit 32 (ucast apic_id)) OR drop_bit 32 (ucast vector) OR drop_bit 32 (ucast attr) :: u64) :: u32) =
      ucast apic_id"
    by (rule bit_word_eqI) (auto simp: bit_unsigned_iff bit_drop_bit_eq bit_or_iff bit_push_bit_iff dest: bit_imp_le_length)
  have l: "(ucast (push_bit 32 (ucast apic_id) OR ucast vector OR ucast attr :: u64) :: u32) = ucast vector OR attr"
    by (rule bit_word_eqI) (auto simp: bit_unsigned_iff bit_or_iff bit_push_bit_iff)
  show thesis
    by (rule that [of hi]) (simp add: By_msr ipi_stores_def apic_store_def apic_consts d l)
next
  case By_mmio
  let ?h = "push_bit 24 (ucast apic_id) :: u32"
  have h: "(ucast (scast w :: u64) :: u32) = w" for w :: u32
  proof (rule bit_word_eqI)
    fix n :: nat assume "n < LENGTH(32)"
    then show "bit (ucast (scast w :: u64) :: u32) n = bit w n"
      by (cases "n = 31") (simp_all add: bit_unsigned_iff bit_signed_iff min_def)
  qed
  have d: "drop_bit 24 ?h = (ucast apic_id :: u32)"
    by (rule bit_word_eqI) (auto simp: bit_unsigned_iff bit_drop_bit_eq bit_push_bit_iff dest: bit_imp_le_length)
  have l: "(ucast (ucast (ucast vector OR attr :: u32) :: u64) :: u32) = ucast vector OR attr"
    by (rule bit_word_eqI) (simp add: bit_unsigned_iff)
  show thesis
    by (rule that [of ?h]) (simp add: By_mmio ipi_stores_def apic_store_def apic_consts h d l PHYS2VIRT_def)
qed

lemma mp_init:
  assumes r: "lapic_ready cpuid s l a"
  obtains s' ws where "lapic_send_ipi cpuid id0 v1 a1 s \<bind> (\<lambda>s. lapic_send_ipi cpuid id0 v2 a2 s \<bind> lapic_send_ipi cpuid id0 v3 a3) = Some s'"
    "apic_frame s s'" "h_writes (x_hw s') = h_writes (x_hw s) @ ws"
    "\<And>hi. ipis_sent hi ws = [icr_ipi (ucast id0) (ucast v1 OR a1), icr_ipi (ucast id0) (ucast v2 OR a2), icr_ipi (ucast id0) (ucast v3 OR a3)]"
proof -
  obtain s1 where s1: "lapic_send_ipi cpuid id0 v1 a1 s = Some s1" "apic_frame s s1"
    "h_writes (x_hw s1) = h_writes (x_hw s) @ ipi_stores a id0 v1 a1" by (rule send_ipi [OF r])
  obtain s2 where s2: "lapic_send_ipi cpuid id0 v2 a2 s1 = Some s2" "apic_frame s1 s2"
    "h_writes (x_hw s2) = h_writes (x_hw s1) @ ipi_stores a id0 v2 a2" by (rule send_ipi [OF apic_frame_ready [OF s1(2) r]])
  have f2: "apic_frame s s2" using s1(2) s2(2) by (rule apic_frame_trans)
  obtain s3 where s3: "lapic_send_ipi cpuid id0 v3 a3 s2 = Some s3" "apic_frame s2 s3"
    "h_writes (x_hw s3) = h_writes (x_hw s2) @ ipi_stores a id0 v3 a3" by (rule send_ipi [OF apic_frame_ready [OF f2 r]])
  let ?ws = "ipi_stores a id0 v1 a1 @ ipi_stores a id0 v2 a2 @ ipi_stores a id0 v3 a3 @ []"
  have "ipis_sent hi ?ws = [icr_ipi (ucast id0) (ucast v1 OR a1), icr_ipi (ucast id0) (ucast v2 OR a2), icr_ipi (ucast id0) (ucast v3 OR a3)]" for hi
  proof -
    obtain h1 where "ipis_sent hi ?ws = icr_ipi (ucast id0) (ucast v1 OR a1) # ipis_sent h1 (ipi_stores a id0 v2 a2 @ ipi_stores a id0 v3 a3 @ [])"
      by (rule ipi_stores_sent)
    moreover obtain h2 where "ipis_sent h1 (ipi_stores a id0 v2 a2 @ ipi_stores a id0 v3 a3 @ []) =
        icr_ipi (ucast id0) (ucast v2 OR a2) # ipis_sent h2 (ipi_stores a id0 v3 a3 @ [])"
      by (rule ipi_stores_sent)
    moreover obtain h3 where "ipis_sent h2 (ipi_stores a id0 v3 a3 @ []) = icr_ipi (ucast id0) (ucast v3 OR a3) # ipis_sent h3 []"
      by (rule ipi_stores_sent)
    ultimately show ?thesis by simp
  qed
  then show thesis
    using that [OF _ apic_frame_trans [OF f2 s3(2)], of ?ws] s1(1,3) s2(1,3) s3(1,3) by simp
qed

text \<open>An INIT and two STARTUP interrupts with the page of the entry point.\<close>

definition wake_ipis :: "u32 \<Rightarrow> u8 \<Rightarrow> u32 \<Rightarrow> ipi list" where
  "wake_ipis dest page shorthand = [Ipi dest 0 5 shorthand, Ipi dest page 6 shorthand, Ipi dest page 6 shorthand]"

lemma icr_init: "icr_ipi d (ucast (0 :: u8) OR (APIC_ICR_ASSERT OR APIC_ICR_INIT)) = Ipi d 0 5 0"
  "icr_ipi d (ucast (0 :: u8) OR (APIC_ICR_ASSERT OR APIC_ICR_INIT OR APIC_ICR_ALL_EX_SELF)) = Ipi d 0 5 3"
  by (simp_all add: icr_ipi_def apic_consts)

lemma icr_startup: "icr_ipi d (ucast (p :: u8) OR (APIC_ICR_ASSERT OR APIC_ICR_STARTUP)) = Ipi d p 6 0"
  "icr_ipi d (ucast (p :: u8) OR (APIC_ICR_ASSERT OR APIC_ICR_STARTUP OR APIC_ICR_ALL_EX_SELF)) = Ipi d p 6 3"
proof -
  have p: "bit p k \<Longrightarrow> k < 8" for k using bit_imp_le_length [of p k] by simp
  have m: "(7 :: u32) = mask 3" "(3 :: u32) = mask 2" by (simp_all add: mask_eq_exp_minus_1)
  have u: "(ucast (ucast p :: u32) :: u8) = p" by (rule bit_word_eqI) (simp add: bit_unsigned_iff)
  have v: "(ucast (ucast p OR c :: u32) :: u8) = p" if "(ucast c :: u8) = 0" for c :: u32
    using that by (simp add: unsigned_or_eq u)
  have d: "drop_bit k (ucast p :: u32) AND mask j = 0" if "8 \<le> k" for k j
  proof (rule bit_word_eqI)
    fix n :: nat
    have "\<not> bit p (k + n)" using p [of "k + n"] that by auto
    then show "bit (drop_bit k (ucast p :: u32) AND mask j) n = bit 0 n"
      by (simp add: bit_and_iff bit_drop_bit_eq bit_unsigned_iff)
  qed
  have o: "drop_bit k (ucast p OR c :: u32) AND mask j = drop_bit k c AND mask j" if "8 \<le> k" for k j c
    using d [OF that, of j] by (simp add: and.commute bit.conj_disj_distrib)
  show "icr_ipi d (ucast p OR (APIC_ICR_ASSERT OR APIC_ICR_STARTUP)) = Ipi d p 6 0"
    "icr_ipi d (ucast p OR (APIC_ICR_ASSERT OR APIC_ICR_STARTUP OR APIC_ICR_ALL_EX_SELF)) = Ipi d p 6 3"
    unfolding icr_ipi_def m apic_consts by (subst v o, simp, subst v o, simp, subst v o, simp, simp add: mask_eq_exp_minus_1)+
qed

lemma mp_init_single_ok:
  assumes r: "lapic_ready cpuid s l a"
  obtains s' ws where "mp_init_single cpuid apic_id addr s = Some s'" "apic_frame s s'"
    "h_writes (x_hw s') = h_writes (x_hw s) @ ws"
    "\<And>hi. ipis_sent hi ws = wake_ipis (ucast apic_id) (ucast (drop_bit 12 addr)) 0"
proof -
  obtain s' ws where w: "mp_init_single cpuid apic_id addr s = Some s'" "apic_frame s s'" "h_writes (x_hw s') = h_writes (x_hw s) @ ws"
    and i: "\<And>hi. ipis_sent hi ws = wake_ipis (ucast apic_id) (ucast (drop_bit 12 addr)) 0"
    by (rule mp_init [OF r, of apic_id 0 "APIC_ICR_ASSERT OR APIC_ICR_INIT" "ucast (drop_bit 12 addr)" "APIC_ICR_ASSERT OR APIC_ICR_STARTUP"
      "ucast (drop_bit 12 addr)" "APIC_ICR_ASSERT OR APIC_ICR_STARTUP"], rule that, (simp_all only: mp_init_single_def mp_init_all_def icr_init icr_startup wake_ipis_def))
  show thesis by (rule that [OF w i])
qed

lemma mp_init_all_ok:
  assumes r: "lapic_ready cpuid s l a"
  obtains s' ws where "mp_init_all cpuid addr s = Some s'" "apic_frame s s'"
    "h_writes (x_hw s') = h_writes (x_hw s) @ ws"
    "\<And>hi. ipis_sent hi ws = wake_ipis 0 (ucast (drop_bit 12 addr)) 3"
proof -
  obtain s' ws where w: "mp_init_all cpuid addr s = Some s'" "apic_frame s s'" "h_writes (x_hw s') = h_writes (x_hw s) @ ws"
    and i: "\<And>hi. ipis_sent hi ws = wake_ipis (ucast (0 :: u8)) (ucast (drop_bit 12 addr)) 3"
    by (rule mp_init [OF r, of 0 0 "APIC_ICR_ASSERT OR APIC_ICR_INIT OR APIC_ICR_ALL_EX_SELF" "ucast (drop_bit 12 addr)"
      "APIC_ICR_ASSERT OR APIC_ICR_STARTUP OR APIC_ICR_ALL_EX_SELF" "ucast (drop_bit 12 addr)"
      "APIC_ICR_ASSERT OR APIC_ICR_STARTUP OR APIC_ICR_ALL_EX_SELF"], rule that, (simp_all only: mp_init_single_def mp_init_all_def icr_init icr_startup wake_ipis_def))
  show thesis by (rule that [OF w]) (simp only: i unsigned_0)
qed

section \<open>Enabling\<close>

lemma this_lapic_same:
  "x_ks s' = x_ks s \<Longrightarrow> x_arch s' = x_arch s \<Longrightarrow> x_arch_data s' = x_arch_data s \<Longrightarrow> this_lapic cpuid s' = this_lapic cpuid s"
  by (simp add: this_lapic_def)

lemma lapic_enable_ok:
  assumes l: "this_lapic cpuid s = Some l" and x2: "x2_apic_supported cpuid \<longrightarrow> x2apic_present cpuid"
    and off: "\<not> bit (h_msr (x_hw s) MSR_IA32_APICBASE) 10"
  obtains s' a where "lapic_enable cpuid l s = Some s'" "lapic_ready cpuid s' l a" "a = By_msr \<longleftrightarrow> x2_apic_supported cpuid"
    "bit (h_msr (x_hw s') MSR_IA32_APICBASE) 11" "\<exists>v. bit v 8 \<and> last (h_writes (x_hw s')) = apic_store a APIC_REG_SVR v"
    "\<exists>m w ap f. s' = upd_lapic l f (upd_regs (\<lambda>h. h\<lparr>h_msr := m, h_writes := w, h_apic := ap\<rparr>) s)"
proof -
  define a where "a = (if x2_apic_supported cpuid then By_msr else By_mmio)"
  define v where "v = (if a = By_msr then h_msr (x_hw s) MSR_IA32_APICBASE OR push_bit 11 1 OR push_bit 10 1
      else h_msr (x_hw s) MSR_IA32_APICBASE OR push_bit 11 1)"
  have v10: "bit v 10 \<longleftrightarrow> a = By_msr" and v11: "bit v 11"
    using off by (auto simp: v_def bit_or_iff bit_push_bit_iff bit_1_iff)
  define f where "f = (\<lambda>x :: lapic. x\<lparr>lapic_mode := (if a = By_msr then 2 else 1), reg_access := Some a\<rparr>)"
  define g where "g = (\<lambda>h :: x86_hw. h\<lparr>h_msr := (h_msr h)(MSR_IA32_APICBASE := v), h_writes := h_writes h @ [Wrmsr MSR_IA32_APICBASE v]\<rparr>)"
  define s1 where "s1 = upd_lapic l f (upd_regs g s)"
  have run: "lapic_enable cpuid l s = do { w \<leftarrow> lapic_reg_read cpuid APIC_REG_SVR s1; lapic_reg_write cpuid APIC_REG_SVR (w OR push_bit 8 1) s1 }"
  proof -
    have ok: "hw_wrmsr cpuid MSR_IA32_APICBASE v t = Some (upd_regs g t)" for t
      using x2 v10 by (simp add: hw_wrmsr_def msr_exists_def g_def a_def MSR_IA32_APICBASE_def split: if_splits)
    show ?thesis
    proof (cases "a = By_msr")
      case True
      then have "x2_apic_supported cpuid" by (simp add: a_def split: if_splits)
      with ok True show ?thesis
        by (simp add: lapic_enable_def v_def Let_def s1_def f_def upd_lapic_def upd_regs_def or.assoc)
    next
      case False
      then have "\<not> x2_apic_supported cpuid" "a = By_mmio" by (simp_all add: a_def split: if_splits)
      with ok show ?thesis
        by (simp add: lapic_enable_def v_def Let_def s1_def f_def upd_lapic_def upd_regs_def)
    qed
  qed
  have base: "h_msr (x_hw s1) MSR_IA32_APICBASE = v" by (simp add: s1_def upd_lapic_def g_def)
  have ready: "lapic_ready cpuid s1 l a"
    using l v10 base by (auto simp: lapic_ready_def this_lapic_def s1_def upd_lapic_def f_def)
  obtain w where w: "lapic_reg_read cpuid APIC_REG_SVR s1 = Some w"
  proof (cases a)
    case By_msr
    then have "lapic_reg_read cpuid APIC_REG_SVR s1 = Some (h_msr (x_hw s1) 0x80f)"
      using ready by (simp add: lapic_ready_def lapic_reg_read_def lapic_reg_read64_msr_def hw_rdmsr_def msr_exists_def apic_consts)
    then show thesis by (rule that)
  next
    case By_mmio
    then show thesis using that ready by (simp add: lapic_ready_def lapic_reg_read_def lapic_reg_read32_mmio_def)
  qed
  have o: "unat APIC_REG_SVR < 0x1000" by (simp add: apic_consts)
  obtain s2 where s2: "lapic_reg_write cpuid APIC_REG_SVR (w OR push_bit 8 1) s1 = Some s2" "apic_frame s1 s2"
    "h_writes (x_hw s2) = h_writes (x_hw s1) @ [apic_store a APIC_REG_SVR (w OR push_bit 8 1)]"
    by (rule lapic_write [OF ready o])
  show thesis
  proof (rule that [of s2 a])
    show "lapic_enable cpuid l s = Some s2" using run w s2(1) by simp
    show "lapic_ready cpuid s2 l a" using s2(2) ready by (rule apic_frame_ready)
    show "a = By_msr \<longleftrightarrow> x2_apic_supported cpuid" by (simp add: a_def)
    show "bit (h_msr (x_hw s2) MSR_IA32_APICBASE) 11" using s2(2) base v11 by (auto simp: apic_frame_def)
    show "\<exists>v. bit v 8 \<and> last (h_writes (x_hw s2)) = apic_store a APIC_REG_SVR v"
      using s2(3) by (intro exI [of _ "w OR push_bit 8 1"]) (simp add: bit_or_iff bit_push_bit_iff bit_1_iff)
    obtain m wr ap where "s2 = upd_regs (\<lambda>h. h\<lparr>h_msr := m, h_writes := wr, h_apic := ap\<rparr>) s1" using s2(2) by (auto simp: apic_frame_def)
    then have "s2 = upd_lapic l f (upd_regs (\<lambda>h. h\<lparr>h_msr := m, h_writes := wr, h_apic := ap\<rparr>) s)"
      by (simp add: s1_def upd_lapic_def upd_regs_def g_def)
    then show "\<exists>m w ap f. s2 = upd_lapic l f (upd_regs (\<lambda>h. h\<lparr>h_msr := m, h_writes := w, h_apic := ap\<rparr>) s)" by blast
  qed
qed

lemma lapic_enable_fault:
  assumes "x2_apic_supported cpuid" "\<not> x2apic_present cpuid" shows "lapic_enable cpuid l s = None"
  using assms by (simp add: lapic_enable_def hw_wrmsr_def Let_def bit_or_iff bit_push_bit_iff bit_1_iff)

section \<open>The timer\<close>

definition crystal :: "cpuid_leaf \<Rightarrow> u64" where
  "crystal cpuid = (let (eax, ebx, ecx, edx) = cpuid 0x15 0 in if ecx = 0 then 24000000 else ucast ecx)"

lemma lapic_set_timer_ok:
  assumes r: "lapic_ready cpuid s l a" and freq: "freq \<noteq> 0"
  obtains s' where "lapic_set_timer cpuid freq vector s = Some (0, s')" "apic_frame (upd_regs (h_cr8_update (\<lambda>_. 0)) s) s'"
    "h_writes (x_hw s') = h_writes (x_hw s) @ [apic_store a APIC_REG_TIMER_DCR 0xb,
        apic_store a APIC_REG_LVT_TIMER (0x20000 OR ucast vector), apic_store a APIC_REG_TIMER_ICR (crystal cpuid div freq)]"
proof -
  let ?s = "upd_regs (h_cr8_update (\<lambda>_. 0)) s"
  have r0: "lapic_ready cpuid ?s l a" using r by (simp add: lapic_ready_def this_lapic_def upd_regs_def)
  have o: "unat APIC_REG_TIMER_DCR < 0x1000" "unat APIC_REG_LVT_TIMER < 0x1000" "unat APIC_REG_TIMER_ICR < 0x1000"
    by (simp_all add: apic_consts)
  obtain s1 where s1: "lapic_reg_write cpuid APIC_REG_TIMER_DCR 0xb ?s = Some s1" "apic_frame ?s s1"
    "h_writes (x_hw s1) = h_writes (x_hw ?s) @ [apic_store a APIC_REG_TIMER_DCR 0xb]" by (rule lapic_write [OF r0 o(1)])
  obtain s2 where s2: "lapic_reg_write cpuid APIC_REG_LVT_TIMER (0x20000 OR ucast vector) s1 = Some s2" "apic_frame s1 s2"
    "h_writes (x_hw s2) = h_writes (x_hw s1) @ [apic_store a APIC_REG_LVT_TIMER (0x20000 OR ucast vector)]"
    by (rule lapic_write [OF apic_frame_ready [OF s1(2) r0] o(2)])
  have f2: "apic_frame ?s s2" using s1(2) s2(2) by (rule apic_frame_trans)
  obtain s3 where s3: "lapic_reg_write cpuid APIC_REG_TIMER_ICR (crystal cpuid div freq) s2 = Some s3" "apic_frame s2 s3"
    "h_writes (x_hw s3) = h_writes (x_hw s2) @ [apic_store a APIC_REG_TIMER_ICR (crystal cpuid div freq)]"
    by (rule lapic_write [OF apic_frame_ready [OF f2 r0] o(3)])
  obtain e b c d where q: "cpuid 0x15 0 = (e, b, c, d)" by (cases "cpuid 0x15 0") auto
  have k: "(ucast (if c = 0 then 24000000 else c) :: u64) = crystal cpuid" by (simp add: crystal_def q)
  have "lapic_set_timer cpuid freq vector s = Some (0, s3)"
    using s1(1) s2(1) s3(1) freq by (simp add: lapic_set_timer_def q Let_def k)
  then show thesis
    by (rule that [OF _ apic_frame_trans [OF f2 s3(2)]]) (simp add: s1(3) s2(3) s3(3))
qed

section \<open>Properties\<close>

lemma startup_page:
  assumes "addr < 0x100000" "addr AND 0xfff = (0 :: u64)"
  shows "ucast (ucast (drop_bit 12 addr) :: u8) * 0x1000 = addr"
proof -
  have u: "unat addr < 0x100000" using assms(1) by (simp add: word_less_nat_alt)
  have "unat (addr AND mask 12) = unat addr mod 2 ^ 12" by (rule unat_and_mask)
  then have m: "unat addr mod 0x1000 = 0" using assms(2) by (simp add: mask_eq_exp_minus_1)
  have "unat (drop_bit 12 addr) = unat addr div 0x1000" by (simp add: unat_drop_bit)
  moreover have "unat addr div 0x1000 < 256" using u by (simp add: less_mult_imp_div_less)
  ultimately have "unat (ucast (ucast (drop_bit 12 addr) :: u8) :: u64) = unat addr div 0x1000"
    by (simp add: unsigned_ucast_eq unsigned_take_bit_eq take_bit_nat_eq_self)
  then have "unat (ucast (ucast (drop_bit 12 addr) :: u8) * 0x1000 :: u64) = unat addr div 0x1000 * 0x1000"
    using u div_times_less_eq_dividend [of "unat addr" "0x1000"] by (simp add: unat_word_ariths)
  also have "\<dots> = unat addr" using m by (metis div_mult_mod_eq add.right_neutral)
  finally show ?thesis by (simp only: word_unat_eq_iff)
qed

text \<open>After \<^verbatim>\<open>lapic_enable\<close>, with the registers reached by MSR or by memory, waking a
  processor sends exactly an INIT and two STARTUP interrupts, to that processor and in this order,
  and the page the STARTUP interrupts carry is the entry point's, for every page-aligned entry point below
  1MB.\<close>

theorem lapic_wakes_processor:
  assumes "this_lapic cpuid s = Some l" "\<not> bit (h_msr (x_hw s) MSR_IA32_APICBASE) 10"
    and "x2_apic_supported cpuid \<longrightarrow> x2apic_present cpuid"
    and "addr < 0x100000" "addr AND 0xfff = 0"
  shows "\<exists>s1 s2 ws page. lapic_enable cpuid l s = Some s1 \<and> mp_init_single cpuid apic_id addr s1 = Some s2 \<and>
     h_writes (x_hw s2) = h_writes (x_hw s1) @ ws \<and>
     (\<forall>hi. ipis_sent hi ws = [Ipi (ucast apic_id) 0 5 0, Ipi (ucast apic_id) page 6 0, Ipi (ucast apic_id) page 6 0]) \<and>
     ucast page * 0x1000 = addr"
proof -
  obtain s1 a where s1: "lapic_enable cpuid l s = Some s1" "lapic_ready cpuid s1 l a"
    by (rule lapic_enable_ok [OF assms(1,3,2)], rule that, assumption+)
  obtain s2 ws where s2: "mp_init_single cpuid apic_id addr s1 = Some s2" "h_writes (x_hw s2) = h_writes (x_hw s1) @ ws"
    and i: "\<And>hi. ipis_sent hi ws = wake_ipis (ucast apic_id) (ucast (drop_bit 12 addr)) 0"
    by (rule mp_init_single_ok [OF s1(2), of apic_id addr], rule that, assumption+)
  show ?thesis
    by (intro exI [of _ s1] exI [of _ s2] exI [of _ ws] exI [of _ "ucast (drop_bit 12 addr)"] conjI allI s1(1) s2 startup_page assms(4,5))
      (simp add: i wake_ipis_def)
qed

text \<open>C34. On a processor that has SSE3 but no x2APIC, \<^verbatim>\<open>lapic_enable\<close> faults: the test for
  x2APIC reads the SSE3 bit, so it switches on a mode that does not exist.\<close>

theorem lapic_enable_faults_without_x2apic:
  assumes "cpuid 1 0 = (eax, ebx, ecx, edx)" "bit ecx 0" "\<not> bit ecx 21"
  shows "lapic_enable cpuid l s = None"
proof -
  have "ecx AND 1 \<noteq> 0" using assms(2) by (simp add: and_one_eq bit_0 odd_iff_mod_2_eq_one)
  then show ?thesis
    using assms(1,3) by (intro lapic_enable_fault) (simp_all add: x2_apic_supported_def x2apic_present_def)
qed

lemma lapic_enable_faults_without_x2apic_witness:
  "lapic_enable (\<lambda>_ _. (0, 0, 1, 0)) 0x200 demo_x86 = None"
  by (rule lapic_enable_faults_without_x2apic [of _ 0 0 1 0]) (simp_all add: bit_0 bit_1_iff)

lemma lapic_wakes_processor_witness:
  "\<exists>s1 s2 ws page. lapic_enable demo_leaf 0 demo_x86 = Some s1 \<and> mp_init_single demo_leaf 3 0x20000 s1 = Some s2 \<and>
     h_writes (x_hw s2) = h_writes (x_hw s1) @ ws \<and> ipis_sent 0 ws = [Ipi 3 0 5 0, Ipi 3 page 6 0, Ipi 3 page 6 0] \<and>
     ucast page * 0x1000 = (0x20000 :: u64)"
proof -
  have "this_lapic demo_leaf demo_x86 = Some 0" using demo_x86_facts(1) by (simp add: this_lapic_def) (simp add: demo_x86_def)
  moreover have "\<not> bit (h_msr (x_hw demo_x86) MSR_IA32_APICBASE) 10"
    by (simp add: demo_x86_def MSR_IA32_APICBASE_def bit_iff_odd)
  moreover have "x2_apic_supported demo_leaf \<longrightarrow> x2apic_present demo_leaf"
    by (simp add: x2_apic_supported_def demo_leaf_def)
  ultimately have "\<exists>s1 s2 ws page. lapic_enable demo_leaf 0 demo_x86 = Some s1 \<and> mp_init_single demo_leaf 3 0x20000 s1 = Some s2 \<and>
     h_writes (x_hw s2) = h_writes (x_hw s1) @ ws \<and>
     (\<forall>hi. ipis_sent hi ws = [Ipi (ucast (3 :: u8)) 0 5 0, Ipi (ucast (3 :: u8)) page 6 0, Ipi (ucast (3 :: u8)) page 6 0]) \<and>
     ucast page * 0x1000 = (0x20000 :: u64)"
    by (rule lapic_wakes_processor) simp_all
  then show ?thesis by auto
qed

end
