(* ===== verification/Cpu_Setup.thy ===== *)
theory Cpu_Setup
  imports Lapic Vcpu
begin

text \<open>
  Bringing up processors: \<^verbatim>\<open>arch/x86_64/entry.c\<close> with the control registers of
  \<^verbatim>\<open>cr.h\<close> and \<^verbatim>\<open>fpu.h\<close>. What the processor refuses with \<^verbatim>\<open>#GP\<close> or
  \<^verbatim>\<open>#UD\<close> is \<^verbatim>\<open>None\<close> (Intel SDM volume 1, 13.3; volume 3, 2.5 and 4.10.1), and so is a loop
  that waits for a processor that never answers.
\<close>

section \<open>Control registers\<close>

definition CR0_NW :: u64 where [vmx_consts]: "CR0_NW = push_bit 29 1"
definition CR0_CD :: u64 where [vmx_consts]: "CR0_CD = push_bit 30 1"
definition CR4_PGE :: u64 where [vmx_consts]: "CR4_PGE = push_bit 7 1"
definition CR4_OSFXSR :: u64 where [vmx_consts]: "CR4_OSFXSR = push_bit 9 1"
definition CR4_OSXMMEXCPT :: u64 where [vmx_consts]: "CR4_OSXMMEXCPT = push_bit 10 1"
definition CR4_SMXE :: u64 where [vmx_consts]: "CR4_SMXE = push_bit 14 1"
definition CR4_PCIDE :: u64 where [vmx_consts]: "CR4_PCIDE = push_bit 17 1"
definition XCR0_SSE :: u32 where [vmx_consts]: "XCR0_SSE = push_bit 1 1"
definition XCR0_AVX :: u32 where [vmx_consts]: "XCR0_AVX = push_bit 2 1"
definition XCR0_OPMASK :: u32 where [vmx_consts]: "XCR0_OPMASK = push_bit 5 1"
definition XCR0_ZMM_H256 :: u32 where [vmx_consts]: "XCR0_ZMM_H256 = push_bit 6 1"
definition XCR0_H16_ZMM :: u32 where [vmx_consts]: "XCR0_H16_ZMM = push_bit 7 1"

text \<open>Control register 0: no paging without protection, no \<^verbatim>\<open>NW\<close> without \<^verbatim>\<open>CD\<close>.\<close>

definition hw_write_cr0 :: "u64 \<Rightarrow> x86 \<Rightarrow> x86 option" where
  "hw_write_cr0 v s =
     (if (bit v 31 \<longrightarrow> bit v 0) \<and> (bit v 29 \<longrightarrow> bit v 30) then Some (upd_regs (h_cr0_update (\<lambda>_. v)) s) else None)"

text \<open>Control register 4: a bit can be set only when the processor has the feature, process-context
  identifiers only while the low bits of control register 3 are clear.\<close>

definition cr4_supported :: "cpuid_leaf \<Rightarrow> nat \<Rightarrow> bool" where
  "cr4_supported cpuid n =
     (let (eax, ebx, ecx, edx) = cpuid 1 0
      in if n = 7 then bit edx 13 else if n = 9 then bit edx 24 else if n = 10 then bit edx 25 else if n = 13 then bit ecx 5
         else if n = 14 then bit ecx 6 else if n = 17 then bit ecx 17 else if n = 18 then bit ecx 26 else False)"

definition hw_write_cr4 :: "cpuid_leaf \<Rightarrow> u64 \<Rightarrow> x86 \<Rightarrow> x86 option" where
  "hw_write_cr4 cpuid v s =
     (let old = h_cr4 (x_hw s)
      in if (\<forall>n < 64. bit v n \<and> \<not> bit old n \<longrightarrow> cr4_supported cpuid n) \<and>
            (bit v 17 \<and> \<not> bit old 17 \<longrightarrow> h_cr3 (x_hw s) AND 0xfff = 0)
         then Some (upd_regs (h_cr4_update (\<lambda>_. v)) s) else None)"

text \<open>Extended control register 0: enabled in control register 4, x87 always, only supported
  components, AVX only with SSE, the three parts of AVX-512 only together and with AVX.\<close>

definition hw_xsetbv :: "cpuid_leaf \<Rightarrow> u32 \<Rightarrow> u64 \<Rightarrow> x86 \<Rightarrow> x86 option" where
  "hw_xsetbv cpuid i v s =
     (let (eax, ebx, ecx, edx) = cpuid 0xd 0; supported = ucast eax OR push_bit 32 (ucast edx)
      in if bit (h_cr4 (x_hw s)) 18 \<and> i = 0 \<and> bit v 0 \<and> v AND NOT supported = 0 \<and> (bit v 2 \<longrightarrow> bit v 1) \<and>
            (bit v 5 = bit v 6 \<and> bit v 6 = bit v 7 \<and> (bit v 5 \<longrightarrow> bit v 2))
         then Some (upd_regs (h_xcr0_update (\<lambda>_. v)) s) else None)"

definition x86_cr0_set_bits :: "u64 \<Rightarrow> x86 \<Rightarrow> x86 option" where
  "x86_cr0_set_bits bits s = hw_write_cr0 (h_cr0 (x_hw s) OR bits) s"

definition x86_cr0_clear_bits :: "u64 \<Rightarrow> x86 \<Rightarrow> x86 option" where
  "x86_cr0_clear_bits bits s = hw_write_cr0 (h_cr0 (x_hw s) AND NOT bits) s"

text \<open>The features are those of leaf 1, the state components those of leaf 13; the brand string and
  the tests that enable nothing are left out. First the two values the function computes.\<close>

definition feature_values :: "u32 \<Rightarrow> u32 \<Rightarrow> u32 \<Rightarrow> u64 \<Rightarrow> u64 \<times> u32" where
  "feature_values features1 features2 xcr0_mask cr4 =
     (let xcr0 = 0;
          xcr0 = (if features2 AND push_bit 25 1 \<noteq> 0 then xcr0 OR XCR0_SSE else xcr0);
          (cr4, xcr0) = (if features1 AND push_bit 26 1 \<noteq> 0 then (cr4 OR CR4_OSXSAVE, xcr0 OR ucast XCR0_X87) else (cr4, xcr0));
          cr4 = (if features2 AND push_bit 24 1 \<noteq> 0 then cr4 OR (CR4_OSFXSR OR CR4_OSXMMEXCPT) else cr4);
          xcr0 = (if features1 AND push_bit 28 1 \<noteq> 0 \<and> xcr0_mask AND XCR0_AVX \<noteq> 0 then xcr0 OR XCR0_AVX else xcr0);
          xcr0 = (if xcr0_mask AND XCR0_AVX \<noteq> 0 \<and> xcr0_mask AND XCR0_OPMASK \<noteq> 0 \<and>
                     xcr0_mask AND XCR0_H16_ZMM \<noteq> 0 \<and> xcr0_mask AND XCR0_ZMM_H256 \<noteq> 0
                  then xcr0 OR (XCR0_OPMASK OR XCR0_H16_ZMM OR XCR0_ZMM_H256) else xcr0);
          cr4 = (if features1 AND push_bit 5 1 \<noteq> 0 then cr4 OR CR4_VMXE else cr4);
          cr4 = (if features1 AND push_bit 6 1 \<noteq> 0 then cr4 OR CR4_SMXE else cr4);
          cr4 = (if features1 AND push_bit 17 1 \<noteq> 0 then cr4 OR CR4_PCIDE else cr4);
          cr4 = (if features2 AND push_bit 13 1 \<noteq> 0 then cr4 OR CR4_PGE else cr4)
      in (cr4, xcr0))"

definition enable_cpu_features :: "cpuid_leaf \<Rightarrow> x86 \<Rightarrow> x86 option" where
  "enable_cpu_features cpuid s = do {
     let (eax, ebx, features1, features2) = cpuid 1 0;
     let (xcr0_mask, b, c, d) = cpuid 0xd 0;
     s \<leftarrow> x86_cr0_set_bits (CR0_MP OR CR0_NE) s;
     s \<leftarrow> x86_cr0_clear_bits (CR0_EM OR CR0_CD OR CR0_NW) s;
     let (cr4, xcr0) = feature_values features1 features2 xcr0_mask (h_cr4 (x_hw s));
     s \<leftarrow> hw_write_cr4 cpuid cr4 s;
     (if xcr0 AND ucast XCR0_X87 \<noteq> 0 then hw_xsetbv cpuid 0 (ucast xcr0) s else Some s)
   }"

section \<open>A processor's start\<close>

definition SIZEOF_X86_CPU :: u64 where "SIZEOF_X86_CPU = 216"
definition SIZEOF_LAPIC :: u64 where "SIZEOF_LAPIC = 32"

text \<open>The page tables are built by the boot processor; every processor loads them.\<close>

definition load_kernel_map :: "x86 \<Rightarrow> x86 option" where
  "load_kernel_map s = do {
     s \<leftarrow> (if is_bsp s then do {
             (pt, k) \<leftarrow> map_kernel_memory \<lparr>km_boot = ks_boot (x_ks s), km_mem = x_mem s, km_invept = []\<rparr>;
             Some (s\<lparr>x_pt_phys := pt, x_ks := (x_ks s)\<lparr>ks_boot := km_boot k\<rparr>, x_mem := km_mem k\<rparr>)
           } else Some s);
     Some (if x_pt_phys s \<noteq> 0 then upd_regs (h_cr3_update (\<lambda>_. x_pt_phys s)) s else s)
   }"

definition x86_cpu_init :: "(nat \<Rightarrow> u64) \<Rightarrow> (nat \<Rightarrow> u64) \<Rightarrow> (u64 \<Rightarrow> u8) \<Rightarrow> bitmap \<Rightarrow> cpuid_leaf \<Rightarrow> x86 \<Rightarrow> x86 option" where
  "x86_cpu_init et it old at_zero cpuid s = do {
     c \<leftarrow> get_cpu (arch_cpuid cpuid) (x_ks s);
     (p, s) \<leftarrow> x_kmalloc SIZEOF_X86_CPU s;
     let s = s\<lparr>x_arch_data := (x_arch_data s)(c := p)\<rparr>;
     (ks, s) \<leftarrow> x_kmalloc 0x200000 s;
     let s = s\<lparr>x_kernel_stack := (x_kernel_stack s)(c := ks + 0x200000)\<rparr>;
     (irqs, s) \<leftarrow> x_kmalloc 0x200000 s;
     let s = s\<lparr>x_ks := upd_cpu c (cpu_irq_stack_update (\<lambda>_. irqs + 0x200000)) (x_ks s)\<rparr>;
     (l, s) \<leftarrow> x_kmalloc SIZEOF_LAPIC s;
     if p = 0 then None else do {
       let s = upd_arch p (lapic_ops_update (\<lambda>_. l)) s;
       s \<leftarrow> enable_cpu_features cpuid s;
       s \<leftarrow> load_kernel_map s;
       s \<leftarrow> setup_tables et it cpuid s;
       k \<leftarrow> setup_irq (arch_cpuid cpuid) old at_zero (x_ks s);
       let s = s\<lparr>x_ks := k\<rparr>;
       s \<leftarrow> (if l = 0 then None else lapic_enable cpuid l s);
       let s = s\<lparr>x_ks := upd_cpu c (cpu_status_update (\<lambda>_. CPU_STATUS_IDLE)) (x_ks s)\<rparr>;
       Some (upd_regs (h_if_update (\<lambda>_. True)) s)
     }
   }"

section \<open>Waking the other processors\<close>

text \<open>\<open>boots c\<close>: the processor \<open>c\<close>, once woken, gets through its start and stores that it is
  idle. The first loop starts a processor and waits, the second waits again and prints.\<close>

definition await_idle :: "(u64 \<Rightarrow> bool) \<Rightarrow> u64 \<Rightarrow> x86 \<Rightarrow> x86 option" where
  "await_idle boots c s =
     (if cpu_status (cpus (x_ks s) c) = CPU_STATUS_IDLE then Some s
      else if boots c then Some (s\<lparr>x_ks := upd_cpu c (cpu_status_update (\<lambda>_. CPU_STATUS_IDLE)) (x_ks s)\<rparr>)
      else None)"

fun wake_cpus :: "(u64 \<Rightarrow> bool) \<Rightarrow> u64 \<Rightarrow> cpuid_leaf \<Rightarrow> u64 list \<Rightarrow> x86 \<Rightarrow> x86 option" where
  "wake_cpus boots addr cpuid [] s = Some s"
| "wake_cpus boots addr cpuid (c # cs) s =
     (if cpu_id (cpus (x_ks s) c) = 0 then wake_cpus boots addr cpuid cs s
      else do {
        s \<leftarrow> mp_init_single cpuid (ucast (cpu_id (cpus (x_ks s) c))) addr s;
        s \<leftarrow> await_idle boots c s;
        wake_cpus boots addr cpuid cs s
      })"

fun await_cpus :: "(u64 \<Rightarrow> bool) \<Rightarrow> u64 list \<Rightarrow> x86 \<Rightarrow> x86 option" where
  "await_cpus boots [] s = Some s"
| "await_cpus boots (c # cs) s =
     (if cpu_id (cpus (x_ks s) c) = 0 then await_cpus boots cs s
      else do { s \<leftarrow> await_idle boots c s; await_cpus boots cs s })"

text \<open>\<open>ap_code\<close> is the start-up code, assembly; \<open>madt\<close> is what \<open>acpi_get_desc\<close> finds.\<close>

definition wakeup_all_processors :: "(u64 \<Rightarrow> bool) \<Rightarrow> u8 list \<Rightarrow> u64 \<Rightarrow> cpuid_leaf \<Rightarrow> x86 \<Rightarrow> x86 option" where
  "wakeup_all_processors boots ap_code madt cpuid s = do {
     let ap_load_addr = 0x20000;
     let dest = PHYS2VIRT ap_load_addr;
     let s = s\<lparr>x_bytes := fold (\<lambda>i m. m(dest + of_nat i := ap_code ! i)) [0..<length ap_code] (x_bytes s)\<rparr>;
     if madt = 0 then mp_init_all cpuid ap_load_addr s
     else do {
       s \<leftarrow> wake_cpus boots ap_load_addr cpuid (all_cpus (x_ks s)) s;
       await_cpus boots (all_cpus (x_ks s)) s
     }
   }"

section \<open>The scheduler's timer\<close>

text \<open>The last steps of \<^verbatim>\<open>arch_init\<close>; \<open>tick\<close> is the address of \<^verbatim>\<open>task_timer_tick\<close>. \<^verbatim>\<open>irq + 0x20\<close> is truncated to the \<^verbatim>\<open>u8\<close>
  parameter.\<close>

definition start_timer :: "cpuid_leaf \<Rightarrow> u64 \<Rightarrow> x86 \<Rightarrow> (int \<times> x86) option" where
  "start_timer cpuid tick s = do {
     c \<leftarrow> get_cpu (arch_cpuid cpuid) (x_ks s);
     let (irq, k) = alloc_irqs_cpu (ucast (cpu_id (cpus (x_ks s) c))) 1 (x_ks s);
     c \<leftarrow> get_cpu (arch_cpuid cpuid) k;
     (r, k) \<leftarrow> request_irq_smp c (of_int irq) tick 0 k;
     lapic_set_timer cpuid 1 (of_int (irq + 0x20)) (s\<lparr>x_ks := k\<rparr>)
   }"

section \<open>Features\<close>

text \<open>What the architecture says about the answers of \<^verbatim>\<open>cpuid\<close> on 64-bit processors: \<^verbatim>\<open>FXSR\<close> comes
  with SSE; with XSAVE there are SSE and the x87 and SSE components, and the AVX component comes with AVX.\<close>

definition features_consistent :: "cpuid_leaf \<Rightarrow> bool" where
  "features_consistent cpuid \<longleftrightarrow>
     (let (eax, ebx, f1, f2) = cpuid 1 0; (m, b, c, d) = cpuid 0xd 0
      in (bit f2 24 \<longrightarrow> bit f2 25) \<and> (bit f1 26 \<longrightarrow> bit f2 25 \<and> bit m 0 \<and> bit m 1 \<and> (bit m 2 \<longrightarrow> bit f1 28)))"

lemma flag_bit: "n < LENGTH('a) \<Longrightarrow> (x :: 'a::len word) AND push_bit n 1 \<noteq> 0 \<longleftrightarrow> bit x n"
  using and_flag_eq_0 [of n x] by simp

lemma flag_bits:
  "(x :: u32) AND XCR0_AVX \<noteq> 0 \<longleftrightarrow> bit x 2" "x AND XCR0_OPMASK \<noteq> 0 \<longleftrightarrow> bit x 5"
  "x AND XCR0_H16_ZMM \<noteq> 0 \<longleftrightarrow> bit x 7" "x AND XCR0_ZMM_H256 \<noteq> 0 \<longleftrightarrow> bit x 6"
  "x AND ucast XCR0_X87 \<noteq> 0 \<longleftrightarrow> bit x 0"
  using flag_bit [of 2 x] flag_bit [of 5 x] flag_bit [of 7 x] flag_bit [of 6 x] flag_bit [of 0 x]
  by (simp_all add: XCR0_AVX_def XCR0_OPMASK_def XCR0_H16_ZMM_def XCR0_ZMM_H256_def XCR0_X87_def)

lemma ucast_x87: "ucast XCR0_X87 = (push_bit 0 1 :: u32)"
  by (simp add: XCR0_X87_def)

text \<open>The values the code computes, as functions of the features.\<close>

definition new_cr4 :: "u32 \<Rightarrow> u32 \<Rightarrow> u64 \<Rightarrow> u64" where
  "new_cr4 f1 f2 cr4 = cr4 OR (if bit f1 26 then push_bit 18 1 else 0) OR (if bit f2 24 then push_bit 9 1 OR push_bit 10 1 else 0) OR
     (if bit f1 5 then push_bit 13 1 else 0) OR (if bit f1 6 then push_bit 14 1 else 0) OR
     (if bit f1 17 then push_bit 17 1 else 0) OR (if bit f2 13 then push_bit 7 1 else 0)"

definition new_xcr0 :: "u32 \<Rightarrow> u32 \<Rightarrow> u32 \<Rightarrow> u32" where
  "new_xcr0 f1 f2 m = (if bit f2 25 then push_bit 1 1 else 0) OR (if bit f1 26 then push_bit 0 1 else 0) OR
     (if bit f1 28 \<and> bit m 2 then push_bit 2 1 else 0) OR
     (if bit m 2 \<and> bit m 5 \<and> bit m 7 \<and> bit m 6 then push_bit 5 1 OR push_bit 7 1 OR push_bit 6 1 else 0)"

lemma feature_values_eq: "feature_values f1 f2 m cr4 = (new_cr4 f1 f2 cr4, new_xcr0 f1 f2 m)"
proof -
  have f: "f2 AND push_bit 25 1 \<noteq> 0 \<longleftrightarrow> bit f2 25" "f1 AND push_bit 26 1 \<noteq> 0 \<longleftrightarrow> bit f1 26" "f2 AND push_bit 24 1 \<noteq> 0 \<longleftrightarrow> bit f2 24"
    "f1 AND push_bit 28 1 \<noteq> 0 \<longleftrightarrow> bit f1 28" "f1 AND push_bit 5 1 \<noteq> 0 \<longleftrightarrow> bit f1 5" "f1 AND push_bit 6 1 \<noteq> 0 \<longleftrightarrow> bit f1 6"
    "f1 AND push_bit 17 1 \<noteq> 0 \<longleftrightarrow> bit f1 17" "f2 AND push_bit 13 1 \<noteq> 0 \<longleftrightarrow> bit f2 13"
    by (rule flag_bit; simp)+
  have o: "(if P then x OR y else x) = x OR (if P then y else 0)" for P and x y :: "'b::len word" by simp
  have p: "(if P then (x OR y, u OR v) else (x, u)) = (x OR (if P then y else 0), u OR (if P then v else 0))"
    for P and x y :: "'b::len word" and u v :: "'c::len word" by simp
  show ?thesis
    unfolding feature_values_def f flag_bits Let_def
    by (simp only: o p case_prod_conv new_cr4_def new_xcr0_def vmx_consts ucast_x87 or.assoc or.left_neutral simp_thms cong: if_weak_cong conj_cong)
      (simp add: vmx_consts)
qed

lemma bit_flag: "k < LENGTH('a) \<Longrightarrow> bit (push_bit k (1 :: 'a::len word)) n \<longleftrightarrow> n = k"
  by (auto simp: bit_exp_iff)

lemma bit_if: "bit (if P then x else (0 :: 'a::len word)) n \<longleftrightarrow> P \<and> bit x n"
  by simp

lemma new_cr4_bit:
  "bit (new_cr4 f1 f2 cr4) n \<longleftrightarrow> bit cr4 n \<or> bit f1 26 \<and> n = 18 \<or> bit f2 24 \<and> (n = 9 \<or> n = 10) \<or> bit f1 5 \<and> n = 13 \<or>
     bit f1 6 \<and> n = 14 \<or> bit f1 17 \<and> n = 17 \<or> bit f2 13 \<and> n = 7"
  unfolding new_cr4_def by (simp only: bit_or_iff bit_if) (simp add: bit_flag disj_assoc del: push_bit_of_1)

lemma new_xcr0_bit:
  "bit (new_xcr0 f1 f2 m) n \<longleftrightarrow> bit f2 25 \<and> n = 1 \<or> bit f1 26 \<and> n = 0 \<or> (bit f1 28 \<and> bit m 2) \<and> n = 2 \<or>
     (bit m 2 \<and> bit m 5 \<and> bit m 7 \<and> bit m 6) \<and> (n = 5 \<or> n = 7 \<or> n = 6)"
proof -
  have f: "bit (push_bit k 1 :: u32) n = (n = k)" if "k < 32" for k
    using that by (intro bit_flag) simp
  have "bit (push_bit 0 1 :: u32) n = (n = 0)" "bit (push_bit 1 1 :: u32) n = (n = 1)"
    "bit (push_bit 2 1 :: u32) n = (n = 2)" "bit (push_bit 5 1 :: u32) n = (n = 5)"
    "bit (push_bit 6 1 :: u32) n = (n = 6)" "bit (push_bit 7 1 :: u32) n = (n = 7)"
    by (rule f, simp)+
  then show ?thesis
    unfolding new_xcr0_def bit_or_iff bit_if by (simp only: disj_assoc)
qed

lemma cr4_write_ok:
  assumes l1: "cpuid 1 0 = (a1, b1, f1, f2)" and leg: "features_consistent cpuid"
    and old: "h_cr4 (x_hw s) = cr4" and pcid: "bit f1 17 \<longrightarrow> bit cr4 17 \<or> h_cr3 (x_hw s) AND 0xfff = 0"
  shows "hw_write_cr4 cpuid (new_cr4 f1 f2 cr4) s = Some (upd_regs (h_cr4_update (\<lambda>_. new_cr4 f1 f2 cr4)) s)"
proof -
  have sse: "bit f2 24 \<longrightarrow> bit f2 25"
    using leg l1 unfolding features_consistent_def by (auto simp: Let_def split: prod.splits)
  have "bit (new_cr4 f1 f2 cr4) n \<and> \<not> bit cr4 n \<longrightarrow> cr4_supported cpuid n" for n
    using sse unfolding new_cr4_bit cr4_supported_def l1 by auto
  moreover have "bit (new_cr4 f1 f2 cr4) 17 \<and> \<not> bit cr4 17 \<longrightarrow> h_cr3 (x_hw s) AND 0xfff = 0"
    using pcid unfolding new_cr4_bit by auto
  ultimately show ?thesis
    unfolding hw_write_cr4_def old Let_def by presburger
qed

lemma xsetbv_ok:
  assumes l1: "cpuid 1 0 = (a1, b1, f1, f2)" and ld: "cpuid 0xd 0 = (m, b, c, d)" and leg: "features_consistent cpuid"
    and xs: "bit f1 26" and cr4: "bit (h_cr4 (x_hw s)) 18"
  shows "hw_xsetbv cpuid 0 (ucast (new_xcr0 f1 f2 m)) s = Some (upd_regs (h_xcr0_update (\<lambda>_. ucast (new_xcr0 f1 f2 m))) s)"
proof -
  let ?v = "ucast (new_xcr0 f1 f2 m) :: u64"
  have c: "bit f2 25" "bit m 0" "bit m 1" "bit m 2 \<longrightarrow> bit f1 28"
    using leg l1 ld xs unfolding features_consistent_def by (auto simp: Let_def)
  have v: "bit ?v n \<longleftrightarrow> bit (new_xcr0 f1 f2 m) n" for n
    by (auto simp: bit_ucast_iff dest: bit_imp_le_length)
  have sub: "bit (new_xcr0 f1 f2 m) n \<Longrightarrow> bit m n" for n
    using c unfolding new_xcr0_bit by auto
  have "?v AND NOT (ucast m OR push_bit 32 (ucast d)) = 0"
    by (rule bit_word_eqI) (auto simp: bit_and_iff bit_or_iff bit_not_iff v bit_ucast_iff dest: sub)
  moreover have "bit ?v 0" "bit ?v 2 \<longrightarrow> bit ?v 1" "bit ?v 5 = bit ?v 6" "bit ?v 6 = bit ?v 7" "bit ?v 5 \<longrightarrow> bit ?v 2"
    using c xs unfolding v new_xcr0_bit by auto
  ultimately show ?thesis
    using cr4 by (simp add: hw_xsetbv_def ld)
qed

lemma cr0_clear_ok:
  assumes "bit v 31 \<longrightarrow> bit v 0"
  shows "hw_write_cr0 (v AND NOT (CR0_EM OR CR0_CD OR CR0_NW)) s =
     Some (upd_regs (h_cr0_update (\<lambda>_. v AND NOT (CR0_EM OR CR0_CD OR CR0_NW))) s)"
  using assms unfolding hw_write_cr0_def
  by (simp add: bit_and_iff bit_or_iff bit_not_iff vmx_consts bit_flag del: push_bit_of_1)

lemma cr0_set_ok:
  assumes "bit v 31 \<longrightarrow> bit v 0" "bit v 29 \<longrightarrow> bit v 30"
  shows "hw_write_cr0 (v OR (CR0_MP OR CR0_NE)) s = Some (upd_regs (h_cr0_update (\<lambda>_. v OR (CR0_MP OR CR0_NE))) s)"
  using assms unfolding hw_write_cr0_def
  by (auto simp: bit_or_iff vmx_consts bit_flag simp del: push_bit_of_1)

lemma enable_cpu_features_result:
  assumes l1: "cpuid 1 0 = (a1, b1, f1, f2)" and ld: "cpuid 0xd 0 = (m, b, c, d)" and leg: "features_consistent cpuid"
    and cr0: "bit (h_cr0 (x_hw s)) 31 \<longrightarrow> bit (h_cr0 (x_hw s)) 0" "bit (h_cr0 (x_hw s)) 29 \<longrightarrow> bit (h_cr0 (x_hw s)) 30"
    and pcid: "bit f1 17 \<longrightarrow> bit (h_cr4 (x_hw s)) 17 \<or> h_cr3 (x_hw s) AND 0xfff = 0"
  shows "enable_cpu_features cpuid s = Some (upd_regs
    (\<lambda>h. h\<lparr>h_cr0 := (h_cr0 h OR (CR0_MP OR CR0_NE)) AND NOT (CR0_EM OR CR0_CD OR CR0_NW),
          h_cr4 := new_cr4 f1 f2 (h_cr4 h),
          h_xcr0 := (if bit f1 26 then ucast (new_xcr0 f1 f2 m) else h_xcr0 h)\<rparr>) s)"
proof -
  let ?v0 = "h_cr0 (x_hw s) OR (CR0_MP OR CR0_NE)"
  let ?s1 = "upd_regs (h_cr0_update (\<lambda>_. ?v0)) s"
  let ?v1 = "?v0 AND NOT (CR0_EM OR CR0_CD OR CR0_NW)"
  let ?s2 = "upd_regs (h_cr0_update (\<lambda>_. ?v1)) ?s1"
  let ?c4 = "new_cr4 f1 f2 (h_cr4 (x_hw s))"
  let ?s3 = "upd_regs (h_cr4_update (\<lambda>_. ?c4)) ?s2"
  have w0: "hw_write_cr0 ?v0 s = Some ?s1" by (rule cr0_set_ok [OF cr0])
  have w1: "hw_write_cr0 ?v1 ?s1 = Some ?s2"
    by (rule cr0_clear_ok) (use cr0 in \<open>simp add: bit_or_iff vmx_consts bit_flag del: push_bit_of_1\<close>)
  have w4: "hw_write_cr4 cpuid ?c4 ?s2 = Some ?s3"
    by (rule cr4_write_ok [OF l1 leg]) (use pcid in \<open>simp_all add: upd_regs_def\<close>)
  have wx: "bit f1 26 \<Longrightarrow> hw_xsetbv cpuid 0 (ucast (new_xcr0 f1 f2 m)) ?s3 =
      Some (upd_regs (h_xcr0_update (\<lambda>_. ucast (new_xcr0 f1 f2 m))) ?s3)"
    by (rule xsetbv_ok [OF l1 ld leg]) (simp_all add: upd_regs_def new_cr4_bit)
  have x: "new_xcr0 f1 f2 m AND ucast XCR0_X87 \<noteq> 0 \<longleftrightarrow> bit f1 26"
    unfolding flag_bits new_xcr0_bit by simp
  have r0: "h_cr0 (x_hw ?s1) = ?v0" and r4: "h_cr4 (x_hw ?s2) = h_cr4 (x_hw s)"
    by (simp_all add: upd_regs_def)
  show ?thesis
    unfolding enable_cpu_features_def l1 ld Let_def case_prod_conv x86_cr0_set_bits_def w0 bind.bind_lunit
      x86_cr0_clear_bits_def r0 w1 r4 feature_values_eq w4 x
    using wx by (simp add: upd_regs_def)
qed

text \<open>C32. \<open>enable_cpu_features\<close> never faults on a processor whose \<^verbatim>\<open>cpuid\<close> answers are consistent and
  whose control register 0 is legal, and when process-context identifiers exist their bit is set already or the
  low bits of control register 3 are clear. Control register 0 then has \<^verbatim>\<open>MP\<close> and \<^verbatim>\<open>NE\<close> and neither emulation nor
  disabled caches, control register 4 has in addition to its old bits exactly those of the features
  found, and with XSAVE, extended control register 0 exactly the components the processor has of x87, SSE,
  AVX and AVX-512.\<close>

theorem enable_cpu_features_safe:
  assumes l1: "cpuid 1 0 = (a1, b1, f1, f2)" and ld: "cpuid 0xd 0 = (m, b, c, d)" and leg: "features_consistent cpuid"
    and cr0: "bit (h_cr0 (x_hw s)) 31 \<longrightarrow> bit (h_cr0 (x_hw s)) 0" "bit (h_cr0 (x_hw s)) 29 \<longrightarrow> bit (h_cr0 (x_hw s)) 30"
    and pcid: "bit f1 17 \<longrightarrow> bit (h_cr4 (x_hw s)) 17 \<or> h_cr3 (x_hw s) AND 0xfff = 0"
  shows "enable_cpu_features cpuid s = Some (upd_regs
    (\<lambda>h. h\<lparr>h_cr0 := (h_cr0 h OR (CR0_MP OR CR0_NE)) AND NOT (CR0_EM OR CR0_CD OR CR0_NW),
          h_cr4 := new_cr4 f1 f2 (h_cr4 h),
          h_xcr0 := (if bit f1 26 then ucast (new_xcr0 f1 f2 m) else h_xcr0 h)\<rparr>) s)"
  by (rule enable_cpu_features_result [OF assms])

definition full_leaf :: cpuid_leaf where
  "full_leaf eax ecx = (if eax = 1 then (0, 0, 0x14220020, 0x03002000) else if eax = 0xd then (0xe7, 0, 0, 0) else (0, 0, 0, 0))"

lemma enable_cpu_features_safe_witness:
  "map_option (\<lambda>s. (h_cr0 (x_hw s), h_cr4 (x_hw s), h_xcr0 (x_hw s))) (enable_cpu_features full_leaf demo_x86) =
     Some (0x80000033, 0x626a0, 0xe7)"
proof -
  have l: "full_leaf 1 0 = (0, 0, 0x14220020, 0x03002000)" "full_leaf 0xd 0 = (0xe7, 0, 0, 0)"
    by (simp_all add: full_leaf_def)
  have c: "features_consistent full_leaf"
    unfolding features_consistent_def l by simp
  show ?thesis
    by (subst enable_cpu_features_safe [OF l c])
      (simp_all add: demo_x86_def upd_regs_def new_cr4_def new_xcr0_def vmx_consts)
qed


section \<open>Every processor is woken\<close>

lemma ipis_sent_append: "\<exists>hi'. ipis_sent hi (us @ ws) = ipis_sent hi us @ ipis_sent hi' ws"
proof (induction us arbitrary: hi)
  case (Cons u us)
  then show ?case by (cases u) auto
qed auto

text \<open>What waking leaves: the processors and their ids, and the way to the APIC.\<close>

definition same_cpus :: "x86 \<Rightarrow> x86 \<Rightarrow> bool" where
  "same_cpus s t \<longleftrightarrow> node_list (x_ks t) = node_list (x_ks s) \<and> nodes (x_ks t) = nodes (x_ks s) \<and>
     (\<forall>c. cpu_id (cpus (x_ks t) c) = cpu_id (cpus (x_ks s) c)) \<and> x_bytes t = x_bytes s \<and>
     (\<forall>cpuid l a. lapic_ready cpuid s l a \<longrightarrow> lapic_ready cpuid t l a)"

lemma same_cpus_trans: "same_cpus s t \<Longrightarrow> same_cpus t u \<Longrightarrow> same_cpus s u"
  by (simp add: same_cpus_def)

lemma same_cpus_all: "same_cpus s t \<Longrightarrow> all_cpus (x_ks t) = all_cpus (x_ks s)"
  by (simp add: same_cpus_def all_cpus_def)

definition idle :: "x86 \<Rightarrow> u64 \<Rightarrow> bool" where
  "idle s c \<longleftrightarrow> cpu_status (cpus (x_ks s) c) = CPU_STATUS_IDLE"

lemma await_idle_ok:
  assumes "boots c"
  obtains t where "await_idle boots c s = Some t" "same_cpus s t" "h_writes (x_hw t) = h_writes (x_hw s)"
    "\<And>d. idle t d \<longleftrightarrow> d = c \<or> idle s d"
proof (cases "idle s c")
  case True
  show thesis
    by (rule that [of s]) (use True in \<open>auto simp: await_idle_def idle_def same_cpus_def\<close>)
next
  case False
  let ?t = "s\<lparr>x_ks := upd_cpu c (cpu_status_update (\<lambda>_. CPU_STATUS_IDLE)) (x_ks s)\<rparr>"
  have "this_lapic cpuid ?t = this_lapic cpuid s" for cpuid
    by (simp add: this_lapic_def get_cpu_status)
  then have "lapic_ready cpuid s l a \<Longrightarrow> lapic_ready cpuid ?t l a" for cpuid l a
    by (simp add: lapic_ready_def)
  then have "same_cpus s ?t" by (auto simp: same_cpus_def upd_cpu_def)
  moreover have "idle ?t d \<longleftrightarrow> d = c \<or> idle s d" for d by (auto simp: idle_def upd_cpu_def)
  moreover have "await_idle boots c s = Some ?t" using False assms by (simp add: await_idle_def idle_def)
  ultimately show thesis by (intro that [of ?t]) simp_all
qed

lemma wake_cpus_ok:
  assumes "lapic_ready cpuid s l a" "\<forall>c \<in> set cs. boots c"
  shows "\<exists>t ws. wake_cpus boots addr cpuid cs s = Some t \<and> same_cpus s t \<and> h_writes (x_hw t) = h_writes (x_hw s) @ ws \<and>
     (\<forall>hi. ipis_sent hi ws = concat (map (\<lambda>c. wake_ipis (ucast (ucast (cpu_id (cpus (x_ks s) c)) :: u8)) (ucast (drop_bit 12 addr)) 0)
                                        [c \<leftarrow> cs. cpu_id (cpus (x_ks s) c) \<noteq> 0])) \<and>
     (\<forall>c. idle t c \<longleftrightarrow> idle s c \<or> c \<in> set cs \<and> cpu_id (cpus (x_ks s) c) \<noteq> 0)"
  using assms
proof (induction cs arbitrary: s)
  case Nil
  then show ?case by (auto simp: same_cpus_def)
next
  case (Cons c cs)
  show ?case
  proof (cases "cpu_id (cpus (x_ks s) c) = 0")
    case True
    with Cons.IH [of s] Cons.prems show ?thesis by auto
  next
    case False
    let ?id = "ucast (cpu_id (cpus (x_ks s) c)) :: u8"
    obtain s1 w1 where s1: "mp_init_single cpuid ?id addr s = Some s1" "apic_frame s s1"
      "h_writes (x_hw s1) = h_writes (x_hw s) @ w1"
      and i1: "\<And>hi. ipis_sent hi w1 = wake_ipis (ucast ?id) (ucast (drop_bit 12 addr)) 0"
      by (rule mp_init_single_ok [OF Cons.prems(1), of ?id addr], rule that, assumption+)
    have f1: "same_cpus s s1"
      using s1(2) apic_frame_ready [OF s1(2)] by (auto simp: same_cpus_def apic_frame_def upd_regs_def)
    have b: "boots c" using Cons.prems(2) by simp
    obtain s2 where s2: "await_idle boots c s1 = Some s2" "same_cpus s1 s2" "h_writes (x_hw s2) = h_writes (x_hw s1)"
      and d2: "\<And>d. idle s2 d \<longleftrightarrow> d = c \<or> idle s1 d"
      by (rule await_idle_ok [where boots = boots and c = c and s = s1, OF b], rule that, assumption+)
    have f2: "same_cpus s s2" using f1 s2(2) by (rule same_cpus_trans)
    then have id2: "cpu_id (cpus (x_ks s2) d) = cpu_id (cpus (x_ks s) d)" for d by (simp add: same_cpus_def)
    have d1: "idle s1 d = idle s d" for d using apic_frame_same(1) [OF s1(2)] by (simp add: idle_def)
    have r2: "lapic_ready cpuid s2 l a" using f2 Cons.prems(1) by (simp add: same_cpus_def)
    obtain t w2 where t: "wake_cpus boots addr cpuid cs s2 = Some t" "same_cpus s2 t" "h_writes (x_hw t) = h_writes (x_hw s2) @ w2"
      and i2: "\<And>hi. ipis_sent hi w2 = concat (map (\<lambda>c. wake_ipis (ucast (ucast (cpu_id (cpus (x_ks s) c)) :: u8))
             (ucast (drop_bit 12 addr)) 0) [c \<leftarrow> cs. cpu_id (cpus (x_ks s) c) \<noteq> 0])"
      and dt: "\<And>d. idle t d \<longleftrightarrow> idle s2 d \<or> d \<in> set cs \<and> cpu_id (cpus (x_ks s) d) \<noteq> 0"
      using Cons.IH [OF r2] Cons.prems(2) unfolding id2 by auto
    have "wake_cpus boots addr cpuid (c # cs) s = Some t" using False s1(1) s2(1) t(1) by simp
    moreover have "same_cpus s t" using f2 t(2) by (rule same_cpus_trans)
    moreover have "h_writes (x_hw t) = h_writes (x_hw s) @ (w1 @ w2)" by (simp add: t(3) s2(3) s1(3))
    moreover have "ipis_sent hi (w1 @ w2) = ipis_sent hi w1 @ ipis_sent hi w2" for hi
      using ipis_sent_append [of hi w1 w2] i2 by auto
    moreover have "idle t d \<longleftrightarrow> idle s d \<or> d \<in> set (c # cs) \<and> cpu_id (cpus (x_ks s) d) \<noteq> 0" for d
      using False by (auto simp: dt d2 d1)
    ultimately show ?thesis using False
      by (intro exI [of _ t] exI [of _ "w1 @ w2"]) (simp add: i1 i2)
  qed
qed

lemma await_cpus_idle:
  "\<forall>c \<in> set cs. cpu_id (cpus (x_ks s) c) \<noteq> 0 \<longrightarrow> idle s c \<Longrightarrow> await_cpus boots cs s = Some s"
  by (induction cs) (auto simp: await_idle_def idle_def)

lemma copy_bytes:
  fixes m :: "u64 \<Rightarrow> u8"
  assumes "i < n" "n < 2 ^ 64"
  shows "fold (\<lambda>i m. m(d + of_nat i := g i)) [0..<n] m (d + of_nat i) = g i"
  using assms
proof (induction n)
  case (Suc n)
  have "(of_nat i :: u64) = of_nat n \<longleftrightarrow> i = n" using Suc.prems by (intro of_nat_eq_small) simp_all
  then show ?case using Suc by auto
qed simp

lemma ucast_byte: "(x :: u64) < 256 \<Longrightarrow> ucast (ucast x :: u8) = (ucast x :: u32)"
  by (simp add: word_unat_eq_iff unsigned_ucast_eq unsigned_take_bit_eq take_bit_nat_eq_self word_less_nat_alt)

text \<open>C23. When the firmware has a MADT and every processor answers, \<open>wakeup_all_processors\<close> returns,
  the start-up code is at 0x20000, exactly one INIT and two STARTUP interrupts for page 0x20 were
  sent to each processor except the one with id 0, in the order of the processor lists, and all those processors are
  idle. (Ids fit a byte, which is what the interrupt carries.)\<close>

theorem wakeup_starts_all:
  assumes r: "lapic_ready cpuid s l a" and madt: "madt \<noteq> 0" and b: "\<forall>c \<in> set (all_cpus (x_ks s)). boots c"
    and ids: "\<forall>c \<in> set (all_cpus (x_ks s)). cpu_id (cpus (x_ks s) c) < 256" and len: "length code \<le> 0x1000"
  shows "\<exists>t ws. wakeup_all_processors boots code madt cpuid s = Some t \<and> h_writes (x_hw t) = h_writes (x_hw s) @ ws \<and>
     (\<forall>hi. ipis_sent hi ws = concat (map (\<lambda>c. wake_ipis (ucast (cpu_id (cpus (x_ks s) c))) 0x20 0)
                                        [c \<leftarrow> all_cpus (x_ks s). cpu_id (cpus (x_ks s) c) \<noteq> 0])) \<and>
     (\<forall>c \<in> set (all_cpus (x_ks s)). cpu_id (cpus (x_ks s) c) \<noteq> 0 \<longrightarrow> cpu_status (cpus (x_ks t) c) = CPU_STATUS_IDLE) \<and>
     (\<forall>i < length code. x_bytes t (PHYS2VIRT 0x20000 + of_nat i) = code ! i)"
proof -
  let ?m = "fold (\<lambda>i m. m(PHYS2VIRT 0x20000 + of_nat i := code ! i)) [0..<length code] (x_bytes s)"
  let ?s = "s\<lparr>x_bytes := ?m\<rparr>"
  have r0: "lapic_ready cpuid ?s l a" using r by (simp add: lapic_ready_def this_lapic_def)
  have b0: "\<forall>c \<in> set (all_cpus (x_ks ?s)). boots c" using b by simp
  obtain t ws where t: "wake_cpus boots 0x20000 cpuid (all_cpus (x_ks ?s)) ?s = Some t" "same_cpus ?s t" "h_writes (x_hw t) = h_writes (x_hw ?s) @ ws"
    and i: "\<forall>hi. ipis_sent hi ws = concat (map (\<lambda>c. wake_ipis (ucast (ucast (cpu_id (cpus (x_ks ?s) c)) :: u8)) (ucast (drop_bit 12 (0x20000 :: u64))) 0)
                                        [c \<leftarrow> all_cpus (x_ks ?s). cpu_id (cpus (x_ks ?s) c) \<noteq> 0])"
    and d: "\<forall>c. idle t c \<longleftrightarrow> idle ?s c \<or> c \<in> set (all_cpus (x_ks ?s)) \<and> cpu_id (cpus (x_ks ?s) c) \<noteq> 0"
    using wake_cpus_ok [OF r0 b0, of "0x20000"] by blast
  have u: "ucast (ucast (cpu_id (cpus (x_ks s) c)) :: u8) = (ucast (cpu_id (cpus (x_ks s) c)) :: u32)" if "c \<in> set (all_cpus (x_ks s))" for c
    using ids that by (intro ucast_byte) simp
  have i': "ipis_sent hi ws = concat (map (\<lambda>c. wake_ipis (ucast (cpu_id (cpus (x_ks s) c))) 0x20 0)
      [c \<leftarrow> all_cpus (x_ks s). cpu_id (cpus (x_ks s) c) \<noteq> 0])" for hi
    unfolding i [rule_format] by (rule arg_cong [of _ _ concat], rule map_cong) (auto simp: u)
  have ac: "all_cpus (x_ks t) = all_cpus (x_ks s)" using same_cpus_all [OF t(2)] by simp
  have id: "cpu_id (cpus (x_ks t) c) = cpu_id (cpus (x_ks s) c)" for c using t(2) by (simp add: same_cpus_def)
  have "await_cpus boots (all_cpus (x_ks t)) t = Some t"
    using d by (intro await_cpus_idle) (simp add: ac id)
  then have "wakeup_all_processors boots code madt cpuid s = Some t"
    using t(1) madt by (simp add: wakeup_all_processors_def Let_def)
  moreover have "x_bytes t (PHYS2VIRT 0x20000 + of_nat j) = code ! j" if "j < length code" for j
    using t(2) len copy_bytes [OF that, of "PHYS2VIRT 0x20000"] by (simp add: same_cpus_def)
  ultimately show ?thesis using t(3) i' d
    by (intro exI [of _ t] exI [of _ ws]) (simp add: idle_def)
qed


section \<open>The timer ticks\<close>

lemma ready_same_ids:
  assumes "lapic_ready cpuid s l a" "\<And>n. get_cpu n k = get_cpu n (x_ks s)"
  shows "lapic_ready cpuid (s\<lparr>x_ks := k\<rparr>) l a"
  using assms by (simp add: lapic_ready_def this_lapic_def)

lemma request_irq_smp_ok:
  assumes "kmalloc SIZEOF_IRQ_ACTION 0 (ks_boot s) = Some (p, b)" "p \<noteq> 0" "unat irq < NR_IRQ_DESC"
  shows "\<exists>s'. request_irq_smp c irq h d s = Some (0, s')"
  using assms by (simp add: request_irq_smp_def ks_kmalloc_def)

lemma request_irq_bitmap:
  assumes "request_irq_smp c irq h d s = Some (r, s')"
  shows "irq_bitmap (cpus s' e) = irq_bitmap (cpus s e)"
proof -
  have "irq_bitmap (cpus (upd_cpu c (add_action i x) s) e) = irq_bitmap (cpus s e)" for i x and s :: kstate
    by (simp add: upd_cpu_def add_action_def)
  then show ?thesis
    using assms by (auto simp: request_irq_smp_def ks_kmalloc_def bind_eq_Some_conv split: if_splits)
qed

lemma vec_unat: "k < 224 \<Longrightarrow> unat (of_nat (k + 32) :: u64) = k + 32" "k < 224 \<Longrightarrow> unat (of_nat (k + 32) :: u8) = k + 32"
  by (simp_all add: unat_of_nat take_bit_nat_eq_self del: of_nat_add)

lemma vec_ucast: "k < 224 \<Longrightarrow> ucast (of_nat (k + 32) :: u8) = (of_nat (k + 32) :: u64)"
  by (simp add: word_unat_eq_iff unsigned_ucast_eq vec_unat take_bit_nat_eq_self del: of_nat_add)

lemma vec_32: "k < 224 \<Longrightarrow> (32 :: u64) \<le> of_nat (k + 32)" "unat (of_nat (k + 32) - 32 :: u64) = unat (of_nat k :: u64)"
  by (simp add: word_le_nat_alt vec_unat del: of_nat_add) simp

text \<open>C24. The last steps of \<^verbatim>\<open>arch_init\<close> on a processor with a free vector and no handlers: they return, the
  timer is periodic with one second of the crystal as its period, and the vector programmed into it is one that was free
  and now calls the scheduler's tick once and then signals the end of interrupt.\<close>

theorem start_timer_ticks:
  assumes ready: "lapic_ready cpuid s l a" and cpu: "get_cpu (arch_cpuid cpuid) (x_ks s) = Some c"
    and the: "the_cpu (x_ks s) (ucast (cpu_id (cpus (x_ks s) c))) c"
    and bm: "bitmap_size (irq_bitmap (cpus (x_ks s) c)) = 224" "r < 224" "\<not> bit_at (irq_bitmap (cpus (x_ks s) c)) r"
    and none: "\<And>i. i < 224 \<Longrightarrow> irq_action_list (irq_descs (cpus (x_ks s) c) i) = []"
    and mem: "kmalloc SIZEOF_IRQ_ACTION 0 (ks_boot (x_ks s)) = Some (p, b)" "p \<noteq> 0"
    and run: "\<And>x v t. run x v t = Some t"
  shows "\<exists>k t k'. start_timer cpuid tick s = Some (0, t) \<and> k < 224 \<and> \<not> bit_at (irq_bitmap (cpus (x_ks s) c)) k \<and>
     bit_at (irq_bitmap (cpus (x_ks t) c)) k \<and> h_cr8 (x_hw t) = 0 \<and>
     h_writes (x_hw t) = h_writes (x_hw s) @ [apic_store a APIC_REG_TIMER_DCR 0xb,
        apic_store a APIC_REG_LVT_TIMER (0x20000 OR of_nat (k + 32)), apic_store a APIC_REG_TIMER_ICR (crystal cpuid)] \<and>
     intr_handler_common run (arch_cpuid cpuid) (of_nat (k + 32)) (x_ks t) = Some (k', [Handler tick (of_nat (k + 32)) 0, Eoi])"
proof -
  let ?id = "ucast (cpu_id (cpus (x_ks s) c)) :: u32" and ?b = "irq_bitmap (cpus (x_ks s) c)"
  obtain k bm' where al: "alloc_irqs_cpu ?id 1 (x_ks s) = (int k, upd_cpu c (\<lambda>x. x\<lparr>irq_bitmap := bm', irq_nr := irq_nr x + 1\<rparr>) (x_ks s))"
    and k: "k < 224" "\<not> bit_at ?b k" "\<forall>m < 2 ^ 64. bit_at bm' m \<longleftrightarrow> bit_at ?b m \<or> m = k"
    using alloc_irqs_cpu_cases [OF the] bm by auto
  let ?k1 = "upd_cpu c (\<lambda>x. x\<lparr>irq_bitmap := bm', irq_nr := irq_nr x + 1\<rparr>) (x_ks s)"
  have g1: "get_cpu n ?k1 = get_cpu n (x_ks s)" for n
  proof -
    have "cpu_id (cpus ?k1 d) = cpu_id (cpus (x_ks s) d)" for d by (simp add: upd_cpu_def)
    then show ?thesis by (simp add: get_cpu_def)
  qed
  have u: "unat (of_nat k :: u32) = k" using k(1) by (simp add: unat_of_nat take_bit_nat_eq_self)
  obtain k2 where rq: "request_irq_smp c (of_int (int k)) tick 0 ?k1 = Some (0, k2)"
    using request_irq_smp_ok [of ?k1 p b "of_int (int k)" c tick 0] mem k(1) u by (auto simp: NR_IRQ_DESC_def upd_cpu_def)
  note rr = request_irq_smp_result [OF rq]
  have g2: "get_cpu n k2 = get_cpu n (x_ks s)" for n using rr(3) g1 by simp
  obtain t where t: "lapic_set_timer cpuid 1 (of_int (int k + 0x20)) (s\<lparr>x_ks := k2\<rparr>) = Some (0, t)"
    "apic_frame (upd_regs (h_cr8_update (\<lambda>_. 0)) (s\<lparr>x_ks := k2\<rparr>)) t"
    "h_writes (x_hw t) = h_writes (x_hw (s\<lparr>x_ks := k2\<rparr>)) @ [apic_store a APIC_REG_TIMER_DCR 0xb,
        apic_store a APIC_REG_LVT_TIMER (0x20000 OR ucast (of_int (int k + 0x20) :: u8)), apic_store a APIC_REG_TIMER_ICR (crystal cpuid div 1)]"
    by (rule lapic_set_timer_ok [OF ready_same_ids [OF ready g2], of 1 "of_int (int k + 0x20)"], simp, rule that, assumption+)
  have kt: "x_ks t = k2" "h_cr8 (x_hw t) = 0" using apic_frame_same(1,16) [OF t(2)] by (simp_all add: upd_regs_def)
  have st: "start_timer cpuid tick s = Some (0, t)"
    using al rq t(1) by (simp add: start_timer_def cpu g1)
  have vec: "ucast (of_int (int k + 0x20) :: u8) = (of_nat (k + 32) :: u64)"
    using vec_ucast [OF k(1)] by simp
  have v: "(32 :: u64) \<le> of_nat (k + 32)" "unat (of_nat (k + 32) - 32 :: u64) = k"
    using vec_32(1) [OF k(1)] k(1) unfolding vec_32(2) by (simp_all add: unat_of_nat take_bit_nat_eq_self)
  have acts: "irq_action_list (irq_descs (cpus k2 c) k) = [\<lparr>act_handler = tick, act_data = 0\<rparr>]"
    using rr(2) u none [OF k(1)] by (simp add: upd_cpu_def)
  obtain k' where "intr_handler_common run (arch_cpuid cpuid) (of_nat (k + 32)) k2 = Some (k', [Handler tick (of_nat (k + 32)) 0, Eoi])"
    using intr_handler_actions [of "arch_cpuid cpuid" k2 c "of_nat (k + 32)" run] g2 cpu v k(1) run acts
    by (auto simp: NR_IRQ_DESC_def simp del: of_nat_add)
  moreover have "irq_bitmap (cpus k2 c) = bm'" using request_irq_bitmap [OF rq, of c] by (simp add: upd_cpu_def)
  ultimately show ?thesis using st k t(3) kt vec
    by (intro exI [of _ k] exI [of _ t] exI [of _ k']) simp
qed


section \<open>Witnesses\<close>

definition demo_two_cpus :: x86 where
  "demo_two_cpus = demo_x86\<lparr>x_ks := upd_node 1 (cpu_list_update (\<lambda>_. [5, 6])) (upd_cpu 6 (cpu_id_update (\<lambda>_. 1)) demo_irq),
     x_lapics := (\<lambda>_. \<lparr>lapic_mode = 1, reg_access = Some By_mmio\<rparr>)\<rparr>"

lemma demo_two_cpus_cpus: "all_cpus (x_ks demo_two_cpus) = [5, 6]" "cpu_id (cpus (x_ks demo_two_cpus) 5) = 0" "cpu_id (cpus (x_ks demo_two_cpus) 6) = 1"
  by (simp_all add: demo_two_cpus_def all_cpus_def demo_irq_def demo_kstate_defs)

lemma demo_two_cpus_ready: "get_cpu (arch_cpuid demo_leaf) (x_ks demo_two_cpus) = Some 5" "lapic_ready demo_leaf demo_two_cpus 0 By_mmio"
proof -
  show g: "get_cpu (arch_cpuid demo_leaf) (x_ks demo_two_cpus) = Some 5"
    by (simp add: get_cpu_def demo_two_cpus_cpus arch_cpuid_def demo_leaf_def)
  show "lapic_ready demo_leaf demo_two_cpus 0 By_mmio"
    using g by (simp add: lapic_ready_def this_lapic_def) (simp add: demo_two_cpus_def demo_x86_def)
qed

lemma wakeup_starts_all_witness:
  "\<exists>t ws. wakeup_all_processors (\<lambda>_. True) [0xfa, 0xfc] 1 demo_leaf demo_two_cpus = Some t \<and> h_writes (x_hw t) = ws \<and>
     ipis_sent 0 ws = [Ipi 1 0 5 0, Ipi 1 0x20 6 0, Ipi 1 0x20 6 0] \<and> cpu_status (cpus (x_ks t) 6) = CPU_STATUS_IDLE \<and>
     x_bytes t (PHYS2VIRT 0x20000 + 1) = 0xfc"
proof -
  have h: "h_writes (x_hw demo_two_cpus) = []" by (simp add: demo_two_cpus_def demo_x86_def)
  have o: "\<forall>i < length [0xfa :: u8, 0xfc]. x_bytes t (PHYS2VIRT 0x20000 + of_nat i) = [0xfa :: u8, 0xfc] ! i \<Longrightarrow>
      x_bytes t (PHYS2VIRT 0x20000 + 1) = 0xfc" for t
    by (drule spec [of _ 1]) simp
  obtain t ws where "wakeup_all_processors (\<lambda>_. True) [0xfa, 0xfc] 1 demo_leaf demo_two_cpus = Some t" "h_writes (x_hw t) = [] @ ws"
    "ipis_sent 0 ws = wake_ipis 1 0x20 0" "cpu_status (cpus (x_ks t) 6) = CPU_STATUS_IDLE" "x_bytes t (PHYS2VIRT 0x20000 + 1) = 0xfc"
    using wakeup_starts_all [OF demo_two_cpus_ready(2), of 1 "\<lambda>_. True" "[0xfa, 0xfc]"] o
    unfolding demo_two_cpus_cpus h by (auto simp: demo_two_cpus_cpus)
  then show ?thesis by (auto simp: wake_ipis_def)
qed

lemma start_timer_ticks_witness:
  "\<exists>k t k'. start_timer demo_leaf 0x5000 demo_two_cpus = Some (0, t) \<and> k < 224 \<and>
     intr_handler_common (\<lambda>_ _. Some) (arch_cpuid demo_leaf) (of_nat (k + 32)) (x_ks t) = Some (k', [Handler 0x5000 (of_nat (k + 32)) 0, Eoi])"
proof -
  have bm: "irq_bitmap (cpus (x_ks demo_two_cpus) 5) = \<lparr>bitmap_data = (\<lambda>_. 0), bitmap_size = 224\<rparr>"
    using demo_irq_facts(3) by (simp add: demo_two_cpus_def upd_cpu_def upd_node_def)
  have the: "the_cpu (x_ks demo_two_cpus) (ucast (cpu_id (cpus (x_ks demo_two_cpus) 5))) 5"
    by (simp add: the_cpu_def demo_two_cpus_cpus)
  have none: "irq_action_list (irq_descs (cpus (x_ks demo_two_cpus) 5) i) = []" for i
    by (simp add: demo_two_cpus_def demo_irq_def demo_kstate_defs)
  obtain p b where m: "kmalloc SIZEOF_IRQ_ACTION 0 (ks_boot (x_ks demo_two_cpus)) = Some (p, b)" "p \<noteq> 0"
    by (simp add: kmalloc_def bootmem_alloc_def demo_two_cpus_def demo_irq_def demo_kstate_defs
        empty_bootmem_def SIZEOF_IRQ_ACTION_def PHYS2VIRT_def KERNEL_SPACE_def roundup_def Let_def)
  have "\<not> bit_at (irq_bitmap (cpus (x_ks demo_two_cpus) 5)) 0" by (simp add: bm bit_at_def bitmap_get_def)
  then show ?thesis
    using start_timer_ticks [OF demo_two_cpus_ready(2,1) the _ _ _ none m, of 0 "\<lambda>_ _. Some" "0x5000"] by (auto simp: bm)
qed

end
