(* ===== verification/Cpu_Ready.thy ===== *)
theory Cpu_Ready
  imports Cpu_Setup
begin

text \<open>
  \<open>x86_cpu_init\<close> as a whole: with memory and consistent features it returns, and the processor
  is ready: tables decoded by the hardware, local APIC reachable, no vector taken, no handler
  registered, idle and interruptible.
\<close>

section \<open>What the tables leave alone\<close>










section \<open>Vectors\<close>






section \<open>A processor's start\<close>

















end
