(* ===== verification/Spec2Isabelle.thy ===== *)
theory Spec2Isabelle
  imports Kernel_List Bitmap Ept Kernel_Map Nodes C_String Sched Spinlock Irq Vmx Xhci Fault Console Cpu_Ready
begin

text \<open>
  A development for Oscar-Kernel, a 64-bit x86 kernel that is also a hypervisor with nested
  virtualisation. The program's parts, all under \<^verbatim>\<open>src/\<close>, in the order the kernel brings them
  up:

  \<^item> memory: the boot allocator (\<^verbatim>\<open>mm/bootmem.c\<close>, \<^verbatim>\<open>mm/mm.c\<close>), on which every
    \<^verbatim>\<open>kmalloc\<close> of the kernel ends, and the nodes and processors the firmware tables describe
    (\<^verbatim>\<open>arch/x86_64/mm/numa.c\<close>, \<^verbatim>\<open>kernel/cpu.c\<close>);
  \<^item> the processor: features, page tables, segments, interrupt gates, local APIC, and the start
    of the other processors (\<^verbatim>\<open>arch/x86_64/entry.c\<close>, \<^verbatim>\<open>lapic.c\<close>, \<^verbatim>\<open>traps.c\<close>,
    \<^verbatim>\<open>mm/fault.c\<close>), with the vectors and handlers of \<^verbatim>\<open>kernel/irq.c\<close>;
  \<^item> tasks (\<^verbatim>\<open>kernel/task.c\<close>, \<^verbatim>\<open>arch/x86_64/kernel/task.c\<close>), driven by the timer interrupt;
  \<^item> the hypervisor (\<^verbatim>\<open>arch/x86_64/kvm\<close>): VMX, extended page tables, a software VMCS for
    a guest that is a hypervisor itself;
  \<^item> devices: PCI, the xHCI controller with USB keyboards, mice and disks, the frame buffer and the
    console that \<^verbatim>\<open>printk\<close> writes to;
  \<^item> the library below them all: \<^verbatim>\<open>include/list.h\<close>, \<^verbatim>\<open>bitmap.h\<close>,
    \<^verbatim>\<open>math.h\<close>, \<^verbatim>\<open>spinlock.h\<close> and \<^verbatim>\<open>lib/string.c\<close>.
\<close>

section \<open>Conventions\<close>

text \<open>
  Definitions carry the names of the C functions, structures and macros. A \<^verbatim>\<open>u8\<close> to
  \<^verbatim>\<open>u64\<close> is a machine word and wraps; a C \<^verbatim>\<open>int\<close> is a signed reading of a
  32-bit word, or an \<open>int\<close> or \<open>nat\<close> where the theory says why it cannot overflow. Functions
  take the state and return it updated. Where the code dereferences a null or an uninitialised
  pointer, leaves an array, divides by zero, executes an instruction the processor refuses, or loops for ever, the
  result is \<open>None\<close>; so a theorem that a function returns shows that none of this happens. There are two
  exceptions. The console reads behind the font's table for bytes from 128 on: \<open>font_data\<close> is all memory from
  the table on, and \<open>Console\<close> shows separately that other characters depend on the table alone. And
  \<^verbatim>\<open>setup_irq\<close> stores the pointer of \<^verbatim>\<open>bitmap_alloc\<close> without a look at it: when it is null, the
  processor's bitmap is what lies at address 0, an argument of the model. A task that is left for good, as in a page fault that kills it, ends the handler that runs on it. Error codes are
  results (\<open>Inl\<close> or the code's own value). A loop over a range is a \<open>fold\<close>; a loop that may
  not end is a \<open>partial_function\<close>; in one place, \<open>Math_Util.ffs_loop\<close>, it has fuel, 33 turns, since the
  word it shifts has 32 bits and each turn shifts by one. Structures allocated by the kernel are records in maps from
  their addresses; memory that hardware reads (page tables, VMCS regions, rings, descriptors,
  video memory) is cells by address. Code in assembly, devices and other processors are arguments
  or separate definitions that follow the vendor's manual; each theory's opening text names them. Messages are left out,
  except where the printed text is the subject (\<open>C_String\<close>, \<open>Console\<close>, \<open>Fault\<close>).
\<close>

section \<open>Theories\<close>

text \<open>
  The library:
  \<^item> \<open>Prelude\<close>: word types, physical and virtual addresses, bytes of memory, the facts about words and
    first-fit searches that the others share.
  \<^item> \<open>Kernel_List\<close> (\<^verbatim>\<open>list.h\<close>): a heap of links and the predicate \<open>clist\<close>, a
    well-formed circular list. The edits refine the operations of abstract lists. The locale
    \<open>intrusive_queue\<close> is the contract the rest of the kernel uses; it is interpreted for both ways of
    deletion, and later theories model queues as lists on its ground.
  \<^item> \<open>Math_Util\<close> (\<^verbatim>\<open>math.h\<close>), \<open>Bitmap\<close> (\<^verbatim>\<open>bitmap.h\<close>, first fit of bits),
    \<open>C_String\<close> (\<^verbatim>\<open>lib/string.c\<close>: copying whatever the overlap, searching, and
    \<^verbatim>\<open>vsprintf\<close> with its round trips).
  \<^item> \<open>Spinlock\<close>: processors that run programs of lock operations, as a step relation; mutual exclusion by rule
    induction, and the interleaving in which two migrations wait for each other.

  Memory:
  \<^item> \<open>Bootmem\<close> (\<^verbatim>\<open>bootmem.c\<close>): the bitmap after \<^verbatim>\<open>bootmem_init\<close>, first fit, and
    disjointness of everything ever handed out.
  \<^item> \<open>Paging\<close> (\<^verbatim>\<open>paging.h\<close>): indices and flags; the locale \<open>page_source\<close> says what a
    page-table builder needs of an allocator, and is interpreted by \<^verbatim>\<open>kmalloc\<close>.
  \<^item> \<open>Ept\<close> (\<^verbatim>\<open>kvm/mmu.c\<close>): the walks and the mapping of pages and ranges, against a walk over a tree of
    tables whose invariant each mapping keeps.
  \<^item> \<open>Kernel_Map\<close> (\<^verbatim>\<open>map_kernel_memory\<close>, \<^verbatim>\<open>fault.c\<close>) and \<open>Fault\<close>
    (\<^verbatim>\<open>traps.c\<close>, \<^verbatim>\<open>fault.c\<close>): the kernel's linear map, what a served page fault adds to the
    tables, and every exception handler, with the task that a refused user access kills.
  \<^item> \<open>Nodes\<close> (\<^verbatim>\<open>mm.c\<close>, \<^verbatim>\<open>cpu.c\<close>, \<^verbatim>\<open>numa.c\<close>), \<open>Acpi\<close>
    (\<^verbatim>\<open>acpi.c\<close>): zones, processor numbers, firmware tables.

  Processors and tasks:
  \<^item> \<open>Segment\<close> (\<^verbatim>\<open>segment.h\<close>, the set-up in \<^verbatim>\<open>entry.c\<close>): the tables are written field by field
    and read back by a processor that decodes raw words, checks every segment load, and takes its
    gates from the table.
  \<^item> \<open>Lapic\<close> (\<^verbatim>\<open>lapic.c\<close>): register access by MSR or memory; the log of stores is read as the
    inter-processor interrupts the hardware sends.
  \<^item> \<open>Cpu_Setup\<close> (\<^verbatim>\<open>entry.c\<close>): control registers and features, the start of a processor, waking the
    others, and the scheduler's timer, which composes \<open>Irq\<close> and \<open>Lapic\<close>.
  \<^item> \<open>Cpu_Ready\<close>: \<^verbatim>\<open>x86_cpu_init\<close> from its first allocation to \<^verbatim>\<open>sti\<close>, composed from the
    result lemmas of the allocator, the page tables, the descriptors, the vectors and the APIC.
  \<^item> \<open>Irq\<close> (\<^verbatim>\<open>irq.c\<close>, the dispatcher of \<^verbatim>\<open>entry.c\<close>): vectors are handed out once, handlers run
    in order.
  \<^item> \<open>Sched\<close> (\<^verbatim>\<open>task.c\<close>): the choice of the next task and its fairness over an epoch,
    budgets, placement of new tasks, migration, context switch.

  The hypervisor:
  \<^item> \<open>Vmcs_Field\<close>, \<open>Vmcs12\<close> (\<^verbatim>\<open>vmx.h\<close>, \<^verbatim>\<open>vmcs12.c\<close>): the encodings and the software VMCS
    as a C layout; what is written to a field is read from it, and no other field changes.
  \<^item> \<open>Vcpu\<close>, \<open>Nested\<close>, \<open>Vmx\<close> (\<^verbatim>\<open>vmx.c\<close>, \<^verbatim>\<open>nested.c\<close>): a virtual processor with its VMCS regions,
    every exit handler, entering and leaving the guest's guest, and the run loop. The central invariant
    relates \<^verbatim>\<open>vcpu->state\<close> to the launch state of the current VMCS, so that the loop always
    chooses between \<^verbatim>\<open>vmlaunch\<close> and \<^verbatim>\<open>vmresume\<close> rightly. The exception is a first entry that
    fails in the checks of the guest state: then the next \<^verbatim>\<open>vmresume\<close> is refused and the loop ends. The
    turns of the loop, and the exits handled in them, are inductive relations.

  Devices:
  \<^item> \<open>Pci\<close> (\<^verbatim>\<open>pci.c\<close>): two ways to configuration space. The locale \<open>config_space\<close>
    is what enumeration and sizing need of them, interpreted by the bridge that uses ports and window.
  \<^item> \<open>Usb\<close>, \<open>Xhci_Ring\<close>, \<open>Xhci\<close> (\<^verbatim>\<open>usb.h\<close>, \<^verbatim>\<open>xhci.c\<close>): packed structures as bit
    layouts; the locale \<open>trb_ring\<close> is a queue between a producer and the controller,
    interpreted by the command ring and by the transfer rings; transfers, enumeration and the interrupt handler use it.
    The relation \<open>served\<close> is a run of the interrupt handler: the events it served, each handled in the
    state the one before left.
  \<^item> \<open>Console\<close> (\<^verbatim>\<open>boot_fb.c\<close>, \<^verbatim>\<open>fb.c\<close>, \<^verbatim>\<open>console.c\<close>, \<^verbatim>\<open>graphic_console.c\<close>): pixels
    drawn by the loops against whole-rectangle specifications, and text as cells of glyphs.
\<close>

section \<open>Properties and lemmas\<close>

text \<open>
  A property of the program is a theorem after a text that begins with its number; its
  witness, where it has hypotheses, applies it to a concrete state. The lemmas before it come in groups: frame facts (what an operation does not touch), one
  result lemma per operation (its value and state on every branch used), invariants kept by every operation, and a
  specification of the hardware the result is measured by. Bounds appear as hypotheses where the
  code relies on them: fewer than \<open>2 ^ 31\<close> bits in a bitmap, page numbers below the table of
  64GB, at most 254 commands or 255 transfer blocks in flight, processor ids that fit in 8 bits,
  a start-up code of at most one page, a run of 1,300 free pages for the start of a processor.
\<close>

section \<open>Not modelled\<close>

text \<open>
  \<^item> \<^verbatim>\<open>arch/x86_64/iommu.c\<close>: its start function has no caller.
  \<^item> \<^verbatim>\<open>drivers/gpu/nvidia\<close>: sequences of register writes to a device without public
    documentation, so there is no specification of what they achieve.
  \<^item> \<^verbatim>\<open>drivers/ethernet/intel\<close>: a demonstration that sends one packet without end, and the
    vendor's list of registers.
  \<^item> \<^verbatim>\<open>drivers/console/font_8x16.h\<close>: the glyphs are a parameter of the console.
  \<^item> \<^verbatim>\<open>set_memory_type\<close>, \<^verbatim>\<open>instruction_test\<close>, \<^verbatim>\<open>test_task\<close> and
    \<^verbatim>\<open>fb_test\<close>: prints and demonstrations; \<^verbatim>\<open>init/main.c\<close> and the rest of
    \<^verbatim>\<open>arch_init\<close> only call the start functions modelled here.
  \<^item> assembly (\<^verbatim>\<open>entry64.S\<close>, \<^verbatim>\<open>isr.S\<close>, \<^verbatim>\<open>vmx.S\<close>), the boot loader and the second
    architecture, which is a stub. \<^verbatim>\<open>__switch_to\<close>, the interrupt entry points, the guest and the
    start-up code of the other processors are arguments or logged events.
  \<^item> Register and flag constants that no code uses (most of \<^verbatim>\<open>msr.h\<close>, \<^verbatim>\<open>pci.h\<close> and
    \<^verbatim>\<open>lapic.h\<close>), and list macros that differ from the modelled ones only by \<^verbatim>\<open>container_of\<close>.
  \<^item> Caches, write buffers and the reordering of memory accesses; concurrency is modelled for the
    spin locks only, every other theory runs one processor at a time.
\<close>

end
